(* ===== verification/LSPrelude.thy ===== *)
theory LSPrelude
  imports Main "HOL-Library.Word"
begin

text \<open>
  Shared vocabulary of the LebensSpur firmware model: C integer types and conversions, C string
  functions (\<open>strtol\<close>, \<open>snprintf\<close> with a buffer size, \<open>strncpy\<close>), decimal and hexadecimal
  printing, the ESP-IDF error codes the sources test, the NVS interface as a parameter, the
  observable effects of a component, and two locales: a state machine with an invariant
  (lifted to runs) and a codec (decode after encode, hence injectivity).
\<close>

unbundle bit_operations_syntax

named_theorems nvs_simps \<open>laws of a lawful NVS, as rewrite rules\<close>

type_synonym u8 = "8 word"
type_synonym u16 = "16 word"
type_synonym u32 = "32 word"

section \<open>C integers\<close>

text \<open>C division truncates towards zero.\<close>

definition cdiv :: "int \<Rightarrow> int \<Rightarrow> int" where
  "cdiv a b = sgn a * sgn b * (\<bar>a\<bar> div \<bar>b\<bar>)"

lemma cdiv_nonneg: "0 \<le> a \<Longrightarrow> 0 < b \<Longrightarrow> cdiv a b = a div b"
  by (cases "a = 0") (simp_all add: cdiv_def)

text \<open>The conversion of an \<open>int64_t\<close> to \<open>uint32_t\<close>: reduction modulo 2 to the 32.\<close>

definition to_u32 :: "int \<Rightarrow> u32" where
  "to_u32 i = word_of_int i"

lemma uint_to_u32: "uint (to_u32 i) = i mod 2 ^ 32"
  by (simp add: to_u32_def uint_word_of_int)

lemma uint_to_u32_id: "0 \<le> i \<Longrightarrow> i < 2 ^ 32 \<Longrightarrow> uint (to_u32 i) = i"
  by (simp add: uint_to_u32)

section \<open>Characters and strings\<close>

definition char_code :: "char \<Rightarrow> nat" where
  "char_code c = of_char c"

lemma char_code_eq: "char_code c = char_code d \<longleftrightarrow> c = d"
  by (simp add: char_code_def)

definition is_digit :: "char \<Rightarrow> bool" where
  "is_digit c = (48 \<le> char_code c \<and> char_code c \<le> 57)"

text \<open>\<open>isspace\<close> of the C locale: space, tab, newline, vertical tab, form feed, carriage return.\<close>

definition is_space :: "char \<Rightarrow> bool" where
  "is_space c = (char_code c = 32 \<or> (9 \<le> char_code c \<and> char_code c \<le> 13))"

text \<open>\<open>snprintf\<close> into a buffer of \<open>cap\<close> bytes keeps at most \<open>cap - 1\<close> characters.\<close>

definition snprintf :: "nat \<Rightarrow> string \<Rightarrow> string" where
  "snprintf cap s = take (cap - 1) s"

lemma snprintf_fits: "length s < cap \<Longrightarrow> snprintf cap s = s"
  by (simp add: snprintf_def)

lemma length_snprintf: "0 < cap \<Longrightarrow> length (snprintf cap s) < cap"
  by (simp add: snprintf_def)

text \<open>\<open>strstr\<close>, as the test whether the needle occurs.\<close>

fun strstr :: "string \<Rightarrow> string \<Rightarrow> bool" where
  "strstr [] n = (n = [])"
| "strstr (c # cs) n = (take (length n) (c # cs) = n \<or> strstr cs n)"

subsection \<open>Decimal printing and \<open>strtol\<close>\<close>

definition digit_char :: "nat \<Rightarrow> char" where
  "digit_char d = ''0123456789'' ! d"

fun dec_nat :: "nat \<Rightarrow> string" where
  "dec_nat n = (if n < 10 then [digit_char n] else dec_nat (n div 10) @ [digit_char (n mod 10)])"

declare dec_nat.simps [simp del]

definition dec_int :: "int \<Rightarrow> string" where
  "dec_int i = (if i < 0 then ''-'' @ dec_nat (nat (- i)) else dec_nat (nat i))"

definition dec_u32 :: "u32 \<Rightarrow> string" where
  "dec_u32 w = dec_nat (unat w)"

lemma digit_cases: "d < 10 \<Longrightarrow> d = 0 \<or> d = 1 \<or> d = 2 \<or> d = 3 \<or> d = 4 \<or> d = 5 \<or> d = 6 \<or> d = 7 \<or> d = 8 \<or> d = (9::nat)"
  by arith

lemma digit_char_code: "d < 10 \<Longrightarrow> char_code (digit_char d) = 48 + d"
  by (drule digit_cases) (auto simp: digit_char_def char_code_def)

lemma is_digit_digit_char: "d < 10 \<Longrightarrow> is_digit (digit_char d)"
  by (simp add: is_digit_def digit_char_code)

lemma dec_nat_digits: "\<forall>c \<in> set (dec_nat n). is_digit c"
proof (induction n rule: dec_nat.induct)
  case (1 n)
  then show ?case
    by (subst dec_nat.simps) (auto simp: is_digit_digit_char)
qed

lemma dec_nat_nonempty: "dec_nat n \<noteq> []"
  by (subst dec_nat.simps) simp

lemma length_dec_nat: "n < 10 ^ Suc k \<Longrightarrow> length (dec_nat n) \<le> Suc k"
proof (induction k arbitrary: n)
  case 0
  then show ?case by (subst dec_nat.simps) simp
next
  case (Suc k)
  have "n div 10 < 10 ^ Suc k"
    using Suc.prems by (simp add: less_mult_imp_div_less)
  then have "length (dec_nat (n div 10)) \<le> Suc k" by (rule Suc.IH)
  then show ?case by (subst dec_nat.simps) simp
qed

lemma length_dec_u32: "length (dec_u32 w) \<le> 10"
proof -
  have "unat w < 2 ^ 32" using unsigned_less [of w] by simp
  then have "unat w < 10 ^ Suc 9" by simp
  from length_dec_nat [OF this] show ?thesis by (simp add: dec_u32_def)
qed

text \<open>
  \<open>strtol(s, &end, 10)\<close> with the 32-bit \<open>long\<close> of the target: skip white space, an optional
  sign, then digits; \<open>None\<close> when no digit was read (\<open>end == s\<close>), saturation out of range.
\<close>

definition LONG_MAX :: int where "LONG_MAX = 2147483647"
definition LONG_MIN :: int where "LONG_MIN = -2147483648"

definition clamp_long :: "int \<Rightarrow> int" where
  "clamp_long i = (if i > LONG_MAX then LONG_MAX else if i < LONG_MIN then LONG_MIN else i)"

fun digits_value :: "nat \<Rightarrow> string \<Rightarrow> nat" where
  "digits_value acc [] = acc"
| "digits_value acc (c # cs) =
     (if is_digit c then digits_value (acc * 10 + (char_code c - 48)) cs else acc)"

definition strtol_digits :: "string \<Rightarrow> nat option" where
  "strtol_digits s = (case s of [] \<Rightarrow> None
     | c # cs \<Rightarrow> (if is_digit c then Some (digits_value 0 s) else None))"

definition strtol10 :: "string \<Rightarrow> int option" where
  "strtol10 s = (let t = dropWhile is_space s in
     case t of [] \<Rightarrow> None
     | c # cs \<Rightarrow>
         (if c = CHR ''-'' then map_option (\<lambda>n. clamp_long (- int n)) (strtol_digits cs)
          else if c = CHR ''+'' then map_option (\<lambda>n. clamp_long (int n)) (strtol_digits cs)
          else map_option (\<lambda>n. clamp_long (int n)) (strtol_digits t)))"

text \<open>\<open>atoi\<close> and \<open>atol\<close>: \<open>strtol\<close> whose end pointer is dropped, so no digits read is 0.\<close>

definition atol :: "string \<Rightarrow> int" where
  "atol s = (case strtol10 s of None \<Rightarrow> 0 | Some n \<Rightarrow> n)"

lemma digits_value_append:
  "\<forall>c \<in> set xs. is_digit c \<Longrightarrow> digits_value acc (xs @ ys) = digits_value (digits_value acc xs) ys"
  by (induction xs arbitrary: acc) auto

lemma digits_value_dec_nat: "digits_value 0 (dec_nat n) = n"
proof (induction n rule: dec_nat.induct)
  case (1 n)
  show ?case
  proof (cases "n < 10")
    case True
    then show ?thesis
      by (subst dec_nat.simps) (simp add: is_digit_digit_char digit_char_code)
  next
    case False
    have d: "n mod 10 < 10" by simp
    from False have "digits_value 0 (dec_nat n) =
        digits_value (digits_value 0 (dec_nat (n div 10))) [digit_char (n mod 10)]"
      by (subst dec_nat.simps) (simp add: digits_value_append dec_nat_digits)
    also have "\<dots> = n div 10 * 10 + n mod 10"
      using "1.IH" [OF False] d by (simp add: is_digit_digit_char digit_char_code)
    finally show ?thesis by simp
  qed
qed

lemma is_digit_not_space: "is_digit c \<Longrightarrow> \<not> is_space c"
  by (auto simp: is_digit_def is_space_def)

lemma is_digit_not_sign: "is_digit c \<Longrightarrow> c \<noteq> CHR ''-'' \<and> c \<noteq> CHR ''+''"
  by (auto simp: is_digit_def char_code_def)

lemma strtol_dec_nat: "int n \<le> LONG_MAX \<Longrightarrow> strtol10 (dec_nat n) = Some (int n)"
proof -
  assume n: "int n \<le> LONG_MAX"
  obtain c cs where d: "dec_nat n = c # cs"
    using dec_nat_nonempty [of n] by (cases "dec_nat n") auto
  have c: "is_digit c" using dec_nat_digits [of n] by (simp add: d)
  have v: "digits_value 0 (c # cs) = n" using digits_value_dec_nat [of n] by (simp only: d)
  show ?thesis
    using c v n is_digit_not_space [OF c] is_digit_not_sign [OF c]
    by (simp add: strtol10_def d strtol_digits_def clamp_long_def LONG_MIN_def
        del: digits_value.simps)
qed

lemma clamp_long_range: "LONG_MIN \<le> clamp_long i \<and> clamp_long i \<le> LONG_MAX"
  by (simp add: clamp_long_def LONG_MAX_def LONG_MIN_def)

lemma strtol10_range: "strtol10 s = Some n \<Longrightarrow> LONG_MIN \<le> n \<and> n \<le> LONG_MAX"
  using clamp_long_range by (auto simp: strtol10_def Let_def split: list.splits if_splits)

lemma atol_range: "LONG_MIN \<le> atol s \<and> atol s \<le> LONG_MAX"
  by (auto simp: atol_def LONG_MAX_def LONG_MIN_def dest: strtol10_range split: option.splits)

subsection \<open>Searching in a string\<close>

text \<open>\<open>strstr\<close>, then past the pattern.\<close>

fun after_str :: "string \<Rightarrow> string \<Rightarrow> string option" where
  "after_str pat s =
     (if take (length pat) s = pat then Some (drop (length pat) s)
      else case s of [] \<Rightarrow> None | c # cs \<Rightarrow> after_str pat cs)"

text \<open>\<open>strchr\<close>, then past the character.\<close>

definition after_char :: "char \<Rightarrow> string \<Rightarrow> string option" where
  "after_char c s = (case dropWhile (\<lambda>x. x \<noteq> c) s of [] \<Rightarrow> None | y # r \<Rightarrow> Some r)"

declare after_str.simps [simp del]

lemma after_str_here: "after_str pat (pat @ s) = Some s"
  by (subst after_str.simps) simp

lemma after_str_skip: "c \<notin> set pre \<Longrightarrow> after_str (c # pat) (pre @ s) = after_str (c # pat) s"
proof (induction pre)
  case (Cons a pre)
  then show ?case by (subst after_str.simps) auto
qed simp

lemma after_str_not: "c \<noteq> d \<Longrightarrow> after_str (a # c # pat) (a # d # s) = after_str (a # c # pat) (d # s)"
  by (subst after_str.simps) simp

lemma strtol_dec_nat_then:
  assumes "int n \<le> LONG_MAX" "\<not> is_digit x"
  shows "strtol10 (dec_nat n @ x # s) = Some (int n)"
proof -
  obtain c cs where d: "dec_nat n = c # cs"
    using dec_nat_nonempty [of n] by (cases "dec_nat n") auto
  have c: "is_digit c" using dec_nat_digits [of n] by (simp add: d)
  have "digits_value 0 (dec_nat n @ x # s) = n"
    using digits_value_append [of "dec_nat n" 0 "x # s"] dec_nat_digits [of n] digits_value_dec_nat [of n] assms(2) by simp
  then have v: "digits_value 0 (c # cs @ x # s) = n" by (simp only: d append.simps)
  show ?thesis
    using c v assms(1) is_digit_not_space [OF c] is_digit_not_sign [OF c]
    by (simp add: strtol10_def d strtol_digits_def clamp_long_def LONG_MIN_def del: digits_value.simps)
qed

subsection \<open>Hexadecimal digits of a byte\<close>

lemma nibble_cases: "d < 16 \<Longrightarrow> d = 0 \<or> d = 1 \<or> d = 2 \<or> d = 3 \<or> d = 4 \<or> d = 5 \<or> d = 6 \<or> d = 7 \<or>
    d = 8 \<or> d = 9 \<or> d = 10 \<or> d = 11 \<or> d = 12 \<or> d = 13 \<or> d = 14 \<or> d = (15::nat)"
  by arith

lemma low_nibble: "unat (b AND 0xF :: u8) = unat b mod 16"
proof -
  have "b AND 0xF = take_bit 4 b" by (simp add: take_bit_eq_mask mask_eq_exp_minus_1)
  then have "unat (b AND 0xF) = take_bit 4 (unat b)" by (simp only: unsigned_take_bit_eq)
  then show ?thesis by (simp add: take_bit_eq_mod)
qed

lemma high_nibble: "unat (drop_bit 4 b AND 0xF :: u8) = unat b div 16"
proof -
  have lt: "unat b < 256" using unsigned_less [of b] by simp
  have "unat (drop_bit 4 b) = drop_bit 4 (take_bit 8 (unat b))"
    using unsigned_drop_bit_eq [of 4 b] by simp
  also have "\<dots> = unat b div 16" using lt by (simp add: drop_bit_eq_div take_bit_eq_mod)
  finally have "unat (drop_bit 4 b) = unat b div 16" .
  moreover have "unat b div 16 < 16" using lt by simp
  ultimately show ?thesis by (simp only: low_nibble) simp
qed

lemma nibbles_lt: "unat (drop_bit 4 b AND 0xF :: u8) < 16" "unat (b AND 0xF :: u8) < 16"
proof -
  have "unat b < 256" using unsigned_less [of b] by simp
  then show "unat (drop_bit 4 b AND 0xF :: u8) < 16" by (simp only: high_nibble)
  show "unat (b AND 0xF :: u8) < 16" by (simp only: low_nibble)
qed

lemma hex_byte: "(drop_bit 4 b AND 0xF :: u8) * 16 + (b AND 0xF) = b"
proof -
  have "word_of_nat (unat (drop_bit 4 b AND 0xF :: u8) * 16 + unat (b AND 0xF)) = (b :: u8)"
    unfolding high_nibble unfolding low_nibble div_mult_mod_eq by simp
  then show ?thesis by simp
qed

section \<open>Error codes\<close>

text \<open>The \<open>esp_err_t\<close> values the sources return or test.\<close>

datatype esp_err = ESP_OK | ESP_FAIL | ESP_ERR_NO_MEM | ESP_ERR_INVALID_ARG | ESP_ERR_INVALID_STATE
  | ESP_ERR_INVALID_SIZE | ESP_ERR_NOT_FOUND | ESP_ERR_TIMEOUT | ESP_ERR_INVALID_RESPONSE
  | ESP_ERR_NVS_NOT_FOUND

section \<open>NVS, a parameter\<close>

text \<open>
  The non-volatile store is ESP-IDF code. Its operations are a record of functions over an
  unknown store type \<open>'n\<close>; every definition that reads or writes flash takes the record as its
  argument. A read is typed: \<open>nvs_get_u8\<close> of an entry written with another type fails.
\<close>

datatype nvs_val = NvU8 u8 | NvU16 u16 | NvU32 u32 | NvI32 int | NvI64 int
  | NvStr string | NvBlob "u8 list"

record 'n nvs_ops =
  nv_open_ro :: "'n \<Rightarrow> string \<Rightarrow> esp_err"
  nv_open_rw :: "'n \<Rightarrow> string \<Rightarrow> esp_err"
  nv_get :: "'n \<Rightarrow> string \<Rightarrow> string \<Rightarrow> nvs_val option"
  nv_set :: "'n \<Rightarrow> string \<Rightarrow> string \<Rightarrow> nvs_val \<Rightarrow> esp_err \<times> 'n"
  nv_erase_key :: "'n \<Rightarrow> string \<Rightarrow> string \<Rightarrow> esp_err \<times> 'n"
  nv_erase_all :: "'n \<Rightarrow> string \<Rightarrow> 'n"
  nv_commit :: "'n \<Rightarrow> string \<Rightarrow> 'n"

text \<open>A call whose error code the source drops.\<close>

definition nv_put :: "'n nvs_ops \<Rightarrow> string \<Rightarrow> string \<Rightarrow> nvs_val \<Rightarrow> 'n \<Rightarrow> 'n" where
  "nv_put N ns k v n = snd (nv_set N n ns k v)"

definition get_u8 :: "'n nvs_ops \<Rightarrow> 'n \<Rightarrow> string \<Rightarrow> string \<Rightarrow> u8 option" where
  "get_u8 N n ns k = (case nv_get N n ns k of Some (NvU8 v) \<Rightarrow> Some v | _ \<Rightarrow> None)"

definition get_u16 :: "'n nvs_ops \<Rightarrow> 'n \<Rightarrow> string \<Rightarrow> string \<Rightarrow> u16 option" where
  "get_u16 N n ns k = (case nv_get N n ns k of Some (NvU16 v) \<Rightarrow> Some v | _ \<Rightarrow> None)"

definition get_u32 :: "'n nvs_ops \<Rightarrow> 'n \<Rightarrow> string \<Rightarrow> string \<Rightarrow> u32 option" where
  "get_u32 N n ns k = (case nv_get N n ns k of Some (NvU32 v) \<Rightarrow> Some v | _ \<Rightarrow> None)"

definition get_i32 :: "'n nvs_ops \<Rightarrow> 'n \<Rightarrow> string \<Rightarrow> string \<Rightarrow> int option" where
  "get_i32 N n ns k = (case nv_get N n ns k of Some (NvI32 v) \<Rightarrow> Some v | _ \<Rightarrow> None)"

definition get_i64 :: "'n nvs_ops \<Rightarrow> 'n \<Rightarrow> string \<Rightarrow> string \<Rightarrow> int option" where
  "get_i64 N n ns k = (case nv_get N n ns k of Some (NvI64 v) \<Rightarrow> Some v | _ \<Rightarrow> None)"

definition get_str :: "'n nvs_ops \<Rightarrow> 'n \<Rightarrow> string \<Rightarrow> string \<Rightarrow> string option" where
  "get_str N n ns k = (case nv_get N n ns k of Some (NvStr v) \<Rightarrow> Some v | _ \<Rightarrow> None)"

definition get_blob :: "'n nvs_ops \<Rightarrow> 'n \<Rightarrow> string \<Rightarrow> string \<Rightarrow> u8 list option" where
  "get_blob N n ns k = (case nv_get N n ns k of Some (NvBlob v) \<Rightarrow> Some v | _ \<Rightarrow> None)"

text \<open>
  The loading pattern of the components: \<open>if (nvs_get_x(h, key, &v) == ESP_OK) { if (ok v) field = v; }\<close>,
  that is, the new value of the field, which stays as it is when the read or the test fails.
\<close>

definition load_val :: "'v option \<Rightarrow> ('v \<Rightarrow> bool) \<Rightarrow> ('v \<Rightarrow> 'a) \<Rightarrow> 'a \<Rightarrow> 'a" where
  "load_val r ok conv old = (case r of None \<Rightarrow> old | Some v \<Rightarrow> if ok v then conv v else old)"

lemma load_val_None [simp]: "load_val None ok conv old = old"
  by (simp add: load_val_def)

lemma load_val_Some: "load_val (Some v) ok conv old = (if ok v then conv v else old)"
  by (simp add: load_val_def)

lemma load_val_P: "P old \<Longrightarrow> (\<And>v. r = Some v \<Longrightarrow> ok v \<Longrightarrow> P (conv v)) \<Longrightarrow> P (load_val r ok conv old)"
  by (auto simp: load_val_def split: option.splits)

lemmas nvs_get_defs = get_u8_def get_u16_def get_u32_def get_i32_def get_i64_def get_str_def
  get_blob_def

text \<open>
  The documented behaviour of a healthy flash: a write succeeds and is what the next read of the
  same key of the same namespace returns, other entries are untouched, erasing a namespace
  removes its entries and no other, a commit changes no visible value, and a namespace that holds
  an entry can be opened read-only. It is a hypothesis of the persistence theorems only.
\<close>

definition nvs_lawful :: "'n nvs_ops \<Rightarrow> bool" where
  "nvs_lawful N \<longleftrightarrow>
     (\<forall>n ns. nv_open_rw N n ns = ESP_OK) \<and>
     (\<forall>n ns k v. nv_get N n ns k = Some v \<longrightarrow> nv_open_ro N n ns = ESP_OK) \<and>
     (\<forall>n ns k v. fst (nv_set N n ns k v) = ESP_OK) \<and>
     (\<forall>n ns k v ns' k'. nv_get N (snd (nv_set N n ns k v)) ns' k' =
        (if ns' = ns \<and> k' = k then Some v else nv_get N n ns' k')) \<and>
     (\<forall>n ns k. fst (nv_erase_key N n ns k) = ESP_OK \<or>
        fst (nv_erase_key N n ns k) = ESP_ERR_NVS_NOT_FOUND) \<and>
     (\<forall>n ns k ns' k'. nv_get N (snd (nv_erase_key N n ns k)) ns' k' =
        (if ns' = ns \<and> k' = k then None else nv_get N n ns' k')) \<and>
     (\<forall>n ns ns' k'. nv_get N (nv_erase_all N n ns) ns' k' =
        (if ns' = ns then None else nv_get N n ns' k')) \<and>
     (\<forall>n ns ns' k'. nv_get N (nv_commit N n ns) ns' k' = nv_get N n ns' k')"

lemma nvs_open_rw [nvs_simps]: "nvs_lawful N \<Longrightarrow> nv_open_rw N n ns = ESP_OK"
  by (simp add: nvs_lawful_def)

lemma nvs_open_ro: "nvs_lawful N \<Longrightarrow> nv_get N n ns k = Some v \<Longrightarrow> nv_open_ro N n ns = ESP_OK"
proof -
  assume l: "nvs_lawful N" and g: "nv_get N n ns k = Some v"
  from l have "\<forall>n ns k v. nv_get N n ns k = Some v \<longrightarrow> nv_open_ro N n ns = ESP_OK"
    unfolding nvs_lawful_def by (elim conjE)
  with g show ?thesis by blast
qed

lemma nvs_set_ok [nvs_simps]: "nvs_lawful N \<Longrightarrow> fst (nv_set N n ns k v) = ESP_OK"
  by (simp add: nvs_lawful_def)

lemma nvs_get_set [nvs_simps]:
  "nvs_lawful N \<Longrightarrow> nv_get N (snd (nv_set N n ns k v)) ns' k' =
     (if ns' = ns \<and> k' = k then Some v else nv_get N n ns' k')"
  by (simp add: nvs_lawful_def)

lemma nvs_get_put [nvs_simps]:
  "nvs_lawful N \<Longrightarrow> nv_get N (nv_put N ns k v n) ns' k' =
     (if ns' = ns \<and> k' = k then Some v else nv_get N n ns' k')"
  by (simp only: nv_put_def nvs_get_set)

lemma nvs_get_erase_all [nvs_simps]:
  "nvs_lawful N \<Longrightarrow> nv_get N (nv_erase_all N n ns) ns' k' =
     (if ns' = ns then None else nv_get N n ns' k')"
  by (simp add: nvs_lawful_def)

lemma nvs_get_erase_key [nvs_simps]:
  "nvs_lawful N \<Longrightarrow> nv_get N (snd (nv_erase_key N n ns k)) ns' k' =
     (if ns' = ns \<and> k' = k then None else nv_get N n ns' k')"
  by (simp add: nvs_lawful_def)

lemma nvs_erase_key_res:
  "nvs_lawful N \<Longrightarrow> fst (nv_erase_key N n ns k) = ESP_OK \<or>
     fst (nv_erase_key N n ns k) = ESP_ERR_NVS_NOT_FOUND"
  by (simp add: nvs_lawful_def)

lemma nvs_get_commit [nvs_simps]:
  "nvs_lawful N \<Longrightarrow> nv_get N (nv_commit N n ns) ns' k' = nv_get N n ns' k'"
  by (simp add: nvs_lawful_def)

text \<open>A concrete store, used to show that the hypothesis can hold: one map per device.\<close>

type_synonym nvs_map = "string \<times> string \<Rightarrow> nvs_val option"

definition nvs_map_ops :: "nvs_map nvs_ops" where
  "nvs_map_ops = \<lparr>
     nv_open_ro = (\<lambda>n ns. ESP_OK),
     nv_open_rw = (\<lambda>n ns. ESP_OK),
     nv_get = (\<lambda>n ns k. n (ns, k)),
     nv_set = (\<lambda>n ns k v. (ESP_OK, n((ns, k) := Some v))),
     nv_erase_key = (\<lambda>n ns k. (ESP_OK, n((ns, k) := None))),
     nv_erase_all = (\<lambda>n ns. (\<lambda>(ns', k). if ns' = ns then None else n (ns', k))),
     nv_commit = (\<lambda>n ns. n) \<rparr>"

lemma nvs_map_lawful: "nvs_lawful nvs_map_ops"
  by (simp add: nvs_lawful_def nvs_map_ops_def)

section \<open>Clock and effects\<close>

text \<open>
  One activation of a handler reads one instant: \<open>esp_timer_get_time()\<close> in microseconds since
  boot and \<open>time(NULL)\<close> in seconds. Both are 64-bit in the source and integers here.
\<close>

record clock =
  up_us :: int
  wall :: int

text \<open>What a component does to the rest of the device, in order.\<close>

datatype eff =
    Publish string "string option"   \<comment> \<open>\<open>sk_event_bus_publish(name, payload)\<close>\<close>
  | GpioLevel int int                \<comment> \<open>\<open>gpio_set_level(pin, level)\<close>\<close>
  | GpioReset int                    \<comment> \<open>\<open>gpio_reset_pin(pin)\<close>\<close>
  | GpioOutput int                   \<comment> \<open>\<open>gpio_set_direction(pin, OUTPUT)\<close>\<close>
  | Restart                          \<comment> \<open>\<open>esp_restart()\<close>\<close>

text \<open>\<open>sk_event_bus_publishf\<close> formats the payload into 256 bytes.\<close>

definition publishf :: "string \<Rightarrow> string \<Rightarrow> eff" where
  "publishf name payload = Publish name (Some (snprintf 256 payload))"

text \<open>The quotation mark of the JSON texts the sources format, a quoted string, a quoted key.\<close>

definition q :: string where "q = [CHR 0x22]"

definition jq :: "string \<Rightarrow> string" where "jq s = q @ s @ q"

definition jk :: "string \<Rightarrow> string" where "jk s = q @ s @ q @ '':''"

definition jbool :: "bool \<Rightarrow> string" where
  "jbool b = (if b then ''true'' else ''false'')"

section \<open>Interfaces\<close>

text \<open>
  A component whose every step keeps an invariant. The client of the interface reasons about
  runs: whatever the order of the steps, the invariant holds after each of them.
\<close>

locale stepping =
  fixes step :: "'s \<Rightarrow> 'e \<Rightarrow> 's"
    and inv :: "'s \<Rightarrow> bool"
    and allowed :: "'e \<Rightarrow> bool"
  assumes step_inv: "inv s \<Longrightarrow> allowed e \<Longrightarrow> inv (step s e)"
begin

lemma run_inv: "inv s \<Longrightarrow> \<forall>e \<in> set es. allowed e \<Longrightarrow> inv (foldl step s es)"
  by (induction es arbitrary: s) (auto intro: step_inv)

lemma run_prefix_inv:
  "inv s \<Longrightarrow> \<forall>e \<in> set es. allowed e \<Longrightarrow> inv (foldl step s (take k es))"
  by (rule run_inv) (auto dest: in_set_takeD)

end

text \<open>A codec: what is decoded from an encoding is the value encoded.\<close>

locale codec =
  fixes enc :: "'a \<Rightarrow> 'b"
    and dec :: "'b \<Rightarrow> 'a option"
    and wf :: "'a \<Rightarrow> bool"
  assumes dec_enc: "wf x \<Longrightarrow> dec (enc x) = Some x"
begin

lemma enc_inj: "wf x \<Longrightarrow> wf y \<Longrightarrow> enc x = enc y \<Longrightarrow> x = y"
  by (metis dec_enc option.inject)

lemma enc_inj_on: "inj_on enc {x. wf x}"
  by (auto intro!: inj_onI enc_inj)

lemma dec_enc_map: "\<forall>x \<in> set xs. wf x \<Longrightarrow> map dec (map enc xs) = map Some xs"
  by (simp add: dec_enc)

end

end
