(* ===== verification/SkEventBus.thy ===== *)
theory SkEventBus
  imports LSPrelude "HOL-Library.Multiset" "HOL-Library.Sublist"
begin

text \<open>
  The event bus of \<open>sk_core/src/sk_event_bus.c\<close>: a table of 64 subscriber slots, the filter
  grammar, subscription into the first free slot, and synchronous delivery, in slot order, to a
  snapshot of the matching subscribers. A handler with its user context is a value of type \<open>'h\<close>;
  \<open>publish\<close> returns the snapshot in the order of the calls, so that a handler that subscribes,
  unsubscribes or publishes does so on the new table while the old snapshot is still being served.
\<close>

section \<open>The bus\<close>

record 'h subscriber =
  in_use :: bool
  sub_id :: int
  sub_filter :: string
  sub_handler :: "'h option"

record 'h bus =
  subs :: "'h subscriber list"
  next_id :: int
  seq :: u32
  ready :: bool

definition SK_EVT_MAX_SUBSCRIBERS :: nat where "SK_EVT_MAX_SUBSCRIBERS = 64"
definition SK_EVT_FILTER_MAXLEN :: nat where "SK_EVT_FILTER_MAXLEN = 48"

definition empty_slot :: "'h subscriber" where
  "empty_slot = \<lparr> in_use = False, sub_id = 0, sub_filter = [], sub_handler = None \<rparr>"

definition bus_static :: "'h bus" where
  "bus_static = \<lparr> subs = replicate SK_EVT_MAX_SUBSCRIBERS empty_slot, next_id = 1, seq = 0, ready = False \<rparr>"

definition sk_event_bus_init :: "'h bus \<Rightarrow> 'h bus" where
  "sk_event_bus_init b = (if ready b then b else
     \<lparr> subs = replicate SK_EVT_MAX_SUBSCRIBERS empty_slot, next_id = 1, seq = 0, ready = True \<rparr>)"

definition filter_matches :: "string \<Rightarrow> string \<Rightarrow> bool" where
  "filter_matches f name =
     (if f = ''*'' then True
      else if length f \<ge> 2 \<and> f ! (length f - 2) = CHR ''.'' \<and> f ! (length f - 1) = CHR ''*''
      then take (length f - 1) name = take (length f - 1) f
      else f = name)"

text \<open>The first free slot.\<close>

fun take_slot :: "'h subscriber \<Rightarrow> 'h subscriber list \<Rightarrow> 'h subscriber list option" where
  "take_slot x [] = None"
| "take_slot x (s # ss) = (if \<not> in_use s then Some (x # ss) else map_option ((#) s) (take_slot x ss))"

text \<open>The result is the error code, the handle written to \<open>out_sub_id\<close>, and the new bus.\<close>

definition sk_event_bus_subscribe :: "string \<Rightarrow> 'h option \<Rightarrow> 'h bus \<Rightarrow> esp_err \<times> int option \<times> 'h bus" where
  "sk_event_bus_subscribe f h b =
     (if \<not> ready b then (ESP_ERR_INVALID_STATE, None, b)
      else if h = None then (ESP_ERR_INVALID_ARG, None, b)
      else if length f \<ge> SK_EVT_FILTER_MAXLEN then (ESP_ERR_INVALID_ARG, None, b)
      else case take_slot \<lparr> in_use = True, sub_id = next_id b, sub_filter = f, sub_handler = h \<rparr> (subs b) of
        None \<Rightarrow> (ESP_ERR_NO_MEM, None, b)
      | Some ss \<Rightarrow> (ESP_OK, Some (next_id b), b\<lparr>subs := ss, next_id := next_id b + 1\<rparr>))"

fun release_slot :: "int \<Rightarrow> 'h subscriber list \<Rightarrow> 'h subscriber list option" where
  "release_slot i [] = None"
| "release_slot i (s # ss) =
     (if in_use s \<and> sub_id s = i then Some (s\<lparr>in_use := False\<rparr> # ss)
      else map_option ((#) s) (release_slot i ss))"

definition sk_event_bus_unsubscribe :: "int \<Rightarrow> 'h bus \<Rightarrow> esp_err \<times> 'h bus" where
  "sk_event_bus_unsubscribe i b =
     (if \<not> ready b then (ESP_ERR_INVALID_STATE, b)
      else case release_slot i (subs b) of
        None \<Rightarrow> (ESP_ERR_NOT_FOUND, b)
      | Some ss \<Rightarrow> (ESP_OK, b\<lparr>subs := ss\<rparr>))"

definition matched :: "string \<Rightarrow> 'h subscriber list \<Rightarrow> 'h option list" where
  "matched name ss = map sub_handler (filter (\<lambda>s. in_use s \<and> filter_matches (sub_filter s) name) ss)"

record event =
  evt_name :: string
  evt_seq :: u32
  evt_payload :: "string option"

text \<open>One publication: the new bus and the calls, in order, with the event they are given.\<close>

definition sk_event_bus_publish :: "string \<Rightarrow> string option \<Rightarrow> 'h bus \<Rightarrow> 'h bus \<times> ('h \<times> event) list" where
  "sk_event_bus_publish name payload b =
     (if \<not> ready b then (b, [])
      else
        (let n = seq b + 1 in
         (b\<lparr>seq := n\<rparr>,
          map (\<lambda>h. (the h, \<lparr> evt_name = name, evt_seq = n, evt_payload = payload \<rparr>)) (matched name (subs b)))))"

definition sk_event_bus_peek_seq :: "'h bus \<Rightarrow> u32" where
  "sk_event_bus_peek_seq b = seq b"

section \<open>Filters\<close>

lemma dot_star_form:
  "length f \<ge> 2 \<and> f ! (length f - 2) = CHR ''.'' \<and> f ! (length f - 1) = CHR ''*'' \<longleftrightarrow> (\<exists>p. f = p @ ''.*'')"
proof
  assume a: "length f \<ge> 2 \<and> f ! (length f - 2) = CHR ''.'' \<and> f ! (length f - 1) = CHR ''*''"
  have "f = take (length f - 2) f @ drop (length f - 2) f" by simp
  also have "drop (length f - 2) f = [f ! (length f - 2), f ! (length f - 1)]"
  proof -
    have "drop (length f - 2) f = f ! (length f - 2) # drop (Suc (length f - 2)) f"
      using a by (intro Cons_nth_drop_Suc [symmetric]) auto
    moreover have "drop (Suc (length f - 2)) f = f ! (length f - 1) # drop (length f) f"
      using a Cons_nth_drop_Suc [of "length f - 1" f] by (auto simp: Suc_diff_Suc numeral_2_eq_2)
    ultimately show ?thesis by simp
  qed
  finally show "\<exists>p. f = p @ ''.*''" using a by metis
next
  assume "\<exists>p. f = p @ ''.*''"
  then show "length f \<ge> 2 \<and> f ! (length f - 2) = CHR ''.'' \<and> f ! (length f - 1) = CHR ''*''"
    by (auto simp: nth_append)
qed

lemma take_prefix: "take (length p) name = p \<longleftrightarrow> prefix p name"
  by (metis append_eq_conv_conj prefix_def)

text \<open>
  The filter grammar of the header: \<open>*\<close> matches every event, \<open>p.*\<close> the names that start with
  \<open>p.\<close>, the dot included, and every other filter its own name only.
\<close>
theorem filter_matches_grammar:
  "filter_matches f name \<longleftrightarrow>
     f = ''*'' \<or> (\<exists>p. f = p @ ''.*'' \<and> prefix (p @ ''.'') name) \<or> f = name"
proof (cases "\<exists>p. f = p @ ''.*''")
  case True
  then obtain p where f: "f = p @ ''.*''" by blast
  then have "filter_matches f name \<longleftrightarrow> f = ''*'' \<or> take (length (p @ ''.'')) name = p @ ''.''"
    using dot_star_form [of f] by (auto simp: filter_matches_def)
  then show ?thesis unfolding take_prefix using f by (auto simp: prefix_def)
next
  case False
  then show ?thesis using dot_star_form [of f] by (auto simp: filter_matches_def)
qed

section \<open>Subscription and delivery\<close>

text \<open>
  What the components rely on when they subscribe at start-up: a successful subscription adds its
  handler to the deliveries of exactly the events its filter matches, a refused one changes
  nothing.
\<close>

locale pubsub =
  fixes subscribe :: "string \<Rightarrow> 'h \<Rightarrow> 'b \<Rightarrow> bool \<times> 'b"
    and deliver :: "string \<Rightarrow> 'b \<Rightarrow> 'h multiset"
    and covers :: "string \<Rightarrow> string \<Rightarrow> bool"
  assumes sub_ok: "fst (subscribe f h b) \<Longrightarrow>
      deliver n (snd (subscribe f h b)) = deliver n b + (if covers f n then {#h#} else {#})"
    and sub_refused: "\<not> fst (subscribe f h b) \<Longrightarrow> snd (subscribe f h b) = b"
begin

fun sub_all :: "(string \<times> 'h) list \<Rightarrow> 'b \<Rightarrow> bool \<times> 'b" where
  "sub_all [] b = (True, b)"
| "sub_all (r # rs) b =
     (fst (subscribe (fst r) (snd r) b) \<and> fst (sub_all rs (snd (subscribe (fst r) (snd r) b))),
      snd (sub_all rs (snd (subscribe (fst r) (snd r) b))))"

lemma deliver_sub_all:
  "fst (sub_all rs b) \<Longrightarrow>
     deliver n (snd (sub_all rs b)) = deliver n b + mset (map snd (filter (\<lambda>r. covers (fst r) n) rs))"
  by (induction rs arbitrary: b) (simp_all add: sub_ok)

lemma deliver_mono: "deliver n b \<subseteq># deliver n (snd (subscribe f h b))"
  by (cases "fst (subscribe f h b)") (simp_all add: sub_ok sub_refused)

lemma deliver_mono_all: "deliver n b \<subseteq># deliver n (snd (sub_all rs b))"
  by (induction rs arbitrary: b) (auto intro: subset_mset.order_trans deliver_mono)

end

lemma take_slot_matched:
  "take_slot x ss = Some ss' \<Longrightarrow> in_use x \<Longrightarrow>
     mset (matched n ss') = mset (matched n ss) +
       (if filter_matches (sub_filter x) n then {#sub_handler x#} else {#})"
  by (induction ss arbitrary: ss') (auto simp: matched_def split: if_splits)

lemma matched_Some:
  "(\<forall>s \<in> set ss. in_use s \<longrightarrow> sub_handler s \<noteq> None) \<Longrightarrow> \<forall>h \<in> set (matched n ss). h \<noteq> None"
  by (auto simp: matched_def)

text \<open>The handlers that a publication of \<open>n\<close> would call.\<close>

definition bus_deliver :: "string \<Rightarrow> 'h bus \<Rightarrow> 'h option multiset" where
  "bus_deliver n b = mset (matched n (subs b))"

definition bus_subscribe :: "string \<Rightarrow> 'h option \<Rightarrow> 'h bus \<Rightarrow> bool \<times> 'h bus" where
  "bus_subscribe f h b = (case sk_event_bus_subscribe f h b of (e, i, b') \<Rightarrow> (e = ESP_OK, b'))"

interpretation event_bus: pubsub bus_subscribe bus_deliver filter_matches
proof
  show "bus_deliver n (snd (bus_subscribe f h b)) =
      bus_deliver n b + (if filter_matches f n then {#h#} else {#})"
    if "fst (bus_subscribe f h b)" for f n :: string and h :: "'h option" and b
    using that
    by (auto simp: bus_subscribe_def sk_event_bus_subscribe_def bus_deliver_def take_slot_matched
        split: if_splits option.splits)
  show "snd (bus_subscribe f h b) = b" if "\<not> fst (bus_subscribe f h b)" for f and h :: "'h option" and b
    using that by (auto simp: bus_subscribe_def sk_event_bus_subscribe_def split: if_splits option.splits)
qed

text \<open>The table at start-up: the used slots come first, in subscription order.\<close>

definition sub_entry :: "int \<Rightarrow> string \<times> 'h \<Rightarrow> 'h subscriber" where
  "sub_entry i r = \<lparr> in_use = True, sub_id = i, sub_filter = fst r, sub_handler = Some (snd r) \<rparr>"

definition boot_bus :: "(string \<times> 'h) list \<Rightarrow> 'h bus \<Rightarrow> 'h bus" where
  "boot_bus rs b = foldl (\<lambda>b r. snd (snd (sk_event_bus_subscribe (fst r) (Some (snd r)) b))) b rs"

lemma in_use_empty [simp]: "\<not> in_use empty_slot"
  by (simp add: empty_slot_def)

lemma take_slot_used: "\<forall>s \<in> set us. in_use s \<Longrightarrow> take_slot x (us @ vs) = map_option ((@) us) (take_slot x vs)"
  by (cases "take_slot x vs") (induction us; simp)+

lemma subscribe_step:
  "ready b \<Longrightarrow> length (fst r) < SK_EVT_FILTER_MAXLEN \<Longrightarrow> take_slot (sub_entry (next_id b) r) (subs b) = Some ss \<Longrightarrow>
     sk_event_bus_subscribe (fst r) (Some (snd r)) b =
       (ESP_OK, Some (next_id b), b\<lparr>subs := ss, next_id := next_id b + 1\<rparr>)"
  by (simp add: sk_event_bus_subscribe_def sub_entry_def)

lemma boot_bus_subs:
  assumes "length rs \<le> SK_EVT_MAX_SUBSCRIBERS" and "\<forall>r \<in> set rs. length (fst r) < SK_EVT_FILTER_MAXLEN"
  shows "boot_bus rs (sk_event_bus_init bus_static) =
    \<lparr> subs = map (\<lambda>i. sub_entry (int i + 1) (rs ! i)) [0..<length rs] @
        replicate (SK_EVT_MAX_SUBSCRIBERS - length rs) empty_slot,
      next_id = int (length rs) + 1, seq = 0, ready = True \<rparr>"
  using assms
proof (induction rs rule: rev_induct)
  case Nil
  then show ?case by (simp add: boot_bus_def sk_event_bus_init_def bus_static_def)
next
  case (snoc r rs)
  have l: "length rs < SK_EVT_MAX_SUBSCRIBERS" using snoc.prems by simp
  have IH: "boot_bus rs (sk_event_bus_init bus_static) =
    \<lparr> subs = map (\<lambda>i. sub_entry (int i + 1) (rs ! i)) [0..<length rs] @
        replicate (SK_EVT_MAX_SUBSCRIBERS - length rs) empty_slot,
      next_id = int (length rs) + 1, seq = 0, ready = True \<rparr>"
    by (rule snoc.IH) (use snoc.prems in auto)
  have rep: "replicate (SK_EVT_MAX_SUBSCRIBERS - length rs) empty_slot =
      empty_slot # replicate (SK_EVT_MAX_SUBSCRIBERS - length (rs @ [r])) empty_slot"
    using l by (cases "SK_EVT_MAX_SUBSCRIBERS - length rs") (auto simp: Suc_diff_Suc)
  have t: "take_slot x (map (\<lambda>i. sub_entry (int i + 1) (rs ! i)) [0..<length rs] @
      replicate (SK_EVT_MAX_SUBSCRIBERS - length rs) empty_slot) =
    Some (map (\<lambda>i. sub_entry (int i + 1) (rs ! i)) [0..<length rs] @
      x # replicate (SK_EVT_MAX_SUBSCRIBERS - length (rs @ [r])) empty_slot)" for x
    by (subst take_slot_used) (auto simp: sub_entry_def rep in_use_empty)
  have m: "map (\<lambda>i. sub_entry (int i + 1) ((rs @ [r]) ! i)) [0..<length rs] =
      map (\<lambda>i. sub_entry (int i + 1) (rs ! i)) [0..<length rs]"
    by (rule map_cong) (auto simp: nth_append)
  have "boot_bus (rs @ [r]) (sk_event_bus_init bus_static) =
      snd (snd (sk_event_bus_subscribe (fst r) (Some (snd r)) (boot_bus rs (sk_event_bus_init bus_static))))"
    by (simp add: boot_bus_def)
  moreover have "map (\<lambda>i. sub_entry (int i + 1) ((rs @ [r]) ! i)) [0..<length (rs @ [r])] =
      map (\<lambda>i. sub_entry (int i + 1) (rs ! i)) [0..<length rs] @ [sub_entry (int (length rs) + 1) r]"
    by (simp add: m)
  moreover have "sk_event_bus_subscribe (fst r) (Some (snd r)) (boot_bus rs (sk_event_bus_init bus_static)) =
      (ESP_OK, Some (int (length rs) + 1), \<lparr> subs = map (\<lambda>i. sub_entry (int i + 1) (rs ! i)) [0..<length rs] @
        sub_entry (int (length rs) + 1) r # replicate (SK_EVT_MAX_SUBSCRIBERS - length (rs @ [r])) empty_slot,
      next_id = int (length rs) + 2, seq = 0, ready = True \<rparr>)"
    using snoc.prems(2) unfolding IH
    by (subst subscribe_step) (simp_all add: t [simplified])
  ultimately show ?case by simp
qed

text \<open>
  Up to 64 subscriptions made at start-up (the number of all the components' subscriptions is
  below that) all succeed, and from then on every event is delivered to exactly the subscribers
  whose filter matches it, each once, synchronously and in the order in which they subscribed, with
  the next sequence number; a 65th subscription is refused and loses nobody.
\<close>
theorem delivery_in_subscription_order:
  assumes "length rs \<le> SK_EVT_MAX_SUBSCRIBERS" and "\<forall>r \<in> set rs. length (fst r) < SK_EVT_FILTER_MAXLEN"
  shows "let b = boot_bus rs (sk_event_bus_init bus_static) in
    sk_event_bus_publish name payload b =
      (b\<lparr>seq := 1\<rparr>, map (\<lambda>r. (snd r, \<lparr> evt_name = name, evt_seq = 1, evt_payload = payload \<rparr>))
         (filter (\<lambda>r. filter_matches (fst r) name) rs)) \<and>
    (length rs = SK_EVT_MAX_SUBSCRIBERS \<longrightarrow> length f < SK_EVT_FILTER_MAXLEN \<longrightarrow>
       sk_event_bus_subscribe f (Some h) b = (ESP_ERR_NO_MEM, None, b))"
proof -
  let ?b = "boot_bus rs (sk_event_bus_init bus_static)"
  note b = boot_bus_subs [OF assms]
  have e: "filter (\<lambda>s. in_use s \<and> filter_matches (sub_filter s) name)
      (replicate k empty_slot) = []" for k
    by (simp add: filter_empty_conv)
  have c: "map (\<lambda>i. (snd (rs ! i), \<lparr> evt_name = name, evt_seq = 1, evt_payload = payload \<rparr>))
      (filter (\<lambda>i. filter_matches (fst (rs ! i)) name) [0..<length rs]) =
    map (\<lambda>r. (snd r, \<lparr> evt_name = name, evt_seq = 1, evt_payload = payload \<rparr>))
      (filter (\<lambda>r. filter_matches (fst r) name) (map ((!) rs) [0..<length rs]))"
    by (simp add: filter_map comp_def)
  have "sk_event_bus_publish name payload ?b =
      (?b\<lparr>seq := 1\<rparr>, map (\<lambda>r. (snd r, \<lparr> evt_name = name, evt_seq = 1, evt_payload = payload \<rparr>))
         (filter (\<lambda>r. filter_matches (fst r) name) rs))"
    using c by (simp add: b sk_event_bus_publish_def matched_def filter_map comp_def e sub_entry_def map_nth)
  moreover have "sk_event_bus_subscribe f (Some h) ?b = (ESP_ERR_NO_MEM, None, ?b)"
    if "length rs = SK_EVT_MAX_SUBSCRIBERS" "length f < SK_EVT_FILTER_MAXLEN"
  proof -
    have "take_slot x (map (\<lambda>i. sub_entry (int i + 1) (rs ! i)) [0..<length rs] @ []) = None" for x
      by (subst take_slot_used) (auto simp: sub_entry_def)
    then show ?thesis using that by (simp add: b sk_event_bus_subscribe_def)
  qed
  ultimately show ?thesis by (simp add: Let_def)
qed

theorem delivery_in_subscription_order_witness:
  "snd (sk_event_bus_publish ''timer.tick'' None (boot_bus [(''timer.*'', 1), (''auth.*'', 2), (''*'', 3 :: nat)]
     (sk_event_bus_init bus_static))) =
   map (\<lambda>h. (h, \<lparr> evt_name = ''timer.tick'', evt_seq = 1, evt_payload = None \<rparr>)) [1, 3]"
proof -
  have l: "length [(''timer.*'', 1), (''auth.*'', 2), (''*'', 3 :: nat)] \<le> SK_EVT_MAX_SUBSCRIBERS"
    "\<forall>r \<in> set [(''timer.*'', 1), (''auth.*'', 2), (''*'', 3 :: nat)]. length (fst r) < SK_EVT_FILTER_MAXLEN"
    by (simp_all add: SK_EVT_MAX_SUBSCRIBERS_def SK_EVT_FILTER_MAXLEN_def)
  show ?thesis using delivery_in_subscription_order [OF l, of "''timer.tick''" None]
    by (simp add: Let_def filter_matches_def)
qed

section \<open>Unsubscription\<close>

definition bus_inv :: "'h bus \<Rightarrow> bool" where
  "bus_inv b \<longleftrightarrow> distinct (map sub_id (filter in_use (subs b))) \<and>
     (\<forall>s \<in> set (subs b). in_use s \<longrightarrow> sub_id s < next_id b) \<and> length (subs b) = SK_EVT_MAX_SUBSCRIBERS"

lemma take_slot_mset:
  "take_slot x ss = Some ss' \<Longrightarrow> in_use x \<Longrightarrow>
     mset (filter in_use ss') = add_mset x (mset (filter in_use ss)) \<and> length ss' = length ss"
  by (induction ss arbitrary: ss') (auto split: if_splits)

lemma release_slot_spec:
  "release_slot i ss = Some ss' \<Longrightarrow> distinct (map sub_id (filter in_use ss)) \<Longrightarrow>
     filter in_use ss' = filter (\<lambda>s. sub_id s \<noteq> i) (filter in_use ss) \<and> length ss' = length ss"
proof (induction ss arbitrary: ss')
  case (Cons s ss)
  show ?case
  proof (cases "in_use s \<and> sub_id s = i")
    case True
    with Cons.prems(2) have "\<forall>x \<in> set (filter in_use ss). sub_id x \<noteq> i"
      by (auto simp: image_iff)
    then have "filter (\<lambda>x. sub_id x \<noteq> i) (filter in_use ss) = filter in_use ss" by (simp only: filter_id_conv)
    moreover have "ss' = s\<lparr>in_use := False\<rparr> # ss" using Cons.prems(1) True by simp
    ultimately show ?thesis using True by simp
  next
    case False
    then obtain r where r: "release_slot i ss = Some r" "ss' = s # r" using Cons.prems(1) by auto
    have "distinct (map sub_id (filter in_use ss))" using Cons.prems(2) by (cases "in_use s") auto
    from Cons.IH [OF r(1) this] show ?thesis using False r(2) by auto
  qed
qed simp

lemma release_slot_None: "release_slot i ss = None \<longleftrightarrow> (\<forall>s \<in> set ss. in_use s \<longrightarrow> sub_id s \<noteq> i)"
  by (induction ss) auto

text \<open>What may happen to the table between two publications.\<close>

datatype 'h bus_op = OpSub string "'h option" | OpUnsub int | OpPublish string "string option"

fun bus_step :: "'h bus \<Rightarrow> 'h bus_op \<Rightarrow> 'h bus" where
  "bus_step b (OpSub f h) = snd (snd (sk_event_bus_subscribe f h b))"
| "bus_step b (OpUnsub i) = snd (sk_event_bus_unsubscribe i b)"
| "bus_step b (OpPublish n p) = fst (sk_event_bus_publish n p b)"

lemma bus_inv_sub: "bus_inv b \<Longrightarrow> bus_inv (snd (snd (sk_event_bus_subscribe f h b)))"
proof (cases "ready b \<and> h \<noteq> None \<and> length f < SK_EVT_FILTER_MAXLEN")
  case False
  assume "bus_inv b"
  then show ?thesis using False by (auto simp: sk_event_bus_subscribe_def)
next
  case True
  assume b: "bus_inv b"
  define x where "x = \<lparr> in_use = True, sub_id = next_id b, sub_filter = f, sub_handler = h \<rparr>"
  show ?thesis
  proof (cases "take_slot x (subs b)")
    case None
    then show ?thesis using True b by (simp add: sk_event_bus_subscribe_def x_def)
  next
    case (Some ss)
    then have m: "mset (filter in_use ss) = add_mset x (mset (filter in_use (subs b)))" "length ss = length (subs b)"
      using take_slot_mset [OF Some] by (simp_all add: x_def)
    have "mset (map sub_id (filter in_use ss)) = add_mset (next_id b) (mset (map sub_id (filter in_use (subs b))))"
      by (simp only: mset_map m(1) image_mset_add_mset) (simp add: x_def)
    then have "distinct (map sub_id (filter in_use ss)) \<longleftrightarrow>
        distinct (next_id b # map sub_id (filter in_use (subs b)))"
      by (metis mset.simps(2) mset_eq_imp_distinct_iff)
    moreover have "next_id b \<notin> set (map sub_id (filter in_use (subs b)))"
      using b by (auto simp: bus_inv_def)
    moreover have "set (filter in_use ss) = insert x (set (filter in_use (subs b)))"
      by (simp only: m(1) set_mset_add_mset_insert flip: set_mset_mset)
    then have "\<forall>s \<in> set ss. in_use s \<longrightarrow> s = x \<or> s \<in> set (subs b)" by auto
    moreover have "snd (snd (sk_event_bus_subscribe f h b)) = b\<lparr>subs := ss, next_id := next_id b + 1\<rparr>"
      using True Some by (auto simp: sk_event_bus_subscribe_def simp flip: x_def)
    moreover have "sub_id x = next_id b" by (simp add: x_def)
    ultimately show ?thesis using b m(2) by (fastforce simp: bus_inv_def)
  qed
qed

lemma distinct_key_once:
  "distinct (map f xs) \<Longrightarrow> \<exists>x \<in> set xs. f x = i \<Longrightarrow> length (filter (\<lambda>x. f x = i) xs) = 1"
proof (induction xs)
  case (Cons a xs)
  show ?case
  proof (cases "f a = i")
    case True
    with Cons.prems(1) have "filter (\<lambda>x. f x = i) xs = []" by (auto simp: filter_empty_conv image_iff)
    with True show ?thesis by simp
  next
    case False
    with Cons show ?thesis by auto
  qed
qed simp

lemma bus_inv_init: "bus_inv (sk_event_bus_init bus_static)"
  by (simp add: bus_inv_def sk_event_bus_init_def bus_static_def)

lemma bus_inv_unsub: "bus_inv b \<Longrightarrow> bus_inv (snd (sk_event_bus_unsubscribe i b))"
proof (cases "ready b \<and> release_slot i (subs b) \<noteq> None")
  case True
  assume b: "bus_inv b"
  from True obtain ss where ss: "release_slot i (subs b) = Some ss" by auto
  note r = release_slot_spec [OF ss] b [unfolded bus_inv_def]
  then have f: "filter in_use ss = filter (\<lambda>s. sub_id s \<noteq> i) (filter in_use (subs b))" by blast
  have "distinct (map sub_id (filter in_use ss))" unfolding f by (rule distinct_map_filter) (use r in simp)
  moreover have "in_use s \<longrightarrow> sub_id s < next_id b" if "s \<in> set ss" for s
  proof
    assume "in_use s"
    with that have "s \<in> set (filter in_use ss)" by simp
    then have "s \<in> set (subs b)" unfolding f by simp
    with r \<open>in_use s\<close> show "sub_id s < next_id b" by blast
  qed
  moreover have "length ss = SK_EVT_MAX_SUBSCRIBERS" using r by simp
  ultimately have "bus_inv (b\<lparr>subs := ss\<rparr>)" unfolding bus_inv_def by simp
  moreover have "snd (sk_event_bus_unsubscribe i b) = b\<lparr>subs := ss\<rparr>"
    using True ss by (simp add: sk_event_bus_unsubscribe_def)
  ultimately show ?thesis by simp
qed (auto simp: sk_event_bus_unsubscribe_def split: option.splits)

interpretation bus_table: stepping bus_step bus_inv "\<lambda>_. True"
proof
  fix b :: "'h bus" and e
  assume "bus_inv b"
  then show "bus_inv (bus_step b e)"
    using bus_inv_sub [of b] bus_inv_unsub [of b]
    by (cases e) (simp_all add: sk_event_bus_publish_def bus_inv_def Let_def)
qed

text \<open>
  In every table that subscriptions, unsubscriptions and publications in any order can produce,
  a handle names one subscriber: unsubscribing it removes that subscriber's deliveries and no
  other's, keeps the order of the rest, and a second attempt reports ESP_ERR_NOT_FOUND.
\<close>
theorem unsubscribe_removes_one:
  assumes "b = foldl bus_step (sk_event_bus_init bus_static) ops" and "sk_event_bus_unsubscribe i b = (ESP_OK, b')"
  shows "matched name (subs b') = map sub_handler
      (filter (\<lambda>s. sub_id s \<noteq> i \<and> in_use s \<and> filter_matches (sub_filter s) name) (subs b)) \<and>
    length (filter (\<lambda>s. in_use s \<and> sub_id s = i) (subs b)) = 1 \<and>
    sk_event_bus_unsubscribe i b' = (ESP_ERR_NOT_FOUND, b')"
proof -
  have inv: "bus_inv b" unfolding assms(1) by (rule bus_table.run_inv) (simp_all add: bus_inv_init)
  obtain ss where ss: "release_slot i (subs b) = Some ss" and r: "ready b" and b': "b' = b\<lparr>subs := ss\<rparr>"
    using assms(2) by (auto simp: sk_event_bus_unsubscribe_def split: if_splits option.splits)
  have d: "distinct (map sub_id (filter in_use (subs b)))" using inv by (simp add: bus_inv_def)
  have f: "filter in_use ss = filter (\<lambda>s. sub_id s \<noteq> i) (filter in_use (subs b))"
    using release_slot_spec [OF ss d] by simp
  have "matched name (subs b') = map sub_handler (filter (\<lambda>s. filter_matches (sub_filter s) name) (filter in_use ss))"
    by (simp add: matched_def b' conj_commute)
  also have "\<dots> = map sub_handler
      (filter (\<lambda>s. sub_id s \<noteq> i \<and> in_use s \<and> filter_matches (sub_filter s) name) (subs b))"
    unfolding f by (simp add: conj_ac)
  finally have m: "matched name (subs b') = \<dots>" .
  have "release_slot i ss = None"
  proof -
    have "\<forall>s \<in> set (filter in_use ss). sub_id s \<noteq> i" unfolding f by simp
    then show ?thesis by (simp add: release_slot_None)
  qed
  then have n: "sk_event_bus_unsubscribe i b' = (ESP_ERR_NOT_FOUND, b')"
    using r by (simp add: sk_event_bus_unsubscribe_def b')
  have "\<exists>s \<in> set (filter in_use (subs b)). sub_id s = i"
    using ss release_slot_None [of i "subs b"] by auto
  then have "length (filter (\<lambda>s. sub_id s = i) (filter in_use (subs b))) = 1"
    using distinct_key_once [OF d] by blast
  then have "length (filter (\<lambda>s. in_use s \<and> sub_id s = i) (subs b)) = 1"
    by (simp only: filter_filter conj_commute)
  with m n show ?thesis by blast
qed

theorem unsubscribe_removes_one_witness:
  "matched ''timer.tick'' (subs (snd (sk_event_bus_unsubscribe 1
     (foldl bus_step (sk_event_bus_init bus_static) [OpSub ''*'' (Some 7), OpSub ''timer.*'' (Some (8 :: nat))])))) = [Some 8]"
proof -
  let ?b = "foldl bus_step (sk_event_bus_init bus_static) [OpSub ''*'' (Some 7), OpSub ''timer.*'' (Some (8 :: nat))]"
  have "fst (sk_event_bus_unsubscribe 1 ?b) = ESP_OK" by code_simp
  then have "sk_event_bus_unsubscribe 1 ?b = (ESP_OK, snd (sk_event_bus_unsubscribe 1 ?b))"
    by (metis prod.collapse)
  from unsubscribe_removes_one [OF refl this, of "''timer.tick''"]
  have "matched ''timer.tick'' (subs (snd (sk_event_bus_unsubscribe 1 ?b))) = map sub_handler
      (filter (\<lambda>s. sub_id s \<noteq> 1 \<and> in_use s \<and> filter_matches (sub_filter s) ''timer.tick'') (subs ?b))" by blast
  also have "\<dots> = [Some 8]" by code_simp
  finally show ?thesis .
qed

end
