(* ===== verification/SkErrors.thy ===== *)
theory SkErrors
  imports LSPrelude
begin

text \<open>
  The error table of \<open>sk_errors.h\<close> / \<open>sk_errors.c\<close>: the codes in declaration order, the strings of
  the NDJSON \<open>err\<close> field and the English messages. The codes of the X-macro are distinct strings,
  so a client can tell the errors apart.
\<close>

datatype sk_err = SK_OK
  | SK_ERR_UNKNOWN_COMMAND
  | SK_ERR_INVALID_ARG
  | SK_ERR_MISSING_ARG
  | SK_ERR_NOT_AUTHENTICATED
  | SK_ERR_NONCE_REPLAY
  | SK_ERR_TIMESTAMP_OUT_OF_WINDOW
  | SK_ERR_HMAC_INVALID
  | SK_ERR_CONFIRM_TOKEN_REQUIRED
  | SK_ERR_CONFIRM_TOKEN_INVALID
  | SK_ERR_NVS_READ
  | SK_ERR_NVS_WRITE
  | SK_ERR_NVS_FULL
  | SK_ERR_FILE_NOT_FOUND
  | SK_ERR_FILE_TOO_LARGE_FOR_BLE
  | SK_ERR_FILE_CRC_MISMATCH
  | SK_ERR_FILE_HASH_MISMATCH
  | SK_ERR_NO_SPACE
  | SK_ERR_WIFI_NOT_CONNECTED
  | SK_ERR_WIFI_AUTH
  | SK_ERR_WIFI_TIMEOUT
  | SK_ERR_WIFI_SCAN_FAIL
  | SK_ERR_INVALID_CIDR
  | SK_ERR_INVALID_UNIT
  | SK_ERR_INVALID_VALUE
  | SK_ERR_NOT_FOUND
  | SK_ERR_SMTP_NO_CONFIG
  | SK_ERR_SMTP_AUTH
  | SK_ERR_SMTP_CONNECT
  | SK_ERR_SMTP_TLS
  | SK_ERR_INVALID_EMAIL
  | SK_ERR_OTA_IN_PROGRESS
  | SK_ERR_NO_UPDATE
  | SK_ERR_NO_ROLLBACK
  | SK_ERR_BUSY
  | SK_ERR_BLE_NO_BOND
  | SK_ERR_PAIRING_MODE_CLOSED
  | SK_ERR_API_TIMEOUT
  | SK_ERR_API_CONNECT
  | SK_ERR_API_TLS
  | SK_ERR_API_BAD_STATUS
  | SK_ERR_API_NOT_FOUND
  | SK_ERR_API_INVALID_TYPE
  | SK_ERR_API_NOT_CONFIGURED
  | SK_ERR_API_DISABLED
  | SK_ERR_API_OFFLINE
  | SK_ERR_INTERNAL

primrec sk_err_code_string :: "sk_err \<Rightarrow> string" where
  "sk_err_code_string SK_OK = ''OK''"
| "sk_err_code_string SK_ERR_UNKNOWN_COMMAND = ''ERR_UNKNOWN_COMMAND''"
| "sk_err_code_string SK_ERR_INVALID_ARG = ''ERR_INVALID_ARG''"
| "sk_err_code_string SK_ERR_MISSING_ARG = ''ERR_MISSING_ARG''"
| "sk_err_code_string SK_ERR_NOT_AUTHENTICATED = ''ERR_NOT_AUTHENTICATED''"
| "sk_err_code_string SK_ERR_NONCE_REPLAY = ''ERR_NONCE_REPLAY''"
| "sk_err_code_string SK_ERR_TIMESTAMP_OUT_OF_WINDOW = ''ERR_TIMESTAMP_OUT_OF_WINDOW''"
| "sk_err_code_string SK_ERR_HMAC_INVALID = ''ERR_HMAC_INVALID''"
| "sk_err_code_string SK_ERR_CONFIRM_TOKEN_REQUIRED = ''ERR_CONFIRM_TOKEN_REQUIRED''"
| "sk_err_code_string SK_ERR_CONFIRM_TOKEN_INVALID = ''ERR_CONFIRM_TOKEN_INVALID''"
| "sk_err_code_string SK_ERR_NVS_READ = ''ERR_NVS_READ''"
| "sk_err_code_string SK_ERR_NVS_WRITE = ''ERR_NVS_WRITE''"
| "sk_err_code_string SK_ERR_NVS_FULL = ''ERR_NVS_FULL''"
| "sk_err_code_string SK_ERR_FILE_NOT_FOUND = ''ERR_FILE_NOT_FOUND''"
| "sk_err_code_string SK_ERR_FILE_TOO_LARGE_FOR_BLE = ''ERR_FILE_TOO_LARGE_FOR_BLE''"
| "sk_err_code_string SK_ERR_FILE_CRC_MISMATCH = ''ERR_FILE_CRC_MISMATCH''"
| "sk_err_code_string SK_ERR_FILE_HASH_MISMATCH = ''ERR_FILE_HASH_MISMATCH''"
| "sk_err_code_string SK_ERR_NO_SPACE = ''ERR_NO_SPACE''"
| "sk_err_code_string SK_ERR_WIFI_NOT_CONNECTED = ''ERR_WIFI_NOT_CONNECTED''"
| "sk_err_code_string SK_ERR_WIFI_AUTH = ''ERR_WIFI_AUTH''"
| "sk_err_code_string SK_ERR_WIFI_TIMEOUT = ''ERR_WIFI_TIMEOUT''"
| "sk_err_code_string SK_ERR_WIFI_SCAN_FAIL = ''ERR_WIFI_SCAN_FAIL''"
| "sk_err_code_string SK_ERR_INVALID_CIDR = ''ERR_INVALID_CIDR''"
| "sk_err_code_string SK_ERR_INVALID_UNIT = ''ERR_INVALID_UNIT''"
| "sk_err_code_string SK_ERR_INVALID_VALUE = ''ERR_INVALID_VALUE''"
| "sk_err_code_string SK_ERR_NOT_FOUND = ''ERR_NOT_FOUND''"
| "sk_err_code_string SK_ERR_SMTP_NO_CONFIG = ''ERR_SMTP_NO_CONFIG''"
| "sk_err_code_string SK_ERR_SMTP_AUTH = ''ERR_SMTP_AUTH''"
| "sk_err_code_string SK_ERR_SMTP_CONNECT = ''ERR_SMTP_CONNECT''"
| "sk_err_code_string SK_ERR_SMTP_TLS = ''ERR_SMTP_TLS''"
| "sk_err_code_string SK_ERR_INVALID_EMAIL = ''ERR_INVALID_EMAIL''"
| "sk_err_code_string SK_ERR_OTA_IN_PROGRESS = ''ERR_OTA_IN_PROGRESS''"
| "sk_err_code_string SK_ERR_NO_UPDATE = ''ERR_NO_UPDATE''"
| "sk_err_code_string SK_ERR_NO_ROLLBACK = ''ERR_NO_ROLLBACK''"
| "sk_err_code_string SK_ERR_BUSY = ''ERR_BUSY''"
| "sk_err_code_string SK_ERR_BLE_NO_BOND = ''ERR_BLE_NO_BOND''"
| "sk_err_code_string SK_ERR_PAIRING_MODE_CLOSED = ''ERR_PAIRING_MODE_CLOSED''"
| "sk_err_code_string SK_ERR_API_TIMEOUT = ''ERR_API_TIMEOUT''"
| "sk_err_code_string SK_ERR_API_CONNECT = ''ERR_API_CONNECT''"
| "sk_err_code_string SK_ERR_API_TLS = ''ERR_API_TLS''"
| "sk_err_code_string SK_ERR_API_BAD_STATUS = ''ERR_API_BAD_STATUS''"
| "sk_err_code_string SK_ERR_API_NOT_FOUND = ''ERR_API_NOT_FOUND''"
| "sk_err_code_string SK_ERR_API_INVALID_TYPE = ''ERR_API_INVALID_TYPE''"
| "sk_err_code_string SK_ERR_API_NOT_CONFIGURED = ''ERR_API_NOT_CONFIGURED''"
| "sk_err_code_string SK_ERR_API_DISABLED = ''ERR_API_DISABLED''"
| "sk_err_code_string SK_ERR_API_OFFLINE = ''ERR_API_OFFLINE''"
| "sk_err_code_string SK_ERR_INTERNAL = ''ERR_INTERNAL''"

primrec sk_err_message :: "sk_err \<Rightarrow> string" where
  "sk_err_message SK_OK = []"
| "sk_err_message SK_ERR_UNKNOWN_COMMAND = ''Unknown command''"
| "sk_err_message SK_ERR_INVALID_ARG = ''Argument is invalid''"
| "sk_err_message SK_ERR_MISSING_ARG = ''Required argument is missing''"
| "sk_err_message SK_ERR_NOT_AUTHENTICATED = ''Handshake not completed''"
| "sk_err_message SK_ERR_NONCE_REPLAY = ''Nonce already used''"
| "sk_err_message SK_ERR_TIMESTAMP_OUT_OF_WINDOW = ''Timestamp outside accepted window''"
| "sk_err_message SK_ERR_HMAC_INVALID = ''Message signature does not verify''"
| "sk_err_message SK_ERR_CONFIRM_TOKEN_REQUIRED = ''Critical command needs confirm token''"
| "sk_err_message SK_ERR_CONFIRM_TOKEN_INVALID = ''Confirm token is invalid or expired''"
| "sk_err_message SK_ERR_NVS_READ = ''NVS read failed''"
| "sk_err_message SK_ERR_NVS_WRITE = ''NVS write failed''"
| "sk_err_message SK_ERR_NVS_FULL = ''NVS namespace full''"
| "sk_err_message SK_ERR_FILE_NOT_FOUND = ''File not found''"
| "sk_err_message SK_ERR_FILE_TOO_LARGE_FOR_BLE = ''File exceeds BLE size limit; use WiFi/USB''"
| "sk_err_message SK_ERR_FILE_CRC_MISMATCH = ''File chunk CRC mismatch''"
| "sk_err_message SK_ERR_FILE_HASH_MISMATCH = ''File hash mismatch on finalize''"
| "sk_err_message SK_ERR_NO_SPACE = ''Not enough storage''"
| "sk_err_message SK_ERR_WIFI_NOT_CONNECTED = ''WiFi STA is not connected''"
| "sk_err_message SK_ERR_WIFI_AUTH = ''WiFi authentication failed''"
| "sk_err_message SK_ERR_WIFI_TIMEOUT = ''WiFi connection timed out''"
| "sk_err_message SK_ERR_WIFI_SCAN_FAIL = ''WiFi scan failed''"
| "sk_err_message SK_ERR_INVALID_CIDR = ''Static IP format invalid''"
| "sk_err_message SK_ERR_INVALID_UNIT = ''Invalid unit''"
| "sk_err_message SK_ERR_INVALID_VALUE = ''Value out of range''"
| "sk_err_message SK_ERR_NOT_FOUND = ''Not found''"
| "sk_err_message SK_ERR_SMTP_NO_CONFIG = ''SMTP not configured''"
| "sk_err_message SK_ERR_SMTP_AUTH = ''SMTP authentication rejected''"
| "sk_err_message SK_ERR_SMTP_CONNECT = ''SMTP connection failed''"
| "sk_err_message SK_ERR_SMTP_TLS = ''SMTP TLS handshake failed''"
| "sk_err_message SK_ERR_INVALID_EMAIL = ''Email address format invalid''"
| "sk_err_message SK_ERR_OTA_IN_PROGRESS = ''OTA already in progress''"
| "sk_err_message SK_ERR_NO_UPDATE = ''No update available''"
| "sk_err_message SK_ERR_NO_ROLLBACK = ''No valid firmware to roll back to''"
| "sk_err_message SK_ERR_BUSY = ''Device is busy''"
| "sk_err_message SK_ERR_BLE_NO_BOND = ''No BLE bond; pair first''"
| "sk_err_message SK_ERR_PAIRING_MODE_CLOSED = ''Pairing mode is closed''"
| "sk_err_message SK_ERR_API_TIMEOUT = ''API call timed out''"
| "sk_err_message SK_ERR_API_CONNECT = ''API connect failed''"
| "sk_err_message SK_ERR_API_TLS = ''API TLS handshake failed''"
| "sk_err_message SK_ERR_API_BAD_STATUS = ''API got non-2xx status''"
| "sk_err_message SK_ERR_API_NOT_FOUND = ''Endpoint name not configured''"
| "sk_err_message SK_ERR_API_INVALID_TYPE = ''Unknown endpoint type''"
| "sk_err_message SK_ERR_API_NOT_CONFIGURED = ''Endpoint missing required field''"
| "sk_err_message SK_ERR_API_DISABLED = ''API master switch is off''"
| "sk_err_message SK_ERR_API_OFFLINE = ''WiFi STA not connected''"
| "sk_err_message SK_ERR_INTERNAL = ''Internal device error''"

text \<open>The table as a list, in the order of the enum.\<close>

definition sk_err_table :: "sk_err list" where
  "sk_err_table = [SK_OK, SK_ERR_UNKNOWN_COMMAND, SK_ERR_INVALID_ARG, SK_ERR_MISSING_ARG,
     SK_ERR_NOT_AUTHENTICATED, SK_ERR_NONCE_REPLAY, SK_ERR_TIMESTAMP_OUT_OF_WINDOW,
     SK_ERR_HMAC_INVALID, SK_ERR_CONFIRM_TOKEN_REQUIRED, SK_ERR_CONFIRM_TOKEN_INVALID,
     SK_ERR_NVS_READ, SK_ERR_NVS_WRITE, SK_ERR_NVS_FULL,
     SK_ERR_FILE_NOT_FOUND, SK_ERR_FILE_TOO_LARGE_FOR_BLE, SK_ERR_FILE_CRC_MISMATCH,
     SK_ERR_FILE_HASH_MISMATCH, SK_ERR_NO_SPACE, SK_ERR_WIFI_NOT_CONNECTED,
     SK_ERR_WIFI_AUTH, SK_ERR_WIFI_TIMEOUT, SK_ERR_WIFI_SCAN_FAIL,
     SK_ERR_INVALID_CIDR, SK_ERR_INVALID_UNIT, SK_ERR_INVALID_VALUE,
     SK_ERR_NOT_FOUND, SK_ERR_SMTP_NO_CONFIG, SK_ERR_SMTP_AUTH,
     SK_ERR_SMTP_CONNECT, SK_ERR_SMTP_TLS, SK_ERR_INVALID_EMAIL,
     SK_ERR_OTA_IN_PROGRESS, SK_ERR_NO_UPDATE, SK_ERR_NO_ROLLBACK,
     SK_ERR_BUSY, SK_ERR_BLE_NO_BOND, SK_ERR_PAIRING_MODE_CLOSED,
     SK_ERR_API_TIMEOUT, SK_ERR_API_CONNECT, SK_ERR_API_TLS,
     SK_ERR_API_BAD_STATUS, SK_ERR_API_NOT_FOUND, SK_ERR_API_INVALID_TYPE,
     SK_ERR_API_NOT_CONFIGURED, SK_ERR_API_DISABLED, SK_ERR_API_OFFLINE,
     SK_ERR_INTERNAL]"

lemma sk_err_table_complete: "e \<in> set sk_err_table"
  by (cases e) (simp_all add: sk_err_table_def)

lemma sk_err_codes_distinct: "distinct (map sk_err_code_string sk_err_table)"
  by code_simp

lemma sk_err_code_string_inj: "sk_err_code_string e = sk_err_code_string e' \<Longrightarrow> e = e'"
  using sk_err_codes_distinct sk_err_table_complete
  by (auto simp: distinct_map dest: inj_onD)

end
