(* ===== verification/SkCli.thy ===== *)
theory SkCli
  imports SkErrors Complex_Main
begin

text \<open>
  The command line of \<open>sk_core/src/sk_cli.c\<close>: the invocation context and its argument accessors,
  the command and topic tables, the human-mode tokenizer and longest-prefix resolution, the
  response envelopes, and the dispatcher with its authentication and confirm-token gates. The
  JSON parser is cJSON, third-party code: a function argument \<open>parse\<close> from a line to a tree.
  A device is a state type \<open>'s\<close>; a command handler is a function on it.
\<close>

section \<open>JSON trees\<close>

datatype json = JNull | JBool bool | JNum rat | JStr string | JArr "json list"
  | JObj "(string \<times> json) list"

text \<open>\<open>cJSON_GetObjectItemCaseSensitive\<close>: the first member with the key, of objects only.\<close>

fun jget :: "json \<Rightarrow> string \<Rightarrow> json option" where
  "jget (JObj kvs) k = map_of kvs k"
| "jget _ k = None"

fun jstr :: "json option \<Rightarrow> string option" where
  "jstr (Some (JStr s)) = Some s"
| "jstr _ = None"

text \<open>The C conversion of a \<open>double\<close> to an integer type truncates towards zero.\<close>

definition trunc_rat :: "rat \<Rightarrow> int" where
  "trunc_rat r = (if r < 0 then - \<lfloor>- r\<rfloor> else \<lfloor>r\<rfloor>)"

lemma trunc_rat_of_int: "trunc_rat (of_int i) = i"
  by (simp add: trunc_rat_def flip: of_int_minus)

section \<open>Context and arguments\<close>

record cli_ctx =
  is_machine_mode :: bool
  command_name :: string
  confirm_token :: "string option"
  authenticated :: bool
  machine_args :: "json option"
  machine_id :: int
  human_argv :: "string list"

definition sk_cli_arg :: "cli_ctx \<Rightarrow> nat \<Rightarrow> string option" where
  "sk_cli_arg ctx i = (if i < length (human_argv ctx) then Some (human_argv ctx ! i) else None)"

text \<open>The pairwise scan of \<open>argv\<close>: the token after the first occurrence of the keyword.\<close>

fun after_pair :: "string \<Rightarrow> string list \<Rightarrow> string option" where
  "after_pair k (a # b # xs) = (if a = k then Some b else after_pair k (b # xs))"
| "after_pair k _ = None"

definition sk_cli_arg_named :: "cli_ctx \<Rightarrow> string \<Rightarrow> string option" where
  "sk_cli_arg_named ctx key =
     (if is_machine_mode ctx then
        (case machine_args ctx of None \<Rightarrow> None | Some a \<Rightarrow> jstr (jget a key))
      else after_pair (snprintf 48 (''--'' @ key)) (human_argv ctx))"

definition json_long :: "json option \<Rightarrow> int option" where
  "json_long v = (case v of Some (JNum r) \<Rightarrow> Some (trunc_rat r)
     | Some (JStr s) \<Rightarrow> strtol10 s | _ \<Rightarrow> None)"

definition sk_cli_arg_long :: "cli_ctx \<Rightarrow> string \<Rightarrow> int option" where
  "sk_cli_arg_long ctx key =
     (if is_machine_mode ctx then
        (case machine_args ctx of None \<Rightarrow> None | Some a \<Rightarrow> json_long (jget a key))
      else (case sk_cli_arg_named ctx key of None \<Rightarrow> None | Some s \<Rightarrow> strtol10 s))"

definition sk_cli_arg_after :: "cli_ctx \<Rightarrow> string \<Rightarrow> string option" where
  "sk_cli_arg_after ctx kw =
     (if kw = [] then None
      else if is_machine_mode ctx then
        (case machine_args ctx of None \<Rightarrow> None | Some a \<Rightarrow> jstr (jget a kw))
      else after_pair kw (human_argv ctx))"

definition sk_cli_arg_after_long :: "cli_ctx \<Rightarrow> string \<Rightarrow> int option" where
  "sk_cli_arg_after_long ctx kw =
     (if is_machine_mode ctx then
        (case machine_args ctx of None \<Rightarrow> None | Some a \<Rightarrow> json_long (jget a kw))
      else (case sk_cli_arg_after ctx kw of None \<Rightarrow> None | Some s \<Rightarrow> strtol10 s))"

text \<open>\<open>x ? x : y\<close> on pointers.\<close>

definition or_else :: "'a option \<Rightarrow> 'a option \<Rightarrow> 'a option" where
  "or_else a b = (case a of None \<Rightarrow> b | Some x \<Rightarrow> Some x)"

lemma or_else_simps [simp]: "or_else None b = b" "or_else (Some x) b = Some x"
  by (simp_all add: or_else_def)

section \<open>What a handler writes\<close>

datatype sk_cli_mode = SK_CLI_MODE_HUMAN | SK_CLI_MODE_MACHINE

datatype cli_out =
    CliOk "string option"             \<comment> \<open>\<open>sk_cli_ok(ctx, data)\<close>\<close>
  | CliErr sk_err "string option"     \<comment> \<open>\<open>sk_cli_err(ctx, err, params)\<close>\<close>
  | CliUsage "string option" "string option" "string option"  \<comment> \<open>\<open>sk_cli_usage\<close>\<close>
  | CliKv string string               \<comment> \<open>\<open>sk_cli_kv\<close>, \<open>sk_cli_kvf\<close>\<close>
  | CliText string                    \<comment> \<open>\<open>sk_cli_write\<close>, \<open>sk_cli_writef\<close>\<close>
  | CliSetMode sk_cli_mode            \<comment> \<open>\<open>sk_cli_set_mode\<close>\<close>

text \<open>\<open>sk_cli_writef\<close> formats into 512 bytes and clamps to 511 characters.\<close>

definition writef :: "string \<Rightarrow> string" where
  "writef s = snprintf 512 s"

definition cli_ok_machine :: "int \<Rightarrow> string option \<Rightarrow> string" where
  "cli_ok_machine rid data =
     writef (''{'' @ q @ ''id'' @ q @ '':'' @ dec_int rid @ '','' @ q @ ''ok'' @ q @ '':true'') @
     (case data of None \<Rightarrow> [] | Some d \<Rightarrow> '','' @ q @ ''data'' @ q @ '':'' @ d) @ ''}\<newline>''"

definition cli_err_machine :: "int \<Rightarrow> sk_err \<Rightarrow> string option \<Rightarrow> string" where
  "cli_err_machine rid err params =
     writef (''{'' @ q @ ''id'' @ q @ '':'' @ dec_int rid @ '','' @ q @ ''ok'' @ q @ '':false,'' @
       q @ ''err'' @ q @ '':'' @ q @ sk_err_code_string err @ q @
       (case params of None \<Rightarrow> [] | Some p \<Rightarrow> '','' @ q @ ''params'' @ q @ '':'' @ p) @ ''}\<newline>'')"

definition cli_err_human :: "sk_err \<Rightarrow> string" where
  "cli_err_human err =
     writef (''error: '' @ sk_err_code_string err @ '' - '' @ sk_err_message err @ ''\<newline>'')"

text \<open>
  \<open>json_escape_into\<close>: the loop stops when fewer than three bytes are left; the two-character
  escapes need two and the \<open>\u\<close> escapes six (and room for the terminator).
\<close>

definition json_esc2 :: "char \<Rightarrow> string option" where
  "json_esc2 c =
     (if char_code c = 0x22 then Some [CHR 0x5C, CHR 0x22]
      else if char_code c = 0x5C then Some [CHR 0x5C, CHR 0x5C]
      else if char_code c = 10 then Some [CHR 0x5C, CHR ''n'']
      else if char_code c = 13 then Some [CHR 0x5C, CHR ''r'']
      else if char_code c = 9 then Some [CHR 0x5C, CHR ''t'']
      else None)"

definition hex_digit :: "nat \<Rightarrow> char" where
  "hex_digit d = ''0123456789abcdef'' ! d"

definition json_u_esc :: "char \<Rightarrow> string" where
  "json_u_esc c = [CHR 0x5C, CHR ''u'', CHR ''0'', CHR ''0'',
     hex_digit (char_code c div 16), hex_digit (char_code c mod 16)]"

fun json_escape_into :: "nat \<Rightarrow> string \<Rightarrow> string \<Rightarrow> string" where
  "json_escape_into cap out [] = out"
| "json_escape_into cap out (c # cs) =
     (if \<not> (length out + 2 < cap) then out
      else case json_esc2 c of
        Some e \<Rightarrow> json_escape_into cap (out @ e) cs
      | None \<Rightarrow>
          (if char_code c < 32 then
             (if length out + 6 \<ge> cap then out
              else json_escape_into cap (out @ json_u_esc c) cs)
           else json_escape_into cap (out @ [c]) cs))"

lemma length_json_escape_into: "length out < cap \<Longrightarrow> length (json_escape_into cap out s) < cap"
  by (induction cap out s rule: json_escape_into.induct)
    (auto simp: json_esc2_def json_u_esc_def split: option.splits if_splits)

text \<open>\<open>sk_cli_usage\<close> in machine mode: one error envelope with the escaped texts as parameters.\<close>

definition usage_field :: "string \<Rightarrow> nat \<Rightarrow> string option \<Rightarrow> string list" where
  "usage_field key cap v =
     (case v of None \<Rightarrow> [] | Some t \<Rightarrow> [q @ key @ q @ '':'' @ q @ json_escape_into cap [] t @ q])"

fun comma_join :: "string list \<Rightarrow> string" where
  "comma_join [] = []"
| "comma_join [x] = x"
| "comma_join (x # xs) = x @ '','' @ comma_join xs"

definition usage_params :: "string option \<Rightarrow> string option \<Rightarrow> string option \<Rightarrow> string" where
  "usage_params usage params example =
     ''{'' @ comma_join (usage_field ''usage'' 256 usage @ usage_field ''params'' 512 params @
       usage_field ''example'' 256 example) @ ''}''"

text \<open>The call whose envelope ends the request: the handler wrote its answer.\<close>

fun writes_envelope :: "bool \<Rightarrow> cli_out \<Rightarrow> bool" where
  "writes_envelope machine (CliOk d) = True"
| "writes_envelope machine (CliErr e p) = True"
| "writes_envelope machine (CliUsage u p e) = machine"
| "writes_envelope machine _ = False"

subsection \<open>Durations\<close>

definition fmt_append :: "nat \<Rightarrow> string \<Rightarrow> nat \<Rightarrow> string \<Rightarrow> string" where
  "fmt_append cap out v suffix =
     (if v = 0 \<or> length out \<ge> cap then out
      else snprintf cap (out @ (if out = [] then [] else '' '') @ dec_nat v @ suffix))"

definition sk_cli_fmt_duration :: "nat \<Rightarrow> u32 \<Rightarrow> string" where
  "sk_cli_fmt_duration cap secs =
     (if cap = 0 then []
      else if secs = 0 then snprintf cap ''0s''
      else
        (let s = unat secs; days = s div 86400; rem = s mod 86400; hours = rem div 3600;
             rem2 = rem mod 3600; mins = rem2 div 60; secs' = rem2 mod 60
         in fmt_append cap (fmt_append cap (fmt_append cap (fmt_append cap [] days ''d'')
              hours ''h'') mins ''m'') secs' ''s''))"

section \<open>Command table\<close>

record 's command =
  cmd_name :: string
  cmd_usage :: "string option"
  critical :: bool
  hidden :: bool
  requires_auth :: bool
  handler :: "cli_ctx \<Rightarrow> 's \<Rightarrow> 's \<times> cli_out list \<times> sk_err"

definition SK_CLI_MAX_COMMANDS :: nat where "SK_CLI_MAX_COMMANDS = 128"
definition SK_CLI_MAX_TOPICS :: nat where "SK_CLI_MAX_TOPICS = 32"
definition SK_CLI_MAX_ARGV :: nat where "SK_CLI_MAX_ARGV = 16"
definition SK_CLI_LINE_BUF :: nat where "SK_CLI_LINE_BUF = 1024"

text \<open>Replace the first entry that satisfies the test, \<open>None\<close> if there is none.\<close>

fun replace_first :: "('a \<Rightarrow> bool) \<Rightarrow> 'a \<Rightarrow> 'a list \<Rightarrow> 'a list option" where
  "replace_first p y [] = None"
| "replace_first p y (x # xs) =
     (if p x then Some (y # xs) else map_option ((#) x) (replace_first p y xs))"

definition sk_cli_register :: "bool \<Rightarrow> 's command list \<Rightarrow> 's command \<Rightarrow> esp_err \<times> 's command list" where
  "sk_cli_register ready cmds cmd =
     (if \<not> ready then (ESP_ERR_INVALID_ARG, cmds)
      else if length cmds \<ge> SK_CLI_MAX_COMMANDS then (ESP_ERR_NO_MEM, cmds)
      else case replace_first (\<lambda>c. cmd_name c = cmd_name cmd) cmd cmds of
        Some cmds' \<Rightarrow> (ESP_OK, cmds')
      | None \<Rightarrow> (ESP_OK, cmds @ [cmd]))"

definition sk_cli_lookup :: "'s command list \<Rightarrow> string \<Rightarrow> 's command option" where
  "sk_cli_lookup cmds name = find (\<lambda>c. cmd_name c = name) cmds"

record topic =
  topic_name :: string
  topic_summary :: string
  topic_category :: "string option"

definition sk_cli_register_topic :: "bool \<Rightarrow> topic list \<Rightarrow> topic \<Rightarrow> esp_err \<times> topic list" where
  "sk_cli_register_topic ready ts t =
     (if \<not> ready \<or> topic_name t = [] then (ESP_ERR_INVALID_ARG, ts)
      else case replace_first (\<lambda>x. topic_name x = topic_name t) t ts of
        Some ts' \<Rightarrow> (ESP_OK, ts')
      | None \<Rightarrow>
          (if length ts \<ge> SK_CLI_MAX_TOPICS then (ESP_ERR_NO_MEM, ts) else (ESP_OK, ts @ [t])))"

definition sk_cli_topic_summary :: "topic list \<Rightarrow> string \<Rightarrow> string option" where
  "sk_cli_topic_summary ts name = map_option topic_summary (find (\<lambda>t. topic_name t = name) ts)"

definition sk_cli_topic_category :: "topic list \<Rightarrow> string \<Rightarrow> string option" where
  "sk_cli_topic_category ts name =
     (case find (\<lambda>t. topic_name t = name) ts of None \<Rightarrow> None | Some t \<Rightarrow> topic_category t)"

section \<open>Human mode: tokens and resolution\<close>

fun tokenize :: "nat \<Rightarrow> string \<Rightarrow> string list" where
  "tokenize 0 p = []"
| "tokenize (Suc m) p =
     (case dropWhile is_space p of
        [] \<Rightarrow> []
      | c # cs \<Rightarrow>
          (if char_code c = 0x22 then
             takeWhile (\<lambda>d. char_code d \<noteq> 0x22) cs #
             tokenize m (drop 1 (dropWhile (\<lambda>d. char_code d \<noteq> 0x22) cs))
           else
             takeWhile (\<lambda>d. \<not> is_space d) (c # cs) #
             tokenize m (drop 1 (dropWhile (\<lambda>d. \<not> is_space d) (c # cs)))))"

fun dot_join :: "string list \<Rightarrow> string" where
  "dot_join [] = []"
| "dot_join [x] = x"
| "dot_join (x # xs) = x @ ''.'' @ dot_join xs"

text \<open>
  One attempt with \<open>take\<close> leading tokens: the joined name must fit the 128-byte buffer with its
  terminator (lengths only grow along the loop, so testing the whole name is the same test).
\<close>

definition try_prefix :: "'s command list \<Rightarrow> string list \<Rightarrow> nat \<Rightarrow> 's command option" where
  "try_prefix cmds tokens n =
     (let canonical = dot_join (take n tokens) in
      if length canonical + 1 \<ge> 128 \<or> canonical = [] then None
      else sk_cli_lookup cmds canonical)"

fun resolve_from :: "'s command list \<Rightarrow> string list \<Rightarrow> nat \<Rightarrow> ('s command \<times> nat) option" where
  "resolve_from cmds tokens 0 = None"
| "resolve_from cmds tokens (Suc n) =
     (case try_prefix cmds tokens (Suc n) of
        Some cmd \<Rightarrow> Some (cmd, Suc n)
      | None \<Rightarrow> resolve_from cmds tokens n)"

definition resolve_human :: "'s command list \<Rightarrow> string list \<Rightarrow> ('s command \<times> nat) option" where
  "resolve_human cmds tokens = resolve_from cmds tokens (min 6 (length tokens))"

section \<open>Dispatch\<close>

text \<open>\<open>reject_if_unauthenticated\<close>: the gate fires, with its error envelope.\<close>

definition reject_if_unauthenticated :: "cli_ctx \<Rightarrow> 's command \<Rightarrow> cli_out list option" where
  "reject_if_unauthenticated ctx cmd =
     (if \<not> requires_auth cmd \<or> authenticated ctx then None
      else Some [CliErr SK_ERR_NOT_AUTHENTICATED None])"

text \<open>
  The registered confirm-token issuer: error code, token text and time to live. It changes the
  device state (the token is remembered there).
\<close>

type_synonym 's issuer = "('s \<Rightarrow> 's \<times> esp_err \<times> string \<times> nat) option"

definition machine_argv :: "json option \<Rightarrow> string list" where
  "machine_argv v = (case v of Some (JArr items) \<Rightarrow>
       take SK_CLI_MAX_ARGV (List.map_filter (\<lambda>j. jstr (Some j)) items)
     | _ \<Rightarrow> [])"

definition json_id :: "json option \<Rightarrow> int" where
  "json_id v = (case v of Some (JNum r) \<Rightarrow> clamp_long (trunc_rat r) | _ \<Rightarrow> -1)"

definition confirm_params :: "string \<Rightarrow> nat \<Rightarrow> string \<Rightarrow> string" where
  "confirm_params hex ttl name =
     snprintf 160 (''{'' @ q @ ''confirm_token'' @ q @ '':'' @ q @ hex @ q @ '','' @
       q @ ''ttl_sec'' @ q @ '':'' @ dec_nat ttl @ '','' @ q @ ''cmd'' @ q @ '':'' @ q @ name @ q @ ''}'')"

text \<open>The handler call and the automatic envelope of machine mode.\<close>

definition run_machine :: "'s command \<Rightarrow> cli_ctx \<Rightarrow> 's \<Rightarrow> 's \<times> cli_out list" where
  "run_machine cmd ctx s =
     (case handler cmd ctx s of (s', outs, rc) \<Rightarrow>
        (s', if list_ex (writes_envelope True) outs then outs
             else outs @ [if rc = SK_OK then CliOk None else CliErr rc None]))"

definition machine_ctx :: "json \<Rightarrow> bool \<Rightarrow> cli_ctx" where
  "machine_ctx msg auth =
     \<lparr> is_machine_mode = True, command_name = [], confirm_token = jstr (jget msg ''confirm_token''),
       authenticated = auth, machine_args = jget msg ''args'',
       machine_id = json_id (jget msg ''id''), human_argv = machine_argv (jget msg ''argv'') \<rparr>"

definition dispatch_machine :: "(string \<Rightarrow> json option) \<Rightarrow> 's command list \<Rightarrow> 's issuer \<Rightarrow> bool \<Rightarrow>
    string \<Rightarrow> 's \<Rightarrow> 's \<times> cli_ctx option \<times> cli_out list" where
  "dispatch_machine parse cmds issuer auth line s =
     (case parse line of
        None \<Rightarrow> (s, None, [CliText (''{'' @ q @ ''ok'' @ q @ '':false,'' @ q @ ''err'' @ q @ '':'' @ q @
          ''ERR_INVALID_ARG'' @ q @ '','' @ q @ ''params'' @ q @ '':{'' @ q @ ''reason'' @ q @ '':'' @ q @
          ''json_parse'' @ q @ ''}}\<newline>'')])
      | Some msg \<Rightarrow>
          (let ctx = machine_ctx msg auth in
           case jstr (jget msg ''cmd'') of
             None \<Rightarrow> (s, Some ctx, [CliErr SK_ERR_MISSING_ARG
               (Some (''{'' @ q @ ''field'' @ q @ '':'' @ q @ ''cmd'' @ q @ ''}''))])
           | Some name \<Rightarrow>
               (let ctx = ctx\<lparr>command_name := name\<rparr> in
                case sk_cli_lookup cmds name of
                  None \<Rightarrow> (s, Some ctx, [CliErr SK_ERR_UNKNOWN_COMMAND None])
                | Some cmd \<Rightarrow>
                    (case reject_if_unauthenticated ctx cmd of
                       Some outs \<Rightarrow> (s, Some ctx, outs)
                     | None \<Rightarrow>
                         (case (critical cmd \<and> confirm_token ctx = None, issuer) of
                            (True, Some iss) \<Rightarrow>
                              (case iss s of (s', rc, hex, ttl) \<Rightarrow>
                                 (if rc = ESP_OK \<and> hex \<noteq> [] then
                                    (s', Some ctx, [CliErr SK_ERR_CONFIRM_TOKEN_REQUIRED
                                       (Some (confirm_params hex ttl (cmd_name cmd)))])
                                  else (case run_machine cmd ctx s' of (s'', outs) \<Rightarrow>
                                          (s'', Some ctx, outs))))
                          | _ \<Rightarrow> (case run_machine cmd ctx s of (s', outs) \<Rightarrow>
                                    (s', Some ctx, outs)))))))"

fun rebuild_line :: "nat \<Rightarrow> string \<Rightarrow> bool \<Rightarrow> string list \<Rightarrow> string" where
  "rebuild_line cap out first [] = out"
| "rebuild_line cap out first (t # ts) =
     (if \<not> (length out + 1 < cap) then out
      else if length out + (if first then 0 else 1) + length t \<ge> cap then out
      else rebuild_line cap (out @ (if first then [] else '' '') @ t) False ts)"

definition confirm_hint :: "'s command \<Rightarrow> string list \<Rightarrow> string \<Rightarrow> nat \<Rightarrow> cli_out list" where
  "confirm_hint cmd tokens hex ttl =
     [CliText (writef (''error: ERR_CONFIRM_REQUIRED - to confirm, copy/paste this within '' @
        dec_nat ttl @ ''s:\<newline>'')),
      CliText (writef (''       '' @ rebuild_line SK_CLI_LINE_BUF [] True tokens @
        '' --confirm-token '' @ hex @ ''\<newline>''))] @
     (case cmd_usage cmd of None \<Rightarrow> [] | Some u \<Rightarrow>
        (if u = [] then [] else [CliText (writef (''       usage: '' @ u @ ''\<newline>''))]))"

definition run_human :: "'s command \<Rightarrow> cli_ctx \<Rightarrow> 's \<Rightarrow> 's \<times> cli_out list" where
  "run_human cmd ctx s =
     (case handler cmd ctx s of (s', outs, rc) \<Rightarrow>
        (s', if list_ex (writes_envelope False) outs \<or> rc = SK_OK then outs
             else outs @ [CliErr rc None]))"

definition human_ctx :: "bool \<Rightarrow> string list \<Rightarrow> cli_ctx" where
  "human_ctx auth args =
     \<lparr> is_machine_mode = False, command_name = [], confirm_token = None, authenticated = auth,
       machine_args = None, machine_id = -1, human_argv = args \<rparr>"

definition dispatch_human :: "'s command list \<Rightarrow> 's issuer \<Rightarrow> bool \<Rightarrow> string \<Rightarrow> 's \<Rightarrow>
    's \<times> cli_ctx option \<times> cli_out list" where
  "dispatch_human cmds issuer auth line s =
     (let tokens = tokenize SK_CLI_MAX_ARGV line in
      if tokens = [] then (s, None, [])
      else case resolve_human cmds tokens of
        None \<Rightarrow> (s, Some (human_ctx auth tokens),
          [CliText (writef (''error: unknown command '' @ [CHR 0x27] @ hd tokens @ [CHR 0x27] @
             ''. Type '' @ [CHR 0x27] @ ''help'' @ [CHR 0x27] @ '' for the list.\<newline>''))])
      | Some (cmd, consumed) \<Rightarrow>
          (let ctx0 = (human_ctx auth (drop consumed tokens))\<lparr>command_name := cmd_name cmd\<rparr>;
               ctx = ctx0\<lparr>confirm_token := sk_cli_arg_named ctx0 ''confirm-token''\<rparr>
           in case reject_if_unauthenticated ctx cmd of
                Some outs \<Rightarrow> (s, Some ctx, outs)
              | None \<Rightarrow>
                  (case (critical cmd \<and> confirm_token ctx = None, issuer) of
                     (True, Some iss) \<Rightarrow>
                       (case iss s of (s', rc, hex, ttl) \<Rightarrow>
                          (if rc = ESP_OK \<and> hex \<noteq> [] then
                             (s', Some ctx, confirm_hint cmd tokens hex ttl)
                           else (case run_human cmd ctx s' of (s'', outs) \<Rightarrow>
                                   (s'', Some ctx, outs))))
                   | _ \<Rightarrow> (case run_human cmd ctx s of (s', outs) \<Rightarrow> (s', Some ctx, outs)))))"

definition strip_crlf :: "string \<Rightarrow> string" where
  "strip_crlf s = rev (dropWhile (\<lambda>c. char_code c = 13 \<or> char_code c = 10) (rev s))"

definition is_machine_line :: "string \<Rightarrow> bool" where
  "is_machine_line buf = (case buf of [] \<Rightarrow> False | c # cs \<Rightarrow> char_code c = 123)"

definition dispatch_common :: "bool \<Rightarrow> (string \<Rightarrow> json option) \<Rightarrow> 's command list \<Rightarrow> 's issuer \<Rightarrow> bool \<Rightarrow>
    string \<Rightarrow> 's \<Rightarrow> 's \<times> cli_ctx option \<times> cli_out list" where
  "dispatch_common ready parse cmds issuer auth line s =
     (if \<not> ready then (s, None, [])
      else
        (let l = dropWhile is_space line in
         if l = [] then (s, None, [])
         else
           (let buf = strip_crlf (take (SK_CLI_LINE_BUF - 1) l) in
            if is_machine_line buf then
              (case dispatch_machine parse cmds issuer auth buf s of (s', c, outs) \<Rightarrow>
                 (s', c, CliSetMode SK_CLI_MODE_MACHINE # outs))
            else
              (case dispatch_human cmds issuer auth buf s of (s', c, outs) \<Rightarrow>
                 (s', c, CliSetMode SK_CLI_MODE_HUMAN # outs)))))"

definition sk_cli_dispatch_line :: "bool \<Rightarrow> (string \<Rightarrow> json option) \<Rightarrow> 's command list \<Rightarrow> 's issuer \<Rightarrow>
    string \<Rightarrow> 's \<Rightarrow> 's \<times> cli_ctx option \<times> cli_out list" where
  "sk_cli_dispatch_line ready parse cmds issuer line s =
     dispatch_common ready parse cmds issuer False line s"

definition sk_cli_dispatch_line_authenticated :: "bool \<Rightarrow> (string \<Rightarrow> json option) \<Rightarrow> 's command list \<Rightarrow>
    's issuer \<Rightarrow> string \<Rightarrow> 's \<Rightarrow> 's \<times> cli_ctx option \<times> cli_out list" where
  "sk_cli_dispatch_line_authenticated ready parse cmds issuer line s =
     dispatch_common ready parse cmds issuer True line s"

definition builtin_json_on :: "cli_ctx \<Rightarrow> 's \<Rightarrow> 's \<times> cli_out list \<times> sk_err" where
  "builtin_json_on ctx s = (s, [CliSetMode SK_CLI_MODE_MACHINE,
     CliOk (Some (''{'' @ q @ ''mode'' @ q @ '':'' @ q @ ''machine'' @ q @ ''}''))], SK_OK)"

definition builtin_json_off :: "cli_ctx \<Rightarrow> 's \<Rightarrow> 's \<times> cli_out list \<times> sk_err" where
  "builtin_json_off ctx s = (s, [CliSetMode SK_CLI_MODE_HUMAN,
     CliOk (Some (''{'' @ q @ ''mode'' @ q @ '':'' @ q @ ''human'' @ q @ ''}''))], SK_OK)"

section \<open>Lemmas: tables\<close>

text \<open>
  Both tables offer the same contract to the components that fill them at start-up: a successful
  registration is found under its name, other names are not disturbed, a failed one changes
  nothing, and the table never exceeds its capacity.
\<close>

locale name_table =
  fixes reg :: "'t list \<Rightarrow> 't \<Rightarrow> esp_err \<times> 't list"
    and look :: "'t list \<Rightarrow> string \<Rightarrow> 't option"
    and key :: "'t \<Rightarrow> string"
    and cap :: nat
  assumes reg_same: "fst (reg t x) = ESP_OK \<Longrightarrow> look (snd (reg t x)) (key x) = Some x"
    and reg_other: "k \<noteq> key x \<Longrightarrow> look (snd (reg t x)) k = look t k"
    and reg_fail: "fst (reg t x) \<noteq> ESP_OK \<Longrightarrow> snd (reg t x) = t"
    and reg_bound: "length t \<le> cap \<Longrightarrow> length (snd (reg t x)) \<le> cap"
begin

lemma reg_all_bound: "length t \<le> cap \<Longrightarrow> length (foldl (\<lambda>t x. snd (reg t x)) t xs) \<le> cap"
  by (induction xs arbitrary: t) (auto intro: reg_bound)

lemma reg_all_other:
  "k \<notin> key ` set xs \<Longrightarrow> look (foldl (\<lambda>t x. snd (reg t x)) t xs) k = look t k"
  by (induction xs arbitrary: t) (auto simp: reg_other)

lemma reg_keeps_found: "look t k \<noteq> None \<Longrightarrow> look (snd (reg t x)) k \<noteq> None"
  by (cases "k = key x"; cases "fst (reg t x) = ESP_OK") (auto simp: reg_same reg_other reg_fail)

lemma reg_all_keeps_found: "look t k \<noteq> None \<Longrightarrow> look (foldl (\<lambda>t x. snd (reg t x)) t xs) k \<noteq> None"
proof (induction xs arbitrary: t)
  case Nil
  then show ?case by simp
next
  case (Cons x xs)
  then show ?case using reg_keeps_found [OF Cons.prems] by simp
qed

end

lemma replace_first_None: "replace_first p y xs = None \<longleftrightarrow> (\<forall>x \<in> set xs. \<not> p x)"
  by (induction xs) auto

lemma replace_first_Some: "replace_first p y xs = Some ys \<Longrightarrow> \<exists>x \<in> set xs. p x"
  by (induction xs arbitrary: ys) (auto split: if_splits)

lemma replace_first_length: "replace_first p y xs = Some ys \<Longrightarrow> length ys = length xs"
  by (induction xs arbitrary: ys) (auto split: if_splits)

lemma replace_first_find_same:
  "replace_first (\<lambda>x. f x = f y) y xs = Some ys \<Longrightarrow> find (\<lambda>x. f x = f y) ys = Some y"
  by (induction xs arbitrary: ys) (auto split: if_splits)

lemma replace_first_find_other:
  "replace_first (\<lambda>x. f x = f y) y xs = Some ys \<Longrightarrow> k \<noteq> f y \<Longrightarrow>
     find (\<lambda>x. f x = k) ys = find (\<lambda>x. f x = k) xs"
  by (induction xs arbitrary: ys) (auto split: if_splits)

lemma find_snoc_same: "\<forall>x \<in> set xs. \<not> p x \<Longrightarrow> p y \<Longrightarrow> find p (xs @ [y]) = Some y"
  by (induction xs) auto

lemma find_snoc_other: "\<not> p y \<Longrightarrow> find p (xs @ [y]) = find p xs"
  by (induction xs) auto

interpretation commands: name_table "sk_cli_register True" sk_cli_lookup cmd_name SK_CLI_MAX_COMMANDS
  by unfold_locales
    (auto simp: sk_cli_register_def sk_cli_lookup_def replace_first_None replace_first_length
       replace_first_find_same replace_first_find_other find_snoc_same find_snoc_other
       split: option.splits if_splits)

definition topic_lookup :: "topic list \<Rightarrow> string \<Rightarrow> topic option" where
  "topic_lookup ts name = find (\<lambda>t. topic_name t = name) ts"

interpretation topics: name_table "sk_cli_register_topic True" topic_lookup topic_name SK_CLI_MAX_TOPICS
  by unfold_locales
    (auto dest: replace_first_Some simp: sk_cli_register_topic_def topic_lookup_def replace_first_None replace_first_length
       replace_first_find_same replace_first_find_other find_snoc_same find_snoc_other
       split: option.splits if_splits)

section \<open>Lemmas: resolution and tokens\<close>

lemma resolve_from_Some:
  "resolve_from cmds toks n = Some (cmd, m) \<longleftrightarrow>
     1 \<le> m \<and> m \<le> n \<and> try_prefix cmds toks m = Some cmd \<and>
     (\<forall>k. m < k \<and> k \<le> n \<longrightarrow> try_prefix cmds toks k = None)"
proof (induction n)
  case 0
  then show ?case by auto
next
  case (Suc n)
  show ?case
  proof (cases "try_prefix cmds toks (Suc n)")
    case None
    then show ?thesis using Suc by (auto simp: le_Suc_eq)
  next
    case (Some c)
    then show ?thesis by (auto simp: le_Suc_eq not_less_eq_eq)
  qed
qed

lemma length_tokenize: "length (tokenize m p) \<le> m"
  by (induction m p rule: tokenize.induct) (auto split: list.splits)

lemma lookup_map:
  "(\<And>c. cmd_name (f c) = cmd_name c) \<Longrightarrow>
     sk_cli_lookup (map f cmds) name = map_option f (sk_cli_lookup cmds name)"
  by (induction cmds) (auto simp: sk_cli_lookup_def)

lemma resolve_map:
  "(\<And>c. cmd_name (f c) = cmd_name c) \<Longrightarrow>
     resolve_human (map f cmds) toks = map_option (\<lambda>(c, n). (f c, n)) (resolve_human cmds toks)"
proof -
  assume f: "\<And>c. cmd_name (f c) = cmd_name c"
  have "resolve_from (map f cmds) toks n = map_option (\<lambda>(c, n). (f c, n)) (resolve_from cmds toks n)" for n
    by (induction n) (auto simp: try_prefix_def Let_def lookup_map [OF f] split: option.splits)
  then show ?thesis by (simp add: resolve_human_def)
qed

lemma length_fmt_append: "length out < cap \<Longrightarrow> length (fmt_append cap out v sfx) < cap"
  by (auto simp: fmt_append_def snprintf_def)

lemma length_fmt_duration: "0 < cap \<Longrightarrow> length (sk_cli_fmt_duration cap secs) < cap"
  by (auto simp: sk_cli_fmt_duration_def Let_def length_snprintf length_fmt_append)

lemma length_rebuild_line: "length out < cap \<Longrightarrow> length (rebuild_line cap out first ts) < cap"
  by (induction cap out first ts rule: rebuild_line.induct) auto

section \<open>Lemmas: the dispatcher's gates\<close>

text \<open>A change of some handlers that leaves names and flags alone.\<close>

definition rehandle :: "('s command \<Rightarrow> cli_ctx \<Rightarrow> 's \<Rightarrow> 's \<times> cli_out list \<times> sk_err) \<Rightarrow> 's command \<Rightarrow> 's command" where
  "rehandle h c = c\<lparr>handler := h c\<rparr>"

lemma rehandle_simps [simp]:
  "cmd_name (rehandle h c) = cmd_name c" "cmd_usage (rehandle h c) = cmd_usage c"
  "critical (rehandle h c) = critical c" "requires_auth (rehandle h c) = requires_auth c"
  "hidden (rehandle h c) = hidden c" "handler (rehandle h c) = h c"
  by (simp_all add: rehandle_def)

lemma confirm_hint_rehandle: "confirm_hint (rehandle h c) = confirm_hint c"
  by (simp add: confirm_hint_def fun_eq_iff)

lemma reject_rehandle: "reject_if_unauthenticated ctx (rehandle h c) = reject_if_unauthenticated ctx c"
  by (simp add: reject_if_unauthenticated_def)

lemma unauth_reject_None:
  "\<not> authenticated ctx \<Longrightarrow> reject_if_unauthenticated ctx c = None \<Longrightarrow> \<not> requires_auth c"
  by (simp add: reject_if_unauthenticated_def split: if_splits)

lemma machine_ctx_auth [simp]: "authenticated (machine_ctx msg a) = a"
  by (simp add: machine_ctx_def)

lemma human_ctx_auth [simp]: "authenticated (human_ctx a xs) = a"
  by (simp add: human_ctx_def)

lemma run_machine_rehandle: "h c ctx = handler c ctx \<Longrightarrow> run_machine (rehandle h c) ctx s = run_machine c ctx s"
  by (simp add: run_machine_def)

lemma run_human_rehandle: "h c ctx = handler c ctx \<Longrightarrow> run_human (rehandle h c) ctx s = run_human c ctx s"
  by (simp add: run_human_def)

text \<open>
  The two gates in one lemma: the handlers may be replaced by any others that agree on the
  contexts that can pass the gates.
\<close>

lemma dispatch_machine_rehandle:
  assumes h: "\<And>c ctx. reject_if_unauthenticated ctx c = None \<Longrightarrow> authenticated ctx = auth \<Longrightarrow>
      \<not> (critical c \<and> confirm_token ctx = None \<and> issues) \<Longrightarrow> h c ctx = handler c ctx"
    and i: "issues \<Longrightarrow> \<exists>iss. issuer = Some iss \<and> (\<forall>s. case iss s of (s', rc, hex, ttl) \<Rightarrow> rc = ESP_OK \<and> hex \<noteq> [])"
  shows "dispatch_machine parse (map (rehandle h) cmds) issuer auth line s =
    dispatch_machine parse cmds issuer auth line s"
proof (cases "parse line")
  case None
  then show ?thesis by (simp add: dispatch_machine_def)
next
  case msg: (Some msg)
  show ?thesis
  proof (cases "jstr (jget msg ''cmd'')")
    case None
    with msg show ?thesis by (simp add: dispatch_machine_def Let_def)
  next
    case name: (Some name)
    show ?thesis
    proof (cases "sk_cli_lookup cmds name")
      case None
      with msg name show ?thesis by (simp add: dispatch_machine_def Let_def lookup_map)
    next
      case cmd: (Some cmd)
      let ?ctx = "(machine_ctx msg auth)\<lparr>command_name := name\<rparr>"
      have run: "run_machine (rehandle h cmd) ?ctx s' = run_machine cmd ?ctx s'"
        if "reject_if_unauthenticated ?ctx cmd = None"
          "\<not> (critical cmd \<and> confirm_token ?ctx = None \<and> issues)" for s'
        by (rule run_machine_rehandle) (use that h in simp)
      show ?thesis
      proof (cases "critical cmd \<and> confirm_token ?ctx = None \<and> issues")
        case True
        then obtain iss where iss: "issuer = Some iss"
          "\<forall>s. case iss s of (s', rc, hex, ttl) \<Rightarrow> rc = ESP_OK \<and> hex \<noteq> []" using i by blast
        then show ?thesis using msg name cmd True
          by (cases "iss s") (auto simp: dispatch_machine_def Let_def lookup_map reject_rehandle
              split: option.splits dest: spec [where x = s])
      next
        case False
        then show ?thesis using msg name cmd run
          by (auto simp: dispatch_machine_def Let_def lookup_map reject_rehandle
              split: option.splits bool.splits prod.splits)
      qed
    qed
  qed
qed

lemma dispatch_human_rehandle:
  assumes h: "\<And>c ctx. reject_if_unauthenticated ctx c = None \<Longrightarrow> authenticated ctx = auth \<Longrightarrow>
      \<not> (critical c \<and> confirm_token ctx = None \<and> issues) \<Longrightarrow> h c ctx = handler c ctx"
    and i: "issues \<Longrightarrow> \<exists>iss. issuer = Some iss \<and> (\<forall>s. case iss s of (s', rc, hex, ttl) \<Rightarrow> rc = ESP_OK \<and> hex \<noteq> [])"
  shows "dispatch_human (map (rehandle h) cmds) issuer auth line s =
    dispatch_human cmds issuer auth line s"
proof (cases "tokenize SK_CLI_MAX_ARGV line = [] \<or> resolve_human cmds (tokenize SK_CLI_MAX_ARGV line) = None")
  case True
  then show ?thesis by (auto simp: dispatch_human_def Let_def resolve_map)
next
  case False
  then obtain cmd n where r: "resolve_human cmds (tokenize SK_CLI_MAX_ARGV line) = Some (cmd, n)"
    and t: "tokenize SK_CLI_MAX_ARGV line \<noteq> []" by auto
  define ctx0 where "ctx0 = (human_ctx auth (drop n (tokenize SK_CLI_MAX_ARGV line)))\<lparr>command_name := cmd_name cmd\<rparr>"
  define ctx where "ctx = ctx0\<lparr>confirm_token := sk_cli_arg_named ctx0 ''confirm-token''\<rparr>"
  have a: "authenticated ctx = auth" by (simp add: ctx_def ctx0_def)
  have run: "run_human (rehandle h cmd) ctx s' = run_human cmd ctx s'"
    if "reject_if_unauthenticated ctx cmd = None"
      "\<not> (critical cmd \<and> confirm_token ctx = None \<and> issues)" for s'
    by (rule run_human_rehandle) (use that h a in simp)
  show ?thesis
  proof (cases "critical cmd \<and> confirm_token ctx = None \<and> issues")
    case True
    then obtain iss where iss: "issuer = Some iss"
      "\<forall>s. case iss s of (s', rc, hex, ttl) \<Rightarrow> rc = ESP_OK \<and> hex \<noteq> []" using i by blast
    then show ?thesis using r t True
      by (cases "iss s") (auto simp: dispatch_human_def Let_def resolve_map reject_rehandle
          confirm_hint_rehandle simp flip: ctx0_def ctx_def split: option.splits dest: spec [where x = s])
  next
    case False
    then show ?thesis using r t run
      by (auto simp: dispatch_human_def Let_def resolve_map reject_rehandle confirm_hint_rehandle
          simp flip: ctx0_def ctx_def split: option.splits bool.splits prod.splits)
  qed
qed

lemma dispatch_common_rehandle:
  assumes h: "\<And>c ctx. reject_if_unauthenticated ctx c = None \<Longrightarrow> authenticated ctx = auth \<Longrightarrow>
      \<not> (critical c \<and> confirm_token ctx = None \<and> issues) \<Longrightarrow> h c ctx = handler c ctx"
    and i: "issues \<Longrightarrow> \<exists>iss. issuer = Some iss \<and> (\<forall>s. case iss s of (s', rc, hex, ttl) \<Rightarrow> rc = ESP_OK \<and> hex \<noteq> [])"
  shows "dispatch_common ready parse (map (rehandle h) cmds) issuer auth line s =
    dispatch_common ready parse cmds issuer auth line s"
proof -
  have m: "dispatch_machine parse (map (rehandle h) cmds) issuer auth l s' =
      dispatch_machine parse cmds issuer auth l s'" for l s'
    by (rule dispatch_machine_rehandle [where issues = issues]) (use h i in blast)+
  have u: "dispatch_human (map (rehandle h) cmds) issuer auth l s' =
      dispatch_human cmds issuer auth l s'" for l s'
    by (rule dispatch_human_rehandle [where issues = issues]) (use h i in blast)+
  show ?thesis by (simp only: dispatch_common_def m u)
qed

section \<open>Lemmas: open commands\<close>

lemma resolve_from_in: "resolve_from cmds toks n = Some (c, m) \<Longrightarrow> c \<in> set cmds"
  by (induction n) (auto simp: try_prefix_def Let_def sk_cli_lookup_def find_Some_iff
      split: option.splits if_splits)

lemma resolve_human_in: "resolve_human cmds toks = Some (c, m) \<Longrightarrow> c \<in> set cmds"
  unfolding resolve_human_def by (rule resolve_from_in)

lemma lookup_in: "sk_cli_lookup cmds name = Some c \<Longrightarrow> c \<in> set cmds"
  by (auto simp: sk_cli_lookup_def find_Some_iff)

text \<open>
  A change of the device state that no open command sees or undoes: on an unauthenticated line the
  dispatcher commutes with it and its output is the same.
\<close>

lemma dispatch_open_hom:
  assumes h: "\<And>c ctx s. c \<in> set cmds \<Longrightarrow> \<not> requires_auth c \<Longrightarrow>
      handler c ctx (f s) = (case handler c ctx s of (s', outs, rc) \<Rightarrow> (f s', outs, rc))"
  shows "sk_cli_dispatch_line ready parse cmds None line (f s) =
    (case sk_cli_dispatch_line ready parse cmds None line s of (s', ctx, outs) \<Rightarrow> (f s', ctx, outs))"
proof -
  have rm: "run_machine c ctx (f s) = map_prod f id (run_machine c ctx s)"
    if "c \<in> set cmds" "\<not> requires_auth c" for c ctx s
    using h [OF that, of ctx s] by (cases "handler c ctx s") (simp add: run_machine_def)
  have ru: "run_human c ctx (f s) = map_prod f id (run_human c ctx s)"
    if "c \<in> set cmds" "\<not> requires_auth c" for c ctx s
    using h [OF that, of ctx s] by (cases "handler c ctx s") (simp add: run_human_def)
  have m: "dispatch_machine parse cmds None False l (f s) = map_prod f id (dispatch_machine parse cmds None False l s)"
    for l s
  proof (cases "parse l")
    case None
    then show ?thesis by (simp add: dispatch_machine_def)
  next
    case msg: (Some msg)
    show ?thesis
    proof (cases "jstr (jget msg ''cmd'')")
      case None
      with msg show ?thesis by (simp add: dispatch_machine_def Let_def)
    next
      case name: (Some name)
      show ?thesis
      proof (cases "sk_cli_lookup cmds name")
        case None
        with msg name show ?thesis by (simp add: dispatch_machine_def Let_def)
      next
        case cmd: (Some c)
        show ?thesis
        proof (cases "requires_auth c")
          case True
          with msg name cmd show ?thesis
            by (simp add: dispatch_machine_def Let_def reject_if_unauthenticated_def)
        next
          case False
          with msg name cmd rm [OF lookup_in [OF cmd] False] show ?thesis
            by (simp add: dispatch_machine_def Let_def reject_if_unauthenticated_def case_prod_beta split: bool.split)
        qed
      qed
    qed
  qed
  have u: "dispatch_human cmds None False l (f s) = map_prod f id (dispatch_human cmds None False l s)" for l s
  proof (cases "tokenize SK_CLI_MAX_ARGV l = [] \<or> resolve_human cmds (tokenize SK_CLI_MAX_ARGV l) = None")
    case True
    then show ?thesis by (auto simp: dispatch_human_def Let_def)
  next
    case False
    then obtain c n where r: "resolve_human cmds (tokenize SK_CLI_MAX_ARGV l) = Some (c, n)"
      and t: "tokenize SK_CLI_MAX_ARGV l \<noteq> []" by auto
    show ?thesis
    proof (cases "requires_auth c")
      case True
      with r t show ?thesis by (simp add: dispatch_human_def Let_def reject_if_unauthenticated_def)
    next
      case False
      with r t ru [OF resolve_human_in [OF r] False] show ?thesis
        by (simp add: dispatch_human_def Let_def reject_if_unauthenticated_def case_prod_beta split: bool.split)
    qed
  qed
  show ?thesis
    by (simp add: sk_cli_dispatch_line_def dispatch_common_def Let_def m u case_prod_beta)
qed

end
