(* ===== verification/LsTimer.thy ===== *)
theory LsTimer
  imports SkCli
begin

text \<open>
  The countdown engine, \<open>ls_timer_engine/src/ls_timer_engine.c\<close>: the configuration and the four
  states, the persisted and the run-time fields, every state transition, the one-second tick, the
  alarms, boot recovery, the command handlers and the event-bus hooks. Queue events are applied
  one at a time by the task; a handler posts an event instead of changing the state.
\<close>

section \<open>Data\<close>

datatype ls_timer_unit = UNIT_MINUTE | UNIT_HOUR | UNIT_DAY
  | UNIT_OTHER int  \<comment> \<open>a value of the C enum outside its three constants\<close>

datatype ls_timer_state = INACTIVE | COUNTDOWN | VACATION | TRIGGERED

definition MIN_VALUE :: int where "MIN_VALUE = 1"
definition MAX_VALUE :: int where "MAX_VALUE = 60"
definition MAX_ALARMS :: int where "MAX_ALARMS = 31"
definition MAX_VACATION_DAYS :: int where "MAX_VACATION_DAYS = 60"
definition TIME_VALID_THRESHOLD :: int where "TIME_VALID_THRESHOLD = 1700000000"

definition unit_of_int :: "int \<Rightarrow> ls_timer_unit" where
  "unit_of_int i = (if i = 0 then UNIT_MINUTE else if i = 1 then UNIT_HOUR
     else if i = 2 then UNIT_DAY else UNIT_OTHER i)"

fun int_of_unit :: "ls_timer_unit \<Rightarrow> int" where
  "int_of_unit UNIT_MINUTE = 0"
| "int_of_unit UNIT_HOUR = 1"
| "int_of_unit UNIT_DAY = 2"
| "int_of_unit (UNIT_OTHER i) = i"

fun state_code :: "ls_timer_state \<Rightarrow> u8" where
  "state_code INACTIVE = 0"
| "state_code COUNTDOWN = 1"
| "state_code VACATION = 2"
| "state_code TRIGGERED = 3"

text \<open>The cast back from the stored byte, applied after the test that it is at most 3.\<close>

definition state_of_code :: "u8 \<Rightarrow> ls_timer_state" where
  "state_of_code c = (if c = 0 then INACTIVE else if c = 1 then COUNTDOWN
     else if c = 2 then VACATION else TRIGGERED)"

lemma state_of_code_code [simp]: "state_of_code (state_code x) = x"
  by (cases x) (simp_all add: state_of_code_def)

lemma state_code_le: "state_code x \<le> 3"
  by (cases x) simp_all

record ls_timer_config =
  cfg_unit :: ls_timer_unit
  cfg_value :: u16
  cfg_alarm_count :: u8

text \<open>The static variables of the component and the device's flash.\<close>

record 'n timer =
  cfg :: ls_timer_config
  st :: ls_timer_state
  deadline_epoch :: int
  vacation_end_epoch :: int
  vacation_remaining_sec :: u32
  alarms_fired_mask :: u32
  deadline_uptime_us :: int
  remaining_at_start :: u32
  vacation_end_uptime_us :: int
  flash :: 'n

datatype reset_by = RESET_BY_MANUAL | RESET_BY_API

datatype evt =
    EVT_TICK
  | EVT_CMD_SET int int int     \<comment> \<open>unit, value, alarm count; a negative one is unchanged\<close>
  | EVT_CMD_START
  | EVT_CMD_STOP
  | EVT_CMD_RESET reset_by
  | EVT_CMD_VAC_SET int
  | EVT_CMD_VAC_CANCEL

definition default_config :: ls_timer_config where
  "default_config = \<lparr> cfg_unit = UNIT_HOUR, cfg_value = 24, cfg_alarm_count = 3 \<rparr>"

definition timer_static :: "'n \<Rightarrow> 'n timer" where
  "timer_static n = \<lparr> cfg = default_config, st = INACTIVE, deadline_epoch = 0,
     vacation_end_epoch = 0, vacation_remaining_sec = 0, alarms_fired_mask = 0,
     deadline_uptime_us = 0, remaining_at_start = 0, vacation_end_uptime_us = 0, flash = n \<rparr>"

section \<open>Helpers\<close>

fun reset_by_str :: "reset_by \<Rightarrow> string" where
  "reset_by_str RESET_BY_API = ''api''"
| "reset_by_str RESET_BY_MANUAL = ''manual''"

fun unit_to_sec :: "ls_timer_unit \<Rightarrow> u32" where
  "unit_to_sec UNIT_MINUTE = 60"
| "unit_to_sec UNIT_HOUR = 3600"
| "unit_to_sec UNIT_DAY = 86400"
| "unit_to_sec (UNIT_OTHER i) = 0"

definition total_duration_sec :: "ls_timer_config \<Rightarrow> u32" where
  "total_duration_sec c = unit_to_sec (cfg_unit c) * ucast (cfg_value c)"

definition time_is_valid :: "int \<Rightarrow> bool" where
  "time_is_valid epoch = (epoch \<ge> TIME_VALID_THRESHOLD)"

fun ls_timer_engine_state_str :: "ls_timer_state \<Rightarrow> string" where
  "ls_timer_engine_state_str INACTIVE = ''inactive''"
| "ls_timer_engine_state_str COUNTDOWN = ''countdown''"
| "ls_timer_engine_state_str VACATION = ''vacation''"
| "ls_timer_engine_state_str TRIGGERED = ''triggered''"

fun ls_timer_engine_unit_str :: "ls_timer_unit \<Rightarrow> string" where
  "ls_timer_engine_unit_str UNIT_MINUTE = ''minute''"
| "ls_timer_engine_unit_str UNIT_HOUR = ''hour''"
| "ls_timer_engine_unit_str UNIT_DAY = ''day''"
| "ls_timer_engine_unit_str (UNIT_OTHER i) = ''?''"

definition unit_from_str :: "string \<Rightarrow> ls_timer_unit option" where
  "unit_from_str s = (if s = ''minute'' then Some UNIT_MINUTE
     else if s = ''hour'' then Some UNIT_HOUR
     else if s = ''day'' then Some UNIT_DAY else None)"

section \<open>Flash\<close>

definition NVS_TMR :: string where "NVS_TMR = ''ls_tmr''"

definition timer_nvs_load :: "'n nvs_ops \<Rightarrow> 'n timer \<Rightarrow> esp_err \<times> 'n timer" where
  "timer_nvs_load N t =
     (let n = flash t; err = nv_open_ro N n NVS_TMR in
      if err = ESP_ERR_NVS_NOT_FOUND then (ESP_OK, t)
      else if err \<noteq> ESP_OK then (err, t)
      else
        (let c = cfg t;
             c = c\<lparr>cfg_unit := load_val (get_u8 N n NVS_TMR ''unit'')
                 (\<lambda>v. v = 0 \<or> v = 1 \<or> v = 2) (\<lambda>v. unit_of_int (uint v)) (cfg_unit c)\<rparr>;
             c = c\<lparr>cfg_value := load_val (get_u16 N n NVS_TMR ''value'')
                 (\<lambda>v. uint v \<ge> MIN_VALUE \<and> uint v \<le> MAX_VALUE) (\<lambda>v. v) (cfg_value c)\<rparr>;
             c = c\<lparr>cfg_alarm_count := load_val (get_u8 N n NVS_TMR ''alarms'')
                 (\<lambda>v. uint v \<le> MAX_ALARMS) (\<lambda>v. v) (cfg_alarm_count c)\<rparr>;
             t = t\<lparr>cfg := c\<rparr>;
             t = t\<lparr>st := load_val (get_u8 N n NVS_TMR ''state'')
                 (\<lambda>v. v \<le> 3) state_of_code (st t)\<rparr>;
             t = t\<lparr>deadline_epoch := load_val (get_i64 N n NVS_TMR ''deadline'')
                 (\<lambda>v. True) (\<lambda>v. v) (deadline_epoch t)\<rparr>;
             t = t\<lparr>vacation_end_epoch := load_val (get_i64 N n NVS_TMR ''vac_end'')
                 (\<lambda>v. True) (\<lambda>v. v) (vacation_end_epoch t)\<rparr>;
             t = t\<lparr>vacation_remaining_sec := load_val (get_u32 N n NVS_TMR ''vac_rem'')
                 (\<lambda>v. True) (\<lambda>v. v) (vacation_remaining_sec t)\<rparr>;
             t = t\<lparr>alarms_fired_mask := load_val (get_u32 N n NVS_TMR ''amask32'')
                 (\<lambda>v. True) (\<lambda>v. v) (alarms_fired_mask t)\<rparr>
         in (ESP_OK, t)))"

definition nvs_save_config :: "'n nvs_ops \<Rightarrow> 'n timer \<Rightarrow> 'n timer" where
  "nvs_save_config N t =
     (if nv_open_rw N (flash t) NVS_TMR \<noteq> ESP_OK then t
      else
        (let n = flash t;
             n = nv_put N NVS_TMR ''unit'' (NvU8 (word_of_int (int_of_unit (cfg_unit (cfg t))))) n;
             n = nv_put N NVS_TMR ''value'' (NvU16 (cfg_value (cfg t))) n;
             n = nv_put N NVS_TMR ''alarms'' (NvU8 (cfg_alarm_count (cfg t))) n
         in t\<lparr>flash := nv_commit N n NVS_TMR\<rparr>))"

definition nvs_save_runtime :: "'n nvs_ops \<Rightarrow> 'n timer \<Rightarrow> 'n timer" where
  "nvs_save_runtime N t =
     (if nv_open_rw N (flash t) NVS_TMR \<noteq> ESP_OK then t
      else
        (let n = flash t;
             n = nv_put N NVS_TMR ''state'' (NvU8 (state_code (st t))) n;
             n = nv_put N NVS_TMR ''deadline'' (NvI64 (deadline_epoch t)) n;
             n = nv_put N NVS_TMR ''vac_end'' (NvI64 (vacation_end_epoch t)) n;
             n = nv_put N NVS_TMR ''vac_rem'' (NvU32 (vacation_remaining_sec t)) n;
             n = nv_put N NVS_TMR ''amask32'' (NvU32 (alarms_fired_mask t)) n
         in t\<lparr>flash := nv_commit N n NVS_TMR\<rparr>))"

section \<open>Published events\<close>

definition remaining_sec_now :: "clock \<Rightarrow> 'n timer \<Rightarrow> u32" where
  "remaining_sec_now clk t =
     (if st t \<noteq> COUNTDOWN then 0
      else if deadline_uptime_us t > 0 then
        (let d_us = deadline_uptime_us t - up_us clk in
         if d_us \<le> 0 then 0 else to_u32 (cdiv (d_us + 500000) 1000000))
      else if \<not> time_is_valid (wall clk) then 0
      else
        (let d = deadline_epoch t - wall clk in if d < 0 then 0 else to_u32 d))"

definition publish_state :: "clock \<Rightarrow> 'n timer \<Rightarrow> eff" where
  "publish_state clk t = publishf ''timer.state''
     (''{'' @ jk ''state'' @ jq (ls_timer_engine_state_str (st t)) @ '','' @
      jk ''remaining_sec'' @ dec_u32 (remaining_sec_now clk t) @ ''}'')"

definition publish_tick :: "u32 \<Rightarrow> eff" where
  "publish_tick rem = publishf ''timer.tick'' (''{'' @ jk ''remaining_sec'' @ dec_u32 rem @ ''}'')"

definition publish_alarm :: "'n timer \<Rightarrow> nat \<Rightarrow> u32 \<Rightarrow> eff" where
  "publish_alarm t index rem = publishf ''timer.alarm''
     (''{'' @ jk ''index'' @ dec_nat (index + 1) @ '','' @ jk ''of'' @
      dec_nat (unat (cfg_alarm_count (cfg t))) @ '','' @ jk ''remaining_sec'' @ dec_u32 rem @ ''}'')"

definition publish_triggered :: "u32 \<Rightarrow> eff" where
  "publish_triggered dur = publishf ''timer.triggered''
     (''{'' @ jk ''duration_sec'' @ dec_u32 dur @ ''}'')"

definition publish_reset :: "string \<Rightarrow> eff" where
  "publish_reset by = publishf ''timer.reset'' (''{'' @ jk ''by'' @ jq by @ ''}'')"

definition publish_vacation :: "'n timer \<Rightarrow> bool \<Rightarrow> eff" where
  "publish_vacation t active =
     (if active then publishf ''timer.vacation''
        (''{'' @ jk ''active'' @ ''true,'' @ jk ''end_epoch'' @ dec_int (vacation_end_epoch t) @ ''}'')
      else Publish ''timer.vacation'' (Some (''{'' @ jk ''active'' @ ''false}'')))"

section \<open>State transitions\<close>

definition enter_countdown :: "'n nvs_ops \<Rightarrow> clock \<Rightarrow> u32 \<Rightarrow> string option \<Rightarrow> bool \<Rightarrow> 'n timer \<Rightarrow>
    'n timer \<times> eff list" where
  "enter_countdown N clk rem by reset_alarms t =
     (let t = t\<lparr>st := COUNTDOWN, remaining_at_start := rem,
              deadline_uptime_us := up_us clk + uint rem * 1000000\<rparr>;
          t = t\<lparr>deadline_epoch := (if time_is_valid (wall clk) then wall clk + uint rem else 0)\<rparr>;
          t = (if reset_alarms then t\<lparr>alarms_fired_mask := 0\<rparr> else t);
          t = nvs_save_runtime N t
      in (t, publish_state clk t # (case by of None \<Rightarrow> [] | Some b \<Rightarrow> [publish_reset b])))"

definition enter_inactive :: "'n nvs_ops \<Rightarrow> clock \<Rightarrow> 'n timer \<Rightarrow> 'n timer \<times> eff list" where
  "enter_inactive N clk t =
     (let t = t\<lparr>st := INACTIVE, deadline_epoch := 0, deadline_uptime_us := 0,
              remaining_at_start := 0, vacation_end_epoch := 0, vacation_end_uptime_us := 0,
              vacation_remaining_sec := 0, alarms_fired_mask := 0\<rparr>;
          t = nvs_save_runtime N t
      in (t, [publish_state clk t]))"

definition enter_vacation :: "'n nvs_ops \<Rightarrow> clock \<Rightarrow> u32 \<Rightarrow> 'n timer \<Rightarrow> 'n timer \<times> eff list" where
  "enter_vacation N clk days t =
     (let rem = remaining_sec_now clk t;
          t = t\<lparr>vacation_remaining_sec := rem,
              vacation_end_uptime_us := up_us clk + uint days * 86400 * 1000000,
              vacation_end_epoch := (if time_is_valid (wall clk) then wall clk + uint days * 86400 else 0),
              st := VACATION, deadline_epoch := 0, deadline_uptime_us := 0\<rparr>;
          t = nvs_save_runtime N t
      in (t, [publish_vacation t True, publish_state clk t]))"

definition exit_vacation_to_countdown :: "'n nvs_ops \<Rightarrow> clock \<Rightarrow> 'n timer \<Rightarrow> 'n timer \<times> eff list" where
  "exit_vacation_to_countdown N clk t =
     (let resume_rem = vacation_remaining_sec t;
          pub = publish_vacation t False;
          t = t\<lparr>vacation_end_epoch := 0, vacation_end_uptime_us := 0, vacation_remaining_sec := 0\<rparr>
      in case (if resume_rem = 0 then enter_inactive N clk t
               else enter_countdown N clk resume_rem None False t)
         of (t, effs) \<Rightarrow> (t, pub # effs))"

definition enter_triggered :: "'n nvs_ops \<Rightarrow> clock \<Rightarrow> 'n timer \<Rightarrow> 'n timer \<times> eff list" where
  "enter_triggered N clk t =
     (let dur = total_duration_sec (cfg t);
          t = t\<lparr>st := TRIGGERED, deadline_epoch := 0, deadline_uptime_us := 0\<rparr>;
          t = nvs_save_runtime N t
      in (t, [publish_state clk t, publish_triggered dur]))"

section \<open>The tick\<close>

definition alarm_threshold_sec :: "'n timer \<Rightarrow> nat \<Rightarrow> u32" where
  "alarm_threshold_sec t i = (of_nat i + 1) * unit_to_sec (cfg_unit (cfg t))"

definition alarm_bit :: "nat \<Rightarrow> u32" where
  "alarm_bit i = push_bit i 1"

text \<open>
  The loop of \<open>check_alarms\<close> from index \<open>i\<close> with \<open>k\<close> iterations left; \<open>(uint16_t)(i + 1) >= cap\<close>
  leaves the loop, a set bit or a zero threshold skips the index.
\<close>

fun alarm_loop :: "nat \<Rightarrow> nat \<Rightarrow> u32 \<Rightarrow> 'n timer \<Rightarrow> 'n timer \<times> eff list" where
  "alarm_loop 0 i remaining t = (t, [])"
| "alarm_loop (Suc k) i remaining t =
     (if (of_nat (i + 1) :: u16) \<ge> cfg_value (cfg t) then (t, [])
      else if alarms_fired_mask t AND alarm_bit i \<noteq> 0 then alarm_loop k (i + 1) remaining t
      else if alarm_threshold_sec t i = 0 then alarm_loop k (i + 1) remaining t
      else if remaining \<le> alarm_threshold_sec t i then
        (case alarm_loop k (i + 1) remaining
                (t\<lparr>alarms_fired_mask := alarms_fired_mask t OR alarm_bit i\<rparr>)
         of (t', effs) \<Rightarrow> (t', publish_alarm t i remaining # effs))
      else alarm_loop k (i + 1) remaining t)"

definition check_alarms :: "'n nvs_ops \<Rightarrow> u32 \<Rightarrow> 'n timer \<Rightarrow> 'n timer \<times> eff list" where
  "check_alarms N remaining t =
     (let n = cfg_alarm_count (cfg t) in
      if n = 0 \<or> uint n > MAX_ALARMS then (t, [])
      else case alarm_loop (unat n) 0 remaining t of (t', effs) \<Rightarrow>
        (if effs = [] then t' else nvs_save_runtime N t', effs))"

definition tick_countdown :: "'n nvs_ops \<Rightarrow> clock \<Rightarrow> 'n timer \<Rightarrow> 'n timer \<times> eff list" where
  "tick_countdown N clk t =
     (if deadline_uptime_us t > 0 then
        (let d_us = deadline_uptime_us t - up_us clk in
         if d_us \<le> 0 then enter_triggered N clk t
         else
           (let rem_u = to_u32 (cdiv (d_us + 500000) 1000000);
                t = (if deadline_epoch t = 0 \<and> time_is_valid (wall clk)
                     then nvs_save_runtime N (t\<lparr>deadline_epoch := wall clk + uint rem_u\<rparr>)
                     else t)
            in case check_alarms N rem_u t of (t, effs) \<Rightarrow> (t, publish_tick rem_u # effs)))
      else if time_is_valid (wall clk) \<and> deadline_epoch t > 0 then
        (let rem = deadline_epoch t - wall clk in
         if rem \<le> 0 then enter_triggered N clk t
         else (t\<lparr>deadline_uptime_us := up_us clk + rem * 1000000\<rparr>, []))
      else (t, []))"

definition tick_vacation :: "'n nvs_ops \<Rightarrow> clock \<Rightarrow> 'n timer \<Rightarrow> 'n timer \<times> eff list" where
  "tick_vacation N clk t =
     (if vacation_end_uptime_us t > 0 then
        (if up_us clk \<ge> vacation_end_uptime_us t then exit_vacation_to_countdown N clk t
         else if vacation_end_epoch t = 0 \<and> time_is_valid (wall clk) then
           (nvs_save_runtime N (t\<lparr>vacation_end_epoch :=
              wall clk + cdiv (vacation_end_uptime_us t - up_us clk + 500000) 1000000\<rparr>), [])
         else (t, []))
      else if \<not> time_is_valid (wall clk) then (t, [])
      else if vacation_end_epoch t > 0 \<and> wall clk \<ge> vacation_end_epoch t then
        exit_vacation_to_countdown N clk t
      else if vacation_end_epoch t > 0 then
        (let rem = vacation_end_epoch t - wall clk in
         (if rem > 0 then t\<lparr>vacation_end_uptime_us := up_us clk + rem * 1000000\<rparr> else t, []))
      else (t, []))"

definition handle_tick :: "'n nvs_ops \<Rightarrow> clock \<Rightarrow> 'n timer \<Rightarrow> 'n timer \<times> eff list" where
  "handle_tick N clk t =
     (if st t = COUNTDOWN then tick_countdown N clk t
      else if st t = VACATION then tick_vacation N clk t
      else (t, []))"

section \<open>The task\<close>

definition apply_set :: "'n nvs_ops \<Rightarrow> clock \<Rightarrow> int \<Rightarrow> int \<Rightarrow> int \<Rightarrow> 'n timer \<Rightarrow> 'n timer \<times> eff list" where
  "apply_set N clk u v a t =
     (let c = cfg t;
          c = (if u \<ge> 0 then c\<lparr>cfg_unit := unit_of_int u\<rparr> else c);
          c = (if v \<ge> 0 then c\<lparr>cfg_value := word_of_int v\<rparr> else c);
          c = (if a \<ge> 0 then c\<lparr>cfg_alarm_count := word_of_int a\<rparr> else c);
          t = nvs_save_config N (t\<lparr>cfg := c\<rparr>)
      in (t, [publish_state clk t]))"

fun apply_evt :: "'n nvs_ops \<Rightarrow> clock \<Rightarrow> evt \<Rightarrow> 'n timer \<Rightarrow> 'n timer \<times> eff list" where
  "apply_evt N clk EVT_TICK t = handle_tick N clk t"
| "apply_evt N clk (EVT_CMD_SET u v a) t = apply_set N clk u v a t"
| "apply_evt N clk EVT_CMD_START t =
     (let total = total_duration_sec (cfg t) in
      if total = 0 then (t, []) else enter_countdown N clk total None True t)"
| "apply_evt N clk EVT_CMD_STOP t = enter_inactive N clk t"
| "apply_evt N clk (EVT_CMD_RESET b) t =
     (if st t = COUNTDOWN \<or> st t = TRIGGERED then
        (let total = total_duration_sec (cfg t) in
         if total = 0 then (t, [])
         else enter_countdown N clk total (Some (reset_by_str b)) True t)
      else (t, []))"
| "apply_evt N clk (EVT_CMD_VAC_SET days) t =
     (if st t = COUNTDOWN then enter_vacation N clk (word_of_int days) t else (t, []))"
| "apply_evt N clk EVT_CMD_VAC_CANCEL t =
     (if st t = VACATION then exit_vacation_to_countdown N clk t else (t, []))"

section \<open>Command handlers\<close>

text \<open>
  A handler reads the state, may post one event to the task's queue, writes its output and
  returns its error code: the triple of the posted event, the output and the code.
\<close>

type_synonym timer_res = "evt option \<times> cli_out list \<times> sk_err"

definition SET_USAGE :: string where
  "SET_USAGE = ''timer set <unit> <value> [alarm <N>]''"

definition emit_set_usage :: "cli_out list" where
  "emit_set_usage = [CliUsage (Some SET_USAGE)
     (Some (''unit:   minute | hour | day\<newline>'' @ ''value:  1..60\<newline>'' @
       ''alarm:  0..10 (optional, default 3)''))
     (Some (''timer set hour 8\<newline>'' @ ''timer set hour 24 alarm 3\<newline>'' @ ''timer set minute 5 alarm 2''))]"

text \<open>The three parsed parameters of \<open>timer.set\<close>, each with its own refusal.\<close>

definition set_unit :: "string option \<Rightarrow> cli_out list + int" where
  "set_unit u = (case u of None \<Rightarrow> Inr (-1)
     | Some s \<Rightarrow> (case unit_from_str s of
         None \<Rightarrow> Inl [CliUsage (Some SET_USAGE) (Some ''unit: minute | hour | day'') None]
       | Some x \<Rightarrow> Inr (int_of_unit x)))"

definition set_value :: "string option \<Rightarrow> cli_out list + int" where
  "set_value v = (case v of None \<Rightarrow> Inr (-1)
     | Some s \<Rightarrow> (if atol s < MIN_VALUE \<or> atol s > MAX_VALUE
         then Inl [CliUsage (Some SET_USAGE) (Some ''value: 1..60'') None] else Inr (atol s)))"

definition set_alarms :: "int \<Rightarrow> int \<Rightarrow> u16 \<Rightarrow> cli_out list + int" where
  "set_alarms a value_i cur =
     (if a < 0 then Inr (-1)
      else if a > MAX_ALARMS then
        Inl [CliUsage (Some SET_USAGE) (Some (snprintf 48 (''alarm: 0..'' @ dec_int MAX_ALARMS))) None]
      else
        (let eff_value = (if value_i \<ge> 0 then value_i else uint cur) in
         if a \<ge> eff_value then
           Inl [CliUsage (Some SET_USAGE) (Some (snprintf 96 (''alarm must be < value (value='' @
             dec_int eff_value @ '', max alarm='' @ dec_int (eff_value - 1) @ '')''))) None]
         else Inr a))"

definition timer_cli_set :: "cli_ctx \<Rightarrow> 'n timer \<Rightarrow> timer_res" where
  "timer_cli_set ctx t =
     (let u_str = or_else (sk_cli_arg_after ctx ''unit'') (sk_cli_arg ctx 0);
          v_str = or_else (sk_cli_arg_after ctx ''value'') (sk_cli_arg ctx 1);
          alarms_l = (case or_else (sk_cli_arg_after_long ctx ''alarm'')
                        (sk_cli_arg_after_long ctx ''alarms'') of None \<Rightarrow> -1 | Some a \<Rightarrow> a)
      in if u_str = None \<and> v_str = None \<and> alarms_l < 0 then (None, emit_set_usage, SK_ERR_MISSING_ARG)
      else case set_unit u_str of Inl o1 \<Rightarrow> (None, o1, SK_ERR_INVALID_ARG)
      | Inr unit_i \<Rightarrow> (case set_value v_str of Inl o2 \<Rightarrow> (None, o2, SK_ERR_INVALID_ARG)
      | Inr value_i \<Rightarrow> (case set_alarms alarms_l value_i (cfg_value (cfg t)) of
          Inl o3 \<Rightarrow> (None, o3, SK_ERR_INVALID_ARG)
      | Inr alarms_i \<Rightarrow>
          (if unit_i \<ge> 0 \<and> value_i < 0 then (None, emit_set_usage, SK_ERR_MISSING_ARG)
           else if value_i \<ge> 0 \<and> unit_i < 0 then (None, emit_set_usage, SK_ERR_MISSING_ARG)
           else (Some (EVT_CMD_SET unit_i value_i alarms_i), [CliOk None], SK_OK)))))"

definition timer_cli_start :: "cli_ctx \<Rightarrow> 'n timer \<Rightarrow> timer_res" where
  "timer_cli_start ctx t = (Some EVT_CMD_START, [CliOk None], SK_OK)"

definition timer_cli_stop :: "cli_ctx \<Rightarrow> 'n timer \<Rightarrow> timer_res" where
  "timer_cli_stop ctx t = (Some EVT_CMD_STOP, [CliOk None], SK_OK)"

definition timer_cli_reset :: "cli_ctx \<Rightarrow> 'n timer \<Rightarrow> timer_res" where
  "timer_cli_reset ctx t =
     (Some (EVT_CMD_RESET (if sk_cli_arg_after ctx ''by'' = Some ''api'' then RESET_BY_API
        else RESET_BY_MANUAL)), [CliOk None], SK_OK)"

text \<open>The bit count of the fired mask: the loop shifts until the mask is zero, 32 rounds at most.\<close>

fun fired_count_loop :: "nat \<Rightarrow> u32 \<Rightarrow> nat" where
  "fired_count_loop 0 m = 0"
| "fired_count_loop (Suc k) m =
     (if m = 0 then 0 else unat (m AND 1) + fired_count_loop k (drop_bit 1 m))"

definition alarms_fired_count :: "u32 \<Rightarrow> nat" where
  "alarms_fired_count m = fired_count_loop 32 m"

definition vacation_remaining_days :: "clock \<Rightarrow> 'n timer \<Rightarrow> u32" where
  "vacation_remaining_days clk t =
     (if vacation_end_uptime_us t > 0 then
        (let d_us = vacation_end_uptime_us t - up_us clk in
         if d_us \<le> 0 then 0
         else (let d_sec = cdiv (d_us + 500000) 1000000 in to_u32 (cdiv (d_sec + 86399) 86400)))
      else if vacation_end_epoch t > 0 then
        (if \<not> time_is_valid (wall clk) then 0
         else (let d = vacation_end_epoch t - wall clk in
               if d \<le> 0 then 0 else to_u32 (cdiv (d + 86399) 86400)))
      else 0)"

definition status_json :: "clock \<Rightarrow> 'n timer \<Rightarrow> string" where
  "status_json clk t = snprintf 256
     (''{'' @ jk ''state'' @ jq (ls_timer_engine_state_str (st t)) @ '','' @
      jk ''remaining_sec'' @ dec_u32 (remaining_sec_now clk t) @ '','' @
      jk ''deadline_epoch'' @ dec_int (deadline_epoch t) @ '','' @
      jk ''vacation_end_epoch'' @ dec_int (vacation_end_epoch t) @ '','' @
      jk ''vacation_remaining_sec'' @ dec_u32 (vacation_remaining_sec t) @ '','' @
      jk ''alarms_fired_mask'' @ dec_u32 (alarms_fired_mask t) @ ''}'')"

definition timer_cli_status :: "clock \<Rightarrow> cli_ctx \<Rightarrow> 'n timer \<Rightarrow> timer_res" where
  "timer_cli_status clk ctx t =
     (if is_machine_mode ctx then (None, [CliOk (Some (status_json clk t))], SK_OK)
      else (None,
        CliKv ''State'' (ls_timer_engine_state_str (st t)) #
        (case st t of
           COUNTDOWN \<Rightarrow>
             [CliKv ''Remaining'' (snprintf 256 (sk_cli_fmt_duration 32 (remaining_sec_now clk t))),
              CliKv ''Alarms'' (snprintf 256 (dec_nat (unat (cfg_alarm_count (cfg t))) @ '' configured, '' @
                dec_nat (alarms_fired_count (alarms_fired_mask t)) @ '' fired''))]
         | VACATION \<Rightarrow>
             [CliKv ''Vacation ends'' (snprintf 256 (''in '' @ dec_u32 (vacation_remaining_days clk t) @ '' day(s)'')),
              CliKv ''Saved time'' (snprintf 256 (sk_cli_fmt_duration 32 (vacation_remaining_sec t)))]
         | TRIGGERED \<Rightarrow> [CliKv ''Triggered'' ''yes'']
         | INACTIVE \<Rightarrow> []), SK_OK))"

definition timer_cli_get :: "cli_ctx \<Rightarrow> 'n timer \<Rightarrow> timer_res" where
  "timer_cli_get ctx t =
     (let total = total_duration_sec (cfg t) in
      if is_machine_mode ctx then
        (None, [CliOk (Some (snprintf 128 (''{'' @ jk ''unit'' @
           jq (ls_timer_engine_unit_str (cfg_unit (cfg t))) @ '','' @
           jk ''value'' @ dec_nat (unat (cfg_value (cfg t))) @ '','' @
           jk ''alarms'' @ dec_nat (unat (cfg_alarm_count (cfg t))) @ '','' @
           jk ''total_duration_sec'' @ dec_u32 total @ ''}'')))], SK_OK)
      else (None,
        [CliKv ''Unit'' (ls_timer_engine_unit_str (cfg_unit (cfg t))),
         CliKv ''Value'' (dec_nat (unat (cfg_value (cfg t)))),
         CliKv ''Alarm count'' (dec_nat (unat (cfg_alarm_count (cfg t)))),
         CliKv ''Total duration'' (sk_cli_fmt_duration 32 total)], SK_OK))"

definition vac_usage :: "cli_out list" where
  "vac_usage = [CliUsage (Some ''vacation set <days>'') (Some ''days: 1..60'')
     (Some (''vacation set 7\<newline>'' @ ''vacation set 30''))]"

definition timer_cli_vac_set :: "cli_ctx \<Rightarrow> 'n timer \<Rightarrow> timer_res" where
  "timer_cli_vac_set ctx t =
     (case or_else (sk_cli_arg_after ctx ''days'') (sk_cli_arg ctx 0) of
        None \<Rightarrow> (None, vac_usage, SK_ERR_MISSING_ARG)
      | Some d_str \<Rightarrow>
          (let days = atol d_str in
           if days < 1 \<or> days > MAX_VACATION_DAYS then (None, vac_usage, SK_ERR_INVALID_ARG)
           else (Some (EVT_CMD_VAC_SET days), [CliOk None], SK_OK)))"

definition timer_cli_vac_cancel :: "cli_ctx \<Rightarrow> 'n timer \<Rightarrow> timer_res" where
  "timer_cli_vac_cancel ctx t = (Some EVT_CMD_VAC_CANCEL, [CliOk None], SK_OK)"

section \<open>Event-bus hooks and start-up\<close>

definition timer_factory_reset :: "'n nvs_ops \<Rightarrow> clock \<Rightarrow> 'n timer \<Rightarrow> 'n timer \<times> eff list" where
  "timer_factory_reset N clk t =
     (let n = flash t;
          n = (if nv_open_rw N n NVS_TMR = ESP_OK
               then nv_commit N (nv_erase_all N n NVS_TMR) NVS_TMR else n);
          t = timer_static n
      in (t, [publish_state clk t]))"

text \<open>\<open>on_reset_requested\<close>: the queue event for a payload (\<open>None\<close> for a null payload).\<close>

definition on_reset_requested :: "string option \<Rightarrow> evt" where
  "on_reset_requested payload =
     EVT_CMD_RESET (case payload of None \<Rightarrow> RESET_BY_API
       | Some p \<Rightarrow> if strstr p (jq ''manual'') then RESET_BY_MANUAL else RESET_BY_API)"

definition boot_countdown :: "'n nvs_ops \<Rightarrow> clock \<Rightarrow> 'n timer \<Rightarrow> 'n timer" where
  "boot_countdown N clk t =
     (if deadline_epoch t \<le> 0 then
        (let t = t\<lparr>st := INACTIVE, alarms_fired_mask := 0\<rparr>; n = flash t in
         if nv_open_rw N n NVS_TMR = ESP_OK then
           (let n = nv_put N NVS_TMR ''state'' (NvU8 (state_code (st t))) n;
                n = nv_put N NVS_TMR ''deadline'' (NvI64 0) n;
                n = nv_put N NVS_TMR ''amask32'' (NvU32 0) n
            in t\<lparr>flash := nv_commit N n NVS_TMR\<rparr>)
         else t)
      else if time_is_valid (wall clk) then
        (let rem = deadline_epoch t - wall clk in
         if rem > 0 then t\<lparr>deadline_uptime_us := up_us clk + rem * 1000000\<rparr> else t)
      else t)"

definition boot_vacation :: "'n nvs_ops \<Rightarrow> clock \<Rightarrow> 'n timer \<Rightarrow> 'n timer" where
  "boot_vacation N clk t =
     (if vacation_end_epoch t \<le> 0 then
        (let t = t\<lparr>st := INACTIVE, vacation_remaining_sec := 0\<rparr>; n = flash t in
         if nv_open_rw N n NVS_TMR = ESP_OK then
           (let n = nv_put N NVS_TMR ''state'' (NvU8 (state_code (st t))) n;
                n = nv_put N NVS_TMR ''vac_end'' (NvI64 0) n;
                n = nv_put N NVS_TMR ''vac_rem'' (NvU32 0) n
            in t\<lparr>flash := nv_commit N n NVS_TMR\<rparr>)
         else t)
      else if \<not> time_is_valid (wall clk) then t
      else if wall clk \<ge> vacation_end_epoch t then
        (let resume_rem = vacation_remaining_sec t;
             t = t\<lparr>vacation_end_epoch := 0, vacation_remaining_sec := 0\<rparr>;
             t = (if resume_rem > 0 then
                    t\<lparr>st := COUNTDOWN, deadline_epoch := wall clk + uint resume_rem,
                      deadline_uptime_us := up_us clk + uint resume_rem * 1000000\<rparr>
                  else t\<lparr>st := INACTIVE\<rparr>);
             n = flash t
         in if nv_open_rw N n NVS_TMR = ESP_OK then
              (let n = nv_put N NVS_TMR ''state'' (NvU8 (state_code (st t))) n;
                   n = nv_put N NVS_TMR ''vac_end'' (NvI64 0) n;
                   n = nv_put N NVS_TMR ''vac_rem'' (NvU32 0) n;
                   n = nv_put N NVS_TMR ''deadline'' (NvI64 (deadline_epoch t)) n;
                   n = nv_put N NVS_TMR ''amask32'' (NvU32 (alarms_fired_mask t)) n
               in t\<lparr>flash := nv_commit N n NVS_TMR\<rparr>)
            else t)
      else t\<lparr>vacation_end_uptime_us := up_us clk + (vacation_end_epoch t - wall clk) * 1000000\<rparr>)"

text \<open>Start-up from flash: load, recover a countdown, then recover a vacation.\<close>

definition ls_timer_engine_init :: "'n nvs_ops \<Rightarrow> clock \<Rightarrow> 'n \<Rightarrow> 'n timer" where
  "ls_timer_engine_init N clk n =
     (let t = snd (timer_nvs_load N (timer_static n));
          t = (if st t = COUNTDOWN then boot_countdown N clk t else t);
          t = (if st t = VACATION then boot_vacation N clk t else t)
      in t)"

record ls_timer_status =
  s_state :: ls_timer_state
  s_remaining_sec :: u32
  s_deadline_epoch :: int
  s_vacation_end_epoch :: int
  s_vacation_remaining_sec :: u32
  s_alarms_fired_mask :: u32

definition ls_timer_engine_status :: "clock \<Rightarrow> 'n timer \<Rightarrow> ls_timer_status" where
  "ls_timer_engine_status clk t = \<lparr> s_state = st t, s_remaining_sec = remaining_sec_now clk t,
     s_deadline_epoch = deadline_epoch t, s_vacation_end_epoch = vacation_end_epoch t,
     s_vacation_remaining_sec = vacation_remaining_sec t, s_alarms_fired_mask = alarms_fired_mask t \<rparr>"

section \<open>Steps of the component\<close>

text \<open>
  What can happen to the component: the task takes an event from its queue, the factory-reset
  hook runs (in the task of the publisher), or the device restarts. Each at its own instant.
\<close>

datatype timer_act = TaskAct clock evt | FactoryAct clock | RebootAct clock

fun timer_step :: "'n nvs_ops \<Rightarrow> 'n timer \<Rightarrow> timer_act \<Rightarrow> 'n timer" where
  "timer_step N t (TaskAct clk e) = fst (apply_evt N clk e t)"
| "timer_step N t (FactoryAct clk) = fst (timer_factory_reset N clk t)"
| "timer_step N t (RebootAct clk) = ls_timer_engine_init N clk (flash t)"

section \<open>Well-formed configuration and events\<close>

definition cfg_ok :: "ls_timer_config \<Rightarrow> bool" where
  "cfg_ok c \<longleftrightarrow> cfg_unit c \<in> {UNIT_MINUTE, UNIT_HOUR, UNIT_DAY} \<and>
     1 \<le> uint (cfg_value c) \<and> uint (cfg_value c) \<le> 60 \<and> uint (cfg_alarm_count c) \<le> 31"

fun evt_ok :: "evt \<Rightarrow> bool" where
  "evt_ok (EVT_CMD_SET u v a) \<longleftrightarrow> u \<in> {-1, 0, 1, 2} \<and> (v = -1 \<or> 1 \<le> v \<and> v \<le> 60) \<and> -1 \<le> a \<and> a \<le> 31"
| "evt_ok (EVT_CMD_VAC_SET d) \<longleftrightarrow> 1 \<le> d \<and> d \<le> 60"
| "evt_ok _ \<longleftrightarrow> True"

fun act_ok :: "timer_act \<Rightarrow> bool" where
  "act_ok (TaskAct clk e) = evt_ok e"
| "act_ok _ = True"

lemma cfg_ok_default: "cfg_ok default_config"
  by (simp add: cfg_ok_def default_config_def)

lemma cfg_nvs_save_runtime [simp]: "cfg (nvs_save_runtime N t) = cfg t"
  by (simp add: nvs_save_runtime_def Let_def)

lemma save_runtime_fields [simp]:
  "st (nvs_save_runtime N t) = st t"
  "deadline_epoch (nvs_save_runtime N t) = deadline_epoch t"
  "vacation_end_epoch (nvs_save_runtime N t) = vacation_end_epoch t"
  "vacation_remaining_sec (nvs_save_runtime N t) = vacation_remaining_sec t"
  "alarms_fired_mask (nvs_save_runtime N t) = alarms_fired_mask t"
  "deadline_uptime_us (nvs_save_runtime N t) = deadline_uptime_us t"
  "remaining_at_start (nvs_save_runtime N t) = remaining_at_start t"
  "vacation_end_uptime_us (nvs_save_runtime N t) = vacation_end_uptime_us t"
  by (simp_all add: nvs_save_runtime_def Let_def)

lemma save_config_fields [simp]:
  "cfg (nvs_save_config N t) = cfg t"
  "st (nvs_save_config N t) = st t"
  "deadline_epoch (nvs_save_config N t) = deadline_epoch t"
  "vacation_end_epoch (nvs_save_config N t) = vacation_end_epoch t"
  "vacation_remaining_sec (nvs_save_config N t) = vacation_remaining_sec t"
  "alarms_fired_mask (nvs_save_config N t) = alarms_fired_mask t"
  "deadline_uptime_us (nvs_save_config N t) = deadline_uptime_us t"
  "remaining_at_start (nvs_save_config N t) = remaining_at_start t"
  "vacation_end_uptime_us (nvs_save_config N t) = vacation_end_uptime_us t"
  by (simp_all add: nvs_save_config_def Let_def)

lemma alarm_loop_fields [simp]:
  "cfg (fst (alarm_loop k i r t)) = cfg t"
  "st (fst (alarm_loop k i r t)) = st t"
  "deadline_epoch (fst (alarm_loop k i r t)) = deadline_epoch t"
  "vacation_end_epoch (fst (alarm_loop k i r t)) = vacation_end_epoch t"
  "vacation_remaining_sec (fst (alarm_loop k i r t)) = vacation_remaining_sec t"
  "deadline_uptime_us (fst (alarm_loop k i r t)) = deadline_uptime_us t"
  "remaining_at_start (fst (alarm_loop k i r t)) = remaining_at_start t"
  "vacation_end_uptime_us (fst (alarm_loop k i r t)) = vacation_end_uptime_us t"
  "flash (fst (alarm_loop k i r t)) = flash t"
  by (induction k i r t rule: alarm_loop.induct) (simp_all add: case_prod_beta)

lemma check_alarms_fields [simp]:
  "cfg (fst (check_alarms N r t)) = cfg t"
  "st (fst (check_alarms N r t)) = st t"
  "deadline_epoch (fst (check_alarms N r t)) = deadline_epoch t"
  "vacation_end_epoch (fst (check_alarms N r t)) = vacation_end_epoch t"
  "vacation_remaining_sec (fst (check_alarms N r t)) = vacation_remaining_sec t"
  "deadline_uptime_us (fst (check_alarms N r t)) = deadline_uptime_us t"
  "vacation_end_uptime_us (fst (check_alarms N r t)) = vacation_end_uptime_us t"
  by (simp_all add: check_alarms_def Let_def case_prod_beta)

lemmas timer_transition_defs = enter_countdown_def enter_inactive_def enter_vacation_def
  exit_vacation_to_countdown_def enter_triggered_def tick_countdown_def tick_vacation_def
  handle_tick_def Let_def case_prod_beta

lemma cfg_handle_tick [simp]: "cfg (fst (handle_tick N clk t)) = cfg t"
  by (simp add: timer_transition_defs)

lemma cfg_ok_apply_evt:
  "cfg_ok (cfg t) \<Longrightarrow> evt_ok e \<Longrightarrow> cfg_ok (cfg (fst (apply_evt N clk e t)))"
proof (cases e)
  case (EVT_CMD_SET u v a)
  assume c: "cfg_ok (cfg t)" and e: "evt_ok e"
  have w: "uint (word_of_int v :: u16) = v" if "1 \<le> v" "v \<le> 60" for v
    using that by (simp add: uint_word_of_int)
  have b: "uint (word_of_int a :: u8) = a" if "0 \<le> a" "a \<le> 31" for a
    using that by (simp add: uint_word_of_int)
  show ?thesis using c e
    by (auto simp: EVT_CMD_SET apply_set_def Let_def cfg_ok_def unit_of_int_def w b)
qed (simp_all add: timer_transition_defs)

lemma cfg_ok_load: "cfg_ok (cfg t) \<Longrightarrow> cfg_ok (cfg (snd (timer_nvs_load N t)))"
proof -
  assume c: "cfg_ok (cfg t)"
  have u: "unit_of_int (uint v) \<in> {UNIT_MINUTE, UNIT_HOUR, UNIT_DAY}" if "v = 0 \<or> v = 1 \<or> v = 2" for v :: u8
    using that by (auto simp: unit_of_int_def)
  have "load_val r (\<lambda>v. v = 0 \<or> v = 1 \<or> v = 2) (\<lambda>v. unit_of_int (uint v)) (cfg_unit (cfg t))
      \<in> {UNIT_MINUTE, UNIT_HOUR, UNIT_DAY}" for r :: "u8 option"
    by (rule load_val_P) (use c u in \<open>auto simp: cfg_ok_def\<close>)
  moreover have "1 \<le> uint (load_val r (\<lambda>v. uint v \<ge> MIN_VALUE \<and> uint v \<le> MAX_VALUE) (\<lambda>v. v) (cfg_value (cfg t))) \<and>
      uint (load_val r (\<lambda>v. uint v \<ge> MIN_VALUE \<and> uint v \<le> MAX_VALUE) (\<lambda>v. v) (cfg_value (cfg t))) \<le> 60" for r
    by (rule load_val_P) (use c in \<open>auto simp: cfg_ok_def MIN_VALUE_def MAX_VALUE_def\<close>)
  moreover have "uint (load_val r (\<lambda>v. uint v \<le> MAX_ALARMS) (\<lambda>v. v) (cfg_alarm_count (cfg t))) \<le> 31" for r
    by (rule load_val_P) (use c in \<open>auto simp: cfg_ok_def MAX_ALARMS_def\<close>)
  ultimately show ?thesis using c
    by (simp add: timer_nvs_load_def Let_def cfg_ok_def)
qed

lemma cfg_boot [simp]:
  "cfg (boot_countdown N clk t) = cfg t" "cfg (boot_vacation N clk t) = cfg t"
  by (simp_all add: boot_countdown_def boot_vacation_def Let_def)

lemma cfg_ok_init: "cfg_ok (cfg (ls_timer_engine_init N clk n))"
  by (simp add: ls_timer_engine_init_def Let_def cfg_ok_load timer_static_def cfg_ok_default)

interpretation timer_cfg: stepping "timer_step N" "\<lambda>t :: 'n timer. cfg_ok (cfg t)" act_ok
  for N :: "'n nvs_ops"
proof unfold_locales
  fix t :: "'n timer" and e assume "cfg_ok (cfg t)" and "act_ok e"
  then show "cfg_ok (cfg (timer_step N t e))"
    by (cases e) (simp_all add: cfg_ok_apply_evt timer_factory_reset_def Let_def timer_static_def
        cfg_ok_default cfg_ok_init)
qed

end
