(* ===== verification/LsRelay.thy ===== *)
theory LsRelay
  imports SkCli
begin

text \<open>
  The relay, \<open>ls_relay/src/ls_relay.c\<close>: its configuration in flash, the fire sequence that the worker
  task runs (delay, steady or pulsed drive, abort), the hooks on \<open>timer.triggered\<close> and on a factory
  reset, and the command handlers. While the worker sleeps other tasks run: the fire sequence takes
  as an argument what they do during each slice of 100 ms (\<open>env k\<close> for the k-th slice), so that a
  theorem about all \<open>env\<close> is a theorem about all interleavings at the points where the worker blocks.
\<close>

section \<open>Data\<close>

datatype ls_relay_phase = RELAY_IDLE | RELAY_DELAYING | RELAY_ACTIVE | RELAY_PULSING

datatype fire_reason = FIRE_REASON_TIMER | FIRE_REASON_MANUAL

datatype relay_evt = EVT_FIRE fire_reason | EVT_ABORT

record ls_relay_config =
  gpio_num :: int
  invert :: bool
  start_delay_sec :: u16
  total_duration_s :: u32
  pulse_enabled :: bool
  pulse_duration_sec :: u16

record 'n relay =
  rcfg :: ls_relay_config
  phase :: ls_relay_phase
  fire_started_us :: int
  abort_flag :: bool
  active_flag :: bool
  default_gpio :: int
  rflash :: 'n

definition LS_RELAY_MIN_DURATION_SEC :: int where "LS_RELAY_MIN_DURATION_SEC = 1"
definition LS_RELAY_MAX_DURATION_SEC :: int where "LS_RELAY_MAX_DURATION_SEC = 3600"
definition LS_RELAY_MAX_DELAY_SEC :: int where "LS_RELAY_MAX_DELAY_SEC = 10"
definition LS_RELAY_MIN_PULSE_SEC :: int where "LS_RELAY_MIN_PULSE_SEC = 1"
definition LS_RELAY_MAX_PULSE_SEC :: int where "LS_RELAY_MAX_PULSE_SEC = 60"

definition relay_default_config :: "int \<Rightarrow> ls_relay_config" where
  "relay_default_config gpio = \<lparr> gpio_num = gpio, invert = False, start_delay_sec = 0,
     total_duration_s = 60, pulse_enabled = False, pulse_duration_sec = 5 \<rparr>"

definition relay_static :: "'n \<Rightarrow> 'n relay" where
  "relay_static n = \<lparr> rcfg = relay_default_config (-1), phase = RELAY_IDLE, fire_started_us = 0,
     abort_flag = False, active_flag = False, default_gpio = -1, rflash = n \<rparr>"

fun phase_str :: "ls_relay_phase \<Rightarrow> string" where
  "phase_str RELAY_IDLE = ''idle''"
| "phase_str RELAY_DELAYING = ''delaying''"
| "phase_str RELAY_ACTIVE = ''active''"
| "phase_str RELAY_PULSING = ''pulsing''"

fun reason_str :: "fire_reason \<Rightarrow> string" where
  "reason_str FIRE_REASON_MANUAL = ''manual''"
| "reason_str FIRE_REASON_TIMER = ''timer''"

section \<open>The line\<close>

definition idle_level :: "ls_relay_config \<Rightarrow> int" where
  "idle_level c = (if invert c then 1 else 0)"

definition active_level :: "ls_relay_config \<Rightarrow> int" where
  "active_level c = (if invert c then 0 else 1)"

definition gpio_write_idle :: "'n relay \<Rightarrow> 'n relay \<times> eff list" where
  "gpio_write_idle r = (r\<lparr>active_flag := False\<rparr>,
     if gpio_num (rcfg r) \<ge> 0 then [GpioLevel (gpio_num (rcfg r)) (idle_level (rcfg r))] else [])"

definition gpio_write_active :: "'n relay \<Rightarrow> 'n relay \<times> eff list" where
  "gpio_write_active r = (r\<lparr>active_flag := True\<rparr>,
     if gpio_num (rcfg r) \<ge> 0 then [GpioLevel (gpio_num (rcfg r)) (active_level (rcfg r))] else [])"

section \<open>Flash\<close>

definition NVS_RLY :: string where "NVS_RLY = ''ls_rly''"

definition relay_nvs_load :: "'n nvs_ops \<Rightarrow> int \<Rightarrow> 'n relay \<Rightarrow> 'n relay" where
  "relay_nvs_load N default_gpio_num r =
     (let n = rflash r; c = (rcfg r)\<lparr>gpio_num := default_gpio_num\<rparr> in
      if nv_open_ro N n NVS_RLY \<noteq> ESP_OK then r\<lparr>rcfg := c\<rparr>
      else
        (let c = c\<lparr>gpio_num := load_val (get_i32 N n NVS_RLY ''gpio'') (\<lambda>v. True) (\<lambda>v. v) (gpio_num c)\<rparr>;
             c = c\<lparr>invert := load_val (get_u8 N n NVS_RLY ''invert'') (\<lambda>v. True) (\<lambda>v. v \<noteq> 0) (invert c)\<rparr>;
             c = c\<lparr>start_delay_sec := load_val (get_u16 N n NVS_RLY ''delay'') (\<lambda>v. True) (\<lambda>v. v) (start_delay_sec c)\<rparr>;
             c = c\<lparr>total_duration_s := load_val (get_u32 N n NVS_RLY ''dur'') (\<lambda>v. True) (\<lambda>v. v) (total_duration_s c)\<rparr>;
             c = c\<lparr>pulse_enabled := load_val (get_u8 N n NVS_RLY ''pulse_en'') (\<lambda>v. True) (\<lambda>v. v \<noteq> 0) (pulse_enabled c)\<rparr>;
             c = c\<lparr>pulse_duration_sec := load_val (get_u16 N n NVS_RLY ''pulse_d'') (\<lambda>v. True) (\<lambda>v. v) (pulse_duration_sec c)\<rparr>
         in r\<lparr>rcfg := c\<rparr>))"

definition relay_nvs_save :: "'n nvs_ops \<Rightarrow> 'n relay \<Rightarrow> 'n relay" where
  "relay_nvs_save N r =
     (if nv_open_rw N (rflash r) NVS_RLY \<noteq> ESP_OK then r
      else
        (let n = rflash r; c = rcfg r;
             n = nv_put N NVS_RLY ''gpio'' (NvI32 (gpio_num c)) n;
             n = nv_put N NVS_RLY ''invert'' (NvU8 (if invert c then 1 else 0)) n;
             n = nv_put N NVS_RLY ''delay'' (NvU16 (start_delay_sec c)) n;
             n = nv_put N NVS_RLY ''dur'' (NvU32 (total_duration_s c)) n;
             n = nv_put N NVS_RLY ''pulse_en'' (NvU8 (if pulse_enabled c then 1 else 0)) n;
             n = nv_put N NVS_RLY ''pulse_d'' (NvU16 (pulse_duration_sec c)) n
         in r\<lparr>rflash := nv_commit N n NVS_RLY\<rparr>))"

section \<open>Factory reset\<close>

definition relay_factory_reset :: "'n nvs_ops \<Rightarrow> 'n relay \<Rightarrow> 'n relay \<times> eff list" where
  "relay_factory_reset N r =
     (let e1 = (if gpio_num (rcfg r) \<ge> 0
                then [GpioLevel (gpio_num (rcfg r)) (if invert (rcfg r) then 1 else 0)] else []);
          r = r\<lparr>active_flag := False, abort_flag := True, phase := RELAY_IDLE, fire_started_us := 0,
              rcfg := relay_default_config (default_gpio r)\<rparr>;
          n = rflash r;
          r = r\<lparr>rflash := (if nv_open_rw N n NVS_RLY = ESP_OK
                           then nv_commit N (nv_erase_all N n NVS_RLY) NVS_RLY else n)\<rparr>
      in if gpio_num (rcfg r) \<ge> 0 then
           (case gpio_write_idle r of (r', e2) \<Rightarrow>
              (r', e1 @ [GpioReset (gpio_num (rcfg r)), GpioOutput (gpio_num (rcfg r))] @ e2))
         else (r, e1))"

section \<open>The fire sequence\<close>

text \<open>
  A trace of the worker: its own effects, the slices it slept (milliseconds), and what the other
  tasks did during a slice. A computation of the worker carries the number of slices so far.
\<close>

datatype trace = Did eff | Slept nat | Other eff

record 'n wstate =
  slice :: nat
  dev :: "'n relay"
  tr :: "trace list"

type_synonym 'n renv = "nat \<Rightarrow> 'n relay \<Rightarrow> 'n relay \<times> eff list"

definition emit :: "('n relay \<times> eff list) \<Rightarrow> 'n wstate \<Rightarrow> 'n wstate" where
  "emit p w = w\<lparr>dev := fst p, tr := tr w @ map Did (snd p)\<rparr>"

definition set_dev :: "('n relay \<Rightarrow> 'n relay) \<Rightarrow> 'n wstate \<Rightarrow> 'n wstate" where
  "set_dev f w = w\<lparr>dev := f (dev w)\<rparr>"

text \<open>\<open>vTaskDelay\<close>: the worker sleeps \<open>ms\<close>, the other tasks run.\<close>

definition task_delay :: "'n renv \<Rightarrow> nat \<Rightarrow> 'n wstate \<Rightarrow> 'n wstate" where
  "task_delay env ms w = (case env (slice w) (dev w) of (d, es) \<Rightarrow>
     w\<lparr>slice := slice w + 1, dev := d, tr := tr w @ Slept ms # map Other es\<rparr>)"

function cancellable_sleep :: "'n renv \<Rightarrow> nat \<Rightarrow> 'n wstate \<Rightarrow> bool \<times> 'n wstate" where
  "cancellable_sleep env left w =
     (if left = 0 then (abort_flag (dev w), w)
      else if abort_flag (dev w) then (True, w)
      else (let step = (if left < 100 then left else 100)
            in cancellable_sleep env (left - step) (task_delay env step w)))"
  by auto
termination by (relation "measure (\<lambda>(env, left, w). left)") auto

declare cancellable_sleep.simps [simp del]

definition cancellable_sleep_ms :: "'n renv \<Rightarrow> u32 \<Rightarrow> 'n wstate \<Rightarrow> bool \<times> 'n wstate" where
  "cancellable_sleep_ms env total_ms w = cancellable_sleep env (unat total_ms) w"

definition aborted :: "'n wstate \<Rightarrow> 'n wstate" where
  "aborted w =
     (let w = emit (gpio_write_idle (dev w)) w;
          w = set_dev (\<lambda>r. r\<lparr>phase := RELAY_IDLE, fire_started_us := 0\<rparr>) w
      in emit (dev w, [Publish ''relay.fire.end''
           (Some (''{'' @ jk ''ok'' @ ''false,'' @ jk ''aborted'' @ ''true}''))]) w)"

definition finished :: "'n wstate \<Rightarrow> 'n wstate" where
  "finished w =
     (let w = set_dev (\<lambda>r. r\<lparr>phase := RELAY_IDLE, fire_started_us := 0\<rparr>) w
      in emit (dev w, [Publish ''relay.fire.end''
           (Some (''{'' @ jk ''ok'' @ ''true,'' @ jk ''aborted'' @ ''false}''))]) w)"

text \<open>The pulse loop with \<open>k\<close> cycles left; the half cycle is read from the configuration each time.\<close>

fun pulse_loop :: "'n renv \<Rightarrow> nat \<Rightarrow> 'n wstate \<Rightarrow> 'n wstate" where
  "pulse_loop env 0 w = finished w"
| "pulse_loop env (Suc k) w =
     (let w = emit (gpio_write_active (dev w)) w in
      case cancellable_sleep_ms env (ucast (pulse_duration_sec (rcfg (dev w))) * 1000) w of (ab, w) \<Rightarrow>
      if ab then aborted w
      else
        (let w = emit (gpio_write_idle (dev w)) w in
         case cancellable_sleep_ms env (ucast (pulse_duration_sec (rcfg (dev w))) * 1000) w of (ab, w) \<Rightarrow>
         if ab then aborted w else pulse_loop env k w))"

definition pulse_cycles :: "ls_relay_config \<Rightarrow> u32" where
  "pulse_cycles c =
     (let cycle_ms = ucast (pulse_duration_sec c) * 2 * 1000; total_ms = total_duration_s c * 1000;
          cycles = (if cycle_ms > 0 then total_ms div cycle_ms else 1)
      in if cycles = 0 then 1 else cycles)"

definition drive_phase :: "'n renv \<Rightarrow> 'n wstate \<Rightarrow> 'n wstate" where
  "drive_phase env w =
     (if pulse_enabled (rcfg (dev w)) \<and> pulse_duration_sec (rcfg (dev w)) > 0 then
        (let w = set_dev (\<lambda>r. r\<lparr>phase := RELAY_PULSING\<rparr>) w
         in pulse_loop env (unat (pulse_cycles (rcfg (dev w)))) w)
      else
        (let w = set_dev (\<lambda>r. r\<lparr>phase := RELAY_ACTIVE\<rparr>) w;
             w = emit (gpio_write_active (dev w)) w
         in case cancellable_sleep_ms env (total_duration_s (rcfg (dev w)) * 1000) w of (ab, w) \<Rightarrow>
            if ab then aborted w else finished (emit (gpio_write_idle (dev w)) w)))"

definition run_fire_sequence :: "'n renv \<Rightarrow> clock \<Rightarrow> fire_reason \<Rightarrow> 'n wstate \<Rightarrow> 'n wstate" where
  "run_fire_sequence env clk reason w =
     (let w = set_dev (\<lambda>r. r\<lparr>abort_flag := False, fire_started_us := up_us clk\<rparr>) w;
          w = emit (dev w, [publishf ''relay.fire.start'' (''{'' @ jk ''reason'' @ jq (reason_str reason) @ ''}'')]) w
      in if start_delay_sec (rcfg (dev w)) > 0 then
           (let w = set_dev (\<lambda>r. r\<lparr>phase := RELAY_DELAYING\<rparr>) w in
            case cancellable_sleep_ms env (ucast (start_delay_sec (rcfg (dev w))) * 1000) w of (ab, w) \<Rightarrow>
            if ab then aborted w else drive_phase env w)
         else drive_phase env w)"

text \<open>One turn of the worker task: an event taken from the queue.\<close>

definition worker_step :: "'n renv \<Rightarrow> clock \<Rightarrow> relay_evt \<Rightarrow> 'n wstate \<Rightarrow> 'n wstate" where
  "worker_step env clk e w =
     (case e of EVT_FIRE reason \<Rightarrow>
        (if phase (dev w) \<noteq> RELAY_IDLE then w else run_fire_sequence env clk reason w)
      | EVT_ABORT \<Rightarrow> set_dev (\<lambda>r. r\<lparr>abort_flag := False\<rparr>) w)"

text \<open>The \<open>timer.triggered\<close> hook: the event it puts into the queue.\<close>

definition on_timer_triggered :: "'n relay \<Rightarrow> relay_evt option" where
  "on_timer_triggered r =
     (if phase r \<noteq> RELAY_IDLE then None else Some (EVT_FIRE FIRE_REASON_TIMER))"

section \<open>Command handlers\<close>

text \<open>
  A handler changes the configuration and the flash, drives the line, may put an event into the
  worker's queue, writes its output and returns its code.
\<close>

type_synonym 'n relay_res = "'n relay \<times> eff list \<times> relay_evt option \<times> cli_out list \<times> sk_err"

definition relay_refuse :: "'n relay \<Rightarrow> cli_out list \<Rightarrow> sk_err \<Rightarrow> 'n relay_res" where
  "relay_refuse r outs err = (r, [], None, outs, err)"

definition parse_bool_token :: "string \<Rightarrow> bool option" where
  "parse_bool_token s =
     (if s = ''on'' \<or> s = ''true'' \<or> s = ''1'' then Some True
      else if s = ''off'' \<or> s = ''false'' \<or> s = ''0'' then Some False else None)"

definition is_all_digits :: "string \<Rightarrow> bool" where
  "is_all_digits s = (s \<noteq> [] \<and> list_all is_digit s)"

definition on_off :: "bool \<Rightarrow> string" where
  "on_off b = (if b then ''on'' else ''off'')"

text \<open>The answer of a setter: a line per field and an empty envelope, or one JSON object.\<close>

definition answer :: "cli_ctx \<Rightarrow> cli_out list \<Rightarrow> string \<Rightarrow> cli_out list" where
  "answer ctx human machine =
     (if is_machine_mode ctx then [CliOk (Some machine)] else human @ [CliOk None])"

definition relay_cli_gpio :: "'n nvs_ops \<Rightarrow> cli_ctx \<Rightarrow> 'n relay \<Rightarrow> 'n relay_res" where
  "relay_cli_gpio N ctx r =
     (let raw = sk_cli_arg ctx 0;
          v = (case sk_cli_arg_after_long ctx ''gpio'' of Some l \<Rightarrow> l
               | None \<Rightarrow> (case raw of Some s \<Rightarrow> atol s | None \<Rightarrow> -1));
          present = sk_cli_arg_after ctx ''gpio'' \<noteq> None \<or> raw \<noteq> None
      in if \<not> present then
           relay_refuse r [CliUsage (Some ''relay gpio <N>'') (Some ''  N: GPIO number, 0..30 on ESP32-C6'')
             (Some ''Example: relay gpio 19'')] SK_ERR_MISSING_ARG
         else if v < 0 \<or> v > 30 then
           relay_refuse r [CliUsage (Some ''relay gpio <N>'') (Some ''  N: GPIO number, 0..30'')
             (Some ''Example: relay gpio 19'')] SK_ERR_INVALID_ARG
         else
           (let r = relay_nvs_save N (r\<lparr>rcfg := (rcfg r)\<lparr>gpio_num := v\<rparr>\<rparr>);
                g = gpio_num (rcfg r)
            in case gpio_write_idle r of (r, e) \<Rightarrow>
               (r, [GpioReset g, GpioOutput g] @ e, None,
                answer ctx [CliKv ''GPIO'' (dec_int g)] (snprintf 48 (''{'' @ jk ''gpio'' @ dec_int g @ ''}'')),
                SK_OK)))"

definition relay_cli_invert :: "'n nvs_ops \<Rightarrow> cli_ctx \<Rightarrow> 'n relay \<Rightarrow> 'n relay_res" where
  "relay_cli_invert N ctx r =
     (let s = or_else (sk_cli_arg_after ctx ''invert'') (sk_cli_arg ctx 0) in
      case (case s of None \<Rightarrow> None | Some x \<Rightarrow> parse_bool_token x) of
        None \<Rightarrow> relay_refuse r [CliUsage (Some ''relay invert <on|off>'')
          (Some (''  on  : idle HIGH, active LOW\<newline>'' @ ''  off : idle LOW, active HIGH (default)''))
          (Some ''Example: relay invert on'')]
          (if s = None then SK_ERR_MISSING_ARG else SK_ERR_INVALID_ARG)
      | Some v \<Rightarrow>
          (let r = relay_nvs_save N (r\<lparr>rcfg := (rcfg r)\<lparr>invert := v\<rparr>\<rparr>)
           in case (if gpio_num (rcfg r) \<ge> 0 \<and> phase r = RELAY_IDLE then gpio_write_idle r else (r, []))
              of (r, e) \<Rightarrow>
              (r, e, None, answer ctx [CliKv ''Invert'' (on_off v)]
                 (snprintf 32 (''{'' @ jk ''invert'' @ jbool v @ ''}'')), SK_OK)))"

text \<open>The common form of \<open>relay delay\<close> and \<open>relay duration\<close>: the number, or \<open>None\<close> if it is missing.\<close>

definition relay_number :: "cli_ctx \<Rightarrow> string \<Rightarrow> int option" where
  "relay_number ctx kw = (case sk_cli_arg_after_long ctx kw of Some l \<Rightarrow> Some l
     | None \<Rightarrow> map_option atol (sk_cli_arg ctx 0))"

definition delay_usage :: "cli_out list" where
  "delay_usage = [CliUsage (Some ''relay delay <s>'') (Some ''  s: start delay in seconds, 0..10'')
     (Some ''Example: relay delay 5'')]"

definition relay_cli_delay :: "'n nvs_ops \<Rightarrow> cli_ctx \<Rightarrow> 'n relay \<Rightarrow> 'n relay_res" where
  "relay_cli_delay N ctx r =
     (case relay_number ctx ''delay'' of
        None \<Rightarrow> relay_refuse r delay_usage SK_ERR_MISSING_ARG
      | Some v \<Rightarrow>
          (if v < 0 \<or> v > LS_RELAY_MAX_DELAY_SEC then relay_refuse r delay_usage SK_ERR_INVALID_ARG
           else
             (let r = relay_nvs_save N (r\<lparr>rcfg := (rcfg r)\<lparr>start_delay_sec := word_of_int v\<rparr>\<rparr>);
                  d = start_delay_sec (rcfg r)
              in (r, [], None, answer ctx [CliKv ''Start delay'' (sk_cli_fmt_duration 32 (ucast d))]
                    (snprintf 48 (''{'' @ jk ''delay_sec'' @ dec_nat (unat d) @ ''}'')), SK_OK))))"

definition duration_usage :: "cli_out list" where
  "duration_usage = [CliUsage (Some ''relay duration <s>'') (Some ''  s: duration in seconds, 1..3600'')
     (Some ''Example: relay duration 60'')]"

definition relay_cli_duration :: "'n nvs_ops \<Rightarrow> cli_ctx \<Rightarrow> 'n relay \<Rightarrow> 'n relay_res" where
  "relay_cli_duration N ctx r =
     (case relay_number ctx ''duration'' of
        None \<Rightarrow> relay_refuse r duration_usage SK_ERR_MISSING_ARG
      | Some v \<Rightarrow>
          (if v < LS_RELAY_MIN_DURATION_SEC \<or> v > LS_RELAY_MAX_DURATION_SEC
           then relay_refuse r duration_usage SK_ERR_INVALID_ARG
           else
             (let r = relay_nvs_save N (r\<lparr>rcfg := (rcfg r)\<lparr>total_duration_s := word_of_int v\<rparr>\<rparr>);
                  d = total_duration_s (rcfg r)
              in (r, [], None, answer ctx [CliKv ''Active duration'' (sk_cli_fmt_duration 32 d)]
                    (snprintf 48 (''{'' @ jk ''duration_sec'' @ dec_u32 d @ ''}'')), SK_OK))))"

definition relay_cli_pulse :: "'n nvs_ops \<Rightarrow> cli_ctx \<Rightarrow> 'n relay \<Rightarrow> 'n relay_res" where
  "relay_cli_pulse N ctx r =
     (case or_else (sk_cli_arg_after ctx ''pulse'') (sk_cli_arg ctx 0) of
        None \<Rightarrow> relay_refuse r [CliUsage (Some ''relay pulse <on|off> | relay pulse <s>'')
          (Some (''  on  : enable pulse mode (keep current half-cycle)\<newline>'' @
             ''  off : disable pulse mode (steady ON)\<newline>'' @
             ''  s   : enable pulse mode AND set half-cycle, 1..60 seconds''))
          (Some ''Example: relay pulse 5'')] SK_ERR_MISSING_ARG
      | Some s \<Rightarrow>
          (case parse_bool_token s of
             Some b \<Rightarrow>
               (let r = relay_nvs_save N (r\<lparr>rcfg := (rcfg r)\<lparr>pulse_enabled := b\<rparr>\<rparr>)
                in (r, [], None, answer ctx [CliKv ''Pulse mode'' (on_off b)]
                      (snprintf 64 (''{'' @ jk ''pulse'' @ jbool b @ '','' @ jk ''pulse_duration_sec'' @
                         dec_nat (unat (pulse_duration_sec (rcfg r))) @ ''}'')), SK_OK))
           | None \<Rightarrow>
               (if \<not> is_all_digits s then
                  relay_refuse r [CliUsage (Some ''relay pulse <on|off> | relay pulse <s>'')
                    (Some ''  on/off, or s (1..60 seconds)'') (Some ''Example: relay pulse 5'')] SK_ERR_INVALID_ARG
                else if atol s < LS_RELAY_MIN_PULSE_SEC \<or> atol s > LS_RELAY_MAX_PULSE_SEC then
                  relay_refuse r [CliUsage (Some ''relay pulse <s>'') (Some ''  s: half-cycle in seconds, 1..60'')
                    (Some ''Example: relay pulse 5'')] SK_ERR_INVALID_ARG
                else
                  (let r = relay_nvs_save N (r\<lparr>rcfg := (rcfg r)\<lparr>pulse_enabled := True,
                             pulse_duration_sec := word_of_int (atol s)\<rparr>\<rparr>);
                       d = pulse_duration_sec (rcfg r)
                   in (r, [], None, answer ctx [CliKv ''Pulse mode'' ''on'',
                          CliKv ''Pulse duration'' (sk_cli_fmt_duration 32 (ucast d))]
                         (snprintf 64 (''{'' @ jk ''pulse'' @ ''true,'' @ jk ''pulse_duration_sec'' @
                            dec_nat (unat d) @ ''}'')), SK_OK)))))"

definition relay_cli_get :: "cli_ctx \<Rightarrow> 'n relay \<Rightarrow> 'n relay_res" where
  "relay_cli_get ctx r =
     (let c = rcfg r in
      (r, [], None, answer ctx
         [CliKv ''GPIO'' (dec_int (gpio_num c)), CliKv ''Invert'' (on_off (invert c)),
          CliKv ''Start delay'' (sk_cli_fmt_duration 32 (ucast (start_delay_sec c))),
          CliKv ''Active duration'' (sk_cli_fmt_duration 32 (total_duration_s c)),
          CliKv ''Pulse mode'' (on_off (pulse_enabled c)),
          CliKv ''Pulse duration'' (sk_cli_fmt_duration 32 (ucast (pulse_duration_sec c)))]
         (snprintf 256 (''{'' @ jk ''gpio'' @ dec_int (gpio_num c) @ '','' @ jk ''invert'' @ jbool (invert c) @ '','' @
            jk ''delay_sec'' @ dec_nat (unat (start_delay_sec c)) @ '','' @
            jk ''duration_sec'' @ dec_u32 (total_duration_s c) @ '','' @
            jk ''pulse'' @ jbool (pulse_enabled c) @ '','' @
            jk ''pulse_duration_sec'' @ dec_nat (unat (pulse_duration_sec c)) @ ''}'')), SK_OK))"

definition busy_reason :: "string \<Rightarrow> string" where
  "busy_reason s = ''{'' @ jk ''reason'' @ jq s @ ''}''"

text \<open>\<open>queue_ok\<close>: the result of \<open>xQueueSend\<close> with no wait.\<close>

definition relay_cli_test :: "bool \<Rightarrow> cli_ctx \<Rightarrow> 'n relay \<Rightarrow> 'n relay_res" where
  "relay_cli_test queue_ok ctx r =
     (if gpio_num (rcfg r) < 0 then
        relay_refuse r [CliErr SK_ERR_INVALID_ARG (Some (busy_reason ''gpio not configured''))] SK_ERR_INVALID_ARG
      else if phase r \<noteq> RELAY_IDLE then
        relay_refuse r [CliErr SK_ERR_BUSY (Some (busy_reason ''already firing; use relay.abort first''))] SK_ERR_BUSY
      else if \<not> queue_ok then
        relay_refuse r [CliErr SK_ERR_BUSY (Some (busy_reason ''queue full''))] SK_ERR_BUSY
      else (r, [], Some (EVT_FIRE FIRE_REASON_MANUAL),
        (if is_machine_mode ctx then [] else [CliKv ''Result'' ''test started'']) @ [CliOk None], SK_OK))"

definition relay_cli_off :: "cli_ctx \<Rightarrow> 'n relay \<Rightarrow> 'n relay_res" where
  "relay_cli_off ctx r =
     (let was_firing = (phase r \<noteq> RELAY_IDLE);
          r = (if was_firing then r\<lparr>abort_flag := True\<rparr> else r)
      in case gpio_write_idle r of (r, e) \<Rightarrow>
         (r, e, None,
          (if is_machine_mode ctx then []
           else [CliKv ''Result'' (if was_firing then ''sequence aborted, relay idle'' else ''relay idle'')]) @
          [CliOk None], SK_OK))"

definition relay_cli_abort :: "cli_ctx \<Rightarrow> 'n relay \<Rightarrow> 'n relay_res" where
  "relay_cli_abort ctx r =
     (if phase r = RELAY_IDLE then
        relay_refuse r [CliErr SK_ERR_BUSY (Some (busy_reason ''not firing''))] SK_ERR_BUSY
      else (r\<lparr>abort_flag := True\<rparr>, [], None,
        (if is_machine_mode ctx then [] else [CliKv ''Result'' ''abort requested'']) @ [CliOk None], SK_OK))"

definition relay_cli_status :: "clock \<Rightarrow> cli_ctx \<Rightarrow> 'n relay \<Rightarrow> 'n relay_res" where
  "relay_cli_status clk ctx r =
     (let act = active_flag r;
          level = (if gpio_num (rcfg r) < 0 then -1
                   else if act then active_level (rcfg r) else idle_level (rcfg r))
      in (r, [], None, answer ctx
            ([CliKv ''Phase'' (phase_str (phase r)), CliKv ''GPIO'' (dec_int (gpio_num (rcfg r))),
              CliKv ''Active'' (if act then ''yes'' else ''no'')] @
             (if fire_started_us r > 0 then
                [CliKv ''Started'' (snprintf 256 (sk_cli_fmt_duration 32
                   (to_u32 (cdiv (up_us clk - fire_started_us r) 1000000)) @ '' ago''))]
              else []))
            (snprintf 200 (''{'' @ jk ''phase'' @ jq (phase_str (phase r)) @ '','' @
               jk ''gpio'' @ dec_int (gpio_num (rcfg r)) @ '','' @ jk ''gpio_level'' @ dec_int level @ '','' @
               jk ''active'' @ jbool act @ '','' @ jk ''fire_started_us'' @ dec_int (fire_started_us r) @ ''}'')),
          SK_OK))"

definition relay_cmds :: "'n nvs_ops \<Rightarrow> clock \<Rightarrow> bool \<Rightarrow> (string \<times> (cli_ctx \<Rightarrow> 'n relay \<Rightarrow> 'n relay_res)) list" where
  "relay_cmds N clk queue_ok =
     [(''relay.gpio'', relay_cli_gpio N), (''relay.invert'', relay_cli_invert N),
      (''relay.delay'', relay_cli_delay N), (''relay.duration'', relay_cli_duration N),
      (''relay.pulse'', relay_cli_pulse N), (''relay.get'', relay_cli_get),
      (''relay.test'', relay_cli_test queue_ok), (''relay.fire'', relay_cli_test queue_ok),
      (''relay.abort'', relay_cli_abort), (''relay.off'', relay_cli_off),
      (''relay.status'', relay_cli_status clk)]"

section \<open>Start-up\<close>

definition ls_relay_init :: "'n nvs_ops \<Rightarrow> int \<Rightarrow> 'n \<Rightarrow> 'n relay \<times> eff list" where
  "ls_relay_init N default_gpio_num n =
     (let r = relay_nvs_load N default_gpio_num ((relay_static n)\<lparr>default_gpio := default_gpio_num\<rparr>) in
      if gpio_num (rcfg r) \<ge> 0 then
        (case gpio_write_idle r of (r', e) \<Rightarrow>
           (r', [GpioReset (gpio_num (rcfg r)), GpioOutput (gpio_num (rcfg r))] @ e))
      else (r, []))"

record ls_relay_status =
  rs_phase :: ls_relay_phase
  rs_gpio_level :: bool
  rs_gpio_active :: bool
  rs_fire_started_us :: int

definition ls_relay_status :: "'n relay \<Rightarrow> ls_relay_status" where
  "ls_relay_status r = \<lparr> rs_phase = phase r,
     rs_gpio_level = ((if active_flag r then active_level (rcfg r) else idle_level (rcfg r)) = 1),
     rs_gpio_active = active_flag r, rs_fire_started_us = fire_started_us r \<rparr>"

end
