(* ===== verification/LsMailText.thy ===== *)
theory LsMailText
  imports SkCli
begin

text \<open>
  The text helpers of the mail components: the JSON escape, the joining of arguments, the on/off flag and
  the look-up of an address without regard to case, which \<open>ls_mail_groups.c\<close> and \<open>ls_reminder.c\<close> both
  carry, and the reading of a string from flash into a buffer.
\<close>

section \<open>JSON escape\<close>

fun json_esc_loop :: "nat \<Rightarrow> string \<Rightarrow> string \<Rightarrow> string" where
  "json_esc_loop cap out [] = out"
| "json_esc_loop cap out (c # cs) =
     (if c = CHR 0x22 \<or> c = CHR 0x5C then
        (if length out + 2 \<ge> cap then out else json_esc_loop cap (out @ [CHR 0x5C, c]) cs)
      else if char_code c < 0x20 then
        (if length out + 1 \<ge> cap then out else json_esc_loop cap (out @ '' '') cs)
      else
        (if length out + 1 \<ge> cap then out else json_esc_loop cap (out @ [c]) cs))"

definition json_esc :: "nat \<Rightarrow> string \<Rightarrow> string" where
  "json_esc cap s = (if cap = 0 then [] else json_esc_loop cap [] s)"

section \<open>Arguments\<close>

definition join_step :: "nat \<Rightarrow> string \<Rightarrow> string \<Rightarrow> string" where
  "join_step cap out t =
     (let out = (if out \<noteq> [] \<and> length out + 1 < cap then out @ '' '' else out);
          room = (if length out + 1 < cap then cap - 1 - length out else 0)
      in out @ take room t)"

primrec join_loop :: "nat \<Rightarrow> string list \<Rightarrow> string \<Rightarrow> string" where
  "join_loop cap [] out = out"
| "join_loop cap (t # ts) out =
     (let out = join_step cap out t in if length out + 1 \<ge> cap then out else join_loop cap ts out)"

text \<open>\<open>None\<close> when there is nothing to join (\<open>false\<close> in the source).\<close>

definition join_argv_from :: "cli_ctx \<Rightarrow> nat \<Rightarrow> nat \<Rightarrow> string option" where
  "join_argv_from ctx start cap =
     (if cap = 0 \<or> start \<ge> length (human_argv ctx) then None
      else (let out = join_loop cap (drop start (human_argv ctx)) [] in if out = [] then None else Some out))"

definition parse_bool_flag :: "string \<Rightarrow> bool option" where
  "parse_bool_flag flag =
     (if flag = ''on'' \<or> flag = ''true'' \<or> flag = ''yes'' \<or> flag = ''1'' then Some True
      else if flag = ''off'' \<or> flag = ''false'' \<or> flag = ''no'' \<or> flag = ''0'' then Some False
      else None)"

section \<open>Addresses\<close>

definition to_lower :: "char \<Rightarrow> char" where
  "to_lower c = (if 65 \<le> char_code c \<and> char_code c \<le> 90 then char_of (char_code c + 32) else c)"

text \<open>\<open>strcasecmp(a, b) == 0\<close>\<close>

definition same_address :: "string \<Rightarrow> string \<Rightarrow> bool" where
  "same_address a b = (map to_lower a = map to_lower b)"

lemma same_address_refl [simp]: "same_address a a"
  by (simp add: same_address_def)

lemma same_address_sym: "same_address a b \<Longrightarrow> same_address b a"
  by (simp add: same_address_def)

lemma same_address_trans: "same_address a b \<Longrightarrow> same_address b c \<Longrightarrow> same_address a c"
  by (simp add: same_address_def)

fun find_address :: "string \<Rightarrow> string list \<Rightarrow> nat option" where
  "find_address a [] = None"
| "find_address a (x # xs) = (if same_address x a then Some 0 else map_option Suc (find_address a xs))"

section \<open>Strings in flash\<close>

text \<open>\<open>nvs_get_str\<close> into a buffer of \<open>m + 1\<close> bytes leaves the buffer alone when the string does not fit.\<close>

definition load_str :: "'n nvs_ops \<Rightarrow> 'n \<Rightarrow> string \<Rightarrow> string \<Rightarrow> nat \<Rightarrow> string \<Rightarrow> string" where
  "load_str N n ns k m old = load_val (get_str N n ns k) (\<lambda>s. length s \<le> m) (\<lambda>s. s) old"

definition nv_bool :: "bool \<Rightarrow> nvs_val" where
  "nv_bool b = NvU8 (if b then 1 else 0)"

section \<open>Printing piece by piece\<close>

text \<open>
  \<open>off += snprintf(buf + off, sizeof(buf) - off, piece)\<close>, one piece and over the pieces, for an array of
  \<open>cap\<close> bytes. \<open>snprintf\<close> answers the length it would have written; when \<open>off\<close> has passed the end, the
  unsigned size wraps around and the next call writes outside the array: \<open>None\<close>. At \<open>off = cap\<close> the size
  is 0 and nothing is written. The pair is the text printed so far, at most \<open>cap - 1\<close> characters, and \<open>off\<close>.
\<close>

definition print_piece :: "nat \<Rightarrow> string \<times> nat \<Rightarrow> string \<Rightarrow> (string \<times> nat) option" where
  "print_piece cap st p =
     (case st of (out, off) \<Rightarrow>
        if off > cap then None
        else Some (if off = cap then out else out @ snprintf (cap - off) p, off + length p))"

fun print_pieces :: "nat \<Rightarrow> string \<times> nat \<Rightarrow> string list \<Rightarrow> (string \<times> nat) option" where
  "print_pieces cap st [] = Some st"
| "print_pieces cap st (p # ps) =
     (case print_piece cap st p of None \<Rightarrow> None | Some st \<Rightarrow> print_pieces cap st ps)"

section \<open>What the handlers share\<close>

definition RCPT_EMAIL_MAX :: nat where "RCPT_EMAIL_MAX = 95"

definition usage3 :: "string \<Rightarrow> string \<Rightarrow> string \<Rightarrow> cli_out" where
  "usage3 u p e = CliUsage (Some u) (Some p) (Some e)"

definition reason :: "string \<Rightarrow> string option" where
  "reason r = Some (''{'' @ jk ''reason'' @ jq r @ ''}'')"

definition esc_email :: "string \<Rightarrow> string" where
  "esc_email s = json_esc (RCPT_EMAIL_MAX * 2 + 2) s"

text \<open>The text of a field: the keyword's value, or else the arguments from number \<open>start\<close> joined with spaces.\<close>

definition text_arg :: "cli_ctx \<Rightarrow> string \<Rightarrow> nat \<Rightarrow> nat \<Rightarrow> string option" where
  "text_arg ctx kw start m =
     (case sk_cli_arg_after ctx kw of Some (c # cs) \<Rightarrow> Some (take m (c # cs))
      | _ \<Rightarrow> join_argv_from ctx start (m + 1))"

definition or_empty :: "string \<Rightarrow> string" where
  "or_empty s = (if s = [] then ''(empty)'' else s)"

text \<open>
  The removal of entry \<open>found\<close> of an array of strings whose last used entry is \<open>k\<close>: the tail moves down,
  entry \<open>k\<close> is cleared.
\<close>

definition remove_slot :: "nat \<Rightarrow> nat \<Rightarrow> string list \<Rightarrow> string list" where
  "remove_slot found k rs = (foldl (\<lambda>rs r. rs[r := rs ! (r + 1)]) rs [found..<k])[k := []]"

text \<open>The recipients of a JSON answer, while 200 bytes of the buffer are left.\<close>

fun get_rcpts :: "nat \<Rightarrow> string \<times> nat \<Rightarrow> bool \<Rightarrow> string list \<Rightarrow> (string \<times> nat) option" where
  "get_rcpts cap st first [] = Some st"
| "get_rcpts cap st first (a # as) =
     (if \<not> (snd st < cap - 200) then Some st
      else case print_piece cap st ((if first then [] else '','') @ jq (esc_email a)) of
        None \<Rightarrow> None | Some st \<Rightarrow> get_rcpts cap st False as)"

section \<open>Lemmas\<close>

lemma print_fits:
  "0 < cap \<Longrightarrow> length out = min off (cap - 1) \<Longrightarrow> off + length (concat ps) \<le> cap \<Longrightarrow>
     print_pieces cap (out, off) ps = Some (take (cap - 1) (out @ concat ps), off + length (concat ps))"
proof (induction ps arbitrary: out off)
  case Nil
  then show ?case by simp
next
  case (Cons p ps)
  show ?case
  proof (cases "off = cap")
    case True
    with Cons.prems have e: "length p = 0" "length (concat ps) = 0" by auto
    have "print_pieces cap (out, off) ps = Some (take (cap - 1) (out @ concat ps), off + length (concat ps))"
      by (rule Cons.IH) (use Cons.prems(1,2) True e in simp_all)
    with True e show ?thesis by (simp add: print_piece_def)
  next
    case False
    have l: "off < cap" "length out = off" using Cons.prems False by auto
    let ?o = "out @ snprintf (cap - off) p"
    have "length ?o = min (off + length p) (cap - 1)"
      using l by (auto simp: snprintf_def min_def)
    then have "print_pieces cap (?o, off + length p) ps =
        Some (take (cap - 1) (?o @ concat ps), off + length p + length (concat ps))"
      by (intro Cons.IH) (use Cons.prems in simp_all)
    moreover have "take (cap - 1) (?o @ concat ps) = take (cap - 1) (out @ p @ concat ps)"
    proof (cases "length p \<le> cap - 1 - off")
      case True
      then show ?thesis by (simp add: snprintf_def)
    next
      case False
      with Cons.prems(3) l have "length (concat ps) = 0" by (simp only: concat.simps length_append)
      then have "concat ps = []" by (simp only: length_0_conv)
      then show ?thesis using False l by (simp add: snprintf_def)
    qed
    ultimately show ?thesis using l by (simp add: print_piece_def)
  qed
qed

lemma print_overruns:
  "off \<le> cap \<Longrightarrow> off + length (concat ps) > cap \<Longrightarrow>
     (case print_pieces cap (out, off) ps of None \<Rightarrow> True | Some (o', off') \<Rightarrow> off' > cap)"
proof (induction ps arbitrary: out off)
  case (Cons p ps)
  let ?o = "if off = cap then out else out @ snprintf (cap - off) p"
  show ?case
  proof (cases "off + length p \<le> cap")
    case True
    from Cons.IH [OF this, of ?o] Cons.prems show ?thesis by (simp add: print_piece_def)
  next
    case False
    then show ?thesis using Cons.prems(1) by (cases ps) (simp_all add: print_piece_def)
  qed
qed simp

lemma length_json_esc_loop: "length out < cap \<Longrightarrow> length (json_esc_loop cap out s) < cap"
  by (induction cap out s rule: json_esc_loop.induct) auto

lemma length_json_esc: "0 < cap \<Longrightarrow> length (json_esc cap s) < cap"
  by (simp add: json_esc_def length_json_esc_loop)

definition esc_char :: "char \<Rightarrow> string" where
  "esc_char c = (if c = CHR 0x22 \<or> c = CHR 0x5C then [CHR 0x5C, c] else if char_code c < 0x20 then '' '' else [c])"

lemma length_esc_char: "length (esc_char c) \<le> 2"
  by (simp add: esc_char_def)

lemma json_esc_loop_fits: "length out + 2 * length s < cap \<Longrightarrow> json_esc_loop cap out s = out @ concat (map esc_char s)"
  by (induction cap out s rule: json_esc_loop.induct) (auto simp: esc_char_def)

text \<open>With the buffers the callers use (twice the length and two) nothing is cut off.\<close>

lemma json_esc_fits: "2 * length s < cap \<Longrightarrow> json_esc cap s = concat (map esc_char s)"
  by (simp add: json_esc_def json_esc_loop_fits)

lemma length_join_step: "length out < cap \<Longrightarrow> length (join_step cap out t) < cap"
  by (auto simp: join_step_def Let_def min_def)

lemma length_join_loop: "length out < cap \<Longrightarrow> length (join_loop cap ts out) < cap"
  by (induction ts arbitrary: out) (simp_all add: Let_def length_join_step)

lemma length_join: "join_argv_from ctx start cap = Some s \<Longrightarrow> s \<noteq> [] \<and> length s < cap"
  by (auto simp: join_argv_from_def Let_def length_join_loop split: if_splits)

lemma find_address_Some: "find_address a xs = Some i \<longleftrightarrow> i < length xs \<and> same_address (xs ! i) a \<and> (\<forall>j < i. \<not> same_address (xs ! j) a)"
proof (induction xs arbitrary: i)
  case (Cons x xs)
  then show ?case by (cases i) (auto simp: less_Suc_eq_0_disj)
qed simp

lemma find_address_None: "find_address a xs = None \<longleftrightarrow> (\<forall>x \<in> set xs. \<not> same_address x a)"
  by (induction xs) auto

section \<open>Arrays of addresses\<close>

lemma dec_nat_digit: "i < 10 \<Longrightarrow> dec_nat i = [digit_char i]"
  by (subst dec_nat.simps) simp

lemma dec_nat_inj: "dec_nat m = dec_nat n \<longleftrightarrow> m = n"
  by (metis digits_value_dec_nat)

lemma digit_char_inj: "i < 10 \<Longrightarrow> j < 10 \<Longrightarrow> (digit_char i = digit_char j) = (i = j)"
  by (metis dec_nat_digit dec_nat_inj list.inject)

lemma dec_nat_not_c: "dec_nat r \<noteq> CHR ''c'' # s"
proof
  assume "dec_nat r = CHR ''c'' # s"
  then have "is_digit CHR ''c''" using dec_nat_digits [of r] by simp
  then show False by (simp add: is_digit_def char_code_def)
qed

lemma fold_slots:
  "k \<le> length rs \<Longrightarrow> foldl (\<lambda>rs r. rs[r := f r (rs ! r)]) rs [0..<k] =
     map (\<lambda>r. if r < k then f r (rs ! r) else rs ! r) [0..<length rs]"
proof (induction k)
  case 0
  show ?case by (simp add: map_nth)
next
  case (Suc k)
  then have "foldl (\<lambda>rs r. rs[r := f r (rs ! r)]) rs [0..<Suc k] =
      (map (\<lambda>r. if r < k then f r (rs ! r) else rs ! r) [0..<length rs])[k := f k (rs ! k)]"
    by simp
  also have "\<dots> = map (\<lambda>r. if r < Suc k then f r (rs ! r) else rs ! r) [0..<length rs]"
    by (rule nth_equalityI) (use Suc.prems in \<open>auto simp: nth_list_update less_Suc_eq\<close>)
  finally show ?case .
qed

lemma count_up: "unat (c :: u8) < 20 \<Longrightarrow> unat (c + 1) = unat c + 1"
  by (simp add: unat_word_ariths)

lemma count_down: "0 < unat (c :: u8) \<Longrightarrow> unat (c - 1) = unat c - 1"
  by (simp add: unat_sub word_le_nat_alt)

lemma text_arg_length: "text_arg ctx kw start m = Some v \<Longrightarrow> length v \<le> m"
  by (auto simp: text_arg_def dest: length_join split: option.splits list.splits)

lemma shift_down:
  "k < length rs \<Longrightarrow> foldl (\<lambda>rs r. rs[r := rs ! Suc r]) rs [a..<k] =
     map (\<lambda>r. if a \<le> r \<and> r < k then rs ! Suc r else rs ! r) [0..<length rs]"
proof (induction k)
  case 0
  show ?case by (simp add: map_nth)
next
  case (Suc k)
  show ?case
  proof (cases "a \<le> k")
    case True
    let ?m = "map (\<lambda>r. if a \<le> r \<and> r < k then rs ! Suc r else rs ! r) [0..<length rs]"
    have "foldl (\<lambda>rs r. rs[r := rs ! Suc r]) rs [a..<Suc k] = ?m[k := ?m ! Suc k]"
      using Suc True by simp
    also have "\<dots> = map (\<lambda>r. if a \<le> r \<and> r < Suc k then rs ! Suc r else rs ! r) [0..<length rs]"
      by (rule nth_equalityI) (use Suc.prems True in \<open>auto simp: nth_list_update less_Suc_eq\<close>)
    finally show ?thesis .
  next
    case False
    then have "map (\<lambda>r. if a \<le> r \<and> r < Suc k then rs ! Suc r else rs ! r) [0..<length rs] = rs"
      by (intro nth_equalityI) auto
    with False show ?thesis by simp
  qed
qed

lemma remove_slot_eq:
  "k < length rs \<Longrightarrow> remove_slot f k rs =
     map (\<lambda>r. if r = k then [] else if f \<le> r \<and> r < k then rs ! Suc r else rs ! r) [0..<length rs]"
  using shift_down [of k rs f] by (intro nth_equalityI) (auto simp: remove_slot_def nth_list_update)

end
