(* ===== verification/LsSmtp.thy ===== *)
theory LsSmtp
  imports LsMailText
begin

text \<open>
  The SMTPS client, \<open>ls_smtp/src/ls_smtp.c\<close>: its configuration in flash, the wire helpers, the mail
  transaction and the commands. The TLS connection (esp-tls) and the base64 routine (mbedtls) are
  third-party code: a record of functions over an unknown world \<open>'w\<close>. While a TLS call blocks, the
  other tasks of the device run and may change the configuration, so the world also tells what the
  configuration is when the code reads it, and a \<open>const char *\<close> that the caller passes is a function
  of the world: what is stored there when the code follows the pointer.
\<close>

section \<open>Data\<close>

record ls_smtp_config =
  smtp_host :: string
  smtp_port :: u16
  smtp_sender :: string
  api_key :: string

record 'n smtp =
  scfg :: ls_smtp_config
  sflash :: 'n

definition LS_SMTP_HOST_MAX :: nat where "LS_SMTP_HOST_MAX = 127"
definition LS_SMTP_SENDER_MAX :: nat where "LS_SMTP_SENDER_MAX = 127"
definition LS_SMTP_KEY_MAX :: nat where "LS_SMTP_KEY_MAX = 191"
definition LS_SMTP_MAX_RCPT :: nat where "LS_SMTP_MAX_RCPT = 32"

definition NVS_SMTP :: string where "NVS_SMTP = ''ls_smtp''"
definition DEFAULT_PORT :: u16 where "DEFAULT_PORT = 465"
definition IO_BUF :: nat where "IO_BUF = 512"

section \<open>Configuration\<close>

definition cfg_clear :: ls_smtp_config where
  "cfg_clear = \<lparr> smtp_host = [], smtp_port = DEFAULT_PORT, smtp_sender = [], api_key = [] \<rparr>"

definition smtp_nvs_load :: "'n nvs_ops \<Rightarrow> 'n smtp \<Rightarrow> 'n smtp" where
  "smtp_nvs_load N s =
     (let n = sflash s; c = cfg_clear in
      if nv_open_ro N n NVS_SMTP \<noteq> ESP_OK then s\<lparr>scfg := c\<rparr>
      else
        (let c = c\<lparr>smtp_host := load_str N n NVS_SMTP ''host'' LS_SMTP_HOST_MAX (smtp_host c)\<rparr>;
             c = c\<lparr>smtp_sender := load_str N n NVS_SMTP ''sender'' LS_SMTP_SENDER_MAX (smtp_sender c)\<rparr>;
             c = c\<lparr>api_key := load_str N n NVS_SMTP ''key'' LS_SMTP_KEY_MAX (api_key c)\<rparr>;
             c = c\<lparr>smtp_port := load_val (get_u16 N n NVS_SMTP ''port'') (\<lambda>v. True) (\<lambda>v. v) (smtp_port c)\<rparr>
         in s\<lparr>scfg := c\<rparr>))"

definition save_entry :: "'n nvs_ops \<Rightarrow> string \<Rightarrow> nvs_val \<Rightarrow> 'n smtp \<Rightarrow> 'n smtp" where
  "save_entry N k v s =
     (if nv_open_rw N (sflash s) NVS_SMTP \<noteq> ESP_OK then s
      else s\<lparr>sflash := nv_commit N (nv_put N NVS_SMTP k v (sflash s)) NVS_SMTP\<rparr>)"

definition nvs_save_host :: "'n nvs_ops \<Rightarrow> 'n smtp \<Rightarrow> 'n smtp" where
  "nvs_save_host N s = save_entry N ''host'' (NvStr (smtp_host (scfg s))) s"

definition nvs_save_port :: "'n nvs_ops \<Rightarrow> 'n smtp \<Rightarrow> 'n smtp" where
  "nvs_save_port N s = save_entry N ''port'' (NvU16 (smtp_port (scfg s))) s"

definition nvs_save_sender :: "'n nvs_ops \<Rightarrow> 'n smtp \<Rightarrow> 'n smtp" where
  "nvs_save_sender N s = save_entry N ''sender'' (NvStr (smtp_sender (scfg s))) s"

definition nvs_save_key :: "'n nvs_ops \<Rightarrow> 'n smtp \<Rightarrow> 'n smtp" where
  "nvs_save_key N s = save_entry N ''key'' (NvStr (api_key (scfg s))) s"

definition nvs_save_all :: "'n nvs_ops \<Rightarrow> 'n smtp \<Rightarrow> 'n smtp" where
  "nvs_save_all N s =
     (if nv_open_rw N (sflash s) NVS_SMTP \<noteq> ESP_OK then s
      else
        (let n = sflash s; c = scfg s;
             n = nv_put N NVS_SMTP ''host'' (NvStr (smtp_host c)) n;
             n = nv_put N NVS_SMTP ''port'' (NvU16 (smtp_port c)) n;
             n = nv_put N NVS_SMTP ''sender'' (NvStr (smtp_sender c)) n;
             n = nv_put N NVS_SMTP ''key'' (NvStr (api_key c)) n
         in s\<lparr>sflash := nv_commit N n NVS_SMTP\<rparr>))"

definition ls_smtp_is_configured :: "ls_smtp_config \<Rightarrow> bool" where
  "ls_smtp_is_configured c = (smtp_host c \<noteq> [] \<and> smtp_sender c \<noteq> [])"

section \<open>Wire helpers\<close>

text \<open>
  \<open>tls_write\<close> answers the number of bytes taken, negative for an error; \<open>tls_read\<close> is asked for at most
  so many bytes and answers \<open>None\<close> for an error and no bytes for an orderly close; \<open>tls_connect\<close> tells
  whether \<open>esp_tls_conn_new_sync\<close> answered 1; \<open>b64_encode\<close> is \<open>None\<close> when it reports an error.
\<close>

record 'w tls_ops =
  tls_cfg :: "'w \<Rightarrow> ls_smtp_config"
  tls_init :: "'w \<Rightarrow> bool \<times> 'w"
  tls_connect :: "string \<Rightarrow> u16 \<Rightarrow> 'w \<Rightarrow> bool \<times> 'w"
  tls_write :: "string \<Rightarrow> 'w \<Rightarrow> int \<times> 'w"
  tls_read :: "nat \<Rightarrow> 'w \<Rightarrow> string option \<times> 'w"
  tls_destroy :: "'w \<Rightarrow> 'w"
  b64_encode :: "nat \<Rightarrow> string \<Rightarrow> string option"

type_synonym 'w ptr = "('w \<Rightarrow> string) option"

text \<open>A write of no bytes is tried again at once, so the loop may run for ever: then \<open>None\<close>.\<close>

partial_function (option) tls_write_all :: "'w tls_ops \<Rightarrow> string \<Rightarrow> 'w \<Rightarrow> (bool \<times> 'w) option" where
  "tls_write_all T buf w =
     (if buf = [] then Some (True, w)
      else (let r = tls_write T buf w in
        if fst r < 0 then Some (False, snd r)
        else if fst r = 0 then tls_write_all T buf (snd r)
        else tls_write_all T (drop (nat (fst r)) buf) (snd r)))"

definition CRLF :: string where "CRLF = [CHR 0x0D, CHR 0x0A]"

text \<open>The buffer as a C string: up to the first NUL.\<close>

definition c_str :: "string \<Rightarrow> string" where
  "c_str s = takeWhile (\<lambda>c. c \<noteq> CHR 0x00) s"

text \<open>What follows the first CRLF, \<open>None\<close> when there is none.\<close>

fun after_crlf :: "string \<Rightarrow> string option" where
  "after_crlf (a # b # cs) = (if a = CHR 0x0D \<and> b = CHR 0x0A then Some cs else after_crlf (b # cs))"
| "after_crlf _ = None"

lemma after_crlf_shorter: "after_crlf s = Some t \<Longrightarrow> length t < length s"
  by (induction s rule: after_crlf.induct) (auto split: if_splits)

text \<open>The pointer \<open>last_complete_line\<close>: the text from the start of the last line that a CRLF ends.\<close>

function last_complete :: "string option \<Rightarrow> string \<Rightarrow> string option" where
  "last_complete found line_start =
     (case after_crlf line_start of None \<Rightarrow> found | Some rest \<Rightarrow> last_complete (Some line_start) rest)"
  by auto
termination by (relation "measure (\<lambda>(l, s). length s)") (auto dest: after_crlf_shorter)

declare last_complete.simps [simp del]

definition final_code :: "string \<Rightarrow> int option" where
  "final_code buf =
     (case last_complete None (c_str buf) of None \<Rightarrow> None
      | Some line \<Rightarrow> (if length line \<ge> 4 \<and> line ! 3 = CHR '' '' then Some (atol (take 3 line)) else None))"

lemma read_more: "\<not> length buf \<ge> m - 1 \<Longrightarrow> bytes \<noteq> [] \<Longrightarrow> m - length (buf @ bytes) < m - length (buf :: string)"
  by (cases bytes) auto

function read_loop :: "'w tls_ops \<Rightarrow> nat \<Rightarrow> string \<Rightarrow> 'w \<Rightarrow> int \<times> 'w" where
  "read_loop T buf_size buf w =
     (if length buf \<ge> buf_size - 1 then (-1, w)
      else case tls_read T (buf_size - 1 - length buf) w of
        (None, w) \<Rightarrow> (-1, w)
      | (Some bytes, w) \<Rightarrow>
          (if bytes = [] then (-1, w)
           else case final_code (buf @ bytes) of
             Some code \<Rightarrow> (code, w)
           | None \<Rightarrow> read_loop T buf_size (buf @ bytes) w))"
  by auto
termination
  by (relation "measure (\<lambda>(T, m, buf, w). m - length buf)") (simp, simp only: in_measure split_conv, rule read_more)

declare read_loop.simps [simp del]

definition tls_read_response :: "'w tls_ops \<Rightarrow> 'w \<Rightarrow> int \<times> 'w" where
  "tls_read_response T w = read_loop T IO_BUF [] w"

definition tls_cmd :: "'w tls_ops \<Rightarrow> string \<Rightarrow> 'w \<Rightarrow> (int \<times> 'w) option" where
  "tls_cmd T cmd w =
     (case tls_write_all T cmd w of None \<Rightarrow> None
      | Some (ok, w) \<Rightarrow> Some (if ok then tls_read_response T w else (-1, w)))"

section \<open>The transaction\<close>

text \<open>
  How \<open>do_send\<close> ends: with an error code, or by running over the end of the array \<open>header\<close>, which C
  leaves undefined. \<open>None\<close> is a write loop that never ends.
\<close>

datatype send_end = Ended sk_err | Overrun

type_synonym 'w io = "'w \<Rightarrow> (send_end \<times> 'w) option"

definition stop :: "sk_err \<Rightarrow> 'w io" where
  "stop e w = Some (Ended e, w)"

text \<open>\<open>if (tls_cmd(...) != code) { rc = e; goto out; }\<close>\<close>

definition expect :: "'w tls_ops \<Rightarrow> string \<Rightarrow> int \<Rightarrow> sk_err \<Rightarrow> 'w io \<Rightarrow> 'w io" where
  "expect T cmd code e k w =
     (case tls_cmd T cmd w of None \<Rightarrow> None | Some (c, w) \<Rightarrow> if c = code then k w else stop e w)"

definition put_all :: "'w tls_ops \<Rightarrow> string \<Rightarrow> sk_err \<Rightarrow> 'w io \<Rightarrow> 'w io" where
  "put_all T s e k w =
     (case tls_write_all T s w of None \<Rightarrow> None | Some (ok, w) \<Rightarrow> if ok then k w else stop e w)"

definition wbuf :: "string \<Rightarrow> string" where
  "wbuf s = snprintf IO_BUF s"

text \<open>One \<open>AUTH LOGIN\<close> line: base64 into 256 bytes, printed with its CRLF.\<close>

definition auth_line :: "'w tls_ops \<Rightarrow> ('w \<Rightarrow> string) \<Rightarrow> int \<Rightarrow> 'w io \<Rightarrow> 'w io" where
  "auth_line T secret code k w =
     (case b64_encode T 256 (secret w) of None \<Rightarrow> stop SK_ERR_SMTP_AUTH w
      | Some b64 \<Rightarrow> expect T (wbuf (b64 @ CRLF)) code SK_ERR_SMTP_AUTH k w)"

text \<open>A recipient that the loops skip: a null pointer or an empty string.\<close>

definition rcpt_at :: "'w \<Rightarrow> 'w ptr \<Rightarrow> string option" where
  "rcpt_at w r = (case r of None \<Rightarrow> None | Some p \<Rightarrow> if p w = [] then None else Some (p w))"

definition rcpt_cmd :: "string \<Rightarrow> string" where
  "rcpt_cmd a = wbuf (''RCPT TO:<'' @ a @ ''>'' @ CRLF)"

fun rcpt_loop :: "'w tls_ops \<Rightarrow> 'w ptr list \<Rightarrow> nat \<Rightarrow> 'w \<Rightarrow> (nat \<times> 'w) option" where
  "rcpt_loop T [] ok w = Some (ok, w)"
| "rcpt_loop T (r # rs) ok w =
     (case rcpt_at w r of None \<Rightarrow> rcpt_loop T rs ok w
      | Some a \<Rightarrow>
          (case tls_cmd T (rcpt_cmd a) w of None \<Rightarrow> None
           | Some (code, w) \<Rightarrow> rcpt_loop T rs (if code = 250 \<or> code = 251 then ok + 1 else ok) w))"

text \<open>The pieces of the \<open>To:\<close> list: the first five recipients that are not skipped.\<close>

fun to_pieces :: "'w \<Rightarrow> nat \<Rightarrow> 'w ptr list \<Rightarrow> string list" where
  "to_pieces w shown [] = []"
| "to_pieces w shown (r # rs) =
     (if shown \<ge> 5 then []
      else case rcpt_at w r of None \<Rightarrow> to_pieces w shown rs
      | Some a \<Rightarrow> (if shown > 0 then ['', ''] else []) @ (''<'' @ a @ ''>'') # to_pieces w (shown + 1) rs)"

definition text_at :: "'w \<Rightarrow> 'w ptr \<Rightarrow> string" where
  "text_at w p = (case p of None \<Rightarrow> [] | Some f \<Rightarrow> f w)"

definition header_pieces :: "'w tls_ops \<Rightarrow> 'w ptr \<Rightarrow> 'w ptr list \<Rightarrow> 'w \<Rightarrow> string list" where
  "header_pieces T subject rs w =
     [''From: <'' @ smtp_sender (tls_cfg T w) @ ''>'' @ CRLF, ''To: ''] @ to_pieces w 0 rs @
     [CRLF, ''Subject: '' @ text_at w subject @ CRLF,
      ''Content-Type: text/plain; charset=UTF-8'' @ CRLF @ CRLF]"

text \<open>\<open>tls_write_all(tls, header, off)\<close>: the text, then its NUL when \<open>off\<close> is the whole array.\<close>

definition header_bytes :: "string list \<Rightarrow> string option" where
  "header_bytes ps =
     (case print_pieces IO_BUF ([], 0) ps of None \<Rightarrow> None
      | Some (out, off) \<Rightarrow> (if off > IO_BUF then None else Some (take off (out @ [CHR 0x00]))))"

definition quit :: "'w tls_ops \<Rightarrow> 'w io" where
  "quit T w =
     (case tls_write_all T (''QUIT'' @ CRLF) w of None \<Rightarrow> None | Some (ok, w) \<Rightarrow> Some (Ended SK_OK, w))"

definition send_data :: "'w tls_ops \<Rightarrow> 'w ptr \<Rightarrow> 'w ptr \<Rightarrow> 'w ptr list \<Rightarrow> 'w io" where
  "send_data T subject body rs w =
     (case header_bytes (header_pieces T subject rs w) of
        None \<Rightarrow> Some (Overrun, w)
      | Some h \<Rightarrow>
          put_all T h SK_ERR_SMTP_CONNECT (\<lambda>w.
            put_all T (text_at w body) SK_ERR_SMTP_CONNECT
              (expect T (CRLF @ ''.'' @ CRLF) 250 SK_ERR_SMTP_CONNECT (quit T)) w) w)"

definition send_rcpts :: "'w tls_ops \<Rightarrow> 'w ptr list \<Rightarrow> 'w io \<Rightarrow> 'w io" where
  "send_rcpts T rs k w =
     (case rcpt_loop T rs 0 w of None \<Rightarrow> None
      | Some (ok, w) \<Rightarrow>
          (if ok = 0 then stop SK_ERR_SMTP_CONNECT w
           else expect T (''DATA'' @ CRLF) 354 SK_ERR_SMTP_CONNECT k w))"

definition dialogue :: "'w tls_ops \<Rightarrow> 'w ptr \<Rightarrow> 'w ptr \<Rightarrow> 'w ptr list \<Rightarrow> 'w io" where
  "dialogue T subject body rs w =
     (case tls_read_response T w of (code, w) \<Rightarrow>
        (if code \<noteq> 220 then stop SK_ERR_SMTP_CONNECT w
         else
           expect T (wbuf (''EHLO lebensspur'' @ CRLF)) 250 SK_ERR_SMTP_CONNECT
             (expect T (''AUTH LOGIN'' @ CRLF) 334 SK_ERR_SMTP_AUTH
               (auth_line T (\<lambda>w. smtp_sender (tls_cfg T w)) 334
                 (auth_line T (\<lambda>w. api_key (tls_cfg T w)) 235
                   (\<lambda>w. expect T (wbuf (''MAIL FROM:<'' @ smtp_sender (tls_cfg T w) @ ''>'' @ CRLF))
                      250 SK_ERR_SMTP_CONNECT
                      (send_rcpts T rs (send_data T subject body rs)) w)))) w))"

definition do_send :: "'w tls_ops \<Rightarrow> 'w ptr \<Rightarrow> 'w ptr \<Rightarrow> 'w ptr list \<Rightarrow> 'w io" where
  "do_send T subject body recipients w =
     (if \<not> ls_smtp_is_configured (tls_cfg T w) then stop SK_ERR_SMTP_NO_CONFIG w
      else if recipients = [] then stop SK_ERR_INVALID_ARG w
      else
        (let rs = take LS_SMTP_MAX_RCPT recipients in
         case tls_init T w of (inited, w) \<Rightarrow>
         if \<not> inited then stop SK_ERR_SMTP_CONNECT w
         else
           (case tls_connect T (smtp_host (tls_cfg T w)) (smtp_port (tls_cfg T w)) w of (conn, w) \<Rightarrow>
            map_option (map_prod id (tls_destroy T))
              (if conn then dialogue T subject body rs w else stop SK_ERR_SMTP_TLS w))))"

definition to_summary :: "'w ptr list \<Rightarrow> 'w \<Rightarrow> string" where
  "to_summary rs w =
     (case rs of Some r # rs' \<Rightarrow> snprintf 64 (r w @ (if rs' \<noteq> [] then '' +N'' else []))
      | _ \<Rightarrow> [])"

definition start_event :: "'w ptr \<Rightarrow> 'w ptr list \<Rightarrow> 'w \<Rightarrow> eff" where
  "start_event subject rs w = publishf ''smtp.send.start''
     (''{'' @ jk ''to'' @ jq (to_summary rs w) @ '','' @ jk ''subject'' @ jq (text_at w subject) @ ''}'')"

definition end_event :: "sk_err \<Rightarrow> eff" where
  "end_event rc =
     (if rc = SK_OK then Publish ''smtp.send.end'' (Some (''{'' @ jk ''ok'' @ ''true}''))
      else publishf ''smtp.send.end'' (''{'' @ jk ''ok'' @ ''false,'' @ jk ''err'' @ jq (sk_err_code_string rc) @ ''}''))"

definition ls_smtp_send :: "'w tls_ops \<Rightarrow> 'w ptr \<Rightarrow> 'w ptr \<Rightarrow> 'w ptr list \<Rightarrow> 'w \<Rightarrow>
    (send_end \<times> eff list \<times> 'w) option" where
  "ls_smtp_send T subject body recipients w =
     (case do_send T subject body recipients w of None \<Rightarrow> None
      | Some (Overrun, w') \<Rightarrow> Some (Overrun, [start_event subject recipients w], w')
      | Some (Ended rc, w') \<Rightarrow> Some (Ended rc, [start_event subject recipients w, end_event rc], w'))"

text \<open>The task that \<open>smtp.test\<close> starts; its recipient is the configured sender, read through a pointer.\<close>

definition smtp_test_task :: "'w tls_ops \<Rightarrow> 'w \<Rightarrow> (send_end \<times> eff list \<times> 'w) option" where
  "smtp_test_task T w =
     ls_smtp_send T (Some (\<lambda>w. ''LebensSpur SMTP test''))
       (Some (\<lambda>w. ''This is an SMTP configuration test from the LebensSpur device.'' @ CRLF))
       [Some (\<lambda>w. smtp_sender (tls_cfg T w))] w"

section \<open>Commands\<close>

text \<open>The state, whether the test task was started, the answer and the error code.\<close>

type_synonym 'n smtp_res = "'n smtp \<times> bool \<times> cli_out list \<times> sk_err"

definition smtp_refuse :: "'n smtp \<Rightarrow> cli_out list \<Rightarrow> sk_err \<Rightarrow> 'n smtp_res" where
  "smtp_refuse s outs e = (s, False, outs, e)"

definition arg_or_first :: "cli_ctx \<Rightarrow> string \<Rightarrow> string option" where
  "arg_or_first ctx kw = or_else (sk_cli_arg_after ctx kw) (sk_cli_arg ctx 0)"

definition smtp_cli_host :: "'n nvs_ops \<Rightarrow> cli_ctx \<Rightarrow> 'n smtp \<Rightarrow> 'n smtp_res" where
  "smtp_cli_host N ctx s =
     (case arg_or_first ctx ''host'' of
        Some (c # cs) \<Rightarrow>
          (let s = nvs_save_host N (s\<lparr>scfg := (scfg s)\<lparr>smtp_host := take LS_SMTP_HOST_MAX (c # cs)\<rparr>\<rparr>)
           in (s, False, [CliOk (Some (snprintf 160 (''{'' @ jk ''host'' @ jq (smtp_host (scfg s)) @ ''}'')))], SK_OK))
      | _ \<Rightarrow> smtp_refuse s [CliUsage (Some ''smtp host <hostname>'')
          (Some ''hostname: SMTPS server FQDN (port 465)'') (Some ''smtp host smtp.gmail.com'')] SK_ERR_MISSING_ARG)"

definition port_arg :: "cli_ctx \<Rightarrow> int option" where
  "port_arg ctx =
     (case sk_cli_arg_after_long ctx ''port'' of Some v \<Rightarrow> Some v
      | None \<Rightarrow> (case sk_cli_arg ctx 0 of Some (c # cs) \<Rightarrow> Some (atol (c # cs)) | _ \<Rightarrow> None))"

definition smtp_cli_port :: "'n nvs_ops \<Rightarrow> cli_ctx \<Rightarrow> 'n smtp \<Rightarrow> 'n smtp_res" where
  "smtp_cli_port N ctx s =
     (case port_arg ctx of
        None \<Rightarrow> smtp_refuse s [CliUsage (Some ''smtp port <N>'')
          (Some ''N: 1..65535 (SMTPS default 465)'') (Some ''smtp port 465'')] SK_ERR_MISSING_ARG
      | Some v \<Rightarrow>
          (if v < 1 \<or> v > 65535 then
             smtp_refuse s [CliUsage (Some ''smtp port <N>'') (Some ''N: 1..65535'') (Some ''smtp port 465'')]
               SK_ERR_INVALID_ARG
           else
             (let s = nvs_save_port N (s\<lparr>scfg := (scfg s)\<lparr>smtp_port := word_of_int v\<rparr>\<rparr>)
              in (s, False, [CliOk (Some (snprintf 64 (''{'' @ jk ''port'' @
                    dec_nat (unat (smtp_port (scfg s))) @ ''}'')))], SK_OK))))"

definition smtp_cli_sender :: "'n nvs_ops \<Rightarrow> cli_ctx \<Rightarrow> 'n smtp \<Rightarrow> 'n smtp_res" where
  "smtp_cli_sender N ctx s =
     (case arg_or_first ctx ''sender'' of
        Some (c # cs) \<Rightarrow>
          (if CHR 0x40 \<notin> set (c # cs) then
             smtp_refuse s [CliUsage (Some ''smtp sender <email>'')
               (Some (''email: must contain '' @ [CHR 0x27, CHR 0x40, CHR 0x27]))
               (Some ''smtp sender me@gmail.com'')] SK_ERR_INVALID_ARG
           else
             (let s = nvs_save_sender N (s\<lparr>scfg := (scfg s)\<lparr>smtp_sender := take LS_SMTP_SENDER_MAX (c # cs)\<rparr>\<rparr>)
              in (s, False, [CliOk (Some (snprintf 200 (''{'' @ jk ''sender'' @
                    jq (smtp_sender (scfg s)) @ ''}'')))], SK_OK)))
      | _ \<Rightarrow> smtp_refuse s [CliUsage (Some ''smtp sender <email>'')
          (Some ''email: sender address (also SMTP AUTH user)'') (Some ''smtp sender me@gmail.com'')] SK_ERR_MISSING_ARG)"

definition chars_set :: "string \<Rightarrow> string" where
  "chars_set k = ''(set, '' @ dec_nat (length k) @ '' chars)''"

definition smtp_cli_key :: "'n nvs_ops \<Rightarrow> cli_ctx \<Rightarrow> 'n smtp \<Rightarrow> 'n smtp_res" where
  "smtp_cli_key N ctx s =
     (case arg_or_first ctx ''key'' of
        Some (c # cs) \<Rightarrow>
          (let s = nvs_save_key N (s\<lparr>scfg := (scfg s)\<lparr>api_key := take LS_SMTP_KEY_MAX (c # cs)\<rparr>\<rparr>)
           in (s, False, [CliOk (Some (snprintf 64 (''{'' @ jk ''key'' @ jq (chars_set (api_key (scfg s))) @ ''}'')))],
               SK_OK))
      | _ \<Rightarrow> smtp_refuse s [CliUsage (Some ''smtp key <api_key>'')
          (Some ''api_key: SMTP AUTH password (Gmail App Password, SendGrid token, ...)'')
          (Some ''smtp key abcdefghijklmnop'')] SK_ERR_MISSING_ARG)"

definition masked_key :: "ls_smtp_config \<Rightarrow> string" where
  "masked_key c = (if api_key c = [] then [] else snprintf 40 (chars_set (api_key c)))"

definition config_json :: "ls_smtp_config \<Rightarrow> string" where
  "config_json c = snprintf 400 (''{'' @ jk ''host'' @ jq (smtp_host c) @ '','' @
     jk ''port'' @ dec_nat (unat (smtp_port c)) @ '','' @ jk ''sender'' @ jq (smtp_sender c) @ '','' @
     jk ''api_key'' @ jq (masked_key c) @ ''}'')"

definition kvf :: "string \<Rightarrow> string \<Rightarrow> cli_out" where
  "kvf key v = CliKv key (snprintf 256 v)"

definition or_not_set :: "string \<Rightarrow> string" where
  "or_not_set s = (if s = [] then ''(not set)'' else s)"

definition smtp_cli_get :: "cli_ctx \<Rightarrow> 'n smtp \<Rightarrow> 'n smtp_res" where
  "smtp_cli_get ctx s =
     (let c = scfg s in
      (s, False,
       (if is_machine_mode ctx then [CliOk (Some (config_json c))]
        else [kvf ''Server'' (or_not_set (smtp_host c)), kvf ''Port'' (dec_nat (unat (smtp_port c))),
              kvf ''Sender'' (or_not_set (smtp_sender c)),
              (if api_key c = [] then CliKv ''API key'' ''(not set)'' else kvf ''API key'' (chars_set (api_key c)))]),
       SK_OK))"

definition smtp_cli_test :: "bool \<Rightarrow> cli_ctx \<Rightarrow> 'n smtp \<Rightarrow> 'n smtp_res" where
  "smtp_cli_test task_ok ctx s =
     (if \<not> ls_smtp_is_configured (scfg s) then smtp_refuse s [CliErr SK_ERR_SMTP_NO_CONFIG None] SK_ERR_SMTP_NO_CONFIG
      else if \<not> task_ok then
        smtp_refuse s [CliErr SK_ERR_BUSY (Some (''{'' @ jk ''reason'' @ jq ''oom'' @ ''}''))] SK_ERR_BUSY
      else (s, True,
        (if is_machine_mode ctx then [CliOk (Some (''{'' @ jk ''started'' @ ''true}''))]
         else [CliKv ''Result'' ''test mail queued'', CliOk None]), SK_OK))"

definition set_opt :: "'a option \<Rightarrow> ('a \<Rightarrow> 'c \<Rightarrow> 'c) \<Rightarrow> 'c \<Rightarrow> 'c" where
  "set_opt v f c = (case v of None \<Rightarrow> c | Some x \<Rightarrow> f x c)"

definition field_param :: "string \<Rightarrow> string" where
  "field_param f = ''{'' @ jk ''field'' @ jq f @ ''}''"

definition smtp_cli_save :: "'n nvs_ops \<Rightarrow> cli_ctx \<Rightarrow> 'n smtp \<Rightarrow> 'n smtp_res" where
  "smtp_cli_save N ctx s =
     (let h = sk_cli_arg_after ctx ''host''; e = sk_cli_arg_after ctx ''sender'';
          k = sk_cli_arg_after ctx ''key''; p = sk_cli_arg_after_long ctx ''port'' in
      if h = None \<and> e = None \<and> k = None \<and> p = None then
        smtp_refuse s [CliUsage (Some ''smtp save [host <h>] [port <N>] [sender <e>] [key <k>]'')
          (Some (''All fields written in one atomic NVS commit. Any subset is\<newline>'' @
             ''allowed; omitted fields keep their current value.''))
          (Some ''smtp save host smtp.gmail.com port 465 sender me@gmail.com key <app_pw>'')] SK_ERR_MISSING_ARG
      else if (case p of None \<Rightarrow> False | Some v \<Rightarrow> v < 1 \<or> v > 65535) then
        smtp_refuse s [CliErr SK_ERR_INVALID_ARG (Some (field_param ''port''))] SK_ERR_INVALID_ARG
      else if (case e of None \<Rightarrow> False | Some v \<Rightarrow> v \<noteq> [] \<and> CHR 0x40 \<notin> set v) then
        smtp_refuse s [CliErr SK_ERR_INVALID_EMAIL (Some (field_param ''sender''))] SK_ERR_INVALID_EMAIL
      else
        (let c = scfg s;
             c = set_opt h (\<lambda>v c. c\<lparr>smtp_host := take LS_SMTP_HOST_MAX v\<rparr>) c;
             c = set_opt p (\<lambda>v c. c\<lparr>smtp_port := word_of_int v\<rparr>) c;
             c = set_opt e (\<lambda>v c. c\<lparr>smtp_sender := take LS_SMTP_SENDER_MAX v\<rparr>) c;
             c = set_opt k (\<lambda>v c. c\<lparr>api_key := take LS_SMTP_KEY_MAX v\<rparr>) c;
             s = nvs_save_all N (s\<lparr>scfg := c\<rparr>)
         in (s, False,
             (if is_machine_mode ctx then [CliOk (Some (config_json (scfg s)))]
              else [CliKv ''Result'' ''SMTP config saved'', CliOk None]), SK_OK)))"

definition smtp_cmds :: "'n nvs_ops \<Rightarrow> bool \<Rightarrow> (string \<times> (cli_ctx \<Rightarrow> 'n smtp \<Rightarrow> 'n smtp_res)) list" where
  "smtp_cmds N task_ok =
     [(''smtp.host'', smtp_cli_host N), (''smtp.port'', smtp_cli_port N),
      (''smtp.sender'', smtp_cli_sender N), (''smtp.key'', smtp_cli_key N),
      (''smtp.get'', smtp_cli_get), (''smtp.save'', smtp_cli_save N), (''smtp.test'', smtp_cli_test task_ok)]"

section \<open>Factory reset and start-up\<close>

definition smtp_factory_reset :: "'n nvs_ops \<Rightarrow> 'n smtp \<Rightarrow> 'n smtp" where
  "smtp_factory_reset N s =
     (let s = s\<lparr>scfg := cfg_clear\<rparr>; n = sflash s in
      if nv_open_rw N n NVS_SMTP = ESP_OK
      then s\<lparr>sflash := nv_commit N (nv_erase_all N n NVS_SMTP) NVS_SMTP\<rparr> else s)"

definition ls_smtp_init :: "'n nvs_ops \<Rightarrow> 'n \<Rightarrow> 'n smtp" where
  "ls_smtp_init N n = smtp_nvs_load N \<lparr> scfg = cfg_clear, sflash = n \<rparr>"

end
