(* ===== verification/LsMailGroups.thy ===== *)
theory LsMailGroups
  imports LsSmtp
begin

text \<open>
  The mail groups, \<open>ls_mail_groups/src/ls_mail_groups.c\<close>: ten groups in RAM and in flash, the worker that
  mails every enabled group when the timer fires, and the ten commands. A group holds its recipients in
  a fixed array of 20 strings with a count. The worker sends while other tasks run: like the
  transaction of \<open>ls_smtp\<close> it reads the groups through the world at the moment it follows a pointer.
\<close>

section \<open>Data\<close>

definition LS_MAIL_GROUP_MAX :: nat where "LS_MAIL_GROUP_MAX = 10"
definition LS_MAIL_GROUP_NAME_MAX :: nat where "LS_MAIL_GROUP_NAME_MAX = 47"
definition LS_MAIL_GROUP_SUBJECT_MAX :: nat where "LS_MAIL_GROUP_SUBJECT_MAX = 127"
definition LS_MAIL_GROUP_BODY_MAX :: nat where "LS_MAIL_GROUP_BODY_MAX = 511"
definition LS_MAIL_GROUP_RCPT_MAX :: nat where "LS_MAIL_GROUP_RCPT_MAX = 20"
definition LS_MAIL_GROUP_RCPT_EMAIL_MAX :: nat where "LS_MAIL_GROUP_RCPT_EMAIL_MAX = 95"

record ls_mail_group =
  g_used :: bool
  g_enabled :: bool
  g_name :: string
  g_subject :: string
  g_body :: string
  g_rcpts :: "string list"
  g_count :: u8

text \<open>\<open>memset(g, 0, sizeof *g)\<close>\<close>

definition group_zero :: ls_mail_group where
  "group_zero = \<lparr> g_used = False, g_enabled = False, g_name = [], g_subject = [], g_body = [],
     g_rcpts = replicate LS_MAIL_GROUP_RCPT_MAX [], g_count = 0 \<rparr>"

record 'n groups =
  slots :: "ls_mail_group list"
  gflash :: 'n
  fire_q :: "nat option"

definition groups_zero :: "ls_mail_group list" where
  "groups_zero = replicate LS_MAIL_GROUP_MAX group_zero"

section \<open>Flash\<close>

definition NVS_MG :: string where "NVS_MG = ''ls_mg''"

definition group_key :: "nat \<Rightarrow> string \<Rightarrow> string" where
  "group_key i suffix = snprintf 16 (''g'' @ dec_nat i @ ''_'' @ suffix)"

definition rcpt_key :: "nat \<Rightarrow> nat \<Rightarrow> string" where
  "rcpt_key i r = snprintf 20 (''g'' @ dec_nat i @ ''_r'' @ dec_nat r)"

definition load_rcpts :: "'n nvs_ops \<Rightarrow> 'n \<Rightarrow> nat \<Rightarrow> nat \<Rightarrow> string list \<Rightarrow> string list" where
  "load_rcpts N n i k rs =
     foldl (\<lambda>rs r. rs[r := load_str N n NVS_MG (rcpt_key i r) LS_MAIL_GROUP_RCPT_EMAIL_MAX (rs ! r)]) rs [0..<k]"

definition load_group :: "'n nvs_ops \<Rightarrow> 'n \<Rightarrow> nat \<Rightarrow> ls_mail_group \<Rightarrow> ls_mail_group" where
  "load_group N n i g =
     (if (case get_u8 N n NVS_MG (group_key i ''used'') of None \<Rightarrow> True | Some u \<Rightarrow> u = 0)
      then g\<lparr>g_used := False\<rparr>
      else
        (let g = g\<lparr>g_used := True\<rparr>;
             g = g\<lparr>g_enabled := (case get_u8 N n NVS_MG (group_key i ''en'') of None \<Rightarrow> True | Some u \<Rightarrow> u \<noteq> 0)\<rparr>;
             g = g\<lparr>g_name := load_str N n NVS_MG (group_key i ''nm'') LS_MAIL_GROUP_NAME_MAX (g_name g)\<rparr>;
             g = g\<lparr>g_subject := load_str N n NVS_MG (group_key i ''sb'') LS_MAIL_GROUP_SUBJECT_MAX (g_subject g)\<rparr>;
             g = g\<lparr>g_body := load_str N n NVS_MG (group_key i ''bd'') LS_MAIL_GROUP_BODY_MAX (g_body g)\<rparr>;
             g = g\<lparr>g_count := load_val (get_u8 N n NVS_MG (group_key i ''rc'')) (\<lambda>v. True) (\<lambda>v. v) (g_count g)\<rparr>
         in g\<lparr>g_rcpts := load_rcpts N n i (min (unat (g_count g)) LS_MAIL_GROUP_RCPT_MAX) (g_rcpts g)\<rparr>))"

definition load_all :: "'n nvs_ops \<Rightarrow> 'n \<Rightarrow> ls_mail_group list" where
  "load_all N n =
     (if nv_open_ro N n NVS_MG \<noteq> ESP_OK then groups_zero
      else map (\<lambda>i. load_group N n i (groups_zero ! i)) [0..<LS_MAIL_GROUP_MAX])"

definition save_rcpts :: "'n nvs_ops \<Rightarrow> nat \<Rightarrow> string list \<Rightarrow> nat \<Rightarrow> 'n \<Rightarrow> 'n" where
  "save_rcpts N i rs k n = foldl (\<lambda>n r. nv_put N NVS_MG (rcpt_key i r) (NvStr (rs ! r)) n) n [0..<k]"

definition write_group :: "'n nvs_ops \<Rightarrow> nat \<Rightarrow> ls_mail_group \<Rightarrow> 'n \<Rightarrow> 'n" where
  "write_group N i g n =
     (let n = nv_put N NVS_MG (group_key i ''used'') (nv_bool (g_used g)) n in
      if \<not> g_used g then n
      else
        (let n = nv_put N NVS_MG (group_key i ''en'') (nv_bool (g_enabled g)) n;
             n = nv_put N NVS_MG (group_key i ''nm'') (NvStr (g_name g)) n;
             n = nv_put N NVS_MG (group_key i ''sb'') (NvStr (g_subject g)) n;
             n = nv_put N NVS_MG (group_key i ''bd'') (NvStr (g_body g)) n;
             n = nv_put N NVS_MG (group_key i ''rc'') (NvU8 (g_count g)) n
         in save_rcpts N i (g_rcpts g) (unat (g_count g)) n))"

definition save_group :: "'n nvs_ops \<Rightarrow> nat \<Rightarrow> 'n groups \<Rightarrow> 'n groups" where
  "save_group N i s =
     (if nv_open_rw N (gflash s) NVS_MG \<noteq> ESP_OK then s
      else s\<lparr>gflash := nv_commit N (write_group N i (slots s ! i) (gflash s)) NVS_MG\<rparr>)"

text \<open>The pattern of every change: the slot in RAM, then the slot in flash.\<close>

definition put_group :: "'n nvs_ops \<Rightarrow> nat \<Rightarrow> ls_mail_group \<Rightarrow> 'n groups \<Rightarrow> 'n groups" where
  "put_group N i g s = save_group N i (s\<lparr>slots := (slots s)[i := g]\<rparr>)"

section \<open>Public operations\<close>

definition ls_mail_groups_get :: "int \<Rightarrow> 'n groups \<Rightarrow> ls_mail_group" where
  "ls_mail_groups_get i s =
     (if i < 0 \<or> i \<ge> int LS_MAIL_GROUP_MAX then group_zero else slots s ! nat i)"

text \<open>The first free slot.\<close>

definition free_slot :: "ls_mail_group list \<Rightarrow> nat option" where
  "free_slot gs = find (\<lambda>i. \<not> g_used (gs ! i)) [0..<LS_MAIL_GROUP_MAX]"

definition new_group :: "nat \<Rightarrow> string option \<Rightarrow> ls_mail_group" where
  "new_group i name = group_zero\<lparr>g_used := True, g_enabled := True,
     g_name := (case name of Some s \<Rightarrow> take LS_MAIL_GROUP_NAME_MAX s
       | None \<Rightarrow> snprintf (LS_MAIL_GROUP_NAME_MAX + 1) (''group '' @ dec_nat i))\<rparr>"

definition ls_mail_groups_add :: "'n nvs_ops \<Rightarrow> string option \<Rightarrow> 'n groups \<Rightarrow> nat option \<times> 'n groups" where
  "ls_mail_groups_add N name s =
     (case free_slot (slots s) of None \<Rightarrow> (None, s)
      | Some i \<Rightarrow> (Some i, put_group N i (new_group i name) s))"

definition ls_mail_groups_delete :: "'n nvs_ops \<Rightarrow> nat \<Rightarrow> 'n groups \<Rightarrow> esp_err \<times> 'n groups" where
  "ls_mail_groups_delete N i s =
     (if i \<ge> LS_MAIL_GROUP_MAX then (ESP_ERR_INVALID_ARG, s)
      else if \<not> g_used (slots s ! i) then (ESP_ERR_NOT_FOUND, s)
      else (ESP_OK, put_group N i group_zero s))"

section \<open>The worker\<close>

definition FIRE_QUEUE_LEN :: nat where "FIRE_QUEUE_LEN = 2"

text \<open>\<open>on_timer_triggered\<close>: a message for the worker, dropped when the queue is full.\<close>

definition groups_on_triggered :: "'n groups \<Rightarrow> 'n groups" where
  "groups_on_triggered s =
     (case fire_q s of None \<Rightarrow> s
      | Some k \<Rightarrow> s\<lparr>fire_q := Some (if k < FIRE_QUEUE_LEN then k + 1 else k)\<rparr>)"

definition group_ptr :: "('w \<Rightarrow> ls_mail_group list) \<Rightarrow> nat \<Rightarrow> (ls_mail_group \<Rightarrow> string) \<Rightarrow> 'w ptr" where
  "group_ptr G i f = Some (\<lambda>w. f (G w ! i))"

definition mailed :: "ls_mail_group \<Rightarrow> bool" where
  "mailed g = (g_used g \<and> g_enabled g \<and> g_count g \<noteq> 0)"

text \<open>
  The loop over the groups: how many were mailed and for how many the send answered OK. \<open>None\<close> is a
  send that never returns, the inner \<open>None\<close> one that overran its header array.
\<close>

fun fire_loop :: "'w tls_ops \<Rightarrow> ('w \<Rightarrow> ls_mail_group list) \<Rightarrow> nat list \<Rightarrow> nat \<Rightarrow> nat \<Rightarrow> 'w \<Rightarrow>
    ((nat \<times> nat) option \<times> eff list \<times> 'w) option" where
  "fire_loop T G [] fired ok w = Some (Some (fired, ok), [], w)"
| "fire_loop T G (i # is) fired ok w =
     (if \<not> mailed (G w ! i) then fire_loop T G is fired ok w
      else
        (case ls_smtp_send T (group_ptr G i g_subject) (group_ptr G i g_body)
             (map (\<lambda>r. group_ptr G i (\<lambda>g. g_rcpts g ! r)) [0..<unat (g_count (G w ! i))]) w of
           None \<Rightarrow> None
         | Some (Overrun, es, w) \<Rightarrow> Some (None, es, w)
         | Some (Ended rc, es, w) \<Rightarrow>
             (case fire_loop T G is (fired + 1) (if rc = SK_OK then ok + 1 else ok) w of
                None \<Rightarrow> None
              | Some (r, es', w) \<Rightarrow> Some (r, es @ es', w))))"

definition fire_report :: "nat \<Rightarrow> nat \<Rightarrow> eff" where
  "fire_report fired ok = publishf ''mail_groups.fire''
     (''{'' @ jk ''fired'' @ dec_nat fired @ '','' @ jk ''ok'' @ dec_nat ok @ ''}'')"

definition not_configured_report :: eff where
  "not_configured_report = Publish ''mail_groups.fire''
     (Some (''{'' @ jk ''ok'' @ ''false,'' @ jk ''err'' @ jq ''smtp_not_configured'' @ ''}''))"

text \<open>What the worker does with one message; the flag is false after an overrun.\<close>

definition groups_worker :: "'w tls_ops \<Rightarrow> ('w \<Rightarrow> ls_mail_group list) \<Rightarrow> 'w \<Rightarrow> (bool \<times> eff list \<times> 'w) option" where
  "groups_worker T G w =
     (if \<not> ls_smtp_is_configured (tls_cfg T w) then Some (True, [not_configured_report], w)
      else
        (case fire_loop T G [0..<LS_MAIL_GROUP_MAX] 0 0 w of
           None \<Rightarrow> None
         | Some (None, es, w) \<Rightarrow> Some (False, es, w)
         | Some (Some (fired, ok), es, w) \<Rightarrow> Some (True, es @ [fire_report fired ok], w)))"

section \<open>Commands\<close>

text \<open>\<open>None\<close>: the handler ran over the end of its array.\<close>

type_synonym 'n groups_res = "('n groups \<times> cli_out list \<times> sk_err) option"

definition groups_refuse :: "'n groups \<Rightarrow> cli_out list \<Rightarrow> sk_err \<Rightarrow> 'n groups_res" where
  "groups_refuse s outs e = Some (s, outs, e)"

definition parse_id_pos :: "cli_ctx \<Rightarrow> nat \<Rightarrow> nat option" where
  "parse_id_pos ctx idx =
     (case or_else (sk_cli_arg ctx idx) (sk_cli_arg_after ctx ''id'') of
        None \<Rightarrow> None
      | Some s \<Rightarrow>
          (case strtol10 s of None \<Rightarrow> None
           | Some v \<Rightarrow> (if v < 0 \<or> v \<ge> int LS_MAIL_GROUP_MAX then None else Some (nat v))))"

definition usage_id_only :: "string \<Rightarrow> string \<Rightarrow> cli_out" where
  "usage_id_only u e = usage3 u ''id: 0..9 (group number)'' e"

text \<open>The two checks with which a command on a group begins.\<close>

definition with_group :: "cli_ctx \<Rightarrow> cli_out \<Rightarrow> (nat \<Rightarrow> 'n groups_res) \<Rightarrow> 'n groups \<Rightarrow> 'n groups_res" where
  "with_group ctx usage k s =
     (case parse_id_pos ctx 0 of
        None \<Rightarrow> groups_refuse s [usage] SK_ERR_MISSING_ARG
      | Some i \<Rightarrow>
          (if \<not> g_used (slots s ! i) then groups_refuse s [CliErr SK_ERR_NOT_FOUND None] SK_ERR_NOT_FOUND
           else k i))"

definition groups_ok :: "cli_ctx \<Rightarrow> 'n groups \<Rightarrow> string \<Rightarrow> cli_out list \<Rightarrow> 'n groups_res" where
  "groups_ok ctx s machine human =
     Some (s, if is_machine_mode ctx then [CliOk (Some machine)] else human @ [CliOk None], SK_OK)"

definition esc_name :: "string \<Rightarrow> string" where
  "esc_name s = json_esc (LS_MAIL_GROUP_NAME_MAX * 2 + 2) s"

definition group_cli_add :: "'n nvs_ops \<Rightarrow> cli_ctx \<Rightarrow> 'n groups \<Rightarrow> 'n groups_res" where
  "group_cli_add N ctx s =
     (case ls_mail_groups_add N (or_else (sk_cli_arg ctx 0) (sk_cli_arg_after ctx ''name'')) s of
        (None, s) \<Rightarrow> groups_refuse s [CliErr SK_ERR_BUSY (reason ''groups full (10/10)'')] SK_ERR_BUSY
      | (Some i, s) \<Rightarrow>
          (let name = g_name (slots s ! i) in
           groups_ok ctx s
             (snprintf 160 (''{'' @ jk ''id'' @ dec_nat i @ '','' @ jk ''name'' @ jq (esc_name name) @ ''}''))
             [CliKv ''Result'' ''Group created'', kvf ''id'' (dec_nat i), kvf ''name'' name]))"

definition group_cli_delete :: "'n nvs_ops \<Rightarrow> cli_ctx \<Rightarrow> 'n groups \<Rightarrow> 'n groups_res" where
  "group_cli_delete N ctx s =
     with_group ctx (usage_id_only ''mail group delete <id>'' ''mail group delete 0'')
       (\<lambda>i. case ls_mail_groups_delete N i s of (rc, s) \<Rightarrow>
          (if rc \<noteq> ESP_OK then groups_refuse s [CliErr SK_ERR_NOT_FOUND None] SK_ERR_NOT_FOUND
           else groups_ok ctx s (snprintf 32 (''{'' @ jk ''id'' @ dec_nat i @ ''}''))
             [kvf ''Result'' (''Group '' @ dec_nat i @ '' deleted'')])) s"

definition group_cli_enable :: "'n nvs_ops \<Rightarrow> cli_ctx \<Rightarrow> 'n groups \<Rightarrow> 'n groups_res" where
  "group_cli_enable N ctx s =
     (case (parse_id_pos ctx 0, or_else (sk_cli_arg ctx 1) (sk_cli_arg_after ctx ''enabled'')) of
        (Some i, Some flag) \<Rightarrow>
          (if \<not> g_used (slots s ! i) then groups_refuse s [CliErr SK_ERR_NOT_FOUND None] SK_ERR_NOT_FOUND
           else
             (case parse_bool_flag flag of
                None \<Rightarrow> groups_refuse s [usage3 ''mail group enable <id> <on|off>''
                  ''state: on | off | yes | no | true | false | 1 | 0'' ''mail group enable 0 on''] SK_ERR_INVALID_ARG
              | Some on \<Rightarrow>
                  groups_ok ctx (put_group N i ((slots s ! i)\<lparr>g_enabled := on\<rparr>) s)
                    (snprintf 64 (''{'' @ jk ''id'' @ dec_nat i @ '','' @ jk ''enabled'' @ jbool on @ ''}''))
                    [kvf ''Group'' (dec_nat i), kvf ''Active'' (if on then ''yes'' else ''no'')]))
      | _ \<Rightarrow> groups_refuse s [usage3 ''mail group enable <id> <on|off>''
          (''id:    0..9\<newline>'' @ ''state: on | off | yes | no | true | false | 1 | 0'')
          (''mail group enable 0 on\<newline>'' @ ''mail group enable 0 off'')] SK_ERR_MISSING_ARG)"

definition group_cli_name :: "'n nvs_ops \<Rightarrow> cli_ctx \<Rightarrow> 'n groups \<Rightarrow> 'n groups_res" where
  "group_cli_name N ctx s =
     with_group ctx (usage3 ''mail group name <id> <new name>''
         (''id:   0..9\<newline>'' @ ''name: single or multi-word label'') ''mail group name 0 Family'')
       (\<lambda>i. case text_arg ctx ''name'' 1 LS_MAIL_GROUP_NAME_MAX of
          None \<Rightarrow> groups_refuse s [usage3 ''mail group name <id> <new name>''
            ''name: at least 1 character'' ''mail group name 0 Family''] SK_ERR_MISSING_ARG
        | Some v \<Rightarrow>
            groups_ok ctx (put_group N i ((slots s ! i)\<lparr>g_name := v\<rparr>) s)
              (snprintf 160 (''{'' @ jk ''id'' @ dec_nat i @ '','' @ jk ''name'' @ jq (esc_name v) @ ''}''))
              [kvf ''Group'' (dec_nat i), kvf ''name'' v]) s"

definition group_cli_subject :: "'n nvs_ops \<Rightarrow> cli_ctx \<Rightarrow> 'n groups \<Rightarrow> 'n groups_res" where
  "group_cli_subject N ctx s =
     with_group ctx (usage3 ''mail group subject <id> <subject>''
         (''id:      0..9\<newline>'' @ ''subject: multi-word allowed'') ''mail group subject 0 LebensSpur triggered'')
       (\<lambda>i. case text_arg ctx ''subject'' 1 LS_MAIL_GROUP_SUBJECT_MAX of
          None \<Rightarrow> groups_refuse s [usage3 ''mail group subject <id> <subject>''
            ''subject: at least 1 character'' ''mail group subject 0 LebensSpur triggered''] SK_ERR_MISSING_ARG
        | Some v \<Rightarrow>
            groups_ok ctx (put_group N i ((slots s ! i)\<lparr>g_subject := v\<rparr>) s)
              (snprintf 320 (''{'' @ jk ''id'' @ dec_nat i @ '','' @ jk ''subject'' @
                 jq (json_esc (LS_MAIL_GROUP_SUBJECT_MAX * 2 + 2) v) @ ''}''))
              [kvf ''Group'' (dec_nat i), kvf ''Subject'' v]) s"

definition group_cli_body :: "'n nvs_ops \<Rightarrow> cli_ctx \<Rightarrow> 'n groups \<Rightarrow> 'n groups_res" where
  "group_cli_body N ctx s =
     with_group ctx (usage3 ''mail group body <id> <text>''
         (''id:   0..9\<newline>'' @ ''text: plain text, multi-word allowed'')
         ''mail group body 0 Please check your message'')
       (\<lambda>i. case text_arg ctx ''body'' 1 LS_MAIL_GROUP_BODY_MAX of
          None \<Rightarrow> groups_refuse s [usage3 ''mail group body <id> <text>''
            ''text: at least 1 character'' ''mail group body 0 Please check''] SK_ERR_MISSING_ARG
        | Some v \<Rightarrow>
            groups_ok ctx (put_group N i ((slots s ! i)\<lparr>g_body := v\<rparr>) s)
              (snprintf 64 (''{'' @ jk ''id'' @ dec_nat i @ '','' @ jk ''body_len'' @ dec_nat (length v) @ ''}''))
              [kvf ''Group'' (dec_nat i), kvf ''Body'' v]) s"

definition list_pieces :: "ls_mail_group list \<Rightarrow> string list" where
  "list_pieces gs =
     (let used = filter (\<lambda>i. g_used (gs ! i)) [0..<LS_MAIL_GROUP_MAX]
      in [''{'' @ jk ''groups'' @ ''['' ] @
         map (\<lambda>(k, i). (if k = 0 then [] else '','') @ ''{'' @ jk ''id'' @ dec_nat i @ '','' @
           jk ''name'' @ jq (esc_name (g_name (gs ! i))) @ '','' @ jk ''enabled'' @ jbool (g_enabled (gs ! i)) @ '','' @
           jk ''recipients'' @ dec_nat (unat (g_count (gs ! i))) @ ''}'') (enumerate 0 used) @ ['']}''])"

definition group_cli_list :: "cli_ctx \<Rightarrow> 'n groups \<Rightarrow> 'n groups_res" where
  "group_cli_list ctx s =
     (let gs = slots s in
      if is_machine_mode ctx then
        (case print_pieces 1024 ([], 0) (list_pieces gs) of None \<Rightarrow> None
         | Some (out, off) \<Rightarrow> Some (s, [CliOk (Some out)], SK_OK))
      else
        (let used = filter (\<lambda>i. g_used (gs ! i)) [0..<LS_MAIL_GROUP_MAX]
         in Some (s,
              map (\<lambda>i. CliText (writef (''  '' @ dec_nat i @ ''. '' @ g_name (gs ! i) @ '' ('' @
                dec_nat (unat (g_count (gs ! i))) @ '' recipients, '' @
                (if g_enabled (gs ! i) then ''active'' else ''inactive'') @ '')\<newline>''))) used @
              (if used = [] then [CliKv ''Result'' ''no groups configured''] else []) @ [CliOk None], SK_OK)))"

definition listed :: "ls_mail_group \<Rightarrow> string list" where
  "listed g = map (\<lambda>r. g_rcpts g ! r) [0..<unat (g_count g)]"

definition get_head :: "nat \<Rightarrow> ls_mail_group \<Rightarrow> string" where
  "get_head i g = ''{'' @ jk ''id'' @ dec_nat i @ '','' @ jk ''name'' @ jq (esc_name (g_name g)) @ '','' @
     jk ''enabled'' @ jbool (g_enabled g) @ '','' @
     jk ''subject'' @ jq (json_esc (LS_MAIL_GROUP_SUBJECT_MAX * 2 + 2) (g_subject g)) @ '','' @
     jk ''body'' @ jq (json_esc (LS_MAIL_GROUP_BODY_MAX * 2 + 2) (g_body g)) @ '','' @ jk ''recipients'' @ ''[''"

definition get_json :: "nat \<Rightarrow> ls_mail_group \<Rightarrow> string option" where
  "get_json i g =
     (case print_piece 8192 ([], 0) (get_head i g) of None \<Rightarrow> None
      | Some st \<Rightarrow>
          (case get_rcpts 8192 st True (listed g) of None \<Rightarrow> None
           | Some st \<Rightarrow> map_option fst (print_piece 8192 st '']}'')))"

text \<open>\<open>alloc_ok\<close>: the result of \<open>malloc\<close>.\<close>

definition group_cli_get :: "bool \<Rightarrow> cli_ctx \<Rightarrow> 'n groups \<Rightarrow> 'n groups_res" where
  "group_cli_get alloc_ok ctx s =
     with_group ctx (usage_id_only ''mail group get <id>'' ''mail group get 0'')
       (\<lambda>i. let g = slots s ! i in
          if is_machine_mode ctx then
            (if \<not> alloc_ok then groups_refuse s [CliErr SK_ERR_BUSY (reason ''oom'')] SK_ERR_BUSY
             else map_option (\<lambda>j. (s, [CliOk (Some j)], SK_OK)) (get_json i g))
          else Some (s,
            [CliText (writef (''  Group '' @ dec_nat i @ '': '' @ g_name g @ ''\<newline>'')),
             kvf ''Active'' (if g_enabled g then ''yes'' else ''no''),
             kvf ''Subject'' (or_empty (g_subject g)), kvf ''Body'' (or_empty (g_body g)),
             kvf ''Recipients'' (''('' @ dec_nat (unat (g_count g)) @ '')'')] @
            map (\<lambda>(r, a). CliText (writef (''    '' @ dec_nat (r + 1) @ '') '' @ a @ ''\<newline>'')))
              (enumerate 0 (listed g)) @ [CliOk None], SK_OK)) s"

text \<open>The id and the address that the two recipient commands take.\<close>

definition rcpt_args :: "cli_ctx \<Rightarrow> (nat \<times> string) option" where
  "rcpt_args ctx =
     (case (parse_id_pos ctx 0, or_else (sk_cli_arg ctx 1) (sk_cli_arg_after ctx ''email'')) of
        (Some i, Some (c # cs)) \<Rightarrow> Some (i, c # cs) | _ \<Rightarrow> None)"

definition add_rcpt :: "string \<Rightarrow> ls_mail_group \<Rightarrow> ls_mail_group" where
  "add_rcpt email g = g\<lparr>g_rcpts := (g_rcpts g)[unat (g_count g) := take LS_MAIL_GROUP_RCPT_EMAIL_MAX email],
     g_count := g_count g + 1\<rparr>"

definition rcpt_json :: "nat \<Rightarrow> string \<Rightarrow> u8 \<Rightarrow> string" where
  "rcpt_json i email k = snprintf 256 (''{'' @ jk ''id'' @ dec_nat i @ '','' @ jk ''email'' @ jq (esc_email email) @ '','' @
     jk ''count'' @ dec_nat (unat k) @ ''}'')"

definition group_cli_rcpt_add :: "'n nvs_ops \<Rightarrow> cli_ctx \<Rightarrow> 'n groups \<Rightarrow> 'n groups_res" where
  "group_cli_rcpt_add N ctx s =
     (case rcpt_args ctx of
        None \<Rightarrow> groups_refuse s [usage3 ''mail group recipient add <id> <email>''
          (''id:    0..9\<newline>'' @ ''email: full email address; must contain '' @ [CHR 0x27, CHR 0x40, CHR 0x27])
          ''mail group recipient add 0 alice@example.com''] SK_ERR_MISSING_ARG
      | Some (i, email) \<Rightarrow>
          (let g = slots s ! i in
           if \<not> g_used g then groups_refuse s [CliErr SK_ERR_NOT_FOUND None] SK_ERR_NOT_FOUND
           else if CHR 0x40 \<notin> set email then
             groups_refuse s [usage3 ''mail group recipient add <id> <email>''
               (''email: must contain '' @ [CHR 0x27, CHR 0x40, CHR 0x27])
               ''mail group recipient add 0 alice@example.com''] SK_ERR_INVALID_ARG
           else if unat (g_count g) \<ge> LS_MAIL_GROUP_RCPT_MAX then
             groups_refuse s [CliErr SK_ERR_BUSY (reason ''recipients full'')] SK_ERR_BUSY
           else if find_address email (listed g) \<noteq> None then
             groups_refuse s [CliErr SK_ERR_INVALID_ARG (reason ''duplicate'')] SK_ERR_INVALID_ARG
           else
             (let g = add_rcpt email g; stored = take LS_MAIL_GROUP_RCPT_EMAIL_MAX email
              in groups_ok ctx (put_group N i g s) (rcpt_json i stored (g_count g))
                   [kvf ''Result'' (''Recipient added: '' @ stored)])))"

definition remove_rcpt :: "nat \<Rightarrow> ls_mail_group \<Rightarrow> ls_mail_group" where
  "remove_rcpt found g =
     g\<lparr>g_rcpts := remove_slot found (unat (g_count g) - 1) (g_rcpts g), g_count := g_count g - 1\<rparr>"

definition group_cli_rcpt_remove :: "'n nvs_ops \<Rightarrow> cli_ctx \<Rightarrow> 'n groups \<Rightarrow> 'n groups_res" where
  "group_cli_rcpt_remove N ctx s =
     (case rcpt_args ctx of
        None \<Rightarrow> groups_refuse s [usage3 ''mail group recipient remove <id> <email>''
          (''id:    0..9\<newline>'' @ ''email: email address to remove'')
          ''mail group recipient remove 0 alice@example.com''] SK_ERR_MISSING_ARG
      | Some (i, email) \<Rightarrow>
          (let g = slots s ! i in
           if \<not> g_used g then groups_refuse s [CliErr SK_ERR_NOT_FOUND None] SK_ERR_NOT_FOUND
           else
             (case find_address email (listed g) of
                None \<Rightarrow> groups_refuse s [CliErr SK_ERR_NOT_FOUND None] SK_ERR_NOT_FOUND
              | Some found \<Rightarrow>
                  (let removed = g_rcpts g ! found; g = remove_rcpt found g
                   in groups_ok ctx (put_group N i g s) (rcpt_json i removed (g_count g))
                        [kvf ''Result'' (''Recipient removed: '' @ removed)]))))"

definition group_cmds :: "'n nvs_ops \<Rightarrow> bool \<Rightarrow> (string \<times> (cli_ctx \<Rightarrow> 'n groups \<Rightarrow> 'n groups_res)) list" where
  "group_cmds N alloc_ok =
     [(''mail.group.add'', group_cli_add N), (''mail.group.delete'', group_cli_delete N),
      (''mail.group.enable'', group_cli_enable N), (''mail.group.name'', group_cli_name N),
      (''mail.group.subject'', group_cli_subject N), (''mail.group.body'', group_cli_body N),
      (''mail.group.list'', group_cli_list), (''mail.group.get'', group_cli_get alloc_ok),
      (''mail.group.recipient.add'', group_cli_rcpt_add N),
      (''mail.group.recipient.remove'', group_cli_rcpt_remove N)]"

section \<open>Factory reset and start-up\<close>

definition groups_factory_reset :: "'n nvs_ops \<Rightarrow> 'n groups \<Rightarrow> 'n groups" where
  "groups_factory_reset N s =
     (let s = s\<lparr>slots := groups_zero\<rparr>; n = gflash s in
      if nv_open_rw N n NVS_MG = ESP_OK
      then s\<lparr>gflash := nv_commit N (nv_erase_all N n NVS_MG) NVS_MG\<rparr> else s)"

text \<open>Whether the queue and the task could be made decides the result and whether triggers are heard.\<close>

definition ls_mail_groups_init :: "'n nvs_ops \<Rightarrow> bool \<Rightarrow> bool \<Rightarrow> 'n \<Rightarrow> esp_err \<times> 'n groups" where
  "ls_mail_groups_init N queue_ok task_ok n =
     (let s = \<lparr> slots = load_all N n, gflash = n, fire_q = None \<rparr> in
      if \<not> queue_ok then (ESP_ERR_NO_MEM, s)
      else (if task_ok then ESP_OK else ESP_ERR_NO_MEM, s\<lparr>fire_q := Some 0\<rparr>))"

end
