(* ===== verification/LsReminder.thy ===== *)
theory LsReminder
  imports LsSmtp
begin

text \<open>
  The early-warning reminder, \<open>ls_reminder/src/ls_reminder.c\<close>: one mail with up to ten recipients, in RAM and
  in flash, which a worker task sends on every \<open>timer.alarm\<close>, and the seven commands. Unlike the mail groups
  the worker takes a copy of the configuration before it sends.
\<close>

section \<open>Data\<close>

definition LS_REMINDER_SUBJECT_MAX :: nat where "LS_REMINDER_SUBJECT_MAX = 127"
definition LS_REMINDER_BODY_MAX :: nat where "LS_REMINDER_BODY_MAX = 511"
definition LS_REMINDER_RCPT_MAX :: nat where "LS_REMINDER_RCPT_MAX = 10"
definition LS_REMINDER_RCPT_EMAIL_MAX :: nat where "LS_REMINDER_RCPT_EMAIL_MAX = 95"

definition REMINDER_DEFAULT_SUBJECT :: string where "REMINDER_DEFAULT_SUBJECT = ''LebensSpur reminder''"

definition REMINDER_DEFAULT_BODY :: string where
  "REMINDER_DEFAULT_BODY = ''Your LebensSpur countdown is approaching its deadline. '' @
     ''Reset it to prevent the trigger actions.''"

record reminder_cfg =
  rm_enabled :: bool
  rm_subject :: string
  rm_body :: string
  rm_rcpts :: "string list"
  rm_count :: u8

definition reminder_zero :: reminder_cfg where
  "reminder_zero = \<lparr> rm_enabled = False, rm_subject = [], rm_body = [],
     rm_rcpts = replicate LS_REMINDER_RCPT_MAX [], rm_count = 0 \<rparr>"

text \<open>A message of the queue: the number of the alarm and how many there are.\<close>

type_synonym fire_msg = "int \<times> int"

record 'n reminder =
  rm_cfg :: reminder_cfg
  rm_flash :: 'n
  rm_q :: "fire_msg list option"

section \<open>Reading a number from an event\<close>

definition json_get_int :: "string \<Rightarrow> string \<Rightarrow> int option" where
  "json_get_int json key =
     (case after_str (snprintf 24 (jq key)) json of None \<Rightarrow> None
      | Some p \<Rightarrow> strtol10 (dropWhile (\<lambda>c. c = CHR '' '' \<or> c = CHR '':'' \<or> c = CHR 0x09) p))"

section \<open>Flash\<close>

definition NVS_REM :: string where "NVS_REM = ''ls_rem''"

definition rem_key :: "nat \<Rightarrow> string" where
  "rem_key r = snprintf 8 (''r'' @ dec_nat r)"

definition rem_load_rcpts :: "'n nvs_ops \<Rightarrow> 'n \<Rightarrow> nat \<Rightarrow> string list \<Rightarrow> string list" where
  "rem_load_rcpts N n k rs =
     foldl (\<lambda>rs r. rs[r := load_str N n NVS_REM (rem_key r) LS_REMINDER_RCPT_EMAIL_MAX (rs ! r)]) rs [0..<k]"

definition clamp_count :: "u8 \<Rightarrow> u8" where
  "clamp_count v = (if unat v \<le> LS_REMINDER_RCPT_MAX then v else of_nat LS_REMINDER_RCPT_MAX)"

definition load_cfg :: "'n nvs_ops \<Rightarrow> 'n \<Rightarrow> reminder_cfg" where
  "load_cfg N n =
     (let c = reminder_zero in
      if nv_open_ro N n NVS_REM \<noteq> ESP_OK then c
      else
        (let c = c\<lparr>rm_enabled := (case get_u8 N n NVS_REM ''en'' of None \<Rightarrow> False | Some u \<Rightarrow> u \<noteq> 0)\<rparr>;
             c = c\<lparr>rm_subject := load_str N n NVS_REM ''sb'' LS_REMINDER_SUBJECT_MAX (rm_subject c)\<rparr>;
             c = c\<lparr>rm_body := load_str N n NVS_REM ''bd'' LS_REMINDER_BODY_MAX (rm_body c)\<rparr>;
             c = c\<lparr>rm_count := load_val (get_u8 N n NVS_REM ''rc'') (\<lambda>v. True) clamp_count (rm_count c)\<rparr>
         in c\<lparr>rm_rcpts := rem_load_rcpts N n (unat (rm_count c)) (rm_rcpts c)\<rparr>))"

definition rem_save_rcpts :: "'n nvs_ops \<Rightarrow> string list \<Rightarrow> nat \<Rightarrow> 'n \<Rightarrow> 'n" where
  "rem_save_rcpts N rs k n = foldl (\<lambda>n r. nv_put N NVS_REM (rem_key r) (NvStr (rs ! r)) n) n [0..<k]"

definition save_cfg :: "'n nvs_ops \<Rightarrow> 'n reminder \<Rightarrow> 'n reminder" where
  "save_cfg N s =
     (if nv_open_rw N (rm_flash s) NVS_REM \<noteq> ESP_OK then s
      else
        (let c = rm_cfg s; n = rm_flash s;
             n = nv_put N NVS_REM ''en'' (nv_bool (rm_enabled c)) n;
             n = nv_put N NVS_REM ''sb'' (NvStr (rm_subject c)) n;
             n = nv_put N NVS_REM ''bd'' (NvStr (rm_body c)) n;
             n = nv_put N NVS_REM ''rc'' (NvU8 (rm_count c)) n;
             n = rem_save_rcpts N (rm_rcpts c) (unat (rm_count c)) n
         in s\<lparr>rm_flash := nv_commit N n NVS_REM\<rparr>))"

definition put_cfg :: "'n nvs_ops \<Rightarrow> reminder_cfg \<Rightarrow> 'n reminder \<Rightarrow> 'n reminder" where
  "put_cfg N c s = save_cfg N (s\<lparr>rm_cfg := c\<rparr>)"

section \<open>Sending\<close>

definition rem_listed :: "reminder_cfg \<Rightarrow> string list" where
  "rem_listed c = map (\<lambda>r. rm_rcpts c ! r) [0..<unat (rm_count c)]"

text \<open>A pointer into the copy of the configuration: nobody else changes what is there.\<close>

definition own :: "string \<Rightarrow> 'w ptr" where
  "own s = Some (\<lambda>w. s)"

definition or_default :: "string \<Rightarrow> string \<Rightarrow> string" where
  "or_default s d = (if s \<noteq> [] then s else d)"

definition reminder_send_cfg :: "'w tls_ops \<Rightarrow> reminder_cfg \<Rightarrow> 'w \<Rightarrow> (send_end \<times> eff list \<times> 'w) option" where
  "reminder_send_cfg T c w =
     (if rm_count c = 0 then Some (Ended SK_ERR_NOT_FOUND, [], w)
      else if \<not> ls_smtp_is_configured (tls_cfg T w) then Some (Ended SK_ERR_SMTP_NO_CONFIG, [], w)
      else ls_smtp_send T (own (or_default (rm_subject c) REMINDER_DEFAULT_SUBJECT))
        (own (or_default (rm_body c) REMINDER_DEFAULT_BODY)) (map own (rem_listed c)) w)"

section \<open>The worker\<close>

definition REM_QUEUE_LEN :: nat where "REM_QUEUE_LEN = 2"

text \<open>\<open>on_timer_alarm\<close>, with the payload of the event, if it has one.\<close>

definition on_timer_alarm :: "string option \<Rightarrow> 'n reminder \<Rightarrow> 'n reminder" where
  "on_timer_alarm payload s =
     (case rm_q s of None \<Rightarrow> s
      | Some ms \<Rightarrow>
          (if \<not> rm_enabled (rm_cfg s) then s
           else
             (let field = (\<lambda>k. case payload of None \<Rightarrow> 0
                     | Some p \<Rightarrow> (case json_get_int p k of None \<Rightarrow> 0 | Some v \<Rightarrow> v));
                  m = (field ''index'', field ''of'')
              in s\<lparr>rm_q := Some (if length ms < REM_QUEUE_LEN then ms @ [m] else ms)\<rparr>)))"

definition fire_event :: "fire_msg \<Rightarrow> bool \<Rightarrow> string option \<Rightarrow> eff" where
  "fire_event m ok err = publishf ''reminder.fire''
     (''{'' @ jk ''ok'' @ jbool ok @ '','' @ jk ''index'' @ dec_int (fst m) @ '','' @ jk ''of'' @ dec_int (snd m) @
      (case err of None \<Rightarrow> [] | Some e \<Rightarrow> '','' @ jk ''err'' @ jq e) @ ''}'')"

text \<open>One message: \<open>C\<close> is the live configuration. The flag is false when the send overran its array.\<close>

definition reminder_worker :: "'w tls_ops \<Rightarrow> ('w \<Rightarrow> reminder_cfg) \<Rightarrow> fire_msg \<Rightarrow> 'w \<Rightarrow> (bool \<times> eff list \<times> 'w) option" where
  "reminder_worker T C m w =
     (let snap = C w in
      if rm_count snap = 0 then Some (True, [fire_event m False (Some ''not_configured'')], w)
      else if \<not> ls_smtp_is_configured (tls_cfg T w) then
        Some (True, [fire_event m False (Some ''smtp_not_configured'')], w)
      else
        (case reminder_send_cfg T snap w of
           None \<Rightarrow> None
         | Some (Overrun, es, w) \<Rightarrow> Some (False, es, w)
         | Some (Ended rc, es, w) \<Rightarrow>
             Some (True, es @ [if rc = SK_OK then fire_event m True None
               else fire_event m False (Some (sk_err_code_string rc))], w)))"

section \<open>Commands\<close>

type_synonym 'n reminder_res = "('n reminder \<times> cli_out list \<times> sk_err) option"

definition rem_refuse :: "'n reminder \<Rightarrow> cli_out list \<Rightarrow> sk_err \<Rightarrow> 'n reminder_res" where
  "rem_refuse s outs e = Some (s, outs, e)"

definition rem_ok :: "cli_ctx \<Rightarrow> 'n reminder \<Rightarrow> string \<Rightarrow> cli_out \<Rightarrow> 'n reminder_res" where
  "rem_ok ctx s machine human =
     Some (s, if is_machine_mode ctx then [CliOk (Some machine)] else [human, CliOk None], SK_OK)"

definition on_off :: "bool \<Rightarrow> string" where
  "on_off b = (if b then ''on'' else ''off'')"

definition rem_cli_enable :: "'n nvs_ops \<Rightarrow> cli_ctx \<Rightarrow> 'n reminder \<Rightarrow> 'n reminder_res" where
  "rem_cli_enable N ctx s =
     (case Option.bind (or_else (sk_cli_arg ctx 0) (sk_cli_arg_after ctx ''enabled'')) parse_bool_flag of
        None \<Rightarrow> rem_refuse s [usage3 ''reminder enable <on|off>''
          ''state: on | off | yes | no | true | false | 1 | 0''
          (''reminder enable on\<newline>'' @ ''reminder enable off'')] SK_ERR_MISSING_ARG
      | Some on \<Rightarrow> rem_ok ctx (put_cfg N ((rm_cfg s)\<lparr>rm_enabled := on\<rparr>) s)
          (snprintf 40 (''{'' @ jk ''enabled'' @ jbool on @ ''}'')) (kvf ''Reminders'' (on_off on)))"

definition rem_cli_subject :: "'n nvs_ops \<Rightarrow> cli_ctx \<Rightarrow> 'n reminder \<Rightarrow> 'n reminder_res" where
  "rem_cli_subject N ctx s =
     (case text_arg ctx ''subject'' 0 LS_REMINDER_SUBJECT_MAX of
        None \<Rightarrow> rem_refuse s [usage3 ''reminder subject <text>'' ''text: 1..127 characters, multi-word allowed''
          ''reminder subject LebensSpur - please reset''] SK_ERR_MISSING_ARG
      | Some v \<Rightarrow> rem_ok ctx (put_cfg N ((rm_cfg s)\<lparr>rm_subject := v\<rparr>) s)
          (snprintf 320 (''{'' @ jk ''subject'' @ jq (json_esc (LS_REMINDER_SUBJECT_MAX * 2 + 2) v) @ ''}''))
          (kvf ''Subject'' v))"

definition rem_cli_body :: "'n nvs_ops \<Rightarrow> cli_ctx \<Rightarrow> 'n reminder \<Rightarrow> 'n reminder_res" where
  "rem_cli_body N ctx s =
     (case text_arg ctx ''body'' 0 LS_REMINDER_BODY_MAX of
        None \<Rightarrow> rem_refuse s [usage3 ''reminder body <text>'' ''text: 1..511 characters, multi-word allowed''
          ''reminder body Please reset your LebensSpur device''] SK_ERR_MISSING_ARG
      | Some v \<Rightarrow> rem_ok ctx (put_cfg N ((rm_cfg s)\<lparr>rm_body := v\<rparr>) s)
          (snprintf 48 (''{'' @ jk ''body_len'' @ dec_nat (length v) @ ''}'')) (kvf ''Body'' v))"

definition rem_email_arg :: "cli_ctx \<Rightarrow> string option" where
  "rem_email_arg ctx =
     (case or_else (sk_cli_arg ctx 0) (sk_cli_arg_after ctx ''email'') of
        Some (c # cs) \<Rightarrow> Some (c # cs) | _ \<Rightarrow> None)"

definition rem_rcpt_json :: "string \<Rightarrow> u8 \<Rightarrow> string" where
  "rem_rcpt_json email k = snprintf 256 (''{'' @ jk ''email'' @ jq (esc_email email) @ '','' @
     jk ''count'' @ dec_nat (unat k) @ ''}'')"

definition rem_add :: "string \<Rightarrow> reminder_cfg \<Rightarrow> reminder_cfg" where
  "rem_add email c = c\<lparr>rm_rcpts := (rm_rcpts c)[unat (rm_count c) := take LS_REMINDER_RCPT_EMAIL_MAX email],
     rm_count := rm_count c + 1\<rparr>"

definition rem_cli_rcpt_add :: "'n nvs_ops \<Rightarrow> cli_ctx \<Rightarrow> 'n reminder \<Rightarrow> 'n reminder_res" where
  "rem_cli_rcpt_add N ctx s =
     (case rem_email_arg ctx of
        None \<Rightarrow> rem_refuse s [usage3 ''reminder recipient add <email>''
          (''email: full email address; must contain '' @ [CHR 0x27, CHR 0x40, CHR 0x27])
          ''reminder recipient add alice@example.com''] SK_ERR_MISSING_ARG
      | Some email \<Rightarrow>
          (let c = rm_cfg s in
           if CHR 0x40 \<notin> set email then
             rem_refuse s [usage3 ''reminder recipient add <email>''
               (''email: must contain '' @ [CHR 0x27, CHR 0x40, CHR 0x27])
               ''reminder recipient add alice@example.com''] SK_ERR_INVALID_ARG
           else if unat (rm_count c) \<ge> LS_REMINDER_RCPT_MAX then
             rem_refuse s [CliErr SK_ERR_BUSY (reason ''recipients full (10/10)'')] SK_ERR_BUSY
           else if find_address email (rem_listed c) \<noteq> None then
             rem_refuse s [CliErr SK_ERR_INVALID_ARG (reason ''duplicate'')] SK_ERR_INVALID_ARG
           else
             (let c = rem_add email c; stored = take LS_REMINDER_RCPT_EMAIL_MAX email
              in rem_ok ctx (put_cfg N c s) (rem_rcpt_json stored (rm_count c))
                   (kvf ''Result'' (''Recipient added: '' @ stored)))))"

definition rem_remove :: "nat \<Rightarrow> reminder_cfg \<Rightarrow> reminder_cfg" where
  "rem_remove found c =
     c\<lparr>rm_rcpts := remove_slot found (unat (rm_count c) - 1) (rm_rcpts c), rm_count := rm_count c - 1\<rparr>"

definition rem_cli_rcpt_remove :: "'n nvs_ops \<Rightarrow> cli_ctx \<Rightarrow> 'n reminder \<Rightarrow> 'n reminder_res" where
  "rem_cli_rcpt_remove N ctx s =
     (case rem_email_arg ctx of
        None \<Rightarrow> rem_refuse s [usage3 ''reminder recipient remove <email>'' ''email: email address to remove''
          ''reminder recipient remove alice@example.com''] SK_ERR_MISSING_ARG
      | Some email \<Rightarrow>
          (let c = rm_cfg s in
           case find_address email (rem_listed c) of
             None \<Rightarrow> rem_refuse s [CliErr SK_ERR_NOT_FOUND None] SK_ERR_NOT_FOUND
           | Some found \<Rightarrow>
               (let removed = rm_rcpts c ! found; c = rem_remove found c
                in rem_ok ctx (put_cfg N c s) (rem_rcpt_json removed (rm_count c))
                     (kvf ''Result'' (''Recipient removed: '' @ removed)))))"

definition rem_get_head :: "reminder_cfg \<Rightarrow> string" where
  "rem_get_head c = ''{'' @ jk ''enabled'' @ jbool (rm_enabled c) @ '','' @
     jk ''subject'' @ jq (json_esc (LS_REMINDER_SUBJECT_MAX * 2 + 2) (rm_subject c)) @ '','' @
     jk ''body'' @ jq (json_esc (LS_REMINDER_BODY_MAX * 2 + 2) (rm_body c)) @ '','' @ jk ''recipients'' @ ''[''"

definition rem_get_json :: "reminder_cfg \<Rightarrow> string option" where
  "rem_get_json c =
     (case print_piece 4096 ([], 0) (rem_get_head c) of None \<Rightarrow> None
      | Some st \<Rightarrow>
          (case get_rcpts 4096 st True (rem_listed c) of None \<Rightarrow> None
           | Some st \<Rightarrow> map_option fst (print_piece 4096 st '']}'')))"

definition rem_cli_get :: "bool \<Rightarrow> cli_ctx \<Rightarrow> 'n reminder \<Rightarrow> 'n reminder_res" where
  "rem_cli_get alloc_ok ctx s =
     (let c = rm_cfg s in
      if is_machine_mode ctx then
        (if \<not> alloc_ok then rem_refuse s [CliErr SK_ERR_BUSY (reason ''oom'')] SK_ERR_BUSY
         else map_option (\<lambda>j. (s, [CliOk (Some j)], SK_OK)) (rem_get_json c))
      else Some (s,
        [kvf ''Reminders'' (on_off (rm_enabled c)), kvf ''Subject'' (or_empty (rm_subject c)),
         kvf ''Body'' (or_empty (rm_body c)), kvf ''Recipients'' (''('' @ dec_nat (unat (rm_count c)) @ '')'')] @
        map (\<lambda>(r, a). CliText (writef (''    '' @ dec_nat (r + 1) @ '') '' @ a @ ''\<newline>'')))
          (enumerate 0 (rem_listed c)) @ [CliOk None], SK_OK))"

text \<open>
  \<open>reminder.test\<close> sends within the handler. The answer and the code are missing when the send overran; the
  number of recipients in the answer is the one at the end of the send.
\<close>

definition rem_cli_test :: "'w tls_ops \<Rightarrow> ('w \<Rightarrow> reminder_cfg) \<Rightarrow> cli_ctx \<Rightarrow> 'w \<Rightarrow>
    ((cli_out list \<times> sk_err) option \<times> eff list \<times> 'w) option" where
  "rem_cli_test T C ctx w =
     (if rm_count (C w) = 0 then
        Some (Some ([CliErr SK_ERR_NOT_FOUND (reason ''no recipients'')], SK_ERR_NOT_FOUND), [], w)
      else if \<not> ls_smtp_is_configured (tls_cfg T w) then
        Some (Some ([CliErr SK_ERR_SMTP_NO_CONFIG None], SK_ERR_SMTP_NO_CONFIG), [], w)
      else
        (case reminder_send_cfg T (C w) w of
           None \<Rightarrow> None
         | Some (Overrun, es, w) \<Rightarrow> Some (None, es, w)
         | Some (Ended rc, es, w) \<Rightarrow>
             (let k = dec_nat (unat (rm_count (C w))) in
              Some (Some (
                if rc \<noteq> SK_OK then ([CliErr rc None], rc)
                else if is_machine_mode ctx then
                  ([CliOk (Some (snprintf 64 (''{'' @ jk ''ok'' @ ''true,'' @ jk ''recipients'' @ k @ ''}'')))], SK_OK)
                else ([kvf ''Result'' (''Reminder sent to '' @ k @ '' recipient(s)''), CliOk None], SK_OK)), es, w))))"

definition rem_cmds :: "'n nvs_ops \<Rightarrow> bool \<Rightarrow> (string \<times> (cli_ctx \<Rightarrow> 'n reminder \<Rightarrow> 'n reminder_res)) list" where
  "rem_cmds N alloc_ok =
     [(''reminder.enable'', rem_cli_enable N), (''reminder.subject'', rem_cli_subject N),
      (''reminder.body'', rem_cli_body N), (''reminder.recipient.add'', rem_cli_rcpt_add N),
      (''reminder.recipient.remove'', rem_cli_rcpt_remove N), (''reminder.get'', rem_cli_get alloc_ok)]"

section \<open>Factory reset and start-up\<close>

definition rem_factory_reset :: "'n nvs_ops \<Rightarrow> 'n reminder \<Rightarrow> 'n reminder" where
  "rem_factory_reset N s =
     (let s = s\<lparr>rm_cfg := reminder_zero\<rparr>; n = rm_flash s in
      if nv_open_rw N n NVS_REM = ESP_OK
      then s\<lparr>rm_flash := nv_commit N (nv_erase_all N n NVS_REM) NVS_REM\<rparr> else s)"

definition ls_reminder_init :: "'n nvs_ops \<Rightarrow> bool \<Rightarrow> bool \<Rightarrow> 'n \<Rightarrow> esp_err \<times> 'n reminder" where
  "ls_reminder_init N queue_ok task_ok n =
     (let s = \<lparr> rm_cfg = load_cfg N n, rm_flash = n, rm_q = None \<rparr> in
      if \<not> queue_ok then (ESP_ERR_NO_MEM, s)
      else (if task_ok then ESP_OK else ESP_ERR_NO_MEM, s\<lparr>rm_q := Some []\<rparr>))"

end
