(* ===== verification/LsResetApi.thy ===== *)
theory LsResetApi
  imports SkCli
begin

text \<open>
  The inbound HTTP endpoint \<open>GET /api/reset?key=...\<close>, \<open>ls_reset_api/src/ls_reset_api.c\<close>: the key
  and its generator, the flash image, the request handler, start and stop of the server, the five
  commands, the factory-reset hook and start-up. The HTTP server is ESP-IDF code: its request
  accessors are a record of functions (\<open>http_ops\<close>), the result of \<open>httpd_start\<close> an argument. The
  six random bytes of \<open>esp_fill_random\<close> are an argument as well.
\<close>

section \<open>Data\<close>

record 'n reset_api =
  rapi_enabled :: bool
  api_key :: string
  httpd_up :: bool        \<comment> \<open>\<open>s_httpd != NULL\<close>\<close>
  raflash :: 'n

definition LS_RESET_API_KEY_LEN :: nat where "LS_RESET_API_KEY_LEN = 16"
definition HTTP_PORT :: nat where "HTTP_PORT = 80"
definition ENDPOINT :: string where "ENDPOINT = ''/api/reset''"
definition NVS_RAPI :: string where "NVS_RAPI = ''ls_rapi''"

definition reset_api_static :: "'n \<Rightarrow> 'n reset_api" where
  "reset_api_static n = \<lparr> rapi_enabled = False, api_key = [], httpd_up = False, raflash = n \<rparr>"

section \<open>Key generation\<close>

text \<open>The loop over the six random bytes, with the capacity test of its head.\<close>

fun hex_loop :: "nat \<Rightarrow> nat \<Rightarrow> u8 list \<Rightarrow> string" where
  "hex_loop cap i [] = []"
| "hex_loop cap i (b # bs) =
     (if i < 6 \<and> 3 + i * 2 + 1 < cap then
        [hex_digit (unat (drop_bit 4 b AND 0xF)), hex_digit (unat (b AND 0xF))] @ hex_loop cap (i + 1) bs
      else [])"

definition generate_key :: "u8 list \<Rightarrow> string" where
  "generate_key rnd = ''ls_'' @ hex_loop (LS_RESET_API_KEY_LEN + 1) 0 rnd"

section \<open>Flash\<close>

text \<open>\<open>nvs_get_str\<close> into \<open>s_api_key\<close> fails when the string and its terminator do not fit.\<close>

definition get_key :: "'n nvs_ops \<Rightarrow> 'n \<Rightarrow> string option" where
  "get_key N n = (case get_str N n NVS_RAPI ''key'' of None \<Rightarrow> None
     | Some k \<Rightarrow> if length k + 1 \<le> LS_RESET_API_KEY_LEN + 1 then Some k else None)"

definition rapi_nvs_load :: "'n nvs_ops \<Rightarrow> u8 list \<Rightarrow> 'n reset_api \<Rightarrow> 'n reset_api" where
  "rapi_nvs_load N rnd s =
     (let n = raflash s in
      if nv_open_ro N n NVS_RAPI \<noteq> ESP_OK then s\<lparr>api_key := generate_key rnd, rapi_enabled := False\<rparr>
      else
        (let s = s\<lparr>rapi_enabled := load_val (get_u8 N n NVS_RAPI ''en'') (\<lambda>v. True) (\<lambda>v. v \<noteq> 0) (rapi_enabled s)\<rparr>
         in s\<lparr>api_key := (case get_key N n of Some k \<Rightarrow> k | None \<Rightarrow> generate_key rnd)\<rparr>))"

definition rapi_nvs_save :: "'n nvs_ops \<Rightarrow> 'n reset_api \<Rightarrow> 'n reset_api" where
  "rapi_nvs_save N s =
     (if nv_open_rw N (raflash s) NVS_RAPI \<noteq> ESP_OK then s
      else
        (let n = raflash s;
             n = nv_put N NVS_RAPI ''en'' (NvU8 (if rapi_enabled s then 1 else 0)) n;
             n = nv_put N NVS_RAPI ''key'' (NvStr (api_key s)) n
         in s\<lparr>raflash := nv_commit N n NVS_RAPI\<rparr>))"

section \<open>The request handler\<close>

record 'r http_ops =
  url_query_len :: "'r \<Rightarrow> nat"
  url_query_str :: "'r \<Rightarrow> nat \<Rightarrow> esp_err \<times> string"
  query_key_value :: "string \<Rightarrow> string \<Rightarrow> nat \<Rightarrow> esp_err \<times> string"

record http_resp =
  resp_status :: string
  resp_body :: string
  resp_ret :: esp_err

definition refused :: "string \<Rightarrow> string \<Rightarrow> http_resp" where
  "refused status why = \<lparr> resp_status = status,
     resp_body = ''{'' @ jk ''ok'' @ ''false,'' @ jk ''reason'' @ jq why @ ''}'', resp_ret = ESP_FAIL \<rparr>"

definition reset_get_handler :: "'r http_ops \<Rightarrow> 'r \<Rightarrow> 'n reset_api \<Rightarrow> eff list \<times> http_resp" where
  "reset_get_handler H req s =
     (if \<not> rapi_enabled s then ([], refused ''403 Forbidden'' ''disabled'')
      else
        (let qlen = min (url_query_len H req + 1) 64 in
         if qlen \<le> 1 \<or> fst (url_query_str H req qlen) \<noteq> ESP_OK
         then ([], refused ''400 Bad Request'' ''missing query'')
         else
           (case query_key_value H (snd (url_query_str H req qlen)) ''key'' (LS_RESET_API_KEY_LEN + 1) of
              (err, key_param) \<Rightarrow>
                (if err \<noteq> ESP_OK \<or> key_param = [] then ([], refused ''400 Bad Request'' ''missing key'')
                 else if key_param \<noteq> api_key s then ([], refused ''401 Unauthorized'' ''invalid key'')
                 else ([Publish ''timer.reset.requested'' (Some (''{'' @ jk ''by'' @ jq ''api'' @ ''}''))],
                   \<lparr> resp_status = ''200 OK'', resp_body = ''{'' @ jk ''ok'' @ ''true}'', resp_ret = ESP_OK \<rparr>)))))"

section \<open>The server\<close>

text \<open>\<open>res\<close> is the result of \<open>httpd_start\<close>, which leaves the handle alone when it fails.\<close>

definition server_start :: "esp_err \<Rightarrow> 'n reset_api \<Rightarrow> esp_err \<times> 'n reset_api" where
  "server_start res s =
     (if httpd_up s then (ESP_OK, s)
      else if res \<noteq> ESP_OK then (res, s)
      else (ESP_OK, s\<lparr>httpd_up := True\<rparr>))"

definition server_stop :: "'n reset_api \<Rightarrow> 'n reset_api" where
  "server_stop s = (if \<not> httpd_up s then s else s\<lparr>httpd_up := False\<rparr>)"

definition apply_enabled :: "'n nvs_ops \<Rightarrow> esp_err \<Rightarrow> bool \<Rightarrow> 'n reset_api \<Rightarrow> 'n reset_api" where
  "apply_enabled N res enabled s =
     (let s = rapi_nvs_save N (s\<lparr>rapi_enabled := enabled\<rparr>)
      in if enabled then snd (server_start res s) else server_stop s)"

section \<open>Command helpers\<close>

definition key_char_ok :: "char \<Rightarrow> bool" where
  "key_char_ok c = ((48 \<le> char_code c \<and> char_code c \<le> 57) \<or> (97 \<le> char_code c \<and> char_code c \<le> 102))"

definition key_is_valid :: "string \<Rightarrow> bool" where
  "key_is_valid s =
     (if length s \<noteq> LS_RESET_API_KEY_LEN - 1 then False
      else if s ! 0 \<noteq> CHR ''l'' \<or> s ! 1 \<noteq> CHR ''s'' \<or> s ! 2 \<noteq> CHR ''_'' then False
      else list_all key_char_ok (drop 3 s))"

definition mask_key :: "nat \<Rightarrow> string \<Rightarrow> string" where
  "mask_key cap key =
     (if length key \<ge> 4 then snprintf cap (''********'' @ drop (length key - 4) key)
      else snprintf cap ''***'')"

definition last4 :: "nat \<Rightarrow> string \<Rightarrow> string" where
  "last4 cap key =
     (if length key \<ge> 4 then snprintf cap (drop (length key - 4) key) else snprintf cap ''***'')"

definition build_url :: "nat \<Rightarrow> string option \<Rightarrow> string \<Rightarrow> string" where
  "build_url cap ident key =
     snprintf cap (''http://'' @ (case ident of Some i \<Rightarrow> i | None \<Rightarrow> ''device'') @ ''.local'' @
       ENDPOINT @ ''?key='' @ key)"

section \<open>Command handlers\<close>

type_synonym 'n rapi_res = "'n reset_api \<times> cli_out list \<times> sk_err"

text \<open>The answer of a handler: one envelope for a machine, lines and no envelope for a human.\<close>

definition answer_lines :: "cli_ctx \<Rightarrow> cli_out list \<Rightarrow> string \<Rightarrow> cli_out list" where
  "answer_lines ctx human machine = (if is_machine_mode ctx then [CliOk (Some machine)] else human)"

definition enable_params :: string where
  "enable_params = ''on  | yes | true  | 1  -> enabled\<newline>'' @ ''off | no  | false | 0  -> disabled''"

definition parse_enable :: "string \<Rightarrow> bool option" where
  "parse_enable v =
     (if v = ''on'' \<or> v = ''yes'' \<or> v = ''true'' \<or> v = ''1'' then Some True
      else if v = ''off'' \<or> v = ''no'' \<or> v = ''false'' \<or> v = ''0'' then Some False else None)"

definition rapi_cli_enable :: "'n nvs_ops \<Rightarrow> esp_err \<Rightarrow> cli_ctx \<Rightarrow> 'n reset_api \<Rightarrow> 'n rapi_res" where
  "rapi_cli_enable N res ctx s =
     (case or_else (sk_cli_arg_after ctx ''value'') (sk_cli_arg ctx 0) of
        None \<Rightarrow> (s, [CliUsage (Some ''reset_api enable <on|off>'') (Some enable_params)
          (Some (''reset_api enable on\<newline>'' @ ''reset_api enable off''))], SK_ERR_MISSING_ARG)
      | Some v \<Rightarrow>
          (case parse_enable v of
             None \<Rightarrow> (s, [CliUsage (Some ''reset_api enable <on|off>'') (Some enable_params)
               (Some ''reset_api enable on'')], SK_ERR_INVALID_ARG)
           | Some enabled \<Rightarrow> (apply_enabled N res enabled s,
               answer_lines ctx [CliKv ''Status'' (if enabled then ''enabled'' else ''disabled'')]
                 (snprintf 64 (''{'' @ jk ''enabled'' @ jbool enabled @ ''}'')), SK_OK)))"

definition key_usage :: "string \<Rightarrow> cli_out list" where
  "key_usage params = [CliUsage (Some ''reset_api key <ls_xxxxxxxxxxxx>'') (Some params)
     (Some ''reset_api key ls_9a3b1c4f7e02'')]"

text \<open>\<open>strncpy\<close> of \<open>sizeof(s_api_key) - 1\<close> characters, terminated.\<close>

definition rapi_cli_set_key :: "'n nvs_ops \<Rightarrow> cli_ctx \<Rightarrow> 'n reset_api \<Rightarrow> 'n rapi_res" where
  "rapi_cli_set_key N ctx s =
     (case or_else (sk_cli_arg_after ctx ''key'') (sk_cli_arg ctx 0) of
        None \<Rightarrow> (s, key_usage ''key: 'ls_' + 12 lowercase hex (15 chars)'', SK_ERR_MISSING_ARG)
      | Some k \<Rightarrow>
          (if \<not> key_is_valid k then
             (s, key_usage (''key: 'ls_' + 12 lowercase hex (15 chars)\<newline>'' @ ''lowercase hex: 0-9, a-f''),
              SK_ERR_INVALID_ARG)
           else
             (let s = rapi_nvs_save N (s\<lparr>api_key := take LS_RESET_API_KEY_LEN k\<rparr>);
                  masked = mask_key 24 (api_key s)
              in (s, answer_lines ctx [CliKv ''New key'' masked]
                    (snprintf 64 (''{'' @ jk ''key'' @ jq masked @ ''}'')), SK_OK))))"

definition rapi_cli_regen :: "'n nvs_ops \<Rightarrow> u8 list \<Rightarrow> cli_ctx \<Rightarrow> 'n reset_api \<Rightarrow> 'n rapi_res" where
  "rapi_cli_regen N rnd ctx s =
     (let s = rapi_nvs_save N (s\<lparr>api_key := generate_key rnd\<rparr>);
          tail = last4 8 (api_key s)
      in (s, answer_lines ctx [CliText ''New key generated\<newline>'', CliKv ''  last 4 chars'' tail]
            (snprintf 64 (''{'' @ jk ''last4'' @ jq tail @ ''}'')), SK_OK))"

definition rapi_cli_get :: "string option \<Rightarrow> cli_ctx \<Rightarrow> 'n reset_api \<Rightarrow> 'n rapi_res" where
  "rapi_cli_get ident ctx s =
     (let masked = mask_key 24 (api_key s);
          url = build_url 96 ident (api_key s)
      in (s, answer_lines ctx
            [CliKv ''Enabled'' (if rapi_enabled s then ''yes'' else ''no''), CliKv ''Key'' masked,
             CliKv ''Port'' (dec_nat HTTP_PORT), CliKv ''Endpoint'' ENDPOINT, CliKv ''URL'' url]
            (snprintf 256 (''{'' @ jk ''enabled'' @ jbool (rapi_enabled s) @ '','' @ jk ''key'' @ jq masked @ '','' @
               jk ''port'' @ dec_nat HTTP_PORT @ '','' @ jk ''endpoint'' @ jq ENDPOINT @ '','' @
               jk ''url'' @ jq url @ ''}'')), SK_OK))"

definition rapi_cli_status :: "cli_ctx \<Rightarrow> 'n reset_api \<Rightarrow> 'n rapi_res" where
  "rapi_cli_status ctx s =
     (s, answer_lines ctx
        [CliKv ''Enabled'' (if rapi_enabled s then ''yes'' else ''no''),
         CliKv ''Server status'' (if httpd_up s then ''running'' else ''stopped''),
         CliKv ''Port'' (dec_nat HTTP_PORT)]
        (snprintf 96 (''{'' @ jk ''enabled'' @ jbool (rapi_enabled s) @ '','' @ jk ''running'' @ jbool (httpd_up s) @ '','' @
           jk ''port'' @ dec_nat HTTP_PORT @ ''}'')), SK_OK)"

definition rapi_command :: "string \<Rightarrow> string \<Rightarrow> bool \<Rightarrow> (cli_ctx \<Rightarrow> 'n reset_api \<Rightarrow> 'n rapi_res) \<Rightarrow> 'n reset_api command" where
  "rapi_command name usage auth h = \<lparr> cmd_name = name, cmd_usage = Some usage, critical = False,
     hidden = False, requires_auth = auth, handler = h \<rparr>"

definition rapi_cmds :: "'n nvs_ops \<Rightarrow> esp_err \<Rightarrow> u8 list \<Rightarrow> string option \<Rightarrow> 'n reset_api command list" where
  "rapi_cmds N res rnd ident =
     [rapi_command ''reset_api.enable'' ''reset_api enable <on|off>'' True (rapi_cli_enable N res),
      rapi_command ''reset_api.key'' ''reset_api key <ls_xxxxxxxxxxxx>'' True (rapi_cli_set_key N),
      rapi_command ''reset_api.regen'' ''reset_api regen'' True (rapi_cli_regen N rnd),
      rapi_command ''reset_api.get'' ''reset_api get'' True (rapi_cli_get ident),
      rapi_command ''reset_api.status'' ''reset_api status'' False rapi_cli_status]"

section \<open>Factory reset and start-up\<close>

definition rapi_factory_reset :: "'n nvs_ops \<Rightarrow> u8 list \<Rightarrow> 'n reset_api \<Rightarrow> 'n reset_api" where
  "rapi_factory_reset N rnd s =
     (let s = (if rapi_enabled s then server_stop s else s);
          s = s\<lparr>rapi_enabled := False\<rparr>;
          s = s\<lparr>api_key := generate_key rnd\<rparr>;
          s = (if nv_open_rw N (raflash s) NVS_RAPI = ESP_OK
               then s\<lparr>raflash := nv_commit N (nv_erase_all N (raflash s) NVS_RAPI) NVS_RAPI\<rparr> else s)
      in rapi_nvs_save N s)"

definition ls_reset_api_is_enabled :: "'n reset_api \<Rightarrow> bool" where
  "ls_reset_api_is_enabled s = rapi_enabled s"

definition ls_reset_api_init :: "'n nvs_ops \<Rightarrow> u8 list \<Rightarrow> esp_err \<Rightarrow> 'n \<Rightarrow> 'n reset_api" where
  "ls_reset_api_init N rnd res n =
     (let s = rapi_nvs_load N rnd (reset_api_static n)
      in if rapi_enabled s then snd (server_start res s) else s)"

end
