(* ===== verification/SkButton.thy ===== *)
theory SkButton
  imports LSPrelude
begin

text \<open>
  The control button, \<open>sk_core/src/sk_button.c\<close>, and the interpreter of its gestures, \<open>sk_core/src/sk_control.c\<close>
  (theory \<open>SkControl\<close>). The polling task reads the pin at instants that the scheduler chooses: the model is one
  iteration of its loop for a level and an instant.
\<close>

section \<open>Data\<close>

definition DEBOUNCE_MS :: u32 where "DEBOUNCE_MS = 30"
definition POLL_PERIOD_ACTIVE_MS :: int where "POLL_PERIOD_ACTIVE_MS = 20"
definition POLL_PERIOD_SCREEN_MS :: int where "POLL_PERIOD_SCREEN_MS = 50"
definition POLL_PERIOD_LOW_MS :: int where "POLL_PERIOD_LOW_MS = 100"
definition EDGE_BOOST_MS :: int where "EDGE_BOOST_MS = 5000"

definition hold_thresholds_ms :: "int list" where
  "hold_thresholds_ms = [1000, 3000, 5000, 10000]"

record sk_button_cfg =
  active_low :: bool
  long_press_ms :: u32
  multi_tap_window_ms :: u32
  multi_tap_threshold :: u8

datatype sk_button_event = SK_BUTTON_EVT_SHORT_PRESS | SK_BUTTON_EVT_LONG_PRESS | SK_BUTTON_EVT_MULTI_TAP

text \<open>What an iteration does: events for the bus and calls of the callback given at start-up.\<close>

datatype button_out = OnBus eff | Callback sk_button_event u32

text \<open>The variables of the module and those of the task.\<close>

record button =
  b_cfg :: sk_button_cfg
  b_cb :: bool
  idle_poll_ms :: int
  last_edge_us :: int
  tap_count :: nat
  first_tap_us :: int
  prev_pressed :: bool
  press_start :: int
  long_reported :: bool
  down_reported :: bool
  hold_fired :: "bool list"

definition read_pressed :: "sk_button_cfg \<Rightarrow> int \<Rightarrow> bool" where
  "read_pressed c lvl = (if active_low c then lvl = 0 else lvl \<noteq> 0)"

section \<open>One iteration of the task\<close>

definition press_edge :: "int \<Rightarrow> button \<Rightarrow> button" where
  "press_edge now b = b\<lparr>press_start := now, long_reported := False, down_reported := False,
     hold_fired := replicate (length hold_thresholds_ms) False, last_edge_us := now\<rparr>"

definition held_ms :: "int \<Rightarrow> button \<Rightarrow> u32" where
  "held_ms now b = word_of_int (cdiv (now - press_start b) 1000)"

definition duration_event :: "string \<Rightarrow> u32 \<Rightarrow> button_out" where
  "duration_event name held = OnBus (publishf name (''{'' @ jk ''duration_ms'' @ dec_u32 held @ ''}''))"

definition cb_out :: "button \<Rightarrow> sk_button_event \<Rightarrow> u32 \<Rightarrow> button_out list" where
  "cb_out b e meta = (if b_cb b then [Callback e meta] else [])"

text \<open>The loop over the thresholds; \<open>(int)held_ms\<close> is the signed reading of the 32-bit value.\<close>

fun hold_loop :: "int \<Rightarrow> int list \<Rightarrow> bool list \<Rightarrow> bool list \<times> button_out list" where
  "hold_loop held (th # ths) (f # fs) =
     (case hold_loop held ths fs of (fs', es) \<Rightarrow>
        (if \<not> f \<and> held \<ge> th
         then (True # fs', OnBus (publishf ''button.hold'' (''{'' @ jk ''reached_ms'' @ dec_int th @ ''}'')) # es)
         else (f # fs', es)))"
| "hold_loop held ths fs = (fs, [])"

definition while_pressed :: "int \<Rightarrow> button \<Rightarrow> button \<times> button_out list" where
  "while_pressed now b =
     (let held = held_ms now b;
          (b, es1) = (if \<not> down_reported b \<and> held \<ge> DEBOUNCE_MS
            then (b\<lparr>down_reported := True\<rparr>, [OnBus (Publish ''button.down'' None)]) else (b, []));
          (fs, es2) = hold_loop (sint held) hold_thresholds_ms (hold_fired b);
          b = b\<lparr>hold_fired := fs\<rparr>;
          (b, es3) = (if \<not> long_reported b \<and> held \<ge> long_press_ms (b_cfg b)
            then (b\<lparr>long_reported := True\<rparr>, cb_out b SK_BUTTON_EVT_LONG_PRESS held @ [duration_event ''button.long-press'' held])
            else (b, []))
      in (b, es1 @ es2 @ es3))"

text \<open>The multi-tap window: it opens with its first tap and is never moved.\<close>

definition count_tap :: "int \<Rightarrow> button \<Rightarrow> button \<times> button_out list" where
  "count_tap now b =
     (if tap_count b = 0 \<or> cdiv (now - first_tap_us b) 1000 > uint (multi_tap_window_ms (b_cfg b))
      then (b\<lparr>first_tap_us := now, tap_count := 1\<rparr>, [])
      else
        (let k = tap_count b + 1 in
         if k \<ge> unat (multi_tap_threshold (b_cfg b))
         then (b\<lparr>tap_count := 0\<rparr>, cb_out b SK_BUTTON_EVT_MULTI_TAP (of_nat k) @
           [OnBus (publishf ''button.multi-tap'' (''{'' @ jk ''count'' @ dec_nat k @ ''}''))])
         else (b\<lparr>tap_count := k\<rparr>, [])))"

definition on_release :: "int \<Rightarrow> button \<Rightarrow> button \<times> button_out list" where
  "on_release now b =
     (let b = b\<lparr>last_edge_us := now\<rparr>; held = held_ms now b in
      if held < DEBOUNCE_MS then (b, [])
      else if long_reported b then (b, [duration_event ''button.released'' held])
      else (case count_tap now b of (b, es) \<Rightarrow>
        (b, [duration_event ''button.released'' held] @ cb_out b SK_BUTTON_EVT_SHORT_PRESS held @
            [duration_event ''button.pressed'' held] @ es)))"

text \<open>The pause until the next reading, in ms.\<close>

definition poll_delay :: "bool \<Rightarrow> int \<Rightarrow> button \<Rightarrow> int" where
  "poll_delay pressed now b =
     (if pressed \<or> now - last_edge_us b < EDGE_BOOST_MS * 1000 then POLL_PERIOD_ACTIVE_MS else idle_poll_ms b)"

definition button_step :: "bool \<times> int \<Rightarrow> button \<Rightarrow> button \<times> button_out list" where
  "button_step s b =
     (case s of (pressed, now) \<Rightarrow>
        (let b = (if pressed \<and> \<not> prev_pressed b then press_edge now b else b);
             (b, es1) = (if pressed then while_pressed now b else (b, []));
             (b, es2) = (if \<not> pressed \<and> prev_pressed b then on_release now b else (b, []))
         in (b\<lparr>prev_pressed := pressed\<rparr>, es1 @ es2)))"

fun button_run :: "(bool \<times> int) list \<Rightarrow> button \<Rightarrow> button \<times> button_out list" where
  "button_run [] b = (b, [])"
| "button_run (s # ss) b =
     (case button_step s b of (b, es) \<Rightarrow> (case button_run ss b of (b, es') \<Rightarrow> (b, es @ es')))"

section \<open>Power state and start-up\<close>

definition on_power_state_button :: "string option \<Rightarrow> button \<Rightarrow> button" where
  "on_power_state_button payload b =
     (case payload of None \<Rightarrow> b
      | Some p \<Rightarrow> b\<lparr>idle_poll_ms :=
          (if after_str (jq ''low_power'') p \<noteq> None then POLL_PERIOD_LOW_MS
           else if after_str (jq ''screen_off'') p \<noteq> None then POLL_PERIOD_SCREEN_MS
           else POLL_PERIOD_ACTIVE_MS)\<rparr>)"

definition button_defaults :: "sk_button_cfg \<Rightarrow> sk_button_cfg" where
  "button_defaults c =
     (let c = (if long_press_ms c = 0 then c\<lparr>long_press_ms := 3000\<rparr> else c);
          c = (if multi_tap_window_ms c = 0 then c\<lparr>multi_tap_window_ms := 800\<rparr> else c)
      in (if multi_tap_threshold c = 0 then c\<lparr>multi_tap_threshold := 5\<rparr> else c))"

text \<open>\<open>gpio_err\<close>: the answer of \<open>gpio_config\<close>; the task is made when it is OK. The state of a task that runs, if it does.\<close>

definition sk_button_init :: "sk_button_cfg option \<Rightarrow> bool \<Rightarrow> esp_err \<Rightarrow> bool \<Rightarrow> esp_err \<times> button option" where
  "sk_button_init cfg cb gpio_err task_ok =
     (case cfg of None \<Rightarrow> (ESP_ERR_INVALID_ARG, None)
      | Some c \<Rightarrow>
          (if gpio_err \<noteq> ESP_OK then (gpio_err, None)
           else if \<not> task_ok then (ESP_ERR_NO_MEM, None)
           else (ESP_OK, Some \<lparr> b_cfg = button_defaults c, b_cb = cb, idle_poll_ms = POLL_PERIOD_ACTIVE_MS, last_edge_us = 0,
             tap_count = 0, first_tap_us = 0, prev_pressed = False, press_start = 0, long_reported = False,
             down_reported = False, hold_fired = replicate (length hold_thresholds_ms) False \<rparr>)))"

end
