(* ===== verification/SkAuthHmac.thy ===== *)
theory SkAuthHmac
  imports LSPrelude
begin

text \<open>
  Message authentication and confirm tokens: \<open>sk_auth_hmac.c\<close>, \<open>sk_auth_confirm.c\<close> and the
  hexadecimal helpers of \<open>sk_auth.c\<close> and \<open>sk_secure_session.c\<close>. HMAC-SHA256 is mbedTLS: a function
  argument from key and message to the 32-byte code, \<open>None\<close> when the library reports an error.
\<close>

section \<open>Bytes and hexadecimal\<close>

definition bytes :: "string \<Rightarrow> u8 list" where
  "bytes s = map of_char s"

definition HEX :: string where "HEX = ''0123456789abcdef''"

definition hex_byte_str :: "u8 \<Rightarrow> string" where
  "hex_byte_str b = [HEX ! unat (drop_bit 4 b AND 0xF), HEX ! unat (b AND 0xF)]"

definition bytes_to_hex :: "u8 list \<Rightarrow> string" where
  "bytes_to_hex bs = concat (map hex_byte_str bs)"

definition hex_nibble :: "char \<Rightarrow> int" where
  "hex_nibble c =
     (if 48 \<le> char_code c \<and> char_code c \<le> 57 then int (char_code c) - 48
      else if 97 \<le> char_code c \<and> char_code c \<le> 102 then int (char_code c) - 97 + 10
      else if 65 \<le> char_code c \<and> char_code c \<le> 70 then int (char_code c) - 65 + 10
      else -1)"

fun nibble_loop :: "string \<Rightarrow> u8 list option" where
  "nibble_loop (a # b # s) =
     (let h = hex_nibble a; l = hex_nibble b in
      if h < 0 \<or> l < 0 then None
      else map_option ((#) (word_of_int (h * 16) OR word_of_int l)) (nibble_loop s))"
| "nibble_loop _ = Some []"

definition hex_to_bytes :: "string \<Rightarrow> nat \<Rightarrow> u8 list option" where
  "hex_to_bytes hex expect = (if length hex \<noteq> expect * 2 then None else nibble_loop hex)"

section \<open>Message authentication\<close>

type_synonym hmac = "u8 list \<Rightarrow> u8 list \<Rightarrow> u8 list option"

definition SK_AUTH_TOKEN_LEN :: nat where "SK_AUTH_TOKEN_LEN = 32"
definition SK_AUTH_HMAC_LEN :: nat where "SK_AUTH_HMAC_LEN = 16"
definition SK_AUTH_NONCE_WINDOW :: nat where "SK_AUTH_NONCE_WINDOW = 64"
definition TS_WINDOW_SEC :: int where "TS_WINDOW_SEC = 60"
definition TS_VALID_THRESHOLD :: int where "TS_VALID_THRESHOLD = 1700000000"

text \<open>What is used of the library: an HMAC-SHA256 has 32 bytes.\<close>

definition hmac_lawful :: "hmac \<Rightarrow> bool" where
  "hmac_lawful H \<longleftrightarrow> (\<forall>k m out. H k m = Some out \<longrightarrow> length out = 32)"

text \<open>The comparison without early exit: the differences are collected with \<open>|=\<close>.\<close>

definition ct_diff :: "u8 list \<Rightarrow> u8 list \<Rightarrow> u8" where
  "ct_diff a b = foldl (OR) 0 (map2 (XOR) a b)"

record replay =
  nonces :: "u32 list"
  ring_head :: nat

definition sk_auth_replay_ctx_reset :: "replay \<Rightarrow> replay" where
  "sk_auth_replay_ctx_reset r = \<lparr> nonces = replicate SK_AUTH_NONCE_WINDOW 0, ring_head = 0 \<rparr>"

definition nonce_seen_in :: "u32 list \<Rightarrow> u32 \<Rightarrow> bool" where
  "nonce_seen_in ring n = list_ex (\<lambda>x. x = n \<and> n \<noteq> 0) ring"

definition nonce_mark :: "u32 \<Rightarrow> replay \<Rightarrow> replay" where
  "nonce_mark n r = r\<lparr>nonces := (nonces r)[ring_head r := n],
     ring_head := (ring_head r + 1) mod SK_AUTH_NONCE_WINDOW\<rparr>"

definition ts_out_of_window :: "int \<Rightarrow> int \<Rightarrow> bool" where
  "ts_out_of_window now_wall ts_unix =
     (if now_wall < TS_VALID_THRESHOLD then False
      else (let diff = now_wall - ts_unix; diff = (if diff < 0 then - diff else diff)
            in diff > TS_WINDOW_SEC))"

definition hmac_with_key :: "hmac \<Rightarrow> u8 list \<Rightarrow> string \<Rightarrow> u8 list option" where
  "hmac_with_key H key body = map_option (take SK_AUTH_HMAC_LEN) (H key (bytes body))"

definition sk_auth_verify_message_with :: "hmac \<Rightarrow> int \<Rightarrow> u8 list \<Rightarrow> string \<Rightarrow> u32 \<Rightarrow> int \<Rightarrow> u8 list \<Rightarrow>
    replay \<Rightarrow> esp_err \<times> replay" where
  "sk_auth_verify_message_with H now_wall bond_key body nonce ts_unix sig r =
     (if ts_out_of_window now_wall ts_unix then (ESP_FAIL, r)
      else if nonce_seen_in (nonces r) nonce then (ESP_FAIL, r)
      else case hmac_with_key H bond_key body of
        None \<Rightarrow> (ESP_FAIL, r)
      | Some expect \<Rightarrow>
          (if ct_diff expect sig \<noteq> 0 then (ESP_FAIL, r) else (ESP_OK, nonce_mark nonce r)))"

text \<open>
  The path without a session: the key is the one of the globally active bond, or of slot 0. With
  bonds in other slots only, \<open>sk_auth__token_ptr\<close> is the null pointer that the library would read:
  \<open>None\<close> stands for that fault.
\<close>

definition compute_hmac :: "hmac \<Rightarrow> bool \<Rightarrow> u8 list option \<Rightarrow> string \<Rightarrow> (esp_err + u8 list) option" where
  "compute_hmac H has_token token_ptr body =
     (if \<not> has_token then Some (Inl ESP_ERR_INVALID_STATE)
      else case token_ptr of None \<Rightarrow> None
      | Some key \<Rightarrow> (case H key (bytes body) of
          None \<Rightarrow> Some (Inl ESP_FAIL)
        | Some full \<Rightarrow> Some (Inr (take SK_AUTH_HMAC_LEN full))))"

definition sk_auth_sign_message :: "hmac \<Rightarrow> bool \<Rightarrow> u8 list option \<Rightarrow> string \<Rightarrow> (esp_err + u8 list) option" where
  "sk_auth_sign_message H has_token token_ptr body = compute_hmac H has_token token_ptr body"

definition sk_auth_verify_message :: "hmac \<Rightarrow> int \<Rightarrow> bool \<Rightarrow> u8 list option \<Rightarrow> string \<Rightarrow> u32 \<Rightarrow> int \<Rightarrow>
    u8 list \<Rightarrow> replay \<Rightarrow> (esp_err \<times> replay) option" where
  "sk_auth_verify_message H now_wall has_token token_ptr body nonce ts_unix sig r =
     (if \<not> has_token then Some (ESP_ERR_INVALID_STATE, r)
      else if now_wall \<ge> TS_VALID_THRESHOLD \<and>
        (let diff = now_wall - ts_unix; diff = (if diff < 0 then - diff else diff) in diff > TS_WINDOW_SEC)
      then Some (ESP_FAIL, r)
      else if nonce_seen_in (nonces r) nonce then Some (ESP_FAIL, r)
      else case compute_hmac H has_token token_ptr body of
        None \<Rightarrow> None
      | Some (Inl e) \<Rightarrow> Some (e, r)
      | Some (Inr expect) \<Rightarrow>
          (if ct_diff expect sig \<noteq> 0 then Some (ESP_FAIL, r) else Some (ESP_OK, nonce_mark nonce r)))"

section \<open>Confirm tokens\<close>

definition CONFIRM_SLOTS :: nat where "CONFIRM_SLOTS = 4"
definition SK_AUTH_CONFIRM_TOKEN_LEN :: nat where "SK_AUTH_CONFIRM_TOKEN_LEN = 32"
definition SK_AUTH_CONFIRM_TTL_SEC :: int where "SK_AUTH_CONFIRM_TTL_SEC = 30"
definition INT64_MAX :: int where "INT64_MAX = 9223372036854775807"

record confirm_slot =
  token_hex :: string
  expires_us :: int
  slot_in_use :: bool

definition confirm_static :: "confirm_slot list" where
  "confirm_static = replicate CONFIRM_SLOTS \<lparr> token_hex = [], expires_us = 0, slot_in_use = False \<rparr>"

text \<open>The search for a slot: the first free or expired one, else the one that expires first.\<close>

fun pick_slot :: "int \<Rightarrow> nat \<Rightarrow> int \<Rightarrow> nat \<Rightarrow> confirm_slot list \<Rightarrow> nat" where
  "pick_slot now i oldest oldest_idx [] = oldest_idx"
| "pick_slot now i oldest oldest_idx (c # cs) =
     (if \<not> slot_in_use c \<or> expires_us c < now then i
      else if expires_us c < oldest then pick_slot now (i + 1) (expires_us c) i cs
      else pick_slot now (i + 1) oldest oldest_idx cs)"

definition sk_auth_confirm_issue :: "int \<Rightarrow> u8 list \<Rightarrow> confirm_slot list \<Rightarrow> confirm_slot list \<times> string \<times> nat" where
  "sk_auth_confirm_issue now raw slots =
     (let i = pick_slot now 0 INT64_MAX 0 slots;
          hex = bytes_to_hex raw
      in (slots[i := \<lparr> token_hex = hex, expires_us = now + SK_AUTH_CONFIRM_TTL_SEC * 1000000,
                       slot_in_use = True \<rparr>], hex, nat SK_AUTH_CONFIRM_TTL_SEC))"

fun sk_auth_confirm_consume :: "int \<Rightarrow> string \<Rightarrow> confirm_slot list \<Rightarrow> esp_err \<times> confirm_slot list" where
  "sk_auth_confirm_consume now token [] = (ESP_ERR_NOT_FOUND, [])"
| "sk_auth_confirm_consume now token (c # cs) =
     (if \<not> slot_in_use c then
        (case sk_auth_confirm_consume now token cs of (e, cs') \<Rightarrow> (e, c # cs'))
      else if expires_us c < now then
        (case sk_auth_confirm_consume now token cs of (e, cs') \<Rightarrow> (e, c\<lparr>slot_in_use := False\<rparr> # cs'))
      else if token_hex c = token then (ESP_OK, c\<lparr>slot_in_use := False\<rparr> # cs)
      else (case sk_auth_confirm_consume now token cs of (e, cs') \<Rightarrow> (e, c # cs')))"

end
