(* ===== verification/SkControl.thy ===== *)
theory SkControl
  imports SkButton SkCli SkAuthHmac
begin

text \<open>
  The interpreter of the button gestures and the commands \<open>device.restart\<close> and \<open>device.factory-reset\<close>,
  \<open>sk_core/src/sk_control.c\<close>. An answer is the events published, the answer to the command line, and the delay
  in ms after which \<open>esp_restart\<close> is called, if it is.
\<close>

section \<open>Gestures\<close>

definition SHORT_PRESS_MAX_MS :: int where "SHORT_PRESS_MAX_MS = 3000"
definition RESTART_MIN_MS :: int where "RESTART_MIN_MS = 5000"
definition FACTORY_RESET_MIN_MS :: int where "FACTORY_RESET_MIN_MS = 10000"

definition reason_json :: "string \<Rightarrow> string" where
  "reason_json r = ''{'' @ jk ''reason'' @ jq r @ ''}''"

definition shutdown_event :: "string \<Rightarrow> nat \<Rightarrow> eff" where
  "shutdown_event r ms = Publish ''device.shutdown.imminent''
     (Some (''{'' @ jk ''reason'' @ jq r @ '','' @ jk ''delay_ms'' @ dec_nat ms @ ''}''))"

definition wipe_event :: "string \<Rightarrow> eff" where
  "wipe_event r = Publish ''device.factory-reset.requested'' (Some (reason_json r))"

definition on_button_released :: "string option \<Rightarrow> eff list \<times> nat option" where
  "on_button_released payload =
     (case payload of None \<Rightarrow> ([], None)
      | Some p \<Rightarrow>
          (case after_str (jq ''duration_ms'') p of None \<Rightarrow> ([], None)
           | Some p \<Rightarrow>
               (case after_char (CHR '':'') p of None \<Rightarrow> ([], None)
                | Some p \<Rightarrow>
                    (let ms = atol p in
                     if ms \<le> 0 then ([], None)
                     else if ms < SHORT_PRESS_MAX_MS then ([Publish ''control.short-press'' None], None)
                     else if ms \<ge> FACTORY_RESET_MIN_MS then ([wipe_event ''button_10s_hold''], Some 500)
                     else if ms \<ge> RESTART_MIN_MS then ([shutdown_event ''button_long_press'' 300], Some 300)
                     else ([], None)))))"

text \<open>The count of the payload is only logged.\<close>

definition on_button_multi_tap :: "string option \<Rightarrow> eff list \<times> nat option" where
  "on_button_multi_tap payload = ([wipe_event ''multi_tap''], Some 500)"

text \<open>The two subscriptions of \<open>sk_control_init\<close>.\<close>

definition control_on :: "eff \<Rightarrow> eff list \<times> nat option" where
  "control_on e =
     (case e of Publish name payload \<Rightarrow>
        (if name = ''button.released'' then on_button_released payload
         else if name = ''button.multi-tap'' then on_button_multi_tap payload
         else ([], None))
      | _ \<Rightarrow> ([], None))"

section \<open>Commands\<close>

text \<open>The slots of the confirm tokens, the answer, the events, the restart.\<close>

type_synonym control_res = "confirm_slot list \<times> cli_out list \<times> eff list \<times> nat option"

definition confirmed :: "int \<Rightarrow> cli_ctx \<Rightarrow> confirm_slot list \<Rightarrow> (confirm_slot list \<Rightarrow> control_res) \<Rightarrow> control_res" where
  "confirmed now ctx slots k =
     (case confirm_token ctx of
        None \<Rightarrow> (slots, [CliErr SK_ERR_CONFIRM_TOKEN_REQUIRED None], [], None)
      | Some tok \<Rightarrow>
          (case sk_auth_confirm_consume now tok slots of (e, slots) \<Rightarrow>
             (if e \<noteq> ESP_OK then (slots, [CliErr SK_ERR_CONFIRM_TOKEN_INVALID None], [], None) else k slots)))"

definition cmd_device_restart :: "int \<Rightarrow> cli_ctx \<Rightarrow> confirm_slot list \<Rightarrow> control_res" where
  "cmd_device_restart now ctx slots = confirmed now ctx slots (\<lambda>slots.
     (slots, [CliOk (Some (''{'' @ jk ''restarting'' @ ''true}''))], [shutdown_event ''cli_restart'' 500], Some 500))"

definition cmd_device_factory_reset :: "int \<Rightarrow> cli_ctx \<Rightarrow> confirm_slot list \<Rightarrow> control_res" where
  "cmd_device_factory_reset now ctx slots = confirmed now ctx slots (\<lambda>slots.
     (slots, [CliOk (Some (''{'' @ jk ''factory_reset'' @ ''true}''))], [wipe_event ''cli''], Some 300))"

definition control_cmds :: "(string \<times> (int \<Rightarrow> cli_ctx \<Rightarrow> confirm_slot list \<Rightarrow> control_res)) list" where
  "control_cmds = [(''device.restart'', cmd_device_restart), (''device.factory-reset'', cmd_device_factory_reset)]"

end
