(* ===== verification/SkPassphrase.thy ===== *)
theory SkPassphrase
  imports SkCli SkAuthHmac
begin

text \<open>
  The content-access passphrase, \<open>sk_core/src/sk_passphrase.c\<close>: the key derivation, the flash image,
  verification with the persistent failure counter and the lockout, the commands and start-up. The
  mutex \<open>s_mtx\<close> is not recursive and is taken without a time limit: it is part of the state, and an
  operation that takes it while it is held never returns (outcome \<open>Blocked\<close>). \<open>esp_restart\<close> ends an
  operation too (outcome \<open>Restarted\<close>).
\<close>

section \<open>Outcomes\<close>

datatype ('s, 'a) outcome =
    Done (out_state: 's) (out_effs: "eff list") 'a
  | Blocked (out_state: 's) (out_effs: "eff list")
  | Restarted (out_state: 's) (out_effs: "eff list")

text \<open>Sequencing: what comes after an operation that does not return is not executed.\<close>

fun and_then :: "('s, 'a) outcome \<Rightarrow> ('s \<Rightarrow> 'a \<Rightarrow> ('s, 'b) outcome) \<Rightarrow> ('s, 'b) outcome" where
  "and_then (Done s e a) f =
     (case f s a of Done s' e' b \<Rightarrow> Done s' (e @ e') b
      | Blocked s' e' \<Rightarrow> Blocked s' (e @ e') | Restarted s' e' \<Rightarrow> Restarted s' (e @ e'))"
| "and_then (Blocked s e) f = Blocked s e"
| "and_then (Restarted s e) f = Restarted s e"

section \<open>Data\<close>

record 'n passphrase =
  pass_mtx :: bool
  has_pass :: bool
  pass_salt :: "u8 list"
  pass_hash :: "u8 list"
  mode_bits :: u8
  fail_count :: u8
  pflash :: 'n

record sk_pass_mode =
  pairing_required :: bool
  always_required :: bool

definition SK_PASSPHRASE_MIN_LEN :: nat where "SK_PASSPHRASE_MIN_LEN = 6"
definition SK_PASSPHRASE_MAX_LEN :: nat where "SK_PASSPHRASE_MAX_LEN = 32"
definition SK_PASSPHRASE_SALT_LEN :: nat where "SK_PASSPHRASE_SALT_LEN = 16"
definition SK_PASSPHRASE_HASH_LEN :: nat where "SK_PASSPHRASE_HASH_LEN = 32"
definition SK_PASSPHRASE_PBKDF2_ITERS :: nat where "SK_PASSPHRASE_PBKDF2_ITERS = 600"
definition SK_PASSPHRASE_FAIL_LOCKOUT :: nat where "SK_PASSPHRASE_FAIL_LOCKOUT = 10"
definition MODE_BIT_PAIRING :: u8 where "MODE_BIT_PAIRING = 1"
definition MODE_BIT_ALWAYS :: u8 where "MODE_BIT_ALWAYS = 2"
definition NVS_PASS :: string where "NVS_PASS = ''sk_pass''"

definition passphrase_static :: "'n \<Rightarrow> 'n passphrase" where
  "passphrase_static n = \<lparr> pass_mtx = False, has_pass = False,
     pass_salt = replicate SK_PASSPHRASE_SALT_LEN 0, pass_hash = replicate SK_PASSPHRASE_HASH_LEN 0,
     mode_bits = 0, fail_count = 0, pflash = n \<rparr>"

section \<open>Flash\<close>

definition pass_save :: "'n nvs_ops \<Rightarrow> string \<Rightarrow> nvs_val \<Rightarrow> 'n passphrase \<Rightarrow> esp_err \<times> 'n passphrase" where
  "pass_save N key v s =
     (let err = nv_open_rw N (pflash s) NVS_PASS in
      if err \<noteq> ESP_OK then (err, s)
      else case nv_set N (pflash s) NVS_PASS key v of (err, n) \<Rightarrow>
        (err, s\<lparr>pflash := (if err = ESP_OK then nv_commit N n NVS_PASS else n)\<rparr>))"

text \<open>
  \<open>nvs_get_blob\<close> into a buffer of \<open>cap\<close> bytes: whether it succeeded with exactly \<open>cap\<close> bytes, and
  the buffer afterwards (a shorter blob overwrites its first bytes only, a longer one is refused).
\<close>

definition read_blob :: "nat \<Rightarrow> u8 list option \<Rightarrow> u8 list \<Rightarrow> bool \<times> u8 list" where
  "read_blob cap r buf = (case r of None \<Rightarrow> (False, buf)
     | Some b \<Rightarrow> if length b > cap then (False, buf) else (length b = cap, b @ drop (length b) buf))"

definition nvs_load_state :: "'n nvs_ops \<Rightarrow> 'n passphrase \<Rightarrow> 'n passphrase" where
  "nvs_load_state N s =
     (let n = pflash s in
      if nv_open_ro N n NVS_PASS \<noteq> ESP_OK then s
      else case read_blob SK_PASSPHRASE_SALT_LEN (get_blob N n NVS_PASS ''salt'') (pass_salt s) of
        (have_salt, salt) \<Rightarrow>
          (case read_blob SK_PASSPHRASE_HASH_LEN (get_blob N n NVS_PASS ''hash'') (pass_hash s) of
             (have_hash, hash) \<Rightarrow>
               s\<lparr>pass_salt := salt, pass_hash := hash, has_pass := (have_salt \<and> have_hash),
                 mode_bits := load_val (get_u8 N n NVS_PASS ''mode'') (\<lambda>v. True) (\<lambda>v. v) (mode_bits s),
                 fail_count := load_val (get_u8 N n NVS_PASS ''fail_n'') (\<lambda>v. True) (\<lambda>v. v) (fail_count s)\<rparr>))"

definition nvs_wipe :: "'n nvs_ops \<Rightarrow> 'n passphrase \<Rightarrow> 'n passphrase" where
  "nvs_wipe N s =
     (if nv_open_rw N (pflash s) NVS_PASS \<noteq> ESP_OK then s
      else s\<lparr>pflash := nv_commit N (nv_erase_all N (pflash s) NVS_PASS) NVS_PASS\<rparr>)"

section \<open>Key derivation\<close>

definition xor_into :: "u8 list \<Rightarrow> u8 list \<Rightarrow> u8 list" where
  "xor_into T U = map2 (XOR) T U"

fun pbkdf2_loop :: "hmac \<Rightarrow> u8 list \<Rightarrow> nat \<Rightarrow> u8 list \<Rightarrow> u8 list \<Rightarrow> u8 list option" where
  "pbkdf2_loop H key 0 U T = Some T"
| "pbkdf2_loop H key (Suc k) U T =
     (case H key U of None \<Rightarrow> None | Some U' \<Rightarrow> pbkdf2_loop H key k U' (xor_into T U'))"

definition pbkdf2 :: "hmac \<Rightarrow> string \<Rightarrow> u8 list \<Rightarrow> u8 list option" where
  "pbkdf2 H plain salt =
     (case H (bytes plain) (salt @ [0, 0, 0, 1]) of None \<Rightarrow> None
      | Some U \<Rightarrow> pbkdf2_loop H (bytes plain) (SK_PASSPHRASE_PBKDF2_ITERS - 1) U U)"

definition valid_plain_len :: "string \<Rightarrow> bool" where
  "valid_plain_len plain = (length plain \<ge> SK_PASSPHRASE_MIN_LEN \<and> length plain \<le> SK_PASSPHRASE_MAX_LEN)"

definition ct_eq :: "u8 list \<Rightarrow> u8 list \<Rightarrow> bool" where
  "ct_eq a b = (ct_diff a b = 0)"

section \<open>Operations\<close>

definition sk_passphrase_is_set :: "'n passphrase \<Rightarrow> bool" where
  "sk_passphrase_is_set s = has_pass s"

definition sk_passphrase_get_mode :: "'n passphrase \<Rightarrow> sk_pass_mode" where
  "sk_passphrase_get_mode s =
     (if \<not> has_pass s then \<lparr> pairing_required = False, always_required = False \<rparr>
      else \<lparr> pairing_required = (mode_bits s AND MODE_BIT_PAIRING \<noteq> 0),
             always_required = (mode_bits s AND MODE_BIT_ALWAYS \<noteq> 0) \<rparr>)"

definition sk_passphrase_attempts_left :: "'n passphrase \<Rightarrow> nat" where
  "sk_passphrase_attempts_left s =
     (if \<not> has_pass s then SK_PASSPHRASE_FAIL_LOCKOUT
      else if unat (fail_count s) \<ge> SK_PASSPHRASE_FAIL_LOCKOUT then 0
      else SK_PASSPHRASE_FAIL_LOCKOUT - unat (fail_count s))"

definition sk_passphrase_fail_count :: "'n passphrase \<Rightarrow> u8" where
  "sk_passphrase_fail_count s = fail_count s"

text \<open>\<open>xSemaphoreTake(s_mtx, portMAX_DELAY)\<close> and \<open>xSemaphoreGive(s_mtx)\<close>.\<close>

definition take_mtx :: "'n passphrase \<Rightarrow> ('n passphrase, unit) outcome" where
  "take_mtx s = (if pass_mtx s then Blocked s [] else Done (s\<lparr>pass_mtx := True\<rparr>) [] ())"

definition give_mtx :: "'n passphrase \<Rightarrow> 'n passphrase" where
  "give_mtx s = s\<lparr>pass_mtx := False\<rparr>"

definition forget :: "'n passphrase \<Rightarrow> 'n passphrase" where
  "forget s = s\<lparr>pass_salt := replicate SK_PASSPHRASE_SALT_LEN 0,
     pass_hash := replicate SK_PASSPHRASE_HASH_LEN 0, mode_bits := 0, fail_count := 0, has_pass := False\<rparr>"

definition pass_factory_reset :: "'n nvs_ops \<Rightarrow> 'n passphrase \<Rightarrow> ('n passphrase, unit) outcome" where
  "pass_factory_reset N s =
     and_then (take_mtx s) (\<lambda>s _. Done (give_mtx (forget (nvs_wipe N s))) [] ())"

definition sk_passphrase_set_mode :: "'n nvs_ops \<Rightarrow> bool \<Rightarrow> bool \<Rightarrow> 'n passphrase \<Rightarrow> ('n passphrase, esp_err) outcome" where
  "sk_passphrase_set_mode N pairing always s =
     and_then (take_mtx s) (\<lambda>s _.
       if \<not> has_pass s then
         Done (give_mtx (snd (pass_save N ''mode'' (NvU8 0) (s\<lparr>mode_bits := 0\<rparr>)))) [] ESP_ERR_INVALID_STATE
       else
         (let bits = (if pairing then MODE_BIT_PAIRING else 0) OR (if always then MODE_BIT_ALWAYS else 0)
          in case pass_save N ''mode'' (NvU8 bits) (s\<lparr>mode_bits := bits\<rparr>) of (err, s) \<Rightarrow>
            Done (give_mtx s)
              (if err = ESP_OK then [Publish ''auth.passphrase.mode.changed'' (Some (snprintf 64
                 (''{'' @ jk ''pairing'' @ jbool pairing @ '','' @ jk ''always'' @ jbool always @ ''}'')))] else [])
              err))"

text \<open>The three writes of a new passphrase, stopping at the first that fails.\<close>

definition store_pass :: "'n nvs_ops \<Rightarrow> u8 list \<Rightarrow> u8 list \<Rightarrow> 'n passphrase \<Rightarrow> esp_err \<times> 'n passphrase" where
  "store_pass N salt hash s =
     (case pass_save N ''salt'' (NvBlob salt) s of (err, s) \<Rightarrow>
        if err \<noteq> ESP_OK then (err, s)
        else case pass_save N ''hash'' (NvBlob hash) s of (err, s) \<Rightarrow>
          if err \<noteq> ESP_OK then (err, s)
          else case pass_save N ''fail_n'' (NvU8 0) s of (err, s) \<Rightarrow>
            if err \<noteq> ESP_OK then (err, s)
            else (ESP_OK, s\<lparr>pass_salt := salt, pass_hash := hash, fail_count := 0\<rparr>))"

definition sk_passphrase_set :: "hmac \<Rightarrow> 'n nvs_ops \<Rightarrow> u8 list \<Rightarrow> string \<Rightarrow> 'n passphrase \<Rightarrow>
    ('n passphrase, esp_err) outcome" where
  "sk_passphrase_set H N salt plain s =
     (if \<not> valid_plain_len plain then Done s [] ESP_ERR_INVALID_ARG
      else and_then (take_mtx s) (\<lambda>s _.
        if has_pass s then Done (give_mtx s) [] ESP_ERR_INVALID_STATE
        else case pbkdf2 H plain salt of
          None \<Rightarrow> Done (give_mtx s) [] ESP_FAIL
        | Some hash \<Rightarrow>
            (case store_pass N salt hash s of (err, s) \<Rightarrow>
               if err = ESP_OK
               then Done (give_mtx (s\<lparr>has_pass := True\<rparr>)) [Publish ''auth.passphrase.set'' None] ESP_OK
               else Done (give_mtx s) [] err)))"

text \<open>
  \<open>verify_internal\<close>, called with the mutex held. The result carries the attempts left that the
  caller reads through its pointer (untouched when there is no passphrase or the derivation fails).
  At the lockout the factory-reset event is published while the mutex is held; the subscribers run
  inside the call, this component's own one among them.
\<close>

definition verify_internal :: "hmac \<Rightarrow> 'n nvs_ops \<Rightarrow> string \<Rightarrow> bool \<Rightarrow> 'n passphrase \<Rightarrow>
    ('n passphrase, esp_err \<times> nat option) outcome" where
  "verify_internal H N plain reset_on_match s =
     (if \<not> has_pass s then Done s [] (ESP_ERR_INVALID_STATE, None)
      else case pbkdf2 H plain (pass_salt s) of
        None \<Rightarrow> Done s [] (ESP_FAIL, None)
      | Some cand \<Rightarrow>
          (if ct_eq cand (pass_hash s) then
             (let s = (if reset_on_match \<and> fail_count s \<noteq> 0
                       then snd (pass_save N ''fail_n'' (NvU8 0) (s\<lparr>fail_count := 0\<rparr>)) else s)
              in Done s [] (ESP_OK, Some (if unat (fail_count s) \<ge> SK_PASSPHRASE_FAIL_LOCKOUT then 0
                                          else SK_PASSPHRASE_FAIL_LOCKOUT - unat (fail_count s))))
           else
             (let s = (if fail_count s < 0xFF then s\<lparr>fail_count := fail_count s + 1\<rparr> else s);
                  s = snd (pass_save N ''fail_n'' (NvU8 (fail_count s)) s);
                  remain = (if unat (fail_count s) \<ge> SK_PASSPHRASE_FAIL_LOCKOUT then 0
                            else SK_PASSPHRASE_FAIL_LOCKOUT - unat (fail_count s))
              in if unat (fail_count s) \<ge> SK_PASSPHRASE_FAIL_LOCKOUT then
                   and_then (Done s [Publish ''device.factory-reset.requested''
                       (Some (''{'' @ jk ''reason'' @ jq ''passphrase_lockout'' @ ''}''))] ())
                     (\<lambda>s _. and_then (pass_factory_reset N s) (\<lambda>s _. Restarted s [Restart]))
                 else Done s [Publish ''auth.passphrase.failed''
                     (Some (snprintf 64 (''{'' @ jk ''attempts_left'' @ dec_nat remain @ ''}'')))]
                   (ESP_ERR_INVALID_RESPONSE, Some remain))))"

definition sk_passphrase_verify :: "hmac \<Rightarrow> 'n nvs_ops \<Rightarrow> string \<Rightarrow> 'n passphrase \<Rightarrow>
    ('n passphrase, esp_err \<times> nat option) outcome" where
  "sk_passphrase_verify H N plain s =
     and_then (take_mtx s) (\<lambda>s _. and_then (verify_internal H N plain True s)
       (\<lambda>s r. Done (give_mtx s) [] r))"

definition sk_passphrase_change :: "hmac \<Rightarrow> 'n nvs_ops \<Rightarrow> u8 list \<Rightarrow> string \<Rightarrow> string \<Rightarrow> 'n passphrase \<Rightarrow>
    ('n passphrase, esp_err) outcome" where
  "sk_passphrase_change H N salt old_plain new_plain s =
     (if \<not> valid_plain_len new_plain then Done s [] ESP_ERR_INVALID_ARG
      else and_then (take_mtx s) (\<lambda>s _.
        if \<not> has_pass s then Done (give_mtx s) [] ESP_ERR_INVALID_STATE
        else and_then (verify_internal H N old_plain True s) (\<lambda>s (err, left).
          if err \<noteq> ESP_OK then Done (give_mtx s) [] err
          else case pbkdf2 H new_plain salt of
            None \<Rightarrow> Done (give_mtx s) [] ESP_FAIL
          | Some hash \<Rightarrow>
              (case store_pass N salt hash s of (err, s) \<Rightarrow>
                 Done (give_mtx s) (if err = ESP_OK then [Publish ''auth.passphrase.changed'' None] else []) err))))"

definition sk_passphrase_clear :: "hmac \<Rightarrow> 'n nvs_ops \<Rightarrow> string \<Rightarrow> 'n passphrase \<Rightarrow>
    ('n passphrase, esp_err) outcome" where
  "sk_passphrase_clear H N old_plain s =
     and_then (take_mtx s) (\<lambda>s _.
       if \<not> has_pass s then Done (give_mtx s) [] ESP_ERR_INVALID_STATE
       else and_then (verify_internal H N old_plain True s) (\<lambda>s (err, left).
         if err \<noteq> ESP_OK then Done (give_mtx s) [] err
         else Done (give_mtx (forget (nvs_wipe N s))) [Publish ''auth.passphrase.cleared'' None] ESP_OK))"

definition sk_passphrase_init :: "'n nvs_ops \<Rightarrow> 'n \<Rightarrow> 'n passphrase" where
  "sk_passphrase_init N n = nvs_load_state N (passphrase_static n)"

section \<open>Commands\<close>

text \<open>
  The commands redeem a confirm token of \<open>sk_auth_confirm.c\<close> first: their state is the passphrase
  component and the token slots. \<open>now\<close> is the uptime, \<open>salt\<close> the bytes of \<open>esp_fill_random\<close>.
\<close>

record 'n pass_dev =
  pd_pass :: "'n passphrase"
  pd_slots :: "confirm_slot list"

type_synonym 'n pass_cmd_res = "('n pass_dev, cli_out list \<times> sk_err) outcome"

fun on_pass :: "'n pass_dev \<Rightarrow> ('n passphrase, 'a) outcome \<Rightarrow> ('n pass_dev, 'a) outcome" where
  "on_pass d (Done s e a) = Done (d\<lparr>pd_pass := s\<rparr>) e a"
| "on_pass d (Blocked s e) = Blocked (d\<lparr>pd_pass := s\<rparr>) e"
| "on_pass d (Restarted s e) = Restarted (d\<lparr>pd_pass := s\<rparr>) e"

definition get_arg_str :: "cli_ctx \<Rightarrow> string \<Rightarrow> nat \<Rightarrow> string option" where
  "get_arg_str ctx key human_idx =
     (if is_machine_mode ctx then sk_cli_arg_named ctx key else sk_cli_arg ctx human_idx)"

definition pass_answer :: "'n pass_dev \<Rightarrow> cli_out \<Rightarrow> 'n pass_cmd_res" where
  "pass_answer d out = Done d [] ([out], SK_OK)"

definition reject_without_confirm :: "int \<Rightarrow> cli_ctx \<Rightarrow> 'n pass_dev \<Rightarrow> cli_out option \<times> 'n pass_dev" where
  "reject_without_confirm now ctx d =
     (case confirm_token ctx of
        None \<Rightarrow> (Some (CliErr SK_ERR_CONFIRM_TOKEN_REQUIRED None), d)
      | Some tok \<Rightarrow> (case sk_auth_confirm_consume now tok (pd_slots d) of (e, slots) \<Rightarrow>
          (if e \<noteq> ESP_OK then Some (CliErr SK_ERR_CONFIRM_TOKEN_INVALID None) else None,
           d\<lparr>pd_slots := slots\<rparr>)))"

definition pass_reason :: "string \<Rightarrow> string" where
  "pass_reason why = ''{'' @ jk ''reason'' @ jq why @ ''}''"

definition wrong_pass_params :: "'n pass_dev \<Rightarrow> string" where
  "wrong_pass_params d = snprintf 80 (''{'' @ jk ''reason'' @ jq ''wrong_passphrase'' @ '','' @
     jk ''attempts_left'' @ dec_nat (sk_passphrase_attempts_left (pd_pass d)) @ ''}'')"

definition cmd_pass_status :: "cli_ctx \<Rightarrow> 'n pass_dev \<Rightarrow> 'n pass_cmd_res" where
  "cmd_pass_status ctx d =
     (let s = pd_pass d; m = sk_passphrase_get_mode s in
      pass_answer d (CliOk (Some (snprintf 160 (''{'' @ jk ''set'' @ jbool (has_pass s) @ '','' @
        jk ''mode'' @ ''{'' @ jk ''pairing'' @ jbool (pairing_required m) @ '','' @
        jk ''always'' @ jbool (always_required m) @ ''},'' @
        jk ''attempts_left'' @ dec_nat (sk_passphrase_attempts_left s) @ '','' @
        jk ''min_len'' @ dec_nat SK_PASSPHRASE_MIN_LEN @ '','' @
        jk ''max_len'' @ dec_nat SK_PASSPHRASE_MAX_LEN @ ''}'')))))"

definition cmd_pass_set :: "hmac \<Rightarrow> 'n nvs_ops \<Rightarrow> int \<Rightarrow> u8 list \<Rightarrow> cli_ctx \<Rightarrow> 'n pass_dev \<Rightarrow> 'n pass_cmd_res" where
  "cmd_pass_set H N now salt ctx d =
     (case reject_without_confirm now ctx d of
        (Some e, d) \<Rightarrow> pass_answer d e
      | (None, d) \<Rightarrow>
          (case get_arg_str ctx ''plain'' 0 of
             None \<Rightarrow> pass_answer d (CliErr SK_ERR_INVALID_ARG None)
           | Some plain \<Rightarrow>
               and_then (on_pass d (sk_passphrase_set H N salt plain (pd_pass d))) (\<lambda>d err.
                 pass_answer d
                   (if err = ESP_ERR_INVALID_ARG then CliErr SK_ERR_INVALID_ARG (Some (pass_reason ''length''))
                    else if err = ESP_ERR_INVALID_STATE then CliErr SK_ERR_BUSY (Some (pass_reason ''already_set''))
                    else if err \<noteq> ESP_OK then CliErr SK_ERR_INTERNAL None
                    else CliOk (Some (''{'' @ jk ''set'' @ ''true}''))))))"

definition cmd_pass_change :: "hmac \<Rightarrow> 'n nvs_ops \<Rightarrow> int \<Rightarrow> u8 list \<Rightarrow> cli_ctx \<Rightarrow> 'n pass_dev \<Rightarrow> 'n pass_cmd_res" where
  "cmd_pass_change H N now salt ctx d =
     (case reject_without_confirm now ctx d of
        (Some e, d) \<Rightarrow> pass_answer d e
      | (None, d) \<Rightarrow>
          (case (get_arg_str ctx ''old'' 0, get_arg_str ctx ''new'' 1) of
             (Some oldp, Some newp) \<Rightarrow>
               and_then (on_pass d (sk_passphrase_change H N salt oldp newp (pd_pass d))) (\<lambda>d err.
                 pass_answer d
                   (if err = ESP_ERR_INVALID_ARG then CliErr SK_ERR_INVALID_ARG (Some (pass_reason ''length''))
                    else if err = ESP_ERR_INVALID_STATE then CliErr SK_ERR_BUSY (Some (pass_reason ''not_set''))
                    else if err = ESP_ERR_INVALID_RESPONSE then CliErr SK_ERR_INVALID_ARG (Some (wrong_pass_params d))
                    else if err \<noteq> ESP_OK then CliErr SK_ERR_INTERNAL None
                    else CliOk (Some (''{'' @ jk ''changed'' @ ''true}''))))
           | _ \<Rightarrow> pass_answer d (CliErr SK_ERR_INVALID_ARG None)))"

definition cmd_pass_clear :: "hmac \<Rightarrow> 'n nvs_ops \<Rightarrow> int \<Rightarrow> cli_ctx \<Rightarrow> 'n pass_dev \<Rightarrow> 'n pass_cmd_res" where
  "cmd_pass_clear H N now ctx d =
     (case reject_without_confirm now ctx d of
        (Some e, d) \<Rightarrow> pass_answer d e
      | (None, d) \<Rightarrow>
          (case get_arg_str ctx ''old'' 0 of
             None \<Rightarrow> pass_answer d (CliErr SK_ERR_INVALID_ARG None)
           | Some oldp \<Rightarrow>
               and_then (on_pass d (sk_passphrase_clear H N oldp (pd_pass d))) (\<lambda>d err.
                 pass_answer d
                   (if err = ESP_ERR_INVALID_STATE then CliErr SK_ERR_BUSY (Some (pass_reason ''not_set''))
                    else if err = ESP_ERR_INVALID_RESPONSE then CliErr SK_ERR_INVALID_ARG (Some (wrong_pass_params d))
                    else if err \<noteq> ESP_OK then CliErr SK_ERR_INTERNAL None
                    else CliOk (Some (''{'' @ jk ''cleared'' @ ''true}''))))))"

definition cmd_pass_mode_set :: "'n nvs_ops \<Rightarrow> int \<Rightarrow> cli_ctx \<Rightarrow> 'n pass_dev \<Rightarrow> 'n pass_cmd_res" where
  "cmd_pass_mode_set N now ctx d =
     (case reject_without_confirm now ctx d of
        (Some e, d) \<Rightarrow> pass_answer d e
      | (None, d) \<Rightarrow>
          (case (sk_cli_arg_long ctx ''pairing'', sk_cli_arg_long ctx ''always'') of
             (Some pairing, Some always) \<Rightarrow>
               and_then (on_pass d (sk_passphrase_set_mode N (pairing \<noteq> 0) (always \<noteq> 0) (pd_pass d))) (\<lambda>d err.
                 pass_answer d
                   (if err = ESP_ERR_INVALID_STATE then CliErr SK_ERR_BUSY (Some (pass_reason ''not_set''))
                    else if err \<noteq> ESP_OK then CliErr SK_ERR_INTERNAL None
                    else CliOk (Some (snprintf 80 (''{'' @ jk ''pairing'' @ jbool (pairing \<noteq> 0) @ '','' @
                      jk ''always'' @ jbool (always \<noteq> 0) @ ''}'')))))
           | _ \<Rightarrow> pass_answer d (CliErr SK_ERR_INVALID_ARG None)))"

text \<open>The table: name, whether critical, handler. None of the commands requires authentication.\<close>

definition pass_cmds :: "hmac \<Rightarrow> 'n nvs_ops \<Rightarrow> int \<Rightarrow> u8 list \<Rightarrow>
    (string \<times> bool \<times> (cli_ctx \<Rightarrow> 'n pass_dev \<Rightarrow> 'n pass_cmd_res)) list" where
  "pass_cmds H N now salt =
     [(''auth.passphrase.status'', False, cmd_pass_status),
      (''auth.passphrase.set'', True, cmd_pass_set H N now salt),
      (''auth.passphrase.change'', True, cmd_pass_change H N now salt),
      (''auth.passphrase.clear'', True, cmd_pass_clear H N now),
      (''auth.passphrase.mode.set'', True, cmd_pass_mode_set N now)]"

end
