(* ===== verification/SkAuth.thy ===== *)
theory SkAuth
  imports SkPassphrase
begin

text \<open>
  Bonds and pairing, \<open>sk_core/src/sk_auth.c\<close>: the eight bond slots and their flash records, the
  active bond, the pairing window, the pairing dialogue with its passphrase gate, the commands and
  start-up. \<open>sk_auth\<close> releases its mutex before it publishes and never takes it twice, so the mutex
  is not part of the state. Curve25519 and SHA-256 (\<open>sk_auth_ecdh.c\<close>) are arguments.
\<close>

section \<open>Data\<close>

type_synonym i64 = "64 word"

definition SK_AUTH_PEER_ID_LEN :: nat where "SK_AUTH_PEER_ID_LEN = 16"
definition SK_AUTH_BOND_LABEL_MAX :: nat where "SK_AUTH_BOND_LABEL_MAX = 24"
definition SK_AUTH_BOND_SLOT_COUNT :: nat where "SK_AUTH_BOND_SLOT_COUNT = 8"
definition SK_AUTH_BOND_SLOT_INVALID :: nat where "SK_AUTH_BOND_SLOT_INVALID = 255"
definition SK_AUTH_ECDH_PUBLIC_LEN :: nat where "SK_AUTH_ECDH_PUBLIC_LEN = 32"
definition SLOT_RECORD_SIZE :: nat where
  "SLOT_RECORD_SIZE = SK_AUTH_PEER_ID_LEN + SK_AUTH_TOKEN_LEN + (SK_AUTH_BOND_LABEL_MAX + 1) + 8"
definition NVS_AUTH :: string where "NVS_AUTH = ''sk_auth''"

record bond_slot =
  occupied :: bool
  peer_id :: "u8 list"
  bond_key :: "u8 list"
  label :: string
  paired_at_unix :: i64

definition empty_bond :: bond_slot where
  "empty_bond = \<lparr> occupied = False, peer_id = replicate SK_AUTH_PEER_ID_LEN 0,
     bond_key = replicate SK_AUTH_TOKEN_LEN 0, label = [], paired_at_unix = 0 \<rparr>"

record pending_bond =
  pend_active :: bool
  pend_key :: "u8 list"
  pend_peer :: "u8 list"
  pend_label :: string

definition pending_none :: pending_bond where
  "pending_none = \<lparr> pend_active = False, pend_key = replicate SK_AUTH_TOKEN_LEN 0,
     pend_peer = replicate SK_AUTH_PEER_ID_LEN 0, pend_label = [] \<rparr>"

record 'n auth =
  bslots :: "bond_slot list"
  active_slot :: nat
  active_key :: "u8 list"
  active_set :: bool
  pairing_open :: bool
  pair_timer :: bool        \<comment> \<open>\<open>s_pair_timer != NULL\<close>\<close>
  pending :: pending_bond
  aflash :: 'n

definition auth_static :: "'n \<Rightarrow> 'n auth" where
  "auth_static n = \<lparr> bslots = replicate SK_AUTH_BOND_SLOT_COUNT empty_bond,
     active_slot = SK_AUTH_BOND_SLOT_INVALID, active_key = replicate SK_AUTH_TOKEN_LEN 0,
     active_set = False, pairing_open = False, pair_timer = False, pending = pending_none, aflash = n \<rparr>"

definition pending_clear :: "'n auth \<Rightarrow> 'n auth" where
  "pending_clear a = a\<lparr>pending := pending_none\<rparr>"

section \<open>Tokens of the legacy layers\<close>

definition sk_auth__token_ptr :: "'n auth \<Rightarrow> u8 list option" where
  "sk_auth__token_ptr a =
     (if active_set a then Some (active_key a)
      else if occupied (bslots a ! 0) then Some (bond_key (bslots a ! 0)) else None)"

definition sk_auth__has_token :: "'n auth \<Rightarrow> bool" where
  "sk_auth__has_token a = (active_set a \<or> list_ex occupied (bslots a))"

section \<open>Flash records\<close>

definition le_bytes :: "i64 \<Rightarrow> u8 list" where
  "le_bytes w = map (\<lambda>i. ucast (drop_bit (8 * i) w)) [0..<8]"

fun le_word :: "u8 list \<Rightarrow> i64" where
  "le_word [] = 0"
| "le_word (b # bs) = ucast b OR push_bit 8 (le_word bs)"

definition slot_record_pack :: "bond_slot \<Rightarrow> u8 list" where
  "slot_record_pack s = peer_id s @ bond_key s @
     (bytes (label s) @ replicate (SK_AUTH_BOND_LABEL_MAX + 1 - length (label s)) 0) @
     le_bytes (paired_at_unix s)"

definition c_string :: "u8 list \<Rightarrow> string" where
  "c_string bs = map (\<lambda>b. char_of (unat b)) (takeWhile (\<lambda>b. b \<noteq> 0) bs)"

definition slot_record_unpack :: "u8 list \<Rightarrow> bond_slot" where
  "slot_record_unpack r =
     (let p = take SK_AUTH_PEER_ID_LEN r; r = drop SK_AUTH_PEER_ID_LEN r;
          k = take SK_AUTH_TOKEN_LEN r; r = drop SK_AUTH_TOKEN_LEN r;
          l = take SK_AUTH_BOND_LABEL_MAX r; r = drop (SK_AUTH_BOND_LABEL_MAX + 1) r
      in \<lparr> occupied = True, peer_id = p, bond_key = k, label = c_string l,
           paired_at_unix = le_word (take 8 r) \<rparr>)"

definition bond_nvs_key :: "nat \<Rightarrow> string" where
  "bond_nvs_key i = snprintf 16 (''bond.'' @ dec_nat i)"

definition slot_save :: "'n nvs_ops \<Rightarrow> nat \<Rightarrow> 'n auth \<Rightarrow> esp_err \<times> 'n auth" where
  "slot_save N slot a =
     (if slot \<ge> SK_AUTH_BOND_SLOT_COUNT then (ESP_ERR_INVALID_ARG, a)
      else if nv_open_rw N (aflash a) NVS_AUTH \<noteq> ESP_OK then (nv_open_rw N (aflash a) NVS_AUTH, a)
      else
        (case (if occupied (bslots a ! slot)
               then nv_set N (aflash a) NVS_AUTH (bond_nvs_key slot) (NvBlob (slot_record_pack (bslots a ! slot)))
               else (case nv_erase_key N (aflash a) NVS_AUTH (bond_nvs_key slot) of (err, n) \<Rightarrow>
                       (if err = ESP_ERR_NVS_NOT_FOUND then ESP_OK else err, n))) of
           (err, n) \<Rightarrow> (err, a\<lparr>aflash := (if err = ESP_OK then nv_commit N n NVS_AUTH else n)\<rparr>)))"

fun load_slots :: "'n nvs_ops \<Rightarrow> 'n \<Rightarrow> nat \<Rightarrow> bond_slot list \<Rightarrow> bond_slot list" where
  "load_slots N n i [] = []"
| "load_slots N n i (s # ss) =
     (case get_blob N n NVS_AUTH (bond_nvs_key i) of
        Some r \<Rightarrow> if length r = SLOT_RECORD_SIZE then slot_record_unpack r else s
      | None \<Rightarrow> s) # load_slots N n (i + 1) ss"

definition slot_load_all :: "'n nvs_ops \<Rightarrow> 'n auth \<Rightarrow> 'n auth" where
  "slot_load_all N a =
     (if nv_open_ro N (aflash a) NVS_AUTH \<noteq> ESP_OK then a
      else a\<lparr>bslots := load_slots N (aflash a) 0 (bslots a)\<rparr>)"

definition migrate_legacy_token :: "'n nvs_ops \<Rightarrow> 'n auth \<Rightarrow> 'n auth" where
  "migrate_legacy_token N a =
     (if nv_open_rw N (aflash a) NVS_AUTH \<noteq> ESP_OK then a
      else case get_blob N (aflash a) NVS_AUTH ''token'' of
        None \<Rightarrow> a
      | Some legacy \<Rightarrow>
          (if length legacy \<noteq> SK_AUTH_TOKEN_LEN then a
           else
             (let a = (if \<not> occupied (bslots a ! 0)
                       then a\<lparr>bslots := (bslots a)[0 := \<lparr> occupied = True,
                              peer_id = replicate SK_AUTH_PEER_ID_LEN 0, bond_key = legacy,
                              label = ''migrated'', paired_at_unix = 0 \<rparr>]\<rparr>
                       else a);
                  a = a\<lparr>aflash := nv_commit N (snd (nv_erase_key N (aflash a) NVS_AUTH ''token'')) NVS_AUTH\<rparr>
              in if occupied (bslots a ! 0) then snd (slot_save N 0 a) else a)))"

section \<open>Bonds\<close>

fun find_index :: "('a \<Rightarrow> bool) \<Rightarrow> 'a list \<Rightarrow> nat option" where
  "find_index P [] = None"
| "find_index P (x # xs) = (if P x then Some 0 else map_option Suc (find_index P xs))"

definition find_slot_by_peer :: "u8 list \<Rightarrow> 'n auth \<Rightarrow> nat option" where
  "find_slot_by_peer p a = find_index (\<lambda>s. occupied s \<and> peer_id s = p) (bslots a)"

definition find_first_free_slot :: "'n auth \<Rightarrow> nat option" where
  "find_first_free_slot a = find_index (\<lambda>s. \<not> occupied s) (bslots a)"

definition slot_payload :: "nat \<Rightarrow> string option" where
  "slot_payload i = Some (snprintf 64 (''{'' @ jk ''slot'' @ dec_nat i @ ''}''))"

definition sk_auth_bond_add :: "'n nvs_ops \<Rightarrow> int \<Rightarrow> u8 list \<Rightarrow> u8 list \<Rightarrow> string option \<Rightarrow> 'n auth \<Rightarrow>
    esp_err \<times> nat option \<times> 'n auth \<times> eff list" where
  "sk_auth_bond_add N now_wall peer key lab a =
     (case or_else (find_slot_by_peer peer a) (find_first_free_slot a) of
        None \<Rightarrow> (ESP_ERR_NO_MEM, None, a, [])
      | Some slot \<Rightarrow>
          (let a = a\<lparr>bslots := (bslots a)[slot := \<lparr> occupied = True, peer_id = peer, bond_key = key,
                 label = (case lab of Some l \<Rightarrow> take SK_AUTH_BOND_LABEL_MAX l | None \<Rightarrow> []),
                 paired_at_unix = word_of_int now_wall \<rparr>]\<rparr>
           in case slot_save N slot a of (err, a) \<Rightarrow>
                if err = ESP_OK then (ESP_OK, Some slot, a, [Publish ''auth.bond.added'' (slot_payload slot)])
                else (err, None, a, [])))"

definition sk_auth_active_bond_clear :: "'n auth \<Rightarrow> 'n auth" where
  "sk_auth_active_bond_clear a = a\<lparr>active_set := False, active_slot := SK_AUTH_BOND_SLOT_INVALID,
     active_key := replicate SK_AUTH_TOKEN_LEN 0\<rparr>"

definition sk_auth_bond_remove :: "'n nvs_ops \<Rightarrow> nat \<Rightarrow> 'n auth \<Rightarrow> esp_err \<times> 'n auth \<times> eff list" where
  "sk_auth_bond_remove N slot a =
     (if slot \<ge> SK_AUTH_BOND_SLOT_COUNT then (ESP_ERR_INVALID_ARG, a, [])
      else if \<not> occupied (bslots a ! slot) then (ESP_ERR_NOT_FOUND, a, [])
      else
        (let a = a\<lparr>bslots := (bslots a)[slot := empty_bond]\<rparr>;
             a = (if active_slot a = slot then sk_auth_active_bond_clear a else a)
         in case slot_save N slot a of (err, a) \<Rightarrow>
              (err, a, if err = ESP_OK then [Publish ''auth.bond.removed'' (slot_payload slot)] else [])))"

definition sk_auth_bond_list :: "'n auth \<Rightarrow> (nat \<times> bond_slot) list" where
  "sk_auth_bond_list a = filter (\<lambda>(i, s). occupied s) (zip [0..<SK_AUTH_BOND_SLOT_COUNT] (bslots a))"

definition sk_auth_bond_lookup :: "u8 list \<Rightarrow> 'n auth \<Rightarrow> esp_err \<times> (u8 list \<times> nat) option" where
  "sk_auth_bond_lookup peer a =
     (case find_slot_by_peer peer a of None \<Rightarrow> (ESP_ERR_NOT_FOUND, None)
      | Some slot \<Rightarrow> (ESP_OK, Some (bond_key (bslots a ! slot), slot)))"

definition sk_auth_bond_count :: "'n auth \<Rightarrow> nat" where
  "sk_auth_bond_count a = length (filter occupied (bslots a))"

definition sk_auth_has_bond :: "'n auth \<Rightarrow> bool" where
  "sk_auth_has_bond a = (sk_auth_bond_count a > 0)"

definition sk_auth_active_bond_key :: "'n auth \<Rightarrow> u8 list option" where
  "sk_auth_active_bond_key a = (if active_set a then Some (active_key a) else None)"

definition sk_auth__activate_slot :: "nat \<Rightarrow> 'n auth \<Rightarrow> 'n auth" where
  "sk_auth__activate_slot slot a =
     (if slot \<ge> SK_AUTH_BOND_SLOT_COUNT \<or> \<not> occupied (bslots a ! slot) then a
      else a\<lparr>active_key := bond_key (bslots a ! slot), active_set := True, active_slot := slot\<rparr>)"

definition sk_auth__slot_get_key :: "nat \<Rightarrow> 'n auth \<Rightarrow> u8 list option" where
  "sk_auth__slot_get_key slot a =
     (if slot \<ge> SK_AUTH_BOND_SLOT_COUNT \<or> \<not> occupied (bslots a ! slot) then None
      else Some (bond_key (bslots a ! slot)))"

definition sk_auth__install_token :: "'n nvs_ops \<Rightarrow> int \<Rightarrow> u8 list \<Rightarrow> 'n auth \<Rightarrow> esp_err \<times> 'n auth \<times> eff list" where
  "sk_auth__install_token N now_wall token a =
     (case sk_auth_bond_add N now_wall (replicate SK_AUTH_PEER_ID_LEN 0) token (Some ''legacy-pairing'') a of
        (err, slot, a, e) \<Rightarrow>
          (err, a, e @ (if err = ESP_OK then [Publish ''auth.token.installed'' None] else [])))"

definition sk_auth_clear_all :: "'n nvs_ops \<Rightarrow> 'n auth \<Rightarrow> 'n auth \<times> eff list" where
  "sk_auth_clear_all N a =
     (let a = a\<lparr>bslots := replicate SK_AUTH_BOND_SLOT_COUNT empty_bond\<rparr>;
          a = pending_clear (sk_auth_active_bond_clear a);
          a = a\<lparr>aflash := (if nv_open_rw N (aflash a) NVS_AUTH = ESP_OK
                 then nv_commit N (nv_erase_all N (aflash a) NVS_AUTH) NVS_AUTH else aflash a)\<rparr>
      in (a, [Publish ''auth.bond.revoked'' (Some (''{'' @ jk ''reason'' @ jq ''clear'' @ ''}''))]))"

definition sk_auth_rotate_token :: "'n nvs_ops \<Rightarrow> u8 list \<Rightarrow> 'n auth \<Rightarrow> esp_err \<times> 'n auth \<times> eff list" where
  "sk_auth_rotate_token N fresh a =
     (let target = (if active_set a then active_slot a else 0) in
      if target \<ge> SK_AUTH_BOND_SLOT_COUNT \<or> \<not> occupied (bslots a ! target) then (ESP_ERR_INVALID_STATE, a, [])
      else
        (let a = a\<lparr>bslots := (bslots a)[target := (bslots a ! target)\<lparr>bond_key := fresh\<rparr>]\<rparr>;
             a = (if active_set a \<and> active_slot a = target then a\<lparr>active_key := fresh\<rparr> else a)
         in case slot_save N target a of (err, a) \<Rightarrow>
              (err, a, if err = ESP_OK then [Publish ''auth.token.rotated'' None] else [])))"

section \<open>Pairing window\<close>

definition open_payload :: "nat \<Rightarrow> string option" where
  "open_payload t = Some (snprintf 48 (''{'' @ jk ''timeout_sec'' @ dec_nat t @ ''}''))"

text \<open>\<open>timer_res\<close>: the result of \<open>esp_timer_create\<close>, asked for when there is no timer yet.\<close>

definition sk_auth_open_pairing_mode :: "esp_err \<Rightarrow> nat \<Rightarrow> 'n auth \<Rightarrow> esp_err \<times> 'n auth \<times> eff list" where
  "sk_auth_open_pairing_mode timer_res timeout_sec a =
     (if pairing_open a then (ESP_ERR_INVALID_STATE, a, [])
      else
        (let t = (if timeout_sec = 0 then 60 else timeout_sec) in
         if \<not> pair_timer a \<and> timer_res \<noteq> ESP_OK then (timer_res, a, [])
         else (ESP_OK, a\<lparr>pair_timer := True, pairing_open := True\<rparr>,
               [Publish ''pairing.mode.open'' (open_payload t)])))"

definition sk_auth_close_pairing_mode :: "string \<Rightarrow> 'n auth \<Rightarrow> 'n auth \<times> eff list" where
  "sk_auth_close_pairing_mode reason a =
     (if \<not> pairing_open a then (a, [])
      else (pending_clear (a\<lparr>pairing_open := False\<rparr>),
        [Publish ''pairing.mode.close'' (Some (snprintf 64 (''{'' @ jk ''reason'' @ jq reason @ ''}'')))]))"

definition pair_timeout_cb :: "'n auth \<Rightarrow> 'n auth \<times> eff list" where
  "pair_timeout_cb a = sk_auth_close_pairing_mode ''timeout'' a"

definition on_control_short_press :: "esp_err \<Rightarrow> 'n auth \<Rightarrow> 'n auth \<times> eff list" where
  "on_control_short_press timer_res a =
     (if pairing_open a then (a, []) else snd (sk_auth_open_pairing_mode timer_res 60 a))"

definition auth_factory_reset :: "'n nvs_ops \<Rightarrow> 'n auth \<Rightarrow> 'n auth \<times> eff list" where
  "auth_factory_reset N a = sk_auth_clear_all N a"

definition sk_auth_init :: "'n nvs_ops \<Rightarrow> esp_err \<Rightarrow> 'n \<Rightarrow> 'n auth \<times> eff list" where
  "sk_auth_init N timer_res n =
     (let a = migrate_legacy_token N (slot_load_all N (auth_static n))
      in if sk_auth_has_bond a then (a, []) else snd (sk_auth_open_pairing_mode timer_res 60 a))"

end
