(* ===== verification/SkBle.thy ===== *)
theory SkBle
  imports SkAuth
begin

text \<open>
  The Bluetooth transport, \<open>sk_core/src/sk_transport_ble.c\<close>, and of \<open>sk_transport_ble_gatt.c\<close> the connection state,
  the writer and the assembly of lines: advertising, the callbacks of the stack, the two timers, the subscriptions and the
  command \<open>ble.status\<close>. The NimBLE stack is not part of the repository: what the code asks of it is kept as
  \<open>b_calls\<close>, and \<open>b_stack\<close> gives its answer to the last of the calls made so far.
\<close>

section \<open>State\<close>

definition SK_BLE_IDLE_TIMEOUT_US :: int where "SK_BLE_IDLE_TIMEOUT_US = 60 * 1000 * 1000"
definition SK_BLE_PEER_IDLE_US :: int where "SK_BLE_PEER_IDLE_US = 10 * 60 * 1000 * 1000"
definition SK_BLE_NO_CONN :: nat where "SK_BLE_NO_CONN = 0xFFFF"
definition RX_LINE_CAP :: nat where "RX_LINE_CAP = 8192"
definition BLE_HS_EALREADY :: int where "BLE_HS_EALREADY = 2"
definition BLE_HS_ENOMEM :: int where "BLE_HS_ENOMEM = 6"

datatype skbt_conn_mode = SKBT_CONN_IDLE | SKBT_CONN_NORMAL | SKBT_CONN_PAIRING

datatype ble_call =
    AdvSetFields string bool    \<comment> \<open>the name, and whether the flag is \<open>par\<close> or \<open>bnd\<close>\<close>
  | AdvStart | AdvStop
  | GapTerminate nat
  | StoreClear
  | NotifyCustom string

record ble =
  b_id :: string
  b_initialized :: bool
  b_radio_active :: bool
  b_conn :: nat
  b_activity_us :: int
  b_idle_timer :: "int option"    \<comment> \<open>the end of a started \<open>s_idle_timer\<close>\<close>
  b_peer_check :: bool            \<comment> \<open>\<open>s_peer_check_t\<close> is active\<close>
  g_conn :: nat
  g_mode :: skbt_conn_mode
  g_authed :: bool                \<comment> \<open>\<open>sk_secure_session_authed\<close>\<close>
  g_hint_sent :: bool
  g_mtu :: nat
  g_rx :: string
  b_calls :: "ble_call list"
  b_stack :: "ble_call list \<Rightarrow> int"

definition ble_static :: "string \<Rightarrow> (ble_call list \<Rightarrow> int) \<Rightarrow> ble" where
  "ble_static name stack = \<lparr> b_id = name, b_initialized = False, b_radio_active = False, b_conn = SK_BLE_NO_CONN,
     b_activity_us = 0, b_idle_timer = None, b_peer_check = False, g_conn = SK_BLE_NO_CONN, g_mode = SKBT_CONN_IDLE,
     g_authed = False, g_hint_sent = False, g_mtu = 23, g_rx = [], b_calls = [], b_stack = stack \<rparr>"

definition ble_call :: "ble_call \<Rightarrow> ble \<Rightarrow> int \<times> ble" where
  "ble_call c b = (b_stack b (b_calls b @ [c]), b\<lparr>b_calls := b_calls b @ [c]\<rparr>)"

definition ble_tell :: "ble_call \<Rightarrow> ble \<Rightarrow> ble" where
  "ble_tell c b = snd (ble_call c b)"

definition ble_state_event :: "string \<Rightarrow> eff" where
  "ble_state_event s = Publish ''ble.state'' (Some (''{'' @ jk ''state'' @ jq s @ ''}''))"

section \<open>The writer\<close>

definition skbt_gatt_set_mtu :: "nat \<Rightarrow> ble \<Rightarrow> ble" where
  "skbt_gatt_set_mtu mtu b = b\<lparr>g_mtu := (if mtu < 23 then 23 else mtu)\<rparr>"

definition skbt_gatt_is_connected :: "ble \<Rightarrow> bool" where
  "skbt_gatt_is_connected b = (g_conn b \<noteq> SK_BLE_NO_CONN)"

definition skbt_gatt_is_authenticated :: "ble \<Rightarrow> bool" where
  "skbt_gatt_is_authenticated b = (g_mode b = SKBT_CONN_NORMAL \<and> g_authed b)"

text \<open>
  The attempts for one chunk. A buffer pool that is empty is the answer \<open>BLE_HS_ENOMEM\<close> as well: the code waits 10 ms
  and tries again in both cases.
\<close>

primrec notify_attempts :: "nat \<Rightarrow> string \<Rightarrow> ble \<Rightarrow> int \<times> ble" where
  "notify_attempts 0 chunk b = (BLE_HS_ENOMEM, b)"
| "notify_attempts (Suc n) chunk b =
     (case ble_call (NotifyCustom chunk) b of (rc, b) \<Rightarrow>
        if rc \<noteq> BLE_HS_ENOMEM then (rc, b) else notify_attempts n chunk b)"

definition max_payload :: "ble \<Rightarrow> nat" where
  "max_payload b = (if g_mtu b > 3 then g_mtu b - 3 else 20)"

text \<open>The chunks of a text, \<open>max_payload\<close> characters each.\<close>

function mtu_chunks :: "nat \<Rightarrow> string \<Rightarrow> string list" where
  "mtu_chunks m s = (if s = [] \<or> m = 0 then [] else take m s # mtu_chunks m (drop m s))"
  by pat_completeness auto
termination by (relation "measure (\<lambda>(m, s). length s)") auto

declare mtu_chunks.simps [simp del]

fun write_chunks :: "string list \<Rightarrow> ble \<Rightarrow> ble" where
  "write_chunks [] b = b"
| "write_chunks (c # cs) b =
     (case notify_attempts 60 c b of (rc, b) \<Rightarrow> if rc \<noteq> 0 then b else write_chunks cs b)"

definition ble_writer :: "string \<Rightarrow> ble \<Rightarrow> ble" where
  "ble_writer s b =
     (if g_conn b = SK_BLE_NO_CONN \<or> s = [] then b else write_chunks (mtu_chunks (max_payload b) s) b)"

section \<open>The assembly of lines\<close>

text \<open>One received character: the buffer and the line that is complete with it.\<close>

definition feed_char :: "char \<Rightarrow> string \<Rightarrow> string \<times> string list" where
  "feed_char c rx =
     (if c = CHR 10 \<or> c = CHR 13 then ([], if rx = [] then [] else [rx])
      else if length rx < RX_LINE_CAP - 1 then (rx @ [c], [])
      else ([], []))"

fun feed_rx :: "string \<Rightarrow> string \<Rightarrow> string \<times> string list" where
  "feed_rx [] rx = (rx, [])"
| "feed_rx (c # cs) rx =
     (case feed_char c rx of (rx, ls) \<Rightarrow> case feed_rx cs rx of (rx, ls') \<Rightarrow> (rx, ls @ ls'))"

section \<open>Advertising\<close>

definition start_advertising :: "bool \<Rightarrow> ble \<Rightarrow> ble \<times> eff list" where
  "start_advertising pairable b =
     (case ble_call (AdvSetFields (b_id b) pairable) b of (rc, b) \<Rightarrow>
        if rc \<noteq> 0 then (b, [])
        else
          (case ble_call AdvStart b of (rc, b) \<Rightarrow>
             if rc \<noteq> 0 \<and> rc \<noteq> BLE_HS_EALREADY then (b, [])
             else (b\<lparr>b_radio_active := True\<rparr>,
                   if b_conn b = SK_BLE_NO_CONN then [ble_state_event ''advertising''] else [])))"

definition sk_transport_ble_start :: "bool \<Rightarrow> ble \<Rightarrow> esp_err \<times> ble \<times> eff list" where
  "sk_transport_ble_start pairable b =
     (if b_radio_active b then (ESP_OK, b, [])
      else if \<not> b_initialized b then (ESP_ERR_INVALID_STATE, b, [])
      else (ESP_OK, start_advertising pairable b))"

definition sk_transport_ble_stop :: "ble \<Rightarrow> ble \<times> eff list" where
  "sk_transport_ble_stop b =
     (if \<not> b_radio_active b then (b, [])
      else ((ble_tell AdvStop b)\<lparr>b_radio_active := False, b_idle_timer := None\<rparr>, [ble_state_event ''off'']))"

section \<open>Connections\<close>

definition skbt_gatt_on_connect :: "bool \<Rightarrow> bool \<Rightarrow> nat \<Rightarrow> ble \<Rightarrow> ble" where
  "skbt_gatt_on_connect has_bond pairable h b =
     (let b = b\<lparr>g_conn := h, g_rx := [], g_hint_sent := False, g_authed := False\<rparr> in
      if has_bond then b\<lparr>g_mode := SKBT_CONN_NORMAL\<rparr>
      else if pairable then b\<lparr>g_mode := SKBT_CONN_PAIRING\<rparr>
      else ble_tell (GapTerminate h) b)"

definition skbt_gatt_on_disconnect :: "ble \<Rightarrow> ble" where
  "skbt_gatt_on_disconnect b = b\<lparr>g_conn := SK_BLE_NO_CONN, g_mode := SKBT_CONN_IDLE, g_rx := [], g_mtu := 23,
     g_hint_sent := False, g_authed := False\<rparr>"

definition pairing_hint :: string where
  "pairing_hint = ''{'' @ jk ''evt'' @ jq ''pairing.required'' @ '','' @ jk ''data'' @ ''{'' @ jk ''reason'' @ jq ''no_bond'' @ ''}}'' @ [CHR 10]"

text \<open>\<open>begin\<close> is the result of \<open>sk_secure_session_begin\<close>, which writes the challenge (theory \<open>SkSession\<close>).\<close>

definition skbt_gatt_on_subscribe :: "esp_err \<Rightarrow> ble \<Rightarrow> ble" where
  "skbt_gatt_on_subscribe session_begin b =
     (case g_mode b of
        SKBT_CONN_PAIRING \<Rightarrow> (if g_hint_sent b then b else (ble_writer pairing_hint b)\<lparr>g_hint_sent := True\<rparr>)
      | SKBT_CONN_IDLE \<Rightarrow> b
      | SKBT_CONN_NORMAL \<Rightarrow>
          (if g_authed b \<or> session_begin = ESP_OK then b else ble_tell (GapTerminate (g_conn b)) b))"

datatype gap_event =
    GapConnect int nat              \<comment> \<open>status, handle\<close>
  | GapDisconnect
  | GapNotifyTx
  | GapSubscribe bool esp_err       \<comment> \<open>\<open>cur_notify\<close>, the result of the session's start\<close>
  | GapOther

definition gap_event_cb :: "int \<Rightarrow> bool \<Rightarrow> bool \<Rightarrow> gap_event \<Rightarrow> ble \<Rightarrow> ble \<times> eff list" where
  "gap_event_cb now has_bond pairable ev b =
     (case ev of
        GapConnect status h \<Rightarrow>
          (if status = 0
           then (skbt_gatt_on_connect has_bond pairable h
                   (b\<lparr>b_idle_timer := None, b_conn := h, b_activity_us := now, b_peer_check := True\<rparr>),
                 [ble_state_event ''connected''])
           else start_advertising pairable b)
      | GapDisconnect \<Rightarrow>
          (case start_advertising pairable (skbt_gatt_on_disconnect (b\<lparr>b_conn := SK_BLE_NO_CONN, b_peer_check := False\<rparr>)) of
             (b, es) \<Rightarrow>
               (b\<lparr>b_idle_timer := (case b_idle_timer b of None \<Rightarrow> Some (now + SK_BLE_IDLE_TIMEOUT_US) | Some t \<Rightarrow> Some t)\<rparr>, es))
      | GapNotifyTx \<Rightarrow> (b\<lparr>b_activity_us := now\<rparr>, [])
      | GapSubscribe cur_notify r \<Rightarrow>
          (let b = b\<lparr>b_activity_us := now\<rparr> in (if cur_notify then skbt_gatt_on_subscribe r b else b, []))
      | GapOther \<Rightarrow> (b, []))"

section \<open>Timers\<close>

text \<open>The one-shot timer is over when its callback runs.\<close>

definition idle_timer_cb :: "bool \<Rightarrow> bool \<Rightarrow> ble \<Rightarrow> ble \<times> eff list" where
  "idle_timer_cb has_bond pairable b =
     (let b = b\<lparr>b_idle_timer := None\<rparr> in
      if skbt_gatt_is_connected b \<or> has_bond \<or> pairable then (b, []) else sk_transport_ble_stop b)"

definition peer_idle_check_cb :: "int \<Rightarrow> ble \<Rightarrow> ble" where
  "peer_idle_check_cb now b =
     (if b_conn b = SK_BLE_NO_CONN \<or> now - b_activity_us b < SK_BLE_PEER_IDLE_US then b
      else ble_tell (GapTerminate (b_conn b)) b)"

section \<open>Subscriptions\<close>

definition on_terminate_before_wifi :: "ble \<Rightarrow> ble" where
  "on_terminate_before_wifi b =
     (let b = (if skbt_gatt_is_connected b then ble_tell (GapTerminate (b_conn b)) b else b)
      in if b_radio_active b then (ble_tell AdvStop b)\<lparr>b_radio_active := False\<rparr> else b)"

definition on_resume_after_wifi :: "bool \<Rightarrow> ble \<Rightarrow> ble \<times> eff list" where
  "on_resume_after_wifi pairable b = (if b_radio_active b then (b, []) else start_advertising pairable b)"

definition pairing_event_handler :: "bool \<Rightarrow> bool \<Rightarrow> string \<Rightarrow> string option \<Rightarrow> ble \<Rightarrow> ble \<times> eff list" where
  "pairing_event_handler has_bond pairable name payload b =
     (if name = ''pairing.mode.close'' \<and> (case payload of None \<Rightarrow> False | Some p \<Rightarrow> strstr p (jk ''reason'' @ jq ''timeout'')) \<and>
         \<not> skbt_gatt_is_connected b
      then (if has_bond then start_advertising pairable (if b_radio_active b then ble_tell AdvStop b else b)
            else sk_transport_ble_stop b)
      else start_advertising pairable (if b_radio_active b then ble_tell AdvStop b else b))"

definition on_bond_revoked :: "ble \<Rightarrow> ble" where
  "on_bond_revoked b =
     ble_tell StoreClear (if b_conn b \<noteq> SK_BLE_NO_CONN then ble_tell (GapTerminate (b_conn b)) b else b)"

definition notify_line :: "string \<Rightarrow> u32 \<Rightarrow> string option \<Rightarrow> string" where
  "notify_line name sq payload =
     ''{'' @ jk ''evt'' @ jq name @ '','' @ jk ''seq'' @ dec_nat (unat sq) @
     (case payload of None \<Rightarrow> [] | Some p \<Rightarrow> '','' @ jk ''data'' @ p) @ ''}'' @ [CHR 10]"

text \<open>
  The line is formatted into 512 bytes, and the length the code passes on is that of the whole line: it is written as it is
  when it fits. A longer line makes the writer read behind the buffer; of that the model keeps what the buffer holds.
\<close>

definition any_event_handler :: "string \<Rightarrow> u32 \<Rightarrow> string option \<Rightarrow> ble \<Rightarrow> ble" where
  "any_event_handler name sq payload b =
     (if take 5 name = ''auth.'' \<or> \<not> skbt_gatt_is_authenticated b then b
      else ble_writer (snprintf 512 (notify_line name sq payload)) b)"

definition cmd_ble_status :: "ble \<Rightarrow> string" where
  "cmd_ble_status b = snprintf 160
     (''{'' @ jk ''name'' @ jq (b_id b) @ '','' @ jk ''radio'' @ jq (if b_radio_active b then ''advertising'' else ''off'') @ '','' @
      jk ''peer'' @ jq (if b_conn b \<noteq> SK_BLE_NO_CONN then ''connected'' else ''none'') @ '','' @
      jk ''conn_handle'' @ dec_nat (b_conn b) @ ''}'')"

section \<open>What the transport publishes\<close>

definition ble_state_only :: "eff list \<Rightarrow> bool" where
  "ble_state_only es = list_all (\<lambda>e. case e of Publish n p \<Rightarrow> n = ''ble.state'' | _ \<Rightarrow> False) es"

lemma ble_state_only_simps [simp]:
  "ble_state_only []" "ble_state_only [ble_state_event s]"
  by (simp_all add: ble_state_only_def ble_state_event_def)

lemma advertising_publishes: "ble_state_only (snd (start_advertising p b))"
  by (simp add: start_advertising_def case_prod_beta)

lemma ble_hooks_publish:
  "ble_state_only (snd (on_resume_after_wifi p b))" "ble_state_only (snd (pairing_event_handler h p n pl b))"
  "ble_state_only (snd (sk_transport_ble_stop b))" "ble_state_only (snd (gap_event_cb now h p ev b))"
  "ble_state_only (snd (idle_timer_cb h p b))"
  by (simp_all add: on_resume_after_wifi_def pairing_event_handler_def sk_transport_ble_stop_def advertising_publishes
      gap_event_cb_def idle_timer_cb_def case_prod_beta Let_def split: gap_event.split)

text \<open>With a stack that accepts every chunk the whole text is written.\<close>

lemma chunks_concat: "0 < m \<Longrightarrow> concat (mtu_chunks m s) = s"
  by (induction m s rule: mtu_chunks.induct) (subst mtu_chunks.simps, simp)

lemma ble_writer_whole:
  assumes "\<And>cs c. b_stack b (cs @ [NotifyCustom c]) = 0" "g_conn b \<noteq> SK_BLE_NO_CONN"
  shows "\<exists>chunks. b_calls (ble_writer s b) = b_calls b @ map NotifyCustom chunks \<and> concat chunks = s"
proof -
  have w: "b_calls (write_chunks cs b') = b_calls b' @ map NotifyCustom cs" if "b_stack b' = b_stack b" for cs and b' :: ble
    using that
  proof (induction cs arbitrary: b')
    case (Cons c cs)
    have "notify_attempts 60 c b' = (0, b'\<lparr>b_calls := b_calls b' @ [NotifyCustom c]\<rparr>)"
      using Cons.prems assms(1) by (simp add: numeral_eq_Suc ble_call_def BLE_HS_ENOMEM_def)
    then show ?case using Cons by simp
  qed simp
  have "0 < max_payload b" by (simp add: max_payload_def)
  then show ?thesis
  proof (cases "s = []")
    case True
    then show ?thesis by (intro exI [of _ "[]"]) (simp add: ble_writer_def)
  next
    case False
    with \<open>0 < max_payload b\<close> show ?thesis
      by (intro exI [of _ "mtu_chunks (max_payload b) s"]) (simp add: ble_writer_def assms(2) w chunks_concat)
  qed
qed

end
