(* ===== verification/SkMdns.thy ===== *)
theory SkMdns
  imports LSPrelude
begin

text \<open>
  The announcement of the device on the local network, \<open>sk_core/src/sk_mdns.c\<close>. The answer of
  \<open>mdns_service_add\<close>, a call of a third-party component, to each call is the field \<open>md_answer\<close>.
\<close>

record mdns =
  md_id :: string
  md_port :: u16
  md_fw :: string
  md_announced :: bool
  md_calls :: nat
  md_answer :: "nat \<Rightarrow> bool"      \<comment> \<open>the \<open>n\<close>-th call is answered with \<open>ESP_OK\<close>\<close>

definition mdns_static :: "string \<Rightarrow> (nat \<Rightarrow> bool) \<Rightarrow> mdns" where
  "mdns_static name answer = \<lparr> md_id = name, md_port = 8080, md_fw = ''0.0.0'', md_announced = False, md_calls = 0, md_answer = answer \<rparr>"

definition announce :: "mdns \<Rightarrow> mdns \<times> eff list" where
  "announce m =
     (if md_announced m then (m, [])
      else if \<not> md_answer m (md_calls m) then (m\<lparr>md_calls := md_calls m + 1\<rparr>, [])
      else (m\<lparr>md_calls := md_calls m + 1, md_announced := True\<rparr>,
            [Publish ''mdns.announced'' (Some (snprintf 96
               (''{'' @ jk ''hostname'' @ jq (md_id m) @ '','' @ jk ''service'' @ jq ''_skapp._tcp'' @ '','' @
                jk ''port'' @ dec_nat (unat (md_port m)) @ ''}'')))]))"

definition mdns_on_wifi :: "string option \<Rightarrow> mdns \<Rightarrow> mdns \<times> eff list" where
  "mdns_on_wifi payload m =
     (case payload of None \<Rightarrow> (m, [])
      | Some p \<Rightarrow> if strstr p (jk ''state'' @ jq ''connected'') then announce m else (m, []))"

definition sk_mdns_init :: "u16 \<Rightarrow> string option \<Rightarrow> mdns \<Rightarrow> mdns" where
  "sk_mdns_init port fw m =
     (let m = (if port \<noteq> 0 then m\<lparr>md_port := port\<rparr> else m)
      in case fw of None \<Rightarrow> m | Some v \<Rightarrow> m\<lparr>md_fw := take 15 v\<rparr>)"

text \<open>The service is announced once.\<close>

lemma announced_once:
  "md_announced (fst (announce m)) \<Longrightarrow> announce (fst (announce m)) = (fst (announce m), [])"
  by (simp add: announce_def split: if_splits)

lemma mdns_publishes:
  "list_all (\<lambda>e. case e of Publish n p \<Rightarrow> n = ''mdns.announced'' | _ \<Rightarrow> False) (snd (mdns_on_wifi p m))"
  by (simp add: mdns_on_wifi_def announce_def split: option.split)

end
