(* ===== verification/LsSystem.thy ===== *)
theory LsSystem
  imports SkEventBus LsTimer LsRelay LsMailGroups LsReminder LsResetApi SkControl SkBle SkMdns
begin

text \<open>
  The firmware as a whole, as \<open>main.c\<close> puts it together: the subscriptions of all components to the event bus in the
  order of the start-up, the hooks of countdown, relay, mail groups and reminder behind it with their queues, every
  hook that publishes in turn (bonds and pairing, button gestures, Bluetooth, mDNS) with the state it does so from, the
  HTTP reset endpoint, the tasks that send commands to the countdown, and the countdown task. The tasks are interleaved
  in any order. The other hooks publish nothing: they are recorded with their event, and what they do is in the
  theories of their components.
\<close>

section \<open>Subscriptions\<close>

datatype hook =
    BaselineWifiIp | BaselineReset | ControlReleased | ControlMultiTap
  | AuthShortPress | AuthReset | PassphraseReset | ButtonPower | WifiReset | MdnsWifi
  | BlePairing | BleRevoked | BleTerminate | BleResume | BleAny | TcpWifi
  | ApiReset | ApiAlarm | ApiTriggered
  | TimerResetRequested | TimerReset | RelayTriggered | RelayReset | SmtpReset
  | ReminderAlarm | ReminderReset | GroupsTriggered | GroupsReset | ResetApiReset

text \<open>The subscriptions of \<open>sk_core_init\<close> and of every \<open>_init\<close> call of \<open>app_main\<close>, in their order.\<close>

definition boot_subscriptions :: "(string \<times> hook) list" where
  "boot_subscriptions =
     [(''wifi.ip.acquired'', BaselineWifiIp), (''device.factory-reset.requested'', BaselineReset),
      (''button.released'', ControlReleased), (''button.multi-tap'', ControlMultiTap),
      (''control.short-press'', AuthShortPress), (''device.factory-reset.requested'', AuthReset),
      (''device.factory-reset.requested'', PassphraseReset),
      (''power.state'', ButtonPower),
      (''device.factory-reset.requested'', WifiReset),
      (''wifi.state'', MdnsWifi),
      (''pairing.*'', BlePairing), (''auth.bond.revoked'', BleRevoked), (''ble.terminate.before-wifi'', BleTerminate),
      (''ble.resume.after-wifi'', BleResume), (''*'', BleAny),
      (''wifi.state'', TcpWifi),
      (''device.factory-reset.requested'', ApiReset), (''timer.alarm'', ApiAlarm), (''timer.triggered'', ApiTriggered),
      (''timer.reset.requested'', TimerResetRequested), (''device.factory-reset.requested'', TimerReset),
      (''timer.triggered'', RelayTriggered), (''device.factory-reset.requested'', RelayReset),
      (''device.factory-reset.requested'', SmtpReset),
      (''timer.alarm'', ReminderAlarm), (''device.factory-reset.requested'', ReminderReset),
      (''timer.triggered'', GroupsTriggered), (''device.factory-reset.requested'', GroupsReset),
      (''device.factory-reset.requested'', ResetApiReset)]"

section \<open>The device\<close>

text \<open>
  The components have NVS namespaces of their own, so each carries its view of the flash. \<open>d_timer_wait\<close> holds the
  commands of tasks that wait for room in the queue of the countdown, \<open>d_timer_create\<close> the answer of
  \<open>esp_timer_create\<close>; \<open>d_restart\<close> is set once \<open>esp_restart\<close> has been called. \<open>d_called\<close> is the record of
  the calls of the bus, \<open>d_http\<close> of the answers of the endpoint, \<open>d_lost\<close> of events that were nested too deeply.
\<close>

record 'n device =
  d_bus :: "hook bus"
  d_timer :: "'n timer"
  d_timer_q :: "evt list"
  d_timer_wait :: "evt list"
  d_relay :: "'n relay"
  d_relay_q :: "relay_evt list"
  d_groups :: "'n groups"
  d_reminder :: "'n reminder"
  d_rapi :: "'n reset_api"
  d_auth :: "'n auth"
  d_timer_create :: esp_err
  d_ble :: ble
  d_mdns :: mdns
  d_restart :: bool
  d_called :: "(hook \<times> event) list"
  d_http :: "http_resp list"
  d_pins :: "eff list"
  d_lost :: "eff list"

definition TIMER_QUEUE_LEN :: nat where "TIMER_QUEUE_LEN = 16"
definition RELAY_QUEUE_LEN :: nat where "RELAY_QUEUE_LEN = 2"

text \<open>\<open>xQueueSend(q, &e, 0)\<close>: an event for a full queue is dropped.\<close>

definition post :: "nat \<Rightarrow> 'e \<Rightarrow> 'e list \<Rightarrow> 'e list" where
  "post len e qu = (if length qu < len then qu @ [e] else qu)"

text \<open>
  The hooks: the new device and what they publish in turn. \<open>now\<close> is the instant. The button hooks sleep a moment and
  call \<open>esp_restart\<close> after their publication.
\<close>

definition then_restart :: "eff list \<times> nat option \<Rightarrow> eff list" where
  "then_restart r = fst r @ (case snd r of None \<Rightarrow> [] | Some ms \<Rightarrow> [Restart])"

definition with_ble :: "'n device \<Rightarrow> ble \<times> eff list \<Rightarrow> 'n device \<times> eff list" where
  "with_ble D r = (D\<lparr>d_ble := fst r\<rparr>, snd r)"

definition with_auth :: "'n device \<Rightarrow> 'n auth \<times> eff list \<Rightarrow> 'n device \<times> eff list" where
  "with_auth D r = (D\<lparr>d_auth := fst r\<rparr>, snd r)"

definition hook_effect :: "'n nvs_ops \<Rightarrow> clock \<Rightarrow> hook \<Rightarrow> event \<Rightarrow> 'n device \<Rightarrow> 'n device \<times> eff list" where
  "hook_effect N now h ev D =
     (case h of
        TimerResetRequested \<Rightarrow> (D\<lparr>d_timer_q := post TIMER_QUEUE_LEN (on_reset_requested (evt_payload ev)) (d_timer_q D)\<rparr>, [])
      | RelayTriggered \<Rightarrow> (D\<lparr>d_relay_q := (case on_timer_triggered (d_relay D) of None \<Rightarrow> d_relay_q D
          | Some e \<Rightarrow> post RELAY_QUEUE_LEN e (d_relay_q D))\<rparr>, [])
      | GroupsTriggered \<Rightarrow> (D\<lparr>d_groups := groups_on_triggered (d_groups D)\<rparr>, [])
      | ReminderAlarm \<Rightarrow> (D\<lparr>d_reminder := on_timer_alarm (evt_payload ev) (d_reminder D)\<rparr>, [])
      | TimerReset \<Rightarrow> (case timer_factory_reset N now (d_timer D) of (t, es) \<Rightarrow> (D\<lparr>d_timer := t\<rparr>, es))
      | GroupsReset \<Rightarrow> (D\<lparr>d_groups := groups_factory_reset N (d_groups D)\<rparr>, [])
      | ReminderReset \<Rightarrow> (D\<lparr>d_reminder := rem_factory_reset N (d_reminder D)\<rparr>, [])
      | RelayReset \<Rightarrow> (case relay_factory_reset N (d_relay D) of (r, es) \<Rightarrow> (D\<lparr>d_relay := r\<rparr>, es))
      | ControlReleased \<Rightarrow> (D, then_restart (on_button_released (evt_payload ev)))
      | ControlMultiTap \<Rightarrow> (D, then_restart (on_button_multi_tap (evt_payload ev)))
      | AuthShortPress \<Rightarrow> with_auth D (on_control_short_press (d_timer_create D) (d_auth D))
      | AuthReset \<Rightarrow> with_auth D (auth_factory_reset N (d_auth D))
      | BlePairing \<Rightarrow> with_ble D (pairing_event_handler (sk_auth_has_bond (d_auth D)) (pairing_open (d_auth D))
          (evt_name ev) (evt_payload ev) (d_ble D))
      | BleRevoked \<Rightarrow> (D\<lparr>d_ble := on_bond_revoked (d_ble D)\<rparr>, [])
      | BleTerminate \<Rightarrow> (D\<lparr>d_ble := on_terminate_before_wifi (d_ble D)\<rparr>, [])
      | BleResume \<Rightarrow> with_ble D (on_resume_after_wifi (pairing_open (d_auth D)) (d_ble D))
      | BleAny \<Rightarrow> (D\<lparr>d_ble := any_event_handler (evt_name ev) (evt_seq ev) (evt_payload ev) (d_ble D)\<rparr>, [])
      | MdnsWifi \<Rightarrow> (case mdns_on_wifi (evt_payload ev) (d_mdns D) of (m, es) \<Rightarrow> (D\<lparr>d_mdns := m\<rparr>, es))
      | _ \<Rightarrow> (D, []))"

definition call_hook :: "'n nvs_ops \<Rightarrow> clock \<Rightarrow> hook \<times> event \<Rightarrow> 'n device \<Rightarrow> 'n device \<times> eff list" where
  "call_hook N now c D = hook_effect N now (fst c) (snd c) (D\<lparr>d_called := d_called D @ [c]\<rparr>)"

text \<open>
  A publication runs its subscribers in the task of the publisher, and what they publish is delivered before the next
  subscriber is called. Nothing runs after \<open>esp_restart\<close>. The number bounds the nesting.
\<close>

primrec deliver :: "nat \<Rightarrow> 'n nvs_ops \<Rightarrow> clock \<Rightarrow> 'n device \<Rightarrow> eff \<Rightarrow> 'n device" where
  "deliver 0 N now D e = D\<lparr>d_lost := d_lost D @ [e]\<rparr>"
| "deliver (Suc k) N now D e =
     (if d_restart D then D
      else
        (case e of
           Publish name payload \<Rightarrow>
             (case sk_event_bus_publish name payload (d_bus D) of (b, calls) \<Rightarrow>
                foldl (\<lambda>D c. if d_restart D then D else case call_hook N now c D of (D, es) \<Rightarrow> foldl (deliver k N now) D es)
                  (D\<lparr>d_bus := b\<rparr>) calls)
         | Restart \<Rightarrow> D\<lparr>d_restart := True\<rparr>
         | _ \<Rightarrow> D\<lparr>d_pins := d_pins D @ [e]\<rparr>))"

definition NESTING :: nat where "NESTING = 4"

definition publish_all :: "'n nvs_ops \<Rightarrow> clock \<Rightarrow> 'n device \<Rightarrow> eff list \<Rightarrow> 'n device" where
  "publish_all N now D es = foldl (deliver NESTING N now) D es"

section \<open>Steps\<close>

text \<open>
  A request to the endpoint (its task publishes the reset request); the tick of the system timer, which is dropped when
  the queue is full; a command that posts to the queue of the countdown and whose task waits while the queue is full; one of
  the waiting tasks getting its turn; one turn of the countdown task; and an event published by another component.
\<close>

datatype 'r sys_step =
    HttpReset clock 'r
  | SystemTick
  | TimerCommand evt
  | SenderRuns nat
  | TimerTask clock
  | Published clock string "string option"

text \<open>\<open>xQueueSend(q, &e, portMAX_DELAY)\<close>: queue and waiting senders.\<close>

definition send_blocking :: "evt \<Rightarrow> evt list \<times> evt list \<Rightarrow> evt list \<times> evt list" where
  "send_blocking e qw = (if length (fst qw) < TIMER_QUEUE_LEN then (fst qw @ [e], snd qw) else (fst qw, snd qw @ [e]))"

definition sender_runs :: "nat \<Rightarrow> evt list \<times> evt list \<Rightarrow> evt list \<times> evt list" where
  "sender_runs i qw = (if i < length (snd qw) \<and> length (fst qw) < TIMER_QUEUE_LEN
     then (fst qw @ [snd qw ! i], take i (snd qw) @ drop (Suc i) (snd qw)) else qw)"

definition timer_senders :: "(evt list \<times> evt list \<Rightarrow> evt list \<times> evt list) \<Rightarrow> 'n device \<Rightarrow> 'n device" where
  "timer_senders f D = (case f (d_timer_q D, d_timer_wait D) of (qu, w) \<Rightarrow> D\<lparr>d_timer_q := qu, d_timer_wait := w\<rparr>)"

primrec live_do :: "'n nvs_ops \<Rightarrow> 'r http_ops \<Rightarrow> 'n device \<Rightarrow> 'r sys_step \<Rightarrow> 'n device" where
  "live_do N H D (HttpReset now req) =
     (case reset_get_handler H req (d_rapi D) of (es, resp) \<Rightarrow>
        (publish_all N now D es)\<lparr>d_http := d_http D @ [resp]\<rparr>)"
| "live_do N H D SystemTick = D\<lparr>d_timer_q := post TIMER_QUEUE_LEN EVT_TICK (d_timer_q D)\<rparr>"
| "live_do N H D (TimerCommand e) = timer_senders (send_blocking e) D"
| "live_do N H D (SenderRuns i) = timer_senders (sender_runs i) D"
| "live_do N H D (TimerTask now) =
     (case d_timer_q D of
        [] \<Rightarrow> D
      | e # qu \<Rightarrow> (case apply_evt N now e (d_timer D) of (t, es) \<Rightarrow>
          publish_all N now (D\<lparr>d_timer_q := qu, d_timer := t\<rparr>) es))"
| "live_do N H D (Published now name payload) = publish_all N now D [Publish name payload]"

text \<open>After \<open>esp_restart\<close> the device is down until it starts again.\<close>

definition sys_do :: "'n nvs_ops \<Rightarrow> 'r http_ops \<Rightarrow> 'n device \<Rightarrow> 'r sys_step \<Rightarrow> 'n device" where
  "sys_do N H D s = (if d_restart D then D else live_do N H D s)"

end
