(* ===== verification/LsTimerFlash.thy ===== *)
theory LsTimerFlash
  imports LsTimer
begin

text \<open>
  What the countdown engine keeps in flash: after every step, on a healthy flash, the stored
  image is exactly the persisted part of the run-time state, so that loading it gives the state
  back up to the fields that are counted in uptime.
\<close>

definition volatile_reset :: "'n timer \<Rightarrow> 'n timer" where
  "volatile_reset t = t\<lparr>deadline_uptime_us := 0, remaining_at_start := 0, vacation_end_uptime_us := 0\<rparr>"

definition flash_synced :: "'n nvs_ops \<Rightarrow> 'n timer \<Rightarrow> bool" where
  "flash_synced N t \<longleftrightarrow> snd (timer_nvs_load N (timer_static (flash t))) = volatile_reset t"

definition synced_cfg :: "'n nvs_ops \<Rightarrow> 'n \<Rightarrow> ls_timer_config \<Rightarrow> bool" where
  "synced_cfg N n c \<longleftrightarrow>
     load_val (get_u8 N n NVS_TMR ''unit'') (\<lambda>v. v = 0 \<or> v = 1 \<or> v = 2)
       (\<lambda>v. unit_of_int (uint v)) UNIT_HOUR = cfg_unit c \<and>
     load_val (get_u16 N n NVS_TMR ''value'') (\<lambda>v. uint v \<ge> MIN_VALUE \<and> uint v \<le> MAX_VALUE)
       (\<lambda>v. v) 24 = cfg_value c \<and>
     load_val (get_u8 N n NVS_TMR ''alarms'') (\<lambda>v. uint v \<le> MAX_ALARMS) (\<lambda>v. v) 3 = cfg_alarm_count c"

definition synced_rt :: "'n nvs_ops \<Rightarrow> 'n \<Rightarrow> 'n timer \<Rightarrow> bool" where
  "synced_rt N n t \<longleftrightarrow>
     load_val (get_u8 N n NVS_TMR ''state'') (\<lambda>v. v \<le> 3) state_of_code INACTIVE = st t \<and>
     load_val (get_i64 N n NVS_TMR ''deadline'') (\<lambda>v. True) (\<lambda>v. v) 0 = deadline_epoch t \<and>
     load_val (get_i64 N n NVS_TMR ''vac_end'') (\<lambda>v. True) (\<lambda>v. v) 0 = vacation_end_epoch t \<and>
     load_val (get_u32 N n NVS_TMR ''vac_rem'') (\<lambda>v. True) (\<lambda>v. v) 0 = vacation_remaining_sec t \<and>
     load_val (get_u32 N n NVS_TMR ''amask32'') (\<lambda>v. True) (\<lambda>v. v) 0 = alarms_fired_mask t"

lemma closed_no_entry:
  "nvs_lawful N \<Longrightarrow> nv_open_ro N n ns \<noteq> ESP_OK \<Longrightarrow> nv_get N n ns k = None"
  using nvs_open_ro by (metis not_Some_eq)

lemma load_lawful:
  "nvs_lawful N \<Longrightarrow> nv_open_ro N (flash t) NVS_TMR \<noteq> ESP_OK \<Longrightarrow>
     snd (timer_nvs_load N t) = t \<and>
     synced_cfg N (flash t) default_config \<and> synced_rt N (flash t) (timer_static (flash t))"
  by (simp add: timer_nvs_load_def Let_def synced_cfg_def synced_rt_def nvs_get_defs
      closed_no_entry default_config_def timer_static_def)

lemma load_static_synced:
  "nvs_lawful N \<Longrightarrow> synced_cfg N n (cfg (snd (timer_nvs_load N (timer_static n)))) \<and>
     synced_rt N n (snd (timer_nvs_load N (timer_static n)))"
proof (cases "nv_open_ro N n NVS_TMR = ESP_OK")
  case True
  then show ?thesis
    by (simp add: timer_nvs_load_def Let_def timer_static_def synced_cfg_def synced_rt_def
        default_config_def)
next
  case False
  assume "nvs_lawful N"
  then show ?thesis using load_lawful [of N "timer_static n"] False
    by (simp add: timer_static_def)
qed

lemma load_static_volatile:
  "deadline_uptime_us (snd (timer_nvs_load N (timer_static n))) = 0"
  "remaining_at_start (snd (timer_nvs_load N (timer_static n))) = 0"
  "vacation_end_uptime_us (snd (timer_nvs_load N (timer_static n))) = 0"
  "flash (snd (timer_nvs_load N (timer_static n))) = n"
  by (simp_all add: timer_nvs_load_def Let_def timer_static_def)

lemma synced_cfg_unique: "synced_cfg N n c \<Longrightarrow> synced_cfg N n c' \<Longrightarrow> c = c'"
  by (simp add: synced_cfg_def)

lemma synced_rt_unique:
  "synced_rt N n t \<Longrightarrow> synced_rt N n t' \<Longrightarrow> st t = st t' \<and> deadline_epoch t = deadline_epoch t' \<and>
     vacation_end_epoch t = vacation_end_epoch t' \<and>
     vacation_remaining_sec t = vacation_remaining_sec t' \<and> alarms_fired_mask t = alarms_fired_mask t'"
  by (simp add: synced_rt_def)

lemma flash_synced_iff:
  assumes "nvs_lawful N"
  shows "flash_synced N t \<longleftrightarrow> synced_cfg N (flash t) (cfg t) \<and> synced_rt N (flash t) t"
proof
  assume "flash_synced N t"
  then have l: "snd (timer_nvs_load N (timer_static (flash t))) = volatile_reset t"
    by (simp add: flash_synced_def)
  show "synced_cfg N (flash t) (cfg t) \<and> synced_rt N (flash t) t"
    using load_static_synced [OF assms, of "flash t"] unfolding l
    by (simp add: volatile_reset_def synced_rt_def)
next
  assume s: "synced_cfg N (flash t) (cfg t) \<and> synced_rt N (flash t) t"
  let ?l = "snd (timer_nvs_load N (timer_static (flash t)))"
  from load_static_synced [OF assms, of "flash t"]
  have "synced_cfg N (flash t) (cfg ?l)" and "synced_rt N (flash t) ?l" by simp_all
  then have "cfg ?l = cfg t" and "st ?l = st t \<and> deadline_epoch ?l = deadline_epoch t \<and>
      vacation_end_epoch ?l = vacation_end_epoch t \<and>
      vacation_remaining_sec ?l = vacation_remaining_sec t \<and> alarms_fired_mask ?l = alarms_fired_mask t"
    using s synced_cfg_unique [of N "flash t" "cfg ?l" "cfg t"] synced_rt_unique [of N "flash t" ?l t]
    by simp_all
  then have "?l = volatile_reset t"
    by (intro timer.equality) (simp_all add: load_static_volatile volatile_reset_def)
  then show "flash_synced N t" by (simp only: flash_synced_def)
qed

text \<open>The two save functions, on a lawful store.\<close>

lemma synced_rt_save [simp]:
  "nvs_lawful N \<Longrightarrow> synced_rt N (flash (nvs_save_runtime N t)) (nvs_save_runtime N t)"
  by (simp add: synced_rt_def) (simp add: nvs_save_runtime_def Let_def nvs_get_defs nvs_simps load_val_Some state_code_le)

lemma synced_cfg_save_runtime [simp]:
  "nvs_lawful N \<Longrightarrow> synced_cfg N (flash (nvs_save_runtime N t)) c = synced_cfg N (flash t) c"
  by (simp add: synced_cfg_def nvs_save_runtime_def Let_def nvs_get_defs nvs_simps)

lemma unit_code_roundtrip:
  "u \<in> {UNIT_MINUTE, UNIT_HOUR, UNIT_DAY} \<Longrightarrow>
     (let c = word_of_int (int_of_unit u) :: u8 in (c = 0 \<or> c = 1 \<or> c = 2) \<and> unit_of_int (uint c) = u)"
  by (auto simp: unit_of_int_def)

lemma synced_cfg_save_config:
  "nvs_lawful N \<Longrightarrow> cfg_ok (cfg t) \<Longrightarrow> synced_cfg N (flash (nvs_save_config N t)) (cfg t)"
  using unit_code_roundtrip [of "cfg_unit (cfg t)"]
  by (simp add: synced_cfg_def nvs_save_config_def Let_def nvs_get_defs nvs_simps load_val_Some cfg_ok_def
      MIN_VALUE_def MAX_VALUE_def MAX_ALARMS_def)

lemma synced_rt_save_config:
  "nvs_lawful N \<Longrightarrow> synced_rt N (flash (nvs_save_config N t)) t' = synced_rt N (flash t) t'"
  by (simp add: synced_rt_def nvs_save_config_def Let_def nvs_get_defs nvs_simps)

text \<open>The invariant: a well-formed configuration, an image in step with it, no negative deadline.\<close>

definition flash_inv :: "'n nvs_ops \<Rightarrow> 'n timer \<Rightarrow> bool" where
  "flash_inv N t \<longleftrightarrow> cfg_ok (cfg t) \<and> synced_cfg N (flash t) (cfg t) \<and> synced_rt N (flash t) t \<and>
     0 \<le> deadline_epoch t \<and> 0 \<le> vacation_end_epoch t"

lemma flash_inv_synced: "nvs_lawful N \<Longrightarrow> flash_inv N t \<Longrightarrow> flash_synced N t"
  by (simp add: flash_inv_def flash_synced_iff)

lemma flash_inv_save:
  "nvs_lawful N \<Longrightarrow> cfg_ok (cfg t) \<Longrightarrow> synced_cfg N (flash t) (cfg t) \<Longrightarrow>
     0 \<le> deadline_epoch t \<Longrightarrow> 0 \<le> vacation_end_epoch t \<Longrightarrow> flash_inv N (nvs_save_runtime N t)"
  by (simp add: flash_inv_def)

lemma synced_rt_volatile [simp]:
  "synced_rt N n (t\<lparr>deadline_uptime_us := a\<rparr>) = synced_rt N n t"
  "synced_rt N n (t\<lparr>vacation_end_uptime_us := a\<rparr>) = synced_rt N n t"
  "synced_rt N n (t\<lparr>remaining_at_start := w\<rparr>) = synced_rt N n t"
  by (simp_all add: synced_rt_def)

lemma valid_nonneg: "time_is_valid w \<Longrightarrow> 0 \<le> w"
  by (simp add: time_is_valid_def TIME_VALID_THRESHOLD_def)

lemma cdiv_round_nonneg: "0 < d \<Longrightarrow> 0 \<le> cdiv (d + 500000) 1000000"
  by (simp add: cdiv_nonneg)

lemma flash_inv_enter:
  assumes "nvs_lawful N" "cfg_ok (cfg t)" "synced_cfg N (flash t) (cfg t)"
    "0 \<le> deadline_epoch t" "0 \<le> vacation_end_epoch t"
  shows "flash_inv N (fst (enter_countdown N clk r b a t))"
    and "flash_inv N (fst (enter_inactive N clk t))"
    and "flash_inv N (fst (enter_vacation N clk d t))"
    and "flash_inv N (fst (exit_vacation_to_countdown N clk t))"
    and "flash_inv N (fst (enter_triggered N clk t))"
  using assms by (simp_all add: enter_countdown_def enter_inactive_def enter_vacation_def
      exit_vacation_to_countdown_def enter_triggered_def Let_def case_prod_beta flash_inv_save
      valid_nonneg)

lemma alarm_loop_silent: "snd (alarm_loop k i r t) = [] \<Longrightarrow> fst (alarm_loop k i r t) = t"
  by (induction k i r t rule: alarm_loop.induct) (auto simp: case_prod_beta split: if_splits)

lemma flash_inv_check_alarms:
  "nvs_lawful N \<Longrightarrow> flash_inv N t \<Longrightarrow> flash_inv N (fst (check_alarms N r t))"
  by (auto simp: check_alarms_def Let_def case_prod_beta alarm_loop_silent flash_inv_def)

lemma flash_inv_tick:
  assumes N: "nvs_lawful N" and t: "flash_inv N t"
  shows "flash_inv N (fst (handle_tick N clk t))"
proof -
  have c: "cfg_ok (cfg t)" "synced_cfg N (flash t) (cfg t)" "0 \<le> deadline_epoch t"
    "0 \<le> vacation_end_epoch t" using t by (simp_all add: flash_inv_def)
  note e = flash_inv_enter [OF N c]
  have v: "flash_inv N (t\<lparr>deadline_uptime_us := u\<rparr>)" "flash_inv N (t\<lparr>vacation_end_uptime_us := u\<rparr>)" for u
    using t by (simp_all add: flash_inv_def)
  have d: "flash_inv N (nvs_save_runtime N (t\<lparr>deadline_epoch := w + uint r\<rparr>))"
    if "time_is_valid w" for w and r :: u32
    using valid_nonneg [OF that] c by (intro flash_inv_save [OF N]) simp_all
  have "flash_inv N (fst (tick_countdown N clk t))"
    using N t e v d by (auto simp: tick_countdown_def Let_def case_prod_beta intro!: flash_inv_check_alarms)
  moreover have "flash_inv N (fst (tick_vacation N clk t))"
  proof -
    have "flash_inv N (nvs_save_runtime N (t\<lparr>vacation_end_epoch := wall clk + cdiv (x + 500000) 1000000\<rparr>))"
      if "time_is_valid (wall clk)" "0 < x" for x
      using valid_nonneg [OF that(1)] cdiv_round_nonneg [OF that(2)] c
      by (intro flash_inv_save [OF N]) simp_all
    with t e v show ?thesis by (auto simp: tick_vacation_def Let_def)
  qed
  ultimately show ?thesis using t by (simp add: handle_tick_def)
qed

lemma flash_inv_apply_evt:
  assumes N: "nvs_lawful N" and t: "flash_inv N t" and e: "evt_ok e"
  shows "flash_inv N (fst (apply_evt N clk e t))"
proof (cases e)
  case EVT_TICK
  then show ?thesis using flash_inv_tick [OF N t] by simp
next
  case (EVT_CMD_SET u v a)
  have c: "cfg_ok (cfg (fst (apply_evt N clk e t)))"
    by (rule cfg_ok_apply_evt) (use t e in \<open>simp_all add: flash_inv_def\<close>)
  define t0 where "t0 = t\<lparr>cfg := cfg (fst (apply_evt N clk e t))\<rparr>"
  have eq: "fst (apply_evt N clk e t) = nvs_save_config N t0"
    by (simp add: EVT_CMD_SET t0_def apply_set_def Let_def)
  have rt: "synced_rt N n (nvs_save_config N t0) = synced_rt N n t" for n
    by (simp add: synced_rt_def t0_def)
  have "cfg_ok (cfg t0)" using c by (simp add: t0_def)
  then show ?thesis using N t unfolding flash_inv_def eq
    by (simp add: synced_cfg_save_config synced_rt_save_config rt) (simp add: t0_def)
qed (use t flash_inv_enter [OF N] in \<open>auto simp: flash_inv_def Let_def\<close>)

lemma flash_inv_boot_countdown:
  assumes N: "nvs_lawful N" and t: "flash_inv N t"
  shows "flash_inv N (boot_countdown N clk t)"
proof (cases "deadline_epoch t \<le> 0")
  case True
  then show ?thesis using t N
    by (simp add: boot_countdown_def Let_def flash_inv_def synced_cfg_def synced_rt_def nvs_get_defs
        nvs_simps load_val_Some state_of_code_def)
next
  case False
  then show ?thesis using t by (simp add: boot_countdown_def Let_def flash_inv_def)
qed

lemma flash_inv_boot_vacation:
  assumes N: "nvs_lawful N" and t: "flash_inv N t"
  shows "flash_inv N (boot_vacation N clk t)"
proof -
  consider "vacation_end_epoch t \<le> 0"
    | "0 < vacation_end_epoch t" "time_is_valid (wall clk)" "wall clk \<ge> vacation_end_epoch t"
    | "0 < vacation_end_epoch t" "\<not> time_is_valid (wall clk) \<or> wall clk < vacation_end_epoch t"
    by linarith
  then show ?thesis
  proof cases
    case 1
    then show ?thesis using t N
      by (simp add: boot_vacation_def Let_def flash_inv_def synced_cfg_def synced_rt_def nvs_get_defs
          nvs_simps load_val_Some state_of_code_def)
  next
    case 2
    then show ?thesis using t N valid_nonneg [OF 2(2)]
      by (simp add: boot_vacation_def Let_def flash_inv_def synced_cfg_def synced_rt_def nvs_get_defs
          nvs_simps load_val_Some state_of_code_def)
  next
    case 3
    then show ?thesis using t by (auto simp: boot_vacation_def Let_def flash_inv_def)
  qed
qed

text \<open>A flash image whose stored deadlines are not negative (in particular an empty one).\<close>

definition flash_ok :: "'n nvs_ops \<Rightarrow> 'n \<Rightarrow> bool" where
  "flash_ok N n \<longleftrightarrow> 0 \<le> load_val (get_i64 N n NVS_TMR ''deadline'') (\<lambda>v. True) (\<lambda>v. v) 0 \<and>
     0 \<le> load_val (get_i64 N n NVS_TMR ''vac_end'') (\<lambda>v. True) (\<lambda>v. v) 0"

lemma flash_inv_flash_ok: "flash_inv N t \<Longrightarrow> flash_ok N (flash t)"
  by (simp add: flash_inv_def flash_ok_def synced_rt_def)

lemma flash_inv_init:
  assumes N: "nvs_lawful N" and n: "flash_ok N n"
  shows "flash_inv N (ls_timer_engine_init N clk n)"
proof -
  let ?l = "snd (timer_nvs_load N (timer_static n))"
  have f: "flash ?l = n" by (rule load_static_volatile(4))
  have "cfg_ok (cfg ?l)"
    by (rule cfg_ok_load) (simp add: timer_static_def cfg_ok_default)
  then have "flash_inv N ?l"
    using load_static_synced [OF N, of n] n
    by (simp add: flash_inv_def f flash_ok_def synced_rt_def)
  then show ?thesis
    by (auto simp: ls_timer_engine_init_def Let_def intro!: flash_inv_boot_countdown
        flash_inv_boot_vacation N)
qed

lemma flash_inv_factory_reset:
  assumes N: "nvs_lawful N"
  shows "flash_inv N (fst (timer_factory_reset N clk t))"
  using N by (simp add: timer_factory_reset_def Let_def flash_inv_def synced_cfg_def synced_rt_def
      nvs_get_defs nvs_simps timer_static_def default_config_def cfg_ok_def)

lemma flash_inv_step:
  assumes N: "nvs_lawful N" and t: "flash_inv N t" and a: "act_ok a"
  shows "flash_inv N (timer_step N t a)"
proof (cases a)
  case (TaskAct clk e)
  then show ?thesis using flash_inv_apply_evt [OF N t] a by simp
next
  case (FactoryAct clk)
  then show ?thesis using flash_inv_factory_reset [OF N] by simp
next
  case (RebootAct clk)
  then show ?thesis using flash_inv_init [OF N flash_inv_flash_ok [OF t]] by simp
qed

interpretation timer_flash: stepping "timer_step N"
    "\<lambda>t :: 'n timer. nvs_lawful N \<longrightarrow> flash_inv N t" act_ok
  for N :: "'n nvs_ops"
  by unfold_locales (blast intro: flash_inv_step)

end
