(* ===== verification/LsTimerProps.thy ===== *)
theory LsTimerProps
  imports LsTimerFlash
begin

text \<open>
  What the countdown engine promises, over whole runs of its task: the state machine, the trigger
  (when, and how often), re-arming, the alarms, the vacation pause and recovery after a restart.
  \<open>task_run\<close> is the loop of the task over the events it takes from its queue; every theorem
  quantifies over the sequence of events and the instants at which they are taken.
\<close>

section \<open>The task loop and what it publishes\<close>

fun task_run :: "'n nvs_ops \<Rightarrow> (clock \<times> evt) list \<Rightarrow> 'n timer \<Rightarrow> 'n timer \<times> eff list" where
  "task_run N [] t = (t, [])"
| "task_run N ((clk, e) # es) t =
     (case apply_evt N clk e t of (t1, o1) \<Rightarrow>
        (case task_run N es t1 of (t2, o2) \<Rightarrow> (t2, o1 @ o2)))"

fun eff_name :: "eff \<Rightarrow> string" where
  "eff_name (Publish n p) = n"
| "eff_name (GpioLevel p l) = []"
| "eff_name (GpioReset p) = []"
| "eff_name (GpioOutput p) = []"
| "eff_name Restart = []"

definition pubs :: "string \<Rightarrow> eff list \<Rightarrow> nat" where
  "pubs n es = length (filter (\<lambda>e. eff_name e = n) es)"

lemma pubs_simps [simp]:
  "pubs n [] = 0"
  "pubs n (e # es) = (if eff_name e = n then 1 else 0) + pubs n es"
  "pubs n (es @ fs) = pubs n es + pubs n fs"
  by (simp_all add: pubs_def)

lemma eff_name_publish [simp]:
  "eff_name (publishf n p) = n"
  "eff_name (publish_state clk t) = ''timer.state''"
  "eff_name (publish_tick r) = ''timer.tick''"
  "eff_name (publish_alarm t i r) = ''timer.alarm''"
  "eff_name (publish_triggered d) = ''timer.triggered''"
  "eff_name (publish_reset b) = ''timer.reset''"
  "eff_name (publish_vacation t a) = ''timer.vacation''"
  by (simp_all add: publishf_def publish_state_def publish_tick_def publish_alarm_def
      publish_triggered_def publish_reset_def publish_vacation_def)

lemma task_run_Cons [simp]:
  "fst (task_run N (ce # es) t) = fst (task_run N es (fst (apply_evt N (fst ce) (snd ce) t)))"
  "snd (task_run N (ce # es) t) = snd (apply_evt N (fst ce) (snd ce) t) @
     snd (task_run N es (fst (apply_evt N (fst ce) (snd ce) t)))"
  by (cases ce; simp add: case_prod_beta)+

declare task_run.simps(2) [simp del]

lemma task_run_append [simp]:
  "fst (task_run N (es @ fs) t) = fst (task_run N fs (fst (task_run N es t)))"
  "snd (task_run N (es @ fs) t) = snd (task_run N es t) @ snd (task_run N fs (fst (task_run N es t)))"
  by (induction es arbitrary: t) simp_all

lemma task_run_fold:
  "fst (task_run N es t) = foldl (timer_step N) t (map (\<lambda>ce. TaskAct (fst ce) (snd ce)) es)"
  by (induction es arbitrary: t) simp_all

lemma pubs_alarm_loop [simp]:
  "n \<noteq> ''timer.alarm'' \<Longrightarrow> pubs n (snd (alarm_loop k i r t)) = 0"
  by (induction k i r t rule: alarm_loop.induct) (simp_all add: case_prod_beta)

lemma pubs_check_alarms [simp]:
  "n \<noteq> ''timer.alarm'' \<Longrightarrow> pubs n (snd (check_alarms N r t)) = 0"
  by (simp add: check_alarms_def Let_def case_prod_beta)

section \<open>The state machine\<close>

text \<open>Which event may take which state where.\<close>

datatype stimulus = S_Tick | S_Set | S_Start | S_Stop | S_Reset | S_VacSet | S_VacCancel

fun stimulus_of :: "evt \<Rightarrow> stimulus" where
  "stimulus_of EVT_TICK = S_Tick"
| "stimulus_of (EVT_CMD_SET u v a) = S_Set"
| "stimulus_of EVT_CMD_START = S_Start"
| "stimulus_of EVT_CMD_STOP = S_Stop"
| "stimulus_of (EVT_CMD_RESET b) = S_Reset"
| "stimulus_of (EVT_CMD_VAC_SET d) = S_VacSet"
| "stimulus_of EVT_CMD_VAC_CANCEL = S_VacCancel"

inductive timer_trans :: "ls_timer_state \<Rightarrow> stimulus \<Rightarrow> ls_timer_state \<Rightarrow> bool" where
  trans_start: "timer_trans s S_Start COUNTDOWN"
| trans_stop: "timer_trans s S_Stop INACTIVE"
| trans_reset: "s = COUNTDOWN \<or> s = TRIGGERED \<Longrightarrow> timer_trans s S_Reset COUNTDOWN"
| trans_reset_ignored: "s = INACTIVE \<or> s = VACATION \<Longrightarrow> timer_trans s S_Reset s"
| trans_expire: "timer_trans COUNTDOWN S_Tick TRIGGERED"
| trans_tick: "timer_trans s S_Tick s"
| trans_resume: "timer_trans VACATION S_Tick COUNTDOWN"
| trans_resume_nothing: "timer_trans VACATION S_Tick INACTIVE"
| trans_vac: "timer_trans COUNTDOWN S_VacSet VACATION"
| trans_vac_ignored: "s \<noteq> COUNTDOWN \<Longrightarrow> timer_trans s S_VacSet s"
| trans_cancel: "timer_trans VACATION S_VacCancel COUNTDOWN"
| trans_cancel_nothing: "timer_trans VACATION S_VacCancel INACTIVE"
| trans_cancel_ignored: "s \<noteq> VACATION \<Longrightarrow> timer_trans s S_VacCancel s"
| trans_set: "timer_trans s S_Set s"

inductive_cases trans_to_triggered: "timer_trans s e TRIGGERED"
inductive_cases trans_from_inactive: "timer_trans INACTIVE e s"
inductive_cases trans_from_triggered: "timer_trans TRIGGERED e s"

code_pred timer_trans .

lemma st_enter [simp]:
  "st (fst (enter_countdown N clk r b a t)) = COUNTDOWN"
  "st (fst (enter_inactive N clk t)) = INACTIVE"
  "st (fst (enter_vacation N clk d t)) = VACATION"
  "st (fst (enter_triggered N clk t)) = TRIGGERED"
  "st (fst (exit_vacation_to_countdown N clk t)) =
     (if vacation_remaining_sec t = 0 then INACTIVE else COUNTDOWN)"
  by (simp_all add: enter_countdown_def enter_inactive_def enter_vacation_def enter_triggered_def
      exit_vacation_to_countdown_def Let_def case_prod_beta)

lemma total_duration_bounds:
  "cfg_ok c \<Longrightarrow> 60 \<le> uint (total_duration_sec c) \<and> uint (total_duration_sec c) \<le> 5184000"
proof -
  assume c: "cfg_ok c"
  define v where "v = uint (cfg_value c)"
  have v: "1 \<le> v" "v \<le> 60" using c by (simp_all add: cfg_ok_def v_def)
  have u: "uint (ucast (cfg_value c) :: u32) = v"
    by (simp add: v_def uint_up_ucast is_up)
  from c have "cfg_unit c \<in> {UNIT_MINUTE, UNIT_HOUR, UNIT_DAY}" by (simp add: cfg_ok_def)
  then obtain k where k: "uint (unit_to_sec (cfg_unit c)) = k" "60 \<le> k" "k \<le> 86400"
    by auto
  have kv: "60 \<le> k * v" "k * v \<le> 86400 * 60"
    using mult_mono [of 60 k 1 v] mult_mono [of k 86400 v 60] k v by simp_all
  have "uint (total_duration_sec c) = (k * v) mod 2 ^ 32"
    by (simp add: total_duration_sec_def uint_word_arith_bintrs(3) u k(1) take_bit_eq_mod)
  also have "\<dots> = k * v" using kv by (intro mod_pos_pos_trivial) simp_all
  finally show ?thesis using kv by simp
qed

lemma total_duration_nonzero: "cfg_ok c \<Longrightarrow> total_duration_sec c \<noteq> 0"
  using total_duration_bounds [of c] by auto

text \<open>What a tick finds: the countdown has run out, or the vacation is over.\<close>

definition expired :: "clock \<Rightarrow> 'n timer \<Rightarrow> bool" where
  "expired clk t = (if deadline_uptime_us t > 0 then deadline_uptime_us t \<le> up_us clk
     else time_is_valid (wall clk) \<and> deadline_epoch t > 0 \<and> deadline_epoch t \<le> wall clk)"

definition vacation_over :: "clock \<Rightarrow> 'n timer \<Rightarrow> bool" where
  "vacation_over clk t = (if vacation_end_uptime_us t > 0 then vacation_end_uptime_us t \<le> up_us clk
     else time_is_valid (wall clk) \<and> vacation_end_epoch t > 0 \<and> vacation_end_epoch t \<le> wall clk)"

lemma tick_countdown_expired:
  "expired clk t \<Longrightarrow> tick_countdown N clk t = enter_triggered N clk t"
  by (simp add: tick_countdown_def expired_def Let_def split: if_splits)

lemma tick_countdown_running:
  "\<not> expired clk t \<Longrightarrow> st (fst (tick_countdown N clk t)) = st t \<and>
     pubs ''timer.triggered'' (snd (tick_countdown N clk t)) = 0"
  by (cases "deadline_uptime_us t > 0"; cases "time_is_valid (wall clk) \<and> deadline_epoch t > 0")
    (simp_all add: tick_countdown_def expired_def Let_def case_prod_beta)

lemma tick_vacation_over:
  "vacation_over clk t \<Longrightarrow> tick_vacation N clk t = exit_vacation_to_countdown N clk t"
  by (simp add: tick_vacation_def vacation_over_def split: if_splits)

lemma tick_vacation_running:
  "\<not> vacation_over clk t \<Longrightarrow> st (fst (tick_vacation N clk t)) = st t \<and> snd (tick_vacation N clk t) = []"
  by (cases "vacation_end_uptime_us t > 0"; cases "vacation_end_epoch t > 0")
    (auto simp: tick_vacation_def vacation_over_def Let_def)

lemma handle_tick_st:
  "st (fst (handle_tick N clk t)) =
     (if st t = COUNTDOWN \<and> expired clk t then TRIGGERED
      else if st t = VACATION \<and> vacation_over clk t
        then (if vacation_remaining_sec t = 0 then INACTIVE else COUNTDOWN)
      else st t)"
  by (cases "expired clk t"; cases "vacation_over clk t")
    (simp_all add: handle_tick_def tick_countdown_expired tick_countdown_running
      tick_vacation_over tick_vacation_running)

lemma apply_evt_trans: "cfg_ok (cfg t) \<Longrightarrow> timer_trans (st t) (stimulus_of e) (st (fst (apply_evt N clk e t)))"
proof (cases e)
  case (EVT_CMD_RESET b)
  assume "cfg_ok (cfg t)"
  then show ?thesis using EVT_CMD_RESET
    by (cases "st t") (auto simp: total_duration_nonzero Let_def intro: trans_reset trans_reset_ignored)
next
  case EVT_TICK
  then show ?thesis by (auto simp: handle_tick_st intro: timer_trans.intros)
qed (auto simp: total_duration_nonzero apply_set_def Let_def intro: timer_trans.intros)

section \<open>The trigger\<close>

text \<open>The events that leave a running countdown alone: ticks, configuration, a cancel of no vacation.\<close>

fun quiet :: "evt \<Rightarrow> bool" where
  "quiet EVT_TICK = True"
| "quiet (EVT_CMD_SET u v a) = True"
| "quiet EVT_CMD_VAC_CANCEL = True"
| "quiet _ = False"

lemma pubs_enter_triggered: "pubs ''timer.triggered'' (snd (enter_triggered N clk t)) = 1"
  by (simp add: enter_triggered_def Let_def)

lemma tick_countdown_deadline:
  "0 < deadline_uptime_us t \<Longrightarrow> \<not> expired clk t \<Longrightarrow>
     deadline_uptime_us (fst (tick_countdown N clk t)) = deadline_uptime_us t"
  by (simp add: tick_countdown_def expired_def Let_def case_prod_beta)

definition armed :: "int \<Rightarrow> 'n timer \<Rightarrow> bool" where
  "armed D t \<longleftrightarrow> st t = COUNTDOWN \<and> deadline_uptime_us t = D \<and> 0 < D"

lemma armed_step:
  assumes "armed D t" "quiet e" "\<not> (e = EVT_TICK \<and> D \<le> up_us clk)"
  shows "armed D (fst (apply_evt N clk e t)) \<and>
    pubs ''timer.triggered'' (snd (apply_evt N clk e t)) = 0"
proof (cases e)
  case EVT_TICK
  with assms have "\<not> expired clk t" by (simp add: armed_def expired_def)
  then show ?thesis using assms EVT_TICK
    by (simp add: handle_tick_def armed_def tick_countdown_running tick_countdown_deadline)
qed (use assms in \<open>simp_all add: armed_def apply_set_def Let_def\<close>)

lemma armed_fires:
  assumes "armed D t" "D \<le> up_us clk"
  shows "st (fst (apply_evt N clk EVT_TICK t)) = TRIGGERED \<and>
    pubs ''timer.triggered'' (snd (apply_evt N clk EVT_TICK t)) = 1"
proof -
  from assms have "expired clk t" by (simp add: armed_def expired_def)
  then show ?thesis using assms
    by (simp add: handle_tick_def armed_def tick_countdown_expired pubs_enter_triggered)
qed

lemma fired_step:
  "st t = TRIGGERED \<Longrightarrow> quiet e \<Longrightarrow> st (fst (apply_evt N clk e t)) = TRIGGERED \<and>
     pubs ''timer.triggered'' (snd (apply_evt N clk e t)) = 0"
  by (cases e) (simp_all add: handle_tick_def apply_set_def Let_def)

lemma fired_run:
  "st t = TRIGGERED \<Longrightarrow> \<forall>ce \<in> set es. quiet (snd ce) \<Longrightarrow> st (fst (task_run N es t)) = TRIGGERED \<and>
     pubs ''timer.triggered'' (snd (task_run N es t)) = 0"
  by (induction es arbitrary: t) (simp_all add: fired_step)

definition reached :: "int \<Rightarrow> (clock \<times> evt) list \<Rightarrow> bool" where
  "reached D es \<longleftrightarrow> (\<exists>ce \<in> set es. snd ce = EVT_TICK \<and> D \<le> up_us (fst ce))"

lemma armed_run:
  "armed D t \<Longrightarrow> \<forall>ce \<in> set es. quiet (snd ce) \<Longrightarrow>
     pubs ''timer.triggered'' (snd (task_run N es t)) = (if reached D es then 1 else 0) \<and>
     (if reached D es then st (fst (task_run N es t)) = TRIGGERED else armed D (fst (task_run N es t)))"
proof (induction es arbitrary: t)
  case Nil
  then show ?case by (simp add: reached_def)
next
  case (Cons ce es)
  show ?case
  proof (cases "snd ce = EVT_TICK \<and> D \<le> up_us (fst ce)")
    case True
    then have r: "reached D (ce # es)" by (simp add: reached_def)
    show ?thesis using armed_fires [OF Cons.prems(1)] True Cons.prems(2)
      by (simp add: r fired_run)
  next
    case False
    then have r: "reached D (ce # es) = reached D es" by (auto simp: reached_def)
    show ?thesis using armed_step [OF Cons.prems(1) _ False] Cons.prems(2) Cons.IH
      by (simp add: r)
  qed
qed

section \<open>Properties: configuration, transitions, trigger\<close>

lemma enter_countdown_armed:
  "0 \<le> up_us clk \<Longrightarrow> r \<noteq> 0 \<Longrightarrow>
     armed (up_us clk + uint r * 1000000) (fst (enter_countdown N clk r b a t))"
proof -
  assume "0 \<le> up_us clk" "r \<noteq> 0"
  moreover have "0 < uint r" using \<open>r \<noteq> 0\<close> by (simp add: word_neq_0_conv word_less_def)
  ultimately show ?thesis by (simp add: armed_def enter_countdown_def Let_def)
qed

lemma pubs_enter_countdown: "pubs ''timer.triggered'' (snd (enter_countdown N clk r b a t)) = 0"
  by (simp add: enter_countdown_def Let_def split: option.split)

text \<open>
  C3: Once a countdown is started with a configuration within its limits, and as long as the task then takes nothing but
  ticks, configuration changes and cancels of a vacation, the dead-man switch fires exactly once, and exactly when a tick
  is taken at or after the deadline fixed at the start in uptime: no event \<open>timer.triggered\<close> before that, one at that
  tick, none after it. The wall clock does not matter, set or not, and the flash may be faulty. (The code counts
  uptime also without a valid wall clock; the headers of \<open>ls_timer_engine.h\<close> and \<open>ls_timer_engine.c\<close> say the opposite,
  that the countdown stands still until \<open>time.set\<close>.)
\<close>
theorem timer_fires_exactly_once:
  assumes "cfg_ok (cfg t)" and "0 \<le> up_us clk" and "\<forall>ce \<in> set es. quiet (snd ce)"
  shows "(let D = up_us clk + uint (total_duration_sec (cfg t)) * 1000000;
              r = task_run N ((clk, EVT_CMD_START) # es) t
          in pubs ''timer.triggered'' (snd r) = (if reached D es then 1 else 0) \<and>
             st (fst r) = (if reached D es then TRIGGERED else COUNTDOWN))"
  using armed_run [OF enter_countdown_armed [OF assms(2) total_duration_nonzero [OF assms(1)],
        where N = N and b = None and a = True and t = t] assms(3), where N = N]
  by (auto simp: Let_def total_duration_nonzero [OF assms(1)] pubs_enter_countdown armed_def
      split: if_splits)

definition clk_at :: "int \<Rightarrow> clock" where
  "clk_at u = \<lparr> up_us = u, wall = 0 \<rparr>"

definition one_minute :: "nvs_map timer" where
  "one_minute = (timer_static Map.empty)\<lparr>cfg := \<lparr> cfg_unit = UNIT_MINUTE, cfg_value = 1, cfg_alarm_count = 0 \<rparr>\<rparr>"

lemma cfg_ok_one_minute: "cfg_ok (cfg one_minute)"
  by (simp add: one_minute_def cfg_ok_def)

theorem timer_fires_exactly_once_witness:
  "pubs ''timer.triggered'' (snd (task_run nvs_map_ops
     [(clk_at 5, EVT_CMD_START), (clk_at 1000000, EVT_TICK), (clk_at 60000005, EVT_TICK),
      (clk_at 61000000, EVT_TICK)] one_minute)) = 1"
  using timer_fires_exactly_once [OF cfg_ok_one_minute, of "clk_at 5"
    "[(clk_at 1000000, EVT_TICK), (clk_at 60000005, EVT_TICK), (clk_at 61000000, EVT_TICK)]" nvs_map_ops]
  by (simp add: clk_at_def reached_def one_minute_def total_duration_sec_def Let_def)

text \<open>
  C33: The state machine of the code, for a configuration within its limits: every event the task takes moves the
  state along an edge of the relation \<open>timer_trans\<close>; only an expiring tick of a running countdown reaches
  TRIGGERED, nothing but \<open>timer.start\<close> leaves INACTIVE, and nothing but a start, a stop or a reset leaves TRIGGERED. (The
  relation is the one the code implements. The diagram of \<open>ls_timer_engine.h\<close> lets \<open>timer.set\<close> arm the countdown and has no
  edge from COUNTDOWN to TRIGGERED, and the help of \<open>vacation.set\<close> allows it from INACTIVE: neither is so.)
\<close>
theorem timer_refines_diagram:
  assumes "cfg_ok (cfg t)"
  shows "timer_trans (st t) (stimulus_of e) (st (fst (apply_evt N clk e t))) \<and>
    (st (fst (apply_evt N clk e t)) = TRIGGERED \<and> st t \<noteq> TRIGGERED \<longrightarrow>
       st t = COUNTDOWN \<and> e = EVT_TICK \<and> expired clk t) \<and>
    (st t = INACTIVE \<and> st (fst (apply_evt N clk e t)) \<noteq> INACTIVE \<longrightarrow> e = EVT_CMD_START) \<and>
    (st t = TRIGGERED \<and> st (fst (apply_evt N clk e t)) \<noteq> TRIGGERED \<longrightarrow>
       e \<in> {EVT_CMD_START, EVT_CMD_STOP} \<or> (\<exists>b. e = EVT_CMD_RESET b))"
proof -
  note tr = apply_evt_trans [OF assms, of e N clk]
  have "e = EVT_TICK \<and> expired clk t \<and> st t = COUNTDOWN"
    if "st (fst (apply_evt N clk e t)) = TRIGGERED" "st t \<noteq> TRIGGERED"
    using that by (cases e) (auto simp: apply_set_def handle_tick_st Let_def split: if_splits)
  moreover have "e = EVT_CMD_START" if "st t = INACTIVE" "st (fst (apply_evt N clk e t)) \<noteq> INACTIVE"
    using that by (cases e) (auto simp: apply_set_def handle_tick_st Let_def split: if_splits)
  moreover have "e \<in> {EVT_CMD_START, EVT_CMD_STOP} \<or> (\<exists>b. e = EVT_CMD_RESET b)"
    if "st t = TRIGGERED" "st (fst (apply_evt N clk e t)) \<noteq> TRIGGERED"
    using that by (cases e) (auto simp: apply_set_def handle_tick_st Let_def split: if_splits)
  ultimately show ?thesis using tr by blast
qed

theorem timer_refines_diagram_witness:
  "timer_trans COUNTDOWN S_Tick
     (st (fst (apply_evt nvs_map_ops (clk_at 7) EVT_TICK
        (one_minute\<lparr>st := COUNTDOWN, deadline_uptime_us := 6\<rparr>))))"
proof -
  let ?t = "one_minute\<lparr>st := COUNTDOWN, deadline_uptime_us := 6\<rparr>"
  have "cfg_ok (cfg ?t)" using cfg_ok_one_minute by simp
  from timer_refines_diagram [OF this, of EVT_TICK nvs_map_ops "clk_at 7"] show ?thesis by simp
qed

text \<open>
  C17: After any such run on a healthy flash the stored image is the persisted part of the state: a
  restart at any moment loads the same configuration, state, deadlines, saved remaining time and
  alarm mask that were in memory (only the three uptime fields start at zero).
\<close>
theorem timer_flash_in_step:
  assumes "nvs_lawful N" and "flash_ok N n" and "\<forall>a \<in> set acts. act_ok a"
  shows "(let t = foldl (timer_step N) (ls_timer_engine_init N clk n) acts
          in snd (timer_nvs_load N (timer_static (flash t))) = volatile_reset t)"
proof -
  have "nvs_lawful N \<longrightarrow> flash_inv N (foldl (timer_step N) (ls_timer_engine_init N clk n) acts)"
    by (rule timer_flash.run_inv) (use assms flash_inv_init in auto)
  then show ?thesis
    using flash_inv_synced [OF assms(1)] assms(1) by (simp add: flash_synced_def Let_def)
qed

lemma flash_ok_empty: "flash_ok nvs_map_ops Map.empty"
  by (simp add: flash_ok_def nvs_map_ops_def nvs_get_defs)

theorem timer_flash_in_step_witness:
  "(let t = foldl (timer_step nvs_map_ops) (ls_timer_engine_init nvs_map_ops (clk_at 0) Map.empty)
       [TaskAct (clk_at 1) EVT_CMD_START, TaskAct (clk_at 1000001) EVT_TICK, RebootAct (clk_at 5)]
    in snd (timer_nvs_load nvs_map_ops (timer_static (flash t))) = volatile_reset t)"
  using timer_flash_in_step [OF nvs_map_lawful flash_ok_empty,
    where acts = "[TaskAct (clk_at 1) EVT_CMD_START, TaskAct (clk_at 1000001) EVT_TICK, RebootAct (clk_at 5)]"
    and clk = "clk_at 0"]
  by simp

end
