(* ===== verification/LsTimerRecovery.thy ===== *)
theory LsTimerRecovery
  imports LsTimerProps
begin

text \<open>
  The countdown engine, continued: which alarms a tick fires, the vacation pause, recovery of a
  running countdown after a restart, and what the command handlers may post and print.
\<close>

section \<open>Alarms\<close>

definition alarm_due :: "'n timer \<Rightarrow> u32 \<Rightarrow> nat \<Rightarrow> bool" where
  "alarm_due t r i \<longleftrightarrow> i + 1 < unat (cfg_value (cfg t)) \<and> alarm_threshold_sec t i \<noteq> 0 \<and>
     r \<le> alarm_threshold_sec t i"

lemma bit_alarm_bit: "bit (alarm_bit i) j \<longleftrightarrow> i = j \<and> j < 32"
  by (cases "i \<le> j") (auto simp: alarm_bit_def bit_push_bit_iff bit_1_iff simp del: push_bit_of_1)

lemma mask_test: "i < 32 \<Longrightarrow> m AND alarm_bit i \<noteq> 0 \<longleftrightarrow> bit m i"
  unfolding bit_eq_iff by (auto simp: bit_and_iff bit_alarm_bit)

lemma u16_index: "i < 40 \<Longrightarrow> (of_nat (i + 1) :: u16) \<ge> v \<longleftrightarrow> unat v \<le> i + 1"
  by (simp add: word_le_nat_alt unat_of_nat take_bit_eq_mod del: of_nat_Suc of_nat_add)

lemma alarm_due_mask [simp]: "alarm_due (t\<lparr>alarms_fired_mask := m\<rparr>) r i = alarm_due t r i"
  by (simp add: alarm_due_def alarm_threshold_sec_def)

lemma publish_alarm_mask [simp]: "publish_alarm (t\<lparr>alarms_fired_mask := m\<rparr>) i r = publish_alarm t i r"
  by (simp add: publish_alarm_def)

lemma alarm_loop_Suc:
  "i < 32 \<Longrightarrow> alarm_loop (Suc k) i r t =
     (if unat (cfg_value (cfg t)) \<le> i + 1 then (t, [])
      else if bit (alarms_fired_mask t) i \<or> \<not> alarm_due t r i then alarm_loop k (i + 1) r t
      else (let r' = alarm_loop k (i + 1) r (t\<lparr>alarms_fired_mask := alarms_fired_mask t OR alarm_bit i\<rparr>)
            in (fst r', publish_alarm t i r # snd r')))"
  using u16_index [of i "cfg_value (cfg t)"] mask_test [of i "alarms_fired_mask t"]
  by (auto simp: alarm_due_def Let_def case_prod_beta simp del: of_nat_add of_nat_Suc)

definition newly_due :: "'n timer \<Rightarrow> u32 \<Rightarrow> nat \<Rightarrow> bool" where
  "newly_due t r j \<longleftrightarrow> alarm_due t r j \<and> \<not> bit (alarms_fired_mask t) j"

lemma range_Suc:
  "i \<le> j \<and> j < i + Suc k \<and> P j \<longleftrightarrow> j = i \<and> P i \<or> i + 1 \<le> j \<and> j < i + 1 + k \<and> P j"
  by (auto simp: Suc_le_eq le_less)

lemma alarm_loop_spec:
  "i + k \<le> 32 \<Longrightarrow>
     snd (alarm_loop k i r t) = map (\<lambda>j. publish_alarm t j r) (filter (newly_due t r) [i..<i + k]) \<and>
     (\<forall>j. bit (alarms_fired_mask (fst (alarm_loop k i r t))) j \<longleftrightarrow>
        bit (alarms_fired_mask t) j \<or> i \<le> j \<and> j < i + k \<and> newly_due t r j)"
proof (induction k arbitrary: i t)
  case 0
  then show ?case by auto
next
  case (Suc k)
  have i: "i < 32" and u: "[i..<i + Suc k] = i # [i + 1..<i + 1 + k]"
    using Suc.prems by (simp_all add: upt_conv_Cons)
  consider (out) "unat (cfg_value (cfg t)) \<le> i + 1"
    | (skip) "\<not> unat (cfg_value (cfg t)) \<le> i + 1" "\<not> newly_due t r i"
    | (fire) "\<not> unat (cfg_value (cfg t)) \<le> i + 1" "newly_due t r i"
    by blast
  then show ?case
  proof cases
    case out
    then have "\<not> newly_due t r j" if "i \<le> j" for j
      using that by (simp add: newly_due_def alarm_due_def)
    moreover from this have "filter (newly_due t r) [i..<i + Suc k] = []" by (simp add: filter_empty_conv)
    ultimately show ?thesis using out i by (auto simp: alarm_loop_Suc simp del: upt_Suc alarm_loop.simps)
  next
    case skip
    then have "alarm_loop (Suc k) i r t = alarm_loop k (i + 1) r t"
      using i by (auto simp: alarm_loop_Suc newly_due_def simp del: alarm_loop.simps)
    moreover have "filter (newly_due t r) [i..<i + Suc k] = filter (newly_due t r) [i + 1..<i + 1 + k]"
      using skip(2) by (simp only: u filter.simps if_False)
    ultimately show ?thesis using Suc.IH [of "i + 1" t] Suc.prems skip(2)
      by (simp only: range_Suc) simp
  next
    case fire
    define t' where "t' = t\<lparr>alarms_fired_mask := alarms_fired_mask t OR alarm_bit i\<rparr>"
    have l: "alarm_loop (Suc k) i r t =
        (fst (alarm_loop k (i + 1) r t'), publish_alarm t i r # snd (alarm_loop k (i + 1) r t'))"
      using fire i by (simp add: alarm_loop_Suc newly_due_def t'_def Let_def del: alarm_loop.simps)
    have m: "bit (alarms_fired_mask t') j \<longleftrightarrow> bit (alarms_fired_mask t) j \<or> j = i" for j
      using i by (auto simp: t'_def bit_or_iff bit_alarm_bit)
    have n: "newly_due t' r j \<longleftrightarrow> newly_due t r j \<and> j \<noteq> i" for j
      by (simp add: newly_due_def m) (auto simp: t'_def)
    have f: "filter (newly_due t' r) [i + 1..<i + 1 + k] = filter (newly_due t r) [i + 1..<i + 1 + k]"
      by (rule filter_cong) (auto simp: n)
    have p: "publish_alarm t' j r = publish_alarm t j r" for j by (simp add: t'_def)
    have "filter (newly_due t r) [i..<i + Suc k] = i # filter (newly_due t r) [i + 1..<i + 1 + k]"
      using fire(2) by (simp only: u filter.simps if_True)
    moreover have "i + 1 + k \<le> 32" using Suc.prems by simp
    note ih = Suc.IH [OF this, of t', unfolded f p]
    have "snd (alarm_loop k (i + 1) r t') =
        map (\<lambda>j. publish_alarm t j r) (filter (newly_due t r) [i + 1..<i + 1 + k])"
      by (rule ih [THEN conjunct1])
    moreover have "bit (alarms_fired_mask (fst (alarm_loop k (i + 1) r t'))) j \<longleftrightarrow>
        bit (alarms_fired_mask t) j \<or> j = i \<or> i + 1 \<le> j \<and> j < i + 1 + k \<and> newly_due t r j" for j
      using ih [THEN conjunct2] by (auto simp: m n)
    ultimately show ?thesis using fire(2) by (simp only: range_Suc l) auto
  qed
qed

lemma uint_alarm_threshold:
  assumes "cfg_ok (cfg t)" and "j < 31"
  shows "uint (alarm_threshold_sec t j) = (int j + 1) * uint (unit_to_sec (cfg_unit (cfg t)))"
proof -
  define u where "u = uint (unit_to_sec (cfg_unit (cfg t)))"
  have "cfg_unit (cfg t) \<in> {UNIT_MINUTE, UNIT_HOUR, UNIT_DAY}" using assms(1) by (simp add: cfg_ok_def)
  then have u: "0 \<le> u" "u \<le> 86400" by (auto simp: u_def)
  have j: "uint (of_nat (j + 1) :: u32) = int j + 1"
    using assms(2) by (subst uint_nat) (simp add: unat_of_nat del: of_nat_add of_nat_Suc)
  have k: "0 \<le> (int j + 1) * u" "(int j + 1) * u \<le> 31 * 86400"
    using assms(2) u mult_mono [of "int j + 1" 31 u 86400] by simp_all
  have "uint (alarm_threshold_sec t j) = ((int j + 1) * u) mod 2 ^ 32"
    using j by (simp add: alarm_threshold_sec_def uint_word_arith_bintrs(3) take_bit_eq_mod add.commute
        flip: u_def)
  also have "\<dots> = (int j + 1) * u" using k by (intro mod_pos_pos_trivial) simp_all
  finally show ?thesis by (simp add: u_def)
qed

lemma unit_positive: "cfg_ok c \<Longrightarrow> 60 \<le> uint (unit_to_sec (cfg_unit c))"
  by (auto simp: cfg_ok_def)

lemma newly_due_plain:
  assumes "cfg_ok (cfg t)" and "j < 31"
  shows "newly_due t r j \<longleftrightarrow> \<not> bit (alarms_fired_mask t) j \<and> j + 1 < unat (cfg_value (cfg t)) \<and>
     uint r \<le> (int j + 1) * uint (unit_to_sec (cfg_unit (cfg t)))"
proof -
  have "alarm_threshold_sec t j \<noteq> 0"
  proof
    assume "alarm_threshold_sec t j = 0"
    then have "uint (alarm_threshold_sec t j) = 0" by simp
    with uint_alarm_threshold [OF assms] unit_positive [OF assms(1)] show False by simp
  qed
  then show ?thesis
    by (auto simp: newly_due_def alarm_due_def word_le_def uint_alarm_threshold [OF assms])
qed

lemma uint_le_unat: "uint w \<le> int n \<Longrightarrow> unat w \<le> n"
  by (simp only: uint_nat of_nat_le_iff)

lemma check_alarms_newly_due:
  assumes "uint (cfg_alarm_count (cfg t)) \<le> 31"
  shows "snd (check_alarms N r t) =
      map (\<lambda>j. publish_alarm t j r) (filter (newly_due t r) [0..<unat (cfg_alarm_count (cfg t))]) \<and>
    (\<forall>j. bit (alarms_fired_mask (fst (check_alarms N r t))) j \<longleftrightarrow> bit (alarms_fired_mask t) j \<or>
       j < unat (cfg_alarm_count (cfg t)) \<and> newly_due t r j)"
proof (cases "cfg_alarm_count (cfg t) = 0")
  case True
  then show ?thesis by (simp add: check_alarms_def)
next
  case False
  have "0 + unat (cfg_alarm_count (cfg t)) \<le> 32"
    using uint_le_unat [of "cfg_alarm_count (cfg t)" 31] assms by simp
  note spec = alarm_loop_spec [OF this, of r t, unfolded add_0]
  define l where "l = alarm_loop (unat (cfg_alarm_count (cfg t))) 0 r t"
  have e: "check_alarms N r t = (if snd l = [] then fst l else nvs_save_runtime N (fst l), snd l)"
    using False assms by (simp add: check_alarms_def MAX_ALARMS_def Let_def case_prod_beta l_def)
  then have "alarms_fired_mask (fst (check_alarms N r t)) = alarms_fired_mask (fst l)" by simp
  then show ?thesis using spec unfolding e l_def by simp
qed



section \<open>The number of alarms of a countdown\<close>

lemma pubs_map_alarm: "pubs ''timer.alarm'' (map (\<lambda>j. publish_alarm t j r) xs) = length xs"
  by (induction xs) simp_all

definition fired_bits :: "u32 \<Rightarrow> nat set" where
  "fired_bits m = {j. bit m j}"

lemma finite_fired_bits [simp]: "finite (fired_bits m)"
  by (rule finite_subset [of _ "{..<32}"]) (auto simp: fired_bits_def dest: bit_imp_le_length)

lemma check_alarms_count:
  "card (fired_bits (alarms_fired_mask (fst (check_alarms N r t)))) =
     card (fired_bits (alarms_fired_mask t)) + pubs ''timer.alarm'' (snd (check_alarms N r t))"
proof (cases "uint (cfg_alarm_count (cfg t)) \<le> 31")
  case False
  then show ?thesis by (simp add: check_alarms_def MAX_ALARMS_def Let_def)
next
  case True
  let ?new = "{j. j < unat (cfg_alarm_count (cfg t)) \<and> newly_due t r j}"
  note c = check_alarms_newly_due [OF True, of N r]
  have "fired_bits (alarms_fired_mask (fst (check_alarms N r t))) = fired_bits (alarms_fired_mask t) \<union> ?new"
    using c by (auto simp: fired_bits_def)
  moreover have "fired_bits (alarms_fired_mask t) \<inter> ?new = {}"
    by (auto simp: fired_bits_def newly_due_def)
  moreover have "pubs ''timer.alarm'' (snd (check_alarms N r t)) = card ?new"
    using c by (simp add: pubs_map_alarm distinct_length_filter Int_def conj_commute)
  ultimately show ?thesis by (simp add: card_Un_disjoint)
qed

lemma alarm_pubs_other:
  "e \<noteq> EVT_TICK \<Longrightarrow> pubs ''timer.alarm'' (snd (apply_evt N clk e t)) = 0"
  by (cases e) (simp_all add: enter_countdown_def enter_inactive_def enter_vacation_def
      exit_vacation_to_countdown_def apply_set_def Let_def case_prod_beta split: option.split)

lemma mask_enter_triggered [simp]:
  "alarms_fired_mask (fst (enter_triggered N clk t)) = alarms_fired_mask t"
  "pubs ''timer.alarm'' (snd (enter_triggered N clk t)) = 0"
  by (simp_all add: enter_triggered_def Let_def)

lemma tick_countdown_alarm_count:
  "card (fired_bits (alarms_fired_mask (fst (tick_countdown N clk t)))) =
     card (fired_bits (alarms_fired_mask t)) + pubs ''timer.alarm'' (snd (tick_countdown N clk t))"
  by (simp add: tick_countdown_def Let_def case_prod_beta check_alarms_count)

lemma quiet_alarm_count:
  assumes "st t = COUNTDOWN \<or> st t = TRIGGERED" "quiet e"
  shows "card (fired_bits (alarms_fired_mask (fst (apply_evt N clk e t)))) =
      card (fired_bits (alarms_fired_mask t)) + pubs ''timer.alarm'' (snd (apply_evt N clk e t)) \<and>
    st (fst (apply_evt N clk e t)) \<in> {COUNTDOWN, TRIGGERED}"
proof (cases e)
  case EVT_TICK
  then show ?thesis using assms(1) tick_countdown_alarm_count [of N clk t]
    by (auto simp: handle_tick_st) (auto simp: handle_tick_def)
next
  case (EVT_CMD_SET u v a)
  then show ?thesis using assms(1) by (auto simp: apply_set_def Let_def)
qed (use assms in auto)

lemma quiet_run_alarm_count:
  "st t = COUNTDOWN \<or> st t = TRIGGERED \<Longrightarrow> \<forall>ce \<in> set es. quiet (snd ce) \<Longrightarrow>
     card (fired_bits (alarms_fired_mask (fst (task_run N es t)))) =
       card (fired_bits (alarms_fired_mask t)) + pubs ''timer.alarm'' (snd (task_run N es t))"
proof (induction es arbitrary: t)
  case (Cons ce es)
  let ?t = "fst (apply_evt N (fst ce) (snd ce) t)"
  have q: "quiet (snd ce)" using Cons.prems(2) by simp
  note step = quiet_alarm_count [OF Cons.prems(1) q, of N "fst ce"]
  then have "st ?t = COUNTDOWN \<or> st ?t = TRIGGERED" by auto
  from Cons.IH [OF this] Cons.prems(2) step show ?case by simp
qed simp

text \<open>
  Over a whole countdown, from its start through any number of ticks and configuration changes
  to the trigger and beyond, the number of \<open>timer.alarm\<close> events is the number of bits of the fired
  mask, hence at most 32: each alarm is announced at most once per arming.
\<close>
theorem alarms_at_most_once:
  assumes "cfg_ok (cfg t)" and "\<forall>ce \<in> set es. quiet (snd ce)"
  shows "let r = task_run N ((clk, EVT_CMD_START) # es) t
         in pubs ''timer.alarm'' (snd r) = card (fired_bits (alarms_fired_mask (fst r))) \<and>
            pubs ''timer.alarm'' (snd r) \<le> 32"
proof -
  let ?t = "fst (enter_countdown N clk (total_duration_sec (cfg t)) None True t)"
  have m: "alarms_fired_mask ?t = 0" "pubs ''timer.alarm''
      (snd (enter_countdown N clk (total_duration_sec (cfg t)) None True t)) = 0"
    by (simp_all add: enter_countdown_def Let_def)
  have "st ?t = COUNTDOWN \<or> st ?t = TRIGGERED" by simp
  from quiet_run_alarm_count [OF this assms(2), of N]
  have c: "card (fired_bits (alarms_fired_mask (fst (task_run N es ?t)))) =
      pubs ''timer.alarm'' (snd (task_run N es ?t))"
    by (simp add: m fired_bits_def)
  have "fired_bits w \<subseteq> {..<32}" for w by (auto simp: fired_bits_def dest: bit_imp_le_length)
  from card_mono [OF _ this] have "card (fired_bits w) \<le> 32" for w by simp
  then have "card (fired_bits (alarms_fired_mask (fst (task_run N es ?t)))) \<le> 32" .
  then show ?thesis using c m by (simp add: Let_def total_duration_nonzero [OF assms(1)])
qed

theorem alarms_at_most_once_witness:
  "pubs ''timer.alarm'' (snd (task_run nvs_map_ops ((clk_at 5, EVT_CMD_START) #
     replicate 9 (clk_at 6, EVT_TICK)) one_minute)) \<le> 32"
  using alarms_at_most_once [OF cfg_ok_one_minute, of "replicate 9 (clk_at 6, EVT_TICK)" nvs_map_ops "clk_at 5"]
  by (simp add: Let_def)

section \<open>The vacation pause\<close>

definition paused :: "u32 \<Rightarrow> u32 \<Rightarrow> int \<Rightarrow> 'n timer \<Rightarrow> bool" where
  "paused R M E t \<longleftrightarrow> st t = VACATION \<and> vacation_remaining_sec t = R \<and> alarms_fired_mask t = M \<and>
     vacation_end_uptime_us t = E \<and> 0 < E"

text \<open>What the pause ignores, and what ends it.\<close>

definition in_pause :: "int \<Rightarrow> clock \<times> evt \<Rightarrow> bool" where
  "in_pause E ce \<longleftrightarrow> (case snd ce of EVT_TICK \<Rightarrow> up_us (fst ce) < E | EVT_CMD_SET u v a \<Rightarrow> True
     | EVT_CMD_RESET b \<Rightarrow> True | EVT_CMD_VAC_SET d \<Rightarrow> True | _ \<Rightarrow> False)"

definition ends_pause :: "int \<Rightarrow> clock \<times> evt \<Rightarrow> bool" where
  "ends_pause E ce \<longleftrightarrow> 0 \<le> up_us (fst ce) \<and>
     (snd ce = EVT_CMD_VAC_CANCEL \<or> snd ce = EVT_TICK \<and> E \<le> up_us (fst ce))"

lemma paused_tick:
  "paused R M E t \<Longrightarrow> up_us clk < E \<Longrightarrow>
     paused R M E (fst (tick_vacation N clk t)) \<and> snd (tick_vacation N clk t) = []"
  by (simp add: paused_def tick_vacation_def)

lemma paused_step:
  "paused R M E t \<Longrightarrow> in_pause E ce \<Longrightarrow> paused R M E (fst (apply_evt N (fst ce) (snd ce) t)) \<and>
     pubs ''timer.triggered'' (snd (apply_evt N (fst ce) (snd ce) t)) = 0"
proof (cases "snd ce")
  case EVT_TICK
  moreover assume "paused R M E t" "in_pause E ce"
  ultimately show ?thesis using paused_tick [of R M E t "fst ce" N]
    by (simp add: in_pause_def handle_tick_def paused_def)
qed (simp_all add: paused_def in_pause_def apply_set_def Let_def)

lemma paused_run:
  "paused R M E t \<Longrightarrow> \<forall>ce \<in> set es. in_pause E ce \<Longrightarrow> paused R M E (fst (task_run N es t)) \<and>
     pubs ''timer.triggered'' (snd (task_run N es t)) = 0"
  by (induction es arbitrary: t) (simp_all add: paused_step)

lemma cdiv_round_exact: "0 \<le> x \<Longrightarrow> cdiv (x * 1000000 + 500000) 1000000 = x"
  by (subst cdiv_nonneg) simp_all

lemma remaining_of_armed:
  "st t = COUNTDOWN \<Longrightarrow> 0 < deadline_uptime_us t \<Longrightarrow>
     deadline_uptime_us t = up_us clk + uint r * 1000000 \<Longrightarrow> remaining_sec_now clk t = r"
proof -
  assume "st t = COUNTDOWN" "0 < deadline_uptime_us t"
    "deadline_uptime_us t = up_us clk + uint r * 1000000"
  then show ?thesis
    by (cases "uint r = 0")
      (simp_all add: remaining_sec_now_def Let_def cdiv_round_exact to_u32_def uint_0_iff)
qed

lemma pause_end:
  assumes "paused R M E t" "ends_pause E ce" "R \<noteq> 0"
  shows "let t' = fst (apply_evt N (fst ce) (snd ce) t) in st t' = COUNTDOWN \<and>
    remaining_sec_now (fst ce) t' = R \<and> alarms_fired_mask t' = M \<and> cfg t' = cfg t"
    and "pubs ''timer.triggered'' (snd (apply_evt N (fst ce) (snd ce) t)) = 0"
proof -
  have e: "apply_evt N (fst ce) (snd ce) t = exit_vacation_to_countdown N (fst ce) t"
    using assms(1,2) tick_vacation_over [of "fst ce" t N]
    by (auto simp: ends_pause_def paused_def handle_tick_def vacation_over_def)
  have "0 < uint R" using assms(3) by (simp add: word_neq_0_conv word_less_def)
  then have up: "0 < up_us (fst ce) + uint R * 1000000" using assms(2) by (simp add: ends_pause_def)
  show "let t' = fst (apply_evt N (fst ce) (snd ce) t) in st t' = COUNTDOWN \<and>
    remaining_sec_now (fst ce) t' = R \<and> alarms_fired_mask t' = M \<and> cfg t' = cfg t"
    unfolding e using assms(1,3) up
    by (simp add: Let_def exit_vacation_to_countdown_def paused_def enter_countdown_def
        remaining_of_armed)
  show "pubs ''timer.triggered'' (snd (apply_evt N (fst ce) (snd ce) t)) = 0"
    unfolding e using assms(1,3)
    by (simp add: Let_def exit_vacation_to_countdown_def paused_def enter_countdown_def)
qed


definition running :: "nvs_map timer" where
  "running = one_minute\<lparr>st := COUNTDOWN, deadline_uptime_us := 60000000\<rparr>"


section \<open>Restart of a running countdown\<close>

text \<open>
  An instant after the restart once the wall clock is set: both clocks run at the same rate and the wall clock counts
  whole seconds, so it is fixed by the uptime and the wall-clock time \<open>B\<close> of the boot in microseconds.
\<close>

definition synced_clock :: "int \<Rightarrow> clock \<Rightarrow> bool" where
  "synced_clock B c \<longleftrightarrow> time_is_valid (wall c) \<and> 0 \<le> up_us c \<and> wall c = (up_us c + B) div 1000000"

lemma second_bounds: "(x :: int) div 1000000 * 1000000 \<le> x \<and> x < (x div 1000000 + 1) * 1000000"
  by presburger

lemma synced_bounds: "synced_clock B c \<Longrightarrow> wall c * 1000000 \<le> up_us c + B \<and> up_us c + B < (wall c + 1) * 1000000"
  unfolding synced_clock_def using second_bounds [of "up_us c + B"] by metis

text \<open>The uptime deadline, once it is set again, lies in the second that begins at the wall-clock deadline.\<close>

definition waiting :: "int \<Rightarrow> int \<Rightarrow> 'n timer \<Rightarrow> bool" where
  "waiting B E t \<longleftrightarrow> st t = COUNTDOWN \<and> deadline_epoch t = E \<and> 0 < E \<and>
     (deadline_uptime_us t = 0 \<or> 0 < deadline_uptime_us t \<and> E * 1000000 \<le> deadline_uptime_us t + B \<and>
        deadline_uptime_us t + B < (E + 1) * 1000000)"

lemma deadline_in_second:
  assumes "synced_clock B c"
  shows "E * 1000000 \<le> up_us c + (E - wall c) * 1000000 + B \<and> up_us c + (E - wall c) * 1000000 + B < (E + 1) * 1000000"
  using synced_bounds [OF assms] by (simp add: algebra_simps)

lemma waiting_expired: "waiting B E t \<Longrightarrow> synced_clock B c \<Longrightarrow> expired c t \<Longrightarrow> E \<le> wall c"
  and waiting_overdue: "waiting B E t \<Longrightarrow> synced_clock B c \<Longrightarrow> E + 1 \<le> wall c \<Longrightarrow> expired c t"
  using synced_bounds [of B c] by (auto simp: waiting_def synced_clock_def expired_def split: if_splits)

lemma waiting_tick:
  assumes "waiting B E t" "synced_clock B c" "\<not> expired c t"
  shows "waiting B E (fst (tick_countdown N c t))"
proof (cases "deadline_uptime_us t > 0")
  case True
  then show ?thesis using assms by (auto simp: waiting_def tick_countdown_def expired_def Let_def case_prod_beta)
next
  case False
  then have "deadline_uptime_us t = 0" "wall c < E" "0 \<le> up_us c"
    using assms by (auto simp: waiting_def synced_clock_def expired_def)
  then show ?thesis using assms deadline_in_second [OF assms(2), of E]
    by (simp add: waiting_def synced_clock_def tick_countdown_def Let_def)
qed

lemma waiting_step:
  assumes "waiting B E t" "synced_clock B c" "quiet e" "\<not> (e = EVT_TICK \<and> expired c t)"
  shows "waiting B E (fst (apply_evt N c e t)) \<and> pubs ''timer.triggered'' (snd (apply_evt N c e t)) = 0"
proof (cases e)
  case EVT_TICK
  with assms have "\<not> expired c t" by simp
  then show ?thesis using assms EVT_TICK waiting_tick [OF assms(1,2), of N]
    by (simp add: handle_tick_def waiting_def tick_countdown_running)
qed (use assms in \<open>simp_all add: waiting_def apply_set_def Let_def\<close>)

lemma waiting_fires:
  assumes "waiting B E t" "expired c t"
  shows "st (fst (apply_evt N c EVT_TICK t)) = TRIGGERED \<and>
    pubs ''timer.triggered'' (snd (apply_evt N c EVT_TICK t)) = 1"
  using assms by (simp add: handle_tick_def waiting_def tick_countdown_expired pubs_enter_triggered)

definition wall_reached :: "int \<Rightarrow> (clock \<times> evt) list \<Rightarrow> bool" where
  "wall_reached E es \<longleftrightarrow> (\<exists>ce \<in> set es. snd ce = EVT_TICK \<and> E \<le> wall (fst ce))"

text \<open>What a run does to a waiting countdown: it triggers at most once, in the second of the deadline.\<close>

definition fires_in_second :: "int \<Rightarrow> (clock \<times> evt) list \<Rightarrow> 'n timer \<times> eff list \<Rightarrow> bool" where
  "fires_in_second E es r \<longleftrightarrow> st (fst r) \<in> {COUNTDOWN, TRIGGERED} \<and>
     pubs ''timer.triggered'' (snd r) = (if st (fst r) = TRIGGERED then 1 else 0) \<and>
     (\<not> wall_reached E es \<longrightarrow> st (fst r) = COUNTDOWN) \<and> (wall_reached (E + 1) es \<longrightarrow> st (fst r) = TRIGGERED)"

lemma waiting_run:
  "waiting B E t \<Longrightarrow> \<forall>ce \<in> set es. quiet (snd ce) \<and> synced_clock B (fst ce) \<Longrightarrow> fires_in_second E es (task_run N es t)"
proof (induction es arbitrary: t)
  case Nil
  then show ?case by (simp add: fires_in_second_def wall_reached_def waiting_def)
next
  case (Cons ce es)
  have c: "synced_clock B (fst ce)" "quiet (snd ce)" using Cons.prems(2) by simp_all
  show ?case
  proof (cases "snd ce = EVT_TICK \<and> expired (fst ce) t")
    case True
    then have r: "wall_reached E (ce # es)" using waiting_expired [OF Cons.prems(1) c(1)] by (simp add: wall_reached_def)
    show ?thesis using waiting_fires [OF Cons.prems(1)] True Cons.prems(2)
      by (simp add: fires_in_second_def r fired_run)
  next
    case False
    then have n: "wall_reached (E + 1) (ce # es) \<Longrightarrow> wall_reached (E + 1) es" "\<not> wall_reached E (ce # es) \<Longrightarrow> \<not> wall_reached E es"
      using waiting_overdue [OF Cons.prems(1) c(1)] by (auto simp: wall_reached_def)
    note s = waiting_step [OF Cons.prems(1) c False, of N]
    have "fires_in_second E es (task_run N es (fst (apply_evt N (fst ce) (snd ce) t)))"
      using Cons.IH s Cons.prems(2) by simp
    then show ?thesis using s n by (auto simp: fires_in_second_def)
  qed
qed

lemma init_of_synced:
  "flash_synced N t \<Longrightarrow> st t = COUNTDOWN \<Longrightarrow> 0 < deadline_epoch t \<Longrightarrow>
     ls_timer_engine_init N c (flash t) = boot_countdown N c (volatile_reset t)"
  by (simp add: ls_timer_engine_init_def flash_synced_def Let_def boot_countdown_def volatile_reset_def)

lemma waiting_after_boot:
  assumes "flash_synced N t" "st t = COUNTDOWN" "0 < deadline_epoch t"
    "\<not> time_is_valid (wall c) \<or> synced_clock B c"
  shows "waiting B (deadline_epoch t) (ls_timer_engine_init N c (flash t)) \<and>
    alarms_fired_mask (ls_timer_engine_init N c (flash t)) = alarms_fired_mask t \<and>
    cfg (ls_timer_engine_init N c (flash t)) = cfg t"
  unfolding init_of_synced [OF assms(1-3)] using assms deadline_in_second [of B c "deadline_epoch t"]
  by (auto simp: waiting_def boot_countdown_def volatile_reset_def synced_clock_def Let_def)

lemma reachable_synced:
  assumes "nvs_lawful N" "flash_ok N n" "\<forall>a \<in> set acts. act_ok a"
  shows "flash_synced N (foldl (timer_step N) (ls_timer_engine_init N clk n) acts)"
proof -
  have "nvs_lawful N \<longrightarrow> flash_inv N (foldl (timer_step N) (ls_timer_engine_init N clk n) acts)"
    by (rule timer_flash.run_inv) (use assms flash_inv_init in auto)
  then show ?thesis using flash_inv_synced assms(1) by blast
qed


definition clk_w :: "int \<Rightarrow> int \<Rightarrow> clock" where
  "clk_w u w = \<lparr> up_us = u, wall = w \<rparr>"


section \<open>Reset\<close>

text \<open>
  C9: A reset of a running or a fired countdown re-arms it with the full configured duration and a
  cleared alarm mask and announces itself, and the switch then fires exactly when a tick reaches
  the new deadline and not before; in INACTIVE and VACATION a reset changes nothing and publishes
  nothing, so it can neither arm a stopped switch nor end a vacation.
\<close>
theorem reset_rearms_or_ignored:
  assumes "cfg_ok (cfg t)" and "0 \<le> up_us clk" and "\<forall>ce \<in> set es. quiet (snd ce)"
  shows "let r = apply_evt N clk (EVT_CMD_RESET b) t; total = total_duration_sec (cfg t);
             D = up_us clk + uint total * 1000000; later = task_run N es (fst r)
    in if st t = COUNTDOWN \<or> st t = TRIGGERED
       then st (fst r) = COUNTDOWN \<and> remaining_sec_now clk (fst r) = total \<and>
            alarms_fired_mask (fst r) = 0 \<and> map eff_name (snd r) = [''timer.state'', ''timer.reset''] \<and>
            pubs ''timer.triggered'' (snd later) = (if reached D es then 1 else 0)
       else r = (t, [])"
proof (cases "st t = COUNTDOWN \<or> st t = TRIGGERED")
  case False
  then show ?thesis by (simp add: Let_def)
next
  case True
  let ?total = "total_duration_sec (cfg t)"
  note nz = total_duration_nonzero [OF assms(1)]
  let ?t = "fst (enter_countdown N clk ?total (Some (reset_by_str b)) True t)"
  have a: "armed (up_us clk + uint ?total * 1000000) ?t" by (rule enter_countdown_armed [OF assms(2) nz])
  have "remaining_sec_now clk ?t = ?total"
    by (rule remaining_of_armed) (use a in \<open>simp_all add: armed_def\<close>)
  then show ?thesis using True nz armed_run [OF a assms(3), of N]
    by (simp add: Let_def) (simp add: enter_countdown_def Let_def)
qed

theorem reset_rearms_or_ignored_witness:
  "st (fst (apply_evt nvs_map_ops (clk_at 7) (EVT_CMD_RESET RESET_BY_API) (one_minute\<lparr>st := TRIGGERED\<rparr>))) = COUNTDOWN"
proof -
  have "cfg_ok (cfg (one_minute\<lparr>st := TRIGGERED\<rparr>))" using cfg_ok_one_minute by simp
  from reset_rearms_or_ignored [OF this, of "clk_at 7" "[]" nvs_map_ops RESET_BY_API] show ?thesis
    by (simp add: clk_at_def Let_def del: apply_evt.simps)
qed

end
