(* ===== verification/LsTimerCommands.thy ===== *)
theory LsTimerCommands
  imports LsTimerRecovery
begin

text \<open>
  The eight commands of the countdown engine: the command table, what a handler may post to the
  task, what it prints, and three behaviours of the command path that the documents of the
  repository do not describe.
\<close>

definition timer_cmds :: "clock \<Rightarrow> (string \<times> (cli_ctx \<Rightarrow> 'n timer \<Rightarrow> timer_res)) list" where
  "timer_cmds clk =
     [(''timer.set'', timer_cli_set), (''timer.get'', timer_cli_get),
      (''timer.start'', timer_cli_start), (''timer.stop'', timer_cli_stop),
      (''timer.reset'', timer_cli_reset), (''timer.status'', timer_cli_status clk),
      (''vacation.set'', timer_cli_vac_set), (''vacation.cancel'', timer_cli_vac_cancel)]"

section \<open>What a handler may post\<close>

lemma set_unit_Inr: "set_unit u = Inr i \<Longrightarrow> i \<in> {-1, 0, 1, 2}"
  by (auto simp: set_unit_def unit_from_str_def split: option.splits if_splits)

lemma set_value_Inr: "set_value v = Inr i \<Longrightarrow> i = -1 \<or> 1 \<le> i \<and> i \<le> 60"
  by (auto simp: set_value_def MIN_VALUE_def MAX_VALUE_def split: option.splits if_splits)

lemma set_alarms_Inr: "set_alarms a v cur = Inr i \<Longrightarrow> -1 \<le> i \<and> i \<le> 31 \<and>
     (0 \<le> i \<longrightarrow> i < (if v \<ge> 0 then v else uint cur))"
  by (auto simp: set_alarms_def MAX_ALARMS_def Let_def split: if_splits)

lemma timer_cli_set_cases:
  "timer_cli_set ctx t = (e, out, rc) \<Longrightarrow>
     (case e of None \<Rightarrow> rc \<noteq> SK_OK
      | Some (EVT_CMD_SET u v a) \<Rightarrow> rc = SK_OK \<and> evt_ok (EVT_CMD_SET u v a) \<and> (u < 0 \<longleftrightarrow> v < 0) \<and>
          (0 \<le> a \<longrightarrow> a < (if 0 \<le> v then v else uint (cfg_value (cfg t))))
      | _ \<Rightarrow> False)"
  by (auto simp: timer_cli_set_def Let_def split: if_splits sum.splits
      dest!: set_unit_Inr set_value_Inr set_alarms_Inr)

lemma timer_cli_vac_set_cases:
  "timer_cli_vac_set ctx t = (e, out, rc) \<Longrightarrow>
     (e = None \<and> rc \<noteq> SK_OK) \<or> (\<exists>d. e = Some (EVT_CMD_VAC_SET d) \<and> rc = SK_OK \<and> 1 \<le> d \<and> d \<le> 60)"
  by (auto simp: timer_cli_vac_set_def MAX_VACATION_DAYS_def Let_def split: if_splits option.splits)

text \<open>
  Whatever a command line holds, a handler of the component posts at most one event, and only
  a well-formed one: unit and value are given together and in range, a new alarm count is at most
  31 and below the (new or current) value, a vacation is of 1 to 60 days. A refused command posts
  nothing; an accepted one posts its event, except the two that only read.
\<close>
theorem timer_commands_post_wellformed:
  assumes "(name, h) \<in> set (timer_cmds clk)" and "h ctx t = (e, out, rc)"
  shows "(\<forall>x. e = Some x \<longrightarrow> evt_ok x) \<and>
    (rc \<noteq> SK_OK \<longrightarrow> e = None) \<and>
    (rc = SK_OK \<longrightarrow> e \<noteq> None \<or> name \<in> {''timer.get'', ''timer.status''}) \<and>
    (\<forall>u v a. e = Some (EVT_CMD_SET u v a) \<longrightarrow> (u < 0 \<longleftrightarrow> v < 0) \<and>
       (0 \<le> a \<longrightarrow> a < (if 0 \<le> v then v else uint (cfg_value (cfg t)))))"
proof -
  consider "h = timer_cli_set" | "h = timer_cli_vac_set"
    | "h \<in> {timer_cli_start, timer_cli_stop, timer_cli_reset, timer_cli_vac_cancel}"
    | "(name, h) \<in> {(''timer.get'', timer_cli_get), (''timer.status'', timer_cli_status clk)}"
    using assms(1) by (auto simp: timer_cmds_def)
  then show ?thesis
  proof cases
    case 1
    then show ?thesis using timer_cli_set_cases [of ctx t e out rc] assms(2)
      by (auto split: option.splits evt.splits)
  next
    case 2
    then show ?thesis using timer_cli_vac_set_cases [of ctx t e out rc] assms(2) by auto
  next
    case 3
    then show ?thesis using assms(2)
      by (auto simp: timer_cli_start_def timer_cli_stop_def timer_cli_reset_def timer_cli_vac_cancel_def)
  next
    case 4
    then show ?thesis using assms(2)
      by (auto simp: timer_cli_get_def timer_cli_status_def Let_def split: if_splits)
  qed
qed

definition human_line :: "string list \<Rightarrow> cli_ctx" where
  "human_line args = human_ctx True args"

theorem timer_commands_post_wellformed_witness:
  "\<exists>out. timer_cli_set (human_line [''minute'', ''5'', ''alarm'', ''2'']) one_minute =
      (Some (EVT_CMD_SET 0 5 2), out, SK_OK) \<and> evt_ok (EVT_CMD_SET 0 5 2)"
proof -
  have r: "timer_cli_set (human_line [''minute'', ''5'', ''alarm'', ''2'']) one_minute =
      (Some (EVT_CMD_SET 0 5 2), [CliOk None], SK_OK)"
    by code_simp
  have "(''timer.set'', timer_cli_set) \<in> set (timer_cmds (clk_at 0))" by (simp add: timer_cmds_def)
  from timer_commands_post_wellformed [OF this r] show ?thesis using r by simp
qed

section \<open>What the status says\<close>

text \<open>
  The remaining time that a status, a tick and the saved vacation time report is the true
  distance to the deadline rounded to the nearest second: it is never more than half a second off
  while the countdown runs, for every countdown the configuration allows.
\<close>
theorem remaining_sec_accurate:
  assumes "st t = COUNTDOWN" and "0 < deadline_uptime_us t" and "up_us clk < deadline_uptime_us t"
    and "deadline_uptime_us t - up_us clk \<le> 5184000 * 1000000"
  shows "\<bar>uint (s_remaining_sec (ls_timer_engine_status clk t)) * 1000000 -
    (deadline_uptime_us t - up_us clk)\<bar> \<le> 500000"
proof -
  define d where "d = deadline_uptime_us t - up_us clk"
  have d: "0 < d" "d \<le> 5184000 * 1000000" using assms by (simp_all add: d_def)
  have "(d + 500000) div 1000000 \<le> 5184000" using d by linarith
  moreover have "0 \<le> (d + 500000) div 1000000" using d by simp
  ultimately have "uint (to_u32 ((d + 500000) div 1000000)) = (d + 500000) div 1000000"
    by (intro uint_to_u32_id) simp_all
  moreover have "\<bar>(d + 500000) div 1000000 * 1000000 - d\<bar> \<le> 500000"
    using div_mult_mod_eq [of "d + 500000" 1000000] pos_mod_sign [of 1000000 "d + 500000"]
      pos_mod_bound [of 1000000 "d + 500000"] by linarith
  ultimately show ?thesis using assms d
    by (simp add: ls_timer_engine_status_def remaining_sec_now_def Let_def cdiv_nonneg flip: d_def)
qed

theorem remaining_sec_accurate_witness:
  "\<bar>uint (s_remaining_sec (ls_timer_engine_status (clk_at 10400000) running)) * 1000000 -
     (deadline_uptime_us running - 10400000)\<bar> \<le> 500000"
  using remaining_sec_accurate [of running "clk_at 10400000"]
  by (simp add: running_def clk_at_def)

lemma length_dec_int: "- (10 ^ 19) < i \<Longrightarrow> i < 10 ^ 19 \<Longrightarrow> length (dec_int i) \<le> 20"
proof -
  assume i: "- (10 ^ 19) < i" "i < 10 ^ 19"
  have "nat i < 10 ^ Suc 18" "nat (- i) < 10 ^ Suc 18"
    using i by (simp_all add: nat_less_iff)
  from this [THEN length_dec_nat] show ?thesis by (simp add: dec_int_def)
qed

lemma length_jq_jk: "length (jq s) = length s + 2" "length (jk s) = length s + 3"
  by (simp_all add: jq_def jk_def q_def)

lemma length_state_str: "length (ls_timer_engine_state_str s) \<le> 9"
  by (cases s) simp_all

text \<open>
  The machine-mode status is never cut by its 256-byte buffer, for every state and every value
  of the 64-bit epochs: it is the whole JSON object, closing brace included.
\<close>
theorem status_json_complete:
  assumes "\<bar>deadline_epoch t\<bar> \<le> 2 ^ 63" and "\<bar>vacation_end_epoch t\<bar> \<le> 2 ^ 63"
  shows "timer_cli_status clk (ctx\<lparr>is_machine_mode := True\<rparr>) t =
    (None, [CliOk (Some (''{'' @ jk ''state'' @ jq (ls_timer_engine_state_str (st t)) @ '','' @
      jk ''remaining_sec'' @ dec_u32 (remaining_sec_now clk t) @ '','' @
      jk ''deadline_epoch'' @ dec_int (deadline_epoch t) @ '','' @
      jk ''vacation_end_epoch'' @ dec_int (vacation_end_epoch t) @ '','' @
      jk ''vacation_remaining_sec'' @ dec_u32 (vacation_remaining_sec t) @ '','' @
      jk ''alarms_fired_mask'' @ dec_u32 (alarms_fired_mask t) @ ''}''))], SK_OK)"
proof -
  have "length (dec_int (deadline_epoch t)) \<le> 20" "length (dec_int (vacation_end_epoch t)) \<le> 20"
    by (rule length_dec_int; use assms in simp)+
  then show ?thesis
    using length_dec_u32 [of "remaining_sec_now clk t"] length_dec_u32 [of "vacation_remaining_sec t"]
      length_dec_u32 [of "alarms_fired_mask t"] length_state_str [of "st t"]
    by (simp add: timer_cli_status_def status_json_def snprintf_fits length_jq_jk)
qed

theorem status_json_complete_witness:
  "timer_cli_status (clk_at 0) ((human_line [])\<lparr>is_machine_mode := True\<rparr>) one_minute =
    (None, [CliOk (Some (''{'' @ jk ''state'' @ jq ''inactive'' @ '','' @
      jk ''remaining_sec'' @ dec_u32 0 @ '','' @ jk ''deadline_epoch'' @ dec_int 0 @ '','' @
      jk ''vacation_end_epoch'' @ dec_int 0 @ '','' @ jk ''vacation_remaining_sec'' @ dec_u32 0 @ '','' @
      jk ''alarms_fired_mask'' @ dec_u32 0 @ ''}''))], SK_OK)"
  using status_json_complete [of one_minute "clk_at 0" "human_line []"]
  by (simp add: one_minute_def timer_static_def remaining_sec_now_def)

section \<open>Three divergences\<close>

text \<open>
  A vacation requested after a restart and before the wall clock is set disarms the switch. The
  countdown is preserved by the restart, but its remaining time reads 0 until the clock is set, and
  \<open>enter_vacation\<close> saves that 0: at the cancel the device goes to INACTIVE, its stored deadline
  erased, where the vacation help promises that the countdown resumes.
\<close>
theorem vacation_without_clock_disarms:
  assumes "nvs_lawful N" and "flash_ok N n" and "\<forall>a \<in> set acts. act_ok a"
    and "t = foldl (timer_step N) (ls_timer_engine_init N clk n) acts"
    and "st t = COUNTDOWN" and "0 < deadline_epoch t"
    and "\<not> time_is_valid (wall c0)" and "\<not> time_is_valid (wall c1)"
  shows "let r = task_run N [(c1, EVT_CMD_VAC_SET d), (c2, EVT_CMD_VAC_CANCEL)] (timer_step N t (RebootAct c0))
    in st (fst r) = INACTIVE \<and> deadline_epoch (fst r) = 0 \<and> pubs ''timer.triggered'' (snd r) = 0"
proof -
  have s: "flash_synced N t" unfolding assms(4) by (rule reachable_synced [OF assms(1-3)])
  define t0 where "t0 = timer_step N t (RebootAct c0)"
  have "t0 = boot_countdown N c0 (volatile_reset t)"
    using init_of_synced [OF s assms(5,6)] by (simp add: t0_def)
  then have "st t0 = COUNTDOWN" "deadline_uptime_us t0 = 0"
    using assms by (simp_all add: boot_countdown_def volatile_reset_def)
  moreover from this have "remaining_sec_now c1 t0 = 0"
    using assms(8) by (simp add: remaining_sec_now_def)
  ultimately show ?thesis
    by (simp add: Let_def enter_vacation_def exit_vacation_to_countdown_def enter_inactive_def
        del: timer_step.simps flip: t0_def)
qed

theorem vacation_without_clock_disarms_witness:
  "st (fst (task_run nvs_map_ops [(clk_w 2000000 5, EVT_CMD_VAC_SET 7), (clk_w 9000000 12, EVT_CMD_VAC_CANCEL)]
     (timer_step nvs_map_ops (foldl (timer_step nvs_map_ops)
        (ls_timer_engine_init nvs_map_ops (clk_w 0 1700000000) Map.empty)
        [TaskAct (clk_w 5000000 1700000005) EVT_CMD_START]) (RebootAct (clk_w 1000000 4))))) = INACTIVE"
proof -
  let ?t = "foldl (timer_step nvs_map_ops) (ls_timer_engine_init nvs_map_ops (clk_w 0 1700000000) Map.empty)
    [TaskAct (clk_w 5000000 1700000005) EVT_CMD_START]"
  have t: "st ?t = COUNTDOWN" "0 < deadline_epoch ?t"
    by (simp_all add: ls_timer_engine_init_def timer_nvs_load_def timer_static_def nvs_map_ops_def
        nvs_get_defs default_config_def total_duration_sec_def enter_countdown_def
        time_is_valid_def TIME_VALID_THRESHOLD_def clk_w_def Let_def)
  show ?thesis
    using vacation_without_clock_disarms [OF nvs_map_lawful flash_ok_empty _ refl t, of "clk_w 1000000 4"
        "clk_w 2000000 5" 7 "clk_w 9000000 12"]
    by (simp add: Let_def time_is_valid_def TIME_VALID_THRESHOLD_def
        clk_w_def del: task_run_Cons foldl_Cons timer_step.simps)
qed

definition twenty_alarms :: "nvs_map timer" where
  "twenty_alarms = one_minute\<lparr>cfg := \<lparr> cfg_unit = UNIT_HOUR, cfg_value = 24, cfg_alarm_count = 20 \<rparr>\<rparr>"

text \<open>
  Three requests that the help texts and comments allow are refused, or accepted against the
  rule of the header: \<open>timer set alarm 3\<close> alone is refused, because the word \<open>alarm\<close> is also the
  first positional argument and is taken for the unit; \<open>vacation.set\<close> with a JSON number is
  refused as a missing argument; and \<open>timer set hour 5\<close> keeps an alarm count of 20, which is not
  below the value.
\<close>
theorem timer_set_divergences:
  "fst (snd (timer_cli_set (human_line [''alarm'', ''3'']) one_minute)) =
     [CliUsage (Some SET_USAGE) (Some ''unit: minute | hour | day'') None] \<and>
   snd (snd (timer_cli_set (human_line [''alarm'', ''3'']) one_minute)) = SK_ERR_INVALID_ARG \<and>
   snd (snd (timer_cli_vac_set (machine_ctx (JObj [(''args'', JObj [(''days'', JNum 7)])]) True)
     one_minute)) = SK_ERR_MISSING_ARG \<and>
   fst (timer_cli_set (human_line [''hour'', ''5'']) twenty_alarms) = Some (EVT_CMD_SET 1 5 (-1)) \<and>
   cfg (fst (apply_evt nvs_map_ops (clk_at 0) (EVT_CMD_SET 1 5 (-1)) twenty_alarms)) =
     \<lparr> cfg_unit = UNIT_HOUR, cfg_value = 5, cfg_alarm_count = 20 \<rparr>"
proof -
  have a: "timer_cli_set (human_line [''alarm'', ''3'']) one_minute =
      (None, [CliUsage (Some SET_USAGE) (Some ''unit: minute | hour | day'') None], SK_ERR_INVALID_ARG)"
    by code_simp
  have m: "timer_cli_vac_set (machine_ctx (JObj [(''args'', JObj [(''days'', JNum 7)])]) True) one_minute =
      (None, vac_usage, SK_ERR_MISSING_ARG)"
    by (simp add: timer_cli_vac_set_def sk_cli_arg_after_def sk_cli_arg_def machine_ctx_def machine_argv_def)
  have h: "fst (timer_cli_set (human_line [''hour'', ''5'']) twenty_alarms) = Some (EVT_CMD_SET 1 5 (-1))"
    by code_simp
  show ?thesis using a m h
    by (simp add: Let_def apply_set_def unit_of_int_def twenty_alarms_def)
qed

end
