(* ===== verification/LsTimerRun.thy ===== *)
theory LsTimerRun
  imports LsSystem LsTimerCommands
begin

text \<open>
  The countdown engine behind its queue: the command lines of any number of tasks, ticks, reset requests of the event
  bus, the turns of the task, the factory-reset hook and restarts, in any order. Nothing is assumed of the events: what
  enters the queue is what the handlers of the component post.
\<close>

record 'n timer_dev =
  td_timer :: "'n timer"
  td_q :: "evt list"
  td_wait :: "evt list"

datatype timer_move =
    CommandLine clock string cli_ctx    \<comment> \<open>a task runs the handler of a command\<close>
  | SenderTurn nat                      \<comment> \<open>a task that waits for room in the queue\<close>
  | TickFires
  | ResetAsked "string option"          \<comment> \<open>\<open>timer.reset.requested\<close> with its payload\<close>
  | TaskTurn clock
  | FactoryReset clock
  | Reboot clock

definition td_post :: "(evt list \<times> evt list \<Rightarrow> evt list \<times> evt list) \<Rightarrow> 'n timer_dev \<Rightarrow> 'n timer_dev" where
  "td_post f D = (case f (td_q D, td_wait D) of (qu, w) \<Rightarrow> D\<lparr>td_q := qu, td_wait := w\<rparr>)"

definition run_command :: "clock \<Rightarrow> string \<Rightarrow> cli_ctx \<Rightarrow> 'n timer \<Rightarrow> evt option" where
  "run_command clk name ctx t = (case map_of (timer_cmds clk) name of None \<Rightarrow> None | Some h \<Rightarrow> fst (h ctx t))"

primrec timer_dev_do :: "'n nvs_ops \<Rightarrow> 'n timer_dev \<Rightarrow> timer_move \<Rightarrow> 'n timer_dev" where
  "timer_dev_do N D (CommandLine clk name ctx) =
     (case run_command clk name ctx (td_timer D) of None \<Rightarrow> D | Some e \<Rightarrow> td_post (send_blocking e) D)"
| "timer_dev_do N D (SenderTurn i) = td_post (sender_runs i) D"
| "timer_dev_do N D TickFires = D\<lparr>td_q := post TIMER_QUEUE_LEN EVT_TICK (td_q D)\<rparr>"
| "timer_dev_do N D (ResetAsked p) = D\<lparr>td_q := post TIMER_QUEUE_LEN (on_reset_requested p) (td_q D)\<rparr>"
| "timer_dev_do N D (TaskTurn clk) =
     (case td_q D of [] \<Rightarrow> D | e # qu \<Rightarrow> D\<lparr>td_q := qu, td_timer := fst (apply_evt N clk e (td_timer D))\<rparr>)"
| "timer_dev_do N D (FactoryReset clk) = D\<lparr>td_timer := fst (timer_factory_reset N clk (td_timer D))\<rparr>"
| "timer_dev_do N D (Reboot clk) =
     \<lparr> td_timer = ls_timer_engine_init N clk (flash (td_timer D)), td_q = [], td_wait = [] \<rparr>"

definition timer_dev_start :: "'n nvs_ops \<Rightarrow> clock \<Rightarrow> 'n \<Rightarrow> 'n timer_dev" where
  "timer_dev_start N clk n = \<lparr> td_timer = ls_timer_engine_init N clk n, td_q = [], td_wait = [] \<rparr>"

section \<open>What the queue holds\<close>

lemma run_command_ok: "run_command clk name ctx t = Some e \<Longrightarrow> evt_ok e"
proof -
  assume r: "run_command clk name ctx t = Some e"
  then obtain h where "map_of (timer_cmds clk) name = Some h" and e: "fst (h ctx t) = Some e"
    by (auto simp: run_command_def split: option.splits)
  then have "h \<in> snd ` set (timer_cmds clk)" by (force dest: map_of_SomeD)
  then consider "h = timer_cli_set" | "h = timer_cli_vac_set"
    | "h \<in> {timer_cli_start, timer_cli_stop, timer_cli_reset, timer_cli_vac_cancel, timer_cli_get, timer_cli_status clk}"
    by (auto simp: timer_cmds_def)
  then show ?thesis
  proof cases
    case 1
    then show ?thesis using timer_cli_set_cases [of ctx t "fst (h ctx t)" "fst (snd (h ctx t))" "snd (snd (h ctx t))"] e
      by (auto split: evt.splits)
  next
    case 2
    then show ?thesis using timer_cli_vac_set_cases [of ctx t "fst (h ctx t)" "fst (snd (h ctx t))" "snd (snd (h ctx t))"] e
      by auto
  next
    case 3
    then show ?thesis using e
      by (auto simp: timer_cli_start_def timer_cli_stop_def timer_cli_reset_def timer_cli_vac_cancel_def timer_cli_get_def
          timer_cli_status_def Let_def split: if_splits)
  qed
qed

definition dev_ok :: "'n timer_dev \<Rightarrow> bool" where
  "dev_ok D \<longleftrightarrow> cfg_ok (cfg (td_timer D)) \<and> list_all evt_ok (td_q D) \<and> list_all evt_ok (td_wait D)"

lemma dev_ok_post:
  "dev_ok D \<Longrightarrow> evt_ok e \<Longrightarrow> dev_ok (td_post (send_blocking e) D)" "dev_ok D \<Longrightarrow> dev_ok (td_post (sender_runs i) D)"
  "dev_ok D \<Longrightarrow> evt_ok e \<Longrightarrow> dev_ok (D\<lparr>td_q := post TIMER_QUEUE_LEN e (td_q D)\<rparr>)"
  by (auto simp: dev_ok_def td_post_def send_blocking_def sender_runs_def post_def list_all_iff dest: in_set_takeD in_set_dropD)

lemma dev_ok_step: "dev_ok D \<Longrightarrow> dev_ok (timer_dev_do N D m)"
proof (cases m)
  case (CommandLine clk name ctx)
  assume D: "dev_ok D"
  show ?thesis
  proof (cases "run_command clk name ctx (td_timer D)")
    case (Some e)
    then show ?thesis using run_command_ok [OF Some] D by (simp add: CommandLine dev_ok_post)
  qed (simp add: CommandLine D)
next
  case (TaskTurn clk)
  assume D: "dev_ok D"
  then show ?thesis
    by (cases "td_q D") (simp_all add: TaskTurn dev_ok_def cfg_ok_apply_evt)
next
  case (FactoryReset clk)
  assume D: "dev_ok D"
  then show ?thesis
    by (simp add: FactoryReset dev_ok_def timer_factory_reset_def Let_def timer_static_def cfg_ok_default)
next
  case (Reboot clk)
  then show ?thesis by (simp add: dev_ok_def cfg_ok_init)
next
  case (ResetAsked p)
  assume "dev_ok D"
  moreover have "evt_ok (on_reset_requested p)" by (simp add: on_reset_requested_def split: option.split)
  ultimately show ?thesis by (simp add: ResetAsked dev_ok_post)
qed (simp_all add: dev_ok_post)

interpretation timer_dev: stepping "timer_dev_do N" dev_ok "\<lambda>m. True" for N :: "'n nvs_ops"
  by unfold_locales (rule dev_ok_step)

lemma total_duration_exact:
  "cfg_ok c \<Longrightarrow> uint (total_duration_sec c) = uint (unit_to_sec (cfg_unit c)) * uint (cfg_value c)"
proof -
  assume c: "cfg_ok c"
  have u: "uint (ucast (cfg_value c) :: u32) = uint (cfg_value c)"
    by (simp add: uint_up_ucast is_up)
  from c have "cfg_unit c \<in> {UNIT_MINUTE, UNIT_HOUR, UNIT_DAY}" by (simp add: cfg_ok_def)
  then have "0 \<le> uint (unit_to_sec (cfg_unit c)) \<and> uint (unit_to_sec (cfg_unit c)) \<le> 86400" by auto
  with c have "uint (unit_to_sec (cfg_unit c)) * uint (cfg_value c) \<le> 86400 * 60"
    by (intro mult_mono) (simp_all add: cfg_ok_def)
  then have "uint (unit_to_sec (cfg_unit c)) * uint (cfg_value c) < 2 ^ 32" by simp
  then show ?thesis
    by (simp add: total_duration_sec_def uint_word_arith_bintrs(3) u take_bit_eq_mod)
qed

text \<open>
  C35: From any flash content whatever (also a corrupt or a foreign one), after a start-up and any sequence of command lines of
  the component (whatever their arguments, human or machine), ticks, reset requests, turns of the countdown task,
  factory resets and restarts, at any instants, with senders that wait for the queue, and on any NVS: the unit
  is one of the three, the value is 1 to 60, the alarm count is at most 31, and the full duration is the product of unit and
  value, computed without wrap-around, between one minute and sixty days. (The rule of the
  header that the alarm count is below the value is not kept: \<open>timer_set_divergences\<close>.)
\<close>
theorem timer_config_invariant:
  fixes N :: "'n nvs_ops" and n :: 'n and clk :: clock and ms :: "timer_move list"
  defines "c \<equiv> cfg (td_timer (foldl (timer_dev_do N) (timer_dev_start N clk n) ms))"
  shows "cfg_unit c \<in> {UNIT_MINUTE, UNIT_HOUR, UNIT_DAY} \<and> uint (cfg_value c) \<in> {1..60} \<and> uint (cfg_alarm_count c) \<le> 31 \<and>
    uint (total_duration_sec c) = uint (unit_to_sec (cfg_unit c)) * uint (cfg_value c) \<and>
    uint (total_duration_sec c) \<in> {60..5184000}"
proof -
  have "dev_ok (timer_dev_start N clk n)" by (simp add: timer_dev_start_def dev_ok_def cfg_ok_init)
  then have "dev_ok (foldl (timer_dev_do N) (timer_dev_start N clk n) ms)" by (rule timer_dev.run_inv) simp
  then have c: "cfg_ok c" by (simp add: dev_ok_def c_def)
  show ?thesis using total_duration_exact [OF c] total_duration_bounds [OF c] c by (simp add: cfg_ok_def)
qed

theorem timer_config_invariant_witness:
  "uint (cfg_value (cfg (td_timer (foldl (timer_dev_do nvs_map_ops)
     (timer_dev_start nvs_map_ops (clk_at 0) [(NVS_TMR, ''value'') \<mapsto> NvU16 999])
     [CommandLine (clk_at 1) ''timer.set'' (human_line [''day'', ''61'']), TaskTurn (clk_at 2),
      CommandLine (clk_at 3) ''timer.set'' (human_line [''day'', ''60'']), TaskTurn (clk_at 4)])))) \<in> {1..60}"
  using timer_config_invariant [of nvs_map_ops "clk_at 0" "[(NVS_TMR, ''value'') \<mapsto> NvU16 999]"
    "[CommandLine (clk_at 1) ''timer.set'' (human_line [''day'', ''61'']), TaskTurn (clk_at 2),
      CommandLine (clk_at 3) ''timer.set'' (human_line [''day'', ''60'']), TaskTurn (clk_at 4)]"] by blast

end
