(* ===== verification/SkCliProps.thy ===== *)
theory SkCliProps
  imports SkCli
begin

text \<open>
  What the command line promises to every component that registers a command: the authentication
  and confirmation gates, which command a human line selects, that every machine request is
  answered by one envelope, the tables that are filled at start-up, and the duration format.
\<close>

section \<open>The gates\<close>

text \<open>
  C12: No line that arrives on an unauthenticated transport runs a protected handler: for every
  command table, token issuer, JSON parser, line and device state, replacing the handlers of all
  commands that require authentication by arbitrary other ones changes neither the resulting state
  nor one character of the output.
\<close>
theorem unauthenticated_noninterference:
  "sk_cli_dispatch_line ready parse
     (map (rehandle (\<lambda>c. if requires_auth c then other c else handler c)) cmds) issuer line s =
   sk_cli_dispatch_line ready parse cmds issuer line s"
  unfolding sk_cli_dispatch_line_def
  by (rule dispatch_common_rehandle [where issues = False])
    (auto simp: reject_if_unauthenticated_def split: if_splits)

text \<open>
  C24: Once a token issuer is registered and does issue, a critical command runs only when the
  request carries a confirm token (whose validity its handler then checks): handlers that differ
  only on token-less invocations of critical commands are indistinguishable, on both transports.
\<close>
theorem critical_needs_token:
  assumes "issuer = Some iss" and "\<And>s. case iss s of (s', rc, hex, ttl) \<Rightarrow> rc = ESP_OK \<and> hex \<noteq> []"
  shows "dispatch_common ready parse
     (map (rehandle (\<lambda>c ctx. if critical c \<and> confirm_token ctx = None then other c ctx else handler c ctx)) cmds)
     issuer auth line s =
   dispatch_common ready parse cmds issuer auth line s"
  by (rule dispatch_common_rehandle [where issues = True]) (use assms in auto)

definition wipe_cmd :: "nat command" where
  "wipe_cmd = \<lparr> cmd_name = ''wipe'', cmd_usage = None, critical = True, hidden = False,
     requires_auth = False, handler = (\<lambda>ctx s. (0, [], SK_OK)) \<rparr>"

definition fixed_issuer :: "nat issuer" where
  "fixed_issuer = Some (\<lambda>s. (s, ESP_OK, ''c0ffee'', 60))"

theorem critical_needs_token_witness:
  "fst (dispatch_common True (\<lambda>l. None) [wipe_cmd] fixed_issuer True ''wipe'' 5) = 5"
proof -
  let ?other = "\<lambda>(c :: nat command) ctx s. (s, [], SK_OK)"
  have "dispatch_common True (\<lambda>l. None) (map (rehandle (\<lambda>c ctx. if critical c \<and> confirm_token ctx = None
       then ?other c ctx else handler c ctx)) [wipe_cmd]) fixed_issuer True ''wipe'' 5 =
     dispatch_common True (\<lambda>l. None) [wipe_cmd] fixed_issuer True ''wipe'' 5"
    by (rule critical_needs_token) (auto simp: fixed_issuer_def)
  moreover have "fst (dispatch_common True (\<lambda>l. None) [wipe_cmd] fixed_issuer True ''wipe'' 5) = 5"
    by code_simp
  ultimately show ?thesis by simp
qed

section \<open>Resolution\<close>

text \<open>
  A human line selects the command of its longest prefix: the first \<open>m\<close> tokens joined by dots
  name the command, at most six tokens are joined, and no longer prefix of the line names one.
\<close>
theorem resolve_longest_prefix:
  "resolve_human cmds toks = Some (cmd, m) \<longleftrightarrow>
     1 \<le> m \<and> m \<le> min 6 (length toks) \<and> length (dot_join (take m toks)) + 1 < 128 \<and>
     dot_join (take m toks) \<noteq> [] \<and> sk_cli_lookup cmds (dot_join (take m toks)) = Some cmd \<and>
     (\<forall>k. m < k \<and> k \<le> min 6 (length toks) \<and> length (dot_join (take k toks)) + 1 < 128 \<and>
        dot_join (take k toks) \<noteq> [] \<longrightarrow> sk_cli_lookup cmds (dot_join (take k toks)) = None)"
  unfolding resolve_human_def resolve_from_Some try_prefix_def Let_def
  by (auto simp: not_le split: if_splits)

theorem resolve_longest_prefix_witness:
  "resolve_human [wipe_cmd, wipe_cmd\<lparr>cmd_name := ''wipe.all''\<rparr>] [''wipe'', ''all'', ''now''] =
     Some (wipe_cmd\<lparr>cmd_name := ''wipe.all''\<rparr>, 2)"
proof -
  have "\<not> (\<exists>k. 2 < k \<and> k \<le> min 6 (length [''wipe'', ''all'', ''now'']) \<and> k \<noteq> 3)" by auto
  then have "\<forall>k. 2 < k \<and> k \<le> min 6 (length [''wipe'', ''all'', ''now'']) \<longrightarrow> k = 3" by blast
  then show ?thesis
    by (subst resolve_longest_prefix)
      (auto simp: wipe_cmd_def sk_cli_lookup_def)
qed

section \<open>One answer per request\<close>

definition envelopes :: "cli_out list \<Rightarrow> nat" where
  "envelopes outs = length (filter (writes_envelope True) outs)"

lemma envelopes_simps [simp]:
  "envelopes [] = 0"
  "envelopes (x # xs) = (if writes_envelope True x then 1 else 0) + envelopes xs"
  "envelopes (xs @ ys) = envelopes xs + envelopes ys"
  by (simp_all add: envelopes_def)

lemma envelopes_0: "envelopes xs = 0 \<longleftrightarrow> \<not> list_ex (writes_envelope True) xs"
  by (induction xs) simp_all

lemma run_machine_one:
  "(\<And>ctx s. envelopes (fst (snd (handler cmd ctx s))) \<le> 1) \<Longrightarrow> envelopes (snd (run_machine cmd ctx s)) = 1"
proof -
  assume h: "\<And>ctx s. envelopes (fst (snd (handler cmd ctx s))) \<le> 1"
  obtain s' outs rc where r: "handler cmd ctx s = (s', outs, rc)" by (cases "handler cmd ctx s")
  have "envelopes outs \<le> 1" using h [of ctx s] by (simp add: r)
  then show ?thesis using envelopes_0 [of outs]
    by (cases "list_ex (writes_envelope True) outs") (simp_all add: run_machine_def r)
qed

text \<open>
  Every machine request that parses gets exactly one response envelope, whichever branch it
  takes (missing or unknown command, authentication refused, token issued, handler run, whether or
  not the handler wrote a response itself), provided no handler writes two.
\<close>
theorem machine_request_answered_once:
  assumes "\<And>c ctx s. c \<in> set cmds \<Longrightarrow> envelopes (fst (snd (handler c ctx s))) \<le> 1"
    and "parse line = Some msg"
  shows "envelopes (snd (snd (dispatch_machine parse cmds issuer auth line s))) = 1"
proof -
  have run: "envelopes (snd (run_machine c ctx s)) = 1" if "sk_cli_lookup cmds name = Some c" for c ctx s name
    by (rule run_machine_one) (rule assms(1) [OF lookup_in [OF that]])
  have "?thesis" if a: "jstr (jget msg ''cmd'') = Some name" "sk_cli_lookup cmds name = Some c"
      "reject_if_unauthenticated ((machine_ctx msg auth)\<lparr>command_name := name\<rparr>) c = None" for name c
    using assms(2) a run [OF a(2)]
    by (simp add: dispatch_machine_def Let_def case_prod_beta split: bool.split option.split)
  then show ?thesis using assms(2)
    by (cases "jstr (jget msg ''cmd'')"; cases "sk_cli_lookup cmds (the (jstr (jget msg ''cmd'')))";
        cases "reject_if_unauthenticated ((machine_ctx msg auth)\<lparr>command_name := the (jstr (jget msg ''cmd''))\<rparr>)
          (the (sk_cli_lookup cmds (the (jstr (jget msg ''cmd'')))))")
      (auto simp: dispatch_machine_def Let_def reject_if_unauthenticated_def split: if_splits)
qed

definition wipe_request :: json where
  "wipe_request = JObj [(''id'', JNum 7), (''cmd'', JStr ''wipe'')]"

theorem machine_request_answered_once_witness:
  "envelopes (snd (snd (dispatch_machine (\<lambda>l. Some wipe_request) [wipe_cmd] fixed_issuer False ''x'' 5))) = 1"
  by (rule machine_request_answered_once) (auto simp: wipe_cmd_def)

section \<open>The tables at start-up\<close>

lemma register_new:
  "length cmds < SK_CLI_MAX_COMMANDS \<Longrightarrow> cmd_name c \<notin> cmd_name ` set cmds \<Longrightarrow>
     sk_cli_register True cmds c = (ESP_OK, cmds @ [c])"
  using replace_first_None [of "\<lambda>x. cmd_name x = cmd_name c" c cmds]
  by (auto simp: sk_cli_register_def image_iff)

lemma register_all:
  "distinct (map cmd_name (cmds @ cs)) \<Longrightarrow> length (cmds @ cs) \<le> SK_CLI_MAX_COMMANDS \<Longrightarrow>
     foldl (\<lambda>t c. snd (sk_cli_register True t c)) cmds cs = cmds @ cs"
proof (induction cs arbitrary: cmds)
  case (Cons c cs)
  have "sk_cli_register True cmds c = (ESP_OK, cmds @ [c])"
    using Cons.prems by (intro register_new) auto
  then show ?case using Cons.IH [of "cmds @ [c]"] Cons.prems by simp
qed simp

lemma lookup_distinct:
  "distinct (map cmd_name cs) \<Longrightarrow> c \<in> set cs \<Longrightarrow> sk_cli_lookup cs (cmd_name c) = Some c"
  by (induction cs) (auto simp: sk_cli_lookup_def rev_image_eqI)

text \<open>
  Registering up to 128 commands of different names at start-up loses none: each is found under
  its name afterwards, nothing else is, and any further registration of whatever name leaves the
  table within its capacity and every other command reachable.
\<close>
theorem registered_commands_found:
  assumes "distinct (map cmd_name cs)" and "length cs \<le> SK_CLI_MAX_COMMANDS"
  shows "let t = foldl (\<lambda>t c. snd (sk_cli_register True t c)) [] cs in
    (\<forall>c \<in> set cs. sk_cli_lookup t (cmd_name c) = Some c) \<and>
    (\<forall>n. n \<notin> cmd_name ` set cs \<longrightarrow> sk_cli_lookup t n = None) \<and>
    (\<forall>x. length (snd (sk_cli_register True t x)) \<le> SK_CLI_MAX_COMMANDS \<and>
       (\<forall>c \<in> set cs. cmd_name c \<noteq> cmd_name x \<longrightarrow>
          sk_cli_lookup (snd (sk_cli_register True t x)) (cmd_name c) = Some c))"
proof -
  have t: "foldl (\<lambda>t c. snd (sk_cli_register True t c)) [] cs = cs"
    using register_all [of "[]" cs] assms by simp
  have l: "\<forall>c \<in> set cs. sk_cli_lookup cs (cmd_name c) = Some c"
    using lookup_distinct [OF assms(1)] by blast
  have n: "\<forall>n. n \<notin> cmd_name ` set cs \<longrightarrow> sk_cli_lookup cs n = None"
    by (auto simp: sk_cli_lookup_def find_None_iff)
  show ?thesis unfolding Let_def t
    using l n commands.reg_bound [OF assms(2)] by (simp add: commands.reg_other)
qed

theorem registered_commands_found_witness:
  "sk_cli_lookup (foldl (\<lambda>t c. snd (sk_cli_register True t c)) []
     [wipe_cmd, wipe_cmd\<lparr>cmd_name := ''help''\<rparr>]) ''help'' = Some (wipe_cmd\<lparr>cmd_name := ''help''\<rparr>)"
  using registered_commands_found [of "[wipe_cmd, wipe_cmd\<lparr>cmd_name := ''help''\<rparr>]"]
  by (simp add: wipe_cmd_def SK_CLI_MAX_COMMANDS_def Let_def del: foldl_Cons foldl_Nil)

section \<open>Durations\<close>

definition duration_parts :: "nat \<Rightarrow> (nat \<times> string) list" where
  "duration_parts s = filter (\<lambda>p. fst p \<noteq> 0)
     [(s div 86400, ''d''), (s mod 86400 div 3600, ''h''), (s mod 3600 div 60, ''m''), (s mod 60, ''s'')]"

fun space_join :: "string list \<Rightarrow> string" where
  "space_join [] = []"
| "space_join [x] = x"
| "space_join (x # xs) = x @ '' '' @ space_join xs"

lemma fmt_append_fits:
  "v \<noteq> 0 \<Longrightarrow> length out + length (dec_nat v) + length sfx + 1 < cap \<Longrightarrow>
     fmt_append cap out v sfx = out @ (if out = [] then [] else '' '') @ dec_nat v @ sfx"
  by (auto simp: fmt_append_def intro: snprintf_fits)

lemma fmt_append_0 [simp]: "fmt_append cap out 0 sfx = out"
  by (simp add: fmt_append_def)

lemma dec_nat_length_2: "n < 100 \<Longrightarrow> length (dec_nat n) \<le> 2"
  using length_dec_nat [of n 1] by simp

lemma dec_nat_length_5: "n < 100000 \<Longrightarrow> length (dec_nat n) \<le> 5"
  using length_dec_nat [of n 4] by simp

text \<open>
  In a buffer of 32 bytes every duration prints in full: the non-zero components among days,
  hours, minutes and seconds, each with its letter, separated by one space, and \<open>0s\<close> for zero; the
  components add up to the number of seconds.
\<close>
theorem fmt_duration_spec:
  "sk_cli_fmt_duration 32 secs =
     (if secs = 0 then ''0s'' else space_join (map (\<lambda>(v, u). dec_nat v @ u) (duration_parts (unat secs)))) \<and>
   unat secs = unat secs div 86400 * 86400 + unat secs mod 86400 div 3600 * 3600 +
     unat secs mod 3600 div 60 * 60 + unat secs mod 60"
proof -
  define s where "s = unat secs"
  define d h m c where "d = s div 86400" and "h = s mod 86400 div 3600" and "m = s mod 3600 div 60" and "c = s mod 60"
  have s: "s < 2 ^ 32" using unsigned_less [of secs] by (simp add: s_def)
  have hm: "s mod 86400 mod 3600 = s mod 3600" "s mod 3600 mod 60 = s mod 60"
    by (simp_all add: mod_mod_cancel)
  have b: "d < 100000" "h < 100" "m < 100" "c < 100"
  proof -
    show "d < 100000" using s by (simp add: d_def less_mult_imp_div_less)
    show "h < 100" by (simp add: h_def less_mult_imp_div_less order_less_trans [OF mod_less_divisor])
    show "m < 100" by (simp add: m_def less_mult_imp_div_less order_less_trans [OF mod_less_divisor])
    show "c < 100" by (simp add: c_def order_less_trans [OF mod_less_divisor])
  qed
  note len = dec_nat_length_5 [OF b(1)] dec_nat_length_2 [OF b(2)] dec_nat_length_2 [OF b(3)] dec_nat_length_2 [OF b(4)]
  have z: "secs = 0 \<longleftrightarrow> s = 0" by (simp add: s_def unat_eq_0)
  have sum: "s = d * 86400 + h * 3600 + m * 60 + c"
    unfolding d_def h_def m_def c_def
    using div_mult_mod_eq [of s 86400] div_mult_mod_eq [of "s mod 86400" 3600]
      div_mult_mod_eq [of "s mod 3600" 60] hm by linarith
  have "sk_cli_fmt_duration 32 secs = (if s = 0 then ''0s'' else
      fmt_append 32 (fmt_append 32 (fmt_append 32 (fmt_append 32 [] d ''d'') h ''h'') m ''m'') c ''s'')"
    by (simp add: sk_cli_fmt_duration_def Let_def z snprintf_def hm flip: s_def d_def h_def m_def c_def)
  also have "\<dots> = (if s = 0 then ''0s'' else
      space_join (map (\<lambda>(v, u). dec_nat v @ u) (filter (\<lambda>p. fst p \<noteq> 0) [(d, ''d''), (h, ''h''), (m, ''m''), (c, ''s'')])))"
    using len dec_nat_nonempty
    by (cases "d = 0"; cases "h = 0"; cases "m = 0"; cases "c = 0") (simp_all add: fmt_append_fits)
  finally have f: "sk_cli_fmt_duration 32 secs = (if s = 0 then ''0s'' else
      space_join (map (\<lambda>(v, u). dec_nat v @ u) (filter (\<lambda>p. fst p \<noteq> 0) [(d, ''d''), (h, ''h''), (m, ''m''), (c, ''s'')])))" .
  show ?thesis
    unfolding f z duration_parts_def s_def [symmetric] d_def [symmetric] h_def [symmetric]
      m_def [symmetric] c_def [symmetric]
    by (intro conjI refl) (rule sum)
qed

end
