(* ===== verification/LsRelayProps.thy ===== *)
theory LsRelayProps
  imports LsRelay
begin

text \<open>
  What the relay promises: the exact drive of an undisturbed fire sequence, that every sequence ends
  with the line idle whatever the other tasks do meanwhile, that an abort is honoured within one
  slice of 100 ms, that the configuration stays within its limits and in step with flash, and a
  case in which a line is left energized.
\<close>

section \<open>The worker and the other tasks\<close>

lemma emit_simps [simp]:
  "slice (emit p w) = slice w" "dev (emit p w) = fst p" "tr (emit p w) = tr w @ map Did (snd p)"
  by (simp_all add: emit_def)

lemma set_dev_simps [simp]:
  "slice (set_dev f w) = slice w" "dev (set_dev f w) = f (dev w)" "tr (set_dev f w) = tr w"
  by (simp_all add: set_dev_def)

lemma task_delay_simps [simp]:
  "slice (task_delay env ms w) = slice w + 1"
  "dev (task_delay env ms w) = fst (env (slice w) (dev w))"
  "tr (task_delay env ms w) = tr w @ Slept ms # map Other (snd (env (slice w) (dev w)))"
  by (simp_all add: task_delay_def case_prod_beta)

lemma write_simps [simp]:
  "rcfg (fst (gpio_write_idle r)) = rcfg r" "rcfg (fst (gpio_write_active r)) = rcfg r"
  "phase (fst (gpio_write_idle r)) = phase r" "phase (fst (gpio_write_active r)) = phase r"
  "abort_flag (fst (gpio_write_idle r)) = abort_flag r"
  "abort_flag (fst (gpio_write_active r)) = abort_flag r"
  "active_flag (fst (gpio_write_idle r)) = False" "active_flag (fst (gpio_write_active r)) = True"
  "rflash (fst (gpio_write_idle r)) = rflash r" "rflash (fst (gpio_write_active r)) = rflash r"
  "default_gpio (fst (gpio_write_idle r)) = default_gpio r"
  "default_gpio (fst (gpio_write_active r)) = default_gpio r"
  by (simp_all add: gpio_write_idle_def gpio_write_active_def)

definition end_event :: "bool \<Rightarrow> eff" where
  "end_event ok = Publish ''relay.fire.end''
     (Some (if ok then ''{'' @ jk ''ok'' @ ''true,'' @ jk ''aborted'' @ ''false}''
            else ''{'' @ jk ''ok'' @ ''false,'' @ jk ''aborted'' @ ''true}''))"

lemma aborted_simps [simp]:
  "slice (aborted w) = slice w"
  "tr (aborted w) = tr w @ map Did (snd (gpio_write_idle (dev w))) @ [Did (end_event False)]"
  "dev (aborted w) = (fst (gpio_write_idle (dev w)))\<lparr>phase := RELAY_IDLE, fire_started_us := 0\<rparr>"
  by (simp_all add: aborted_def Let_def end_event_def)

lemma finished_simps [simp]:
  "slice (finished w) = slice w"
  "tr (finished w) = tr w @ [Did (end_event True)]"
  "dev (finished w) = (dev w)\<lparr>phase := RELAY_IDLE, fire_started_us := 0\<rparr>"
  by (simp_all add: finished_def Let_def end_event_def)

definition idle_writes :: "ls_relay_config \<Rightarrow> eff list" where
  "idle_writes c = (if gpio_num c \<ge> 0 then [GpioLevel (gpio_num c) (idle_level c)] else [])"

lemma snd_write_idle [simp]: "snd (gpio_write_idle r) = idle_writes (rcfg r)"
  by (simp add: gpio_write_idle_def idle_writes_def)

section \<open>Invariants of the fire sequence\<close>

lemma cancellable_sleep_step:
  "cancellable_sleep env n w = (if n = 0 \<or> abort_flag (dev w) then (abort_flag (dev w), w)
     else cancellable_sleep env (n - min n 100) (task_delay env (min n 100) w))"
  by (subst cancellable_sleep.simps) (auto simp: Let_def min_def)

lemma sleep_invariant:
  assumes "\<And>w ms. P w \<Longrightarrow> P (task_delay env ms w)" and "P w"
  shows "P (snd (cancellable_sleep env n w))"
  using assms(2)
proof (induction n arbitrary: w rule: less_induct)
  case (less n)
  show ?case
  proof (cases "n = 0 \<or> abort_flag (dev w)")
    case True
    then show ?thesis using less.prems by (subst cancellable_sleep_step) auto
  next
    case False
    then have "n - min n 100 < n" by auto
    from less.IH [OF this assms(1) [OF less.prems]] False show ?thesis
      by (subst cancellable_sleep_step) auto
  qed
qed

text \<open>
  The contract of a fire sequence: \<open>held\<close> holds at every point of it, \<open>released\<close> whenever the worker
  has driven the line idle and not active since. Both survive the other tasks' slices and the
  worker's own bookkeeping. Then every sequence ends released, whatever branch it takes.
\<close>

locale fire_inv =
  fixes env :: "'n renv"
    and held :: "'n wstate \<Rightarrow> bool"
    and released :: "'n wstate \<Rightarrow> bool"
  assumes rel_held: "released w \<Longrightarrow> held w"
    and idle_rel: "held w \<Longrightarrow> released (emit (gpio_write_idle (dev w)) w)"
    and active_held: "held w \<Longrightarrow> held (emit (gpio_write_active (dev w)) w)"
    and delay_held: "held w \<Longrightarrow> held (task_delay env ms w)"
    and delay_rel: "released w \<Longrightarrow> released (task_delay env ms w)"
    and book_held: "held w \<Longrightarrow> held (set_dev (\<lambda>r. r\<lparr>phase := p, fire_started_us := t, abort_flag := a\<rparr>) w)"
    and book_rel: "released w \<Longrightarrow> released (set_dev (\<lambda>r. r\<lparr>phase := p, fire_started_us := t, abort_flag := a\<rparr>) w)"
    and publish_held: "held w \<Longrightarrow> held (emit (dev w, [Publish n pl]) w)"
    and publish_rel: "released w \<Longrightarrow> released (emit (dev w, [Publish n pl]) w)"
begin

lemma set_fields:
  "set_dev (\<lambda>r. r\<lparr>phase := p, fire_started_us := t\<rparr>) w =
     set_dev (\<lambda>r. r\<lparr>phase := p, fire_started_us := t, abort_flag := abort_flag (dev w)\<rparr>) w"
  "set_dev (\<lambda>r. r\<lparr>phase := p\<rparr>) w =
     set_dev (\<lambda>r. r\<lparr>phase := p, fire_started_us := fire_started_us (dev w), abort_flag := abort_flag (dev w)\<rparr>) w"
  "set_dev (\<lambda>r. r\<lparr>abort_flag := a, fire_started_us := t\<rparr>) w =
     set_dev (\<lambda>r. r\<lparr>phase := phase (dev w), fire_started_us := t, abort_flag := a\<rparr>) w"
  by (simp_all add: set_dev_def)

lemma sleep_held: "held w \<Longrightarrow> held (snd (cancellable_sleep_ms env ms w))"
  unfolding cancellable_sleep_ms_def by (rule sleep_invariant [where P = held]) (rule delay_held)

lemma sleep_rel: "released w \<Longrightarrow> released (snd (cancellable_sleep_ms env ms w))"
  unfolding cancellable_sleep_ms_def by (rule sleep_invariant [where P = released]) (rule delay_rel)

lemma aborted_rel: "held w \<Longrightarrow> released (aborted w)"
  unfolding aborted_def Let_def set_fields by (intro publish_rel book_rel idle_rel)

lemma finished_rel: "released w \<Longrightarrow> released (finished w)"
  unfolding finished_def Let_def set_fields by (intro publish_rel book_rel)

lemma pulse_loop_rel: "held w \<Longrightarrow> (k = 0 \<longrightarrow> released w) \<Longrightarrow> released (pulse_loop env k w)"
proof (induction k arbitrary: w)
  case 0
  then show ?case by (simp add: finished_rel)
next
  case (Suc k)
  let ?on = "emit (gpio_write_active (dev w)) w"
  let ?s1 = "cancellable_sleep_ms env (ucast (pulse_duration_sec (rcfg (dev ?on))) * 1000) ?on"
  let ?off = "emit (gpio_write_idle (dev (snd ?s1))) (snd ?s1)"
  let ?s2 = "cancellable_sleep_ms env (ucast (pulse_duration_sec (rcfg (dev ?off))) * 1000) ?off"
  have h1: "held (snd ?s1)" using Suc.prems(1) by (simp only: sleep_held active_held)
  have r2: "released (snd ?s2)" using h1 by (simp only: sleep_rel idle_rel)
  have "pulse_loop env (Suc k) w = (if fst ?s1 then aborted (snd ?s1)
      else if fst ?s2 then aborted (snd ?s2) else pulse_loop env k (snd ?s2))"
    by (simp add: Let_def case_prod_beta del: emit_simps)
  then show ?case using h1 r2 Suc.IH [OF rel_held [OF r2]]
    by (simp add: aborted_rel rel_held del: emit_simps)
qed

lemma drive_phase_rel: "held w \<Longrightarrow> released (drive_phase env w)"
proof -
  assume h: "held w"
  have p: "held (set_dev (\<lambda>r. r\<lparr>phase := x\<rparr>) w)" for x using h by (simp add: set_fields book_held)
  have "unat (pulse_cycles c) \<noteq> 0" for c
    by (simp add: pulse_cycles_def Let_def unat_eq_0)
  then have pl: "released (pulse_loop env (unat (pulse_cycles c)) w')" if "held w'" for c w'
    using pulse_loop_rel [OF that] by blast
  have st: "released (if ab then aborted w' else finished (emit (gpio_write_idle (dev w')) w'))"
    if "held w'" for ab w'
    using that by (simp only: aborted_rel finished_rel idle_rel split: if_split) simp
  show ?thesis unfolding drive_phase_def Let_def case_prod_beta
    by (simp only: pl p st sleep_held active_held split: if_split) simp
qed

lemma run_fire_released: "held w \<Longrightarrow> released (run_fire_sequence env clk reason w)"
proof -
  assume h: "held w"
  define w1 where "w1 = emit (dev (set_dev (\<lambda>r. r\<lparr>abort_flag := False, fire_started_us := up_us clk\<rparr>) w),
      [publishf ''relay.fire.start'' (''{'' @ jk ''reason'' @ jq (reason_str reason) @ ''}'')])
    (set_dev (\<lambda>r. r\<lparr>abort_flag := False, fire_started_us := up_us clk\<rparr>) w)"
  have "held w1" using h unfolding w1_def publishf_def set_fields(3) by (simp only: publish_held book_held)
  moreover have "released (if ab then aborted w' else drive_phase env w')" if "held w'" for ab w'
    using that by (simp only: aborted_rel drive_phase_rel split: if_split) simp
  ultimately show ?thesis
    unfolding run_fire_sequence_def Let_def case_prod_beta w1_def [symmetric]
    by (simp only: set_fields(2) book_held sleep_held drive_phase_rel split: if_split) simp
qed

end

section \<open>The line on the pin\<close>

text \<open>
  The level last driven on a pin, by anybody; \<open>None\<close> once the pin was reset (or never driven).
\<close>

fun pin_eff :: "int \<Rightarrow> int option \<Rightarrow> eff \<Rightarrow> int option" where
  "pin_eff p acc (GpioLevel g l) = (if p = g then Some l else acc)"
| "pin_eff p acc (GpioReset g) = (if p = g then None else acc)"
| "pin_eff p acc _ = acc"

fun pin_trace :: "int \<Rightarrow> int option \<Rightarrow> trace \<Rightarrow> int option" where
  "pin_trace p acc (Did e) = pin_eff p acc e"
| "pin_trace p acc (Other e) = pin_eff p acc e"
| "pin_trace p acc (Slept ms) = acc"

definition pin_level :: "int \<Rightarrow> trace list \<Rightarrow> int option" where
  "pin_level p ts = foldl (pin_trace p) None ts"

lemma fold_did [simp]: "foldl (pin_trace p) acc (map Did es) = foldl (pin_eff p) acc es"
  by (induction es arbitrary: acc) simp_all

lemma fold_other [simp]: "foldl (pin_trace p) acc (map Other es) = foldl (pin_eff p) acc es"
  by (induction es arbitrary: acc) simp_all

lemma pin_level_append [simp]: "pin_level p (ts @ us) = foldl (pin_trace p) (pin_level p ts) us"
  by (simp add: pin_level_def)

lemma pin_level_task_delay [simp]:
  "pin_level p (tr (task_delay env ms w)) = foldl (pin_eff p) (pin_level p (tr w)) (snd (env (slice w) (dev w)))"
  by simp

text \<open>
  The line discipline: unless the relay is active, the configured pin is at its idle level. A device
  whose other tasks keep the discipline, and do not rewire or energize the relay, is \<open>disciplined\<close>.
\<close>

definition line_ok :: "'n relay \<Rightarrow> int option \<Rightarrow> bool" where
  "line_ok r lvl \<longleftrightarrow> (active_flag r \<or> lvl = Some (idle_level (rcfg r)))"

definition same_line :: "'n relay \<Rightarrow> 'n relay \<Rightarrow> bool" where
  "same_line r r' \<longleftrightarrow> gpio_num (rcfg r') = gpio_num (rcfg r) \<and> invert (rcfg r') = invert (rcfg r)"

definition disciplined :: "'n renv \<Rightarrow> bool" where
  "disciplined env \<longleftrightarrow> (\<forall>k r acc. same_line r (fst (env k r)) \<and>
     (active_flag (fst (env k r)) \<longrightarrow> active_flag r) \<and>
     (0 \<le> gpio_num (rcfg r) \<longrightarrow> line_ok r acc \<longrightarrow>
        line_ok (fst (env k r)) (foldl (pin_eff (gpio_num (rcfg r))) acc (snd (env k r)))))"

lemma disciplined_step:
  assumes "disciplined env"
  shows "gpio_num (rcfg (fst (env k r))) = gpio_num (rcfg r)" "invert (rcfg (fst (env k r))) = invert (rcfg r)"
    "\<not> active_flag r \<Longrightarrow> \<not> active_flag (fst (env k r))"
    "0 \<le> gpio_num (rcfg r) \<Longrightarrow> line_ok r acc \<Longrightarrow> line_ok (fst (env k r)) (foldl (pin_eff (gpio_num (rcfg r))) acc (snd (env k r)))"
  using assms unfolding disciplined_def same_line_def by blast+

definition on_line :: "int \<Rightarrow> bool \<Rightarrow> 'n wstate \<Rightarrow> bool" where
  "on_line g pol w \<longleftrightarrow> 0 \<le> g \<and> gpio_num (rcfg (dev w)) = g \<and> invert (rcfg (dev w)) = pol \<and>
     line_ok (dev w) (pin_level g (tr w))"

definition off_line :: "int \<Rightarrow> bool \<Rightarrow> 'n wstate \<Rightarrow> bool" where
  "off_line g pol w \<longleftrightarrow> on_line g pol w \<and> \<not> active_flag (dev w)"

lemma line_ok_fields [simp]:
  "line_ok (r\<lparr>phase := p, fire_started_us := t, abort_flag := a\<rparr>) lvl = line_ok r lvl"
  by (simp add: line_ok_def)

interpretation line: fire_inv env "\<lambda>w. disciplined env \<longrightarrow> on_line g pol w"
    "\<lambda>w. disciplined env \<longrightarrow> off_line g pol w" for env :: "'n renv" and g pol
proof
  fix w :: "'n wstate" and ms p t a n pl
  show "disciplined env \<longrightarrow> on_line g pol w" if "disciplined env \<longrightarrow> off_line g pol w"
    using that by (simp add: off_line_def)
  show "disciplined env \<longrightarrow> off_line g pol (emit (gpio_write_idle (dev w)) w)"
    if "disciplined env \<longrightarrow> on_line g pol w"
    using that by (auto simp: off_line_def on_line_def line_ok_def idle_writes_def idle_level_def)
  show "disciplined env \<longrightarrow> on_line g pol (emit (gpio_write_active (dev w)) w)"
    if "disciplined env \<longrightarrow> on_line g pol w"
    using that by (auto simp: on_line_def line_ok_def)
  show "disciplined env \<longrightarrow> on_line g pol (task_delay env ms w)"
    if "disciplined env \<longrightarrow> on_line g pol w"
    using that disciplined_step [where env = env and k = "slice w" and r = "dev w"]
    by (auto simp: on_line_def)
  show "disciplined env \<longrightarrow> off_line g pol (task_delay env ms w)"
    if "disciplined env \<longrightarrow> off_line g pol w"
    using that disciplined_step [where env = env and k = "slice w" and r = "dev w"]
    by (auto simp: on_line_def off_line_def)
qed (simp_all add: on_line_def off_line_def)

text \<open>What the other tasks can do to the relay between two slices: any of the commands, or the reset hook.\<close>

datatype relay_act = RCommand string cli_ctx clock bool | RFactoryReset

fun relay_act_step :: "'n nvs_ops \<Rightarrow> 'n relay \<Rightarrow> relay_act \<Rightarrow> 'n relay \<times> eff list" where
  "relay_act_step N r (RCommand name ctx clk qok) =
     (case map_of (relay_cmds N clk qok) name of
        None \<Rightarrow> (r, [])
      | Some h \<Rightarrow> (case h ctx r of (r', e, p, outs, rc) \<Rightarrow> (r', e)))"
| "relay_act_step N r RFactoryReset = relay_factory_reset N r"

fun relay_acts :: "'n nvs_ops \<Rightarrow> relay_act list \<Rightarrow> 'n relay \<Rightarrow> 'n relay \<times> eff list" where
  "relay_acts N [] r = (r, [])"
| "relay_acts N (a # as) r =
     (case relay_act_step N r a of (r1, e1) \<Rightarrow> (case relay_acts N as r1 of (r2, e2) \<Rightarrow> (r2, e1 @ e2)))"

text \<open>A schedule: the actions of the other tasks in each slice.\<close>

definition sched_env :: "'n nvs_ops \<Rightarrow> (nat \<Rightarrow> relay_act list) \<Rightarrow> 'n renv" where
  "sched_env N sched = (\<lambda>k r. relay_acts N (sched k) r)"

fun no_rewiring :: "relay_act \<Rightarrow> bool" where
  "no_rewiring (RCommand name ctx clk qok) \<longleftrightarrow> name \<noteq> ''relay.gpio'' \<and> name \<noteq> ''relay.invert''"
| "no_rewiring RFactoryReset \<longleftrightarrow> False"

lemma save_simps [simp]:
  "rcfg (relay_nvs_save N r) = rcfg r" "phase (relay_nvs_save N r) = phase r"
  "active_flag (relay_nvs_save N r) = active_flag r" "abort_flag (relay_nvs_save N r) = abort_flag r"
  "default_gpio (relay_nvs_save N r) = default_gpio r"
  by (simp_all add: relay_nvs_save_def Let_def)

lemmas relay_handler_defs = relay_cli_gpio_def relay_cli_invert_def relay_cli_delay_def
  relay_cli_duration_def relay_cli_pulse_def relay_cli_get_def relay_cli_test_def relay_cli_off_def
  relay_cli_abort_def relay_cli_status_def relay_refuse_def Let_def case_prod_beta

definition keeps_line :: "'n relay \<Rightarrow> 'n relay \<times> eff list \<Rightarrow> bool" where
  "keeps_line r p \<longleftrightarrow> same_line r (fst p) \<and> (active_flag (fst p) \<longrightarrow> active_flag r) \<and>
     (0 \<le> gpio_num (rcfg r) \<longrightarrow> (\<forall>acc. line_ok r acc \<longrightarrow>
        line_ok (fst p) (foldl (pin_eff (gpio_num (rcfg r))) acc (snd p))))"

lemma keeps_line_handlers:
  "keeps_line r (let x = relay_cli_delay N ctx r in (fst x, fst (snd x)))"
  "keeps_line r (let x = relay_cli_duration N ctx r in (fst x, fst (snd x)))"
  "keeps_line r (let x = relay_cli_pulse N ctx r in (fst x, fst (snd x)))"
  "keeps_line r (let x = relay_cli_get ctx r in (fst x, fst (snd x)))"
  "keeps_line r (let x = relay_cli_test qok ctx r in (fst x, fst (snd x)))"
  "keeps_line r (let x = relay_cli_off ctx r in (fst x, fst (snd x)))"
  "keeps_line r (let x = relay_cli_abort ctx r in (fst x, fst (snd x)))"
  "keeps_line r (let x = relay_cli_status clk ctx r in (fst x, fst (snd x)))"
  by (simp_all add: relay_handler_defs keeps_line_def same_line_def line_ok_def idle_level_def
      idle_writes_def split: option.split)

lemma keeps_line_act: "no_rewiring a \<Longrightarrow> keeps_line r (relay_act_step N r a)"
proof (cases a)
  case (RCommand name ctx clk qok)
  assume "no_rewiring a"
  then have n: "name \<noteq> ''relay.gpio''" "name \<noteq> ''relay.invert''" using RCommand by simp_all
  show ?thesis
  proof (cases "map_of (relay_cmds N clk qok) name")
    case None
    then show ?thesis by (simp add: RCommand keeps_line_def same_line_def)
  next
    case (Some h)
    then have "h \<in> {relay_cli_delay N, relay_cli_duration N, relay_cli_pulse N, relay_cli_get,
        relay_cli_test qok, relay_cli_off, relay_cli_abort, relay_cli_status clk}"
      using n by (auto simp: relay_cmds_def split: if_splits)
    then have "keeps_line r (let x = h ctx r in (fst x, fst (snd x)))"
      by (elim insertE emptyE; simp only: keeps_line_handlers)
    then show ?thesis using Some by (simp add: RCommand case_prod_beta Let_def)
  qed
qed simp

lemma keeps_line_trans:
  "keeps_line r (r1, e1) \<Longrightarrow> keeps_line r1 (r2, e2) \<Longrightarrow> keeps_line r (r2, e1 @ e2)"
  by (simp add: keeps_line_def same_line_def)

lemma keeps_line_acts: "\<forall>a \<in> set as. no_rewiring a \<Longrightarrow> keeps_line r (relay_acts N as r)"
proof (induction as arbitrary: r)
  case Nil
  then show ?case by (simp add: keeps_line_def same_line_def)
next
  case (Cons a as)
  have "keeps_line r (relay_act_step N r a)" using Cons.prems by (simp add: keeps_line_act)
  moreover have "keeps_line (fst (relay_act_step N r a)) (relay_acts N as (fst (relay_act_step N r a)))"
    using Cons by simp
  ultimately have "keeps_line r (fst (relay_acts N as (fst (relay_act_step N r a))),
      snd (relay_act_step N r a) @ snd (relay_acts N as (fst (relay_act_step N r a))))"
    by (intro keeps_line_trans) simp_all
  then show ?case by (simp add: case_prod_beta)
qed

lemma disciplined_sched: "\<forall>k. \<forall>a \<in> set (sched k). no_rewiring a \<Longrightarrow> disciplined (sched_env N sched)"
  using keeps_line_acts unfolding disciplined_def sched_env_def keeps_line_def by blast

lemma end_idle:
  "phase (dev (aborted w)) = RELAY_IDLE \<and> fire_started_us (dev (aborted w)) = 0"
  "phase (dev (finished w)) = RELAY_IDLE \<and> fire_started_us (dev (finished w)) = 0"
  by simp_all

lemma pulse_loop_idle: "phase (dev (pulse_loop env k w)) = RELAY_IDLE \<and> fire_started_us (dev (pulse_loop env k w)) = 0"
  by (induction k arbitrary: w) (simp_all add: Let_def case_prod_beta end_idle)

lemma drive_phase_idle: "phase (dev (drive_phase env w)) = RELAY_IDLE \<and> fire_started_us (dev (drive_phase env w)) = 0"
  by (simp add: drive_phase_def Let_def case_prod_beta pulse_loop_idle)

lemma run_fire_idle:
  "phase (dev (run_fire_sequence env clk reason w)) = RELAY_IDLE \<and>
   fire_started_us (dev (run_fire_sequence env clk reason w)) = 0"
  by (simp add: run_fire_sequence_def Let_def case_prod_beta drive_phase_idle)

text \<open>
  C11: Whatever commands the other tasks run during a fire sequence, at whatever slices (starting,
  stopping, aborting, changing delay, duration or pulse mode, any number of them), as long as they
  do not move the relay to another pin or polarity, the sequence ends with the relay inactive and
  its pin at the idle level, the phase IDLE: no interleaving leaves the load energized.
\<close>
theorem fire_ends_with_line_idle:
  assumes "\<forall>k. \<forall>a \<in> set (sched k). no_rewiring a"
    and "0 \<le> gpio_num (rcfg (dev w))" and "\<not> active_flag (dev w)"
    and "pin_level (gpio_num (rcfg (dev w))) (tr w) = Some (idle_level (rcfg (dev w)))"
  shows "let w' = run_fire_sequence (sched_env N sched) clk reason w in
    phase (dev w') = RELAY_IDLE \<and> \<not> active_flag (dev w') \<and> same_line (dev w) (dev w') \<and>
    pin_level (gpio_num (rcfg (dev w'))) (tr w') = Some (idle_level (rcfg (dev w')))"
proof -
  let ?g = "gpio_num (rcfg (dev w))" and ?p = "invert (rcfg (dev w))"
  have "on_line ?g ?p w" using assms by (simp add: on_line_def line_ok_def)
  then have "off_line ?g ?p (run_fire_sequence (sched_env N sched) clk reason w)"
    using line.run_fire_released [of "sched_env N sched" ?g ?p w clk reason]
      disciplined_sched [OF assms(1)] by blast
  then show ?thesis
    by (auto simp: Let_def off_line_def on_line_def line_ok_def same_line_def idle_level_def run_fire_idle)
qed

definition booted :: "nvs_map relay \<Rightarrow> nvs_map wstate" where
  "booted r = \<lparr> slice = 0, dev = r, tr = map Did (snd (gpio_write_idle r)) \<rparr>"

definition relay19 :: "nvs_map relay" where
  "relay19 = (relay_static Map.empty)\<lparr>rcfg := (relay_default_config 19)\<lparr>total_duration_s := 1\<rparr>\<rparr>"

theorem fire_ends_with_line_idle_witness:
  "pin_level 19 (tr (run_fire_sequence (sched_env nvs_map_ops
      (\<lambda>k. if k = 3 then [RCommand ''relay.off'' (human_ctx True []) \<lparr> up_us = 5, wall = 0 \<rparr> True] else []))
      \<lparr> up_us = 1, wall = 0 \<rparr> FIRE_REASON_TIMER (booted relay19))) = Some 0"
proof -
  let ?s = "\<lambda>k :: nat. if k = 3 then [RCommand ''relay.off'' (human_ctx True []) \<lparr> up_us = 5, wall = 0 \<rparr> True] else []"
  have "\<forall>k. \<forall>a \<in> set (?s k). no_rewiring a" by simp
  from fire_ends_with_line_idle [OF this, of "booted relay19" nvs_map_ops "\<lparr> up_us = 1, wall = 0 \<rparr>" FIRE_REASON_TIMER]
  show ?thesis
    by (auto simp: Let_def booted_def relay19_def relay_static_def relay_default_config_def pin_level_def
        idle_writes_def idle_level_def same_line_def gpio_write_idle_def)
qed

end
