(* ===== verification/LsRelayRun.thy ===== *)
theory LsRelayRun
  imports LsRelayProps
begin

text \<open>
  The relay, continued: the exact drive of an undisturbed fire sequence with its timing, the
  reaction time of an abort, the configuration and its flash image, and the lines that rewiring
  commands during a sequence leave energized.
\<close>

section \<open>An undisturbed sequence\<close>

definition alone :: "'n renv" where
  "alone = (\<lambda>k r. (r, []))"

definition slept :: "nat \<Rightarrow> trace list" where
  "slept n = map Slept (replicate (n div 100) 100 @ (if n mod 100 = 0 then [] else [n mod 100]))"

lemma task_delay_alone:
  "task_delay alone ms w = w\<lparr>slice := slice w + 1, tr := tr w @ [Slept ms]\<rparr>"
  by (simp add: task_delay_def alone_def)

lemma slept_step: "n \<noteq> 0 \<Longrightarrow> slept n = Slept (min n 100) # slept (n - min n 100)"
proof (cases "n < 100")
  case False
  then have "n div 100 = Suc ((n - 100) div 100)" "n mod 100 = (n - 100) mod 100"
    by (simp_all add: le_div_geq le_mod_geq)
  then show ?thesis using False by (simp add: slept_def)
qed (simp add: slept_def)

lemma sleep_alone:
  "\<not> abort_flag (dev w) \<Longrightarrow> cancellable_sleep alone n w =
     (False, w\<lparr>slice := slice w + length (slept n), tr := tr w @ slept n\<rparr>)"
proof (induction n arbitrary: w rule: less_induct)
  case (less n)
  show ?case
  proof (cases "n = 0")
    case True
    then show ?thesis using less.prems by (subst cancellable_sleep_step) (simp add: slept_def)
  next
    case False
    then have lt: "n - min n 100 < n" by auto
    have "\<not> abort_flag (dev (task_delay alone (min n 100) w))"
      using less.prems by (simp add: task_delay_alone)
    from less.IH [OF lt this] show ?thesis using less.prems False
      by (subst cancellable_sleep_step) (simp add: task_delay_alone slept_step)
  qed
qed

text \<open>How long a list of trace entries lasts, and its effects.\<close>

fun ms_of :: "trace \<Rightarrow> nat" where
  "ms_of (Slept n) = n"
| "ms_of _ = 0"

definition lasts :: "trace list \<Rightarrow> nat" where
  "lasts ts = sum_list (map ms_of ts)"

lemma lasts_slept: "lasts (slept n) = n"
  using div_mult_mod_eq [of n 100] by (cases "n mod 100 = 0") (simp_all add: lasts_def slept_def sum_list_replicate)

lemma lasts_simps [simp]:
  "lasts [] = 0" "lasts (t # ts) = ms_of t + lasts ts" "lasts (ts @ us) = lasts ts + lasts us"
  by (simp_all add: lasts_def)

definition cfg_small :: "ls_relay_config \<Rightarrow> bool" where
  "cfg_small c \<longleftrightarrow> -1 \<le> gpio_num c \<and> gpio_num c \<le> 30 \<and> uint (start_delay_sec c) \<le> 10 \<and>
     1 \<le> uint (total_duration_s c) \<and> uint (total_duration_s c) \<le> 3600 \<and>
     1 \<le> uint (pulse_duration_sec c) \<and> uint (pulse_duration_sec c) \<le> 60"

lemma unat_le: "uint (w :: 'a::len word) \<le> numeral k \<Longrightarrow> unat w \<le> numeral k"
  by (metis of_nat_le_iff of_nat_numeral uint_nat)

lemma unat_ge_1: "1 \<le> uint (w :: 'a::len word) \<Longrightarrow> 1 \<le> unat w"
  by (metis of_nat_1 of_nat_le_iff uint_nat)

lemma ms_small: "unat (s :: u32) \<le> 4294967 \<Longrightarrow> unat (s * 1000) = unat s * 1000"
  by (subst unat_mult_lem [THEN iffD1]) simp_all

lemma ms_ucast: "unat (ucast (s :: u16) * 1000 :: u32) = unat s * 1000"
proof -
  have "unat s < 2 ^ 16" using unsigned_less [of s] by simp
  moreover have "unat (ucast s :: u32) = unat s"
    by (simp add: unsigned_ucast_eq take_bit_eq_mod order_less_trans [OF unsigned_less])
  ultimately show ?thesis by (subst ms_small) simp_all
qed

definition active_writes :: "ls_relay_config \<Rightarrow> eff list" where
  "active_writes c = (if gpio_num c \<ge> 0 then [GpioLevel (gpio_num c) (active_level c)] else [])"

lemma snd_write_active [simp]: "snd (gpio_write_active r) = active_writes (rcfg r)"
  by (simp add: gpio_write_active_def active_writes_def)

definition start_event :: "fire_reason \<Rightarrow> eff" where
  "start_event reason = publishf ''relay.fire.start'' (''{'' @ jk ''reason'' @ jq (reason_str reason) @ ''}'')"

definition one_pulse :: "ls_relay_config \<Rightarrow> trace list" where
  "one_pulse c = map Did (active_writes c) @ slept (unat (pulse_duration_sec c) * 1000) @
     map Did (idle_writes c) @ slept (unat (pulse_duration_sec c) * 1000)"

lemma sleep_ms_alone:
  "\<not> abort_flag (dev w) \<Longrightarrow> cancellable_sleep_ms alone ms w =
     (False, w\<lparr>slice := slice w + length (slept (unat ms)), tr := tr w @ slept (unat ms)\<rparr>)"
  by (simp add: cancellable_sleep_ms_def sleep_alone)

lemma pulse_loop_alone:
  "\<not> abort_flag (dev w) \<Longrightarrow> tr (pulse_loop alone k w) =
     tr w @ concat (replicate k (one_pulse (rcfg (dev w)))) @ [Did (end_event True)]"
proof (induction k arbitrary: w)
  case (Suc k)
  then show ?case
    by (simp add: Let_def sleep_ms_alone ms_ucast one_pulse_def)
qed simp

lemma drive_phase_alone:
  assumes "\<not> abort_flag (dev w)" and "cfg_small (rcfg (dev w))"
  shows "tr (drive_phase alone w) = tr w @
    (if pulse_enabled (rcfg (dev w))
     then concat (replicate (unat (pulse_cycles (rcfg (dev w)))) (one_pulse (rcfg (dev w))))
     else map Did (active_writes (rcfg (dev w))) @ slept (unat (total_duration_s (rcfg (dev w))) * 1000) @
       map Did (idle_writes (rcfg (dev w)))) @ [Did (end_event True)]"
proof -
  have "uint (total_duration_s (rcfg (dev w))) \<le> 3600" "1 \<le> uint (pulse_duration_sec (rcfg (dev w)))"
    using assms(2) by (simp_all add: cfg_small_def)
  then have "unat (total_duration_s (rcfg (dev w))) \<le> 4294967" "pulse_duration_sec (rcfg (dev w)) > 0"
    using unat_le [of "total_duration_s (rcfg (dev w))"] unat_ge_1 [of "pulse_duration_sec (rcfg (dev w))"]
    by (auto simp: word_less_nat_alt dest: unat_le)
  then show ?thesis using assms(1)
    by (simp add: drive_phase_def Let_def pulse_loop_alone sleep_ms_alone ms_small)
qed

text \<open>The number of pulses, in natural numbers.\<close>

lemma pulse_cycles_nat:
  assumes "cfg_small c"
  shows "unat (pulse_cycles c) = max 1 (unat (total_duration_s c) div (2 * unat (pulse_duration_sec c)))"
proof -
  define p d where "p = unat (pulse_duration_sec c)" and "d = unat (total_duration_s c)"
  have p: "1 \<le> p" "p \<le> 60" and d: "d \<le> 3600"
    using assms unat_ge_1 [of "pulse_duration_sec c"]
    by (auto simp: cfg_small_def p_def d_def intro: unat_le)
  have up: "unat (ucast (pulse_duration_sec c) :: u32) = p"
    by (simp add: p_def unsigned_ucast_eq take_bit_eq_mod order_less_trans [OF unsigned_less])
  have "unat (ucast (pulse_duration_sec c) * 2 :: u32) = p * 2"
    using p by (subst unat_mult_lem [THEN iffD1]) (simp_all add: up)
  then have cyc: "unat (ucast (pulse_duration_sec c) * 2 * 1000 :: u32) = p * 2000"
    using p by (subst unat_mult_lem [THEN iffD1]) simp_all
  have tot: "unat (total_duration_s c * 1000) = d * 1000"
    using d by (subst ms_small) (simp_all add: d_def)
  have pos: "(ucast (pulse_duration_sec c) * 2 * 1000 :: u32) > 0"
    using cyc p by (simp add: word_less_nat_alt)
  have dv: "d * 1000 div (p * 2000) = d div (2 * p)"
    using div_mult2_eq [of "d * 1000" 1000 "2 * p"] by (simp add: mult.commute mult.left_commute)
  have "unat (total_duration_s c * 1000 div (ucast (pulse_duration_sec c) * 2 * 1000)) = d div (2 * p)"
    by (simp only: unat_div cyc tot dv)
  then show ?thesis using pos
    by (auto simp: pulse_cycles_def Let_def unat_eq_0 p_def [symmetric] d_def [symmetric] max_def
        simp flip: unat_eq_0)
qed

text \<open>
  Undisturbed, a fire sequence with a configuration within its limits does exactly what the
  help says: it announces its start, waits the start delay, drives the line active for the whole
  duration (or for \<open>duration / (2 * half-cycle)\<close> pulses, at least one, of one half cycle on and one
  half cycle off), leaves it idle and announces a complete end; every wait has its exact length in
  milliseconds, without a wrap-around of the 32-bit products.
\<close>
theorem fire_undisturbed:
  assumes "cfg_small (rcfg (dev w))"
  shows "let c = rcfg (dev w); p = unat (pulse_duration_sec c) in
    tr (run_fire_sequence alone clk reason w) = tr w @ [Did (start_event reason)] @
      slept (unat (start_delay_sec c) * 1000) @
      (if pulse_enabled c
       then concat (replicate (max 1 (unat (total_duration_s c) div (2 * p)))
              (map Did (active_writes c) @ slept (p * 1000) @ map Did (idle_writes c) @ slept (p * 1000)))
       else map Did (active_writes c) @ slept (unat (total_duration_s c) * 1000) @ map Did (idle_writes c)) @
      [Did (end_event True)]"
proof (cases "start_delay_sec (rcfg (dev w)) > 0")
  case True
  then show ?thesis using assms
    by (simp add: run_fire_sequence_def Let_def sleep_ms_alone ms_ucast drive_phase_alone
        pulse_cycles_nat one_pulse_def start_event_def)
next
  case False
  then have "start_delay_sec (rcfg (dev w)) = 0" by (simp add: word_gt_0)
  then show ?thesis using assms
    by (simp add: run_fire_sequence_def Let_def drive_phase_alone pulse_cycles_nat one_pulse_def
        start_event_def slept_def)
qed

theorem fire_undisturbed_witness:
  "tr (run_fire_sequence alone \<lparr> up_us = 1, wall = 0 \<rparr> FIRE_REASON_MANUAL (booted relay19)) =
     [Did (GpioLevel 19 0), Did (start_event FIRE_REASON_MANUAL), Did (GpioLevel 19 1)] @ slept 1000 @
     [Did (GpioLevel 19 0), Did (end_event True)]"
proof -
  have "cfg_small (rcfg (dev (booted relay19)))"
    by (simp add: booted_def relay19_def relay_static_def relay_default_config_def cfg_small_def)
  from fire_undisturbed [OF this, of "\<lparr> up_us = 1, wall = 0 \<rparr>" FIRE_REASON_MANUAL] show ?thesis
    by (simp add: Let_def booted_def relay19_def relay_static_def relay_default_config_def
        active_writes_def idle_writes_def active_level_def idle_level_def slept_def gpio_write_idle_def)
qed

section \<open>Abort\<close>

text \<open>The commands that stop a sequence, in a slice during which other commands may run too.\<close>

fun stops :: "relay_act \<Rightarrow> bool" where
  "stops (RCommand name ctx clk qok) \<longleftrightarrow> name = ''relay.abort'' \<or> name = ''relay.off''"
| "stops RFactoryReset \<longleftrightarrow> False"

text \<open>
  A command handler other than those that rewire keeps the line and the phase and never takes a request to abort back;
  \<open>relay.abort\<close> and \<open>relay.off\<close> make that request unless the phase is IDLE.
\<close>

definition heeds :: "'n relay \<Rightarrow> 'n relay \<Rightarrow> bool" where
  "heeds r r' \<longleftrightarrow> same_line r r' \<and> phase r' = phase r \<and> (abort_flag r \<longrightarrow> abort_flag r')"

lemma heeds_refl: "heeds r r"
  by (simp add: heeds_def same_line_def)

lemma heeds_trans: "heeds r r1 \<Longrightarrow> heeds r1 r2 \<Longrightarrow> heeds r r2"
  by (simp add: heeds_def same_line_def)

lemma heeds_handlers:
  "heeds r (fst (relay_cli_delay N ctx r))" "heeds r (fst (relay_cli_duration N ctx r))"
  "heeds r (fst (relay_cli_pulse N ctx r))" "heeds r (fst (relay_cli_get ctx r))"
  "heeds r (fst (relay_cli_test qok ctx r))" "heeds r (fst (relay_cli_off ctx r))"
  "heeds r (fst (relay_cli_abort ctx r))" "heeds r (fst (relay_cli_status clk ctx r))"
  by (simp_all add: relay_handler_defs heeds_def same_line_def split: option.split)

lemma stop_handlers:
  "phase r \<noteq> RELAY_IDLE \<Longrightarrow> abort_flag (fst (relay_cli_off ctx r))"
  "phase r \<noteq> RELAY_IDLE \<Longrightarrow> abort_flag (fst (relay_cli_abort ctx r))"
  by (simp_all add: relay_handler_defs)

lemma act_heeds:
  assumes "no_rewiring a"
  shows "heeds r (fst (relay_act_step N r a))"
    "stops a \<Longrightarrow> phase r \<noteq> RELAY_IDLE \<Longrightarrow> abort_flag (fst (relay_act_step N r a))"
proof -
  obtain name ctx clk qok where a: "a = RCommand name ctx clk qok" using assms by (cases a) auto
  have n: "name \<noteq> ''relay.gpio''" "name \<noteq> ''relay.invert''" using assms by (simp_all add: a)
  show "heeds r (fst (relay_act_step N r a))"
  proof (cases "map_of (relay_cmds N clk qok) name")
    case None
    then show ?thesis by (simp add: a heeds_refl)
  next
    case (Some h)
    then have "h \<in> {relay_cli_delay N, relay_cli_duration N, relay_cli_pulse N, relay_cli_get,
        relay_cli_test qok, relay_cli_off, relay_cli_abort, relay_cli_status clk}"
      using n by (auto simp: relay_cmds_def split: if_splits)
    then have "heeds r (fst (h ctx r))" by (elim insertE emptyE; simp only: heeds_handlers)
    then show ?thesis using Some by (simp add: a case_prod_beta)
  qed
  show "abort_flag (fst (relay_act_step N r a))" if "stops a" "phase r \<noteq> RELAY_IDLE"
    using that by (auto simp: a relay_cmds_def case_prod_beta stop_handlers)
qed

lemma acts_heed: "\<forall>a \<in> set as. no_rewiring a \<Longrightarrow> heeds r (fst (relay_acts N as r))"
proof (induction as arbitrary: r)
  case (Cons a as)
  have "heeds r (fst (relay_act_step N r a))" using Cons.prems by (simp add: act_heeds)
  moreover have "heeds (fst (relay_act_step N r a)) (fst (relay_acts N as (fst (relay_act_step N r a))))"
    using Cons by simp
  ultimately have "heeds r (fst (relay_acts N as (fst (relay_act_step N r a))))" by (rule heeds_trans)
  then show ?case by (simp add: case_prod_beta)
qed (simp add: heeds_refl)

lemma acts_stop:
  "\<forall>a \<in> set as. no_rewiring a \<Longrightarrow> \<exists>a \<in> set as. stops a \<Longrightarrow> phase r \<noteq> RELAY_IDLE \<Longrightarrow> abort_flag (fst (relay_acts N as r))"
proof (induction as arbitrary: r)
  case (Cons a as)
  let ?r = "fst (relay_act_step N r a)"
  have h: "heeds r ?r" "heeds ?r (fst (relay_acts N as ?r))" using Cons.prems(1) by (simp_all add: act_heeds acts_heed)
  show ?case
  proof (cases "stops a")
    case True
    then have "abort_flag ?r" using Cons.prems by (simp add: act_heeds)
    then show ?thesis using h(2) by (simp add: heeds_def case_prod_beta)
  next
    case False
    then have "abort_flag (fst (relay_acts N as ?r))" using Cons h(1) by (simp add: heeds_def)
    then show ?thesis by (simp add: case_prod_beta)
  qed
qed simp

text \<open>The worker inside a sequence for the line of \<open>c\<close>, and the instant after slice \<open>k\<close> with the request standing.\<close>

definition firing :: "ls_relay_config \<Rightarrow> 'n wstate \<Rightarrow> bool" where
  "firing c w \<longleftrightarrow> phase (dev w) \<noteq> RELAY_IDLE \<and> gpio_num (rcfg (dev w)) = gpio_num c \<and> invert (rcfg (dev w)) = invert c"

definition stopped_after :: "'n renv \<Rightarrow> nat \<Rightarrow> 'n wstate \<Rightarrow> bool" where
  "stopped_after env k w \<longleftrightarrow> (\<exists>w1 ms. slice w1 = k \<and> ms \<le> 100 \<and> w = task_delay env ms w1)"

definition stopping_env :: "'n renv \<Rightarrow> nat \<Rightarrow> bool" where
  "stopping_env env k \<longleftrightarrow> (\<forall>i r. heeds r (fst (env i r))) \<and> (\<forall>r. phase r \<noteq> RELAY_IDLE \<longrightarrow> abort_flag (fst (env k r)))"

lemma firing_delay: "stopping_env env k \<Longrightarrow> firing c w \<Longrightarrow> firing c (task_delay env ms w)"
  by (simp add: stopping_env_def firing_def heeds_def same_line_def)

lemma sleep_abort:
  assumes env: "stopping_env env k"
  shows "firing c w \<Longrightarrow> slice w \<le> k \<Longrightarrow> firing c (snd (cancellable_sleep env n w)) \<and>
     (slice (snd (cancellable_sleep env n w)) \<le> k \<or>
      fst (cancellable_sleep env n w) \<and> stopped_after env k (snd (cancellable_sleep env n w)))"
proof (induction n arbitrary: w rule: less_induct)
  case (less n)
  show ?case
  proof (cases "n = 0 \<or> abort_flag (dev w)")
    case True
    then show ?thesis using less.prems by (subst (1 2 3 4) cancellable_sleep_step) auto
  next
    case False
    let ?w = "task_delay env (min n 100) w"
    have e: "cancellable_sleep env n w = cancellable_sleep env (n - min n 100) ?w"
      using False by (subst cancellable_sleep_step) simp
    have f: "firing c ?w" by (rule firing_delay [OF env less.prems(1)])
    show ?thesis
    proof (cases "slice w = k")
      case True
      then have "abort_flag (dev ?w)" using env less.prems(1) by (simp add: stopping_env_def firing_def)
      then have "cancellable_sleep env (n - min n 100) ?w = (True, ?w)"
        by (subst cancellable_sleep_step) simp
      moreover have "stopped_after env k ?w"
        using True unfolding stopped_after_def by (intro exI [of _ w] exI [of _ "min n 100"]) simp
      ultimately show ?thesis using f by (simp add: e)
    next
      case neq: False
      then have s: "slice ?w \<le> k" using less.prems(2) by simp
      have lt: "n - min n 100 < n" using False by auto
      show ?thesis unfolding e by (rule less.IH [OF lt f s])
    qed
  qed
qed

text \<open>How a sequence that reached slice \<open>k + 1\<close> has ended.\<close>

definition cut_short :: "'n renv \<Rightarrow> ls_relay_config \<Rightarrow> nat \<Rightarrow> 'n wstate \<Rightarrow> bool" where
  "cut_short env c k w \<longleftrightarrow> slice w \<le> k \<or> (\<exists>w0. stopped_after env k w0 \<and> firing c w0 \<and> w = aborted w0)"

lemma sleep_then_cut:
  assumes "stopping_env env k" "firing c w" "slice w \<le> k"
    and "\<And>w'. firing c w' \<Longrightarrow> slice w' \<le> k \<Longrightarrow> cut_short env c k (f w')"
  shows "cut_short env c k (if fst (cancellable_sleep_ms env ms w) then aborted (snd (cancellable_sleep_ms env ms w))
    else f (snd (cancellable_sleep_ms env ms w)))"
  using sleep_abort [OF assms(1-3), of "unat ms"] assms(4)
  unfolding cancellable_sleep_ms_def by (auto simp: cut_short_def)

lemma pulse_loop_cut:
  assumes env: "stopping_env env k"
  shows "firing c w \<Longrightarrow> slice w \<le> k \<Longrightarrow> cut_short env c k (pulse_loop env n w)"
proof (induction n arbitrary: w)
  case 0
  then show ?case by (simp add: cut_short_def)
next
  case (Suc n)
  let ?on = "emit (gpio_write_active (dev w)) w"
  let ?s1 = "cancellable_sleep_ms env (ucast (pulse_duration_sec (rcfg (dev ?on))) * 1000) ?on"
  let ?off = "emit (gpio_write_idle (dev (snd ?s1))) (snd ?s1)"
  let ?s2 = "cancellable_sleep_ms env (ucast (pulse_duration_sec (rcfg (dev ?off))) * 1000) ?off"
  have e: "pulse_loop env (Suc n) w = (if fst ?s1 then aborted (snd ?s1)
      else if fst ?s2 then aborted (snd ?s2) else pulse_loop env n (snd ?s2))"
    by (simp add: Let_def case_prod_beta del: emit_simps)
  have on: "firing c ?on" "slice ?on \<le> k" using Suc.prems by (simp_all add: firing_def)
  show ?case unfolding e
    by (intro sleep_then_cut [OF env] on) (simp_all add: Suc.IH firing_def)
qed

lemma drive_phase_cut:
  assumes env: "stopping_env env k" and "gpio_num (rcfg (dev w)) = gpio_num c" "invert (rcfg (dev w)) = invert c" "slice w \<le> k"
  shows "cut_short env c k (drive_phase env w)"
proof -
  let ?w = "set_dev (\<lambda>r. r\<lparr>phase := RELAY_ACTIVE\<rparr>) w"
  let ?on = "emit (gpio_write_active (dev ?w)) ?w"
  let ?s = "cancellable_sleep_ms env (total_duration_s (rcfg (dev ?on)) * 1000) ?on"
  have on: "firing c ?on" "slice ?on \<le> k" using assms by (simp_all add: firing_def)
  have "cut_short env c k (if fst ?s then aborted (snd ?s) else finished (emit (gpio_write_idle (dev (snd ?s))) (snd ?s)))"
    by (intro sleep_then_cut env on) (simp add: cut_short_def)
  then show ?thesis using assms
    by (simp add: drive_phase_def Let_def case_prod_beta) (simp add: firing_def pulse_loop_cut)
qed

lemma run_fire_cut:
  assumes env: "stopping_env env k" and s: "slice w \<le> k"
  shows "cut_short env (rcfg (dev w)) k (run_fire_sequence env clk reason w)"
proof -
  define w1 where "w1 = emit (dev (set_dev (\<lambda>r. r\<lparr>abort_flag := False, fire_started_us := up_us clk\<rparr>) w),
      [publishf ''relay.fire.start'' (''{'' @ jk ''reason'' @ jq (reason_str reason) @ ''}'')])
    (set_dev (\<lambda>r. r\<lparr>abort_flag := False, fire_started_us := up_us clk\<rparr>) w)"
  let ?c = "rcfg (dev w)"
  let ?d = "set_dev (\<lambda>r. r\<lparr>phase := RELAY_DELAYING\<rparr>) w1"
  let ?s = "cancellable_sleep_ms env (ucast (start_delay_sec (rcfg (dev ?d))) * 1000) ?d"
  have w1: "slice w1 \<le> k" "rcfg (dev w1) = ?c" "slice ?d \<le> k" "firing ?c ?d" using s by (simp_all add: w1_def firing_def)
  have "cut_short env ?c k (if fst ?s then aborted (snd ?s) else drive_phase env (snd ?s))"
    by (intro sleep_then_cut env w1 drive_phase_cut) (simp_all add: firing_def)
  moreover have "run_fire_sequence env clk reason w = (if start_delay_sec (rcfg (dev w1)) > 0
      then (if fst ?s then aborted (snd ?s) else drive_phase env (snd ?s)) else drive_phase env w1)"
    unfolding run_fire_sequence_def Let_def case_prod_beta w1_def [symmetric] by (rule refl)
  ultimately show ?thesis using drive_phase_cut [OF env _ _ w1(1), of ?c] w1(2) by (simp only: split: if_split) simp
qed

text \<open>
  C31: \<open>relay.abort\<close> and \<open>relay.off\<close> are honoured within one slice. When one of them is executed by another task during a
  slice of a fire sequence, in any phase of it and among any other commands that do not move the relay to another pin
  or polarity, the sequence runs into no further slice of 100 ms: if it had not ended before, the acts of the worker
  right after that slice are the idle write on the configured pin (none is configured if the number is negative) and
  the \<open>relay.fire.end\<close> event that says \<open>aborted\<close>, nothing else.
\<close>
theorem abort_within_one_slice:
  fixes w :: "'n wstate" and N :: "'n nvs_ops" and clk :: clock and reason :: fire_reason and k :: nat
  assumes "\<forall>i. \<forall>a \<in> set (sched i). no_rewiring a" and "\<exists>a \<in> set (sched k). stops a" and "slice w \<le> k"
  defines "w' \<equiv> run_fire_sequence (sched_env N sched) clk reason w"
  shows "slice w' \<le> k + 1 \<and> phase (dev w') = RELAY_IDLE \<and>
    (slice w' = k + 1 \<longrightarrow> \<not> active_flag (dev w') \<and>
      (\<exists>ts ms es. ms \<le> 100 \<and> tr w' = ts @ Slept ms # map Other es @
         map Did (if gpio_num (rcfg (dev w)) \<ge> 0
           then [GpioLevel (gpio_num (rcfg (dev w))) (idle_level (rcfg (dev w)))] else []) @ [Did (end_event False)]))"
proof -
  let ?env = "sched_env N sched"
  have "stopping_env ?env k"
    using assms(1,2) by (simp add: stopping_env_def sched_env_def acts_heed acts_stop)
  then have "cut_short ?env (rcfg (dev w)) k w'" unfolding w'_def using assms(3) by (rule run_fire_cut)
  then show ?thesis unfolding cut_short_def
  proof (elim disjE exE conjE)
    fix w0 assume a: "stopped_after ?env k w0" "firing (rcfg (dev w)) w0" "w' = aborted w0"
    then obtain w1 ms where w1: "slice w1 = k" "ms \<le> 100" "w0 = task_delay ?env ms w1" by (auto simp: stopped_after_def)
    have "idle_writes (rcfg (dev w0)) = idle_writes (rcfg (dev w))"
      using a(2) by (simp add: firing_def idle_writes_def idle_level_def)
    then have t: "tr w' = tr w1 @ Slept ms # map Other (snd (?env k (dev w1))) @ map Did (idle_writes (rcfg (dev w))) @
        [Did (end_event False)]" using a(3) w1 by simp
    have s: "slice w' = k + 1" "phase (dev w') = RELAY_IDLE" "\<not> active_flag (dev w')"
      using a(3) w1 by simp_all
    show ?thesis using s t [unfolded idle_writes_def] w1(2) by (intro conjI impI exI) simp_all
  qed (use run_fire_idle [of ?env clk reason w] in \<open>simp add: w'_def\<close>)
qed

text \<open>A sequence of one second, aborted during its fourth slice.\<close>

definition aborted_run :: "nvs_map wstate" where
  "aborted_run = run_fire_sequence (sched_env nvs_map_ops
      (\<lambda>k. if k = 3 then [RCommand ''relay.abort'' (human_ctx True []) \<lparr> up_us = 5, wall = 0 \<rparr> True] else []))
      \<lparr> up_us = 1, wall = 0 \<rparr> FIRE_REASON_TIMER (booted relay19)"

lemma aborted_run_slices: "slice aborted_run = 4"
  by code_simp

theorem abort_within_one_slice_witness:
  "\<exists>ts ms es. tr aborted_run = ts @ Slept ms # map Other es @ [Did (GpioLevel 19 0), Did (end_event False)]"
proof -
  let ?s = "\<lambda>k :: nat. if k = 3 then [RCommand ''relay.abort'' (human_ctx True []) \<lparr> up_us = 5, wall = 0 \<rparr> True] else []"
  have "\<forall>i. \<forall>a \<in> set (?s i). no_rewiring a" "\<exists>a \<in> set (?s 3). stops a" "slice (booted relay19) \<le> 3"
    by (simp_all add: booted_def)
  from abort_within_one_slice [OF this, of nvs_map_ops "\<lparr> up_us = 1, wall = 0 \<rparr>" FIRE_REASON_TIMER, folded aborted_run_def]
  show ?thesis using aborted_run_slices
    by (auto simp: booted_def relay19_def relay_static_def relay_default_config_def idle_level_def)
qed

section \<open>Lines left energized\<close>

text \<open>
  Two requests during a sequence leave a line energized after it has ended. \<open>relay gpio 5\<close> while
  pin 19 is driven active reconfigures and idles pin 5 only: the sequence then releases pin 5, and
  pin 19 stays at its active level for good. \<open>relay invert on\<close> in the last off half of a pulse does
  not re-drive the line (the phase is not IDLE) and the loop ends without another idle write: the
  pin stays low, which is now the active level, while the status reports the relay inactive.
\<close>
theorem rewiring_leaves_line_energized:
  "(let w = run_fire_sequence (sched_env nvs_map_ops
        (\<lambda>k. if k = 2 then [RCommand ''relay.gpio'' (human_ctx True [''5'']) \<lparr> up_us = 5, wall = 0 \<rparr> True] else []))
        \<lparr> up_us = 1, wall = 0 \<rparr> FIRE_REASON_MANUAL (booted relay19)
    in phase (dev w) = RELAY_IDLE \<and> \<not> active_flag (dev w) \<and> pin_level 19 (tr w) = Some 1 \<and> pin_level 5 (tr w) = Some 0) \<and>
   (let r = relay19\<lparr>rcfg := (rcfg relay19)\<lparr>pulse_enabled := True, pulse_duration_sec := 1\<rparr>\<rparr>;
        w = run_fire_sequence (sched_env nvs_map_ops
        (\<lambda>k. if k = 15 then [RCommand ''relay.invert'' (human_ctx True [''on'']) \<lparr> up_us = 5, wall = 0 \<rparr> True] else []))
        \<lparr> up_us = 1, wall = 0 \<rparr> FIRE_REASON_MANUAL (booted r)
    in phase (dev w) = RELAY_IDLE \<and> \<not> active_flag (dev w) \<and> active_level (rcfg (dev w)) = 0 \<and>
       pin_level 19 (tr w) = Some 0)"
  by code_simp

section \<open>Configuration and flash\<close>

definition relay_synced :: "'n nvs_ops \<Rightarrow> 'n relay \<Rightarrow> bool" where
  "relay_synced N r \<longleftrightarrow> rcfg (relay_nvs_load N (default_gpio r) (relay_static (rflash r))) = rcfg r"

lemma save_synced:
  assumes "nvs_lawful N"
  shows "relay_synced N (relay_nvs_save N r)"
proof -
  define n where "n = rflash (relay_nvs_save N r)"
  have g: "nv_get N n NVS_RLY ''gpio'' = Some (NvI32 (gpio_num (rcfg r)))"
    "nv_get N n NVS_RLY ''invert'' = Some (NvU8 (if invert (rcfg r) then 1 else 0))"
    "nv_get N n NVS_RLY ''delay'' = Some (NvU16 (start_delay_sec (rcfg r)))"
    "nv_get N n NVS_RLY ''dur'' = Some (NvU32 (total_duration_s (rcfg r)))"
    "nv_get N n NVS_RLY ''pulse_en'' = Some (NvU8 (if pulse_enabled (rcfg r) then 1 else 0))"
    "nv_get N n NVS_RLY ''pulse_d'' = Some (NvU16 (pulse_duration_sec (rcfg r)))"
    using assms by (simp_all add: n_def relay_nvs_save_def Let_def nvs_simps)
  moreover have "nv_open_ro N n NVS_RLY = ESP_OK" by (rule nvs_open_ro [OF assms g(1)])
  ultimately show ?thesis
    by (simp add: relay_synced_def relay_nvs_load_def relay_static_def Let_def nvs_get_defs
        load_val_Some flip: n_def)
qed

lemma relay_synced_fields [simp]:
  "relay_synced N (fst (gpio_write_idle r)) = relay_synced N r"
  "relay_synced N (r\<lparr>abort_flag := a\<rparr>) = relay_synced N r"
  by (simp_all add: relay_synced_def gpio_write_idle_def)

definition relay_inv :: "'n nvs_ops \<Rightarrow> 'n relay \<Rightarrow> bool" where
  "relay_inv N r \<longleftrightarrow> cfg_small (rcfg r) \<and> relay_synced N r \<and> -1 \<le> default_gpio r \<and> default_gpio r \<le> 30"

lemma relay_inv_save:
  "nvs_lawful N \<Longrightarrow> cfg_small c \<Longrightarrow> relay_inv N r \<Longrightarrow> relay_inv N (relay_nvs_save N (r\<lparr>rcfg := c\<rparr>))"
  by (simp add: relay_inv_def save_synced)

lemma relay_inv_fields [simp]:
  "relay_inv N (fst (gpio_write_idle r)) = relay_inv N r"
  "relay_inv N (r\<lparr>abort_flag := a\<rparr>) = relay_inv N r"
  by (simp_all add: relay_inv_def)

lemma small_words:
  "0 \<le> v \<Longrightarrow> v \<le> 3600 \<Longrightarrow> uint (word_of_int v :: u16) = v"
  "0 \<le> v \<Longrightarrow> v \<le> 3600 \<Longrightarrow> uint (word_of_int v :: u32) = v"
  by (simp_all add: uint_word_of_int)

lemma relay_inv_small: "relay_inv N r \<Longrightarrow> cfg_small (rcfg r)"
  by (simp add: relay_inv_def)

lemma relay_inv_handler:
  assumes N: "nvs_lawful N" and r: "relay_inv N r"
  shows "relay_inv N (fst (relay_cli_gpio N ctx r))" "relay_inv N (fst (relay_cli_invert N ctx r))"
    "relay_inv N (fst (relay_cli_delay N ctx r))" "relay_inv N (fst (relay_cli_duration N ctx r))"
    "relay_inv N (fst (relay_cli_pulse N ctx r))" "relay_inv N (fst (relay_cli_get ctx r))"
    "relay_inv N (fst (relay_cli_test qok ctx r))" "relay_inv N (fst (relay_cli_off ctx r))"
    "relay_inv N (fst (relay_cli_abort ctx r))" "relay_inv N (fst (relay_cli_status clk ctx r))"
proof -
  note s = relay_inv_save [OF N _ r] and c = relay_inv_small [OF r]
  have lim: "cfg_small ((rcfg r)\<lparr>gpio_num := v\<rparr>)" if "\<not> v < 0" "\<not> v > 30" for v
    using c that by (simp add: cfg_small_def)
  show "relay_inv N (fst (relay_cli_gpio N ctx r))"
    using s [OF lim] r by (simp add: relay_handler_defs del: not_less)
  have "cfg_small ((rcfg r)\<lparr>invert := v\<rparr>)" for v using c by (simp add: cfg_small_def)
  from s [OF this] show "relay_inv N (fst (relay_cli_invert N ctx r))"
    using r by (simp add: relay_handler_defs split: option.split)
  have "cfg_small ((rcfg r)\<lparr>start_delay_sec := word_of_int v\<rparr>)" if "\<not> v < 0" "\<not> v > LS_RELAY_MAX_DELAY_SEC" for v
    using c that by (simp add: cfg_small_def small_words LS_RELAY_MAX_DELAY_SEC_def)
  from s [OF this] show "relay_inv N (fst (relay_cli_delay N ctx r))"
    using r by (simp add: relay_handler_defs split: option.split)
  have "cfg_small ((rcfg r)\<lparr>total_duration_s := word_of_int v\<rparr>)"
    if "\<not> v < LS_RELAY_MIN_DURATION_SEC" "\<not> v > LS_RELAY_MAX_DURATION_SEC" for v
    using c that by (simp add: cfg_small_def small_words LS_RELAY_MIN_DURATION_SEC_def LS_RELAY_MAX_DURATION_SEC_def)
  from s [OF this] show "relay_inv N (fst (relay_cli_duration N ctx r))"
    using r by (simp add: relay_handler_defs split: option.split)
  have p: "cfg_small ((rcfg r)\<lparr>pulse_enabled := b\<rparr>)" for b using c by (simp add: cfg_small_def)
  have "cfg_small ((rcfg r)\<lparr>pulse_enabled := True, pulse_duration_sec := word_of_int v\<rparr>)"
    if "\<not> v < LS_RELAY_MIN_PULSE_SEC" "\<not> v > LS_RELAY_MAX_PULSE_SEC" for v
    using c that by (simp add: cfg_small_def small_words LS_RELAY_MIN_PULSE_SEC_def LS_RELAY_MAX_PULSE_SEC_def)
  from s [OF this] s [OF p] show "relay_inv N (fst (relay_cli_pulse N ctx r))"
    using r by (simp add: relay_handler_defs split: option.split)
qed (use r in \<open>simp_all add: relay_handler_defs\<close>)

lemma relay_inv_act: "nvs_lawful N \<Longrightarrow> relay_inv N r \<Longrightarrow> relay_inv N (fst (relay_act_step N r a))"
proof (cases a)
  case (RCommand name ctx clk qok)
  assume N: "nvs_lawful N" and r: "relay_inv N r"
  show ?thesis
  proof (cases "map_of (relay_cmds N clk qok) name")
    case (Some h)
    then have "h \<in> {relay_cli_gpio N, relay_cli_invert N, relay_cli_delay N, relay_cli_duration N,
        relay_cli_pulse N, relay_cli_get, relay_cli_test qok, relay_cli_off, relay_cli_abort, relay_cli_status clk}"
      by (auto simp: relay_cmds_def split: if_splits)
    then have "relay_inv N (fst (h ctx r))"
      by (elim insertE emptyE; simp only: relay_inv_handler [OF N r])
    then show ?thesis using Some by (simp add: RCommand case_prod_beta)
  qed (use r in \<open>simp add: RCommand\<close>)
next
  case RFactoryReset
  assume N: "nvs_lawful N" and r: "relay_inv N r"
  have small: "cfg_small (relay_default_config g)" if "-1 \<le> g" "g \<le> 30" for g
    using that by (simp add: cfg_small_def relay_default_config_def)
  let ?r = "fst (relay_factory_reset N r)"
  have f: "rflash ?r = nv_commit N (nv_erase_all N (rflash r) NVS_RLY) NVS_RLY"
    "rcfg ?r = relay_default_config (default_gpio r)" "default_gpio ?r = default_gpio r"
    using N by (simp_all add: relay_factory_reset_def Let_def case_prod_beta nvs_simps)
  have "nv_get N (rflash ?r) NVS_RLY k = None" for k using N by (simp add: f nvs_simps)
  then have "relay_synced N ?r"
    by (simp add: relay_synced_def f(2,3) relay_nvs_load_def relay_static_def Let_def nvs_get_defs
        relay_default_config_def)
  then show ?thesis using r small by (simp add: RFactoryReset relay_inv_def f(2,3))
qed

text \<open>The life of the component: actions of its handlers and hooks, and restarts.\<close>

datatype relay_life = RelayAct relay_act | RelayReboot

fun relay_life_step :: "'n nvs_ops \<Rightarrow> 'n relay \<Rightarrow> relay_life \<Rightarrow> 'n relay" where
  "relay_life_step N r (RelayAct a) = fst (relay_act_step N r a)"
| "relay_life_step N r RelayReboot = fst (ls_relay_init N (default_gpio r) (rflash r))"

lemma load_default_gpio:
  "rcfg (relay_nvs_load N g ((relay_static n)\<lparr>default_gpio := x\<rparr>)) = rcfg (relay_nvs_load N g (relay_static n))"
  "rflash (relay_nvs_load N g r) = rflash r" "default_gpio (relay_nvs_load N g r) = default_gpio r"
  by (simp_all add: relay_nvs_load_def relay_static_def Let_def)

lemma init_config:
  "rcfg (fst (ls_relay_init N g n)) = rcfg (relay_nvs_load N g (relay_static n))"
  "rflash (fst (ls_relay_init N g n)) = n" "default_gpio (fst (ls_relay_init N g n)) = g"
  by (simp_all add: ls_relay_init_def Let_def case_prod_beta load_default_gpio)
    (simp_all add: relay_static_def)

interpretation relay_life: stepping "relay_life_step N" "\<lambda>r :: 'n relay. nvs_lawful N \<longrightarrow> relay_inv N r" "\<lambda>_. True"
  for N :: "'n nvs_ops"
proof
  fix r :: "'n relay" and e
  assume "nvs_lawful N \<longrightarrow> relay_inv N r"
  then show "nvs_lawful N \<longrightarrow> relay_inv N (relay_life_step N r e)"
  proof (cases e)
    case RelayReboot
    then show ?thesis using \<open>nvs_lawful N \<longrightarrow> relay_inv N r\<close>
      by (simp add: relay_inv_def relay_synced_def init_config)
  qed (simp add: relay_inv_act)
qed

text \<open>
  On a healthy flash, after any sequence of commands (with any arguments), factory resets and
  restarts of a device that was first started with an empty relay namespace, the configuration is
  within its documented limits, and a restart loads exactly the configuration that was in force.
\<close>
theorem relay_config_invariant:
  assumes "nvs_lawful N" and "\<And>k. nv_get N n NVS_RLY k = None" and "-1 \<le> g" and "g \<le> 30"
  shows "let r = foldl (relay_life_step N) (fst (ls_relay_init N g n)) ls in
    cfg_small (rcfg r) \<and> rcfg (fst (ls_relay_init N (default_gpio r) (rflash r))) = rcfg r"
proof -
  have "rcfg (relay_nvs_load N g (relay_static n)) = relay_default_config g"
    using assms(2) by (simp add: relay_nvs_load_def relay_static_def Let_def nvs_get_defs relay_default_config_def)
  then have "relay_inv N (fst (ls_relay_init N g n))"
    using assms(3,4) by (simp add: relay_inv_def relay_synced_def init_config cfg_small_def relay_default_config_def)
  then have "nvs_lawful N \<longrightarrow> relay_inv N (foldl (relay_life_step N) (fst (ls_relay_init N g n)) ls)"
    by (intro relay_life.run_inv) simp_all
  then show ?thesis using assms(1) by (simp add: Let_def relay_inv_def relay_synced_def init_config)
qed

theorem relay_config_invariant_witness:
  "cfg_small (rcfg (foldl (relay_life_step nvs_map_ops) (fst (ls_relay_init nvs_map_ops 19 Map.empty))
     [RelayAct (RCommand ''relay.duration'' (human_ctx True [''99999'']) \<lparr> up_us = 5, wall = 0 \<rparr> True),
      RelayReboot, RelayAct RFactoryReset]))"
proof -
  have e: "nv_get nvs_map_ops Map.empty NVS_RLY k = None" for k by (simp add: nvs_map_ops_def)
  show ?thesis using relay_config_invariant [OF nvs_map_lawful e, of 19, unfolded Let_def]
    by (simp del: relay_life_step.simps foldl_Cons)
qed

end
