(* ===== verification/LsResetApiProps.thy ===== *)
theory LsResetApiProps
  imports LsResetApi SkCliProps
begin

text \<open>
  What the HTTP reset endpoint promises: its keys are 48-bit values in a fixed format, only the key
  in force resets the countdown, a replaced key stays dead, the configuration survives a restart
  once it is stored, and an unauthenticated console learns nothing about the key.
\<close>

section \<open>The key format\<close>

definition hex_val :: "char \<Rightarrow> nat" where
  "hex_val c = (if char_code c \<le> 57 then char_code c - 48 else char_code c - 87)"

fun unhex :: "string \<Rightarrow> u8 list" where
  "unhex (a # b # s) = word_of_nat (hex_val a * 16 + hex_val b) # unhex s"
| "unhex _ = []"

definition key_bytes :: "string \<Rightarrow> u8 list option" where
  "key_bytes k = (if key_is_valid k then Some (unhex (drop 3 k)) else None)"

lemma hex_digit_ok: "d < 16 \<Longrightarrow> key_char_ok (hex_digit d)"
  by (drule nibble_cases) (auto simp: hex_digit_def key_char_ok_def char_code_def)

lemma hex_val_digit: "d < 16 \<Longrightarrow> hex_val (hex_digit d) = d"
  by (drule nibble_cases) (auto simp: hex_digit_def hex_val_def char_code_def)

lemma hex_loop_all: "3 + (i + length bs) * 2 \<le> cap \<Longrightarrow> i + length bs \<le> 6 \<Longrightarrow>
    length (hex_loop cap i bs) = 2 * length bs \<and> list_all key_char_ok (hex_loop cap i bs) \<and>
    unhex (hex_loop cap i bs) = bs"
  by (induction cap i bs rule: hex_loop.induct) (auto simp: hex_digit_ok hex_val_digit nibbles_lt hex_byte)

lemma generate_key_valid: "length rnd = 6 \<Longrightarrow> key_is_valid (generate_key rnd)"
  using hex_loop_all [of 0 rnd 17] by (simp add: generate_key_def key_is_valid_def LS_RESET_API_KEY_LEN_def)

lemma key_bytes_generate: "length rnd = 6 \<Longrightarrow> key_bytes (generate_key rnd) = Some rnd"
  using hex_loop_all [of 0 rnd 17] generate_key_valid [of rnd]
  by (simp add: key_bytes_def generate_key_def LS_RESET_API_KEY_LEN_def)

interpretation reset_key: codec generate_key key_bytes "\<lambda>rnd. length rnd = 6"
  by unfold_locales (rule key_bytes_generate)

lemma key_length: "key_is_valid k \<Longrightarrow> length k = 15"
  by (simp add: key_is_valid_def LS_RESET_API_KEY_LEN_def split: if_splits)

lemma key_not_empty: "key_is_valid k \<Longrightarrow> k \<noteq> []"
  by (auto dest: key_length)

section \<open>Life of the component\<close>

datatype 'r rapi_op =
    RapiEnable esp_err cli_ctx
  | RapiSetKey cli_ctx
  | RapiRegen "u8 list" cli_ctx
  | RapiGet 'r
  | RapiFactoryReset "u8 list"
  | RapiBoot "u8 list" esp_err

fun rapi_step :: "'n nvs_ops \<Rightarrow> 'n reset_api \<Rightarrow> 'r rapi_op \<Rightarrow> 'n reset_api" where
  "rapi_step N s (RapiEnable res ctx) = fst (rapi_cli_enable N res ctx s)"
| "rapi_step N s (RapiSetKey ctx) = fst (rapi_cli_set_key N ctx s)"
| "rapi_step N s (RapiRegen rnd ctx) = fst (rapi_cli_regen N rnd ctx s)"
| "rapi_step N s (RapiGet req) = s"
| "rapi_step N s (RapiFactoryReset rnd) = rapi_factory_reset N rnd s"
| "rapi_step N s (RapiBoot rnd res) = ls_reset_api_init N rnd res (raflash s)"

text \<open>Six random bytes are what \<open>esp_fill_random\<close> writes.\<close>

fun op_ok :: "'r rapi_op \<Rightarrow> bool" where
  "op_ok (RapiRegen rnd ctx) = (length rnd = 6)"
| "op_ok (RapiFactoryReset rnd) = (length rnd = 6)"
| "op_ok (RapiBoot rnd res) = (length rnd = 6)"
| "op_ok _ = True"

text \<open>The image in flash: nothing yet, or the flag and the key in force.\<close>

definition rapi_image :: "'n nvs_ops \<Rightarrow> 'n reset_api \<Rightarrow> bool" where
  "rapi_image N s \<longleftrightarrow>
     (nv_get N (raflash s) NVS_RAPI ''key'' = None \<and> nv_get N (raflash s) NVS_RAPI ''en'' = None \<and>
        \<not> rapi_enabled s) \<or>
     (nv_get N (raflash s) NVS_RAPI ''key'' = Some (NvStr (api_key s)) \<and>
        nv_get N (raflash s) NVS_RAPI ''en'' = Some (NvU8 (if rapi_enabled s then 1 else 0)))"

definition rapi_inv :: "'n nvs_ops \<Rightarrow> 'n reset_api \<Rightarrow> bool" where
  "rapi_inv N s \<longleftrightarrow> key_is_valid (api_key s) \<and> (httpd_up s \<longrightarrow> rapi_enabled s) \<and> rapi_image N s"

lemma rapi_save_fields [simp]:
  "rapi_enabled (rapi_nvs_save N s) = rapi_enabled s" "api_key (rapi_nvs_save N s) = api_key s"
  "httpd_up (rapi_nvs_save N s) = httpd_up s"
  by (simp_all add: rapi_nvs_save_def Let_def)

lemma rapi_save_stored:
  "nvs_lawful N \<Longrightarrow> nv_get N (raflash (rapi_nvs_save N s)) NVS_RAPI ''key'' = Some (NvStr (api_key s)) \<and>
     nv_get N (raflash (rapi_nvs_save N s)) NVS_RAPI ''en'' = Some (NvU8 (if rapi_enabled s then 1 else 0))"
  by (simp add: rapi_nvs_save_def Let_def nvs_simps)

lemma rapi_save_image: "nvs_lawful N \<Longrightarrow> rapi_image N (rapi_nvs_save N s)"
  using rapi_save_stored [of N s] by (simp add: rapi_image_def)

lemma server_fields [simp]:
  "rapi_enabled (snd (server_start res s)) = rapi_enabled s"
  "api_key (snd (server_start res s)) = api_key s" "raflash (snd (server_start res s)) = raflash s"
  "rapi_enabled (server_stop s) = rapi_enabled s" "api_key (server_stop s) = api_key s"
  "raflash (server_stop s) = raflash s" "\<not> httpd_up (server_stop s)"
  "httpd_up (snd (server_start res s)) \<longleftrightarrow> httpd_up s \<or> res = ESP_OK"
  by (simp_all add: server_start_def server_stop_def)

lemma rapi_image_cong:
  "raflash s' = raflash s \<Longrightarrow> rapi_enabled s' = rapi_enabled s \<Longrightarrow> api_key s' = api_key s \<Longrightarrow>
     rapi_image N s' = rapi_image N s"
  by (simp add: rapi_image_def)

lemma rapi_inv_save: "nvs_lawful N \<Longrightarrow> key_is_valid (api_key s) \<Longrightarrow> (httpd_up s \<longrightarrow> rapi_enabled s) \<Longrightarrow>
    rapi_inv N (rapi_nvs_save N s)"
  by (simp add: rapi_inv_def rapi_save_image)

lemma rapi_inv_apply: "nvs_lawful N \<Longrightarrow> rapi_inv N s \<Longrightarrow> rapi_inv N (apply_enabled N res b s)"
  using rapi_save_image [of N "s\<lparr>rapi_enabled := b\<rparr>"]
  by (auto simp: apply_enabled_def Let_def rapi_inv_def cong: rapi_image_cong
      elim!: rapi_image_cong [THEN iffD1, rotated -1])

text \<open>What a start loads, by what the image holds.\<close>

lemma rapi_load_blank:
  "nv_get N n NVS_RAPI ''key'' = None \<Longrightarrow> nv_get N n NVS_RAPI ''en'' = None \<Longrightarrow>
     rapi_nvs_load N rnd (reset_api_static n) = (reset_api_static n)\<lparr>api_key := generate_key rnd\<rparr>"
  by (simp add: rapi_nvs_load_def reset_api_static_def Let_def get_key_def nvs_get_defs)

lemma rapi_load_stored:
  assumes "nvs_lawful N" and k: "nv_get N n NVS_RAPI ''key'' = Some (NvStr k)" and "key_is_valid k"
    and "nv_get N n NVS_RAPI ''en'' = Some (NvU8 (if b then 1 else 0))"
  shows "rapi_nvs_load N rnd (reset_api_static n) = (reset_api_static n)\<lparr>api_key := k, rapi_enabled := b\<rparr>"
  using assms nvs_open_ro [OF assms(1) k] key_length [OF assms(3)]
  by (simp add: rapi_nvs_load_def reset_api_static_def Let_def get_key_def nvs_get_defs load_val_Some
      LS_RESET_API_KEY_LEN_def)

lemma static_fields [simp]:
  "raflash (reset_api_static n) = n" "\<not> rapi_enabled (reset_api_static n)" "\<not> httpd_up (reset_api_static n)"
  by (simp_all add: reset_api_static_def)

lemma rapi_boot_stored:
  assumes "nvs_lawful N" and "nv_get N n NVS_RAPI ''key'' = Some (NvStr k)" and "key_is_valid k"
    and "nv_get N n NVS_RAPI ''en'' = Some (NvU8 (if b then 1 else 0))"
  shows "ls_reset_api_init N rnd res n =
    \<lparr> rapi_enabled = b, api_key = k, httpd_up = (b \<and> res = ESP_OK), raflash = n \<rparr>"
  by (simp only: ls_reset_api_init_def rapi_load_stored [OF assms])
    (auto simp: Let_def server_start_def reset_api_static_def)

lemma rapi_boot_blank:
  "nv_get N n NVS_RAPI ''key'' = None \<Longrightarrow> nv_get N n NVS_RAPI ''en'' = None \<Longrightarrow>
     ls_reset_api_init N rnd res n = (reset_api_static n)\<lparr>api_key := generate_key rnd\<rparr>"
  by (simp add: ls_reset_api_init_def rapi_load_blank)

lemma rapi_inv_boot:
  assumes N: "nvs_lawful N" and s: "rapi_inv N s" and r: "length rnd = 6"
  shows "rapi_inv N (ls_reset_api_init N rnd res (raflash s))"
proof (cases "nv_get N (raflash s) NVS_RAPI ''key'' = None")
  case True
  with s have "nv_get N (raflash s) NVS_RAPI ''en'' = None" by (auto simp: rapi_inv_def rapi_image_def)
  from rapi_boot_blank [OF True this, of rnd res] show ?thesis
    using True \<open>nv_get N (raflash s) NVS_RAPI ''en'' = None\<close> r
    by (simp add: rapi_inv_def rapi_image_def generate_key_valid)
next
  case False
  with s have k: "nv_get N (raflash s) NVS_RAPI ''key'' = Some (NvStr (api_key s))"
    and e: "nv_get N (raflash s) NVS_RAPI ''en'' = Some (NvU8 (if rapi_enabled s then 1 else 0))"
    and v: "key_is_valid (api_key s)" by (auto simp: rapi_inv_def rapi_image_def)
  from rapi_boot_stored [OF N k v e, of rnd res] show ?thesis
    using k e v by (simp add: rapi_inv_def rapi_image_def)
qed

lemma rapi_inv_set_key:
  "nvs_lawful N \<Longrightarrow> rapi_inv N s \<Longrightarrow> rapi_inv N (fst (rapi_cli_set_key N ctx s))"
  by (auto simp: rapi_cli_set_key_def Let_def rapi_inv_def rapi_save_image key_length
      LS_RESET_API_KEY_LEN_def split: option.splits)

lemma rapi_inv_reset:
  "nvs_lawful N \<Longrightarrow> rapi_inv N s \<Longrightarrow> length rnd = 6 \<Longrightarrow> rapi_inv N (rapi_factory_reset N rnd s)"
  by (auto simp: rapi_factory_reset_def Let_def rapi_inv_def rapi_save_image generate_key_valid)

lemma rapi_inv_step: "nvs_lawful N \<Longrightarrow> rapi_inv N s \<Longrightarrow> op_ok op \<Longrightarrow> rapi_inv N (rapi_step N s op)"
proof (induction op)
  case (RapiEnable res ctx)
  then show ?case by (auto simp: rapi_cli_enable_def rapi_inv_apply split: option.splits)
next
  case (RapiRegen rnd ctx)
  then show ?case
    by (auto simp: rapi_cli_regen_def Let_def rapi_inv_def rapi_save_image generate_key_valid)
qed (auto simp: rapi_inv_set_key rapi_inv_reset rapi_inv_boot)

interpretation rapi_life: stepping "rapi_step N" "\<lambda>s :: 'n reset_api. nvs_lawful N \<longrightarrow> rapi_inv N s" op_ok
  by unfold_locales (auto simp: rapi_inv_step)

text \<open>
  Over any sequence of commands, requests, factory resets and restarts that begins on an unused
  flash, the key in force is well-formed (\<open>ls_\<close> and twelve lowercase hexadecimal digits), the server
  never runs while the endpoint is disabled, and once a key has been stored a restart brings back
  exactly the same key and switch position, with the server running if it is on and its start
  succeeds.
\<close>
theorem reset_api_run_sound:
  assumes "nvs_lawful N" and "\<And>k. nv_get N n NVS_RAPI k = None" and "length rnd = 6"
    and "\<forall>e \<in> set ops. op_ok e"
  shows "let s = foldl (rapi_step N) (ls_reset_api_init N rnd res n) ops in
    key_is_valid (api_key s) \<and> (httpd_up s \<longrightarrow> rapi_enabled s) \<and>
    (nv_get N (raflash s) NVS_RAPI ''key'' \<noteq> None \<longrightarrow>
       (\<forall>rnd' res'. ls_reset_api_init N rnd' res' (raflash s) =
          s\<lparr>httpd_up := (rapi_enabled s \<and> res' = ESP_OK)\<rparr>))"
proof -
  have "rapi_inv N (ls_reset_api_init N rnd res n)"
    using rapi_boot_blank [of N n rnd res] assms
    by (simp add: rapi_inv_def rapi_image_def generate_key_valid)
  then have "nvs_lawful N \<longrightarrow> rapi_inv N (foldl (rapi_step N) (ls_reset_api_init N rnd res n) ops)"
    by (intro rapi_life.run_inv) (use assms in auto)
  with assms(1) show ?thesis
    using rapi_boot_stored [OF assms(1)] by (auto simp: Let_def rapi_inv_def rapi_image_def)
qed

definition human0 :: cli_ctx where
  "human0 = human_ctx True []"

theorem reset_api_run_sound_witness:
  "let s = foldl (rapi_step nvs_map_ops) (ls_reset_api_init nvs_map_ops [0, 0, 0, 0, 0, 0] ESP_OK Map.empty)
       [RapiRegen [1, 2, 3, 4, 5, 255] human0, RapiGet (), RapiEnable ESP_OK (human0\<lparr>human_argv := [''on'']\<rparr>)]
   in api_key s = ''ls_0102030405ff'' \<and> httpd_up s \<and> key_is_valid (api_key s) \<and>
     (\<forall>rnd' res'. ls_reset_api_init nvs_map_ops rnd' res' (raflash s) = s\<lparr>httpd_up := (res' = ESP_OK)\<rparr>)"
proof -
  let ?ops = "[RapiRegen [1, 2, 3, 4, 5, 255] human0, RapiGet (), RapiEnable ESP_OK (human0\<lparr>human_argv := [''on'']\<rparr>)]"
  let ?s = "foldl (rapi_step nvs_map_ops) (ls_reset_api_init nvs_map_ops [0, 0, 0, 0, 0, 0] ESP_OK Map.empty) ?ops"
  have e: "nv_get nvs_map_ops Map.empty NVS_RAPI k = None" for k by (simp add: nvs_map_ops_def)
  have "api_key ?s = ''ls_0102030405ff''" by code_simp
  moreover have "httpd_up ?s" by code_simp
  moreover have "nv_get nvs_map_ops (raflash ?s) NVS_RAPI ''key'' \<noteq> None" by code_simp
  moreover have "rapi_enabled ?s" by code_simp
  ultimately show ?thesis
    using reset_api_run_sound [OF nvs_map_lawful e, of "[0, 0, 0, 0, 0, 0]" ?ops ESP_OK] by (simp add: Let_def)
qed

section \<open>Only the key in force\<close>

text \<open>The key a request presents: the parameter \<open>key\<close> of its query, if the server can read it.\<close>

definition presented :: "'r http_ops \<Rightarrow> 'r \<Rightarrow> string option" where
  "presented H req =
     (let qlen = min (url_query_len H req + 1) 64;
          (qerr, query) = url_query_str H req qlen;
          (kerr, k) = query_key_value H query ''key'' 17
      in if 1 < qlen \<and> qerr = ESP_OK \<and> kerr = ESP_OK \<and> k \<noteq> [] then Some k else None)"

lemma handler_presented:
  "reset_get_handler H req s =
     (if \<not> rapi_enabled s then ([], refused ''403 Forbidden'' ''disabled'')
      else if presented H req = None then ([], snd (reset_get_handler H req s))
      else if presented H req \<noteq> Some (api_key s) then ([], refused ''401 Unauthorized'' ''invalid key'')
      else ([Publish ''timer.reset.requested'' (Some (''{'' @ jk ''by'' @ jq ''api'' @ ''}''))],
        \<lparr> resp_status = ''200 OK'', resp_body = ''{'' @ jk ''ok'' @ ''true}'', resp_ret = ESP_OK \<rparr>))"
  by (auto simp: reset_get_handler_def presented_def Let_def LS_RESET_API_KEY_LEN_def
      split: prod.splits if_splits)

fun installs :: "string \<Rightarrow> 'r rapi_op \<Rightarrow> bool" where
  "installs k (RapiSetKey ctx) = (or_else (sk_cli_arg_after ctx ''key'') (sk_cli_arg ctx 0) = Some k)"
| "installs k (RapiRegen rnd ctx) = (generate_key rnd = k)"
| "installs k (RapiFactoryReset rnd) = (generate_key rnd = k)"
| "installs k (RapiBoot rnd res) = (generate_key rnd = k)"
| "installs k _ = False"

text \<open>The key is neither in force nor stored.\<close>

definition key_gone :: "string \<Rightarrow> 'n nvs_ops \<Rightarrow> 'n reset_api \<Rightarrow> bool" where
  "key_gone k N s \<longleftrightarrow> api_key s \<noteq> k \<and> nv_get N (raflash s) NVS_RAPI ''key'' \<noteq> Some (NvStr k)"

lemma key_gone_save: "nvs_lawful N \<Longrightarrow> api_key s \<noteq> k \<Longrightarrow> key_gone k N (rapi_nvs_save N s)"
  using rapi_save_stored [of N s] by (simp add: key_gone_def)

lemma key_gone_cong: "api_key s' = api_key s \<Longrightarrow> raflash s' = raflash s \<Longrightarrow> key_gone k N s' = key_gone k N s"
  by (simp add: key_gone_def)

lemma key_gone_boot:
  "key_gone k N s \<Longrightarrow> generate_key rnd \<noteq> k \<Longrightarrow> key_gone k N (ls_reset_api_init N rnd res (raflash s))"
  by (auto simp: key_gone_def ls_reset_api_init_def rapi_nvs_load_def Let_def get_key_def get_str_def
      split: option.splits nvs_val.splits)

lemma key_gone_step:
  "nvs_lawful N \<Longrightarrow> key_gone k N s \<Longrightarrow> \<not> installs k op \<Longrightarrow> key_gone k N (rapi_step N s op)"
proof (induction op)
  case (RapiEnable res ctx)
  then have "api_key s \<noteq> k" by (simp add: key_gone_def)
  with RapiEnable have "key_gone k N (apply_enabled N res b s)" for b
    using key_gone_save [of N "s\<lparr>rapi_enabled := b\<rparr>" k]
    by (cases b) (simp_all add: apply_enabled_def Let_def key_gone_def)
  with RapiEnable show ?case by (auto simp: rapi_cli_enable_def split: option.splits)
next
  case (RapiSetKey ctx)
  then show ?case
    by (auto simp: rapi_cli_set_key_def Let_def key_length LS_RESET_API_KEY_LEN_def split: option.splits
        intro!: key_gone_save)
qed (auto simp: rapi_cli_regen_def rapi_factory_reset_def Let_def intro!: key_gone_save key_gone_boot)

interpretation dead_key: stepping "rapi_step N" "\<lambda>s :: 'n reset_api. nvs_lawful N \<longrightarrow> key_gone k N s" "\<lambda>e. \<not> installs k e"
  by unfold_locales (auto simp: key_gone_step)

text \<open>
  C15: A replaced key stays dead. After \<open>reset_api regen\<close> or a factory reset whose six random bytes are
  not the ones the old key spells, no request that presents the old key resets the countdown - it
  is answered 401 or 403 and publishes nothing - whatever commands, requests, factory resets and
  power cycles follow, until that very key is installed again.
\<close>
theorem replaced_key_stays_dead:
  assumes "nvs_lawful N" and "op = RapiRegen rnd ctx \<or> op = RapiFactoryReset rnd" and "length rnd = 6"
    and "key_bytes (api_key s) \<noteq> Some rnd" and "\<forall>e \<in> set ops. \<not> installs (api_key s) e"
    and "presented H req = Some (api_key s)"
  shows "fst (reset_get_handler H req (foldl (rapi_step N) (rapi_step N s op) ops)) = [] \<and>
    resp_status (snd (reset_get_handler H req (foldl (rapi_step N) (rapi_step N s op) ops))) \<in>
      {''401 Unauthorized'', ''403 Forbidden''}"
proof -
  have "generate_key rnd \<noteq> api_key s" using assms(3,4) key_bytes_generate by metis
  then have "key_gone (api_key s) N (rapi_step N s op)"
    using assms(1,2) by (auto simp: rapi_cli_regen_def rapi_factory_reset_def Let_def intro!: key_gone_save)
  then have "nvs_lawful N \<longrightarrow> key_gone (api_key s) N (foldl (rapi_step N) (rapi_step N s op) ops)"
    by (intro dead_key.run_inv) (use assms(5) in auto)
  then show ?thesis using assms(1,6)
    by (auto simp: handler_presented key_gone_def refused_def)
qed

text \<open>A concrete server: the request is its query string, \<open>a=1&key=...\<close>.\<close>

function find_param :: "string \<Rightarrow> string \<Rightarrow> nat \<Rightarrow> esp_err \<times> string" where
  "find_param qs k n =
     (if qs = [] then (ESP_ERR_NOT_FOUND, [])
      else if take (length k + 1) qs = k @ ''='' then
        (let v = takeWhile (\<lambda>c. c \<noteq> CHR ''&'') (drop (length k + 1) qs)
         in if length v < n then (ESP_OK, v) else (ESP_ERR_INVALID_SIZE, take (n - 1) v))
      else find_param (drop 1 (dropWhile (\<lambda>c. c \<noteq> CHR ''&'') qs)) k n)"
  by pat_completeness auto
termination
proof (relation "measure (\<lambda>(qs, _). length qs)")
  fix qs k :: string and n
  assume "qs \<noteq> []"
  then show "((drop 1 (dropWhile (\<lambda>c. c \<noteq> CHR ''&'') qs), k, n), qs, k, n) \<in> measure (\<lambda>(qs, _). length qs)"
    using length_dropWhile_le [of "\<lambda>c. c \<noteq> CHR ''&''" qs] by (cases qs) auto
qed simp

definition plain_http :: "string http_ops" where
  "plain_http = \<lparr> url_query_len = length,
     url_query_str = (\<lambda>r n. if length r < n then (ESP_OK, r) else (ESP_ERR_INVALID_SIZE, take (n - 1) r)),
     query_key_value = find_param \<rparr>"

theorem replaced_key_stays_dead_witness:
  "let s0 = \<lparr> rapi_enabled = True, api_key = ''ls_0102030405ff'', httpd_up = True, raflash = Map.empty \<rparr>;
       s1 = rapi_step nvs_map_ops s0 (RapiRegen [1, 2, 3, 4, 5, 6] human0 :: string rapi_op)
   in resp_status (snd (reset_get_handler plain_http ''x=1&key=ls_0102030405ff'' s0)) = ''200 OK'' \<and>
     resp_status (snd (reset_get_handler plain_http ''x=1&key=ls_010203040506'' s1)) = ''200 OK'' \<and>
     resp_status (snd (reset_get_handler plain_http ''x=1&key=ls_0102030405ff'' (foldl (rapi_step nvs_map_ops) s1
       [RapiGet ''key=1'', RapiBoot [0, 0, 0, 0, 0, 0] ESP_OK]))) \<in> {''401 Unauthorized'', ''403 Forbidden''}"
proof -
  let ?s0 = "\<lparr> rapi_enabled = True, api_key = ''ls_0102030405ff'', httpd_up = True, raflash = Map.empty \<rparr>"
  let ?op = "RapiRegen [1, 2, 3, 4, 5, 6] human0 :: string rapi_op"
  let ?ops = "[RapiGet ''key=1'', RapiBoot [0, 0, 0, 0, 0, 0] ESP_OK]"
  have "resp_status (snd (reset_get_handler plain_http ''x=1&key=ls_0102030405ff'' ?s0)) = ''200 OK''"
    by code_simp
  moreover have "resp_status (snd (reset_get_handler plain_http ''x=1&key=ls_010203040506''
      (rapi_step nvs_map_ops ?s0 ?op))) = ''200 OK''" by code_simp
  moreover have kb: "key_bytes (api_key ?s0) \<noteq> Some [1, 2, 3, 4, 5, 6]" by code_simp
  moreover have pr: "presented plain_http ''x=1&key=ls_0102030405ff'' = Some (api_key ?s0)" by code_simp
  moreover have no: "\<forall>e \<in> set ?ops. \<not> installs (api_key ?s0) e" by code_simp
  moreover have "resp_status (snd (reset_get_handler plain_http ''x=1&key=ls_0102030405ff''
      (foldl (rapi_step nvs_map_ops) (rapi_step nvs_map_ops ?s0 ?op) ?ops))) \<in> {''401 Unauthorized'', ''403 Forbidden''}"
    by (rule replaced_key_stays_dead [OF nvs_map_lawful disjI1 [OF refl] _ kb no pr, THEN conjunct2]) simp
  ultimately show ?thesis unfolding Let_def by blast
qed

section \<open>What an open console learns\<close>

text \<open>
  An unauthenticated console neither learns nor changes the key: whatever line is typed, its output
  is the same for every key the device may hold, and the state it leaves differs in the key only.
\<close>
theorem open_console_blind_to_key:
  "sk_cli_dispatch_line ready parse (rapi_cmds N res rnd ident) None line (s\<lparr>api_key := k\<rparr>) =
     (case sk_cli_dispatch_line ready parse (rapi_cmds N res rnd ident) None line s of
        (s', ctx, outs) \<Rightarrow> (s'\<lparr>api_key := k\<rparr>, ctx, outs))"
  by (rule dispatch_open_hom [of _ "\<lambda>s. s\<lparr>api_key := k\<rparr>"])
    (auto simp: rapi_cmds_def rapi_command_def rapi_cli_status_def)

text \<open>
  The key of a device that has never stored one does not survive a restart, although the help text
  of \<open>reset_api key\<close> says that the device generates its key on first boot: start-up writes nothing, and
  two starts draw two keys, different unless the random bytes agree. And \<open>reset_api enable on\<close> answers
  that the endpoint is enabled, and stores it, when the server could not be started.
\<close>
theorem first_key_is_volatile:
  assumes "nv_get N n NVS_RAPI ''key'' = None" and "nv_get N n NVS_RAPI ''en'' = None"
    and "length r1 = 6" and "length r2 = 6" and "r1 \<noteq> r2" and "err \<noteq> ESP_OK"
  shows "raflash (ls_reset_api_init N r1 res n) = n \<and>
    api_key (ls_reset_api_init N r1 res n) \<noteq> api_key (ls_reset_api_init N r2 res n) \<and>
    (case rapi_cli_enable N err (human_ctx True [''on'']) (ls_reset_api_init N r1 res n) of
       (s', outs, rc) \<Rightarrow> rc = SK_OK \<and> outs = [CliKv ''Status'' ''enabled''] \<and> rapi_enabled s' \<and> \<not> httpd_up s')"
proof -
  have i: "ls_reset_api_init N r res n = (reset_api_static n)\<lparr>api_key := generate_key r\<rparr>" for r
    by (rule rapi_boot_blank [OF assms(1,2)])
  have "generate_key r1 \<noteq> generate_key r2" using reset_key.enc_inj assms(3,4,5) by blast
  then show ?thesis using assms(6)
    by (simp add: i rapi_cli_enable_def human_ctx_def sk_cli_arg_after_def sk_cli_arg_def parse_enable_def
        apply_enabled_def Let_def server_start_def answer_lines_def)
qed

theorem first_key_is_volatile_witness:
  "api_key (ls_reset_api_init nvs_map_ops [1, 2, 3, 4, 5, 6] ESP_OK Map.empty) \<noteq>
   api_key (ls_reset_api_init nvs_map_ops [1, 2, 3, 4, 5, 7] ESP_OK Map.empty)"
proof -
  have e: "nv_get nvs_map_ops Map.empty NVS_RAPI k = None" for k by (simp add: nvs_map_ops_def)
  show ?thesis
    using first_key_is_volatile [OF e e, of "[1, 2, 3, 4, 5, 6]" "[1, 2, 3, 4, 5, 7]" ESP_FAIL ESP_OK] by simp
qed

end
