(* ===== verification/SkAuthHmacProps.thy ===== *)
theory SkAuthHmacProps
  imports SkAuthHmac
begin

text \<open>
  What message authentication guarantees and what it does not: hexadecimal round trips, the replay
  window as a list of the last 64 accepted nonces, single use and lifetime of confirm tokens, and
  the replay that the envelope format leaves open.
\<close>

section \<open>Hexadecimal\<close>

lemma hex_nibble_HEX: "d < 16 \<Longrightarrow> hex_nibble (HEX ! d) = int d"
  by (drule nibble_cases) (auto simp: HEX_def hex_nibble_def char_code_def)

lemma join_nibbles: "(drop_bit 4 b AND 0xF :: u8) * 16 OR b AND 0xF = b"
proof -
  let ?h = "drop_bit 4 b AND 0xF :: u8" and ?l = "b AND 0xF"
  have p: "?h * 16 = push_bit 4 ?h" by (simp add: push_bit_eq_mult)
  have l: "?l = take_bit 4 b" by (simp add: take_bit_eq_mask mask_eq_exp_minus_1)
  have "?h * 16 + ?l = ?h * 16 OR ?l"
    unfolding p l by (rule disjunctive_add) (simp add: bit_push_bit_iff bit_take_bit_iff bit_and_iff del: push_bit_and)
  then show ?thesis by (simp only: hex_byte [of b])
qed

lemma nibble_loop_hex: "nibble_loop (bytes_to_hex bs) = Some bs"
  by (induction bs) (simp_all add: bytes_to_hex_def hex_byte_str_def hex_nibble_HEX nibbles_lt
      join_nibbles Let_def)

lemma length_bytes_to_hex: "length (bytes_to_hex bs) = 2 * length bs"
  by (induction bs) (simp_all add: bytes_to_hex_def hex_byte_str_def)

interpretation hex_codec: codec bytes_to_hex "\<lambda>s. hex_to_bytes s n" "\<lambda>bs. length bs = n"
  by unfold_locales (simp add: hex_to_bytes_def length_bytes_to_hex nibble_loop_hex)

section \<open>Constant-time comparison\<close>

lemma fold_or_zero: "foldl (OR) (x :: u8) ws = 0 \<longleftrightarrow> x = 0 \<and> (\<forall>w \<in> set ws. w = 0)"
proof (induction ws arbitrary: x)
  case Nil
  then show ?case by simp
next
  case (Cons w ws)
  have "x OR w = 0 \<longleftrightarrow> x = 0 \<and> w = 0" by (auto simp: bit_eq_iff bit_simps)
  then show ?case using Cons [of "x OR w"] by auto
qed

lemma xor_zero: "(a XOR b :: u8) = 0 \<longleftrightarrow> a = b"
  by (auto simp: bit_eq_iff bit_simps)

lemma map2_xor_zero: "length a = length b \<Longrightarrow> (\<forall>w \<in> set (map2 (XOR) a (b :: u8 list)). w = 0) \<longleftrightarrow> a = b"
  by (induction a b rule: list_induct2) (auto simp: xor_zero)

lemma ct_diff_zero: "length a = length b \<Longrightarrow> ct_diff a b = 0 \<longleftrightarrow> a = b"
  unfolding ct_diff_def fold_or_zero by (simp only: map2_xor_zero simp_thms)

lemma length_hmac_with_key: "hmac_lawful H \<Longrightarrow> hmac_with_key H k b = Some e \<Longrightarrow> length e = SK_AUTH_HMAC_LEN"
  by (auto simp: hmac_with_key_def hmac_lawful_def SK_AUTH_HMAC_LEN_def)

section \<open>The replay window\<close>

text \<open>The ring holds the last 64 accepted nonces; \<open>h\<close> lists all accepted ones, the latest first.\<close>

definition ring_of :: "u32 list \<Rightarrow> replay \<Rightarrow> bool" where
  "ring_of h r \<longleftrightarrow> length (nonces r) = 64 \<and> ring_head r < 64 \<and>
     drop (ring_head r) (nonces r) @ take (ring_head r) (nonces r) = rev (take 64 (h @ replicate 64 0))"

lemma ring_of_reset: "ring_of [] (sk_auth_replay_ctx_reset r)"
  by (simp add: ring_of_def sk_auth_replay_ctx_reset_def SK_AUTH_NONCE_WINDOW_def)

lemma rotate_mark:
  "k < length xs \<Longrightarrow> length xs = Suc m \<Longrightarrow>
     drop ((k + 1) mod Suc m) (xs[k := n]) @ take ((k + 1) mod Suc m) (xs[k := n]) =
     tl (drop k xs @ take k xs) @ [n]"
proof -
  assume k: "k < length xs" and m: "length xs = Suc m"
  have u: "xs[k := n] = take k xs @ n # drop (Suc k) xs" by (rule upd_conv_take_nth_drop [OF k])
  have d: "drop k xs = xs ! k # drop (Suc k) xs" by (rule Cons_nth_drop_Suc [OF k, symmetric])
  show ?thesis
  proof (cases "k = m")
    case True
    then show ?thesis unfolding u unfolding d using m by simp
  next
    case False
    then have "(k + 1) mod Suc m = Suc k" using k m by simp
    then show ?thesis unfolding u unfolding d using k by simp
  qed
qed

lemma ring_of_mark: "ring_of h r \<Longrightarrow> ring_of (n # h) (nonce_mark n r)"
proof -
  assume r: "ring_of h r"
  have "rev (take 64 ((n # h) @ replicate 64 0)) = tl (rev (take 64 (h @ replicate 64 0))) @ [n]"
  proof -
    define zs where "zs = h @ replicate 64 (0 :: u32)"
    have "64 \<le> length zs" by (simp add: zs_def)
    then have b: "take 63 zs = butlast (take 64 zs)" by (simp add: butlast_take)
    have "take 64 ((n # h) @ replicate 64 0) = n # take 63 zs" by (simp add: zs_def take_Cons')
    then have "rev (take 64 ((n # h) @ replicate 64 0)) = rev (butlast (take 64 zs)) @ [n]" by (simp only: b rev.simps)
    moreover have "rev (butlast (take 64 zs)) = tl (rev (take 64 zs))" by (metis butlast_rev rev_rev_ident)
    ultimately show ?thesis by (simp only: zs_def)
  qed
  with r rotate_mark [of "ring_head r" "nonces r" 63 n] show ?thesis
    by (simp add: ring_of_def nonce_mark_def SK_AUTH_NONCE_WINDOW_def)
qed

lemma ring_of_seen: "ring_of h r \<Longrightarrow> nonce_seen_in (nonces r) n \<longleftrightarrow> n \<noteq> 0 \<and> n \<in> set (take 64 h)"
proof -
  assume r: "ring_of h r"
  have "set (nonces r) = set (drop (ring_head r) (nonces r) @ take (ring_head r) (nonces r))"
    by (metis append_take_drop_id set_append sup_commute)
  also have "\<dots> = set (take 64 (h @ replicate 64 0))" using r by (simp only: ring_of_def set_rev)
  also have "\<dots> = set (take 64 h) \<union> set (take (64 - length h) (replicate 64 0))" by simp
  finally show ?thesis by (auto simp: nonce_seen_in_def list_ex_iff dest: in_set_takeD)
qed

text \<open>A message as it arrives: wall clock, body, nonce, time stamp, signature.\<close>

type_synonym msg = "int \<times> string \<times> u32 \<times> int \<times> u8 list"

fun verify_run :: "hmac \<Rightarrow> u8 list \<Rightarrow> replay \<Rightarrow> msg list \<Rightarrow> bool list" where
  "verify_run H key r [] = []"
| "verify_run H key r ((now, body, nonce, ts, sig) # ms) =
     (case sk_auth_verify_message_with H now key body nonce ts sig r of (e, r') \<Rightarrow>
        (e = ESP_OK) # verify_run H key r' ms)"

text \<open>The specification: a list of accepted nonces instead of the ring.\<close>

fun window_spec :: "hmac \<Rightarrow> u8 list \<Rightarrow> u32 list \<Rightarrow> msg list \<Rightarrow> bool list" where
  "window_spec H key h [] = []"
| "window_spec H key h ((now, body, nonce, ts, sig) # ms) =
     (let ok = (now < TS_VALID_THRESHOLD \<or> \<bar>now - ts\<bar> \<le> 60) \<and>
               (nonce = 0 \<or> nonce \<notin> set (take 64 h)) \<and> hmac_with_key H key body = Some sig
      in ok # window_spec H key (if ok then nonce # h else h) ms)"

fun sig_of :: "msg \<Rightarrow> u8 list" where
  "sig_of (now, body, nonce, ts, sig) = sig"

lemma ts_out_of_window_iff: "ts_out_of_window now ts \<longleftrightarrow> \<not> (now < TS_VALID_THRESHOLD \<or> \<bar>now - ts\<bar> \<le> 60)"
  by (auto simp: ts_out_of_window_def Let_def TS_WINDOW_SEC_def)

lemma verify_step:
  assumes H: "hmac_lawful H" and r: "ring_of h r" and sig: "length sig = SK_AUTH_HMAC_LEN"
  shows "sk_auth_verify_message_with H now key body nonce ts sig r =
    (if (now < TS_VALID_THRESHOLD \<or> \<bar>now - ts\<bar> \<le> 60) \<and> (nonce = 0 \<or> nonce \<notin> set (take 64 h)) \<and>
        hmac_with_key H key body = Some sig then (ESP_OK, nonce_mark nonce r) else (ESP_FAIL, r))"
proof (cases "hmac_with_key H key body")
  case None
  then show ?thesis by (simp add: sk_auth_verify_message_with_def)
next
  case (Some e)
  have "ct_diff e sig = 0 \<longleftrightarrow> e = sig"
    using length_hmac_with_key [OF H Some] sig by (intro ct_diff_zero) simp
  then show ?thesis using Some
    by (auto simp: sk_auth_verify_message_with_def ts_out_of_window_iff ring_of_seen [OF r])
qed

lemma verify_run_spec:
  "hmac_lawful H \<Longrightarrow> ring_of h r \<Longrightarrow> \<forall>m \<in> set ms. length (sig_of m) = SK_AUTH_HMAC_LEN \<Longrightarrow>
     verify_run H key r ms = window_spec H key h ms"
proof (induction ms arbitrary: h r)
  case Nil
  then show ?case by simp
next
  case (Cons m ms)
  obtain now body nonce ts sig where m: "m = (now, body, nonce, ts, sig)" by (cases m) auto
  have sig: "length sig = SK_AUTH_HMAC_LEN" using Cons.prems(3) m by simp
  show ?case
    using Cons.IH [OF Cons.prems(1) ring_of_mark [OF Cons.prems(2), of nonce]]
      Cons.IH [OF Cons.prems(1) Cons.prems(2)] Cons.prems(3)
    by (simp add: m verify_step [OF Cons.prems(1,2) sig] Let_def)
qed

text \<open>
  C32: On one session, for signatures of 16 bytes and a lawful HMAC, the ring of 64 nonces with its wrapping head accepts
  exactly the messages that the specification with an unbounded list accepts: the signature is the HMAC of the body
  under the bond key, the nonce is not among the nonces of the last 64 accepted messages or is 0, which always passes, and
  the time stamp is within 60 seconds of the wall clock or the wall clock is not set, when it is not looked at.
\<close>
theorem replay_window_refines:
  assumes "hmac_lawful H" and "\<forall>m \<in> set ms. length (sig_of m) = SK_AUTH_HMAC_LEN"
  shows "verify_run H key (sk_auth_replay_ctx_reset r) ms = window_spec H key [] ms"
  by (rule verify_run_spec [OF assms(1) ring_of_reset assms(2)])

text \<open>A keyed function in the place of HMAC: it exists, and makes the theorems evaluable.\<close>

definition toy_hmac :: hmac where
  "toy_hmac k m = Some (take 32 (k @ m @ replicate 32 0))"

lemma toy_hmac_lawful: "hmac_lawful toy_hmac"
  by (auto simp: hmac_lawful_def toy_hmac_def)

definition toy_msg :: "u32 \<Rightarrow> msg" where
  "toy_msg n = (0, ''go'', n, 0, [1, 103, 111, 0, 0, 0, 0, 0, 0, 0, 0, 0, 0, 0, 0, 0])"

theorem replay_window_refines_witness:
  "verify_run toy_hmac [1] (sk_auth_replay_ctx_reset \<lparr> nonces = [], ring_head = 0 \<rparr>) (map toy_msg [7, 7, 8, 0, 0]) =
     [True, False, True, True, True]"
proof -
  have "\<forall>m \<in> set (map toy_msg [7, 7, 8, 0, 0]). length (sig_of m) = SK_AUTH_HMAC_LEN" by code_simp
  from replay_window_refines [OF toy_hmac_lawful this]
  have "verify_run toy_hmac [1] (sk_auth_replay_ctx_reset \<lparr> nonces = [], ring_head = 0 \<rparr>) (map toy_msg [7, 7, 8, 0, 0]) =
    window_spec toy_hmac [1] [] (map toy_msg [7, 7, 8, 0, 0])" by blast
  also have "\<dots> = [True, False, True, True, True]" by code_simp
  finally show ?thesis .
qed

text \<open>
  The replay window does not bind a signature to its message: nonce and time stamp are not part of
  the signed body. Whoever has seen one accepted envelope can send its body and signature again, at
  any time and in any session with the same bond, under any nonce that the window does not hold (or
  under nonce 0, as often as he likes) and the current time, and it is accepted. The comment in
  \<open>sk_auth.h\<close> takes the nonce to be monotonic and the pair to protect against replays.
\<close>
theorem replay_with_new_nonce:
  assumes "hmac_lawful H" and "length sig = SK_AUTH_HMAC_LEN"
    and "fst (sk_auth_verify_message_with H now key body nonce ts sig r) = ESP_OK"
    and "nonce' = 0 \<or> nonce' \<notin> set (nonces r')"
  shows "fst (sk_auth_verify_message_with H now' key body nonce' now' sig r') = ESP_OK"
  using assms
  by (auto simp: sk_auth_verify_message_with_def ts_out_of_window_def TS_WINDOW_SEC_def nonce_seen_in_def
      list_ex_iff split: option.splits if_splits)

theorem replay_with_new_nonce_witness:
  "fst (sk_auth_verify_message_with toy_hmac 1800000000 [1] ''go'' 9 1800000000 (sig_of (toy_msg 1))
     (sk_auth_replay_ctx_reset \<lparr> nonces = [], ring_head = 0 \<rparr>)) = ESP_OK"
  using replay_with_new_nonce [OF toy_hmac_lawful, of "sig_of (toy_msg 1)" 1700000001 "[1]" "''go''" 1 1700000000
      "sk_auth_replay_ctx_reset \<lparr> nonces = [], ring_head = 0 \<rparr>" 9 "sk_auth_replay_ctx_reset \<lparr> nonces = [], ring_head = 0 \<rparr>" 1800000000]
  by code_simp

section \<open>Confirm tokens\<close>

datatype confirm_op = Issue int "u8 list" | Consume int string

fun confirm_step :: "confirm_slot list \<Rightarrow> confirm_op \<Rightarrow> confirm_slot list" where
  "confirm_step s (Issue now raw) = fst (sk_auth_confirm_issue now raw s)"
| "confirm_step s (Consume now t) = snd (sk_auth_confirm_consume now t s)"

text \<open>How often a token was issued and how often it was accepted.\<close>

fun issued :: "string \<Rightarrow> confirm_op list \<Rightarrow> nat" where
  "issued t [] = 0"
| "issued t (Issue now raw # ops) = (if bytes_to_hex raw = t then 1 else 0) + issued t ops"
| "issued t (_ # ops) = issued t ops"

fun spent :: "string \<Rightarrow> confirm_slot list \<Rightarrow> confirm_op list \<Rightarrow> nat" where
  "spent t s [] = 0"
| "spent t s (Consume now x # ops) =
     (if x = t \<and> fst (sk_auth_confirm_consume now x s) = ESP_OK then 1 else 0) +
     spent t (confirm_step s (Consume now x)) ops"
| "spent t s (op # ops) = spent t (confirm_step s op) ops"

definition live :: "string \<Rightarrow> confirm_slot list \<Rightarrow> nat" where
  "live t s = length (filter (\<lambda>c. slot_in_use c \<and> token_hex c = t) s)"

lemma live_Cons: "live t (c # s) = (if slot_in_use c \<and> token_hex c = t then 1 else 0) + live t s"
  by (simp add: live_def)

lemma live_update: "live t (s[i := c]) \<le> live t s + (if slot_in_use c \<and> token_hex c = t then 1 else 0)"
proof (induction s arbitrary: i)
  case Nil
  then show ?case by (simp add: live_def)
next
  case (Cons x s)
  then show ?case by (cases i) (auto simp: live_Cons intro: le_SucI)
qed

lemma live_consume:
  "live t (snd (sk_auth_confirm_consume now x s)) +
     (if x = t \<and> fst (sk_auth_confirm_consume now x s) = ESP_OK then 1 else 0) \<le> live t s"
  by (induction s) (auto simp: live_Cons live_def split: prod.splits)

lemma spent_le: "spent t s ops \<le> live t s + issued t ops"
proof (induction t s ops rule: spent.induct)
  case (2 t s now x ops)
  then show ?case using live_consume [of t now x s] by simp
next
  case (3 t s now raw ops)
  have "live t (confirm_step s (Issue now raw)) \<le> live t s + (if bytes_to_hex raw = t then 1 else 0)"
    using live_update [of t s "pick_slot now 0 INT64_MAX 0 s"
        "\<lparr> token_hex = bytes_to_hex raw, expires_us = now + SK_AUTH_CONFIRM_TTL_SEC * 1000000, slot_in_use = True \<rparr>"]
    by (simp add: sk_auth_confirm_issue_def Let_def)
  with 3 show ?case by simp
qed simp

definition backed :: "confirm_op list \<Rightarrow> confirm_slot \<Rightarrow> bool" where
  "backed ops c \<longleftrightarrow> (slot_in_use c \<longrightarrow> (\<exists>i raw. Issue i raw \<in> set ops \<and> token_hex c = bytes_to_hex raw \<and>
     expires_us c = i + 30000000))"

lemma backed_mono: "backed ops c \<Longrightarrow> set ops \<subseteq> set ops' \<Longrightarrow> backed ops' c"
  by (auto simp: backed_def)

lemma backed_consume:
  "\<forall>c \<in> set s. backed ops c \<Longrightarrow> \<forall>c \<in> set (snd (sk_auth_confirm_consume now t s)). backed ops c"
  by (induction s) (auto simp: backed_def split: prod.splits if_splits)

lemma backed_run: "\<forall>c \<in> set (foldl confirm_step confirm_static ops). backed ops c"
proof (induction ops rule: rev_induct)
  case Nil
  then show ?case by (simp add: confirm_static_def backed_def)
next
  case (snoc op ops)
  have old: "\<forall>c \<in> set (foldl confirm_step confirm_static ops). backed (ops @ [op]) c"
    using snoc by (auto intro: backed_mono)
  show ?case
  proof (cases op)
    case (Issue now raw)
    then have "backed (ops @ [op]) \<lparr> token_hex = bytes_to_hex raw,
        expires_us = now + SK_AUTH_CONFIRM_TTL_SEC * 1000000, slot_in_use = True \<rparr>"
      by (auto simp: backed_def SK_AUTH_CONFIRM_TTL_SEC_def)
    then show ?thesis using Issue old
      by (auto simp: sk_auth_confirm_issue_def Let_def dest!: subsetD [OF set_update_subset_insert])
  next
    case (Consume now t)
    then show ?thesis using backed_consume [OF old] by simp
  qed
qed

lemma consume_ok_slot: "fst (sk_auth_confirm_consume now t s) = ESP_OK \<longleftrightarrow>
    (\<exists>c \<in> set s. slot_in_use c \<and> now \<le> expires_us c \<and> token_hex c = t)"
  by (induction s) (auto split: prod.splits)

lemma pick_slot_less: "i + length s \<le> n \<Longrightarrow> j < n \<Longrightarrow> pick_slot now i m j s < n"
  by (induction now i m j s rule: pick_slot.induct) auto

lemma length_consume: "length (snd (sk_auth_confirm_consume now t s)) = length s"
  by (induction s) (auto split: prod.splits)

lemma length_confirm_run: "length (foldl confirm_step confirm_static ops) = 4"
proof (induction ops rule: rev_induct)
  case Nil
  then show ?case by (simp add: confirm_static_def CONFIRM_SLOTS_def)
next
  case (snoc op ops)
  then show ?case by (cases op) (simp_all add: sk_auth_confirm_issue_def Let_def length_consume)
qed

text \<open>
  Confirm tokens are single-use and short-lived. In any sequence of issues and redemptions a token
  is accepted at most as often as it was issued; it is accepted only if it was issued at most 30
  seconds before; and a token presented within its 30 seconds directly after its issue is accepted.
\<close>
theorem confirm_token_single_use:
  "spent t confirm_static ops \<le> issued t ops \<and>
   (fst (sk_auth_confirm_consume now t (foldl confirm_step confirm_static ops)) = ESP_OK \<longrightarrow>
      (\<exists>i raw. Issue i raw \<in> set ops \<and> t = bytes_to_hex raw \<and> now \<le> i + 30000000)) \<and>
   (now \<le> i + 30000000 \<longrightarrow>
      fst (sk_auth_confirm_consume now (bytes_to_hex raw)
        (foldl confirm_step confirm_static (ops @ [Issue i raw]))) = ESP_OK)"
proof (intro conjI impI)
  show "spent t confirm_static ops \<le> issued t ops"
    using spent_le [of t confirm_static ops] by (simp add: live_def confirm_static_def)
next
  assume "fst (sk_auth_confirm_consume now t (foldl confirm_step confirm_static ops)) = ESP_OK"
  then show "\<exists>i raw. Issue i raw \<in> set ops \<and> t = bytes_to_hex raw \<and> now \<le> i + 30000000"
    using backed_run [of ops] by (fastforce simp: consume_ok_slot backed_def)
next
  assume n: "now \<le> i + 30000000"
  let ?s = "foldl confirm_step confirm_static ops"
  let ?k = "pick_slot i 0 INT64_MAX 0 ?s"
  have "?k < length ?s" by (rule pick_slot_less) (simp_all add: length_confirm_run)
  then have "\<lparr> token_hex = bytes_to_hex raw, expires_us = i + SK_AUTH_CONFIRM_TTL_SEC * 1000000, slot_in_use = True \<rparr>
      \<in> set (foldl confirm_step confirm_static (ops @ [Issue i raw]))"
    by (simp add: sk_auth_confirm_issue_def Let_def set_update_memI)
  then show "fst (sk_auth_confirm_consume now (bytes_to_hex raw)
      (foldl confirm_step confirm_static (ops @ [Issue i raw]))) = ESP_OK"
    unfolding consume_ok_slot by (rule rev_bexI) (simp add: n SK_AUTH_CONFIRM_TTL_SEC_def)
qed

theorem confirm_token_single_use_witness:
  "fst (sk_auth_confirm_consume 20000000 ''0aff''
      (foldl confirm_step confirm_static [Issue 0 [1], Consume 5 ''02'', Issue 10 [10, 255]])) = ESP_OK"
proof -
  have "bytes_to_hex [10, 255] = ''0aff''" by code_simp
  then show ?thesis
    using confirm_token_single_use [of t "[Issue 0 [1], Consume 5 ''02'']" 20000000 10 "[10, 255]"] by simp
qed

end
