(* ===== verification/SkPassphraseProps.thy ===== *)
theory SkPassphraseProps
  imports SkPassphrase SkAuthHmacProps
begin

text \<open>
  What the passphrase layer guarantees: the derivation is one block of PBKDF2, every operation below the
  lockout returns and leaves the mutex free, the state in memory is the state in flash, guesses are
  counted across power cycles - and what the lockout really does.
\<close>

section \<open>Key derivation\<close>

lemma pbkdf2_loop_total:
  "(\<And>m. H key m = Some (h m)) \<Longrightarrow>
     pbkdf2_loop H key k U T = Some (foldl xor_into T (map (\<lambda>i. (h ^^ Suc i) U) [0..<k]))"
proof (induction k arbitrary: U T)
  case 0
  then show ?case by simp
next
  case (Suc k)
  have "map (\<lambda>i. (h ^^ Suc i) U) [0..<Suc k] = h U # map (\<lambda>i. (h ^^ Suc i) (h U)) [0..<k]"
    by (simp add: map_upt_Suc funpow_swap1 del: upt_Suc)
  then show ?case using Suc by (simp del: upt_Suc)
qed

text \<open>
  The derivation is the first block of PBKDF2 of RFC 8018 with HMAC-SHA256 and 600 iterations: with
  \<open>U 0 = HMAC(P, salt || INT(1))\<close> and \<open>U (i+1) = HMAC(P, U i)\<close>, the result is the exclusive or of
  \<open>U 0 .. U 599\<close>. The header of the component promises 100000 iterations.
\<close>
theorem pbkdf2_single_block:
  assumes "\<And>m. H (bytes plain) m = Some (h m)"
  shows "pbkdf2 H plain salt =
    Some (foldl xor_into (h (salt @ [0, 0, 0, 1]))
      (map (\<lambda>i. (h ^^ Suc i) (h (salt @ [0, 0, 0, 1]))) [0..<599]))"
proof -
  have "pbkdf2_loop H (bytes plain) 599 U U = Some (foldl xor_into U (map (\<lambda>i. (h ^^ Suc i) U) [0..<599]))" for U
    by (rule pbkdf2_loop_total) (rule assms)
  then show ?thesis by (simp add: pbkdf2_def assms SK_PASSPHRASE_PBKDF2_ITERS_def)
qed

theorem pbkdf2_single_block_witness:
  "pbkdf2 (\<lambda>k m. Some [7]) ''secret'' [1] = Some [0]"
proof -
  let ?h = "\<lambda>m :: u8 list. [7 :: u8]"
  have c: "(?h ^^ Suc i) U = [7]" for i U by simp
  have "foldl xor_into [7] (map (\<lambda>i. [7]) [0..<n]) = [if even n then 7 else 0]" for n
    by (induction n) (simp_all add: xor_into_def)
  from this [of 599] have "foldl xor_into [7] (map (\<lambda>i. (?h ^^ Suc i) (?h [1, 0, 0, 0, 1])) [0..<599]) = [0]"
    by (simp only: c) simp
  then show ?thesis using pbkdf2_single_block [of "\<lambda>k m. Some [7]" "''secret''" ?h "[1]"] by simp
qed

section \<open>Memory and flash\<close>

definition stored_u8 :: "'n nvs_ops \<Rightarrow> 'n \<Rightarrow> string \<Rightarrow> u8 \<Rightarrow> bool" where
  "stored_u8 N n key x \<longleftrightarrow> nv_get N n NVS_PASS key = Some (NvU8 x) \<or> nv_get N n NVS_PASS key = None \<and> x = 0"

definition no_secret :: "'n passphrase \<Rightarrow> bool" where
  "no_secret s \<longleftrightarrow> pass_salt s = replicate 16 0 \<and> pass_hash s = replicate 32 0"

definition pass_inv :: "'n nvs_ops \<Rightarrow> 'n passphrase \<Rightarrow> bool" where
  "pass_inv N s \<longleftrightarrow> length (pass_salt s) = 16 \<and> length (pass_hash s) = 32 \<and>
     stored_u8 N (pflash s) ''mode'' (mode_bits s) \<and> stored_u8 N (pflash s) ''fail_n'' (fail_count s) \<and>
     (if has_pass s
      then nv_get N (pflash s) NVS_PASS ''salt'' = Some (NvBlob (pass_salt s)) \<and>
        nv_get N (pflash s) NVS_PASS ''hash'' = Some (NvBlob (pass_hash s))
      else nv_get N (pflash s) NVS_PASS ''salt'' = None \<and> nv_get N (pflash s) NVS_PASS ''hash'' = None \<and>
        no_secret s)"

lemma pass_save_lawful: "nvs_lawful N \<Longrightarrow> pass_save N key v s =
    (ESP_OK, s\<lparr>pflash := nv_commit N (nv_put N NVS_PASS key v (pflash s)) NVS_PASS\<rparr>)"
  by (simp add: pass_save_def nvs_simps nv_put_def Let_def split: prod.splits) (metis fst_conv nvs_set_ok)

lemma pass_save_get: "nvs_lawful N \<Longrightarrow> nv_get N (pflash (snd (pass_save N key v s))) NVS_PASS k =
    (if k = key then Some v else nv_get N (pflash s) NVS_PASS k)"
  by (simp add: pass_save_lawful nvs_simps)

lemma pass_save_fields [simp]:
  "pass_mtx (snd (pass_save N key v s)) = pass_mtx s" "has_pass (snd (pass_save N key v s)) = has_pass s"
  "pass_salt (snd (pass_save N key v s)) = pass_salt s" "pass_hash (snd (pass_save N key v s)) = pass_hash s"
  "mode_bits (snd (pass_save N key v s)) = mode_bits s" "fail_count (snd (pass_save N key v s)) = fail_count s"
  by (simp_all add: pass_save_def Let_def split: prod.splits)

lemma pass_inv_mtx [simp]: "pass_inv N (s\<lparr>pass_mtx := b\<rparr>) = pass_inv N s"
  by (simp add: pass_inv_def no_secret_def)

lemma pass_inv_give [simp]: "pass_inv N (give_mtx s) = pass_inv N s"
  by (simp add: give_mtx_def)

lemma give_fields [simp]:
  "\<not> pass_mtx (give_mtx s)" "has_pass (give_mtx s) = has_pass s" "pass_salt (give_mtx s) = pass_salt s"
  "pass_hash (give_mtx s) = pass_hash s" "fail_count (give_mtx s) = fail_count s"
  "mode_bits (give_mtx s) = mode_bits s" "pflash (give_mtx s) = pflash s"
  by (simp_all add: give_mtx_def)

lemma pass_inv_fail:
  "nvs_lawful N \<Longrightarrow> pass_inv N s \<Longrightarrow> pass_inv N (snd (pass_save N ''fail_n'' (NvU8 c) (s\<lparr>fail_count := c\<rparr>)))"
  by (auto simp: pass_inv_def pass_save_get stored_u8_def no_secret_def)

lemma pass_inv_wipe:
  "nvs_lawful N \<Longrightarrow> pass_inv N (forget (nvs_wipe N s))"
  by (simp add: pass_inv_def nvs_wipe_def forget_def nvs_simps stored_u8_def no_secret_def
      SK_PASSPHRASE_SALT_LEN_def SK_PASSPHRASE_HASH_LEN_def)

text \<open>A power cycle gives back the state it interrupts, with the mutex free.\<close>

lemma load_u8: "stored_u8 N n key x \<Longrightarrow> load_val (get_u8 N n NVS_PASS key) (\<lambda>v. True) (\<lambda>v. v) 0 = x"
  by (auto simp: stored_u8_def get_u8_def load_val_Some)

lemma pass_power_cycle:
  assumes N: "nvs_lawful N" and s: "pass_inv N s"
  shows "sk_passphrase_init N (pflash s) = s\<lparr>pass_mtx := False\<rparr>"
proof (cases "nv_open_ro N (pflash s) NVS_PASS = ESP_OK")
  case True
  note m = load_u8 [of N "pflash s" "''mode''" "mode_bits s"] load_u8 [of N "pflash s" "''fail_n''" "fail_count s"]
  show ?thesis
  proof (cases "has_pass s")
    case has: True
    then show ?thesis using s True m
      by (simp add: pass_inv_def sk_passphrase_init_def nvs_load_state_def passphrase_static_def Let_def
          get_blob_def read_blob_def SK_PASSPHRASE_SALT_LEN_def SK_PASSPHRASE_HASH_LEN_def)
  next
    case False
    then show ?thesis using s True m
      by (simp add: pass_inv_def sk_passphrase_init_def nvs_load_state_def passphrase_static_def Let_def
          get_blob_def read_blob_def no_secret_def SK_PASSPHRASE_SALT_LEN_def SK_PASSPHRASE_HASH_LEN_def)
  qed
next
  case False
  have no: "nv_get N (pflash s) NVS_PASS k = None" for k
    using False nvs_open_ro [OF N] by (cases "nv_get N (pflash s) NVS_PASS k") auto
  then show ?thesis using s False
    by (simp add: pass_inv_def stored_u8_def no_secret_def sk_passphrase_init_def nvs_load_state_def
        passphrase_static_def Let_def SK_PASSPHRASE_SALT_LEN_def SK_PASSPHRASE_HASH_LEN_def split: if_splits)
qed

section \<open>Verification\<close>

lemma length_pbkdf2_loop:
  "hmac_lawful H \<Longrightarrow> length T = 32 \<Longrightarrow> pbkdf2_loop H key k U T = Some out \<Longrightarrow> length out = 32"
  by (induction H key k U T rule: pbkdf2_loop.induct)
    (auto simp: hmac_lawful_def xor_into_def split: option.splits)

lemma length_pbkdf2: "hmac_lawful H \<Longrightarrow> pbkdf2 H plain salt = Some out \<Longrightarrow> length out = 32"
  by (simp add: pbkdf2_def split: option.splits) (metis length_pbkdf2_loop hmac_lawful_def)

lemma ct_eq_iff: "length a = length b \<Longrightarrow> ct_eq a b \<longleftrightarrow> a = b"
  by (simp add: ct_eq_def ct_diff_zero)

definition right_guess :: "hmac \<Rightarrow> string \<Rightarrow> 'n passphrase \<Rightarrow> bool" where
  "right_guess H plain s \<longleftrightarrow> pbkdf2 H plain (pass_salt s) = Some (pass_hash s)"

text \<open>The three outcomes of a guess against a stored passphrase, with the mutex held by the caller.\<close>

definition counted :: "'n nvs_ops \<Rightarrow> u8 \<Rightarrow> 'n passphrase \<Rightarrow> 'n passphrase" where
  "counted N c s = snd (pass_save N ''fail_n'' (NvU8 c) (s\<lparr>fail_count := c\<rparr>))"

lemma counted_fields [simp]:
  "pass_mtx (counted N c s) = pass_mtx s" "has_pass (counted N c s) = has_pass s"
  "pass_salt (counted N c s) = pass_salt s" "pass_hash (counted N c s) = pass_hash s"
  "mode_bits (counted N c s) = mode_bits s" "fail_count (counted N c s) = c"
  by (simp_all add: counted_def)

lemma pass_inv_counted: "nvs_lawful N \<Longrightarrow> pass_inv N s \<Longrightarrow> pass_inv N (counted N c s)"
  unfolding counted_def by (rule pass_inv_fail)

definition bump :: "u8 \<Rightarrow> u8" where
  "bump c = (if c < 0xFF then c + 1 else c)"

lemma unat_bump: "unat c < 255 \<Longrightarrow> unat (bump c) = unat c + 1"
proof -
  assume c: "unat c < 255"
  then have "c < 0xFF" by (simp add: word_less_nat_alt)
  moreover have "unat (c + 1) = unat c + 1" using c by (simp add: unat_word_ariths)
  ultimately show ?thesis by (simp add: bump_def)
qed

lemma bump_ge: "10 \<le> unat c \<Longrightarrow> 10 \<le> unat (bump c)"
  using unat_bump [of c] by (cases "unat c < 255") (auto simp: bump_def word_less_nat_alt)

lemma verify_internal_right:
  assumes "hmac_lawful H" "pass_inv N s" "has_pass s" "right_guess H plain s"
  shows "verify_internal H N plain True s =
    Done (if fail_count s = 0 then s else counted N 0 s) [] (ESP_OK, Some 10)"
  using assms by (auto simp: verify_internal_def right_guess_def ct_eq_iff counted_def Let_def
      SK_PASSPHRASE_FAIL_LOCKOUT_def)

lemma verify_internal_wrong:
  assumes H: "hmac_lawful H" and s: "pass_inv N s" "has_pass s" and p: "pbkdf2 H plain (pass_salt s) = Some cand"
    and w: "\<not> right_guess H plain s"
  shows "verify_internal H N plain reset s =
    (let s' = counted N (bump (fail_count s)) s in
     if unat (bump (fail_count s)) \<ge> 10
     then and_then (Done s' [Publish ''device.factory-reset.requested''
         (Some (''{'' @ jk ''reason'' @ jq ''passphrase_lockout'' @ ''}''))] ())
       (\<lambda>s _. and_then (pass_factory_reset N s) (\<lambda>s _. Restarted s [Restart]))
     else Done s' [Publish ''auth.passphrase.failed''
         (Some (snprintf 64 (''{'' @ jk ''attempts_left'' @ dec_nat (10 - unat (bump (fail_count s))) @ ''}'')))]
       (ESP_ERR_INVALID_RESPONSE, Some (10 - unat (bump (fail_count s)))))"
proof -
  have "length cand = length (pass_hash s)" using length_pbkdf2 [OF H p] s by (simp add: pass_inv_def)
  then have "\<not> ct_eq cand (pass_hash s)" using w p by (simp add: ct_eq_iff right_guess_def)
  moreover have "(if fail_count s < 0xFF then s\<lparr>fail_count := fail_count s + 1\<rparr> else s) = s\<lparr>fail_count := bump (fail_count s)\<rparr>"
    by (simp add: bump_def)
  ultimately show ?thesis using s(2) p
    by (simp only: verify_internal_def option.case if_False if_True simp_thms Let_def counted_def [symmetric])
      (simp add: SK_PASSPHRASE_FAIL_LOCKOUT_def counted_def)
qed

lemma verify_right:
  assumes "hmac_lawful H" "pass_inv N s" "has_pass s" "\<not> pass_mtx s" "right_guess H plain s"
  shows "sk_passphrase_verify H N plain s =
    Done (if fail_count s = 0 then s else counted N 0 s) [] (ESP_OK, Some 10)"
proof -
  let ?s = "s\<lparr>pass_mtx := True\<rparr>"
  have "verify_internal H N plain True ?s = Done (if fail_count ?s = 0 then ?s else counted N 0 ?s) [] (ESP_OK, Some 10)"
    by (rule verify_internal_right) (use assms in \<open>simp_all add: right_guess_def\<close>)
  then show ?thesis using assms(4)
    by (simp add: sk_passphrase_verify_def take_mtx_def give_mtx_def counted_def pass_save_def Let_def split: prod.splits)
qed

text \<open>A wrong guess at the limit: the call publishes the factory reset and never returns.\<close>

lemma verify_lockout:
  assumes "hmac_lawful H" "pass_inv N s" "has_pass s" "\<not> pass_mtx s" "\<not> right_guess H plain s"
    and "pbkdf2 H plain (pass_salt s) \<noteq> None" and "9 \<le> unat (fail_count s)"
  shows "sk_passphrase_verify H N plain s =
    Blocked (counted N (bump (fail_count s)) (s\<lparr>pass_mtx := True\<rparr>))
      [Publish ''device.factory-reset.requested'' (Some (''{'' @ jk ''reason'' @ jq ''passphrase_lockout'' @ ''}''))]"
proof -
  obtain cand where p: "pbkdf2 H plain (pass_salt (s\<lparr>pass_mtx := True\<rparr>)) = Some cand" using assms(6) by auto
  have "unat (bump (fail_count s)) \<ge> 10"
    using assms(7) unat_bump [of "fail_count s"] bump_ge [of "fail_count s"] by (cases "unat (fail_count s) = 9") auto
  moreover have "\<not> right_guess H plain (s\<lparr>pass_mtx := True\<rparr>)" using assms(5) by (simp add: right_guess_def)
  ultimately show ?thesis
    using verify_internal_wrong [OF assms(1) _ _ p, of N True] assms(2,3,4)
    by (simp add: sk_passphrase_verify_def take_mtx_def pass_factory_reset_def Let_def)
qed

text \<open>A wrong guess below the limit is answered and counted.\<close>

lemma verify_counts:
  assumes "hmac_lawful H" "pass_inv N s" "has_pass s" "\<not> pass_mtx s" "\<not> right_guess H plain s"
    and "pbkdf2 H plain (pass_salt s) \<noteq> None" and "unat (fail_count s) < 9"
  shows "\<exists>e. sk_passphrase_verify H N plain s =
    Done (give_mtx (counted N (fail_count s + 1) (s\<lparr>pass_mtx := True\<rparr>))) [e]
      (ESP_ERR_INVALID_RESPONSE, Some (9 - unat (fail_count s)))"
proof -
  obtain cand where p: "pbkdf2 H plain (pass_salt (s\<lparr>pass_mtx := True\<rparr>)) = Some cand" using assms(6) by auto
  have b: "unat (bump (fail_count s)) = unat (fail_count s) + 1" using assms(7) by (simp add: unat_bump)
  have c: "bump (fail_count s) = fail_count s + 1" using assms(7) by (simp add: bump_def word_less_nat_alt)
  have "\<not> right_guess H plain (s\<lparr>pass_mtx := True\<rparr>)" using assms(5) by (simp add: right_guess_def)
  then show ?thesis
    using verify_internal_wrong [OF assms(1) _ _ p, of N True] assms(2,3,4,7) b
    by (simp add: sk_passphrase_verify_def take_mtx_def Let_def c)
qed

section \<open>Runs with power cycles\<close>

datatype pass_op =
    PVerify string
  | PChange "u8 list" string string
  | PClear string
  | PSet "u8 list" string
  | PMode bool bool
  | PFactoryReset

fun pass_do :: "hmac \<Rightarrow> 'n nvs_ops \<Rightarrow> pass_op \<Rightarrow> 'n passphrase \<Rightarrow> ('n passphrase, esp_err) outcome" where
  "pass_do H N (PVerify p) s = and_then (sk_passphrase_verify H N p s) (\<lambda>s (e, left). Done s [] e)"
| "pass_do H N (PChange salt old new) s = sk_passphrase_change H N salt old new s"
| "pass_do H N (PClear old) s = sk_passphrase_clear H N old s"
| "pass_do H N (PSet salt p) s = sk_passphrase_set H N salt p s"
| "pass_do H N (PMode a b) s = sk_passphrase_set_mode N a b s"
| "pass_do H N PFactoryReset s = and_then (pass_factory_reset N s) (\<lambda>s _. Done s [] ESP_OK)"

lemma verify_internal_cases:
  assumes "has_pass s"
  shows "(\<exists>s' e. verify_internal H N plain r s = Done s' e (ESP_ERR_INVALID_RESPONSE, Some (10 - unat (bump (fail_count s)))) \<and>
        unat (bump (fail_count s)) < 10 \<and> pass_mtx s' = pass_mtx s) \<or>
    (\<exists>s' a. verify_internal H N plain r s = Done s' [] a \<and> fst a \<noteq> ESP_ERR_INVALID_RESPONSE \<and> pass_mtx s' = pass_mtx s) \<or>
    unat (bump (fail_count s)) \<ge> 10"
proof (cases "pbkdf2 H plain (pass_salt s)")
  case None
  then show ?thesis using assms by (simp add: verify_internal_def)
next
  case (Some cand)
  then show ?thesis using assms
    by (cases "ct_eq cand (pass_hash s)"; cases "fail_count s < 0xFF")
      (auto simp: verify_internal_def Let_def SK_PASSPHRASE_FAIL_LOCKOUT_def bump_def not_le split: if_splits)
qed

lemma verify_internal_returns:
  "has_pass s \<Longrightarrow> unat (fail_count s) < 9 \<Longrightarrow> \<exists>s' e a. verify_internal H N plain r s = Done s' e a \<and> pass_mtx s' = pass_mtx s"
  using verify_internal_cases [of s H N plain r] unat_bump [of "fail_count s"] by auto

lemma verify_internal_unset: "\<not> has_pass s \<Longrightarrow> verify_internal H N plain r s = Done s [] (ESP_ERR_INVALID_STATE, None)"
  by (simp add: verify_internal_def)

lemma take_free: "\<not> pass_mtx s \<Longrightarrow> take_mtx s = Done (s\<lparr>pass_mtx := True\<rparr>) [] ()"
  by (simp add: take_mtx_def)

lemma and_then_Done: "(\<exists>s e a. m = Done s e a \<and> (\<exists>s' e' b. f s a = Done s' e' b \<and> P s')) \<Longrightarrow>
    \<exists>s' e' b. and_then m f = Done s' e' b \<and> P s'"
  by auto

text \<open>
  As long as fewer than nine wrong guesses are on record, no operation on the passphrase hangs: each
  of verify, change, clear, set, mode and factory reset returns to its caller and leaves the mutex
  free for the next one, whatever the guess, the flash and the HMAC library do.
\<close>
theorem passphrase_operations_return:
  assumes "\<not> pass_mtx s" and "unat (fail_count s) < 9"
  shows "\<exists>s' effs rc. pass_do H N op s = Done s' effs rc \<and> \<not> pass_mtx s'"
proof -
  let ?s = "s\<lparr>pass_mtx := True\<rparr>"
  have v: "\<exists>s' e a. verify_internal H N p True ?s = Done s' e a" for p
    using verify_internal_returns [of ?s H N p True] verify_internal_unset [of ?s H N p True] assms(2)
    by (cases "has_pass s") auto
  show ?thesis
  proof (cases op)
    case (PVerify p)
    with v [of p] assms show ?thesis by (auto simp: sk_passphrase_verify_def take_free)
  next
    case (PChange salt old new)
    obtain s' e a l where "verify_internal H N old True ?s = Done s' e (a, l)"
      using v [of old] by (metis surj_pair)
    with PChange assms show ?thesis
      by (auto simp: sk_passphrase_change_def take_free split: option.splits prod.splits)
  next
    case (PClear old)
    obtain s' e a l where "verify_internal H N old True ?s = Done s' e (a, l)"
      using v [of old] by (metis surj_pair)
    with PClear assms show ?thesis by (auto simp: sk_passphrase_clear_def take_free)
  next
    case (PSet salt p)
    with assms show ?thesis
      by (auto simp: sk_passphrase_set_def take_free split: option.splits prod.splits)
  next
    case (PMode a b)
    with assms show ?thesis
      by (auto simp: sk_passphrase_set_mode_def take_free Let_def split: prod.splits)
  next
    case PFactoryReset
    with assms show ?thesis by (auto simp: pass_factory_reset_def take_free)
  qed
qed

text \<open>
  A keyed function for the witnesses: the first block of the derivation is the padded key, the others
  are zero, so that the derived value is the padded passphrase.
\<close>

definition pad_hmac :: hmac where
  "pad_hmac k m = Some (if length m = 20 then take 32 (k @ replicate 32 0) else replicate 32 0)"

lemma pad_hmac_lawful: "hmac_lawful pad_hmac"
  by (auto simp: hmac_lawful_def pad_hmac_def)

lemma xor_zeros: "length T = n \<Longrightarrow> xor_into T (replicate n 0) = T"
  by (induction T arbitrary: n) (auto simp: xor_into_def)

lemma pad_loop: "length U = 32 \<Longrightarrow> length T = 32 \<Longrightarrow> pbkdf2_loop pad_hmac key k U T = Some T"
  by (induction k arbitrary: U T) (simp_all add: pad_hmac_def xor_zeros)

lemma pad_pbkdf2: "length salt = 16 \<Longrightarrow> pbkdf2 pad_hmac plain salt = Some (take 32 (bytes plain @ replicate 32 0))"
  by (simp add: pbkdf2_def pad_loop) (simp add: pad_hmac_def pad_loop)

definition locked_pass :: "u8 \<Rightarrow> nvs_map passphrase" where
  "locked_pass c = \<lparr> pass_mtx = False, has_pass = True, pass_salt = replicate 16 0,
     pass_hash = take 32 (bytes ''right1'' @ replicate 32 0), mode_bits = 0, fail_count = c,
     pflash = [(NVS_PASS, ''salt'') \<mapsto> NvBlob (replicate 16 0),
       (NVS_PASS, ''hash'') \<mapsto> NvBlob (take 32 (bytes ''right1'' @ replicate 32 0)),
       (NVS_PASS, ''fail_n'') \<mapsto> NvU8 c] \<rparr>"

lemma locked_pass_simps:
  "pass_inv nvs_map_ops (locked_pass c)" "has_pass (locked_pass c)" "fail_count (locked_pass c) = c"
  "pbkdf2 pad_hmac plain (pass_salt (locked_pass c)) \<noteq> None"
  "right_guess pad_hmac ''right1'' (locked_pass c)" "\<not> right_guess pad_hmac ''guess1'' (locked_pass c)"
  by (simp_all add: locked_pass_def pass_inv_def stored_u8_def nvs_map_ops_def right_guess_def pad_pbkdf2 bytes_def)

theorem passphrase_operations_return_witness:
  "\<exists>s' effs rc. pass_do toy_hmac nvs_map_ops (PVerify ''guess1'') (locked_pass 8) = Done s' effs rc \<and> \<not> pass_mtx s'"
  by (rule passphrase_operations_return) (simp_all add: locked_pass_def)

datatype pass_ev = PassOp pass_op | PowerCycle

fun pass_ev_step :: "hmac \<Rightarrow> 'n nvs_ops \<Rightarrow> 'n passphrase \<Rightarrow> pass_ev \<Rightarrow> 'n passphrase" where
  "pass_ev_step H N s (PassOp op) = out_state (pass_do H N op s)"
| "pass_ev_step H N s PowerCycle = sk_passphrase_init N (pflash s)"

text \<open>The events of an attacker who does not know the passphrase.\<close>

fun guessing :: "hmac \<Rightarrow> 'n passphrase \<Rightarrow> pass_ev \<Rightarrow> bool" where
  "guessing H s (PassOp (PVerify p)) = (\<not> right_guess H p s)"
| "guessing H s (PassOp (PChange salt old new)) = (\<not> right_guess H old s)"
| "guessing H s (PassOp (PClear old)) = (\<not> right_guess H old s)"
| "guessing H s (PassOp (PMode a b)) = True"
| "guessing H s PowerCycle = True"
| "guessing H s _ = False"

fun answered :: "hmac \<Rightarrow> 'n nvs_ops \<Rightarrow> 'n passphrase \<Rightarrow> pass_ev \<Rightarrow> bool" where
  "answered H N s (PassOp op) = (case pass_do H N op s of Done s' e rc \<Rightarrow> rc = ESP_ERR_INVALID_RESPONSE | _ \<Rightarrow> False)"
| "answered H N s PowerCycle = False"

fun answers :: "hmac \<Rightarrow> 'n nvs_ops \<Rightarrow> 'n passphrase \<Rightarrow> pass_ev list \<Rightarrow> nat" where
  "answers H N s [] = 0"
| "answers H N s (e # es) = (if answered H N s e then 1 else 0) + answers H N (pass_ev_step H N s e) es"

definition kept :: "'n nvs_ops \<Rightarrow> 'n passphrase \<Rightarrow> 'n passphrase \<Rightarrow> bool" where
  "kept N s0 s \<longleftrightarrow> pass_inv N s \<and> has_pass s \<and> pass_salt s = pass_salt s0 \<and> pass_hash s = pass_hash s0"

lemma kept_fields [simp]:
  "kept N s0 (s\<lparr>pass_mtx := b\<rparr>) = kept N s0 s" "kept N s0 (give_mtx s) = kept N s0 s"
  by (simp_all add: kept_def give_mtx_def)

lemma kept_counted: "nvs_lawful N \<Longrightarrow> kept N s0 s \<Longrightarrow> kept N s0 (counted N c s)"
  by (simp add: kept_def pass_inv_counted)

text \<open>A wrong guess under the mutex: answered and counted, or an error of the library, or for ever.\<close>

lemma wrong_guess:
  assumes H: "hmac_lawful H" and N: "nvs_lawful N" and k: "kept N s0 s" and w: "\<not> right_guess H p s0" and m: "pass_mtx s"
  shows "(\<exists>e. verify_internal H N p True s = Done (counted N (bump (fail_count s)) s) e
        (ESP_ERR_INVALID_RESPONSE, Some (10 - unat (bump (fail_count s))))) \<and> unat (bump (fail_count s)) < 10 \<or>
    verify_internal H N p True s = Done s [] (ESP_FAIL, None) \<or>
    (\<exists>e. verify_internal H N p True s = Blocked (counted N (bump (fail_count s)) s) e)"
proof (cases "pbkdf2 H p (pass_salt s)")
  case None
  then show ?thesis using k by (simp add: verify_internal_def kept_def)
next
  case (Some cand)
  have "\<not> right_guess H p s" using w k by (simp add: right_guess_def kept_def)
  from verify_internal_wrong [OF H _ _ Some this, of N True] k m show ?thesis
    by (auto simp: kept_def Let_def pass_factory_reset_def take_mtx_def)
qed

lemma bump_mono: "unat c \<le> unat (bump c)" "unat (bump c) < 10 \<Longrightarrow> unat (bump c) = unat c + 1"
  using unat_bump [of c] by (auto simp: bump_def word_less_nat_alt split: if_splits)

lemma pass_inv_mode: "nvs_lawful N \<Longrightarrow> pass_inv N s \<Longrightarrow> pass_inv N (snd (pass_save N ''mode'' (NvU8 b) (s\<lparr>mode_bits := b\<rparr>)))"
  by (auto simp: pass_inv_def pass_save_get stored_u8_def no_secret_def)

lemma guessing_step:
  assumes H: "hmac_lawful H" and N: "nvs_lawful N" and k: "kept N s0 s" and g: "guessing H s0 ev"
  shows "kept N s0 (pass_ev_step H N s ev) \<and>
    unat (fail_count s) + (if answered H N s ev then 1 else 0) \<le> unat (fail_count (pass_ev_step H N s ev)) \<and>
    (answered H N s ev \<longrightarrow> unat (fail_count (pass_ev_step H N s ev)) \<le> 9)"
proof -
  let ?s = "s\<lparr>pass_mtx := True\<rparr>"
  have v: "(\<exists>e. verify_internal H N p True ?s = Done (counted N (bump (fail_count s)) ?s) e
        (ESP_ERR_INVALID_RESPONSE, Some (10 - unat (bump (fail_count s))))) \<and> unat (bump (fail_count s)) < 10 \<or>
      verify_internal H N p True ?s = Done ?s [] (ESP_FAIL, None) \<or>
      (\<exists>e. verify_internal H N p True ?s = Blocked (counted N (bump (fail_count s)) ?s) e)"
    if "\<not> right_guess H p s0" for p
    using wrong_guess [OF H N, of s0 ?s p] k that by simp
  have kc: "kept N s0 (counted N (bump (fail_count s)) ?s)" using kept_counted [OF N, of s0 ?s] k by simp
  note b = bump_mono [of "fail_count s"]
  show ?thesis
  proof (cases "pass_mtx s")
    case True
    then show ?thesis using k g pass_power_cycle [OF N, of s]
      by (cases ev rule: pass_ev.exhaust; cases "case ev of PassOp op \<Rightarrow> op | _ \<Rightarrow> PFactoryReset" rule: pass_op.exhaust)
        (auto simp: take_mtx_def sk_passphrase_verify_def sk_passphrase_change_def sk_passphrase_clear_def
          sk_passphrase_set_mode_def kept_def)
  next
    case False
    show ?thesis
    proof (cases ev)
      case PowerCycle
      then show ?thesis using k pass_power_cycle [OF N, of s] by (simp add: kept_def)
    next
      case (PassOp op)
      show ?thesis
      proof (cases op)
        case (PVerify p)
        then show ?thesis using PassOp False v [of p] g kc b k
          by (auto simp: sk_passphrase_verify_def take_free)
      next
        case (PChange salt old new)
        then show ?thesis using PassOp False v [of old] g kc b k
          by (auto simp: sk_passphrase_change_def take_free kept_def)
      next
        case (PClear old)
        then show ?thesis using PassOp False v [of old] g kc b k
          by (auto simp: sk_passphrase_clear_def take_free kept_def)
      next
        case (PMode x y)
        then show ?thesis using PassOp False k pass_inv_mode [OF N, of ?s]
          by (auto simp: sk_passphrase_set_mode_def take_free Let_def kept_def pass_save_lawful [OF N])
      next
        case (PSet salt p)
        with PassOp g show ?thesis by simp
      next
        case PFactoryReset
        with PassOp g show ?thesis by simp
      qed
    qed
  qed
qed

interpretation guesses: stepping "pass_ev_step H N"
    "\<lambda>s :: 'n passphrase. hmac_lawful H \<longrightarrow> nvs_lawful N \<longrightarrow> kept N s0 s" "guessing H s0"
  by unfold_locales (use guessing_step in blast)

lemma answers_bound:
  "hmac_lawful H \<Longrightarrow> nvs_lawful N \<Longrightarrow> kept N s0 s \<Longrightarrow> \<forall>e \<in> set es. guessing H s0 e \<Longrightarrow>
     answers H N s es \<le> 9 - unat (fail_count s)"
proof (induction es arbitrary: s)
  case Nil
  then show ?case by simp
next
  case (Cons e es)
  from Cons.prems(4) have e: "guessing H s0 e" by simp
  note st = guessing_step [OF Cons.prems(1,2,3) e]
  have "answers H N (pass_ev_step H N s e) es \<le> 9 - unat (fail_count (pass_ev_step H N s e))"
    by (rule Cons.IH) (use Cons.prems st in auto)
  with st show ?case by (cases "answered H N s e") auto
qed

text \<open>
  C23: Guesses are counted across power cycles. Whoever does not know the passphrase and may verify,
  change, clear and set the mode as he likes, cutting the power at any point, is told at most nine
  times in all that a guess was wrong, less those on record at the beginning; the passphrase in
  memory stays the one that was set.
\<close>
theorem guesses_answered_bounded:
  assumes "hmac_lawful H" and "nvs_lawful N" and "pass_inv N s" and "has_pass s"
    and "\<forall>e \<in> set es. guessing H s e"
  shows "answers H N s es \<le> 9 - unat (fail_count s) \<and>
    has_pass (foldl (pass_ev_step H N) s es) \<and>
    pass_salt (foldl (pass_ev_step H N) s es) = pass_salt s \<and>
    pass_hash (foldl (pass_ev_step H N) s es) = pass_hash s"
proof -
  have k: "kept N s s" using assms by (simp add: kept_def)
  have "kept N s (foldl (pass_ev_step H N) s es)"
    using guesses.run_inv [of H N s s es] assms k by blast
  with answers_bound [OF assms(1,2) k assms(5)] show ?thesis by (simp add: kept_def)
qed

theorem guesses_answered_bounded_witness:
  "answers pad_hmac nvs_map_ops (locked_pass 7) [PassOp (PVerify ''guess1''), PowerCycle, PassOp (PClear ''guess1'')] \<le> 2 \<and>
   answers pad_hmac nvs_map_ops (locked_pass 7) [PassOp (PVerify ''guess1'')] = 1"
proof -
  have "answers pad_hmac nvs_map_ops (locked_pass 7) [PassOp (PVerify ''guess1''), PowerCycle, PassOp (PClear ''guess1'')] \<le> 9 - unat (fail_count (locked_pass 7))"
    using guesses_answered_bounded [OF pad_hmac_lawful nvs_map_lawful locked_pass_simps(1,2),
        of "[PassOp (PVerify ''guess1''), PowerCycle, PassOp (PClear ''guess1'')]" 7] locked_pass_simps(6) [of 7] by simp
  moreover have "\<exists>e. sk_passphrase_verify pad_hmac nvs_map_ops ''guess1'' (locked_pass 7) =
      Done (give_mtx (counted nvs_map_ops (fail_count (locked_pass 7) + 1) ((locked_pass 7)\<lparr>pass_mtx := True\<rparr>))) [e]
        (ESP_ERR_INVALID_RESPONSE, Some (9 - unat (fail_count (locked_pass 7))))"
    by (rule verify_counts [OF pad_hmac_lawful locked_pass_simps(1,2) _ locked_pass_simps(6,4)])
      (simp_all add: locked_pass_def)
  ultimately show ?thesis by (auto simp: locked_pass_simps(3))
qed

text \<open>
  The lockout never happens. From the tenth wrong guess on, every further one publishes the factory
  reset while the component's mutex is held; the component's own subscriber waits for that mutex, so
  the call never returns, the passphrase is not wiped and the device does not restart. After a power
  cycle the passphrase is still in force: the next wrong guess hangs again, and the right one is
  accepted and gives back all ten attempts - however many wrong guesses and power cycles came before.
  The header says that reaching the limit triggers a factory reset.
\<close>
theorem lockout_never_wipes:
  assumes "hmac_lawful H" and "nvs_lawful N" and "pass_inv N s" and "has_pass s"
    and "\<forall>e \<in> set es. guessing H s e" and "right_guess H right s"
    and "\<not> right_guess H wrong s" and "pbkdf2 H wrong (pass_salt s) \<noteq> None" and "9 \<le> unat (fail_count s)"
  shows "let s' = pass_ev_step H N (foldl (pass_ev_step H N) s es) PowerCycle in
    (\<exists>t. sk_passphrase_verify H N wrong s' = Blocked t [Publish ''device.factory-reset.requested''
       (Some (''{'' @ jk ''reason'' @ jq ''passphrase_lockout'' @ ''}''))] \<and>
       nv_get N (pflash t) NVS_PASS ''hash'' = Some (NvBlob (pass_hash s))) \<and>
    (\<exists>t. sk_passphrase_verify H N right s' = Done t [] (ESP_OK, Some 10))"
proof -
  let ?r = "foldl (pass_ev_step H N) s es"
  have "kept N s s" using assms by (simp add: kept_def)
  then have k: "kept N s ?r" using guesses.run_inv [of H N s s es] assms by blast
  have mono: "unat (fail_count s) \<le> unat (fail_count (foldl (pass_ev_step H N) s es))"
    if "\<forall>e \<in> set es. guessing H s e" for es
    using that
  proof (induction es rule: rev_induct)
    case (snoc e es)
    then have "kept N s (foldl (pass_ev_step H N) s es)"
      using guesses.run_inv [of H N s s es] assms(1,2) \<open>kept N s s\<close> by auto
    with snoc guessing_step [OF assms(1,2) this, of e] show ?case by (auto split: if_splits)
  qed simp
  define s' where "s' = pass_ev_step H N ?r PowerCycle"
  have s': "s' = ?r\<lparr>pass_mtx := False\<rparr>" using k pass_power_cycle [OF assms(2)] by (simp add: s'_def kept_def)
  have i: "pass_inv N s'" "has_pass s'" "\<not> pass_mtx s'" using k by (simp_all add: s' kept_def)
  have g: "right_guess H p s' = right_guess H p s" for p using k by (simp add: right_guess_def s' kept_def)
  have c: "9 \<le> unat (fail_count s')" using mono [OF assms(5)] assms(9) by (simp add: s')
  have w: "pbkdf2 H wrong (pass_salt s') \<noteq> None" using assms(8) k by (simp add: s' kept_def)
  have "kept N s (counted N (bump (fail_count s')) (s'\<lparr>pass_mtx := True\<rparr>))"
    using kept_counted [OF assms(2), of s "s'\<lparr>pass_mtx := True\<rparr>"] k by (simp add: s')
  then have "nv_get N (pflash (counted N (bump (fail_count s')) (s'\<lparr>pass_mtx := True\<rparr>))) NVS_PASS ''hash'' =
      Some (NvBlob (pass_hash s))" by (simp add: kept_def pass_inv_def)
  with verify_lockout [OF assms(1) i _ w c] verify_right [OF assms(1) i] g assms(6,7)
  show ?thesis unfolding Let_def s'_def [symmetric] by simp
qed

theorem lockout_never_wipes_witness:
  "\<exists>t. sk_passphrase_verify pad_hmac nvs_map_ops ''right1'' (pass_ev_step pad_hmac nvs_map_ops
     (foldl (pass_ev_step pad_hmac nvs_map_ops) (locked_pass 9) [PassOp (PVerify ''guess1''), PowerCycle, PassOp (PVerify ''guess1'')])
     PowerCycle) = Done t [] (ESP_OK, Some 10)"
  using lockout_never_wipes [OF pad_hmac_lawful nvs_map_lawful locked_pass_simps(1,2) _ locked_pass_simps(5,6,4),
      of "[PassOp (PVerify ''guess1''), PowerCycle, PassOp (PVerify ''guess1'')]" 9] locked_pass_simps(3,6) [of 9]
  unfolding Let_def by simp

end
