(* ===== verification/SkPairing.thy ===== *)
theory SkPairing
  imports SkAuth
begin

text \<open>
  The pairing dialogue of \<open>sk_auth.c\<close> (one JSON line of a peer in, one line out) with the passphrase
  gate, the bond commands and the derivation of \<open>sk_auth_ecdh.c\<close>. The device of this theory is the
  bond component with the passphrase component; the JSON parser is an argument, and so are the key
  exchange (\<open>gen\<close>: our public and secret key, \<open>x25519\<close>: the shared secret) and SHA-256.
\<close>

section \<open>Key exchange\<close>

record ecdh_ctx =
  our_public :: "u8 list"
  our_secret :: "u8 list"

record ecdh_ops =
  ecdh_gen :: "(u8 list \<times> u8 list) option"
  x25519 :: "u8 list \<Rightarrow> u8 list \<Rightarrow> u8 list option"
  sha256 :: "u8 list \<Rightarrow> u8 list"

definition derive_token :: "ecdh_ops \<Rightarrow> u8 list \<Rightarrow> u8 list" where
  "derive_token E shared = sha256 E (bytes ''sk_auth_token_v1'' @ shared)"

definition sk_auth_ecdh_begin :: "ecdh_ops \<Rightarrow> ecdh_ctx option" where
  "sk_auth_ecdh_begin E = map_option (\<lambda>(p, s). \<lparr> our_public = p, our_secret = s \<rparr>) (ecdh_gen E)"

definition sk_auth_ecdh_derive :: "ecdh_ops \<Rightarrow> u8 list \<Rightarrow> ecdh_ctx \<Rightarrow> esp_err \<times> u8 list \<times> ecdh_ctx" where
  "sk_auth_ecdh_derive E peer_public c =
     (case x25519 E (our_secret c) peer_public of
        None \<Rightarrow> (ESP_FAIL, [], c)
      | Some shared \<Rightarrow> (ESP_OK, derive_token E shared, c\<lparr>our_secret := replicate 32 0\<rparr>))"

section \<open>Answers\<close>

record 'n pair_dev =
  pd_auth :: "'n auth"
  pd_pw :: "'n passphrase"

datatype sk_auth_pairing_result = SK_AUTH_PAIRING_OK | SK_AUTH_PAIRING_ERR | SK_AUTH_PAIRING_NOT_OPEN
  | SK_AUTH_PAIRING_PENDING

type_synonym 'n pair_res = "('n pair_dev, string list \<times> sk_auth_pairing_result) outcome"

definition emit_err_json :: "string \<Rightarrow> string" where
  "emit_err_json code = snprintf 96 (''{'' @ jk ''ok'' @ ''false,'' @ jk ''err'' @ jq code @ ''}\<newline>'')"

definition peer_json :: "nat \<times> bond_slot \<Rightarrow> string" where
  "peer_json p = (case p of (i, s) \<Rightarrow> ''{'' @ jk ''slot'' @ dec_nat i @ '','' @
     jk ''peer_id'' @ jq (bytes_to_hex (peer_id s)) @ '','' @ jk ''label'' @ jq (label s) @ '','' @
     jk ''paired_at'' @ dec_int (sint (paired_at_unix s)) @ ''}'')"

text \<open>
  The streamed build of the peer list: after every write the length is clamped to the buffer, so the
  text is the first 1023 characters of the whole.
\<close>

definition emit_bond_store_full :: "'n auth \<Rightarrow> string" where
  "emit_bond_store_full a = snprintf 1024 (''{'' @ jk ''ok'' @ ''false,'' @ jk ''err'' @
     jq ''ERR_BOND_STORE_FULL'' @ '','' @ jk ''params'' @ ''{'' @ jk ''peers'' @ ''['' @
     comma_join (map peer_json (sk_auth_bond_list a)) @ '']}}\<newline>'')"

definition pair_done :: "'n pair_dev \<Rightarrow> eff list \<Rightarrow> string \<Rightarrow> sk_auth_pairing_result \<Rightarrow> 'n pair_res" where
  "pair_done d e line r = Done d e ([line], r)"

section \<open>The dialogue\<close>

definition pending_commit :: "'n nvs_ops \<Rightarrow> int \<Rightarrow> 'n auth \<Rightarrow> esp_err \<times> nat \<times> 'n auth \<times> eff list" where
  "pending_commit N now_wall a =
     (if \<not> pend_active (pending a) then (ESP_ERR_INVALID_STATE, 0, a, [])
      else case sk_auth_bond_add N now_wall (pend_peer (pending a)) (pend_key (pending a))
             (if pend_label (pending a) = [] then None else Some (pend_label (pending a))) a of
        (err, slot, a, e) \<Rightarrow> (err, (case slot of Some i \<Rightarrow> i | None \<Rightarrow> 0), pending_clear a, e))"

definition arg_of :: "json \<Rightarrow> string \<Rightarrow> string option" where
  "arg_of msg k = (case jget msg ''args'' of None \<Rightarrow> None | Some args \<Rightarrow> jstr (jget args k))"

definition peer_id_of :: "json \<Rightarrow> u8 list \<Rightarrow> u8 list" where
  "peer_id_of msg peer_pub =
     (case arg_of msg ''peer_id'' of
        None \<Rightarrow> take SK_AUTH_PEER_ID_LEN peer_pub
      | Some h \<Rightarrow> (case hex_to_bytes h SK_AUTH_PEER_ID_LEN of
          Some p \<Rightarrow> p | None \<Rightarrow> take SK_AUTH_PEER_ID_LEN peer_pub))"

definition pairing_gate :: "'n passphrase \<Rightarrow> bool" where
  "pairing_gate s = (sk_passphrase_is_set s \<and>
     (pairing_required (sk_passphrase_get_mode s) \<or> always_required (sk_passphrase_get_mode s)))"

definition handle_ecdh_exchange :: "'n nvs_ops \<Rightarrow> ecdh_ops \<Rightarrow> int \<Rightarrow> json \<Rightarrow> 'n pair_dev \<Rightarrow> 'n pair_res" where
  "handle_ecdh_exchange N E now_wall msg d =
     (case arg_of msg ''peer_pub'' of
        None \<Rightarrow> pair_done d [] (emit_err_json ''ERR_MISSING_ARG'') SK_AUTH_PAIRING_ERR
      | Some pub \<Rightarrow>
     (case hex_to_bytes pub SK_AUTH_ECDH_PUBLIC_LEN of
        None \<Rightarrow> pair_done d [] (emit_err_json ''ERR_INVALID_ARG'') SK_AUTH_PAIRING_ERR
      | Some peer_pub \<Rightarrow>
     (let a = pd_auth d; peer = peer_id_of msg peer_pub;
          lab = (case arg_of msg ''label'' of Some l \<Rightarrow> take SK_AUTH_BOND_LABEL_MAX l | None \<Rightarrow> []);
          reuse = list_ex (\<lambda>s. occupied s \<and> peer_id s = peer) (bslots a)
      in if \<not> reuse \<and> sk_auth_bond_count a \<ge> SK_AUTH_BOND_SLOT_COUNT then
           pair_done d [] (emit_bond_store_full a) SK_AUTH_PAIRING_ERR
         else
     (case sk_auth_ecdh_begin E of
        None \<Rightarrow> pair_done d [] (emit_err_json ''ERR_INTERNAL'') SK_AUTH_PAIRING_ERR
      | Some c \<Rightarrow>
     (case sk_auth_ecdh_derive E peer_pub c of (derr, derived, c') \<Rightarrow>
        if derr \<noteq> ESP_OK then pair_done d [] (emit_err_json ''ERR_INTERNAL'') SK_AUTH_PAIRING_ERR
        else if pairing_gate (pd_pw d) then
          pair_done (d\<lparr>pd_auth := a\<lparr>pending := \<lparr> pend_active = True, pend_key = derived,
              pend_peer = peer, pend_label = lab \<rparr>\<rparr>\<rparr>) []
            (snprintf 192 (''{'' @ jk ''ok'' @ ''true,'' @ jk ''data'' @ ''{'' @ jk ''our_pub'' @
               jq (bytes_to_hex (our_public c)) @ '','' @ jk ''need_passphrase'' @ ''true,'' @
               jk ''attempts_left'' @ dec_nat (sk_passphrase_attempts_left (pd_pw d)) @ ''}}\<newline>''))
            SK_AUTH_PAIRING_PENDING
        else
     (case sk_auth_bond_add N now_wall peer derived (if lab = [] then None else Some lab) a of
        (err, slot, a', e) \<Rightarrow>
          (if err = ESP_ERR_NO_MEM then
             pair_done (d\<lparr>pd_auth := a'\<rparr>) e (emit_bond_store_full a') SK_AUTH_PAIRING_ERR
           else if err \<noteq> ESP_OK then
             pair_done (d\<lparr>pd_auth := a'\<rparr>) e (emit_err_json ''ERR_INTERNAL'') SK_AUTH_PAIRING_ERR
           else
             (case sk_auth_close_pairing_mode ''ecdh_complete'' a' of (a'', e2) \<Rightarrow>
                pair_done (d\<lparr>pd_auth := a''\<rparr>) (e @ e2)
                  (snprintf 160 (''{'' @ jk ''ok'' @ ''true,'' @ jk ''data'' @ ''{'' @ jk ''our_pub'' @
                     jq (bytes_to_hex (our_public c)) @ '','' @ jk ''slot'' @
                     dec_nat (case slot of Some i \<Rightarrow> i | None \<Rightarrow> 0) @ ''}}\<newline>''))
                  SK_AUTH_PAIRING_OK))))))))"

definition verified_line :: "nat \<Rightarrow> string \<Rightarrow> string" where
  "verified_line slot extra = snprintf 96 (''{'' @ jk ''ok'' @ ''true,'' @ jk ''data'' @ ''{'' @
     jk ''slot'' @ dec_nat slot @ '','' @ jk ''unlocked'' @ ''true'' @ extra @ ''}}\<newline>'')"

text \<open>
  \<open>handle_passphrase_verify\<close>. When the verification reaches the lockout its event is delivered inside
  the call: the subscriber of this component ran before the passphrase component's own (\<open>main.c\<close>
  starts \<open>sk_auth\<close> first), so the bonds are gone when the call hangs. A call that finds the mutex held
  hangs before it publishes anything.
\<close>

definition handle_passphrase_verify :: "hmac \<Rightarrow> 'n nvs_ops \<Rightarrow> int \<Rightarrow> json \<Rightarrow> 'n pair_dev \<Rightarrow> 'n pair_res" where
  "handle_passphrase_verify H N now_wall msg d =
     (if \<not> pend_active (pending (pd_auth d)) then
        pair_done d [] (emit_err_json ''ERR_NO_PENDING_BOND'') SK_AUTH_PAIRING_ERR
      else case arg_of msg ''plain'' of
        None \<Rightarrow> pair_done d [] (emit_err_json ''ERR_MISSING_ARG'') SK_AUTH_PAIRING_PENDING
      | Some plain \<Rightarrow>
          (case sk_passphrase_verify H N plain (pd_pw d) of
             Blocked s e \<Rightarrow>
               (if e = [] then Blocked (d\<lparr>pd_pw := s\<rparr>) []
                else case auth_factory_reset N (pd_auth d) of (a, e2) \<Rightarrow>
                  Blocked (d\<lparr>pd_auth := a, pd_pw := s\<rparr>) (e @ e2))
           | Restarted s e \<Rightarrow> Restarted (d\<lparr>pd_auth := fst (auth_factory_reset N (pd_auth d)), pd_pw := s\<rparr>) e
           | Done s e (err, left) \<Rightarrow>
               (let d = d\<lparr>pd_pw := s\<rparr> in
                if err = ESP_OK \<or> err = ESP_ERR_INVALID_STATE then
                  (case pending_commit N now_wall (pd_auth d) of (cerr, slot, a, e2) \<Rightarrow>
                     (if cerr = ESP_ERR_NO_MEM \<and> err = ESP_OK then
                        pair_done (d\<lparr>pd_auth := a\<rparr>) (e @ e2) (emit_bond_store_full a) SK_AUTH_PAIRING_ERR
                      else if cerr \<noteq> ESP_OK then
                        pair_done (d\<lparr>pd_auth := a\<rparr>) (e @ e2) (emit_err_json ''ERR_INTERNAL'') SK_AUTH_PAIRING_ERR
                      else case sk_auth_close_pairing_mode ''ecdh_complete'' a of (a, e3) \<Rightarrow>
                        pair_done (d\<lparr>pd_auth := a\<rparr>) (e @ e2 @ e3)
                          (verified_line slot (if err = ESP_OK then [] else '','' @ jk ''set'' @ ''false''))
                          SK_AUTH_PAIRING_OK))
                else if err = ESP_ERR_INVALID_RESPONSE then
                  pair_done d e (snprintf 128 (''{'' @ jk ''ok'' @ ''false,'' @ jk ''err'' @
                      jq ''ERR_PASSPHRASE_INCORRECT'' @ '','' @ jk ''params'' @ ''{'' @ jk ''attempts_left'' @
                      dec_nat (case left of Some n \<Rightarrow> n | None \<Rightarrow> 0) @ ''}}\<newline>''))
                    (if pend_active (pending (pd_auth d)) then SK_AUTH_PAIRING_PENDING else SK_AUTH_PAIRING_ERR)
                else pair_done d e (emit_err_json ''ERR_INTERNAL'') SK_AUTH_PAIRING_ERR)))"

definition sk_auth_pairing_dispatch_line :: "hmac \<Rightarrow> 'n nvs_ops \<Rightarrow> ecdh_ops \<Rightarrow> (string \<Rightarrow> json option) \<Rightarrow> int \<Rightarrow>
    string \<Rightarrow> 'n pair_dev \<Rightarrow> 'n pair_res" where
  "sk_auth_pairing_dispatch_line H N E parse now_wall line d =
     (if \<not> pairing_open (pd_auth d) then
        pair_done d [] (emit_err_json ''ERR_PAIRING_NOT_OPEN'') SK_AUTH_PAIRING_NOT_OPEN
      else
        (let soft_err = (if pend_active (pending (pd_auth d)) then SK_AUTH_PAIRING_PENDING else SK_AUTH_PAIRING_ERR)
         in case parse line of
              None \<Rightarrow> pair_done d [] (emit_err_json ''ERR_INVALID_ARG'') soft_err
            | Some msg \<Rightarrow>
                (case jstr (jget msg ''cmd'') of
                   None \<Rightarrow> pair_done d [] (emit_err_json ''ERR_UNKNOWN_COMMAND'') soft_err
                 | Some cmd \<Rightarrow>
                     (if cmd = ''pairing.ecdh.exchange'' then handle_ecdh_exchange N E now_wall msg d
                      else if cmd = ''pairing.passphrase.verify'' then handle_passphrase_verify H N now_wall msg d
                      else pair_done d [] (emit_err_json ''ERR_UNKNOWN_COMMAND'') soft_err))))"

section \<open>Commands\<close>

record 'n auth_dev =
  ad_auth :: "'n auth"
  ad_slots :: "confirm_slot list"

type_synonym 'n auth_cmd_res = "'n auth_dev \<times> eff list \<times> cli_out list \<times> sk_err"

definition auth_answer :: "'n auth_dev \<Rightarrow> eff list \<Rightarrow> cli_out \<Rightarrow> 'n auth_cmd_res" where
  "auth_answer d e out = (d, e, [out], SK_OK)"

text \<open>The confirm-token test at the head of the critical handlers.\<close>

definition with_confirm :: "int \<Rightarrow> cli_ctx \<Rightarrow> 'n auth_dev \<Rightarrow> ('n auth_dev \<Rightarrow> 'n auth_cmd_res) \<Rightarrow> 'n auth_cmd_res" where
  "with_confirm now ctx d body =
     (case confirm_token ctx of
        None \<Rightarrow> auth_answer d [] (CliErr SK_ERR_CONFIRM_TOKEN_REQUIRED None)
      | Some tok \<Rightarrow> (case sk_auth_confirm_consume now tok (ad_slots d) of (e, slots) \<Rightarrow>
          (let d = d\<lparr>ad_slots := slots\<rparr> in
           if e \<noteq> ESP_OK then auth_answer d [] (CliErr SK_ERR_CONFIRM_TOKEN_INVALID None) else body d)))"

definition cmd_pairing_status :: "cli_ctx \<Rightarrow> 'n auth_dev \<Rightarrow> 'n auth_cmd_res" where
  "cmd_pairing_status ctx d = auth_answer d [] (CliOk (Some (snprintf 96 (''{'' @
     jk ''mode'' @ jq (if pairing_open (ad_auth d) then ''open'' else ''idle'') @ '','' @
     jk ''bonded'' @ jbool (sk_auth_has_bond (ad_auth d)) @ '','' @
     jk ''slots_used'' @ dec_nat (sk_auth_bond_count (ad_auth d)) @ ''}''))))"

definition cmd_pairing_start :: "esp_err \<Rightarrow> cli_ctx \<Rightarrow> 'n auth_dev \<Rightarrow> 'n auth_cmd_res" where
  "cmd_pairing_start timer_res ctx d =
     (case sk_auth_open_pairing_mode timer_res 60 (ad_auth d) of (err, a, e) \<Rightarrow>
        if err = ESP_ERR_INVALID_STATE then auth_answer (d\<lparr>ad_auth := a\<rparr>) e (CliErr SK_ERR_BUSY None)
        else auth_answer (d\<lparr>ad_auth := a\<rparr>) e (CliOk (Some (''{'' @ jk ''mode'' @ jq ''open'' @ '','' @
          jk ''timeout_sec'' @ ''60}''))))"

definition cmd_pairing_stop :: "cli_ctx \<Rightarrow> 'n auth_dev \<Rightarrow> 'n auth_cmd_res" where
  "cmd_pairing_stop ctx d =
     (case sk_auth_close_pairing_mode ''user'' (ad_auth d) of (a, e) \<Rightarrow>
        auth_answer (d\<lparr>ad_auth := a\<rparr>) e (CliOk (Some (''{'' @ jk ''mode'' @ jq ''idle'' @ ''}''))))"

definition cmd_ble_unpair :: "'n nvs_ops \<Rightarrow> int \<Rightarrow> cli_ctx \<Rightarrow> 'n auth_dev \<Rightarrow> 'n auth_cmd_res" where
  "cmd_ble_unpair N now ctx d = with_confirm now ctx d (\<lambda>d.
     case sk_auth_clear_all N (ad_auth d) of (a, e) \<Rightarrow>
       auth_answer (d\<lparr>ad_auth := a\<rparr>) e (CliOk (Some (''{'' @ jk ''unpaired'' @ ''true}''))))"

definition cmd_auth_token_rotate :: "'n nvs_ops \<Rightarrow> int \<Rightarrow> u8 list \<Rightarrow> cli_ctx \<Rightarrow> 'n auth_dev \<Rightarrow> 'n auth_cmd_res" where
  "cmd_auth_token_rotate N now fresh ctx d = with_confirm now ctx d (\<lambda>d.
     case sk_auth_rotate_token N fresh (ad_auth d) of (err, a, e) \<Rightarrow>
       auth_answer (d\<lparr>ad_auth := a\<rparr>) e (CliOk (Some (''{'' @ jk ''rotated'' @ ''true}''))))"

definition cmd_confirm_get :: "int \<Rightarrow> u8 list \<Rightarrow> cli_ctx \<Rightarrow> 'n auth_dev \<Rightarrow> 'n auth_cmd_res" where
  "cmd_confirm_get now raw ctx d =
     (case sk_auth_confirm_issue now raw (ad_slots d) of (slots, hex, ttl) \<Rightarrow>
        auth_answer (d\<lparr>ad_slots := slots\<rparr>) [] (CliOk (Some (snprintf 96 (''{'' @
          jk ''token'' @ jq hex @ '','' @ jk ''ttl_sec'' @ dec_nat ttl @ ''}'')))))"

definition cmd_bond_list :: "cli_ctx \<Rightarrow> 'n auth_dev \<Rightarrow> 'n auth_cmd_res" where
  "cmd_bond_list ctx d =
     (let a = ad_auth d in
      auth_answer d [] (CliOk (Some (snprintf 1024 (''{'' @ jk ''count'' @
        dec_nat (length (sk_auth_bond_list a)) @ '','' @ jk ''capacity'' @ dec_nat SK_AUTH_BOND_SLOT_COUNT @ '','' @
        jk ''active_slot'' @ (if active_set a then dec_nat (active_slot a) else ''-1'') @ '','' @
        jk ''peers'' @ ''['' @ comma_join (map peer_json (sk_auth_bond_list a)) @ '']}'')))))"

definition cmd_bond_remove :: "'n nvs_ops \<Rightarrow> int \<Rightarrow> cli_ctx \<Rightarrow> 'n auth_dev \<Rightarrow> 'n auth_cmd_res" where
  "cmd_bond_remove N now ctx d = with_confirm now ctx d (\<lambda>d.
     case sk_cli_arg_long ctx ''slot'' of
       None \<Rightarrow> auth_answer d [] (CliErr SK_ERR_INVALID_ARG None)
     | Some slot \<Rightarrow>
         (if slot < 0 \<or> slot \<ge> int SK_AUTH_BOND_SLOT_COUNT then auth_answer d [] (CliErr SK_ERR_INVALID_ARG None)
          else case sk_auth_bond_remove N (nat slot) (ad_auth d) of (err, a, e) \<Rightarrow>
            (if err = ESP_ERR_NOT_FOUND then
               auth_answer (d\<lparr>ad_auth := a\<rparr>) e (CliErr SK_ERR_NOT_FOUND (Some (pass_reason ''slot_empty'')))
             else if err \<noteq> ESP_OK then auth_answer (d\<lparr>ad_auth := a\<rparr>) e (CliErr SK_ERR_INTERNAL None)
             else auth_answer (d\<lparr>ad_auth := a\<rparr>) e (CliOk (Some (snprintf 64 (''{'' @ jk ''slot'' @ dec_int slot @
               '','' @ jk ''removed'' @ ''true}'')))))))"

text \<open>The table: name, critical, requires authentication, handler.\<close>

definition auth_cmds :: "'n nvs_ops \<Rightarrow> int \<Rightarrow> u8 list \<Rightarrow> esp_err \<Rightarrow>
    (string \<times> bool \<times> bool \<times> (cli_ctx \<Rightarrow> 'n auth_dev \<Rightarrow> 'n auth_cmd_res)) list" where
  "auth_cmds N now rnd timer_res =
     [(''pairing.status'', False, False, cmd_pairing_status),
      (''pairing.start'', False, False, cmd_pairing_start timer_res),
      (''pairing.stop'', False, False, cmd_pairing_stop),
      (''ble.unpair'', True, False, cmd_ble_unpair N now),
      (''auth.token.rotate'', True, False, cmd_auth_token_rotate N now rnd),
      (''bond.list'', False, True, cmd_bond_list),
      (''bond.remove'', True, True, cmd_bond_remove N now),
      (''device.confirm-token'', False, False, cmd_confirm_get now rnd)]"

end
