(* ===== verification/SkCommandTable.thy ===== *)
theory SkCommandTable
  imports SkCli
begin

text \<open>
  The command tables of the firmware: one list per source file with the static table of that file, and
  \<open>boot_commands\<close>, what the start-up in \<open>main.c\<close> registers, in its order. A row has the fields of
  \<open>sk_cli_command_t\<close> but the handler (those are definitions of the component's theory) and the multi-line
  \<open>help_block\<close>, which only \<open>help\<close> prints.
\<close>

record cmd_row =
  cv_name :: string
  cv_summary :: "string option"
  cv_usage :: "string option"
  cv_critical :: bool
  cv_hidden :: bool
  cv_auth :: bool

definition row :: "string \<Rightarrow> string \<Rightarrow> string option \<Rightarrow> bool \<Rightarrow> bool \<Rightarrow> bool \<Rightarrow> cmd_row" where
  "row n s u c h a = \<lparr> cv_name = n, cv_summary = Some s, cv_usage = u, cv_critical = c, cv_hidden = h, cv_auth = a \<rparr>"

section \<open>The tables of sk_core, name, summary, usage, then critical, hidden, requires\_auth\<close>

definition cli_rows :: "cmd_row list" where
  "cli_rows =
    [row ''help''
       ''List commands or show detail of one''
       (Some ''help [<command>]'') False False False,
     row ''json.on''
       ''Switch to NDJSON machine mode''
       (Some ''json on'') False True False,
     row ''json.off''
       ''Switch to human mode''
       (Some ''json off'') False True False]"

definition capabilities_rows :: "cmd_row list" where
  "capabilities_rows =
    [row ''device.capabilities''
       ''List loaded books and command versions''
       (Some ''device capabilities'') False True False]"

definition device_info_row :: cmd_row where
  "device_info_row = row ''device.info''
       ''Identity + runtime snapshot (merged info+status)''
       (Some ''device info'') False False False"

definition device_commands_row :: cmd_row where
  "device_commands_row = row ''device.commands''
       ''List every registered command (JSON array)''
       (Some ''device commands'') False True False"

definition device_manifest_row :: cmd_row where
  "device_manifest_row = row ''device.manifest''
       ''Runtime UI manifest for SKAPP''
       (Some ''device manifest'') False True False"

definition logs_get_row :: cmd_row where
  "logs_get_row = row ''logs.get''
       ''Read recent log entries from the ring buffer''
       (Some ''logs get [--limit N] [--level LVL]'') False False False"

definition time_set_row :: cmd_row where
  "time_set_row = row ''time.set''
       ''Push UNIX time to device (SKAPP-only, when no NTP)''
       (Some ''time set <unix>'') False True False"

definition baseline_rows :: "cmd_row list" where
  "baseline_rows = [device_info_row, device_commands_row, device_manifest_row, logs_get_row, time_set_row]"

definition control_rows :: "cmd_row list" where
  "control_rows =
    [row ''device.restart''
       ''Restart the device''
       (Some ''device restart'') True False False,
     row ''device.factory-reset''
       ''Wipe bond, settings, return to factory state''
       (Some ''device factory-reset'') True False False]"

definition auth_rows :: "cmd_row list" where
  "auth_rows =
    [row ''pairing.status''
       ''Show pairing window state and how many bond slots are occupied''
       (Some ''pairing status'') False False False,
     row ''pairing.start''
       ''Open a 60-second BLE pairing window for SKAPP to discover the device''
       (Some ''pairing start'') False False False,
     row ''pairing.stop''
       ''Close the pairing window early''
       (Some ''pairing stop'') False False False,
     row ''ble.unpair''
       ''Forget every paired phone (clears all bond slots)''
       (Some ''ble unpair'') True False False,
     row ''auth.token.rotate''
       ''Rotate the active session token (SKAPP-only)''
       (Some ''auth token rotate'') True True False,
     row ''bond.list''
       ''List paired SKAPP installs (slot, peer_id, label, paired_at)''
       (Some ''bond list'') False False True,
     row ''bond.remove''
       ''Remove a paired peer by slot (forgets that SKAPP install)''
       (Some ''bond remove --slot <0..7>'') True False True,
     row ''device.confirm-token''
       ''Issue a single-use token to authorize a critical command''
       (Some ''device confirm-token'') False False False]"

definition passphrase_rows :: "cmd_row list" where
  "passphrase_rows =
    [row ''auth.passphrase.status''
       ''Show passphrase configuration (set / mode / attempts left)''
       (Some ''auth passphrase status'') False False False,
     row ''auth.passphrase.set''
       ''Set the content-access passphrase (first time)''
       (Some ''auth passphrase set <plain>'') True False False,
     row ''auth.passphrase.change''
       ''Rotate the passphrase (verifies old, sets new)''
       (Some ''auth passphrase change <old> <new>'') True False False,
     row ''auth.passphrase.clear''
       ''Remove the passphrase (verifies old)''
       (Some ''auth passphrase clear <old>'') True False False,
     row ''auth.passphrase.mode.set''
       ''Set the two enforcement toggles''
       (Some ''auth passphrase mode set --pairing <0|1> --always <0|1>'') True False False]"

definition wifi_rows :: "cmd_row list" where
  "wifi_rows =
    [row ''wifi.status''
       ''Show current connection state, SSID, IP, signal strength''
       (Some ''wifi status'') False False False,
     row ''wifi.scan''
       ''Scan visible WiFi networks nearby (up to 12)''
       (Some ''wifi scan'') False False False,
     row ''wifi.list''
       ''List saved WiFi networks''
       (Some ''wifi list'') False False False,
     row ''wifi.connect''
       ''Connect to a WiFi network (saves credentials)''
       (Some ''wifi connect <ssid> [password] [192.168.1.50[/24]] [primary|backup]'') False False False,
     row ''wifi.disconnect''
       ''Disconnect from the current WiFi network''
       (Some ''wifi disconnect'') False False False,
     row ''wifi.forget''
       ''Delete saved WiFi credentials (one slot or both)''
       (Some ''wifi forget [--slot primary|backup]'') True False False]"

definition ble_rows :: "cmd_row list" where
  "ble_rows =
    [row ''ble.status''
       ''Show BLE radio state and connected peer (if any)''
       (Some ''ble status'') False False False]"

definition ota_rows :: "cmd_row list" where
  "ota_rows =
    [row ''ota.status''
       ''Show update state, current/available versions, active partition''
       (Some ''ota status'') False False False,
     row ''ota.check''
       ''Ask the update server if a newer firmware exists (no install)''
       (Some ''ota check'') False False False,
     row ''ota.update''
       (''Install the new firmware found by '' @ [CHR 0x60] @ ''ota check'' @ [CHR 0x60] @ '' (reboots automatically)'')
       (Some ''ota update'') True False False,
     row ''ota.rollback''
       ''Boot back into the previous firmware (use if a new build is broken)''
       (Some ''ota rollback'') True False False]"

section \<open>The tables of sk_api and of the LebensSpur components\<close>

definition api_rows :: "cmd_row list" where
  "api_rows =
    [row ''api.on''
       (''Master switch '' @ [CHR 0xE2, CHR 0x80, CHR 0x94] @ '' allow stored endpoints to fire'')
       (Some ''api on'') False False True,
     row ''api.off''
       (''Master switch '' @ [CHR 0xE2, CHR 0x80, CHR 0x94] @ '' block all API calls (records kept)'')
       (Some ''api off'') False False True,
     row ''api.status''
       ''Show master switch state and endpoint counts''
       (Some ''api status'') False False True,
     row ''api.endpoint.list''
       ''List stored endpoints (USER + SYSTEM)''
       (Some ''api endpoint list'') False False True,
     row ''api.endpoint.add''
       ''Add or update a USER (manual) endpoint''
       (Some (''api endpoint add --name X --type generic|ifttt|webhook_post --url ... [--token ...] [--method POST|GET|PUT|DELETE] [--auth none|bearer|basic|header] [--header-name X-API-Key] [--content-type application/json] [--payload '' @ [CHR 0x27] @ ''{'' @ [CHR 0x22] @ ''text'' @ [CHR 0x22] @ '':'' @ [CHR 0x22] @ ''{event} on {device}'' @ [CHR 0x22] @ ''}'' @ [CHR 0x27] @ ''] [--delay-after <seconds 0-300>] [--class trigger|alarm|both]'')) True False True,
     row ''api.endpoint.remove''
       ''Delete a USER endpoint by name''
       (Some ''api endpoint remove --name X'') True False True,
     row ''api.system.add''
       (''Register the calling peer'' @ [CHR 0x27] @ ''s SKAPP listener as a SYSTEM slot'')
       (Some ''api system add --url http://<host>:<port>/api/events/incoming [--delay-after <seconds 0-300>]'') False False True,
     row ''api.system.remove''
       (''Unregister the calling peer'' @ [CHR 0x27] @ ''s SYSTEM slot'')
       (Some ''api system remove'') False False True,
     row ''api.system.purge''
       ''Wipe ALL SYSTEM slots (orphan cleanup)''
       (Some ''api system purge'') False False True,
     row ''api.system.list''
       ''List SYSTEM slots only (auto-managed by paired SKAPPs)''
       (Some ''api system list'') False False True,
     row ''api.send''
       ''Fire one endpoint right now (manual test)''
       (Some (''api send --name X [--payload '' @ [CHR 0x27] @ ''...'' @ [CHR 0x27] @ '']'')) False False True,
     row ''api.chain.run''
       ''Fire every endpoint (USER then SYSTEM, in order)''
       (Some (''api chain run [--payload '' @ [CHR 0x27] @ ''...'' @ [CHR 0x27] @ '']'')) False False True]"

definition timer_rows :: "cmd_row list" where
  "timer_rows =
    [row ''timer.set''
       ''Set duration: <unit> <value> (minute|hour|day, 1..60) [alarm <0..10>]''
       (Some ''timer set <unit> <value> [alarm <N>]'') False False False,
     row ''timer.get''
       ''Show current timer configuration''
       (Some ''timer get'') False False False,
     row ''timer.start''
       ''Start the countdown from full duration''
       (Some ''timer start'') False False False,
     row ''timer.stop''
       ''Stop the countdown (state -> inactive)''
       (Some ''timer stop'') False False False,
     row ''timer.reset''
       ''Reset countdown back to full duration''
       (Some ''timer reset'') False False False,
     row ''timer.status''
       ''Show current timer runtime state''
       (Some ''timer status'') False False False,
     row ''vacation.set''
       ''Enter vacation mode for N days (1..60), countdown paused''
       (Some ''vacation set <days>'') False False False,
     row ''vacation.cancel''
       ''Exit vacation mode and resume countdown''
       (Some ''vacation cancel'') False False False]"

definition relay_rows :: "cmd_row list" where
  "relay_rows =
    [row ''relay.gpio''
       ''Set relay output GPIO pin (0..30)''
       (Some ''relay gpio <N>'') False False False,
     row ''relay.invert''
       ''Set relay polarity: on | off (idle/active level swap)''
       (Some ''relay invert <on|off>'') False False False,
     row ''relay.delay''
       ''Set start delay in seconds (0..10)''
       (Some ''relay delay <s>'') False False False,
     row ''relay.duration''
       ''Set total active duration in seconds (1..3600)''
       (Some ''relay duration <s>'') False False False,
     row ''relay.pulse''
       ''Pulse mode: on | off | <half-cycle seconds 1..60>''
       (Some ''relay pulse <on|off> | relay pulse <s>'') False False False,
     row ''relay.get''
       ''Show current relay configuration''
       (Some ''relay get'') False False False,
     row ''relay.test''
       ''Manually fire the relay using current config''
       (Some ''relay test'') False False False,
     row ''relay.fire''
       ''Alias of relay.test''
       (Some ''relay fire'') False True False,
     row ''relay.abort''
       ''Abort an in-progress fire sequence''
       (Some ''relay abort'') False False False,
     row ''relay.off''
       ''Force relay to idle (also aborts in-progress fire)''
       (Some ''relay off'') False False False,
     row ''relay.status''
       ''Show current relay runtime status''
       (Some ''relay status'') False False False]"

definition smtp_rows :: "cmd_row list" where
  "smtp_rows =
    [row ''smtp.host''
       ''Set SMTPS server hostname (e.g. smtp.gmail.com)''
       (Some ''smtp host <hostname>'') False False False,
     row ''smtp.port''
       ''Set SMTPS port (1..65535)''
       (Some ''smtp port <N>'') False False False,
     row ''smtp.sender''
       ''Set sender email, also SMTP AUTH user (e.g. me@gmail.com)''
       (Some ''smtp sender <email>'') False False False,
     row ''smtp.key''
       ''Set SMTP AUTH password (Gmail App Password / API key)''
       (Some ''smtp key <api_key>'') False False False,
     row ''smtp.get''
       ''Show SMTP configuration (api_key masked)''
       (Some ''smtp get'') False False False,
     row ''smtp.save''
       ''Save host+port+sender+key atomically (one NVS commit)''
       (Some ''smtp save [host <h>] [port <N>] [sender <e>] [key <k>]'') False False False,
     row ''smtp.test''
       ''Send a test mail to the configured sender''
       (Some ''smtp test'') False False False]"

definition reminder_rows :: "cmd_row list" where
  "reminder_rows =
    [row ''reminder.enable''
       ''Enable/disable early-warning reminders: reminder enable <on|off>''
       (Some ''reminder enable <on|off>'') False False False,
     row ''reminder.subject''
       ''Set reminder subject: reminder subject <text...>''
       (Some ''reminder subject <text>'') False False False,
     row ''reminder.body''
       ''Set reminder body: reminder body <text...>''
       (Some ''reminder body <text>'') False False False,
     row ''reminder.recipient.add''
       ''Add reminder recipient: reminder recipient add <email> (max 10)''
       (Some ''reminder recipient add <email>'') False False False,
     row ''reminder.recipient.remove''
       ''Remove reminder recipient: reminder recipient remove <email>''
       (Some ''reminder recipient remove <email>'') False False False,
     row ''reminder.get''
       ''Show reminder configuration''
       (Some ''reminder get'') False False False,
     row ''reminder.test''
       ''Send the reminder mail once, now''
       (Some ''reminder test'') False False False]"

definition mail_groups_rows :: "cmd_row list" where
  "mail_groups_rows =
    [row ''mail.group.add''
       ''Create a new mail group, returns id (max 10): mail group add [name]''
       (Some ''mail group add <name>'') False False False,
     row ''mail.group.delete''
       ''Delete a mail group: mail group delete <id 0..9>''
       (Some ''mail group delete <id>'') False False False,
     row ''mail.group.enable''
       ''Enable/disable a group: mail group enable <id> <on|off>''
       (Some ''mail group enable <id> <on|off>'') False False False,
     row ''mail.group.name''
       ''Rename a group: mail group name <id> <new name>''
       (Some ''mail group name <id> <new name>'') False False False,
     row ''mail.group.subject''
       ''Set email subject: mail group subject <id> <text...>''
       (Some ''mail group subject <id> <subject>'') False False False,
     row ''mail.group.body''
       ''Set email body: mail group body <id> <text...>''
       (Some ''mail group body <id> <text>'') False False False,
     row ''mail.group.list''
       ''List all configured groups''
       (Some ''mail group list'') False False False,
     row ''mail.group.get''
       (''Show a single group'' @ [CHR 0x27] @ ''s full detail'')
       (Some ''mail group get <id>'') False False False,
     row ''mail.group.recipient.add''
       ''Add recipient: mail group recipient add <id> <email> (max 20)''
       (Some ''mail group recipient add <id> <email>'') False False False,
     row ''mail.group.recipient.remove''
       ''Remove recipient: mail group recipient remove <id> <email>''
       (Some ''mail group recipient remove <id> <email>'') False False False]"

definition reset_api_rows :: "cmd_row list" where
  "reset_api_rows =
    [row ''reset_api.enable''
       ''Enable/disable remote reset HTTP server: reset_api enable <on|off>''
       (Some ''reset_api enable <on|off>'') False False True,
     row ''reset_api.key''
       ''Set the API key (ls_ + 12 lowercase hex)''
       (Some ''reset_api key <ls_xxxxxxxxxxxx>'') False False True,
     row ''reset_api.regen''
       ''Generate a fresh random API key''
       (Some ''reset_api regen'') False False True,
     row ''reset_api.get''
       ''Show remote reset API config (key partially masked)''
       (Some ''reset_api get'') False False True,
     row ''reset_api.status''
       ''Show HTTP server runtime status''
       (Some ''reset_api status'') False False False]"

section \<open>Start-up\<close>

definition boot_commands :: "cmd_row list" where
  "boot_commands = cli_rows @
     capabilities_rows @
     baseline_rows @
     control_rows @
     auth_rows @
     passphrase_rows @
     wifi_rows @
     ble_rows @
     ota_rows @
     api_rows @
     timer_rows @
     relay_rows @
     smtp_rows @
     reminder_rows @
     mail_groups_rows @
     reset_api_rows"

text \<open>The entry of the table of \<open>sk_cli.c\<close>: a row with its handler.\<close>

definition with_handler :: "(string \<Rightarrow> cli_ctx \<Rightarrow> 's \<Rightarrow> 's \<times> cli_out list \<times> sk_err) \<Rightarrow> cmd_row \<Rightarrow> 's command" where
  "with_handler h r = \<lparr> cmd_name = cv_name r, cmd_usage = cv_usage r, critical = cv_critical r, hidden = cv_hidden r,
     requires_auth = cv_auth r, handler = h (cv_name r) \<rparr>"

text \<open>The calls of \<open>sk_cli_register\<close>, one per row; their answers are dropped by the callers.\<close>

fun register_rows :: "(string \<Rightarrow> cli_ctx \<Rightarrow> 's \<Rightarrow> 's \<times> cli_out list \<times> sk_err) \<Rightarrow> cmd_row list \<Rightarrow> 's command list \<Rightarrow>
    esp_err list \<times> 's command list" where
  "register_rows h [] cmds = ([], cmds)"
| "register_rows h (r # rs) cmds =
     (case sk_cli_register True cmds (with_handler h r) of (e, cmds) \<Rightarrow>
      (case register_rows h rs cmds of (es, cmds) \<Rightarrow> (e # es, cmds)))"

end
