(* ===== verification/SkLog.thy ===== *)
theory SkLog
  imports LSPrelude
begin

text \<open>
  The structured event log, \<open>sk_core/src/sk_log.c\<close>: every task puts records into a queue, one task moves them
  into a ring of 64 entries, and \<open>sk_log_walk\<close> shows the ring to a callback. The mutex of the ring is taken and
  given within each of these steps, so the model needs no variable for it; a time-out of the drain task while a
  walk holds it is the flag of \<open>log_drain\<close>.
\<close>

section \<open>Data\<close>

definition SK_LOG_RING_CAPACITY :: nat where "SK_LOG_RING_CAPACITY = 64"
definition SK_LOG_MSG_MAX :: nat where "SK_LOG_MSG_MAX = 128"
definition SK_LOG_QUEUE_DEPTH :: nat where "SK_LOG_QUEUE_DEPTH = 32"

datatype sk_log_level = SK_LOG_DEBUG | SK_LOG_INFO | SK_LOG_WARN | SK_LOG_ERROR

primrec level_no :: "sk_log_level \<Rightarrow> nat" where
  "level_no SK_LOG_DEBUG = 0"
| "level_no SK_LOG_INFO = 1"
| "level_no SK_LOG_WARN = 2"
| "level_no SK_LOG_ERROR = 3"

record sk_log_record =
  ts_unix :: int
  ts_uptime_us :: int
  level :: sk_log_level
  log_tag :: string
  log_event :: string
  log_msg :: string

definition no_record :: sk_log_record where
  "no_record = \<lparr> ts_unix = 0, ts_uptime_us = 0, level = SK_LOG_DEBUG, log_tag = [], log_event = [], log_msg = [] \<rparr>"

record sk_log =
  ring :: "sk_log_record list"
  ring_head :: nat
  ring_count :: nat
  log_queue :: "sk_log_record list"
  log_ready :: bool

definition log_static :: sk_log where
  "log_static = \<lparr> ring = replicate SK_LOG_RING_CAPACITY no_record, ring_head = 0, ring_count = 0, log_queue = [],
     log_ready = False \<rparr>"

section \<open>Levels\<close>

primrec sk_log_level_str :: "sk_log_level \<Rightarrow> string" where
  "sk_log_level_str SK_LOG_DEBUG = ''D''"
| "sk_log_level_str SK_LOG_INFO = ''I''"
| "sk_log_level_str SK_LOG_WARN = ''W''"
| "sk_log_level_str SK_LOG_ERROR = ''E''"

definition lower :: "char \<Rightarrow> char" where
  "lower c = (if 65 \<le> char_code c \<and> char_code c \<le> 90 then char_of (char_code c + 32) else c)"

definition sk_log_level_parse :: "string \<Rightarrow> sk_log_level option" where
  "sk_log_level_parse s =
     (let t = map lower s in
      if t = ''debug'' \<or> t = ''d'' then Some SK_LOG_DEBUG
      else if t = ''info'' \<or> t = ''i'' then Some SK_LOG_INFO
      else if t = ''warn'' \<or> t = ''w'' then Some SK_LOG_WARN
      else if t = ''error'' \<or> t = ''e'' then Some SK_LOG_ERROR
      else None)"

definition current_unix_or_zero :: "clock \<Rightarrow> int" where
  "current_unix_or_zero ck = (if wall ck > 1700000000 then wall ck else 0)"

section \<open>Writing\<close>

definition ring_write :: "sk_log_record \<Rightarrow> sk_log \<Rightarrow> sk_log" where
  "ring_write r s =
     s\<lparr>ring := (ring s)[ring_head s := r], ring_head := (ring_head s + 1) mod SK_LOG_RING_CAPACITY,
       ring_count := (if ring_count s < SK_LOG_RING_CAPACITY then ring_count s + 1 else ring_count s)\<rparr>"

text \<open>
  One record of the queue, if there is one: written, or lost when the mutex was not free within 50 ms.
\<close>

definition log_drain :: "bool \<Rightarrow> sk_log \<Rightarrow> sk_log" where
  "log_drain got_mutex s =
     (case log_queue s of [] \<Rightarrow> s
      | r # rs \<Rightarrow> (let s = s\<lparr>log_queue := rs\<rparr> in if got_mutex then ring_write r s else s))"

text \<open>\<open>text\<close> is what the format of the caller gives; a full queue drops the record.\<close>

definition sk_log_event :: "clock \<Rightarrow> sk_log_level \<Rightarrow> string \<Rightarrow> string \<Rightarrow> string \<Rightarrow> sk_log \<Rightarrow> sk_log" where
  "sk_log_event ck lvl tag event text s =
     (if \<not> log_ready s then s
      else
        (let r = \<lparr> ts_unix = current_unix_or_zero ck, ts_uptime_us = up_us ck, level = lvl, log_tag = tag,
                   log_event = event, log_msg = snprintf (SK_LOG_MSG_MAX + 1) text \<rparr>
         in if length (log_queue s) < SK_LOG_QUEUE_DEPTH then s\<lparr>log_queue := log_queue s @ [r]\<rparr> else s))"

section \<open>Reading\<close>

text \<open>The loop of the walk over the positions; the callback tells whether to go on.\<close>

fun walk_loop :: "sk_log_record list \<Rightarrow> nat list \<Rightarrow> sk_log_level \<Rightarrow> nat \<Rightarrow> nat \<Rightarrow> (sk_log_record \<Rightarrow> 's \<Rightarrow> bool \<times> 's) \<Rightarrow> 's \<Rightarrow> 's" where
  "walk_loop rg [] min_level max_count emitted cb u = u"
| "walk_loop rg (idx # is) min_level max_count emitted cb u =
     (if emitted \<ge> max_count then u
      else if level_no (level (rg ! idx)) < level_no min_level then walk_loop rg is min_level max_count emitted cb u
      else (case cb (rg ! idx) u of (keep, u) \<Rightarrow>
        if keep then walk_loop rg is min_level max_count (emitted + 1) cb u else u))"

definition sk_log_walk :: "sk_log_level \<Rightarrow> nat \<Rightarrow> (sk_log_record \<Rightarrow> 's \<Rightarrow> bool \<times> 's) \<Rightarrow> sk_log \<Rightarrow> 's \<Rightarrow> 's" where
  "sk_log_walk min_level max_count cb s u =
     (if \<not> log_ready s then u
      else
        (let total = ring_count s;
             start = (ring_head s + SK_LOG_RING_CAPACITY - total) mod SK_LOG_RING_CAPACITY
         in walk_loop (ring s) (map (\<lambda>i. (start + i) mod SK_LOG_RING_CAPACITY) [0..<total]) min_level max_count 0 cb u))"

text \<open>The three creations of \<open>sk_log_init\<close> succeed or not.\<close>

definition sk_log_init :: "bool \<Rightarrow> bool \<Rightarrow> bool \<Rightarrow> sk_log \<Rightarrow> esp_err \<times> sk_log" where
  "sk_log_init mutex_ok queue_ok task_ok s =
     (if log_ready s then (ESP_OK, s)
      else if \<not> mutex_ok \<or> \<not> queue_ok \<or> \<not> task_ok then (ESP_ERR_NO_MEM, s)
      else (ESP_OK, s\<lparr>log_ready := True\<rparr>))"

end
