(* ===== verification/SkBaseline.thy ===== *)
theory SkBaseline
  imports SkCommandTable SkLog SkPassphrase
begin

text \<open>
  The baseline commands, \<open>sk_core/src/sk_baseline.c\<close>: \<open>device.info\<close>, \<open>device.commands\<close>, \<open>device.manifest\<close>,
  \<open>logs.get\<close>, \<open>time.set\<close>, and the flag \<open>user_configured\<close> with its hooks. What the other modules answer to
  \<open>device.info\<close> is the record \<open>info_env\<close>.
\<close>

section \<open>The flag in flash\<close>

definition NVS_DEVST :: string where "NVS_DEVST = ''sk_devst''"

record 'n baseline =
  user_configured :: bool
  bl_flash :: 'n
  fw_version :: string
  build_info :: "string option"
  boot_us :: int

definition user_configured_load :: "'n nvs_ops \<Rightarrow> 'n baseline \<Rightarrow> 'n baseline" where
  "user_configured_load N s =
     (if nv_open_ro N (bl_flash s) NVS_DEVST \<noteq> ESP_OK then s\<lparr>user_configured := False\<rparr>
      else (case get_u8 N (bl_flash s) NVS_DEVST ''user_cfg'' of None \<Rightarrow> s
            | Some v \<Rightarrow> s\<lparr>user_configured := (v \<noteq> 0)\<rparr>))"

definition user_configured_persist :: "'n nvs_ops \<Rightarrow> bool \<Rightarrow> 'n baseline \<Rightarrow> 'n baseline" where
  "user_configured_persist N v s =
     (if nv_open_rw N (bl_flash s) NVS_DEVST \<noteq> ESP_OK then s
      else s\<lparr>bl_flash := nv_commit N (nv_put N NVS_DEVST ''user_cfg'' (NvU8 (if v then 1 else 0)) (bl_flash s)) NVS_DEVST\<rparr>)"

definition on_wifi_ip_acquired :: "'n nvs_ops \<Rightarrow> 'n baseline \<Rightarrow> 'n baseline" where
  "on_wifi_ip_acquired N s =
     (if user_configured s then s else user_configured_persist N True (s\<lparr>user_configured := True\<rparr>))"

definition baseline_factory_reset :: "'n nvs_ops \<Rightarrow> 'n baseline \<Rightarrow> 'n baseline" where
  "baseline_factory_reset N s =
     (let n = bl_flash s;
          s = (if nv_open_rw N n NVS_DEVST = ESP_OK
               then s\<lparr>bl_flash := nv_commit N (nv_erase_all N n NVS_DEVST) NVS_DEVST\<rparr> else s)
      in s\<lparr>user_configured := False\<rparr>)"

section \<open>device.info\<close>

record info_env =
  id_prefix :: string
  id_full :: string
  id_hw_rev :: char
  wifi_connected :: bool
  wifi_ssid :: string
  wifi_rssi :: int
  wifi_ip :: string
  wifi_saved :: bool
  bond_count :: nat
  pass_set :: bool
  pass_mode :: sk_pass_mode
  pass_attempts :: nat

definition SK_PROTOCOL_VERSION :: string where "SK_PROTOCOL_VERSION = ''0.2.0''"

definition uptime_sec :: "clock \<Rightarrow> 'n baseline \<Rightarrow> int" where
  "uptime_sec ck s = cdiv (up_us ck - boot_us s) 1000000"

definition info_text :: "clock \<Rightarrow> info_env \<Rightarrow> 'n baseline \<Rightarrow> string" where
  "info_text ck e s =
     (let tvalid = (wall ck > 1700000000) in
      ''{'' @ jk ''model'' @ jq (id_prefix e) @ '','' @ jk ''prefix'' @ jq (id_prefix e) @ '','' @
      jk ''serial'' @ jq (id_full e) @ '','' @ jk ''fw_version'' @ jq (fw_version s) @ '','' @
      jk ''hw_version'' @ jq [id_hw_rev e] @ '','' @ jk ''protocol_version'' @ jq SK_PROTOCOL_VERSION @ '','' @
      jk ''build_info'' @ (case build_info s of None \<Rightarrow> ''null'' | Some b \<Rightarrow> jq b) @ '','' @
      jk ''uptime_sec'' @ dec_int (uptime_sec ck s) @ '','' @
      jk ''wifi'' @ ''{'' @ jk ''connected'' @ jbool (wifi_connected e) @ '','' @ jk ''ssid'' @ jq (wifi_ssid e) @ '','' @
        jk ''rssi'' @ dec_int (wifi_rssi e) @ '','' @ jk ''ip'' @ jq (wifi_ip e) @ ''},'' @
      jk ''ble'' @ ''{'' @ jk ''advertising'' @ ''false,'' @ jk ''paired_clients'' @ dec_nat (bond_count e) @ ''},'' @
      jk ''battery'' @ ''{'' @ jk ''present'' @ ''false},'' @ jk ''last_error'' @ ''null,'' @
      jk ''passphrase'' @ ''{'' @ jk ''set'' @ jbool (pass_set e) @ '','' @ jk ''mode'' @ ''{'' @
        jk ''pairing'' @ jbool (pairing_required (pass_mode e)) @ '','' @
        jk ''always'' @ jbool (always_required (pass_mode e)) @ ''},'' @
        jk ''attempts_left'' @ dec_nat (pass_attempts e) @ ''},'' @
      jk ''bonds'' @ ''{'' @ jk ''count'' @ dec_nat (bond_count e) @ '','' @ jk ''capacity'' @ dec_nat 8 @ ''},'' @
      jk ''user_configured'' @ jbool (user_configured s) @ '','' @
      jk ''time'' @ ''{'' @ jk ''valid'' @ jbool tvalid @ '','' @ jk ''unix'' @ dec_int (if tvalid then wall ck else 0) @ '','' @
        jk ''source'' @ jq (if tvalid then ''set'' else ''none'') @ ''}}'')"

definition cmd_device_info :: "'n nvs_ops \<Rightarrow> clock \<Rightarrow> info_env \<Rightarrow> 'n baseline \<Rightarrow> 'n baseline \<times> cli_out" where
  "cmd_device_info N ck e s =
     (let s = (if \<not> user_configured s \<and> wifi_saved e
               then user_configured_persist N True (s\<lparr>user_configured := True\<rparr>) else s);
          t = info_text ck e s
      in (s, if length t \<ge> 768 then CliErr SK_ERR_INTERNAL (Some (''{'' @ jk ''reason'' @ jq ''info_truncated'' @ ''}''))
             else CliOk (Some t)))"

section \<open>Lists of the commands\<close>

text \<open>
  The three walks share their state: a text, whether it is the first entry, and whether an entry did not fit. An
  entry that does not fit stops the output for good.
\<close>

record walk_state =
  ws_text :: string
  ws_first :: bool
  ws_overflow :: bool

definition walk_emit :: "nat \<Rightarrow> string \<Rightarrow> walk_state \<Rightarrow> walk_state" where
  "walk_emit cap entry st =
     (if ws_overflow st then st
      else
        (let e = (if ws_first st then [] else '','') @ entry in
         if length e \<ge> cap - length (ws_text st) then st\<lparr>ws_overflow := True\<rparr>
         else st\<lparr>ws_text := ws_text st @ e, ws_first := False\<rparr>))"

definition walk_start :: "string \<Rightarrow> walk_state" where
  "walk_start s = \<lparr> ws_text = s, ws_first = True, ws_overflow = False \<rparr>"

definition internal_error :: "string \<Rightarrow> cli_out" where
  "internal_error r = CliErr SK_ERR_INTERNAL (Some (''{'' @ jk ''reason'' @ jq r @ ''}''))"

text \<open>The end of a list: an overflow or an end that does not fit is an error.\<close>

definition walk_end :: "nat \<Rightarrow> string \<Rightarrow> string \<Rightarrow> string \<Rightarrow> walk_state \<Rightarrow> cli_out" where
  "walk_end cap footer r1 r2 st =
     (if ws_overflow st then internal_error r1
      else if length footer \<ge> cap - length (ws_text st) then internal_error r2
      else CliOk (Some (ws_text st @ footer)))"

definition cmd_walk_collect :: "cmd_row \<Rightarrow> walk_state \<Rightarrow> walk_state" where
  "cmd_walk_collect c st = walk_emit 2048 (jq (cv_name c)) st"

definition cmd_device_commands :: "bool \<Rightarrow> cmd_row list \<Rightarrow> cli_out" where
  "cmd_device_commands alloc_ok cmds =
     (if \<not> alloc_ok then internal_error ''oom''
      else walk_end 2048 '']'' ''commands_truncated'' ''commands_truncated''
        (foldl (\<lambda>st c. cmd_walk_collect c st) (walk_start ''['') cmds))"

definition group_of :: "string \<Rightarrow> string" where
  "group_of name = takeWhile (\<lambda>c. c \<noteq> CHR ''.'') name"

definition manifest_entry :: "cmd_row \<Rightarrow> string" where
  "manifest_entry c = ''{'' @ jk ''name'' @ jq (cv_name c) @ '','' @ jk ''group'' @ jq (group_of (cv_name c)) @ '','' @
     jk ''summary'' @ jq (case cv_summary c of None \<Rightarrow> [] | Some s \<Rightarrow> s) @ ''}''"

definition manifest_walk_cb :: "cmd_row \<Rightarrow> walk_state \<Rightarrow> walk_state" where
  "manifest_walk_cb c st =
     (if ws_overflow st then st else if cv_hidden c then st else walk_emit 4096 (manifest_entry c) st)"

definition manifest_header :: "info_env \<Rightarrow> string \<Rightarrow> string" where
  "manifest_header e fw = ''{'' @ jk ''device'' @ ''{'' @ jk ''prefix'' @ jq (id_prefix e) @ '','' @
     jk ''serial'' @ jq (id_full e) @ '','' @ jk ''protocol_version'' @ jq SK_PROTOCOL_VERSION @ '','' @
     jk ''fw_version'' @ jq fw @ ''},'' @ jk ''commands'' @ ''[''"

definition manifest_footer :: string where
  "manifest_footer = ''],'' @ jk ''events'' @ ''[]}''"

definition cmd_device_manifest :: "bool \<Rightarrow> info_env \<Rightarrow> string \<Rightarrow> cmd_row list \<Rightarrow> cli_out" where
  "cmd_device_manifest alloc_ok e fw cmds =
     (if \<not> alloc_ok then internal_error ''oom''
      else if length (manifest_header e fw) \<ge> 4096 then internal_error ''manifest_header''
      else walk_end 4096 manifest_footer ''manifest_truncated'' ''manifest_footer''
        (foldl (\<lambda>st c. manifest_walk_cb c st) (walk_start (manifest_header e fw)) cmds))"

section \<open>logs.get\<close>

fun json_escape_loop :: "nat \<Rightarrow> string \<Rightarrow> string \<Rightarrow> string" where
  "json_escape_loop cap out [] = out"
| "json_escape_loop cap out (c # cs) =
     (if length out + 2 \<ge> cap then out
      else if c = CHR 0x22 \<or> c = CHR 0x5C then
        (if length out + 3 \<ge> cap then out else json_escape_loop cap (out @ [CHR 0x5C, c]) cs)
      else if char_code c < 0x20 then
        (if length out + 7 \<ge> cap then out
         else json_escape_loop cap (out @ [CHR 0x5C, CHR ''u'', CHR ''0'', CHR ''0'', hex_digit (nat (char_code c) div 16),
           hex_digit (nat (char_code c) mod 16)]) cs)
      else json_escape_loop cap (out @ [c]) cs)"

definition log_entry_text :: "sk_log_record \<Rightarrow> string" where
  "log_entry_text r = ''{'' @ jk ''ts'' @ dec_int (ts_unix r) @ '','' @ jk ''up_us'' @ dec_int (ts_uptime_us r) @ '','' @
     jk ''lvl'' @ jq (sk_log_level_str (level r)) @ '','' @ jk ''tag'' @ jq (log_tag r) @ '','' @
     jk ''event'' @ jq (log_event r) @ '','' @ jk ''msg'' @ jq (json_escape_loop 300 [] (log_msg r)) @ ''}''"

definition logs_walk_emit :: "sk_log_record \<Rightarrow> walk_state \<Rightarrow> bool \<times> walk_state" where
  "logs_walk_emit r st =
     (let st = walk_emit 8192 (log_entry_text r) st in (\<not> ws_overflow st, st))"

definition logs_limit :: "cli_ctx \<Rightarrow> nat" where
  "logs_limit ctx =
     (let l = (case sk_cli_arg_long ctx ''limit'' of None \<Rightarrow> 50 | Some l \<Rightarrow> l);
          l = (if l < 1 then 1 else l)
      in nat (if l > 200 then 200 else l))"

definition cmd_logs_get :: "bool \<Rightarrow> cli_ctx \<Rightarrow> sk_log \<Rightarrow> cli_out" where
  "cmd_logs_get alloc_ok ctx lg =
     (case (case sk_cli_arg_named ctx ''level'' of None \<Rightarrow> Some SK_LOG_INFO | Some s \<Rightarrow> sk_log_level_parse s) of
        None \<Rightarrow> CliErr SK_ERR_INVALID_ARG (Some (''{'' @ jk ''field'' @ jq ''level'' @ ''}''))
      | Some min_level \<Rightarrow>
          (if \<not> alloc_ok then CliErr SK_ERR_INTERNAL None
           else
             (let st = sk_log_walk min_level (logs_limit ctx) logs_walk_emit lg (walk_start (''{'' @ jk ''lines'' @ ''[''));
                  footer = '']'' @ (if ws_overflow st then '','' @ jk ''truncated'' @ ''true'' else []) @ ''}''
              in if length footer \<ge> 8192 - length (ws_text st) then CliErr SK_ERR_INTERNAL None
                 else CliOk (Some (ws_text st @ footer)))))"

section \<open>time.set\<close>

text \<open>\<open>strtoll\<close>: as \<open>strtol\<close>, with the bounds of 64 bits; no digits give 0.\<close>

definition strtoll10 :: "string \<Rightarrow> int" where
  "strtoll10 s =
     (let t = dropWhile is_space s;
          clamp = (\<lambda>i. max (- (2 ^ 63)) (min (2 ^ 63 - 1) i))
      in case t of [] \<Rightarrow> 0
         | c # cs \<Rightarrow>
             (case (if c = CHR ''-'' then map_option (\<lambda>n. - int n) (strtol_digits cs)
                    else if c = CHR ''+'' then map_option int (strtol_digits cs)
                    else map_option int (strtol_digits t)) of
                None \<Rightarrow> 0 | Some i \<Rightarrow> clamp i))"

text \<open>The new wall clock, when the command sets it; \<open>clock_ok\<close> is the answer of \<open>settimeofday\<close>.\<close>

definition cmd_time_set :: "bool \<Rightarrow> cli_ctx \<Rightarrow> int option \<times> cli_out" where
  "cmd_time_set clock_ok ctx =
     (case or_else (sk_cli_arg_named ctx ''unix'') (if is_machine_mode ctx then None else sk_cli_arg ctx 0) of
        None \<Rightarrow> (None, CliErr SK_ERR_MISSING_ARG (Some (''{'' @ jk ''field'' @ jq ''unix'' @ ''}'')))
      | Some s \<Rightarrow>
          (let t = strtoll10 s in
           if t < 1700000000 then
             (None, CliErr SK_ERR_INVALID_ARG (Some (''{'' @ jk ''field'' @ jq ''unix'' @ '','' @ jk ''reason'' @ jq ''too_low'' @ ''}'')))
           else if \<not> clock_ok then (None, internal_error ''settimeofday_failed'')
           else (Some t, CliOk (Some (snprintf 64 (''{'' @ jk ''unix'' @ dec_int t @ ''}''))))))"

section \<open>Start-up\<close>

definition sk_baseline_init :: "'n nvs_ops \<Rightarrow> clock \<Rightarrow> string option \<Rightarrow> string option \<Rightarrow> 'n \<Rightarrow> 'n baseline" where
  "sk_baseline_init N ck fw build n =
     user_configured_load N \<lparr> user_configured = False, bl_flash = n,
       fw_version = (case fw of None \<Rightarrow> [] | Some s \<Rightarrow> s),
       build_info = (case build of Some (c # cs) \<Rightarrow> Some (c # cs) | _ \<Rightarrow> None), boot_us = up_us ck \<rparr>"

end
