(* ===== verification/SkSession.thy ===== *)
theory SkSession
  imports SkPairing SkBaseline
begin

text \<open>
  One connection of a peer over BLE or TCP: the mutual challenge-response of \<open>sk_auth_handshake.c\<close> and
  the session of \<open>sk_secure_session.c\<close> with its signed envelopes and its passphrase gate. The device
  behind the session is the bond, passphrase and baseline components, the legacy replay ring and the rest of
  the firmware (\<open>'x\<close>), on which the command table works. Numbers of the JSON envelope are converted
  as C does in range (out of range the conversion is undefined; the model wraps).
\<close>

section \<open>Handshake\<close>

definition SK_AUTH_CHALLENGE_LEN :: nat where "SK_AUTH_CHALLENGE_LEN = 16"
definition SK_AUTH_RESPONSE_LEN :: nat where "SK_AUTH_RESPONSE_LEN = 16"
definition HANDSHAKE_TIMEOUT_US :: int where "HANDSHAKE_TIMEOUT_US = 5 * 1000 * 1000"
definition SK_SESSION_HANDSHAKE_TIMEOUT_US :: int where
  "SK_SESSION_HANDSHAKE_TIMEOUT_US = 5 * 1000 * 1000"

record sk_auth_handshake =
  our_challenge :: "u8 list"
  started_us :: int
  peer_verified :: bool
  bond_set :: bool
  hs_slot :: nat
  hs_key :: "u8 list"

definition handshake_zero :: sk_auth_handshake where
  "handshake_zero = \<lparr> our_challenge = replicate SK_AUTH_CHALLENGE_LEN 0, started_us = 0,
     peer_verified = False, bond_set = False, hs_slot = 0, hs_key = replicate SK_AUTH_TOKEN_LEN 0 \<rparr>"

definition hmac_prefix :: "hmac \<Rightarrow> u8 list \<Rightarrow> u8 list \<Rightarrow> u8 list option" where
  "hmac_prefix H token data = map_option (take SK_AUTH_RESPONSE_LEN) (H token data)"

definition sk_auth_handshake_begin :: "int \<Rightarrow> u8 list \<Rightarrow> 'n auth \<Rightarrow> sk_auth_handshake \<Rightarrow> esp_err \<times> sk_auth_handshake" where
  "sk_auth_handshake_begin now rnd a hs =
     (if \<not> sk_auth__has_token a then (ESP_ERR_INVALID_STATE, hs)
      else (ESP_OK, \<lparr> our_challenge = rnd, started_us = now, peer_verified = False, bond_set = False,
              hs_slot = SK_AUTH_BOND_SLOT_INVALID, hs_key = replicate SK_AUTH_TOKEN_LEN 0 \<rparr>))"

text \<open>The loop over the slots from \<open>slot\<close>, \<open>k\<close> of them left: the first whose key signed the response.\<close>

fun match_slot :: "hmac \<Rightarrow> u8 list \<Rightarrow> u8 list \<Rightarrow> 'n auth \<Rightarrow> nat \<Rightarrow> nat \<Rightarrow> (nat \<times> u8 list) option" where
  "match_slot H challenge response a slot 0 = None"
| "match_slot H challenge response a slot (Suc k) =
     (case sk_auth__slot_get_key slot a of
        None \<Rightarrow> match_slot H challenge response a (slot + 1) k
      | Some key \<Rightarrow> (case hmac_prefix H key challenge of
          None \<Rightarrow> match_slot H challenge response a (slot + 1) k
        | Some expected \<Rightarrow>
            (if ct_diff expected response = 0 then Some (slot, key)
             else match_slot H challenge response a (slot + 1) k)))"

definition sk_auth_handshake_verify_peer :: "hmac \<Rightarrow> int \<Rightarrow> u8 list \<Rightarrow> 'n auth \<Rightarrow> sk_auth_handshake \<Rightarrow>
    esp_err \<times> sk_auth_handshake \<times> 'n auth" where
  "sk_auth_handshake_verify_peer H now response a hs =
     (if now - started_us hs > HANDSHAKE_TIMEOUT_US then (ESP_ERR_TIMEOUT, hs, a)
      else case match_slot H (our_challenge hs) response a 0 SK_AUTH_BOND_SLOT_COUNT of
        Some (slot, key) \<Rightarrow>
          (ESP_OK, hs\<lparr>hs_key := key, bond_set := True, hs_slot := slot, peer_verified := True\<rparr>,
           sk_auth__activate_slot slot a)
      | None \<Rightarrow> (ESP_FAIL, hs, a))"

definition sk_auth_handshake_answer :: "hmac \<Rightarrow> u8 list \<Rightarrow> sk_auth_handshake \<Rightarrow> esp_err + u8 list" where
  "sk_auth_handshake_answer H challenge hs =
     (if \<not> bond_set hs then Inl ESP_ERR_INVALID_STATE
      else case hmac_prefix H (hs_key hs) challenge of None \<Rightarrow> Inl ESP_FAIL | Some out \<Rightarrow> Inr out)"

section \<open>Session\<close>

datatype sk_secure_session_state = SK_SESSION_FRESH | SK_SESSION_AWAITING_PEER
  | SK_SESSION_AUTHENTICATED | SK_SESSION_FAILED

datatype sk_session_feed = SK_SESSION_FEED_AUTH_PROGRESSED | SK_SESSION_FEED_PASSTHROUGH
  | SK_SESSION_FEED_AUTH_INVALID

record sk_secure_session =
  sess_state :: sk_secure_session_state
  hs :: sk_auth_handshake
  passphrase_unlocked :: bool
  sess_replay :: replay

definition sk_secure_session_reset :: sk_secure_session where
  "sk_secure_session_reset = \<lparr> sess_state = SK_SESSION_FRESH, hs = handshake_zero,
     passphrase_unlocked = False,
     sess_replay = \<lparr> nonces = replicate SK_AUTH_NONCE_WINDOW 0, ring_head = 0 \<rparr> \<rparr>"

text \<open>The result with the lines sent to the peer; without a bond the session is left as it is.\<close>

definition sk_secure_session_begin :: "int \<Rightarrow> u8 list \<Rightarrow> 'n auth \<Rightarrow> sk_secure_session \<Rightarrow>
    esp_err \<times> sk_secure_session \<times> string list" where
  "sk_secure_session_begin now rnd a s =
     (if \<not> sk_auth_has_bond a then (ESP_ERR_INVALID_STATE, s, [])
      else
        (let s = sk_secure_session_reset in
         case sk_auth_handshake_begin now rnd a (hs s) of (err, h) \<Rightarrow>
           (if err \<noteq> ESP_OK then (err, s\<lparr>sess_state := SK_SESSION_FAILED\<rparr>, [])
            else (ESP_OK, s\<lparr>hs := h, sess_state := SK_SESSION_AWAITING_PEER\<rparr>,
              [snprintf 96 (''{'' @ jk ''evt'' @ jq ''auth.challenge'' @ '','' @ jk ''data'' @
                 jq (bytes_to_hex (our_challenge h)) @ ''}\<newline>'')]))))"

record ('n, 'x) sess_dev =
  sd_auth :: "'n auth"
  sd_pw :: "'n passphrase"
  sd_base :: "'n baseline"
  sd_ring :: replay
  sd_rest :: 'x

definition invalid_feed :: "sk_secure_session \<Rightarrow> 'd \<Rightarrow> sk_session_feed \<times> sk_secure_session \<times> 'd \<times> string list" where
  "invalid_feed s d = (SK_SESSION_FEED_AUTH_INVALID, s\<lparr>sess_state := SK_SESSION_FAILED\<rparr>, d, [])"

definition sk_secure_session_feed_line :: "hmac \<Rightarrow> (string \<Rightarrow> json option) \<Rightarrow> int \<Rightarrow> string \<Rightarrow>
    sk_secure_session \<Rightarrow> ('n, 'x) sess_dev \<Rightarrow>
    sk_session_feed \<times> sk_secure_session \<times> ('n, 'x) sess_dev \<times> string list" where
  "sk_secure_session_feed_line H parse now line s d =
     (if sess_state s = SK_SESSION_AUTHENTICATED then (SK_SESSION_FEED_PASSTHROUGH, s, d, [])
      else if sess_state s \<noteq> SK_SESSION_AWAITING_PEER then (SK_SESSION_FEED_AUTH_INVALID, s, d, [])
      else case parse line of None \<Rightarrow> (SK_SESSION_FEED_AUTH_INVALID, s, d, [])
      | Some msg \<Rightarrow>
     (if jstr (jget msg ''cmd'') \<noteq> Some ''auth.response'' then invalid_feed s d
      else case (arg_of msg ''response'', arg_of msg ''challenge'') of
        (Some r, Some c) \<Rightarrow>
     (case (hex_to_bytes r SK_AUTH_RESPONSE_LEN, hex_to_bytes c SK_AUTH_CHALLENGE_LEN) of
        (Some peer_response, Some peer_challenge) \<Rightarrow>
     (case sk_auth_handshake_verify_peer H now peer_response (sd_auth d) (hs s) of (verr, h, a) \<Rightarrow>
      (let s = s\<lparr>hs := h\<rparr>; d = d\<lparr>sd_auth := a\<rparr> in
       if verr \<noteq> ESP_OK then invalid_feed s d
       else case sk_auth_handshake_answer H peer_challenge h of
         Inl _ \<Rightarrow> invalid_feed s d
       | Inr our_answer \<Rightarrow>
           (let needs_unlock = (sk_passphrase_is_set (sd_pw d) \<and> always_required (sk_passphrase_get_mode (sd_pw d)))
            in (SK_SESSION_FEED_AUTH_PROGRESSED,
                s\<lparr>sess_state := SK_SESSION_AUTHENTICATED, sess_replay := sk_auth_replay_ctx_reset (sess_replay s),
                  passphrase_unlocked := \<not> needs_unlock\<rparr>, d,
                [snprintf 96 (''{'' @ jk ''ok'' @ ''true,'' @ jk ''data'' @ ''{'' @ jk ''answer'' @
                   jq (bytes_to_hex our_answer) @ ''}}\<newline>'')] @
                (if needs_unlock then
                   [snprintf 80 (''{'' @ jk ''evt'' @ jq ''auth.passphrase.required'' @ '','' @ jk ''data'' @
                      ''{'' @ jk ''attempts_left'' @ dec_nat (sk_passphrase_attempts_left (sd_pw d)) @ ''}}\<newline>'')]
                 else [])))))
      | _ \<Rightarrow> invalid_feed s d)
      | _ \<Rightarrow> invalid_feed s d))"

definition sk_secure_session_timed_out :: "int \<Rightarrow> sk_secure_session \<Rightarrow> bool" where
  "sk_secure_session_timed_out now s =
     (if sess_state s \<noteq> SK_SESSION_AWAITING_PEER then False
      else now - started_us (hs s) > SK_SESSION_HANDSHAKE_TIMEOUT_US)"

section \<open>Signed envelopes\<close>

text \<open>What goes to the peer: a line of the session layer, or what the command line writes.\<close>

datatype sess_out = Line string | Cli "cli_ctx option" "cli_out list"

definition emit_hmac_err :: "string option \<Rightarrow> sess_out" where
  "emit_hmac_err params = Line (snprintf 160 (''{'' @ jk ''ok'' @ ''false,'' @ jk ''err'' @ jq ''ERR_HMAC_INVALID'' @
     (case params of None \<Rightarrow> [] | Some p \<Rightarrow> '','' @ jk ''params'' @ p) @ ''}\<newline>''))"

definition emit_session_locked :: "int \<Rightarrow> nat \<Rightarrow> sess_out" where
  "emit_session_locked rid left = Line (snprintf 160 (''{'' @ jk ''id'' @ dec_int rid @ '','' @ jk ''ok'' @ ''false,'' @
     jk ''err'' @ jq ''ERR_SESSION_LOCKED'' @ '','' @ jk ''params'' @ ''{'' @ jk ''attempts_left'' @
     dec_nat left @ ''}}\<newline>''))"

definition inner_id :: "json \<Rightarrow> int" where
  "inner_id msg = (case jget msg ''id'' of Some (JNum r) \<Rightarrow> trunc_rat r | _ \<Rightarrow> 0)"

definition inner_line :: "int \<Rightarrow> nat \<Rightarrow> string \<Rightarrow> sess_out" where
  "inner_line rid cap rest = Line (snprintf cap (''{'' @ jk ''id'' @ dec_int rid @ '','' @ rest @ ''}\<newline>''))"

type_synonym ('n, 'x) sess_res = "(sk_secure_session option \<times> ('n, 'x) sess_dev, sess_out list) outcome"

definition set_unlocked :: "sk_secure_session option \<Rightarrow> sk_secure_session option" where
  "set_unlocked s = map_option (\<lambda>s. s\<lparr>passphrase_unlocked := True\<rparr>) s"

text \<open>
  The interception of \<open>auth.passphrase.verify\<close>: \<open>None\<close> when the body is another command. At the lockout
  the call hangs in the subscriber of the passphrase component (its mutex is held), and the subscribers before it have
  run: \<open>sk_baseline\<close> erases its flag, \<open>sk_auth\<close> the bonds (\<open>main.c\<close> starts them in this order); the components
  after it are not reached. A call that finds the mutex held hangs before it publishes.
\<close>

definition session_passphrase_verify :: "hmac \<Rightarrow> 'n nvs_ops \<Rightarrow> (string \<Rightarrow> json option) \<Rightarrow> string \<Rightarrow>
    sk_secure_session option \<Rightarrow> ('n, 'x) sess_dev \<Rightarrow> ('n, 'x) sess_res option" where
  "session_passphrase_verify H N parse body s d =
     (case parse body of None \<Rightarrow> None
      | Some inner \<Rightarrow>
          (if jstr (jget inner ''cmd'') \<noteq> Some ''auth.passphrase.verify'' then None
           else Some
             (let rid = inner_id inner in
              case arg_of inner ''plain'' of
                None \<Rightarrow> Done (s, d) [] [inner_line rid 96 (jk ''ok'' @ ''false,'' @ jk ''err'' @ jq ''ERR_MISSING_ARG'')]
              | Some plain \<Rightarrow>
                  (case sk_passphrase_verify H N plain (sd_pw d) of
                     Blocked p e \<Rightarrow>
                       (if e = [] then Blocked (s, d\<lparr>sd_pw := p\<rparr>) []
                        else case auth_factory_reset N (sd_auth d) of (a, e2) \<Rightarrow>
                          Blocked (s, d\<lparr>sd_base := baseline_factory_reset N (sd_base d), sd_auth := a, sd_pw := p\<rparr>) (e @ e2))
                   | Restarted p e \<Rightarrow>
                       Restarted (s, d\<lparr>sd_base := baseline_factory_reset N (sd_base d),
                         sd_auth := fst (auth_factory_reset N (sd_auth d)), sd_pw := p\<rparr>) e
                   | Done p e (err, left) \<Rightarrow>
                       (let d = d\<lparr>sd_pw := p\<rparr>; n = (case left of Some n \<Rightarrow> n | None \<Rightarrow> 0) in
                        if err = ESP_OK then
                          Done (set_unlocked s, d) (e @ [Publish ''auth.passphrase.unlocked'' None])
                            [inner_line rid 96 (jk ''ok'' @ ''true,'' @ jk ''data'' @ ''{'' @ jk ''unlocked'' @
                               ''true,'' @ jk ''attempts_left'' @ dec_nat n @ ''}'')]
                        else if err = ESP_ERR_INVALID_RESPONSE then
                          Done (s, d) e
                            [inner_line rid 128 (jk ''ok'' @ ''false,'' @ jk ''err'' @ jq ''ERR_PASSPHRASE_INCORRECT'' @
                               '','' @ jk ''params'' @ ''{'' @ jk ''attempts_left'' @ dec_nat n @ ''}'')]
                        else if err = ESP_ERR_INVALID_STATE then
                          Done (set_unlocked s, d) e
                            [inner_line rid 96 (jk ''ok'' @ ''true,'' @ jk ''data'' @ ''{'' @ jk ''unlocked'' @
                               ''true,'' @ jk ''set'' @ ''false}'')]
                        else Done (s, d) e
                            [inner_line rid 96 (jk ''ok'' @ ''false,'' @ jk ''err'' @ jq ''ERR_INTERNAL'')])))))"

record envelope =
  env_body :: string
  env_sig :: string
  env_nonce :: u32
  env_ts :: int

definition read_envelope :: "json \<Rightarrow> envelope option" where
  "read_envelope env =
     (case (jstr (jget env ''body''), jstr (jget env ''sig''), jget env ''nonce'') of
        (Some body, Some sig, Some (JNum n)) \<Rightarrow>
          Some \<lparr> env_body = body, env_sig = sig, env_nonce = word_of_int (trunc_rat n),
            env_ts = (case jget env ''ts'' of Some (JNum t) \<Rightarrow> trunc_rat t | _ \<Rightarrow> 0) \<rparr>
      | _ \<Rightarrow> None)"

text \<open>
  The verification of an envelope: with the session's own bond and ring, or (no session, or one that
  has no bond) with the global ones; \<open>None\<close> is the null-pointer read of the global path.
\<close>

definition verify_envelope :: "hmac \<Rightarrow> int \<Rightarrow> envelope \<Rightarrow> u8 list \<Rightarrow> sk_secure_session option \<Rightarrow> ('n, 'x) sess_dev \<Rightarrow>
    (esp_err \<times> sk_secure_session option \<times> ('n, 'x) sess_dev) option" where
  "verify_envelope H now_wall env sig s d =
     (case s of
        Some x \<Rightarrow>
          (if bond_set (hs x) then
             (case sk_auth_verify_message_with H now_wall (hs_key (hs x)) (env_body env) (env_nonce env)
                (env_ts env) sig (sess_replay x) of (err, r) \<Rightarrow> Some (err, Some (x\<lparr>sess_replay := r\<rparr>), d))
           else map_option (\<lambda>(err, r). (err, s, d\<lparr>sd_ring := r\<rparr>))
             (sk_auth_verify_message H now_wall (sk_auth__has_token (sd_auth d)) (sk_auth__token_ptr (sd_auth d))
                (env_body env) (env_nonce env) (env_ts env) sig (sd_ring d)))
      | None \<Rightarrow> map_option (\<lambda>(err, r). (err, None, d\<lparr>sd_ring := r\<rparr>))
          (sk_auth_verify_message H now_wall (sk_auth__has_token (sd_auth d)) (sk_auth__token_ptr (sd_auth d))
             (env_body env) (env_nonce env) (env_ts env) sig (sd_ring d)))"

definition gate_open :: "sk_secure_session option \<Rightarrow> bool" where
  "gate_open s = (case s of None \<Rightarrow> True | Some x \<Rightarrow> passphrase_unlocked x)"

definition sk_secure_session_dispatch_signed :: "hmac \<Rightarrow> 'n nvs_ops \<Rightarrow> (string \<Rightarrow> json option) \<Rightarrow> bool \<Rightarrow>
    ('n, 'x) sess_dev command list \<Rightarrow> ('n, 'x) sess_dev issuer \<Rightarrow> int \<Rightarrow> string \<Rightarrow>
    sk_secure_session option \<Rightarrow> ('n, 'x) sess_dev \<Rightarrow> ('n, 'x) sess_res" where
  "sk_secure_session_dispatch_signed H N parse ready cmds issuer now_wall line s d =
     (case parse line of
        None \<Rightarrow> Done (s, d) [] [emit_hmac_err (Some (pass_reason ''json_parse''))]
      | Some env \<Rightarrow>
     (case read_envelope env of
        None \<Rightarrow> Done (s, d) [] [emit_hmac_err (Some (pass_reason ''missing_fields''))]
      | Some e \<Rightarrow>
     (case hex_to_bytes (env_sig e) SK_AUTH_HMAC_LEN of
        None \<Rightarrow> Done (s, d) [] [emit_hmac_err (Some (pass_reason ''sig_hex''))]
      | Some sig \<Rightarrow>
     (case verify_envelope H now_wall e sig s d of
        None \<Rightarrow> Restarted (s, d) []
      | Some (vres, s, d) \<Rightarrow>
     (if vres \<noteq> ESP_OK then Done (s, d) [] [emit_hmac_err None]
      else case session_passphrase_verify H N parse (env_body e) s d of
        Some r \<Rightarrow> r
      | None \<Rightarrow>
          (if \<not> gate_open s then
             Done (s, d) [] [emit_session_locked
               (case parse (env_body e) of None \<Rightarrow> 0 | Some inner \<Rightarrow> inner_id inner)
               (sk_passphrase_attempts_left (sd_pw d))]
           else
             (case sk_cli_dispatch_line_authenticated ready parse cmds issuer (env_body e) d of
                (d, ctx, outs) \<Rightarrow> Done (s, d) [] [Cli ctx outs])))))))"

end
