(* ===== verification/SkAuthProps.thy ===== *)
theory SkAuthProps
  imports SkAuth SkAuthHmacProps SkPassphraseProps
begin

text \<open>
  Properties of the bond table: the codec of the flash records, the agreement of the eight slots in
  RAM with their records in flash, and the refinement of a finite map from peers to keys with at
  most eight entries that survives every power cycle.
\<close>

section \<open>Simulation\<close>

text \<open>
  The contract between a component and its specification: each operation answers as the specified
  one does and takes the abstraction of the state where the specified one takes it.
\<close>

locale simulation =
  fixes cstep :: "'c \<Rightarrow> 'o \<Rightarrow> 'r \<times> 'c"
    and astep :: "'a \<Rightarrow> 'o \<Rightarrow> 'r \<times> 'a"
    and abs :: "'c \<Rightarrow> 'a"
    and inv :: "'c \<Rightarrow> bool"
    and ok :: "'o \<Rightarrow> bool"
  assumes step_inv: "inv c \<Longrightarrow> ok e \<Longrightarrow> inv (snd (cstep c e))"
    and step_res: "inv c \<Longrightarrow> ok e \<Longrightarrow> fst (cstep c e) = fst (astep (abs c) e)"
    and step_abs: "inv c \<Longrightarrow> ok e \<Longrightarrow> abs (snd (cstep c e)) = snd (astep (abs c) e)"

fun run_ops :: "('s \<Rightarrow> 'o \<Rightarrow> 'r \<times> 's) \<Rightarrow> 's \<Rightarrow> 'o list \<Rightarrow> 'r list \<times> 's" where
  "run_ops step s [] = ([], s)"
| "run_ops step s (e # es) =
     (case step s e of (r, s') \<Rightarrow> (case run_ops step s' es of (rs, s'') \<Rightarrow> (r # rs, s'')))"

lemma run_ops_Cons: "run_ops step s (e # es) =
    (fst (step s e) # fst (run_ops step (snd (step s e)) es), snd (run_ops step (snd (step s e)) es))"
  by (simp split: prod.splits)

context simulation
begin

lemma run_sim:
  "inv c \<Longrightarrow> \<forall>e \<in> set es. ok e \<Longrightarrow>
     inv (snd (run_ops cstep c es)) \<and> fst (run_ops cstep c es) = fst (run_ops astep (abs c) es) \<and>
     abs (snd (run_ops cstep c es)) = snd (run_ops astep (abs c) es)"
proof (induction es arbitrary: c)
  case (Cons e es)
  have "inv (snd (cstep c e))" "fst (cstep c e) = fst (astep (abs c) e)" "abs (snd (cstep c e)) = snd (astep (abs c) e)"
    using Cons.prems by (simp_all add: step_inv step_res step_abs)
  then show ?case using Cons.IH [of "snd (cstep c e)"] Cons.prems(2) by (simp only: run_ops_Cons) simp
qed simp

end

section \<open>The codec of a slot\<close>

definition bond_wf :: "bond_slot \<Rightarrow> bool" where
  "bond_wf s \<longleftrightarrow> occupied s \<and> length (peer_id s) = 16 \<and> length (bond_key s) = 32 \<and>
     length (label s) \<le> 24 \<and> CHR 0x00 \<notin> set (label s)"

lemma byte_split: "(ucast (ucast (v :: i64) :: u8) :: i64) OR push_bit 8 (drop_bit 8 v) = v"
proof (rule bit_word_eqI)
  fix n assume "n < LENGTH(64)"
  then show "bit ((ucast (ucast v :: u8) :: i64) OR push_bit 8 (drop_bit 8 v)) n = bit v n"
    by (cases "n < 8") (simp_all add: bit_simps)
qed

lemma le_word_suffix: "k \<le> 8 \<Longrightarrow> le_word (map (\<lambda>i. ucast (drop_bit (8 * i) w)) [k..<8]) = drop_bit (8 * k) w"
proof (induction "8 - k" arbitrary: k)
  case 0
  then show ?case by (simp add: drop_bit_word_beyond)
next
  case (Suc n)
  have "le_word (map (\<lambda>i. ucast (drop_bit (8 * i) w)) [k..<8]) =
      ucast (ucast (drop_bit (8 * k) w) :: u8) OR push_bit 8 (drop_bit (8 * (k + 1)) w)"
    using Suc.hyps(1) [of "k + 1"] Suc.hyps(2) by (simp add: upt_rec [of k])
  also have "drop_bit (8 * (k + 1)) w = drop_bit 8 (drop_bit (8 * k) w)" by (simp add: drop_bit_drop_bit add.commute)
  finally show ?case by (simp only: byte_split)
qed

lemma le_word_le_bytes: "le_word (le_bytes w) = w"
  unfolding le_bytes_def using le_word_suffix [of 0 w] by simp

lemma length_le_bytes: "length (le_bytes w) = 8"
  by (simp add: le_bytes_def)

lemma takeWhile_pad: "\<forall>x \<in> set xs. P x \<Longrightarrow> \<not> P y \<Longrightarrow> takeWhile P (xs @ replicate n y) = xs"
  by (induction xs) (cases n, auto)

lemma unat_of_char: "unat (of_char c :: u8) = of_char c"
proof -
  have "of_char c = (of_nat (of_char c) :: u8)" by (simp only: of_nat_of_char)
  moreover have "(of_char c :: nat) < 256" by simp
  ultimately show ?thesis by (simp add: unat_of_nat)
qed

lemma byte_of_char_zero: "(of_char c :: u8) = 0 \<longleftrightarrow> c = CHR 0x00"
proof
  assume "(of_char c :: u8) = 0"
  then have "(of_char c :: nat) = 0" using unat_of_char [of c] by (simp only: unat_0)
  then have "(of_char c :: nat) = of_char CHR 0x00" by simp
  then show "c = CHR 0x00" by (simp only: of_char_eq_iff)
qed simp

lemma byte_of_char: "char_of (unat (of_char c :: u8)) = c"
  by (simp add: unat_of_char)

lemma c_string_bytes: "CHR 0x00 \<notin> set s \<Longrightarrow> c_string (bytes s @ replicate n 0) = s"
proof -
  assume "CHR 0x00 \<notin> set s"
  then have "takeWhile (\<lambda>b. b \<noteq> 0) (bytes s @ replicate n 0) = bytes s"
    by (intro takeWhile_pad) (auto simp: bytes_def byte_of_char_zero)
  then show ?thesis by (simp add: c_string_def bytes_def byte_of_char comp_def)
qed

lemma length_bytes: "length (bytes s) = length s"
  by (simp add: bytes_def)

interpretation bond_record: codec slot_record_pack
  "\<lambda>r. if length r = SLOT_RECORD_SIZE then Some (slot_record_unpack r) else None" bond_wf
proof unfold_locales
  fix s :: bond_slot assume w: "bond_wf s"
  have "take 24 (bytes (label s) @ replicate (25 - length (label s)) 0) =
      bytes (label s) @ replicate (24 - length (label s)) 0"
    using w by (simp add: bond_wf_def length_bytes min_def)
  then have "slot_record_unpack (slot_record_pack s) = s" using w
    by (cases s) (simp add: bond_wf_def slot_record_unpack_def slot_record_pack_def Let_def
        SK_AUTH_PEER_ID_LEN_def SK_AUTH_TOKEN_LEN_def SK_AUTH_BOND_LABEL_MAX_def c_string_bytes
        length_bytes length_le_bytes le_word_le_bytes)
  moreover have "length (slot_record_pack s) = SLOT_RECORD_SIZE" using w
    by (simp add: bond_wf_def slot_record_pack_def SLOT_RECORD_SIZE_def SK_AUTH_PEER_ID_LEN_def
        SK_AUTH_TOKEN_LEN_def SK_AUTH_BOND_LABEL_MAX_def bytes_def length_le_bytes)
  ultimately show "(if length (slot_record_pack s) = SLOT_RECORD_SIZE
      then Some (slot_record_unpack (slot_record_pack s)) else None) = Some s" by simp
qed

section \<open>The table as a map\<close>

type_synonym bond_map = "u8 list \<rightharpoonup> nat \<times> u8 list \<times> string \<times> i64"

definition bond_data :: "bond_slot \<Rightarrow> u8 list \<times> string \<times> i64" where
  "bond_data s = (bond_key s, label s, paired_at_unix s)"

definition bonds_of :: "bond_slot list \<Rightarrow> bond_map" where
  "bonds_of ss p = map_option (\<lambda>i. (i, bond_data (ss ! i))) (find_index (\<lambda>s. occupied s \<and> peer_id s = p) ss)"

definition one_per_peer :: "bond_slot list \<Rightarrow> bool" where
  "one_per_peer ss \<longleftrightarrow> (\<forall>i < length ss. \<forall>j < length ss.
     occupied (ss ! i) \<longrightarrow> occupied (ss ! j) \<longrightarrow> peer_id (ss ! i) = peer_id (ss ! j) \<longrightarrow> i = j)"

text \<open>The slots a map uses, and the map with a slot emptied.\<close>

definition used :: "bond_map \<Rightarrow> nat set" where
  "used m = fst ` ran m"

definition without :: "nat \<Rightarrow> bond_map \<Rightarrow> bond_map" where
  "without i m p = (case m p of Some (j, d) \<Rightarrow> if j = i then None else Some (j, d) | None \<Rightarrow> None)"

lemma find_index_Some: "find_index P xs = Some i \<longleftrightarrow> i < length xs \<and> P (xs ! i) \<and> (\<forall>j < i. \<not> P (xs ! j))"
proof (induction xs arbitrary: i)
  case (Cons x xs)
  then show ?case by (cases i) (auto simp: less_Suc_eq_0_disj)
qed simp

lemma find_index_None: "find_index P xs = None \<longleftrightarrow> (\<forall>x \<in> set xs. \<not> P x)"
  by (induction xs) auto

lemma find_index_unique:
  assumes "i < length xs" "P (xs ! i)" "\<And>j. j < length xs \<Longrightarrow> P (xs ! j) \<Longrightarrow> j = i"
  shows "find_index P xs = Some i"
proof -
  have "\<not> P (xs ! j)" if "j < i" for j using assms(1) assms(3) [of j] that by force
  then show ?thesis using assms(1,2) by (simp add: find_index_Some)
qed

lemma bonds_of_iff:
  assumes "one_per_peer ss"
  shows "bonds_of ss p = Some (i, d) \<longleftrightarrow>
    i < length ss \<and> occupied (ss ! i) \<and> peer_id (ss ! i) = p \<and> d = bond_data (ss ! i)"
proof
  assume "i < length ss \<and> occupied (ss ! i) \<and> peer_id (ss ! i) = p \<and> d = bond_data (ss ! i)"
  moreover from this have "find_index (\<lambda>s. occupied s \<and> peer_id s = p) ss = Some i"
    using assms by (intro find_index_unique) (auto simp: one_per_peer_def)
  ultimately show "bonds_of ss p = Some (i, d)" by (simp add: bonds_of_def)
qed (auto simp: bonds_of_def find_index_Some)

lemma bonds_of_None: "bonds_of ss p = None \<longleftrightarrow> (\<forall>s \<in> set ss. \<not> (occupied s \<and> peer_id s = p))"
  by (simp add: bonds_of_def find_index_None)

lemma map_eqI_bonds: "(\<And>p i d. m p = Some (i, d) \<longleftrightarrow> n p = Some (i, d)) \<Longrightarrow> m = (n :: bond_map)"
proof
  fix p assume *: "\<And>p i d. m p = Some (i, d) \<longleftrightarrow> n p = Some (i, d)"
  show "m p = n p" using *[of p] by (cases "m p"; cases "n p") auto
qed

lemma used_char: "i \<in> used m \<longleftrightarrow> (\<exists>p d. m p = Some (i, d))"
proof
  assume "i \<in> used m"
  then obtain x p where "m p = Some x" "i = fst x" by (auto simp: used_def ran_def)
  then show "\<exists>p d. m p = Some (i, d)" by (cases x) auto
next
  assume "\<exists>p d. m p = Some (i, d)"
  then obtain p d where "m p = Some (i, d)" by blast
  then have "(i, d) \<in> ran m" by (rule ranI)
  then show "i \<in> used m" unfolding used_def by (rule rev_image_eqI) simp
qed

lemma used_iff: "one_per_peer ss \<Longrightarrow> i \<in> used (bonds_of ss) \<longleftrightarrow> i < length ss \<and> occupied (ss ! i)"
  by (simp add: used_char bonds_of_iff)

lemma used_upto: "one_per_peer ss \<Longrightarrow> used (bonds_of ss) = {i. i < length ss \<and> occupied (ss ! i)}"
  using used_iff by auto

lemma without_iff: "without i m p = Some (j, d) \<longleftrightarrow> m p = Some (j, d) \<and> j \<noteq> i"
  by (auto simp: without_def split: option.splits)

text \<open>What one slot changed in the table is in the map.\<close>

lemma one_per_peer_update:
  assumes "one_per_peer ss" "i < length ss"
    and "occupied s \<Longrightarrow> \<forall>j < length ss. j \<noteq> i \<longrightarrow> occupied (ss ! j) \<longrightarrow> peer_id (ss ! j) \<noteq> peer_id s"
  shows "one_per_peer (ss[i := s])"
  using assms unfolding one_per_peer_def by (metis length_list_update nth_list_update_eq nth_list_update_neq)

lemma bonds_of_store:
  assumes one: "one_per_peer ss" and i: "i < length ss" and s: "occupied s"
    and fresh: "\<forall>j < length ss. j \<noteq> i \<longrightarrow> occupied (ss ! j) \<longrightarrow> peer_id (ss ! j) \<noteq> peer_id s"
  shows "bonds_of (ss[i := s]) = (without i (bonds_of ss))(peer_id s \<mapsto> (i, bond_data s))"
proof (rule map_eqI_bonds)
  fix p j d
  have u: "one_per_peer (ss[i := s])" by (rule one_per_peer_update [OF one i fresh])
  show "bonds_of (ss[i := s]) p = Some (j, d) \<longleftrightarrow>
      ((without i (bonds_of ss))(peer_id s \<mapsto> (i, bond_data s))) p = Some (j, d)"
    using fresh i s by (cases "j = i") (auto simp: bonds_of_iff [OF u] bonds_of_iff [OF one] without_iff)
qed

lemma bonds_of_drop:
  assumes one: "one_per_peer ss" and i: "i < length ss" and s: "\<not> occupied s"
  shows "bonds_of (ss[i := s]) = without i (bonds_of ss)"
proof (rule map_eqI_bonds)
  fix p j d
  have u: "one_per_peer (ss[i := s])" by (rule one_per_peer_update [OF one i]) (simp add: s)
  show "bonds_of (ss[i := s]) p = Some (j, d) \<longleftrightarrow> without i (bonds_of ss) p = Some (j, d)"
    using i s by (cases "j = i") (auto simp: bonds_of_iff [OF u] bonds_of_iff [OF one] without_iff)
qed

lemma without_unused: "i \<notin> used m \<Longrightarrow> without i m = m"
  by (rule map_eqI_bonds) (auto simp: without_iff used_char)

lemma without_own:
  assumes "one_per_peer ss" "i < length ss" "occupied (ss ! i)" "peer_id (ss ! i) = p"
  shows "(without i (bonds_of ss))(p \<mapsto> x) = (bonds_of ss)(p \<mapsto> x)"
proof
  fix p'
  show "((without i (bonds_of ss))(p \<mapsto> x)) p' = ((bonds_of ss)(p \<mapsto> x)) p'"
    using assms by (cases "bonds_of ss p'") (auto simp: without_def bonds_of_iff)
qed

text \<open>Counting: the peers, the used slots and the occupied records are equally many.\<close>

lemma card_occupied: "card {i. i < length ss \<and> occupied (ss ! i)} = length (filter occupied ss)"
  by (rule length_filter_conv_card [symmetric])

lemma card_dom: 
  assumes "one_per_peer ss"
  shows "card (dom (bonds_of ss)) = length (filter occupied ss)"
proof -
  let ?U = "{i. i < length ss \<and> occupied (ss ! i)}"
  have "dom (bonds_of ss) = (\<lambda>i. peer_id (ss ! i)) ` ?U"
    using bonds_of_iff [OF assms] by (auto simp: dom_def)
  moreover have "inj_on (\<lambda>i. peer_id (ss ! i)) ?U"
    using assms by (auto simp: inj_on_def one_per_peer_def)
  ultimately show ?thesis by (simp add: card_image card_occupied)
qed

lemma full_iff: "length (filter P xs) = length xs \<longleftrightarrow> find_index (\<lambda>x. \<not> P x) xs = None"
  by (auto simp: find_index_None) (metis filter_id_conv length_filter_less less_irrefl)+

lemma first_free:
  assumes one: "one_per_peer ss" and f: "find_index (\<lambda>s. \<not> occupied s) ss = Some i"
  shows "(LEAST j. j \<notin> used (bonds_of ss)) = i"
  using f by (intro Least_equality) (auto simp: find_index_Some used_iff [OF one] not_less [symmetric])

section \<open>Flash\<close>

definition slot_image :: "bond_slot \<Rightarrow> nvs_val option" where
  "slot_image s = (if occupied s then Some (NvBlob (slot_record_pack s)) else None)"

definition flash_agrees :: "'n nvs_ops \<Rightarrow> 'n \<Rightarrow> bond_slot list \<Rightarrow> bool" where
  "flash_agrees N n ss \<longleftrightarrow> nv_get N n NVS_AUTH ''token'' = None \<and>
     (\<forall>i < length ss. nv_get N n NVS_AUTH (bond_nvs_key i) = slot_image (ss ! i))"

lemma bond_nvs_keys: "map bond_nvs_key [0..<8] = [''bond.0'', ''bond.1'', ''bond.2'', ''bond.3'',
    ''bond.4'', ''bond.5'', ''bond.6'', ''bond.7'']"
  by code_simp

lemma bond_nvs_key_inj: "i < 8 \<Longrightarrow> j < 8 \<Longrightarrow> bond_nvs_key i = bond_nvs_key j \<longleftrightarrow> i = j"
proof -
  have d: "distinct (map bond_nvs_key [0..<8])" by (simp only: bond_nvs_keys) simp
  assume "i < 8" "j < 8"
  then show ?thesis using nth_eq_iff_index_eq [OF d, of i j] by simp
qed

lemma bond_nvs_key_token: "i < 8 \<Longrightarrow> bond_nvs_key i \<noteq> ''token''"
proof -
  assume "i < 8"
  then have "bond_nvs_key i \<in> set (map bond_nvs_key [0..<8])" by simp
  then show ?thesis unfolding bond_nvs_keys by auto
qed

text \<open>On a healthy flash saving a slot makes its record what the slot is, and nothing else.\<close>

lemma slot_save_lawful:
  assumes N: "nvs_lawful N" and i: "slot < 8"
  shows "\<exists>n. slot_save N slot a = (ESP_OK, a\<lparr>aflash := n\<rparr>) \<and>
    (\<forall>ns k. nv_get N n ns k = (if ns = NVS_AUTH \<and> k = bond_nvs_key slot then slot_image (bslots a ! slot)
       else nv_get N (aflash a) ns k))"
proof (cases "occupied (bslots a ! slot)")
  case True
  let ?v = "NvBlob (slot_record_pack (bslots a ! slot))"
  obtain e n where s: "nv_set N (aflash a) NVS_AUTH (bond_nvs_key slot) ?v = (e, n)" by fastforce
  have "e = ESP_OK" using nvs_set_ok [OF N, of "aflash a" NVS_AUTH "bond_nvs_key slot" ?v] s by simp
  moreover have "nv_get N n ns k = (if ns = NVS_AUTH \<and> k = bond_nvs_key slot then Some ?v else nv_get N (aflash a) ns k)"
    for ns k using nvs_get_set [OF N, of "aflash a" NVS_AUTH "bond_nvs_key slot" ?v ns k] s by simp
  ultimately show ?thesis using i True s N
    by (intro exI [of _ "nv_commit N n NVS_AUTH"])
      (auto simp: slot_save_def SK_AUTH_BOND_SLOT_COUNT_def nvs_open_rw nvs_get_commit slot_image_def)
next
  case False
  obtain e n where s: "nv_erase_key N (aflash a) NVS_AUTH (bond_nvs_key slot) = (e, n)" by fastforce
  have "e = ESP_OK \<or> e = ESP_ERR_NVS_NOT_FOUND"
    using nvs_erase_key_res [OF N, of "aflash a" NVS_AUTH "bond_nvs_key slot"] s by simp
  moreover have "nv_get N n ns k = (if ns = NVS_AUTH \<and> k = bond_nvs_key slot then None else nv_get N (aflash a) ns k)"
    for ns k using nvs_get_erase_key [OF N, of "aflash a" NVS_AUTH "bond_nvs_key slot" ns k] s by simp
  ultimately show ?thesis using i False s N
    by (intro exI [of _ "nv_commit N n NVS_AUTH"])
      (auto simp: slot_save_def SK_AUTH_BOND_SLOT_COUNT_def nvs_open_rw nvs_get_commit slot_image_def)
qed

lemma flash_agrees_save:
  assumes N: "nvs_lawful N" and f: "flash_agrees N (aflash a) ss" and l: "length ss = 8" and i: "slot < 8"
    and b: "bslots a = ss[slot := s]"
  shows "\<exists>n. slot_save N slot a = (ESP_OK, a\<lparr>aflash := n\<rparr>) \<and> flash_agrees N n (bslots a)"
proof -
  obtain n where n: "slot_save N slot a = (ESP_OK, a\<lparr>aflash := n\<rparr>)"
    and g: "\<And>ns k. nv_get N n ns k = (if ns = NVS_AUTH \<and> k = bond_nvs_key slot
       then slot_image (bslots a ! slot) else nv_get N (aflash a) ns k)"
    using slot_save_lawful [OF N i, of a] by blast
  have "flash_agrees N n (bslots a)"
    using f l i unfolding flash_agrees_def b
    by (auto simp: g b nth_list_update bond_nvs_key_inj dest: bond_nvs_key_token [OF i, THEN not_sym, THEN notE])
  then show ?thesis using n by blast
qed

definition slot_ok :: "bond_slot \<Rightarrow> bool" where
  "slot_ok s \<longleftrightarrow> s = empty_bond \<or> bond_wf s"

lemma slot_ok_empty [simp]: "slot_ok empty_bond" "\<not> occupied empty_bond"
  by (simp_all add: slot_ok_def empty_bond_def)

lemma load_slot_image:
  assumes "get_blob N n NVS_AUTH k = None \<and> s = empty_bond \<or>
    get_blob N n NVS_AUTH k = Some (slot_record_pack s) \<and> bond_wf s"
  shows "(case get_blob N n NVS_AUTH k of
      Some r \<Rightarrow> if length r = SLOT_RECORD_SIZE then slot_record_unpack r else empty_bond
    | None \<Rightarrow> empty_bond) = s"
  using assms bond_record.dec_enc [of s] by (auto split: if_splits)

lemma load_slots_image:
  "\<forall>j < length ss. nv_get N n NVS_AUTH (bond_nvs_key (i + j)) = slot_image (ss ! j) \<Longrightarrow> \<forall>s \<in> set ss. slot_ok s \<Longrightarrow>
     load_slots N n i (replicate (length ss) empty_bond) = ss"
proof (induction ss arbitrary: i)
  case (Cons s ss)
  have "nv_get N n NVS_AUTH (bond_nvs_key i) = slot_image s" using Cons.prems(1) by force
  then have "(case get_blob N n NVS_AUTH (bond_nvs_key i) of
      Some r \<Rightarrow> if length r = SLOT_RECORD_SIZE then slot_record_unpack r else empty_bond
    | None \<Rightarrow> empty_bond) = s"
    using Cons.prems(2) by (intro load_slot_image) (auto simp: get_blob_def slot_image_def slot_ok_def bond_wf_def)
  moreover have "load_slots N n (i + 1) (replicate (length ss) empty_bond) = ss"
    using Cons.prems by (intro Cons.IH) force+
  ultimately show ?case by simp
qed simp

lemma reload:
  assumes N: "nvs_lawful N" and f: "flash_agrees N n ss" and l: "length ss = 8" and ok: "\<forall>s \<in> set ss. slot_ok s"
  shows "migrate_legacy_token N (slot_load_all N (auth_static n)) = (auth_static n)\<lparr>bslots := ss\<rparr>"
proof -
  have "slot_load_all N (auth_static n) = (auth_static n)\<lparr>bslots := ss\<rparr>"
  proof (cases "nv_open_ro N n NVS_AUTH = ESP_OK")
    case True
    have "load_slots N n 0 (replicate (length ss) empty_bond) = ss"
      using f ok by (intro load_slots_image) (auto simp: flash_agrees_def)
    then show ?thesis using True l by (simp add: slot_load_all_def auth_static_def SK_AUTH_BOND_SLOT_COUNT_def)
  next
    case False
    have "nv_get N n NVS_AUTH k = None" for k
      using False nvs_open_ro [OF N] by (cases "nv_get N n NVS_AUTH k") auto
    then have none: "slot_image (ss ! i) = None" if "i < 8" for i using f l that by (simp add: flash_agrees_def)
    have "ss ! i = empty_bond" if i: "i < 8" for i
    proof -
      have "slot_ok (ss ! i)" using i l ok by simp
      then show ?thesis using none [OF i] by (auto simp: slot_ok_def slot_image_def bond_wf_def split: if_splits)
    qed
    then have "ss = replicate 8 empty_bond" using l by (intro nth_equalityI) auto
    then show ?thesis using False by (simp add: slot_load_all_def auth_static_def SK_AUTH_BOND_SLOT_COUNT_def)
  qed
  moreover have "get_blob N n NVS_AUTH ''token'' = None" using f by (simp add: flash_agrees_def get_blob_def)
  ultimately show ?thesis using N
    by (simp add: migrate_legacy_token_def nvs_open_rw auth_static_def)
qed

section \<open>The specification\<close>

record bond_spec =
  held :: bond_map
  sel :: "nat option"

datatype bond_op =
    BAdd int "u8 list" "u8 list" "string option"
  | BRemove nat
  | BClear
  | BRotate "u8 list"
  | BActivate nat
  | BLookup "u8 list"
  | BCount
  | BPowerCycle esp_err

datatype bond_resp = Code esp_err | Stored esp_err "nat option" | Found esp_err "(u8 list \<times> nat) option" | Count nat

fun bond_do :: "'n nvs_ops \<Rightarrow> 'n auth \<Rightarrow> bond_op \<Rightarrow> bond_resp \<times> 'n auth" where
  "bond_do N a (BAdd now p k l) = (case sk_auth_bond_add N now p k l a of (err, slot, a, e) \<Rightarrow> (Stored err slot, a))"
| "bond_do N a (BRemove i) = (case sk_auth_bond_remove N i a of (err, a, e) \<Rightarrow> (Code err, a))"
| "bond_do N a BClear = (case sk_auth_clear_all N a of (a, e) \<Rightarrow> (Code ESP_OK, a))"
| "bond_do N a (BRotate k) = (case sk_auth_rotate_token N k a of (err, a, e) \<Rightarrow> (Code err, a))"
| "bond_do N a (BActivate i) = (Code ESP_OK, sk_auth__activate_slot i a)"
| "bond_do N a (BLookup p) = (case sk_auth_bond_lookup p a of (err, r) \<Rightarrow> (Found err r, a))"
| "bond_do N a BCount = (Count (sk_auth_bond_count a), a)"
| "bond_do N a (BPowerCycle t) = (Code ESP_OK, fst (sk_auth_init N t (aflash a)))"

text \<open>
  What is promised: a map with at most eight peers. A peer that is known keeps its slot and gets the
  new key; a new one gets the lowest free slot. Rotation replaces the key of the selected slot, of
  slot 0 when none is. A power cycle forgets the selection only.
\<close>

definition spec_store :: "u8 list \<Rightarrow> nat \<Rightarrow> u8 list \<times> string \<times> i64 \<Rightarrow> bond_spec \<Rightarrow> bond_resp \<times> bond_spec" where
  "spec_store p i d m = (Stored ESP_OK (Some i), m\<lparr>held := (held m)(p \<mapsto> (i, d))\<rparr>)"

fun bond_spec_do :: "bond_spec \<Rightarrow> bond_op \<Rightarrow> bond_resp \<times> bond_spec" where
  "bond_spec_do m (BAdd now p k l) =
     (let d = (k, (case l of Some s \<Rightarrow> take 24 s | None \<Rightarrow> []), word_of_int now) in
      case held m p of
        Some (i, _) \<Rightarrow> spec_store p i d m
      | None \<Rightarrow> if card (dom (held m)) \<ge> 8 then (Stored ESP_ERR_NO_MEM None, m)
                else spec_store p (LEAST i. i \<notin> used (held m)) d m)"
| "bond_spec_do m (BRemove i) =
     (if i \<ge> 8 then (Code ESP_ERR_INVALID_ARG, m)
      else if i \<notin> used (held m) then (Code ESP_ERR_NOT_FOUND, m)
      else (Code ESP_OK, m\<lparr>held := without i (held m), sel := (if sel m = Some i then None else sel m)\<rparr>))"
| "bond_spec_do m BClear = (Code ESP_OK, \<lparr> held = Map.empty, sel = None \<rparr>)"
| "bond_spec_do m (BRotate k) =
     (let t = (case sel m of Some i \<Rightarrow> i | None \<Rightarrow> 0) in
      if t \<notin> used (held m) then (Code ESP_ERR_INVALID_STATE, m)
      else (Code ESP_OK, m\<lparr>held := (\<lambda>p. map_option (\<lambda>(i, k', d). (i, if i = t then k else k', d)) (held m p))\<rparr>))"
| "bond_spec_do m (BActivate i) = (Code ESP_OK, if i \<in> used (held m) then m\<lparr>sel := Some i\<rparr> else m)"
| "bond_spec_do m (BLookup p) =
     ((case held m p of None \<Rightarrow> Found ESP_ERR_NOT_FOUND None | Some (i, k, _) \<Rightarrow> Found ESP_OK (Some (k, i))), m)"
| "bond_spec_do m BCount = (Count (card (dom (held m))), m)"
| "bond_spec_do m (BPowerCycle t) = (Code ESP_OK, m\<lparr>sel := None\<rparr>)"

definition bond_abs :: "'n auth \<Rightarrow> bond_spec" where
  "bond_abs a = \<lparr> held = bonds_of (bslots a), sel = (if active_set a then Some (active_slot a) else None) \<rparr>"

fun bond_op_ok :: "bond_op \<Rightarrow> bool" where
  "bond_op_ok (BAdd now p k l) \<longleftrightarrow> length p = 16 \<and> length k = 32 \<and> (\<forall>s. l = Some s \<longrightarrow> CHR 0x00 \<notin> set s)"
| "bond_op_ok (BRotate k) \<longleftrightarrow> length k = 32"
| "bond_op_ok _ \<longleftrightarrow> True"

definition auth_inv :: "'n nvs_ops \<Rightarrow> 'n auth \<Rightarrow> bool" where
  "auth_inv N a \<longleftrightarrow> length (bslots a) = 8 \<and> one_per_peer (bslots a) \<and> (\<forall>s \<in> set (bslots a). slot_ok s) \<and>
     flash_agrees N (aflash a) (bslots a) \<and>
     (active_set a \<longrightarrow> active_slot a < 8 \<and> occupied (bslots a ! active_slot a)) \<and>
     (\<not> active_set a \<longrightarrow> active_slot a = 255)"

lemma auth_invD:
  assumes "auth_inv N a"
  shows "length (bslots a) = 8" "one_per_peer (bslots a)" "\<forall>s \<in> set (bslots a). slot_ok s"
    "flash_agrees N (aflash a) (bslots a)" "active_set a \<Longrightarrow> active_slot a < 8 \<and> occupied (bslots a ! active_slot a)"
    "\<not> active_set a \<Longrightarrow> active_slot a = 255"
  using assms by (simp_all add: auth_inv_def)

section \<open>The operations implement the specification\<close>

lemma inv_store:
  assumes N: "nvs_lawful N" and a: "auth_inv N a" and i: "slot < 8" and s: "slot_ok s"
    and fresh: "occupied s \<Longrightarrow> \<forall>j < 8. j \<noteq> slot \<longrightarrow> occupied (bslots a ! j) \<longrightarrow> peer_id (bslots a ! j) \<noteq> peer_id s"
    and b: "bslots b = (bslots a)[slot := s]" "aflash b = aflash a"
    and act: "active_set b \<Longrightarrow> active_slot b < 8 \<and> occupied (bslots b ! active_slot b)" "\<not> active_set b \<Longrightarrow> active_slot b = 255"
  shows "\<exists>n. slot_save N slot b = (ESP_OK, b\<lparr>aflash := n\<rparr>) \<and> auth_inv N (b\<lparr>aflash := n\<rparr>)"
proof -
  note inv = auth_invD [OF a]
  obtain n where n: "slot_save N slot b = (ESP_OK, b\<lparr>aflash := n\<rparr>)" "flash_agrees N n (bslots b)"
    using flash_agrees_save [OF N _ inv(1) i, of b s] inv(4) b by auto
  have "one_per_peer (bslots b)" unfolding b(1)
    by (rule one_per_peer_update) (use inv i fresh in auto)
  moreover have "\<forall>x \<in> set (bslots b). slot_ok x"
    using inv(3) s set_update_subset_insert [of "bslots a" slot s] by (auto simp: b(1))
  moreover have "length (bslots b) = 8" using inv(1) by (simp add: b(1))
  ultimately have "auth_inv N (b\<lparr>aflash := n\<rparr>)" using n(2) act by (simp add: auth_inv_def)
  then show ?thesis using n(1) by blast
qed

lemma find_slot_None:
  "length (bslots a) = 8 \<Longrightarrow> find_slot_by_peer p a = None \<longleftrightarrow> (\<forall>j < 8. occupied (bslots a ! j) \<longrightarrow> peer_id (bslots a ! j) \<noteq> p)"
  by (auto simp: find_slot_by_peer_def find_index_None all_set_conv_all_nth)

lemma held_find: "held (bond_abs a) p = map_option (\<lambda>i. (i, bond_data (bslots a ! i))) (find_slot_by_peer p a)"
  by (simp add: bond_abs_def bonds_of_def find_slot_by_peer_def)

definition new_bond :: "int \<Rightarrow> u8 list \<Rightarrow> u8 list \<Rightarrow> string option \<Rightarrow> bond_slot" where
  "new_bond now p k l = \<lparr> occupied = True, peer_id = p, bond_key = k,
     label = (case l of Some s \<Rightarrow> take SK_AUTH_BOND_LABEL_MAX s | None \<Rightarrow> []), paired_at_unix = word_of_int now \<rparr>"

lemma slot_ok_new: "bond_op_ok (BAdd now p k l) \<Longrightarrow> slot_ok (new_bond now p k l)"
  by (auto simp: slot_ok_def bond_wf_def new_bond_def SK_AUTH_BOND_LABEL_MAX_def split: option.splits dest: in_set_takeD)

text \<open>Storing a bond in its slot: the own one of the peer, or a free one when the peer has none.\<close>

lemma add_in_slot:
  assumes N: "nvs_lawful N" and a: "auth_inv N a" and i: "slot < 8" and ok: "bond_op_ok (BAdd now p k l)"
    and fresh: "\<forall>j < 8. j \<noteq> slot \<longrightarrow> occupied (bslots a ! j) \<longrightarrow> peer_id (bslots a ! j) \<noteq> p"
    and own: "occupied (bslots a ! slot) \<Longrightarrow> peer_id (bslots a ! slot) = p"
    and pick: "or_else (find_slot_by_peer p a) (find_first_free_slot a) = Some slot"
  shows "fst (bond_do N a (BAdd now p k l)) = Stored ESP_OK (Some slot)"
    and "auth_inv N (snd (bond_do N a (BAdd now p k l)))"
    and "bond_abs (snd (bond_do N a (BAdd now p k l))) =
      (bond_abs a)\<lparr>held := (held (bond_abs a))(p \<mapsto> (slot, bond_data (new_bond now p k l)))\<rparr>"
proof -
  let ?s = "new_bond now p k l"
  let ?b = "a\<lparr>bslots := (bslots a)[slot := ?s]\<rparr>"
  note inv = auth_invD [OF a]
  have act: "occupied (bslots ?b ! active_slot ?b) \<and> active_slot ?b < 8" if "active_set ?b"
    using that inv(1,5) i by (cases "active_slot a = slot") (auto simp: new_bond_def)
  obtain n where n: "slot_save N slot ?b = (ESP_OK, ?b\<lparr>aflash := n\<rparr>)" "auth_inv N (?b\<lparr>aflash := n\<rparr>)"
    using inv_store [OF N a i slot_ok_new [OF ok], of ?b] fresh act inv(6) by (auto simp: new_bond_def)
  have d: "bond_do N a (BAdd now p k l) = (Stored ESP_OK (Some slot), ?b\<lparr>aflash := n\<rparr>)"
    using pick n(1) by (simp add: sk_auth_bond_add_def Let_def new_bond_def [symmetric])
  show "fst (bond_do N a (BAdd now p k l)) = Stored ESP_OK (Some slot)"
    and "auth_inv N (snd (bond_do N a (BAdd now p k l)))" using d n(2) by simp_all
  have "bonds_of ((bslots a)[slot := ?s]) = (without slot (bonds_of (bslots a)))(p \<mapsto> (slot, bond_data ?s))"
    using bonds_of_store [OF inv(2), of slot ?s] inv(1) i fresh by (simp add: new_bond_def)
  also have "\<dots> = (bonds_of (bslots a))(p \<mapsto> (slot, bond_data ?s))"
  proof (cases "occupied (bslots a ! slot)")
    case True
    then show ?thesis using without_own [OF inv(2), of slot p] inv(1) i own by simp
  next
    case False
    then show ?thesis by (simp add: without_unused used_iff [OF inv(2)])
  qed
  finally show "bond_abs (snd (bond_do N a (BAdd now p k l))) =
      (bond_abs a)\<lparr>held := (held (bond_abs a))(p \<mapsto> (slot, bond_data ?s))\<rparr>"
    using d by (simp add: bond_abs_def)
qed

lemma add_refines:
  assumes N: "nvs_lawful N" and a: "auth_inv N a" and ok: "bond_op_ok (BAdd now p k l)"
  shows "auth_inv N (snd (bond_do N a (BAdd now p k l))) \<and>
    fst (bond_do N a (BAdd now p k l)) = fst (bond_spec_do (bond_abs a) (BAdd now p k l)) \<and>
    bond_abs (snd (bond_do N a (BAdd now p k l))) = snd (bond_spec_do (bond_abs a) (BAdd now p k l))"
proof -
  note inv = auth_invD [OF a]
  have data: "bond_data (new_bond now p k l) = (k, (case l of Some s \<Rightarrow> take 24 s | None \<Rightarrow> []), word_of_int now)"
    by (simp add: bond_data_def new_bond_def SK_AUTH_BOND_LABEL_MAX_def split: option.split)
  show ?thesis
  proof (cases "find_slot_by_peer p a")
    case (Some slot)
    then have i: "slot < 8" "occupied (bslots a ! slot)" "peer_id (bslots a ! slot) = p"
      using inv(1) by (simp_all add: find_slot_by_peer_def find_index_Some)
    have fresh: "\<forall>j < 8. j \<noteq> slot \<longrightarrow> occupied (bslots a ! j) \<longrightarrow> peer_id (bslots a ! j) \<noteq> p"
      using inv(1,2) i unfolding one_per_peer_def by metis
    have "bond_spec_do (bond_abs a) (BAdd now p k l) = spec_store p slot (bond_data (new_bond now p k l)) (bond_abs a)"
      by (simp add: held_find Some data Let_def)
    then show ?thesis using add_in_slot [OF N a i(1) ok fresh] i Some by (simp add: spec_store_def del: bond_do.simps)
  next
    case None
    then have no: "\<forall>j < 8. occupied (bslots a ! j) \<longrightarrow> peer_id (bslots a ! j) \<noteq> p"
      using find_slot_None [OF inv(1)] by blast
    have card: "card (dom (held (bond_abs a))) = length (filter occupied (bslots a))"
      by (simp add: bond_abs_def card_dom [OF inv(2)])
    show ?thesis
    proof (cases "find_first_free_slot a")
      case full: None
      then have "card (dom (held (bond_abs a))) = 8"
        using full_iff [of occupied "bslots a"] inv(1) by (simp add: card find_first_free_slot_def)
      then show ?thesis using None full a by (simp add: held_find sk_auth_bond_add_def)
    next
      case (Some slot)
      then have i: "slot < 8" "\<not> occupied (bslots a ! slot)"
        using inv(1) by (simp_all add: find_first_free_slot_def find_index_Some)
      have "card (dom (held (bond_abs a))) \<noteq> 8"
        using full_iff [of occupied "bslots a"] inv(1) Some by (simp add: card find_first_free_slot_def)
      moreover have "card (dom (held (bond_abs a))) \<le> 8"
        using length_filter_le [of occupied "bslots a"] inv(1) by (simp add: card)
      moreover have "(LEAST j. j \<notin> used (held (bond_abs a))) = slot"
        using first_free [OF inv(2)] Some by (simp add: bond_abs_def find_first_free_slot_def)
      ultimately have "bond_spec_do (bond_abs a) (BAdd now p k l) =
          spec_store p slot (bond_data (new_bond now p k l)) (bond_abs a)"
        by (simp add: held_find None data Let_def)
      then show ?thesis using add_in_slot [OF N a i(1) ok] no i None Some by (simp add: spec_store_def del: bond_do.simps)
    qed
  qed
qed

lemma remove_refines:
  assumes N: "nvs_lawful N" and a: "auth_inv N a"
  shows "auth_inv N (snd (bond_do N a (BRemove i))) \<and>
    fst (bond_do N a (BRemove i)) = fst (bond_spec_do (bond_abs a) (BRemove i)) \<and>
    bond_abs (snd (bond_do N a (BRemove i))) = snd (bond_spec_do (bond_abs a) (BRemove i))"
proof -
  note inv = auth_invD [OF a]
  have u: "i \<in> used (held (bond_abs a)) \<longleftrightarrow> i < 8 \<and> occupied (bslots a ! i)"
    using inv(1) by (simp add: bond_abs_def used_iff [OF inv(2)])
  show ?thesis
  proof (cases "i < 8 \<and> occupied (bslots a ! i)")
    case False
    then show ?thesis using u a by (auto simp: sk_auth_bond_remove_def SK_AUTH_BOND_SLOT_COUNT_def)
  next
    case True
    let ?b = "a\<lparr>bslots := (bslots a)[i := empty_bond]\<rparr>"
    define c where "c = (if active_slot a = i then sk_auth_active_bond_clear ?b else ?b)"
    have ne: "active_slot a \<noteq> i" if "\<not> active_set a" using inv(6) that True by auto
    have c: "bslots c = (bslots a)[i := empty_bond]" "aflash c = aflash a"
      "active_set c \<longleftrightarrow> active_set a \<and> active_slot a \<noteq> i" "active_slot c = (if active_slot a = i then 255 else active_slot a)"
      using ne by (auto simp: c_def sk_auth_active_bond_clear_def SK_AUTH_BOND_SLOT_INVALID_def)
    have "\<exists>n. slot_save N i c = (ESP_OK, c\<lparr>aflash := n\<rparr>) \<and> auth_inv N (c\<lparr>aflash := n\<rparr>)"
      by (rule inv_store [OF N a _ slot_ok_empty(1) _ c(1,2)]) (use True inv(5,6) c in auto)
    then obtain n where n: "slot_save N i c = (ESP_OK, c\<lparr>aflash := n\<rparr>)" "auth_inv N (c\<lparr>aflash := n\<rparr>)" by blast
    have d: "bond_do N a (BRemove i) = (Code ESP_OK, c\<lparr>aflash := n\<rparr>)"
      using True n(1) by (simp add: sk_auth_bond_remove_def Let_def SK_AUTH_BOND_SLOT_COUNT_def not_le [symmetric] c_def)
    have "bonds_of ((bslots a)[i := empty_bond]) = without i (bonds_of (bslots a))"
      using bonds_of_drop [OF inv(2)] True inv(1) by simp
    then have "bond_abs (c\<lparr>aflash := n\<rparr>) = snd (bond_spec_do (bond_abs a) (BRemove i))"
      using True u ne c by (auto simp: bond_abs_def)
    then show ?thesis using d n(2) True u by (simp del: bond_do.simps)
  qed
qed

lemma bonds_of_key:
  assumes one: "one_per_peer ss" and i: "i < length ss" and o: "occupied (ss ! i)"
  shows "bonds_of (ss[i := (ss ! i)\<lparr>bond_key := k\<rparr>]) =
    (\<lambda>p. map_option (\<lambda>(j, k', d). (j, if j = i then k else k', d)) (bonds_of ss p))"
proof -
  let ?s = "(ss ! i)\<lparr>bond_key := k\<rparr>"
  have fresh: "\<forall>j < length ss. j \<noteq> i \<longrightarrow> occupied (ss ! j) \<longrightarrow> peer_id (ss ! j) \<noteq> peer_id ?s"
    using one i o unfolding one_per_peer_def by simp metis
  have u: "one_per_peer (ss[i := ?s])" by (rule one_per_peer_update [OF one i fresh])
  show ?thesis
  proof (rule map_eqI_bonds)
    fix p j d
    have "(map_option (\<lambda>(j, k', d). (j, if j = i then k else k', d)) (bonds_of ss p) = Some (j, d)) \<longleftrightarrow>
        (\<exists>k' d'. bonds_of ss p = Some (j, k', d') \<and> d = (if j = i then k else k', d'))"
      by (cases "bonds_of ss p") auto
    then show "bonds_of (ss[i := ?s]) p = Some (j, d) \<longleftrightarrow>
        map_option (\<lambda>(j, k', d). (j, if j = i then k else k', d)) (bonds_of ss p) = Some (j, d)"
      using i o by (cases "j = i") (auto simp: bonds_of_iff [OF u] bonds_of_iff [OF one] bond_data_def)
  qed
qed

lemma rotate_refines:
  assumes N: "nvs_lawful N" and a: "auth_inv N a" and k: "length k = 32"
  shows "auth_inv N (snd (bond_do N a (BRotate k))) \<and>
    fst (bond_do N a (BRotate k)) = fst (bond_spec_do (bond_abs a) (BRotate k)) \<and>
    bond_abs (snd (bond_do N a (BRotate k))) = snd (bond_spec_do (bond_abs a) (BRotate k))"
proof -
  note inv = auth_invD [OF a]
  define t where "t = (if active_set a then active_slot a else 0)"
  have sel: "(case sel (bond_abs a) of Some i \<Rightarrow> i | None \<Rightarrow> 0) = t" by (simp add: t_def bond_abs_def)
  have t: "t < 8" using inv(5) by (auto simp: t_def)
  have u: "t \<in> used (held (bond_abs a)) \<longleftrightarrow> occupied (bslots a ! t)"
    using inv(1) t by (simp add: bond_abs_def used_iff [OF inv(2)])
  show ?thesis
  proof (cases "occupied (bslots a ! t)")
    case False
    then show ?thesis using u a t sel
      by (simp add: sk_auth_rotate_token_def t_def [symmetric] Let_def)
  next
    case True
    let ?s = "(bslots a ! t)\<lparr>bond_key := k\<rparr>"
    let ?b = "a\<lparr>bslots := (bslots a)[t := ?s]\<rparr>"
    define c where "c = (if active_set ?b \<and> active_slot ?b = t then ?b\<lparr>active_key := k\<rparr> else ?b)"
    have c: "bslots c = (bslots a)[t := ?s]" "aflash c = aflash a" "active_set c = active_set a"
      "active_slot c = active_slot a" by (simp_all add: c_def)
    have "bslots a ! t \<in> set (bslots a)" using inv(1) t by simp
    then have s: "slot_ok ?s" using True inv(3) k by (auto simp: slot_ok_def bond_wf_def)
    have fresh: "\<forall>j < 8. j \<noteq> t \<longrightarrow> occupied (bslots a ! j) \<longrightarrow> peer_id (bslots a ! j) \<noteq> peer_id ?s"
      using inv(1,2) t True unfolding one_per_peer_def by simp metis
    have act: "occupied ((bslots a)[t := ?s] ! active_slot a)" if "active_set a"
      using that inv(1,5) True by (cases "active_slot a = t") auto
    have "\<exists>n. slot_save N t c = (ESP_OK, c\<lparr>aflash := n\<rparr>) \<and> auth_inv N (c\<lparr>aflash := n\<rparr>)"
      by (rule inv_store [OF N a t s fresh c(1,2)]) (use inv True c act in auto)
    then obtain n where n: "slot_save N t c = (ESP_OK, c\<lparr>aflash := n\<rparr>)" "auth_inv N (c\<lparr>aflash := n\<rparr>)" by blast
    have d: "bond_do N a (BRotate k) = (Code ESP_OK, c\<lparr>aflash := n\<rparr>)"
      using True n(1) t
      by (simp add: sk_auth_rotate_token_def t_def [symmetric] Let_def SK_AUTH_BOND_SLOT_COUNT_def not_le [symmetric] c_def split: if_splits)
    have "bond_abs (c\<lparr>aflash := n\<rparr>) = snd (bond_spec_do (bond_abs a) (BRotate k))"
      using True u sel bonds_of_key [OF inv(2), of t k] inv(1) t c by (auto simp: bond_abs_def Let_def)
    then show ?thesis using d n(2) True u sel by (simp del: bond_do.simps add: Let_def)
  qed
qed

lemma clear_refines:
  assumes N: "nvs_lawful N"
  shows "auth_inv N (snd (bond_do N a BClear))" "bond_abs (snd (bond_do N a BClear)) = \<lparr> held = Map.empty, sel = None \<rparr>"
proof -
  have "bonds_of (replicate 8 empty_bond) = Map.empty"
    by (rule ext) (auto simp: bonds_of_None)
  then show "auth_inv N (snd (bond_do N a BClear))" "bond_abs (snd (bond_do N a BClear)) = \<lparr> held = Map.empty, sel = None \<rparr>"
    using N by (simp_all add: auth_inv_def bond_abs_def sk_auth_clear_all_def pending_clear_def sk_auth_active_bond_clear_def
        Let_def nvs_open_rw flash_agrees_def nvs_get_commit nvs_get_erase_all slot_image_def one_per_peer_def
        SK_AUTH_BOND_SLOT_COUNT_def SK_AUTH_BOND_SLOT_INVALID_def)
qed

lemma open_pairing_keeps:
  "\<exists>pt po. fst (snd (sk_auth_open_pairing_mode r t a)) = a\<lparr>pair_timer := pt, pairing_open := po\<rparr>"
proof -
  have "a = a\<lparr>pair_timer := pair_timer a, pairing_open := pairing_open a\<rparr>" by simp
  then have "\<exists>pt po. a = a\<lparr>pair_timer := pt, pairing_open := po\<rparr>" by blast
  moreover have "\<exists>pt po. a\<lparr>pair_timer := True, pairing_open := True\<rparr> = a\<lparr>pair_timer := pt, pairing_open := po\<rparr>" by blast
  ultimately show ?thesis unfolding sk_auth_open_pairing_mode_def Let_def by simp
qed

lemma auth_inv_pairing [simp]: "auth_inv N (a\<lparr>pair_timer := pt, pairing_open := po\<rparr>) = auth_inv N a"
  by (simp add: auth_inv_def)

lemma bond_abs_pairing [simp]: "bond_abs (a\<lparr>pair_timer := pt, pairing_open := po\<rparr>) = bond_abs a"
  by (simp add: bond_abs_def)

text \<open>Start-up on a flash that agrees with a table brings the table back, with nothing selected.\<close>

lemma init_state:
  assumes N: "nvs_lawful N" and f: "flash_agrees N n ss" and l: "length ss = 8" and ok: "\<forall>s \<in> set ss. slot_ok s"
  shows "\<exists>pt po. fst (sk_auth_init N t n) = (auth_static n)\<lparr>bslots := ss\<rparr>\<lparr>pair_timer := pt, pairing_open := po\<rparr>"
proof (cases "sk_auth_has_bond ((auth_static n)\<lparr>bslots := ss\<rparr>)")
  case True
  have "(auth_static n)\<lparr>bslots := ss\<rparr> = (auth_static n)\<lparr>bslots := ss\<rparr>\<lparr>pair_timer := False, pairing_open := False\<rparr>"
    by (simp add: auth_static_def)
  moreover have "fst (sk_auth_init N t n) = (auth_static n)\<lparr>bslots := ss\<rparr>"
    using True reload [OF N f l ok] by (simp add: sk_auth_init_def Let_def)
  ultimately show ?thesis by metis
next
  case False
  then show ?thesis using open_pairing_keeps [of t 60 "(auth_static n)\<lparr>bslots := ss\<rparr>"] reload [OF N f l ok]
    by (simp add: sk_auth_init_def Let_def)
qed

lemma init_refines:
  assumes N: "nvs_lawful N" and f: "flash_agrees N n ss" and l: "length ss = 8" and ok: "\<forall>s \<in> set ss. slot_ok s"
    and one: "one_per_peer ss"
  shows "auth_inv N (fst (sk_auth_init N t n)) \<and> bslots (fst (sk_auth_init N t n)) = ss \<and>
    bond_abs (fst (sk_auth_init N t n)) = \<lparr> held = bonds_of ss, sel = None \<rparr>"
proof -
  let ?a = "(auth_static n)\<lparr>bslots := ss\<rparr>"
  have "auth_inv N ?a" "bond_abs ?a = \<lparr> held = bonds_of ss, sel = None \<rparr>"
    using f l ok one by (simp_all add: auth_inv_def bond_abs_def auth_static_def SK_AUTH_BOND_SLOT_INVALID_def)
  then show ?thesis using init_state [OF N f l ok, of t] by auto
qed

lemma activate_refines:
  assumes a: "auth_inv N a"
  shows "auth_inv N (sk_auth__activate_slot i a) \<and>
    bond_abs (sk_auth__activate_slot i a) = snd (bond_spec_do (bond_abs a) (BActivate i))"
proof -
  note inv = auth_invD [OF a]
  have u: "i \<in> used (held (bond_abs a)) \<longleftrightarrow> i < 8 \<and> occupied (bslots a ! i)"
    using inv(1) by (simp add: bond_abs_def used_iff [OF inv(2)])
  then show ?thesis using a
    by (auto simp: sk_auth__activate_slot_def SK_AUTH_BOND_SLOT_COUNT_def auth_inv_def bond_abs_def)
qed

lemma bond_op_refines:
  assumes N: "nvs_lawful N" and a: "auth_inv N a" and ok: "bond_op_ok e"
  shows "auth_inv N (snd (bond_do N a e)) \<and> fst (bond_do N a e) = fst (bond_spec_do (bond_abs a) e) \<and>
    bond_abs (snd (bond_do N a e)) = snd (bond_spec_do (bond_abs a) e)"
proof (cases e)
  case (BLookup p)
  have "bond_spec_do (bond_abs a) e = ((case find_slot_by_peer p a of None \<Rightarrow> Found ESP_ERR_NOT_FOUND None
      | Some i \<Rightarrow> Found ESP_OK (Some (bond_key (bslots a ! i), i))), bond_abs a)"
    by (cases "find_slot_by_peer p a") (simp_all add: BLookup held_find bond_data_def)
  then show ?thesis using a BLookup
    by (cases "find_slot_by_peer p a") (simp_all add: sk_auth_bond_lookup_def)
next
  case BCount
  then show ?thesis using a auth_invD(2) [OF a]
    by (simp add: sk_auth_bond_count_def bond_abs_def card_dom)
next
  case (BPowerCycle t)
  then show ?thesis
    using init_refines [OF N auth_invD(4) [OF a] auth_invD(1) [OF a] auth_invD(3) [OF a] auth_invD(2) [OF a], of t]
    by (simp add: bond_abs_def)
next
  case BClear
  then show ?thesis using clear_refines [OF N, of a] by (simp split: prod.splits)
next
  case (BActivate i)
  then show ?thesis using activate_refines [OF a, of i] by simp
qed (use add_refines [OF N a] remove_refines [OF N a] rotate_refines [OF N a] ok in \<open>simp_all del: bond_do.simps bond_spec_do.simps\<close>)

interpretation bonds: simulation "bond_do N" bond_spec_do bond_abs "auth_inv N" "\<lambda>e. nvs_lawful N \<and> bond_op_ok e"
  for N
  by unfold_locales (use bond_op_refines in auto)

text \<open>
  C13: The bond store is a map from peers to keys of at most eight entries that survives power
  failures. Starting on a device that never paired, every sequence of additions, removals by slot,
  unpairings, key rotations, activations, look-ups, counts and power cycles is answered as that map
  answers it: a known peer keeps its slot and gets the new key, a new peer gets the lowest free slot
  or \<open>ESP_ERR_NO_MEM\<close> when eight are bonded, a removed or cleared peer is not found again, not even
  after a power cycle, and a key that was stored is the key found after any number of them.
\<close>

theorem bond_table_refines:
  assumes "nvs_lawful N" and "\<forall>k. nv_get N n NVS_AUTH k = None" and "\<forall>e \<in> set ops. bond_op_ok e"
  shows "fst (run_ops (bond_do N) (fst (sk_auth_init N t n)) ops) =
    fst (run_ops bond_spec_do \<lparr> held = Map.empty, sel = None \<rparr> ops)"
proof -
  let ?ss = "replicate 8 empty_bond"
  have "flash_agrees N n ?ss" using assms(2) by (simp add: flash_agrees_def slot_image_def)
  moreover have "bonds_of ?ss = Map.empty" by (rule ext) (auto simp: bonds_of_None)
  ultimately have "auth_inv N (fst (sk_auth_init N t n))" "bond_abs (fst (sk_auth_init N t n)) = \<lparr> held = Map.empty, sel = None \<rparr>"
    using init_refines [OF assms(1), of n ?ss t] by (simp_all add: one_per_peer_def)
  then show ?thesis using bonds.run_sim [of N "fst (sk_auth_init N t n)" ops] assms by simp
qed

theorem bond_table_refines_witness:
  "fst (run_ops (bond_do nvs_map_ops) (fst (sk_auth_init nvs_map_ops ESP_OK (\<lambda>_. None)))
      [BAdd 5 (replicate 16 1) (replicate 32 7) (Some ''phone''), BPowerCycle ESP_OK, BLookup (replicate 16 1),
       BRemove 0, BPowerCycle ESP_OK, BLookup (replicate 16 1)]) =
    [Stored ESP_OK (Some 0), Code ESP_OK, Found ESP_OK (Some (replicate 32 7, 0)), Code ESP_OK, Code ESP_OK,
     Found ESP_ERR_NOT_FOUND None]"
proof -
  have "fst (run_ops bond_spec_do \<lparr> held = Map.empty, sel = None \<rparr>
      [BAdd 5 (replicate 16 1) (replicate 32 7) (Some ''phone''), BPowerCycle ESP_OK, BLookup (replicate 16 1),
       BRemove 0, BPowerCycle ESP_OK, BLookup (replicate 16 1)]) =
    [Stored ESP_OK (Some 0), Code ESP_OK, Found ESP_OK (Some (replicate 32 7, 0)), Code ESP_OK, Code ESP_OK,
     Found ESP_ERR_NOT_FOUND None]"
    by (simp add: spec_store_def used_def without_def)
  then show ?thesis
    using bond_table_refines [of nvs_map_ops "\<lambda>_. None"
        "[BAdd 5 (replicate 16 1) (replicate 32 7) (Some ''phone''), BPowerCycle ESP_OK, BLookup (replicate 16 1),
         BRemove 0, BPowerCycle ESP_OK, BLookup (replicate 16 1)]" ESP_OK]
    by (simp add: nvs_map_lawful) (simp add: nvs_map_ops_def)
qed

text \<open>
  Without the flash the store is not a map: a bond whose record could not be written is reported as
  an error and still found, until the power goes.
\<close>

lemma unsaved_bond_is_live:
  assumes "length (bslots a) = 8" and "or_else (find_slot_by_peer p a) (find_first_free_slot a) = Some i"
    and "nv_open_rw N (aflash a) NVS_AUTH = ESP_FAIL"
  shows "\<exists>a'. sk_auth_bond_add N now p k l a = (ESP_FAIL, None, a', []) \<and> fst (sk_auth_bond_lookup p a') = ESP_OK"
proof -
  let ?a = "a\<lparr>bslots := (bslots a)[i := new_bond now p k l]\<rparr>"
  have "find_slot_by_peer p a = Some i \<or> find_first_free_slot a = Some i"
    using assms(2) by (cases "find_slot_by_peer p a") auto
  then have i: "i < 8" using assms(1) by (auto simp: find_slot_by_peer_def find_first_free_slot_def find_index_Some)
  have "slot_save N i ?a = (ESP_FAIL, ?a)"
    using i assms(3) by (simp add: slot_save_def SK_AUTH_BOND_SLOT_COUNT_def)
  then have "sk_auth_bond_add N now p k l a = (ESP_FAIL, None, ?a, [])"
    using assms(2) by (simp add: sk_auth_bond_add_def Let_def new_bond_def [symmetric])
  moreover have "find_slot_by_peer p ?a \<noteq> None"
    using i assms(1) by (auto simp: find_slot_None new_bond_def intro!: exI [of _ i])
  ultimately show ?thesis by (auto simp: sk_auth_bond_lookup_def)
qed

end
