(* ===== verification/SkPairingProps.thy ===== *)
theory SkPairingProps
  imports SkPairing SkAuthProps
begin

text \<open>
  Properties of the pairing dialogue over runs of events: lines of peers, presses of the button, the
  closing of the window and power cycles. While a passphrase gates the pairing no dialogue bonds a
  peer that does not say it; one that does is bonded with the key the exchange derived.
\<close>

section \<open>Runs\<close>

datatype pair_ev = PairLine int string | ShortPress esp_err | WindowTimeout | PairPowerCycle esp_err

definition pair_boot :: "'n nvs_ops \<Rightarrow> esp_err \<Rightarrow> 'n pair_dev \<Rightarrow> 'n pair_dev" where
  "pair_boot N t d = \<lparr> pd_auth = fst (sk_auth_init N t (aflash (pd_auth d))), pd_pw = sk_passphrase_init N (pflash (pd_pw d)) \<rparr>"

text \<open>
  The state: whether the task hangs, and the device. A task that hangs runs again after a power cycle.
  The answer of a step is the result of the dialogue, when there is one.
\<close>

fun pair_step :: "hmac \<Rightarrow> 'n nvs_ops \<Rightarrow> ecdh_ops \<Rightarrow> (string \<Rightarrow> json option) \<Rightarrow> bool \<times> 'n pair_dev \<Rightarrow> pair_ev \<Rightarrow>
    sk_auth_pairing_result option \<times> (bool \<times> 'n pair_dev)" where
  "pair_step H N E parse (hung, d) (PairPowerCycle t) = (None, (False, pair_boot N t d))"
| "pair_step H N E parse (True, d) ev = (None, (True, d))"
| "pair_step H N E parse (False, d) (PairLine now line) =
     (case sk_auth_pairing_dispatch_line H N E parse now line d of
        Done d' e (out, r) \<Rightarrow> (Some r, (False, d'))
      | Blocked d' e \<Rightarrow> (None, (True, d'))
      | Restarted d' e \<Rightarrow> (None, (False, pair_boot N ESP_OK d')))"
| "pair_step H N E parse (False, d) (ShortPress t) =
     (None, (False, d\<lparr>pd_auth := fst (on_control_short_press t (pd_auth d))\<rparr>))"
| "pair_step H N E parse (False, d) WindowTimeout =
     (None, (False, d\<lparr>pd_auth := fst (pair_timeout_cb (pd_auth d))\<rparr>))"

text \<open>The passphrase a line offers.\<close>

definition guess_in :: "(string \<Rightarrow> json option) \<Rightarrow> string \<Rightarrow> string option" where
  "guess_in parse line = (case parse line of None \<Rightarrow> None
     | Some msg \<Rightarrow> if jstr (jget msg ''cmd'') = Some ''pairing.passphrase.verify'' then arg_of msg ''plain'' else None)"

fun offers :: "(string \<Rightarrow> json option) \<Rightarrow> pair_ev \<Rightarrow> string option" where
  "offers parse (PairLine now line) = guess_in parse line"
| "offers parse _ = None"

lemma run_ops_safe:
  assumes "\<And>s e. I s \<Longrightarrow> ok e \<Longrightarrow> I (snd (step s e)) \<and> P (fst (step s e))"
  shows "I s \<Longrightarrow> \<forall>e \<in> set es. ok e \<Longrightarrow> I (snd (run_ops step s es)) \<and> (\<forall>r \<in> set (fst (run_ops step s es)). P r)"
proof (induction es arbitrary: s)
  case (Cons e es)
  have "I (snd (step s e)) \<and> P (fst (step s e))" using assms Cons.prems by simp
  then show ?case using Cons.IH [of "snd (step s e)"] Cons.prems(2) by (simp add: run_ops_Cons del: run_ops.simps)
qed simp

section \<open>The gate\<close>

definition gated :: "'n nvs_ops \<Rightarrow> 'n passphrase \<Rightarrow> 'n passphrase \<Rightarrow> bool" where
  "gated N s0 s \<longleftrightarrow> kept N s0 s \<and> mode_bits s = mode_bits s0"

lemma gated_fields [simp]:
  "gated N s0 (s\<lparr>pass_mtx := b\<rparr>) = gated N s0 s" "gated N s0 (give_mtx s) = gated N s0 s"
  by (simp_all add: gated_def)

lemma gated_counted: "nvs_lawful N \<Longrightarrow> gated N s0 s \<Longrightarrow> gated N s0 (counted N c s)"
  by (simp add: gated_def kept_counted)

lemma gated_gate: "gated N s0 s \<Longrightarrow> has_pass s0 \<Longrightarrow> pairing_gate s = pairing_gate s0"
  by (simp add: gated_def kept_def pairing_gate_def sk_passphrase_is_set_def sk_passphrase_get_mode_def)

lemma gated_boot: "nvs_lawful N \<Longrightarrow> gated N s0 s \<Longrightarrow> gated N s0 (sk_passphrase_init N (pflash s)) \<and>
    \<not> pass_mtx (sk_passphrase_init N (pflash s))"
  by (simp add: gated_def kept_def pass_power_cycle)

lemma verify_wrong:
  assumes H: "hmac_lawful H" and N: "nvs_lawful N" and k: "gated N s0 s" and m: "\<not> pass_mtx s" and w: "\<not> right_guess H p s0"
  shows "\<exists>s'. gated N s0 s' \<and>
    ((\<exists>e n. sk_passphrase_verify H N p s = Done s' e (ESP_ERR_INVALID_RESPONSE, n) \<and> \<not> pass_mtx s') \<or>
     (\<exists>e n. sk_passphrase_verify H N p s = Done s' e (ESP_FAIL, n) \<and> \<not> pass_mtx s') \<or>
     (\<exists>e. sk_passphrase_verify H N p s = Blocked s' e))"
proof -
  let ?s = "s\<lparr>pass_mtx := True\<rparr>"
  have k': "kept N s0 ?s" using k by (simp add: gated_def)
  have g: "gated N s0 (counted N (bump (fail_count s)) ?s)" using k gated_counted [OF N, of s0 ?s] by simp
  have m': "pass_mtx ?s" by simp
  from wrong_guess [OF H N k' w m'] show ?thesis
  proof (elim disjE conjE exE)
    fix e assume "verify_internal H N p True ?s = Done (counted N (bump (fail_count ?s)) ?s) e
      (ESP_ERR_INVALID_RESPONSE, Some (10 - unat (bump (fail_count ?s))))"
    then show ?thesis using g m
      by (intro exI [of _ "give_mtx (counted N (bump (fail_count s)) ?s)"]) (simp add: sk_passphrase_verify_def take_free)
  next
    assume "verify_internal H N p True ?s = Done ?s [] (ESP_FAIL, None)"
    then show ?thesis using k m
      by (intro exI [of _ "give_mtx ?s"]) (simp add: sk_passphrase_verify_def take_free)
  next
    fix e assume "verify_internal H N p True ?s = Blocked (counted N (bump (fail_count ?s)) ?s) e"
    then show ?thesis using g m
      by (intro exI [of _ "counted N (bump (fail_count s)) ?s"]) (simp add: sk_passphrase_verify_def take_free)
  qed
qed

text \<open>What a line may do to the device while the gate is armed and the line does not open it.\<close>

definition only_pending :: "'n pair_dev \<Rightarrow> 'n pair_res \<Rightarrow> bool" where
  "only_pending d r \<longleftrightarrow> (\<exists>pb out x. r = Done (d\<lparr>pd_auth := (pd_auth d)\<lparr>pending := pb\<rparr>\<rparr>) [] (out, x) \<and> x \<noteq> SK_AUTH_PAIRING_OK)"

lemma only_pending_done: "x \<noteq> SK_AUTH_PAIRING_OK \<Longrightarrow> only_pending d (pair_done d [] line x)"
  unfolding only_pending_def pair_done_def by (rule exI [of _ "pending (pd_auth d)"]) simp

lemma only_pending_set: "x \<noteq> SK_AUTH_PAIRING_OK \<Longrightarrow>
    only_pending d (pair_done (d\<lparr>pd_auth := (pd_auth d)\<lparr>pending := pb\<rparr>\<rparr>) [] line x)"
  unfolding only_pending_def pair_done_def by (rule exI [of _ pb]) simp

lemma exchange_gated:
  assumes "pairing_gate (pd_pw d)"
  shows "only_pending d (handle_ecdh_exchange N E now msg d)"
proof (cases "arg_of msg ''peer_pub''")
  case None
  then show ?thesis by (simp add: handle_ecdh_exchange_def only_pending_done)
next
  case pub: (Some pub)
  show ?thesis
  proof (cases "hex_to_bytes pub SK_AUTH_ECDH_PUBLIC_LEN")
    case None
    with pub show ?thesis by (simp add: handle_ecdh_exchange_def only_pending_done)
  next
    case peer: (Some peer_pub)
    show ?thesis
    proof (cases "sk_auth_ecdh_begin E")
      case None
      with pub peer show ?thesis by (simp add: handle_ecdh_exchange_def Let_def only_pending_done)
    next
      case (Some c)
      with pub peer assms show ?thesis
        by (cases "sk_auth_ecdh_derive E peer_pub c")
          (simp add: handle_ecdh_exchange_def Let_def only_pending_done only_pending_set del: bond_do.simps)
    qed
  qed
qed

definition gate_inv :: "'n nvs_ops \<Rightarrow> 'n pair_dev \<Rightarrow> bool \<times> 'n pair_dev \<Rightarrow> bool" where
  "gate_inv N d0 = (\<lambda>(hung, d). auth_inv N (pd_auth d) \<and> gated N (pd_pw d0) (pd_pw d) \<and>
     (\<not> hung \<longrightarrow> \<not> pass_mtx (pd_pw d)) \<and>
     (bslots (pd_auth d) = bslots (pd_auth d0) \<or> bslots (pd_auth d) = replicate 8 empty_bond))"

lemma gate_inv_boot:
  assumes N: "nvs_lawful N" and d: "gate_inv N d0 (hung, d)"
  shows "gate_inv N d0 (False, pair_boot N t d)"
proof -
  have a: "auth_inv N (pd_auth d)" using d by (simp add: gate_inv_def)
  note inv = auth_invD [OF a]
  show ?thesis using init_refines [OF N inv(4,1,3,2), of t] gated_boot [OF N, of "pd_pw d0" "pd_pw d"] d
    by (simp add: gate_inv_def pair_boot_def)
qed

lemma gate_inv_clear:
  assumes N: "nvs_lawful N" and s: "gated N (pd_pw d0) s" and d: "gate_inv N d0 (False, d)"
  shows "gate_inv N d0 (True, d\<lparr>pd_auth := fst (auth_factory_reset N (pd_auth d)), pd_pw := s\<rparr>)"
proof -
  have "bslots (fst (sk_auth_clear_all N (pd_auth d))) = replicate 8 empty_bond"
    by (simp add: sk_auth_clear_all_def Let_def pending_clear_def sk_auth_active_bond_clear_def SK_AUTH_BOND_SLOT_COUNT_def)
  moreover have "auth_inv N (fst (sk_auth_clear_all N (pd_auth d)))"
    using clear_refines(1) [OF N, of "pd_auth d"] by (simp split: prod.splits)
  ultimately show ?thesis using s by (simp add: gate_inv_def auth_factory_reset_def)
qed

lemma gate_inv_pending: "gate_inv N d0 (h, d\<lparr>pd_auth := (pd_auth d)\<lparr>pending := pb\<rparr>\<rparr>) = gate_inv N d0 (h, d)"
  by (simp add: gate_inv_def auth_inv_def)

lemma gate_inv_pw: "gate_inv N d0 (False, d) \<Longrightarrow> gated N (pd_pw d0) s \<Longrightarrow> \<not> pass_mtx s \<Longrightarrow> gate_inv N d0 (False, d\<lparr>pd_pw := s\<rparr>)"
  "gate_inv N d0 (False, d) \<Longrightarrow> gated N (pd_pw d0) s \<Longrightarrow> gate_inv N d0 (True, d\<lparr>pd_pw := s\<rparr>)"
  by (simp_all add: gate_inv_def)

text \<open>What is kept of a line: the invariant of the state it leaves, and no bond reported.\<close>

definition line_safe :: "'n nvs_ops \<Rightarrow> 'n pair_dev \<Rightarrow> 'n pair_res \<Rightarrow> bool" where
  "line_safe N d0 r = (case r of Done d e (out, x) \<Rightarrow> gate_inv N d0 (False, d) \<and> x \<noteq> SK_AUTH_PAIRING_OK
     | Blocked d e \<Rightarrow> gate_inv N d0 (True, d) | Restarted d e \<Rightarrow> False)"

lemma only_pending_safe: "gate_inv N d0 (False, d) \<Longrightarrow> only_pending d r \<Longrightarrow> line_safe N d0 r"
  by (auto simp: only_pending_def line_safe_def gate_inv_pending)

lemma verify_line_safe:
  assumes H: "hmac_lawful H" and N: "nvs_lawful N" and d: "gate_inv N d0 (False, d)"
    and w: "\<And>p. arg_of msg ''plain'' = Some p \<Longrightarrow> \<not> right_guess H p (pd_pw d0)"
  shows "line_safe N d0 (handle_passphrase_verify H N now msg d)"
proof (cases "pend_active (pending (pd_auth d)) \<and> arg_of msg ''plain'' \<noteq> None")
  case False
  then have "only_pending d (handle_passphrase_verify H N now msg d)"
    by (auto simp: handle_passphrase_verify_def only_pending_done)
  with d show ?thesis by (rule only_pending_safe)
next
  case True
  then obtain p where p: "arg_of msg ''plain'' = Some p" by blast
  have k: "gated N (pd_pw d0) (pd_pw d)" "\<not> pass_mtx (pd_pw d)" using d by (simp_all add: gate_inv_def)
  obtain s where s: "gated N (pd_pw d0) s"
    and o: "(\<exists>e n. sk_passphrase_verify H N p (pd_pw d) = Done s e (ESP_ERR_INVALID_RESPONSE, n) \<and> \<not> pass_mtx s) \<or>
     (\<exists>e n. sk_passphrase_verify H N p (pd_pw d) = Done s e (ESP_FAIL, n) \<and> \<not> pass_mtx s) \<or>
     (\<exists>e. sk_passphrase_verify H N p (pd_pw d) = Blocked s e)"
    using verify_wrong [OF H N k w [OF p]] by blast
  note pw = gate_inv_pw [OF d s]
  have cl: "gate_inv N d0 (True, d\<lparr>pd_auth := fst (auth_factory_reset N (pd_auth d)), pd_pw := s\<rparr>)"
    by (rule gate_inv_clear [OF N s d])
  from o show ?thesis
  proof (elim disjE exE conjE)
    fix e n assume "sk_passphrase_verify H N p (pd_pw d) = Done s e (ESP_ERR_INVALID_RESPONSE, n)" "\<not> pass_mtx s"
    then show ?thesis using True p pw by (simp add: handle_passphrase_verify_def pair_done_def line_safe_def Let_def)
  next
    fix e n assume "sk_passphrase_verify H N p (pd_pw d) = Done s e (ESP_FAIL, n)" "\<not> pass_mtx s"
    then show ?thesis using True p pw by (simp add: handle_passphrase_verify_def pair_done_def line_safe_def Let_def)
  next
    fix e assume "sk_passphrase_verify H N p (pd_pw d) = Blocked s e"
    then show ?thesis using True p pw cl
      by (cases "auth_factory_reset N (pd_auth d)") (simp add: handle_passphrase_verify_def line_safe_def)
  qed
qed

lemma dispatch_line_safe:
  assumes H: "hmac_lawful H" and N: "nvs_lawful N" and d: "gate_inv N d0 (False, d)" and g: "pairing_gate (pd_pw d0)"
    and w: "\<And>p. guess_in parse line = Some p \<Longrightarrow> \<not> right_guess H p (pd_pw d0)"
  shows "line_safe N d0 (sk_auth_pairing_dispatch_line H N E parse now line d)"
proof -
  have gd: "pairing_gate (pd_pw d)"
    using g d gated_gate [of N "pd_pw d0" "pd_pw d"] by (simp add: gate_inv_def pairing_gate_def sk_passphrase_is_set_def)
  note safe = only_pending_safe [OF d]
  show ?thesis
  proof (cases "pairing_open (pd_auth d)")
    case False
    then show ?thesis by (simp add: sk_auth_pairing_dispatch_line_def safe only_pending_done)
  next
    case op: True
    show ?thesis
    proof (cases "parse line")
      case None
      then show ?thesis using op by (simp add: sk_auth_pairing_dispatch_line_def Let_def safe only_pending_done)
    next
      case msg: (Some msg)
      show ?thesis
      proof (cases "jstr (jget msg ''cmd'')")
        case None
        then show ?thesis using op msg by (simp add: sk_auth_pairing_dispatch_line_def Let_def safe only_pending_done)
      next
        case (Some cmd)
        consider "cmd = ''pairing.ecdh.exchange''" | "cmd = ''pairing.passphrase.verify''"
          | "cmd \<noteq> ''pairing.ecdh.exchange''" "cmd \<noteq> ''pairing.passphrase.verify''" by blast
        then show ?thesis
        proof cases
          case 1
          then show ?thesis using op msg Some
            by (simp add: sk_auth_pairing_dispatch_line_def Let_def safe exchange_gated [OF gd])
        next
          case 2
          have "\<And>p. arg_of msg ''plain'' = Some p \<Longrightarrow> \<not> right_guess H p (pd_pw d0)"
            using w msg Some 2 by (simp add: guess_in_def)
          then show ?thesis using op msg Some 2 verify_line_safe [OF H N d]
            by (simp add: sk_auth_pairing_dispatch_line_def Let_def)
        next
          case 3
          then show ?thesis using op msg Some
            by (simp add: sk_auth_pairing_dispatch_line_def Let_def safe only_pending_done)
        qed
      qed
    qed
  qed
qed

lemma short_press_keeps: "\<exists>pt po. fst (on_control_short_press t a) = a\<lparr>pair_timer := pt, pairing_open := po\<rparr>"
proof (cases "pairing_open a")
  case True
  then have "fst (on_control_short_press t a) = a\<lparr>pair_timer := pair_timer a, pairing_open := pairing_open a\<rparr>"
    by (simp add: on_control_short_press_def)
  then show ?thesis by blast
next
  case False
  then show ?thesis using open_pairing_keeps [of t 60 a] by (simp add: on_control_short_press_def)
qed

lemma timeout_keeps: "\<exists>pb po. fst (pair_timeout_cb a) = a\<lparr>pairing_open := po, pending := pb\<rparr>"
proof (cases "pairing_open a")
  case True
  then show ?thesis by (auto simp: pair_timeout_cb_def sk_auth_close_pairing_mode_def pending_clear_def)
next
  case False
  then have "fst (pair_timeout_cb a) = a\<lparr>pairing_open := pairing_open a, pending := pending a\<rparr>"
    by (simp add: pair_timeout_cb_def sk_auth_close_pairing_mode_def)
  then show ?thesis by blast
qed

lemma pair_step_safe:
  assumes H: "hmac_lawful H" and N: "nvs_lawful N" and g: "pairing_gate (pd_pw d0)" and s: "gate_inv N d0 s"
    and w: "\<And>p. offers parse ev = Some p \<Longrightarrow> \<not> right_guess H p (pd_pw d0)"
  shows "gate_inv N d0 (snd (pair_step H N E parse s ev)) \<and> fst (pair_step H N E parse s ev) \<noteq> Some SK_AUTH_PAIRING_OK"
proof -
  obtain hung d where sd: "s = (hung, d)" by fastforce
  show ?thesis
  proof (cases "hung \<or> (\<exists>t. ev = PairPowerCycle t)")
    case True
    then show ?thesis using s gate_inv_boot [OF N, of d0 hung d] sd by (cases ev; cases hung) auto
  next
    case False
    then have d: "gate_inv N d0 (False, d)" using s sd by simp
    show ?thesis
    proof (cases ev)
      case (PairLine now line)
      have "line_safe N d0 (sk_auth_pairing_dispatch_line H N E parse now line d)"
        using w PairLine by (intro dispatch_line_safe [OF H N d g]) simp
      then show ?thesis using False sd PairLine
        by (cases "sk_auth_pairing_dispatch_line H N E parse now line d") (auto simp: line_safe_def split: prod.splits)
    next
      case (ShortPress t)
      then show ?thesis using False sd d short_press_keeps [of t "pd_auth d"] by (auto simp: gate_inv_def)
    next
      case WindowTimeout
      obtain pb po where "fst (pair_timeout_cb (pd_auth d)) = (pd_auth d)\<lparr>pairing_open := po, pending := pb\<rparr>"
        using timeout_keeps by blast
      then show ?thesis using False sd d WindowTimeout by (simp add: gate_inv_def auth_inv_def)
    qed (use False in simp)
  qed
qed

text \<open>
  C16: While a passphrase gates the pairing, nobody who does not know it is bonded. Whatever lines the
  peers send, however often the window opens and closes and the power goes, as long as no
  \<open>pairing.passphrase.verify\<close> line carries the passphrase no dialogue ends with a bond, and the slots are
  the ones of the beginning or, after a lockout, all empty. A guess that hangs the task and the
  power cycle that ends it are part of the runs.
\<close>

theorem pairing_needs_passphrase:
  assumes "hmac_lawful H" and "nvs_lawful N" and "auth_inv N (pd_auth d)" and "pass_inv N (pd_pw d)"
    and "\<not> pass_mtx (pd_pw d)" and "pairing_gate (pd_pw d)"
    and "\<forall>ev \<in> set es. \<forall>p. offers parse ev = Some p \<longrightarrow> \<not> right_guess H p (pd_pw d)"
  shows "Some SK_AUTH_PAIRING_OK \<notin> set (fst (run_ops (pair_step H N E parse) (False, d) es)) \<and>
    (bslots (pd_auth (snd (snd (run_ops (pair_step H N E parse) (False, d) es)))) = bslots (pd_auth d) \<or>
     bslots (pd_auth (snd (snd (run_ops (pair_step H N E parse) (False, d) es)))) = replicate 8 empty_bond)"
proof -
  have "gate_inv N d (False, d)" using assms(3-6)
    by (simp add: gate_inv_def gated_def kept_def pairing_gate_def sk_passphrase_is_set_def)
  then have "gate_inv N d (snd (run_ops (pair_step H N E parse) (False, d) es)) \<and>
      (\<forall>r \<in> set (fst (run_ops (pair_step H N E parse) (False, d) es)). r \<noteq> Some SK_AUTH_PAIRING_OK)"
    using pair_step_safe [OF assms(1,2,6)] assms(7)
    by (intro run_ops_safe [where ok = "\<lambda>ev. \<forall>p. offers parse ev = Some p \<longrightarrow> \<not> right_guess H p (pd_pw d)"]) blast+
  then show ?thesis by (auto simp: gate_inv_def split_beta)
qed

text \<open>A concrete device with the passphrase \<open>right1\<close>, a parser that knows three lines and a key exchange.\<close>

definition toy_ecdh :: ecdh_ops where
  "toy_ecdh = \<lparr> ecdh_gen = Some (replicate 32 1, replicate 32 2), x25519 = (\<lambda>s p. Some (xor_into s p)),
     sha256 = (\<lambda>m. take 32 (m @ replicate 32 0)) \<rparr>"

definition verify_msg :: "string \<Rightarrow> json" where
  "verify_msg p = JObj [(''cmd'', JStr ''pairing.passphrase.verify''), (''args'', JObj [(''plain'', JStr p)])]"

definition exchange_msg :: json where
  "exchange_msg = JObj [(''cmd'', JStr ''pairing.ecdh.exchange''),
     (''args'', JObj [(''peer_pub'', JStr (bytes_to_hex (replicate 32 5)))])]"

definition toy_pair_parse :: "string \<Rightarrow> json option" where
  "toy_pair_parse l = (if l = ''exchange'' then Some exchange_msg
     else if l = ''guess1'' \<or> l = ''right1'' then Some (verify_msg l) else None)"

definition armed_pass :: "nvs_map passphrase" where
  "armed_pass = (locked_pass 0)\<lparr>mode_bits := 1, pflash := (pflash (locked_pass 0))((NVS_PASS, ''mode'') \<mapsto> NvU8 1)\<rparr>"

lemma armed_pass_simps:
  "pass_inv nvs_map_ops armed_pass" "\<not> pass_mtx armed_pass" "pairing_gate armed_pass" "has_pass armed_pass"
  "right_guess pad_hmac ''right1'' armed_pass" "\<not> right_guess pad_hmac ''guess1'' armed_pass"
  by (simp_all add: armed_pass_def locked_pass_def pass_inv_def stored_u8_def nvs_map_ops_def right_guess_def pad_pbkdf2
      bytes_def pairing_gate_def sk_passphrase_is_set_def sk_passphrase_get_mode_def MODE_BIT_PAIRING_def)

definition toy_pair_dev :: "nvs_map pair_dev" where
  "toy_pair_dev = \<lparr> pd_auth = (auth_static (\<lambda>_. None))\<lparr>pairing_open := True\<rparr>, pd_pw = armed_pass \<rparr>"

lemma toy_pair_dev_simps:
  "auth_inv nvs_map_ops (pd_auth toy_pair_dev)" "pd_pw toy_pair_dev = armed_pass"
  "bslots (pd_auth toy_pair_dev) = replicate 8 empty_bond" "pairing_open (pd_auth toy_pair_dev)"
  by (simp_all add: toy_pair_dev_def auth_inv_def auth_static_def one_per_peer_def flash_agrees_def slot_image_def
      nvs_map_ops_def SK_AUTH_BOND_SLOT_COUNT_def SK_AUTH_BOND_SLOT_INVALID_def)

theorem pairing_needs_passphrase_witness:
  "bslots (pd_auth (snd (snd (run_ops (pair_step pad_hmac nvs_map_ops toy_ecdh toy_pair_parse) (False, toy_pair_dev)
     [PairLine 0 ''exchange'', PairLine 0 ''guess1'', ShortPress ESP_OK, PairPowerCycle ESP_OK])))) = replicate 8 empty_bond"
proof -
  have "guess_in toy_pair_parse ''exchange'' = None" "guess_in toy_pair_parse ''guess1'' = Some ''guess1''"
    by (simp_all add: guess_in_def toy_pair_parse_def exchange_msg_def verify_msg_def arg_of_def)
  then show ?thesis
    using pairing_needs_passphrase [OF pad_hmac_lawful nvs_map_lawful toy_pair_dev_simps(1),
        of "[PairLine 0 ''exchange'', PairLine 0 ''guess1'', ShortPress ESP_OK, PairPowerCycle ESP_OK]" toy_pair_parse toy_ecdh]
    by (simp add: toy_pair_dev_simps armed_pass_simps del: run_ops.simps)
qed

section \<open>A dialogue that succeeds\<close>

text \<open>The peer and the key an exchange line establishes.\<close>

definition exchanged :: "ecdh_ops \<Rightarrow> json \<Rightarrow> (u8 list \<times> u8 list) option" where
  "exchanged E msg = (case arg_of msg ''peer_pub'' of None \<Rightarrow> None
     | Some pub \<Rightarrow> (case hex_to_bytes pub 32 of None \<Rightarrow> None
     | Some peer_pub \<Rightarrow> (case ecdh_gen E of None \<Rightarrow> None
     | Some (p, s) \<Rightarrow> (case x25519 E s peer_pub of None \<Rightarrow> None
     | Some shared \<Rightarrow> Some (peer_id_of msg peer_pub, derive_token E shared)))))"

lemma exchangedE:
  assumes "exchanged E msg = Some (peer, key)"
  obtains pub peer_pub p s shared where "arg_of msg ''peer_pub'' = Some pub" "hex_to_bytes pub 32 = Some peer_pub"
    "ecdh_gen E = Some (p, s)" "x25519 E s peer_pub = Some shared"
    "peer = peer_id_of msg peer_pub" "key = derive_token E shared"
  using assms by (auto simp: exchanged_def split: option.splits prod.splits)

definition room_for :: "u8 list \<Rightarrow> 'n auth \<Rightarrow> bool" where
  "room_for peer a \<longleftrightarrow> find_slot_by_peer peer a \<noteq> None \<or> sk_auth_bond_count a < 8"

lemma room_slot: "length (bslots a) = 8 \<Longrightarrow> room_for p a \<Longrightarrow> \<exists>i. or_else (find_slot_by_peer p a) (find_first_free_slot a) = Some i \<and> i < 8"
proof -
  assume l: "length (bslots a) = 8" and r: "room_for p a"
  have "or_else (find_slot_by_peer p a) (find_first_free_slot a) \<noteq> None"
    using r full_iff [of occupied "bslots a"] l
    by (cases "find_slot_by_peer p a") (auto simp: room_for_def sk_auth_bond_count_def find_first_free_slot_def)
  then obtain i where i: "or_else (find_slot_by_peer p a) (find_first_free_slot a) = Some i" by blast
  then have "find_slot_by_peer p a = Some i \<or> find_first_free_slot a = Some i" by (cases "find_slot_by_peer p a") auto
  then have "i < 8" using l by (auto simp: find_slot_by_peer_def find_first_free_slot_def find_index_Some)
  with i show ?thesis by blast
qed

lemma find_index_update: "\<not> P x \<Longrightarrow> i < length xs \<Longrightarrow> \<not> P (xs ! i) \<Longrightarrow> find_index P (xs[i := x]) = find_index P xs"
proof (induction xs arbitrary: i)
  case (Cons y ys)
  then show ?case by (cases i) auto
qed simp

text \<open>A slot that is written for one peer and was nobody else's leaves the others where they are.\<close>

lemma lookup_other:
  assumes "bslots b = (bslots a)[i := s]" and "i < length (bslots a)"
    and "\<not> (occupied s \<and> peer_id s = p)" and "\<not> (occupied (bslots a ! i) \<and> peer_id (bslots a ! i) = p)"
  shows "sk_auth_bond_lookup p b = sk_auth_bond_lookup p a"
proof -
  have "find_slot_by_peer p b = find_slot_by_peer p a"
    unfolding find_slot_by_peer_def assms(1) by (rule find_index_update) (use assms(2-4) in simp_all)
  moreover have "bslots b ! j = bslots a ! j" if "find_slot_by_peer p a = Some j" for j
    using that assms by (cases "j = i") (auto simp: find_slot_by_peer_def find_index_Some)
  ultimately show ?thesis by (auto simp: sk_auth_bond_lookup_def split: option.split)
qed

text \<open>On a healthy flash a bond that finds a slot is stored, and found under its peer.\<close>

lemma add_then_lookup:
  assumes N: "nvs_lawful N" and l: "length (bslots a) = 8" and r: "room_for p a"
  shows "\<exists>i b e. sk_auth_bond_add N now p k lab a = (ESP_OK, Some i, b, e) \<and>
    sk_auth_bond_lookup p b = (ESP_OK, Some (k, i)) \<and> (\<forall>p'. p' \<noteq> p \<longrightarrow> sk_auth_bond_lookup p' b = sk_auth_bond_lookup p' a) \<and>
    pairing_open b = pairing_open a \<and> pending b = pending a"
proof -
  obtain i where i: "or_else (find_slot_by_peer p a) (find_first_free_slot a) = Some i" "i < 8"
    using room_slot [OF l r] by blast
  let ?a = "a\<lparr>bslots := (bslots a)[i := new_bond now p k lab]\<rparr>"
  obtain n where n: "slot_save N i ?a = (ESP_OK, ?a\<lparr>aflash := n\<rparr>)" using slot_save_lawful [OF N i(2)] by blast
  have add: "sk_auth_bond_add N now p k lab a = (ESP_OK, Some i, ?a\<lparr>aflash := n\<rparr>, [Publish ''auth.bond.added'' (slot_payload i)])"
    using i(1) n by (simp add: sk_auth_bond_add_def Let_def new_bond_def [symmetric])
  have own: "\<not> occupied (bslots a ! i) \<or> peer_id (bslots a ! i) = p"
  proof (cases "find_slot_by_peer p a")
    case None
    then show ?thesis using i(1) by (simp add: find_first_free_slot_def find_index_Some)
  next
    case (Some i')
    moreover from this have "i' = i" using i(1) by simp
    ultimately show ?thesis by (simp add: find_slot_by_peer_def find_index_Some)
  qed
  have "\<not> (occupied (bslots a ! j) \<and> peer_id (bslots a ! j) = p)" if j: "j < i" for j
  proof (cases "find_slot_by_peer p a")
    case None
    then show ?thesis using j i(2) l by (simp add: find_slot_None)
  next
    case (Some i')
    then have "i' = i" using i(1) by simp
    then show ?thesis using Some j by (simp add: find_slot_by_peer_def find_index_Some)
  qed
  then have "find_slot_by_peer p (?a\<lparr>aflash := n\<rparr>) = Some i"
    using i(2) l by (simp add: find_slot_by_peer_def find_index_Some new_bond_def)
  then have "sk_auth_bond_lookup p (?a\<lparr>aflash := n\<rparr>) = (ESP_OK, Some (k, i))"
    using i(2) l by (simp add: sk_auth_bond_lookup_def new_bond_def)
  moreover have "sk_auth_bond_lookup p' (?a\<lparr>aflash := n\<rparr>) = sk_auth_bond_lookup p' a" if "p' \<noteq> p" for p'
    by (rule lookup_other [where i = i and s = "new_bond now p k lab"]) (use own i l that in \<open>auto simp: new_bond_def\<close>)
  ultimately show ?thesis using add by simp
qed

lemma exchange_pending:
  assumes "pairing_gate (pd_pw d)" and "exchanged E msg = Some (peer, key)" and "room_for peer (pd_auth d)"
  shows "\<exists>lab line. handle_ecdh_exchange N E now msg d =
    Done (d\<lparr>pd_auth := (pd_auth d)\<lparr>pending := \<lparr> pend_active = True, pend_key = key, pend_peer = peer, pend_label = lab \<rparr>\<rparr>\<rparr>)
      [] ([line], SK_AUTH_PAIRING_PENDING)"
proof -
  obtain pub peer_pub p s shared where e: "arg_of msg ''peer_pub'' = Some pub" "hex_to_bytes pub 32 = Some peer_pub"
    "ecdh_gen E = Some (p, s)" "x25519 E s peer_pub = Some shared"
    "peer = peer_id_of msg peer_pub" "key = derive_token E shared"
    using assms(2) by (rule exchangedE)
  have "list_ex (\<lambda>s. occupied s \<and> peer_id s = peer) (bslots (pd_auth d)) \<or>
      \<not> sk_auth_bond_count (pd_auth d) \<ge> SK_AUTH_BOND_SLOT_COUNT"
    using assms(3) by (auto simp: room_for_def find_slot_by_peer_def find_index_None list_ex_iff SK_AUTH_BOND_SLOT_COUNT_def)
  then show ?thesis using e assms(1)
    by (auto simp: handle_ecdh_exchange_def Let_def sk_auth_ecdh_begin_def sk_auth_ecdh_derive_def pair_done_def
        SK_AUTH_ECDH_PUBLIC_LEN_def)
qed

lemma lookup_cong: "bslots x = bslots y \<Longrightarrow> sk_auth_bond_lookup p x = sk_auth_bond_lookup p y"
  by (simp add: sk_auth_bond_lookup_def find_slot_by_peer_def cong: option.case_cong)

lemma verify_commits:
  assumes H: "hmac_lawful H" and N: "nvs_lawful N" and s: "pass_inv N (pd_pw d)" "has_pass (pd_pw d)" "\<not> pass_mtx (pd_pw d)"
    and r: "right_guess H p (pd_pw d)" and a: "arg_of msg ''plain'' = Some p" and l: "length (bslots (pd_auth d)) = 8"
    and op: "pairing_open (pd_auth d)"
    and pb: "pend_active (pending (pd_auth d))" "pend_key (pending (pd_auth d)) = key" "pend_peer (pending (pd_auth d)) = peer"
    and room: "room_for peer (pd_auth d)"
  shows "\<exists>d' e out i. handle_passphrase_verify H N now msg d = Done d' e (out, SK_AUTH_PAIRING_OK) \<and>
    sk_auth_bond_lookup peer (pd_auth d') = (ESP_OK, Some (key, i)) \<and> \<not> pairing_open (pd_auth d') \<and>
    (\<forall>p'. p' \<noteq> peer \<longrightarrow> sk_auth_bond_lookup p' (pd_auth d') = sk_auth_bond_lookup p' (pd_auth d))"
proof -
  let ?lab = "if pend_label (pending (pd_auth d)) = [] then None else Some (pend_label (pending (pd_auth d)))"
  obtain i b e where b: "sk_auth_bond_add N now peer key ?lab (pd_auth d) = (ESP_OK, Some i, b, e)"
    "sk_auth_bond_lookup peer b = (ESP_OK, Some (key, i))" "pairing_open b" "pending b = pending (pd_auth d)"
    "\<forall>p'. p' \<noteq> peer \<longrightarrow> sk_auth_bond_lookup p' b = sk_auth_bond_lookup p' (pd_auth d)"
    using add_then_lookup [OF N l room, of now key ?lab] op by auto
  have "sk_auth_bond_lookup p' (pending_clear (pending_clear b\<lparr>pairing_open := False\<rparr>)) = sk_auth_bond_lookup p' b" for p'
    by (rule lookup_cong) (simp add: pending_clear_def)
  then show ?thesis using a pb b verify_right [OF H s r]
    by (simp add: handle_passphrase_verify_def pending_commit_def sk_auth_close_pairing_mode_def pair_done_def Let_def
        pending_clear_def)
qed

text \<open>The lines of an exchange, each by a peer of its own.\<close>

definition exchange_line :: "ecdh_ops \<Rightarrow> (string \<Rightarrow> json option) \<Rightarrow> string \<Rightarrow> u8 list \<Rightarrow> u8 list \<Rightarrow> bool" where
  "exchange_line E parse l peer key \<longleftrightarrow> (\<exists>msg. parse l = Some msg \<and>
     jstr (jget msg ''cmd'') = Some ''pairing.ecdh.exchange'' \<and> exchanged E msg = Some (peer, key))"

lemma exchange_step:
  assumes "pairing_gate (pd_pw d)" and "pairing_open (pd_auth d)" and "exchange_line E parse l peer key" and "room_for peer (pd_auth d)"
  shows "\<exists>lab. pair_step H N E parse (False, d) (PairLine t l) = (Some SK_AUTH_PAIRING_PENDING, (False,
    d\<lparr>pd_auth := (pd_auth d)\<lparr>pending := \<lparr> pend_active = True, pend_key = key, pend_peer = peer, pend_label = lab \<rparr>\<rparr>\<rparr>))"
proof -
  obtain msg where m: "parse l = Some msg" "jstr (jget msg ''cmd'') = Some ''pairing.ecdh.exchange''" "exchanged E msg = Some (peer, key)"
    using assms(3) by (auto simp: exchange_line_def)
  obtain lab line where "handle_ecdh_exchange N E t msg d =
    Done (d\<lparr>pd_auth := (pd_auth d)\<lparr>pending := \<lparr> pend_active = True, pend_key = key, pend_peer = peer, pend_label = lab \<rparr>\<rparr>\<rparr>)
      [] ([line], SK_AUTH_PAIRING_PENDING)"
    using exchange_pending [OF assms(1) m(3) assms(4)] by blast
  then show ?thesis using assms(2) m by (auto simp: sk_auth_pairing_dispatch_line_def Let_def)
qed

lemma room_pending [simp]: "room_for peer (a\<lparr>pending := pb\<rparr>) = room_for peer a"
  by (simp add: room_for_def find_slot_by_peer_def sk_auth_bond_count_def)

lemma exchange_run:
  "pairing_gate (pd_pw d) \<Longrightarrow> pairing_open (pd_auth d) \<Longrightarrow>
   \<forall>(t, l) \<in> set pre. \<exists>peer key. exchange_line E parse l peer key \<and> room_for peer (pd_auth d) \<Longrightarrow>
   \<exists>pb. run_ops (pair_step H N E parse) (False, d) (map (\<lambda>(t, l). PairLine t l) pre) =
     (replicate (length pre) (Some SK_AUTH_PAIRING_PENDING), (False, d\<lparr>pd_auth := (pd_auth d)\<lparr>pending := pb\<rparr>\<rparr>))"
proof (induction pre arbitrary: d)
  case Nil
  show ?case by (rule exI [of _ "pending (pd_auth d)"]) simp
next
  case (Cons tl pre)
  obtain t l where tl: "tl = (t, l)" by fastforce
  obtain peer key where e: "exchange_line E parse l peer key" "room_for peer (pd_auth d)" using Cons.prems(3) tl by auto
  obtain lab where st: "pair_step H N E parse (False, d) (PairLine t l) = (Some SK_AUTH_PAIRING_PENDING, (False,
      d\<lparr>pd_auth := (pd_auth d)\<lparr>pending := \<lparr> pend_active = True, pend_key = key, pend_peer = peer, pend_label = lab \<rparr>\<rparr>\<rparr>))"
    using exchange_step [OF Cons.prems(1,2) e] by blast
  let ?d = "d\<lparr>pd_auth := (pd_auth d)\<lparr>pending := \<lparr> pend_active = True, pend_key = key, pend_peer = peer, pend_label = lab \<rparr>\<rparr>\<rparr>"
  obtain pb where "run_ops (pair_step H N E parse) (False, ?d) (map (\<lambda>(t, l). PairLine t l) pre) =
      (replicate (length pre) (Some SK_AUTH_PAIRING_PENDING), (False, ?d\<lparr>pd_auth := (pd_auth ?d)\<lparr>pending := pb\<rparr>\<rparr>))"
    using Cons.IH [of ?d] Cons.prems by fastforce
  then show ?case using st tl by (auto simp del: pair_step.simps)
qed

lemma run_ops_append: "run_ops step s (xs @ ys) =
    (fst (run_ops step s xs) @ fst (run_ops step (snd (run_ops step s xs)) ys), snd (run_ops step (snd (run_ops step s xs)) ys))"
  by (induction xs arbitrary: s) (simp_all add: split_beta)

text \<open>
  The passphrase bonds who exchanged keys last. On an open window whose pairing the passphrase gates,
  every exchange of public keys leaves the dialogue pending, and a line with the right passphrase
  ends it: the peer of the latest exchange is found under the key derived from it, the window is closed
  and every other peer is as bonded as it was. With one peer this is the dialogue as intended; with two,
  the passphrase one of them says bonds the other, which exchanged keys in between without knowing it.
\<close>

theorem passphrase_bonds_last_exchange:
  assumes "hmac_lawful H" and "nvs_lawful N" and "length (bslots (pd_auth d)) = 8" and "pass_inv N (pd_pw d)"
    and "\<not> pass_mtx (pd_pw d)" and "pairing_gate (pd_pw d)" and "pairing_open (pd_auth d)"
    and "\<forall>(t, l) \<in> set pre. \<exists>peer key. exchange_line E parse l peer key \<and> room_for peer (pd_auth d)"
    and "exchange_line E parse l1 peer key" and "room_for peer (pd_auth d)"
    and "guess_in parse l2 = Some p" and "right_guess H p (pd_pw d)"
  shows "\<exists>d' i. run_ops (pair_step H N E parse) (False, d) (map (\<lambda>(t, l). PairLine t l) pre @ [PairLine t1 l1, PairLine t2 l2]) =
      (replicate (length pre) (Some SK_AUTH_PAIRING_PENDING) @ [Some SK_AUTH_PAIRING_PENDING, Some SK_AUTH_PAIRING_OK], (False, d')) \<and>
    sk_auth_bond_lookup peer (pd_auth d') = (ESP_OK, Some (key, i)) \<and> \<not> pairing_open (pd_auth d') \<and>
    (\<forall>p'. p' \<noteq> peer \<longrightarrow> sk_auth_bond_lookup p' (pd_auth d') = sk_auth_bond_lookup p' (pd_auth d))"
proof -
  obtain pb where pre: "run_ops (pair_step H N E parse) (False, d) (map (\<lambda>(t, l). PairLine t l) pre) =
     (replicate (length pre) (Some SK_AUTH_PAIRING_PENDING), (False, d\<lparr>pd_auth := (pd_auth d)\<lparr>pending := pb\<rparr>\<rparr>))"
    using exchange_run [OF assms(6,7,8)] by blast
  let ?d0 = "d\<lparr>pd_auth := (pd_auth d)\<lparr>pending := pb\<rparr>\<rparr>"
  have g0: "pairing_gate (pd_pw ?d0)" "pairing_open (pd_auth ?d0)" and r0: "room_for peer (pd_auth ?d0)"
    using assms(6,7,10) by simp_all
  obtain lab where one: "pair_step H N E parse (False, ?d0) (PairLine t1 l1) = (Some SK_AUTH_PAIRING_PENDING, (False,
      ?d0\<lparr>pd_auth := (pd_auth ?d0)\<lparr>pending := \<lparr> pend_active = True, pend_key = key, pend_peer = peer, pend_label = lab \<rparr>\<rparr>\<rparr>))"
    using exchange_step [OF g0 assms(9) r0, of H N t1] by blast
  let ?d = "?d0\<lparr>pd_auth := (pd_auth ?d0)\<lparr>pending := \<lparr> pend_active = True, pend_key = key, pend_peer = peer, pend_label = lab \<rparr>\<rparr>\<rparr>"
  obtain msg2 where m2: "parse l2 = Some msg2" "jstr (jget msg2 ''cmd'') = Some ''pairing.passphrase.verify''"
    "arg_of msg2 ''plain'' = Some p"
    using assms(11) by (auto simp: guess_in_def split: option.splits if_splits)
  have has: "has_pass (pd_pw ?d)" using assms(6) by (simp add: pairing_gate_def sk_passphrase_is_set_def)
  obtain d' e' out i where v: "handle_passphrase_verify H N t2 msg2 ?d = Done d' e' (out, SK_AUTH_PAIRING_OK)"
    "sk_auth_bond_lookup peer (pd_auth d') = (ESP_OK, Some (key, i))" "\<not> pairing_open (pd_auth d')"
    "\<forall>p'. p' \<noteq> peer \<longrightarrow> sk_auth_bond_lookup p' (pd_auth d') = sk_auth_bond_lookup p' (pd_auth ?d)"
    using verify_commits [OF assms(1,2) _ has, of p msg2 key peer t2] assms(3-5,7,10,12) m2(3) by auto
  have "sk_auth_bond_lookup p' (pd_auth ?d) = sk_auth_bond_lookup p' (pd_auth d)" for p' by (rule lookup_cong) simp
  moreover have two: "pair_step H N E parse (False, ?d) (PairLine t2 l2) = (Some SK_AUTH_PAIRING_OK, (False, d'))"
    using assms(7) m2 v(1) by (simp add: sk_auth_pairing_dispatch_line_def Let_def)
  ultimately show ?thesis using v(2-4) by (simp add: run_ops_append pre one two del: pair_step.simps)
qed

text \<open>Two peers: the second one exchanges keys after the first and is bonded by the first one's passphrase.\<close>

definition other_msg :: json where
  "other_msg = JObj [(''cmd'', JStr ''pairing.ecdh.exchange''),
     (''args'', JObj [(''peer_pub'', JStr (bytes_to_hex (replicate 32 9)))])]"

definition two_peer_parse :: "string \<Rightarrow> json option" where
  "two_peer_parse l = (if l = ''other'' then Some other_msg else toy_pair_parse l)"

theorem passphrase_bonds_last_exchange_witness:
  "\<exists>d' i. run_ops (pair_step pad_hmac nvs_map_ops toy_ecdh two_peer_parse) (False, toy_pair_dev)
      [PairLine 0 ''exchange'', PairLine 1 ''other'', PairLine 2 ''right1''] =
      ([Some SK_AUTH_PAIRING_PENDING, Some SK_AUTH_PAIRING_PENDING, Some SK_AUTH_PAIRING_OK], (False, d')) \<and>
    sk_auth_bond_lookup (replicate 16 9) (pd_auth d') = (ESP_OK, Some (derive_token toy_ecdh (replicate 32 11), i)) \<and>
    sk_auth_bond_lookup (replicate 16 5) (pd_auth d') = (ESP_ERR_NOT_FOUND, None)"
proof -
  have e1: "exchange_line toy_ecdh two_peer_parse ''exchange'' (replicate 16 5) (derive_token toy_ecdh (replicate 32 7))"
    unfolding exchange_line_def by (rule exI [of _ exchange_msg], intro conjI; code_simp)
  have e2: "exchange_line toy_ecdh two_peer_parse ''other'' (replicate 16 9) (derive_token toy_ecdh (replicate 32 11))"
    unfolding exchange_line_def by (rule exI [of _ other_msg], intro conjI; code_simp)
  have r: "room_for p (pd_auth toy_pair_dev)" for p
    by (simp add: room_for_def sk_auth_bond_count_def toy_pair_dev_simps)
  have g: "guess_in two_peer_parse ''right1'' = Some ''right1''" by code_simp
  have rg: "right_guess pad_hmac ''right1'' (pd_pw toy_pair_dev)" by (simp only: toy_pair_dev_simps armed_pass_simps)
  have none: "sk_auth_bond_lookup (replicate 16 5) (pd_auth toy_pair_dev) = (ESP_ERR_NOT_FOUND, None)"
  proof -
    have "find_slot_by_peer (replicate 16 5) (pd_auth toy_pair_dev) = None" by (simp add: find_slot_None toy_pair_dev_simps)
    then show ?thesis by (simp add: sk_auth_bond_lookup_def)
  qed
  have pre: "\<forall>(t, l) \<in> set [(0 :: int, ''exchange'')]. \<exists>peer key. exchange_line toy_ecdh two_peer_parse l peer key \<and>
      room_for peer (pd_auth toy_pair_dev)" using e1 r by auto
  have "pass_inv nvs_map_ops (pd_pw toy_pair_dev)" "\<not> pass_mtx (pd_pw toy_pair_dev)" "pairing_gate (pd_pw toy_pair_dev)"
    "length (bslots (pd_auth toy_pair_dev)) = 8" by (simp_all add: toy_pair_dev_simps armed_pass_simps)
  from passphrase_bonds_last_exchange [OF pad_hmac_lawful nvs_map_lawful this(4,1-3) toy_pair_dev_simps(4) pre e2 r g rg, of 1 2]
  obtain d' i where "run_ops (pair_step pad_hmac nvs_map_ops toy_ecdh two_peer_parse) (False, toy_pair_dev)
      (map (\<lambda>(t, l). PairLine t l) [(0, ''exchange'')] @ [PairLine 1 ''other'', PairLine 2 ''right1'']) =
      (replicate (length [(0 :: int, ''exchange'')]) (Some SK_AUTH_PAIRING_PENDING) @
        [Some SK_AUTH_PAIRING_PENDING, Some SK_AUTH_PAIRING_OK], (False, d'))"
    "sk_auth_bond_lookup (replicate 16 9) (pd_auth d') = (ESP_OK, Some (derive_token toy_ecdh (replicate 32 11), i))"
    "\<forall>p'. p' \<noteq> replicate 16 9 \<longrightarrow> sk_auth_bond_lookup p' (pd_auth d') = sk_auth_bond_lookup p' (pd_auth toy_pair_dev)"
    by (elim exE conjE)
  moreover have "replicate 16 (5 :: u8) \<noteq> replicate 16 9" by simp
  ultimately show ?thesis using none
    by (intro exI [of _ d'] exI [of _ i]) (simp del: run_ops.simps)
qed

end
