(* ===== verification/SkSessionProps.thy ===== *)
theory SkSessionProps
  imports SkSession SkPairingProps
begin

text \<open>
  Properties of a session: who is authenticated, which lines of an authenticated session have an
  effect, what a session locked by the passphrase does over any run of lines, and what revoking a bond
  does not do to a session that is up.
\<close>

section \<open>Hex and signatures\<close>

lemma length_nibble_loop: "nibble_loop h = Some bs \<Longrightarrow> length bs = length h div 2"
  by (induction h arbitrary: bs rule: nibble_loop.induct) (auto simp: Let_def split: if_splits)

lemma length_hex_to_bytes: "hex_to_bytes h n = Some bs \<Longrightarrow> length bs = n"
  by (auto simp: hex_to_bytes_def dest: length_nibble_loop split: if_splits)

text \<open>The line is an envelope with this content.\<close>

definition carries :: "(string \<Rightarrow> json option) \<Rightarrow> string \<Rightarrow> envelope \<Rightarrow> bool" where
  "carries parse line e \<longleftrightarrow> (\<exists>env. parse line = Some env \<and> read_envelope env = Some e)"

text \<open>The envelope is signed with the key of the session, fresh and in time.\<close>

definition signed :: "hmac \<Rightarrow> int \<Rightarrow> sk_secure_session \<Rightarrow> envelope \<Rightarrow> bool" where
  "signed H now x e \<longleftrightarrow> (\<exists>sig. hex_to_bytes (env_sig e) 16 = Some sig \<and>
     hmac_with_key H (hs_key (hs x)) (env_body e) = Some sig) \<and>
     \<not> ts_out_of_window now (env_ts e) \<and> \<not> nonce_seen_in (nonces (sess_replay x)) (env_nonce e)"

definition marked :: "envelope \<Rightarrow> sk_secure_session \<Rightarrow> sk_secure_session" where
  "marked e x = x\<lparr>sess_replay := nonce_mark (env_nonce e) (sess_replay x)\<rparr>"

lemma marked_simps [simp]: "hs (marked e x) = hs x" "passphrase_unlocked (marked e x) = passphrase_unlocked x"
  by (simp_all add: marked_def)

lemma verify_with_cases:
  assumes H: "hmac_lawful H" and s: "hex_to_bytes (env_sig e) 16 = Some sig"
  shows "sk_auth_verify_message_with H now (hs_key (hs x)) (env_body e) (env_nonce e) (env_ts e) sig (sess_replay x) =
    (if signed H now x e then (ESP_OK, nonce_mark (env_nonce e) (sess_replay x)) else (ESP_FAIL, sess_replay x))"
proof (cases "hmac_with_key H (hs_key (hs x)) (env_body e)")
  case None
  then show ?thesis by (simp add: sk_auth_verify_message_with_def signed_def)
next
  case (Some out)
  have "ct_diff out sig = 0 \<longleftrightarrow> out = sig"
    using length_hmac_with_key [OF H Some] length_hex_to_bytes [OF s]
    by (intro ct_diff_zero) (simp add: SK_AUTH_HMAC_LEN_def)
  then show ?thesis using Some s by (auto simp: sk_auth_verify_message_with_def signed_def)
qed

text \<open>A line of a session with a bond: refused as it is, or its envelope is signed and verified.\<close>

lemma dispatch_unsigned:
  assumes H: "hmac_lawful H" and b: "bond_set (hs x)" and u: "\<forall>e. carries parse line e \<longrightarrow> \<not> signed H now x e"
  shows "\<exists>p. sk_secure_session_dispatch_signed H N parse ready cmds issuer now line (Some x) d =
    Done (Some x, d) [] [emit_hmac_err p]"
proof (cases "parse line")
  case None
  then show ?thesis by (auto simp: sk_secure_session_dispatch_signed_def)
next
  case env: (Some env)
  show ?thesis
  proof (cases "read_envelope env")
    case None
    then show ?thesis using env by (auto simp: sk_secure_session_dispatch_signed_def)
  next
    case e: (Some e)
    show ?thesis
    proof (cases "hex_to_bytes (env_sig e) SK_AUTH_HMAC_LEN")
      case None
      then show ?thesis using env e by (auto simp: sk_secure_session_dispatch_signed_def)
    next
      case (Some sig)
      have "\<not> signed H now x e" using u env e by (auto simp: carries_def)
      then have "verify_envelope H now e sig (Some x) d = Some (ESP_FAIL, Some x, d)"
        using verify_with_cases [OF H, of e sig now x] Some b by (simp add: verify_envelope_def SK_AUTH_HMAC_LEN_def)
      then show ?thesis using env e Some by (auto simp: sk_secure_session_dispatch_signed_def)
    qed
  qed
qed

lemma dispatch_of_signed:
  assumes H: "hmac_lawful H" and b: "bond_set (hs x)" and c: "carries parse line e" and s: "signed H now x e"
  shows "sk_secure_session_dispatch_signed H N parse ready cmds issuer now line (Some x) d =
    (case session_passphrase_verify H N parse (env_body e) (Some (marked e x)) d of
       Some r \<Rightarrow> r
     | None \<Rightarrow>
         (if \<not> passphrase_unlocked x then
            Done (Some (marked e x), d) [] [emit_session_locked
               (case parse (env_body e) of None \<Rightarrow> 0 | Some inner \<Rightarrow> inner_id inner)
               (sk_passphrase_attempts_left (sd_pw d))]
          else (case sk_cli_dispatch_line_authenticated ready parse cmds issuer (env_body e) d of
             (d, ctx, outs) \<Rightarrow> Done (Some (marked e x), d) [] [Cli ctx outs])))"
proof -
  obtain env sig where env: "parse line = Some env" "read_envelope env = Some e"
    and sig: "hex_to_bytes (env_sig e) 16 = Some sig" using c s by (auto simp: carries_def signed_def)
  have "verify_envelope H now e sig (Some x) d = Some (ESP_OK, Some (marked e x), d)"
    using verify_with_cases [OF H sig, of now x] s b by (simp add: verify_envelope_def marked_def)
  then show ?thesis using env sig
    by (simp add: sk_secure_session_dispatch_signed_def SK_AUTH_HMAC_LEN_def gate_open_def)
qed

text \<open>
  C21: Only lines signed with the key of the session do anything. On a session that holds a bond, a
  line that is no envelope, or whose signature is not the HMAC of its body under that key, or whose
  nonce was used or whose time stamp is off, is answered with \<open>ERR_HMAC_INVALID\<close>, and session, replay
  ring and device stay as they are.
\<close>

theorem unsigned_line_no_effect:
  assumes "hmac_lawful H" and "bond_set (hs x)" and "\<forall>e. carries parse line e \<longrightarrow> \<not> signed H now x e"
  shows "\<exists>p. sk_secure_session_dispatch_signed H N parse ready cmds issuer now line (Some x) d =
    Done (Some x, d) [] [emit_hmac_err p]"
  by (rule dispatch_unsigned [OF assms])

text \<open>A concrete session with a bond key, a device behind it and a parser that knows an envelope and its body.\<close>

definition toy_session :: sk_secure_session where
  "toy_session = sk_secure_session_reset\<lparr>sess_state := SK_SESSION_AUTHENTICATED, passphrase_unlocked := True,
     hs := handshake_zero\<lparr>bond_set := True, hs_key := replicate 32 1\<rparr>\<rparr>"

definition toy_baseline :: "nvs_map baseline" where
  "toy_baseline = \<lparr> user_configured = True, bl_flash = (\<lambda>_. None), fw_version = ''1.0.0'', build_info = None, boot_us = 0 \<rparr>"

definition toy_sess_dev :: "(nvs_map, nat) sess_dev" where
  "toy_sess_dev = \<lparr> sd_auth = auth_static (\<lambda>_. None), sd_pw = locked_pass 0, sd_base = toy_baseline,
     sd_ring = sk_auth_replay_ctx_reset \<lparr> nonces = [], ring_head = 0 \<rparr>, sd_rest = 7 \<rparr>"

definition toy_sess_parse :: "u8 list \<Rightarrow> string \<Rightarrow> json option" where
  "toy_sess_parse sig l = (if l = ''env'' then Some (JObj [(''body'', JStr ''body''), (''sig'', JStr (bytes_to_hex sig)), (''nonce'', JNum 5)])
     else if l = ''body'' then Some (JObj [(''cmd'', JStr ''relay.status'')]) else None)"

definition toy_envelope :: "u8 list \<Rightarrow> envelope" where
  "toy_envelope sig = \<lparr> env_body = ''body'', env_sig = bytes_to_hex sig, env_nonce = 5, env_ts = 0 \<rparr>"

lemma toy_carries: "carries (toy_sess_parse sig) ''env'' e \<longleftrightarrow> e = toy_envelope sig"
  by (auto simp: carries_def toy_sess_parse_def toy_envelope_def read_envelope_def trunc_rat_def)

lemma toy_session_simps [simp]: "bond_set (hs toy_session)" "passphrase_unlocked toy_session" "hs_key (hs toy_session) = replicate 32 1"
  "nonces (sess_replay toy_session) = replicate 64 0"
  by (simp_all add: toy_session_def sk_secure_session_reset_def SK_AUTH_NONCE_WINDOW_def)

lemma toy_signed: "length sig = 16 \<Longrightarrow> signed H 0 (toy_session\<lparr>passphrase_unlocked := b\<rparr>) (toy_envelope sig) \<longleftrightarrow>
    hmac_with_key H (replicate 32 1) ''body'' = Some sig"
  using hex_codec.dec_enc [of sig 16]
  by (simp add: signed_def toy_envelope_def ts_out_of_window_def TS_VALID_THRESHOLD_def nonce_seen_in_def toy_session_def
      sk_secure_session_reset_def SK_AUTH_NONCE_WINDOW_def list_ex_iff)

lemma toy_session_unlocked: "toy_session\<lparr>passphrase_unlocked := True\<rparr> = toy_session"
  by (simp add: toy_session_def)

theorem unsigned_line_no_effect_witness:
  "\<exists>p. sk_secure_session_dispatch_signed toy_hmac nvs_map_ops (toy_sess_parse (replicate 16 9)) True [] None 0 ''env''
      (Some toy_session) toy_sess_dev = Done (Some toy_session, toy_sess_dev) [] [emit_hmac_err p]"
  by (rule unsigned_line_no_effect [OF toy_hmac_lawful])
    (use toy_signed [of "replicate 16 9" toy_hmac True] in
      \<open>simp_all add: toy_carries toy_session_unlocked hmac_with_key_def toy_hmac_def SK_AUTH_HMAC_LEN_def\<close>)

section \<open>A locked session\<close>

text \<open>The passphrase a body offers to \<open>auth.passphrase.verify\<close>.\<close>

definition unlock_guess :: "(string \<Rightarrow> json option) \<Rightarrow> string \<Rightarrow> string option" where
  "unlock_guess parse body = (case parse body of None \<Rightarrow> None
     | Some inner \<Rightarrow> if jstr (jget inner ''cmd'') = Some ''auth.passphrase.verify'' then arg_of inner ''plain'' else None)"

text \<open>
  A run of lines on one session: whether the task hangs, the session and the device. The run stops
  where a line hangs or restarts the device.
\<close>

type_synonym ('n, 'x) sess_state = "bool \<times> sk_secure_session option \<times> ('n, 'x) sess_dev"

fun sess_step :: "hmac \<Rightarrow> 'n nvs_ops \<Rightarrow> (string \<Rightarrow> json option) \<Rightarrow> bool \<Rightarrow> ('n, 'x) sess_dev command list \<Rightarrow>
    ('n, 'x) sess_dev issuer \<Rightarrow> ('n, 'x) sess_state \<Rightarrow> int \<times> string \<Rightarrow> sess_out list \<times> ('n, 'x) sess_state" where
  "sess_step H N parse ready cmds issuer (True, x, d) l = ([], (True, x, d))"
| "sess_step H N parse ready cmds issuer (False, x, d) (now, line) =
     (case sk_secure_session_dispatch_signed H N parse ready cmds issuer now line x d of
        Done (x', d') e outs \<Rightarrow> (outs, (False, x', d'))
      | Blocked (x', d') e \<Rightarrow> ([], (True, x', d'))
      | Restarted (x', d') e \<Rightarrow> ([], (True, x', d')))"

definition executes :: "sess_out list \<Rightarrow> bool" where
  "executes outs \<longleftrightarrow> (\<exists>ctx o'. Cli ctx o' \<in> set outs)"

definition locked_inv :: "'n nvs_ops \<Rightarrow> ('n, 'x) sess_dev \<Rightarrow> u8 list \<Rightarrow> ('n, 'x) sess_state \<Rightarrow> bool" where
  "locked_inv N d0 key = (\<lambda>(hung, x, d). (\<exists>y. x = Some y \<and> bond_set (hs y) \<and> hs_key (hs y) = key \<and> \<not> passphrase_unlocked y) \<and>
     gated N (sd_pw d0) (sd_pw d) \<and> (\<not> hung \<longrightarrow> \<not> pass_mtx (sd_pw d)) \<and> sd_rest d = sd_rest d0 \<and>
     sd_base d = (if hung then baseline_factory_reset N (sd_base d0) else sd_base d0))"

lemma lockout_publishes: "sk_passphrase_verify H N p s = Blocked s' e \<Longrightarrow> \<not> pass_mtx s \<Longrightarrow> e \<noteq> []"
  by (auto simp: sk_passphrase_verify_def verify_internal_def take_mtx_def pass_factory_reset_def Let_def
      split: if_splits option.splits prod.splits)

definition answer_safe :: "'n nvs_ops \<Rightarrow> ('n, 'x) sess_dev \<Rightarrow> u8 list \<Rightarrow> ('n, 'x) sess_res \<Rightarrow> bool" where
  "answer_safe N d0 key r = (case r of Done (x, d) e outs \<Rightarrow> locked_inv N d0 key (False, x, d) \<and> \<not> executes outs
     | Blocked (x, d) e \<Rightarrow> locked_inv N d0 key (True, x, d) | Restarted (x, d) e \<Rightarrow> False)"

lemma unlock_attempt_safe:
  assumes H: "hmac_lawful H" and N: "nvs_lawful N" and d: "locked_inv N d0 key (False, Some x, d)"
    and w: "\<And>p. unlock_guess parse body = Some p \<Longrightarrow> \<not> right_guess H p (sd_pw d0)"
    and v: "session_passphrase_verify H N parse body (Some x) d = Some r"
    and has: "has_pass (sd_pw d0)"
  shows "answer_safe N d0 key r"
proof -
  obtain inner where i: "parse body = Some inner" "jstr (jget inner ''cmd'') = Some ''auth.passphrase.verify''"
    using v by (auto simp: session_passphrase_verify_def split: option.splits if_splits)
  show ?thesis
  proof (cases "arg_of inner ''plain''")
    case None
    then have "r = Done (Some x, d) [] [inner_line (inner_id inner) 96 (jk ''ok'' @ ''false,'' @ jk ''err'' @ jq ''ERR_MISSING_ARG'')]"
      using v i by (simp add: session_passphrase_verify_def Let_def)
    then show ?thesis using d by (simp add: answer_safe_def executes_def inner_line_def)
  next
    case p: (Some p)
    have wp: "\<not> right_guess H p (sd_pw d0)" using w i p by (simp add: unlock_guess_def)
    have k: "gated N (sd_pw d0) (sd_pw d)" "\<not> pass_mtx (sd_pw d)" using d by (simp_all add: locked_inv_def)
    obtain s where s: "gated N (sd_pw d0) s"
      and o: "(\<exists>e n. sk_passphrase_verify H N p (sd_pw d) = Done s e (ESP_ERR_INVALID_RESPONSE, n) \<and> \<not> pass_mtx s) \<or>
       (\<exists>e n. sk_passphrase_verify H N p (sd_pw d) = Done s e (ESP_FAIL, n) \<and> \<not> pass_mtx s) \<or>
       (\<exists>e. sk_passphrase_verify H N p (sd_pw d) = Blocked s e)"
      using verify_wrong [OF H N k wp] by blast
    from o show ?thesis
    proof (elim disjE exE conjE)
      fix e n assume q: "sk_passphrase_verify H N p (sd_pw d) = Done s e (ESP_ERR_INVALID_RESPONSE, n)" "\<not> pass_mtx s"
      then obtain o1 where "r = Done (Some x, d\<lparr>sd_pw := s\<rparr>) e [Line o1]"
        using v i p by (auto simp: session_passphrase_verify_def Let_def inner_line_def)
      then show ?thesis using d s q by (simp add: answer_safe_def executes_def locked_inv_def)
    next
      fix e n assume q: "sk_passphrase_verify H N p (sd_pw d) = Done s e (ESP_FAIL, n)" "\<not> pass_mtx s"
      then obtain o1 where "r = Done (Some x, d\<lparr>sd_pw := s\<rparr>) e [Line o1]"
        using v i p by (auto simp: session_passphrase_verify_def Let_def inner_line_def)
      then show ?thesis using d s q by (simp add: answer_safe_def executes_def locked_inv_def)
    next
      fix e assume b: "sk_passphrase_verify H N p (sd_pw d) = Blocked s e"
      then have "r = (case auth_factory_reset N (sd_auth d) of (a, e2) \<Rightarrow>
          Blocked (Some x, d\<lparr>sd_base := baseline_factory_reset N (sd_base d), sd_auth := a, sd_pw := s\<rparr>) (e @ e2))"
        using v i p lockout_publishes [OF b k(2)] by (simp add: session_passphrase_verify_def Let_def)
      then show ?thesis using d s
        by (cases "auth_factory_reset N (sd_auth d)") (simp add: answer_safe_def locked_inv_def)
    qed
  qed
qed

lemma locked_line_safe:
  assumes H: "hmac_lawful H" and N: "nvs_lawful N" and d: "locked_inv N d0 key (False, x, d)" and has: "has_pass (sd_pw d0)"
    and w: "\<And>e p. carries parse line e \<Longrightarrow> unlock_guess parse (env_body e) = Some p \<Longrightarrow> \<not> right_guess H p (sd_pw d0)"
  shows "answer_safe N d0 key (sk_secure_session_dispatch_signed H N parse ready cmds issuer now line x d)"
proof -
  obtain y where y: "x = Some y" "bond_set (hs y)" "\<not> passphrase_unlocked y" using d by (auto simp: locked_inv_def)
  show ?thesis
  proof (cases "\<exists>e. carries parse line e \<and> signed H now y e")
    case False
    then obtain p where "sk_secure_session_dispatch_signed H N parse ready cmds issuer now line x d =
        Done (Some y, d) [] [emit_hmac_err p]"
      using dispatch_unsigned [OF H y(2)] y(1) by blast
    then show ?thesis using d y(1) by (simp add: answer_safe_def executes_def emit_hmac_err_def)
  next
    case True
    then obtain e where e: "carries parse line e" "signed H now y e" by blast
    have m: "locked_inv N d0 key (False, Some (marked e y), d)" using d y(1) by (simp add: locked_inv_def)
    show ?thesis
    proof (cases "session_passphrase_verify H N parse (env_body e) (Some (marked e y)) d")
      case None
      then show ?thesis using dispatch_of_signed [OF H y(2) e, of N ready cmds issuer d] y m
        by (simp add: answer_safe_def executes_def emit_session_locked_def)
    next
      case (Some r)
      have "answer_safe N d0 key r" by (rule unlock_attempt_safe [OF H N m w [OF e(1)] Some has])
      then show ?thesis using dispatch_of_signed [OF H y(2) e, of N ready cmds issuer d] y Some by simp
    qed
  qed
qed

text \<open>
  C22: A session that the passphrase locks runs no command. Whatever lines come, signed with the key of
  the bond or not, as long as none of them carries the passphrase in an \<open>auth.passphrase.verify\<close>, no
  command line is executed and the session stays locked. What the commands work on stays as it is; the baseline
  component too, unless the lockout at the tenth wrong guess hangs the session, which wipes its flag and flash.
\<close>

theorem locked_session_runs_nothing:
  assumes "hmac_lawful H" and "nvs_lawful N" and "bond_set (hs x)" and "\<not> passphrase_unlocked x"
    and "pass_inv N (sd_pw d)" and "has_pass (sd_pw d)" and "\<not> pass_mtx (sd_pw d)"
    and "\<forall>(now, line) \<in> set ls. \<forall>e p. carries parse line e \<longrightarrow> unlock_guess parse (env_body e) = Some p \<longrightarrow>
      \<not> right_guess H p (sd_pw d)"
  shows "case run_ops (sess_step H N parse ready cmds issuer) (False, Some x, d) ls of (outs, hung, x', d') \<Rightarrow>
    (\<forall>o' \<in> set outs. \<not> executes o') \<and> sd_rest d' = sd_rest d \<and>
    sd_base d' = (if hung then baseline_factory_reset N (sd_base d) else sd_base d) \<and> (\<exists>y. x' = Some y \<and> \<not> passphrase_unlocked y)"
proof -
  let ?step = "sess_step H N parse ready cmds issuer"
  let ?ok = "\<lambda>(now :: int, line). \<forall>e p. carries parse line e \<longrightarrow> unlock_guess parse (env_body e) = Some p \<longrightarrow>
      \<not> right_guess H p (sd_pw d)"
  have step: "locked_inv N d (hs_key (hs x)) (snd (?step s l)) \<and> \<not> executes (fst (?step s l))"
    if "locked_inv N d (hs_key (hs x)) s" "?ok l" for s l
  proof -
    obtain hung y d' where s: "s = (hung, y, d')" by (cases s) auto
    obtain now line where l: "l = (now, line)" by fastforce
    show ?thesis
    proof (cases hung)
      case True
      then show ?thesis using that s by (simp add: executes_def)
    next
      case False
      have "answer_safe N d (hs_key (hs x)) (sk_secure_session_dispatch_signed H N parse ready cmds issuer now line y d')"
        by (rule locked_line_safe [OF assms(1,2) _ assms(6)]) (use that s l False in auto)
      then show ?thesis using s l False
        by (cases "sk_secure_session_dispatch_signed H N parse ready cmds issuer now line y d'")
          (auto simp: answer_safe_def executes_def split: prod.splits)
    qed
  qed
  have start: "locked_inv N d (hs_key (hs x)) (False, Some x, d)" using assms by (simp add: locked_inv_def gated_def kept_def)
  have "locked_inv N d (hs_key (hs x)) (snd (run_ops ?step (False, Some x, d) ls)) \<and>
      (\<forall>o' \<in> set (fst (run_ops ?step (False, Some x, d) ls)). \<not> executes o')"
  proof (rule run_ops_safe [where ok = ?ok])
    fix s l assume "locked_inv N d (hs_key (hs x)) s" "?ok l"
    then show "locked_inv N d (hs_key (hs x)) (snd (?step s l)) \<and> \<not> executes (fst (?step s l))" by (rule step)
  qed (use start assms(8) in auto)
  then show ?thesis by (auto simp: locked_inv_def split: prod.splits)
qed

theorem locked_session_runs_nothing_witness:
  "case run_ops (sess_step pad_hmac nvs_map_ops (toy_sess_parse (replicate 16 0)) True [] None)
      (False, Some (toy_session\<lparr>passphrase_unlocked := False\<rparr>), toy_sess_dev) [(0, ''env''), (0, ''noise'')] of (outs, hung, x', d') \<Rightarrow>
    (\<forall>o' \<in> set outs. \<not> executes o') \<and> sd_rest d' = 7 \<and>
    sd_base d' = (if hung then baseline_factory_reset nvs_map_ops toy_baseline else toy_baseline) \<and> (\<exists>y. x' = Some y \<and> \<not> passphrase_unlocked y)"
proof -
  have "\<not> carries (toy_sess_parse (replicate 16 0)) ''noise'' e" for e by (simp add: carries_def toy_sess_parse_def)
  moreover have "unlock_guess (toy_sess_parse (replicate 16 0)) (env_body (toy_envelope (replicate 16 0))) = None"
    by (simp add: unlock_guess_def toy_sess_parse_def toy_envelope_def)
  moreover have "sd_pw toy_sess_dev = locked_pass 0" "\<not> pass_mtx (locked_pass 0)" "sd_rest toy_sess_dev = 7" "sd_base toy_sess_dev = toy_baseline"
    by (simp_all add: toy_sess_dev_def locked_pass_def)
  ultimately show ?thesis
    using locked_session_runs_nothing [OF pad_hmac_lawful nvs_map_lawful, of "toy_session\<lparr>passphrase_unlocked := False\<rparr>" toy_sess_dev
        "[(0, ''env''), (0, ''noise'')]" "toy_sess_parse (replicate 16 0)" True "[]" None]
    by (simp add: locked_pass_simps toy_carries del: run_ops.simps cong: if_cong)
qed

section \<open>Signed commands\<close>

lemma no_unlock: "parse body = Some inner \<Longrightarrow> jstr (jget inner ''cmd'') \<noteq> Some ''auth.passphrase.verify'' \<Longrightarrow>
    session_passphrase_verify H N parse body x d = None"
  by (simp add: session_passphrase_verify_def)

text \<open>
  Unpairing does not end a session. A peer whose session is up and unlocked keeps commanding the device
  after \<open>ble.unpair\<close> has erased every bond from memory and flash: its next signed line is executed
  with full rights, exactly as before, because an envelope is verified with the copy of the key in the
  session and never with the bond table.
\<close>

theorem unpaired_session_still_commands:
  assumes "hmac_lawful H" and "bond_set (hs x)" and "passphrase_unlocked x"
    and "carries parse line e" and "signed H now x e"
    and "parse (env_body e) = Some inner" and "jstr (jget inner ''cmd'') \<noteq> Some ''auth.passphrase.verify''"
  shows "sk_secure_session_dispatch_signed H N parse ready cmds issuer now line (Some x)
      (d\<lparr>sd_auth := fst (sk_auth_clear_all N (sd_auth d))\<rparr>) =
    (case sk_cli_dispatch_line_authenticated ready parse cmds issuer (env_body e)
        (d\<lparr>sd_auth := fst (sk_auth_clear_all N (sd_auth d))\<rparr>) of
       (d', ctx, outs) \<Rightarrow> Done (Some (marked e x), d') [] [Cli ctx outs])"
  using assms(3)
  by (simp add: dispatch_of_signed [OF assms(1,2,4,5)] no_unlock [of parse "env_body e", OF assms(6,7)])

theorem unpaired_session_still_commands_witness:
  "\<exists>d' ctx outs. sk_secure_session_dispatch_signed toy_hmac nvs_map_ops (toy_sess_parse (replicate 16 1)) True [] None 0 ''env''
      (Some toy_session) (toy_sess_dev\<lparr>sd_auth := fst (sk_auth_clear_all nvs_map_ops (sd_auth toy_sess_dev))\<rparr>) =
    Done (Some (marked (toy_envelope (replicate 16 1)) toy_session), d') [] [Cli ctx outs]"
proof -
  have s: "signed toy_hmac 0 toy_session (toy_envelope (replicate 16 1))"
    using toy_signed [of "replicate 16 1" toy_hmac True]
    by (simp add: toy_session_unlocked hmac_with_key_def toy_hmac_def SK_AUTH_HMAC_LEN_def)
  have b: "toy_sess_parse (replicate 16 1) (env_body (toy_envelope (replicate 16 1))) = Some (JObj [(''cmd'', JStr ''relay.status'')])"
    by (simp add: toy_sess_parse_def toy_envelope_def)
  show ?thesis
    using unpaired_session_still_commands [of toy_hmac toy_session "toy_sess_parse (replicate 16 1)" "''env''"
        "toy_envelope (replicate 16 1)" 0 "JObj [(''cmd'', JStr ''relay.status'')]" nvs_map_ops True "[]" None toy_sess_dev] s b
    by (simp add: toy_carries toy_hmac_lawful split: prod.splits)
qed

section \<open>Who is authenticated\<close>

lemma match_slot_Some:
  assumes H: "hmac_lawful H" and r: "length response = 16"
  shows "match_slot H c response a slot k = Some (i, key) \<Longrightarrow>
    slot \<le> i \<and> i < slot + k \<and> sk_auth__slot_get_key i a = Some key \<and> hmac_prefix H key c = Some response"
proof (induction k arbitrary: slot)
  case (Suc k)
  show ?case
  proof (cases "sk_auth__slot_get_key slot a")
    case None
    then show ?thesis using Suc.IH [of "slot + 1"] Suc.prems by simp
  next
    case key: (Some key')
    show ?thesis
    proof (cases "hmac_prefix H key' c")
      case None
      then show ?thesis using key Suc.IH [of "slot + 1"] Suc.prems by simp
    next
      case (Some out)
      have "length out = 16" using H Some by (auto simp: hmac_prefix_def hmac_lawful_def SK_AUTH_RESPONSE_LEN_def)
      then have "ct_diff out response = 0 \<longleftrightarrow> out = response" using r by (intro ct_diff_zero) simp
      then show ?thesis using key Some Suc.IH [of "slot + 1"] Suc.prems by (auto split: if_splits)
    qed
  qed
qed simp

lemma match_slot_None:
  assumes H: "hmac_lawful H" and r: "length response = 16"
  shows "match_slot H c response a slot k = None \<Longrightarrow> slot \<le> i \<Longrightarrow> i < slot + k \<Longrightarrow>
    sk_auth__slot_get_key i a = Some key \<Longrightarrow> hmac_prefix H key c \<noteq> Some response"
proof (induction k arbitrary: slot)
  case (Suc k)
  have z: "ct_diff response response = 0" using ct_diff_zero [of response response] by simp
  show ?case
  proof (cases "i = slot")
    case True
    then show ?thesis using Suc.prems z by (auto split: option.splits if_splits)
  next
    case False
    have "match_slot H c response a (slot + 1) k = None"
      using Suc.prems(1) by (auto split: option.splits if_splits)
    then show ?thesis using Suc.IH [of "slot + 1"] Suc.prems False by simp
  qed
qed simp

text \<open>The answer a line gives to the challenge, and the challenge it poses.\<close>

definition response_in :: "(string \<Rightarrow> json option) \<Rightarrow> string \<Rightarrow> (u8 list \<times> u8 list) option" where
  "response_in parse line = (case parse line of None \<Rightarrow> None
     | Some msg \<Rightarrow> if jstr (jget msg ''cmd'') \<noteq> Some ''auth.response'' then None
       else case (arg_of msg ''response'', arg_of msg ''challenge'') of
         (Some r, Some c) \<Rightarrow> (case (hex_to_bytes r 16, hex_to_bytes c 16) of
            (Some r, Some c) \<Rightarrow> Some (r, c) | _ \<Rightarrow> None)
       | _ \<Rightarrow> None)"

definition proves :: "hmac \<Rightarrow> u8 list \<Rightarrow> 'n auth \<Rightarrow> u8 list \<Rightarrow> nat \<Rightarrow> u8 list \<Rightarrow> bool" where
  "proves H c a r i key \<longleftrightarrow> i < 8 \<and> occupied (bslots a ! i) \<and> key = bond_key (bslots a ! i) \<and> hmac_prefix H key c = Some r"

lemma match_slot_proves:
  assumes "hmac_lawful H" and "length r = 16"
  shows "(\<forall>i key. match_slot H c r a 0 8 = Some (i, key) \<longrightarrow> proves H c a r i key) \<and>
    (match_slot H c r a 0 8 = None \<longrightarrow> (\<forall>i key. \<not> proves H c a r i key))"
  using match_slot_Some [OF assms, of c a 0 8] match_slot_None [OF assms, of c a 0 8]
  by (fastforce simp: proves_def sk_auth__slot_get_key_def SK_AUTH_BOND_SLOT_COUNT_def split: if_splits)

lemma length_response_in: "response_in parse line = Some (r, c) \<Longrightarrow> length r = 16"
  by (auto simp: response_in_def dest: length_hex_to_bytes split: option.splits if_splits)

definition needs_unlock :: "'n passphrase \<Rightarrow> bool" where
  "needs_unlock p \<longleftrightarrow> sk_passphrase_is_set p \<and> always_required (sk_passphrase_get_mode p)"

lemma feed_no_response:
  assumes "sess_state s = SK_SESSION_AWAITING_PEER" and "response_in parse line = None"
  shows "\<exists>st. sk_secure_session_feed_line H parse now line s d = (SK_SESSION_FEED_AUTH_INVALID, s\<lparr>sess_state := st\<rparr>, d, []) \<and>
    st \<noteq> SK_SESSION_AUTHENTICATED"
proof (cases "parse line")
  case None
  then show ?thesis using assms
    by (intro exI [of _ SK_SESSION_AWAITING_PEER]) (simp add: sk_secure_session_feed_line_def)
next
  case (Some msg)
  show ?thesis using assms Some
    by (intro exI [of _ SK_SESSION_FAILED])
      (auto simp: sk_secure_session_feed_line_def response_in_def invalid_feed_def SK_AUTH_RESPONSE_LEN_def
        SK_AUTH_CHALLENGE_LEN_def split: option.splits)
qed

lemma feed_response:
  assumes "sess_state s = SK_SESSION_AWAITING_PEER" and "response_in parse line = Some (r, c)"
    and "sk_auth_handshake_verify_peer H now r (sd_auth d) (hs s) = (err, h, a)"
  shows "case sk_secure_session_feed_line H parse now line s d of (res, s', d', out) \<Rightarrow> hs s' = h \<and> d' = d\<lparr>sd_auth := a\<rparr> \<and>
    (if err = ESP_OK \<and> \<not> isl (sk_auth_handshake_answer H c h)
     then sess_state s' = SK_SESSION_AUTHENTICATED \<and> passphrase_unlocked s' = (\<not> needs_unlock (sd_pw d)) \<and>
       sess_replay s' = sk_auth_replay_ctx_reset (sess_replay s)
     else sess_state s' = SK_SESSION_FAILED)"
proof -
  obtain msg rh ch where m: "parse line = Some msg" "jstr (jget msg ''cmd'') = Some ''auth.response''"
    "arg_of msg ''response'' = Some rh" "arg_of msg ''challenge'' = Some ch"
    "hex_to_bytes rh SK_AUTH_RESPONSE_LEN = Some r" "hex_to_bytes ch SK_AUTH_CHALLENGE_LEN = Some c"
    using assms(2) by (auto simp: response_in_def SK_AUTH_RESPONSE_LEN_def SK_AUTH_CHALLENGE_LEN_def split: option.splits if_splits)
  show ?thesis
  proof (cases "err = ESP_OK")
    case False
    then show ?thesis using assms(1,3) m by (simp add: sk_secure_session_feed_line_def Let_def invalid_feed_def)
  next
    case True
    then show ?thesis using assms(1,3) m
      by (cases "sk_auth_handshake_answer H c h")
        (simp_all add: sk_secure_session_feed_line_def Let_def invalid_feed_def needs_unlock_def)
  qed
qed

lemma verify_peer_cases:
  assumes "hmac_lawful H" and "length r = 16" and "sk_auth_handshake_verify_peer H now r a x = (err, h, b)"
  shows "(\<exists>i key. now - started_us x \<le> 5000000 \<and> proves H (our_challenge x) a r i key \<and> err = ESP_OK \<and>
      h = x\<lparr>hs_key := key, bond_set := True, hs_slot := i, peer_verified := True\<rparr>) \<or>
    (err \<noteq> ESP_OK \<and> \<not> (now - started_us x \<le> 5000000 \<and> (\<exists>i key. proves H (our_challenge x) a r i key)))"
proof (cases "now - started_us x > HANDSHAKE_TIMEOUT_US")
  case True
  then show ?thesis using assms(3) by (auto simp: sk_auth_handshake_verify_peer_def HANDSHAKE_TIMEOUT_US_def)
next
  case False
  note m = match_slot_proves [OF assms(1,2), of "our_challenge x" a]
  show ?thesis
  proof (cases "match_slot H (our_challenge x) r a 0 8")
    case None
    then show ?thesis using False assms(3) m
      by (auto simp: sk_auth_handshake_verify_peer_def SK_AUTH_BOND_SLOT_COUNT_def)
  next
    case (Some p)
    then obtain i key where p: "match_slot H (our_challenge x) r a 0 8 = Some (i, key)" by (cases p) auto
    then have "proves H (our_challenge x) a r i key" using m by blast
    then show ?thesis using False assms(3) p
      by (auto simp: sk_auth_handshake_verify_peer_def SK_AUTH_BOND_SLOT_COUNT_def HANDSHAKE_TIMEOUT_US_def)
  qed
qed

text \<open>
  C20: Who answers the challenge is who holds a bond. A session that waits for its peer becomes
  authenticated by a line exactly if the line comes within five seconds and its response is the first
  half of the HMAC of our challenge under the key of an occupied slot; it then keeps that key, with an empty
  replay ring, and is unlocked unless the passphrase is always required. No other line
  authenticates it, whatever it holds.
\<close>

theorem session_authenticates:
  assumes "hmac_lawful H" and "\<forall>k m. H k m \<noteq> None" and "sess_state s = SK_SESSION_AWAITING_PEER"
  shows "case sk_secure_session_feed_line H parse now line s d of (res, s', d', out) \<Rightarrow>
    (sess_state s' = SK_SESSION_AUTHENTICATED \<longleftrightarrow> now - started_us (hs s) \<le> 5000000 \<and>
      (\<exists>r c i key. response_in parse line = Some (r, c) \<and> proves H (our_challenge (hs s)) (sd_auth d) r i key)) \<and>
    (sess_state s' = SK_SESSION_AUTHENTICATED \<longrightarrow>
      bond_set (hs s') \<and> passphrase_unlocked s' = (\<not> needs_unlock (sd_pw d)) \<and>
      sess_replay s' = sk_auth_replay_ctx_reset (sess_replay s) \<and>
      (\<exists>r c. response_in parse line = Some (r, c) \<and>
        proves H (our_challenge (hs s)) (sd_auth d) r (hs_slot (hs s')) (hs_key (hs s'))))"
proof (cases "response_in parse line")
  case None
  then show ?thesis using feed_no_response [OF assms(3) None, of H now d] by auto
next
  case (Some rc)
  then obtain r c where rc: "response_in parse line = Some (r, c)" by (cases rc) auto
  obtain err h a where v: "sk_auth_handshake_verify_peer H now r (sd_auth d) (hs s) = (err, h, a)" by (metis prod_cases3)
  note f = feed_response [OF assms(3) rc v]
  from verify_peer_cases [OF assms(1) length_response_in [OF rc] v] show ?thesis
  proof (elim disjE exE conjE)
    fix i key assume g: "now - started_us (hs s) \<le> 5000000" "proves H (our_challenge (hs s)) (sd_auth d) r i key" "err = ESP_OK"
      "h = (hs s)\<lparr>hs_key := key, bond_set := True, hs_slot := i, peer_verified := True\<rparr>"
    have "\<not> isl (sk_auth_handshake_answer H c h)"
      using assms(2) g(4) by (simp add: sk_auth_handshake_answer_def hmac_prefix_def split: option.split)
    then show ?thesis using f rc g by (auto split: prod.splits)
  next
    assume "err \<noteq> ESP_OK" "\<not> (now - started_us (hs s) \<le> 5000000 \<and> (\<exists>i key. proves H (our_challenge (hs s)) (sd_auth d) r i key))"
    then show ?thesis using f rc by (auto split: prod.splits)
  qed
qed

definition waiting :: sk_secure_session where
  "waiting = sk_secure_session_reset\<lparr>sess_state := SK_SESSION_AWAITING_PEER, hs := handshake_zero\<lparr>our_challenge := replicate 16 3\<rparr>\<rparr>"

definition bonded_dev :: "(nvs_map, nat) sess_dev" where
  "bonded_dev = toy_sess_dev\<lparr>sd_auth := (auth_static (\<lambda>_. None))\<lparr>bslots := (replicate 8 empty_bond)
     [2 := new_bond 0 (replicate 16 4) (replicate 32 1) None]\<rparr>\<rparr>"

definition response_parse :: "u8 list \<Rightarrow> string \<Rightarrow> json option" where
  "response_parse r l = Some (JObj [(''cmd'', JStr ''auth.response''),
     (''args'', JObj [(''response'', JStr (bytes_to_hex r)), (''challenge'', JStr (bytes_to_hex (replicate 16 6)))])])"

text \<open>The key of slot 2 signs the challenge; a response under no key does not.\<close>

theorem session_authenticates_witness:
  "sess_state (fst (snd (sk_secure_session_feed_line toy_hmac (response_parse (replicate 16 1)) 4000000 ''line'' waiting bonded_dev))) =
      SK_SESSION_AUTHENTICATED \<and>
   sess_state (fst (snd (sk_secure_session_feed_line toy_hmac (response_parse (replicate 16 9)) 4000000 ''line'' waiting bonded_dev))) \<noteq>
      SK_SESSION_AUTHENTICATED"
proof -
  have w: "sess_state waiting = SK_SESSION_AWAITING_PEER" "started_us (hs waiting) = 0" by (simp_all add: waiting_def handshake_zero_def)
  have r: "response_in (response_parse r) l = Some (r, replicate 16 6)" if "length r = 16" for r l
    using hex_codec.dec_enc [of r 16] hex_codec.dec_enc [of "replicate 16 6" 16] that
    by (simp add: response_in_def response_parse_def arg_of_def)
  have p: "proves toy_hmac (our_challenge (hs waiting)) (sd_auth bonded_dev) r i key \<longleftrightarrow>
      i = 2 \<and> key = replicate 32 1 \<and> r = replicate 16 1" for r i key
    by (cases "i = 2") (auto simp: proves_def bonded_dev_def new_bond_def hmac_prefix_def toy_hmac_def SK_AUTH_RESPONSE_LEN_def)
  have t: "\<forall>k m. toy_hmac k m \<noteq> None" by (simp add: toy_hmac_def)
  show ?thesis
    using session_authenticates [OF toy_hmac_lawful t w(1), where parse = "response_parse (replicate 16 1)" and now = 4000000
        and line = "''line''" and d = bonded_dev]
      session_authenticates [OF toy_hmac_lawful t w(1), where parse = "response_parse (replicate 16 9)" and now = 4000000
        and line = "''line''" and d = bonded_dev]
    by (auto simp: p r w(2) split: prod.splits)
qed

end
