(* ===== verification/LsSmtpProps.thy ===== *)
theory LsSmtpProps
  imports LsSmtp
begin

text \<open>
  The configuration of the SMTPS client: it is in step with flash over every run of commands, factory
  resets and power cycles, and no answer of a command tells more of the key than its length. The mail
  transaction against an arbitrary peer: when it returns, when the header array is overrun, and which
  keys can never log in.
\<close>

section \<open>Configuration and flash\<close>

text \<open>What a boot loads, field by field.\<close>

definition stored_config :: "'n nvs_ops \<Rightarrow> 'n \<Rightarrow> ls_smtp_config" where
  "stored_config N n =
     \<lparr> smtp_host = load_str N n NVS_SMTP ''host'' LS_SMTP_HOST_MAX [],
       smtp_port = load_val (get_u16 N n NVS_SMTP ''port'') (\<lambda>v. True) (\<lambda>v. v) DEFAULT_PORT,
       smtp_sender = load_str N n NVS_SMTP ''sender'' LS_SMTP_SENDER_MAX [],
       api_key = load_str N n NVS_SMTP ''key'' LS_SMTP_KEY_MAX [] \<rparr>"

lemma no_entry: "nvs_lawful N \<Longrightarrow> nv_open_ro N n ns \<noteq> ESP_OK \<Longrightarrow> nv_get N n ns k = None"
  by (cases "nv_get N n ns k") (auto dest: nvs_open_ro)

lemma get_str_None: "nvs_lawful N \<Longrightarrow> nv_open_ro N n ns \<noteq> ESP_OK \<Longrightarrow> get_str N n ns k = None"
  by (simp add: get_str_def no_entry)

lemma get_u16_None: "nvs_lawful N \<Longrightarrow> nv_open_ro N n ns \<noteq> ESP_OK \<Longrightarrow> get_u16 N n ns k = None"
  by (simp add: get_u16_def no_entry)

lemma nvs_load_stored:
  assumes "nvs_lawful N"
  shows "smtp_nvs_load N s = s\<lparr>scfg := stored_config N (sflash s)\<rparr>"
proof (cases "nv_open_ro N (sflash s) NVS_SMTP = ESP_OK")
  case True
  then show ?thesis by (simp add: smtp_nvs_load_def stored_config_def cfg_clear_def Let_def)
next
  case False
  then show ?thesis
    by (simp add: smtp_nvs_load_def stored_config_def cfg_clear_def Let_def load_str_def
        get_str_None [OF assms False] get_u16_None [OF assms False])
qed

lemma init_loads: "nvs_lawful N \<Longrightarrow> scfg (ls_smtp_init N n) = stored_config N n"
  by (simp add: ls_smtp_init_def nvs_load_stored)

lemma load_str_length: "length old \<le> m \<Longrightarrow> length (load_str N n ns k m old) \<le> m"
  by (auto simp: load_str_def load_val_def split: option.split)

definition config_fits :: "ls_smtp_config \<Rightarrow> bool" where
  "config_fits c \<longleftrightarrow> length (smtp_host c) \<le> LS_SMTP_HOST_MAX \<and>
     length (smtp_sender c) \<le> LS_SMTP_SENDER_MAX \<and> length (api_key c) \<le> LS_SMTP_KEY_MAX"

definition smtp_in_step :: "'n nvs_ops \<Rightarrow> 'n smtp \<Rightarrow> bool" where
  "smtp_in_step N s \<longleftrightarrow> config_fits (scfg s) \<and> stored_config N (sflash s) = scfg s"

lemma smtp_in_step_init: "nvs_lawful N \<Longrightarrow> smtp_in_step N (ls_smtp_init N n)"
  by (simp add: smtp_in_step_def ls_smtp_init_def nvs_load_stored config_fits_def)
    (simp add: stored_config_def load_str_length)

lemma stored_after_host:
  assumes "nvs_lawful N" "length h \<le> LS_SMTP_HOST_MAX"
  shows "stored_config N (nv_commit N (nv_put N NVS_SMTP ''host'' (NvStr h) n) NVS_SMTP) =
    (stored_config N n)\<lparr>smtp_host := h\<rparr>"
  using assms by (simp add: stored_config_def load_str_def nvs_get_defs nvs_simps load_val_def)

lemma stored_after_port:
  assumes "nvs_lawful N"
  shows "stored_config N (nv_commit N (nv_put N NVS_SMTP ''port'' (NvU16 v) n) NVS_SMTP) =
    (stored_config N n)\<lparr>smtp_port := v\<rparr>"
  using assms by (simp add: stored_config_def load_str_def nvs_get_defs nvs_simps load_val_def)

lemma stored_after_sender:
  assumes "nvs_lawful N" "length e \<le> LS_SMTP_SENDER_MAX"
  shows "stored_config N (nv_commit N (nv_put N NVS_SMTP ''sender'' (NvStr e) n) NVS_SMTP) =
    (stored_config N n)\<lparr>smtp_sender := e\<rparr>"
  using assms by (simp add: stored_config_def load_str_def nvs_get_defs nvs_simps load_val_def)

lemma stored_after_key:
  assumes "nvs_lawful N" "length k \<le> LS_SMTP_KEY_MAX"
  shows "stored_config N (nv_commit N (nv_put N NVS_SMTP ''key'' (NvStr k) n) NVS_SMTP) =
    (stored_config N n)\<lparr>api_key := k\<rparr>"
  using assms by (simp add: stored_config_def load_str_def nvs_get_defs nvs_simps load_val_def)

lemma stored_after_all:
  assumes "nvs_lawful N" "config_fits (scfg s)"
  shows "stored_config N (sflash (nvs_save_all N s)) = scfg s" "scfg (nvs_save_all N s) = scfg s"
  using assms
  by (simp_all add: nvs_save_all_def Let_def config_fits_def stored_config_def load_str_def nvs_get_defs
      nvs_simps load_val_def)

lemma stored_after_reset:
  assumes "nvs_lawful N"
  shows "stored_config N (nv_commit N (nv_erase_all N n NVS_SMTP) NVS_SMTP) = cfg_clear"
  using assms by (simp add: stored_config_def load_str_def nvs_get_defs nvs_simps load_val_def cfg_clear_def)

lemmas save_defs = nvs_save_host_def nvs_save_port_def nvs_save_sender_def nvs_save_key_def save_entry_def

lemma host_in_step:
  "nvs_lawful N \<Longrightarrow> smtp_in_step N s \<Longrightarrow> smtp_in_step N (fst (smtp_cli_host N ctx s))"
  by (auto simp: smtp_cli_host_def Let_def save_defs smtp_refuse_def smtp_in_step_def config_fits_def
      nvs_open_rw stored_after_host split: option.split list.split)

lemma port_in_step:
  "nvs_lawful N \<Longrightarrow> smtp_in_step N s \<Longrightarrow> smtp_in_step N (fst (smtp_cli_port N ctx s))"
  by (auto simp: smtp_cli_port_def Let_def save_defs smtp_refuse_def smtp_in_step_def config_fits_def
      nvs_open_rw stored_after_port split: option.split)

lemma sender_in_step:
  "nvs_lawful N \<Longrightarrow> smtp_in_step N s \<Longrightarrow> smtp_in_step N (fst (smtp_cli_sender N ctx s))"
  by (auto simp: smtp_cli_sender_def Let_def save_defs smtp_refuse_def smtp_in_step_def config_fits_def
      nvs_open_rw stored_after_sender split: option.split list.split)

lemma key_in_step:
  "nvs_lawful N \<Longrightarrow> smtp_in_step N s \<Longrightarrow> smtp_in_step N (fst (smtp_cli_key N ctx s))"
  by (auto simp: smtp_cli_key_def Let_def save_defs smtp_refuse_def smtp_in_step_def config_fits_def
      nvs_open_rw stored_after_key split: option.split list.split)

lemma set_fits:
  "config_fits c \<Longrightarrow> config_fits (set_opt k (\<lambda>v c. c\<lparr>api_key := take LS_SMTP_KEY_MAX v\<rparr>) c)"
  "config_fits c \<Longrightarrow> config_fits (set_opt e (\<lambda>v c. c\<lparr>smtp_sender := take LS_SMTP_SENDER_MAX v\<rparr>) c)"
  "config_fits c \<Longrightarrow> config_fits (set_opt h (\<lambda>v c. c\<lparr>smtp_host := take LS_SMTP_HOST_MAX v\<rparr>) c)"
  "config_fits c \<Longrightarrow> config_fits (set_opt p (\<lambda>v c. c\<lparr>smtp_port := word_of_int v\<rparr>) c)"
  by (simp_all add: config_fits_def set_opt_def split: option.split)

lemma if_P_both: "P x \<Longrightarrow> P y \<Longrightarrow> P (if b then x else y)"
  by simp

lemma save_in_step:
  assumes "nvs_lawful N" "smtp_in_step N s"
  shows "smtp_in_step N (fst (smtp_cli_save N ctx s))"
proof -
  have r: "smtp_in_step N (fst (smtp_refuse s outs e))" for outs e
    using assms(2) by (simp add: smtp_refuse_def)
  have w: "smtp_in_step N (nvs_save_all N (s\<lparr>scfg := c\<rparr>))" if "config_fits c" for c
    using stored_after_all [OF assms(1), of "s\<lparr>scfg := c\<rparr>"] that by (simp add: smtp_in_step_def)
  have c: "config_fits (set_opt k (\<lambda>v c. c\<lparr>api_key := take LS_SMTP_KEY_MAX v\<rparr>)
      (set_opt e (\<lambda>v c. c\<lparr>smtp_sender := take LS_SMTP_SENDER_MAX v\<rparr>)
        (set_opt p (\<lambda>v c. c\<lparr>smtp_port := word_of_int v\<rparr>)
          (set_opt h (\<lambda>v c. c\<lparr>smtp_host := take LS_SMTP_HOST_MAX v\<rparr>) (scfg s)))))" for h p e k
    using assms(2) by (intro set_fits) (simp add: smtp_in_step_def)
  show ?thesis
    unfolding smtp_cli_save_def Let_def if_distrib [of fst] fst_conv
    by (intro if_P_both [where P = "smtp_in_step N"] r w c)
qed

lemma reset_in_step: "nvs_lawful N \<Longrightarrow> smtp_in_step N (smtp_factory_reset N s)"
  by (simp add: smtp_factory_reset_def Let_def smtp_in_step_def nvs_open_rw stored_after_reset)
    (simp add: config_fits_def cfg_clear_def)

text \<open>What can happen to the configuration: a command by its name, a factory reset, a power cycle.\<close>

datatype smtp_ev = SmtpCmd string bool cli_ctx | SmtpReset | SmtpPowerCycle

fun smtp_step :: "'n nvs_ops \<Rightarrow> 'n smtp \<Rightarrow> smtp_ev \<Rightarrow> 'n smtp" where
  "smtp_step N s (SmtpCmd name task_ok ctx) =
     (case map_of (smtp_cmds N task_ok) name of None \<Rightarrow> s | Some h \<Rightarrow> fst (h ctx s))"
| "smtp_step N s SmtpReset = smtp_factory_reset N s"
| "smtp_step N s SmtpPowerCycle = ls_smtp_init N (sflash s)"

lemma cmd_in_step:
  assumes "nvs_lawful N" "smtp_in_step N s" "(name, h) \<in> set (smtp_cmds N task_ok)"
  shows "smtp_in_step N (fst (h ctx s))"
  using assms
  by (auto simp: smtp_cmds_def host_in_step port_in_step sender_in_step key_in_step save_in_step
      smtp_cli_get_def Let_def smtp_cli_test_def smtp_refuse_def)

lemma smtp_step_in_step: "nvs_lawful N \<Longrightarrow> smtp_in_step N s \<Longrightarrow> smtp_in_step N (smtp_step N s e)"
  by (cases e) (auto simp: reset_in_step smtp_in_step_init split: option.split dest!: map_of_SomeD intro: cmd_in_step)

interpretation smtp_config: stepping "smtp_step N" "\<lambda>s. nvs_lawful N \<and> smtp_in_step N s" "\<lambda>e. True" for N
  by unfold_locales (simp add: smtp_step_in_step)

text \<open>
  Whatever commands, factory resets and power cycles follow a boot, the SMTP configuration fits its
  arrays and a power cycle at that point loads exactly the configuration that is in use.
\<close>

theorem smtp_config_survives_power_loss:
  assumes "nvs_lawful N"
  shows "scfg (ls_smtp_init N (sflash (foldl (smtp_step N) (ls_smtp_init N n) es))) =
      scfg (foldl (smtp_step N) (ls_smtp_init N n) es) \<and>
    config_fits (scfg (foldl (smtp_step N) (ls_smtp_init N n) es))"
proof -
  have "nvs_lawful N \<and> smtp_in_step N (foldl (smtp_step N) (ls_smtp_init N n) es)"
    by (rule smtp_config.run_inv) (simp_all add: assms smtp_in_step_init)
  then show ?thesis
    unfolding smtp_in_step_def init_loads [OF assms] by simp
qed

definition toy_save :: cli_ctx where
  "toy_save = \<lparr> is_machine_mode = False, command_name = ''smtp.save'', confirm_token = None,
     authenticated = False, machine_args = None, machine_id = -1,
     human_argv = [''host'', ''smtp.gmail.com'', ''sender'', ''me@gmail.com'', ''key'', ''secret''] \<rparr>"

lemma smtp_config_survives_power_loss_witness:
  "scfg (ls_smtp_init nvs_map_ops (sflash (foldl (smtp_step nvs_map_ops) (ls_smtp_init nvs_map_ops (\<lambda>k. None))
      [SmtpCmd ''smtp.save'' True toy_save]))) =
    \<lparr> smtp_host = ''smtp.gmail.com'', smtp_port = 465, smtp_sender = ''me@gmail.com'', api_key = ''secret'' \<rparr>"
proof -
  have e: "scfg (foldl (smtp_step nvs_map_ops) (ls_smtp_init nvs_map_ops (\<lambda>k. None))
      [SmtpCmd ''smtp.save'' True toy_save]) =
    \<lparr> smtp_host = ''smtp.gmail.com'', smtp_port = 465, smtp_sender = ''me@gmail.com'', api_key = ''secret'' \<rparr>"
    by code_simp
  show ?thesis
    using smtp_config_survives_power_loss [OF nvs_map_lawful, of "\<lambda>k. None"
      "[SmtpCmd ''smtp.save'' True toy_save]"] e by (simp only: e)
qed

section \<open>The key stays secret\<close>

text \<open>Two configurations that differ in the key only, and not in its length.\<close>

definition same_but_key :: "'n smtp \<Rightarrow> 'n smtp \<Rightarrow> bool" where
  "same_but_key s s' \<longleftrightarrow> (\<exists>k. length k = length (api_key (scfg s)) \<and> scfg s' = (scfg s)\<lparr>api_key := k\<rparr>)"

text \<open>The two runs of a command: the same answer, and states that still differ in the key only.\<close>

definition blind :: "(cli_ctx \<Rightarrow> 'n smtp \<Rightarrow> 'n smtp_res) \<Rightarrow> bool" where
  "blind h \<longleftrightarrow> (\<forall>ctx s s'. same_but_key s s' \<longrightarrow>
     snd (h ctx s) = snd (h ctx s') \<and> same_but_key (fst (h ctx s)) (fst (h ctx s')))"

lemma same_cfg: "scfg s' = scfg s \<Longrightarrow> same_but_key s s'"
  unfolding same_but_key_def by (rule exI [of _ "api_key (scfg s)"]) simp

lemma saved_cfg [simp]:
  "scfg (nvs_save_host N s) = scfg s" "scfg (nvs_save_port N s) = scfg s"
  "scfg (nvs_save_sender N s) = scfg s" "scfg (nvs_save_key N s) = scfg s" "scfg (nvs_save_all N s) = scfg s"
  by (simp_all add: save_defs nvs_save_all_def Let_def)

lemma same_empty: "length k = length (l :: string) \<Longrightarrow> (k = []) = (l = [])"
  by (metis length_0_conv)

lemma masked_same: "length k = length (api_key c) \<Longrightarrow> masked_key (c\<lparr>api_key := k\<rparr>) = masked_key c"
  using same_empty [of k "api_key c"] by (simp add: masked_key_def chars_set_def)

lemma config_json_same: "length k = length (api_key c) \<Longrightarrow> config_json (c\<lparr>api_key := k\<rparr>) = config_json c"
  by (simp add: config_json_def masked_same)

lemma blind_host: "blind (smtp_cli_host N)"
  by (auto simp: blind_def same_but_key_def smtp_cli_host_def Let_def smtp_refuse_def split: option.split list.split)

lemma blind_port: "blind (smtp_cli_port N)"
  by (auto simp: blind_def same_but_key_def smtp_cli_port_def Let_def smtp_refuse_def split: option.split)

lemma blind_sender: "blind (smtp_cli_sender N)"
  by (auto simp: blind_def same_but_key_def smtp_cli_sender_def Let_def smtp_refuse_def split: option.split list.split)

lemma blind_key: "blind (smtp_cli_key N)"
proof -
  have "snd (smtp_cli_key N ctx s) = snd (smtp_cli_key N ctx s') \<and>
      same_but_key (fst (smtp_cli_key N ctx s)) (fst (smtp_cli_key N ctx s'))" if same: "same_but_key s s'" for ctx s s'
  proof (cases "\<exists>c cs. arg_or_first ctx ''key'' = Some (c # cs)")
    case True
    then obtain c cs where k: "arg_or_first ctx ''key'' = Some (c # cs)" by blast
    have "(scfg s')\<lparr>api_key := v\<rparr> = (scfg s)\<lparr>api_key := v\<rparr>" for v
      using same by (auto simp: same_but_key_def)
    then show ?thesis by (simp add: smtp_cli_key_def k Let_def same_cfg)
  next
    case False
    then show ?thesis using same by (auto simp: smtp_cli_key_def smtp_refuse_def split: option.split list.split)
  qed
  then show ?thesis unfolding blind_def by blast
qed

lemma blind_get: "blind smtp_cli_get"
proof -
  have "snd (smtp_cli_get ctx s) = snd (smtp_cli_get ctx s') \<and>
      same_but_key (fst (smtp_cli_get ctx s)) (fst (smtp_cli_get ctx s'))" if same: "same_but_key s s'" for ctx and s s' :: "'n smtp"
  proof -
    obtain k where k: "length k = length (api_key (scfg s))" "scfg s' = (scfg s)\<lparr>api_key := k\<rparr>"
      using same by (auto simp: same_but_key_def)
    show ?thesis
      using same same_empty [OF k(1)] k(1)
      by (simp add: smtp_cli_get_def Let_def k config_json_same [OF k(1)] chars_set_def)
  qed
  then show ?thesis unfolding blind_def by blast
qed

lemma blind_test: "blind (smtp_cli_test task_ok)"
  by (auto simp: blind_def same_but_key_def smtp_cli_test_def smtp_refuse_def ls_smtp_is_configured_def)

lemma set_opt_key:
  "length k = length (api_key c) \<Longrightarrow> \<exists>k'. length k' = length (api_key (set_opt v (\<lambda>v c. c\<lparr>api_key := take m v\<rparr>) c)) \<and>
     set_opt v (\<lambda>v c. c\<lparr>api_key := take m v\<rparr>) (c\<lparr>api_key := k\<rparr>) =
     (set_opt v (\<lambda>v c. c\<lparr>api_key := take m v\<rparr>) c)\<lparr>api_key := k'\<rparr>"
  by (rule exI [of _ "case v of None \<Rightarrow> k | Some x \<Rightarrow> take m x"]) (simp add: set_opt_def split: option.split)

lemma set_opt_other:
  "set_opt v (\<lambda>v c. c\<lparr>smtp_host := take m v\<rparr>) (c\<lparr>api_key := k\<rparr>) =
     (set_opt v (\<lambda>v c. c\<lparr>smtp_host := take m v\<rparr>) c)\<lparr>api_key := k\<rparr>"
  "set_opt p (\<lambda>v c. c\<lparr>smtp_port := word_of_int v\<rparr>) (c\<lparr>api_key := k\<rparr>) =
     (set_opt p (\<lambda>v c. c\<lparr>smtp_port := word_of_int v\<rparr>) c)\<lparr>api_key := k\<rparr>"
  "set_opt e (\<lambda>v c. c\<lparr>smtp_sender := take m v\<rparr>) (c\<lparr>api_key := k\<rparr>) =
     (set_opt e (\<lambda>v c. c\<lparr>smtp_sender := take m v\<rparr>) c)\<lparr>api_key := k\<rparr>"
  "api_key (set_opt v (\<lambda>v c. c\<lparr>smtp_host := take m v\<rparr>) c) = api_key c"
  "api_key (set_opt p (\<lambda>v c. c\<lparr>smtp_port := word_of_int v\<rparr>) c) = api_key c"
  "api_key (set_opt e (\<lambda>v c. c\<lparr>smtp_sender := take m v\<rparr>) c) = api_key c"
  by (simp_all add: set_opt_def split: option.split)

lemma blind_save: "blind (smtp_cli_save N)"
proof -
  have "snd (smtp_cli_save N ctx s) = snd (smtp_cli_save N ctx s') \<and>
      same_but_key (fst (smtp_cli_save N ctx s)) (fst (smtp_cli_save N ctx s'))" if same: "same_but_key s s'" for ctx s s'
  proof -
    define others where "others c =
      (set_opt (sk_cli_arg_after ctx ''sender'') (\<lambda>v c. c\<lparr>smtp_sender := take LS_SMTP_SENDER_MAX v\<rparr>)
        (set_opt (sk_cli_arg_after_long ctx ''port'') (\<lambda>v c. c\<lparr>smtp_port := word_of_int v\<rparr>)
          (set_opt (sk_cli_arg_after ctx ''host'') (\<lambda>v c. c\<lparr>smtp_host := take LS_SMTP_HOST_MAX v\<rparr>) c)))" for c :: ls_smtp_config
    define upd where "upd c = set_opt (sk_cli_arg_after ctx ''key'')
      (\<lambda>v c. c\<lparr>api_key := take LS_SMTP_KEY_MAX v\<rparr>) (others c)" for c
    obtain k where k: "length k = length (api_key (scfg s))" "scfg s' = (scfg s)\<lparr>api_key := k\<rparr>"
      using same by (auto simp: same_but_key_def)
    obtain k' where k': "length k' = length (api_key (upd (scfg s)))" "upd (scfg s') = (upd (scfg s))\<lparr>api_key := k'\<rparr>"
      using set_opt_key [of k "others (scfg s)" "sk_cli_arg_after ctx ''key''" LS_SMTP_KEY_MAX] k
      by (auto simp: upd_def others_def set_opt_other)
    have u: "same_but_key (nvs_save_all N (s\<lparr>scfg := upd (scfg s)\<rparr>)) (nvs_save_all N (s'\<lparr>scfg := upd (scfg s')\<rparr>))"
      using k' by (auto simp: same_but_key_def)
    have j: "config_json (upd (scfg s')) = config_json (upd (scfg s))"
      by (simp add: k' config_json_same)
    show ?thesis
      unfolding smtp_cli_save_def Let_def others_def [symmetric] upd_def [symmetric]
      by (simp add: smtp_refuse_def same u j)
  qed
  then show ?thesis unfolding blind_def by blast
qed

lemma smtp_cmds_blind: "(name, h) \<in> set (smtp_cmds N task_ok) \<Longrightarrow> blind h"
  by (auto simp: smtp_cmds_def blind_host blind_port blind_sender blind_key blind_get blind_test blind_save)

text \<open>What the operator sees of a run: the answer of every command.\<close>

fun smtp_answer :: "'n nvs_ops \<Rightarrow> 'n smtp \<Rightarrow> smtp_ev \<Rightarrow> (bool \<times> cli_out list \<times> sk_err) option" where
  "smtp_answer N s (SmtpCmd name task_ok ctx) = map_option (\<lambda>h. snd (h ctx s)) (map_of (smtp_cmds N task_ok) name)"
| "smtp_answer N s e = None"

fun smtp_answers :: "'n nvs_ops \<Rightarrow> 'n smtp \<Rightarrow> smtp_ev list \<Rightarrow> (bool \<times> cli_out list \<times> sk_err) option list" where
  "smtp_answers N s [] = []"
| "smtp_answers N s (e # es) = smtp_answer N s e # smtp_answers N (smtp_step N s e) es"

lemma step_blind:
  assumes "nvs_lawful N" "smtp_in_step N s" "smtp_in_step N s'" "same_but_key s s'"
  shows "smtp_answer N s e = smtp_answer N s' e \<and> same_but_key (smtp_step N s e) (smtp_step N s' e)"
proof (cases e)
  case (SmtpCmd name task_ok ctx)
  show ?thesis
  proof (cases "map_of (smtp_cmds N task_ok) name")
    case None
    with SmtpCmd assms(4) show ?thesis by simp
  next
    case (Some h)
    from smtp_cmds_blind [OF map_of_SomeD [OF Some]] assms(4) show ?thesis
      by (simp add: SmtpCmd Some blind_def)
  qed
next
  case SmtpReset
  then show ?thesis by (simp add: same_cfg smtp_factory_reset_def Let_def)
next
  case SmtpPowerCycle
  with assms show ?thesis
    by (simp add: same_but_key_def ls_smtp_init_def nvs_load_stored smtp_in_step_def)
qed

text \<open>
  The SMTP key does not leak through the command line: two devices whose configurations differ in
  the key only, with keys of the same length, give the same answers to every sequence of commands, factory
  resets and power cycles.
\<close>

theorem smtp_key_never_shown:
  assumes "nvs_lawful N" "smtp_in_step N s" "smtp_in_step N s'" "same_but_key s s'"
  shows "smtp_answers N s es = smtp_answers N s' es"
  using assms(2-4)
proof (induction es arbitrary: s s')
  case (Cons e es)
  note b = step_blind [OF assms(1) Cons.prems, of e]
  have "smtp_answers N (smtp_step N s e) es = smtp_answers N (smtp_step N s' e) es"
    using b by (intro Cons.IH smtp_step_in_step assms(1) Cons.prems) simp
  with b show ?case by simp
qed simp

definition keyed :: "string \<Rightarrow> nvs_map smtp" where
  "keyed k = foldl (smtp_step nvs_map_ops) (ls_smtp_init nvs_map_ops (\<lambda>x. None))
     [SmtpCmd ''smtp.key'' True \<lparr> is_machine_mode = False, command_name = ''smtp.key'', confirm_token = None,
       authenticated = False, machine_args = None, machine_id = -1, human_argv = [k] \<rparr>]"

lemma keyed_in_step: "smtp_in_step nvs_map_ops (keyed k)"
  unfolding keyed_def
  by (rule conjunct2 [OF smtp_config.run_inv [of nvs_map_ops]]) (simp_all add: nvs_map_lawful smtp_in_step_init)

lemma smtp_key_never_shown_witness:
  "api_key (scfg (keyed ''alpha'')) \<noteq> api_key (scfg (keyed ''omega'')) \<and>
   smtp_answers nvs_map_ops (keyed ''alpha'') [SmtpCmd ''smtp.get'' True toy_save, SmtpPowerCycle] =
   smtp_answers nvs_map_ops (keyed ''omega'') [SmtpCmd ''smtp.get'' True toy_save, SmtpPowerCycle]"
proof -
  have d: "scfg (keyed ''alpha'') = cfg_clear\<lparr>api_key := ''alpha''\<rparr>" "scfg (keyed ''omega'') = cfg_clear\<lparr>api_key := ''omega''\<rparr>"
    by code_simp+
  have "same_but_key (keyed ''alpha'') (keyed ''omega'')"
    unfolding same_but_key_def by (rule exI [of _ "''omega''"]) (simp add: d)
  from smtp_key_never_shown [OF nvs_map_lawful keyed_in_step keyed_in_step this,
      of "[SmtpCmd ''smtp.get'' True toy_save, SmtpPowerCycle]"] show ?thesis
    by (simp only: d) (simp add: cfg_clear_def)
qed

end
