(* ===== verification/LsSmtpSend.thy ===== *)
theory LsSmtpSend
  imports LsSmtp
begin

text \<open>
  The mail transaction against an arbitrary TLS peer: when \<open>ls_smtp_send\<close> returns, when it runs over the
  end of the header array, and a key that can never log in.
\<close>

section \<open>The write loop\<close>

text \<open>A connection that takes at least a byte or fails, and one that takes nothing for ever.\<close>

definition never_zero :: "'w tls_ops \<Rightarrow> bool" where
  "never_zero T \<longleftrightarrow> (\<forall>s w. s \<noteq> [] \<longrightarrow> fst (tls_write T s w) \<noteq> 0)"

definition always_zero :: "'w tls_ops \<Rightarrow> bool" where
  "always_zero T \<longleftrightarrow> (\<forall>s w. s \<noteq> [] \<longrightarrow> fst (tls_write T s w) = 0)"

lemma write_all_Nil [simp]: "tls_write_all T [] w = Some (True, w)"
  by (simp add: tls_write_all.simps)

lemma write_all_returns: "never_zero T \<Longrightarrow> tls_write_all T s w \<noteq> None"
proof (induction "length s" arbitrary: s w rule: less_induct)
  case less
  show ?case
  proof (cases "s = []")
    case False
    with less.prems have n: "fst (tls_write T s w) \<noteq> 0" by (simp add: never_zero_def)
    show ?thesis
    proof (cases "fst (tls_write T s w) < 0")
      case True
      with False show ?thesis by (subst tls_write_all.simps) (simp add: Let_def)
    next
      case pos: False
      have "length (drop (nat (fst (tls_write T s w))) s) < length s"
        using n pos False by (cases s) auto
      from less.hyps [OF this less.prems] n pos False show ?thesis
        by (subst tls_write_all.simps) (simp add: Let_def)
    qed
  qed simp
qed

lemma write_all_ends_empty:
  assumes "tls_write_all T s w = Some r" "always_zero T"
  shows "s = []"
proof -
  have "always_zero T \<longrightarrow> s = []"
  proof (rule tls_write_all.raw_induct [where P = "\<lambda>T s w r. always_zero T \<longrightarrow> s = []"])
    show "tls_write_all T s w = Some r" by (rule assms(1))
  next
    fix f and T :: "'a tls_ops" and s w r
    assume ih: "\<And>T s w r. f T s w = Some r \<Longrightarrow> always_zero T \<longrightarrow> s = []"
      and b: "(if s = [] then Some (True, w)
        else let r = tls_write T s w in
          if fst r < 0 then Some (False, snd r) else if fst r = 0 then f T s (snd r)
          else f T (drop (nat (fst r)) s) (snd r)) = Some r"
    show "always_zero T \<longrightarrow> s = []"
    proof (intro impI, rule ccontr)
      assume z: "always_zero T" and s: "s \<noteq> []"
      then have "fst (tls_write T s w) = 0" by (simp add: always_zero_def)
      with b s have "f T s (snd (tls_write T s w)) = Some r" by (simp add: Let_def)
      from ih [OF this] z s show False by simp
    qed
  qed
  with assms(2) show ?thesis by simp
qed

lemma write_all_stuck: "always_zero T \<Longrightarrow> s \<noteq> [] \<Longrightarrow> tls_write_all T s w = None"
  by (cases "tls_write_all T s w") (auto dest: write_all_ends_empty)

section \<open>The transaction returns\<close>

named_theorems io_returns \<open>the steps of the transaction return a value\<close>

lemma cmd_returns [io_returns]: "never_zero T \<Longrightarrow> tls_cmd T s w \<noteq> None"
  using write_all_returns [of T s w] by (auto simp: tls_cmd_def)

lemma expect_returns [io_returns]:
  "never_zero T \<Longrightarrow> (\<And>w. k w \<noteq> None) \<Longrightarrow> expect T s c e k w \<noteq> None"
  using cmd_returns [of T s w] by (auto simp: expect_def stop_def)

lemma put_returns [io_returns]:
  "never_zero T \<Longrightarrow> (\<And>w. k w \<noteq> None) \<Longrightarrow> put_all T s e k w \<noteq> None"
  using write_all_returns [of T s w] by (auto simp: put_all_def stop_def)

lemma auth_returns [io_returns]:
  "never_zero T \<Longrightarrow> (\<And>w. k w \<noteq> None) \<Longrightarrow> auth_line T f c k w \<noteq> None"
  using expect_returns [of T k] by (auto simp: auth_line_def stop_def split: option.split)

lemma rcpt_loop_returns [io_returns]: "never_zero T \<Longrightarrow> rcpt_loop T rs ok w \<noteq> None"
proof (induction rs arbitrary: ok w)
  case (Cons r rs)
  show ?case
  proof (cases "rcpt_at w r")
    case None
    then show ?thesis using Cons.IH [OF Cons.prems] by simp
  next
    case (Some a)
    obtain c w' where "tls_cmd T (rcpt_cmd a) w = Some (c, w')"
      using cmd_returns [OF Cons.prems, of "rcpt_cmd a" w] by auto
    with Some Cons.IH [OF Cons.prems] show ?thesis by simp
  qed
qed simp

lemma quit_returns [io_returns]: "never_zero T \<Longrightarrow> quit T w \<noteq> None"
  using write_all_returns [of T "''QUIT'' @ CRLF" w] by (auto simp: quit_def)

lemma data_returns [io_returns]: "never_zero T \<Longrightarrow> send_data T subject body rs w \<noteq> None"
proof (cases "header_bytes (header_pieces T subject rs w)")
  case (Some h)
  assume T: "never_zero T"
  show ?thesis
    unfolding send_data_def Some option.case by (intro io_returns T)
qed (simp add: send_data_def)

lemma rcpts_returns [io_returns]:
  assumes "never_zero T" "\<And>w. k w \<noteq> None"
  shows "send_rcpts T rs k w \<noteq> None"
proof -
  obtain ok w' where "rcpt_loop T rs 0 w = Some (ok, w')"
    using rcpt_loop_returns [OF assms(1), of rs 0 w] by auto
  moreover have "expect T (''DATA'' @ CRLF) 354 SK_ERR_SMTP_CONNECT k w' \<noteq> None"
    by (intro expect_returns assms)
  ultimately show ?thesis by (simp add: send_rcpts_def stop_def)
qed

lemma dialogue_returns [io_returns]: "never_zero T \<Longrightarrow> dialogue T subject body rs w \<noteq> None"
proof -
  assume T: "never_zero T"
  obtain c w' where r: "tls_read_response T w = (c, w')" by (cases "tls_read_response T w")
  show ?thesis
    unfolding dialogue_def r split_conv stop_def by (split if_split, intro conjI impI io_returns T) simp
qed

lemma do_send_returns: "never_zero T \<Longrightarrow> do_send T subject body rs w \<noteq> None"
proof -
  assume T: "never_zero T"
  obtain i w1 where i: "tls_init T w = (i, w1)" by (cases "tls_init T w")
  obtain c w2 where c: "tls_connect T (smtp_host (tls_cfg T w1)) (smtp_port (tls_cfg T w1)) w1 = (c, w2)"
    by (cases "tls_connect T (smtp_host (tls_cfg T w1)) (smtp_port (tls_cfg T w1)) w1")
  show ?thesis
    using dialogue_returns [OF T, of subject body "take LS_SMTP_MAX_RCPT rs" w2]
    by (simp add: do_send_def stop_def Let_def i c)
qed

text \<open>A connection that never takes a byte: after the banner the task is stuck in the write loop.\<close>

lemma dialogue_stuck:
  assumes "always_zero T" "tls_read_response T w = (220, w')"
  shows "dialogue T subject body rs w = None"
  using write_all_stuck [OF assms(1), of "wbuf (''EHLO lebensspur'' @ CRLF)" w']
  by (simp add: dialogue_def assms(2) expect_def tls_cmd_def wbuf_def snprintf_def IO_BUF_def CRLF_def)

section \<open>The header array\<close>

text \<open>
  The bytes that are sent for a header of at most 512 characters; a longer one is written, or at the
  latest sent, from outside the array.
\<close>

lemma header_bytes_eq:
  "header_bytes ps =
     (if length (concat ps) > IO_BUF then None
      else if length (concat ps) = IO_BUF then Some (take 511 (concat ps) @ [CHR 0x00])
      else Some (concat ps))"
proof (cases "length (concat ps) > IO_BUF")
  case True
  with print_overruns [of 0 IO_BUF ps "[]"] show ?thesis
    by (auto simp: header_bytes_def split: option.splits)
next
  case False
  with print_fits [of IO_BUF "[]" 0 ps] show ?thesis
    by (auto simp: header_bytes_def IO_BUF_def)
qed

section \<open>No overrun for short addresses\<close>

lemma expect_overrun: "expect T s c e k w = Some (Overrun, w') \<Longrightarrow> \<exists>w1. k w1 = Some (Overrun, w')"
  by (auto simp: expect_def stop_def split: option.splits if_splits)

lemma put_overrun: "put_all T s e k w = Some (Overrun, w') \<Longrightarrow> \<exists>w1. k w1 = Some (Overrun, w')"
  by (auto simp: put_all_def stop_def split: option.splits if_splits)

lemma auth_overrun: "auth_line T f c k w = Some (Overrun, w') \<Longrightarrow> \<exists>w1. k w1 = Some (Overrun, w')"
  by (auto simp: auth_line_def stop_def dest: expect_overrun split: option.splits)

lemma data_overrun: "send_data T subject body rs w = Some (Overrun, w') \<Longrightarrow> header_bytes (header_pieces T subject rs w) = None"
  by (auto simp: send_data_def quit_def dest!: put_overrun expect_overrun split: option.splits)

lemma rcpts_overrun: "send_rcpts T rs k w = Some (Overrun, w') \<Longrightarrow> \<exists>w1. k w1 = Some (Overrun, w')"
  by (auto simp: send_rcpts_def stop_def dest: expect_overrun split: option.splits if_splits)

lemma dialogue_overrun:
  assumes "dialogue T subject body rs w = Some (Overrun, w')"
  shows "\<exists>w1. header_bytes (header_pieces T subject rs w1) = None"
proof -
  obtain c w1 where r: "tls_read_response T w = (c, w1)" by (cases "tls_read_response T w")
  show ?thesis
    using assms
    by (auto simp: dialogue_def r stop_def split: if_splits
        dest!: expect_overrun auth_overrun rcpts_overrun dest: data_overrun)
qed

lemma do_send_overrun:
  "do_send T subject body rs w = Some (Overrun, w') \<Longrightarrow>
     \<exists>w1. header_bytes (header_pieces T subject (take LS_SMTP_MAX_RCPT rs) w1) = None"
  by (auto simp: do_send_def stop_def Let_def split: if_splits prod.splits dest: dialogue_overrun)

text \<open>
  C40: \<open>ls_smtp_send\<close> returns with an error code for every server, whatever it answers and however it splits its answers,
  and announces its start and its end, as long as the connection never reports a write of zero bytes and the header of
  the mail (sender, first five recipients and subject as they stand when it is printed) fits its array of 512 bytes. It
  never writes past that array then.
\<close>

theorem smtp_send_returns:
  assumes "\<forall>s w. s \<noteq> [] \<longrightarrow> fst (tls_write T s w) \<noteq> 0"
    and "\<forall>w. length (concat (header_pieces T subject (take LS_SMTP_MAX_RCPT rs) w)) \<le> IO_BUF"
  shows "\<exists>rc w'. ls_smtp_send T subject body rs w = Some (Ended rc, [start_event subject rs w, end_event rc], w')"
proof -
  have "never_zero T" using assms(1) by (simp add: never_zero_def)
  then obtain e w' where s: "do_send T subject body rs w = Some (e, w')"
    using do_send_returns [of T subject body rs w] by auto
  have "header_bytes (header_pieces T subject (take LS_SMTP_MAX_RCPT rs) w1) \<noteq> None" for w1
    using assms(2) [THEN spec, of w1] by (simp add: header_bytes_eq)
  then have "e \<noteq> Overrun" using do_send_overrun [of T subject body rs w w'] s by blast
  then obtain rc where "e = Ended rc" by (cases e) simp_all
  with s show ?thesis by (simp add: ls_smtp_send_def)
qed

lemma to_pieces_length:
  "\<forall>r \<in> set rs. length (text_at w r) \<le> M \<Longrightarrow> shown \<le> 5 \<Longrightarrow>
     length (concat (to_pieces w shown rs)) \<le> (5 - shown) * (M + 4)"
proof (induction rs arbitrary: shown)
  case (Cons r rs)
  show ?case
  proof (cases "shown \<ge> 5 \<or> rcpt_at w r = None")
    case True
    have "length (concat (to_pieces w shown rs)) \<le> (5 - shown) * (M + 4)"
      by (rule Cons.IH) (use Cons.prems in auto)
    with True show ?thesis by auto
  next
    case False
    then obtain a where a: "rcpt_at w r = Some a" "shown < 5" by auto
    then have "length a \<le> M"
      using Cons.prems(1) by (auto simp: rcpt_at_def text_at_def split: option.splits if_splits)
    moreover have "length (concat (to_pieces w (shown + 1) rs)) \<le> (5 - (shown + 1)) * (M + 4)"
      by (rule Cons.IH) (use Cons.prems a in auto)
    moreover have "(5 - shown) * (M + 4) = (M + 4) + (5 - (shown + 1)) * (M + 4)"
      using a(2) by (cases "5 - shown") auto
    moreover have "length (concat (to_pieces w shown (r # rs))) \<le>
        length a + 4 + length (concat (to_pieces w (shown + 1) rs))"
      using a by simp
    ultimately show ?thesis by linarith
  qed
qed simp

lemma header_length:
  "length (concat (header_pieces T subject rs w)) =
     70 + length (smtp_sender (tls_cfg T w)) + length (text_at w subject) + length (concat (to_pieces w 0 rs))"
  by (simp add: header_pieces_def CRLF_def)

text \<open>
  The header array of a mail is never overrun when no recipient is longer than \<open>M\<close> characters and the
  sender and the subject have together at most \<open>422 - 5 M\<close>, whatever the server does and however the
  configuration changes meanwhile.
\<close>

theorem short_addresses_no_overrun:
  assumes "\<forall>w. \<forall>r \<in> set rs. length (text_at w r) \<le> M"
    and "\<forall>w. length (smtp_sender (tls_cfg T w)) + length (text_at w subject) + 5 * M \<le> 422"
  shows "do_send T subject body rs w \<noteq> Some (Overrun, w')"
proof
  assume "do_send T subject body rs w = Some (Overrun, w')"
  from do_send_overrun [OF this]
  obtain w1 where "header_bytes (header_pieces T subject (take LS_SMTP_MAX_RCPT rs) w1) = None" ..
  then have "length (concat (header_pieces T subject (take LS_SMTP_MAX_RCPT rs) w1)) > 512"
    by (simp add: header_bytes_eq IO_BUF_def split: if_splits)
  moreover have "length (concat (to_pieces w1 0 (take LS_SMTP_MAX_RCPT rs))) \<le> (5 - 0) * (M + 4)"
    by (rule to_pieces_length) (use assms(1) in \<open>auto dest: in_set_takeD\<close>)
  moreover have "length (smtp_sender (tls_cfg T w1)) + length (text_at w1 subject) + 5 * M \<le> 422"
    using assms(2) by blast
  ultimately show False unfolding header_length by simp
qed

section \<open>Keys that can never log in\<close>

text \<open>
  The documented behaviour of \<open>mbedtls_base64_encode\<close>: a buffer that has no room for four characters for
  every three bytes begun and a NUL is refused.
\<close>

definition base64_bound :: "'w tls_ops \<Rightarrow> bool" where
  "base64_bound T \<longleftrightarrow> (\<forall>cap s. s \<noteq> [] \<and> cap < 4 * ((length s + 2) div 3) + 1 \<longrightarrow> b64_encode T cap s = None)"

lemma expect_ok: "expect T s c e k w = Some (Ended SK_OK, w') \<Longrightarrow> e \<noteq> SK_OK \<Longrightarrow> \<exists>w1. k w1 = Some (Ended SK_OK, w')"
  by (auto simp: expect_def stop_def split: option.splits if_splits)

lemma auth_ok: "auth_line T f c k w = Some (Ended SK_OK, w') \<Longrightarrow> \<exists>w1. k w1 = Some (Ended SK_OK, w')"
  by (auto simp: auth_line_def stop_def dest: expect_ok split: option.splits)

lemma auth_ok_fits:
  "base64_bound T \<Longrightarrow> auth_line T f c k w = Some (Ended SK_OK, w') \<Longrightarrow> length (f w) \<le> 189"
proof (rule ccontr)
  assume b: "base64_bound T" and a: "auth_line T f c k w = Some (Ended SK_OK, w')" and l: "\<not> length (f w) \<le> 189"
  from l have "64 * 3 \<le> length (f w) + 2" by simp
  then have "64 \<le> (length (f w) + 2) div 3" by (simp add: less_eq_div_iff_mult_less_eq)
  then have "256 < 4 * ((length (f w) + 2) div 3) + 1" by simp
  moreover have "f w \<noteq> []" using l by auto
  ultimately have "256 < 4 * ((length (f w) + 2) div 3) + 1" "f w \<noteq> []" by simp_all
  with b have "b64_encode T 256 (f w) = None" unfolding base64_bound_def by blast
  with a show False by (simp add: auth_line_def stop_def)
qed

lemma dialogue_ok_key:
  assumes "base64_bound T" "dialogue T subject body rs w = Some (Ended SK_OK, w')"
  shows "\<exists>w1. length (api_key (tls_cfg T w1)) \<le> 189"
proof -
  obtain c w1 where r: "tls_read_response T w = (c, w1)" by (cases "tls_read_response T w")
  have "\<exists>w2 k. auth_line T (\<lambda>w. api_key (tls_cfg T w)) 235 k w2 = Some (Ended SK_OK, w')"
    using assms(2) unfolding dialogue_def r split_conv stop_def
    by (split if_split_asm) (simp, drule expect_ok, simp, erule exE, drule expect_ok, simp, erule exE,
      drule auth_ok, erule exE, intro exI)
  then show ?thesis using auth_ok_fits [OF assms(1)] by blast
qed

text \<open>
  With a key of 190 or 191 characters, which \<open>smtp.key\<close> accepts, no mail is ever sent, whatever the
  server: its base64 form does not fit the 256-byte array.
\<close>

theorem long_key_never_sends:
  assumes "base64_bound T" "\<forall>w. length (api_key (tls_cfg T w)) \<ge> 190"
  shows "ls_smtp_send T subject body rs w \<noteq> Some (Ended SK_OK, effs, w')"
proof
  assume "ls_smtp_send T subject body rs w = Some (Ended SK_OK, effs, w')"
  then have "do_send T subject body rs w = Some (Ended SK_OK, w')"
    by (auto simp: ls_smtp_send_def split: option.splits send_end.splits)
  then obtain w1 w2 where "dialogue T subject body (take LS_SMTP_MAX_RCPT rs) w1 = Some (Ended SK_OK, w2)"
    by (auto simp: do_send_def stop_def Let_def split: if_splits prod.splits)
  from dialogue_ok_key [OF assms(1) this] obtain w3 where "length (api_key (tls_cfg T w3)) \<le> 189" ..
  moreover have "length (api_key (tls_cfg T w3)) \<ge> 190" using assms(2) by blast
  ultimately show False by simp
qed

end
