(* ===== verification/LsSmtpServer.thy ===== *)
theory LsSmtpServer
  imports LsSmtpSend
begin

text \<open>
  The mail transaction against an SMTP server: the server side of the dialogue as a state machine over
  the bytes it receives (RFC 5321 with AUTH LOGIN, its policy a parameter), a TLS connection to it, and
  what the transaction of \<open>do_send\<close> leaves in its mailbox.
\<close>

section \<open>The server\<close>

datatype smtpd_phase = AwaitEhlo | AwaitAuth | AwaitUser | AwaitPass string | AwaitMail | AwaitRcpt | InData | Closed

record mail =
  m_from :: string
  m_to :: "string list"
  m_text :: string

text \<open>The policy: who may log in (the two base64 lines), which senders and recipients are accepted.\<close>

record policy =
  login_ok :: "string \<Rightarrow> string \<Rightarrow> bool"
  from_ok :: "string \<Rightarrow> bool"
  to_ok :: "string \<Rightarrow> bool"

record smtpd =
  ph :: smtpd_phase
  line_buf :: string
  draft :: mail
  delivered :: "mail list"
  reply_buf :: string

definition reply :: "string \<Rightarrow> smtpd_phase \<Rightarrow> smtpd \<Rightarrow> smtpd" where
  "reply t p s = s\<lparr>reply_buf := reply_buf s @ t @ CRLF, ph := p\<rparr>"

definition starts :: "string \<Rightarrow> string \<Rightarrow> bool" where
  "starts p s = (take (length p) s = p)"

text \<open>The address between the brackets: \<open>MAIL FROM:<a>\<close>.\<close>

definition bracketed :: "string \<Rightarrow> string \<Rightarrow> string" where
  "bracketed p s = butlast (drop (length p) s)"

definition on_line :: "policy \<Rightarrow> string \<Rightarrow> smtpd \<Rightarrow> smtpd" where
  "on_line P l s =
     (case ph s of
        AwaitEhlo \<Rightarrow> if starts ''EHLO '' l then reply (''250-hello'' @ CRLF @ ''250 AUTH LOGIN'') AwaitAuth s
                     else reply ''503 bad sequence'' AwaitEhlo s
      | AwaitAuth \<Rightarrow> if l = ''AUTH LOGIN'' then reply ''334 VXNlcm5hbWU6'' AwaitUser s
                     else reply ''530 authentication required'' AwaitAuth s
      | AwaitUser \<Rightarrow> reply ''334 UGFzc3dvcmQ6'' (AwaitPass l) s
      | AwaitPass u \<Rightarrow> if login_ok P u l then reply ''235 accepted'' AwaitMail s
                       else reply ''535 rejected'' AwaitAuth s
      | AwaitMail \<Rightarrow> if l = ''QUIT'' then reply ''221 bye'' Closed s
                     else if starts ''MAIL FROM:<'' l \<and> from_ok P (bracketed ''MAIL FROM:<'' l)
                     then reply ''250 sender ok'' AwaitRcpt
                       (s\<lparr>draft := \<lparr> m_from = bracketed ''MAIL FROM:<'' l, m_to = [], m_text = [] \<rparr>\<rparr>)
                     else reply ''550 sender rejected'' AwaitMail s
      | AwaitRcpt \<Rightarrow> if starts ''RCPT TO:<'' l then
                       (if to_ok P (bracketed ''RCPT TO:<'' l)
                        then reply ''250 recipient ok'' AwaitRcpt
                          (s\<lparr>draft := (draft s)\<lparr>m_to := m_to (draft s) @ [bracketed ''RCPT TO:<'' l]\<rparr>\<rparr>)
                        else reply ''550 recipient rejected'' AwaitRcpt s)
                     else if l = ''DATA'' \<and> m_to (draft s) \<noteq> [] then reply ''354 go ahead'' InData s
                     else reply ''503 bad sequence'' AwaitRcpt s
      | InData \<Rightarrow> if l = ''.'' then reply ''250 queued'' AwaitMail (s\<lparr>delivered := delivered s @ [draft s]\<rparr>)
                  else s\<lparr>draft := (draft s)\<lparr>m_text := m_text (draft s) @
                         (if starts ''.'' l then tl l else l) @ CRLF\<rparr>\<rparr>
      | Closed \<Rightarrow> s)"

lemma CRLF_simps [simp]: "length CRLF = 2" "CRLF \<noteq> []"
  by (simp_all add: CRLF_def)

text \<open>A byte: a CRLF ends the line.\<close>

definition on_char :: "policy \<Rightarrow> smtpd \<Rightarrow> char \<Rightarrow> smtpd" where
  "on_char P s c =
     (if c = CHR 0x0A \<and> line_buf s \<noteq> [] \<and> last (line_buf s) = CHR 0x0D
      then on_line P (butlast (line_buf s)) (s\<lparr>line_buf := []\<rparr>)
      else s\<lparr>line_buf := line_buf s @ [c]\<rparr>)"

definition feed :: "policy \<Rightarrow> string \<Rightarrow> smtpd \<Rightarrow> smtpd" where
  "feed P bytes s = foldl (on_char P) s bytes"

lemma feed_append: "feed P (a @ b) s = feed P b (feed P a s)"
  by (simp add: feed_def)

lemma feed_Nil [simp]: "feed P [] s = s"
  by (simp add: feed_def)

section \<open>The connection\<close>

record peer =
  srv :: smtpd
  pcfg :: ls_smtp_config

definition smtpd_tls :: "policy \<Rightarrow> (nat \<Rightarrow> string \<Rightarrow> string option) \<Rightarrow> peer tls_ops" where
  "smtpd_tls P b64 = \<lparr>
     tls_cfg = pcfg,
     tls_init = (\<lambda>w. (True, w)),
     tls_connect = (\<lambda>h p w. (True, w\<lparr>srv := (srv w)\<lparr>ph := AwaitEhlo, line_buf := [],
        reply_buf := ''220 ready'' @ CRLF\<rparr>\<rparr>)),
     tls_write = (\<lambda>s w. (int (length s), w\<lparr>srv := feed P s (srv w)\<rparr>)),
     tls_read = (\<lambda>room w. (Some (take room (reply_buf (srv w))),
        w\<lparr>srv := (srv w)\<lparr>reply_buf := drop room (reply_buf (srv w))\<rparr>\<rparr>)),
     tls_destroy = (\<lambda>w. w),
     b64_encode = b64 \<rparr>"

lemma write_all_srv: "tls_write_all (smtpd_tls P b) s w = Some (True, w\<lparr>srv := feed P s (srv w)\<rparr>)"
proof (cases "s = []")
  case True
  then show ?thesis by (simp add: feed_def)
next
  case False
  then show ?thesis
    by (subst tls_write_all.simps) (simp add: smtpd_tls_def Let_def)
qed

text \<open>A reply that fits the buffer is read in one piece.\<close>

lemma read_srv:
  assumes "reply_buf (srv w) = r" "r \<noteq> []" "length r \<le> 511" "final_code r = Some c"
  shows "tls_read_response (smtpd_tls P b) w = (c, w\<lparr>srv := (srv w)\<lparr>reply_buf := []\<rparr>\<rparr>)"
  unfolding tls_read_response_def
  by (subst read_loop.simps) (use assms in \<open>simp add: smtpd_tls_def IO_BUF_def\<close>)

lemma cmd_srv:
  assumes "reply_buf (feed P s (srv w)) = r" "r \<noteq> []" "length r \<le> 511" "final_code r = Some c"
  shows "tls_cmd (smtpd_tls P b) s w = Some (c, w\<lparr>srv := (feed P s (srv w))\<lparr>reply_buf := []\<rparr>\<rparr>)"
  using read_srv [of "w\<lparr>srv := feed P s (srv w)\<rparr>" r c P b] assms by (simp add: tls_cmd_def write_all_srv)

text \<open>A line without a line feed, with its CRLF, is one line to the server.\<close>

lemma feed_plain:
  "CHR 0x0A \<notin> set l \<Longrightarrow> feed P l s = s\<lparr>line_buf := line_buf s @ l\<rparr>"
  by (induction l arbitrary: s) (auto simp: feed_def on_char_def)

lemma feed_line:
  assumes "CHR 0x0A \<notin> set l"
  shows "feed P (l @ CRLF) s = on_line P (line_buf s @ l) (s\<lparr>line_buf := []\<rparr>)"
proof -
  have "feed P CRLF (s\<lparr>line_buf := line_buf s @ l\<rparr>) = on_line P (line_buf s @ l) (s\<lparr>line_buf := []\<rparr>)"
    by (simp add: feed_def CRLF_def on_char_def butlast_append)
  then show ?thesis by (simp add: feed_append feed_plain [OF assms])
qed

lemma final_codes:
  "final_code (''220 ready'' @ CRLF) = Some 220"
  "final_code (''250-hello'' @ CRLF @ ''250 AUTH LOGIN'' @ CRLF) = Some 250"
  "final_code (''334 VXNlcm5hbWU6'' @ CRLF) = Some 334"
  "final_code (''334 UGFzc3dvcmQ6'' @ CRLF) = Some 334"
  "final_code (''235 accepted'' @ CRLF) = Some 235"
  "final_code (''535 rejected'' @ CRLF) = Some 535"
  "final_code (''250 sender ok'' @ CRLF) = Some 250"
  "final_code (''550 sender rejected'' @ CRLF) = Some 550"
  "final_code (''250 recipient ok'' @ CRLF) = Some 250"
  "final_code (''550 recipient rejected'' @ CRLF) = Some 550"
  "final_code (''354 go ahead'' @ CRLF) = Some 354"
  "final_code (''503 bad sequence'' @ CRLF) = Some 503"
  "final_code (''250 queued'' @ CRLF) = Some 250"
  by code_simp+

section \<open>The dialogue, step by step\<close>

text \<open>The server between two commands.\<close>

definition idle_srv :: "smtpd_phase \<Rightarrow> mail \<Rightarrow> mail list \<Rightarrow> smtpd" where
  "idle_srv p d ds = \<lparr> ph = p, line_buf = [], draft = d, delivered = ds, reply_buf = [] \<rparr>"

definition peer_at :: "ls_smtp_config \<Rightarrow> smtpd_phase \<Rightarrow> mail \<Rightarrow> mail list \<Rightarrow> peer" where
  "peer_at c p d ds = \<lparr> srv = idle_srv p d ds, pcfg = c \<rparr>"

lemma idle_simps [simp]:
  "ph (idle_srv p d ds) = p" "line_buf (idle_srv p d ds) = []" "draft (idle_srv p d ds) = d"
  "delivered (idle_srv p d ds) = ds" "reply_buf (idle_srv p d ds) = []"
  "(idle_srv p d ds)\<lparr>line_buf := []\<rparr> = idle_srv p d ds"
  "(idle_srv p d ds)\<lparr>draft := d'\<rparr> = idle_srv p d' ds"
  "(idle_srv p d ds)\<lparr>delivered := ds'\<rparr> = idle_srv p d ds'"
  "(reply t p' (idle_srv p d ds))\<lparr>reply_buf := []\<rparr> = idle_srv p' d ds"
  "reply_buf (reply t p' (idle_srv p d ds)) = t @ CRLF"
  by (simp_all add: idle_srv_def reply_def)

lemma at_simps [simp]:
  "srv (peer_at c p d ds) = idle_srv p d ds" "pcfg (peer_at c p d ds) = c"
  "(peer_at c p d ds)\<lparr>srv := idle_srv p' d' ds'\<rparr> = peer_at c p' d' ds'"
  "tls_cfg (smtpd_tls P b) = pcfg" "b64_encode (smtpd_tls P b) = b"
  by (simp_all add: peer_at_def smtpd_tls_def)

lemma cmd_line:
  assumes "CHR 0x0A \<notin> set l" "on_line P l (idle_srv p d ds) = reply t p' (idle_srv p0 d' ds')"
    and "length t \<le> 509" "final_code (t @ CRLF) = Some code"
  shows "tls_cmd (smtpd_tls P b) (l @ CRLF) (peer_at c p d ds) = Some (code, peer_at c p' d' ds')"
proof -
  have f: "feed P (l @ CRLF) (idle_srv p d ds) = reply t p' (idle_srv p0 d' ds')"
    by (simp add: feed_line [OF assms(1)] assms(2))
  show ?thesis
    using cmd_srv [of P "l @ CRLF" "peer_at c p d ds" "t @ CRLF" code b] assms(3,4)
    by (simp add: f)
qed

lemma expect_line:
  assumes "CHR 0x0A \<notin> set l" "on_line P l (idle_srv p d ds) = reply t p' (idle_srv p0 d' ds')"
    and "length t \<le> 509" "final_code (t @ CRLF) = Some code"
  shows "expect (smtpd_tls P b) (l @ CRLF) want e k (peer_at c p d ds) =
    (if code = want then k (peer_at c p' d' ds') else stop e (peer_at c p' d' ds'))"
  by (simp add: expect_def cmd_line [OF assms])

lemma ehlo_step:
  "expect (smtpd_tls P b) (wbuf (''EHLO lebensspur'' @ CRLF)) 250 e k (peer_at c AwaitEhlo d ds) = k (peer_at c AwaitAuth d ds)"
proof -
  have "expect (smtpd_tls P b) (''EHLO lebensspur'' @ CRLF) 250 e k (peer_at c AwaitEhlo d ds) =
      (if 250 = (250::int) then k (peer_at c AwaitAuth d ds) else stop e (peer_at c AwaitAuth d ds))"
    by (rule expect_line [where t = "''250-hello'' @ CRLF @ ''250 AUTH LOGIN''" and p0 = AwaitEhlo])
      (simp_all add: on_line_def starts_def final_codes [simplified])
  then show ?thesis by (simp add: wbuf_def snprintf_def IO_BUF_def CRLF_def)
qed

lemma auth_step:
  "expect (smtpd_tls P b) (''AUTH LOGIN'' @ CRLF) 334 e k (peer_at c AwaitAuth d ds) = k (peer_at c AwaitUser d ds)"
proof -
  have "expect (smtpd_tls P b) (''AUTH LOGIN'' @ CRLF) 334 e k (peer_at c AwaitAuth d ds) =
      (if 334 = (334::int) then k (peer_at c AwaitUser d ds) else stop e (peer_at c AwaitUser d ds))"
    by (rule expect_line [where t = "''334 VXNlcm5hbWU6''" and p0 = AwaitAuth])
      (simp_all add: on_line_def final_codes [simplified])
  then show ?thesis by simp
qed

lemma wbuf_line: "length l \<le> 509 \<Longrightarrow> wbuf (l @ CRLF) = l @ CRLF"
  by (simp add: wbuf_def snprintf_def IO_BUF_def CRLF_def)

lemma user_step:
  assumes "b 256 (f (peer_at c AwaitUser d ds)) = Some u" "CHR 0x0A \<notin> set u" "length u \<le> 509"
  shows "auth_line (smtpd_tls P b) f 334 k (peer_at c AwaitUser d ds) = k (peer_at c (AwaitPass u) d ds)"
proof -
  have "expect (smtpd_tls P b) (u @ CRLF) 334 SK_ERR_SMTP_AUTH k (peer_at c AwaitUser d ds) =
      (if 334 = (334::int) then k (peer_at c (AwaitPass u) d ds) else stop SK_ERR_SMTP_AUTH (peer_at c (AwaitPass u) d ds))"
    by (rule expect_line [where t = "''334 UGFzc3dvcmQ6''" and p0 = AwaitUser])
      (simp_all add: on_line_def final_codes [simplified] assms)
  then show ?thesis by (simp add: auth_line_def assms wbuf_line)
qed

lemma pass_step:
  assumes "b 256 (f (peer_at c (AwaitPass u) d ds)) = Some v" "CHR 0x0A \<notin> set v" "length v \<le> 509"
  shows "auth_line (smtpd_tls P b) f 235 k (peer_at c (AwaitPass u) d ds) =
    (if login_ok P u v then k (peer_at c AwaitMail d ds) else stop SK_ERR_SMTP_AUTH (peer_at c AwaitAuth d ds))"
proof (cases "login_ok P u v")
  case True
  have "expect (smtpd_tls P b) (v @ CRLF) 235 SK_ERR_SMTP_AUTH k (peer_at c (AwaitPass u) d ds) =
      (if 235 = (235::int) then k (peer_at c AwaitMail d ds) else stop SK_ERR_SMTP_AUTH (peer_at c AwaitMail d ds))"
    by (rule expect_line [where t = "''235 accepted''" and p0 = "AwaitPass u"])
      (simp_all add: on_line_def final_codes [simplified] assms True)
  then show ?thesis using True by (simp add: auth_line_def assms wbuf_line)
next
  case False
  have "expect (smtpd_tls P b) (v @ CRLF) 235 SK_ERR_SMTP_AUTH k (peer_at c (AwaitPass u) d ds) =
      (if 535 = (235::int) then k (peer_at c AwaitAuth d ds) else stop SK_ERR_SMTP_AUTH (peer_at c AwaitAuth d ds))"
    by (rule expect_line [where t = "''535 rejected''" and p0 = "AwaitPass u"])
      (simp_all add: on_line_def final_codes [simplified] assms False)
  then show ?thesis using False by (simp add: auth_line_def assms wbuf_line)
qed

lemma starts_append [simp]: "starts p (p @ s)"
  by (simp add: starts_def)

lemma bracketed_append [simp]: "bracketed p (p @ a @ ''>'') = a"
  by (simp add: bracketed_def)

lemma mail_step:
  assumes "CHR 0x0A \<notin> set a" "length a \<le> 497"
  shows "expect (smtpd_tls P b) (wbuf (''MAIL FROM:<'' @ a @ ''>'' @ CRLF)) 250 e k (peer_at c AwaitMail d ds) =
    (if from_ok P a then k (peer_at c AwaitRcpt \<lparr> m_from = a, m_to = [], m_text = [] \<rparr> ds)
     else stop e (peer_at c AwaitMail d ds))"
proof -
  let ?l = "''MAIL FROM:<'' @ a @ ''>''"
  have n: "CHR 0x0A \<notin> set ?l" using assms(1) by simp
  have w: "wbuf (''MAIL FROM:<'' @ a @ ''>'' @ CRLF) = ?l @ CRLF"
    using wbuf_line [of ?l] assms(2) by simp
  have m: "starts ''MAIL FROM:<'' ?l" "bracketed ''MAIL FROM:<'' ?l = a" "?l = ''QUIT'' \<longleftrightarrow> False"
    by (rule starts_append, rule bracketed_append, simp)
  show ?thesis
  proof (cases "from_ok P a")
    case True
    let ?d = "\<lparr> m_from = a, m_to = [], m_text = [] \<rparr>"
    have "expect (smtpd_tls P b) (?l @ CRLF) 250 e k (peer_at c AwaitMail d ds) =
        (if 250 = (250::int) then k (peer_at c AwaitRcpt ?d ds) else stop e (peer_at c AwaitRcpt ?d ds))"
      by (rule expect_line [OF n, where t = "''250 sender ok''" and p0 = AwaitMail])
        (simp_all only: on_line_def idle_simps m True final_codes smtpd_phase.case simp_thms if_True if_False, simp)
    then show ?thesis unfolding w using True by simp
  next
    case False
    have "expect (smtpd_tls P b) (?l @ CRLF) 250 e k (peer_at c AwaitMail d ds) =
        (if 550 = (250::int) then k (peer_at c AwaitMail d ds) else stop e (peer_at c AwaitMail d ds))"
      by (rule expect_line [OF n, where t = "''550 sender rejected''" and p0 = AwaitMail])
        (simp_all only: on_line_def idle_simps m False final_codes smtpd_phase.case simp_thms if_False, simp)
    then show ?thesis unfolding w using False by simp
  qed
qed

section \<open>Recipients\<close>

definition const_ptrs :: "string list \<Rightarrow> peer ptr list" where
  "const_ptrs as = map (\<lambda>a. Some (\<lambda>w. a)) as"

definition named :: "string list \<Rightarrow> string list" where
  "named as = filter (\<lambda>a. a \<noteq> []) as"

lemma rcpt_at_const [simp]: "rcpt_at w (Some (\<lambda>w. a)) = (if a = [] then None else Some a)"
  by (simp add: rcpt_at_def)

lemma text_at_const [simp]: "text_at w (Some (\<lambda>w. a)) = a"
  by (simp add: text_at_def)

lemma const_ptrs_simps [simp]:
  "const_ptrs [] = []" "const_ptrs (a # as) = Some (\<lambda>w. a) # const_ptrs as" "(const_ptrs as = []) = (as = [])"
  "take n (const_ptrs as) = const_ptrs (take n as)"
  by (simp_all add: const_ptrs_def take_map)

lemma rcpt_cmd_line: "length a \<le> 499 \<Longrightarrow> rcpt_cmd a = (''RCPT TO:<'' @ a @ ''>'') @ CRLF"
  using wbuf_line [of "''RCPT TO:<'' @ a @ ''>''"] by (simp add: rcpt_cmd_def)

lemma rcpt_step:
  assumes "CHR 0x0A \<notin> set a" "length a \<le> 499"
  shows "tls_cmd (smtpd_tls P b) (rcpt_cmd a) (peer_at c AwaitRcpt d ds) =
    (if to_ok P a then Some (250, peer_at c AwaitRcpt (d\<lparr>m_to := m_to d @ [a]\<rparr>) ds)
     else Some (550, peer_at c AwaitRcpt d ds))"
proof -
  let ?l = "''RCPT TO:<'' @ a @ ''>''"
  have n: "CHR 0x0A \<notin> set ?l" using assms(1) by simp
  have m: "starts ''RCPT TO:<'' ?l" "bracketed ''RCPT TO:<'' ?l = a"
    by (rule starts_append, rule bracketed_append)
  show ?thesis
  proof (cases "to_ok P a")
    case True
    have "tls_cmd (smtpd_tls P b) (?l @ CRLF) (peer_at c AwaitRcpt d ds) =
        Some (250, peer_at c AwaitRcpt (d\<lparr>m_to := m_to d @ [a]\<rparr>) ds)"
      by (rule cmd_line [OF n, where t = "''250 recipient ok''" and p0 = AwaitRcpt])
        (simp_all only: on_line_def idle_simps m True final_codes smtpd_phase.case simp_thms if_True, simp)
    then show ?thesis using True by (simp only: rcpt_cmd_line [OF assms(2)] if_True)
  next
    case False
    have "tls_cmd (smtpd_tls P b) (?l @ CRLF) (peer_at c AwaitRcpt d ds) = Some (550, peer_at c AwaitRcpt d ds)"
      by (rule cmd_line [OF n, where t = "''550 recipient rejected''" and p0 = AwaitRcpt])
        (simp_all only: on_line_def idle_simps m False final_codes smtpd_phase.case simp_thms if_True if_False, simp)
    then show ?thesis using False by (simp only: rcpt_cmd_line [OF assms(2)] if_False)
  qed
qed

lemma rcpt_loop_srv:
  "\<forall>a \<in> set as. CHR 0x0A \<notin> set a \<and> length a \<le> 499 \<Longrightarrow>
    rcpt_loop (smtpd_tls P b) (const_ptrs as) n (peer_at c AwaitRcpt d ds) =
      Some (n + length (filter (to_ok P) (named as)),
        peer_at c AwaitRcpt (d\<lparr>m_to := m_to d @ filter (to_ok P) (named as)\<rparr>) ds)"
  by (induction as arbitrary: n d) (simp_all add: rcpt_step named_def)

lemma data_step:
  "expect (smtpd_tls P b) (''DATA'' @ CRLF) 354 e k (peer_at c AwaitRcpt d ds) =
    (if m_to d \<noteq> [] then k (peer_at c InData d ds) else stop e (peer_at c AwaitRcpt d ds))"
proof (cases "m_to d \<noteq> []")
  case True
  have "expect (smtpd_tls P b) (''DATA'' @ CRLF) 354 e k (peer_at c AwaitRcpt d ds) =
      (if 354 = (354::int) then k (peer_at c InData d ds) else stop e (peer_at c InData d ds))"
    by (rule expect_line [where t = "''354 go ahead''" and p0 = AwaitRcpt])
      (simp_all add: on_line_def starts_def final_codes [simplified] True)
  then show ?thesis using True by simp
next
  case False
  have "expect (smtpd_tls P b) (''DATA'' @ CRLF) 354 e k (peer_at c AwaitRcpt d ds) =
      (if 503 = (354::int) then k (peer_at c AwaitRcpt d ds) else stop e (peer_at c AwaitRcpt d ds))"
    by (rule expect_line [where t = "''503 bad sequence''" and p0 = AwaitRcpt])
      (use False in \<open>simp_all add: on_line_def starts_def final_codes [simplified]\<close>)
  then show ?thesis using False by simp
qed

lemma send_rcpts_srv:
  assumes "\<forall>a \<in> set as. CHR 0x0A \<notin> set a \<and> length a \<le> 499" "m_to d = []"
  shows "send_rcpts (smtpd_tls P b) (const_ptrs as) k (peer_at c AwaitRcpt d ds) =
    (if filter (to_ok P) (named as) = [] then stop SK_ERR_SMTP_CONNECT (peer_at c AwaitRcpt d ds)
     else k (peer_at c InData (d\<lparr>m_to := filter (to_ok P) (named as)\<rparr>) ds))"
proof -
  have e: "d\<lparr>m_to := []\<rparr> = d" using assms(2) by (cases d) simp
  note l = rcpt_loop_srv [OF assms(1), of P b 0 c d ds]
  show ?thesis
  proof (cases "filter (to_ok P) (named as) = []")
    case True
    then show ?thesis using l by (simp add: send_rcpts_def e assms(2))
  next
    case False
    then show ?thesis using l data_step [of P b SK_ERR_SMTP_CONNECT k c "d\<lparr>m_to := filter (to_ok P) (named as)\<rparr>" ds]
      by (simp add: send_rcpts_def assms(2))
  qed
qed

text \<open>What a send may change that matters afterwards: the configuration and the mailbox.\<close>

definition mbox :: "peer \<Rightarrow> ls_smtp_config \<times> mail list" where
  "mbox w = (pcfg w, delivered (srv w))"

section \<open>The text\<close>

text \<open>A text with a line that begins with a dot: the transaction does not escape it.\<close>

definition dotted :: "string \<Rightarrow> bool" where
  "dotted t = (starts ''.'' t \<or> strstr t (CRLF @ ''.''))"

lemma strstr_iff: "strstr t n \<longleftrightarrow> (\<exists>a c. t = a @ n @ c)"
proof (induction t)
  case (Cons x t)
  show ?case
  proof
    assume "strstr (x # t) n"
    then consider "take (length n) (x # t) = n" | "strstr t n" by auto
    then show "\<exists>a c. x # t = a @ n @ c"
    proof cases
      case 1
      then have "x # t = [] @ n @ drop (length n) (x # t)" by (metis append_Nil append_take_drop_id)
      then show ?thesis by blast
    next
      case 2
      with Cons obtain a c where "t = a @ n @ c" by blast
      then have "x # t = (x # a) @ n @ c" by simp
      then show ?thesis by blast
    qed
  next
    assume "\<exists>a c. x # t = a @ n @ c"
    then obtain a c where e: "x # t = a @ n @ c" by blast
    show "strstr (x # t) n"
    proof (cases a)
      case Nil
      with e have "take (length n) (x # t) = n" by simp
      then show ?thesis by simp
    next
      case (Cons y a')
      with e have "t = a' @ n @ c" by simp
      with \<open>strstr t n = (\<exists>a c. t = a @ n @ c)\<close> show ?thesis by auto
    qed
  qed
qed auto

lemma strstr_mid: "strstr (a @ n @ c) n"
  unfolding strstr_iff by blast

lemma strstr_append: "strstr t n \<Longrightarrow> strstr (t @ u) n"
proof -
  assume "strstr t n"
  then obtain a c where "t = a @ n @ c" unfolding strstr_iff by blast
  then have "t @ u = a @ n @ (c @ u)" by simp
  then show ?thesis unfolding strstr_iff by blast
qed

definition in_data :: "string \<Rightarrow> mail \<Rightarrow> mail list \<Rightarrow> smtpd" where
  "in_data l d ds = \<lparr> ph = InData, line_buf = l, draft = d, delivered = ds, reply_buf = [] \<rparr>"

lemma feed_text:
  "\<not> dotted t \<Longrightarrow> \<exists>A B. t = A @ B \<and> (A = [] \<or> (\<exists>A'. A = A' @ CRLF)) \<and>
     feed P t (in_data [] d ds) = in_data B (d\<lparr>m_text := m_text d @ A\<rparr>) ds"
proof (induction t rule: rev_induct)
  case Nil
  then show ?case by (intro exI [of _ "[]"]) (simp add: in_data_def)
next
  case (snoc x t)
  have n: "\<not> dotted t" using snoc.prems by (auto simp: dotted_def starts_def strstr_append)
  then obtain A B where t: "t = A @ B" "A = [] \<or> (\<exists>A'. A = A' @ CRLF)"
    and f: "feed P t (in_data [] d ds) = in_data B (d\<lparr>m_text := m_text d @ A\<rparr>) ds"
    using snoc.IH by blast
  have B: "\<not> starts ''.'' B"
  proof
    assume "starts ''.'' B"
    then obtain B' where b: "B = CHR ''.'' # B'" by (cases B) (auto simp: starts_def)
    from t(2) show False
    proof
      assume "A = []"
      with n b t(1) show False by (simp add: dotted_def starts_def)
    next
      assume "\<exists>A'. A = A' @ CRLF"
      then obtain A' where "A = A' @ CRLF" ..
      with n b t(1) strstr_mid [of A' "CRLF @ ''.''" B'] show False by (simp add: dotted_def)
    qed
  qed
  have s: "feed P (t @ [x]) (in_data [] d ds) = on_char P (in_data B (d\<lparr>m_text := m_text d @ A\<rparr>) ds) x"
    by (simp add: feed_append f) (simp add: feed_def)
  show ?case
  proof (cases "x = CHR 0x0A \<and> B \<noteq> [] \<and> last B = CHR 0x0D")
    case True
    then have B': "B @ [x] = butlast B @ CRLF"
      by (metis CRLF_def append_butlast_last_id append_Cons append_Nil append_assoc)
    have x: "x = CHR 0x0A" using True by simp
    have nb: "\<not> starts ''.'' (butlast B)" "butlast B \<noteq> ''.''"
      using B by (cases B; auto simp: starts_def split: if_splits)+
    have "on_char P (in_data B (d\<lparr>m_text := m_text d @ A\<rparr>) ds) x =
        in_data [] (d\<lparr>m_text := m_text d @ A @ B @ [x]\<rparr>) ds"
      unfolding on_char_def using True nb by (simp add: in_data_def on_line_def B' [unfolded x])
    then show ?thesis
      using s t(1) B' by (intro exI [of _ "A @ B @ [x]"] exI [of _ "[]"]) auto
  next
    case False
    then have "on_char P (in_data B (d\<lparr>m_text := m_text d @ A\<rparr>) ds) x =
        in_data (B @ [x]) (d\<lparr>m_text := m_text d @ A\<rparr>) ds"
      unfolding on_char_def in_data_def by auto
    then show ?thesis
      using s t by (intro exI [of _ A] exI [of _ "B @ [x]"]) auto
  qed
qed

lemma feed_terminator:
  assumes "\<not> dotted t"
  shows "feed P (CRLF @ ''.'' @ CRLF) (feed P t (in_data [] d ds)) =
    reply ''250 queued'' AwaitMail (idle_srv InData (d\<lparr>m_text := m_text d @ t @ CRLF\<rparr>)
      (ds @ [d\<lparr>m_text := m_text d @ t @ CRLF\<rparr>]))"
proof -
  obtain A B where t: "t = A @ B" "A = [] \<or> (\<exists>A'. A = A' @ CRLF)"
    and f: "feed P t (in_data [] d ds) = in_data B (d\<lparr>m_text := m_text d @ A\<rparr>) ds"
    using feed_text [OF assms, of P d ds] by blast
  have nd: "\<not> starts ''.'' B"
  proof
    assume "starts ''.'' B"
    then obtain B' where b: "B = CHR ''.'' # B'" by (cases B) (auto simp: starts_def)
    from t(2) show False
    proof
      assume "A = []"
      with assms b t(1) show False by (simp add: dotted_def starts_def)
    next
      assume "\<exists>A'. A = A' @ CRLF"
      then obtain A' where "A = A' @ CRLF" ..
      with assms b t(1) strstr_mid [of A' "CRLF @ ''.''" B'] show False by (simp add: dotted_def)
    qed
  qed
  then have "B \<noteq> ''.''" by (auto simp: starts_def)
  with nd have one: "feed P CRLF (in_data B (d\<lparr>m_text := m_text d @ A\<rparr>) ds) =
      in_data [] (d\<lparr>m_text := m_text d @ t @ CRLF\<rparr>) ds"
    by (simp add: feed_def CRLF_def on_char_def in_data_def on_line_def t(1))
  have "feed P (''.'' @ CRLF) (in_data [] (d\<lparr>m_text := m_text d @ t @ CRLF\<rparr>) ds) =
      reply ''250 queued'' AwaitMail (idle_srv InData (d\<lparr>m_text := m_text d @ t @ CRLF\<rparr>)
        (ds @ [d\<lparr>m_text := m_text d @ t @ CRLF\<rparr>]))"
    by (simp add: feed_def CRLF_def on_char_def in_data_def on_line_def idle_srv_def)
  then show ?thesis by (simp only: feed_append f one)
qed

lemma put_all_srv: "put_all (smtpd_tls P b) s e k w = k (w\<lparr>srv := feed P s (srv w)\<rparr>)"
  by (simp add: put_all_def write_all_srv)

lemma quit_srv: "quit (smtpd_tls P b) w = Some (Ended SK_OK, w\<lparr>srv := feed P (''QUIT'' @ CRLF) (srv w)\<rparr>)"
  by (simp add: quit_def write_all_srv)

section \<open>What a send does to the mailbox\<close>

fun comma_list :: "string list \<Rightarrow> string" where
  "comma_list [] = []"
| "comma_list [a] = a"
| "comma_list (a # as) = a @ '', '' @ comma_list as"

text \<open>The header as the mail shows it: at most five recipients.\<close>

definition mail_header :: "string \<Rightarrow> string \<Rightarrow> string list \<Rightarrow> string" where
  "mail_header from subject as =
     ''From: <'' @ from @ ''>'' @ CRLF @
     ''To: '' @ comma_list (map (\<lambda>a. ''<'' @ a @ ''>'') (take 5 (named as))) @ CRLF @
     ''Subject: '' @ subject @ CRLF @
     ''Content-Type: text/plain; charset=UTF-8'' @ CRLF @ CRLF"

lemma to_pieces_srv:
  "shown \<le> 5 \<Longrightarrow> concat (to_pieces w shown (const_ptrs as)) =
     concat (map (\<lambda>(i, a). (if i = 0 then [] else '', '') @ ''<'' @ a @ ''>'')
       (enumerate shown (take (5 - shown) (named as))))"
proof (induction as arbitrary: shown)
  case (Cons a as)
  show ?case
  proof (cases "shown = 5")
    case False
    with Cons.prems obtain m where m: "5 - shown = Suc m" by (cases "5 - shown") auto
    then have "m = 5 - Suc shown" "Suc shown \<le> 5" by auto
    with Cons.IH [of shown] Cons.IH [of "Suc shown"] m Cons.prems False show ?thesis
      by (simp add: named_def)
  qed simp
qed (simp add: named_def)

lemma comma_enumerate:
  "concat (map (\<lambda>(i, a). (if i = 0 then [] else '', '') @ f a) (enumerate 0 as)) = comma_list (map f as)"
proof -
  have later: "concat (map (\<lambda>(i, a). (if i = 0 then [] else '', '') @ f a) (enumerate (Suc n) as)) =
      concat (map (\<lambda>a. '', '' @ f a) as)" for n as
    by (induction as arbitrary: n) simp_all
  have c: "comma_list (map f (a # as)) = f a @ concat (map (\<lambda>a. '', '' @ f a) as)" for a as
    by (induction as arbitrary: a) simp_all
  show ?thesis
  proof (cases as)
    case (Cons a as')
    then show ?thesis using later [of 0 as'] c [of a as'] by simp
  qed simp
qed

lemma header_srv:
  "concat (header_pieces (smtpd_tls P b) (Some (\<lambda>w. subject)) (const_ptrs as) w) =
    mail_header (smtp_sender (pcfg w)) subject as"
  using to_pieces_srv [of 0 w as] comma_enumerate [of "\<lambda>a. ''<'' @ a @ ''>''" "take 5 (named as)"]
  by (simp add: header_pieces_def mail_header_def)

text \<open>The bytes of a header: one of 512 characters loses its last character to the NUL of the array.\<close>

definition on_wire :: "string \<Rightarrow> string" where
  "on_wire h = (if length h = 512 then take 511 h @ [CHR 0x00] else h)"

text \<open>
  What a send to this server is meant to do: its result, and the mail it adds to the mailbox. \<open>u\<close> and \<open>v\<close>
  are the base64 forms of the sender and of the key.
\<close>

definition mail_outcome :: "policy \<Rightarrow> string \<Rightarrow> string \<Rightarrow> string \<Rightarrow> string \<Rightarrow> string \<Rightarrow> string list \<Rightarrow> send_end \<times> mail list" where
  "mail_outcome P from u v subject body as =
     (let to = filter (to_ok P) (named as); h = mail_header from subject as in
      if \<not> login_ok P u v then (Ended SK_ERR_SMTP_AUTH, [])
      else if \<not> from_ok P from \<or> to = [] then (Ended SK_ERR_SMTP_CONNECT, [])
      else if length h > 512 then (Overrun, [])
      else (Ended SK_OK, [\<lparr> m_from = from, m_to = to, m_text = on_wire h @ body @ CRLF \<rparr>]))"

lemma outcome_ends: "length (mail_header from subject as) \<le> 512 \<Longrightarrow> \<exists>rc. fst (mail_outcome P from u v subject body as) = Ended rc"
  by (simp add: mail_outcome_def Let_def)

lemma header_bytes_srv:
  "header_bytes (header_pieces (smtpd_tls P b) (Some (\<lambda>w. subject)) (const_ptrs as) (peer_at c p d ds)) =
    (let h = mail_header (smtp_sender c) subject as in if length h > 512 then None else Some (on_wire h))"
  by (simp add: header_bytes_eq header_srv Let_def on_wire_def IO_BUF_def)

lemma send_data_srv:
  fixes c subject as
  defines "h \<equiv> mail_header (smtp_sender c) subject as"
  assumes nd: "\<not> dotted (on_wire h @ body)" and fresh: "m_text d = []"
  shows "map_option (map_prod id mbox)
      (send_data (smtpd_tls P b) (Some (\<lambda>w. subject)) (Some (\<lambda>w. body)) (const_ptrs as) (peer_at c InData d ds)) =
    Some (if length h > 512 then (Overrun, (c, ds))
          else (Ended SK_OK, (c, ds @ [d\<lparr>m_text := on_wire h @ body @ CRLF\<rparr>])))"
proof (cases "length h > 512")
  case True
  then show ?thesis by (simp add: send_data_def header_bytes_srv h_def Let_def mbox_def)
next
  case False
  have i: "idle_srv InData d ds = in_data [] d ds" by (simp add: idle_srv_def in_data_def)
  let ?w = "\<lparr> srv = feed P body (feed P (on_wire h) (in_data [] d ds)), pcfg = c \<rparr>"
  have f: "feed P (CRLF @ ''.'' @ CRLF) (srv ?w) =
      reply ''250 queued'' AwaitMail (idle_srv InData (d\<lparr>m_text := on_wire h @ body @ CRLF\<rparr>)
        (ds @ [d\<lparr>m_text := on_wire h @ body @ CRLF\<rparr>]))"
    using feed_terminator [OF nd, of P d ds] by (simp add: feed_append fresh)
  have t: "tls_cmd (smtpd_tls P b) (CRLF @ ''.'' @ CRLF) ?w =
      Some (250, ?w\<lparr>srv := idle_srv AwaitMail (d\<lparr>m_text := on_wire h @ body @ CRLF\<rparr>)
        (ds @ [d\<lparr>m_text := on_wire h @ body @ CRLF\<rparr>])\<rparr>)"
    using cmd_srv [of P "CRLF @ ''.'' @ CRLF" ?w "''250 queued'' @ CRLF" 250 b] final_codes(13) unfolding f
    by simp
  have w: "peer_at c InData d ds = \<lparr> srv = in_data [] d ds, pcfg = c \<rparr>" by (simp add: peer_at_def i)
  have b: "header_bytes (header_pieces (smtpd_tls P b) (Some (\<lambda>w. subject)) (const_ptrs as) (peer_at c InData d ds)) =
      Some (on_wire h)"
    using False by (simp add: header_bytes_srv h_def Let_def)
  have "feed P (''QUIT'' @ CRLF) (idle_srv AwaitMail d' ds') =
      reply ''221 bye'' Closed (idle_srv AwaitMail d' ds')" for d' ds'
    using feed_line [of "''QUIT''" P "idle_srv AwaitMail d' ds'"] by (simp add: on_line_def)
  then show ?thesis
    using False unfolding send_data_def b option.case
    by (simp add: put_all_srv w expect_def t [simplified] quit_srv reply_def mbox_def)
qed

lemma banner_srv:
  "tls_read_response (smtpd_tls P b)
      (w\<lparr>srv := (srv w)\<lparr>ph := AwaitEhlo, line_buf := [], reply_buf := ''220 ready'' @ CRLF\<rparr>\<rparr>) =
    (220, peer_at (pcfg w) AwaitEhlo (draft (srv w)) (delivered (srv w)))"
proof -
  let ?w = "w\<lparr>srv := (srv w)\<lparr>ph := AwaitEhlo, line_buf := [], reply_buf := ''220 ready'' @ CRLF\<rparr>\<rparr>"
  have "tls_read_response (smtpd_tls P b) ?w = (220, ?w\<lparr>srv := (srv ?w)\<lparr>reply_buf := []\<rparr>\<rparr>)"
    by (rule read_srv [where r = "''220 ready'' @ CRLF"]) (simp_all add: final_codes [simplified])
  then show ?thesis by (simp add: peer_at_def idle_srv_def)
qed

lemma do_send_dialogue:
  assumes "ls_smtp_is_configured (pcfg w)" "as \<noteq> []"
  shows "do_send (smtpd_tls P b) subject body (const_ptrs as) w =
    dialogue (smtpd_tls P b) subject body (const_ptrs (take LS_SMTP_MAX_RCPT as))
      (w\<lparr>srv := (srv w)\<lparr>ph := AwaitEhlo, line_buf := [], reply_buf := ''220 ready'' @ CRLF\<rparr>\<rparr>)"
  by (simp add: do_send_def assms Let_def map_prod.id option.map_id0)
    (simp add: smtpd_tls_def map_prod.id option.map_id0 id_def [symmetric])

text \<open>The base64 routine answers what fits its buffer, in characters other than a line feed.\<close>

definition base64_plain :: "(nat \<Rightarrow> string \<Rightarrow> string option) \<Rightarrow> bool" where
  "base64_plain b \<longleftrightarrow> (\<forall>cap s u. b cap s = Some u \<longrightarrow> length u \<le> cap \<and> CHR 0x0A \<notin> set u)"

lemma do_send_srv:
  fixes w as
  defines "c \<equiv> pcfg w" and "rs \<equiv> take 32 as"
    and "d \<equiv> \<lparr> m_from = smtp_sender (pcfg w), m_to = [], m_text = [] \<rparr>"
  assumes "ls_smtp_is_configured (pcfg w)" "as \<noteq> []"
    and addrs: "\<forall>a \<in> set (smtp_sender (pcfg w) # as). CHR 0x0A \<notin> set a \<and> length a \<le> 497"
    and b64: "base64_plain b" "b 256 (smtp_sender (pcfg w)) = Some u" "b 256 (api_key (pcfg w)) = Some v"
  shows "do_send (smtpd_tls P b) subject body (const_ptrs as) w =
    (if \<not> login_ok P u v then stop SK_ERR_SMTP_AUTH (peer_at c AwaitAuth (draft (srv w)) (delivered (srv w)))
       else if \<not> from_ok P (smtp_sender c)
       then stop SK_ERR_SMTP_CONNECT (peer_at c AwaitMail (draft (srv w)) (delivered (srv w)))
       else if filter (to_ok P) (named rs) = [] then stop SK_ERR_SMTP_CONNECT (peer_at c AwaitRcpt d (delivered (srv w)))
       else send_data (smtpd_tls P b) subject body (const_ptrs rs)
         (peer_at c InData (d\<lparr>m_to := filter (to_ok P) (named rs)\<rparr>) (delivered (srv w))))"
proof -
  have uv: "CHR 0x0A \<notin> set u" "length u \<le> 509" "CHR 0x0A \<notin> set v" "length v \<le> 509"
    using b64 unfolding base64_plain_def by fastforce+
  have s: "CHR 0x0A \<notin> set (smtp_sender c)" "length (smtp_sender c) \<le> 497" using addrs by (simp_all add: c_def)
  have r: "\<forall>a \<in> set rs. CHR 0x0A \<notin> set a \<and> length a \<le> 499"
    using addrs by (auto simp: rs_def dest!: in_set_takeD)
  have fresh: "m_to \<lparr> m_from = smtp_sender c, m_to = [], m_text = [] \<rparr> = []" by simp
  have user: "auth_line (smtpd_tls P b) (\<lambda>w. smtp_sender (tls_cfg (smtpd_tls P b) w)) 334 k (peer_at c AwaitUser e ds) =
      k (peer_at c (AwaitPass u) e ds)" for k e ds
    by (rule user_step) (simp_all add: uv b64 c_def)
  have pass: "auth_line (smtpd_tls P b) (\<lambda>w. api_key (tls_cfg (smtpd_tls P b) w)) 235 k (peer_at c (AwaitPass u) e ds) =
      (if login_ok P u v then k (peer_at c AwaitMail e ds) else stop SK_ERR_SMTP_AUTH (peer_at c AwaitAuth e ds))" for k e ds
    by (rule pass_step) (simp_all add: uv b64 c_def)
  have mail: "expect (smtpd_tls P b) (wbuf (''MAIL FROM:<'' @ smtp_sender (tls_cfg (smtpd_tls P b)
        (peer_at c AwaitMail e ds)) @ ''>'' @ CRLF)) 250 f k (peer_at c AwaitMail e ds) =
      (if from_ok P (smtp_sender c) then k (peer_at c AwaitRcpt \<lparr> m_from = smtp_sender c, m_to = [], m_text = [] \<rparr> ds)
       else stop f (peer_at c AwaitMail e ds))" for e ds f k
    using mail_step [OF s] by simp
  show ?thesis
    unfolding do_send_dialogue [OF assms(4,5)] dialogue_def banner_srv split_conv
    unfolding c_def [symmetric] ehlo_step auth_step user pass mail LS_SMTP_MAX_RCPT_def rs_def [symmetric]
      send_rcpts_srv [OF r fresh] by (simp add: d_def c_def [symmetric])
qed

lemma do_send_mailbox:
  assumes "ls_smtp_is_configured (pcfg w)" "as \<noteq> []"
    and addrs: "\<forall>a \<in> set (smtp_sender (pcfg w) # as). CHR 0x0A \<notin> set a \<and> length a \<le> 497"
    and b64: "base64_plain b" "b 256 (smtp_sender (pcfg w)) = Some u" "b 256 (api_key (pcfg w)) = Some v"
    and nd: "\<not> dotted (on_wire (mail_header (smtp_sender (pcfg w)) subject (take 32 as)) @ body)"
  shows "map_option (map_prod id mbox)
      (do_send (smtpd_tls P b) (Some (\<lambda>w. subject)) (Some (\<lambda>w. body)) (const_ptrs as) w) =
    Some (map_prod id (\<lambda>ms. (pcfg w, delivered (srv w) @ ms))
      (mail_outcome P (smtp_sender (pcfg w)) u v subject body (take 32 as)))"
proof -
  define c where "c = pcfg w"
  define rs where "rs = take 32 as"
  define d where "d = \<lparr> m_from = smtp_sender c, m_to = [], m_text = [] \<rparr>"
  note ds = do_send_srv [OF assms(1,2) addrs b64, where P = P and subject = "Some (\<lambda>w. subject)" and body = "Some (\<lambda>w. body)",
    folded c_def rs_def, folded d_def]
  show ?thesis
  proof (cases "login_ok P u v \<and> from_ok P (smtp_sender c) \<and> filter (to_ok P) (named rs) \<noteq> []")
    case True
    have sd: "map_option (map_prod id mbox)
        (send_data (smtpd_tls P b) (Some (\<lambda>w. subject)) (Some (\<lambda>w. body)) (const_ptrs rs)
          (peer_at c InData (d\<lparr>m_to := filter (to_ok P) (named rs)\<rparr>) (delivered (srv w)))) =
      Some (if length (mail_header (smtp_sender c) subject rs) > 512 then (Overrun, (c, delivered (srv w)))
        else (Ended SK_OK, (c, delivered (srv w) @ [d\<lparr>m_to := filter (to_ok P) (named rs),
          m_text := on_wire (mail_header (smtp_sender c) subject rs) @ body @ CRLF\<rparr>])))"
      by (rule send_data_srv) (use nd in \<open>simp_all add: c_def rs_def d_def\<close>)
    have eq: "do_send (smtpd_tls P b) (Some (\<lambda>w. subject)) (Some (\<lambda>w. body)) (const_ptrs as) w =
        send_data (smtpd_tls P b) (Some (\<lambda>w. subject)) (Some (\<lambda>w. body)) (const_ptrs rs)
          (peer_at c InData (d\<lparr>m_to := filter (to_ok P) (named rs)\<rparr>) (delivered (srv w)))"
      using True unfolding ds by simp
    show ?thesis
      unfolding eq sd unfolding c_def [symmetric] rs_def [symmetric] mail_outcome_def Let_def
      using True by (simp add: d_def)
  next
    case False
    then show ?thesis
      unfolding ds c_def [symmetric] rs_def [symmetric] mail_outcome_def Let_def stop_def by (auto simp: mbox_def)
  qed
qed


section \<open>A dot on a line of its own\<close>

text \<open>The mailbox only grows.\<close>

definition grows :: "smtpd \<Rightarrow> smtpd \<Rightarrow> bool" where
  "grows s s' \<longleftrightarrow> (\<exists>r. delivered s' = delivered s @ r)"

lemma grows_trans: "grows s t \<Longrightarrow> grows t u \<Longrightarrow> grows s u"
  by (auto simp: grows_def)

lemma grows_same: "delivered s' = delivered s \<Longrightarrow> grows s s'"
  by (simp add: grows_def)

lemma on_line_grows: "grows s (on_line P l s)"
  by (auto simp: grows_def on_line_def reply_def split: smtpd_phase.split)

lemma feed_grows: "grows s (feed P t s)"
proof (induction t arbitrary: s)
  case (Cons c t)
  have "grows s (on_char P s c)"
    using on_line_grows [of "s\<lparr>line_buf := []\<rparr>"] by (auto simp: on_char_def grows_def)
  from grows_trans [OF this Cons.IH] show ?case by (simp add: feed_def)
qed (simp add: grows_same)

lemma read_loop_keeps: "delivered (srv (snd (read_loop (smtpd_tls P b) m buf w))) = delivered (srv w)"
proof (induction "m - length buf" arbitrary: buf w rule: less_induct)
  case less
  show ?case
  proof (cases "m - 1 \<le> length buf \<or> take (m - 1 - length buf) (reply_buf (srv w)) = []")
    case True
    then show ?thesis by (subst read_loop.simps) (auto simp: smtpd_tls_def)
  next
    case False
    let ?t = "take (m - 1 - length buf) (reply_buf (srv w))"
    have "m - length (buf @ ?t) < m - length buf" using read_more [of m buf ?t] False by simp
    from less.hyps [OF this] False show ?thesis
      by (subst read_loop.simps) (auto simp: smtpd_tls_def split: option.split)
  qed
qed

lemma cmd_grows: "tls_cmd (smtpd_tls P b) s w = Some (c, w') \<Longrightarrow> grows (srv w) (srv w')"
  using read_loop_keeps [of P b IO_BUF "[]" "w\<lparr>srv := feed P s (srv w)\<rparr>"]
  by (auto simp: tls_cmd_def write_all_srv tls_read_response_def
      intro!: grows_trans [OF feed_grows [of _ P s] grows_same])

lemma end_grows:
  assumes "expect (smtpd_tls P b) s n e (quit (smtpd_tls P b)) w = Some (r, w')"
  shows "grows (srv w) (srv w')"
proof -
  obtain c w1 where c: "tls_cmd (smtpd_tls P b) s w = Some (c, w1)"
    using assms by (auto simp: expect_def split: option.splits)
  have "grows (srv w1) (srv w')"
    using assms by (auto simp: expect_def c stop_def quit_srv grows_same feed_grows split: if_splits)
  with cmd_grows [OF c] show ?thesis by (rule grows_trans)
qed

lemma never_zero_srv: "never_zero (smtpd_tls P b)"
  by (simp add: never_zero_def smtpd_tls_def)

text \<open>
  The client does not escape dots: a line of the body that holds a dot alone ends the mail there. What the
  mailbox receives first is the mail cut off before that line; the rest of the body reaches the server as
  commands.
\<close>

theorem dot_line_cuts_mail:
  fixes w as subject P
  defines "h \<equiv> mail_header (smtp_sender (pcfg w)) subject (take 32 as)"
    and "to \<equiv> filter (to_ok P) (named (take 32 as))"
  assumes "ls_smtp_is_configured (pcfg w)" "as \<noteq> []"
    and addrs: "\<forall>a \<in> set (smtp_sender (pcfg w) # as). CHR 0x0A \<notin> set a \<and> length a \<le> 497"
    and b64: "base64_plain b" "b 256 (smtp_sender (pcfg w)) = Some u" "b 256 (api_key (pcfg w)) = Some v"
    and ok: "login_ok P u v" "from_ok P (smtp_sender (pcfg w))" "to \<noteq> []" "length h \<le> 512"
    and nd: "\<not> dotted (on_wire h @ text)"
  shows "\<exists>e w' later. do_send (smtpd_tls P b) (Some (\<lambda>w. subject)) (Some (\<lambda>w. text @ CRLF @ ''.'' @ CRLF @ rest))
        (const_ptrs as) w = Some (e, w') \<and>
      delivered (srv w') = delivered (srv w) @
        \<lparr> m_from = smtp_sender (pcfg w), m_to = to, m_text = on_wire h @ text @ CRLF \<rparr> # later"
proof -
  let ?T = "smtpd_tls P b" and ?subj = "Some (\<lambda>w. subject)"
    and ?body = "Some (\<lambda>w. text @ CRLF @ ''.'' @ CRLF @ rest)"
  define d where "d = \<lparr> m_from = smtp_sender (pcfg w), m_to = to, m_text = [] \<rparr>"
  define m where "m = \<lparr> m_from = smtp_sender (pcfg w), m_to = to, m_text = on_wire h @ text @ CRLF \<rparr>"
  have send: "do_send ?T ?subj ?body (const_ptrs as) w =
      send_data ?T ?subj ?body (const_ptrs (take 32 as)) (peer_at (pcfg w) InData d (delivered (srv w)))"
    unfolding do_send_srv [OF assms(3,4) addrs b64] using ok by (simp add: to_def [symmetric] d_def)
  obtain e w' where r: "do_send ?T ?subj ?body (const_ptrs as) w = Some (e, w')"
    using do_send_returns [OF never_zero_srv [of P b], of ?subj ?body "const_ptrs as" w] by auto
  have hb: "header_bytes (header_pieces ?T ?subj (const_ptrs (take 32 as)) (peer_at (pcfg w) InData d (delivered (srv w)))) =
      Some (on_wire h)"
    using ok(4) by (simp add: header_bytes_srv h_def [symmetric])
  have srv0: "srv (peer_at (pcfg w) InData d (delivered (srv w))) = in_data [] d (delivered (srv w))"
    by (simp add: idle_srv_def in_data_def)
  have dots: "feed P (CHR ''.'' # CRLF @ rest) s = feed P rest (feed P (CHR ''.'' # CRLF) s)" for s
    using feed_append [of P "''.'' @ CRLF" rest s] by simp
  let ?final = "feed P rest (feed P (CRLF @ ''.'' @ CRLF) (feed P (on_wire h @ text) (in_data [] d (delivered (srv w)))))"
  have "expect ?T (CRLF @ ''.'' @ CRLF) 250 SK_ERR_SMTP_CONNECT (quit ?T)
      ((peer_at (pcfg w) InData d (delivered (srv w)))\<lparr>srv := ?final\<rparr>) = Some (e, w')"
    using r unfolding send send_data_def hb option.case put_all_srv
    by (simp add: srv0 [simplified] feed_append dots)
  from end_grows [OF this] have g: "grows ?final (srv w')" by simp
  have "grows (idle_srv AwaitMail d (delivered (srv w) @ [m])) ?final"
  proof -
    have "feed P (CRLF @ ''.'' @ CRLF) (feed P (on_wire h @ text) (in_data [] d (delivered (srv w)))) =
        reply ''250 queued'' AwaitMail (idle_srv InData m (delivered (srv w) @ [m]))"
      using feed_terminator [OF nd, of P d "delivered (srv w)"] by (simp add: d_def m_def)
    then have "delivered (feed P (CRLF @ ''.'' @ CRLF) (feed P (on_wire h @ text) (in_data [] d (delivered (srv w))))) =
        delivered (srv w) @ [m]" by (simp add: reply_def)
    then show ?thesis using feed_grows [of "feed P (CRLF @ ''.'' @ CRLF) (feed P (on_wire h @ text) (in_data [] d (delivered (srv w))))" P rest]
      by (simp add: grows_def)
  qed
  from grows_trans [OF this g] r show ?thesis
    unfolding m_def [symmetric] by (auto simp: grows_def)
qed

text \<open>
  A mail whose header, the From, To, Subject and Content-Type lines with the first five recipients, is longer
  than 512 characters overruns the header array as soon as the server has accepted a recipient, whatever its body.
\<close>

theorem long_header_overruns:
  assumes "ls_smtp_is_configured (pcfg w)" "as \<noteq> []"
    and addrs: "\<forall>a \<in> set (smtp_sender (pcfg w) # as). CHR 0x0A \<notin> set a \<and> length a \<le> 497"
    and b64: "base64_plain b" "b 256 (smtp_sender (pcfg w)) = Some u" "b 256 (api_key (pcfg w)) = Some v"
    and ok: "login_ok P u v" "from_ok P (smtp_sender (pcfg w))" "filter (to_ok P) (named (take 32 as)) \<noteq> []"
    and long: "length (mail_header (smtp_sender (pcfg w)) subject (take 32 as)) > 512"
  shows "\<exists>w'. do_send (smtpd_tls P b) (Some (\<lambda>w. subject)) body (const_ptrs as) w = Some (Overrun, w')"
  unfolding do_send_srv [OF assms(1,2) addrs b64] using ok long by (simp add: send_data_def header_bytes_srv)

section \<open>A concrete server\<close>

definition b64_char :: "nat \<Rightarrow> char" where
  "b64_char n = ''ABCDEFGHIJKLMNOPQRSTUVWXYZabcdefghijklmnopqrstuvwxyz0123456789+/'' ! (n mod 64)"

fun b64_groups :: "nat list \<Rightarrow> string" where
  "b64_groups (a # b # c # xs) =
     [b64_char (a div 4), b64_char ((a mod 4) * 16 + b div 16), b64_char ((b mod 16) * 4 + c div 64), b64_char (c mod 64)] @
     b64_groups xs"
| "b64_groups [a, b] = [b64_char (a div 4), b64_char ((a mod 4) * 16 + b div 16), b64_char ((b mod 16) * 4), CHR ''='']"
| "b64_groups [a] = [b64_char (a div 4), b64_char ((a mod 4) * 16), CHR ''='', CHR ''='']"
| "b64_groups [] = []"

definition base64 :: "nat \<Rightarrow> string \<Rightarrow> string option" where
  "base64 cap s = (if s = [] then Some [] else if cap < 4 * ((length s + 2) div 3) + 1 then None
     else Some (b64_groups (map char_code s)))"

lemma length_b64_groups: "length (b64_groups xs) = 4 * ((length xs + 2) div 3)"
proof (induction xs rule: b64_groups.induct)
  case (1 a b c xs)
  have "(length (a # b # c # xs) + 2) div 3 = (length xs + 2) div 3 + 1" by simp
  with 1 show ?case by (simp only: b64_groups.simps length_append list.size) simp
qed simp_all

lemma b64_char_plain: "b64_char n \<noteq> CHR 0x0A"
proof -
  have "\<forall>k \<in> set (upt 0 64). ''ABCDEFGHIJKLMNOPQRSTUVWXYZabcdefghijklmnopqrstuvwxyz0123456789+/'' ! k \<noteq> CHR 0x0A"
    by code_simp
  then show ?thesis by (simp add: b64_char_def)
qed

lemma b64_groups_plain: "CHR 0x0A \<notin> set (b64_groups xs)"
  by (induction xs rule: b64_groups.induct) (simp_all add: b64_char_plain [symmetric])

lemma base64_laws: "base64_plain base64" "base64_bound (smtpd_tls P base64)"
  by (auto simp: base64_plain_def base64_bound_def base64_def length_b64_groups b64_groups_plain split: if_splits)

definition toy_policy :: policy where
  "toy_policy = \<lparr> login_ok = (\<lambda>u v. u = ''bWVAeC5vcmc='' \<and> v = ''c2VjcmV0''), from_ok = (\<lambda>a. a = ''me@x.org''),
     to_ok = (\<lambda>a. a \<noteq> ''bad@x.org'') \<rparr>"

definition toy_peer :: "string \<Rightarrow> peer" where
  "toy_peer key = peer_at \<lparr> smtp_host = ''x.org'', smtp_port = 465, smtp_sender = ''me@x.org'', api_key = key \<rparr>
     Closed \<lparr> m_from = [], m_to = [], m_text = [] \<rparr> []"


lemma dot_line_cuts_mail_witness:
  "\<exists>e w' later. do_send (smtpd_tls toy_policy base64) (Some (\<lambda>w. ''Hi''))
        (Some (\<lambda>w. ''The key:'' @ CRLF @ ''.'' @ CRLF @ ''under the mat'')) (const_ptrs [''a@x.org'']) (toy_peer ''secret'') =
      Some (e, w') \<and>
    delivered (srv w') = \<lparr> m_from = ''me@x.org'', m_to = [''a@x.org''],
      m_text = mail_header ''me@x.org'' ''Hi'' [''a@x.org''] @ ''The key:'' @ CRLF \<rparr> # later"
proof -
  let ?as = "[''a@x.org'']"
  have c: "ls_smtp_is_configured (pcfg (toy_peer ''secret''))" by code_simp
  have a: "\<forall>a \<in> set (smtp_sender (pcfg (toy_peer ''secret'')) # ?as). CHR 0x0A \<notin> set a \<and> length a \<le> 497" by code_simp
  have u: "base64 256 (smtp_sender (pcfg (toy_peer ''secret''))) = Some ''bWVAeC5vcmc=''" by code_simp
  have v: "base64 256 (api_key (pcfg (toy_peer ''secret''))) = Some ''c2VjcmV0''" by code_simp
  have l: "login_ok toy_policy ''bWVAeC5vcmc='' ''c2VjcmV0''" "from_ok toy_policy (smtp_sender (pcfg (toy_peer ''secret'')))"
    "filter (to_ok toy_policy) (named (take 32 ?as)) \<noteq> []"
    "length (mail_header (smtp_sender (pcfg (toy_peer ''secret''))) ''Hi'' (take 32 ?as)) \<le> 512"
    by code_simp+
  have d: "\<not> dotted (on_wire (mail_header (smtp_sender (pcfg (toy_peer ''secret''))) ''Hi'' (take 32 ?as)) @ ''The key:'')"
    by code_simp
  have o: "\<lparr> m_from = smtp_sender (pcfg (toy_peer ''secret'')), m_to = filter (to_ok toy_policy) (named (take 32 ?as)),
      m_text = on_wire (mail_header (smtp_sender (pcfg (toy_peer ''secret''))) ''Hi'' (take 32 ?as)) @ ''The key:'' @ CRLF \<rparr> =
    \<lparr> m_from = ''me@x.org'', m_to = [''a@x.org''],
      m_text = mail_header ''me@x.org'' ''Hi'' [''a@x.org''] @ ''The key:'' @ CRLF \<rparr>"
    by code_simp
  have e: "delivered (srv (toy_peer ''secret'')) = []" by code_simp
  show ?thesis
    using dot_line_cuts_mail [OF c _ a base64_laws(1) u v l d, of "''under the mat''"] unfolding o e by simp
qed

text \<open>A device on which nobody changes the configuration during a send.\<close>

definition still :: "peer tls_ops \<Rightarrow> ls_smtp_config \<Rightarrow> peer tls_ops" where
  "still T c = T\<lparr>tls_cfg := \<lambda>w. c\<rparr>"

lemma smtp_send_returns_witness:
  "\<exists>rc effs w'. smtp_test_task (still (smtpd_tls toy_policy base64) (pcfg (toy_peer ''secret''))) (toy_peer ''secret'') =
     Some (Ended rc, effs, w')"
proof -
  let ?T = "still (smtpd_tls toy_policy base64) (pcfg (toy_peer ''secret''))"
  let ?s = "Some (\<lambda>w :: peer. ''LebensSpur SMTP test'')" and ?r = "[Some (\<lambda>w. smtp_sender (tls_cfg ?T w))]"
  have "\<forall>s w. s \<noteq> [] \<longrightarrow> fst (tls_write ?T s w) \<noteq> 0" by (simp add: still_def smtpd_tls_def)
  moreover have "\<forall>w. length (concat (header_pieces ?T ?s (take LS_SMTP_MAX_RCPT ?r) w)) \<le> IO_BUF"
    by (simp add: header_pieces_def still_def toy_peer_def rcpt_at_def text_at_def LS_SMTP_MAX_RCPT_def IO_BUF_def CRLF_def)
  ultimately show ?thesis unfolding smtp_test_task_def
    using smtp_send_returns [where T = ?T and subject = ?s and rs = ?r] by blast
qed

lemma short_addresses_no_overrun_witness:
  "do_send (still (smtpd_tls toy_policy base64) (pcfg (toy_peer ''secret''))) (Some (\<lambda>w. ''Hi'')) (Some (\<lambda>w. ''Body''))
     (const_ptrs [''a@x.org'', ''b@x.org'']) (toy_peer ''secret'') \<noteq> Some (Overrun, toy_peer ''secret'')"
  by (rule short_addresses_no_overrun [where M = 80]) (simp_all add: still_def toy_peer_def)

lemma long_key_never_sends_witness:
  "ls_smtp_send (still (smtpd_tls toy_policy base64) (pcfg (toy_peer (replicate 190 CHR ''k'')))) (Some (\<lambda>w. ''Hi''))
     (Some (\<lambda>w. ''Body'')) (const_ptrs [''a@x.org'']) (toy_peer (replicate 190 CHR ''k'')) \<noteq>
   Some (Ended SK_OK, [], toy_peer [])"
proof (rule long_key_never_sends)
  show "base64_bound (still (smtpd_tls toy_policy base64) (pcfg (toy_peer (replicate 190 CHR ''k''))))"
    using base64_laws(2) by (simp add: base64_bound_def still_def)
qed (simp add: still_def toy_peer_def)

text \<open>Five addresses that the mail groups accept, each of 90 characters: the header overruns its array.\<close>

definition long_address :: "char \<Rightarrow> string" where
  "long_address c = replicate 84 c @ ''@x.org''"

lemma long_header_overruns_witness:
  "\<exists>w'. do_send (smtpd_tls toy_policy base64) (Some (\<lambda>w. ''Hi'')) (Some (\<lambda>w. ''Body''))
       (const_ptrs (map long_address ''abcde'')) (toy_peer ''secret'') = Some (Overrun, w')"
proof -
  let ?as = "map long_address ''abcde''"
  have c: "ls_smtp_is_configured (pcfg (toy_peer ''secret''))" by code_simp
  have a: "\<forall>a \<in> set (smtp_sender (pcfg (toy_peer ''secret'')) # ?as). CHR 0x0A \<notin> set a \<and> length a \<le> 497" by code_simp
  have u: "base64 256 (smtp_sender (pcfg (toy_peer ''secret''))) = Some ''bWVAeC5vcmc=''" by code_simp
  have v: "base64 256 (api_key (pcfg (toy_peer ''secret''))) = Some ''c2VjcmV0''" by code_simp
  have l: "login_ok toy_policy ''bWVAeC5vcmc='' ''c2VjcmV0''" "from_ok toy_policy (smtp_sender (pcfg (toy_peer ''secret'')))"
    "filter (to_ok toy_policy) (named (take 32 ?as)) \<noteq> []"
    "length (mail_header (smtp_sender (pcfg (toy_peer ''secret''))) ''Hi'' (take 32 ?as)) > 512"
    by code_simp+
  show ?thesis
    using long_header_overruns [OF c _ a base64_laws(1) u v l, of "Some (\<lambda>w. ''Body'')"] by simp
qed

end
