(* ===== verification/LsMailGroupsProps.thy ===== *)
theory LsMailGroupsProps
  imports LsMailGroups LsSmtpServer
begin

text \<open>
  The mail groups: they are well formed and in step with flash over every run of commands, factory resets
  and power cycles; no group lists an address twice; the worker, against an SMTP server, mails every
  enabled group once; and where the commands misread their arguments or overrun an array.
\<close>

section \<open>Keys\<close>

lemma group_key_eq: "i < 10 \<Longrightarrow> length s \<le> 12 \<Longrightarrow> group_key i s = CHR ''g'' # digit_char i # CHR ''_'' # s"
  by (simp add: group_key_def dec_nat_digit snprintf_def)

lemma rcpt_key_eq: "i < 10 \<Longrightarrow> r < 20 \<Longrightarrow> rcpt_key i r = CHR ''g'' # digit_char i # CHR ''_'' # CHR ''r'' # dec_nat r"
  using length_dec_nat [of r 1] by (simp add: rcpt_key_def dec_nat_digit snprintf_def)

text \<open>The keys of a group, told apart.\<close>

lemma group_keys_apart:
  "i < 10 \<Longrightarrow> j < 10 \<Longrightarrow> length s \<le> 12 \<Longrightarrow> length s' \<le> 12 \<Longrightarrow> group_key i s = group_key j s' \<longleftrightarrow> i = j \<and> s = s'"
  by (auto simp: group_key_eq digit_char_inj)

lemma rcpt_keys_apart:
  "i < 10 \<Longrightarrow> j < 10 \<Longrightarrow> r < 20 \<Longrightarrow> r' < 20 \<Longrightarrow> rcpt_key i r = rcpt_key j r' \<longleftrightarrow> i = j \<and> r = r'"
  by (auto simp: rcpt_key_eq digit_char_inj dec_nat_inj)

lemma group_rcpt_apart:
  assumes "i < 10" "j < 10" "r < 20" "length s \<le> 12" "\<And>n. s \<noteq> CHR ''r'' # dec_nat n"
  shows "group_key i s \<noteq> rcpt_key j r" "rcpt_key j r \<noteq> group_key i s"
  using assms by (auto simp: group_key_eq rcpt_key_eq)

section \<open>Flash and RAM of one group\<close>

definition group_wf :: "ls_mail_group \<Rightarrow> bool" where
  "group_wf g \<longleftrightarrow> length (g_rcpts g) = 20 \<and> unat (g_count g) \<le> 20 \<and> length (g_name g) \<le> 47 \<and>
     length (g_subject g) \<le> 127 \<and> length (g_body g) \<le> 511 \<and> (\<forall>a \<in> set (g_rcpts g). length a \<le> 95) \<and>
     (\<forall>r. unat (g_count g) \<le> r \<and> r < 20 \<longrightarrow> g_rcpts g ! r = []) \<and> (\<not> g_used g \<longrightarrow> g = group_zero)"

definition groups_wf :: "ls_mail_group list \<Rightarrow> bool" where
  "groups_wf gs \<longleftrightarrow> length gs = 10 \<and> (\<forall>g \<in> set gs. group_wf g)"

lemmas group_limits = LS_MAIL_GROUP_MAX_def LS_MAIL_GROUP_NAME_MAX_def LS_MAIL_GROUP_SUBJECT_MAX_def
  LS_MAIL_GROUP_BODY_MAX_def LS_MAIL_GROUP_RCPT_MAX_def LS_MAIL_GROUP_RCPT_EMAIL_MAX_def

lemma group_zero_wf: "group_wf group_zero"
  by (simp add: group_wf_def group_zero_def group_limits)

lemma groups_zero_wf: "groups_wf groups_zero"
  by (simp add: groups_wf_def groups_zero_def group_limits group_zero_wf)

lemma wf_slot: "groups_wf gs \<Longrightarrow> i < 10 \<Longrightarrow> group_wf (gs ! i)"
  by (simp add: groups_wf_def)

lemma get_saved_other:
  assumes "nvs_lawful N" "\<And>r. r < k \<Longrightarrow> key \<noteq> rcpt_key i r"
  shows "nv_get N (save_rcpts N i rs k n) NVS_MG key = nv_get N n NVS_MG key"
  using assms(2) by (induction k) (simp_all add: save_rcpts_def nvs_simps assms(1))

lemma get_saved_rcpt:
  assumes "nvs_lawful N" "i < 10" "k \<le> 20" "r < k"
  shows "nv_get N (save_rcpts N i rs k n) NVS_MG (rcpt_key i r) = Some (NvStr (rs ! r))"
  using assms(3,4)
proof (induction k)
  case (Suc k)
  then show ?case
    by (auto simp: save_rcpts_def nvs_simps assms(1) less_Suc_eq rcpt_keys_apart assms(2))
qed simp

lemma rc_not_rcpt: "''rc'' \<noteq> CHR ''r'' # dec_nat n"
  using dec_nat_not_c [of n "[]"] by auto

lemmas field_keys = group_keys_apart group_rcpt_apart rc_not_rcpt

text \<open>What a save writes, key by key.\<close>

lemma get_written:
  assumes "nvs_lawful N" "i < 10" "unat (g_count g) \<le> 20" "g_used g"
  shows "nv_get N (write_group N i g n) NVS_MG (group_key i ''used'') = Some (nv_bool True)"
    "nv_get N (write_group N i g n) NVS_MG (group_key i ''en'') = Some (nv_bool (g_enabled g))"
    "nv_get N (write_group N i g n) NVS_MG (group_key i ''nm'') = Some (NvStr (g_name g))"
    "nv_get N (write_group N i g n) NVS_MG (group_key i ''sb'') = Some (NvStr (g_subject g))"
    "nv_get N (write_group N i g n) NVS_MG (group_key i ''bd'') = Some (NvStr (g_body g))"
    "nv_get N (write_group N i g n) NVS_MG (group_key i ''rc'') = Some (NvU8 (g_count g))"
    "r < unat (g_count g) \<Longrightarrow> nv_get N (write_group N i g n) NVS_MG (rcpt_key i r) = Some (NvStr (g_rcpts g ! r))"
proof -
  have o: "nv_get N (save_rcpts N i rs (unat (g_count g)) n) NVS_MG (group_key i s) = nv_get N n NVS_MG (group_key i s)"
    if "length s \<le> 12" "\<And>n. s \<noteq> CHR ''r'' # dec_nat n" for rs n s
    by (rule get_saved_other [OF assms(1)]) (use assms that in \<open>auto simp: group_rcpt_apart\<close>)
  show "nv_get N (write_group N i g n) NVS_MG (group_key i ''used'') = Some (nv_bool True)"
    "nv_get N (write_group N i g n) NVS_MG (group_key i ''en'') = Some (nv_bool (g_enabled g))"
    "nv_get N (write_group N i g n) NVS_MG (group_key i ''nm'') = Some (NvStr (g_name g))"
    "nv_get N (write_group N i g n) NVS_MG (group_key i ''sb'') = Some (NvStr (g_subject g))"
    "nv_get N (write_group N i g n) NVS_MG (group_key i ''bd'') = Some (NvStr (g_body g))"
    "nv_get N (write_group N i g n) NVS_MG (group_key i ''rc'') = Some (NvU8 (g_count g))"
    by (simp_all add: write_group_def Let_def assms(4) o dec_nat_not_c [symmetric] nvs_get_put [OF assms(1)] group_keys_apart assms(2))
  show "r < unat (g_count g) \<Longrightarrow> nv_get N (write_group N i g n) NVS_MG (rcpt_key i r) = Some (NvStr (g_rcpts g ! r))"
    by (simp add: write_group_def Let_def assms get_saved_rcpt)
qed

lemma get_written_unused:
  assumes "nvs_lawful N" "\<not> g_used g"
  shows "nv_get N (write_group N i g n) NVS_MG (group_key i ''used'') = Some (nv_bool False)"
  by (simp add: write_group_def Let_def assms nvs_simps)

lemma get_written_elsewhere:
  assumes "nvs_lawful N" "i < 10" "unat (g_count g) \<le> 20"
    and "\<And>s. length s \<le> 12 \<Longrightarrow> key \<noteq> group_key i s" "\<And>r. r < 20 \<Longrightarrow> key \<noteq> rcpt_key i r"
  shows "nv_get N (write_group N i g n) NVS_MG key = nv_get N n NVS_MG key"
proof -
  have "nv_get N (save_rcpts N i rs (unat (g_count g)) n) NVS_MG key = nv_get N n NVS_MG key" for rs n
    by (rule get_saved_other [OF assms(1)]) (use assms(3,5) in auto)
  then show ?thesis
    by (simp add: write_group_def Let_def nvs_get_put [OF assms(1)] assms(4))
qed

section \<open>Loading what was saved\<close>

lemma load_rcpts_eq:
  "k \<le> 20 \<Longrightarrow> length rs = 20 \<Longrightarrow> load_rcpts N n i k rs =
     map (\<lambda>r. if r < k then load_str N n NVS_MG (rcpt_key i r) 95 (rs ! r) else rs ! r) [0..<20]"
  using fold_slots [of k rs "\<lambda>r old. load_str N n NVS_MG (rcpt_key i r) 95 old"]
  by (simp add: load_rcpts_def group_limits)

lemma load_cong:
  assumes "\<And>s. length s \<le> 12 \<Longrightarrow> nv_get N n NVS_MG (group_key i s) = nv_get N n' NVS_MG (group_key i s)"
    and "\<And>r. r < 20 \<Longrightarrow> nv_get N n NVS_MG (rcpt_key i r) = nv_get N n' NVS_MG (rcpt_key i r)"
    and "length (g_rcpts g) = 20"
  shows "load_group N n i g = load_group N n' i g"
proof -
  have "load_rcpts N n i (min k 20) rs = load_rcpts N n' i (min k 20) rs" if "length rs = 20" for k rs
    using assms(2) that by (simp add: load_rcpts_eq load_str_def get_str_def)
  with assms(1,3) show ?thesis
    by (simp add: load_group_def load_str_def get_str_def get_u8_def Let_def group_limits)
qed

lemma load_written:
  assumes N: "nvs_lawful N" and i: "i < 10" and wf: "group_wf g"
  shows "load_group N (nv_commit N (write_group N i g n) NVS_MG) i group_zero = g"
proof (cases "g_used g")
  case False
  then have z: "g = group_zero" using wf by (simp add: group_wf_def)
  have "get_u8 N (nv_commit N (write_group N i g n) NVS_MG) NVS_MG (group_key i ''used'') = Some 0"
    by (simp add: get_u8_def nvs_get_commit [OF N] get_written_unused [OF N False] nv_bool_def)
  then have "load_group N (nv_commit N (write_group N i g n) NVS_MG) i group_zero = group_zero\<lparr>g_used := False\<rparr>"
    by (simp add: load_group_def)
  then show ?thesis unfolding z by (simp add: group_zero_def)
next
  case True
  have c: "unat (g_count g) \<le> 20" using wf by (simp add: group_wf_def)
  note w = get_written [OF N i c True, where n = n]
  have "load_rcpts N (nv_commit N (write_group N i g n) NVS_MG) i (unat (g_count g)) (replicate 20 []) = g_rcpts g"
  proof (rule nth_equalityI)
    show "length (load_rcpts N (nv_commit N (write_group N i g n) NVS_MG) i (unat (g_count g)) (replicate 20 [])) = length (g_rcpts g)"
      using wf c by (simp add: load_rcpts_eq group_wf_def)
    fix r assume "r < length (load_rcpts N (nv_commit N (write_group N i g n) NVS_MG) i (unat (g_count g)) (replicate 20 []))"
    then have "r < 20" using c by (simp add: load_rcpts_eq)
    then show "load_rcpts N (nv_commit N (write_group N i g n) NVS_MG) i (unat (g_count g)) (replicate 20 []) ! r = g_rcpts g ! r"
      using wf c w(7) by (auto simp: load_rcpts_eq load_str_def get_str_def nvs_get_commit [OF N] load_val_def group_wf_def)
  qed
  then show ?thesis
    using wf c w(1-6) by (simp add: load_group_def Let_def load_str_def get_str_def get_u8_def nvs_get_commit [OF N]
        nv_bool_def load_val_def group_wf_def group_limits group_zero_def True)
qed

lemma load_elsewhere:
  assumes N: "nvs_lawful N" and "i < 10" "j < 10" "i \<noteq> j" "group_wf g"
  shows "load_group N (nv_commit N (write_group N i g n) NVS_MG) j group_zero = load_group N n j group_zero"
proof (rule load_cong)
  have c: "unat (g_count g) \<le> 20" using assms(5) by (simp add: group_wf_def)
  show "nv_get N (nv_commit N (write_group N i g n) NVS_MG) NVS_MG (group_key j s) = nv_get N n NVS_MG (group_key j s)"
    if "length s \<le> 12" for s
    unfolding nvs_get_commit [OF N]
    by (rule get_written_elsewhere [OF N assms(2) c])
      (use assms that in \<open>auto simp: group_keys_apart group_key_eq rcpt_key_eq digit_char_inj\<close>)
  show "nv_get N (nv_commit N (write_group N i g n) NVS_MG) NVS_MG (rcpt_key j r) = nv_get N n NVS_MG (rcpt_key j r)"
    if "r < 20" for r
    unfolding nvs_get_commit [OF N]
    by (rule get_written_elsewhere [OF N assms(2) c])
      (use assms that in \<open>auto simp: rcpt_keys_apart group_key_eq rcpt_key_eq digit_char_inj\<close>)
qed (simp add: group_zero_def group_limits)

section \<open>The groups are in step with flash\<close>

definition stored_groups :: "'n nvs_ops \<Rightarrow> 'n \<Rightarrow> ls_mail_group list" where
  "stored_groups N n = map (\<lambda>i. load_group N n i group_zero) [0..<10]"

lemma load_all_eq:
  assumes N: "nvs_lawful N"
  shows "load_all N n = stored_groups N n"
proof (cases "nv_open_ro N n NVS_MG = ESP_OK")
  case True
  then show ?thesis
    by (auto simp: load_all_def stored_groups_def groups_zero_def group_limits intro!: map_cong)
next
  case False
  have "nv_get N n NVS_MG k = None" for k
    using False nvs_open_ro [OF N] by (cases "nv_get N n NVS_MG k") auto
  then have "load_group N n i group_zero = group_zero" for i
    by (simp add: load_group_def get_u8_def group_zero_def)
  then show ?thesis
    using False by (simp add: load_all_def stored_groups_def groups_zero_def group_limits map_replicate_const)
qed

definition groups_in_step :: "'n nvs_ops \<Rightarrow> 'n groups \<Rightarrow> bool" where
  "groups_in_step N s \<longleftrightarrow> groups_wf (slots s) \<and> stored_groups N (gflash s) = slots s"

lemma put_in_step:
  assumes N: "nvs_lawful N" and s: "groups_in_step N s" and i: "i < 10" and g: "group_wf g"
  shows "groups_in_step N (put_group N i g s)" "slots (put_group N i g s) = (slots s)[i := g]"
proof -
  have l: "length (slots s) = 10" using s by (simp add: groups_in_step_def groups_wf_def)
  then show sl: "slots (put_group N i g s) = (slots s)[i := g]"
    by (simp add: put_group_def save_group_def nvs_open_rw [OF N])
  have f: "gflash (put_group N i g s) = nv_commit N (write_group N i g (gflash s)) NVS_MG"
    using l i by (simp add: put_group_def save_group_def nvs_open_rw [OF N])
  have "stored_groups N (gflash (put_group N i g s)) = (slots s)[i := g]"
  proof (rule nth_equalityI)
    show "length (stored_groups N (gflash (put_group N i g s))) = length ((slots s)[i := g])"
      using l by (simp add: stored_groups_def)
    fix j assume "j < length (stored_groups N (gflash (put_group N i g s)))"
    then have j: "j < 10" by (simp add: stored_groups_def)
    have old: "load_group N (gflash s) j group_zero = slots s ! j"
    proof -
      have "slots s = stored_groups N (gflash s)" using s by (simp add: groups_in_step_def)
      then show ?thesis using j by (simp add: stored_groups_def)
    qed
    have e: "stored_groups N (gflash (put_group N i g s)) ! j = load_group N (gflash (put_group N i g s)) j group_zero"
      using j by (simp add: stored_groups_def)
    show "stored_groups N (gflash (put_group N i g s)) ! j = (slots s)[i := g] ! j"
    proof (cases "i = j")
      case True
      then show ?thesis using l j unfolding e unfolding f True [symmetric] load_written [OF N i g] by simp
    next
      case False
      then show ?thesis unfolding e unfolding f load_elsewhere [OF N i j False g] old by simp
    qed
  qed
  moreover have "groups_wf ((slots s)[i := g])"
    using s g by (auto simp: groups_in_step_def groups_wf_def dest!: set_update_subset_insert [THEN subsetD])
  ultimately show "groups_in_step N (put_group N i g s)" by (simp add: groups_in_step_def sl)
qed

section \<open>The recipients of a group\<close>

lemma listed_take: "unat (g_count g) \<le> 20 \<Longrightarrow> length (g_rcpts g) = 20 \<Longrightarrow> listed g = take (unat (g_count g)) (g_rcpts g)"
  by (rule nth_equalityI) (simp_all add: listed_def)

lemma listed_add:
  assumes "group_wf g" "unat (g_count g) < 20"
  shows "listed (add_rcpt e g) = listed g @ [take 95 e]"
proof -
  have "listed (add_rcpt e g) = take (unat (g_count g) + 1) ((g_rcpts g)[unat (g_count g) := take 95 e])"
    using assms by (subst listed_take) (simp_all add: add_rcpt_def count_up group_wf_def group_limits)
  also have "\<dots> = listed g @ [take 95 e]"
    using assms by (subst listed_take) (simp_all add: group_wf_def take_Suc_conv_app_nth)
  finally show ?thesis .
qed

lemma add_wf:
  assumes "group_wf g" "g_used g" "unat (g_count g) < 20"
  shows "group_wf (add_rcpt e g)"
  using assms by (auto simp: group_wf_def add_rcpt_def count_up group_limits nth_list_update
      dest!: set_update_subset_insert [THEN subsetD])

lemma removed_slots:
  assumes "group_wf g" "f < unat (g_count g)"
  shows "g_rcpts (remove_rcpt f g) =
    map (\<lambda>r. if r = unat (g_count g) - 1 then [] else if f \<le> r \<and> r < unat (g_count g) - 1 then g_rcpts g ! Suc r
      else g_rcpts g ! r) [0..<20]"
proof -
  have w: "unat (g_count g) \<le> 20" "length (g_rcpts g) = 20" using assms(1) by (simp_all add: group_wf_def)
  then show ?thesis
    using assms(2) remove_slot_eq [of "unat (g_count g) - 1" "g_rcpts g" f] by (simp add: remove_rcpt_def)
qed

lemma listed_remove:
  assumes "group_wf g" "f < unat (g_count g)"
  shows "listed (remove_rcpt f g) = take f (listed g) @ drop (Suc f) (listed g)"
proof (rule nth_equalityI)
  have c: "unat (g_count (remove_rcpt f g)) = unat (g_count g) - 1"
    using assms(2) by (simp add: remove_rcpt_def count_down)
  then show "length (listed (remove_rcpt f g)) = length (take f (listed g) @ drop (Suc f) (listed g))"
    using assms(2) by (simp add: listed_def)
  fix r assume "r < length (listed (remove_rcpt f g))"
  then have r: "r < unat (g_count g) - 1" by (simp add: listed_def c)
  moreover have "unat (g_count g) \<le> 20" using assms(1) by (simp add: group_wf_def)
  ultimately show "listed (remove_rcpt f g) ! r = (take f (listed g) @ drop (Suc f) (listed g)) ! r"
    using assms(2) by (auto simp: listed_def c removed_slots [OF assms] nth_append)
qed

lemma remove_wf:
  assumes "group_wf g" "g_used g" "f < unat (g_count g)"
  shows "group_wf (remove_rcpt f g)"
proof -
  have c: "unat (g_count (remove_rcpt f g)) = unat (g_count g) - 1"
    using assms(3) by (simp add: remove_rcpt_def count_down)
  have k: "g_name (remove_rcpt f g) = g_name g" "g_subject (remove_rcpt f g) = g_subject g"
    "g_body (remove_rcpt f g) = g_body g" "g_used (remove_rcpt f g) = g_used g"
    by (simp_all add: remove_rcpt_def)
  have w: "unat (g_count g) \<le> 20" "length (g_rcpts g) = 20" "\<forall>a \<in> set (g_rcpts g). length a \<le> 95"
    "\<forall>r. unat (g_count g) \<le> r \<and> r < 20 \<longrightarrow> g_rcpts g ! r = []"
    using assms(1) by (simp_all add: group_wf_def)
  have "\<forall>a \<in> set (g_rcpts (remove_rcpt f g)). length a \<le> 95"
    using w assms(3) by (auto simp: removed_slots [OF assms(1,3)])
  moreover have "\<forall>r. unat (g_count g) - 1 \<le> r \<and> r < 20 \<longrightarrow> g_rcpts (remove_rcpt f g) ! r = []"
    using w assms(3) by (auto simp: removed_slots [OF assms(1,3)])
  moreover have "length (g_rcpts (remove_rcpt f g)) = 20" by (simp add: removed_slots [OF assms(1,3)])
  ultimately show ?thesis
    using assms(1,2) w(1) by (auto simp: group_wf_def c k)
qed

section \<open>Every command keeps the groups in step\<close>

text \<open>The addresses of a group are different, whatever their case.\<close>

definition no_twice :: "ls_mail_group \<Rightarrow> bool" where
  "no_twice g = distinct (map (map to_lower) (listed g))"

text \<open>The invariant, with the clause on repeated addresses when \<open>b\<close> says so.\<close>

definition groups_ok_state :: "bool \<Rightarrow> 'n nvs_ops \<Rightarrow> 'n groups \<Rightarrow> bool" where
  "groups_ok_state b N s \<longleftrightarrow> groups_in_step N s \<and> (b \<longrightarrow> (\<forall>g \<in> set (slots s). no_twice g))"

lemma listed_zero [simp]: "listed group_zero = []"
  by (simp add: listed_def group_zero_def)

lemma no_twice_zero: "no_twice group_zero"
  by (simp add: no_twice_def)

lemma ok_put:
  assumes "nvs_lawful N" "groups_ok_state b N s" "i < 10" "group_wf g" "b \<longrightarrow> no_twice g"
  shows "groups_ok_state b N (put_group N i g s)"
  using put_in_step [OF assms(1) _ assms(3,4), of s] assms(2,5)
  by (auto simp: groups_ok_state_def dest!: set_update_subset_insert [THEN subsetD])

text \<open>The state that a command leaves.\<close>

definition leaves :: "('n groups \<Rightarrow> bool) \<Rightarrow> 'n groups_res \<Rightarrow> bool" where
  "leaves P r = (case r of None \<Rightarrow> True | Some (s, outs, e) \<Rightarrow> P s)"

lemma leaves_simps [simp]:
  "leaves P (groups_refuse s outs e) = P s" "leaves P (groups_ok ctx s m h) = P s"
  "leaves P None" "leaves P (Some (s, outs, e)) = P s"
  by (simp_all add: leaves_def groups_refuse_def groups_ok_def)

lemma leaves_with_group:
  assumes "P s" "\<And>i. i < 10 \<Longrightarrow> g_used (slots s ! i) \<Longrightarrow> leaves P (k i)"
  shows "leaves P (with_group ctx u k s)"
proof -
  have "parse_id_pos ctx 0 = Some i \<Longrightarrow> i < 10" for i
    by (auto simp: parse_id_pos_def group_limits split: option.splits if_splits)
  with assms show ?thesis by (auto simp: with_group_def split: option.split)
qed

lemma ok_slot:
  assumes "groups_ok_state b N s" "i < 10"
  shows "group_wf (slots s ! i)" "b \<longrightarrow> no_twice (slots s ! i)"
  using assms by (auto simp: groups_ok_state_def groups_in_step_def groups_wf_def)

lemma new_group_wf: "group_wf (new_group i name)" "listed (new_group i name) = []"
  by (auto simp: new_group_def group_wf_def group_zero_def group_limits listed_def snprintf_def split: option.split)

lemma free_slot_lt: "free_slot gs = Some i \<Longrightarrow> i < 10"
  by (auto simp: free_slot_def find_Some_iff group_limits)

lemma add_ok:
  assumes "nvs_lawful N" "groups_ok_state b N s"
  shows "leaves (groups_ok_state b N) (group_cli_add N ctx s)"
  using assms ok_put [OF assms, of _ "new_group i name" for i name]
  by (auto simp: group_cli_add_def ls_mail_groups_add_def Let_def new_group_wf no_twice_def dest: free_slot_lt
      split: option.split prod.split)

lemma delete_ok:
  assumes "nvs_lawful N" "groups_ok_state b N s"
  shows "leaves (groups_ok_state b N) (group_cli_delete N ctx s)"
  unfolding group_cli_delete_def
  by (rule leaves_with_group) (use assms ok_put [OF assms, of _ group_zero] group_zero_wf no_twice_zero in
      \<open>auto simp: ls_mail_groups_delete_def\<close>)

lemma enable_ok:
  assumes "nvs_lawful N" "groups_ok_state b N s"
  shows "leaves (groups_ok_state b N) (group_cli_enable N ctx s)"
proof -
  have "parse_id_pos ctx 0 = Some i \<Longrightarrow> i < 10" for i
    by (auto simp: parse_id_pos_def group_limits split: option.splits if_splits)
  moreover have "groups_ok_state b N (put_group N i ((slots s ! i)\<lparr>g_enabled := e\<rparr>) s)"
    if "i < 10" "g_used (slots s ! i)" for i e
    by (rule ok_put [OF assms that(1)])
      (use ok_slot [OF assms(2) that(1)] that(2) in \<open>auto simp: group_wf_def no_twice_def listed_def\<close>)
  ultimately show ?thesis
    using assms(2) by (auto simp: group_cli_enable_def split: option.split)
qed

lemma field_ok:
  assumes "nvs_lawful N" "groups_ok_state b N s" "i < 10" "g_used (slots s ! i)"
  shows "length v \<le> 47 \<Longrightarrow> groups_ok_state b N (put_group N i ((slots s ! i)\<lparr>g_name := v\<rparr>) s)"
    and "length v \<le> 127 \<Longrightarrow> groups_ok_state b N (put_group N i ((slots s ! i)\<lparr>g_subject := v\<rparr>) s)"
    and "length v \<le> 511 \<Longrightarrow> groups_ok_state b N (put_group N i ((slots s ! i)\<lparr>g_body := v\<rparr>) s)"
  by (rule ok_put [OF assms(1,2,3)]; use ok_slot [OF assms(2,3)] assms(4) in
      \<open>auto simp: group_wf_def no_twice_def listed_def\<close>)+

lemma text_ok:
  assumes "nvs_lawful N" "groups_ok_state b N s"
  shows "leaves (groups_ok_state b N) (group_cli_name N ctx s)"
    and "leaves (groups_ok_state b N) (group_cli_subject N ctx s)"
    and "leaves (groups_ok_state b N) (group_cli_body N ctx s)"
  unfolding group_cli_name_def group_cli_subject_def group_cli_body_def
  by (rule leaves_with_group, rule assms(2), use assms(2) field_ok [OF assms] in
      \<open>auto simp: group_limits split: option.split dest!: text_arg_length\<close>)+

lemma list_ok: "P s \<Longrightarrow> leaves P (group_cli_list ctx s)"
  by (simp add: group_cli_list_def Let_def split: option.split prod.split)

lemma leaves_map: "P s \<Longrightarrow> leaves P (map_option (\<lambda>j. (s, f j, e)) x)"
  by (cases x) simp_all

lemma get_ok: "P s \<Longrightarrow> leaves P (group_cli_get alloc_ok ctx s)"
  unfolding group_cli_get_def
  by (rule leaves_with_group) (auto simp: Let_def leaves_map split: option.split)

lemma rcpt_args_lt: "rcpt_args ctx = Some (i, e) \<Longrightarrow> i < 10"
  by (auto simp: rcpt_args_def parse_id_pos_def group_limits split: option.splits list.splits if_splits)

lemma no_twice_add:
  assumes "group_wf g" "unat (g_count g) < 20" "no_twice g" "find_address e (listed g) = None" "length e \<le> 95"
  shows "no_twice (add_rcpt e g)"
  using assms(3-5) listed_add [OF assms(1,2), of e]
  by (auto simp: no_twice_def find_address_None same_address_def)

lemma no_twice_remove:
  assumes "group_wf g" "f < unat (g_count g)" "no_twice g"
  shows "no_twice (remove_rcpt f g)"
proof -
  have "distinct (take f xs @ drop (Suc f) xs)" if "distinct xs" for xs :: "string list"
    using that by (metis distinct_append distinct_drop distinct_take set_take_disj_set_drop_if_distinct le_SucI order_refl)
  from this [of "map (map to_lower) (listed g)"] assms(3) show ?thesis
    by (simp add: no_twice_def listed_remove [OF assms(1,2)] take_map drop_map)
qed

lemma rcpt_remove_ok:
  assumes "nvs_lawful N" "groups_ok_state b N s"
  shows "leaves (groups_ok_state b N) (group_cli_rcpt_remove N ctx s)"
proof -
  have "groups_ok_state b N (put_group N i (remove_rcpt f (slots s ! i)) s)"
    if "i < 10" "g_used (slots s ! i)" "find_address e (listed (slots s ! i)) = Some f" for i e f
  proof -
    have "f < unat (g_count (slots s ! i))" using that(3) by (simp add: find_address_Some listed_def)
    with ok_slot [OF assms(2) that(1)] that(2) show ?thesis
      by (intro ok_put [OF assms that(1)] remove_wf impI no_twice_remove) simp_all
  qed
  with assms(2) show ?thesis
    by (auto simp: group_cli_rcpt_remove_def Let_def dest: rcpt_args_lt split: option.split)
qed

text \<open>
  For \<open>recipient.add\<close> the address must fit its 95 characters: a longer one is stored cut off, and is not
  found again by the test for duplicates.
\<close>

definition fits_rcpt :: "cli_ctx \<Rightarrow> bool" where
  "fits_rcpt ctx \<longleftrightarrow> (case rcpt_args ctx of None \<Rightarrow> True | Some (i, e) \<Rightarrow> length e \<le> 95)"

lemma rcpt_add_ok:
  assumes "nvs_lawful N" "groups_ok_state b N s" "b \<longrightarrow> fits_rcpt ctx"
  shows "leaves (groups_ok_state b N) (group_cli_rcpt_add N ctx s)"
proof -
  have "groups_ok_state b N (put_group N i (add_rcpt e (slots s ! i)) s)"
    if "i < 10" "g_used (slots s ! i)" "unat (g_count (slots s ! i)) < 20" "find_address e (listed (slots s ! i)) = None"
      "b \<longrightarrow> length e \<le> 95" for i e
    using ok_slot [OF assms(2) that(1)] that
    by (intro ok_put [OF assms(1,2) that(1)] add_wf impI no_twice_add) simp_all
  note put = this
  show ?thesis
  proof (cases "rcpt_args ctx")
    case None
    then show ?thesis using assms(2) by (simp add: group_cli_rcpt_add_def)
  next
    case (Some ie)
    obtain i e where ie: "ie = (i, e)" by (cases ie)
    have "i < 10" "b \<longrightarrow> length e \<le> 95"
      using rcpt_args_lt [of ctx i e] assms(3) by (simp_all add: Some ie fits_rcpt_def)
    with put [of i e] assms(2) show ?thesis
      by (simp add: group_cli_rcpt_add_def Some ie Let_def group_limits)
  qed
qed

section \<open>Runs\<close>

text \<open>
  What can happen to the groups: a command, a trigger, a factory reset, a power cycle. \<open>None\<close> when a handler
  overruns its array.
\<close>

datatype group_ev = GroupCmd string bool cli_ctx | GroupTrigger | GroupReset | GroupPowerCycle bool bool

fun group_step :: "'n nvs_ops \<Rightarrow> 'n groups option \<Rightarrow> group_ev \<Rightarrow> 'n groups option" where
  "group_step N None e = None"
| "group_step N (Some s) (GroupCmd name alloc_ok ctx) =
     (case map_of (group_cmds N alloc_ok) name of None \<Rightarrow> Some s | Some h \<Rightarrow> map_option fst (h ctx s))"
| "group_step N (Some s) GroupTrigger = Some (groups_on_triggered s)"
| "group_step N (Some s) GroupReset = Some (groups_factory_reset N s)"
| "group_step N (Some s) (GroupPowerCycle queue_ok task_ok) =
     Some (snd (ls_mail_groups_init N queue_ok task_ok (gflash s)))"

fun short_rcpts :: "group_ev \<Rightarrow> bool" where
  "short_rcpts (GroupCmd name a ctx) \<longleftrightarrow> (name = ''mail.group.recipient.add'' \<longrightarrow> fits_rcpt ctx)"
| "short_rcpts _ = True"

lemma cmd_ok:
  assumes "nvs_lawful N" "groups_ok_state b N s" "(name, h) \<in> set (group_cmds N a)"
    and "b \<longrightarrow> name = ''mail.group.recipient.add'' \<longrightarrow> fits_rcpt ctx"
  shows "leaves (groups_ok_state b N) (h ctx s)"
proof -
  have "name = ''mail.group.recipient.add'' \<Longrightarrow> leaves (groups_ok_state b N) (group_cli_rcpt_add N ctx s)"
    by (rule rcpt_add_ok [OF assms(1,2)]) (use assms(4) in simp)
  then show ?thesis using assms(3)
    by (auto simp: group_cmds_def add_ok delete_ok enable_ok text_ok list_ok get_ok rcpt_remove_ok assms(1,2))
qed

lemma reset_ok: "nvs_lawful N \<Longrightarrow> groups_ok_state b N (groups_factory_reset N s)"
proof -
  assume N: "nvs_lawful N"
  have "load_group N (nv_commit N (nv_erase_all N n NVS_MG) NVS_MG) i group_zero = group_zero" for n i
    by (simp add: load_group_def get_u8_def nvs_get_commit [OF N] nvs_get_erase_all [OF N] group_zero_def)
  then show ?thesis
    using groups_zero_wf no_twice_zero
    by (simp add: groups_factory_reset_def Let_def nvs_open_rw [OF N] groups_ok_state_def groups_in_step_def
        stored_groups_def) (simp add: groups_zero_def group_limits map_replicate_const)
qed

lemma power_cycle_ok:
  "nvs_lawful N \<Longrightarrow> groups_ok_state b N s \<Longrightarrow> groups_ok_state b N (snd (ls_mail_groups_init N qo t (gflash s)))"
  by (simp add: ls_mail_groups_init_def Let_def groups_ok_state_def groups_in_step_def load_all_eq)

lemma group_step_ok:
  assumes "nvs_lawful N" "\<forall>s. st = Some s \<longrightarrow> groups_ok_state b N s" "b \<longrightarrow> short_rcpts e" "group_step N st e = Some s'"
  shows "groups_ok_state b N s'"
proof -
  obtain s where s: "st = Some s" "groups_ok_state b N s" using assms(2,4) by (cases st) auto
  show ?thesis
  proof (cases e)
    case (GroupCmd name a ctx)
    show ?thesis
    proof (cases "map_of (group_cmds N a) name")
      case None
      then show ?thesis using assms(4) s by (simp add: GroupCmd)
    next
      case (Some h)
      have "leaves (groups_ok_state b N) (h ctx s)"
        by (rule cmd_ok [OF assms(1) s(2) map_of_SomeD [OF Some]]) (use assms(3) in \<open>simp add: GroupCmd\<close>)
      then show ?thesis using assms(4) by (auto simp: GroupCmd s(1) Some leaves_def)
    qed
  next
    case GroupTrigger
    then show ?thesis using assms(4) s
      by (auto simp: groups_on_triggered_def groups_ok_state_def groups_in_step_def split: option.splits if_splits)
  qed (use assms s in \<open>auto intro: reset_ok power_cycle_ok\<close>)
qed

interpretation group_runs: stepping "group_step N" "\<lambda>st. nvs_lawful N \<and> (\<forall>s. st = Some s \<longrightarrow> groups_ok_state b N s)"
  "\<lambda>e. b \<longrightarrow> short_rcpts e" for N b
  by unfold_locales (auto intro: group_step_ok)

text \<open>A device that has never stored a group.\<close>

definition blank_groups :: "'n nvs_ops \<Rightarrow> 'n \<Rightarrow> bool" where
  "blank_groups N n \<longleftrightarrow> (\<forall>k. nv_get N n NVS_MG k = None)"

lemma blank_ok:
  assumes "nvs_lawful N" "blank_groups N n"
  shows "groups_ok_state b N (snd (ls_mail_groups_init N qo t n))"
proof -
  have "load_group N n i group_zero = group_zero" for i
    using assms(2) by (simp add: load_group_def get_u8_def blank_groups_def group_zero_def)
  then have "stored_groups N n = groups_zero"
    by (simp add: stored_groups_def groups_zero_def group_limits map_replicate_const)
  then show ?thesis
    using groups_zero_wf no_twice_zero
    by (simp add: ls_mail_groups_init_def Let_def groups_ok_state_def groups_in_step_def load_all_eq [OF assms(1)])
      (simp add: groups_zero_def)
qed

text \<open>
  C18: Over every run of commands, triggers, factory resets and power cycles of a device that began blank, the
  ten mail groups stay well formed, with at most 20 recipients of at most 95 characters each, and a power cycle loads
  exactly the groups in use, whatever the addresses; and as long as no added address is longer than 95 characters, no
  group lists an address twice, not even with different case. A run ends (with nothing said of its state) where a
  handler writes past its array.
\<close>

theorem groups_survive_power_loss:
  assumes "nvs_lawful N" "blank_groups N n"
    and "foldl (group_step N) (Some (snd (ls_mail_groups_init N True True n))) es = Some s"
  shows "slots (snd (ls_mail_groups_init N True True (gflash s))) = slots s \<and> groups_wf (slots s) \<and>
    ((\<forall>e \<in> set es. short_rcpts e) \<longrightarrow> (\<forall>g \<in> set (slots s). distinct (map (map to_lower) (listed g))))"
proof -
  have "nvs_lawful N \<and> (\<forall>s'. foldl (group_step N) (Some (snd (ls_mail_groups_init N True True n))) es = Some s' \<longrightarrow>
      groups_ok_state (\<forall>e \<in> set es. short_rcpts e) N s')"
    by (rule group_runs.run_inv) (use assms(1,2) blank_ok [OF assms(1,2)] in auto)
  with assms(3) have "groups_ok_state (\<forall>e \<in> set es. short_rcpts e) N s" by blast
  then show ?thesis
    by (auto simp: ls_mail_groups_init_def groups_ok_state_def groups_in_step_def load_all_eq [OF assms(1)] no_twice_def)
qed

section \<open>What the worker mails\<close>

lemma group_ptrs: "map (\<lambda>r. group_ptr (\<lambda>w. gs) i (\<lambda>g. g_rcpts g ! r)) [0..<unat (g_count (gs ! i))] = const_ptrs (listed (gs ! i))"
  by (simp add: group_ptr_def const_ptrs_def listed_def)

lemma group_text: "group_ptr (\<lambda>w. gs) i f = Some (\<lambda>w. f (gs ! i))"
  by (simp add: group_ptr_def)

text \<open>
  What a trigger is meant to do with one group: the result of the send and the mail it adds to the mailbox of
  the server.
\<close>

definition group_outcome :: "policy \<Rightarrow> string \<Rightarrow> string \<Rightarrow> string \<Rightarrow> ls_mail_group \<Rightarrow> send_end \<times> mail list" where
  "group_outcome P from u v g = mail_outcome P from u v (g_subject g) (g_body g) (listed g)"

text \<open>A group that can be mailed: no line feed in an address, a header that fits, no line that begins with a dot.\<close>

definition sendable :: "string \<Rightarrow> ls_mail_group \<Rightarrow> bool" where
  "sendable from g \<longleftrightarrow> (\<forall>a \<in> set (listed g). CHR 0x0A \<notin> set a) \<and>
     length (mail_header from (g_subject g) (listed g)) \<le> 512 \<and>
     \<not> dotted (on_wire (mail_header from (g_subject g) (listed g)) @ g_body g)"

lemma listed_short: "group_wf g \<Longrightarrow> a \<in> set (listed g) \<Longrightarrow> length a \<le> 95"
  by (auto simp: listed_def group_wf_def)

lemma listed_len: "length (listed g) = unat (g_count g)"
  by (simp add: listed_def)

text \<open>The groups a trigger is meant to mail: in use, enabled, with a recipient.\<close>

definition due :: "ls_mail_group \<Rightarrow> bool" where
  "due g \<longleftrightarrow> g_used g \<and> g_enabled g \<and> listed g \<noteq> []"

lemma mailed_due: "mailed = due"
  by (auto simp: fun_eq_iff mailed_def due_def unat_eq_zero length_0_conv [symmetric] listed_len simp del: length_0_conv)

lemma group_send:
  fixes P
  assumes "ls_smtp_is_configured (pcfg w)" "group_wf (gs ! i)" "mailed (gs ! i)" "sendable (smtp_sender (pcfg w)) (gs ! i)"
    and sender: "CHR 0x0A \<notin> set (smtp_sender (pcfg w))" "length (smtp_sender (pcfg w)) \<le> 127"
    and b64: "base64_plain b" "b 256 (smtp_sender (pcfg w)) = Some u" "b 256 (api_key (pcfg w)) = Some v"
  defines "out \<equiv> group_outcome P (smtp_sender (pcfg w)) u v (gs ! i)"
  shows "\<exists>rc es w'. ls_smtp_send (smtpd_tls P b) (group_ptr (\<lambda>w. gs) i g_subject) (group_ptr (\<lambda>w. gs) i g_body)
      (map (\<lambda>r. group_ptr (\<lambda>w. gs) i (\<lambda>g. g_rcpts g ! r)) [0..<unat (g_count (gs ! i))]) w = Some (Ended rc, es, w') \<and>
    fst out = Ended rc \<and> pcfg w' = pcfg w \<and> delivered (srv w') = delivered (srv w) @ snd out"
proof -
  have ne: "listed (gs ! i) \<noteq> []"
    using assms(3) listed_len [of "gs ! i"] by (auto simp: mailed_def unat_eq_zero)
  have "unat (g_count (gs ! i)) \<le> 20" using assms(2) by (simp add: group_wf_def)
  then have t: "take 32 (listed (gs ! i)) = listed (gs ! i)" by (simp add: listed_len)
  have a: "\<forall>a \<in> set (smtp_sender (pcfg w) # listed (gs ! i)). CHR 0x0A \<notin> set a \<and> length a \<le> 497"
    using assms(4) sender listed_short [OF assms(2)] by (force simp: sendable_def)
  have d: "\<not> dotted (on_wire (mail_header (smtp_sender (pcfg w)) (g_subject (gs ! i)) (take 32 (listed (gs ! i)))) @ g_body (gs ! i))"
    using assms(4) by (simp add: t sendable_def)
  note m = do_send_mailbox [OF assms(1) ne a b64 d, of P, unfolded t, folded group_outcome_def]
  obtain rc where rc: "fst out = Ended rc"
    using outcome_ends [of "smtp_sender (pcfg w)" "g_subject (gs ! i)" "listed (gs ! i)" P u v "g_body (gs ! i)"] assms(4)
    by (auto simp: out_def group_outcome_def sendable_def)
  from m obtain e w' where s: "do_send (smtpd_tls P b) (Some (\<lambda>w. g_subject (gs ! i))) (Some (\<lambda>w. g_body (gs ! i)))
      (const_ptrs (listed (gs ! i))) w = Some (e, w')" and e: "e = fst out" "mbox w' = (pcfg w, delivered (srv w) @ snd out)"
    by (auto simp: out_def map_prod_def split: prod.splits)
  then show ?thesis
    unfolding group_ptrs unfolding group_text ls_smtp_send_def s using rc by (simp add: mbox_def)
qed

text \<open>How many of the outcomes are OK.\<close>

definition oks :: "(send_end \<times> mail list) list \<Rightarrow> nat" where
  "oks os = length (filter (\<lambda>o'. fst o' = Ended SK_OK) os)"

lemma fire_loop_srv:
  fixes P
  assumes b64: "base64_plain b" "b 256 (smtp_sender c) = Some u" "b 256 (api_key c) = Some v"
    and cfg: "ls_smtp_is_configured c" "CHR 0x0A \<notin> set (smtp_sender c)" "length (smtp_sender c) \<le> 127"
    and g: "\<forall>i \<in> set is. group_wf (gs ! i) \<and> (mailed (gs ! i) \<longrightarrow> sendable (smtp_sender c) (gs ! i))"
    and w: "pcfg w = c"
  defines "out \<equiv> \<lambda>i. group_outcome P (smtp_sender c) u v (gs ! i)"
    and "sent \<equiv> filter (\<lambda>i. mailed (gs ! i)) is"
  shows "\<exists>es w'. fire_loop (smtpd_tls P b) (\<lambda>w. gs) is n k w =
      Some (Some (n + length sent, k + oks (map out sent)), es, w') \<and>
    delivered (srv w') = delivered (srv w) @ concat (map (\<lambda>i. snd (out i)) sent)"
  using g w unfolding sent_def
proof (induction "is" arbitrary: n k w)
  case Nil
  then show ?case by (simp add: oks_def)
next
  case (Cons i js)
  show ?case
  proof (cases "mailed (gs ! i)")
    case False
    then show ?thesis using Cons.IH [of w n k] Cons.prems by simp
  next
    case True
    obtain rc es w1 where s: "ls_smtp_send (smtpd_tls P b) (group_ptr (\<lambda>w. gs) i g_subject) (group_ptr (\<lambda>w. gs) i g_body)
        (map (\<lambda>r. group_ptr (\<lambda>w. gs) i (\<lambda>g. g_rcpts g ! r)) [0..<unat (g_count (gs ! i))]) w = Some (Ended rc, es, w1)"
      and o: "fst (out i) = Ended rc" "pcfg w1 = c" "delivered (srv w1) = delivered (srv w) @ snd (out i)"
      using group_send [of w gs i b u v P] Cons.prems True b64 cfg unfolding out_def by auto
    obtain es' w' where r: "fire_loop (smtpd_tls P b) (\<lambda>w. gs) js (n + 1) (if rc = SK_OK then k + 1 else k) w1 =
        Some (Some (n + 1 + length (filter (\<lambda>i. mailed (gs ! i)) js),
          (if rc = SK_OK then k + 1 else k) + oks (map out (filter (\<lambda>i. mailed (gs ! i)) js))), es', w')"
      and d: "delivered (srv w') = delivered (srv w1) @ concat (map (\<lambda>i. snd (out i)) (filter (\<lambda>i. mailed (gs ! i)) js))"
      using Cons.IH [of w1 "n + 1" "if rc = SK_OK then k + 1 else k"] Cons.prems o by auto
    show ?thesis using True s o r d by (simp add: oks_def)
  qed
qed

text \<open>
  C5: When the timer fires, the worker mails every group that is in use, enabled and has a recipient exactly
  once, in the order of their numbers, and nobody else: against an SMTP server the mailbox grows by what the
  mailbox specification says for each of these groups, and the closing event reports how many groups were mailed
  and for how many the server took the mail. This is for groups that stay as they are during the run, SMTP configured
  with a sender of at most 127 characters whose base64 form and that of the key fit 256 bytes, no line feed in the sender or an
  address, and for every group that is due a header of at most 512 bytes and no line of the mail that begins with a dot.
\<close>

theorem trigger_mails_each_group_once:
  assumes "base64_plain b" "b 256 (smtp_sender (pcfg w)) = Some u" "b 256 (api_key (pcfg w)) = Some v"
    and "ls_smtp_is_configured (pcfg w)" "CHR 0x0A \<notin> set (smtp_sender (pcfg w))" "length (smtp_sender (pcfg w)) \<le> 127"
    and "groups_wf gs" "\<forall>g \<in> set gs. due g \<longrightarrow> sendable (smtp_sender (pcfg w)) g"
  shows "\<exists>es w'. groups_worker (smtpd_tls P b) (\<lambda>w. gs) w =
      Some (True, es @ [fire_report (length (filter due gs))
        (oks (map (group_outcome P (smtp_sender (pcfg w)) u v) (filter due gs)))], w') \<and>
    delivered (srv w') = delivered (srv w) @
      concat (map (\<lambda>g. snd (group_outcome P (smtp_sender (pcfg w)) u v g)) (filter due gs))"
proof -
  let ?out = "group_outcome P (smtp_sender (pcfg w)) u v"
  have l: "map ((!) gs) [0..<10] = gs" using assms(7) map_nth [of gs] by (simp add: groups_wf_def)
  have fm: "map ((!) gs) (filter (\<lambda>i. mailed (gs ! i)) is) = filter mailed (map ((!) gs) is)" for "is"
    by (induction "is") simp_all
  let ?ix = "filter (\<lambda>i. mailed (gs ! i)) [0..<10]"
  have f: "map ((!) gs) ?ix = filter mailed gs" using fm [of "[0..<10]"] by (simp only: l)
  have len: "length ?ix = length (filter mailed gs)" using f by (metis length_map)
  have outs: "map (\<lambda>i. ?out (gs ! i)) ?ix = map ?out (filter mailed gs)" unfolding f [symmetric] by simp
  have sents: "map (\<lambda>i. snd (?out (gs ! i))) ?ix = map (\<lambda>g. snd (?out g)) (filter mailed gs)" unfolding f [symmetric] by simp
  have g: "\<forall>i \<in> set [0..<10]. group_wf (gs ! i) \<and> (mailed (gs ! i) \<longrightarrow> sendable (smtp_sender (pcfg w)) (gs ! i))"
    using assms(7,8) by (auto simp: groups_wf_def mailed_due)
  obtain es w' where "fire_loop (smtpd_tls P b) (\<lambda>w. gs) [0..<10] 0 0 w =
      Some (Some (0 + length (filter mailed gs), 0 + oks (map ?out (filter mailed gs))), es, w')"
    and d: "delivered (srv w') = delivered (srv w) @ concat (map (\<lambda>g. snd (?out g)) (filter mailed gs))"
    using fire_loop_srv [OF assms(1-6) g refl, of P 0 0] unfolding len outs sents by blast
  then show ?thesis
    unfolding mailed_due [symmetric] using assms(4) by (simp add: groups_worker_def LS_MAIL_GROUP_MAX_def)
qed

end
