(* ===== verification/LsMailGroupsCommands.thy ===== *)
theory LsMailGroupsCommands
  imports LsMailGroupsProps
begin

text \<open>
  The commands of the mail groups, one at a time: the listing that overruns its array and the names for
  which it does not, the address that is listed twice, the text that is misread; and the concrete runs that
  witness the theorems about the groups.
\<close>

section \<open>The listing\<close>

text \<open>A name that the JSON escape leaves as long as it is.\<close>

definition plain_name :: "string \<Rightarrow> bool" where
  "plain_name s \<longleftrightarrow> CHR 0x22 \<notin> set s \<and> CHR 0x5C \<notin> set s"

lemma esc_plain: "plain_name s \<Longrightarrow> length (concat (map esc_char s)) = length s"
  by (induction s) (auto simp: plain_name_def esc_char_def)

lemma esc_name_plain: "plain_name s \<Longrightarrow> length s \<le> 47 \<Longrightarrow> length (esc_name s) \<le> 47"
  by (simp add: esc_name_def group_limits json_esc_fits esc_plain)

definition list_entry :: "ls_mail_group list \<Rightarrow> nat \<times> nat \<Rightarrow> string" where
  "list_entry gs = (\<lambda>(k, i). (if k = 0 then [] else '','') @ ''{'' @ jk ''id'' @ dec_nat i @ '','' @
     jk ''name'' @ jq (esc_name (g_name (gs ! i))) @ '','' @ jk ''enabled'' @ jbool (g_enabled (gs ! i)) @ '','' @
     jk ''recipients'' @ dec_nat (unat (g_count (gs ! i))) @ ''}'')"

lemma list_pieces_eq: "list_pieces gs = [''{'' @ jk ''groups'' @ ''['' ] @
    map (list_entry gs) (enumerate 0 (filter (\<lambda>i. g_used (gs ! i)) [0..<10])) @ ['']}'']"
  by (simp add: list_pieces_def list_entry_def Let_def group_limits)

lemma entry_length:
  assumes "groups_wf gs" "i < 10" "plain_name (g_name (gs ! i))"
  shows "length (list_entry gs (k, i)) \<le> 98"
proof -
  have g: "length (g_name (gs ! i)) \<le> 47" "unat (g_count (gs ! i)) \<le> 20"
    using wf_slot [OF assms(1,2)] by (simp_all add: group_wf_def)
  have "length (dec_nat (unat (g_count (gs ! i)))) \<le> 2" using length_dec_nat [of "unat (g_count (gs ! i))" 1] g by simp
  moreover have "length (dec_nat i) = 1" using assms(2) by (simp add: dec_nat_digit)
  moreover note esc_name_plain [OF assms(3) g(1)]
  ultimately show ?thesis
    by (simp add: list_entry_def jk_def jq_def q_def jbool_def)
qed

lemma concat_bounded: "\<forall>x \<in> set xs. length (f x) \<le> (m :: nat) \<Longrightarrow> length (concat (map f xs)) \<le> length xs * m"
  by (induction xs) auto

text \<open>
  In machine mode \<open>mail.group.list\<close> answers the complete list, uncut, whenever no group name has a
  quotation mark or a backslash in it.
\<close>

theorem group_list_complete:
  assumes "groups_wf (slots s)" "is_machine_mode ctx" "\<forall>g \<in> set (slots s). plain_name (g_name g)"
  shows "group_cli_list ctx s = Some (s, [CliOk (Some (concat (list_pieces (slots s))))], SK_OK)"
proof -
  let ?used = "filter (\<lambda>i. g_used (slots s ! i)) [0..<10]"
  have "\<forall>p \<in> set (enumerate 0 ?used). length (list_entry (slots s) p) \<le> 98"
  proof
    fix p assume "p \<in> set (enumerate 0 ?used)"
    then have "snd p \<in> set (map snd (enumerate 0 ?used))" unfolding set_map by (rule imageI)
    then have "snd p < 10" unfolding map_snd_enumerate by simp
    then obtain k i where p: "p = (k, i)" "i < 10" by (cases p) simp
    moreover have "slots s ! i \<in> set (slots s)" using p(2) assms(1) by (simp add: groups_wf_def)
    ultimately show "length (list_entry (slots s) p) \<le> 98"
      using entry_length [OF assms(1), of i k] assms(3) by blast
  qed
  from concat_bounded [OF this]
  have "length (concat (map (list_entry (slots s)) (enumerate 0 ?used))) \<le> length ?used * 98" by simp
  moreover have "length ?used \<le> 10" using length_filter_le [of "\<lambda>i. g_used (slots s ! i)" "[0..<10]"] by simp
  ultimately have "length (concat (map (list_entry (slots s)) (enumerate 0 ?used))) \<le> 980" by simp
  then have l: "length (concat (list_pieces (slots s))) \<le> 1000"
    by (simp add: list_pieces_eq jk_def q_def)
  then have "print_pieces 1024 ([], 0) (list_pieces (slots s)) = Some (concat (list_pieces (slots s)), length (concat (list_pieces (slots s))))"
    using print_fits [of 1024 "[]" 0 "list_pieces (slots s)"] by simp
  then show ?thesis using assms(2) by (simp add: group_cli_list_def Let_def)
qed

section \<open>An address that does not fit\<close>

text \<open>
  An address longer than 95 characters is stored cut off and is not recognised again: adding it twice is
  accepted twice and lists the cut-off address twice, and removing it by its full text is refused.
\<close>

theorem long_address_listed_twice:
  assumes "nvs_lawful N" "groups_in_step N s" "rcpt_args ctx = Some (i, e)" "length e > 95" "CHR 0x40 \<in> set e"
    and "g_used (slots s ! i)" "unat (g_count (slots s ! i)) < 19"
  shows "\<exists>s1 s2 o1 o2. group_cli_rcpt_add N ctx s = Some (s1, o1, SK_OK) \<and>
    group_cli_rcpt_add N ctx s1 = Some (s2, o2, SK_OK) \<and>
    listed (slots s2 ! i) = listed (slots s ! i) @ [take 95 e, take 95 e] \<and>
    group_cli_rcpt_remove N ctx s2 = Some (s2, [CliErr SK_ERR_NOT_FOUND None], SK_ERR_NOT_FOUND)"
proof -
  have i: "i < 10" by (rule rcpt_args_lt [OF assms(3)])
  have wf: "group_wf (slots s ! i)" using assms(2) i by (simp add: groups_in_step_def groups_wf_def)
  have unknown: "find_address e (listed g) = None" if "group_wf g" for g
  proof -
    have "\<not> same_address x e" if "x \<in> set (listed g)" for x
      using listed_short [OF \<open>group_wf g\<close> that] assms(4) by (auto simp: same_address_def dest!: map_eq_imp_length_eq)
    then show ?thesis by (simp add: find_address_None)
  qed
  let ?g1 = "add_rcpt e (slots s ! i)" and ?s1 = "put_group N i (add_rcpt e (slots s ! i)) s"
  have w1: "group_wf ?g1" by (rule add_wf) (use wf assms(6,7) in auto)
  have c1: "unat (g_count ?g1) < 20" "g_used ?g1"
    using assms(6,7) by (simp_all add: add_rcpt_def count_up)
  note p1 = put_in_step [OF assms(1,2) i w1]
  have l: "length (slots s) = 10" using assms(2) by (simp add: groups_in_step_def groups_wf_def)
  have sl1: "slots ?s1 ! i = ?g1" using p1(2) l i by simp
  let ?g2 = "add_rcpt e ?g1" and ?s2 = "put_group N i (add_rcpt e ?g1) ?s1"
  have w2: "group_wf ?g2" by (rule add_wf [OF w1 c1(2,1)])
  note p2 = put_in_step [OF assms(1) p1(1) i w2]
  have sl2: "slots ?s2 ! i = ?g2" using p1(2) p2(2) l i by simp
  have u2: "g_used ?g2" using c1(2) by (simp add: add_rcpt_def)
  have "\<exists>o1. group_cli_rcpt_add N ctx s = Some (?s1, o1, SK_OK)"
    using assms(3,5-7) unknown [OF wf] by (simp add: group_cli_rcpt_add_def Let_def group_limits groups_ok_def)
  moreover have "\<exists>o2. group_cli_rcpt_add N ctx ?s1 = Some (?s2, o2, SK_OK)"
    using assms(3,5) c1 unknown [OF w1] sl1 by (simp add: group_cli_rcpt_add_def Let_def group_limits groups_ok_def)
  moreover have "listed (slots ?s2 ! i) = listed (slots s ! i) @ [take 95 e, take 95 e]"
    using assms(7) by (simp add: sl2 listed_add [OF w1 c1(1)] listed_add [OF wf])
  moreover have "group_cli_rcpt_remove N ctx ?s2 = Some (?s2, [CliErr SK_ERR_NOT_FOUND None], SK_ERR_NOT_FOUND)"
    using assms(3) unknown [OF w2] u2 by (simp add: group_cli_rcpt_remove_def Let_def sl2 groups_refuse_def)
  ultimately show ?thesis by blast
qed

section \<open>A text that is misread\<close>

lemma after_pair_skip: "k \<notin> set pre \<Longrightarrow> after_pair k (pre @ k # x # post) = Some x"
proof (induction pre)
  case (Cons a pre)
  then show ?case by (cases pre) auto
qed simp

text \<open>
  On the human command line \<open>mail group body <id> <text>\<close> takes the word \<open>body\<close> in the text for a keyword:
  of a text in which the word occurs, only the single word after it is stored as the body of the mail.
\<close>

theorem body_word_swallows_text:
  assumes "nvs_lawful N" "groups_in_step N s" "\<not> is_machine_mode ctx"
    and "human_argv ctx = ident # pre @ ''body'' # x # post" "''body'' \<notin> set (ident # pre)" "x \<noteq> []"
    and "parse_id_pos ctx 0 = Some i" "g_used (slots s ! i)"
  shows "\<exists>s' outs. group_cli_body N ctx s = Some (s', outs, SK_OK) \<and> g_body (slots s' ! i) = take 511 x"
proof -
  have i: "i < 10" using assms(7) by (auto simp: parse_id_pos_def group_limits split: option.splits if_splits)
  have "sk_cli_arg_after ctx ''body'' = Some x"
    using after_pair_skip [of "''body''" "ident # pre" x post] assms(3-5) by (simp add: sk_cli_arg_after_def)
  then have t: "text_arg ctx ''body'' 1 511 = Some (take 511 x)"
    using assms(6) by (cases x) (simp_all add: text_arg_def)
  have wf: "group_wf ((slots s ! i)\<lparr>g_body := take 511 x\<rparr>)"
    using wf_slot [of "slots s" i] assms(2,8) i by (auto simp: groups_in_step_def group_wf_def)
  have "slots (put_group N i ((slots s ! i)\<lparr>g_body := take 511 x\<rparr>) s) ! i = (slots s ! i)\<lparr>g_body := take 511 x\<rparr>"
    using put_in_step(2) [OF assms(1,2) i wf] assms(2) i by (simp add: groups_in_step_def groups_wf_def)
  then show ?thesis
    using assms(7,8) t by (simp add: group_cli_body_def with_group_def groups_ok_def LS_MAIL_GROUP_BODY_MAX_def)
qed

section \<open>Concrete runs\<close>

definition human :: "string \<Rightarrow> string list \<Rightarrow> cli_ctx" where
  "human name args = \<lparr> is_machine_mode = False, command_name = name, confirm_token = None,
     authenticated = False, machine_args = None, machine_id = -1, human_argv = args \<rparr>"

definition group_line :: "string \<Rightarrow> string list \<Rightarrow> group_ev" where
  "group_line name args = GroupCmd name True (human name args)"

definition blank_boot :: "nvs_map groups" where
  "blank_boot = snd (ls_mail_groups_init nvs_map_ops True True (\<lambda>k. None))"

definition toy_run :: "group_ev list" where
  "toy_run = [group_line ''mail.group.add'' [''Family''], group_line ''mail.group.subject'' [''0'', ''Read'', ''me''],
     group_line ''mail.group.recipient.add'' [''0'', ''a@x.org''], group_line ''mail.group.recipient.add'' [''0'', ''A@x.org''],
     group_line ''mail.group.recipient.add'' [''0'', ''b@x.org''], GroupTrigger]"

definition toy_groups :: "nvs_map groups" where
  "toy_groups = the (foldl (group_step nvs_map_ops) (Some blank_boot) toy_run)"

lemma toy_groups_run: "foldl (group_step nvs_map_ops) (Some blank_boot) toy_run = Some toy_groups"
proof -
  have "foldl (group_step nvs_map_ops) (Some blank_boot) toy_run \<noteq> None"
    by code_simp
  then show ?thesis by (auto simp: toy_groups_def)
qed

lemma blank_map: "blank_groups nvs_map_ops (\<lambda>k. None)"
  by (simp add: blank_groups_def nvs_map_ops_def)

lemma groups_survive_power_loss_witness:
  "map listed (take 1 (slots (snd (ls_mail_groups_init nvs_map_ops True True (gflash toy_groups))))) = [[''a@x.org'', ''b@x.org'']] \<and>
   groups_wf (slots toy_groups) \<and> list_all (\<lambda>g. distinct (map (map to_lower) (listed g))) (slots toy_groups)"
proof -
  have sh: "\<forall>e \<in> set toy_run. short_rcpts e" by code_simp
  have l: "map listed (take 1 (slots toy_groups)) = [[''a@x.org'', ''b@x.org'']]" by code_simp
  show ?thesis
    using groups_survive_power_loss [OF nvs_map_lawful blank_map toy_groups_run [unfolded blank_boot_def]] sh l
    by (simp add: list_all_iff)
qed

lemma toy_in_step: "groups_ok_state True nvs_map_ops toy_groups"
proof -
  have sh: "\<forall>e \<in> set toy_run. short_rcpts e" by code_simp
  have "nvs_lawful nvs_map_ops \<and> (\<forall>s. foldl (group_step nvs_map_ops) (Some blank_boot) toy_run = Some s \<longrightarrow>
      groups_ok_state True nvs_map_ops s)"
    by (rule group_runs.run_inv) (use sh blank_ok [OF nvs_map_lawful blank_map] nvs_map_lawful in \<open>auto simp: blank_boot_def\<close>)
  then show ?thesis using toy_groups_run by simp
qed

lemma trigger_mails_each_group_once_witness:
  "\<exists>es w'. groups_worker (smtpd_tls toy_policy base64) (\<lambda>w. slots toy_groups) (toy_peer ''secret'') =
      Some (True, es @ [fire_report 1 1], w') \<and>
    delivered (srv w') = [\<lparr> m_from = ''me@x.org'', m_to = [''a@x.org'', ''b@x.org''],
      m_text = mail_header ''me@x.org'' ''Read me'' [''a@x.org'', ''b@x.org''] @ CRLF \<rparr>]"
proof -
  let ?c = "pcfg (toy_peer ''secret'')"
  have u: "base64 256 (smtp_sender ?c) = Some ''bWVAeC5vcmc=''" by code_simp
  have v: "base64 256 (api_key ?c) = Some ''c2VjcmV0''" by code_simp
  have c: "ls_smtp_is_configured ?c" "CHR 0x0A \<notin> set (smtp_sender ?c)" "length (smtp_sender ?c) \<le> 127" by code_simp+
  have wf: "groups_wf (slots toy_groups)" using toy_in_step by (simp add: groups_ok_state_def groups_in_step_def)
  have sd: "\<forall>g \<in> set (slots toy_groups). due g \<longrightarrow> sendable (smtp_sender ?c) g" by code_simp
  have n: "length (filter due (slots toy_groups)) = 1" by code_simp
  have k: "oks (map (group_outcome toy_policy (smtp_sender ?c) ''bWVAeC5vcmc='' ''c2VjcmV0'') (filter due (slots toy_groups))) = 1"
    by code_simp
  have m: "concat (map (\<lambda>g. snd (group_outcome toy_policy (smtp_sender ?c) ''bWVAeC5vcmc='' ''c2VjcmV0'' g))
      (filter due (slots toy_groups))) = [\<lparr> m_from = ''me@x.org'', m_to = [''a@x.org'', ''b@x.org''],
      m_text = mail_header ''me@x.org'' ''Read me'' [''a@x.org'', ''b@x.org''] @ CRLF \<rparr>]"
    by code_simp
  have d: "delivered (srv (toy_peer ''secret'')) = []" by code_simp
  show ?thesis
    using trigger_mails_each_group_once [OF base64_laws(1) u v c wf sd, where P = toy_policy] unfolding n k m d append_Nil .
qed

lemma group_list_complete_witness:
  "group_cli_list ((human ''mail.group.list'' [])\<lparr>is_machine_mode := True\<rparr>) toy_groups =
     Some (toy_groups, [CliOk (Some (concat (list_pieces (slots toy_groups))))], SK_OK)"
proof (rule group_list_complete)
  show "groups_wf (slots toy_groups)" using toy_in_step by (simp add: groups_ok_state_def groups_in_step_def)
  show "\<forall>g \<in> set (slots toy_groups). plain_name (g_name g)" by code_simp
qed (simp add: human_def)

definition long_line :: cli_ctx where
  "long_line = human ''mail.group.recipient.add'' [''0'', long_address CHR ''a'' @ ''.example'']"

lemma long_address_listed_twice_witness:
  "\<exists>s1 s2 o1 o2. group_cli_rcpt_add nvs_map_ops long_line toy_groups = Some (s1, o1, SK_OK) \<and>
    group_cli_rcpt_add nvs_map_ops long_line s1 = Some (s2, o2, SK_OK) \<and>
    listed (slots s2 ! 0) = listed (slots toy_groups ! 0) @
      [take 95 (long_address CHR ''a'' @ ''.example''), take 95 (long_address CHR ''a'' @ ''.example'')] \<and>
    group_cli_rcpt_remove nvs_map_ops long_line s2 = Some (s2, [CliErr SK_ERR_NOT_FOUND None], SK_ERR_NOT_FOUND)"
proof (rule long_address_listed_twice [OF nvs_map_lawful])
  show "groups_in_step nvs_map_ops toy_groups" using toy_in_step by (simp add: groups_ok_state_def)
  show "rcpt_args long_line = Some (0, long_address CHR ''a'' @ ''.example'')" by code_simp
  show "length (long_address CHR ''a'' @ ''.example'') > 95" by code_simp
  show "CHR 0x40 \<in> set (long_address CHR ''a'' @ ''.example'')" by code_simp
  show "g_used (slots toy_groups ! 0)" by code_simp
  show "unat (g_count (slots toy_groups ! 0)) < 19" by code_simp
qed

lemma body_word_swallows_text_witness:
  "\<exists>s' outs. group_cli_body nvs_map_ops (human ''mail.group.body'' [''0'', ''See'', ''the'', ''body'', ''of'', ''my'', ''will''])
      toy_groups = Some (s', outs, SK_OK) \<and> g_body (slots s' ! 0) = ''of''"
proof -
  have "\<exists>s' outs. group_cli_body nvs_map_ops (human ''mail.group.body'' [''0'', ''See'', ''the'', ''body'', ''of'', ''my'', ''will''])
      toy_groups = Some (s', outs, SK_OK) \<and> g_body (slots s' ! 0) = take 511 ''of''"
  proof (rule body_word_swallows_text [OF nvs_map_lawful])
    show "groups_in_step nvs_map_ops toy_groups" using toy_in_step by (simp add: groups_ok_state_def)
    show "human_argv (human ''mail.group.body'' [''0'', ''See'', ''the'', ''body'', ''of'', ''my'', ''will'']) =
      ''0'' # [''See'', ''the''] @ ''body'' # ''of'' # [''my'', ''will'']" by (simp add: human_def)
    show "parse_id_pos (human ''mail.group.body'' [''0'', ''See'', ''the'', ''body'', ''of'', ''my'', ''will'']) 0 = Some 0"
      by code_simp
    show "g_used (slots toy_groups ! 0)" by code_simp
  qed (simp_all add: human_def)
  then show ?thesis by simp
qed

section \<open>The listing that overruns\<close>

text \<open>Ten groups, each with a name of 47 backslashes, as ten commands make them.\<close>

definition backslash_run :: "group_ev list" where
  "backslash_run = replicate 10 (group_line ''mail.group.add'' [replicate 47 CHR 0x5C])"

text \<open>
  Ten groups whose names are backslashes, which ten \<open>mail.group.add\<close> commands create, make \<open>mail.group.list\<close>
  in machine mode write past the end of its array of 1024 bytes.
\<close>

theorem group_list_overruns:
  "foldl (group_step nvs_map_ops) (Some blank_boot) backslash_run \<noteq> None \<and>
   foldl (group_step nvs_map_ops) (Some blank_boot)
     (backslash_run @ [GroupCmd ''mail.group.list'' True ((human ''mail.group.list'' [])\<lparr>is_machine_mode := True\<rparr>)]) = None"
proof -
  have a: "foldl (group_step nvs_map_ops) (Some blank_boot) backslash_run \<noteq> None"
    by code_simp
  have b: "foldl (group_step nvs_map_ops) (Some blank_boot)
     (backslash_run @ [GroupCmd ''mail.group.list'' True ((human ''mail.group.list'' [])\<lparr>is_machine_mode := True\<rparr>)]) = None"
    by code_simp
  from a b show ?thesis ..
qed

end
