(* ===== verification/LsReminderProps.thy ===== *)
theory LsReminderProps
  imports LsReminder LsSmtpServer LsTimer
begin

text \<open>
  The reminder: over every run of commands, alarms, factory resets and power cycles its configuration fits
  its arrays and is the one in flash; the answer of \<open>reminder.get\<close> is never cut off; an alarm that the
  countdown announces reaches the worker with its numbers and sends one mail.
\<close>

section \<open>Flash and RAM\<close>

lemmas rem_limits = LS_REMINDER_SUBJECT_MAX_def LS_REMINDER_BODY_MAX_def LS_REMINDER_RCPT_MAX_def
  LS_REMINDER_RCPT_EMAIL_MAX_def

lemma rem_key_eq: "r < 10 \<Longrightarrow> rem_key r = CHR ''r'' # dec_nat r"
  using length_dec_nat [of r 1] by (simp add: rem_key_def snprintf_def)

lemma rem_keys_apart: "r < 10 \<Longrightarrow> r' < 10 \<Longrightarrow> rem_key r = rem_key r' \<longleftrightarrow> r = r'"
  by (simp add: rem_key_eq dec_nat_inj)

lemma rem_key_field: "r < 10 \<Longrightarrow> rem_key r \<noteq> ''en''" "r < 10 \<Longrightarrow> rem_key r \<noteq> ''sb''"
  "r < 10 \<Longrightarrow> rem_key r \<noteq> ''bd''" "r < 10 \<Longrightarrow> rem_key r \<noteq> ''rc''"
  using dec_nat_not_c by (simp_all add: rem_key_eq)

definition rem_wf :: "reminder_cfg \<Rightarrow> bool" where
  "rem_wf c \<longleftrightarrow> length (rm_rcpts c) = 10 \<and> unat (rm_count c) \<le> 10 \<and> length (rm_subject c) \<le> 127 \<and>
     length (rm_body c) \<le> 511 \<and> (\<forall>a \<in> set (rm_rcpts c). length a \<le> 95) \<and>
     (\<forall>r. unat (rm_count c) \<le> r \<and> r < 10 \<longrightarrow> rm_rcpts c ! r = [])"

text \<open>What flash holds, field by field.\<close>

definition stored_count :: "'n nvs_ops \<Rightarrow> 'n \<Rightarrow> u8" where
  "stored_count N n = load_val (get_u8 N n NVS_REM ''rc'') (\<lambda>v. True) clamp_count 0"

lemma clamp_le: "unat (clamp_count v) \<le> 10"
  by (simp add: clamp_count_def rem_limits)

lemma stored_count_le: "unat (stored_count N n) \<le> 10"
  by (simp add: stored_count_def load_val_def clamp_le split: option.split)

definition stored_cfg :: "'n nvs_ops \<Rightarrow> 'n \<Rightarrow> reminder_cfg" where
  "stored_cfg N n =
     \<lparr> rm_enabled = (case get_u8 N n NVS_REM ''en'' of None \<Rightarrow> False | Some u \<Rightarrow> u \<noteq> 0),
       rm_subject = load_str N n NVS_REM ''sb'' 127 [], rm_body = load_str N n NVS_REM ''bd'' 511 [],
       rm_rcpts = map (\<lambda>r. if r < unat (stored_count N n) then load_str N n NVS_REM (rem_key r) 95 [] else []) [0..<10],
       rm_count = stored_count N n \<rparr>"

lemma rem_load_rcpts_eq:
  "k \<le> 10 \<Longrightarrow> rem_load_rcpts N n k (replicate 10 []) =
     map (\<lambda>r. if r < k then load_str N n NVS_REM (rem_key r) 95 [] else []) [0..<10]"
proof -
  assume k: "k \<le> 10"
  then have "rem_load_rcpts N n k (replicate 10 []) =
      map (\<lambda>r. if r < k then load_str N n NVS_REM (rem_key r) 95 (replicate 10 [] ! r) else replicate 10 [] ! r) [0..<10]"
    using fold_slots [of k "replicate 10 []" "\<lambda>r old. load_str N n NVS_REM (rem_key r) 95 old"]
    by (simp add: rem_load_rcpts_def rem_limits)
  also have "\<dots> = map (\<lambda>r. if r < k then load_str N n NVS_REM (rem_key r) 95 [] else []) [0..<10]"
    by (rule map_cong) simp_all
  finally show ?thesis .
qed

lemma load_cfg_eq:
  assumes N: "nvs_lawful N"
  shows "load_cfg N n = stored_cfg N n"
proof (cases "nv_open_ro N n NVS_REM = ESP_OK")
  case True
  then show ?thesis
    using rem_load_rcpts_eq [OF stored_count_le, of N n N n]
    by (simp add: load_cfg_def Let_def reminder_zero_def stored_cfg_def rem_limits stored_count_def)
next
  case False
  have "nv_get N n NVS_REM k = None" for k
    using False nvs_open_ro [OF N] by (cases "nv_get N n NVS_REM k") auto
  with False show ?thesis
    by (simp add: load_cfg_def stored_cfg_def stored_count_def reminder_zero_def get_u8_def load_str_def get_str_def
        load_val_def rem_limits map_replicate_const)
qed

lemma load_str_short: "length old \<le> m \<Longrightarrow> length (load_str N n ns k m old) \<le> m"
  by (auto simp: load_str_def load_val_def split: option.split)

lemma stored_wf: "rem_wf (stored_cfg N n)"
  by (auto simp: rem_wf_def stored_cfg_def stored_count_le load_str_short)

lemma get_saved_rem_other:
  assumes "nvs_lawful N" "\<And>r. r < k \<Longrightarrow> key \<noteq> rem_key r"
  shows "nv_get N (rem_save_rcpts N rs k n) NVS_REM key = nv_get N n NVS_REM key"
  using assms(2) by (induction k) (simp_all add: rem_save_rcpts_def nvs_simps assms(1))

lemma get_saved_rem:
  assumes "nvs_lawful N" "k \<le> 10" "r < k"
  shows "nv_get N (rem_save_rcpts N rs k n) NVS_REM (rem_key r) = Some (NvStr (rs ! r))"
  using assms(2,3)
proof (induction k)
  case (Suc k)
  then show ?case by (auto simp: rem_save_rcpts_def nvs_simps assms(1) less_Suc_eq rem_keys_apart)
qed simp

lemma put_cfg_stored:
  assumes N: "nvs_lawful N" and c: "rem_wf c"
  shows "stored_cfg N (rm_flash (put_cfg N c s)) = c" "rm_cfg (put_cfg N c s) = c"
proof -
  let ?n = "rm_flash (put_cfg N c s)"
  have k: "unat (rm_count c) \<le> 10" using c by (simp add: rem_wf_def)
  have o: "nv_get N (rem_save_rcpts N rs (unat (rm_count c)) n) NVS_REM key = nv_get N n NVS_REM key"
    if "key \<in> {''en'', ''sb'', ''bd'', ''rc''}" for rs n key
    by (rule get_saved_rem_other [OF N]) (use that k in \<open>auto simp: rem_key_field\<close>)
  have f: "nv_get N ?n NVS_REM ''en'' = Some (nv_bool (rm_enabled c))"
    "nv_get N ?n NVS_REM ''sb'' = Some (NvStr (rm_subject c))"
    "nv_get N ?n NVS_REM ''bd'' = Some (NvStr (rm_body c))"
    "nv_get N ?n NVS_REM ''rc'' = Some (NvU8 (rm_count c))"
    by (simp_all add: put_cfg_def save_cfg_def nvs_open_rw [OF N] Let_def nvs_get_commit [OF N] o nvs_get_put [OF N])
  have r: "nv_get N ?n NVS_REM (rem_key r) = Some (NvStr (rm_rcpts c ! r))" if "r < unat (rm_count c)" for r
    using that by (simp add: put_cfg_def save_cfg_def nvs_open_rw [OF N] Let_def nvs_get_commit [OF N] get_saved_rem [OF N k])
  have sc: "stored_count N ?n = rm_count c"
    using k by (simp add: stored_count_def get_u8_def f load_val_def clamp_count_def rem_limits)
  have "map (\<lambda>r. if r < unat (rm_count c) then load_str N ?n NVS_REM (rem_key r) 95 [] else []) [0..<10] = rm_rcpts c"
    by (rule nth_equalityI) (use c k r in \<open>auto simp: rem_wf_def load_str_def get_str_def load_val_def\<close>)
  then show "stored_cfg N ?n = c"
    using c by (simp add: stored_cfg_def sc get_u8_def f nv_bool_def load_str_def get_str_def load_val_def rem_wf_def)
  show "rm_cfg (put_cfg N c s) = c"
    by (simp add: put_cfg_def save_cfg_def nvs_open_rw [OF N])
qed

section \<open>The recipients\<close>

lemma rem_listed_take: "rem_wf c \<Longrightarrow> rem_listed c = take (unat (rm_count c)) (rm_rcpts c)"
  by (rule nth_equalityI) (simp_all add: rem_listed_def rem_wf_def)

lemma rem_add_wf: "rem_wf c \<Longrightarrow> unat (rm_count c) < 10 \<Longrightarrow> rem_wf (rem_add e c)"
  by (auto simp: rem_wf_def rem_add_def count_up rem_limits nth_list_update dest!: set_update_subset_insert [THEN subsetD])

lemma rem_remove_wf:
  assumes c: "rem_wf c" and f: "f < unat (rm_count c)"
  shows "rem_wf (rem_remove f c)"
proof -
  have w: "unat (rm_count c) \<le> 10" "length (rm_rcpts c) = 10" "\<forall>a \<in> set (rm_rcpts c). length a \<le> 95"
    using c by (simp_all add: rem_wf_def)
  have r: "remove_slot f (unat (rm_count c) - Suc 0) (rm_rcpts c) =
      map (\<lambda>r. if r = unat (rm_count c) - 1 then [] else if f \<le> r \<and> r < unat (rm_count c) - 1 then rm_rcpts c ! Suc r
        else rm_rcpts c ! r) [0..<10]"
    using remove_slot_eq [of "unat (rm_count c) - 1" "rm_rcpts c" f] w f by simp
  have n: "unat (rm_count c - 1) = unat (rm_count c) - 1" using f by (simp add: count_down)
  show ?thesis
    using c w f unfolding rem_wf_def rem_remove_def by (auto simp: r n)
qed

section \<open>Runs\<close>

definition rem_in_step :: "'n nvs_ops \<Rightarrow> 'n reminder \<Rightarrow> bool" where
  "rem_in_step N s \<longleftrightarrow> load_cfg N (rm_flash s) = rm_cfg s"

lemma in_step_wf: "nvs_lawful N \<Longrightarrow> rem_in_step N s \<Longrightarrow> rem_wf (rm_cfg s)"
  using stored_wf [of N "rm_flash s"] by (simp add: rem_in_step_def load_cfg_eq)

lemma rem_put_in_step: "nvs_lawful N \<Longrightarrow> rem_wf c \<Longrightarrow> rem_in_step N (put_cfg N c s)"
  by (simp add: rem_in_step_def load_cfg_eq put_cfg_stored)

text \<open>What can happen to the reminder; \<open>None\<close> when a handler overruns its array.\<close>

datatype rem_ev = RemCmd string bool cli_ctx | RemAlarm "string option" | RemTaken | RemReset | RemPowerCycle bool bool

text \<open>\<open>RemTaken\<close>: the worker takes a message out of the queue.\<close>

fun rem_step :: "'n nvs_ops \<Rightarrow> 'n reminder option \<Rightarrow> rem_ev \<Rightarrow> 'n reminder option" where
  "rem_step N None e = None"
| "rem_step N (Some s) (RemCmd name alloc_ok ctx) =
     (case map_of (rem_cmds N alloc_ok) name of None \<Rightarrow> Some s | Some h \<Rightarrow> map_option fst (h ctx s))"
| "rem_step N (Some s) (RemAlarm payload) = Some (on_timer_alarm payload s)"
| "rem_step N (Some s) RemTaken = Some (s\<lparr>rm_q := map_option tl (rm_q s)\<rparr>)"
| "rem_step N (Some s) RemReset = Some (rem_factory_reset N s)"
| "rem_step N (Some s) (RemPowerCycle queue_ok task_ok) = Some (snd (ls_reminder_init N queue_ok task_ok (rm_flash s)))"

text \<open>The answer of \<open>reminder.get\<close>.\<close>

lemma rem_rcpts_fit:
  "(\<forall>a \<in> set as. length a \<le> 95) \<Longrightarrow> length out = off \<Longrightarrow> off + 194 * length as < 3896 \<Longrightarrow>
     \<exists>t. get_rcpts 4096 (out, off) first as = Some (out @ t, off + length t) \<and> length t \<le> 194 * length as \<and>
       t = concat (map (\<lambda>(i, a). (if first \<and> i = 0 then [] else '','') @ jq (esc_email a)) (enumerate 0 as))"
proof (induction as arbitrary: out off first)
  case (Cons a as)
  let ?p = "(if first then [] else '','') @ jq (esc_email a)"
  have "length (esc_email a) \<le> 191" using length_json_esc [of 192 a] by (simp add: esc_email_def RCPT_EMAIL_MAX_def)
  then have p: "length ?p \<le> 194" by (simp add: jq_def q_def)
  have "\<exists>t. get_rcpts 4096 (out @ ?p, off + length ?p) False as = Some ((out @ ?p) @ t, off + length ?p + length t) \<and>
      length t \<le> 194 * length as \<and>
      t = concat (map (\<lambda>(i, a). (if False \<and> i = 0 then [] else '','') @ jq (esc_email a)) (enumerate 0 as))"
    by (rule Cons.IH) (use Cons.prems p in auto)
  then obtain t where t: "get_rcpts 4096 (out @ ?p, off + length ?p) False as = Some ((out @ ?p) @ t, off + length ?p + length t)"
    "length t \<le> 194 * length as" "t = concat (map (\<lambda>(i, a). '','' @ jq (esc_email a)) (enumerate 0 as))"
    by auto
  have "print_piece 4096 (out, off) ?p = Some (out @ ?p, off + length ?p)"
    using Cons.prems p by (simp add: print_piece_def snprintf_def)
  moreover have e: "map (\<lambda>(i, a). (if first \<and> i = 0 then [] else '','') @ jq (esc_email a)) (enumerate (Suc 0) as) =
      map (\<lambda>(i, a). '','' @ jq (esc_email a)) (enumerate 0 as)"
    by (rule nth_equalityI) (simp_all add: nth_enumerate_eq)
  ultimately show ?case
    using Cons.prems t p by (intro exI [of _ "?p @ t"]) (simp add: e)
qed simp

lemma rem_get_fits:
  assumes c: "rem_wf c"
  shows "rem_get_json c = Some (rem_get_head c @
    concat (map (\<lambda>(i, a). (if i = 0 then [] else '','') @ jq (esc_email a)) (enumerate 0 (rem_listed c))) @ '']}'')"
proof -
  have "length (json_esc 256 (rm_subject c)) \<le> 255" "length (json_esc 1024 (rm_body c)) \<le> 1023"
    using length_json_esc [of 256 "rm_subject c"] length_json_esc [of 1024 "rm_body c"] by simp_all
  then have h: "length (rem_get_head c) \<le> 1400"
    by (simp add: rem_get_head_def rem_limits jk_def jq_def q_def jbool_def)
  have l: "length (rem_listed c) \<le> 10" using c by (simp add: rem_listed_def rem_wf_def)
  have "\<forall>a \<in> set (rem_listed c). length a \<le> 95"
    using c by (auto simp: rem_listed_take rem_wf_def dest: in_set_takeD)
  moreover have "length (rem_get_head c) + 194 * length (rem_listed c) < 3896" using h l by simp
  ultimately obtain t where t: "get_rcpts 4096 (rem_get_head c, length (rem_get_head c)) True (rem_listed c) =
      Some (rem_get_head c @ t, length (rem_get_head c) + length t)"
    "length t \<le> 194 * length (rem_listed c)"
    "t = concat (map (\<lambda>(i, a). (if True \<and> i = 0 then [] else '','') @ jq (esc_email a)) (enumerate 0 (rem_listed c)))"
    using rem_rcpts_fit [of "rem_listed c" "rem_get_head c" "length (rem_get_head c)" True] by blast
  have "print_piece 4096 ([], 0) (rem_get_head c) = Some (rem_get_head c, length (rem_get_head c))"
    using h by (simp add: print_piece_def snprintf_def)
  moreover have "print_piece 4096 (rem_get_head c @ t, length (rem_get_head c) + length t) '']}'' =
      Some ((rem_get_head c @ t) @ '']}'', length (rem_get_head c) + length t + 2)"
    using h l t(2) by (simp add: print_piece_def snprintf_def)
  ultimately show ?thesis using t(1) t(3) by (simp add: rem_get_json_def)
qed

text \<open>The state that a command leaves; it never overruns an array.\<close>

definition rem_leaves :: "('n reminder \<Rightarrow> bool) \<Rightarrow> 'n reminder_res \<Rightarrow> bool" where
  "rem_leaves P r \<longleftrightarrow> (\<exists>s outs e. r = Some (s, outs, e) \<and> P s)"

lemma rem_leaves_simps [simp]:
  "rem_leaves P (rem_refuse s outs e) = P s" "rem_leaves P (rem_ok ctx s m h) = P s"
  "rem_leaves P (Some (s, outs, e)) = P s"
  by (simp_all add: rem_leaves_def rem_refuse_def rem_ok_def)

lemma rem_field_wf:
  assumes "rem_wf c"
  shows "rem_wf (c\<lparr>rm_enabled := b\<rparr>)" "length v \<le> 127 \<Longrightarrow> rem_wf (c\<lparr>rm_subject := v\<rparr>)"
    "length v \<le> 511 \<Longrightarrow> rem_wf (c\<lparr>rm_body := v\<rparr>)"
  using assms by (auto simp: rem_wf_def)

lemma rem_cmd_in_step:
  assumes N: "nvs_lawful N" and s: "rem_in_step N s" and h: "(name, h) \<in> set (rem_cmds N a)"
  shows "rem_leaves (rem_in_step N) (h ctx s)"
proof -
  note wf = in_step_wf [OF N s]
  note put = rem_put_in_step [OF N]
  have "rem_leaves (rem_in_step N) (rem_cli_enable N ctx s)"
    using s put rem_field_wf(1) [OF wf] by (simp add: rem_cli_enable_def split: option.split)
  moreover have "rem_leaves (rem_in_step N) (rem_cli_subject N ctx s)"
    using s put rem_field_wf(2) [OF wf] text_arg_length
    by (auto simp: rem_cli_subject_def rem_limits split: option.split)
  moreover have "rem_leaves (rem_in_step N) (rem_cli_body N ctx s)"
    using s put rem_field_wf(3) [OF wf] text_arg_length
    by (auto simp: rem_cli_body_def rem_limits split: option.split)
  moreover have "rem_leaves (rem_in_step N) (rem_cli_rcpt_add N ctx s)"
    using s put rem_add_wf [OF wf] by (auto simp: rem_cli_rcpt_add_def rem_limits Let_def split: option.split)
  moreover have "rem_leaves (rem_in_step N) (rem_cli_rcpt_remove N ctx s)"
    using s put rem_remove_wf [OF wf]
    by (auto simp: rem_cli_rcpt_remove_def Let_def find_address_Some rem_listed_def split: option.split)
  moreover have "rem_leaves (rem_in_step N) (rem_cli_get a ctx s)"
    using s by (simp add: rem_cli_get_def Let_def rem_get_fits [OF wf])
  ultimately show ?thesis using h by (auto simp: rem_cmds_def)
qed

lemma rem_init_in_step: "rem_in_step N (snd (ls_reminder_init N qo t n))"
  by (simp add: ls_reminder_init_def Let_def rem_in_step_def)

lemma rem_reset_in_step:
  assumes N: "nvs_lawful N"
  shows "rem_in_step N (rem_factory_reset N s)"
proof -
  have "stored_cfg N (nv_commit N (nv_erase_all N n NVS_REM) NVS_REM) = reminder_zero" for n
    by (simp add: stored_cfg_def stored_count_def get_u8_def load_str_def get_str_def load_val_def nvs_get_commit [OF N]
        nvs_get_erase_all [OF N] reminder_zero_def rem_limits map_replicate_const)
  then show ?thesis
    by (simp add: rem_factory_reset_def Let_def nvs_open_rw [OF N] rem_in_step_def load_cfg_eq [OF N])
qed

lemma rem_step_in_step:
  assumes N: "nvs_lawful N" and s: "rem_in_step N s"
  shows "\<exists>s'. rem_step N (Some s) e = Some s' \<and> rem_in_step N s'"
proof (cases e)
  case (RemCmd name a ctx)
  then show ?thesis
    using s rem_cmd_in_step [OF N s, of name _ a ctx]
    by (auto simp: rem_leaves_def split: option.split dest!: map_of_SomeD)
next
  case (RemAlarm p)
  then show ?thesis using s by (auto simp: on_timer_alarm_def rem_in_step_def Let_def split: option.split)
next
  case RemTaken
  then show ?thesis using s by (simp add: rem_in_step_def)
qed (simp_all add: rem_init_in_step rem_reset_in_step [OF N])

interpretation rem_runs: stepping "rem_step N"
  "\<lambda>st. nvs_lawful N \<and> (\<exists>s. st = Some s \<and> rem_in_step N s)" "\<lambda>e. True" for N
  by unfold_locales (auto dest: rem_step_in_step)

text \<open>
  Whatever is in flash at a boot and whatever commands, alarms, factory resets and power cycles follow, no
  handler of the reminder overruns an array, its configuration fits its arrays with at most ten recipients,
  and a power cycle at that point loads exactly the configuration in use.
\<close>

theorem reminder_survives_power_loss:
  assumes "nvs_lawful N"
  shows "\<exists>s. foldl (rem_step N) (Some (snd (ls_reminder_init N True True n))) es = Some s \<and>
    rm_cfg (snd (ls_reminder_init N True True (rm_flash s))) = rm_cfg s \<and>
    unat (rm_count (rm_cfg s)) \<le> 10 \<and> length (rm_rcpts (rm_cfg s)) = 10 \<and>
    (\<forall>a \<in> set (rm_rcpts (rm_cfg s)). length a \<le> 95) \<and>
    length (rm_subject (rm_cfg s)) \<le> 127 \<and> length (rm_body (rm_cfg s)) \<le> 511"
proof -
  have "nvs_lawful N \<and> (\<exists>s. foldl (rem_step N) (Some (snd (ls_reminder_init N True True n))) es = Some s \<and> rem_in_step N s)"
    by (rule rem_runs.run_inv) (simp_all add: assms rem_init_in_step)
  then obtain s where s: "foldl (rem_step N) (Some (snd (ls_reminder_init N True True n))) es = Some s" "rem_in_step N s"
    by blast
  have "rm_cfg (snd (ls_reminder_init N True True (rm_flash s))) = rm_cfg s"
    using s(2) by (simp add: ls_reminder_init_def Let_def rem_in_step_def)
  moreover note in_step_wf [OF assms s(2)]
  ultimately show ?thesis using s(1) by (simp add: rem_wf_def)
qed

text \<open>The JSON text of the configuration, written out: every character is escaped, nothing is cut off.\<close>

definition json_text :: "string \<Rightarrow> string" where
  "json_text s = q @ concat (map esc_char s) @ q"

definition rem_document :: "reminder_cfg \<Rightarrow> string" where
  "rem_document c =
     ''{'' @ jk ''enabled'' @ jbool (rm_enabled c) @ '','' @ jk ''subject'' @ json_text (rm_subject c) @ '','' @
     jk ''body'' @ json_text (rm_body c) @ '','' @ jk ''recipients'' @ ''['' @
     concat (map (\<lambda>(i, a). (if i = 0 then [] else '','') @ json_text a)
       (enumerate 0 (take (unat (rm_count c)) (rm_rcpts c)))) @ '']}''"

lemma rem_get_document:
  assumes c: "rem_wf c"
  shows "rem_get_json c = Some (rem_document c)"
proof -
  have h: "rem_get_head c = ''{'' @ jk ''enabled'' @ jbool (rm_enabled c) @ '','' @
      jk ''subject'' @ json_text (rm_subject c) @ '','' @ jk ''body'' @ json_text (rm_body c) @ '','' @ jk ''recipients'' @ ''[''"
    using c by (simp add: rem_get_head_def rem_limits json_esc_fits json_text_def jq_def rem_wf_def)
  have e: "jq (esc_email a) = json_text a" if "a \<in> set (rem_listed c)" for a
  proof -
    have "length a \<le> 95" using that c by (auto simp: rem_listed_take rem_wf_def dest: in_set_takeD)
    then show ?thesis by (simp add: esc_email_def RCPT_EMAIL_MAX_def json_esc_fits json_text_def jq_def)
  qed
  have m: "map (\<lambda>(i, a). (if i = 0 then [] else '','') @ jq (esc_email a)) (enumerate 0 (rem_listed c)) =
      map (\<lambda>(i, a). (if i = 0 then [] else '','') @ json_text a) (enumerate 0 (rem_listed c))"
    by (rule nth_equalityI) (simp_all add: nth_enumerate_eq e)
  show ?thesis unfolding rem_get_fits [OF c] h m unfolding rem_document_def rem_listed_take [OF c] by simp
qed

text \<open>
  The machine answer of \<open>reminder.get\<close> is complete: over every run after a boot it holds the whole subject,
  the whole body and all recipients, escaped, and is never cut off by its buffers.
\<close>

theorem reminder_get_complete:
  assumes "nvs_lawful N" "is_machine_mode ctx"
    and "foldl (rem_step N) (Some (snd (ls_reminder_init N True True n))) es = Some s"
  shows "rem_cli_get True ctx s = Some (s, [CliOk (Some (rem_document (rm_cfg s)))], SK_OK)"
proof -
  have "nvs_lawful N \<and> (\<exists>s. foldl (rem_step N) (Some (snd (ls_reminder_init N True True n))) es = Some s \<and> rem_in_step N s)"
    by (rule rem_runs.run_inv) (simp_all add: assms(1) rem_init_in_step)
  with assms(3) have "rem_in_step N s" by auto
  from rem_get_document [OF in_step_wf [OF assms(1) this]] show ?thesis
    by (simp add: rem_cli_get_def Let_def assms(2))
qed

section \<open>From the alarm to the mail\<close>

lemma number_after:
  assumes "int n \<le> LONG_MAX" "\<not> is_digit x"
  shows "strtol10 (dropWhile (\<lambda>c. c = CHR '' '' \<or> c = CHR '':'' \<or> c = CHR 0x09) ('':'' @ dec_nat n @ x # s)) = Some (int n)"
proof -
  obtain c cs where d: "dec_nat n = c # cs"
    using dec_nat_nonempty [of n] by (cases "dec_nat n") auto
  have "is_digit c" using dec_nat_digits [of n] by (simp add: d)
  then have "c \<noteq> CHR '' ''" "c \<noteq> CHR '':''" "c \<noteq> CHR 0x09" by (auto simp: is_digit_def char_code_def)
  then have "dropWhile (\<lambda>c. c = CHR '' '' \<or> c = CHR '':'' \<or> c = CHR 0x09) ('':'' @ dec_nat n @ x # s) = dec_nat n @ x # s"
    by (simp add: d)
  with strtol_dec_nat_then [OF assms, of s] show ?thesis by simp
qed

definition alarm_text :: "nat \<Rightarrow> nat \<Rightarrow> u32 \<Rightarrow> string" where
  "alarm_text k m r = ''{'' @ jk ''index'' @ dec_nat k @ '','' @ jk ''of'' @ dec_nat m @ '','' @
     jk ''remaining_sec'' @ dec_u32 r @ ''}''"

lemma alarm_text_index: "int k \<le> LONG_MAX \<Longrightarrow> json_get_int (alarm_text k m r) ''index'' = Some (int k)"
proof -
  assume k: "int k \<le> LONG_MAX"
  have "after_str (jq ''index'') (alarm_text k m r) =
      Some ('':'' @ dec_nat k @ CHR '','' # jk ''of'' @ dec_nat m @ '','' @ jk ''remaining_sec'' @ dec_u32 r @ ''}'')"
    using after_str_skip [of "CHR 0x22" "''{''"] after_str_here [of "jq ''index''"]
    by (simp add: alarm_text_def jk_def jq_def q_def)
  then show ?thesis
    using number_after [OF k, of "CHR '',''"] by (simp add: json_get_int_def snprintf_def jq_def q_def is_digit_def char_code_def)
qed

lemma alarm_text_of: "int m \<le> LONG_MAX \<Longrightarrow> json_get_int (alarm_text k m r) ''of'' = Some (int m)"
proof -
  assume m: "int m \<le> LONG_MAX"
  let ?rest = "'':'' @ dec_nat m @ CHR '','' # jk ''remaining_sec'' @ dec_u32 r @ ''}''"
  have d: "CHR 0x22 \<notin> set (dec_nat k)" using dec_nat_digits [of k] by (auto simp: is_digit_def char_code_def)
  have "after_str (jq ''of'') (alarm_text k m r) =
      after_str (jq ''of'') (CHR 0x22 # CHR ''i'' # ''ndex'' @ CHR 0x22 # CHR '':'' # (dec_nat k @ '','') @ jq ''of'' @ ?rest)"
    using after_str_skip [of "CHR 0x22" "''{''"] by (simp add: alarm_text_def jk_def jq_def q_def)
  also have "\<dots> = after_str (jq ''of'') (''index'' @ CHR 0x22 # CHR '':'' # (dec_nat k @ '','') @ jq ''of'' @ ?rest)"
    using after_str_not [of "CHR ''o''" "CHR ''i''"] by (simp add: jq_def q_def)
  also have "\<dots> = after_str (jq ''of'') (CHR 0x22 # CHR '':'' # (dec_nat k @ '','') @ jq ''of'' @ ?rest)"
    using after_str_skip [of "CHR 0x22" "''index''"] by (simp add: jq_def q_def)
  also have "\<dots> = after_str (jq ''of'') (('':'' @ dec_nat k @ '','') @ jq ''of'' @ ?rest)"
    using after_str_not [of "CHR ''o''" "CHR '':''"] by (simp add: jq_def q_def)
  also have "\<dots> = after_str (jq ''of'') (jq ''of'' @ ?rest)"
    using after_str_skip [of "CHR 0x22" "'':'' @ dec_nat k @ '',''"] d by (simp add: jq_def q_def)
  also have "\<dots> = Some ?rest" by (rule after_str_here)
  finally show ?thesis
    using number_after [OF m, of "CHR '',''"] by (simp add: json_get_int_def snprintf_def jq_def q_def is_digit_def char_code_def)
qed

lemma alarm_count_lt: "unat (cfg_alarm_count (cfg t)) < 256"
proof -
  have "unat (cfg_alarm_count (cfg t)) < 2 ^ 8" using unsigned_less [of "cfg_alarm_count (cfg t)"] by simp
  then show ?thesis by simp
qed

text \<open>The event of the countdown engine carries this text uncut.\<close>

lemma alarm_payload:
  "i < 32 \<Longrightarrow> publish_alarm t i r = Publish ''timer.alarm'' (Some (alarm_text (i + 1) (unat (cfg_alarm_count (cfg t))) r))"
proof -
  assume "i < 32"
  then have "length (dec_nat (i + 1)) \<le> 2" using length_dec_nat [of "i + 1" 1] by simp
  moreover have "length (dec_nat (unat (cfg_alarm_count (cfg t)))) \<le> 3"
    using length_dec_nat [of "unat (cfg_alarm_count (cfg t))" 2] alarm_count_lt [of t] by simp
  ultimately have "length (alarm_text (i + 1) (unat (cfg_alarm_count (cfg t))) r) < 256"
    using length_dec_u32 [of r] by (simp add: alarm_text_def jk_def q_def)
  then show ?thesis unfolding publish_alarm_def publishf_def alarm_text_def [symmetric] by (simp add: snprintf_fits)
qed

text \<open>What one alarm is meant to do: the result of the send and the mail in the mailbox of the server.\<close>

definition reminder_outcome :: "policy \<Rightarrow> string \<Rightarrow> string \<Rightarrow> string \<Rightarrow> reminder_cfg \<Rightarrow> send_end \<times> mail list" where
  "reminder_outcome P from u v c =
     mail_outcome P from u v
       (if rm_subject c = [] then ''LebensSpur reminder'' else rm_subject c)
       (if rm_body c = [] then REMINDER_DEFAULT_BODY else rm_body c)
       (take (unat (rm_count c)) (rm_rcpts c))"

definition outcome_event :: "fire_msg \<Rightarrow> send_end \<Rightarrow> eff" where
  "outcome_event m e = fire_event m (e = Ended SK_OK)
     (case e of Ended rc \<Rightarrow> if rc = SK_OK then None else Some (sk_err_code_string rc) | Overrun \<Rightarrow> None)"

definition reminder_sendable :: "string \<Rightarrow> reminder_cfg \<Rightarrow> bool" where
  "reminder_sendable from c \<longleftrightarrow>
     (let h = mail_header from (or_default (rm_subject c) REMINDER_DEFAULT_SUBJECT) (rem_listed c) in
      (\<forall>a \<in> set (rem_listed c). CHR 0x0A \<notin> set a) \<and> length h \<le> 512 \<and>
      \<not> dotted (on_wire h @ or_default (rm_body c) REMINDER_DEFAULT_BODY))"

lemma own_ptrs: "map own as = const_ptrs as"
  by (simp add: own_def const_ptrs_def)

lemma reminder_mailbox:
  fixes P
  assumes cfg: "ls_smtp_is_configured (pcfg w)" "CHR 0x0A \<notin> set (smtp_sender (pcfg w))" "length (smtp_sender (pcfg w)) \<le> 127"
    and b64: "base64_plain b" "b 256 (smtp_sender (pcfg w)) = Some u" "b 256 (api_key (pcfg w)) = Some v"
    and c: "rem_wf c" "rm_count c \<noteq> 0" "reminder_sendable (smtp_sender (pcfg w)) c" and C: "C w = c"
  defines "out \<equiv> reminder_outcome P (smtp_sender (pcfg w)) u v c"
  shows "\<exists>es w'. reminder_worker (smtpd_tls P b) C m w = Some (True, es @ [outcome_event m (fst out)], w') \<and>
    delivered (srv w') = delivered (srv w) @ snd out"
proof -
  let ?subj = "or_default (rm_subject c) REMINDER_DEFAULT_SUBJECT" and ?body = "or_default (rm_body c) REMINDER_DEFAULT_BODY"
  have ne: "rem_listed c \<noteq> []" using c(2) by (simp add: rem_listed_def unat_eq_zero)
  have l: "length (rem_listed c) \<le> 10" using c(1) by (simp add: rem_listed_def rem_wf_def)
  then have t: "take 32 (rem_listed c) = rem_listed c" by simp
  have "\<forall>a \<in> set (rem_listed c). length a \<le> 95"
    using c(1) by (auto simp: rem_listed_take rem_wf_def dest: in_set_takeD)
  then have a: "\<forall>a \<in> set (smtp_sender (pcfg w) # rem_listed c). CHR 0x0A \<notin> set a \<and> length a \<le> 497"
    using c(3) cfg by (force simp: reminder_sendable_def Let_def)
  have d: "\<not> dotted (on_wire (mail_header (smtp_sender (pcfg w)) ?subj (take 32 (rem_listed c))) @ ?body)"
    using c(3) by (simp add: t reminder_sendable_def Let_def)
  have o: "out = mail_outcome P (smtp_sender (pcfg w)) u v ?subj ?body (rem_listed c)"
    by (simp add: out_def reminder_outcome_def or_default_def REMINDER_DEFAULT_SUBJECT_def rem_listed_take [OF c(1)])
  have "\<exists>rc. fst out = Ended rc"
    unfolding o by (rule outcome_ends) (use c(3) in \<open>simp add: reminder_sendable_def Let_def\<close>)
  then obtain rc where rc: "fst out = Ended rc" ..
  note m = do_send_mailbox [OF cfg(1) ne a b64 d, of P, unfolded t, folded o]
  then obtain w' where s: "do_send (smtpd_tls P b) (own ?subj) (own ?body) (const_ptrs (rem_listed c)) w = Some (Ended rc, w')"
    and e: "mbox w' = (pcfg w, delivered (srv w) @ snd out)"
    using rc by (auto simp: own_def map_prod_def split: prod.splits)
  have t': "tls_cfg (smtpd_tls P b) w = pcfg w" by (simp add: smtpd_tls_def)
  show ?thesis
    using s e c(2) cfg(1) rc
    by (simp add: reminder_worker_def C Let_def reminder_send_cfg_def own_ptrs ls_smtp_send_def t' mbox_def outcome_event_def)
qed

text \<open>
  C6: An alarm of the countdown is mailed once: the event that the countdown engine publishes for its alarm number
  \<open>i\<close> puts exactly one message with the number \<open>i + 1\<close> and the number of alarms into the queue of an enabled
  reminder that has room (a full queue of two stays as it is: the alarm is lost), and the worker, on this message, adds
  to the mailbox of the server what the mailbox specification says for the subject, the body (or the default texts) and
  the recipients as they were when it took the message, whatever other tasks change during the send, and reports
  the result with these numbers. For the mail: there is a recipient, SMTP is configured with a sender of at most 127
  characters whose base64 form and that of the key fit 256 bytes, neither the sender nor a recipient has a line feed, the
  header fits its 512 bytes and no line of the mail begins with a dot.
\<close>

theorem alarm_sends_one_reminder:
  assumes "i < 32" "publish_alarm t i r = Publish name payload"
    and "rm_q s = Some ms" "rm_enabled (rm_cfg s)" "rem_wf (rm_cfg s)" "rm_count (rm_cfg s) \<noteq> 0"
    and "ls_smtp_is_configured (pcfg w)" "CHR 0x0A \<notin> set (smtp_sender (pcfg w))" "length (smtp_sender (pcfg w)) \<le> 127"
    and "base64_plain b" "b 256 (smtp_sender (pcfg w)) = Some u" "b 256 (api_key (pcfg w)) = Some v"
    and "reminder_sendable (smtp_sender (pcfg w)) (rm_cfg s)" "C w = rm_cfg s"
  shows "\<exists>m es w'. m = (int i + 1, uint (cfg_alarm_count (cfg t))) \<and>
    rm_q (on_timer_alarm payload s) = Some (if length ms < 2 then ms @ [m] else ms) \<and>
    reminder_worker (smtpd_tls P b) C m w =
      Some (True, es @ [outcome_event m (fst (reminder_outcome P (smtp_sender (pcfg w)) u v (rm_cfg s)))], w') \<and>
    delivered (srv w') = delivered (srv w) @ snd (reminder_outcome P (smtp_sender (pcfg w)) u v (rm_cfg s))"
proof -
  have p: "payload = Some (alarm_text (i + 1) (unat (cfg_alarm_count (cfg t))) r)"
    using assms(2) by (simp add: alarm_payload [OF assms(1)])
  have "int (i + 1) \<le> LONG_MAX" using assms(1) by (simp add: LONG_MAX_def)
  note a = alarm_text_index [OF this]
  have "int (unat (cfg_alarm_count (cfg t))) \<le> LONG_MAX"
    using alarm_count_lt [of t] unfolding LONG_MAX_def by linarith
  note b = alarm_text_of [OF this]
  have "rm_q (on_timer_alarm payload s) =
      Some (if length ms < 2 then ms @ [(int i + 1, uint (cfg_alarm_count (cfg t)))] else ms)"
    by (simp add: on_timer_alarm_def assms(3,4) p a [simplified] b [simplified] REM_QUEUE_LEN_def)
  moreover note reminder_mailbox [where C = C and w = w and m = "(int i + 1, uint (cfg_alarm_count (cfg t)))" and P = P,
    OF assms(7-12) assms(5,6,13,14)]
  ultimately show ?thesis by blast
qed

section \<open>A concrete device\<close>

definition rem_line :: "string \<Rightarrow> string list \<Rightarrow> rem_ev" where
  "rem_line name args = RemCmd name True \<lparr> is_machine_mode = False, command_name = name, confirm_token = None,
     authenticated = True, machine_args = None, machine_id = -1, human_argv = args \<rparr>"

definition toy_rem_run :: "rem_ev list" where
  "toy_rem_run = [rem_line ''reminder.enable'' [''on''], rem_line ''reminder.recipient.add'' [''a@x.org''],
     rem_line ''reminder.recipient.add'' [''b@x.org''], rem_line ''reminder.recipient.remove'' [''A@X.ORG'']]"

definition toy_rem :: "nvs_map reminder" where
  "toy_rem = the (foldl (rem_step nvs_map_ops) (Some (snd (ls_reminder_init nvs_map_ops True True (\<lambda>x. None)))) toy_rem_run)"

lemma toy_rem_cfg: "rm_cfg toy_rem = \<lparr> rm_enabled = True, rm_subject = [], rm_body = [],
    rm_rcpts = ''b@x.org'' # replicate 9 [], rm_count = 1 \<rparr>" "rm_q toy_rem = Some []"
  by code_simp+

lemma toy_rem_in_step: "rem_in_step nvs_map_ops toy_rem"
proof -
  have "nvs_lawful nvs_map_ops \<and> (\<exists>s. foldl (rem_step nvs_map_ops) (Some (snd (ls_reminder_init nvs_map_ops True True (\<lambda>x. None)))) toy_rem_run = Some s \<and>
      rem_in_step nvs_map_ops s)"
    by (rule rem_runs.run_inv) (simp_all add: nvs_map_lawful rem_init_in_step)
  then show ?thesis by (auto simp: toy_rem_def)
qed

lemma reminder_survives_power_loss_witness:
  "rm_cfg (snd (ls_reminder_init nvs_map_ops True True (rm_flash toy_rem))) = rm_cfg toy_rem \<and>
   take 2 (rm_rcpts (rm_cfg toy_rem)) = [''b@x.org'', []]"
  using reminder_survives_power_loss [OF nvs_map_lawful, of "\<lambda>x. None" toy_rem_run] toy_rem_cfg(1)
  by (auto simp: toy_rem_def)

definition get_ctx :: cli_ctx where
  "get_ctx = \<lparr> is_machine_mode = True, command_name = ''reminder.get'', confirm_token = None,
     authenticated = True, machine_args = None, machine_id = 7, human_argv = [] \<rparr>"

lemma reminder_get_complete_witness:
  "rem_cli_get True get_ctx toy_rem = Some (toy_rem, [CliOk (Some (rem_document (rm_cfg toy_rem)))], SK_OK)"
proof (rule reminder_get_complete [OF nvs_map_lawful])
  show "is_machine_mode get_ctx" by (simp add: get_ctx_def)
  show "foldl (rem_step nvs_map_ops) (Some (snd (ls_reminder_init nvs_map_ops True True (\<lambda>x. None)))) toy_rem_run = Some toy_rem"
    using reminder_survives_power_loss [OF nvs_map_lawful, of "\<lambda>x. None" toy_rem_run] by (auto simp: toy_rem_def)
qed

definition toy_timer :: "nvs_map timer" where
  "toy_timer = timer_static (\<lambda>x. None)"

lemma alarm_sends_one_reminder_witness:
  "\<exists>es w'. rm_q (on_timer_alarm (Some (alarm_text 2 3 3600)) toy_rem) = Some [(2, 3)] \<and>
    reminder_worker (smtpd_tls toy_policy base64) (\<lambda>w. rm_cfg toy_rem) (2, 3) (toy_peer ''secret'') =
      Some (True, es @ [fire_event (2, 3) True None], w') \<and>
    delivered (srv w') = [\<lparr> m_from = ''me@x.org'', m_to = [''b@x.org''],
      m_text = mail_header ''me@x.org'' ''LebensSpur reminder'' [''b@x.org''] @ REMINDER_DEFAULT_BODY @ CRLF \<rparr>]"
proof -
  let ?c = "pcfg (toy_peer ''secret'')"
  have n: "unat (cfg_alarm_count (cfg toy_timer)) = 3" by (simp add: toy_timer_def timer_static_def default_config_def)
  then have p: "publish_alarm toy_timer 1 3600 = Publish ''timer.alarm'' (Some (alarm_text 2 3 3600))"
    using alarm_payload [of 1 toy_timer 3600] by (simp add: numeral_2_eq_2)
  have e: "rm_enabled (rm_cfg toy_rem)" "rem_wf (rm_cfg toy_rem)" "rm_count (rm_cfg toy_rem) \<noteq> 0"
    using in_step_wf [OF nvs_map_lawful toy_rem_in_step] by (simp_all add: toy_rem_cfg)
  have c: "ls_smtp_is_configured ?c" "CHR 0x0A \<notin> set (smtp_sender ?c)" "length (smtp_sender ?c) \<le> 127" by code_simp+
  have u: "base64 256 (smtp_sender ?c) = Some ''bWVAeC5vcmc=''" by code_simp
  have v: "base64 256 (api_key ?c) = Some ''c2VjcmV0''" by code_simp
  have sd: "reminder_sendable (smtp_sender ?c) (rm_cfg toy_rem)" unfolding toy_rem_cfg by code_simp
  have o: "reminder_outcome toy_policy (smtp_sender ?c) ''bWVAeC5vcmc='' ''c2VjcmV0'' (rm_cfg toy_rem) =
      (Ended SK_OK, [\<lparr> m_from = ''me@x.org'', m_to = [''b@x.org''],
        m_text = mail_header ''me@x.org'' ''LebensSpur reminder'' [''b@x.org''] @ REMINDER_DEFAULT_BODY @ CRLF \<rparr>])"
    unfolding toy_rem_cfg by code_simp
  have k: "(int 1 + 1, uint (cfg_alarm_count (cfg toy_timer))) = (2, 3)"
    by (simp add: toy_timer_def timer_static_def default_config_def)
  have ev: "outcome_event (2, 3) (Ended SK_OK) = fire_event (2, 3) True None" by (simp add: outcome_event_def)
  have d: "delivered (srv (toy_peer ''secret'')) = []" by code_simp
  show ?thesis
    using alarm_sends_one_reminder [where C = "\<lambda>w. rm_cfg toy_rem" and P = toy_policy,
        OF _ p toy_rem_cfg(2) e c base64_laws(1) u v sd refl]
    unfolding o k d fst_conv snd_conv append_Nil ev by (auto simp: ev)
qed

end
