(* ===== verification/SkControlProps.thy ===== *)
theory SkControlProps
  imports SkControl "HOL-Library.Sublist"
begin

text \<open>
  The control button: which gesture a press is taken for, when a factory reset can be requested through the
  button, and a sequence of taps that the fixed window of the multi-tap counter misses.
\<close>

section \<open>From the duration to the gesture\<close>

lemma dec_nat_not: "\<not> is_digit c \<Longrightarrow> c \<notin> set (dec_nat n)"
  using dec_nat_digits [of n] by auto

lemma duration_payload:
  "length name \<le> 20 \<Longrightarrow> duration_event name held = OnBus (Publish name (Some (''{'' @ jk ''duration_ms'' @ dec_u32 held @ ''}'')))"
  using length_dec_u32 [of held] by (simp add: duration_event_def publishf_def snprintf_fits jk_def q_def)

text \<open>What the gesture interpreter does for a press of so many ms.\<close>

definition gesture :: "nat \<Rightarrow> (eff list \<times> nat option) list" where
  "gesture ms =
     (if ms < 30 then []
      else if ms < 3000 then [([Publish ''control.short-press'' None], None)]
      else if ms < 5000 then []
      else if ms < 10000 then [([shutdown_event ''button_long_press'' 300], Some 300)]
      else [([wipe_event ''button_10s_hold''], Some 500)])"

text \<open>What the interpreter does for what the button task publishes.\<close>

definition acts_of :: "button_out \<Rightarrow> (eff list \<times> nat option) list" where
  "acts_of out = (case out of Callback e m \<Rightarrow> []
     | OnBus e \<Rightarrow> (if control_on e = ([], None) then [] else [control_on e]))"

definition control_acts :: "button_out list \<Rightarrow> (eff list \<times> nat option) list" where
  "control_acts outs = concat (map acts_of outs)"

lemma control_acts_simps [simp]:
  "control_acts [] = []" "control_acts (x # xs) = acts_of x @ control_acts xs"
  "control_acts (xs @ ys) = control_acts xs @ control_acts ys"
  by (simp_all add: control_acts_def)

lemma released_parsed:
  assumes "unat held < 2 ^ 31" "unat held \<ge> 30"
  shows "acts_of (duration_event ''button.released'' held) = gesture (unat held)"
proof -
  have "unat held < 2147483648" using assms(1) by simp
  then have "int (unat held) \<le> LONG_MAX" unfolding LONG_MAX_def by linarith
  then have v: "atol (dec_u32 held @ ''}'') = int (unat held)"
    using strtol_dec_nat_then [of "unat held" "CHR ''}''" "[]"] by (simp add: atol_def dec_u32_def is_digit_def char_code_def)
  have "after_str (jq ''duration_ms'') (''{'' @ jk ''duration_ms'' @ dec_u32 held @ ''}'') = Some ('':'' @ dec_u32 held @ ''}'')"
    using after_str_skip [of "CHR 0x22" "''{''"] after_str_here [of "jq ''duration_ms''"]
    by (simp add: jk_def jq_def q_def)
  then have "on_button_released (Some (''{'' @ jk ''duration_ms'' @ dec_u32 held @ ''}'')) =
      (let ms = int (unat held) in
       if ms \<le> 0 then ([], None)
       else if ms < 3000 then ([Publish ''control.short-press'' None], None)
       else if ms \<ge> 10000 then ([wipe_event ''button_10s_hold''], Some 500)
       else if ms \<ge> 5000 then ([shutdown_event ''button_long_press'' 300], Some 300)
       else ([], None))"
    unfolding on_button_released_def option.case
    by (simp add: after_char_def v SHORT_PRESS_MAX_MS_def FACTORY_RESET_MIN_MS_def RESTART_MIN_MS_def Let_def del: of_nat_unat)
  then show ?thesis
    using assms(2) by (simp add: duration_payload acts_of_def control_on_def Let_def gesture_def del: of_nat_unat)
qed

text \<open>Only two names reach the interpreter.\<close>

lemma acts_quiet [simp]:
  "name \<noteq> ''button.released'' \<Longrightarrow> name \<noteq> ''button.multi-tap'' \<Longrightarrow> acts_of (OnBus (Publish name p)) = []"
  "name \<noteq> ''button.released'' \<Longrightarrow> name \<noteq> ''button.multi-tap'' \<Longrightarrow> acts_of (OnBus (publishf name s)) = []"
  "acts_of (Callback e m) = []" "control_acts (cb_out b e m) = []"
  by (simp_all add: acts_of_def control_on_def publishf_def cb_out_def)

lemma acts_multi_tap [simp]: "acts_of (OnBus (publishf ''button.multi-tap'' s)) = [([wipe_event ''multi_tap''], Some 500)]"
  by (simp add: acts_of_def control_on_def publishf_def on_button_multi_tap_def)

lemma acts_duration [simp]:
  "name \<noteq> ''button.released'' \<Longrightarrow> name \<noteq> ''button.multi-tap'' \<Longrightarrow> acts_of (duration_event name held) = []"
  by (simp add: duration_event_def)

lemma hold_loop_quiet: "control_acts (snd (hold_loop held ths fs)) = []"
  by (induction held ths fs rule: hold_loop.induct) (auto split: prod.split)

text \<open>While the button is down the interpreter is not called; the counter of the taps is left alone.\<close>

definition same_taps :: "button \<Rightarrow> button \<Rightarrow> bool" where
  "same_taps b b' \<longleftrightarrow> b_cfg b' = b_cfg b \<and> tap_count b' = tap_count b \<and> first_tap_us b' = first_tap_us b \<and>
     press_start b' = press_start b"

lemma while_pressed_quiet:
  "control_acts (snd (while_pressed now b)) = [] \<and> same_taps b (fst (while_pressed now b)) \<and>
     prev_pressed (fst (while_pressed now b)) = prev_pressed b"
  using hold_loop_quiet [of "sint (held_ms now b)" hold_thresholds_ms "hold_fired b"]
  by (auto simp: while_pressed_def Let_def same_taps_def split: prod.split)

lemma held_small:
  "press_start b \<le> now \<Longrightarrow> (now - press_start b) div 1000 < 2 ^ 31 \<Longrightarrow>
     unat (held_ms now b) = nat ((now - press_start b) div 1000)"
  by (simp add: held_ms_def cdiv_nonneg unat_eq_nat_uint uint_word_of_int)

section \<open>One press\<close>

lemma release_acts:
  assumes "press_start b \<le> now" "(now - press_start b) div 1000 < 2 ^ 31"
  shows "control_acts (snd (on_release now b)) = gesture (nat ((now - press_start b) div 1000)) @
    (if (now - press_start b) div 1000 \<ge> 30 \<and> \<not> long_reported b
     then control_acts (snd (count_tap now (b\<lparr>last_edge_us := now\<rparr>))) else [])"
proof -
  let ?b = "b\<lparr>last_edge_us := now\<rparr>"
  have h: "unat (held_ms now ?b) = nat ((now - press_start b) div 1000)"
    using held_small [of ?b now] assms by simp
  have d: "held_ms now ?b < DEBOUNCE_MS \<longleftrightarrow> (now - press_start b) div 1000 < 30"
    using assms(1) by (simp add: word_less_nat_alt h DEBOUNCE_MS_def nat_less_iff pos_imp_zdiv_nonneg_iff)
  show ?thesis
  proof (cases "(now - press_start b) div 1000 < 30")
    case True
    then show ?thesis using d by (simp add: on_release_def Let_def gesture_def)
  next
    case False
    have "acts_of (duration_event ''button.released'' (held_ms now ?b)) = gesture (nat ((now - press_start b) div 1000))"
      using released_parsed [of "held_ms now ?b"] assms False by (simp add: h)
    then show ?thesis using False d by (simp add: on_release_def Let_def split: prod.split)
  qed
qed

lemma pressed_run:
  "prev_pressed b \<Longrightarrow> case button_run (map (Pair True) ts) b of (b', es) \<Rightarrow>
     control_acts es = [] \<and> same_taps b b' \<and> prev_pressed b'"
proof (induction ts arbitrary: b)
  case (Cons t ts)
  obtain b1 es1 where w: "while_pressed t b = (b1, es1)" by (cases "while_pressed t b")
  have q: "control_acts es1 = []" "same_taps b b1" "prev_pressed b1"
    using while_pressed_quiet [of t b] Cons.prems by (simp_all add: w)
  obtain b2 es2 where r: "button_run (map (Pair True) ts) (b1\<lparr>prev_pressed := True\<rparr>) = (b2, es2)"
    by (cases "button_run (map (Pair True) ts) (b1\<lparr>prev_pressed := True\<rparr>)")
  have "control_acts es2 = []" "same_taps (b1\<lparr>prev_pressed := True\<rparr>) b2" "prev_pressed b2"
    using Cons.IH [of "b1\<lparr>prev_pressed := True\<rparr>"] by (simp_all add: r)
  then show ?case using q Cons.prems by (simp add: button_step_def w r same_taps_def)
qed (simp add: same_taps_def)

lemma run_append: "button_run (ss @ ss') b =
    (case button_run ss b of (b, es) \<Rightarrow> case button_run ss' b of (b, es') \<Rightarrow> (b, es @ es'))"
  by (induction ss arbitrary: b) (simp_all split: prod.split)

text \<open>
  A press is taken for the gesture of its duration, however often the task samples the pin while it lasts:
  released after less than 30 ms it does nothing, before 3 s it opens the pairing window, between 3 and 5 s it
  does nothing, from 5 s on it restarts the device and from 10 s on it requests the factory reset, and the
  interpreter does nothing before the release (unless the press completes a multi-tap).
\<close>

theorem press_taken_for_its_gesture:
  assumes "\<not> prev_pressed b" "t \<le> r" "(r - t) div 1000 < 2 ^ 31"
    and "tap_count b + 1 < unat (multi_tap_threshold (b_cfg b))"
  shows "control_acts (snd (button_run (map (Pair True) (t # ts)) b)) = [] \<and>
    control_acts (snd (button_run (map (Pair True) (t # ts) @ [(False, r)]) b)) = gesture (nat ((r - t) div 1000))"
proof -
  obtain b1 es1 where w: "while_pressed t (press_edge t b) = (b1, es1)" by (cases "while_pressed t (press_edge t b)")
  have q: "control_acts es1 = []" "same_taps (press_edge t b) b1"
    using while_pressed_quiet [of t "press_edge t b"] by (simp_all add: w)
  obtain b2 es2 where p: "button_run (map (Pair True) ts) (b1\<lparr>prev_pressed := True\<rparr>) = (b2, es2)"
    by (cases "button_run (map (Pair True) ts) (b1\<lparr>prev_pressed := True\<rparr>)")
  have r2: "control_acts es2 = []" "same_taps (b1\<lparr>prev_pressed := True\<rparr>) b2" "prev_pressed b2"
    using pressed_run [of "b1\<lparr>prev_pressed := True\<rparr>" ts] by (simp_all add: p)
  have run: "button_run (map (Pair True) (t # ts)) b = (b2, es1 @ es2)"
    using assms(1) by (simp add: button_step_def w p)
  have s: "press_start b2 = t" "tap_count b2 = tap_count b" "b_cfg b2 = b_cfg b"
    using q(2) r2(2) by (simp_all add: same_taps_def press_edge_def)
  have "control_acts (snd (count_tap r (b2\<lparr>last_edge_us := r\<rparr>))) = []"
    using assms(4) by (simp add: count_tap_def Let_def s)
  then have "control_acts (snd (on_release r b2)) = gesture (nat ((r - t) div 1000))"
    using release_acts [of b2 r] assms(2,3) by (simp add: s)
  then show ?thesis
    using q r2 unfolding run_append run by (simp add: button_step_def case_prod_beta)
qed

lemma ms_bounds:
  "x div 1000 \<le> 800 \<Longrightarrow> x < 801000" "\<not> x div 1000 < 30 \<Longrightarrow> 30000 \<le> x" "10000 \<le> x div 1000 \<Longrightarrow> 10000000 \<le> x"
  for x :: int
  by simp_all

lemma subseq_prefix: "subseq ps (ps @ ps')"
  by (simp add: prefix_imp_subseq)

section \<open>When a factory reset can be requested\<close>

text \<open>The presses that the samples show: the first instant down and the instant of the release.\<close>

fun presses :: "int option \<Rightarrow> (bool \<times> int) list \<Rightarrow> (int \<times> int) list" where
  "presses down [] = []"
| "presses None ((True, t) # ss) = presses (Some t) ss"
| "presses None ((False, t) # ss) = presses None ss"
| "presses (Some s) ((True, t) # ss) = presses (Some s) ss"
| "presses (Some s) ((False, t) # ss) = (s, t) # presses None ss"

text \<open>Five presses of at least 30 ms each, released within the window of 800 ms (of 1000 us each).\<close>

definition five_taps :: "(int \<times> int) list \<Rightarrow> bool" where
  "five_taps ps \<longleftrightarrow> (\<exists>qs. subseq qs ps \<and> length qs = 5 \<and> (\<forall>(s, r) \<in> set qs. r - s \<ge> 30000) \<and>
     snd (last qs) - snd (hd qs) < 801000)"

definition wipes :: "(eff list \<times> nat option) list \<Rightarrow> bool" where
  "wipes as \<longleftrightarrow> (\<exists>a \<in> set as. \<exists>r. wipe_event r \<in> set (fst a))"

lemma wipes_simps [simp]: "wipes (as @ bs) \<longleftrightarrow> wipes as \<or> wipes bs" "\<not> wipes []"
  by (auto simp: wipes_def)

lemma gesture_wipes: "wipes (gesture ms) \<longleftrightarrow> ms \<ge> 10000"
  by (auto simp: wipes_def gesture_def wipe_event_def shutdown_event_def)

text \<open>The taps that the counter has counted.\<close>

definition counted :: "button \<Rightarrow> int \<Rightarrow> (int \<times> int) list \<Rightarrow> bool" where
  "counted b now ps \<longleftrightarrow> tap_count b < 5 \<and> (tap_count b = 0 \<or>
     first_tap_us b \<le> now \<and> (\<exists>qs. subseq qs ps \<and> length qs = tap_count b \<and> (\<forall>(s, r) \<in> set qs. r - s \<ge> 30000) \<and>
       snd (hd qs) = first_tap_us b))"

definition factory_cfg :: sk_button_cfg where
  "factory_cfg = button_defaults \<lparr> active_low = True, long_press_ms = 0, multi_tap_window_ms = 0, multi_tap_threshold = 0 \<rparr>"

lemma counted_later: "counted b now ps \<Longrightarrow> now \<le> now' \<Longrightarrow> subseq ps ps' \<Longrightarrow> counted b now' ps'"
  unfolding counted_def by (meson order_trans subseq_order.trans)

lemma count_tap_counted:
  assumes c: "counted b now ps" and n: "now \<le> r" and p: "r - s \<ge> 30000" and f: "b_cfg b = factory_cfg"
  shows "counted (fst (count_tap r b)) r (ps @ [(s, r)])"
    "wipes (control_acts (snd (count_tap r b))) \<Longrightarrow> five_taps (ps @ [(s, r)])"
    "b_cfg (fst (count_tap r b)) = factory_cfg"
proof -
  have cfg: "multi_tap_window_ms (b_cfg b) = 800" "multi_tap_threshold (b_cfg b) = 5"
    by (simp_all add: f factory_cfg_def button_defaults_def)
  let ?new = "tap_count b = 0 \<or> cdiv (r - first_tap_us b) 1000 > 800"
  show "b_cfg (fst (count_tap r b)) = factory_cfg" using f by (simp add: count_tap_def Let_def)
  have one: "\<exists>qs. subseq qs (ps @ [(s, r)]) \<and> length qs = 1 \<and> (\<forall>(s, r) \<in> set qs. r - s \<ge> 30000) \<and> snd (hd qs) = r"
    using p list_emb_append_mono [of "(=)" "[]" ps "[(s, r)]" "[(s, r)]"] by (intro exI [of _ "[(s, r)]"]) simp
  have more: "first_tap_us b \<le> now" "r - first_tap_us b < 801000"
    "\<exists>qs. subseq qs (ps @ [(s, r)]) \<and> length qs = tap_count b + 1 \<and> (\<forall>(s, r) \<in> set qs. r - s \<ge> 30000) \<and>
      snd (hd qs) = first_tap_us b \<and> snd (last qs) = r" if "\<not> ?new"
  proof -
    have k: "tap_count b \<noteq> 0" using that by simp
    with c obtain qs where q: "first_tap_us b \<le> now" "subseq qs ps" "length qs = tap_count b"
      "\<forall>(s, r) \<in> set qs. r - s \<ge> 30000" "snd (hd qs) = first_tap_us b"
      by (auto simp: counted_def)
    show "first_tap_us b \<le> now" by (rule q(1))
    have "(r - first_tap_us b) div 1000 \<le> 800" using that q(1) n by (simp add: cdiv_nonneg)
    then show "r - first_tap_us b < 801000" by (rule ms_bounds)
    have "qs \<noteq> []" using q(3) k by auto
    then show "\<exists>qs. subseq qs (ps @ [(s, r)]) \<and> length qs = tap_count b + 1 \<and> (\<forall>(s, r) \<in> set qs. r - s \<ge> 30000) \<and>
        snd (hd qs) = first_tap_us b \<and> snd (last qs) = r"
      using q p by (intro exI [of _ "qs @ [(s, r)]"]) (auto simp: list_emb_append_mono)
  qed
  show "counted (fst (count_tap r b)) r (ps @ [(s, r)])"
  proof (cases ?new)
    case True
    then show ?thesis using one by (auto simp: counted_def count_tap_def cfg)
  next
    case False
    from more [OF this] show ?thesis using False n by (auto simp: counted_def count_tap_def cfg Let_def)
  qed
  show "five_taps (ps @ [(s, r)])" if "wipes (control_acts (snd (count_tap r b)))"
  proof -
    have new: "\<not> ?new"
    proof
      assume ?new
      then have "snd (count_tap r b) = []" by (simp add: count_tap_def cfg)
      with that show False by simp
    qed
    have "tap_count b + 1 \<ge> 5" using that new by (auto simp: count_tap_def cfg Let_def split: if_splits)
    then have k: "tap_count b + 1 = 5" using c by (simp add: counted_def)
    from more(3) [OF new] obtain qs where "subseq qs (ps @ [(s, r)])" "length qs = 5"
      "\<forall>(s, r) \<in> set qs. r - s \<ge> 30000" "snd (hd qs) = first_tap_us b" "snd (last qs) = r"
      unfolding k by blast
    then show ?thesis using more(2) [OF new] unfolding five_taps_def by metis
  qed
qed

lemma five_taps_mono: "five_taps ps \<Longrightarrow> five_taps (ps @ ps')"
  unfolding five_taps_def using subseq_order.trans [OF _ subseq_prefix] by blast

lemma counted_same: "counted b now ps \<Longrightarrow> same_taps b b' \<Longrightarrow> counted b' now ps"
  by (simp add: counted_def same_taps_def)

text \<open>The invariant of the run: \<open>down\<close> is the press that lasts, \<open>ps\<close> the presses so far.\<close>

definition tracks :: "button \<Rightarrow> int \<Rightarrow> int option \<Rightarrow> (int \<times> int) list \<Rightarrow> bool" where
  "tracks b now down ps \<longleftrightarrow> b_cfg b = factory_cfg \<and> counted b now ps \<and>
     (case down of None \<Rightarrow> \<not> prev_pressed b | Some s \<Rightarrow> prev_pressed b \<and> press_start b = s \<and> s \<le> now)"

lemma tracks_pressed:
  assumes "tracks b now down ps" "now \<le> t"
  shows "control_acts (snd (button_step (True, t) b)) = [] \<and>
    tracks (fst (button_step (True, t) b)) t (Some (case down of None \<Rightarrow> t | Some s \<Rightarrow> s)) ps"
proof -
  let ?b = "if prev_pressed b then b else press_edge t b"
  have s: "button_step (True, t) b = ((fst (while_pressed t ?b))\<lparr>prev_pressed := True\<rparr>, snd (while_pressed t ?b))"
    by (simp add: button_step_def split: prod.split)
  have c: "counted ?b t ps" using assms by (auto simp: tracks_def counted_def press_edge_def)
  have w: "control_acts (snd (while_pressed t ?b)) = []" "same_taps ?b (fst (while_pressed t ?b))"
    using while_pressed_quiet [of t ?b] by simp_all
  have "counted (fst (while_pressed t ?b)) t ps" by (rule counted_same [OF c w(2)])
  then show ?thesis
    using w assms unfolding s
    by (cases down) (auto simp: tracks_def counted_def same_taps_def press_edge_def)
qed

lemma tracks_released:
  assumes "tracks b now (Some s) ps" "now \<le> t" "(t - s) div 1000 < 2 ^ 31"
  shows "tracks (fst (button_step (False, t) b)) t None (ps @ [(s, t)]) \<and>
    (wipes (control_acts (snd (button_step (False, t) b))) \<longrightarrow> t - s \<ge> 10000000 \<or> five_taps (ps @ [(s, t)]))"
proof -
  have b: "prev_pressed b" "press_start b = s" "s \<le> t" "b_cfg b = factory_cfg" "counted b now ps"
    using assms(1,2) by (auto simp: tracks_def)
  have st: "button_step (False, t) b = ((fst (on_release t b))\<lparr>prev_pressed := False\<rparr>, snd (on_release t b))"
    by (simp add: button_step_def b(1) split: prod.split)
  let ?b = "b\<lparr>last_edge_us := t\<rparr>"
  have cb: "counted ?b now ps" using b(5) by (simp add: counted_def)
  have cfg: "b_cfg ?b = factory_cfg" using b(4) by simp
  have h: "unat (held_ms t ?b) = nat ((t - s) div 1000)" using held_small [of ?b t] assms(3) b by simp
  have d: "held_ms t ?b < DEBOUNCE_MS \<longleftrightarrow> (t - s) div 1000 < 30"
    using b(3) by (simp add: word_less_nat_alt h DEBOUNCE_MS_def nat_less_iff pos_imp_zdiv_nonneg_iff)
  have later: "counted ?b t (ps @ [(s, t)])" by (rule counted_later [OF cb assms(2) subseq_prefix])
  have tr: "b_cfg (fst (on_release t b)) = factory_cfg \<and> counted (fst (on_release t b)) t (ps @ [(s, t)])"
  proof (cases "(t - s) div 1000 < 30 \<or> long_reported b")
    case True
    then show ?thesis using later cfg d by (auto simp: on_release_def Let_def)
  next
    case False
    then have "t - s \<ge> 30000" using ms_bounds(2) [of "t - s"] by simp
    from count_tap_counted [OF cb assms(2) this cfg] False d show ?thesis
      by (simp add: on_release_def Let_def case_prod_beta)
  qed
  have "t - s \<ge> 10000000 \<or> five_taps (ps @ [(s, t)])" if "wipes (control_acts (snd (on_release t b)))"
  proof (cases "(t - s) div 1000 \<ge> 10000")
    case True
    then have "t - s \<ge> 10000000" by (rule ms_bounds)
    then show ?thesis ..
  next
    case False
    then have w: "(t - s) div 1000 \<ge> 30" "wipes (control_acts (snd (count_tap t ?b)))"
      using that release_acts [of b t] assms(3) b by (auto simp: gesture_wipes split: if_splits)
    have "t - s \<ge> 30000" by (rule ms_bounds) (use w(1) in simp)
    from count_tap_counted(2) [OF cb assms(2) this cfg w(2)] show ?thesis ..
  qed
  then show ?thesis using tr by (simp add: st tracks_def counted_def)
qed

lemma tracks_idle:
  assumes "tracks b now None ps" "now \<le> t"
  shows "snd (button_step (False, t) b) = [] \<and> tracks (fst (button_step (False, t) b)) t None ps"
  using assms counted_later [of b now ps t ps] by (auto simp: tracks_def button_step_def counted_def)

lemma wipe_needs_gesture:
  assumes "tracks b now down ps" "sorted (now # map snd ss)" "\<forall>(s, r) \<in> set (presses down ss). (r - s) div 1000 < 2 ^ 31"
    and "wipes (control_acts (snd (button_run ss b)))"
  shows "(\<exists>(s, r) \<in> set (presses down ss). r - s \<ge> 10000000) \<or> five_taps (ps @ presses down ss)"
  using assms
proof (induction ss arbitrary: b now down ps)
  case Nil
  then show ?case by simp
next
  case (Cons x ss)
  obtain p t where x: "x = (p, t)" by (cases x)
  have t: "now \<le> t" "sorted (t # map snd ss)" using Cons.prems(2) by (simp_all add: x)
  obtain b1 es1 where s: "button_step (p, t) b = (b1, es1)" by (cases "button_step (p, t) b")
  have w: "wipes (control_acts es1) \<or> wipes (control_acts (snd (button_run ss b1)))"
    using Cons.prems(4) by (simp add: x s split: prod.splits)
  show ?case
  proof (cases p)
    case True
    from tracks_pressed [OF Cons.prems(1) t(1)] s True
    have q: "control_acts es1 = []" "tracks b1 t (Some (case down of None \<Rightarrow> t | Some s \<Rightarrow> s)) ps" by simp_all
    have "presses down (x # ss) = presses (Some (case down of None \<Rightarrow> t | Some s \<Rightarrow> s)) ss"
      using True by (cases down) (simp_all add: x)
    then show ?thesis using Cons.IH [OF q(2) t(2)] Cons.prems(3) w q(1) by simp
  next
    case False
    show ?thesis
    proof (cases down)
      case None
      with tracks_idle [of b now ps t] Cons.prems(1) t(1) s False have q: "es1 = []" "tracks b1 t None ps" by simp_all
      then show ?thesis using Cons.IH [OF q(2) t(2)] Cons.prems(3) w None False by (simp add: x)
    next
      case (Some st)
      have d: "(t - st) div 1000 < 2 ^ 31" using Cons.prems(3) Some False by (simp add: x)
      from tracks_released [of b now st ps t] Cons.prems(1) Some t(1) d s False
      have q: "tracks b1 t None (ps @ [(st, t)])" "wipes (control_acts es1) \<Longrightarrow> t - st \<ge> 10000000 \<or> five_taps (ps @ [(st, t)])"
        by simp_all
      have e: "presses down (x # ss) = (st, t) # presses None ss" using Some False by (simp add: x)
      show ?thesis
      proof (cases "wipes (control_acts es1)")
        case True
        from q(2) [OF True] show ?thesis unfolding e using five_taps_mono [of "ps @ [(st, t)]" "presses None ss"] by auto
      next
        case False
        then have "wipes (control_acts (snd (button_run ss b1)))" using w by simp
        with Cons.IH [OF q(1) t(2)] Cons.prems(3) show ?thesis unfolding e by auto
      qed
    qed
  qed
qed

text \<open>
  C14: No accidental factory reset: however the pin is sampled, the button requests a factory reset only when one
  press lasted at least 10 s or five presses of at least 30 ms each were released within 801 ms.
\<close>

theorem factory_reset_only_by_gesture:
  assumes "sk_button_init (Some \<lparr> active_low = True, long_press_ms = 0, multi_tap_window_ms = 0, multi_tap_threshold = 0 \<rparr>)
      cb ESP_OK True = (ESP_OK, Some b)"
    and "sorted (map snd ss)" "\<forall>(s, r) \<in> set (presses None ss). (r - s) div 1000 < 2 ^ 31"
    and "wipe_event r \<in> set (concat (map fst (control_acts (snd (button_run ss b)))))"
  shows "(\<exists>(s, r) \<in> set (presses None ss). r - s \<ge> 10000000) \<or>
    (\<exists>qs. subseq qs (presses None ss) \<and> length qs = 5 \<and> (\<forall>(s, r) \<in> set qs. r - s \<ge> 30000) \<and>
       snd (last qs) - snd (hd qs) < 801000)"
proof -
  have b: "tracks b now None []" for now
    using assms(1) by (auto simp: sk_button_init_def tracks_def counted_def factory_cfg_def)
  have w: "wipes (control_acts (snd (button_run ss b)))" using assms(4) by (auto simp: wipes_def)
  obtain now where n: "sorted (now # map snd ss)"
  proof (cases ss)
    case Nil
    then show ?thesis using that [of 0] by simp
  next
    case (Cons x xs)
    then show ?thesis using that [of "snd x"] assms(2) by simp
  qed
  from wipe_needs_gesture [OF b n assms(3) w] show ?thesis by (simp add: five_taps_def)
qed

section \<open>Concrete runs\<close>

definition main_button :: button where
  "main_button = the (snd (sk_button_init (Some \<lparr> active_low = True, long_press_ms = 0, multi_tap_window_ms = 0,
     multi_tap_threshold = 0 \<rparr>) False ESP_OK True))"

lemma press_taken_for_its_gesture_witness:
  "control_acts (snd (button_run [(True, 1000), (True, 3100000), (True, 6100000)] main_button)) = [] \<and>
   control_acts (snd (button_run [(True, 1000), (True, 3100000), (True, 6100000), (False, 7200000)] main_button)) =
     [([shutdown_event ''button_long_press'' 300], Some 300)]"
  using press_taken_for_its_gesture [of main_button 1000 7200000 "[3100000, 6100000]"]
  by (simp add: main_button_def sk_button_init_def button_defaults_def gesture_def)

text \<open>A tap of 50 ms that is released at the given instant.\<close>

definition tap :: "int \<Rightarrow> (bool \<times> int) list" where
  "tap r = [(True, r - 50000), (True, r - 25000), (False, r)]"

definition five_quick :: "(bool \<times> int) list" where
  "five_quick = concat (map tap [650000, 750000, 850000, 950000, 1050000])"

lemma five_quick_wipes: "control_acts (snd (button_run five_quick main_button)) =
    replicate 5 ([Publish ''control.short-press'' None], None) @ [([wipe_event ''multi_tap''], Some 500)]"
  by code_simp

lemma factory_reset_only_by_gesture_witness:
  "(\<exists>(s, r) \<in> set (presses None five_quick). r - s \<ge> 10000000) \<or>
   (\<exists>qs. subseq qs (presses None five_quick) \<and> length qs = 5 \<and> (\<forall>(s, r) \<in> set qs. r - s \<ge> 30000) \<and>
      snd (last qs) - snd (hd qs) < 801000)"
proof (rule factory_reset_only_by_gesture [where b = main_button and cb = False and r = "''multi_tap''"])
  show "sk_button_init (Some \<lparr> active_low = True, long_press_ms = 0, multi_tap_window_ms = 0, multi_tap_threshold = 0 \<rparr>)
      False ESP_OK True = (ESP_OK, Some main_button)"
    by (simp add: main_button_def sk_button_init_def)
  show "sorted (map snd five_quick)" by code_simp
  show "\<forall>(s, r) \<in> set (presses None five_quick). (r - s) div 1000 < 2 ^ 31" by code_simp
  show "wipe_event ''multi_tap'' \<in> set (concat (map fst (control_acts (snd (button_run five_quick main_button)))))"
    unfolding five_quick_wipes by simp
qed

text \<open>
  The window of the multi-tap counter opens with the first tap and does not move: after a stray tap, five quick
  taps, which alone request the factory reset, released within 400 ms, are not recognised.
\<close>

theorem stray_tap_hides_five_taps:
  "wipe_event ''multi_tap'' \<in> set (concat (map fst (control_acts (snd (button_run five_quick main_button))))) \<and>
   control_acts (snd (button_run (tap 50000 @ five_quick) main_button)) =
     replicate 6 ([Publish ''control.short-press'' None], None)"
proof -
  have "control_acts (snd (button_run (tap 50000 @ five_quick) main_button)) =
      replicate 6 ([Publish ''control.short-press'' None], None)"
    by code_simp
  then show ?thesis unfolding five_quick_wipes by simp
qed

end
