(* ===== verification/SkPretty.thy ===== *)
theory SkPretty
  imports SkCli
begin

text \<open>
  The pretty printer of the human mode, \<open>pp_render\<close> and its helpers in \<open>sk_core/src/sk_cli.c\<close>: it prints the JSON
  text of an answer on several lines. The loops of the source run over the text without a bound on their rounds,
  so the definitions take fuel, \<open>None\<close> is out of fuel, and returning is that some fuel suffices.
\<close>

section \<open>Model\<close>

definition pp_space :: "char \<Rightarrow> bool" where
  "pp_space c = (c = CHR '' '' \<or> c = CHR 0x09 \<or> c = CHR 0x0A \<or> c = CHR 0x0D)"

definition pp_skip_ws :: "string \<Rightarrow> string" where
  "pp_skip_ws p = dropWhile pp_space p"

definition pp_indent :: "nat \<Rightarrow> string" where
  "pp_indent depth = concat (replicate depth ''  '')"

text \<open>\<open>*p == c\<close>, and the step over that character.\<close>

definition at_char :: "char \<Rightarrow> string \<Rightarrow> bool" where
  "at_char c p = (case p of [] \<Rightarrow> False | x # xs \<Rightarrow> x = c)"

definition past_char :: "char \<Rightarrow> string \<Rightarrow> string" where
  "past_char c p = (if at_char c p then tl p else p)"

text \<open>The scan for the closing quote: what is before it, and the text from there on.\<close>

fun pp_string_end :: "string \<Rightarrow> string \<times> string" where
  "pp_string_end [] = ([], [])"
| "pp_string_end [c] = (if c = CHR 0x22 then ([], [c]) else ([c], []))"
| "pp_string_end (c # d # p) =
     (if c = CHR 0x22 then ([], c # d # p)
      else if c = CHR 0x5C then (case pp_string_end p of (s, r) \<Rightarrow> (c # d # s, r))
      else (case pp_string_end (d # p) of (s, r) \<Rightarrow> (c # s, r)))"

definition pp_emit_string :: "string \<Rightarrow> string \<times> string" where
  "pp_emit_string p =
     (if \<not> at_char (CHR 0x22) p then ([], p)
      else (case pp_string_end (tl p) of (s, r) \<Rightarrow> (s, past_char (CHR 0x22) r)))"

definition pp_stop :: "char \<Rightarrow> bool" where
  "pp_stop c = (c = CHR '','' \<or> c = CHR ''}'' \<or> c = CHR '']'' \<or> pp_space c)"

definition pp_emit_primitive :: "string \<Rightarrow> string \<times> string" where
  "pp_emit_primitive p = (takeWhile (\<lambda>c. \<not> pp_stop c) p, dropWhile (\<lambda>c. \<not> pp_stop c) p)"

text \<open>What is written, and the text left.\<close>

type_synonym pp_res = "(string \<times> string) option"

text \<open>
  The mutually recursive functions and the two loops: a call is a job, each function is written over the function
  \<open>f\<close> that answers the calls it makes, and \<open>pp\<close> ties them, one unit of fuel per level of call or round of a loop.
\<close>

datatype pp_job = PpValue string nat | PpObject string nat | PpMembers string nat | PpArray string nat
  | PpElements bool string nat

definition pp_emit_value :: "(pp_job \<Rightarrow> pp_res) \<Rightarrow> string \<Rightarrow> nat \<Rightarrow> pp_res" where
  "pp_emit_value f p depth =
     (let p = pp_skip_ws p in
      if at_char (CHR ''{'') p then f (PpObject p (depth + 1))
      else if at_char (CHR ''['') p then f (PpArray p depth)
      else if at_char (CHR 0x22) p then Some (pp_emit_string p)
      else Some (pp_emit_primitive p))"

definition pp_emit_object_members :: "(pp_job \<Rightarrow> pp_res) \<Rightarrow> string \<Rightarrow> nat \<Rightarrow> pp_res" where
  "pp_emit_object_members f p depth =
     (let p = pp_skip_ws (tl p) in
      if at_char (CHR ''}'') p then Some (''{}'', tl p)
      else (case f (PpMembers p depth) of None \<Rightarrow> None | Some (w, p) \<Rightarrow> Some (w, past_char (CHR ''}'') p)))"

definition pp_members_loop :: "(pp_job \<Rightarrow> pp_res) \<Rightarrow> string \<Rightarrow> nat \<Rightarrow> pp_res" where
  "pp_members_loop f p depth =
     (if p = [] \<or> at_char (CHR ''}'') p then Some ([], p)
      else (case pp_emit_string (pp_skip_ws p) of (key, p) \<Rightarrow>
        (let p = pp_skip_ws (past_char (CHR '':'') (pp_skip_ws p)) in
         case f (if at_char (CHR ''{'') p then PpObject p (depth + 1) else PpValue p depth) of
           None \<Rightarrow> None
         | Some (v, p) \<Rightarrow>
             (case f (PpMembers (past_char (CHR '','') (pp_skip_ws p)) depth) of
                None \<Rightarrow> None
              | Some (w, p) \<Rightarrow> Some ([CHR 0x0A] @ pp_indent depth @ key @ '': '' @ v @ w, p)))))"

definition pp_emit_array :: "(pp_job \<Rightarrow> pp_res) \<Rightarrow> string \<Rightarrow> nat \<Rightarrow> pp_res" where
  "pp_emit_array f p depth =
     (case f (PpElements True (tl p) depth) of
        None \<Rightarrow> None | Some (w, p) \<Rightarrow> Some (''['' @ w @ '']'', past_char (CHR '']'') p))"

definition pp_elements_loop :: "(pp_job \<Rightarrow> pp_res) \<Rightarrow> bool \<Rightarrow> string \<Rightarrow> nat \<Rightarrow> pp_res" where
  "pp_elements_loop f first p depth =
     (if p = [] \<or> at_char (CHR '']'') p then Some ([], p)
      else
        (let p = pp_skip_ws p in
         if at_char (CHR '']'') p then Some ([], p)
         else (case f (PpValue p depth) of
             None \<Rightarrow> None
           | Some (v, p) \<Rightarrow>
               (case f (PpElements False (past_char (CHR '','') (pp_skip_ws p)) depth) of
                  None \<Rightarrow> None
                | Some (w, p) \<Rightarrow> Some ((if first then [] else '', '') @ v @ w, p)))))"

definition pp_call :: "(pp_job \<Rightarrow> pp_res) \<Rightarrow> pp_job \<Rightarrow> pp_res" where
  "pp_call f j = (case j of
      PpValue p depth \<Rightarrow> pp_emit_value f p depth
    | PpObject p depth \<Rightarrow> pp_emit_object_members f p depth
    | PpMembers p depth \<Rightarrow> pp_members_loop f p depth
    | PpArray p depth \<Rightarrow> pp_emit_array f p depth
    | PpElements first p depth \<Rightarrow> pp_elements_loop f first p depth)"

primrec pp :: "nat \<Rightarrow> pp_job \<Rightarrow> pp_res" where
  "pp 0 j = None"
| "pp (Suc n) j = pp_call (pp n) j"

definition pp_render :: "nat \<Rightarrow> string \<Rightarrow> string option" where
  "pp_render n json =
     (let p = pp_skip_ws json in
      case pp n (if at_char (CHR ''{'') p then PpObject p 1 else PpValue p 0) of
        None \<Rightarrow> None | Some (w, r) \<Rightarrow> Some (w @ [CHR 0x0A]))"

text \<open>The answer of \<open>sk_cli_ok\<close> in human mode.\<close>

definition cli_ok_human :: "nat \<Rightarrow> string option \<Rightarrow> string option" where
  "cli_ok_human n data =
     (case data of None \<Rightarrow> Some (''ok.'' @ [CHR 0x0A])
      | Some d \<Rightarrow> map_option (\<lambda>w. ''ok.'' @ w) (pp_render n d))"

section \<open>More fuel\<close>

lemmas pp_bodies = pp_emit_value_def pp_emit_object_members_def pp_members_loop_def pp_emit_array_def pp_elements_loop_def

lemma pp_call_mono:
  assumes f: "\<And>j r. f j = Some r \<Longrightarrow> g j = Some r"
  shows "pp_call f j = Some r \<Longrightarrow> pp_call g j = Some r"
proof (cases j)
  case (PpMembers p d)
  assume c: "pp_call f j = Some r"
  obtain key p1 where k: "pp_emit_string (pp_skip_ws p) = (key, p1)" by fastforce
  define J where "J = (let p = pp_skip_ws (past_char (CHR '':'') (pp_skip_ws p1)) in
      if at_char (CHR ''{'') p then PpObject p (d + 1) else PpValue p d)"
  have body: "pp_call h j = (if p = [] \<or> at_char (CHR ''}'') p then Some ([], p)
      else (case h J of None \<Rightarrow> None | Some (v, p) \<Rightarrow>
        (case h (PpMembers (past_char (CHR '','') (pp_skip_ws p)) d) of None \<Rightarrow> None
         | Some (w, p) \<Rightarrow> Some ([CHR 0x0A] @ pp_indent d @ key @ '': '' @ v @ w, p))))" for h
    by (simp add: PpMembers pp_call_def pp_members_loop_def k J_def Let_def)
  show ?thesis
  proof (cases "p = [] \<or> at_char (CHR ''}'') p")
    case True
    then show ?thesis using c by (simp only: body if_True)
  next
    case False
    then obtain v p2 w p3 where "f J = Some (v, p2)" "f (PpMembers (past_char (CHR '','') (pp_skip_ws p2)) d) = Some (w, p3)"
        and r: "r = ([CHR 0x0A] @ pp_indent d @ key @ '': '' @ v @ w, p3)"
      using c by (auto simp: body split: option.split_asm)
    from f [OF this(1)] f [OF this(2)] show ?thesis using False r by (simp add: body)
  qed
next
  case (PpElements first p d)
  assume c: "pp_call f j = Some r"
  have body: "pp_call h j = (if p = [] \<or> at_char (CHR '']'') p \<or> at_char (CHR '']'') (pp_skip_ws p)
      then Some ([], if p = [] \<or> at_char (CHR '']'') p then p else pp_skip_ws p)
      else (case h (PpValue (pp_skip_ws p) d) of None \<Rightarrow> None | Some (v, p) \<Rightarrow>
        (case h (PpElements False (past_char (CHR '','') (pp_skip_ws p)) d) of None \<Rightarrow> None
         | Some (w, p) \<Rightarrow> Some ((if first then [] else '', '') @ v @ w, p))))" for h
    by (simp add: PpElements pp_call_def pp_elements_loop_def Let_def)
  show ?thesis
  proof (cases "p = [] \<or> at_char (CHR '']'') p \<or> at_char (CHR '']'') (pp_skip_ws p)")
    case True
    then show ?thesis using c by (simp only: body if_True)
  next
    case False
    then obtain v p2 w p3 where "f (PpValue (pp_skip_ws p) d) = Some (v, p2)"
        "f (PpElements False (past_char (CHR '','') (pp_skip_ws p2)) d) = Some (w, p3)"
        and r: "r = ((if first then [] else '', '') @ v @ w, p3)"
      using c by (auto simp: body split: option.split_asm)
    from f [OF this(1)] f [OF this(2)] show ?thesis using False r by (simp add: body)
  qed
qed (auto simp: pp_call_def pp_emit_value_def pp_emit_object_members_def pp_emit_array_def Let_def case_prod_beta
    split: option.split_asm if_split_asm dest: f)

lemma pp_mono: "pp n j = Some r \<Longrightarrow> n \<le> m \<Longrightarrow> pp m j = Some r"
proof (induction n arbitrary: j r m)
  case (Suc n)
  obtain k where m: "m = Suc k" "n \<le> k" using Suc.prems(2) by (cases m) auto
  have "pp_call (pp n) j = Some r" using Suc.prems(1) by simp
  then have "pp_call (pp k) j = Some r" by (rule pp_call_mono [rotated]) (erule Suc.IH [OF _ m(2)])
  then show ?case by (simp add: m)
qed simp

definition pp_ret :: "pp_job \<Rightarrow> string \<times> string \<Rightarrow> bool" where
  "pp_ret j r \<longleftrightarrow> (\<exists>n. pp n j = Some r)"

lemma pp_ret_fun: "pp_ret j r \<Longrightarrow> pp n j = Some r' \<Longrightarrow> r' = r"
proof -
  assume "pp_ret j r" and n: "pp n j = Some r'"
  then obtain m where m: "pp m j = Some r" by (auto simp: pp_ret_def)
  have "pp (max n m) j = Some r" "pp (max n m) j = Some r'" using pp_mono [OF m, of "max n m"] pp_mono [OF n, of "max n m"] by simp_all
  then show ?thesis by simp
qed

end
