(* ===== verification/SkPrettyProps.thy ===== *)
theory SkPrettyProps
  imports SkPretty SkBaseline
begin

text \<open>
  The pretty printer against the layout it is to produce: on the text of a JSON tree it returns the layout, and on
  a text that is no JSON it can run forever, which an unescaped Wi-Fi name brings about.
\<close>

section \<open>JSON texts and their layout\<close>

text \<open>
  A JSON text as it is written: strings with their escapes, and the white space of every gap between two tokens. A
  list item has a gap before and behind it; a member one before its name, on both sides of the colon and behind the
  value. The first gap of a list or an object is that behind its bracket.
\<close>

datatype jtree = JPrim string | JText string
  | JList string "(string \<times> jtree \<times> string) list"
  | JRec string "(string \<times> string \<times> string \<times> string \<times> jtree \<times> string) list"

fun jt_text :: "jtree \<Rightarrow> string" where
  "jt_text (JPrim s) = s"
| "jt_text (JText s) = jq s"
| "jt_text (JList w ts) = ''['' @ w @ comma_join (map (\<lambda>(a, t, z). a @ jt_text t @ z) ts) @ '']''"
| "jt_text (JRec w ms) = ''{'' @ w @
     comma_join (map (\<lambda>(a, k, b, c, t, z). a @ jq k @ b @ '':'' @ c @ jt_text t @ z) ms) @ ''}''"

text \<open>An inner object puts every member on a line of its own, two blanks deeper; lists stay on the line.\<close>

fun list_join :: "string list \<Rightarrow> string" where
  "list_join [] = []"
| "list_join (x # xs) = x @ concat (map (\<lambda>y. '', '' @ y) xs)"

fun jt_layout :: "nat \<Rightarrow> jtree \<Rightarrow> string" where
  "jt_layout d (JPrim s) = s"
| "jt_layout d (JText s) = s"
| "jt_layout d (JList w ts) = ''['' @ list_join (map (\<lambda>(a, t, z). jt_layout d t) ts) @ '']''"
| "jt_layout d (JRec w ms) = (if ms = [] then ''{}''
     else concat (map (\<lambda>(a, k, b, c, t, z). [CHR 0x0A] @ pp_indent (d + 1) @ k @ '': '' @ jt_layout (d + 1) t) ms))"

definition plain_text :: "string \<Rightarrow> bool" where
  "plain_text s \<longleftrightarrow> CHR 0x22 \<notin> set s \<and> CHR 0x5C \<notin> set s"

text \<open>What may stand between two quotes: a backslash takes the character behind it along.\<close>

fun str_body :: "string \<Rightarrow> bool" where
  "str_body [] = True"
| "str_body [c] = (c \<noteq> CHR 0x22 \<and> c \<noteq> CHR 0x5C)"
| "str_body (c # d # p) = (if c = CHR 0x22 then False else if c = CHR 0x5C then str_body p else str_body (d # p))"

lemma plain_body: "plain_text s \<Longrightarrow> str_body s"
  by (induction s rule: str_body.induct) (auto simp: plain_text_def)

definition prim_text :: "string \<Rightarrow> bool" where
  "prim_text s \<longleftrightarrow> s \<noteq> [] \<and> (\<forall>c \<in> set s. \<not> pp_stop c \<and> c \<noteq> CHR ''{'' \<and> c \<noteq> CHR ''['' \<and> c \<noteq> CHR 0x22)"

definition gap :: "string \<Rightarrow> bool" where
  "gap w \<longleftrightarrow> (\<forall>c \<in> set w. pp_space c)"

fun jt_ok :: "jtree \<Rightarrow> bool" where
  "jt_ok (JPrim s) = prim_text s"
| "jt_ok (JText s) = str_body s"
| "jt_ok (JList w ts) = (gap w \<and> (\<forall>(a, t, z) \<in> set ts. gap a \<and> jt_ok t \<and> gap z))"
| "jt_ok (JRec w ms) = (gap w \<and> (\<forall>(a, k, b, c, t, z) \<in> set ms. gap a \<and> str_body k \<and> gap b \<and> gap c \<and> jt_ok t \<and> gap z))"

section \<open>Steps of the printer\<close>

lemma pp_ret_call: "pp_call (pp n) j = Some r \<Longrightarrow> pp_ret j r"
  unfolding pp_ret_def by (rule exI [of _ "Suc n"]) simp

lemma pp_ret_both:
  assumes "pp_ret i r" "pp_ret j w"
  shows "\<exists>n. pp n i = Some r \<and> pp n j = Some w"
proof -
  obtain n m where "pp n i = Some r" "pp m j = Some w" using assms by (auto simp: pp_ret_def)
  then show ?thesis using pp_mono [of n i r "max n m"] pp_mono [of m j w "max n m"] by (intro exI [of _ "max n m"]) simp
qed

lemma skip_ws_id: "\<not> pp_space c \<Longrightarrow> pp_skip_ws (c # p) = c # p"
  by (simp add: pp_skip_ws_def)

lemma skip_gap [simp]: "gap w \<Longrightarrow> pp_skip_ws (w @ p) = pp_skip_ws p"
  by (simp add: pp_skip_ws_def gap_def dropWhile_append2)

lemma gap_simps [simp]: "gap []" "gap (v @ w) = (gap v \<and> gap w)"
  by (auto simp: gap_def)

lemma gap_no_head: "gap w \<Longrightarrow> \<not> pp_space e \<Longrightarrow> c \<noteq> e \<Longrightarrow> \<not> at_char e (w @ c # p)"
  by (cases w) (auto simp: gap_def at_char_def)

lemma string_end_quote: "pp_string_end (CHR 0x22 # r) = ([], CHR 0x22 # r)"
  by (cases r) simp_all

lemma string_end_body: "str_body s \<Longrightarrow> pp_string_end (s @ CHR 0x22 # r) = (s, CHR 0x22 # r)"
  by (induction s rule: str_body.induct) (auto simp: string_end_quote split: if_splits)

lemma emit_string_body: "str_body s \<Longrightarrow> pp_emit_string (jq s @ r) = (s, r)"
  by (simp add: pp_emit_string_def jq_def q_def at_char_def past_char_def string_end_body)

definition ends :: "string \<Rightarrow> bool" where
  "ends r \<longleftrightarrow> r = [] \<or> pp_stop (hd r)"

lemma emit_primitive_prim:
  assumes "prim_text s" "ends r"
  shows "pp_emit_primitive (s @ r) = (s, r)"
proof -
  have "takeWhile (\<lambda>c. \<not> pp_stop c) (s @ r) = s @ takeWhile (\<lambda>c. \<not> pp_stop c) r"
    "dropWhile (\<lambda>c. \<not> pp_stop c) (s @ r) = dropWhile (\<lambda>c. \<not> pp_stop c) r"
    using assms(1) by (simp_all add: prim_text_def takeWhile_append2 dropWhile_append2)
  then show ?thesis using assms(2) by (cases r) (auto simp: pp_emit_primitive_def ends_def)
qed

text \<open>The first character of a text tells its kind.\<close>

lemma stop_chars: "pp_stop (CHR '','')" "pp_stop (CHR ''}'')" "pp_stop (CHR '']'')" "\<not> pp_stop (CHR ''{'')" "\<not> pp_stop (CHR ''['')"
    "\<not> pp_stop (CHR 0x22)" "\<not> pp_space (CHR '','')" "\<not> pp_space (CHR ''}'')" "\<not> pp_space (CHR '']'')" "\<not> pp_space (CHR '':'')"
    "\<not> pp_space (CHR 0x22)" "\<not> pp_space (CHR ''{'')" "\<not> pp_space (CHR ''['')"
  by (simp_all add: pp_stop_def pp_space_def)

lemma stop_not_space: "\<not> pp_stop c \<Longrightarrow> \<not> pp_space c \<and> c \<noteq> CHR ''}'' \<and> c \<noteq> CHR '']'' \<and> c \<noteq> CHR '',''"
  by (auto simp: pp_stop_def)

lemma text_head: "jt_ok t \<Longrightarrow> \<exists>c cs. jt_text t = c # cs \<and> \<not> pp_stop c"
proof (cases t)
  case (JPrim s)
  assume "jt_ok t"
  then show ?thesis by (cases s) (auto simp: JPrim prim_text_def)
qed (auto simp: jq_def q_def stop_chars)

section \<open>The printer lays trees out\<close>

lemma ret_prim: "prim_text s \<Longrightarrow> ends r \<Longrightarrow> pp_ret (PpValue (s @ r) d) (s, r)"
proof -
  assume s: "prim_text s" and r: "ends r"
  obtain c cs where cs: "s = c # cs" "\<not> pp_stop c" "c \<noteq> CHR ''{''" "c \<noteq> CHR ''[''" "c \<noteq> CHR 0x22"
    using s by (cases s) (auto simp: prim_text_def)
  have "pp_call (pp 0) (PpValue (s @ r) d) = Some (pp_emit_primitive (s @ r))"
    using cs stop_not_space [of c] by (simp add: pp_call_def pp_emit_value_def skip_ws_id at_char_def)
  then show ?thesis using pp_ret_call emit_primitive_prim [OF s r] by fastforce
qed

lemma ret_text: "str_body s \<Longrightarrow> pp_ret (PpValue (jq s @ r) d) (s, r)"
proof -
  assume s: "str_body s"
  have "pp_call (pp 0) (PpValue (jq s @ r) d) = Some (pp_emit_string (jq s @ r))"
    by (simp add: pp_call_def pp_emit_value_def skip_ws_id at_char_def jq_def q_def stop_chars)
  then show ?thesis using pp_ret_call emit_string_body [OF s] by fastforce
qed

lemma ret_object_value: "pp_ret (PpObject (CHR ''{'' # p) (d + 1)) r \<Longrightarrow> pp_ret (PpValue (CHR ''{'' # p) d) r"
proof -
  assume "pp_ret (PpObject (CHR ''{'' # p) (d + 1)) r"
  then obtain n where "pp n (PpObject (CHR ''{'' # p) (d + 1)) = Some r" by (auto simp: pp_ret_def)
  then show ?thesis
    by (intro pp_ret_call [of n]) (simp add: pp_call_def pp_emit_value_def skip_ws_id at_char_def stop_chars)
qed

lemma ret_list_value:
  assumes "pp_ret (PpElements True p d) (w, CHR '']'' # r)"
  shows "pp_ret (PpValue (CHR ''['' # p) d) (''['' @ w @ '']'', r)"
proof -
  obtain n where n: "pp n (PpElements True p d) = Some (w, CHR '']'' # r)" using assms by (auto simp: pp_ret_def)
  have "pp_call (pp n) (PpArray (CHR ''['' # p) d) = Some (''['' @ w @ '']'', r)"
    using n by (simp add: pp_call_def pp_emit_array_def past_char_def at_char_def)
  then have "pp (Suc n) (PpArray (CHR ''['' # p) d) = Some (''['' @ w @ '']'', r)" by simp
  then show ?thesis
    by (intro pp_ret_call [of "Suc n"]) (simp add: pp_call_def pp_emit_value_def skip_ws_id at_char_def stop_chars del: pp.simps)
qed

text \<open>The job of a member's value: the loop looks at its first character.\<close>

definition value_job :: "string \<Rightarrow> nat \<Rightarrow> pp_job" where
  "value_job p d = (if at_char (CHR ''{'') p then PpObject p (d + 1) else PpValue p d)"

lemma members_step:
  assumes "gap a" "str_body k" "gap b" "gap w" and c: "\<not> pp_space c"
  shows "pp_call f (PpMembers (a @ jq k @ b @ CHR '':'' # w @ c # p) d) =
    (case f (value_job (c # p) d) of None \<Rightarrow> None
     | Some (v, p) \<Rightarrow> (case f (PpMembers (past_char (CHR '','') (pp_skip_ws p)) d) of None \<Rightarrow> None
       | Some (w, p) \<Rightarrow> Some ([CHR 0x0A] @ pp_indent d @ k @ '': '' @ v @ w, p)))"
proof -
  have q: "jq k @ x = CHR 0x22 # k @ CHR 0x22 # x" for x by (simp add: jq_def q_def)
  have "\<not> at_char (CHR ''}'') (a @ jq k @ x)" "a @ jq k @ x \<noteq> []" for x
    using gap_no_head [OF assms(1), of "CHR ''}''" "CHR 0x22"] by (simp_all add: q stop_chars)
  moreover have "pp_skip_ws (a @ jq k @ x) = jq k @ x" for x
    using assms(1) by (simp add: q skip_ws_id stop_chars)
  moreover have "pp_skip_ws (past_char (CHR '':'') (pp_skip_ws (b @ CHR '':'' # w @ c # p))) = c # p"
    using assms(3,4) c by (simp add: skip_ws_id stop_chars past_char_def at_char_def)
  ultimately show ?thesis
    by (simp add: pp_call_def pp_members_loop_def emit_string_body [OF assms(2)] Let_def value_job_def)
qed

lemma members_gap: "gap w \<Longrightarrow> pp_call f (PpMembers (w @ CHR 0x22 # p) d) = pp_call f (PpMembers (CHR 0x22 # p) d)"
  using gap_no_head [of w "CHR ''}''" "CHR 0x22" p] by (simp add: pp_call_def pp_members_loop_def stop_chars at_char_def)

lemma members_end: "pp_ret (PpMembers (CHR ''}'' # r) d) ([], CHR ''}'' # r)"
  by (rule pp_ret_call [of 0]) (simp add: pp_call_def pp_members_loop_def at_char_def)

lemma elements_end: "gap w \<Longrightarrow> pp_ret (PpElements first (w @ CHR '']'' # r) d) ([], CHR '']'' # r)"
  by (rule pp_ret_call [of 0], cases w)
    (auto simp: pp_call_def pp_elements_loop_def at_char_def Let_def pp_skip_ws_def gap_def stop_chars dropWhile_append2)

lemma list_join_Cons: "list_join (x # xs) = x @ (if xs = [] then [] else '', '' @ list_join xs)"
  by (cases xs) simp_all

lemma comma_join_step: "comma_join (x # xs) = x @ (if xs = [] then [] else CHR '','' # comma_join xs)"
  by (cases xs) simp_all

text \<open>What follows an item: the other items behind a comma, then the closing bracket.\<close>

definition item_rest :: "string list \<Rightarrow> char \<Rightarrow> string \<Rightarrow> string" where
  "item_rest xs e r = (if xs = [] then [] else CHR '','' # comma_join xs) @ e # r"

lemma item_rest:
  assumes "e = CHR '']'' \<or> e = CHR ''}''" "gap z"
  shows "ends (z @ item_rest xs e r)" "past_char (CHR '','') (pp_skip_ws (z @ item_rest xs e r)) = comma_join xs @ e # r"
proof -
  show "ends (z @ item_rest xs e r)"
    using assms by (cases z) (auto simp: item_rest_def ends_def pp_stop_def gap_def)
  show "past_char (CHR '','') (pp_skip_ws (z @ item_rest xs e r)) = comma_join xs @ e # r"
    unfolding skip_gap [OF assms(2)] using assms(1)
    by (auto simp: item_rest_def skip_ws_id stop_chars past_char_def at_char_def)
qed

lemma item_rest_eq: "comma_join (x # xs) @ e # r = x @ item_rest xs e r"
  by (simp add: item_rest_def comma_join_step)

definition item_text :: "string \<times> jtree \<times> string \<Rightarrow> string" where
  "item_text = (\<lambda>(a, t, z). a @ jt_text t @ z)"

definition member_text :: "string \<times> string \<times> string \<times> string \<times> jtree \<times> string \<Rightarrow> string" where
  "member_text = (\<lambda>(a, k, b, c, t, z). a @ jq k @ b @ '':'' @ c @ jt_text t @ z)"

definition member_lines :: "nat \<Rightarrow> (string \<times> string \<times> string \<times> string \<times> jtree \<times> string) list \<Rightarrow> string" where
  "member_lines d ms = concat (map (\<lambda>(a, k, b, c, t, z). [CHR 0x0A] @ pp_indent d @ k @ '': '' @ jt_layout d t) ms)"

lemma elements_ret:
  assumes "gap w" "\<forall>(a, t, z) \<in> set ts. gap a \<and> jt_ok t \<and> gap z"
    "\<forall>(a, t, z) \<in> set ts. \<forall>r. ends r \<longrightarrow> pp_ret (PpValue (jt_text t @ r) d) (jt_layout d t, r)"
  shows "pp_ret (PpElements first (w @ comma_join (map item_text ts) @ CHR '']'' # r) d)
    ((if first \<or> ts = [] then [] else '', '') @ list_join (map (\<lambda>(a, t, z). jt_layout d t) ts), CHR '']'' # r)"
  using assms
proof (induction ts arbitrary: first w)
  case Nil
  then show ?case by (simp add: elements_end)
next
  case (Cons i ts)
  obtain a t z where i: "i = (a, t, z)" by (cases i)
  let ?x = "z @ item_rest (map item_text ts) (CHR '']'') r" and ?l = "list_join (map (\<lambda>(a, t, z). jt_layout d t) ts)"
  have g: "gap a" "gap z" "jt_ok t" using Cons.prems(2) by (simp_all add: i)
  note x = item_rest [of "CHR '']''" z "map item_text ts" r, OF disjI1 [OF refl] g(2)]
  obtain c cs where c: "jt_text t = c # cs" "\<not> pp_stop c" using g(3) text_head [of t] by auto
  have one: "pp_ret (PpValue (jt_text t @ ?x) d) (jt_layout d t, ?x)" using Cons.prems(3) x(1) by (simp add: i)
  have two: "pp_ret (PpElements False ([] @ comma_join (map item_text ts) @ CHR '']'' # r) d)
      ((if False \<or> ts = [] then [] else '', '') @ ?l, CHR '']'' # r)"
    using Cons.prems by (intro Cons.IH) simp_all
  obtain n where n: "pp n (PpValue (jt_text t @ ?x) d) = Some (jt_layout d t, ?x)"
      "pp n (PpElements False (comma_join (map item_text ts) @ CHR '']'' # r) d) =
        Some ((if False \<or> ts = [] then [] else '', '') @ ?l, CHR '']'' # r)"
    using pp_ret_both [OF one two] by auto
  have wa: "gap (w @ a)" using Cons.prems(1) g(1) by simp
  have sk: "pp_skip_ws ((w @ a) @ jt_text t @ ?x) = jt_text t @ ?x"
    unfolding skip_gap [OF wa] using c stop_not_space [OF c(2)] by (simp add: skip_ws_id)
  have at: "\<not> at_char (CHR '']'') ((w @ a) @ jt_text t @ ?x)" "\<not> at_char (CHR '']'') (jt_text t @ ?x)"
    using gap_no_head [OF wa, of "CHR '']''" c] gap_no_head [of "[]" "CHR '']''" c] c stop_not_space [OF c(2)]
    by (simp_all add: stop_chars)
  have "pp_call (pp n) (PpElements first ((w @ a) @ jt_text t @ ?x) d) =
      Some ((if first then [] else '', '') @ jt_layout d t @ (if ts = [] then [] else '', '') @ ?l, CHR '']'' # r)"
    using n x(2) at c(1) unfolding pp_call_def pp_job.case pp_elements_loop_def sk Let_def by simp
  moreover have "w @ comma_join (map item_text (i # ts)) @ CHR '']'' # r = (w @ a) @ jt_text t @ ?x"
    using item_rest_eq [of "item_text i" "map item_text ts" "CHR '']''" r] by (simp add: i item_text_def)
  ultimately show ?case using pp_ret_call [of n] by (auto simp: i list_join_Cons simp del: list_join.simps(2))
qed

lemma members_ret:
  assumes "\<forall>(a, k, b, c, t, z) \<in> set ms. gap a \<and> str_body k \<and> gap b \<and> gap c \<and> jt_ok t \<and> gap z"
    "\<forall>(a, k, b, c, t, z) \<in> set ms. \<forall>r. ends r \<longrightarrow> pp_ret (value_job (jt_text t @ r) d) (jt_layout d t, r)"
  shows "pp_ret (PpMembers (comma_join (map member_text ms) @ CHR ''}'' # r) d) (member_lines d ms, CHR ''}'' # r)"
  using assms
proof (induction ms)
  case Nil
  then show ?case by (simp add: members_end member_lines_def)
next
  case (Cons m ms)
  obtain a k b c t z where m: "m = (a, k, b, c, t, z)" by (cases m) auto
  let ?x = "z @ item_rest (map member_text ms) (CHR ''}'') r"
  have g: "gap a" "str_body k" "gap b" "gap c" "jt_ok t" "gap z" using Cons.prems(1) by (simp_all add: m)
  note x = item_rest [of "CHR ''}''" z "map member_text ms" r, OF disjI2 [OF refl] g(6)]
  obtain h hs where h: "jt_text t = h # hs" "\<not> pp_stop h" using g(5) text_head [of t] by auto
  have one: "pp_ret (value_job (jt_text t @ ?x) d) (jt_layout d t, ?x)" using Cons.prems(2) x(1) by (simp add: m)
  have two: "pp_ret (PpMembers (comma_join (map member_text ms) @ CHR ''}'' # r) d) (member_lines d ms, CHR ''}'' # r)"
    using Cons.prems by (intro Cons.IH) simp_all
  obtain n where n: "pp n (value_job (jt_text t @ ?x) d) = Some (jt_layout d t, ?x)"
      "pp n (PpMembers (comma_join (map member_text ms) @ CHR ''}'' # r) d) = Some (member_lines d ms, CHR ''}'' # r)"
    using pp_ret_both [OF one two] by blast
  have "pp_call (pp n) (PpMembers (a @ jq k @ b @ CHR '':'' # c @ jt_text t @ ?x) d) =
      Some ([CHR 0x0A] @ pp_indent d @ k @ '': '' @ jt_layout d t @ member_lines d ms, CHR ''}'' # r)"
    using n x(2) h(1) stop_not_space [OF h(2)] by (simp add: members_step [OF g(1-4)])
  moreover have "comma_join (map member_text (m # ms)) @ CHR ''}'' # r = a @ jq k @ b @ CHR '':'' # c @ jt_text t @ ?x"
    using item_rest_eq [of "member_text m" "map member_text ms" "CHR ''}''" r] by (simp add: m member_text_def)
  ultimately show ?case using pp_ret_call [of n] by (auto simp: m member_lines_def)
qed

lemma value_of_job:
  assumes "jt_ok t" "pp_ret (value_job (jt_text t @ r) d) w"
  shows "pp_ret (PpValue (jt_text t @ r) d) w"
proof -
  obtain c cs where c: "jt_text t = c # cs" using assms(1) text_head [of t] by auto
  show ?thesis
  proof (cases "c = CHR ''{''")
    case True
    then show ?thesis using assms(2) ret_object_value [of "cs @ r" d w] by (simp add: value_job_def at_char_def c)
  next
    case False
    then show ?thesis using assms(2) by (simp add: value_job_def at_char_def c)
  qed
qed

lemma job_of_value: "\<not> at_char (CHR ''{'') p \<Longrightarrow> value_job p d = PpValue p d"
  by (simp add: value_job_def)

text \<open>An object: the gap behind the bracket is skipped, then the members follow or the object ends.\<close>

lemma object_ret:
  assumes "gap w" "\<forall>(a, k, b, c, t, z) \<in> set ms. gap a" "pp_ret (PpMembers (comma_join (map member_text ms) @ CHR ''}'' # r) d) (v, CHR ''}'' # r)"
  shows "pp_ret (PpObject (CHR ''{'' # w @ comma_join (map member_text ms) @ CHR ''}'' # r) d) (if ms = [] then ''{}'' else v, r)"
proof (cases ms)
  case Nil
  then show ?thesis using assms(1)
    by (intro pp_ret_call [of 0]) (simp add: pp_call_def pp_emit_object_members_def skip_ws_id stop_chars at_char_def)
next
  case (Cons m ms')
  obtain a p where g: "gap a" and p: "comma_join (map member_text ms) @ CHR ''}'' # r = a @ CHR 0x22 # p"
    using assms(2) by (cases m) (auto simp: Cons comma_join_step member_text_def jq_def q_def)
  obtain n where n: "pp n (PpMembers (a @ CHR 0x22 # p) d) = Some (v, CHR ''}'' # r)" using assms(3) by (auto simp: pp_ret_def p)
  have "pp n (PpMembers (CHR 0x22 # p) d) = Some (v, CHR ''}'' # r)"
    using n members_gap [OF g] by (cases n) simp_all
  then have "pp_call (pp n) (PpObject (CHR ''{'' # w @ a @ CHR 0x22 # p) d) = Some (v, r)"
    using assms(1) g by (simp add: pp_call_def pp_emit_object_members_def skip_ws_id stop_chars past_char_def at_char_def)
  then show ?thesis unfolding p using pp_ret_call [of n] Cons by simp
qed

lemma tree_laid_out: "jt_ok t \<Longrightarrow> ends r \<Longrightarrow> pp_ret (value_job (jt_text t @ r) d) (jt_layout d t, r)"
proof (induction t arbitrary: d r)
  case (JPrim s)
  then have "\<not> at_char (CHR ''{'') (s @ r)" by (cases s) (auto simp: prim_text_def at_char_def)
  then show ?case using JPrim ret_prim [of s r d] by (simp add: job_of_value)
next
  case (JText s)
  have "\<not> at_char (CHR ''{'') (jq s @ r)" by (simp add: at_char_def jq_def q_def)
  then show ?case using JText ret_text [of s r d] by (simp add: job_of_value)
next
  case (JList w ts)
  have v: "pp_ret (PpValue (jt_text t @ r) d) (jt_layout d t, r)" if "(a, t, z) \<in> set ts" "ends r" for a t z r
  proof (rule value_of_job)
    show "jt_ok t" using JList.prems(1) that by fastforce
    then show "pp_ret (value_job (jt_text t @ r) d) (jt_layout d t, r)"
      using JList.IH [of "(a, t, z)" "(t, z)" t r d] that by simp
  qed
  have "pp_ret (PpElements True (w @ comma_join (map item_text ts) @ CHR '']'' # r) d)
      (list_join (map (\<lambda>(a, t, z). jt_layout d t) ts), CHR '']'' # r)"
    using elements_ret [of w ts d True r] JList.prems v by fastforce
  then show ?case using ret_list_value by (simp add: value_job_def at_char_def item_text_def)
next
  case (JRec w ms)
  have v: "pp_ret (value_job (jt_text t @ r) (d + 1)) (jt_layout (d + 1) t, r)"
    if "(a, k, b, c, t, z) \<in> set ms" "ends r" for a k b c t z r
  proof -
    have "jt_ok t" using JRec.prems(1) that by fastforce
    then show ?thesis
      using JRec.IH [of "(a, k, b, c, t, z)" "(k, b, c, t, z)" "(b, c, t, z)" "(c, t, z)" "(t, z)" t r "d + 1"] that by simp
  qed
  have "pp_ret (PpMembers (comma_join (map member_text ms) @ CHR ''}'' # r) (d + 1)) (member_lines (d + 1) ms, CHR ''}'' # r)"
    using JRec.prems(1) v by (intro members_ret) (simp, fastforce)
  from object_ret [OF _ _ this, of w] have "pp_ret (PpObject (CHR ''{'' # w @ comma_join (map member_text ms) @ CHR ''}'' # r) (d + 1))
      (if ms = [] then ''{}'' else member_lines (d + 1) ms, r)"
    using JRec.prems(1) by fastforce
  then show ?case by (simp add: value_job_def at_char_def member_text_def member_lines_def split: if_splits)
qed

section \<open>Texts on which the printer does not return\<close>

definition pp_stuck :: "pp_job \<Rightarrow> bool" where
  "pp_stuck j \<longleftrightarrow> (\<forall>n. pp n j = None)"

lemma pp_stuckI: "(\<And>n. pp_call (pp n) j = None) \<Longrightarrow> pp_stuck j"
  unfolding pp_stuck_def
proof
  fix n
  assume "\<And>n. pp_call (pp n) j = None"
  then show "pp n j = None" by (cases n) simp_all
qed

text \<open>A closing bracket of a list where the loop over the members looks for a name: no round makes progress.\<close>

lemma stuck_at_bracket: "pp_stuck (PpMembers (CHR '']'' # p) d)"
  unfolding pp_stuck_def
proof
  fix n
  show "pp n (PpMembers (CHR '']'' # p) d) = None"
  proof (induction n)
    case (Suc n)
    have "pp n (PpValue (CHR '']'' # p) d) \<in> {None, Some ([], CHR '']'' # p)}"
      by (cases n) (simp_all add: pp_call_def pp_emit_value_def skip_ws_id stop_chars at_char_def pp_emit_primitive_def)
    then show ?case using Suc
      by (auto simp: pp_call_def pp_members_loop_def skip_ws_id stop_chars at_char_def pp_emit_string_def past_char_def)
  qed simp
qed

lemma members_step_jk:
  assumes "str_body k" "\<not> pp_space c"
  shows "pp_call f (PpMembers (jk k @ c # p) d) =
    (case f (value_job (c # p) d) of None \<Rightarrow> None
     | Some (v, p) \<Rightarrow> (case f (PpMembers (past_char (CHR '','') (pp_skip_ws p)) d) of None \<Rightarrow> None
       | Some (w, p) \<Rightarrow> Some ([CHR 0x0A] @ pp_indent d @ k @ '': '' @ v @ w, p)))"
  using members_step [of "[]" k "[]" "[]" c f p d] assms by (simp add: jk_def jq_def)

lemma stuck_after_member:
  assumes "plain_text k" "jt_ok t" "ends r" "pp_stuck (PpMembers (past_char (CHR '','') (pp_skip_ws r)) d)"
  shows "pp_stuck (PpMembers (jk k @ jt_text t @ r) d)"
proof (rule pp_stuckI)
  fix n
  obtain c cs where c: "jt_text t = c # cs" "\<not> pp_stop c" using assms(2) text_head by blast
  have "pp n (value_job (jt_text t @ r) d) \<in> {None, Some (jt_layout d t, r)}"
    using pp_ret_fun [OF tree_laid_out [OF assms(2,3)]] by (cases "pp n (value_job (jt_text t @ r) d)") auto
  then show "pp_call (pp n) (PpMembers (jk k @ jt_text t @ r) d) = None"
    using assms(4) c(1) stop_not_space [OF c(2)] by (auto simp: members_step_jk [OF plain_body [OF assms(1)]] pp_stuck_def)
qed

lemma stuck_in_member:
  assumes "plain_text k" "pp_stuck (PpObject (CHR ''{'' # p) (d + 1))"
  shows "pp_stuck (PpMembers (jk k @ CHR ''{'' # p) d)"
  using assms(2) by (intro pp_stuckI) (simp add: members_step_jk [OF plain_body [OF assms(1)]] stop_chars value_job_def at_char_def pp_stuck_def)

lemma stuck_in_object:
  assumes "pp_stuck (PpMembers (jk k @ p) d)"
  shows "pp_stuck (PpObject (CHR ''{'' # jk k @ p) d)"
proof (rule pp_stuckI)
  fix n
  have "pp_skip_ws (jk k @ p) = jk k @ p" "\<not> at_char (CHR ''}'') (jk k @ p)"
    by (simp_all add: jk_def q_def skip_ws_id stop_chars at_char_def)
  then show "pp_call (pp n) (PpObject (CHR ''{'' # jk k @ p) d) = None"
    using assms by (simp add: pp_call_def pp_emit_object_members_def pp_stuck_def)
qed

lemma prim_dec: "prim_text (dec_int i)"
proof -
  have d: "\<forall>c \<in> set (dec_nat n). \<not> pp_stop c \<and> c \<noteq> CHR ''{'' \<and> c \<noteq> CHR ''['' \<and> c \<noteq> CHR 0x22" for n
  proof
    fix c assume "c \<in> set (dec_nat n)"
    then have "is_digit c" using dec_nat_digits [of n] by blast
    then show "\<not> pp_stop c \<and> c \<noteq> CHR ''{'' \<and> c \<noteq> CHR ''['' \<and> c \<noteq> CHR 0x22"
      by (auto simp: is_digit_def char_code_def pp_stop_def pp_space_def)
  qed
  show ?thesis using d dec_nat_nonempty by (simp add: prim_text_def dec_int_def stop_chars pp_stop_def pp_space_def)
qed

lemma prim_bool: "prim_text (jbool b)"
  by (simp add: prim_text_def jbool_def pp_stop_def pp_space_def)

lemma prim_null: "prim_text ''null''"
  by (simp add: prim_text_def pp_stop_def pp_space_def)

section \<open>Members in front of the stuck one\<close>

lemma stuck_text: "plain_text k \<Longrightarrow> plain_text s \<Longrightarrow> pp_stuck (PpMembers r d) \<Longrightarrow> pp_stuck (PpMembers (jk k @ jq s @ '','' @ r) d)"
  using stuck_after_member [of k "JText s" "'','' @ r" d]
  by (simp add: plain_body ends_def stop_chars skip_ws_id past_char_def at_char_def)

lemma stuck_prim: "plain_text k \<Longrightarrow> prim_text s \<Longrightarrow> pp_stuck (PpMembers r d) \<Longrightarrow> pp_stuck (PpMembers (jk k @ s @ '','' @ r) d)"
  using stuck_after_member [of k "JPrim s" "'','' @ r" d]
  by (simp add: ends_def stop_chars skip_ws_id past_char_def at_char_def)

lemma stuck_object: "plain_text k \<Longrightarrow> pp_stuck (PpMembers (jk k' @ p) (d + 1)) \<Longrightarrow> pp_stuck (PpMembers (jk k @ ''{'' @ jk k' @ p) d)"
  using stuck_in_member [of k "jk k' @ p" d] stuck_in_object [of k' p "d + 1"] by simp

lemma stuck_name: "plain_text k \<Longrightarrow> plain_text s \<Longrightarrow> pp_stuck (PpMembers (jk k @ jq (s @ [CHR 0x22, CHR '']''] @ x) @ r) d)"
  using stuck_after_member [of k "JText s" "CHR '']'' # x @ [CHR 0x22] @ r" d] stuck_at_bracket
  by (simp add: plain_body ends_def stop_chars skip_ws_id past_char_def at_char_def jq_def q_def)

lemma render_stuck: "pp_stuck (PpMembers (jk k @ p) 1) \<Longrightarrow> cli_ok_human n (Some (''{'' @ jk k @ p)) = None"
  using stuck_in_object [of k p 1]
  by (simp add: cli_ok_human_def pp_render_def skip_ws_id stop_chars at_char_def pp_stuck_def Let_def)

section \<open>Properties\<close>

text \<open>
  C36: the pretty printer is correct on JSON: for every JSON text, with any white space in any gap between two tokens
  and any escapes in its strings (a number or word has no quote or opening bracket in it), rendering it returns, and
  what it prints is the layout of its tree, one member per line, inner objects indented, lists on the line, strings
  without their quotes as they are written.
\<close>
theorem pretty_printer_lays_out:
  assumes "jt_ok t" "gap w" "gap z"
  shows "\<exists>n. cli_ok_human n (Some (w @ jt_text t @ z)) = Some (''ok.'' @ jt_layout 0 t @ [CHR 0x0A])"
proof -
  obtain c cs where c: "jt_text t = c # cs" "\<not> pp_stop c" using assms(1) text_head by blast
  have "ends z" using assms(3) by (cases z) (auto simp: ends_def gap_def pp_stop_def)
  then obtain n where n: "pp n (value_job (jt_text t @ z) 0) = Some (jt_layout 0 t, z)"
    using tree_laid_out [OF assms(1), of z 0] by (auto simp: pp_ret_def)
  have "pp_skip_ws (w @ jt_text t @ z) = jt_text t @ z" using c stop_not_space [OF c(2)] assms(2) by (simp add: skip_ws_id)
  then show ?thesis using n
    by (intro exI [of _ n]) (cases "at_char (CHR ''{'') (jt_text t @ z)"; simp add: cli_ok_human_def pp_render_def value_job_def Let_def)
qed

theorem pretty_printer_lays_out_witness:
  "\<exists>n. cli_ok_human n (Some ''{ \"state\" : \"active\", \"books\":[1 ,2 ], \"net\":{\"rssi\":-40}}'') =
     Some (''ok.\<newline>  state: active\<newline>  books: [1, 2]\<newline>  net: \<newline>    rssi: -40\<newline>'')"
proof -
  have "jt_ok (JRec '' '' [([], ''state'', '' '', '' '', JText ''active'', []),
      ('' '', ''books'', [], [], JList [] [([], JPrim ''1'', '' ''), ([], JPrim ''2'', '' '')], []),
      ('' '', ''net'', [], [], JRec [] [([], ''rssi'', [], [], JPrim ''-40'', [])], [])])"
    by (simp add: prim_text_def pp_stop_def pp_space_def gap_def)
  from pretty_printer_lays_out [OF this, of "[]" "[]"] show ?thesis by (simp add: jq_def q_def pp_indent_def)
qed

text \<open>
  C39: a Wi-Fi name can hang the console: the name is put into the answer of \<open>device.info\<close> without escaping, so when
  the saved network is named \<open>...\"]...\<close> the human-mode rendering of that answer never returns, whatever else the
  device reports: the loop over the members stops making progress at the bracket and prints empty members forever.
\<close>
theorem wifi_name_hangs_console:
  assumes "plain_text (id_prefix e)" "plain_text (id_full e)" "plain_text (fw_version s)" "plain_text [id_hw_rev e]"
    and "\<forall>b. build_info s = Some b \<longrightarrow> plain_text b"
    and name: "wifi_ssid e = a @ [CHR 0x22, CHR '']''] @ b" "plain_text a"
    and "cmd_device_info N ck e s = (s', CliOk (Some t))"
  shows "cli_ok_human n (Some t) = None"
proof -
  have t: "t = info_text ck e (fst (cmd_device_info N ck e s))" and s': "s' = fst (cmd_device_info N ck e s)"
    using assms(8) by (auto simp: cmd_device_info_def Let_def split: if_splits)
  have same: "fw_version s' = fw_version s" "build_info s' = build_info s"
    using assms(8) by (auto simp: cmd_device_info_def Let_def user_configured_persist_def split: if_splits)
  have p: "plain_text SK_PROTOCOL_VERSION" by (simp add: plain_text_def SK_PROTOCOL_VERSION_def)
  note k = plain_text_def [of "''model''", simplified]
  have keys: "plain_text ''model''" "plain_text ''prefix''" "plain_text ''serial''" "plain_text ''fw_version''" "plain_text ''hw_version''"
    "plain_text ''protocol_version''" "plain_text ''build_info''" "plain_text ''uptime_sec''" "plain_text ''wifi''"
    "plain_text ''connected''" "plain_text ''ssid''"
    by (simp_all add: plain_text_def)
  show ?thesis
  proof (cases "build_info s'")
    case None
    show ?thesis
      unfolding t s' [symmetric] info_text_def Let_def None option.case name(1)
      by (intro render_stuck stuck_text stuck_prim stuck_object stuck_name keys prim_dec prim_bool prim_null p name(2))
        (simp_all add: assms same)
  next
    case (Some bi)
    have bi: "plain_text bi" using assms(5) same Some by simp
    show ?thesis
      unfolding t s' [symmetric] info_text_def Let_def Some option.case name(1)
      by (intro render_stuck stuck_text stuck_prim stuck_object stuck_name keys prim_dec prim_bool prim_null p name(2) bi)
        (simp_all add: assms same)
  qed
qed

definition trap_env :: info_env where
  "trap_env = \<lparr> id_prefix = ''LS'', id_full = ''LS-A06TMFSQT'', id_hw_rev = CHR ''A'', wifi_connected = True,
     wifi_ssid = ''x'' @ [CHR 0x22, CHR '']''] @ [], wifi_rssi = 0, wifi_ip = ''10.0.0.2'', wifi_saved = True, bond_count = 1,
     pass_set = False, pass_mode = \<lparr> pairing_required = False, always_required = False \<rparr>, pass_attempts = 5 \<rparr>"

definition trap_dev :: "nvs_map baseline" where
  "trap_dev = \<lparr> user_configured = True, bl_flash = (\<lambda>x. None), fw_version = ''0.1.0'', build_info = None, boot_us = 0 \<rparr>"

theorem wifi_name_hangs_console_witness:
  "\<exists>t. snd (cmd_device_info nvs_map_ops \<lparr> up_us = 0, wall = 0 \<rparr> trap_env trap_dev) = CliOk (Some t) \<and>
     cli_ok_human 1000 (Some t) = None"
proof -
  let ?t = "info_text \<lparr> up_us = 0, wall = 0 \<rparr> trap_env trap_dev"
  have d: "n < 10 \<Longrightarrow> length (dec_nat n) = 1" for n by (subst dec_nat.simps) simp
  have "length ?t < 768"
    by (simp add: info_text_def trap_env_def trap_dev_def Let_def jk_def jq_def jbool_def q_def dec_int_def d uptime_sec_def cdiv_def
        SK_PROTOCOL_VERSION_def)
  then have r: "cmd_device_info nvs_map_ops \<lparr> up_us = 0, wall = 0 \<rparr> trap_env trap_dev = (trap_dev, CliOk (Some ?t))"
    by (simp add: cmd_device_info_def Let_def) (simp add: trap_dev_def)
  have "cli_ok_human 1000 (Some ?t) = None"
    by (rule wifi_name_hangs_console [where a = "''x''" and b = "[]", OF _ _ _ _ _ _ _ r]) (simp_all add: trap_env_def trap_dev_def plain_text_def)
  then show ?thesis using r by simp
qed

end
