(* ===== verification/SkCommandHelp.thy ===== *)
theory SkCommandHelp
  imports SkCommandTable
begin

text \<open>
  The \<open>help_block\<close> texts of the command tables, in the order of the rows of \<open>SkCommandTable\<close>; one literal per line
  of a text where it has no special characters.
\<close>

definition cli_help :: "string option list" where
  "cli_help =
    [Some (''help\<newline>'' @
        ''  Show the namespace list.\<newline>'' @
        ''help <command>\<newline>'' @
        ''  Show usage, parameters and example for a specific command.''),
     None,
     None]"

definition capabilities_help :: "string option list" where
  "capabilities_help =
    [Some (''Reports which sk_* books are active on this device and the\<newline>'' @
        ''firmware version. APP uses this to gate UI features.'')]"

definition device_info_help :: "string option" where
  "device_info_help =
     Some (''Returns a single JSON snapshot covering both static identity and\<newline>'' @
        ''live runtime state. Fields:\<newline>'' @
        ''  identity        prefix + serial (e.g. BF-A1B2C3)\<newline>'' @
        ''  fw_version      firmware semver\<newline>'' @
        ''  protocol        SK protocol version\<newline>'' @
        ''  build_info      commit hash + build date\<newline>'' @
        ''  uptime_sec      seconds since boot\<newline>'' @
        ''  wifi            { connected, ssid, ip, rssi }\<newline>'' @
        ''  ble             { advertising, paired_clients }\<newline>'' @
        ''  battery         { present, ... }\<newline>'' @
        ''  user_configured true once the initial setup wizard ran\<newline>'' @
        ''  time            { valid, unix, source }'')"

definition device_commands_help :: "string option" where
  "device_commands_help =
     Some (''Machine-readable list. Hidden commands are included.\<newline>'' @
        ''APP gates UI by what appears here, not by semver alone.'')"

definition device_manifest_help :: "string option" where
  "device_manifest_help =
     Some (''Returns identity, the visible command list with group hints,\<newline>'' @
        ''and (eventually) the event catalog. APP renders screens from\<newline>'' @
        ''this; no static manifest file is needed.'')"

definition logs_get_help :: "string option" where
  "logs_get_help =
     Some (''Returns structured event entries from the on-device ring buffer.\<newline>'' @
        ''Both CLI and SKAPP use this for diagnostics: what happened on the\<newline>'' @
        ''device just before the issue.\<newline>'' @
        ''\<newline>'' @
        ''--limit  number of entries to return (default 50, max 200)\<newline>'' @
        ''--level  minimum severity: debug | info | warn | error (default info)\<newline>'' @
        ''\<newline>'' @
        ''Each entry: {ts (unix), up_us (uptime us), lvl, tag, event, msg}.\<newline>'' @
        ''ts=0 means the device clock was not set when the entry was written.\<newline>'' @
        ''\<newline>'' @
        ''Examples:\<newline>'' @
        ''  logs get\<newline>'' @
        ''  logs get --limit 100\<newline>'' @
        ''  logs get --level warn'')"

definition time_set_help :: "string option" where
  "time_set_help =
     Some (''Sets the system clock to the given UTC unix timestamp. SKAPP\<newline>'' @
        ''calls this on every connect before WiFi/NTP is available, so\<newline>'' @
        ''log timestamps and webhook payloads carry real time.'')"

definition baseline_help :: "string option list" where
  "baseline_help = [device_info_help, device_commands_help, device_manifest_help, logs_get_help, time_set_help]"

definition control_help :: "string option list" where
  "control_help =
    [Some (''Soft reboot. Active timer is lost; user settings (NVS) are kept.\<newline>'' @
        ''Critical '' @ [CHR 0xE2, CHR 0x80, CHR 0x94] @ '' first call returns a ready-to-paste retry command\<newline>'' @
        ''with a fresh confirm token. See '' @ [CHR 0x60] @ ''help device.confirm-token'' @ [CHR 0x60] @ ''.''),
     Some (''Erases ALL stored data: WiFi credentials, API endpoints, BLE\<newline>'' @
        ''bond, secure store, userdata blob, every NVS namespace. Reboots\<newline>'' @
        ''into a factory-fresh state afterwards.\<newline>'' @
        ''\<newline>'' @
        ''Equivalent to the 5-tap MULTI_TAP button gesture.\<newline>'' @
        ''\<newline>'' @
        ''Critical '' @ [CHR 0xE2, CHR 0x80, CHR 0x94] @ '' first call returns a ready-to-paste retry command\<newline>'' @
        ''with a fresh confirm token. See '' @ [CHR 0x60] @ ''help device.confirm-token'' @ [CHR 0x60] @ ''.'')]"

definition auth_help :: "string option list" where
  "auth_help =
    [Some (''Reports a snapshot:\<newline>'' @
        ''  mode         '' @ [CHR 0x27] @ ''open'' @ [CHR 0x27] @ '' if the 60-second pairing window is active\<newline>'' @
        ''               (button short-press / pairing.start), '' @ [CHR 0x27] @ ''idle'' @ [CHR 0x27] @ '' else\<newline>'' @
        ''  bonded       true if at least one SKAPP install is paired\<newline>'' @
        ''  slots_used   number of occupied bond slots (0..8)\<newline>'' @
        ''\<newline>'' @
        ''Read-only.\<newline>'' @
        ''\<newline>'' @
        ''Example:\<newline>'' @
        ''  pairing status''),
     Some (''Opens a 60-second window during which the device advertises over\<newline>'' @
        ''BLE and accepts a new pairing handshake from SKAPP. The window\<newline>'' @
        ''auto-closes after 60s if nothing happens.\<newline>'' @
        ''\<newline>'' @
        ''Manual CLI use is rarely needed: a SHORT_PRESS on the physical\<newline>'' @
        ''button does exactly the same thing.\<newline>'' @
        ''\<newline>'' @
        ''Example:\<newline>'' @
        ''  pairing start''),
     Some (''Closes the BLE pairing window before its 60-second auto-timeout.\<newline>'' @
        ''Useful if you'' @ [CHR 0x27] @ ''ve already paired and want to stop advertising\<newline>'' @
        ''sooner (slightly lower power use, smaller attack surface).''),
     Some (''Wipes every stored bond slot and invalidates the active session.\<newline>'' @
        ''The device immediately disconnects. Pair a phone again with\<newline>'' @
        [CHR 0x60] @ ''pairing start'' @ [CHR 0x60] @ '' (or short-press the button).\<newline>'' @
        ''\<newline>'' @
        ''Use when: you want to revoke every SKAPP at once. To remove a\<newline>'' @
        ''single peer, use '' @ [CHR 0x60] @ ''bond.remove <slot>'' @ [CHR 0x60] @ '' (lands in step 6).\<newline>'' @
        ''\<newline>'' @
        ''Critical '' @ [CHR 0xE2, CHR 0x80, CHR 0x94] @ '' see '' @ [CHR 0x60] @ ''help device.confirm-token'' @ [CHR 0x60] @ '' for the confirm flow.''),
     Some (''Invalidates the active session HMAC token and issues a new one\<newline>'' @
        ''without breaking the BLE bond. Only the active slot'' @ [CHR 0x27] @ ''s key is\<newline>'' @
        ''rotated; other paired phones keep working.''),
     Some (''Returns every occupied bond slot. The returned '' @ [CHR 0x60] @ ''active_slot'' @ [CHR 0x60] @ '' is\<newline>'' @
        ''the slot whose key signed the current authenticated session\<newline>'' @
        ''(-1 if none yet).\<newline>'' @
        ''\<newline>'' @
        ''SKAPP uses this to populate the '' @ [CHR 0x27] @ ''E'' @ [CHR 0xC5, CHR 0x9F] @ ''le'' @ [CHR 0xC5, CHR 0x9F] @ ''mi'' @ [CHR 0xC5, CHR 0x9F] @ '' SKAPP'' @ [CHR 0x27] @ ''lar'' @ [CHR 0x27] @ '' list and\<newline>'' @
        ''the BOND_STORE_FULL slot-picker dialog.''),
     Some (''Wipes the bond at the given slot. The disconnected peer must\<newline>'' @
        ''re-pair to regain access. If you remove the slot of the active\<newline>'' @
        ''session, the device drops the connection too.''),
     Some (''Critical commands (anything tagged '' @ [CHR 0x27] @ ''critical'' @ [CHR 0x27] @ '' '' @ [CHR 0xE2, CHR 0x80, CHR 0x94] @ '' wifi.forget,\<newline>'' @
        ''device.factory-reset, ota.update, etc.) require a confirm token.\<newline>'' @
        ''\<newline>'' @
        ''Easy way (recommended for humans):\<newline>'' @
        ''  Just call your critical command. The device refuses, generates\<newline>'' @
        ''  a fresh token, and prints the exact retry command for you to\<newline>'' @
        ''  copy:\<newline>'' @
        ''\<newline>'' @
        ''    bf> device factory-reset\<newline>'' @
        ''    error: ERR_CONFIRM_REQUIRED '' @ [CHR 0xE2, CHR 0x80, CHR 0x94] @ '' to confirm, copy/paste this within 30s:\<newline>'' @
        ''           device factory-reset --confirm-token a3f81c\<newline>'' @
        ''    bf> device factory-reset --confirm-token a3f81c\<newline>'' @
        ''    ok.\<newline>'' @
        ''\<newline>'' @
        ''Pre-fetch way (for scripts and SKAPP):\<newline>'' @
        ''  Call this command first to grab a token, then chain it onto\<newline>'' @
        ''  any critical command yourself:\<newline>'' @
        ''\<newline>'' @
        ''    bf> device confirm-token\<newline>'' @
        ''    ok. {'' @ [CHR 0x22] @ ''token'' @ [CHR 0x22] @ '':'' @ [CHR 0x22] @ ''a3f81c'' @ [CHR 0x22] @ '','' @ [CHR 0x22] @ ''ttl_sec'' @ [CHR 0x22] @ '':30}\<newline>'' @
        ''    bf> device factory-reset --confirm-token a3f81c\<newline>'' @
        ''\<newline>'' @
        ''Each token is single-use.'')]"

definition passphrase_help :: "string option list" where
  "passphrase_help =
    [Some (''Reports whether a content-access passphrase is configured, which\<newline>'' @
        ''of the two enforcement modes are active, and how many wrong\<newline>'' @
        ''attempts remain before the device factory-resets.\<newline>''),
     Some (''Sets a new passphrase when none exists. Length: 6-32 characters.\<newline>'' @
        ''Use '' @ [CHR 0x60] @ ''auth passphrase change'' @ [CHR 0x60] @ '' to rotate; '' @ [CHR 0x60] @ ''auth passphrase clear'' @ [CHR 0x60] @ '' to\<newline>'' @
        ''remove. Critical '' @ [CHR 0xE2, CHR 0x80, CHR 0x94] @ '' needs a confirm token.\<newline>''),
     None,
     None,
     Some (''Two independent toggles:\<newline>'' @
        ''  pairing  '' @ [CHR 0xE2, CHR 0x80, CHR 0x94] @ '' ask for the passphrase only during the first-time\<newline>'' @
        ''             ECDH pairing of a new SKAPP install.\<newline>'' @
        ''  always   '' @ [CHR 0xE2, CHR 0x80, CHR 0x94] @ '' ask on every connection. Subsumes '' @ [CHR 0x27] @ ''pairing'' @ [CHR 0x27] @ ''.\<newline>'' @
        ''Both off = passphrase exists but isn'' @ [CHR 0x27] @ ''t enforced.\<newline>'')]"

definition wifi_help :: "string option list" where
  "wifi_help =
    [Some (''Returns the live WiFi state. Fields:\<newline>'' @
        ''  state         disconnected | connecting | connected | failed\<newline>'' @
        ''  ssid          network the device is associated with (if any)\<newline>'' @
        ''  ip            assigned IPv4 address\<newline>'' @
        ''  rssi          signal strength in dBm (closer to 0 is stronger;\<newline>'' @
        ''                -50 great, -70 OK, -90 marginal)\<newline>'' @
        ''  active_slot   which saved network is in use (primary | backup | none)\<newline>'' @
        ''\<newline>'' @
        ''Read-only.\<newline>'' @
        ''\<newline>'' @
        ''Example:\<newline>'' @
        ''  wifi status''),
     Some (''Lists every access point the radio can hear right now: SSID,\<newline>'' @
        ''RSSI, channel, auth type. Scan takes 2-5 seconds '' @ [CHR 0xE2, CHR 0x80, CHR 0x94] @ '' the response\<newline>'' @
        ''is sent when the scan completes, not immediately.\<newline>'' @
        ''\<newline>'' @
        ''Use this before '' @ [CHR 0x60] @ ''wifi connect'' @ [CHR 0x60] @ '' to confirm the network you'' @ [CHR 0x27] @ ''re\<newline>'' @
        ''after is in range and to see its exact SSID spelling.\<newline>'' @
        ''\<newline>'' @
        ''Example:\<newline>'' @
        ''  wifi scan''),
     Some (''Shows networks the device has credentials saved for. Up to two\<newline>'' @
        ''networks can be saved in two slots '' @ [CHR 0xE2, CHR 0x80, CHR 0x94] @ '' see '' @ [CHR 0x60] @ ''help wifi.connect'' @ [CHR 0x60] @ '' for\<newline>'' @
        ''the slot mechanic.\<newline>'' @
        ''\<newline>'' @
        ''Example:\<newline>'' @
        ''  wifi list''),
     Some (''Connects to the given network and saves the credentials so the\<newline>'' @
        ''device reconnects automatically after a reboot.\<newline>'' @
        ''\<newline>'' @
        ''Simple form (most users only need this):\<newline>'' @
        ''  wifi connect HomeWiFi pass1234\<newline>'' @
        ''\<newline>'' @
        ''With a static IPv4 address (defaults to /24 netmask):\<newline>'' @
        ''  wifi connect HomeWiFi pass1234 192.168.1.111\<newline>'' @
        ''  wifi connect HomeWiFi pass1234 192.168.1.111/24\<newline>'' @
        ''\<newline>'' @
        ''Two-network fallback (advanced):\<newline>'' @
        ''  The device keeps two saved-credential slots, primary and\<newline>'' @
        ''  backup. If primary fails to associate after a few attempts,\<newline>'' @
        ''  it falls over to backup '' @ [CHR 0xE2, CHR 0x80, CHR 0x94] @ '' useful if you carry the device\<newline>'' @
        ''  between home and office.\<newline>'' @
        ''\<newline>'' @
        ''  wifi connect HomeWiFi pass1234              # saved as primary (default)\<newline>'' @
        ''  wifi connect OfficeWiFi pass5678 backup     # saved as backup\<newline>'' @
        ''\<newline>'' @
        ''Trailing args are auto-classified by shape '' @ [CHR 0xE2, CHR 0x80, CHR 0x94] @ '' IPv4-looking tokens\<newline>'' @
        ''go to --static-ip, the words primary/backup go to --slot. Named\<newline>'' @
        ''flags are also accepted for scripting:\<newline>'' @
        ''  wifi connect --ssid X --password Y [--static-ip 192.168.1.50/24]\<newline>'' @
        ''                                     [--slot primary|backup]''),
     Some (''Drops the active WiFi association. The intent is sticky '' @ [CHR 0xE2, CHR 0x80, CHR 0x94] @ '' the\<newline>'' @
        ''device will NOT auto-reconnect until you run '' @ [CHR 0x60] @ ''wifi connect'' @ [CHR 0x60] @ ''\<newline>'' @
        ''again. Saved credentials are kept (use '' @ [CHR 0x60] @ ''wifi forget'' @ [CHR 0x60] @ '' to delete\<newline>'' @
        ''them).\<newline>'' @
        ''\<newline>'' @
        ''Example:\<newline>'' @
        ''  wifi disconnect''),
     Some (''Removes saved credentials. Without --slot, both slots are wiped.\<newline>'' @
        ''With --slot, only that one is removed (the other keeps working).\<newline>'' @
        ''Critical '' @ [CHR 0xE2, CHR 0x80, CHR 0x94] @ '' see '' @ [CHR 0x60] @ ''help device.confirm-token'' @ [CHR 0x60] @ '' for the confirm flow.'')]"

definition ble_help :: "string option list" where
  "ble_help =
    [Some (''Returns radio state and the currently connected peer (the SKAPP\<newline>'' @
        ''phone). Fields: state (idle | advertising | connected), peer\<newline>'' @
        ''identifier when connected, MTU, signal strength.\<newline>'' @
        ''\<newline>'' @
        ''Example:\<newline>'' @
        ''  ble status'')]"

definition ota_help :: "string option list" where
  "ota_help =
    [Some (''Returns a snapshot of the firmware-update subsystem:\<newline>'' @
        ''  state              idle | checking | update_available | no_update |\<newline>'' @
        ''                     downloading | done | error\<newline>'' @
        ''  current            firmware version currently running\<newline>'' @
        ''  remote             version found by the last '' @ [CHR 0x60] @ ''ota check'' @ [CHR 0x60] @ '' (if any)\<newline>'' @
        ''  running_partition  active slot '' @ [CHR 0xE2, CHR 0x80, CHR 0x94] @ '' factory | ota_0 | ota_1\<newline>'' @
        ''  can_rollback       whether a previous image exists to roll back to\<newline>'' @
        ''  has_sha256         true if the staged update carries a hash to verify\<newline>'' @
        ''  sha256_prefix      first 8 hex chars of that hash (when present)\<newline>'' @
        ''  message            human message from the previous attempt\<newline>'' @
        ''\<newline>'' @
        ''Read-only '' @ [CHR 0xE2, CHR 0x80, CHR 0x94] @ '' never triggers a download or a reboot.\<newline>'' @
        ''\<newline>'' @
        ''Example:\<newline>'' @
        ''  ota status''),
     Some (''Step 1 of the OTA flow. Contacts the preconfigured update server,\<newline>'' @
        ''compares the latest published version with what you'' @ [CHR 0x27] @ ''re running,\<newline>'' @
        ''and remembers the result for the next '' @ [CHR 0x60] @ ''ota update'' @ [CHR 0x60] @ '' call.\<newline>'' @
        ''\<newline>'' @
        ''Safe: only reads. Nothing is flashed, the device does NOT reboot.\<newline>'' @
        ''Run this any time to find out whether an update is waiting.\<newline>'' @
        ''\<newline>'' @
        ''Example:\<newline>'' @
        ''  ota check''),
     Some (''Step 2 of the OTA flow. Downloads the firmware identified by the\<newline>'' @
        ''previous '' @ [CHR 0x60] @ ''ota check'' @ [CHR 0x60] @ '', verifies its sha256, writes it to the\<newline>'' @
        ''inactive OTA partition, then reboots into the new image.\<newline>'' @
        ''\<newline>'' @
        ''If the freshly booted firmware doesn'' @ [CHR 0x27] @ ''t mark itself valid within a\<newline>'' @
        ''few seconds, the bootloader automatically rolls back to the\<newline>'' @
        ''previous partition '' @ [CHR 0xE2, CHR 0x80, CHR 0x94] @ '' bricking the device is very hard.\<newline>'' @
        ''\<newline>'' @
        ''Run '' @ [CHR 0x60] @ ''ota check'' @ [CHR 0x60] @ '' first; this command refuses if no update is staged.\<newline>'' @
        ''\<newline>'' @
        ''WARNING: device reboots when install completes. Critical '' @ [CHR 0xE2, CHR 0x80, CHR 0x94] @ '' see\<newline>'' @
        [CHR 0x60] @ ''help device.confirm-token'' @ [CHR 0x60] @ '' for the confirm flow.''),
     Some (''Switches the boot partition to the previously running firmware\<newline>'' @
        ''and reboots. Use this when an OTA update completed but the new\<newline>'' @
        ''build misbehaves and you can still reach the CLI.\<newline>'' @
        ''\<newline>'' @
        ''Has no effect on factory images (nothing to roll back to).\<newline>'' @
        ''Critical '' @ [CHR 0xE2, CHR 0x80, CHR 0x94] @ '' see '' @ [CHR 0x60] @ ''help device.confirm-token'' @ [CHR 0x60] @ '' for the confirm flow.'')]"

definition api_help :: "string option list" where
  "api_help =
    [Some (''When a countdown reaches zero, every stored endpoint fires only\<newline>'' @
        ''if the master switch is on. Endpoint records (api.endpoint.add)\<newline>'' @
        ''are kept regardless; this gate just decides whether they fire.\<newline>'' @
        ''\<newline>'' @
        ''Example:\<newline>'' @
        ''  api on''),
     Some (''Blocks every outbound endpoint from firing without deleting your\<newline>'' @
        ''endpoint records. Useful as a quick '' @ [CHR 0x22] @ ''silent mode'' @ [CHR 0x22] @ '' '' @ [CHR 0xE2, CHR 0x80, CHR 0x94] @ '' don'' @ [CHR 0x27] @ ''t trigger\<newline>'' @
        ''IFTTT / Home Assistant for this session, but keep the setup.\<newline>'' @
        ''\<newline>'' @
        ''Example:\<newline>'' @
        ''  api off''),
     Some (''Returns the master switch state and how many endpoints are\<newline>'' @
        ''stored, broken down by kind (USER manual webhooks vs SYSTEM\<newline>'' @
        ''auto-managed paired-SKAPP listeners).\<newline>'' @
        ''\<newline>'' @
        ''Example output:\<newline>'' @
        ''  { '' @ [CHR 0x22] @ ''master_enabled'' @ [CHR 0x22] @ '': true, '' @ [CHR 0x22] @ ''endpoints'' @ [CHR 0x22] @ '': 3,\<newline>'' @
        ''    '' @ [CHR 0x22] @ ''user_endpoints'' @ [CHR 0x22] @ '': 2, '' @ [CHR 0x22] @ ''system_endpoints'' @ [CHR 0x22] @ '': 1,\<newline>'' @
        ''    '' @ [CHR 0x22] @ ''user_slots'' @ [CHR 0x22] @ '': 5, '' @ [CHR 0x22] @ ''system_slots'' @ [CHR 0x22] @ '': 8 }''),
     Some (''Returns every stored endpoint with its full configuration. Token\<newline>'' @
        ''values are redacted. USER slots come first (chain order), then\<newline>'' @
        ''SYSTEM slots (auto-managed by paired SKAPPs).\<newline>'' @
        ''\<newline>'' @
        ''Example:\<newline>'' @
        ''  api endpoint list''),
     Some (''Creates a new USER (manual) endpoint or overwrites the existing\<newline>'' @
        ''one with the same --name. Persisted in NVS. Survives reboot.\<newline>'' @
        ''USER slots are limited to SK_API_USER_SLOTS (5).\<newline>'' @
        ''\<newline>'' @
        ''SYSTEM (auto-managed) endpoints are NOT added through this\<newline>'' @
        ''command '' @ [CHR 0xE2, CHR 0x80, CHR 0x94] @ '' paired SKAPPs use api.system.add instead.\<newline>'' @
        ''\<newline>'' @
        ''Types:\<newline>'' @
        ''  ifttt        IFTTT Maker webhook preset\<newline>'' @
        ''  webhook_post Generic POST with --auth control\<newline>'' @
        ''  generic      Any method / auth / header combination\<newline>'' @
        ''\<newline>'' @
        ''--class controls which event layer auto-fires this endpoint:\<newline>'' @
        ''  trigger  timer.triggered (deadline reached) '' @ [CHR 0xE2, CHR 0x80, CHR 0x94] @ '' DEFAULT\<newline>'' @
        ''  alarm    timer.alarm (early warning, fires N times before)\<newline>'' @
        ''  both     fires on either layer\<newline>'' @
        ''Use alarm for reminder/Telegram webhooks, trigger for the final\<newline>'' @
        ''consequence webhook. (Telegram delivery = a generic/webhook_post\<newline>'' @
        ''endpoint pointed at a bot proxy URL, with --class alarm.)\<newline>'' @
        ''\<newline>'' @
        ''--payload stores a body template (max 512). When set, it is\<newline>'' @
        ''rendered at fire time and sent INSTEAD of the trigger payload.\<newline>'' @
        ''Single-brace {key} tokens pull top-level scalars out of the\<newline>'' @
        ''trigger payload; {payload} inlines the whole trigger JSON;\<newline>'' @
        ''unknown tokens stay literal. Empty/omitted --payload keeps the\<newline>'' @
        ''legacy pass-through body.\<newline>'' @
        ''\<newline>'' @
        ''--delay-after seconds (0-300) is wait time AFTER this endpoint\<newline>'' @
        ''fires, before the next one in api.chain.run.\<newline>'' @
        ''\<newline>'' @
        ''Examples:\<newline>'' @
        ''  # IFTTT Maker applet\<newline>'' @
        ''  api endpoint add --name lights --type ifttt '' @ [CHR 0x5C] @ ''\<newline>'' @
        ''    --url focus_done --token <KEY> --confirm-token <T>\<newline>'' @
        ''\<newline>'' @
        ''  # Generic POST with bearer auth + custom body template\<newline>'' @
        ''  api endpoint add --name ha --type webhook_post '' @ [CHR 0x5C] @ ''\<newline>'' @
        ''    --url https://homeassistant.local/api/services/script/focus '' @ [CHR 0x5C] @ ''\<newline>'' @
        ''    --auth bearer --token <ACCESS_TOKEN> '' @ [CHR 0x5C] @ ''\<newline>'' @
        ''    --content-type application/json --delay-after 5 '' @ [CHR 0x5C] @ ''\<newline>'' @
        ''    --payload '' @ [CHR 0x27] @ ''{'' @ [CHR 0x22] @ ''entity_id'' @ [CHR 0x22] @ '':'' @ [CHR 0x22] @ ''script.focus'' @ [CHR 0x22] @ '','' @ [CHR 0x22] @ ''note'' @ [CHR 0x22] @ '':'' @ [CHR 0x22] @ ''{event}'' @ [CHR 0x22] @ ''}'' @ [CHR 0x27] @ '' '' @ [CHR 0x5C] @ ''\<newline>'' @
        ''    --confirm-token <T>''),
     Some (''Removes the USER endpoint record from NVS. SYSTEM slots are\<newline>'' @
        ''removed via api.system.remove (or by the paired SKAPP itself).\<newline>'' @
        ''\<newline>'' @
        ''Example:\<newline>'' @
        ''  api endpoint remove --name lights --confirm-token <T>''),
     Some (''Auto-managed: the active CLI session must be authenticated; the\<newline>'' @
        ''peer_id is taken from the session bond. Each peer_id may register\<newline>'' @
        ''exactly one URL '' @ [CHR 0xE2, CHR 0x80, CHR 0x94] @ '' re-running the command upserts the URL/delay.\<newline>'' @
        ''\<newline>'' @
        ''The fired requests carry X-SK-* headers (Device-Id, Peer-Id,\<newline>'' @
        ''Timestamp, Nonce, Signature). The signature is HMAC-SHA256\<newline>'' @
        ''over the body using the bond key, truncated to 16 bytes.\<newline>'' @
        ''\<newline>'' @
        ''Use this from SKAPP when the user binds a script in SKAPI; do\<newline>'' @
        ''not call it manually unless you know what you'' @ [CHR 0x27] @ ''re doing.\<newline>'' @
        ''\<newline>'' @
        ''Example:\<newline>'' @
        ''  api system add --url http://192.168.1.10:5000/api/events/incoming''),
     Some (''Removes the SYSTEM endpoint owned by the active session'' @ [CHR 0x27] @ ''s peer.\<newline>'' @
        ''Used when SKAPP wants to stop receiving webhooks (e.g. user\<newline>'' @
        ''deleted their last script binding) without unpairing.''),
     Some (''Empties every SYSTEM slot regardless of which peer_id owns it.\<newline>'' @
        ''Authenticated but ownership-blind. The device will not fire\<newline>'' @
        ''any SYSTEM webhook after this until a fresh api.system.add.\<newline>'' @
        ''\<newline>'' @
        ''Reason: when a SKAPP install is uninstalled without unpairing\<newline>'' @
        ''(or its secure-storage was wiped), its peer_id is lost and the\<newline>'' @
        ''per-peer api.system.remove can no longer reach those slots.\<newline>'' @
        ''BF would keep firing the orphan URL on every countdown and\<newline>'' @
        ''block on the 10-second TCP timeout. Calling api.system.purge\<newline>'' @
        ''resets the bucket; the active SKAPP should immediately follow\<newline>'' @
        ''with its own api.system.add to re-establish the listener URL.''),
     Some (''Diagnostic listing of just the SYSTEM bucket. Same row shape as\<newline>'' @
        ''api.endpoint.list but filtered to kind=system.''),
     Some (''Triggers a single endpoint immediately, bypassing the timer.\<newline>'' @
        ''Async '' @ [CHR 0xE2, CHR 0x80, CHR 0x94] @ '' the command returns ok before the HTTP call completes;\<newline>'' @
        ''the result is emitted as an api.sent event.\<newline>'' @
        ''\<newline>'' @
        ''Looks up across BOTH USER and SYSTEM buckets by name.\<newline>'' @
        ''\<newline>'' @
        ''Examples:\<newline>'' @
        ''  api send --name notify\<newline>'' @
        ''  api send --name notify --payload '' @ [CHR 0x27] @ ''{'' @ [CHR 0x22] @ ''text'' @ [CHR 0x22] @ '':'' @ [CHR 0x22] @ ''manual test'' @ [CHR 0x22] @ ''}'' @ [CHR 0x27]),
     Some (''Fires every stored endpoint sequentially, IGNORING trigger class\<newline>'' @
        ''(both alarm- and trigger-class slots fire). USER slots first\<newline>'' @
        ''(index 0..N), then SYSTEM slots (index 0..M). Each slot'' @ [CHR 0x27] @ ''s\<newline>'' @
        ''delay-after is honoured between fires.\<newline>'' @
        ''\<newline>'' @
        ''Note: the autonomous timer path is class-filtered '' @ [CHR 0xE2, CHR 0x80, CHR 0x94] @ '' timer.alarm\<newline>'' @
        ''fires only alarm-class slots, timer.triggered only trigger-class.\<newline>'' @
        ''This manual command is the unfiltered fire-all for testing.\<newline>'' @
        ''\<newline>'' @
        ''Examples:\<newline>'' @
        ''  api chain run\<newline>'' @
        ''  api chain run --payload '' @ [CHR 0x27] @ ''{'' @ [CHR 0x22] @ ''text'' @ [CHR 0x22] @ '':'' @ [CHR 0x22] @ ''manual chain test'' @ [CHR 0x22] @ ''}'' @ [CHR 0x27])]"

definition timer_help :: "string option list" where
  "timer_help =
    [Some (''Set the countdown duration and (optionally) the number of\<newline>'' @
        ''early-warning alarms.\<newline>'' @
        ''\<newline>'' @
        ''  unit:   Time unit. One of: minute | hour | day\<newline>'' @
        ''  value:  Numeric duration, range 1..60\<newline>'' @
        ''  alarm:  Optional. Number of early-warning alarms, 0..10.\<newline>'' @
        ''          Alarms fire backwards from the deadline, one unit\<newline>'' @
        ''          apart. E.g. with unit=hour, value=24, alarm=3 the\<newline>'' @
        ''          alarms fire at 21h, 22h, 23h elapsed (i.e. 3h, 2h,\<newline>'' @
        ''          1h remaining).\<newline>'' @
        ''\<newline>'' @
        ''Notes:\<newline>'' @
        ''  - '' @ [CHR 0x27] @ ''unit'' @ [CHR 0x27] @ '' and '' @ [CHR 0x27] @ ''value'' @ [CHR 0x27] @ '' must be supplied together.\<newline>'' @
        ''  - Passing only '' @ [CHR 0x27] @ ''alarm <N>'' @ [CHR 0x27] @ '' updates the alarm count and keeps\<newline>'' @
        ''    the existing unit/value.\<newline>'' @
        ''  - Changing the config does NOT auto-start the countdown.\<newline>'' @
        ''    Run '' @ [CHR 0x27] @ ''timer start'' @ [CHR 0x27] @ '' afterwards to arm it.\<newline>'' @
        ''\<newline>'' @
        ''Examples:\<newline>'' @
        ''  timer set hour 8\<newline>'' @
        ''  timer set hour 24 alarm 3\<newline>'' @
        ''  timer set minute 5 alarm 2\<newline>'' @
        ''  timer set day 7''),
     Some (''Reports the current timer configuration (the values written by\<newline>'' @
        ''the most recent '' @ [CHR 0x27] @ ''timer set'' @ [CHR 0x27] @ '').\<newline>'' @
        ''\<newline>'' @
        ''Fields returned:\<newline>'' @
        ''  unit             Time unit: minute | hour | day\<newline>'' @
        ''  value            Duration in '' @ [CHR 0x27] @ ''unit'' @ [CHR 0x27] @ ''s, 1..60\<newline>'' @
        ''  alarms           Number of early-warning alarms, 0..10\<newline>'' @
        ''  total_duration   Convenience: unit * value, in seconds\<newline>'' @
        ''\<newline>'' @
        ''This is configuration only. For the live runtime state\<newline>'' @
        ''(remaining time, current state machine value, fired alarms)\<newline>'' @
        ''use '' @ [CHR 0x27] @ ''timer status'' @ [CHR 0x27] @ '' instead.\<newline>'' @
        ''\<newline>'' @
        ''Example:\<newline>'' @
        ''  timer get''),
     Some (''Arms the countdown using the currently configured unit/value\<newline>'' @
        ''and transitions the device into the '' @ [CHR 0x27] @ ''countdown'' @ [CHR 0x27] @ '' state.\<newline>'' @
        ''\<newline>'' @
        ''Behaviour:\<newline>'' @
        ''  - Always starts from the FULL configured duration, even if a\<newline>'' @
        ''    countdown was already in progress (idempotent re-arm).\<newline>'' @
        ''  - Alarm fired-mask is cleared, so every configured alarm\<newline>'' @
        ''    will fire again.\<newline>'' @
        ''  - The countdown survives reboots: deadline is persisted to\<newline>'' @
        ''    NVS and recomputed against the wall clock on boot.\<newline>'' @
        ''\<newline>'' @
        ''Prerequisite: run '' @ [CHR 0x27] @ ''timer set'' @ [CHR 0x27] @ '' first to choose unit/value, or\<newline>'' @
        ''rely on the defaults (24 hours, 3 alarms).\<newline>'' @
        ''\<newline>'' @
        ''Example:\<newline>'' @
        ''  timer set hour 24 alarm 3\<newline>'' @
        ''  timer start''),
     Some (''Cancels any running countdown or vacation and forces the state\<newline>'' @
        ''back to '' @ [CHR 0x27] @ ''inactive'' @ [CHR 0x27] @ ''.\<newline>'' @
        ''\<newline>'' @
        ''Effect:\<newline>'' @
        ''  - Clears the active deadline.\<newline>'' @
        ''  - Clears the saved vacation remaining-time.\<newline>'' @
        ''  - Clears the alarm fired-mask.\<newline>'' @
        ''  - Does NOT touch the configured unit/value/alarm count.\<newline>'' @
        ''\<newline>'' @
        ''To start counting again later, run '' @ [CHR 0x27] @ ''timer start'' @ [CHR 0x27] @ ''. To re-arm\<newline>'' @
        ''from the current duration without going through '' @ [CHR 0x27] @ ''stop'' @ [CHR 0x27] @ '' first,\<newline>'' @
        ''use '' @ [CHR 0x27] @ ''timer reset'' @ [CHR 0x27] @ ''.\<newline>'' @
        ''\<newline>'' @
        ''Example:\<newline>'' @
        ''  timer stop''),
     Some (''Re-arms the current countdown from the full configured\<newline>'' @
        ''duration. Equivalent to pressing the device'' @ [CHR 0x27] @ ''s reset button.\<newline>'' @
        ''\<newline>'' @
        ''Behaviour:\<newline>'' @
        ''  - Only effective in '' @ [CHR 0x27] @ ''countdown'' @ [CHR 0x27] @ '' or '' @ [CHR 0x27] @ ''triggered'' @ [CHR 0x27] @ '' state. In\<newline>'' @
        ''    '' @ [CHR 0x27] @ ''inactive'' @ [CHR 0x27] @ '' or '' @ [CHR 0x27] @ ''vacation'' @ [CHR 0x27] @ '' it is a no-op.\<newline>'' @
        ''  - Clears the alarm fired-mask, so alarms fire again.\<newline>'' @
        ''  - Publishes a '' @ [CHR 0x27] @ ''timer.reset'' @ [CHR 0x27] @ '' event on the bus. Subscribers\<newline>'' @
        ''    (mail groups, relay, outbound API) react accordingly.\<newline>'' @
        ''\<newline>'' @
        ''The optional internal arg '' @ [CHR 0x27] @ ''by'' @ [CHR 0x27] @ '' is used by sk_api / SKAPP to\<newline>'' @
        ''distinguish a manual reset (default) from an API-triggered\<newline>'' @
        ''reset. Human users do not need to supply it.\<newline>'' @
        ''\<newline>'' @
        ''Examples:\<newline>'' @
        ''  timer reset''),
     Some (''Reports the live runtime state of the countdown.\<newline>'' @
        ''\<newline>'' @
        ''State values:\<newline>'' @
        ''  inactive    No countdown is armed. Use '' @ [CHR 0x27] @ ''timer start'' @ [CHR 0x27] @ '' to arm.\<newline>'' @
        ''  countdown   A countdown is running towards the deadline.\<newline>'' @
        ''  vacation    Countdown is paused; remaining time is saved\<newline>'' @
        ''              and will resume when vacation ends (or is\<newline>'' @
        ''              cancelled with '' @ [CHR 0x27] @ ''vacation cancel'' @ [CHR 0x27] @ '').\<newline>'' @
        ''  triggered   The deadline was reached and the trigger fired.\<newline>'' @
        ''              Stays here until '' @ [CHR 0x27] @ ''timer reset'' @ [CHR 0x27] @ '' or '' @ [CHR 0x27] @ ''timer start'' @ [CHR 0x27] @ ''.\<newline>'' @
        ''\<newline>'' @
        ''Additional human-mode rows (per state):\<newline>'' @
        ''  Remaining       only in '' @ [CHR 0x27] @ ''countdown'' @ [CHR 0x27] @ '' (e.g. '' @ [CHR 0x27] @ ''1h 30m'' @ [CHR 0x27] @ '')\<newline>'' @
        ''  Alarms          '' @ [CHR 0x27] @ ''X configured, Y fired'' @ [CHR 0x27] @ '' in '' @ [CHR 0x27] @ ''countdown'' @ [CHR 0x27] @ ''\<newline>'' @
        ''  Vacation ends   days left in '' @ [CHR 0x27] @ ''vacation'' @ [CHR 0x27] @ ''\<newline>'' @
        ''  Saved time      countdown remainder preserved during vacation\<newline>'' @
        ''  Triggered       '' @ [CHR 0x27] @ ''yes'' @ [CHR 0x27] @ '' in '' @ [CHR 0x27] @ ''triggered'' @ [CHR 0x27] @ ''\<newline>'' @
        ''\<newline>'' @
        ''For the static configuration (unit, value, alarm count) use\<newline>'' @
        [CHR 0x27] @ ''timer get'' @ [CHR 0x27] @ '' instead.\<newline>'' @
        ''\<newline>'' @
        ''Example:\<newline>'' @
        ''  timer status''),
     Some (''Pauses the countdown for the given number of days. During\<newline>'' @
        ''vacation the state machine sits in '' @ [CHR 0x27] @ ''vacation'' @ [CHR 0x27] @ '' and the saved\<newline>'' @
        ''remaining-time is held untouched.\<newline>'' @
        ''\<newline>'' @
        ''  days:  Number of days to stay on vacation. Range 1..60.\<newline>'' @
        ''\<newline>'' @
        ''Behaviour:\<newline>'' @
        ''  - Allowed from '' @ [CHR 0x27] @ ''countdown'' @ [CHR 0x27] @ '' and '' @ [CHR 0x27] @ ''inactive'' @ [CHR 0x27] @ ''. Not from\<newline>'' @
        ''    '' @ [CHR 0x27] @ ''triggered'' @ [CHR 0x27] @ '' (reset first).\<newline>'' @
        ''  - If entered from '' @ [CHR 0x27] @ ''countdown'' @ [CHR 0x27] @ '', the remaining time is saved\<newline>'' @
        ''    and restored after vacation ends.\<newline>'' @
        ''  - If entered from '' @ [CHR 0x27] @ ''inactive'' @ [CHR 0x27] @ '', the configured full duration\<newline>'' @
        ''    is used as the resume value.\<newline>'' @
        ''  - Vacation auto-ends after '' @ [CHR 0x27] @ ''days'' @ [CHR 0x27] @ '' days; the device then\<newline>'' @
        ''    transitions back to '' @ [CHR 0x27] @ ''countdown'' @ [CHR 0x27] @ '' (or '' @ [CHR 0x27] @ ''inactive'' @ [CHR 0x27] @ '' if there\<newline>'' @
        ''    was nothing to resume).\<newline>'' @
        ''  - To end vacation early, use '' @ [CHR 0x27] @ ''vacation cancel'' @ [CHR 0x27] @ ''.\<newline>'' @
        ''\<newline>'' @
        ''Examples:\<newline>'' @
        ''  vacation set 7\<newline>'' @
        ''  vacation set 30''),
     Some (''Ends vacation mode early. The countdown immediately resumes\<newline>'' @
        ''from the saved remaining-time captured when vacation started.\<newline>'' @
        ''\<newline>'' @
        ''Behaviour:\<newline>'' @
        ''  - Only effective in '' @ [CHR 0x27] @ ''vacation'' @ [CHR 0x27] @ '' state. No-op otherwise.\<newline>'' @
        ''  - If the saved remaining-time is zero (rare), the device\<newline>'' @
        ''    falls back to '' @ [CHR 0x27] @ ''inactive'' @ [CHR 0x27] @ '' instead of '' @ [CHR 0x27] @ ''countdown'' @ [CHR 0x27] @ ''.\<newline>'' @
        ''  - Publishes '' @ [CHR 0x27] @ ''timer.vacation'' @ [CHR 0x27] @ '' (active=false) on the event bus.\<newline>'' @
        ''\<newline>'' @
        ''Example:\<newline>'' @
        ''  vacation cancel'')]"

definition relay_help :: "string option list" where
  "relay_help =
    [Some (''Set the relay output GPIO pin.\<newline>'' @
        ''\<newline>'' @
        ''  N: GPIO number, 0..30 on ESP32-C6.\<newline>'' @
        ''     Default 19 (LS PCB rev-A D8 pin).\<newline>'' @
        ''\<newline>'' @
        ''Examples:\<newline>'' @
        ''  relay gpio 19\<newline>'' @
        ''  relay gpio 5\<newline>'' @
        ''\<newline>'' @
        ''Persists to NVS. Pin direction is reconfigured immediately;\<newline>'' @
        ''the line is driven to the idle level (or active if '' @ [CHR 0x60] @ ''relay invert on'' @ [CHR 0x60] @ ''\<newline>'' @
        ''was already set).''),
     Some (''Invert the relay output polarity.\<newline>'' @
        ''\<newline>'' @
        ''  on  | true  | 1 : idle is HIGH (3.3V), active is LOW\<newline>'' @
        ''  off | false | 0 : idle is LOW (0V), active is HIGH  (default)\<newline>'' @
        ''\<newline>'' @
        ''Use this when the relay board is wired with an inverted optocoupler\<newline>'' @
        ''(common for SSR modules). The idle level is re-asserted immediately\<newline>'' @
        ''when toggled.\<newline>'' @
        ''\<newline>'' @
        ''Examples:\<newline>'' @
        ''  relay invert on\<newline>'' @
        ''  relay invert off''),
     Some (''Set the start delay before the relay fires.\<newline>'' @
        ''\<newline>'' @
        ''  s: seconds to wait after timer.triggered (or relay.test),\<newline>'' @
        ''     0..10. Default 0 (immediate).\<newline>'' @
        ''\<newline>'' @
        ''Useful to give peripherals (PC shutdown, alarm sound) a chance\<newline>'' @
        ''before the load is energized.\<newline>'' @
        ''\<newline>'' @
        ''Examples:\<newline>'' @
        ''  relay delay 0\<newline>'' @
        ''  relay delay 5''),
     Some (''Set the total active duration of the relay fire.\<newline>'' @
        ''\<newline>'' @
        ''  s: total seconds the relay should be active, 1..3600 (60 min cap).\<newline>'' @
        ''\<newline>'' @
        ''In pulse mode (see '' @ [CHR 0x60] @ ''relay pulse'' @ [CHR 0x60] @ ''), this is the TOTAL window during\<newline>'' @
        ''which the on/off cycles run.\<newline>'' @
        ''\<newline>'' @
        ''Examples:\<newline>'' @
        ''  relay duration 5      (fire for 5 seconds)\<newline>'' @
        ''  relay duration 60     (fire for 1 minute, default)''),
     Some (''Configure pulse mode (on/off cycling during fire).\<newline>'' @
        ''\<newline>'' @
        ''  <s>      Enable pulse mode and set the half-cycle duration to\<newline>'' @
        ''           s seconds (1..60). The relay alternates s seconds ON,\<newline>'' @
        ''           s seconds OFF for the entire '' @ [CHR 0x60] @ ''relay.duration'' @ [CHR 0x60] @ '' window.\<newline>'' @
        ''\<newline>'' @
        ''  on       Enable pulse mode keeping the current half-cycle.\<newline>'' @
        ''  off      Disable pulse mode (steady ON for '' @ [CHR 0x60] @ ''relay.duration'' @ [CHR 0x60] @ '').\<newline>'' @
        ''\<newline>'' @
        ''Examples:\<newline>'' @
        ''  relay pulse 5         (5s on / 5s off cycles)\<newline>'' @
        ''  relay pulse off       (steady-on mode)\<newline>'' @
        ''  relay pulse on        (re-enable previous half-cycle)\<newline>'' @
        ''\<newline>'' @
        ''Number of cycles = relay.duration / (2 * pulse half-cycle).''),
     Some (''Show the current relay configuration.\<newline>'' @
        ''\<newline>'' @
        ''No arguments.''),
     Some (''Manually run a full fire sequence using the current config.\<newline>'' @
        ''\<newline>'' @
        ''No arguments. Same behavior as if timer.triggered fired now:\<newline>'' @
        ''delay -> active (or pulse cycles) -> idle. Use '' @ [CHR 0x60] @ ''relay abort'' @ [CHR 0x60] @ '' to\<newline>'' @
        ''cancel mid-fire.\<newline>'' @
        ''\<newline>'' @
        ''Examples:\<newline>'' @
        ''  relay test''),
     Some (''Alias of relay.test.''),
     Some (''Cancel an in-progress fire sequence.\<newline>'' @
        ''\<newline>'' @
        ''No arguments. Returns ERR_BUSY if the relay is already idle.\<newline>'' @
        ''The GPIO is forced to idle and a '' @ [CHR 0x60] @ ''relay.fire.end'' @ [CHR 0x60] @ '' event is\<newline>'' @
        ''emitted with aborted=true.''),
     Some (''Force the relay to its idle level immediately (kill switch).\<newline>'' @
        ''\<newline>'' @
        ''No arguments. Aborts any in-progress fire AND drives the GPIO\<newline>'' @
        ''to idle, ensuring the wire is de-energized regardless of state.\<newline>'' @
        ''Safe to call at any time.\<newline>'' @
        ''\<newline>'' @
        ''Examples:\<newline>'' @
        ''  relay off''),
     Some (''Show the relay'' @ [CHR 0x27] @ ''s current runtime state.\<newline>'' @
        ''\<newline>'' @
        ''Reports the phase (idle / delaying / active / pulsing), the GPIO\<newline>'' @
        ''pin, and whether the line is currently driven active. Includes\<newline>'' @
        ''the time since fire start when not idle.'')]"

definition smtp_help :: "string option list" where
  "smtp_help =
    [Some (''Set the SMTPS server hostname.\<newline>'' @
        ''\<newline>'' @
        ''  hostname: SMTPS server FQDN.\<newline>'' @
        ''            Examples: smtp.gmail.com, smtp.sendgrid.net,\<newline>'' @
        ''            smtp.mailgun.org\<newline>'' @
        ''\<newline>'' @
        ''Use the TLS-from-start port 465 endpoint (configured via\<newline>'' @
        [CHR 0x60] @ ''smtp port'' @ [CHR 0x60] @ ''). STARTTLS (port 587) is NOT supported in this\<newline>'' @
        ''phase; use the SSL-only port.\<newline>'' @
        ''\<newline>'' @
        ''Examples:\<newline>'' @
        ''  smtp host smtp.gmail.com\<newline>'' @
        ''  smtp host smtp.sendgrid.net''),
     Some (''Set the SMTPS TCP port.\<newline>'' @
        ''\<newline>'' @
        ''  N: 1..65535, typically 465 (SMTPS / TLS-from-start).\<newline>'' @
        ''\<newline>'' @
        ''This firmware does NOT support STARTTLS (port 587). For Gmail,\<newline>'' @
        ''SendGrid, Mailgun and Outlook use the SSL endpoint on 465.\<newline>'' @
        ''\<newline>'' @
        ''Examples:\<newline>'' @
        ''  smtp port 465''),
     Some (''Set the sender email address (also used as AUTH LOGIN user).\<newline>'' @
        ''\<newline>'' @
        ''  email: full email address; must contain '' @ [CHR 0x27] @ ''@'' @ [CHR 0x27] @ ''.\<newline>'' @
        ''\<newline>'' @
        ''For Gmail this MUST be the account that owns the App Password\<newline>'' @
        ''configured via '' @ [CHR 0x60] @ ''smtp key'' @ [CHR 0x60] @ ''. The address appears in the From:\<newline>'' @
        ''header of outgoing mail.\<newline>'' @
        ''\<newline>'' @
        ''Examples:\<newline>'' @
        ''  smtp sender me@gmail.com\<newline>'' @
        ''  smtp sender alerts@example.com''),
     Some (''Set the SMTP AUTH password (or app-specific password).\<newline>'' @
        ''\<newline>'' @
        ''  key: provider-specific secret.\<newline>'' @
        ''\<newline>'' @
        ''For Gmail: enable 2-factor auth on the Google account, then\<newline>'' @
        ''create an App Password at https://myaccount.google.com/apppasswords\<newline>'' @
        ''and paste it here (16 chars, no spaces).\<newline>'' @
        ''For SendGrid / Mailgun: use the API key from their dashboard.\<newline>'' @
        ''\<newline>'' @
        ''The value is stored in NVS (not encrypted in this phase) and\<newline>'' @
        ''masked in '' @ [CHR 0x60] @ ''smtp get'' @ [CHR 0x60] @ '' output (shown as '' @ [CHR 0x22] @ ''(set, N chars)'' @ [CHR 0x22] @ '').\<newline>'' @
        ''\<newline>'' @
        ''Examples:\<newline>'' @
        ''  smtp key abcdefghijklmnop\<newline>'' @
        ''  smtp key SG.xxxxxxxxxxxxxxxxxxxx''),
     Some (''Show the SMTP configuration. API key is masked (shows length\<newline>'' @
        ''only).\<newline>'' @
        ''\<newline>'' @
        ''No arguments.\<newline>'' @
        ''\<newline>'' @
        ''Example:\<newline>'' @
        ''  smtp get''),
     Some (''Save the SMTP configuration in a single atomic NVS commit.\<newline>'' @
        ''\<newline>'' @
        ''  host:   SMTPS server FQDN (port 465)\<newline>'' @
        ''  port:   1..65535 (typically 465)\<newline>'' @
        ''  sender: sender email (also AUTH user); must contain '' @ [CHR 0x27] @ ''@'' @ [CHR 0x27] @ ''\<newline>'' @
        ''  key:    SMTP AUTH password / App Password / API key\<newline>'' @
        ''\<newline>'' @
        ''Any subset is accepted; omitted fields keep their current value.\<newline>'' @
        ''Unlike the per-field setters (smtp host/port/sender/key) this\<newline>'' @
        ''writes everything in ONE commit, so a reboot can'' @ [CHR 0x27] @ ''t leave a\<newline>'' @
        ''partial config. SKAPP uses this to push the whole form at once.\<newline>'' @
        ''\<newline>'' @
        ''Examples:\<newline>'' @
        ''  smtp save host smtp.gmail.com port 465 sender me@gmail.com key <app_pw>\<newline>'' @
        ''  smtp save sender alerts@example.com key <new_key>''),
     Some (''Send a test mail FROM the configured sender TO itself.\<newline>'' @
        ''\<newline>'' @
        ''Use this after '' @ [CHR 0x60] @ ''smtp host'' @ [CHR 0x60] @ '' / '' @ [CHR 0x60] @ ''smtp port'' @ [CHR 0x60] @ '' / '' @ [CHR 0x60] @ ''smtp sender'' @ [CHR 0x60] @ '' /\<newline>'' @
        [CHR 0x60] @ ''smtp key'' @ [CHR 0x60] @ '' (or '' @ [CHR 0x60] @ ''smtp save'' @ [CHR 0x60] @ '') to verify the server accepts the\<newline>'' @
        ''credentials and routes mail. The test runs asynchronously;\<newline>'' @
        ''watch the '' @ [CHR 0x60] @ ''smtp.send.end'' @ [CHR 0x60] @ '' event for the outcome.\<newline>'' @
        ''\<newline>'' @
        ''Examples:\<newline>'' @
        ''  smtp test'')]"

definition reminder_help :: "string option list" where
  "reminder_help =
    [Some (''Enable or disable early-warning reminder mail.\<newline>'' @
        ''\<newline>'' @
        ''  state: on | off (also yes/no/true/false/1/0)\<newline>'' @
        ''\<newline>'' @
        ''When on, a reminder mail is sent on every timer.alarm threshold\<newline>'' @
        ''(the early-warning points as the deadline approaches). When off,\<newline>'' @
        ''the config is kept but no reminder is sent. The final\<newline>'' @
        ''timer.triggered mail groups are unaffected by this flag.\<newline>'' @
        ''\<newline>'' @
        ''Examples:\<newline>'' @
        ''  reminder enable on\<newline>'' @
        ''  reminder enable off''),
     Some (''Set the email subject for the reminder mail.\<newline>'' @
        ''\<newline>'' @
        ''  text: 1..127 characters, multi-word allowed\<newline>'' @
        ''\<newline>'' @
        ''Examples:\<newline>'' @
        ''  reminder subject LebensSpur - please reset\<newline>'' @
        ''  reminder subject Action needed on your device''),
     Some (''Set the email body for the reminder mail (plain text).\<newline>'' @
        ''\<newline>'' @
        ''  text: 1..511 characters, multi-word allowed\<newline>'' @
        ''\<newline>'' @
        ''Sent as text/plain; UTF-8 supported. Use '' @ [CHR 0x60] @ ''reminder get'' @ [CHR 0x60] @ '' to read\<newline>'' @
        ''the stored body back.\<newline>'' @
        ''\<newline>'' @
        ''Examples:\<newline>'' @
        ''  reminder body Please reset your LebensSpur device\<newline>'' @
        ''  reminder body Deadline approaching - take action''),
     Some (''Add an email recipient to the reminder list.\<newline>'' @
        ''\<newline>'' @
        ''  email: full email address; must contain '' @ [CHR 0x27] @ ''@'' @ [CHR 0x27] @ ''\<newline>'' @
        ''\<newline>'' @
        ''Up to 10 recipients. Duplicates (case-insensitive) are rejected.\<newline>'' @
        ''\<newline>'' @
        ''Examples:\<newline>'' @
        ''  reminder recipient add alice@example.com''),
     Some (''Remove a recipient from the reminder list.\<newline>'' @
        ''\<newline>'' @
        ''  email: must match an existing recipient (case-insensitive)\<newline>'' @
        ''\<newline>'' @
        ''Examples:\<newline>'' @
        ''  reminder recipient remove alice@example.com''),
     Some (''Show the reminder configuration: enabled flag, subject, body and\<newline>'' @
        ''every recipient.\<newline>'' @
        ''\<newline>'' @
        ''No arguments.\<newline>'' @
        ''\<newline>'' @
        ''Example:\<newline>'' @
        ''  reminder get''),
     Some (''Send the reminder mail immediately to all configured recipients,\<newline>'' @
        ''regardless of the enabled flag. Requires SMTP to be configured\<newline>'' @
        ''(see '' @ [CHR 0x60] @ ''smtp get'' @ [CHR 0x60] @ '') and at least one recipient.\<newline>'' @
        ''\<newline>'' @
        ''No arguments. Use this to verify delivery before relying on the\<newline>'' @
        ''automatic timer.alarm reminders.\<newline>'' @
        ''\<newline>'' @
        ''Example:\<newline>'' @
        ''  reminder test'')]"

definition mail_groups_help :: "string option list" where
  "mail_groups_help =
    [Some (''Create a new mail group.\<newline>'' @
        ''\<newline>'' @
        ''  name: optional friendly label (max 47 chars). If omitted\<newline>'' @
        ''        a default name '' @ [CHR 0x22] @ ''group N'' @ [CHR 0x22] @ '' is used.\<newline>'' @
        ''\<newline>'' @
        ''Returns the group id (0..9) - use this id with all subsequent\<newline>'' @
        ''mail.group.* commands. Maximum 10 groups are supported.\<newline>'' @
        ''\<newline>'' @
        ''Examples:\<newline>'' @
        ''  mail group add Family\<newline>'' @
        ''  mail group add '' @ [CHR 0x22] @ ''Critical team'' @ [CHR 0x22]),
     Some (''Delete a mail group by id.\<newline>'' @
        ''\<newline>'' @
        ''  id: group id, 0..9\<newline>'' @
        ''\<newline>'' @
        ''All recipients, subject and body of the group are erased from\<newline>'' @
        ''NVS. The id may be reused by a future '' @ [CHR 0x60] @ ''mail group add'' @ [CHR 0x60] @ ''.\<newline>'' @
        ''\<newline>'' @
        ''Examples:\<newline>'' @
        ''  mail group delete 0''),
     Some (''Enable or disable a mail group.\<newline>'' @
        ''\<newline>'' @
        ''  id:    group id, 0..9\<newline>'' @
        ''  state: on | off (also yes/no/true/false/1/0)\<newline>'' @
        ''\<newline>'' @
        ''Disabled groups are skipped when timer.triggered fires. Use\<newline>'' @
        ''this to silence a group temporarily without losing its config.\<newline>'' @
        ''\<newline>'' @
        ''Examples:\<newline>'' @
        ''  mail group enable 0 off\<newline>'' @
        ''  mail group enable 1 on''),
     Some (''Rename a mail group. The name may contain multiple words.\<newline>'' @
        ''\<newline>'' @
        ''  id:   group id, 0..9\<newline>'' @
        ''  name: 1..47 characters, multi-word allowed\<newline>'' @
        ''\<newline>'' @
        ''Examples:\<newline>'' @
        ''  mail group name 0 Family\<newline>'' @
        ''  mail group name 1 On call team''),
     Some (''Set the email subject line for a group.\<newline>'' @
        ''\<newline>'' @
        ''  id:      group id, 0..9\<newline>'' @
        ''  subject: 1..127 characters, multi-word allowed\<newline>'' @
        ''\<newline>'' @
        ''Applied to every mail this group sends when timer.triggered\<newline>'' @
        ''fires.\<newline>'' @
        ''\<newline>'' @
        ''Examples:\<newline>'' @
        ''  mail group subject 0 LebensSpur triggered\<newline>'' @
        ''  mail group subject 0 Reminder from your device''),
     Some (''Set the email body for a group (plain text).\<newline>'' @
        ''\<newline>'' @
        ''  id:   group id, 0..9\<newline>'' @
        ''  text: 1..511 characters, multi-word allowed\<newline>'' @
        ''\<newline>'' @
        ''The body is sent as text/plain; UTF-8 is supported. Use\<newline>'' @
        [CHR 0x60] @ ''mail group get <id>'' @ [CHR 0x60] @ '' to read the stored body back.\<newline>'' @
        ''\<newline>'' @
        ''Examples:\<newline>'' @
        ''  mail group body 0 Please check your message\<newline>'' @
        ''  mail group body 1 Timer expired - take action''),
     Some (''Show all configured groups with their id, name, enabled flag\<newline>'' @
        ''and recipient count.\<newline>'' @
        ''\<newline>'' @
        ''No arguments. Use '' @ [CHR 0x60] @ ''mail group get <id>'' @ [CHR 0x60] @ '' for full detail of a\<newline>'' @
        ''single group.\<newline>'' @
        ''\<newline>'' @
        ''Example:\<newline>'' @
        ''  mail group list''),
     Some (''Show the full detail of one group: name, enabled flag, subject,\<newline>'' @
        ''body and every recipient.\<newline>'' @
        ''\<newline>'' @
        ''  id: group id, 0..9\<newline>'' @
        ''\<newline>'' @
        ''Example:\<newline>'' @
        ''  mail group get 0''),
     Some (''Add an email recipient to a group.\<newline>'' @
        ''\<newline>'' @
        ''  id:    group id, 0..9\<newline>'' @
        ''  email: full email address; must contain '' @ [CHR 0x27] @ ''@'' @ [CHR 0x27] @ ''\<newline>'' @
        ''\<newline>'' @
        ''A group can hold up to 20 recipients. Duplicates\<newline>'' @
        ''(case-insensitive) are rejected.\<newline>'' @
        ''\<newline>'' @
        ''Examples:\<newline>'' @
        ''  mail group recipient add 0 alice@example.com\<newline>'' @
        ''  mail group recipient add 0 bob@example.com''),
     Some (''Remove a recipient from a group.\<newline>'' @
        ''\<newline>'' @
        ''  id:    group id, 0..9\<newline>'' @
        ''  email: must match an existing recipient (case-insensitive)\<newline>'' @
        ''\<newline>'' @
        ''Examples:\<newline>'' @
        ''  mail group recipient remove 0 alice@example.com'')]"

definition reset_api_help :: "string option list" where
  "reset_api_help =
    [Some (''Enable or disable the inbound HTTP reset endpoint.\<newline>'' @
        ''\<newline>'' @
        ''  state: on | off (also yes/no/true/false/1/0)\<newline>'' @
        ''\<newline>'' @
        ''When enabled the device listens on port 80 at /api/reset and\<newline>'' @
        ''accepts HTTPS-less GET requests with a valid '' @ [CHR 0x60] @ ''key='' @ [CHR 0x60] @ '' query\<newline>'' @
        ''parameter. Each valid request resets the running countdown\<newline>'' @
        ''(equivalent to pressing the physical reset button).\<newline>'' @
        ''\<newline>'' @
        ''SECURITY: this endpoint is plain HTTP on the LAN. The key is\<newline>'' @
        ''the only access control. Use '' @ [CHR 0x60] @ ''reset_api regen'' @ [CHR 0x60] @ '' periodically.\<newline>'' @
        ''Use SKAPP'' @ [CHR 0x27] @ ''s BLE/ECDH+HMAC channel for stronger guarantees.\<newline>'' @
        ''\<newline>'' @
        ''Examples:\<newline>'' @
        ''  reset_api enable on\<newline>'' @
        ''  reset_api enable off''),
     Some (''Set the API key manually (format-validated).\<newline>'' @
        ''\<newline>'' @
        ''  value: must be exactly '' @ [CHR 0x22] @ ''ls_'' @ [CHR 0x22] @ '' + 12 lowercase hex chars\<newline>'' @
        ''         (15 chars total). Use '' @ [CHR 0x60] @ ''reset_api regen'' @ [CHR 0x60] @ '' to get a\<newline>'' @
        ''         fresh random key in the correct format.\<newline>'' @
        ''\<newline>'' @
        ''This is rarely needed; the device generates a key on first\<newline>'' @
        ''boot and again on '' @ [CHR 0x60] @ ''reset_api regen'' @ [CHR 0x60] @ ''. Use this only to share\<newline>'' @
        ''a fixed key between multiple devices in a script.\<newline>'' @
        ''\<newline>'' @
        ''Examples:\<newline>'' @
        ''  reset_api key ls_a1b2c3d4e5f6\<newline>'' @
        ''  reset_api regen          # preferred way''),
     Some (''Generate a fresh random API key.\<newline>'' @
        ''\<newline>'' @
        ''No arguments. The previous key is invalidated immediately;\<newline>'' @
        ''update your callers (curl scripts, automation) before relying\<newline>'' @
        ''on the new key.\<newline>'' @
        ''\<newline>'' @
        ''The key format is '' @ [CHR 0x22] @ ''ls_'' @ [CHR 0x22] @ '' + 12 lowercase hex chars (48 bits of\<newline>'' @
        ''entropy). After regen, run '' @ [CHR 0x60] @ ''reset_api get'' @ [CHR 0x60] @ '' to copy the full\<newline>'' @
        ''URL.\<newline>'' @
        ''\<newline>'' @
        ''Examples:\<newline>'' @
        ''  reset_api regen''),
     Some (''Show the reset API configuration plus a copyable URL.\<newline>'' @
        ''\<newline>'' @
        ''No arguments. The API key is partially masked in human output\<newline>'' @
        ''(only the last 4 chars are visible); the full URL is printed\<newline>'' @
        ''including the unmasked key so it can be copied into a script.\<newline>'' @
        ''\<newline>'' @
        ''Use the printed URL with curl:\<newline>'' @
        ''  curl http://LS-XXXXXXXX.local/api/reset?key=ls_...\<newline>'' @
        ''\<newline>'' @
        ''Examples:\<newline>'' @
        ''  reset_api get''),
     Some (''Show the HTTP server runtime status.\<newline>'' @
        ''\<newline>'' @
        ''Reports whether the API is enabled (configured to run) and\<newline>'' @
        ''whether the server socket is currently bound. Both should\<newline>'' @
        ''be true after '' @ [CHR 0x60] @ ''reset_api enable on'' @ [CHR 0x60] @ ''.\<newline>'' @
        ''\<newline>'' @
        ''Examples:\<newline>'' @
        ''  reset_api status'')]"

definition boot_help :: "string option list" where
  "boot_help = cli_help @
     capabilities_help @
     baseline_help @
     control_help @
     auth_help @
     passphrase_help @
     wifi_help @
     ble_help @
     ota_help @
     api_help @
     timer_help @
     relay_help @
     smtp_help @
     reminder_help @
     mail_groups_help @
     reset_api_help"

end
