(* ===== verification/SkHelp.thy ===== *)
theory SkHelp
  imports SkCommandHelp
begin

text \<open>
  The command \<open>help\<close> of \<open>sk_core/src/sk_cli.c\<close>: overview, topic listing, flat list, detail of one command, and the
  machine-mode answer with its JSON string writer; and the catalog of topics that \<open>main.c\<close> registers. A command is
  its row with its help text; what is written is a list of lines or pieces. The banner in front of the overview is
  an argument.
\<close>

type_synonym help_cmd = "cmd_row \<times> string option"

definition boot_help_cmds :: "help_cmd list" where
  "boot_help_cmds = zip boot_commands boot_help"

section \<open>Names and namespaces\<close>

definition namespace_len :: "string \<Rightarrow> nat" where
  "namespace_len name = (if CHR ''.'' \<in> set name then length (takeWhile (\<lambda>c. c \<noteq> CHR ''.'') name) else 0)"

text \<open>\<open>strncmp(name, topic, tlen) == 0 && name[tlen] == '.'\<close>\<close>

definition under_topic :: "string \<Rightarrow> string \<Rightarrow> bool" where
  "under_topic topic name = (take (length topic + 1) name = topic @ ''.'')"

definition opt_text :: "string option \<Rightarrow> string" where
  "opt_text s = (case s of None \<Rightarrow> [] | Some t \<Rightarrow> t)"

definition pad_right :: "nat \<Rightarrow> string \<Rightarrow> string" where
  "pad_right n s = s @ replicate (n - length s) (CHR '' '')"

section \<open>Human mode\<close>

definition render_command_detail :: "help_cmd \<Rightarrow> string" where
  "render_command_detail c =
     writef (cv_name (fst c) @ '' - '' @ opt_text (cv_summary (fst c)) @ ''\<newline>'') @
     (case cv_usage (fst c) of None \<Rightarrow> [] | Some u \<Rightarrow> ''Usage: '' @ u @ ''\<newline>'') @
     (case snd c of None \<Rightarrow> [] | Some h \<Rightarrow> ''\<newline>'' @ h @ ''\<newline>'') @
     (if cv_critical (fst c) then ''\<newline>This is a critical command; a confirm token is required.\<newline>'' else [])"

definition topic_line :: "cmd_row \<Rightarrow> string" where
  "topic_line r = writef (''  '' @ pad_right 28 (cv_name r) @ '' '' @ opt_text (cv_summary r) @ ''\<newline>'')"

definition topic_commands :: "help_cmd list \<Rightarrow> string \<Rightarrow> cmd_row list" where
  "topic_commands cmds topic = filter (\<lambda>r. \<not> cv_hidden r \<and> under_topic topic (cv_name r)) (map fst cmds)"

definition render_topic :: "help_cmd list \<Rightarrow> string \<Rightarrow> string" where
  "render_topic cmds topic =
     (let rs = topic_commands cmds topic in
      writef (topic @ '' commands:\<newline>'') @ concat (map topic_line rs) @
      (if rs = [] then writef (''  (no commands registered under '' @ [CHR 0x27] @ topic @ [CHR 0x27] @ '')\<newline>'')
       else writef (''\<newline>Type '' @ [CHR 0x27] @ ''help '' @ topic @ ''.<cmd>'' @ [CHR 0x27] @ '' for parameters and examples.\<newline>'')))"

definition render_flat_list :: "help_cmd list \<Rightarrow> string" where
  "render_flat_list cmds = ''All commands:\<newline>'' @
     concat (map (\<lambda>(r, h). writef (''  '' @ pad_right 28 (cv_name r) @ '' '' @ opt_text (cv_summary r) @
       (if cv_hidden r then ''  [hidden]'' else []) @ ''\<newline>'')) cmds)"

definition topic_has_visible_commands :: "help_cmd list \<Rightarrow> string \<Rightarrow> bool" where
  "topic_has_visible_commands cmds topic = list_ex (\<lambda>(r, h). \<not> cv_hidden r \<and> under_topic topic (cv_name r)) cmds"

definition topic_visible_command_count :: "help_cmd list \<Rightarrow> string \<Rightarrow> nat" where
  "topic_visible_command_count cmds topic = length (topic_commands cmds topic)"

definition category_line :: "help_cmd list \<Rightarrow> topic \<Rightarrow> string" where
  "category_line cmds t =
     (let n = topic_visible_command_count cmds (topic_name t) in
      writef (''  '' @ pad_right 12 (topic_name t) @ '' '' @ pad_right 36 (topic_summary t) @ '' ('' @ dec_nat n @ '' command'' @
        (if n = 1 then [] else ''s'') @ '')\<newline>''))"

definition category_topics :: "help_cmd list \<Rightarrow> topic list \<Rightarrow> string option \<Rightarrow> topic list" where
  "category_topics cmds ts cat =
     filter (\<lambda>t. topic_category t = cat \<and> topic_visible_command_count cmds (topic_name t) \<noteq> 0) ts"

definition render_category_topics :: "help_cmd list \<Rightarrow> topic list \<Rightarrow> string option \<Rightarrow> string" where
  "render_category_topics cmds ts cat = concat (map (category_line cmds) (category_topics cmds ts cat))"

text \<open>The categories in the order in which the topics name them, each once.\<close>

fun seen_categories :: "string list \<Rightarrow> topic list \<Rightarrow> string list" where
  "seen_categories seen [] = seen"
| "seen_categories seen (t # ts) =
     (case topic_category t of
        None \<Rightarrow> seen_categories seen ts
      | Some c \<Rightarrow> seen_categories (if c \<in> set seen \<or> length seen \<ge> SK_CLI_MAX_TOPICS then seen else seen @ [c]) ts)"

definition section_shown :: "help_cmd list \<Rightarrow> topic list \<Rightarrow> string option \<Rightarrow> bool" where
  "section_shown cmds ts cat = list_ex (\<lambda>t. topic_category t = cat \<and> topic_has_visible_commands cmds (topic_name t)) ts"

definition root_commands :: "help_cmd list \<Rightarrow> cmd_row list" where
  "root_commands cmds = filter (\<lambda>r. \<not> cv_hidden r \<and> namespace_len (cv_name r) = 0) (map fst cmds)"

definition root_line :: "cmd_row \<Rightarrow> string" where
  "root_line r = writef (''  '' @ pad_right 12 (cv_name r) @ '' '' @ opt_text (cv_summary r) @ ''\<newline>'')"

definition overview_end :: string where
  "overview_end =
     ''\<newline>Type '' @ [CHR 0x27] @ ''help <topic>'' @ [CHR 0x27] @ '' for that topic'' @ [CHR 0x27] @ ''s commands,\<newline>'' @
     ''     '' @ [CHR 0x27] @ ''help <command>'' @ [CHR 0x27] @ '' for one command'' @ [CHR 0x27] @ ''s detail,\<newline>'' @
     ''     '' @ [CHR 0x27] @ ''help all'' @ [CHR 0x27] @ '' for the full flat list (incl. hidden).\<newline>''"

definition render_overview :: "string \<Rightarrow> help_cmd list \<Rightarrow> topic list \<Rightarrow> string" where
  "render_overview banner cmds ts =
     banner @
     concat (map (\<lambda>c. if section_shown cmds ts (Some c) then writef (''\<newline>'' @ c @ ''\<newline>'') @ render_category_topics cmds ts (Some c)
        else []) (seen_categories [] ts)) @
     (if section_shown cmds ts None then ''\<newline>OTHER\<newline>'' @ render_category_topics cmds ts None else []) @
     (if root_commands cmds \<noteq> [] then ''\<newline>ROOT\<newline>'' @ concat (map root_line (root_commands cmds)) else []) @
     overview_end"

section \<open>Machine mode\<close>

definition json_char :: "char \<Rightarrow> string" where
  "json_char c =
     (if char_code c = 0x22 then [CHR 0x5C, CHR 0x22]
      else if char_code c = 0x5C then [CHR 0x5C, CHR 0x5C]
      else if char_code c = 10 then [CHR 0x5C, CHR ''n'']
      else if char_code c = 13 then [CHR 0x5C, CHR ''r'']
      else if char_code c = 9 then [CHR 0x5C, CHR ''t'']
      else if char_code c = 8 then [CHR 0x5C, CHR ''b'']
      else if char_code c = 12 then [CHR 0x5C, CHR ''f'']
      else if char_code c < 0x20 then
        [CHR 0x5C, CHR ''u'', CHR ''0'', CHR ''0'', hex_digit (char_code c div 16), hex_digit (char_code c mod 16)]
      else [c])"

definition emit_json_string :: "string option \<Rightarrow> string" where
  "emit_json_string s = (case s of None \<Rightarrow> ''null'' | Some t \<Rightarrow> [CHR 0x22] @ concat (map json_char t) @ [CHR 0x22])"

definition help_entry :: "help_cmd \<Rightarrow> string" where
  "help_entry c = ''{'' @ jk ''name'' @ emit_json_string (Some (cv_name (fst c))) @
     '','' @ jk ''summary'' @ emit_json_string (cv_summary (fst c)) @ '','' @ jk ''usage'' @ emit_json_string (cv_usage (fst c)) @
     '','' @ jk ''help_block'' @ emit_json_string (snd c) @
     writef ('','' @ jk ''critical'' @ jbool (cv_critical (fst c)) @ '','' @ jk ''hidden'' @ jbool (cv_hidden (fst c)) @ ''}'')"

definition topic_entry :: "topic \<Rightarrow> string" where
  "topic_entry t = ''{'' @ jk ''name'' @ emit_json_string (Some (topic_name t)) @
     '','' @ jk ''summary'' @ emit_json_string (Some (topic_summary t)) @
     '','' @ jk ''category'' @ emit_json_string (topic_category t) @ ''}''"

definition help_machine :: "int \<Rightarrow> help_cmd list \<Rightarrow> topic list \<Rightarrow> string" where
  "help_machine rid cmds ts =
     ''{'' @ jk ''id'' @ snprintf 16 (dec_int rid) @ '','' @ jk ''ok'' @ ''true,'' @ jk ''data'' @ ''{'' @ jk ''commands'' @ ''['' @
     comma_join (map help_entry cmds) @ ''],'' @ jk ''topics'' @ ''['' @ comma_join (map topic_entry ts) @ '']}}\<newline>''"

section \<open>The command\<close>

definition builtin_help :: "string \<Rightarrow> help_cmd list \<Rightarrow> topic list \<Rightarrow> cli_ctx \<Rightarrow> string" where
  "builtin_help banner cmds ts ctx =
     (if is_machine_mode ctx then help_machine (machine_id ctx) cmds ts
      else (case sk_cli_arg ctx 0 of
          None \<Rightarrow> render_overview banner cmds ts
        | Some target \<Rightarrow>
            (if target = ''all'' then render_flat_list cmds
             else (case find (\<lambda>c. cv_name (fst c) = target) cmds of
                 Some c \<Rightarrow> render_command_detail c
               | None \<Rightarrow>
                   (if list_ex (\<lambda>c. under_topic target (cv_name (fst c))) cmds then render_topic cmds target
                    else writef (''error: no command or topic '' @ [CHR 0x27] @ target @ [CHR 0x27] @ ''. Try '' @
                      [CHR 0x27] @ ''help'' @ [CHR 0x27] @ ''.\<newline>''))))))"

section \<open>The catalog of topics of the firmware\<close>

definition tp :: "string \<Rightarrow> string \<Rightarrow> string \<Rightarrow> topic" where
  "tp n s c = \<lparr> topic_name = n, topic_summary = s, topic_category = Some c \<rparr>"

definition boot_topics :: "topic list" where
  "boot_topics =
    [tp ''timer'' ''Countdown timer (set / start / stop / reset / status)'' ''TIMER'',
     tp ''vacation'' ''Vacation mode: pause countdown for N days'' ''TIMER'',
     tp ''wifi'' ''Network connection (primary + backup)'' ''SYSTEM'',
     tp ''ble'' ''Bluetooth transport'' ''SYSTEM'',
     tp ''ota'' ''Firmware updates (check / install / rollback)'' ''SYSTEM'',
     tp ''device'' ''Identity, restart, factory reset'' ''SYSTEM'',
     tp ''reset_api'' ''Inbound HTTP /api/reset endpoint'' ''SYSTEM'',
     tp ''logs'' ''Log entries (ring buffer)'' ''SYSTEM'',
     tp ''pairing'' ''SKAPP pairing window (open / status / close)'' ''SKAPP'',
     tp ''auth'' ''SKAPP connection passphrase (set / change / mode)'' ''SKAPP'',
     tp ''bond'' ''Paired SKAPP installs (list / remove)'' ''SKAPP'',
     tp ''smtp'' ''SMTPS mail server (host, port, sender, api_key)'' ''ALARM OUTPUT'',
     tp ''reminder'' ''Early-warning reminder mail (fires on timer.alarm)'' ''ALARM OUTPUT'',
     tp ''api'' ''Outbound webhook presets (Telegram, IFTTT, custom)'' ''ALARM OUTPUT'',
     tp ''mail'' ''Mail groups (recipients + subject + body)'' ''LS OUTPUT'',
     tp ''relay'' ''Output relay (GPIO + delay + duration + pulse)'' ''LS OUTPUT'']"

end
