(* ===== verification/SkHelpProps.thy ===== *)
theory SkHelpProps
  imports SkHelp
begin

text \<open>
  The command \<open>help\<close>: its JSON strings decode to the texts they stand for, and the overview with the topic listings
  shows every command of the firmware that is not hidden.
\<close>

section \<open>A reader of JSON strings\<close>

definition hex_value :: "char \<Rightarrow> nat option" where
  "hex_value c = (case find (\<lambda>i. hex_digit i = c) [0..<16] of None \<Rightarrow> None | Some i \<Rightarrow> Some i)"

definition escape_value :: "char \<Rightarrow> char option" where
  "escape_value e =
     (if e = CHR 0x22 then Some (CHR 0x22) else if e = CHR 0x5C then Some (CHR 0x5C)
      else if e = CHR ''n'' then Some (CHR 0x0A) else if e = CHR ''r'' then Some (CHR 0x0D)
      else if e = CHR ''t'' then Some (CHR 0x09) else if e = CHR ''b'' then Some (CHR 0x08)
      else if e = CHR ''f'' then Some (CHR 0x0C) else None)"

text \<open>Behind the opening quote: the characters up to the closing quote, and the text behind it; control characters are refused.\<close>

fun json_chars :: "string \<Rightarrow> (string \<times> string) option" where
  "json_chars [] = None"
| "json_chars (c # p) =
     (if c = CHR 0x22 then Some ([], p)
      else if c = CHR 0x5C then
        (case p of
           [] \<Rightarrow> None
         | e # r \<Rightarrow>
             (if e = CHR ''u'' then
                (case r of
                   g # h # x # y # r \<Rightarrow>
                     (if hex_value g = Some 0 \<and> hex_value h = Some 0 \<and> hex_value x \<noteq> None \<and> hex_value y \<noteq> None
                      then map_option (\<lambda>(s, r). (char_of (16 * the (hex_value x) + the (hex_value y)) # s, r)) (json_chars r)
                      else None)
                 | _ \<Rightarrow> None)
              else if escape_value e = None then None
              else map_option (\<lambda>(s, r). (the (escape_value e) # s, r)) (json_chars r)))
      else if char_code c < 0x20 then None
      else map_option (\<lambda>(s, r). (c # s, r)) (json_chars p))"

definition json_string :: "string \<Rightarrow> string option" where
  "json_string p = (case p of [] \<Rightarrow> None | c # p \<Rightarrow> if c = CHR 0x22 then
     (case json_chars p of Some (s, []) \<Rightarrow> Some s | _ \<Rightarrow> None) else None)"

lemma hex_value_digit: "i < 16 \<Longrightarrow> hex_value (hex_digit i) = Some i"
  by (drule nibble_cases) (auto simp: hex_value_def hex_digit_def upt_conv_Cons)

lemma char_codes: "char_code (CHR 0x22) = 0x22" "char_code (CHR 0x5C) = 0x5C" "char_code (CHR 10) = 10" "char_code (CHR 13) = 13"
  "char_code (CHR 9) = 9" "char_code (CHR 8) = 8" "char_code (CHR 12) = 12"
  by (simp_all add: char_code_def)

lemma json_chars_char: "json_chars (json_char c @ p) = map_option (\<lambda>(s, r). (c # s, r)) (json_chars p)"
proof (cases "char_code c < 0x20 \<or> c = CHR 0x22 \<or> c = CHR 0x5C")
  case False
  then have "char_code c \<noteq> 0x22" "char_code c \<noteq> 0x5C" unfolding char_codes [symmetric] by (simp_all add: char_code_eq)
  then have "json_char c = [c]" using False by (simp add: json_char_def)
  then show ?thesis using False by simp
next
  case True
  let ?n = "char_code c"
  consider "c = CHR 0x22" | "c = CHR 0x5C" | "c = CHR 0x0A" | "c = CHR 0x0D" | "c = CHR 0x09" | "c = CHR 0x08" | "c = CHR 0x0C"
    | "?n < 0x20" "c \<notin> {CHR 0x22, CHR 0x5C, CHR 0x0A, CHR 0x0D, CHR 0x09, CHR 0x08, CHR 0x0C}"
    using True by auto
  then show ?thesis
  proof cases
    case 8
    have "?n \<noteq> 0x22" "?n \<noteq> 0x5C" "?n \<noteq> 10" "?n \<noteq> 13" "?n \<noteq> 9" "?n \<noteq> 8" "?n \<noteq> 12"
      using 8(2) unfolding char_codes [symmetric] by (simp_all add: char_code_eq)
    then have j: "json_char c = [CHR 0x5C, CHR ''u'', CHR ''0'', CHR ''0'', hex_digit (?n div 16), hex_digit (?n mod 16)]"
      using 8(1) by (simp add: json_char_def)
    have z: "hex_value (CHR ''0'') = Some 0" using hex_value_digit [of 0] by (simp add: hex_digit_def)
    have "?n div 16 < 16" "?n mod 16 < 16" using 8(1) by simp_all
    then have "hex_value (hex_digit (?n div 16)) = Some (?n div 16)" "hex_value (hex_digit (?n mod 16)) = Some (?n mod 16)"
      by (simp_all add: hex_value_digit)
    moreover have "char_of (16 * (?n div 16) + ?n mod 16) = c" by (simp add: char_code_def)
    ultimately show ?thesis by (simp add: j z)
  qed (simp_all add: json_char_def char_code_def escape_value_def)
qed

lemma json_chars_all: "json_chars (concat (map json_char s) @ CHR 0x22 # p) = Some (s, p)"
proof (induction s)
  case (Cons c s)
  then show ?case by (simp add: json_chars_char del: json_chars.simps)
qed simp

interpretation help_strings: codec "\<lambda>s. emit_json_string (Some s)" json_string "\<lambda>s. True"
  by unfold_locales (simp add: emit_json_string_def json_string_def json_chars_all)

text \<open>
  The strings of the machine-mode answer of \<open>help\<close> are exact: whatever a name, summary, usage or help text holds,
  quotes, backslashes, newlines and any other control character included, reading the JSON string that
  \<open>emit_json_string\<close> writes gives the text back, so two different texts are never written alike.
\<close>
theorem help_strings_decode:
  "json_string (emit_json_string (Some s)) = Some s \<and> (emit_json_string (Some s) = emit_json_string (Some t) \<longrightarrow> s = t)"
  using help_strings.enc_inj [of s t] help_strings.dec_enc [of s] by simp

section \<open>The catalog of the firmware\<close>

lemma help_lengths:
  "length cli_help = length cli_rows"
  "length capabilities_help = length capabilities_rows"
  "length baseline_help = length baseline_rows"
  "length control_help = length control_rows"
  "length auth_help = length auth_rows"
  "length passphrase_help = length passphrase_rows"
  "length wifi_help = length wifi_rows"
  "length ble_help = length ble_rows"
  "length ota_help = length ota_rows"
  "length api_help = length api_rows"
  "length timer_help = length timer_rows"
  "length relay_help = length relay_rows"
  "length smtp_help = length smtp_rows"
  "length reminder_help = length reminder_rows"
  "length mail_groups_help = length mail_groups_rows"
  "length reset_api_help = length reset_api_rows"
  by (simp_all only: list.size cli_help_def cli_rows_def capabilities_help_def capabilities_rows_def baseline_help_def baseline_rows_def control_help_def control_rows_def auth_help_def auth_rows_def passphrase_help_def passphrase_rows_def wifi_help_def wifi_rows_def ble_help_def ble_rows_def ota_help_def ota_rows_def api_help_def api_rows_def timer_help_def timer_rows_def relay_help_def relay_rows_def smtp_help_def smtp_rows_def reminder_help_def reminder_rows_def mail_groups_help_def mail_groups_rows_def reset_api_help_def reset_api_rows_def)

lemma boot_help_cmds_rows: "map fst boot_help_cmds = boot_commands"
  by (simp add: boot_help_cmds_def boot_commands_def boot_help_def help_lengths)

definition covered :: "cmd_row \<Rightarrow> bool" where
  "covered r \<longleftrightarrow> cv_hidden r \<or> namespace_len (cv_name r) = 0 \<or> list_ex (\<lambda>t. under_topic (topic_name t) (cv_name r)) boot_topics"

lemma boot_covered: "list_all covered boot_commands"
  by code_simp

text \<open>A text that is part of what is printed.\<close>

definition printed :: "string \<Rightarrow> string \<Rightarrow> bool" where
  "printed x out \<longleftrightarrow> (\<exists>pre post. out = pre @ x @ post)"

lemma printed_left: "printed x a \<Longrightarrow> printed x (a @ b)" and printed_right: "printed x b \<Longrightarrow> printed x (a @ b)"
  by (auto simp: printed_def) (metis append.assoc)+

lemma printed_concat: "y \<in> set ys \<Longrightarrow> printed x (f y) \<Longrightarrow> printed x (concat (map f ys))"
  by (induction ys) (auto intro: printed_left printed_right)

lemma printed_self: "printed x x"
  by (auto simp: printed_def intro: exI [of _ "[]"])

lemma category_seen:
  "t \<in> set ts \<Longrightarrow> topic_category t = Some c \<Longrightarrow> length seen + length ts \<le> SK_CLI_MAX_TOPICS \<Longrightarrow>
     c \<in> set (seen_categories seen ts)"
proof (induction seen ts rule: seen_categories.induct)
  case (2 seen u ts)
  have keep: "x \<in> set s \<Longrightarrow> x \<in> set (seen_categories s us)" for x s us
    by (induction s us rule: seen_categories.induct) (auto split: option.split)
  show ?case using 2 keep by (auto split: option.split)
qed simp

lemma topic_in_overview:
  assumes t: "t \<in> set ts" "topic_category t = Some c" and v: "topic_commands cmds (topic_name t) \<noteq> []"
    and n: "length ts \<le> SK_CLI_MAX_TOPICS"
  shows "printed (category_line cmds t) (render_overview banner cmds ts)"
proof -
  obtain r where "r \<in> set (topic_commands cmds (topic_name t))" using v by (cases "topic_commands cmds (topic_name t)") auto
  then have "topic_has_visible_commands cmds (topic_name t)"
    by (auto simp: topic_commands_def topic_has_visible_commands_def list_ex_iff)
  then have s: "section_shown cmds ts (Some c)" using t by (auto simp: section_shown_def list_ex_iff)
  have "t \<in> set (category_topics cmds ts (Some c))" using t v by (simp add: category_topics_def topic_visible_command_count_def)
  then have "printed (category_line cmds t) (render_category_topics cmds ts (Some c))"
    unfolding render_category_topics_def by (rule printed_concat) (rule printed_self)
  then have p: "printed (category_line cmds t) (if section_shown cmds ts (Some c)
      then writef (''\<newline>'' @ c @ ''\<newline>'') @ render_category_topics cmds ts (Some c) else [])"
    using s by (simp only: if_True printed_right)
  have "c \<in> set (seen_categories [] ts)" using category_seen [OF t] n by simp
  show ?thesis unfolding render_overview_def
  proof (rule printed_right, rule printed_left, rule printed_concat)
    show "c \<in> set (seen_categories [] ts)" by fact
    show "printed (category_line cmds t) (if section_shown cmds ts (Some c)
      then writef (''\<newline>'' @ c @ ''\<newline>'') @ render_category_topics cmds ts (Some c) else [])" by (rule p)
  qed
qed

lemma root_in_overview: "r \<in> set (root_commands cmds) \<Longrightarrow> printed (root_line r) (render_overview banner cmds ts)"
proof -
  assume r: "r \<in> set (root_commands cmds)"
  then have ne: "root_commands cmds \<noteq> []" by auto
  have "printed (root_line r) (concat (map root_line (root_commands cmds)))" using r by (rule printed_concat) (rule printed_self)
  then have "printed (root_line r) (if root_commands cmds \<noteq> [] then ''\<newline>ROOT\<newline>'' @ concat (map root_line (root_commands cmds)) else [])"
    using ne by (simp only: if_True simp_thms printed_right)
  then show ?thesis unfolding render_overview_def by (intro printed_right [OF printed_right [OF printed_right [OF printed_left]]])
qed

lemma boot_names_dotted: "list_all (\<lambda>r. list_ex (\<lambda>c. c = CHR ''.'') (cv_name r) \<or> cv_name r = ''help'') boot_commands"
  by code_simp

lemma boot_topics_plain:
  "list_all (\<lambda>t. \<not> list_ex (\<lambda>c. c = CHR ''.'') (topic_name t) \<and> topic_name t \<noteq> ''help'' \<and> topic_name t \<noteq> ''all'') boot_topics"
  by (simp add: boot_topics_def tp_def)

lemma topic_not_command: "t \<in> set boot_topics \<Longrightarrow> r \<in> set boot_commands \<Longrightarrow> cv_name r \<noteq> topic_name t"
  using boot_names_dotted boot_topics_plain unfolding list_all_iff by metis

lemma boot_topics_categories: "list_all (\<lambda>t. topic_category t \<noteq> None) boot_topics" "length boot_topics = 16"
  by (simp_all add: boot_topics_def tp_def)

text \<open>
  \<open>help\<close> leads to every command of the firmware that is not hidden: the overview prints the command itself when it
  has no namespace, and otherwise prints a topic of the catalog whose \<open>help\<close> listing has the command's line.
\<close>
theorem help_reaches_visible_commands:
  assumes r: "r \<in> set boot_commands" "\<not> cv_hidden r"
  shows "(namespace_len (cv_name r) = 0 \<and>
      printed (root_line r) (builtin_help banner boot_help_cmds boot_topics (human_ctx a []))) \<or>
    (\<exists>t \<in> set boot_topics.
      printed (category_line boot_help_cmds t) (builtin_help banner boot_help_cmds boot_topics (human_ctx a [])) \<and>
      printed (topic_line r) (builtin_help banner boot_help_cmds boot_topics (human_ctx a [topic_name t])))"
proof -
  have over: "builtin_help banner boot_help_cmds boot_topics (human_ctx a []) = render_overview banner boot_help_cmds boot_topics"
    by (simp add: builtin_help_def human_ctx_def sk_cli_arg_def)
  have c: "covered r" using boot_covered r by (simp add: list_all_iff)
  show ?thesis
  proof (cases "namespace_len (cv_name r) = 0")
    case True
    then have "r \<in> set (root_commands boot_help_cmds)" using r by (simp add: root_commands_def boot_help_cmds_rows)
    then show ?thesis using True root_in_overview by (simp add: over)
  next
    case False
    then obtain t where t: "t \<in> set boot_topics" "under_topic (topic_name t) (cv_name r)"
      using c r by (auto simp: covered_def list_ex_iff)
    have m: "r \<in> set (topic_commands boot_help_cmds (topic_name t))" using r t by (simp add: topic_commands_def boot_help_cmds_rows)
    obtain k where k: "topic_category t = Some k" using boot_topics_categories t by (auto simp: list_all_iff)
    have one: "printed (category_line boot_help_cmds t) (render_overview banner boot_help_cmds boot_topics)"
      using m boot_topics_categories by (intro topic_in_overview [OF t(1) k]) (auto simp: SK_CLI_MAX_TOPICS_def)
    have rows: "x \<in> set boot_help_cmds \<Longrightarrow> fst x \<in> set boot_commands" for x
      using boot_help_cmds_rows by (metis image_eqI set_map)
    have "find (\<lambda>c. cv_name (fst c) = topic_name t) boot_help_cmds = None" "topic_name t \<noteq> ''all''"
      using topic_not_command [OF t(1)] boot_topics_plain t(1) rows by (auto simp: find_None_iff list_all_iff)
    moreover have "list_ex (\<lambda>c. under_topic (topic_name t) (cv_name (fst c))) boot_help_cmds"
      using m by (auto simp: topic_commands_def list_ex_iff)
    ultimately have "builtin_help banner boot_help_cmds boot_topics (human_ctx a [topic_name t]) = render_topic boot_help_cmds (topic_name t)"
      by (simp add: builtin_help_def human_ctx_def sk_cli_arg_def)
    moreover have "printed (topic_line r) (render_topic boot_help_cmds (topic_name t))"
      unfolding render_topic_def Let_def
      by (intro printed_right [OF printed_left [OF printed_concat [OF m printed_self]]])
    ultimately show ?thesis using one t by (auto simp: over)
  qed
qed

theorem help_reaches_visible_commands_witness:
  "\<exists>t \<in> set boot_topics.
     printed (category_line boot_help_cmds t) (builtin_help [] boot_help_cmds boot_topics (human_ctx False [])) \<and>
     printed (topic_line (hd timer_rows)) (builtin_help [] boot_help_cmds boot_topics (human_ctx False [topic_name t]))"
proof -
  have r: "hd timer_rows \<in> set boot_commands" "\<not> cv_hidden (hd timer_rows)" and n: "namespace_len (cv_name (hd timer_rows)) \<noteq> 0"
    by (simp_all add: boot_commands_def timer_rows_def row_def namespace_len_def)
  from help_reaches_visible_commands [OF r] show ?thesis
  proof
    assume "namespace_len (cv_name (hd timer_rows)) = 0 \<and>
      printed (root_line (hd timer_rows)) (builtin_help [] boot_help_cmds boot_topics (human_ctx False []))"
    then show ?thesis using n by (elim conjE notE)
  qed
qed

end
