(* ===== verification/SkLogProps.thy ===== *)
theory SkLogProps
  imports SkLog
begin

text \<open>
  The ring of the event log against its specification: a queue and the list of all the records that were drained.
\<close>

section \<open>Specification\<close>

type_synonym log_spec = "sk_log_record list \<times> sk_log_record list"

datatype log_op = LogEvent clock sk_log_level string string string | LogDrain bool

definition log_op :: "log_op \<Rightarrow> sk_log \<Rightarrow> sk_log" where
  "log_op x s = (case x of LogEvent ck lvl tag ev text \<Rightarrow> sk_log_event ck lvl tag ev text s | LogDrain ok \<Rightarrow> log_drain ok s)"

definition log_run :: "log_op list \<Rightarrow> sk_log \<Rightarrow> sk_log" where
  "log_run xs s = fold log_op xs s"

definition the_record :: "clock \<Rightarrow> sk_log_level \<Rightarrow> string \<Rightarrow> string \<Rightarrow> string \<Rightarrow> sk_log_record" where
  "the_record ck lvl tag ev text = \<lparr> ts_unix = current_unix_or_zero ck, ts_uptime_us = up_us ck, level = lvl,
     log_tag = tag, log_event = ev, log_msg = take SK_LOG_MSG_MAX text \<rparr>"

text \<open>The queue drops a record when 32 wait; a drain moves the oldest waiting record to the history, or loses it.\<close>

definition spec_op :: "log_op \<Rightarrow> log_spec \<Rightarrow> log_spec" where
  "spec_op x w = (case w of (waiting, hist) \<Rightarrow>
     (case x of
        LogEvent ck lvl tag ev text \<Rightarrow>
          ((if length waiting < 32 then waiting @ [the_record ck lvl tag ev text] else waiting), hist)
      | LogDrain ok \<Rightarrow> (case waiting of [] \<Rightarrow> (waiting, hist) | r # rs \<Rightarrow> (rs, if ok then hist @ [r] else hist))))"

definition spec_run :: "log_op list \<Rightarrow> log_spec \<Rightarrow> log_spec" where
  "spec_run xs w = fold spec_op xs w"

definition last64 :: "'a list \<Rightarrow> 'a list" where
  "last64 l = drop (length l - 64) l"

text \<open>A callback over a list, until it answers \<open>False\<close>.\<close>

fun visit :: "(sk_log_record \<Rightarrow> 's \<Rightarrow> bool \<times> 's) \<Rightarrow> sk_log_record list \<Rightarrow> 's \<Rightarrow> 's" where
  "visit cb [] u = u"
| "visit cb (r # rs) u = (case cb r u of (keep, u) \<Rightarrow> if keep then visit cb rs u else u)"

definition shown :: "sk_log_level \<Rightarrow> nat \<Rightarrow> sk_log_record list \<Rightarrow> sk_log_record list" where
  "shown min_level k l = take k (filter (\<lambda>r. level_no min_level \<le> level_no (level r)) l)"

section \<open>The ring\<close>

definition ring_holds :: "sk_log_record list \<Rightarrow> sk_log \<Rightarrow> bool" where
  "ring_holds l s \<longleftrightarrow> length (ring s) = 64 \<and> ring_head s = length l mod 64 \<and> ring_count s = min (length l) 64 \<and>
     (\<forall>i < length l. length l \<le> i + 64 \<longrightarrow> ring s ! (i mod 64) = l ! i)"

lemma ring_holds_start: "ring_holds [] (log_static\<lparr>log_ready := b\<rparr>)"
  by (simp add: ring_holds_def log_static_def SK_LOG_RING_CAPACITY_def)

lemma mod64_apart: "(i::nat) < n \<Longrightarrow> n < i + 64 \<Longrightarrow> n mod 64 \<noteq> i mod 64"
proof
  assume lt: "i < n" "n < i + 64" and eq: "n mod 64 = i mod 64"
  then have "64 dvd n - i" by (simp add: mod_eq_dvd_iff_nat)
  then have "64 \<le> n - i" using lt by (intro dvd_imp_le) auto
  then show False using lt by simp
qed

lemma ring_holds_write:
  assumes h: "ring_holds l s"
  shows "ring_holds (l @ [r]) (ring_write r s)"
proof -
  have len: "length (ring s) = 64" and head: "ring_head s = length l mod 64" and cnt: "ring_count s = min (length l) 64"
    and old: "\<And>i. i < length l \<Longrightarrow> length l \<le> i + 64 \<Longrightarrow> ring s ! (i mod 64) = l ! i"
    using h by (auto simp: ring_holds_def)
  have cell: "(ring s)[length l mod 64 := r] ! (i mod 64) = (l @ [r]) ! i"
    if i: "i < Suc (length l)" "Suc (length l) \<le> i + 64" for i
  proof (cases "i = length l")
    case True
    then show ?thesis using len by simp
  next
    case False
    then have lt: "i < length l" and le: "length l < i + 64" using i by simp_all
    show ?thesis using mod64_apart [OF lt le] old [OF lt] le lt by (simp add: nth_append)
  qed
  have "Suc (length l mod 64) mod 64 = Suc (length l) mod 64" by (simp add: mod_Suc_eq)
  then show ?thesis using len cnt cell
    by (simp add: ring_holds_def ring_write_def SK_LOG_RING_CAPACITY_def head)
qed

lemma ring_positions:
  assumes h: "ring_holds l s"
  shows "map ((!) (ring s)) (map (\<lambda>i. ((ring_head s + 64 - ring_count s) mod 64 + i) mod 64) [0..<ring_count s]) = last64 l"
proof (rule nth_equalityI)
  have cnt: "ring_count s = min (length l) 64" and head: "ring_head s = length l mod 64"
    and old: "\<And>i. i < length l \<Longrightarrow> length l \<le> i + 64 \<Longrightarrow> ring s ! (i mod 64) = l ! i"
    using h by (auto simp: ring_holds_def)
  show "length (map ((!) (ring s)) (map (\<lambda>i. ((ring_head s + 64 - ring_count s) mod 64 + i) mod 64) [0..<ring_count s]))
      = length (last64 l)"
    by (simp add: last64_def cnt min_def)
  fix i
  assume "i < length (map ((!) (ring s)) (map (\<lambda>i. ((ring_head s + 64 - ring_count s) mod 64 + i) mod 64) [0..<ring_count s]))"
  then have i: "i < min (length l) 64" by (simp add: cnt)
  have pos: "((length l mod 64 + 64 - min (length l) 64) mod 64 + i) mod 64 = (length l - 64 + i) mod 64"
  proof (cases "length l \<le> 64")
    case True
    then have "length l = 64 \<or> length l < 64" by auto
    then show ?thesis by auto
  next
    case False
    then have "(length l - 64) mod 64 = length l mod 64" by (simp add: le_mod_geq)
    then show ?thesis using False by (metis add_diff_cancel_right' linorder_linear min.absorb2 mod_add_left_eq mod_mod_trivial)
  qed
  have "ring s ! ((length l - 64 + i) mod 64) = l ! (length l - 64 + i)" using i by (intro old) auto
  then show "map ((!) (ring s)) (map (\<lambda>i. ((ring_head s + 64 - ring_count s) mod 64 + i) mod 64) [0..<ring_count s]) ! i
      = last64 l ! i"
    using i pos by (simp add: cnt head last64_def)
qed

section \<open>The walk\<close>

lemma walk_loop_visit:
  "walk_loop rg ps m k e cb u = visit cb (shown m (k - e) (map ((!) rg) ps)) u"
proof (induction rg "ps" m k e cb u rule: walk_loop.induct)
  case (2 rg idx ps m k e cb u)
  show ?case
  proof (cases "k \<le> e")
    case True
    then show ?thesis by (simp add: shown_def)
  next
    case False
    then obtain j where j: "k - e = Suc j" "k - (e + 1) = j" by (metis Suc_diff_Suc add.commute not_le plus_1_eq_Suc)
    then show ?thesis using False 2 by (auto simp: shown_def split: prod.split)
  qed
qed (simp add: shown_def)

lemma walk_shows:
  "ring_holds l s \<Longrightarrow> log_ready s \<Longrightarrow> sk_log_walk m k cb s u = visit cb (shown m k (last64 l)) u"
  using ring_positions [of l s]
  by (simp add: sk_log_walk_def Let_def walk_loop_visit SK_LOG_RING_CAPACITY_def)

section \<open>The simulation\<close>

definition log_sim :: "log_spec \<Rightarrow> sk_log \<Rightarrow> bool" where
  "log_sim w s \<longleftrightarrow> log_ready s \<and> log_queue s = fst w \<and> ring_holds (snd w) s"

lemma ring_holds_queue: "ring_holds l (s\<lparr>log_queue := x\<rparr>) = ring_holds l s"
  by (simp add: ring_holds_def)

lemma log_sim_op: "log_sim w s \<Longrightarrow> log_sim (spec_op x w) (log_op x s)"
proof (cases x)
  case (LogEvent ck lvl tag ev msg)
  assume "log_sim w s"
  then show ?thesis
    by (simp add: log_sim_def spec_op_def log_op_def LogEvent sk_log_event_def Let_def the_record_def snprintf_def
        SK_LOG_MSG_MAX_def SK_LOG_QUEUE_DEPTH_def ring_holds_queue case_prod_beta)
next
  case (LogDrain ok)
  assume "log_sim w s"
  moreover have "log_queue (ring_write r t) = log_queue t" "log_ready (ring_write r t) = log_ready t" for r t
    by (simp_all add: ring_write_def)
  ultimately show ?thesis
    by (auto simp: log_sim_def spec_op_def log_op_def LogDrain log_drain_def Let_def ring_holds_queue case_prod_beta
        intro!: ring_holds_write split: list.split)
qed

lemma log_sim_run: "log_sim w s \<Longrightarrow> log_sim (spec_run xs w) (log_run xs s)"
proof (induction xs arbitrary: w s)
  case (Cons x xs)
  then show ?case by (simp add: spec_run_def log_run_def log_sim_op)
qed (simp add: spec_run_def log_run_def)

lemma log_sim_boot: "log_sim ([], []) (snd (sk_log_init True True True log_static))"
  using ring_holds_start [of True] by (simp add: log_sim_def sk_log_init_def log_static_def)

section \<open>Properties\<close>

text \<open>
  From the start of the log, after any sequence of events and drains, a walk calls its callback on the records
  of the level or above among the last 64 drained ones, oldest first, at most \<open>max_count\<close> of them and until the
  callback says stop: the ring of 64 entries with its head and counter refines an unbounded history behind a queue
  that drops when 32 records wait.
\<close>
theorem log_ring_refines_history:
  "sk_log_walk m k cb (log_run xs (snd (sk_log_init True True True log_static))) u =
     visit cb (shown m k (last64 (snd (spec_run xs ([], []))))) u"
  using log_sim_run [OF log_sim_boot, of xs] by (simp add: log_sim_def walk_shows)

end
