(* ===== verification/SkBaselineProps.thy ===== *)
theory SkBaselineProps
  imports SkBaseline SkLogProps SkCliProps
begin

text \<open>
  Lemmas on the baseline commands: what the bounded list writers of \<open>device.commands\<close>, \<open>device.manifest\<close> and
  \<open>logs.get\<close> answer, what that means for the firmware's own command table, and the flag \<open>user_configured\<close>.
\<close>

section \<open>The bounded list writer\<close>

lemma comma_join_snoc: "comma_join (xs @ [x]) = (if xs = [] then x else comma_join xs @ '','' @ x)"
  by (induction xs rule: comma_join.induct) auto

lemma comma_join_Cons: "comma_join (x # xs) = (if xs = [] then x else x @ '','' @ comma_join xs)"
  by (cases xs) simp_all

lemma length_comma_join_take: "length (comma_join (take k xs)) \<le> length (comma_join xs)"
proof (induction xs arbitrary: k)
  case (Cons x xs)
  then show ?case by (cases k) (auto simp: comma_join_Cons)
qed simp

lemma sum_le_comma_join: "sum_list (map length xs) \<le> length (comma_join xs)"
  by (induction xs rule: comma_join.induct) auto

lemma length_comma_join: "length (comma_join xs) = sum_list (map length xs) + (length xs - 1)"
  by (induction xs rule: comma_join.induct) auto

text \<open>The entries that fit: the longest prefix whose text stays below the capacity.\<close>

definition fits :: "nat \<Rightarrow> string \<Rightarrow> string list \<Rightarrow> nat \<Rightarrow> bool" where
  "fits cap h es n \<longleftrightarrow> n \<le> length es \<and> length h + length (comma_join (take n es)) < cap \<and>
     (n < length es \<longrightarrow> cap \<le> length h + length (comma_join (take (Suc n) es)))"

definition emit_all :: "nat \<Rightarrow> string \<Rightarrow> string list \<Rightarrow> walk_state" where
  "emit_all cap h es = foldl (\<lambda>st e. walk_emit cap e st) (walk_start h) es"

lemma emit_all_fits:
  assumes "length h < cap"
  shows "\<exists>n. fits cap h es n \<and>
     emit_all cap h es = \<lparr> ws_text = h @ comma_join (take n es), ws_first = (n = 0), ws_overflow = (n < length es) \<rparr>"
proof (induction es rule: rev_induct)
  case Nil
  then show ?case using assms by (auto simp: emit_all_def walk_start_def fits_def)
next
  case (snoc x es)
  then obtain n where f: "fits cap h es n" and e: "emit_all cap h es =
      \<lparr> ws_text = h @ comma_join (take n es), ws_first = (n = 0), ws_overflow = (n < length es) \<rparr>" by blast
  have nxt: "emit_all cap h (es @ [x]) = walk_emit cap x (emit_all cap h es)" by (simp add: emit_all_def)
  show ?case
  proof (cases "n < length es")
    case True
    then have "fits cap h (es @ [x]) n" using f by (auto simp: fits_def)
    then show ?thesis using True by (intro exI [of _ n]) (simp add: nxt e walk_emit_def)
  next
    case False
    then have n: "n = length es" using f by (simp add: fits_def)
    let ?t = "length h + length (comma_join (es @ [x]))"
    have room: "length h + length (comma_join es) < cap" using f by (simp add: fits_def n)
    show ?thesis
    proof (cases "?t < cap")
      case True
      then show ?thesis using room
        by (intro exI [of _ "Suc n"]) (auto simp: nxt e n walk_emit_def fits_def comma_join_snoc Let_def split: if_splits)
    next
      case False
      then show ?thesis using room
        by (intro exI [of _ n]) (auto simp: nxt e n walk_emit_def fits_def comma_join_snoc Let_def split: if_splits)
    qed
  qed
qed

lemma fits_all_iff:
  assumes "fits cap h es n"
  shows "n < length es \<longleftrightarrow> cap \<le> length h + length (comma_join es)"
proof (cases "n < length es")
  case True
  then show ?thesis using assms length_comma_join_take [of "Suc n" es] by (simp add: fits_def)
next
  case False
  then show ?thesis using assms by (simp add: fits_def)
qed

lemma walk_end_all:
  assumes "length h < cap"
  shows "walk_end cap footer r1 r2 (emit_all cap h es) =
    (if cap \<le> length h + length (comma_join es) then internal_error r1
     else if cap \<le> length h + length (comma_join es) + length footer then internal_error r2
     else CliOk (Some (h @ comma_join es @ footer)))"
proof -
  obtain n where f: "fits cap h es n" and e: "emit_all cap h es =
      \<lparr> ws_text = h @ comma_join (take n es), ws_first = (n = 0), ws_overflow = (n < length es) \<rparr>"
    using emit_all_fits [OF assms] by blast
  show ?thesis
  proof (cases "n < length es")
    case True
    then show ?thesis using fits_all_iff [OF f] by (simp add: walk_end_def e)
  next
    case False
    then have "n = length es" using f by (simp add: fits_def)
    then show ?thesis using fits_all_iff [OF f] by (auto simp: walk_end_def e)
  qed
qed

lemma manifest_walk_all:
  "foldl (\<lambda>st c. manifest_walk_cb c st) st cmds =
     foldl (\<lambda>st e. walk_emit 4096 e st) st (map manifest_entry (filter (\<lambda>c. \<not> cv_hidden c) cmds))"
proof (induction cmds arbitrary: st)
  case (Cons c cmds)
  have "ws_overflow st \<Longrightarrow> walk_emit 4096 (manifest_entry c) st = st" by (simp add: walk_emit_def)
  then show ?case using Cons by (simp add: manifest_walk_cb_def)
qed simp

lemma commands_walk_all:
  "foldl (\<lambda>st c. cmd_walk_collect c st) st cmds = foldl (\<lambda>st e. walk_emit 2048 e st) st (map (\<lambda>c. jq (cv_name c)) cmds)"
  by (induction cmds arbitrary: st) (simp_all add: cmd_walk_collect_def)

lemmas list_cmd_defs = cmd_device_manifest_def cmd_device_commands_def manifest_walk_all commands_walk_all
  emit_all_def [symmetric] walk_end_all

section \<open>The table of the firmware\<close>

lemmas rows_defs = cli_rows_def capabilities_rows_def baseline_rows_def control_rows_def auth_rows_def
  passphrase_rows_def wifi_rows_def ble_rows_def ota_rows_def api_rows_def timer_rows_def relay_rows_def
  smtp_rows_def reminder_rows_def mail_groups_rows_def reset_api_rows_def
  device_info_row_def device_commands_row_def device_manifest_row_def logs_get_row_def time_set_row_def

lemma row_fields [simp]:
  "cv_name (row n s u c h a) = n" "cv_summary (row n s u c h a) = Some s" "cv_usage (row n s u c h a) = u"
  "cv_critical (row n s u c h a) = c" "cv_hidden (row n s u c h a) = h" "cv_auth (row n s u c h a) = a"
  by (simp_all add: row_def)

lemma manifest_entry_length:
  "length (manifest_entry c) = 35 + length (cv_name c) + length (group_of (cv_name c)) +
     (case cv_summary c of None \<Rightarrow> 0 | Some s \<Rightarrow> length s)"
  by (auto simp: manifest_entry_def jk_def jq_def q_def split: option.split)

definition visible_size :: "cmd_row list \<Rightarrow> nat" where
  "visible_size rs = sum_list (map (\<lambda>c. 35 + (case cv_summary c of None \<Rightarrow> 0 | Some s \<Rightarrow> length s)) (filter (\<lambda>c. \<not> cv_hidden c) rs))"

lemma visible_size_append: "visible_size (a @ b) = visible_size a + visible_size b"
  by (simp add: visible_size_def)

lemma visible_size_sizes:
  "visible_size relay_rows \<ge> 500" "visible_size smtp_rows \<ge> 500" "visible_size reminder_rows \<ge> 500"
  "visible_size mail_groups_rows \<ge> 600" "visible_size timer_rows \<ge> 500" "visible_size api_rows \<ge> 800"
  "visible_size wifi_rows \<ge> 400" "visible_size auth_rows \<ge> 400"
  by (simp_all add: visible_size_def rows_defs)

lemma visible_size_entries:
  "visible_size rs \<le> sum_list (map length (map manifest_entry (filter (\<lambda>c. \<not> cv_hidden c) rs)))"
  by (induction rs) (auto simp: visible_size_def manifest_entry_length)

lemma visible_boot: "4096 \<le> length (comma_join (map manifest_entry (filter (\<lambda>c. \<not> cv_hidden c) boot_commands)))"
proof -
  have "4096 \<le> visible_size boot_commands"
    using visible_size_sizes by (simp add: boot_commands_def visible_size_append)
  also have "\<dots> \<le> sum_list (map length (map manifest_entry (filter (\<lambda>c. \<not> cv_hidden c) boot_commands)))"
    by (rule visible_size_entries)
  also have "\<dots> \<le> length (comma_join (map manifest_entry (filter (\<lambda>c. \<not> cv_hidden c) boot_commands)))"
    by (rule sum_le_comma_join)
  finally show ?thesis .
qed

lemma boot_names_fit: "length (comma_join (map (\<lambda>c. jq (cv_name c)) boot_commands)) < 2040"
  by (simp add: length_comma_join boot_commands_def rows_defs jq_def q_def)

lemma boot_names_distinct: "distinct (map cv_name boot_commands)"
  by (simp add: boot_commands_def rows_defs)

lemma boot_count: "length boot_commands = 95"
  by (simp add: boot_commands_def rows_defs)

section \<open>Registration at start-up\<close>

lemma register_rows_all:
  "distinct (map cv_name rs) \<Longrightarrow> length cmds + length rs \<le> 128 \<Longrightarrow> cv_name ` set rs \<inter> cmd_name ` set cmds = {} \<Longrightarrow>
     register_rows h rs cmds = (replicate (length rs) ESP_OK, cmds @ map (with_handler h) rs)"
proof (induction rs arbitrary: cmds)
  case (Cons r rs)
  have "register_rows h rs (cmds @ [with_handler h r]) =
      (replicate (length rs) ESP_OK, (cmds @ [with_handler h r]) @ map (with_handler h) rs)"
    using Cons.prems by (intro Cons.IH) (auto simp: with_handler_def)
  moreover have "sk_cli_register True cmds (with_handler h r) = (ESP_OK, cmds @ [with_handler h r])"
    using Cons.prems by (intro register_new) (force simp: with_handler_def SK_CLI_MAX_COMMANDS_def)+
  ultimately show ?case using Cons.prems by simp
qed simp

section \<open>Names typed with spaces\<close>

text \<open>A name cut at its dots, and typed with spaces in their place.\<close>

fun split_dots :: "string \<Rightarrow> string list" where
  "split_dots [] = [[]]"
| "split_dots (c # cs) =
     (if c = CHR ''.'' then [] # split_dots cs
      else (case split_dots cs of [] \<Rightarrow> [[c]] | w # ws \<Rightarrow> (c # w) # ws))"

definition typed :: "string \<Rightarrow> string" where
  "typed name = map (\<lambda>c. if c = CHR ''.'' then CHR '' '' else c) name"

lemma split_dots_nonempty: "split_dots s \<noteq> []"
  by (induction s) (auto split: list.split)

lemma dot_join_Cons: "xs \<noteq> [] \<Longrightarrow> dot_join (x # xs) = x @ ''.'' @ dot_join xs"
  by (cases xs) simp_all

lemma dot_join_grow: "dot_join ((c # w) # ws) = c # dot_join (w # ws)"
  by (cases ws) simp_all

lemma dot_join_split: "dot_join (split_dots s) = s"
proof (induction s)
  case (Cons c cs)
  obtain w ws where w: "split_dots cs = w # ws" using split_dots_nonempty [of cs] by (cases "split_dots cs") auto
  show ?case using Cons by (simp add: w dot_join_grow dot_join_Cons)
qed simp

lemma lookup_row:
  assumes d: "distinct (map cv_name rs)" and r: "r \<in> set rs"
  shows "sk_cli_lookup (map (with_handler h) rs) (cv_name r) = Some (with_handler h r)"
proof -
  have c: "cmd_name (with_handler h x) = cv_name x" for x by (simp add: with_handler_def)
  have "distinct (map cmd_name (map (with_handler h) rs))" using d by (simp add: c o_def)
  from lookup_distinct [OF this, of "with_handler h r"] show ?thesis using r by (simp add: c)
qed

text \<open>A word without white space and quotes, and a name of such words that fits the buffers.\<close>

definition plain_word :: "string \<Rightarrow> bool" where
  "plain_word w \<longleftrightarrow> w \<noteq> [] \<and>
     list_all (\<lambda>c. c \<noteq> CHR '' '' \<and> c \<noteq> CHR 9 \<and> c \<noteq> CHR 10 \<and> c \<noteq> CHR 11 \<and> c \<noteq> CHR 12 \<and> c \<noteq> CHR 13 \<and> c \<noteq> CHR 0x22) w"

definition plain_name :: "string \<Rightarrow> bool" where
  "plain_name s \<longleftrightarrow> list_all plain_word (split_dots s) \<and> length (split_dots s) \<le> 6 \<and> length s < 127"

lemma boot_names_plain: "list_all plain_name (map cv_name boot_commands)"
  by code_simp

lemma char_code_space: "char_code (CHR '' '') = 32" "char_code (CHR 9) = 9" "char_code (CHR 10) = 10" "char_code (CHR 11) = 11"
  "char_code (CHR 12) = 12" "char_code (CHR 13) = 13" "char_code (CHR 0x22) = 0x22"
  by (simp_all add: char_code_def)

lemma plain_word_chars:
  assumes "plain_word w" "c \<in> set w"
  shows "\<not> is_space c \<and> char_code c \<noteq> 0x22"
proof -
  have c: "c \<noteq> CHR '' ''" "c \<noteq> CHR 9" "c \<noteq> CHR 10" "c \<noteq> CHR 11" "c \<noteq> CHR 12" "c \<noteq> CHR 13" "c \<noteq> CHR 0x22"
    using assms by (auto simp: plain_word_def list_all_iff)
  then have "char_code c \<notin> {32, 9, 10, 11, 12, 13, 0x22}" unfolding char_code_space [symmetric] by (simp add: char_code_eq)
  moreover have "9 \<le> char_code c \<and> char_code c \<le> 13 \<Longrightarrow> char_code c \<in> {9, 10, 11, 12, 13}" by auto
  ultimately show ?thesis by (auto simp: is_space_def)
qed

text \<open>Words with single spaces between them.\<close>

fun spaced :: "string list \<Rightarrow> string" where
  "spaced [] = []"
| "spaced (w # ws) = w @ (if ws = [] then [] else CHR '' '' # spaced ws)"

lemma tokenize_spaced: "list_all plain_word ws \<Longrightarrow> length ws \<le> m \<Longrightarrow> tokenize m (spaced ws) = ws"
proof (induction ws arbitrary: m)
  case Nil
  then show ?case by (cases m) simp_all
next
  case (Cons w ws)
  obtain k where m: "m = Suc k" using Cons.prems by (cases m) simp_all
  have pw: "plain_word w" using Cons.prems by simp
  obtain c cs where w: "w = c # cs" using pw by (cases w) (simp_all add: plain_word_def)
  have sp: "is_space (CHR '' '')" by (simp add: is_space_def char_code_def)
  have all: "\<forall>d \<in> set w. \<not> is_space d" and c: "\<not> is_space c" "char_code c \<noteq> 0x22"
    using plain_word_chars [OF pw] by (auto simp: w)
  let ?r = "if ws = [] then [] else CHR '' '' # spaced ws"
  have "takeWhile (\<lambda>d. \<not> is_space d) (w @ ?r) = w" "dropWhile (\<lambda>d. \<not> is_space d) (w @ ?r) = ?r"
    using all sp by (simp_all add: takeWhile_append2 dropWhile_append2)
  moreover have "tokenize k (drop 1 ?r) = ws" using Cons.IH [of k] Cons.prems by (cases k) (auto simp: m)
  ultimately show ?case using c by (simp add: m w)
qed

lemma spaced_Cons: "spaced ((c # w) # ws) = c # spaced (w # ws)"
  by simp

lemma typed_spaced: "typed s = spaced (split_dots s)"
proof (induction s)
  case Nil
  then show ?case by (simp add: typed_def)
next
  case (Cons c cs)
  obtain w ws where w: "split_dots cs = w # ws" using split_dots_nonempty [of cs] by (cases "split_dots cs") auto
  show ?case using Cons by (simp add: w typed_def)
qed

lemma resolve_exact:
  assumes d: "distinct (map cv_name rs)" and r: "r \<in> set rs" and p: "plain_name (cv_name r)"
  shows "resolve_human (map (with_handler h) rs) (split_dots (cv_name r)) =
    Some (with_handler h r, length (split_dots (cv_name r)))"
proof -
  let ?t = "split_dots (cv_name r)"
  obtain n where n: "length ?t = Suc n" using split_dots_nonempty [of "cv_name r"] by (cases ?t) auto
  have "hd ?t \<noteq> []" using p split_dots_nonempty [of "cv_name r"] by (cases ?t) (auto simp: plain_name_def plain_word_def)
  then have ne: "cv_name r \<noteq> []" by (cases "cv_name r") auto
  have "try_prefix (map (with_handler h) rs) ?t (length ?t) = Some (with_handler h r)"
    using p ne lookup_row [OF d r] by (simp add: try_prefix_def dot_join_split plain_name_def)
  moreover have "min 6 (length ?t) = length ?t" using p by (simp add: plain_name_def)
  ultimately show ?thesis using n by (simp add: resolve_human_def)
qed

section \<open>Properties: the table and its listings\<close>

text \<open>
  At start-up all 95 commands of the firmware are registered (no call of \<open>sk_cli_register\<close> finds the table full
  or replaces another command), \<open>device.commands\<close> lists every one of them, and each is reached by its name typed
  with spaces for dots: the tokens of that line resolve to this very command with no token left as an argument.
\<close>
theorem boot_commands_reachable:
  assumes r: "r \<in> set boot_commands"
  shows "register_rows h boot_commands [] = (replicate 95 ESP_OK, map (with_handler h) boot_commands) \<and>
    cmd_device_commands True boot_commands = CliOk (Some (''['' @ comma_join (map (\<lambda>c. jq (cv_name c)) boot_commands) @ '']'')) \<and>
    resolve_human (map (with_handler h) boot_commands) (tokenize SK_CLI_MAX_ARGV (typed (cv_name r))) =
      Some (with_handler h r, length (split_dots (cv_name r)))"
proof (intro conjI)
  show "register_rows h boot_commands [] = (replicate 95 ESP_OK, map (with_handler h) boot_commands)"
    using register_rows_all [OF boot_names_distinct, of "[]" h] by (simp add: boot_count)
  show "cmd_device_commands True boot_commands = CliOk (Some (''['' @ comma_join (map (\<lambda>c. jq (cv_name c)) boot_commands) @ '']''))"
    using boot_names_fit by (simp add: list_cmd_defs)
  have p: "plain_name (cv_name r)" using boot_names_plain r by (simp add: list_all_iff)
  have "tokenize SK_CLI_MAX_ARGV (typed (cv_name r)) = split_dots (cv_name r)"
    using p by (simp add: typed_spaced plain_name_def tokenize_spaced SK_CLI_MAX_ARGV_def)
  then show "resolve_human (map (with_handler h) boot_commands) (tokenize SK_CLI_MAX_ARGV (typed (cv_name r))) =
      Some (with_handler h r, length (split_dots (cv_name r)))"
    using resolve_exact [OF boot_names_distinct r p] by simp
qed

definition no_handler :: "string \<Rightarrow> cli_ctx \<Rightarrow> nat \<Rightarrow> nat \<times> cli_out list \<times> sk_err" where
  "no_handler n ctx s = (s, [], SK_OK)"

theorem boot_commands_reachable_witness:
  "hd timer_rows \<in> set boot_commands \<and>
   resolve_human (map (with_handler no_handler) boot_commands) (tokenize SK_CLI_MAX_ARGV (typed (cv_name (hd timer_rows)))) =
     Some (with_handler no_handler (hd timer_rows), 2)"
proof -
  have r: "hd timer_rows \<in> set boot_commands" by (simp add: boot_commands_def timer_rows_def)
  have "length (split_dots (cv_name (hd timer_rows))) = 2" by (simp add: timer_rows_def)
  then show ?thesis using r boot_commands_reachable [OF r, of no_handler] by simp
qed

text \<open>
  \<open>device.manifest\<close> is all or nothing: its answer is the whole JSON text, header, every visible command and
  footer, exactly when that text is shorter than its buffer of 4096 bytes; otherwise it is one of three internal
  errors and no part of the list is sent.
\<close>
theorem manifest_all_or_nothing:
  "cmd_device_manifest True e fw cmds =
    (let es = map manifest_entry (filter (\<lambda>c. \<not> cv_hidden c) cmds);
         body = manifest_header e fw @ comma_join es
     in if length (manifest_header e fw) \<ge> 4096 then internal_error ''manifest_header''
        else if length body \<ge> 4096 then internal_error ''manifest_truncated''
        else if length (body @ manifest_footer) \<ge> 4096 then internal_error ''manifest_footer''
        else CliOk (Some (body @ manifest_footer)))"
  by (simp add: list_cmd_defs Let_def)

text \<open>
  With the firmware's own table \<open>device.manifest\<close> never answers the manifest, whatever the identity and the
  version: the entries of the visible commands alone need more than 4096 bytes, so every call is an internal error.
\<close>
theorem manifest_never_answers:
  "cmd_device_manifest True e fw boot_commands \<in> {internal_error ''manifest_header'', internal_error ''manifest_truncated''}"
  using visible_boot by (simp add: list_cmd_defs)

section \<open>Properties: logs.get\<close>

lemma visit_emit:
  "\<not> ws_overflow st \<Longrightarrow> visit logs_walk_emit rs st = foldl (\<lambda>st e. walk_emit 8192 e st) st (map log_entry_text rs)"
proof (induction rs arbitrary: st)
  case (Cons r rs)
  have stuck: "ws_overflow t \<Longrightarrow> foldl (\<lambda>st e. walk_emit 8192 e st) t es = t" for t es
    by (induction es) (simp_all add: walk_emit_def)
  show ?case using Cons stuck by (cases "ws_overflow (walk_emit 8192 (log_entry_text r) st)") (simp_all add: logs_walk_emit_def Let_def)
qed simp

definition logs_header :: string where "logs_header = ''{'' @ jk ''lines'' @ ''[''"

definition logs_level :: "cli_ctx \<Rightarrow> sk_log_level option" where
  "logs_level ctx = (case sk_cli_arg_named ctx ''level'' of None \<Rightarrow> Some SK_LOG_INFO | Some s \<Rightarrow> sk_log_level_parse s)"

lemma logs_get_walk:
  assumes "ring_holds l lg" "log_ready lg" "logs_level ctx = Some m"
  shows "cmd_logs_get True ctx lg =
    (let st = emit_all 8192 logs_header (map log_entry_text (shown m (logs_limit ctx) (last64 l)));
         footer = '']'' @ (if ws_overflow st then '','' @ jk ''truncated'' @ ''true'' else []) @ ''}''
     in if length footer \<ge> 8192 - length (ws_text st) then CliErr SK_ERR_INTERNAL None
        else CliOk (Some (ws_text st @ footer)))"
proof -
  have "\<not> ws_overflow (walk_start logs_header)" by (simp add: walk_start_def)
  then have "sk_log_walk m (logs_limit ctx) logs_walk_emit lg (walk_start logs_header) =
      emit_all 8192 logs_header (map log_entry_text (shown m (logs_limit ctx) (last64 l)))"
    by (simp add: walk_shows [OF assms(1,2)] visit_emit emit_all_def)
  then show ?thesis using assms(3) by (simp add: cmd_logs_get_def logs_level_def logs_header_def)
qed

text \<open>The answer with the first \<open>n\<close> of the entries \<open>es\<close>: a page, or an error when the closing brackets do not fit.\<close>

definition logs_page :: "string list \<Rightarrow> nat \<Rightarrow> cli_out" where
  "logs_page es n =
     (let page = logs_header @ comma_join (take n es) @ (if n < length es then ''],'' @ jk ''truncated'' @ ''true}'' else '']}'')
      in if length page < 8192 then CliOk (Some page) else CliErr SK_ERR_INTERNAL None)"

lemma logs_get_fits:
  assumes "ring_holds l lg" "log_ready lg" "logs_level ctx = Some m"
    and es: "es = map log_entry_text (shown m (logs_limit ctx) (last64 l))"
  shows "\<exists>n. fits 8192 logs_header es n \<and> cmd_logs_get True ctx lg = logs_page es n"
proof -
  have h: "length logs_header < 8192" by (simp add: logs_header_def jk_def q_def)
  obtain n where f: "fits 8192 logs_header es n" and e: "emit_all 8192 logs_header es =
      \<lparr> ws_text = logs_header @ comma_join (take n es), ws_first = (n = 0), ws_overflow = (n < length es) \<rparr>"
    using emit_all_fits [OF h] by blast
  have "cmd_logs_get True ctx lg = logs_page es n"
    by (auto simp: logs_get_walk [OF assms(1-3)] es [symmetric] e Let_def logs_page_def)
  then show ?thesis using f by blast
qed

definition log_boot :: sk_log where
  "log_boot = snd (sk_log_init True True True log_static)"

definition log_history :: "log_op list \<Rightarrow> sk_log_record list" where
  "log_history xs = snd (spec_run xs ([], []))"

lemma log_run_holds: "ring_holds (log_history xs) (log_run xs log_boot) \<and> log_ready (log_run xs log_boot)"
  using log_sim_run [OF log_sim_boot, of xs] by (simp add: log_sim_def log_history_def log_boot_def)

text \<open>
  After any sequence of log events and drains \<open>logs.get\<close> with a valid level answers the JSON of the oldest
  matching records of the ring, as many as \<open>limit\<close> allows and as fit 8192 bytes (the longest such prefix), marked
  as truncated when a record did not fit; or an internal error when not even the closing brackets fit behind it.
\<close>
theorem logs_get_answer:
  assumes "logs_level ctx = Some m"
  shows "\<exists>n. fits 8192 logs_header (map log_entry_text (shown m (logs_limit ctx) (last64 (log_history xs)))) n \<and>
    cmd_logs_get True ctx (log_run xs log_boot) =
      logs_page (map log_entry_text (shown m (logs_limit ctx) (last64 (log_history xs)))) n"
  using log_run_holds [of xs] by (intro logs_get_fits [OF _ _ assms refl]) simp_all

theorem logs_get_answer_witness:
  "\<exists>n. fits 8192 logs_header [] n \<and> cmd_logs_get True (human_ctx False []) (log_run [] log_boot) = logs_page [] n"
proof -
  have "logs_level (human_ctx False []) = Some SK_LOG_INFO"
    by (simp add: logs_level_def sk_cli_arg_named_def human_ctx_def)
  from logs_get_answer [OF this, of "[]"] show ?thesis
    by (simp add: log_history_def spec_run_def last64_def shown_def)
qed

text \<open>
  with \<open>limit\<close> matching records among the 63 before the newest one, \<open>logs.get\<close> does not look at the newest
  record: its answer is the same whatever that record is, because the walk starts at the oldest entry and stops
  after \<open>limit\<close>. The most recent event is what the help promises and the answer lacks.
\<close>
theorem logs_get_ignores_newest:
  assumes "logs_level ctx = Some m"
    and "length (shown m (logs_limit ctx) (drop (length (log_history xs) - 63) (log_history xs))) = logs_limit ctx"
  shows "cmd_logs_get True ctx (ring_write r1 (log_run xs log_boot)) = cmd_logs_get True ctx (ring_write r2 (log_run xs log_boot))"
proof -
  let ?l = "log_history xs"
  have ready: "log_ready (ring_write r (log_run xs log_boot))" for r
    using log_run_holds [of xs] by (simp add: ring_write_def)
  have hold: "ring_holds (?l @ [r]) (ring_write r (log_run xs log_boot))" for r
    using log_run_holds [of xs] ring_holds_write by blast
  have "logs_limit ctx \<le> length (filter (\<lambda>r. level_no m \<le> level_no (level r)) (drop (length ?l - 63) ?l))"
    using assms(2) by (simp add: shown_def)
  then have "shown m (logs_limit ctx) (last64 (?l @ [r])) = shown m (logs_limit ctx) (drop (length ?l - 63) ?l)" for r
    by (simp add: shown_def last64_def)
  then show ?thesis by (simp add: logs_get_walk [OF hold ready assms(1)])
qed

text \<open>Histories of equal records, for concrete logs.\<close>

definition logged :: "nat \<Rightarrow> string \<Rightarrow> log_op list" where
  "logged n msg = concat (replicate n
     [LogEvent \<lparr> up_us = 5000000, wall = 1700000001 \<rparr> SK_LOG_INFO ''ls_timer'' ''triggered'' msg, LogDrain True])"

definition logged_record :: "string \<Rightarrow> sk_log_record" where
  "logged_record msg = the_record \<lparr> up_us = 5000000, wall = 1700000001 \<rparr> SK_LOG_INFO ''ls_timer'' ''triggered'' msg"

lemma logged_history: "log_history (logged n msg) = replicate n (logged_record msg)"
proof -
  have "fold spec_op (logged n msg) ([], h) = ([], h @ replicate n (logged_record msg))" for h
  proof (induction n arbitrary: h)
    case (Suc n)
    then show ?case by (simp add: logged_def spec_op_def logged_record_def)
  qed (simp add: logged_def)
  from this [of "[]"] show ?thesis by (simp add: log_history_def spec_run_def)
qed

lemma logged_shown: "shown SK_LOG_INFO k (replicate n (logged_record msg)) = replicate (min k n) (logged_record msg)"
  by (simp add: shown_def logged_record_def the_record_def)

lemma human_level: "logs_level (human_ctx a []) = Some SK_LOG_INFO"
  by (simp add: logs_level_def sk_cli_arg_named_def human_ctx_def)

lemma human_limit: "logs_limit (human_ctx a []) = 50"
  by (simp add: logs_limit_def sk_cli_arg_long_def sk_cli_arg_named_def human_ctx_def)

theorem logs_get_ignores_newest_witness:
  "cmd_logs_get True (human_ctx False []) (ring_write (logged_record ''reboot'') (log_run (logged 63 ''ok'') log_boot)) =
   cmd_logs_get True (human_ctx False []) (ring_write (logged_record ''crash'') (log_run (logged 63 ''ok'') log_boot))"
proof (rule logs_get_ignores_newest [OF human_level])
  show "length (shown SK_LOG_INFO (logs_limit (human_ctx False []))
      (drop (length (log_history (logged 63 ''ok'')) - 63) (log_history (logged 63 ''ok'')))) = logs_limit (human_ctx False [])"
    by (simp add: logged_history human_limit logged_shown)
qed

lemma escape_plain: "length out + n + 3 \<le> cap \<Longrightarrow> json_escape_loop cap out (replicate n (CHR ''x'')) = out @ replicate n (CHR ''x'')"
proof (induction n arbitrary: out)
  case (Suc n)
  have "json_escape_loop cap (out @ [CHR ''x'']) (replicate n (CHR ''x'')) = (out @ [CHR ''x'']) @ replicate n (CHR ''x'')"
    using Suc.prems by (intro Suc.IH) simp
  then show ?case using Suc.prems by (simp add: char_code_def)
qed simp

lemma length_stamp: "length (dec_int 1700000001) = 10" "length (dec_int 5000000) = 7"
proof -
  have l: "length (dec_nat n) = (if n < 10 then 1 else Suc (length (dec_nat (n div 10))))" for n
    by (subst dec_nat.simps) simp
  show "length (dec_int 1700000001) = 10" "length (dec_int 5000000) = 7" by (simp_all add: dec_int_def l)
qed

lemma logged_entry_length: "length (log_entry_text (logged_record (replicate 84 (CHR ''x'')))) = 173"
proof -
  have "json_escape_loop 300 [] (replicate 84 (CHR ''x'')) = replicate 84 (CHR ''x'')"
    using escape_plain [of "[]" 84 300] by simp
  then show ?thesis
    by (simp add: log_entry_text_def logged_record_def the_record_def current_unix_or_zero_def SK_LOG_MSG_MAX_def jk_def jq_def q_def
        length_stamp)
qed

lemma fits_equal:
  assumes f: "fits cap h (replicate k e) n"
  shows "n \<le> k \<and> length h + (n * length e + (n - 1)) < cap \<and> (n < k \<longrightarrow> cap \<le> length h + (Suc n * length e + n))"
  using f by (auto simp: fits_def length_comma_join sum_list_replicate)

text \<open>
  \<open>logs.get\<close> can fail on an ordinary log: after 48 events of 84 characters each, drained in time, the first 47
  entries leave 5 of the 8192 bytes, the next entry does not fit, and neither do the brackets with the truncation
  mark; the answer is an internal error instead of the 47 entries.
\<close>
theorem logs_get_can_fail:
  "cmd_logs_get True (human_ctx False []) (log_run (logged 48 (replicate 84 (CHR ''x''))) log_boot) = CliErr SK_ERR_INTERNAL None"
proof -
  let ?r = "logged_record (replicate 84 (CHR ''x''))"
  let ?es = "replicate 48 (log_entry_text ?r)"
  have h: "length logs_header = 10" by (simp add: logs_header_def jk_def q_def)
  have es: "map log_entry_text (shown SK_LOG_INFO (logs_limit (human_ctx False []))
      (last64 (log_history (logged 48 (replicate 84 (CHR ''x'')))))) = ?es"
    by (simp add: logged_history human_limit logged_shown last64_def)
  obtain n where f: "fits 8192 logs_header ?es n"
      and a: "cmd_logs_get True (human_ctx False []) (log_run (logged 48 (replicate 84 (CHR ''x''))) log_boot) = logs_page ?es n"
    using logs_get_fits [OF _ _ human_level es [symmetric]] log_run_holds by blast
  have "n \<le> 48 \<and> n * 173 + (n - 1) < 8182 \<and> (n < 48 \<longrightarrow> 8009 \<le> 174 * n)"
    using fits_equal [OF f] by (simp add: h logged_entry_length)
  then have n: "n = 47" by arith
  show ?thesis
    by (simp add: a logs_page_def n h length_comma_join sum_list_replicate logged_entry_length jk_def q_def Let_def
       )
qed

section \<open>Properties: the flag user\_configured\<close>

datatype flag_op = IpAcquired | InfoAsked clock info_env | FactoryResetAsked | PowerCycle clock

definition flag_step :: "'n nvs_ops \<Rightarrow> 'n baseline \<Rightarrow> flag_op \<Rightarrow> 'n baseline" where
  "flag_step N s x = (case x of
      IpAcquired \<Rightarrow> on_wifi_ip_acquired N s
    | InfoAsked ck e \<Rightarrow> fst (cmd_device_info N ck e s)
    | FactoryResetAsked \<Rightarrow> baseline_factory_reset N s
    | PowerCycle ck \<Rightarrow> sk_baseline_init N ck (Some (fw_version s)) (build_info s) (bl_flash s))"

definition flag_saved :: "'n nvs_ops \<Rightarrow> 'n baseline \<Rightarrow> bool" where
  "flag_saved N s \<longleftrightarrow>
     user_configured s = (case get_u8 N (bl_flash s) NVS_DEVST ''user_cfg'' of None \<Rightarrow> False | Some v \<Rightarrow> v \<noteq> 0)"

lemma flag_saved_init: "nvs_lawful N \<Longrightarrow> flag_saved N (sk_baseline_init N ck fw b n)"
  by (auto simp: flag_saved_def sk_baseline_init_def user_configured_load_def get_u8_def dest: nvs_open_ro
      split: option.splits nvs_val.splits)

lemma flag_saved_persist: "nvs_lawful N \<Longrightarrow> flag_saved N (user_configured_persist N v (s\<lparr>user_configured := v\<rparr>))"
  by (simp add: flag_saved_def user_configured_persist_def get_u8_def nvs_simps)

lemma flag_saved_reset: "nvs_lawful N \<Longrightarrow> flag_saved N (baseline_factory_reset N s)"
  by (simp add: flag_saved_def baseline_factory_reset_def get_u8_def nvs_simps Let_def)

lemma flag_saved_step: "nvs_lawful N \<Longrightarrow> flag_saved N s \<Longrightarrow> flag_saved N (flag_step N s x)"
  by (cases x) (simp_all add: flag_step_def flag_saved_init flag_saved_persist flag_saved_reset on_wifi_ip_acquired_def
      cmd_device_info_def Let_def)

interpretation flag_runs: stepping "flag_step N" "\<lambda>s. nvs_lawful N \<and> flag_saved N s" "\<lambda>x. True" for N
  by unfold_locales (simp add: flag_saved_step)

text \<open>
  The flag \<open>user_configured\<close> of \<open>device.info\<close> always survives a power cycle: after any sequence of Wi-Fi
  connections, calls of \<open>device.info\<close>, factory resets and power cycles, a start from the flash of that moment gives
  the flag it has at that moment.
\<close>
theorem user_configured_survives_power_loss:
  assumes "nvs_lawful N"
  shows "user_configured (sk_baseline_init N ck' fw' b' (bl_flash (foldl (flag_step N) (sk_baseline_init N ck fw b n) xs))) =
    user_configured (foldl (flag_step N) (sk_baseline_init N ck fw b n) xs)"
proof -
  let ?s = "foldl (flag_step N) (sk_baseline_init N ck fw b n) xs"
  have "flag_saved N ?s" using flag_runs.run_inv [of N "sk_baseline_init N ck fw b n" xs] assms by (simp add: flag_saved_init)
  moreover have "flag_saved N (sk_baseline_init N ck' fw' b' (bl_flash ?s))" by (rule flag_saved_init [OF assms])
  moreover have "bl_flash (sk_baseline_init N ck' fw' b' m) = m" for m
    by (auto simp: sk_baseline_init_def user_configured_load_def split: option.split)
  ultimately show ?thesis by (simp add: flag_saved_def)
qed

theorem user_configured_survives_power_loss_witness:
  "user_configured (sk_baseline_init nvs_map_ops \<lparr> up_us = 0, wall = 0 \<rparr> None None
     (bl_flash (on_wifi_ip_acquired nvs_map_ops (sk_baseline_init nvs_map_ops \<lparr> up_us = 0, wall = 0 \<rparr> None None (\<lambda>x. None)))))"
proof -
  have "user_configured (on_wifi_ip_acquired nvs_map_ops s)" for s :: "nvs_map baseline"
    by (simp add: on_wifi_ip_acquired_def user_configured_persist_def)
  then show ?thesis
    using user_configured_survives_power_loss [OF nvs_map_lawful, of "\<lparr> up_us = 0, wall = 0 \<rparr>" None None
        "\<lparr> up_us = 0, wall = 0 \<rparr>" None None "\<lambda>x. None" "[IpAcquired]"] by (simp add: flag_step_def)
qed

end
