(* ===== verification/SkApi.thy ===== *)
theory SkApi
  imports LsMailText SkAuth
begin

text \<open>
  The outbound webhooks, \<open>sk_api/src/sk_api.c\<close>: five endpoints of the user and eight of paired apps, in RAM and in
  flash, with the operations that add and remove them. Enumerations are the bytes that flash holds, because a loaded
  byte need not be the value of an enumerator.
\<close>

section \<open>Limits and names\<close>

definition SK_API_USER_SLOTS :: nat where "SK_API_USER_SLOTS = 5"
definition SK_API_SYSTEM_SLOTS :: nat where "SK_API_SYSTEM_SLOTS = 8"
definition SK_API_MAX_ENDPOINTS :: nat where "SK_API_MAX_ENDPOINTS = SK_API_USER_SLOTS + SK_API_SYSTEM_SLOTS"
definition SK_API_NAME_MAX :: nat where "SK_API_NAME_MAX = 31"
definition SK_API_URL_MAX :: nat where "SK_API_URL_MAX = 191"
definition SK_API_TOKEN_MAX :: nat where "SK_API_TOKEN_MAX = 127"
definition SK_API_HEADER_MAX :: nat where "SK_API_HEADER_MAX = 31"
definition SK_API_CT_MAX :: nat where "SK_API_CT_MAX = 63"
definition SK_API_PAYLOAD_MAX :: nat where "SK_API_PAYLOAD_MAX = 768"
definition SK_API_EP_PAYLOAD_MAX :: nat where "SK_API_EP_PAYLOAD_MAX = 512"
definition SK_API_PEER_ID_LEN :: nat where "SK_API_PEER_ID_LEN = 16"
definition SK_API_DELAY_AFTER_MAX_SEC :: nat where "SK_API_DELAY_AFTER_MAX_SEC = 300"
definition DEFAULT_CT :: string where "DEFAULT_CT = ''application/json''"
definition NVS_API :: string where "NVS_API = ''sk_api''"
definition NVS_NS_GLOBAL :: string where "NVS_NS_GLOBAL = ''sk_api_g''"
definition NVS_KEY_MASTER :: string where "NVS_KEY_MASTER = ''all_enabled''"

definition SK_API_KIND_USER :: u8 where "SK_API_KIND_USER = 0"
definition SK_API_KIND_SYSTEM :: u8 where "SK_API_KIND_SYSTEM = 1"
definition SK_API_GENERIC :: u8 where "SK_API_GENERIC = 0"
definition SK_API_IFTTT :: u8 where "SK_API_IFTTT = 2"
definition SK_API_WEBHOOK_POST :: u8 where "SK_API_WEBHOOK_POST = 3"
definition SK_API_METHOD_POST :: u8 where "SK_API_METHOD_POST = 0"
definition SK_API_METHOD_GET :: u8 where "SK_API_METHOD_GET = 1"
definition SK_API_METHOD_PUT :: u8 where "SK_API_METHOD_PUT = 2"
definition SK_API_METHOD_DELETE :: u8 where "SK_API_METHOD_DELETE = 3"
definition SK_API_AUTH_NONE :: u8 where "SK_API_AUTH_NONE = 0"
definition SK_API_AUTH_BEARER :: u8 where "SK_API_AUTH_BEARER = 1"
definition SK_API_AUTH_BASIC :: u8 where "SK_API_AUTH_BASIC = 2"
definition SK_API_AUTH_CUSTOM_HEADER :: u8 where "SK_API_AUTH_CUSTOM_HEADER = 3"
definition SK_API_TRIGCLASS_TRIGGER :: u8 where "SK_API_TRIGCLASS_TRIGGER = 0"
definition SK_API_TRIGCLASS_ALARM :: u8 where "SK_API_TRIGCLASS_ALARM = 1"
definition SK_API_TRIGCLASS_BOTH :: u8 where "SK_API_TRIGCLASS_BOTH = 2"

lemmas api_limits = SK_API_USER_SLOTS_def SK_API_SYSTEM_SLOTS_def SK_API_MAX_ENDPOINTS_def SK_API_NAME_MAX_def
  SK_API_URL_MAX_def SK_API_TOKEN_MAX_def SK_API_HEADER_MAX_def SK_API_CT_MAX_def SK_API_PAYLOAD_MAX_def
  SK_API_EP_PAYLOAD_MAX_def SK_API_PEER_ID_LEN_def SK_API_DELAY_AFTER_MAX_SEC_def

lemmas api_enums = SK_API_KIND_USER_def SK_API_KIND_SYSTEM_def SK_API_GENERIC_def SK_API_IFTTT_def SK_API_WEBHOOK_POST_def
  SK_API_METHOD_POST_def SK_API_METHOD_GET_def SK_API_METHOD_PUT_def SK_API_METHOD_DELETE_def SK_API_AUTH_NONE_def
  SK_API_AUTH_BEARER_def SK_API_AUTH_BASIC_def SK_API_AUTH_CUSTOM_HEADER_def SK_API_TRIGCLASS_TRIGGER_def
  SK_API_TRIGCLASS_ALARM_def SK_API_TRIGCLASS_BOTH_def

definition TYPES :: "(u8 \<times> string) list" where
  "TYPES = [(SK_API_GENERIC, ''generic''), (SK_API_IFTTT, ''ifttt''), (SK_API_WEBHOOK_POST, ''webhook_post'')]"

definition METHODS :: "(u8 \<times> string) list" where
  "METHODS = [(SK_API_METHOD_POST, ''POST''), (SK_API_METHOD_GET, ''GET''), (SK_API_METHOD_PUT, ''PUT''),
     (SK_API_METHOD_DELETE, ''DELETE'')]"

definition AUTHS :: "(u8 \<times> string) list" where
  "AUTHS = [(SK_API_AUTH_NONE, ''none''), (SK_API_AUTH_BEARER, ''bearer''), (SK_API_AUTH_BASIC, ''basic''),
     (SK_API_AUTH_CUSTOM_HEADER, ''custom_header'')]"

definition KINDS :: "(u8 \<times> string) list" where
  "KINDS = [(SK_API_KIND_USER, ''user''), (SK_API_KIND_SYSTEM, ''system'')]"

definition TRIGCLASSES :: "(u8 \<times> string) list" where
  "TRIGCLASSES = [(SK_API_TRIGCLASS_TRIGGER, ''trigger''), (SK_API_TRIGCLASS_ALARM, ''alarm''), (SK_API_TRIGCLASS_BOTH, ''both'')]"

text \<open>The two loops over such a table.\<close>

definition enum_str :: "(u8 \<times> string) list \<Rightarrow> string \<Rightarrow> u8 \<Rightarrow> string" where
  "enum_str tab dflt v = (case map_of tab v of None \<Rightarrow> dflt | Some s \<Rightarrow> s)"

definition enum_from_str :: "(u8 \<times> string) list \<Rightarrow> string \<Rightarrow> u8 option" where
  "enum_from_str tab s = map_option fst (find (\<lambda>(v, t). same_address s t) tab)"

definition sk_api_type_str :: "u8 \<Rightarrow> string" where "sk_api_type_str = enum_str TYPES ''unknown''"
definition sk_api_method_str :: "u8 \<Rightarrow> string" where "sk_api_method_str = enum_str METHODS ''POST''"
definition sk_api_auth_str :: "u8 \<Rightarrow> string" where "sk_api_auth_str = enum_str AUTHS ''none''"
definition sk_api_kind_str :: "u8 \<Rightarrow> string" where "sk_api_kind_str = enum_str KINDS ''user''"
definition sk_api_trigclass_str :: "u8 \<Rightarrow> string" where "sk_api_trigclass_str = enum_str TRIGCLASSES ''trigger''"
definition sk_api_type_from_str :: "string \<Rightarrow> u8 option" where "sk_api_type_from_str = enum_from_str TYPES"
definition sk_api_method_from_str :: "string \<Rightarrow> u8 option" where "sk_api_method_from_str = enum_from_str METHODS"
definition sk_api_trigclass_from_str :: "string \<Rightarrow> u8 option" where "sk_api_trigclass_from_str = enum_from_str TRIGCLASSES"

definition sk_api_auth_from_str :: "string \<Rightarrow> u8 option" where
  "sk_api_auth_from_str s =
     (if same_address s ''header'' then Some SK_API_AUTH_CUSTOM_HEADER else enum_from_str AUTHS s)"

definition trigclass_matches :: "u8 \<Rightarrow> u8 \<Rightarrow> bool" where
  "trigclass_matches slot_tc want = (slot_tc = SK_API_TRIGCLASS_BOTH \<or> slot_tc = want)"

section \<open>State\<close>

record endpoint =
  ep_name :: string
  ep_type :: u8
  ep_url :: string
  ep_token :: string
  ep_method :: u8
  ep_auth :: u8
  ep_header :: string
  ep_ct :: string
  ep_payload :: string
  ep_delay :: u16
  ep_kind :: u8
  ep_class :: u8
  ep_peer :: "u8 list"
  ep_used :: bool

definition ep_zero :: endpoint where
  "ep_zero = \<lparr> ep_name = [], ep_type = 0, ep_url = [], ep_token = [], ep_method = 0, ep_auth = 0, ep_header = [], ep_ct = [],
     ep_payload = [], ep_delay = 0, ep_kind = 0, ep_class = 0, ep_peer = replicate SK_API_PEER_ID_LEN 0, ep_used = False \<rparr>"

record 'n api =
  user_eps :: "endpoint list"
  system_eps :: "endpoint list"
  api_flash :: 'n
  api_up :: bool

definition api_static :: "'n \<Rightarrow> 'n api" where
  "api_static n = \<lparr> user_eps = replicate SK_API_USER_SLOTS ep_zero, system_eps = replicate SK_API_SYSTEM_SLOTS ep_zero,
     api_flash = n, api_up = False \<rparr>"

section \<open>Flash\<close>

definition slot_key :: "nat \<Rightarrow> string \<Rightarrow> string" where
  "slot_key i s = snprintf 16 (''n'' @ dec_nat i @ s)"

definition nv_del :: "'n nvs_ops \<Rightarrow> string \<Rightarrow> 'n \<Rightarrow> 'n" where
  "nv_del N k n = snd (nv_erase_key N n NVS_API k)"

definition api_put :: "'n nvs_ops \<Rightarrow> nat \<Rightarrow> string \<Rightarrow> nvs_val \<Rightarrow> 'n \<Rightarrow> 'n" where
  "api_put N i s v n = nv_put N NVS_API (slot_key i s) v n"

definition write_endpoint :: "'n nvs_ops \<Rightarrow> nat \<Rightarrow> endpoint \<Rightarrow> 'n \<Rightarrow> 'n" where
  "write_endpoint N i e n =
     (if ep_used e then
        (let n = api_put N i ''name'' (NvStr (ep_name e)) n;
             n = api_put N i ''url'' (NvStr (ep_url e)) n;
             n = api_put N i ''tok'' (NvStr (ep_token e)) n;
             n = api_put N i ''hdr'' (NvStr (ep_header e)) n;
             n = api_put N i ''ct'' (NvStr (ep_ct e)) n;
             n = api_put N i ''type'' (NvU8 (ep_type e)) n;
             n = api_put N i ''meth'' (NvU8 (ep_method e)) n;
             n = api_put N i ''auth'' (NvU8 (ep_auth e)) n;
             n = api_put N i ''dly'' (NvU16 (ep_delay e)) n;
             n = api_put N i ''kind'' (NvU8 (ep_kind e)) n;
             n = api_put N i ''tc'' (NvU8 (ep_class e)) n;
             n = (if ep_kind e = SK_API_KIND_SYSTEM then api_put N i ''pid'' (NvBlob (ep_peer e)) n
                  else nv_del N (slot_key i ''pid'') n)
         in if ep_kind e = SK_API_KIND_USER \<and> ep_payload e \<noteq> [] then api_put N i ''pl'' (NvStr (ep_payload e)) n
            else nv_del N (slot_key i ''pl'') n)
      else
        foldl (\<lambda>n s. nv_del N (slot_key i s) n) n
          [''name'', ''url'', ''tok'', ''type'', ''meth'', ''auth'', ''hdr'', ''ct'', ''dly'', ''kind'', ''pid'', ''tc'', ''pl''])"

definition save_linear :: "'n nvs_ops \<Rightarrow> nat \<Rightarrow> endpoint \<Rightarrow> 'n api \<Rightarrow> 'n api" where
  "save_linear N i e s =
     (if nv_open_rw N (api_flash s) NVS_API \<noteq> ESP_OK then s
      else s\<lparr>api_flash := nv_commit N (write_endpoint N i e (api_flash s)) NVS_API\<rparr>)"

text \<open>The change of a slot in RAM, then in flash; the linear index counts the user's slots first.\<close>

definition put_user :: "'n nvs_ops \<Rightarrow> nat \<Rightarrow> endpoint \<Rightarrow> 'n api \<Rightarrow> 'n api" where
  "put_user N i e s = save_linear N i e (s\<lparr>user_eps := (user_eps s)[i := e]\<rparr>)"

definition put_system :: "'n nvs_ops \<Rightarrow> nat \<Rightarrow> endpoint \<Rightarrow> 'n api \<Rightarrow> 'n api" where
  "put_system N i e s = save_linear N (SK_API_USER_SLOTS + i) e (s\<lparr>system_eps := (system_eps s)[i := e]\<rparr>)"

text \<open>A record of flash, \<open>None\<close> when it has no name or, of kind system, no peer.\<close>

definition api_str :: "'n nvs_ops \<Rightarrow> 'n \<Rightarrow> nat \<Rightarrow> string \<Rightarrow> nat \<Rightarrow> string" where
  "api_str N n i s m = load_str N n NVS_API (slot_key i s) m []"

definition api_u8 :: "'n nvs_ops \<Rightarrow> 'n \<Rightarrow> nat \<Rightarrow> string \<Rightarrow> u8 \<Rightarrow> u8" where
  "api_u8 N n i s old = load_val (get_u8 N n NVS_API (slot_key i s)) (\<lambda>v. True) (\<lambda>v. v) old"

definition load_endpoint :: "'n nvs_ops \<Rightarrow> 'n \<Rightarrow> nat \<Rightarrow> endpoint option" where
  "load_endpoint N n i =
     (case get_str N n NVS_API (slot_key i ''name'') of
        None \<Rightarrow> None
      | Some name \<Rightarrow>
          (if length name > SK_API_NAME_MAX then None
           else
             (let kind = api_u8 N n i ''kind'' SK_API_KIND_USER;
                  pid = (case get_blob N n NVS_API (slot_key i ''pid'') of None \<Rightarrow> None
                         | Some b \<Rightarrow> if length b = SK_API_PEER_ID_LEN then Some b else None);
                  ct = api_str N n i ''ct'' SK_API_CT_MAX
              in if kind = SK_API_KIND_SYSTEM \<and> pid = None then None
                 else Some \<lparr> ep_name = name, ep_type = api_u8 N n i ''type'' 0, ep_url = api_str N n i ''url'' SK_API_URL_MAX,
                   ep_token = api_str N n i ''tok'' SK_API_TOKEN_MAX, ep_method = api_u8 N n i ''meth'' 0,
                   ep_auth = api_u8 N n i ''auth'' 0, ep_header = api_str N n i ''hdr'' SK_API_HEADER_MAX,
                   ep_ct = (if ct = [] then DEFAULT_CT else ct), ep_payload = api_str N n i ''pl'' SK_API_EP_PAYLOAD_MAX,
                   ep_delay = load_val (get_u16 N n NVS_API (slot_key i ''dly'')) (\<lambda>v. True) (\<lambda>v. v) 0,
                   ep_kind = kind, ep_class = api_u8 N n i ''tc'' SK_API_TRIGCLASS_TRIGGER,
                   ep_peer = (if kind = SK_API_KIND_SYSTEM then the pid else replicate SK_API_PEER_ID_LEN 0),
                   ep_used = True \<rparr>)))"

text \<open>The persisted kind decides about the bucket; a record whose place is in the other bucket is left out.\<close>

definition place_endpoint :: "'n nvs_ops \<Rightarrow> 'n \<Rightarrow> 'n api \<Rightarrow> nat \<Rightarrow> 'n api" where
  "place_endpoint N n s i =
     (case load_endpoint N n i of
        None \<Rightarrow> s
      | Some e \<Rightarrow>
          (if ep_kind e = SK_API_KIND_USER then
             (if i < SK_API_USER_SLOTS then s\<lparr>user_eps := (user_eps s)[i := e]\<rparr> else s)
           else if ep_kind e = SK_API_KIND_SYSTEM then
             (if i \<ge> SK_API_USER_SLOTS then s\<lparr>system_eps := (system_eps s)[i - SK_API_USER_SLOTS := e]\<rparr> else s)
           else s))"

definition load_all_slots :: "'n nvs_ops \<Rightarrow> 'n api \<Rightarrow> 'n api" where
  "load_all_slots N s =
     (if nv_open_ro N (api_flash s) NVS_API \<noteq> ESP_OK then s
      else foldl (place_endpoint N (api_flash s)) s [0..<SK_API_MAX_ENDPOINTS])"

section \<open>Looking up\<close>

definition find_by_name :: "string \<Rightarrow> endpoint list \<Rightarrow> nat option" where
  "find_by_name name es = find (\<lambda>i. ep_used (es ! i) \<and> ep_name (es ! i) = name) [0..<length es]"

definition find_system_slot_by_peer :: "u8 list \<Rightarrow> endpoint list \<Rightarrow> nat option" where
  "find_system_slot_by_peer peer es = find (\<lambda>i. ep_used (es ! i) \<and> ep_peer (es ! i) = peer) [0..<length es]"

definition find_free :: "endpoint list \<Rightarrow> nat option" where
  "find_free es = find (\<lambda>i. \<not> ep_used (es ! i)) [0..<length es]"

definition find_any_by_name :: "string \<Rightarrow> 'n api \<Rightarrow> endpoint option" where
  "find_any_by_name name s =
     (case find_by_name name (user_eps s) of Some i \<Rightarrow> Some (user_eps s ! i)
      | None \<Rightarrow> (case find_by_name name (system_eps s) of Some i \<Rightarrow> Some (system_eps s ! i) | None \<Rightarrow> None))"

section \<open>Public operations\<close>

definition sk_api_set_enabled_all :: "'n nvs_ops \<Rightarrow> bool \<Rightarrow> 'n api \<Rightarrow> esp_err \<times> 'n api" where
  "sk_api_set_enabled_all N enabled s =
     (let err = nv_open_rw N (api_flash s) NVS_NS_GLOBAL in
      if err \<noteq> ESP_OK then (err, s)
      else (ESP_OK, s\<lparr>api_flash := nv_commit N (nv_put N NVS_NS_GLOBAL NVS_KEY_MASTER (nv_bool enabled) (api_flash s)) NVS_NS_GLOBAL\<rparr>))"

definition sk_api_is_enabled_all :: "'n nvs_ops \<Rightarrow> 'n api \<Rightarrow> bool" where
  "sk_api_is_enabled_all N s =
     (if nv_open_ro N (api_flash s) NVS_NS_GLOBAL \<noteq> ESP_OK then True
      else load_val (get_u8 N (api_flash s) NVS_NS_GLOBAL NVS_KEY_MASTER) (\<lambda>v. True) (\<lambda>v. v \<noteq> 0) True)"

record endpoint_cfg =
  cf_name :: string
  cf_type :: u8
  cf_url :: string
  cf_token :: "string option"
  cf_method :: u8
  cf_auth :: u8
  cf_header :: "string option"
  cf_ct :: "string option"
  cf_payload :: "string option"
  cf_delay :: u16
  cf_class :: u8

definition too_long :: "string option \<Rightarrow> nat \<Rightarrow> bool" where
  "too_long s m = (case s of None \<Rightarrow> False | Some t \<Rightarrow> length t > m)"

definition no_text :: "string option \<Rightarrow> bool" where
  "no_text s = (s = None \<or> s = Some [])"

definition text_or_empty :: "string option \<Rightarrow> string" where
  "text_or_empty s = (case s of None \<Rightarrow> [] | Some t \<Rightarrow> t)"

definition clamp_delay :: "u16 \<Rightarrow> u16" where
  "clamp_delay d = (if unat d > SK_API_DELAY_AFTER_MAX_SEC then of_nat SK_API_DELAY_AFTER_MAX_SEC else d)"

definition user_endpoint :: "endpoint_cfg \<Rightarrow> endpoint" where
  "user_endpoint c =
     (let tok = text_or_empty (cf_token c); ct = text_or_empty (cf_ct c) in
      ep_zero\<lparr>ep_name := cf_name c, ep_url := cf_url c, ep_token := tok, ep_header := text_or_empty (cf_header c),
        ep_ct := (if ct = [] then DEFAULT_CT else ct), ep_payload := text_or_empty (cf_payload c), ep_type := cf_type c,
        ep_method := cf_method c, ep_auth := (if cf_auth c = SK_API_AUTH_NONE \<and> tok \<noteq> [] then SK_API_AUTH_BEARER else cf_auth c),
        ep_delay := clamp_delay (cf_delay c), ep_kind := SK_API_KIND_USER,
        ep_class := (if cf_class c = SK_API_TRIGCLASS_ALARM \<or> cf_class c = SK_API_TRIGCLASS_BOTH then cf_class c
          else SK_API_TRIGCLASS_TRIGGER), ep_used := True\<rparr>)"

definition cfg_refused :: "endpoint_cfg \<Rightarrow> 'n api \<Rightarrow> bool" where
  "cfg_refused c s \<longleftrightarrow>
     length (cf_name c) > SK_API_NAME_MAX \<or> length (cf_url c) > SK_API_URL_MAX \<or> too_long (cf_token c) SK_API_TOKEN_MAX \<or>
     too_long (cf_header c) SK_API_HEADER_MAX \<or> too_long (cf_ct c) SK_API_CT_MAX \<or> too_long (cf_payload c) SK_API_EP_PAYLOAD_MAX \<or>
     find_by_name (cf_name c) (system_eps s) \<noteq> None \<or>
     (cf_type c = SK_API_IFTTT \<and> no_text (cf_token c)) \<or>
     (cf_auth c = SK_API_AUTH_CUSTOM_HEADER \<and> (no_text (cf_header c) \<or> no_text (cf_token c)))"

text \<open>The slot with this name, else a free one.\<close>

definition slot_for :: "nat option \<Rightarrow> endpoint list \<Rightarrow> nat option" where
  "slot_for found es = (case found of Some i \<Rightarrow> Some i | None \<Rightarrow> find_free es)"

definition sk_api_endpoint_add :: "'n nvs_ops \<Rightarrow> endpoint_cfg \<Rightarrow> 'n api \<Rightarrow> esp_err \<times> 'n api" where
  "sk_api_endpoint_add N c s =
     (if cfg_refused c s then (ESP_ERR_INVALID_ARG, s)
      else (case slot_for (find_by_name (cf_name c) (user_eps s)) (user_eps s) of
          None \<Rightarrow> (ESP_ERR_NO_MEM, s)
        | Some i \<Rightarrow> (ESP_OK, put_user N i (user_endpoint c) s)))"

definition sk_api_endpoint_remove :: "'n nvs_ops \<Rightarrow> string \<Rightarrow> 'n api \<Rightarrow> esp_err \<times> 'n api" where
  "sk_api_endpoint_remove N name s =
     (case find_by_name name (user_eps s) of
        None \<Rightarrow> (ESP_ERR_NOT_FOUND, s)
      | Some i \<Rightarrow> (ESP_OK, put_user N i ep_zero s))"

definition system_endpoint :: "u8 list \<Rightarrow> string \<Rightarrow> u16 \<Rightarrow> endpoint" where
  "system_endpoint peer url delay =
     ep_zero\<lparr>ep_name := snprintf (SK_API_NAME_MAX + 1) (''skapp-'' @ take 8 (bytes_to_hex peer)), ep_url := url,
       ep_type := SK_API_GENERIC, ep_method := SK_API_METHOD_POST, ep_auth := SK_API_AUTH_NONE, ep_ct := DEFAULT_CT,
       ep_delay := clamp_delay delay, ep_kind := SK_API_KIND_SYSTEM, ep_peer := peer, ep_used := True\<rparr>"

text \<open>\<open>a\<close> is the bond table of \<open>sk_auth.c\<close>; the slot of the registration is returned.\<close>

definition sk_api_system_add :: "'n nvs_ops \<Rightarrow> 'b auth \<Rightarrow> u8 list \<Rightarrow> string \<Rightarrow> u16 \<Rightarrow> 'n api \<Rightarrow> esp_err \<times> nat \<times> 'n api" where
  "sk_api_system_add N a peer url delay s =
     (if length url > SK_API_URL_MAX \<or> list_all (\<lambda>b. b = 0) peer then (ESP_ERR_INVALID_ARG, 0, s)
      else if fst (sk_auth_bond_lookup peer a) \<noteq> ESP_OK then (ESP_ERR_NOT_FOUND, 0, s)
      else (case slot_for (find_system_slot_by_peer peer (system_eps s)) (system_eps s) of
          None \<Rightarrow> (ESP_ERR_NO_MEM, 0, s)
        | Some i \<Rightarrow> (ESP_OK, i, put_system N i (system_endpoint peer url delay) s)))"

definition sk_api_system_remove :: "'n nvs_ops \<Rightarrow> u8 list \<Rightarrow> 'n api \<Rightarrow> esp_err \<times> 'n api" where
  "sk_api_system_remove N peer s =
     (case find_system_slot_by_peer peer (system_eps s) of
        None \<Rightarrow> (ESP_ERR_NOT_FOUND, s)
      | Some i \<Rightarrow> (ESP_OK, put_system N i ep_zero s))"

definition sk_api_system_remove_all :: "'n nvs_ops \<Rightarrow> 'n api \<Rightarrow> 'n api" where
  "sk_api_system_remove_all N s =
     foldl (\<lambda>s i. if ep_used (system_eps s ! i) then put_system N i ep_zero s else s) s [0..<SK_API_SYSTEM_SLOTS]"

definition sk_api_endpoint_list :: "nat \<Rightarrow> 'n api \<Rightarrow> endpoint list" where
  "sk_api_endpoint_list m s = take m (filter ep_used (user_eps s) @ filter ep_used (system_eps s))"

section \<open>Factory reset and start-up\<close>

definition api_erase :: "'n nvs_ops \<Rightarrow> string \<Rightarrow> 'n \<Rightarrow> 'n" where
  "api_erase N ns n = (if nv_open_rw N n ns = ESP_OK then nv_commit N (nv_erase_all N n ns) ns else n)"

definition api_factory_reset :: "'n nvs_ops \<Rightarrow> 'n api \<Rightarrow> 'n api" where
  "api_factory_reset N s =
     s\<lparr>api_flash := api_erase N NVS_NS_GLOBAL (api_erase N NVS_API (api_flash s)),
       user_eps := replicate SK_API_USER_SLOTS ep_zero, system_eps := replicate SK_API_SYSTEM_SLOTS ep_zero\<rparr>"

definition sk_api_init :: "'n nvs_ops \<Rightarrow> 'n api \<Rightarrow> 'n api" where
  "sk_api_init N s =
     (if api_up s then s
      else (load_all_slots N (s\<lparr>user_eps := replicate SK_API_USER_SLOTS ep_zero,
        system_eps := replicate SK_API_SYSTEM_SLOTS ep_zero\<rparr>))\<lparr>api_up := True\<rparr>)"

end
