(* ===== verification/SkApiSend.thy ===== *)
theory SkApiSend
  imports SkApi
begin

text \<open>
  How \<open>sk_api.c\<close> fires a webhook: the body template, the request, the authentication of a user's endpoint, the
  signature of a paired app's, the worker with its one retry, the chain over all endpoints and the two events of the
  countdown that start it. HTTP, random numbers, clocks and memory are ESP-IDF: a record of functions over an unknown
  world \<open>'w\<close>, which also holds the endpoints and bonds, because other tasks run while a call blocks.
\<close>

section \<open>The world\<close>

datatype http_err = HTTP_OK | HTTP_CONNECT | HTTP_FETCH_HEADER | HTTP_INVALID_TRANSPORT | HTTP_CONNECTING | HTTP_EAGAIN
  | HTTP_TIMEOUT | HTTP_OTHER

datatype http_method = HTTP_METHOD_POST | HTTP_METHOD_GET | HTTP_METHOD_PUT | HTTP_METHOD_DELETE

text \<open>What the client is given: the headers in the order of the calls, and the post field if it is set.\<close>

record http_request =
  rq_url :: string
  rq_method :: http_method
  rq_headers :: "(string \<times> string) list"
  rq_body :: "string option"

text \<open>
  \<open>aw_got\<close> tells whether the next allocation or task creation succeeds; \<open>aw_perform\<close> answers the error and the
  status code; \<open>aw_wait\<close> is \<open>vTaskDelay(pdMS_TO_TICKS(ms))\<close>.
\<close>

record ('n, 'w) api_world =
  aw_api :: "'w \<Rightarrow> 'n api"
  aw_auth :: "'w \<Rightarrow> 'n auth"
  aw_nvs :: "'n nvs_ops"
  aw_id :: string
  aw_online :: "'w \<Rightarrow> bool"
  aw_unix :: "'w \<Rightarrow> int"
  aw_up_us :: "'w \<Rightarrow> int"
  aw_random :: "nat \<Rightarrow> 'w \<Rightarrow> u8 list \<times> 'w"
  aw_got :: "'w \<Rightarrow> bool \<times> 'w"
  aw_init :: "'w \<Rightarrow> bool \<times> 'w"
  aw_perform :: "http_request \<Rightarrow> 'w \<Rightarrow> (http_err \<times> int) \<times> 'w"
  aw_wait :: "u32 \<Rightarrow> 'w \<Rightarrow> 'w"
  aw_hmac :: hmac
  aw_b64 :: "nat \<Rightarrow> string \<Rightarrow> string option"

text \<open>What the component does, in order.\<close>

record send_job =
  sj_ep :: endpoint
  sj_payload :: string

record chain_job =
  cj_steps :: "(string \<times> u16) list"
  cj_class :: u8
  cj_filtered :: bool
  cj_payload :: string

datatype api_act =
    ApiBus eff                                  \<comment> \<open>\<open>sk_event_bus_publish\<close>\<close>
  | ApiLog bool string string                   \<comment> \<open>\<open>SK_LOG_E\<close> (true) or \<open>SK_LOG_I\<close> of tag \<open>api\<close>\<close>
  | ApiHttp http_request http_err int           \<comment> \<open>\<open>esp_http_client_perform\<close> with its result\<close>
  | ApiWorker send_job                          \<comment> \<open>a task that runs \<open>send_worker\<close>\<close>
  | ApiChain chain_job                          \<comment> \<open>a task that runs \<open>chain_runner\<close>\<close>

section \<open>The body template\<close>

text \<open>The test and the copy of \<open>append_bytes\<close>; the text is what the buffer holds.\<close>

definition append_bytes :: "nat \<Rightarrow> string \<Rightarrow> string \<Rightarrow> string" where
  "append_bytes cap out s = (if length out + 1 \<ge> cap then out else out @ take (cap - length out - 1) s)"

text \<open>The end of a quoted value: the first quotation mark without a backslash before it.\<close>

fun quoted :: "char \<Rightarrow> string \<Rightarrow> string \<Rightarrow> string option" where
  "quoted prev acc [] = None"
| "quoted prev acc (c # cs) = (if c = CHR 0x22 \<and> prev \<noteq> CHR 0x5C then Some (rev acc) else quoted c (c # acc) cs)"

definition scalar_char :: "char \<Rightarrow> bool" where
  "scalar_char c = (c \<noteq> CHR '','' \<and> c \<noteq> CHR ''}'' \<and> c \<noteq> CHR '']'' \<and> c \<noteq> CHR '' '' \<and> c \<noteq> CHR 0x0A \<and> c \<noteq> CHR 0x0D \<and> c \<noteq> CHR 0x09)"

definition extract_scalar :: "string \<Rightarrow> string \<Rightarrow> string option" where
  "extract_scalar json key =
     (if json = [] \<or> length (jk key) \<ge> 40 then None
      else (case after_str (jk key) json of
          None \<Rightarrow> None
        | Some p \<Rightarrow>
            (let p = dropWhile (\<lambda>c. c = CHR '' '' \<or> c = CHR 0x09) p in
             case p of
               [] \<Rightarrow> None
             | c # cs \<Rightarrow>
                 (if c = CHR 0x22 then quoted c [] cs
                  else if c = CHR ''{'' \<or> c = CHR ''['' then None
                  else (let v = takeWhile scalar_char p in if v = [] then None else Some v)))))"

definition key_char :: "char \<Rightarrow> bool" where
  "key_char c = ((97 \<le> char_code c \<and> char_code c \<le> 122) \<or> is_digit c \<or> c = CHR ''_'')"

text \<open>The token at an opening brace, with what follows the closing brace.\<close>

definition token_at :: "string \<Rightarrow> (string \<times> string) option" where
  "token_at s =
     (let k = takeWhile key_char s in
      case drop (length k) s of
        [] \<Rightarrow> None
      | c # rest \<Rightarrow> (if k \<noteq> [] \<and> c = CHR ''}'' \<and> length k < 32 then Some (k, rest) else None))"

definition token_value :: "string \<Rightarrow> string \<Rightarrow> string option" where
  "token_value runtime k =
     (if k = ''payload'' then Some (if runtime \<noteq> [] then runtime else ''{}'') else extract_scalar runtime k)"

definition token_here :: "string \<Rightarrow> string \<Rightarrow> (string \<times> string) option" where
  "token_here runtime s =
     (case token_at s of None \<Rightarrow> None | Some (k, rest) \<Rightarrow> map_option (\<lambda>v. (v, rest)) (token_value runtime k))"

lemma token_at_shorter: "token_at s = Some (k, rest) \<Longrightarrow> length rest < length s"
proof -
  assume t: "token_at s = Some (k, rest)"
  let ?d = "drop (length (takeWhile key_char s)) s"
  obtain c cs where d: "?d = c # cs" using t by (cases ?d) (simp_all add: token_at_def Let_def)
  have "rest = cs" using t d by (simp add: token_at_def Let_def split: if_splits)
  moreover have "length ?d \<le> length s" by simp
  ultimately show ?thesis using d by simp
qed

lemma token_here_shorter: "token_here runtime s = Some (v, rest) \<Longrightarrow> length rest < length s"
  by (auto simp: token_here_def split: option.splits dest: token_at_shorter)

function render_loop :: "nat \<Rightarrow> string \<Rightarrow> string \<Rightarrow> string \<Rightarrow> string" where
  "render_loop cap runtime out [] = out"
| "render_loop cap runtime out (c # cs) =
     (if c \<noteq> CHR ''{'' then render_loop cap runtime (append_bytes cap out [c]) cs
      else (case token_here runtime cs of
          Some (v, rest) \<Rightarrow> render_loop cap runtime (append_bytes cap out v) rest
        | None \<Rightarrow> render_loop cap runtime (append_bytes cap out [c]) cs))"
  by pat_completeness auto
termination
  by (relation "measure (\<lambda>(cap, runtime, out, s). length s)") (auto dest: token_here_shorter)

definition render_ep_payload :: "string \<Rightarrow> string \<Rightarrow> nat \<Rightarrow> string" where
  "render_ep_payload tmpl runtime cap = render_loop cap runtime [] tmpl"

section \<open>The request\<close>

definition map_http_err :: "http_err \<Rightarrow> sk_err" where
  "map_http_err e =
     (case e of HTTP_INVALID_TRANSPORT \<Rightarrow> SK_ERR_API_TLS | HTTP_EAGAIN \<Rightarrow> SK_ERR_API_TIMEOUT
      | HTTP_TIMEOUT \<Rightarrow> SK_ERR_API_TIMEOUT | _ \<Rightarrow> SK_ERR_API_CONNECT)"

definition fail_reason :: "http_err \<Rightarrow> int \<Rightarrow> string" where
  "fail_reason e status =
     (if 400 \<le> status \<and> status < 600 then snprintf 16 (''http_'' @ dec_int status)
      else (case e of HTTP_TIMEOUT \<Rightarrow> ''timeout'' | HTTP_EAGAIN \<Rightarrow> ''timeout'' | HTTP_INVALID_TRANSPORT \<Rightarrow> ''tls''
        | HTTP_CONNECT \<Rightarrow> ''network'' | HTTP_CONNECTING \<Rightarrow> ''network'' | HTTP_FETCH_HEADER \<Rightarrow> ''network''
        | _ \<Rightarrow> (if status = 0 then ''network'' else ''unknown'')))"

definition worker_publish_result :: "string \<Rightarrow> bool \<Rightarrow> int \<Rightarrow> sk_err \<Rightarrow> api_act" where
  "worker_publish_result name ok status err = ApiBus (Publish ''api.sent'' (Some (snprintf 160
     (''{'' @ jk ''name'' @ jq name @ '','' @ jk ''ok'' @ jbool ok @ '','' @ jk ''status'' @ dec_int status @ '','' @
      jk ''err'' @ jq (if err = SK_OK then [] else sk_err_code_string err) @ ''}''))))"

text \<open>URL and body, into buffers of 256 and 1024 bytes.\<close>

definition build_request :: "endpoint \<Rightarrow> string \<Rightarrow> sk_err + (string \<times> string)" where
  "build_request ep payload =
     (if ep_type ep = SK_API_GENERIC \<or> ep_type ep = SK_API_WEBHOOK_POST then
        Inr (snprintf 256 (ep_url ep), snprintf 1024 payload)
      else if ep_type ep = SK_API_IFTTT then
        (if ep_token ep = [] then Inl SK_ERR_API_NOT_CONFIGURED
         else Inr (snprintf 256 (''https://maker.ifttt.com/trigger/'' @ ep_url ep @ ''/with/key/'' @ ep_token ep),
           snprintf 1024 (if payload \<noteq> [] then payload else ''{}'')))
      else Inl SK_ERR_API_INVALID_TYPE)"

definition method_to_esp :: "u8 \<Rightarrow> http_method" where
  "method_to_esp m =
     (if m = SK_API_METHOD_GET then HTTP_METHOD_GET else if m = SK_API_METHOD_PUT then HTTP_METHOD_PUT
      else if m = SK_API_METHOD_DELETE then HTTP_METHOD_DELETE else HTTP_METHOD_POST)"

definition resolve_method_ct :: "endpoint \<Rightarrow> http_method \<times> string" where
  "resolve_method_ct ep =
     (if ep_type ep = SK_API_IFTTT then (HTTP_METHOD_POST, DEFAULT_CT)
      else (method_to_esp (ep_method ep), if ep_ct ep \<noteq> [] then ep_ct ep else DEFAULT_CT))"

definition method_has_body :: "http_method \<Rightarrow> bool" where
  "method_has_body m = (m = HTTP_METHOD_POST \<or> m = HTTP_METHOD_PUT \<or> m = HTTP_METHOD_DELETE)"

section \<open>Authentication\<close>

text \<open>The headers of a user's endpoint; the scratch buffer has 200 bytes, the base64 buffer 256.\<close>

definition apply_auth :: "('n, 'w) api_world \<Rightarrow> endpoint \<Rightarrow> u8 \<Rightarrow> sk_err + (string \<times> string) list" where
  "apply_auth W ep a =
     (if a = SK_API_AUTH_NONE then Inr []
      else if a = SK_API_AUTH_BEARER then
        (if ep_token ep = [] then Inl SK_ERR_API_NOT_CONFIGURED
         else Inr [(''Authorization'', snprintf 200 (''Bearer '' @ ep_token ep))])
      else if a = SK_API_AUTH_BASIC then
        (if ep_token ep = [] then Inl SK_ERR_API_NOT_CONFIGURED
         else (case aw_b64 W 256 (ep_token ep) of
             None \<Rightarrow> Inl SK_ERR_API_NOT_CONFIGURED
           | Some enc \<Rightarrow>
               (if length enc + 1 \<ge> 256 then Inl SK_ERR_API_NOT_CONFIGURED
                else Inr [(''Authorization'', snprintf 200 (''Basic '' @ enc))])))
      else if a = SK_API_AUTH_CUSTOM_HEADER then
        (if ep_token ep = [] \<or> ep_header ep = [] then Inl SK_ERR_API_NOT_CONFIGURED
         else Inr [(ep_header ep, ep_token ep)])
      else Inl SK_ERR_API_INVALID_TYPE)"

definition SIGN_MSG_CAP :: nat where "SIGN_MSG_CAP = 1024 + 80"

definition sign_text :: "string \<Rightarrow> string \<Rightarrow> string \<Rightarrow> string" where
  "sign_text body ts nonce = dec_nat (length body) @ ''\<newline>'' @ body @ ''\<newline>'' @ ts @ ''\<newline>'' @ nonce"

definition build_sign_msg :: "string \<Rightarrow> string \<Rightarrow> string \<Rightarrow> string option" where
  "build_sign_msg body ts nonce =
     (if length (sign_text body ts nonce) \<ge> SIGN_MSG_CAP then None else Some (sign_text body ts nonce))"

text \<open>The headers of a paired app's endpoint.\<close>

definition apply_bond_signature :: "('n, 'w) api_world \<Rightarrow> endpoint \<Rightarrow> string \<Rightarrow> 'w \<Rightarrow> (sk_err + (string \<times> string) list) \<times> 'w" where
  "apply_bond_signature W ep body w =
     (case sk_auth_bond_lookup (ep_peer ep) (aw_auth W w) of
        (err, None) \<Rightarrow> (Inl SK_ERR_API_NOT_CONFIGURED, w)
      | (err, Some (key, slot)) \<Rightarrow>
          (let ts = snprintf 24 (dec_int (aw_unix W w)) in
           case aw_random W 16 w of (nonce, w) \<Rightarrow>
             (case build_sign_msg body ts (bytes_to_hex nonce) of
                None \<Rightarrow> (Inl SK_ERR_API_NOT_CONFIGURED, w)
              | Some m \<Rightarrow>
                  (case aw_hmac W key (bytes m) of
                     None \<Rightarrow> (Inl SK_ERR_INTERNAL, w)
                   | Some mac \<Rightarrow>
                       (Inr [(''X-SK-Device-Id'', aw_id W), (''X-SK-Peer-Id'', bytes_to_hex (ep_peer ep)), (''X-SK-Timestamp'', ts),
                          (''X-SK-Nonce'', bytes_to_hex nonce), (''X-SK-Signature'', bytes_to_hex (take 16 mac))], w)))))"

definition request_auth :: "('n, 'w) api_world \<Rightarrow> endpoint \<Rightarrow> string \<Rightarrow> 'w \<Rightarrow> (sk_err + (string \<times> string) list) \<times> 'w" where
  "request_auth W ep body w =
     (if ep_kind ep = SK_API_KIND_SYSTEM then apply_bond_signature W ep body w
      else (apply_auth W ep (if ep_type ep = SK_API_IFTTT then SK_API_AUTH_NONE else ep_auth ep), w))"

section \<open>The worker\<close>

datatype attempt_end = Refused sk_err | Answered http_err int

definition request_of :: "endpoint \<Rightarrow> string \<Rightarrow> string \<Rightarrow> (string \<times> string) list \<Rightarrow> http_request" where
  "request_of ep url body hs =
     (case resolve_method_ct ep of (m, ct) \<Rightarrow>
        \<lparr> rq_url = url, rq_method = m, rq_headers = (''Content-Type'', ct) # hs,
          rq_body = (if method_has_body m \<and> body \<noteq> [] then Some body else None) \<rparr>)"

text \<open>The loop of \<open>send_worker\<close> with so many attempts left; before the first, error and status are zero.\<close>

primrec attempts :: "('n, 'w) api_world \<Rightarrow> endpoint \<Rightarrow> string \<Rightarrow> string \<Rightarrow> nat \<Rightarrow> 'w \<Rightarrow> attempt_end \<times> api_act list \<times> 'w" where
  "attempts W ep url body 0 w = (Answered HTTP_OK 0, [], w)"
| "attempts W ep url body (Suc k) w =
     (case aw_init W w of (ok, w) \<Rightarrow>
        (if \<not> ok then (Refused SK_ERR_INTERNAL, [], w)
         else (case request_auth W ep body w of
             (Inl e, w) \<Rightarrow> (Refused e, [], w)
           | (Inr hs, w) \<Rightarrow>
               (let rq = request_of ep url body hs in
                case aw_perform W rq w of ((err, status), w) \<Rightarrow>
                  (if err \<noteq> HTTP_OK \<and> status = 0 \<and> k > 0 then
                     (case attempts W ep url body k (aw_wait W 200 w) of (r, acts, w) \<Rightarrow>
                        (r, ApiHttp rq err status # acts, w))
                   else (Answered err status, [ApiHttp rq err status], w))))))"

definition log_pairs :: "string \<Rightarrow> string \<Rightarrow> string" where
  "log_pairs name s = ''name='' @ name @ '' '' @ s"

definition effective_payload :: "send_job \<Rightarrow> string" where
  "effective_payload job =
     (if ep_kind (sj_ep job) = SK_API_KIND_USER \<and> ep_payload (sj_ep job) \<noteq> []
      then render_ep_payload (ep_payload (sj_ep job)) (sj_payload job) 1024 else sj_payload job)"

definition send_worker :: "('n, 'w) api_world \<Rightarrow> send_job \<Rightarrow> 'w \<Rightarrow> api_act list \<times> 'w" where
  "send_worker W job w =
     (let t_start = aw_up_us W w; ep = sj_ep job; name = ep_name ep in
      case build_request ep (effective_payload job) of
        Inl e \<Rightarrow> ([worker_publish_result name False 0 e], w)
      | Inr (url, body) \<Rightarrow>
          (case attempts W ep url body 2 w of
             (Refused e, acts, w) \<Rightarrow> (acts @ [worker_publish_result name False 0 e], w)
           | (Answered err status, acts, w) \<Rightarrow>
               (let elapsed_ms = cdiv (aw_up_us W w - t_start) 1000 in
                (acts @
                  (if err \<noteq> HTTP_OK then
                     [worker_publish_result name False 0 (map_http_err err),
                      ApiLog True ''endpoint.fail'' (log_pairs name (''reason='' @ fail_reason err 0))]
                   else if 200 \<le> status \<and> status < 300 then
                     [worker_publish_result name True status SK_OK,
                      ApiLog False ''endpoint.fire'' (log_pairs name (''status='' @ dec_int status @ '' ms='' @ dec_int elapsed_ms))]
                   else
                     [worker_publish_result name False status SK_ERR_API_BAD_STATUS,
                      ApiLog True ''endpoint.fail'' (log_pairs name (''reason='' @ fail_reason HTTP_OK status))]), w))))"

text \<open>\<open>body\<close> runs when the allocation succeeds.\<close>

definition with_memory :: "('n, 'w) api_world \<Rightarrow> ('w \<Rightarrow> esp_err \<times> api_act list \<times> 'w) \<Rightarrow> 'w \<Rightarrow> esp_err \<times> api_act list \<times> 'w" where
  "with_memory W body w = (case aw_got W w of (ok, w) \<Rightarrow> if ok then body w else (ESP_ERR_NO_MEM, [], w))"

text \<open>The two allocations of the job, then the task.\<close>

definition sk_api_send :: "('n, 'w) api_world \<Rightarrow> string \<Rightarrow> string option \<Rightarrow> 'w \<Rightarrow> esp_err \<times> api_act list \<times> 'w" where
  "sk_api_send W name payload w =
     (if \<not> sk_api_is_enabled_all (aw_nvs W) (aw_api W w) then (ESP_ERR_INVALID_STATE, [], w)
      else (case find_any_by_name name (aw_api W w) of
          None \<Rightarrow> (ESP_ERR_NOT_FOUND, [], w)
        | Some ep \<Rightarrow>
            (if \<not> aw_online W w then (ESP_ERR_INVALID_STATE, [worker_publish_result name False 0 SK_ERR_API_OFFLINE], w)
             else with_memory W (with_memory W (with_memory W (\<lambda>w.
               (ESP_OK, [ApiWorker \<lparr> sj_ep = ep, sj_payload = text_or_empty payload \<rparr>], w)))) w)))"

section \<open>The chain\<close>

text \<open>The loop of \<open>chain_runner\<close>: the events, and how many sends were accepted.\<close>

fun chain_loop :: "('n, 'w) api_world \<Rightarrow> string \<Rightarrow> (string \<times> u16) list \<Rightarrow> 'w \<Rightarrow> nat \<times> api_act list \<times> 'w" where
  "chain_loop W payload [] w = (0, [], w)"
| "chain_loop W payload ((name, delay) # steps) w =
     (if find_any_by_name name (aw_api W w) = None then chain_loop W payload steps w
      else (case sk_api_send W name (Some payload) w of (err, acts, w) \<Rightarrow>
        (let w = (if steps \<noteq> [] \<and> delay > 0 then aw_wait W (ucast delay * 1000) w else w) in
         case chain_loop W payload steps w of (n, acts2, w) \<Rightarrow>
           ((if err = ESP_OK then 1 else 0) + n, acts @ acts2, w))))"

definition chain_runner :: "('n, 'w) api_world \<Rightarrow> chain_job \<Rightarrow> 'w \<Rightarrow> api_act list \<times> 'w" where
  "chain_runner W job w =
     (case chain_loop W (cj_payload job) (cj_steps job) w of (ok_count, acts, w) \<Rightarrow>
        (acts @ [ApiBus (Publish ''api.chain.finished'' (Some (snprintf 96
          (''{'' @ jk ''count'' @ dec_nat (length (cj_steps job)) @ '','' @ jk ''ok_count'' @ dec_nat ok_count @
           (if cj_filtered job then '','' @ jk ''class'' @ jq (sk_api_trigclass_str (cj_class job)) else []) @ ''}''))))], w))"

definition chain_steps :: "bool \<Rightarrow> u8 \<Rightarrow> endpoint list \<Rightarrow> (string \<times> u16) list" where
  "chain_steps filtered cls es =
     map (\<lambda>e. (take SK_API_NAME_MAX (ep_name e), ep_delay e))
       (filter (\<lambda>e. ep_used e \<and> (\<not> filtered \<or> trigclass_matches (ep_class e) cls)) es)"

definition chain_build_and_run :: "('n, 'w) api_world \<Rightarrow> bool \<Rightarrow> u8 \<Rightarrow> string option \<Rightarrow> 'w \<Rightarrow> esp_err \<times> api_act list \<times> 'w" where
  "chain_build_and_run W filtered cls payload w =
     (if \<not> sk_api_is_enabled_all (aw_nvs W) (aw_api W w) then (ESP_ERR_INVALID_STATE, [], w)
      else with_memory W (\<lambda>w.
        (let steps = chain_steps filtered cls (user_eps (aw_api W w)) @ chain_steps filtered cls (system_eps (aw_api W w)) in
         if steps = [] then (ESP_ERR_NOT_FOUND, [], w)
         else with_memory W (\<lambda>w. (ESP_OK, [ApiChain \<lparr> cj_steps = steps, cj_class = cls, cj_filtered = filtered,
           cj_payload = take SK_API_PAYLOAD_MAX (text_or_empty payload) \<rparr>], w)) w)) w)"

definition sk_api_chain_run :: "('n, 'w) api_world \<Rightarrow> string option \<Rightarrow> 'w \<Rightarrow> esp_err \<times> api_act list \<times> 'w" where
  "sk_api_chain_run W payload w = chain_build_and_run W False SK_API_TRIGCLASS_TRIGGER payload w"

definition sk_api_chain_run_class :: "('n, 'w) api_world \<Rightarrow> u8 \<Rightarrow> string option \<Rightarrow> 'w \<Rightarrow> esp_err \<times> api_act list \<times> 'w" where
  "sk_api_chain_run_class W cls payload w = chain_build_and_run W True cls payload w"

section \<open>The events of the countdown\<close>

definition event_body :: "('n, 'w) api_world \<Rightarrow> string \<Rightarrow> string option \<Rightarrow> string" where
  "event_body W name payload = snprintf 256 (''{'' @ jk ''event'' @ jq name @ '','' @ jk ''device'' @ jq (aw_id W) @ '','' @
     jk ''data'' @ (case payload of None \<Rightarrow> ''{}'' | Some p \<Rightarrow> p) @ ''}'')"

definition fire_class_for_event :: "('n, 'w) api_world \<Rightarrow> string \<Rightarrow> string option \<Rightarrow> u8 \<Rightarrow> 'w \<Rightarrow> api_act list \<times> 'w" where
  "fire_class_for_event W name payload cls w =
     (case sk_api_chain_run_class W cls (Some (event_body W name payload)) w of (err, acts, w) \<Rightarrow> (acts, w))"

text \<open>The two subscriptions of the webhooks to the countdown.\<close>

definition api_on :: "('n, 'w) api_world \<Rightarrow> eff \<Rightarrow> 'w \<Rightarrow> api_act list \<times> 'w" where
  "api_on W e w =
     (case e of Publish name payload \<Rightarrow>
        (if name = ''timer.alarm'' then fire_class_for_event W name payload SK_API_TRIGCLASS_ALARM w
         else if name = ''timer.triggered'' then fire_class_for_event W name payload SK_API_TRIGCLASS_TRIGGER w
         else ([], w))
      | _ \<Rightarrow> ([], w))"

end
