(* ===== verification/SkApiCommands.thy ===== *)
theory SkApiCommands
  imports SkApiSend
begin

text \<open>
  The twelve \<open>api.*\<close> commands of \<open>sk_api.c\<close>: the ten that work on endpoints, as functions on the webhooks, the
  bonds and the confirm tokens, and the two that fire, as functions on the world of the sender. Every handler
  returns \<open>SK_OK\<close> and writes one answer.
\<close>

section \<open>Listing\<close>

definition mask_token :: "string \<Rightarrow> string" where
  "mask_token tok =
     (if tok = [] then [] else if length tok < 12 then ''****''
      else snprintf (SK_API_TOKEN_MAX + 1) (take 4 tok @ ''...'' @ drop (length tok - 4) tok))"

fun api_escape_loop :: "nat \<Rightarrow> string \<Rightarrow> string \<Rightarrow> string" where
  "api_escape_loop cap out [] = out"
| "api_escape_loop cap out (c # cs) =
     (if length out + 2 \<ge> cap then out
      else api_escape_loop cap (out @
        (if c = CHR 0x22 then [CHR 0x5C, CHR 0x22] else if c = CHR 0x5C then [CHR 0x5C, CHR 0x5C]
         else if c = CHR 0x0A then [CHR 0x5C, CHR ''n''] else if c = CHR 0x0D then [CHR 0x5C, CHR ''r'']
         else if c = CHR 0x09 then [CHR 0x5C, CHR ''t''] else if char_code c \<ge> 0x20 then [c] else [])) cs)"

definition api_json_escape :: "nat \<Rightarrow> string \<Rightarrow> string" where
  "api_json_escape cap s = api_escape_loop cap [] s"

text \<open>
  \<open>off += snprintf(buf + off, cap - off, ...)\<close> when there is room left; \<open>off\<close> counts what would have been
  written. \<open>esc_ok\<close> tells whether the scratch of the escape was allocated.
\<close>

definition put_text :: "nat \<Rightarrow> string \<Rightarrow> string \<times> nat \<Rightarrow> string \<times> nat" where
  "put_text cap s st = (case st of (out, off) \<Rightarrow>
     if off \<ge> cap then (out, off) else (out @ snprintf (cap - off) s, off + length s))"

definition ep_json :: "bool \<Rightarrow> nat \<Rightarrow> endpoint \<Rightarrow> string" where
  "ep_json esc_ok slot e =
     ''{'' @ jk ''slot'' @ dec_nat slot @ '','' @ jk ''kind'' @ jq (sk_api_kind_str (ep_kind e)) @ '','' @
     jk ''class'' @ jq (sk_api_trigclass_str (ep_class e)) @ '','' @ jk ''name'' @ jq (ep_name e) @ '','' @
     jk ''type'' @ jq (sk_api_type_str (ep_type e)) @ '','' @ jk ''url'' @ jq (ep_url e) @ '','' @
     jk ''method'' @ jq (sk_api_method_str (ep_method e)) @ '','' @ jk ''auth'' @ jq (sk_api_auth_str (ep_auth e)) @ '','' @
     jk ''header'' @ jq (ep_header e) @ '','' @ jk ''content_type'' @ jq (ep_ct e) @ '','' @
     jk ''masked_token'' @ jq (mask_token (ep_token e)) @ '','' @
     jk ''payload'' @ jq (if esc_ok then api_json_escape (SK_API_EP_PAYLOAD_MAX * 2 + 1) (ep_payload e) else []) @ '','' @
     jk ''delay_after_sec'' @ dec_nat (unat (ep_delay e)) @ '','' @
     jk ''peer_id'' @ jq (if ep_kind e = SK_API_KIND_SYSTEM then bytes_to_hex (ep_peer e) else []) @ ''}''"

definition append_ep_json :: "nat \<Rightarrow> (endpoint \<Rightarrow> bool) \<Rightarrow> (string \<times> nat) \<times> bool \<Rightarrow> nat \<times> endpoint \<Rightarrow> (string \<times> nat) \<times> bool" where
  "append_ep_json cap esc_ok st p = (case st of (buf, first) \<Rightarrow> case p of (slot, e) \<Rightarrow>
     (put_text cap ((if first then [] else '','') @ ep_json (esc_ok e) slot e) buf, False))"

definition used_slots :: "endpoint list \<Rightarrow> (nat \<times> endpoint) list" where
  "used_slots es = filter (\<lambda>(i, e). ep_used e) (zip [0..<length es] es)"

definition endpoint_rows :: "nat \<Rightarrow> (endpoint \<Rightarrow> bool) \<Rightarrow> (nat \<times> endpoint) list \<Rightarrow> string" where
  "endpoint_rows cap esc_ok ps =
     fst (put_text cap '']'' (fst (foldl (append_ep_json cap esc_ok) (put_text cap ''['' ([], 0), True) ps)))"

section \<open>Handlers\<close>

record 'n api_dev =
  dv_api :: "'n api"
  dv_auth :: "'n auth"
  dv_slots :: "confirm_slot list"

type_synonym 'n api_cmd = "cli_ctx \<Rightarrow> 'n api_dev \<Rightarrow> 'n api_dev \<times> cli_out"

definition field_of :: "string \<Rightarrow> string option" where
  "field_of f = Some (''{'' @ jk ''field'' @ jq f @ ''}'')"

definition done_json :: "string \<Rightarrow> cli_out" where
  "done_json k = CliOk (Some (''{'' @ jk k @ ''true}''))"

definition cmd_api_enable :: "'n nvs_ops \<Rightarrow> 'n api_cmd" where
  "cmd_api_enable N ctx d = (d\<lparr>dv_api := snd (sk_api_set_enabled_all N True (dv_api d))\<rparr>, done_json ''enabled'')"

definition cmd_api_disable :: "'n nvs_ops \<Rightarrow> 'n api_cmd" where
  "cmd_api_disable N ctx d = (d\<lparr>dv_api := snd (sk_api_set_enabled_all N False (dv_api d))\<rparr>,
     CliOk (Some (''{'' @ jk ''enabled'' @ ''false}'')))"

definition cmd_api_status :: "'n nvs_ops \<Rightarrow> 'n api_cmd" where
  "cmd_api_status N ctx d =
     (let s = dv_api d; u = length (filter ep_used (user_eps s)); y = length (filter ep_used (system_eps s)) in
      (d, CliOk (Some (snprintf 160 (''{'' @ jk ''master_enabled'' @ jbool (sk_api_is_enabled_all N s) @ '','' @
        jk ''endpoints'' @ dec_nat (u + y) @ '','' @ jk ''user_endpoints'' @ dec_nat u @ '','' @
        jk ''system_endpoints'' @ dec_nat y @ '','' @ jk ''user_slots'' @ dec_nat SK_API_USER_SLOTS @ '','' @
        jk ''system_slots'' @ dec_nat SK_API_SYSTEM_SLOTS @ ''}'')))))"

text \<open>\<open>mem\<close>: the buffer of the answer was allocated; \<open>esc_ok\<close>: the scratch for an endpoint was.\<close>

definition list_answer :: "bool \<Rightarrow> (endpoint \<Rightarrow> bool) \<Rightarrow> nat \<Rightarrow> (nat \<times> endpoint) list \<Rightarrow> cli_out" where
  "list_answer mem esc_ok cap ps =
     (if mem then CliOk (Some (endpoint_rows cap esc_ok ps)) else CliErr SK_ERR_INTERNAL (reason ''oom''))"

definition cmd_api_endpoint_list :: "bool \<Rightarrow> (endpoint \<Rightarrow> bool) \<Rightarrow> 'n api_cmd" where
  "cmd_api_endpoint_list mem esc_ok ctx d =
     (d, list_answer mem esc_ok 16384 (used_slots (user_eps (dv_api d)) @ used_slots (system_eps (dv_api d))))"

definition api_confirmed :: "int \<Rightarrow> 'n api_cmd \<Rightarrow> 'n api_cmd" where
  "api_confirmed now body ctx d =
     (case confirm_token ctx of
        None \<Rightarrow> (d, CliErr SK_ERR_CONFIRM_TOKEN_REQUIRED None)
      | Some tok \<Rightarrow> (case sk_auth_confirm_consume now tok (dv_slots d) of (e, slots) \<Rightarrow>
          (let d = d\<lparr>dv_slots := slots\<rparr> in
           if e \<noteq> ESP_OK then (d, CliErr SK_ERR_CONFIRM_TOKEN_INVALID None) else body ctx d)))"

text \<open>A named argument that may be missing: the default, or its value when it has one.\<close>

definition opt_value :: "string option \<Rightarrow> 'v \<Rightarrow> (string \<Rightarrow> 'v option) \<Rightarrow> 'v option" where
  "opt_value arg dflt f = (case arg of None \<Rightarrow> Some dflt | Some s \<Rightarrow> f s)"

definition parse_delay :: "string \<Rightarrow> u16 option" where
  "parse_delay s = (let d = atol s in
     if d < 0 \<or> d > int SK_API_DELAY_AFTER_MAX_SEC then None else Some (word_of_int d))"

definition add_endpoint :: "'n nvs_ops \<Rightarrow> 'n api_cmd" where
  "add_endpoint N ctx d =
     (let arg = sk_cli_arg_named ctx; token = arg ''token''; hdr = arg ''header-name''; payld = arg ''payload'';
          bad = (\<lambda>f. (d, CliErr SK_ERR_INVALID_ARG (field_of f))) in
      case (arg ''name'', arg ''type'', arg ''url'') of
        (Some name, Some typs, Some url) \<Rightarrow>
          (case sk_api_type_from_str typs of None \<Rightarrow> (d, CliErr SK_ERR_API_INVALID_TYPE None) | Some t \<Rightarrow>
          (case opt_value (arg ''method'') SK_API_METHOD_POST sk_api_method_from_str of None \<Rightarrow> bad ''method'' | Some m \<Rightarrow>
          (case opt_value (arg ''auth'') SK_API_AUTH_NONE sk_api_auth_from_str of None \<Rightarrow> bad ''auth'' | Some a \<Rightarrow>
          (case opt_value (arg ''delay-after'') 0 parse_delay of None \<Rightarrow> bad ''delay-after'' | Some delay \<Rightarrow>
          (case opt_value (arg ''class'') SK_API_TRIGCLASS_TRIGGER sk_api_trigclass_from_str of None \<Rightarrow> bad ''class'' | Some cls \<Rightarrow>
            (if t = SK_API_IFTTT \<and> no_text token then
               (d, CliErr SK_ERR_MISSING_ARG (Some (''{'' @ jk ''field'' @ jq ''token'' @ '','' @ jk ''hint'' @ jq ''ifttt maker key'' @ ''}'')))
             else if a = SK_API_AUTH_CUSTOM_HEADER \<and> no_text hdr then (d, CliErr SK_ERR_MISSING_ARG (field_of ''header-name''))
             else if too_long payld SK_API_EP_PAYLOAD_MAX then bad ''payload''
             else
               (case sk_api_endpoint_add N \<lparr> cf_name = name, cf_type = t, cf_url = url, cf_token = token, cf_method = m,
                    cf_auth = a, cf_header = hdr, cf_ct = arg ''content-type'', cf_payload = payld, cf_delay = delay,
                    cf_class = cls \<rparr> (dv_api d) of (err, s) \<Rightarrow>
                  (d\<lparr>dv_api := s\<rparr>,
                   if err = ESP_ERR_NO_MEM then CliErr SK_ERR_INTERNAL (reason ''slots_full'')
                   else if err \<noteq> ESP_OK then CliErr SK_ERR_INVALID_ARG None else done_json ''added''))))))))
      | _ \<Rightarrow> (d, CliErr SK_ERR_MISSING_ARG (Some (''{'' @ jk ''need'' @ ''['' @ jq ''name'' @ '','' @ jq ''type'' @ '','' @ jq ''url'' @ '']}''))))"

definition cmd_api_endpoint_add :: "'n nvs_ops \<Rightarrow> int \<Rightarrow> 'n api_cmd" where
  "cmd_api_endpoint_add N now = api_confirmed now (add_endpoint N)"

definition cmd_api_endpoint_remove :: "'n nvs_ops \<Rightarrow> int \<Rightarrow> 'n api_cmd" where
  "cmd_api_endpoint_remove N now = api_confirmed now (\<lambda>ctx d.
     case sk_cli_arg_named ctx ''name'' of
       None \<Rightarrow> (d, CliErr SK_ERR_MISSING_ARG (field_of ''name''))
     | Some name \<Rightarrow> (case sk_api_endpoint_remove N name (dv_api d) of (err, s) \<Rightarrow>
         (d\<lparr>dv_api := s\<rparr>, if err \<noteq> ESP_OK then CliErr SK_ERR_NOT_FOUND None else done_json ''removed'')))"

text \<open>The peer of the session, by the slot that its connection made active.\<close>

definition resolve_caller_peer_id :: "cli_ctx \<Rightarrow> 'n auth \<Rightarrow> u8 list option" where
  "resolve_caller_peer_id ctx a =
     (if \<not> authenticated ctx \<or> active_slot a = SK_AUTH_BOND_SLOT_INVALID then None
      else map_option (\<lambda>(i, b). peer_id b) (find (\<lambda>(i, b). i = active_slot a) (sk_auth_bond_list a)))"

definition with_caller :: "('n auth \<Rightarrow> u8 list \<Rightarrow> 'n api_dev \<times> cli_out) \<Rightarrow> 'n api_cmd" where
  "with_caller body ctx d =
     (case resolve_caller_peer_id ctx (dv_auth d) of
        None \<Rightarrow> (d, CliErr SK_ERR_NOT_AUTHENTICATED None) | Some peer \<Rightarrow> body (dv_auth d) peer)"

definition cmd_api_system_add :: "'n nvs_ops \<Rightarrow> 'n api_cmd" where
  "cmd_api_system_add N ctx d =
     (if \<not> authenticated ctx then (d, CliErr SK_ERR_NOT_AUTHENTICATED None)
      else (case sk_cli_arg_named ctx ''url'' of
          None \<Rightarrow> (d, CliErr SK_ERR_MISSING_ARG (field_of ''url''))
        | Some url \<Rightarrow>
            (case opt_value (sk_cli_arg_named ctx ''delay-after'') 0 parse_delay of
               None \<Rightarrow> (d, CliErr SK_ERR_INVALID_ARG (field_of ''delay-after''))
             | Some delay \<Rightarrow> with_caller (\<lambda>a peer.
                 case sk_api_system_add N a peer url delay (dv_api d) of (err, slot, s) \<Rightarrow>
                   (d\<lparr>dv_api := s\<rparr>,
                    if err = ESP_ERR_NO_MEM then CliErr SK_ERR_INTERNAL (reason ''slots_full'')
                    else if err = ESP_ERR_NOT_FOUND then CliErr SK_ERR_NOT_FOUND (reason ''unknown peer_id'')
                    else if err \<noteq> ESP_OK then CliErr SK_ERR_INVALID_ARG None
                    else CliOk (Some (snprintf 64 (''{'' @ jk ''slot'' @ dec_nat slot @ ''}''))))) ctx d)))"

definition cmd_api_system_remove :: "'n nvs_ops \<Rightarrow> 'n api_cmd" where
  "cmd_api_system_remove N ctx d =
     (if \<not> authenticated ctx then (d, CliErr SK_ERR_NOT_AUTHENTICATED None)
      else with_caller (\<lambda>a peer.
        case sk_api_system_remove N peer (dv_api d) of (err, s) \<Rightarrow>
          (d\<lparr>dv_api := s\<rparr>, if err \<noteq> ESP_OK then CliErr SK_ERR_NOT_FOUND None else done_json ''removed'')) ctx d)"

definition cmd_api_system_purge :: "'n nvs_ops \<Rightarrow> 'n api_cmd" where
  "cmd_api_system_purge N ctx d =
     (if \<not> authenticated ctx then (d, CliErr SK_ERR_NOT_AUTHENTICATED None)
      else (d\<lparr>dv_api := sk_api_system_remove_all N (dv_api d)\<rparr>, done_json ''purged''))"

definition cmd_api_system_list :: "bool \<Rightarrow> (endpoint \<Rightarrow> bool) \<Rightarrow> 'n api_cmd" where
  "cmd_api_system_list mem esc_ok ctx d = (d, list_answer mem esc_ok 1024 (used_slots (system_eps (dv_api d))))"

text \<open>The table of the commands on endpoints.\<close>

definition api_cmds :: "'n nvs_ops \<Rightarrow> int \<Rightarrow> bool \<Rightarrow> (endpoint \<Rightarrow> bool) \<Rightarrow> (string \<times> 'n api_cmd) list" where
  "api_cmds N now mem esc_ok =
     [(''api.on'', cmd_api_enable N), (''api.off'', cmd_api_disable N), (''api.status'', cmd_api_status N),
      (''api.endpoint.list'', cmd_api_endpoint_list mem esc_ok), (''api.endpoint.add'', cmd_api_endpoint_add N now),
      (''api.endpoint.remove'', cmd_api_endpoint_remove N now), (''api.system.add'', cmd_api_system_add N),
      (''api.system.remove'', cmd_api_system_remove N), (''api.system.purge'', cmd_api_system_purge N),
      (''api.system.list'', cmd_api_system_list mem esc_ok)]"

section \<open>Firing by hand\<close>

definition default_payload :: "('n, 'w) api_world \<Rightarrow> string" where
  "default_payload W = snprintf 160 (''{'' @ jk ''event'' @ jq ''manual_test'' @ '','' @ jk ''device'' @ jq (aw_id W) @ '','' @
     jk ''value1'' @ jq ''manual_test'' @ ''}'')"

definition cmd_api_send :: "('n, 'w) api_world \<Rightarrow> cli_ctx \<Rightarrow> 'w \<Rightarrow> cli_out \<times> api_act list \<times> 'w" where
  "cmd_api_send W ctx w =
     (case sk_cli_arg_named ctx ''name'' of
        None \<Rightarrow> (CliErr SK_ERR_MISSING_ARG (field_of ''name''), [], w)
      | Some name \<Rightarrow>
          (if \<not> sk_api_is_enabled_all (aw_nvs W) (aw_api W w) then (CliErr SK_ERR_API_DISABLED None, [], w)
           else
             (let p = sk_cli_arg_named ctx ''payload''; p = (if no_text p then Some (default_payload W) else p) in
              case sk_api_send W name p w of (err, acts, w) \<Rightarrow>
                (if err = ESP_ERR_NOT_FOUND then CliErr SK_ERR_API_NOT_FOUND None
                 else if err = ESP_ERR_INVALID_STATE then CliErr SK_ERR_API_OFFLINE None
                 else if err \<noteq> ESP_OK then CliErr SK_ERR_INTERNAL None else done_json ''queued'', acts, w))))"

definition cmd_api_chain_run :: "('n, 'w) api_world \<Rightarrow> cli_ctx \<Rightarrow> 'w \<Rightarrow> cli_out \<times> api_act list \<times> 'w" where
  "cmd_api_chain_run W ctx w =
     (if \<not> sk_api_is_enabled_all (aw_nvs W) (aw_api W w) then (CliErr SK_ERR_API_DISABLED None, [], w)
      else (case sk_api_chain_run W (sk_cli_arg_named ctx ''payload'') w of (err, acts, w) \<Rightarrow>
        (if err = ESP_ERR_NOT_FOUND then CliErr SK_ERR_API_NOT_FOUND None
         else if err = ESP_ERR_INVALID_STATE then CliErr SK_ERR_API_DISABLED None
         else if err \<noteq> ESP_OK then CliErr SK_ERR_INTERNAL None
         else CliOk (Some (''{'' @ jk ''chain'' @ jq ''running'' @ ''}'')), acts, w)))"

end
