(* ===== verification/SkApiProps.thy ===== *)
theory SkApiProps
  imports SkApiCommands
begin

text \<open>
  Properties of the endpoints: the flash schema holds every slot exactly, whatever commands, factory resets, power
  cycles and changes of the bonds come in which order, and a paired app reaches no slot but its own.
\<close>

section \<open>Keys of the flash records\<close>

definition API_KEYS :: "string list" where
  "API_KEYS = [''name'', ''url'', ''tok'', ''hdr'', ''ct'', ''type'', ''meth'', ''auth'', ''dly'', ''kind'', ''tc'', ''pid'', ''pl'']"

lemma api_key_short: "t \<in> set API_KEYS \<Longrightarrow> length t \<le> 4 \<and> t \<noteq> [] \<and> \<not> is_digit (hd t)"
  by (auto simp: API_KEYS_def is_digit_def char_code_def)

lemma slot_key_eq: "i < 100 \<Longrightarrow> t \<in> set API_KEYS \<Longrightarrow> slot_key i t = CHR ''n'' # dec_nat i @ t"
proof -
  assume "i < 100" "t \<in> set API_KEYS"
  then have "length (dec_nat i) \<le> 2" "length t \<le> 4" using length_dec_nat [of i 1] api_key_short [of t] by simp_all
  then show ?thesis by (simp add: slot_key_def snprintf_def)
qed

lemma digits_of_key:
  assumes "t \<in> set API_KEYS"
  shows "takeWhile is_digit (dec_nat i @ t) = dec_nat i"
proof -
  obtain c cs where "t = c # cs" "\<not> is_digit c" using api_key_short [OF assms] by (cases t) auto
  then show ?thesis using dec_nat_digits [of i] by (simp add: takeWhile_append)
qed

lemma slot_key_apart:
  assumes "i < 100" "j < 100" "t \<in> set API_KEYS" "u \<in> set API_KEYS"
  shows "slot_key i t = slot_key j u \<longleftrightarrow> i = j \<and> t = u"
proof
  assume "slot_key i t = slot_key j u"
  then have e: "dec_nat i @ t = dec_nat j @ u" using assms by (simp add: slot_key_eq)
  have "dec_nat i = takeWhile is_digit (dec_nat i @ t)" using digits_of_key [OF assms(3)] by simp
  also have "\<dots> = dec_nat j" unfolding e by (rule digits_of_key [OF assms(4)])
  finally have d: "dec_nat i = dec_nat j" .
  then have "i = j" by (simp only: dec_nat_inj)
  moreover have "t = u" using e unfolding d by (simp only: same_append_eq)
  ultimately show "i = j \<and> t = u" by (rule conjI)
qed simp

section \<open>Writing a record\<close>

text \<open>What each key of a slot holds for an endpoint.\<close>

definition ep_entry :: "endpoint \<Rightarrow> string \<Rightarrow> nvs_val option" where
  "ep_entry e t =
     (if \<not> ep_used e then None
      else if t = ''name'' then Some (NvStr (ep_name e)) else if t = ''url'' then Some (NvStr (ep_url e))
      else if t = ''tok'' then Some (NvStr (ep_token e)) else if t = ''hdr'' then Some (NvStr (ep_header e))
      else if t = ''ct'' then Some (NvStr (ep_ct e)) else if t = ''type'' then Some (NvU8 (ep_type e))
      else if t = ''meth'' then Some (NvU8 (ep_method e)) else if t = ''auth'' then Some (NvU8 (ep_auth e))
      else if t = ''dly'' then Some (NvU16 (ep_delay e)) else if t = ''kind'' then Some (NvU8 (ep_kind e))
      else if t = ''tc'' then Some (NvU8 (ep_class e))
      else if t = ''pid'' then (if ep_kind e = SK_API_KIND_SYSTEM then Some (NvBlob (ep_peer e)) else None)
      else if ep_kind e = SK_API_KIND_USER \<and> ep_payload e \<noteq> [] then Some (NvStr (ep_payload e)) else None)"

definition apply_entry :: "'n nvs_ops \<Rightarrow> nat \<Rightarrow> endpoint \<Rightarrow> 'n \<Rightarrow> string \<Rightarrow> 'n" where
  "apply_entry N i e n t =
     (case ep_entry e t of None \<Rightarrow> nv_del N (slot_key i t) n | Some v \<Rightarrow> api_put N i t v n)"

definition write_order :: "endpoint \<Rightarrow> string list" where
  "write_order e = (if ep_used e then API_KEYS
     else [''name'', ''url'', ''tok'', ''type'', ''meth'', ''auth'', ''hdr'', ''ct'', ''dly'', ''kind'', ''pid'', ''tc'', ''pl''])"

lemma write_order_keys: "set (write_order e) = set API_KEYS"
  by (auto simp: write_order_def API_KEYS_def)

lemma write_endpoint_fold: "write_endpoint N i e n = foldl (apply_entry N i e) n (write_order e)"
  by (simp add: write_endpoint_def write_order_def API_KEYS_def apply_entry_def ep_entry_def Let_def)

lemma get_apply_entry:
  assumes N: "nvs_lawful N"
  shows "nv_get N (apply_entry N i e n t) ns k = (if ns = NVS_API \<and> k = slot_key i t then ep_entry e t else nv_get N n ns k)"
  using N by (cases "ep_entry e t") (auto simp: apply_entry_def nv_del_def api_put_def nvs_simps)


lemma get_written_key:
  assumes N: "nvs_lawful N" and i: "i < 100"
  shows "set ts \<subseteq> set API_KEYS \<Longrightarrow> t \<in> set API_KEYS \<Longrightarrow> nv_get N (foldl (apply_entry N i e) n ts) NVS_API (slot_key i t) =
     (if t \<in> set ts then ep_entry e t else nv_get N n NVS_API (slot_key i t))"
  using i by (induction ts arbitrary: n) (auto simp: get_apply_entry [OF N] slot_key_apart)

lemma get_written_other:
  assumes N: "nvs_lawful N" and k: "\<And>t. t \<in> set ts \<Longrightarrow> ns \<noteq> NVS_API \<or> k \<noteq> slot_key i t"
  shows "nv_get N (foldl (apply_entry N i e) n ts) ns k = nv_get N n ns k"
  using k by (induction ts arbitrary: n) (auto simp: get_apply_entry [OF N])

lemma get_slot_written:
  assumes N: "nvs_lawful N" and "i < 100" "j < 100" "t \<in> set API_KEYS"
  shows "nv_get N (write_endpoint N i e n) NVS_API (slot_key j t) = (if j = i then ep_entry e t else nv_get N n NVS_API (slot_key j t))"
proof (cases "j = i")
  case True
  then show ?thesis using get_written_key [OF N assms(2) _ assms(4)] assms(4) by (simp add: write_endpoint_fold write_order_keys)
next
  case False
  have "nv_get N (foldl (apply_entry N i e) n (write_order e)) NVS_API (slot_key j t) = nv_get N n NVS_API (slot_key j t)"
    by (rule get_written_other [OF N]) (use False assms in \<open>auto simp: write_order_keys slot_key_apart\<close>)
  with False show ?thesis by (simp add: write_endpoint_fold)
qed

lemma get_global_written:
  assumes N: "nvs_lawful N" and "ns \<noteq> NVS_API"
  shows "nv_get N (write_endpoint N i e n) ns k = nv_get N n ns k"
  using get_written_other [OF N] assms(2) by (simp add: write_endpoint_fold)

section \<open>Reading it back\<close>

text \<open>The endpoints a slot of each bucket may hold: a free one is all zeros.\<close>

definition fits :: "endpoint \<Rightarrow> bool" where
  "fits e \<longleftrightarrow> length (ep_name e) \<le> 31 \<and> length (ep_url e) \<le> 191 \<and> length (ep_token e) \<le> 127 \<and> length (ep_header e) \<le> 31 \<and>
     length (ep_ct e) \<le> 63 \<and> ep_ct e \<noteq> [] \<and> length (ep_payload e) \<le> 512 \<and> length (ep_peer e) = 16"

definition user_ok :: "endpoint \<Rightarrow> bool" where
  "user_ok e \<longleftrightarrow> e = ep_zero \<or> (ep_used e \<and> fits e \<and> ep_kind e = SK_API_KIND_USER \<and> ep_peer e = replicate 16 0)"

definition system_ok :: "endpoint \<Rightarrow> bool" where
  "system_ok e \<longleftrightarrow> e = ep_zero \<or> (ep_used e \<and> fits e \<and> ep_kind e = SK_API_KIND_SYSTEM \<and> ep_payload e = [] \<and>
     ep_type e = SK_API_GENERIC \<and> ep_method e = SK_API_METHOD_POST \<and> ep_class e = SK_API_TRIGCLASS_TRIGGER \<and>
     ep_ct e = DEFAULT_CT \<and> ep_token e = [] \<and> (\<exists>b \<in> set (ep_peer e). b \<noteq> 0))"

lemma not_used_zero [simp]: "\<not> ep_used ep_zero"
  by (simp add: ep_zero_def)

lemma ok_zero [simp]: "user_ok ep_zero" "system_ok ep_zero"
  by (simp_all add: user_ok_def system_ok_def)

definition slot_image :: "endpoint \<Rightarrow> endpoint option" where
  "slot_image e = (if ep_used e then Some e else None)"

definition holds_record :: "'n nvs_ops \<Rightarrow> 'n \<Rightarrow> nat \<Rightarrow> endpoint \<Rightarrow> bool" where
  "holds_record N n i e \<longleftrightarrow> (\<forall>t \<in> set API_KEYS. nv_get N n NVS_API (slot_key i t) = ep_entry e t)"

lemma load_record:
  assumes "holds_record N n i e" "user_ok e \<or> system_ok e"
  shows "load_endpoint N n i = slot_image e"
proof (cases "ep_used e")
  case True
  have h: "nv_get N n NVS_API (slot_key i t) = ep_entry e t" if "t \<in> set API_KEYS" for t
    using assms(1) that by (simp add: holds_record_def)
  have k: "ep_kind e = SK_API_KIND_USER \<and> ep_peer e = replicate 16 0 \<or> ep_kind e = SK_API_KIND_SYSTEM \<and> ep_payload e = []"
    and f: "fits e" using assms(2) True by (auto simp: user_ok_def system_ok_def)
  note get = h ep_entry_def API_KEYS_def True
  have name: "get_str N n NVS_API (slot_key i ''name'') = Some (ep_name e)" by (simp add: get_str_def get)
  have str: "api_str N n i ''url'' SK_API_URL_MAX = ep_url e"
    "api_str N n i ''tok'' SK_API_TOKEN_MAX = ep_token e"
    "api_str N n i ''hdr'' SK_API_HEADER_MAX = ep_header e"
    "api_str N n i ''ct'' SK_API_CT_MAX = ep_ct e"
    using f by (simp_all add: api_str_def load_str_def load_val_def get_str_def fits_def api_limits get)
  have pl: "api_str N n i ''pl'' SK_API_EP_PAYLOAD_MAX = ep_payload e"
    using f k by (auto simp: api_str_def load_str_def load_val_def get_str_def fits_def api_limits api_enums get)
  have u8: "api_u8 N n i ''type'' 0 = ep_type e"
    "api_u8 N n i ''meth'' 0 = ep_method e"
    "api_u8 N n i ''auth'' 0 = ep_auth e"
    "api_u8 N n i ''kind'' SK_API_KIND_USER = ep_kind e"
    "api_u8 N n i ''tc'' SK_API_TRIGCLASS_TRIGGER = ep_class e"
    by (simp_all add: api_u8_def load_val_def get_u8_def get)
  have dly: "load_val (get_u16 N n NVS_API (slot_key i ''dly'')) (\<lambda>v. True) (\<lambda>v. v) 0 = ep_delay e"
    by (simp add: load_val_def get_u16_def get)
  have pid: "get_blob N n NVS_API (slot_key i ''pid'') = (if ep_kind e = SK_API_KIND_SYSTEM then Some (ep_peer e) else None)"
    by (simp add: get_blob_def get)
  have n: "\<not> length (ep_name e) > SK_API_NAME_MAX" "ep_ct e \<noteq> []" "length (ep_peer e) = SK_API_PEER_ID_LEN"
    using f by (simp_all add: fits_def api_limits)
  have p: "ep_kind e \<noteq> SK_API_KIND_SYSTEM \<Longrightarrow> ep_peer e = replicate SK_API_PEER_ID_LEN 0" using k by (auto simp: api_limits)
  show ?thesis
    using n p True by (cases "ep_kind e = SK_API_KIND_SYSTEM")
      (simp_all add: load_endpoint_def slot_image_def name str pl u8 dly pid Let_def)
next
  case False
  have "nv_get N n NVS_API (slot_key i ''name'') = ep_entry e ''name''" using assms(1) by (simp add: holds_record_def API_KEYS_def)
  then show ?thesis using False by (simp add: load_endpoint_def slot_image_def get_str_def ep_entry_def)
qed

section \<open>The invariant\<close>

definition api_ok :: "'n api \<Rightarrow> bool" where
  "api_ok s \<longleftrightarrow> length (user_eps s) = 5 \<and> length (system_eps s) = 8 \<and> list_all user_ok (user_eps s) \<and> list_all system_ok (system_eps s)"

definition all_eps :: "'n api \<Rightarrow> endpoint list" where
  "all_eps s = user_eps s @ system_eps s"

definition api_inv :: "'n nvs_ops \<Rightarrow> 'n api \<Rightarrow> bool" where
  "api_inv N s \<longleftrightarrow> api_ok s \<and> (\<forall>i < 13. holds_record N (api_flash s) i (all_eps s ! i))"

lemma holds_written:
  assumes N: "nvs_lawful N" and "i < 13" "j < 13"
  shows "holds_record N (nv_commit N (write_endpoint N i e n) NVS_API) j f \<longleftrightarrow> (if j = i then (\<forall>t \<in> set API_KEYS. ep_entry e t = ep_entry f t) else holds_record N n j f)"
  using assms by (auto simp: holds_record_def get_slot_written nvs_get_commit)

lemma save_fields [simp]: "user_eps (save_linear N i e s) = user_eps s" "system_eps (save_linear N i e s) = system_eps s"
  by (simp_all add: save_linear_def)

lemma save_holds:
  assumes N: "nvs_lawful N" and i: "i < 13" and l: "length xs = 13" and h: "\<forall>j < 13. holds_record N (api_flash s) j (xs ! j)"
  shows "\<forall>j < 13. holds_record N (api_flash (save_linear N i e s)) j (xs[i := e] ! j)"
  using assms by (auto simp: save_linear_def nvs_open_rw holds_written)

lemma inv_put_user:
  assumes N: "nvs_lawful N" and s: "api_inv N s" and i: "i < 5" and e: "user_ok e"
  shows "api_inv N (put_user N i e s)"
proof -
  have ok: "api_ok s" using s by (simp add: api_inv_def)
  then have l: "length (user_eps s) = 5" "length (all_eps s) = 13" by (simp_all add: api_ok_def all_eps_def)
  have "all_eps (put_user N i e s) = (all_eps s)[i := e]"
    using l i by (simp add: put_user_def all_eps_def list_update_append)
  moreover have "\<forall>j < 13. holds_record N (api_flash (put_user N i e s)) j ((all_eps s)[i := e] ! j)"
    unfolding put_user_def by (rule save_holds [OF N]) (use s l i in \<open>simp_all add: api_inv_def\<close>)
  moreover have "api_ok (put_user N i e s)"
    using ok e by (auto simp: api_ok_def put_user_def list_all_iff dest!: set_update_subset_insert [THEN subsetD])
  ultimately show ?thesis by (simp add: api_inv_def)
qed

lemma inv_put_system:
  assumes N: "nvs_lawful N" and s: "api_inv N s" and i: "i < 8" and e: "system_ok e"
  shows "api_inv N (put_system N i e s)"
proof -
  have ok: "api_ok s" using s by (simp add: api_inv_def)
  then have l: "length (user_eps s) = 5" "length (all_eps s) = 13" by (simp_all add: api_ok_def all_eps_def)
  have "all_eps (put_system N i e s) = (all_eps s)[5 + i := e]"
    using l i by (simp add: put_system_def all_eps_def list_update_append)
  moreover have "\<forall>j < 13. holds_record N (api_flash (put_system N i e s)) j ((all_eps s)[5 + i := e] ! j)"
    unfolding put_system_def api_limits by (rule save_holds [OF N]) (use s l i in \<open>simp_all add: api_inv_def\<close>)
  moreover have "api_ok (put_system N i e s)"
    using ok e by (auto simp: api_ok_def put_system_def list_all_iff dest!: set_update_subset_insert [THEN subsetD])
  ultimately show ?thesis by (simp add: api_inv_def)
qed

lemma user_endpoint_ok: "\<not> cfg_refused c s \<Longrightarrow> user_ok (user_endpoint c)"
  by (auto simp: cfg_refused_def user_ok_def user_endpoint_def fits_def ep_zero_def Let_def too_long_def text_or_empty_def
      api_limits DEFAULT_CT_def split: option.splits)

lemma hex_length: "length (bytes_to_hex bs) = 2 * length bs"
  by (induction bs) (simp_all add: bytes_to_hex_def hex_byte_str_def)

lemma system_endpoint_ok:
  "length peer = 16 \<Longrightarrow> length url \<le> 191 \<Longrightarrow> \<not> list_all (\<lambda>b. b = 0) peer \<Longrightarrow> system_ok (system_endpoint peer url delay)"
  by (auto simp: system_ok_def system_endpoint_def fits_def ep_zero_def api_limits api_enums DEFAULT_CT_def snprintf_def
      hex_length list_all_iff)

lemma find_index: "find P [0..<n] = Some i \<Longrightarrow> i < n \<and> P i"
  by (auto simp: find_Some_iff)

lemma slot_for_lt: "slot_for (find_by_name m es) es = Some i \<Longrightarrow> i < length es"
  "slot_for (find_system_slot_by_peer peer es) es = Some i \<Longrightarrow> i < length es"
  by (auto simp: slot_for_def find_free_def find_by_name_def find_system_slot_by_peer_def dest!: find_index split: option.splits)

lemma api_lengths: "api_inv N s \<Longrightarrow> length (user_eps s) = 5 \<and> length (system_eps s) = 8"
  by (simp add: api_inv_def api_ok_def)

lemma inv_add: "nvs_lawful N \<Longrightarrow> api_inv N s \<Longrightarrow> api_inv N (snd (sk_api_endpoint_add N c s))"
  using slot_for_lt(1) [of "cf_name c" "user_eps s"] api_lengths [of N s]
  by (auto simp: sk_api_endpoint_add_def intro: inv_put_user user_endpoint_ok split: option.split)

lemma inv_remove: "nvs_lawful N \<Longrightarrow> api_inv N s \<Longrightarrow> api_inv N (snd (sk_api_endpoint_remove N m s))"
  using api_lengths [of N s]
  by (auto simp: sk_api_endpoint_remove_def find_by_name_def intro!: inv_put_user dest!: find_index split: option.split)

lemma inv_system_add:
  "nvs_lawful N \<Longrightarrow> api_inv N s \<Longrightarrow> length peer = 16 \<Longrightarrow> api_inv N (snd (snd (sk_api_system_add N a peer url delay s)))"
  using slot_for_lt(2) [of peer "system_eps s"] api_lengths [of N s]
  by (auto simp: sk_api_system_add_def api_limits intro!: inv_put_system system_endpoint_ok split: option.split)

lemma inv_system_remove: "nvs_lawful N \<Longrightarrow> api_inv N s \<Longrightarrow> api_inv N (snd (sk_api_system_remove N peer s))"
  using api_lengths [of N s]
  by (auto simp: sk_api_system_remove_def find_system_slot_by_peer_def intro!: inv_put_system dest!: find_index split: option.split)

lemma inv_system_remove_all:
  assumes N: "nvs_lawful N"
  shows "api_inv N s \<Longrightarrow> api_inv N (sk_api_system_remove_all N s)"
proof -
  have "api_inv N s \<Longrightarrow> \<forall>i \<in> set is. i < 8 \<Longrightarrow>
      api_inv N (foldl (\<lambda>s i. if ep_used (system_eps s ! i) then put_system N i ep_zero s else s) s is)" for "is"
  proof (induction "is" arbitrary: s)
    case (Cons a "is")
    have "api_inv N (if ep_used (system_eps s ! a) then put_system N a ep_zero s else s)"
      using Cons.prems inv_put_system [OF N] by simp
    from Cons.IH [OF this] show ?case using Cons.prems(2) by simp
  qed simp
  then show "api_inv N s \<Longrightarrow> ?thesis" by (simp add: sk_api_system_remove_all_def api_limits)
qed

section \<open>Start-up loads what is stored\<close>

lemma fill_step:
  assumes "k < length xs"
  shows "(take k xs @ replicate (length xs - k) z)[k := xs ! k] = take (Suc k) xs @ replicate (length xs - Suc k) z"
proof -
  have "length xs - k = Suc (length xs - Suc k)" using assms by simp
  then show ?thesis using assms by (simp add: list_update_append take_Suc_conv_app_nth min_def)
qed

text \<open>A slot of RAM that is still zero is as the record says after the step, used or not.\<close>

lemma place_user:
  assumes h: "holds_record N n i e" and e: "user_ok e" and i: "i < 5" "i < length (user_eps s)" "user_eps s ! i = ep_zero"
  shows "place_endpoint N n s i = s\<lparr>user_eps := (user_eps s)[i := e]\<rparr>"
proof (cases "ep_used e")
  case True
  then have "ep_kind e = SK_API_KIND_USER" using e by (auto simp: user_ok_def)
  then show ?thesis using load_record [OF h disjI1 [OF e]] True i by (simp add: place_endpoint_def slot_image_def api_limits)
next
  case False
  then have "e = ep_zero" using e by (auto simp: user_ok_def)
  moreover have "(user_eps s)[i := ep_zero] = user_eps s" using list_update_id [of "user_eps s" i] i(3) by simp
  ultimately show ?thesis using load_record [OF h disjI1 [OF e]] False by (simp add: place_endpoint_def slot_image_def)
qed

lemma place_system:
  assumes h: "holds_record N n (5 + i) e" and e: "system_ok e" and i: "i < length (system_eps s)" "system_eps s ! i = ep_zero"
  shows "place_endpoint N n s (5 + i) = s\<lparr>system_eps := (system_eps s)[i := e]\<rparr>"
proof (cases "ep_used e")
  case True
  then have "ep_kind e = SK_API_KIND_SYSTEM" using e by (auto simp: system_ok_def)
  then show ?thesis using load_record [OF h disjI2 [OF e]] True i
    by (simp add: place_endpoint_def slot_image_def api_limits api_enums)
next
  case False
  then have "e = ep_zero" using e by (auto simp: system_ok_def)
  moreover have "(system_eps s)[i := ep_zero] = system_eps s" using list_update_id [of "system_eps s" i] i(2) by simp
  ultimately show ?thesis using load_record [OF h disjI2 [OF e]] False by (simp add: place_endpoint_def slot_image_def)
qed

text \<open>The bucket filled so far.\<close>

definition filled :: "nat \<Rightarrow> endpoint list \<Rightarrow> endpoint list" where
  "filled k es = take k es @ replicate (length es - k) ep_zero"

lemma filled_simps: "length (filled k es) = max (min k (length es)) (length es)" "filled 0 es = replicate (length es) ep_zero"
  "length es \<le> k \<Longrightarrow> filled k es = es"
  by (auto simp: filled_def)

lemma filled_at: "k < length es \<Longrightarrow> filled k es ! k = ep_zero" "k < length es \<Longrightarrow> (filled k es)[k := es ! k] = filled (Suc k) es"
  by (simp_all add: filled_def nth_append fill_step)

lemma load_loop:
  assumes ok: "api_ok s" and h: "\<forall>i < 13. holds_record N n i (all_eps s ! i)"
    and z: "user_eps z = replicate 5 ep_zero" "system_eps z = replicate 8 ep_zero"
  shows "k \<le> 13 \<Longrightarrow> foldl (place_endpoint N n) z [0..<k] =
     z\<lparr>user_eps := filled k (user_eps s), system_eps := filled (k - 5) (system_eps s)\<rparr>"
proof (induction k)
  case 0
  have "z\<lparr>user_eps := user_eps z, system_eps := system_eps z\<rparr> = z" by simp
  then show ?case using ok z by (simp add: filled_simps api_ok_def)
next
  case (Suc k)
  let ?s = "z\<lparr>user_eps := filled k (user_eps s), system_eps := filled (k - 5) (system_eps s)\<rparr>"
  have l: "length (user_eps s) = 5" "length (system_eps s) = 8" using ok by (simp_all add: api_ok_def)
  have IH: "foldl (place_endpoint N n) z [0..<k] = ?s" using Suc by simp
  have r: "holds_record N n k (all_eps s ! k)" using h Suc.prems by simp
  show ?case
  proof (cases "k < 5")
    case True
    have "user_ok (user_eps s ! k)" using ok True by (auto simp: api_ok_def list_all_iff)
    moreover have "holds_record N n k (user_eps s ! k)" using r True l by (simp add: all_eps_def nth_append)
    ultimately have "place_endpoint N n ?s k = ?s\<lparr>user_eps := (user_eps ?s)[k := user_eps s ! k]\<rparr>"
      by (intro place_user) (use True l in \<open>simp_all add: filled_at filled_simps\<close>)
    then show ?thesis using IH True l by (simp add: filled_at filled_simps)
  next
    case False
    define j where "j = k - 5"
    have k: "k = 5 + j" and j: "j < 8" using False Suc.prems by (simp_all add: j_def)
    have "system_ok (system_eps s ! j)" using ok j by (auto simp: api_ok_def list_all_iff)
    moreover have "holds_record N n (5 + j) (system_eps s ! j)" using r l by (simp add: all_eps_def nth_append k)
    ultimately have "place_endpoint N n ?s (5 + j) = ?s\<lparr>system_eps := (system_eps ?s)[j := system_eps s ! j]\<rparr>"
      by (intro place_system) (use j l k in \<open>simp_all add: filled_at filled_simps\<close>)
    then have "place_endpoint N n ?s k = z\<lparr>user_eps := filled (Suc k) (user_eps s), system_eps := filled (Suc k - 5) (system_eps s)\<rparr>"
      using j l by (simp add: k filled_at filled_simps)
    moreover have "foldl (place_endpoint N n) z [0..<Suc k] = place_endpoint N n ?s k" using IH by simp
    ultimately show ?thesis by simp
  qed
qed

lemma init_fields: "api_up s = False \<Longrightarrow> sk_api_init N s =
    (load_all_slots N (s\<lparr>user_eps := replicate 5 ep_zero, system_eps := replicate 8 ep_zero\<rparr>))\<lparr>api_up := True\<rparr>"
  by (simp add: sk_api_init_def api_limits)

lemma api_init_loads:
  assumes N: "nvs_lawful N" and s: "api_inv N s"
  shows "sk_api_init N (api_static (api_flash s)) = s\<lparr>api_up := True\<rparr>"
proof -
  let ?z = "api_static (api_flash s)\<lparr>user_eps := replicate 5 ep_zero, system_eps := replicate 8 ep_zero\<rparr>"
  have ok: "api_ok s" and h: "\<forall>i < 13. holds_record N (api_flash s) i (all_eps s ! i)" using s by (simp_all add: api_inv_def)
  have l: "length (user_eps s) = 5" "length (system_eps s) = 8" using ok by (simp_all add: api_ok_def)
  have all: "foldl (place_endpoint N (api_flash s)) ?z [0..<13] = ?z\<lparr>user_eps := user_eps s, system_eps := system_eps s\<rparr>"
    using load_loop [OF ok h, of ?z 13] l by (simp add: filled_simps)
  have "load_all_slots N ?z = ?z\<lparr>user_eps := user_eps s, system_eps := system_eps s\<rparr>"
  proof (cases "nv_open_ro N (api_flash s) NVS_API = ESP_OK")
    case True
    then show ?thesis using all by (simp add: load_all_slots_def api_static_def api_limits)
  next
    case False
    have "all_eps s ! i = ep_zero" if i: "i < 13" for i
    proof -
      have "ep_entry (all_eps s ! i) ''name'' = nv_get N (api_flash s) NVS_API (slot_key i ''name'')"
        using h i by (simp add: holds_record_def API_KEYS_def)
      also have "\<dots> = None" using False nvs_open_ro [OF N] by (cases "nv_get N (api_flash s) NVS_API (slot_key i ''name'')") auto
      finally have "\<not> ep_used (all_eps s ! i)" by (auto simp: ep_entry_def)
      moreover have "all_eps s ! i \<in> set (user_eps s) \<union> set (system_eps s)"
        using nth_mem [of i "all_eps s"] i l by (simp add: all_eps_def)
      ultimately show ?thesis using ok by (auto simp: api_ok_def list_all_iff user_ok_def system_ok_def)
    qed
    then have e: "all_eps s = replicate 13 ep_zero" using l by (intro nth_equalityI) (simp_all add: all_eps_def)
    have "user_eps s = take 5 (all_eps s)" "system_eps s = drop 5 (all_eps s)" using l by (simp_all add: all_eps_def)
    then have "user_eps s = replicate 5 ep_zero" "system_eps s = replicate 8 ep_zero" by (simp_all add: e)
    then show ?thesis using False by (simp add: load_all_slots_def api_static_def)
  qed
  then show ?thesis using init_fields [of "api_static (api_flash s)" N]
    by (cases s) (simp add: api_static_def)
qed

section \<open>Whatever happens\<close>

datatype 'n api_event =
    ApiCmd string cli_ctx int bool "endpoint \<Rightarrow> bool"   \<comment> \<open>a command, at a time, with this memory\<close>
  | ApiBonds "'n auth"                                  \<comment> \<open>the bonds or the active session change\<close>
  | ApiTokens "confirm_slot list"                       \<comment> \<open>confirm tokens are issued or used elsewhere\<close>
  | ApiFactoryReset
  | ApiPowerCycle

definition api_answer :: "'n nvs_ops \<Rightarrow> string \<Rightarrow> cli_ctx \<Rightarrow> int \<Rightarrow> bool \<Rightarrow> (endpoint \<Rightarrow> bool) \<Rightarrow> 'n api_dev \<Rightarrow> 'n api_dev \<times> cli_out option" where
  "api_answer N name ctx now mem esc_ok d =
     (case map_of (api_cmds N now mem esc_ok) name of None \<Rightarrow> (d, None)
      | Some h \<Rightarrow> (case h ctx d of (d, out) \<Rightarrow> (d, Some out)))"

fun api_step :: "'n nvs_ops \<Rightarrow> 'n api_dev \<Rightarrow> 'n api_event \<Rightarrow> 'n api_dev" where
  "api_step N d (ApiCmd name ctx now mem esc_ok) = fst (api_answer N name ctx now mem esc_ok d)"
| "api_step N d (ApiBonds a) = d\<lparr>dv_auth := a\<rparr>"
| "api_step N d (ApiTokens t) = d\<lparr>dv_slots := t\<rparr>"
| "api_step N d ApiFactoryReset = d\<lparr>dv_api := api_factory_reset N (dv_api d)\<rparr>"
| "api_step N d ApiPowerCycle = d\<lparr>dv_api := sk_api_init N (api_static (api_flash (dv_api d)))\<rparr>"

definition peers_ok :: "'n auth \<Rightarrow> bool" where
  "peers_ok a \<longleftrightarrow> list_all (\<lambda>b. occupied b \<longrightarrow> length (peer_id b) = 16) (bslots a)"

definition dev_inv :: "'n nvs_ops \<Rightarrow> 'n api_dev \<Rightarrow> bool" where
  "dev_inv N d \<longleftrightarrow> api_inv N (dv_api d) \<and> peers_ok (dv_auth d)"

fun api_allowed :: "'n api_event \<Rightarrow> bool" where
  "api_allowed (ApiBonds a) = peers_ok a"
| "api_allowed _ = True"

lemma inv_master:
  assumes N: "nvs_lawful N" and s: "api_inv N s"
  shows "api_inv N (snd (sk_api_set_enabled_all N b s))"
proof -
  have "nv_get N (api_flash (snd (sk_api_set_enabled_all N b s))) NVS_API k = nv_get N (api_flash s) NVS_API k" for k
    using N by (simp add: sk_api_set_enabled_all_def nvs_simps NVS_API_def NVS_NS_GLOBAL_def Let_def)
  then show ?thesis using s
    by (simp add: api_inv_def api_ok_def all_eps_def holds_record_def sk_api_set_enabled_all_def Let_def)
qed

lemma find_in: "find P xs = Some x \<Longrightarrow> x \<in> set xs \<and> P x"
  by (auto simp: find_Some_iff)

lemma caller_length:
  assumes a: "peers_ok a" and r: "resolve_caller_peer_id ctx a = Some peer"
  shows "length peer = 16"
proof -
  obtain i b where b: "(i, b) \<in> set (sk_auth_bond_list a)" "peer = peer_id b"
    using r by (auto simp: resolve_caller_peer_id_def split: if_splits dest: find_in)
  then have "occupied b" "b \<in> set (bslots a)" by (auto simp: sk_auth_bond_list_def dest: set_zip_rightD)
  then show ?thesis using a b by (auto simp: peers_ok_def list_all_iff)
qed

lemma confirmed_keeps:
  assumes "\<And>d. P d \<Longrightarrow> P (fst (body ctx d))" "\<And>d t. P d \<Longrightarrow> P (d\<lparr>dv_slots := t\<rparr>)"
  shows "P d \<Longrightarrow> P (fst (api_confirmed now body ctx d))"
  using assms by (auto simp: api_confirmed_def Let_def split: option.split prod.split)

lemma dev_inv_fields [simp]: "dev_inv N (d\<lparr>dv_slots := t\<rparr>) = dev_inv N d"
  "dev_inv N (d\<lparr>dv_api := s\<rparr>) \<longleftrightarrow> api_inv N s \<and> peers_ok (dv_auth d)"
  by (simp_all add: dev_inv_def)

lemma dev_invD: "dev_inv N d \<Longrightarrow> api_inv N (dv_api d)" "dev_inv N d \<Longrightarrow> peers_ok (dv_auth d)"
  by (simp_all add: dev_inv_def)

lemma add_endpoint_inv:
  assumes N: "nvs_lawful N" and d: "dev_inv N d"
  shows "dev_inv N (fst (add_endpoint N ctx d))"
proof -
  have "api_inv N (snd (sk_api_endpoint_add N c (dv_api d)))" for c by (rule inv_add [OF N dev_invD(1) [OF d]])
  then show ?thesis using d dev_invD(2) [OF d]
    by (auto simp: add_endpoint_def Let_def case_prod_beta split: option.split)
qed

lemma remove_cmd_inv: "nvs_lawful N \<Longrightarrow> dev_inv N d \<Longrightarrow> dev_inv N (fst (cmd_api_endpoint_remove N now ctx d))"
  unfolding cmd_api_endpoint_remove_def
  by (rule confirmed_keeps [where P = "dev_inv N"])
    (auto simp: case_prod_beta dest: dev_invD intro: inv_remove split: option.split)

lemma system_add_cmd_inv:
  assumes N: "nvs_lawful N" and d: "dev_inv N d"
  shows "dev_inv N (fst (cmd_api_system_add N ctx d))"
proof -
  have "api_inv N (snd (snd (sk_api_system_add N (dv_auth d) peer url delay (dv_api d))))"
    if "resolve_caller_peer_id ctx (dv_auth d) = Some peer" for peer url delay
    using inv_system_add [OF N dev_invD(1) [OF d] caller_length [OF dev_invD(2) [OF d] that]] .
  then show ?thesis using d dev_invD(2) [OF d]
    by (auto simp: cmd_api_system_add_def with_caller_def case_prod_beta split: option.split)
qed

lemma system_remove_cmd_inv: "nvs_lawful N \<Longrightarrow> dev_inv N d \<Longrightarrow> dev_inv N (fst (cmd_api_system_remove N ctx d))"
  by (auto simp: cmd_api_system_remove_def with_caller_def case_prod_beta dest: dev_invD intro: inv_system_remove split: option.split)

lemma api_cmd_inv:
  assumes N: "nvs_lawful N" and d: "dev_inv N d"
  shows "dev_inv N (fst (api_answer N name ctx now mem esc_ok d))"
proof -
  have "dev_inv N (fst (h ctx d))" if h: "(name, h) \<in> set (api_cmds N now mem esc_ok)" for h
    using h add_endpoint_inv [OF N] remove_cmd_inv [OF N d] system_add_cmd_inv [OF N d] system_remove_cmd_inv [OF N d]
      inv_master [OF N dev_invD(1) [OF d]] inv_system_remove_all [OF N dev_invD(1) [OF d]] d dev_invD(2) [OF d]
    by (auto simp: api_cmds_def cmd_api_enable_def cmd_api_disable_def cmd_api_status_def cmd_api_endpoint_list_def
        cmd_api_system_list_def cmd_api_system_purge_def cmd_api_endpoint_add_def Let_def intro!: confirmed_keeps [where P = "dev_inv N"])
  then show ?thesis using d by (auto simp: api_answer_def case_prod_beta split: option.split dest: map_of_SomeD)
qed

lemma holds_zero: "\<forall>t \<in> set API_KEYS. nv_get N n NVS_API (slot_key i t) = None \<Longrightarrow> holds_record N n i ep_zero"
  by (simp add: holds_record_def ep_entry_def)

text \<open>All slots free, and no record in flash.\<close>

lemma empty_inv:
  assumes "\<And>k. nv_get N (api_flash s) NVS_API k = None" "user_eps s = replicate 5 ep_zero" "system_eps s = replicate 8 ep_zero"
  shows "api_inv N s"
proof -
  have "all_eps s ! i = ep_zero" if "i < 13" for i
    using that assms(2,3) by (simp add: all_eps_def nth_append)
  then show ?thesis using assms holds_zero [of N "api_flash s"] by (auto simp: api_inv_def api_ok_def list_all_iff)
qed

lemma reset_inv:
  assumes N: "nvs_lawful N"
  shows "api_inv N (api_factory_reset N s)"
  by (rule empty_inv) (use N in \<open>simp_all add: api_factory_reset_def api_erase_def nvs_simps api_limits NVS_API_def NVS_NS_GLOBAL_def\<close>)

lemma api_step_inv:
  assumes N: "nvs_lawful N" and d: "dev_inv N d" and e: "api_allowed e"
  shows "dev_inv N (api_step N d e)"
proof (cases e)
  case ApiPowerCycle
  then show ?thesis using api_init_loads [OF N dev_invD(1) [OF d]] d
    by (simp add: dev_inv_def api_inv_def api_ok_def all_eps_def)
qed (use d e api_cmd_inv [OF N d] reset_inv [OF N] in \<open>auto simp: dev_inv_def\<close>)

definition api_boot :: "'n nvs_ops \<Rightarrow> 'n \<Rightarrow> 'n auth \<Rightarrow> confirm_slot list \<Rightarrow> 'n api_dev" where
  "api_boot N n a t = \<lparr> dv_api = sk_api_init N (api_static n), dv_auth = a, dv_slots = t \<rparr>"

lemma boot_inv:
  assumes N: "nvs_lawful N" and n: "\<And>k. nv_get N n NVS_API k = None" and a: "peers_ok a"
  shows "dev_inv N (api_boot N n a t)"
proof -
  have s: "api_inv N (api_static n)" by (rule empty_inv) (simp_all add: n api_static_def api_limits)
  have "sk_api_init N (api_static n) = api_static n\<lparr>api_up := True\<rparr>"
    using api_init_loads [OF N s] by (simp add: api_static_def)
  then show ?thesis using s a by (simp add: api_boot_def dev_inv_def api_inv_def api_ok_def all_eps_def)
qed

interpretation webhooks: stepping "\<lambda>d e. if nvs_lawful N then api_step N d e else d" "dev_inv N" api_allowed
  by unfold_locales (auto intro: api_step_inv)

lemma api_run_inv:
  "nvs_lawful N \<Longrightarrow> dev_inv N d \<Longrightarrow> \<forall>e \<in> set es. api_allowed e \<Longrightarrow> dev_inv N (foldl (api_step N) d es)"
  using webhooks.run_inv [of N d es] by simp

text \<open>
  C25: The endpoints survive a loss of power: start with no endpoint in flash, then let any commands, changes of the
  bonds and of the confirm tokens, factory resets and power cycles come in any order. The arrays are never overrun,
  a free slot is all zeros, each bucket holds its own kind only, and what the start-up after a loss of power at that
  moment loads is exactly the endpoints in use.
\<close>

theorem webhooks_survive_power_loss:
  fixes t :: "confirm_slot list"
  assumes N: "nvs_lawful N" and n: "\<And>k. nv_get N n NVS_API k = None" and a: "peers_ok a"
    and es: "\<forall>e \<in> set es. api_allowed e"
  defines "s \<equiv> dv_api (foldl (api_step N) (api_boot N n a t) es)"
  shows "user_eps (sk_api_init N (api_static (api_flash s))) = user_eps s \<and>
    system_eps (sk_api_init N (api_static (api_flash s))) = system_eps s \<and>
    length (user_eps s) = 5 \<and> list_all user_ok (user_eps s) \<and> length (system_eps s) = 8 \<and> list_all system_ok (system_eps s)"
proof -
  have s: "api_inv N s" unfolding s_def by (rule dev_invD(1), rule api_run_inv) (use assms boot_inv [OF N n a] in auto)
  with api_init_loads [OF N s] show ?thesis by (simp add: api_inv_def api_ok_def)
qed


section \<open>A paired app reaches its own slot only\<close>

text \<open>A change of the endpoints that leaves a slot in use alone unless it belongs to the peer.\<close>

definition spares :: "u8 list option \<Rightarrow> 'n api \<Rightarrow> 'n api \<Rightarrow> bool" where
  "spares peer s s' \<longleftrightarrow> (\<forall>i < length (system_eps s). ep_used (system_eps s ! i) \<longrightarrow> peer \<noteq> Some (ep_peer (system_eps s ! i)) \<longrightarrow>
     system_eps s' ! i = system_eps s ! i)"

lemma spares_same: "system_eps s' = system_eps s \<Longrightarrow> spares peer s s'"
  by (simp add: spares_def)

lemma spares_put:
  "\<not> ep_used (system_eps s ! i) \<or> Some (ep_peer (system_eps s ! i)) = peer \<Longrightarrow> spares peer s (put_system N i e s)"
  unfolding spares_def put_system_def save_fields by (auto, (metis nth_list_update_neq)+)

lemma spares_add: "spares (Some peer) s (snd (snd (sk_api_system_add N a peer url delay s)))"
  by (auto simp: sk_api_system_add_def slot_for_def find_free_def find_system_slot_by_peer_def spares_same
      dest!: find_index split: option.splits intro!: spares_put)

lemma spares_remove: "spares (Some peer) s (snd (sk_api_system_remove N peer s))"
  by (auto simp: sk_api_system_remove_def find_system_slot_by_peer_def spares_same dest!: find_index
      split: option.splits intro!: spares_put)

lemma system_eps_user_ops [simp]: "system_eps (snd (sk_api_endpoint_add N c s)) = system_eps s"
  "system_eps (snd (sk_api_endpoint_remove N m s)) = system_eps s" "system_eps (snd (sk_api_set_enabled_all N b s)) = system_eps s"
  by (simp_all add: sk_api_endpoint_add_def sk_api_endpoint_remove_def sk_api_set_enabled_all_def put_user_def Let_def
      split: option.split)

lemma system_eps_add [simp]: "system_eps (dv_api (fst (add_endpoint N ctx d))) = system_eps (dv_api d)"
  by (auto simp: add_endpoint_def Let_def case_prod_beta split: option.split)

lemma confirmed_system_eps:
  "(\<And>d. system_eps (dv_api (fst (body ctx d))) = system_eps (dv_api d)) \<Longrightarrow>
     system_eps (dv_api (fst (api_confirmed now body ctx d))) = system_eps (dv_api d)"
  by (auto simp: api_confirmed_def Let_def split: option.split prod.split)

lemma remove_system_eps [simp]: "system_eps (dv_api (fst (cmd_api_endpoint_remove N now ctx d))) = system_eps (dv_api d)"
  unfolding cmd_api_endpoint_remove_def by (rule confirmed_system_eps) (simp add: case_prod_beta split: option.split)

lemma cmd_spares:
  assumes h: "(name, h) \<in> set (api_cmds N now mem esc_ok)" and n: "name \<noteq> ''api.system.purge''"
  shows "spares (resolve_caller_peer_id ctx (dv_auth d)) (dv_api d) (dv_api (fst (h ctx d)))"
proof -
  have "spares (resolve_caller_peer_id ctx (dv_auth d)) (dv_api d) (dv_api (fst (cmd_api_system_add N ctx d)))"
    using spares_add by (auto simp: cmd_api_system_add_def with_caller_def case_prod_beta spares_same split: option.split)
  moreover have "spares (resolve_caller_peer_id ctx (dv_auth d)) (dv_api d) (dv_api (fst (cmd_api_system_remove N ctx d)))"
    using spares_remove by (auto simp: cmd_api_system_remove_def with_caller_def case_prod_beta spares_same split: option.split)
  moreover have "h = cmd_api_system_add N \<or> h = cmd_api_system_remove N \<or>
      system_eps (dv_api (fst (h ctx d))) = system_eps (dv_api d)"
    using h n by (auto simp: api_cmds_def cmd_api_enable_def cmd_api_disable_def cmd_api_status_def cmd_api_endpoint_list_def
        cmd_api_system_list_def cmd_api_endpoint_add_def Let_def intro!: confirmed_system_eps)
  ultimately show ?thesis using spares_same by blast
qed

text \<open>
  A paired app changes no slot but its own: whatever command is run, by whom, with whatever arguments, a system
  slot in use stays as it is unless the bond of the session that runs the command is the owner of that slot; only
  \<open>api.system.purge\<close> clears them all.
\<close>

theorem paired_app_reaches_own_slot_only:
  assumes "name \<noteq> ''api.system.purge''" and "i < length (system_eps (dv_api d))" and "ep_used (system_eps (dv_api d) ! i)"
    and "resolve_caller_peer_id ctx (dv_auth d) \<noteq> Some (ep_peer (system_eps (dv_api d) ! i))"
  shows "system_eps (dv_api (fst (api_answer N name ctx now mem esc_ok d))) ! i = system_eps (dv_api d) ! i"
proof -
  have "spares (resolve_caller_peer_id ctx (dv_auth d)) (dv_api d) (dv_api (fst (api_answer N name ctx now mem esc_ok d)))"
    using cmd_spares [OF _ assms(1)] by (auto simp: api_answer_def case_prod_beta spares_same split: option.split dest!: map_of_SomeD)
  then show ?thesis using assms(2-4) by (simp add: spares_def)
qed

end
