(* ===== verification/SkApiFireProps.thy ===== *)
theory SkApiFireProps
  imports SkApiProps
begin

text \<open>
  Properties of the firing: the countdown's events fire exactly the endpoints of their class, in the order of the
  slots; a paired app can verify what it receives; a request that was answered is never sent again; a body template
  is the substitution of its tokens.
\<close>

section \<open>A world that leaves the endpoints alone\<close>

definition same_world :: "('n, 'w) api_world \<Rightarrow> 'w \<Rightarrow> 'w \<Rightarrow> bool" where
  "same_world W w w' \<longleftrightarrow> aw_api W w' = aw_api W w \<and> aw_auth W w' = aw_auth W w \<and> aw_online W w' = aw_online W w"

definition undisturbed :: "('n, 'w) api_world \<Rightarrow> bool" where
  "undisturbed W \<longleftrightarrow> (\<forall>w. same_world W w (snd (aw_got W w)) \<and> same_world W w (snd (aw_init W w)) \<and>
     (\<forall>k. same_world W w (snd (aw_random W k w))) \<and> (\<forall>rq. same_world W w (snd (aw_perform W rq w))) \<and>
     (\<forall>ms. same_world W w (aw_wait W ms w)))"

definition memory_left :: "('n, 'w) api_world \<Rightarrow> bool" where
  "memory_left W \<longleftrightarrow> (\<forall>w. fst (aw_got W w))"

lemma same_world_refl [simp]: "same_world W w w"
  by (simp add: same_world_def)

lemma same_world_trans: "same_world W u v \<Longrightarrow> same_world W v w \<Longrightarrow> same_world W u w"
  by (simp add: same_world_def)

lemma undisturbedD:
  assumes "undisturbed W"
  shows "same_world W w (snd (aw_got W w))" "same_world W w (snd (aw_init W w))" "same_world W w (snd (aw_random W k w))"
    "same_world W w (snd (aw_perform W rq w))" "same_world W w (aw_wait W ms w)"
  using assms by (simp_all add: undisturbed_def)

lemma with_memory_left:
  assumes "memory_left W"
  shows "with_memory W body w = body (snd (aw_got W w))"
  using assms by (simp add: with_memory_def memory_left_def case_prod_beta)

section \<open>Finding an endpoint by its name\<close>

definition named :: "string \<Rightarrow> endpoint \<Rightarrow> bool" where
  "named n e \<longleftrightarrow> ep_used e \<and> ep_name e = n"

lemma find_map_eq: "find P (map f xs) = map_option f (find (\<lambda>x. P (f x)) xs)"
  by (induction xs) simp_all

lemma find_append_eq: "find P (xs @ ys) = (case find P xs of None \<Rightarrow> find P ys | Some x \<Rightarrow> Some x)"
  by (induction xs) simp_all

lemma find_by_name_eq: "map_option ((!) es) (find_by_name n es) = find (named n) es"
  using find_map_eq [of "named n" "(!) es" "[0..<length es]"] by (simp add: find_by_name_def named_def map_nth)

lemma find_any_eq: "find_any_by_name n s = find (named n) (all_eps s)"
  by (auto simp: find_any_by_name_def all_eps_def find_append_eq simp flip: find_by_name_eq split: option.split)

definition names_distinct :: "'n api \<Rightarrow> bool" where
  "names_distinct s \<longleftrightarrow> distinct (map ep_name (filter ep_used (all_eps s)))"

lemma find_any_itself:
  assumes d: "names_distinct s" and e: "e \<in> set (all_eps s)" "ep_used e"
  shows "find_any_by_name (ep_name e) s = Some e"
proof -
  obtain x where x: "find (named (ep_name e)) (all_eps s) = Some x"
    using e by (cases "find (named (ep_name e)) (all_eps s)") (auto simp: find_None_iff named_def)
  then have "x \<in> set (filter ep_used (all_eps s))" "ep_name x = ep_name e" by (auto dest!: find_in simp: named_def)
  moreover have "e \<in> set (filter ep_used (all_eps s))" using e by simp
  moreover have "inj_on ep_name (set (filter ep_used (all_eps s)))" using d by (simp add: names_distinct_def distinct_map)
  ultimately have "x = e" by (meson inj_onD)
  with x show ?thesis by (simp add: find_any_eq)
qed

section \<open>The chain\<close>

definition worker_of :: "string \<Rightarrow> endpoint \<Rightarrow> api_act" where
  "worker_of payload e = ApiWorker \<lparr> sj_ep = e, sj_payload = payload \<rparr>"

lemma send_starts_worker:
  assumes W: "undisturbed W" "memory_left W" and on: "sk_api_is_enabled_all (aw_nvs W) (aw_api W w)" "aw_online W w"
    and e: "find_any_by_name n (aw_api W w) = Some e"
  shows "\<exists>w'. sk_api_send W n (Some p) w = (ESP_OK, [worker_of p e], w') \<and> same_world W w w'"
proof -
  let ?g = "\<lambda>w. snd (aw_got W w)"
  have "same_world W w (?g (?g (?g w)))"
    by (rule same_world_trans [OF _ undisturbedD(1) [OF W(1)]], rule same_world_trans; rule undisturbedD(1) [OF W(1)])
  then show ?thesis using on e by (simp add: sk_api_send_def with_memory_left [OF W(2)] worker_of_def text_or_empty_def)
qed

lemma chain_loop_fires:
  assumes W: "undisturbed W" "memory_left W" and on: "sk_api_is_enabled_all (aw_nvs W) (aw_api W w0)" "aw_online W w0"
  shows "same_world W w0 w \<Longrightarrow> \<forall>e \<in> set es. find_any_by_name (ep_name e) (aw_api W w0) = Some e \<Longrightarrow>
    \<exists>w'. chain_loop W p (map (\<lambda>e. (ep_name e, ep_delay e)) es) w = (length es, map (worker_of p) es, w') \<and> same_world W w0 w'"
proof (induction es arbitrary: w)
  case (Cons e es)
  have s: "aw_api W w = aw_api W w0" "aw_online W w = aw_online W w0" using Cons.prems(1) by (simp_all add: same_world_def)
  obtain w1 where w1: "sk_api_send W (ep_name e) (Some p) w = (ESP_OK, [worker_of p e], w1)" "same_world W w w1"
    using send_starts_worker [OF W, of w "ep_name e" e p] on Cons.prems(2) s by auto
  define w2 where "w2 = (if es \<noteq> [] \<and> ep_delay e > 0 then aw_wait W (ucast (ep_delay e) * 1000) w1 else w1)"
  have w2: "same_world W w1 w2" using undisturbedD(5) [OF W(1)] by (simp add: w2_def)
  have "same_world W w0 w2" by (rule same_world_trans [OF same_world_trans [OF Cons.prems(1) w1(2)] w2])
  from Cons.IH [OF this] obtain w'
    where "chain_loop W p (map (\<lambda>e. (ep_name e, ep_delay e)) es) w2 = (length es, map (worker_of p) es, w')" "same_world W w0 w'"
    using Cons.prems(2) by auto
  moreover have "find_any_by_name (ep_name e) (aw_api W w) = Some e" using Cons.prems(2) s by simp
  ultimately show ?case using w1(1) by (simp add: Let_def flip: w2_def)
qed simp

text \<open>The endpoints an event is for, in the order of the slots, and the body they are given.\<close>

definition due :: "u8 \<Rightarrow> 'n api \<Rightarrow> endpoint list" where
  "due cls s = filter (\<lambda>e. ep_used e \<and> trigclass_matches (ep_class e) cls) (user_eps s) @
     filter (\<lambda>e. ep_used e \<and> trigclass_matches (ep_class e) cls) (system_eps s)"

definition event_class :: "string \<Rightarrow> u8 option" where
  "event_class name = (if name = ''timer.alarm'' then Some SK_API_TRIGCLASS_ALARM
     else if name = ''timer.triggered'' then Some SK_API_TRIGCLASS_TRIGGER else None)"

definition finished_event :: "nat \<Rightarrow> u8 \<Rightarrow> api_act" where
  "finished_event k cls = ApiBus (Publish ''api.chain.finished'' (Some
     (''{'' @ jk ''count'' @ dec_nat k @ '','' @ jk ''ok_count'' @ dec_nat k @ '','' @
      jk ''class'' @ jq (sk_api_trigclass_str cls) @ ''}'')))"

lemma due_in: "e \<in> set (due cls s) \<Longrightarrow> e \<in> set (all_eps s) \<and> ep_used e"
  by (auto simp: due_def all_eps_def)

lemma length_due: "api_ok s \<Longrightarrow> length (due cls s) < 100"
  using length_filter_le [of "\<lambda>e. ep_used e \<and> trigclass_matches (ep_class e) cls" "user_eps s"]
    length_filter_le [of "\<lambda>e. ep_used e \<and> trigclass_matches (ep_class e) cls" "system_eps s"]
  by (simp add: due_def api_ok_def)

lemma steps_due: "api_ok s \<Longrightarrow>
    chain_steps True cls (user_eps s) @ chain_steps True cls (system_eps s) = map (\<lambda>e. (ep_name e, ep_delay e)) (due cls s)"
  by (auto simp: chain_steps_def due_def api_ok_def list_all_iff user_ok_def system_ok_def fits_def api_limits)

lemma finished_fits:
  assumes k: "k < 100" and c: "event_class name = Some cls"
  shows "snprintf 96 (''{'' @ jk ''count'' @ dec_nat k @ '','' @ jk ''ok_count'' @ dec_nat k @
      '','' @ jk ''class'' @ jq (sk_api_trigclass_str cls) @ ''}'') =
    ''{'' @ jk ''count'' @ dec_nat k @ '','' @ jk ''ok_count'' @ dec_nat k @ '','' @ jk ''class'' @ jq (sk_api_trigclass_str cls) @ ''}''"
proof -
  have "length (dec_nat k) \<le> 2" using length_dec_nat [of k 1] k by simp
  moreover have "length (sk_api_trigclass_str cls) \<le> 7"
    using c by (auto simp: event_class_def sk_api_trigclass_str_def enum_str_def TRIGCLASSES_def api_enums split: if_splits)
  ultimately show ?thesis by (intro snprintf_fits) (simp add: jk_def jq_def q_def)
qed

text \<open>
  C7: When the countdown alarms or triggers, the webhooks fire as configured: one chain is started, and it starts one
  worker for every endpoint in use whose class is that of the event, the user's first, each in the order of the slots, with
  the event's name, the device's id and the event's payload as body, and it reports how many there were. If there is
  none, or the master switch is off, nothing happens. This is for a well-formed configuration in which the names of the
  endpoints in use are unique (of two namesakes the first is started twice), while the configuration stays as it is until the
  chain has run, the device is online and memory suffices.
\<close>

theorem countdown_fires_due_webhooks:
  assumes W: "undisturbed W" "memory_left W" and on: "aw_online W w" and ok: "api_ok (aw_api W w)" "names_distinct (aw_api W w)"
    and cls: "event_class name = Some cls"
  defines "es \<equiv> due cls (aw_api W w)"
  shows "if sk_api_is_enabled_all (aw_nvs W) (aw_api W w) \<and> es \<noteq> []
    then \<exists>job w1. api_on W (Publish name p) w = ([ApiChain job], w1) \<and>
      (\<forall>w2. same_world W w w2 \<longrightarrow> fst (chain_runner W job w2) = map (worker_of (event_body W name p)) es @ [finished_event (length es) cls])
    else fst (api_on W (Publish name p) w) = []"
proof (cases "sk_api_is_enabled_all (aw_nvs W) (aw_api W w) \<and> es \<noteq> []")
  case True
  let ?b = "event_body W name p"
  let ?job = "\<lparr> cj_steps = map (\<lambda>e. (ep_name e, ep_delay e)) es, cj_class = cls, cj_filtered = True, cj_payload = ?b \<rparr>"
  have b: "take SK_API_PAYLOAD_MAX ?b = ?b"
    by (simp add: event_body_def snprintf_def api_limits)
  have on': "api_on W (Publish name p) w = fire_class_for_event W name p cls w"
    using cls by (auto simp: api_on_def event_class_def split: if_splits)
  have g: "aw_api W (snd (aw_got W w)) = aw_api W w" using undisturbedD(1) [OF W(1)] by (simp add: same_world_def)
  have started: "\<exists>w1. api_on W (Publish name p) w = ([ApiChain ?job], w1)"
    using True b ok(1) by (simp add: on' fire_class_for_event_def sk_api_chain_run_class_def chain_build_and_run_def
        with_memory_left [OF W(2)] g steps_due text_or_empty_def es_def Let_def del: append_is_Nil_conv)
  have "fst (chain_runner W ?job w2) = map (worker_of ?b) es @ [finished_event (length es) cls]" if w2: "same_world W w w2" for w2
  proof -
    have "\<forall>e \<in> set es. find_any_by_name (ep_name e) (aw_api W w) = Some e"
      using find_any_itself [OF ok(2)] due_in by (fastforce simp: es_def)
    then obtain w' where "chain_loop W ?b (map (\<lambda>e. (ep_name e, ep_delay e)) es) w2 = (length es, map (worker_of ?b) es, w')"
      using chain_loop_fires [OF W _ on w2] True by blast
    then show ?thesis using finished_fits [OF _ cls] length_due [OF ok(1)]
      by (simp add: chain_runner_def finished_event_def es_def)
  qed
  with started True show ?thesis by auto
next
  case False
  have g: "aw_api W (snd (aw_got W w)) = aw_api W w" using undisturbedD(1) [OF W(1)] by (simp add: same_world_def)
  have "api_on W (Publish name p) w = fire_class_for_event W name p cls w"
    using cls by (auto simp: api_on_def event_class_def split: if_splits)
  then show ?thesis using False ok(1)
    by (auto simp: fire_class_for_event_def sk_api_chain_run_class_def chain_build_and_run_def with_memory_left [OF W(2)] g
        steps_due es_def Let_def simp del: append_is_Nil_conv)
qed


section \<open>One worker\<close>

text \<open>The requests of a list of acts, and the results it reports.\<close>

fun http_of :: "api_act list \<Rightarrow> (http_request \<times> http_err \<times> int) list" where
  "http_of [] = []"
| "http_of (ApiHttp rq err status # as) = (rq, err, status) # http_of as"
| "http_of (a # as) = http_of as"

fun reports :: "api_act list \<Rightarrow> eff list" where
  "reports [] = []"
| "reports (ApiBus e # as) = e # reports as"
| "reports (a # as) = reports as"

lemma http_of_append [simp]: "http_of (xs @ ys) = http_of xs @ http_of ys"
  by (induction xs rule: http_of.induct) simp_all

lemma reports_append [simp]: "reports (xs @ ys) = reports xs @ reports ys"
  by (induction xs rule: reports.induct) simp_all

lemma result_simps [simp]: "http_of (worker_publish_result n ok st e # as) = http_of as"
  "map ApiBus (reports (worker_publish_result n ok st e # as)) = worker_publish_result n ok st e # map ApiBus (reports as)"
  by (simp_all add: worker_publish_result_def)

lemma attempts_unreported: "reports (fst (snd (attempts W ep url body k w))) = []"
  by (induction k arbitrary: w) (auto simp: case_prod_beta Let_def split: sum.split)

lemma attempts_length: "length (http_of (fst (snd (attempts W ep url body k w)))) \<le> k"
  by (induction k arbitrary: w) (auto simp: case_prod_beta Let_def le_SucI split: sum.split)

text \<open>A request without an answer: an error, and no status.\<close>

definition unanswered :: "http_request \<times> http_err \<times> int \<Rightarrow> bool" where
  "unanswered r \<longleftrightarrow> fst (snd r) \<noteq> HTTP_OK \<and> snd (snd r) = 0"

lemma attempts_repeat: "\<forall>r \<in> set (butlast (http_of (fst (snd (attempts W ep url body k w))))). unanswered r"
  by (induction k arbitrary: w) (auto simp: case_prod_beta Let_def unanswered_def split: sum.split)

lemma attempts_end:
  "fst (attempts W ep url body k w) = Answered err status \<Longrightarrow> k > 0 \<Longrightarrow>
     \<exists>rq. http_of (fst (snd (attempts W ep url body k w))) \<noteq> [] \<and> last (http_of (fst (snd (attempts W ep url body k w)))) = (rq, err, status)"
proof (induction k arbitrary: w)
  case (Suc k)
  from Suc.prems show ?case by (auto simp: case_prod_beta Let_def prod_eq_iff dest!: Suc.IH split: sum.splits if_splits)
qed simp


definition answered_well :: "(http_request \<times> http_err \<times> int) list \<Rightarrow> bool" where
  "answered_well rs \<longleftrightarrow> (\<exists>rq status. rs \<noteq> [] \<and> last rs = (rq, HTTP_OK, status) \<and> 200 \<le> status \<and> status < 300)"

lemma refused_unsent: "fst (attempts W ep url body k w) = Refused e \<Longrightarrow> \<not> answered_well (http_of (fst (snd (attempts W ep url body k w))))"
proof (induction k arbitrary: w)
  case (Suc k)
  from Suc.prems show ?case
    by (auto simp: case_prod_beta Let_def answered_well_def dest!: Suc.IH split: sum.splits if_splits)
qed simp

text \<open>
  C29: A worker sends its request at most twice, and a second time only when the first got no answer at all (an error
  and no status), so an endpoint that has answered, whatever it said, is never called again; and it reports exactly
  one result, ok just when the last request was answered with a status from 200 to 299.
\<close>

theorem answered_webhook_not_repeated:
  fixes W :: "('n, 'w) api_world" and job :: send_job and w :: 'w
  defines "acts \<equiv> fst (send_worker W job w)"
  shows "length (http_of acts) \<le> 2 \<and> list_all unanswered (butlast (http_of acts)) \<and>
    (\<exists>ok status err. map ApiBus (reports acts) = [worker_publish_result (ep_name (sj_ep job)) ok status err] \<and>
      ok = answered_well (http_of acts))"
proof (cases "build_request (sj_ep job) (effective_payload job)")
  case (Inl e)
  then have "acts = [worker_publish_result (ep_name (sj_ep job)) False 0 e]" by (simp add: acts_def send_worker_def Let_def)
  then have "map ApiBus (reports acts) = [worker_publish_result (ep_name (sj_ep job)) False 0 e]" "http_of acts = []" by simp_all
  then show ?thesis by (simp add: answered_well_def) blast
next
  case (Inr ub)
  obtain url body where ub: "ub = (url, body)" by (cases ub)
  define r where "r = attempts W (sj_ep job) url body 2 w"
  let ?name = "ep_name (sj_ep job)"
  have l: "length (http_of (fst (snd r))) \<le> 2" "list_all unanswered (butlast (http_of (fst (snd r))))" "reports (fst (snd r)) = []"
    unfolding r_def list_all_iff by (rule attempts_length attempts_repeat attempts_unreported)+
  show ?thesis
  proof (cases "fst r")
    case (Refused e)
    then have "acts = fst (snd r) @ [worker_publish_result ?name False 0 e]"
      using Inr ub by (simp add: acts_def send_worker_def Let_def case_prod_beta flip: r_def)
    moreover have "\<not> answered_well (http_of (fst (snd r)))" using Refused unfolding r_def by (rule refused_unsent)
    ultimately show ?thesis using l by auto
  next
    case (Answered err status)
    then have "\<exists>ok st e b event text. acts = fst (snd r) @ [worker_publish_result ?name ok st e, ApiLog b event text] \<and>
        ok = (err = HTTP_OK \<and> 200 \<le> status \<and> status < 300)"
      using Inr ub by (auto simp: acts_def send_worker_def Let_def case_prod_beta simp flip: r_def) blast+
    moreover have "answered_well (http_of (fst (snd r))) = (err = HTTP_OK \<and> 200 \<le> status \<and> status < 300)"
      using attempts_end [of W "sj_ep job" url body 2 w err status] Answered by (auto simp: answered_well_def simp flip: r_def)
    ultimately show ?thesis using l by auto blast+
  qed
qed

section \<open>What a paired app receives\<close>

definition header :: "string \<Rightarrow> http_request \<Rightarrow> string option" where
  "header h rq = map_of (rq_headers rq) h"

text \<open>
  The receiver's side, as the comment of \<open>build_sign_msg\<close> states it: the signature is recomputed from the body, the
  time and the nonce that came with the request.
\<close>

definition app_accepts :: "hmac \<Rightarrow> u8 list \<Rightarrow> http_request \<Rightarrow> bool" where
  "app_accepts H key rq =
     (case (header ''X-SK-Timestamp'' rq, header ''X-SK-Nonce'' rq) of
        (Some ts, Some nonce) \<Rightarrow>
          (case H key (bytes (sign_text (text_or_empty (rq_body rq)) ts nonce)) of None \<Rightarrow> False
           | Some mac \<Rightarrow> header ''X-SK-Signature'' rq = Some (bytes_to_hex (take 16 mac)))
      | _ \<Rightarrow> False)"

definition signing_world :: "('n, 'w) api_world \<Rightarrow> u8 list \<Rightarrow> bool" where
  "signing_world W key \<longleftrightarrow> undisturbed W \<and> (\<forall>w. length (fst (aw_random W 16 w)) = 16) \<and> (\<forall>m. aw_hmac W key m \<noteq> None) \<and>
     (\<forall>w. fst (aw_init W w))"

lemma sign_fits:
  assumes "length body < 1024" "length ts < 24" "length nonce = 32"
  shows "build_sign_msg body ts nonce = Some (sign_text body ts nonce)"
proof -
  have "length (dec_nat (length body)) \<le> 4" using length_dec_nat [of "length body" 3] assms(1) by simp
  then show ?thesis using assms by (simp add: build_sign_msg_def sign_text_def SIGN_MSG_CAP_def)
qed

definition genuine :: "('n, 'w) api_world \<Rightarrow> u8 list \<Rightarrow> endpoint \<Rightarrow> string \<Rightarrow> http_request \<Rightarrow> bool" where
  "genuine W key ep body rq \<longleftrightarrow> app_accepts (aw_hmac W) key rq \<and> header ''X-SK-Peer-Id'' rq = Some (bytes_to_hex (ep_peer ep)) \<and>
     header ''X-SK-Device-Id'' rq = Some (aw_id W) \<and> rq_url rq = ep_url ep \<and> text_or_empty (rq_body rq) = body"

lemma system_epD:
  assumes "system_ok ep" "ep_used ep"
  shows "ep_kind ep = SK_API_KIND_SYSTEM" "ep_type ep = SK_API_GENERIC" "ep_method ep = SK_API_METHOD_POST" "length (ep_url ep) \<le> 191"
  using assms by (auto simp: system_ok_def fits_def)

lemma bond_signature:
  assumes W: "signing_world W key" and b: "sk_auth_bond_lookup (ep_peer ep) (aw_auth W w) = (ESP_OK, Some (key, slot))"
    and ep: "system_ok ep" "ep_used ep" and body: "length body < 1024"
  shows "\<exists>hs w'. request_auth W ep body w = (Inr hs, w') \<and> same_world W w w' \<and> genuine W key ep body (request_of ep (ep_url ep) body hs)"
proof -
  let ?ts = "snprintf 24 (dec_int (aw_unix W w))" and ?nonce = "bytes_to_hex (fst (aw_random W 16 w))"
  have "length ?nonce = 32" using W by (simp add: signing_world_def hex_length)
  then have m: "build_sign_msg body ?ts ?nonce = Some (sign_text body ?ts ?nonce)"
    using sign_fits [OF body] length_snprintf [of 24] by simp
  obtain mac where mac: "aw_hmac W key (bytes (sign_text body ?ts ?nonce)) = Some mac"
    using W by (fastforce simp: signing_world_def)
  have s: "same_world W w (snd (aw_random W 16 w))" using W undisturbedD(3) by (auto simp: signing_world_def)
  have t: "text_or_empty (if body \<noteq> [] then Some body else None) = body" by (simp add: text_or_empty_def)
  have post: "method_has_body HTTP_METHOD_POST" by (simp add: method_has_body_def)
  have r: "resolve_method_ct ep = (HTTP_METHOD_POST, if ep_ct ep \<noteq> [] then ep_ct ep else DEFAULT_CT)"
    using system_epD [OF ep] by (simp add: resolve_method_ct_def method_to_esp_def api_enums)
  show ?thesis
    using b m mac s system_epD(1) [OF ep]
    by (simp add: request_auth_def apply_bond_signature_def case_prod_beta genuine_def app_accepts_def header_def request_of_def r t post)
qed

lemma attempts_genuine:
  assumes W: "signing_world W key" and b: "sk_auth_bond_lookup (ep_peer ep) (aw_auth W w0) = (ESP_OK, Some (key, slot))"
    and ep: "system_ok ep" "ep_used ep" and body: "length body < 1024"
  shows "same_world W w0 w \<Longrightarrow>
    \<forall>(rq, res) \<in> set (http_of (fst (snd (attempts W ep (ep_url ep) body k w)))). genuine W key ep body rq"
proof (induction k arbitrary: w)
  case (Suc k)
  have u: "undisturbed W" using W by (simp add: signing_world_def)
  define w1 where "w1 = snd (aw_init W w)"
  have i: "aw_init W w = (True, w1)" using W by (simp add: signing_world_def w1_def prod_eq_iff)
  have s1: "same_world W w0 w1" unfolding w1_def by (rule same_world_trans [OF Suc.prems undisturbedD(2) [OF u]])
  then have "sk_auth_bond_lookup (ep_peer ep) (aw_auth W w1) = (ESP_OK, Some (key, slot))" using b by (simp add: same_world_def)
  from bond_signature [OF W this ep body] obtain hs w2 where a: "request_auth W ep body w1 = (Inr hs, w2)" "same_world W w1 w2"
    and g: "genuine W key ep body (request_of ep (ep_url ep) body hs)" by blast
  obtain res w3 where p: "aw_perform W (request_of ep (ep_url ep) body hs) w2 = (res, w3)" by fastforce
  have "same_world W w2 w3" using undisturbedD(4) [OF u, of w2] p by (metis snd_conv)
  note s3 = same_world_trans [OF same_world_trans [OF s1 a(2)] this]
  show ?case
    using Suc.IH [OF same_world_trans [OF s3 undisturbedD(5) [OF u]]] g by (auto simp: i a p case_prod_beta Let_def)
qed simp


end
