(* ===== verification/SkApiTextProps.thy ===== *)
theory SkApiTextProps
  imports SkApiFireProps
begin

text \<open>
  Properties of the texts of the webhooks: what a body template renders to, what the lists of endpoints show and
  when they are complete, and that no command shows more of a stored token than its mask.
\<close>

section \<open>Body templates\<close>

text \<open>A template as a sequence of literal texts and tokens; no brace of a literal starts a token.\<close>

datatype piece = Lit string | Tok string

fun lit_ok :: "string \<Rightarrow> bool" where
  "lit_ok [] = True"
| "lit_ok (c # cs) = ((c = CHR ''{'' \<longrightarrow> cs \<noteq> [] \<and> \<not> key_char (hd cs)) \<and> lit_ok cs)"

fun piece_ok :: "piece \<Rightarrow> bool" where
  "piece_ok (Lit s) = lit_ok s"
| "piece_ok (Tok k) = (k \<noteq> [] \<and> length k < 32 \<and> list_all key_char k)"

fun piece_text :: "piece \<Rightarrow> string" where
  "piece_text (Lit s) = s"
| "piece_text (Tok k) = ''{'' @ k @ ''}''"

fun piece_value :: "string \<Rightarrow> piece \<Rightarrow> string" where
  "piece_value runtime (Lit s) = s"
| "piece_value runtime (Tok k) = (case token_value runtime k of Some v \<Rightarrow> v | None \<Rightarrow> ''{'' @ k @ ''}'')"

lemma append_bytes_cut: "0 < cap \<Longrightarrow> append_bytes cap (snprintf cap acc) s = snprintf cap (acc @ s)"
  by (auto simp: append_bytes_def min_def snprintf_def)

lemma brace_not_key: "\<not> key_char (CHR ''}'')" "\<not> key_char (CHR ''{'')"
  by (simp_all add: key_char_def is_digit_def char_code_def)

lemma token_at_not: "\<not> key_char d \<Longrightarrow> token_at (d # s) = None"
  by (simp add: token_at_def)

lemma token_at_key:
  assumes "k \<noteq> []" "length k < 32" "list_all key_char k"
  shows "token_at (k @ CHR ''}'' # t) = Some (k, t)"
proof -
  have "takeWhile key_char (k @ CHR ''}'' # t) = k"
    using assms(3) brace_not_key by (simp add: takeWhile_append list_all_iff)
  then show ?thesis using assms(1,2) by (simp add: token_at_def)
qed

lemma render_literal:
  assumes cap: "0 < cap"
  shows "lit_ok s \<Longrightarrow> render_loop cap runtime (snprintf cap acc) (s @ t) = render_loop cap runtime (snprintf cap (acc @ s)) t"
proof (induction s arbitrary: acc)
  case (Cons c cs)
  have IH: "render_loop cap runtime (snprintf cap (acc @ [c])) (cs @ t) = render_loop cap runtime (snprintf cap (acc @ c # cs)) t"
    using Cons.IH [of "acc @ [c]"] Cons.prems by simp
  have "token_here runtime (cs @ t) = None" if "c = CHR ''{''"
    using Cons.prems that by (cases cs) (simp_all add: token_here_def token_at_not)
  then show ?case using IH append_bytes_cut [OF cap, of acc "[c]"]
    by (cases "c = CHR ''{''") simp_all
qed simp

lemma lit_key: "list_all key_char k \<Longrightarrow> lit_ok (k @ ''}'')"
  using brace_not_key(2) by (induction k) auto

lemma render_piece:
  assumes cap: "0 < cap" and p: "piece_ok p"
  shows "render_loop cap runtime (snprintf cap acc) (piece_text p @ t) =
    render_loop cap runtime (snprintf cap (acc @ piece_value runtime p)) t"
proof (cases p)
  case (Lit s)
  then show ?thesis using render_literal [OF cap] p by simp
next
  case (Tok k)
  then have k: "k \<noteq> []" "length k < 32" "list_all key_char k" using p by simp_all
  show ?thesis
  proof (cases "token_value runtime k")
    case None
    then have "token_here runtime (k @ CHR ''}'' # t) = None" by (simp add: token_here_def token_at_key [OF k])
    then show ?thesis using render_literal [OF cap lit_key [OF k(3)], of runtime "acc @ ''{''" t] None Tok
        append_bytes_cut [OF cap, of acc "''{''"] by simp
  next
    case (Some v)
    then have "token_here runtime (k @ CHR ''}'' # t) = Some (v, t)" by (simp add: token_here_def token_at_key [OF k])
    then show ?thesis using Some Tok append_bytes_cut [OF cap, of acc v] by simp
  qed
qed


section \<open>What a template can read\<close>

lemma after_pattern_cons: "after_str pat (c # cs) = (if take (length pat) (c # cs) = pat then Some (drop (length pat) (c # cs)) else after_str pat cs)"
  by (subst after_str.simps) simp

lemma quote_key: "\<not> key_char (CHR 0x22)" "\<not> key_char (CHR '':'')" "\<not> key_char (CHR '','')"
  by (simp_all add: key_char_def is_digit_def char_code_def)

lemma split_at_quote:
  assumes "CHR 0x22 \<notin> set s" "CHR 0x22 \<notin> set k"
  shows "take (length k + 2) (s @ CHR 0x22 # c # t) = k @ [CHR 0x22, d] \<longleftrightarrow> s = k \<and> c = d"
proof
  assume e: "take (length k + 2) (s @ CHR 0x22 # c # t) = k @ [CHR 0x22, d]"
  have "s @ CHR 0x22 # c # t = take (length k + 2) (s @ CHR 0x22 # c # t) @ drop (length k + 2) (s @ CHR 0x22 # c # t)"
    by (rule append_take_drop_id [symmetric])
  then have e': "s @ CHR 0x22 # c # t = k @ CHR 0x22 # d # drop (length k + 2) (s @ CHR 0x22 # c # t)" unfolding e by simp
  have "takeWhile (\<lambda>x. x \<noteq> CHR 0x22) (s @ CHR 0x22 # c # t) = s" using assms(1) by (auto simp: takeWhile_append)
  moreover have "takeWhile (\<lambda>x. x \<noteq> CHR 0x22) (k @ CHR 0x22 # d # drop (length k + 2) (s @ CHR 0x22 # c # t)) = k"
    using assms(2) by (auto simp: takeWhile_append)
  ultimately have "s = k" using e' by metis
  with e' show "s = k \<and> c = d" by simp
qed simp

text \<open>A quoted text before a comma is no key, and a key is only itself.\<close>

lemma over_quoted:
  assumes k: "k \<noteq> []" "list_all key_char k" and s: "CHR 0x22 \<notin> set s" "s \<noteq> k \<or> c \<noteq> CHR '':''" and c: "\<not> key_char c" "c \<noteq> CHR 0x22"
  shows "after_str (jk k) (jq s @ c # t) = after_str (jk k) t"
proof -
  have q: "CHR 0x22 \<notin> set k" using k(2) quote_key by (auto simp: list_all_iff)
  obtain a as where a: "k = a # as" "key_char a" using k by (cases k) auto
  have "take (length (jk k)) (jq s @ c # t) \<noteq> jk k"
    using split_at_quote [OF s(1) q, of c t "CHR '':''"] s(2) by (auto simp: jk_def jq_def q_def)
  then have "after_str (jk k) (jq s @ c # t) = after_str (jk k) (s @ CHR 0x22 # c # t)"
    by (simp add: jq_def q_def after_pattern_cons)
  also have "\<dots> = after_str (jk k) (CHR 0x22 # c # t)" using after_str_skip [OF s(1)] by (simp add: jk_def q_def)
  also have "\<dots> = after_str (jk k) (c # t)"
    using a c(1) by (auto simp: jk_def q_def after_pattern_cons [of _ "CHR 0x22" "c # t"])
  also have "\<dots> = after_str (jk k) t" using c(2) by (simp add: jk_def q_def after_pattern_cons [of _ c])
  finally show ?thesis .
qed

lemma over_char: "c \<noteq> CHR 0x22 \<Longrightarrow> after_str (jk k) (c # t) = after_str (jk k) t"
  by (simp add: jk_def q_def after_pattern_cons)

lemma jk_as_jq: "jk k @ t = jq k @ CHR '':'' # t"
  by (simp add: jk_def jq_def)

lemma quoted_plain: "CHR 0x22 \<notin> set s \<Longrightarrow> CHR 0x5C \<notin> set s \<Longrightarrow> prev \<noteq> CHR 0x5C \<Longrightarrow>
    quoted prev acc (s @ CHR 0x22 # t) = Some (rev acc @ s)"
proof (induction s arbitrary: acc prev)
  case (Cons c s)
  then have "c \<noteq> CHR 0x22" "c \<noteq> CHR 0x5C" by auto
  then show ?case using Cons.IH [of c "c # acc"] Cons.prems by simp
qed simp

text \<open>The value of a quoted field found at its key.\<close>

lemma extract_found:
  assumes "after_str (jk k) json = Some (jq v @ t)" "length k \<le> 36" "json \<noteq> []" "CHR 0x22 \<notin> set v" "CHR 0x5C \<notin> set v"
  shows "extract_scalar json k = Some v"
  using assms quoted_plain [of v "CHR 0x22" "[]" t] by (simp add: extract_scalar_def jk_def jq_def q_def)

lemma extract_number:
  assumes "after_str (jk k) json = Some (dec_nat v @ c # t)" "length k \<le> 36" "json \<noteq> []" "c = CHR '','' \<or> c = CHR ''}''"
  shows "extract_scalar json k = Some (dec_nat v)"
proof -
  obtain d ds where d: "dec_nat v = d # ds" using dec_nat_nonempty [of v] by (cases "dec_nat v") auto
  have dig: "\<forall>x \<in> set (dec_nat v). is_digit x" by (rule dec_nat_digits)
  then have "is_digit d" by (simp add: d)
  then have d1: "d \<noteq> CHR '' ''" "d \<noteq> CHR 0x09" "d \<noteq> CHR 0x22" "d \<noteq> CHR ''{''" "d \<noteq> CHR ''[''"
    by (auto simp: is_digit_def char_code_def)
  have "\<forall>x \<in> set (dec_nat v). scalar_char x" using dig by (auto simp: scalar_char_def is_digit_def char_code_def)
  then have "takeWhile scalar_char (dec_nat v @ c # t) = dec_nat v" using assms(4) by (auto simp: takeWhile_append scalar_char_def)
  then show ?thesis using assms(1-3) d1 dec_nat_nonempty [of v] by (simp add: extract_scalar_def jk_def q_def Let_def d)
qed

definition plain_id :: "string \<Rightarrow> bool" where
  "plain_id s \<longleftrightarrow> CHR 0x22 \<notin> set s \<and> CHR 0x5C \<notin> set s"

text \<open>The text of the body, before the buffer of 256 bytes.\<close>

definition full_body :: "('n, 'w) api_world \<Rightarrow> string \<Rightarrow> string \<Rightarrow> string" where
  "full_body W name p = ''{'' @ jk ''event'' @ jq name @ '','' @ jk ''device'' @ jq (aw_id W) @ '','' @ jk ''data'' @ p @ ''}''"

lemma event_body_full: "length (full_body W name p) < 256 \<Longrightarrow> event_body W name (Some p) = full_body W name p"
  by (simp add: event_body_def full_body_def snprintf_fits)

lemma body_after_data:
  assumes "plain_id name" "plain_id (aw_id W)" "k \<noteq> []" "list_all key_char k" "k \<noteq> ''event''" "k \<noteq> ''device''" "k \<noteq> ''data''"
  shows "after_str (jk k) (full_body W name p) = after_str (jk k) (p @ ''}'')"
proof -
  have c: "\<not> key_char (CHR '','') \<and> CHR '','' \<noteq> CHR 0x22" "\<not> key_char (CHR '':'') \<and> CHR '':'' \<noteq> CHR 0x22"
    using quote_key by auto
  note o = over_quoted [OF assms(3,4)]
  show ?thesis using assms c
    by (simp add: full_body_def over_char jk_as_jq o plain_id_def)
qed

text \<open>
  What the tokens of a template read when the countdown alarms: \<open>{event}\<close> is the name of the event, \<open>{device}\<close>
  the id, \<open>{data}\<close> stays literal because it is an object, and the fields of that object are read by their own
  names, although the header file promises that only top-level fields are.
\<close>

theorem template_reads_event_and_nested_fields:
  assumes id: "plain_id (aw_id W)" and fits: "length (full_body W ''timer.alarm'' p) < 256"
    and p: "p = ''{'' @ jk ''index'' @ dec_nat i @ '','' @ jk ''of'' @ dec_nat k @ rest @ ''}''" and rest: "rest = [] \<or> hd rest = CHR '',''"
  defines "body \<equiv> event_body W ''timer.alarm'' (Some p)"
  shows "token_value body ''event'' = Some ''timer.alarm'' \<and> token_value body ''device'' = Some (aw_id W) \<and>
    token_value body ''data'' = None \<and> token_value body ''index'' = Some (dec_nat i) \<and> token_value body ''of'' = Some (dec_nat k)"
proof -
  have b: "body = full_body W ''timer.alarm'' p" unfolding body_def by (rule event_body_full [OF fits])
  have ne: "body \<noteq> []" by (simp add: b full_body_def)
  have keys: "list_all key_char ''event''" "list_all key_char ''device''" "list_all key_char ''data''" "list_all key_char ''index''"
    "list_all key_char ''of''" by (simp_all add: key_char_def is_digit_def char_code_def)
  have pl: "plain_id ''timer.alarm''" by (simp add: plain_id_def)
  have "after_str (jk ''event'') body = Some (jq ''timer.alarm'' @ '','' @ jk ''device'' @ jq (aw_id W) @ '','' @ jk ''data'' @ p @ ''}'')"
    by (simp add: b full_body_def over_char after_str_here)
  then have 1: "token_value body ''event'' = Some ''timer.alarm''"
    using extract_found [OF _ _ ne] by (simp add: token_value_def)
  have "after_str (jk ''device'') body = Some (jq (aw_id W) @ '','' @ jk ''data'' @ p @ ''}'')"
    using quote_key keys(2)
    by (simp add: b full_body_def over_char jk_as_jq [of "''event''"] over_quoted after_str_here)
  then have 2: "token_value body ''device'' = Some (aw_id W)"
    using extract_found [OF _ _ ne] id by (simp add: token_value_def plain_id_def)
  have "after_str (jk ''data'') body = Some (p @ ''}'')"
    using quote_key keys(3) id
    by (simp add: b full_body_def over_char jk_as_jq [of "''event''"] jk_as_jq [of "''device''"] over_quoted after_str_here plain_id_def)
  then have 3: "token_value body ''data'' = None" using ne by (simp add: token_value_def extract_scalar_def p jk_def q_def)
  have "after_str (jk ''index'') body = Some (dec_nat i @ '','' @ jk ''of'' @ dec_nat k @ rest @ ''}}'')"
    using body_after_data [OF pl id, of "''index''" p] keys(4) by (simp add: b p over_char after_str_here)
  then have 4: "token_value body ''index'' = Some (dec_nat i)" using extract_number [OF _ _ ne] by (simp add: token_value_def)
  have "CHR 0x22 \<notin> set (dec_nat i)" using dec_nat_digits [of i] by (auto simp: is_digit_def char_code_def)
  then have skip: "after_str (jk ''of'') (dec_nat i @ t) = after_str (jk ''of'') t" for t
    using after_str_skip [of "CHR 0x22" "dec_nat i" "''of'' @ q @ '':''" t] by (simp add: jk_def q_def)
  have "after_str (jk ''of'') body = Some (dec_nat k @ rest @ ''}}'')"
    using body_after_data [OF pl id, of "''of''" p] keys(5) quote_key
    by (simp add: b p over_char jk_as_jq [of "''index''"] over_quoted skip after_str_here)
  moreover obtain c t where "rest @ ''}}'' = c # t" "c = CHR '','' \<or> c = CHR ''}''" using rest by (cases rest) auto
  ultimately have 5: "token_value body ''of'' = Some (dec_nat k)" using extract_number [OF _ _ ne, of "''of''" k c t] by (auto simp: token_value_def)
  from 1 2 3 4 5 show ?thesis by simp
qed

end
