(* ===== verification/SkApiListProps.thy ===== *)
theory SkApiListProps
  imports SkApiTextProps
begin

text \<open>
  Properties of the lists of endpoints: \<open>api.endpoint.list\<close> is always complete, \<open>api.system.list\<close> is cut at 1023
  characters, and no sequence of commands shows more of a stored token than its mask.
\<close>

section \<open>The text of a list\<close>

definition row_texts :: "(endpoint \<Rightarrow> bool) \<Rightarrow> (nat \<times> endpoint) list \<Rightarrow> string list" where
  "row_texts esc_ok ps = map (\<lambda>(i, e). ep_json (esc_ok e) i e) ps"

text \<open>What has been written is the beginning of the whole, and the counter is its length while there is room.\<close>

definition holds_text :: "nat \<Rightarrow> string \<Rightarrow> string \<times> nat \<Rightarrow> bool" where
  "holds_text cap t st \<longleftrightarrow> fst st = snprintf cap t \<and> (if length t < cap then snd st = length t else cap \<le> snd st)"

lemma holds_put: "0 < cap \<Longrightarrow> holds_text cap t st \<Longrightarrow> holds_text cap (t @ s) (put_text cap s st)"
  by (cases st) (auto simp: holds_text_def put_text_def snprintf_def split: if_splits)

lemma append_rows:
  assumes cap: "0 < cap"
  shows "holds_text cap t st \<Longrightarrow> holds_text cap (t @ concat (map (\<lambda>s. '','' @ s) (row_texts ok ps)))
    (fst (foldl (append_ep_json cap ok) (st, False) ps))"
proof (induction ps arbitrary: st t)
  case (Cons p ps)
  obtain i e where p: "p = (i, e)" by (cases p)
  have "holds_text cap (t @ '','' @ ep_json (ok e) i e) (put_text cap ('','' @ ep_json (ok e) i e) st)"
    by (rule holds_put [OF cap Cons.prems])
  from Cons.IH [OF this] show ?case by (simp add: p append_ep_json_def row_texts_def)
qed (simp add: row_texts_def)

lemma comma_join_rows: "comma_join (x # xs) = x @ concat (map (\<lambda>s. '','' @ s) xs)"
  by (induction xs arbitrary: x) simp_all

lemma endpoint_rows_text:
  assumes cap: "0 < cap"
  shows "endpoint_rows cap ok ps = snprintf cap (''['' @ comma_join (row_texts ok ps) @ '']'')"
proof -
  have 0: "holds_text cap ''['' (put_text cap ''['' ([], 0))"
    using holds_put [OF cap, of "[]" "([], 0)" "''[''"] cap by (simp add: holds_text_def snprintf_def)
  have "holds_text cap (''['' @ comma_join (row_texts ok ps)) (fst (foldl (append_ep_json cap ok) (put_text cap ''['' ([], 0), True) ps))"
  proof (cases ps)
    case Nil
    then show ?thesis using 0 by (simp add: row_texts_def)
  next
    case (Cons p ps')
    obtain i e where p: "p = (i, e)" by (cases p)
    have "holds_text cap (''['' @ ep_json (ok e) i e) (put_text cap (ep_json (ok e) i e) (put_text cap ''['' ([], 0)))"
      by (rule holds_put [OF cap 0])
    from append_rows [OF cap this, of ok ps'] Cons p show ?thesis
      by (simp add: append_ep_json_def row_texts_def comma_join_rows)
  qed
  from holds_put [OF cap this, of "'']''"] show ?thesis by (simp add: endpoint_rows_def holds_text_def)
qed

section \<open>How long it is\<close>

lemma enum_str_length: "(\<And>v s. (v, s) \<in> set tab \<Longrightarrow> length s \<le> m) \<Longrightarrow> length d \<le> m \<Longrightarrow> length (enum_str tab d v) \<le> m"
  by (auto simp: enum_str_def split: option.split dest: map_of_SomeD)

lemma enum_lengths: "length (sk_api_kind_str v) \<le> 6" "length (sk_api_trigclass_str v) \<le> 7" "length (sk_api_type_str v) \<le> 12"
  "length (sk_api_method_str v) \<le> 6" "length (sk_api_auth_str v) \<le> 13"
  by (auto simp: sk_api_kind_str_def sk_api_trigclass_str_def sk_api_type_str_def sk_api_method_str_def sk_api_auth_str_def
      KINDS_def TRIGCLASSES_def TYPES_def METHODS_def AUTHS_def intro!: enum_str_length)

lemma mask_length: "length (mask_token t) \<le> 11"
  by (simp add: mask_token_def snprintf_def api_limits min_def)

lemma escape_length: "length (api_escape_loop cap out s) \<le> length out + 2 * length s"
proof (induction s arbitrary: out)
  case (Cons c s)
  have "length (api_escape_loop cap (out @ x) s) \<le> length out + 2 * length (c # s)" if "length x \<le> 2" for x
    using Cons.IH [of "out @ x"] that by simp
  then show ?case by simp
qed simp

lemma row_length:
  assumes f: "fits e" and i: "i < 10"
  shows "length (ep_json ok i e) \<le> 1700" "ep_payload e = [] \<Longrightarrow> length (ep_json ok i e) \<le> 680"
proof -
  have d: "length (dec_nat i) \<le> 1" using length_dec_nat [of i 0] i by simp
  have "unat (ep_delay e) < 65536" using unsigned_less [of "ep_delay e"] by simp
  then have w: "length (dec_nat (unat (ep_delay e))) \<le> 5" using length_dec_nat [of "unat (ep_delay e)" 4] by simp
  define p where "p = (if ok then api_json_escape (SK_API_EP_PAYLOAD_MAX * 2 + 1) (ep_payload e) else [])"
  define h where "h = (if ep_kind e = SK_API_KIND_SYSTEM then bytes_to_hex (ep_peer e) else [])"
  have p: "length p \<le> 2 * length (ep_payload e)" using escape_length [of _ "[]"] by (simp add: p_def api_json_escape_def)
  have h: "length h \<le> 32" using f by (simp add: h_def hex_length fits_def)
  have "length (ep_json ok i e) \<le> 639 + length p"
    using f d w h enum_lengths(1) [of "ep_kind e"] enum_lengths(2) [of "ep_class e"] enum_lengths(3) [of "ep_type e"]
      enum_lengths(4) [of "ep_method e"] enum_lengths(5) [of "ep_auth e"] mask_length [of "ep_token e"]
    by (simp add: ep_json_def jk_def jq_def q_def fits_def flip: p_def h_def)
  then show "length (ep_json ok i e) \<le> 1700" "ep_payload e = [] \<Longrightarrow> length (ep_json ok i e) \<le> 680"
    using p f by (simp_all add: fits_def)
qed

lemma comma_join_bound: "length (comma_join xs) \<le> sum_list (map (\<lambda>x. length x + 1) xs)"
  by (induction xs rule: comma_join.induct) simp_all

lemma sum_bound: "(\<And>x. x \<in> set xs \<Longrightarrow> f x \<le> (m :: nat)) \<Longrightarrow> sum_list (map f xs) \<le> length xs * m"
  by (induction xs) (auto intro: add_mono)

lemma used_slots_in: "(i, e) \<in> set (used_slots es) \<Longrightarrow> i < length es \<and> es ! i = e \<and> ep_used e"
  by (auto simp: used_slots_def in_set_zip)

lemma used_slots_count: "length (used_slots es) \<le> length es"
  using length_filter_le [of "\<lambda>(i, e). ep_used e" "zip [0..<length es] es"] by (simp add: used_slots_def)

lemma used_fits: "api_ok s \<Longrightarrow> e \<in> set (all_eps s) \<Longrightarrow> ep_used e \<Longrightarrow> fits e"
  by (auto simp: api_ok_def all_eps_def list_all_iff user_ok_def system_ok_def)

lemma rows_bound:
  assumes "\<And>i e. (i, e) \<in> set ps \<Longrightarrow> length (ep_json (ok e) i e) \<le> m"
  shows "length (comma_join (row_texts ok ps)) \<le> length ps * (m + 1)"
proof -
  have "sum_list (map (\<lambda>x. length x + 1) (row_texts ok ps)) \<le> length (row_texts ok ps) * (m + 1)"
    by (rule sum_bound) (use assms in \<open>auto simp: row_texts_def\<close>)
  then show ?thesis using comma_join_bound [of "row_texts ok ps"] by (simp add: row_texts_def)
qed

lemma comma_join_append: "length (comma_join (xs @ ys)) \<le> length (comma_join xs) + length (comma_join ys) + 1"
proof (induction xs rule: comma_join.induct)
  case (2 x)
  then show ?case by (cases ys) simp_all
qed simp_all

text \<open>
  The answer of \<open>api.endpoint.list\<close> is always the whole list, closed: every endpoint in use, the user's first, fits
  the buffer of 16384 bytes whatever the fields hold.
\<close>

theorem endpoint_list_complete:
  assumes "api_ok (dv_api d)"
  shows "snd (cmd_api_endpoint_list True esc_ok ctx d) = CliOk (Some (''['' @
    comma_join (row_texts esc_ok (used_slots (user_eps (dv_api d)) @ used_slots (system_eps (dv_api d)))) @ '']''))"
proof -
  let ?u = "used_slots (user_eps (dv_api d))" and ?y = "used_slots (system_eps (dv_api d))"
  have l: "length (user_eps (dv_api d)) = 5" "length (system_eps (dv_api d)) = 8" using assms by (simp_all add: api_ok_def)
  have "length (comma_join (row_texts esc_ok ?u)) \<le> length ?u * 1701"
    by (rule rows_bound [where m = 1700, simplified], rule row_length(1))
      (use used_slots_in used_fits [OF assms] l in \<open>force simp: all_eps_def\<close>)+
  moreover have "length (comma_join (row_texts esc_ok ?y)) \<le> length ?y * 681"
  proof (rule rows_bound [where m = 680, simplified], rule row_length(2))
    fix i e assume "(i, e) \<in> set ?y"
    then have e: "i < 8" "e \<in> set (system_eps (dv_api d))" "ep_used e" using used_slots_in [of i e] l nth_mem by force+
    then show "i < 10" "fits e" using used_fits [OF assms] by (simp_all add: all_eps_def)
    show "ep_payload e = []" using assms e by (auto simp: api_ok_def list_all_iff system_ok_def)
  qed
  moreover have "length ?u \<le> 5" "length ?y \<le> 8" using used_slots_count l by metis+
  ultimately have "length (''['' @ comma_join (row_texts esc_ok (?u @ ?y)) @ '']'') < 16384"
    using comma_join_append [of "row_texts esc_ok ?u" "row_texts esc_ok ?y"] by (simp add: row_texts_def)
  then have "snprintf 16384 (''['' @ comma_join (row_texts esc_ok (?u @ ?y)) @ '']'') = ''['' @ comma_join (row_texts esc_ok (?u @ ?y)) @ '']''"
    by (rule snprintf_fits)
  then show ?thesis by (simp add: cmd_api_endpoint_list_def list_answer_def endpoint_rows_text)
qed

lemma row_long:
  assumes "system_ok e" "ep_used e"
  shows "220 + length (ep_url e) \<le> length (ep_json ok i e)"
proof -
  have m: "api_json_escape (SK_API_EP_PAYLOAD_MAX * 2 + 1) [] = []" by (simp add: api_json_escape_def)
  have "length (dec_nat i) \<ge> 1" "length (dec_nat (unat (ep_delay e))) \<ge> 1"
    using dec_nat_nonempty by (simp_all add: Suc_le_eq)
  moreover have "length (bytes_to_hex (ep_peer e)) = 32" using assms by (auto simp: system_ok_def fits_def hex_length)
  moreover have "length (sk_api_auth_str (ep_auth e)) \<ge> 4"
    by (simp add: sk_api_auth_str_def enum_str_def AUTHS_def api_enums)
  ultimately show ?thesis using assms
    by (auto simp: ep_json_def jk_def jq_def q_def system_ok_def sk_api_kind_str_def sk_api_trigclass_str_def sk_api_type_str_def
        sk_api_method_str_def enum_str_def KINDS_def TRIGCLASSES_def TYPES_def METHODS_def api_enums DEFAULT_CT_def mask_token_def m)
qed

lemma sum_lower: "(\<And>x. x \<in> set xs \<Longrightarrow> (m :: nat) \<le> f x) \<Longrightarrow> length xs * m \<le> sum_list (map f xs)"
  by (induction xs) (auto intro: add_mono)

lemma sum_le_join: "sum_list (map length xs) \<le> length (comma_join xs)"
  by (induction xs rule: comma_join.induct) simp_all

text \<open>
  The answer of \<open>api.system.list\<close> is cut: when four paired apps are registered with URLs of 36 characters or more
  (the documented address of a listener has more), it is the first 1023 characters of the list, which is longer, so
  it is not JSON.
\<close>

theorem system_list_cut_with_four_apps:
  assumes s: "api_ok (dv_api d)" and four: "4 \<le> length (filter ep_used (system_eps (dv_api d)))"
    and url: "\<And>e. e \<in> set (system_eps (dv_api d)) \<Longrightarrow> ep_used e \<Longrightarrow> 36 \<le> length (ep_url e)"
  shows "\<exists>whole. whole = ''['' @ comma_join (row_texts esc_ok (used_slots (system_eps (dv_api d)))) @ '']'' \<and>
    snd (cmd_api_system_list True esc_ok ctx d) = CliOk (Some (take 1023 whole)) \<and> 1023 < length whole"
proof -
  let ?es = "system_eps (dv_api d)"
  let ?rows = "row_texts esc_ok (used_slots ?es)"
  have "256 \<le> length x" if r: "x \<in> set ?rows" for x
  proof -
    obtain i e where x: "(i, e) \<in> set (used_slots ?es)" "x = ep_json (esc_ok e) i e" using r by (auto simp: row_texts_def)
    then have e: "e \<in> set ?es" "ep_used e" using used_slots_in nth_mem by metis+
    then have "system_ok e" using s by (auto simp: api_ok_def list_all_iff)
    then show ?thesis using row_long [of e "esc_ok e" i] url [OF e] e x(2) by simp
  qed
  then have "length ?rows * 256 \<le> sum_list (map length ?rows)" by (rule sum_lower)
  moreover have "length ?rows = length (filter ep_used ?es)"
  proof -
    have z: "map snd (zip [0..<length ?es] ?es) = ?es" by simp
    have "filter ep_used (map snd (zip [0..<length ?es] ?es)) = map snd (used_slots ?es)"
      by (simp only: filter_map used_slots_def comp_def case_prod_unfold)
    then have "length (filter ep_used ?es) = length (used_slots ?es)" unfolding z by simp
    then show ?thesis by (simp add: row_texts_def)
  qed
  ultimately have "1024 \<le> length (comma_join ?rows)" using four sum_le_join [of ?rows] by simp
  then show ?thesis by (simp add: cmd_api_system_list_def list_answer_def endpoint_rows_text snprintf_def)
qed


section \<open>Stored tokens stay secret\<close>

text \<open>Two tokens that have the same mask: equal, both shorter than twelve, or with the same four first and last characters.\<close>

definition tokens_alike :: "string \<Rightarrow> string \<Rightarrow> bool" where
  "tokens_alike t u \<longleftrightarrow> t = u \<or> (t \<noteq> [] \<and> u \<noteq> [] \<and> length t < 12 \<and> length u < 12) \<or>
     (12 \<le> length t \<and> 12 \<le> length u \<and> take 4 t = take 4 u \<and> drop (length t - 4) t = drop (length u - 4) u)"

definition ep_alike :: "endpoint \<Rightarrow> endpoint \<Rightarrow> bool" where
  "ep_alike e f \<longleftrightarrow> tokens_alike (ep_token e) (ep_token f) \<and> e\<lparr>ep_token := []\<rparr> = f\<lparr>ep_token := []\<rparr>"

lemma ep_alike_refl [simp]: "ep_alike e e"
  by (simp add: ep_alike_def tokens_alike_def)

lemma mask_alike: "tokens_alike t u \<Longrightarrow> mask_token t = mask_token u"
  by (auto simp: tokens_alike_def mask_token_def)

lemma ep_alikeD:
  assumes "ep_alike e f"
  shows "ep_used e = ep_used f" "ep_name e = ep_name f" "ep_peer e = ep_peer f" "ep_json ok i e = ep_json ok i f"
  using assms by (cases e; cases f; auto simp: ep_alike_def ep_json_def dest: mask_alike)+

text \<open>Two devices that differ in stored tokens only, and in what flash holds of them.\<close>

definition api_alike :: "'n nvs_ops \<Rightarrow> 'n api \<Rightarrow> 'n api \<Rightarrow> bool" where
  "api_alike N s s' \<longleftrightarrow> list_all2 ep_alike (user_eps s) (user_eps s') \<and> list_all2 ep_alike (system_eps s) (system_eps s') \<and>
     (\<forall>k. nv_get N (api_flash s) NVS_NS_GLOBAL k = nv_get N (api_flash s') NVS_NS_GLOBAL k)"

definition dev_alike :: "'n nvs_ops \<Rightarrow> 'n api_dev \<Rightarrow> 'n api_dev \<Rightarrow> bool" where
  "dev_alike N d d' \<longleftrightarrow> api_alike N (dv_api d) (dv_api d') \<and> dv_auth d = dv_auth d' \<and> dv_slots d = dv_slots d'"

lemma find_cong_index: "(\<And>i. i < n \<Longrightarrow> P i = Q i) \<Longrightarrow> find P [0..<n] = find Q [0..<n]"
  by (rule find_cong) auto

lemma finds_alike:
  assumes "list_all2 ep_alike es fs"
  shows "find_by_name n es = find_by_name n fs" "find_system_slot_by_peer p es = find_system_slot_by_peer p fs" "find_free es = find_free fs"
proof -
  have l: "length es = length fs" using assms by (rule list_all2_lengthD)
  have a: "ep_alike (es ! i) (fs ! i)" if "i < length es" for i using assms that by (rule list_all2_nthD)
  show "find_by_name n es = find_by_name n fs" "find_system_slot_by_peer p es = find_system_slot_by_peer p fs" "find_free es = find_free fs"
    unfolding find_by_name_def find_system_slot_by_peer_def find_free_def l [symmetric]
    by (rule find_cong_index; use ep_alikeD [OF a] in simp)+
qed

lemma global_written:
  assumes "nvs_lawful N"
  shows "nv_get N (api_flash (put_user N i e s)) NVS_NS_GLOBAL k = nv_get N (api_flash s) NVS_NS_GLOBAL k"
    "nv_get N (api_flash (put_system N i e s)) NVS_NS_GLOBAL k = nv_get N (api_flash s) NVS_NS_GLOBAL k"
  using assms by (simp_all add: put_user_def put_system_def save_linear_def nvs_simps get_global_written NVS_API_def NVS_NS_GLOBAL_def)

lemma alike_put:
  assumes "nvs_lawful N" "api_alike N s s'" "ep_alike e f"
  shows "api_alike N (put_user N i e s) (put_user N i f s')" "api_alike N (put_system N i e s) (put_system N i f s')"
  using assms(2,3) by (simp_all add: api_alike_def global_written [OF assms(1)])
    (simp_all add: put_user_def put_system_def list_all2_update_cong)

lemma alike_master:
  assumes N: "nvs_lawful N" and a: "api_alike N s s'"
  shows "sk_api_is_enabled_all N s = sk_api_is_enabled_all N s'"
proof -
  have g: "nv_get N (api_flash s) NVS_NS_GLOBAL NVS_KEY_MASTER = nv_get N (api_flash s') NVS_NS_GLOBAL NVS_KEY_MASTER"
    using a by (simp add: api_alike_def)
  show ?thesis
  proof (cases "nv_get N (api_flash s) NVS_NS_GLOBAL NVS_KEY_MASTER")
    case None
    then show ?thesis using g by (simp add: sk_api_is_enabled_all_def get_u8_def)
  next
    case (Some v)
    then show ?thesis using g nvs_open_ro [OF N Some] nvs_open_ro [OF N, of "api_flash s'"] by (simp add: sk_api_is_enabled_all_def get_u8_def)
  qed
qed

lemma alike_ops:
  assumes N: "nvs_lawful N" and a: "api_alike N s s'"
  shows "fst (sk_api_endpoint_add N c s) = fst (sk_api_endpoint_add N c s')"
    "api_alike N (snd (sk_api_endpoint_add N c s)) (snd (sk_api_endpoint_add N c s'))"
    "fst (sk_api_endpoint_remove N m s) = fst (sk_api_endpoint_remove N m s')"
    "api_alike N (snd (sk_api_endpoint_remove N m s)) (snd (sk_api_endpoint_remove N m s'))"
    "api_alike N (snd (sk_api_set_enabled_all N b s)) (snd (sk_api_set_enabled_all N b s'))"
proof -
  have f: "list_all2 ep_alike (user_eps s) (user_eps s')" "list_all2 ep_alike (system_eps s) (system_eps s')"
    using a by (simp_all add: api_alike_def)
  have r: "cfg_refused c s = cfg_refused c s'" by (simp add: cfg_refused_def finds_alike [OF f(2)])
  show "fst (sk_api_endpoint_add N c s) = fst (sk_api_endpoint_add N c s')"
    "api_alike N (snd (sk_api_endpoint_add N c s)) (snd (sk_api_endpoint_add N c s'))"
    using a by (auto simp: sk_api_endpoint_add_def r finds_alike [OF f(1)] slot_for_def alike_put [OF N] split: option.split)
  show "fst (sk_api_endpoint_remove N m s) = fst (sk_api_endpoint_remove N m s')"
    "api_alike N (snd (sk_api_endpoint_remove N m s)) (snd (sk_api_endpoint_remove N m s'))"
    using a by (auto simp: sk_api_endpoint_remove_def finds_alike [OF f(1)] alike_put [OF N] split: option.split)
  show "api_alike N (snd (sk_api_set_enabled_all N b s)) (snd (sk_api_set_enabled_all N b s'))"
    using a N by (simp add: sk_api_set_enabled_all_def api_alike_def Let_def nvs_simps)
qed

lemma alike_system_ops:
  assumes N: "nvs_lawful N" and a: "api_alike N s s'"
  shows "fst (sk_api_system_add N au p url dl s) = fst (sk_api_system_add N au p url dl s')"
    "fst (snd (sk_api_system_add N au p url dl s)) = fst (snd (sk_api_system_add N au p url dl s'))"
    "api_alike N (snd (snd (sk_api_system_add N au p url dl s))) (snd (snd (sk_api_system_add N au p url dl s')))"
    "fst (sk_api_system_remove N p s) = fst (sk_api_system_remove N p s')"
    "api_alike N (snd (sk_api_system_remove N p s)) (snd (sk_api_system_remove N p s'))"
proof -
  have f: "list_all2 ep_alike (system_eps s) (system_eps s')" using a by (simp add: api_alike_def)
  show "fst (sk_api_system_add N au p url dl s) = fst (sk_api_system_add N au p url dl s')"
    "fst (snd (sk_api_system_add N au p url dl s)) = fst (snd (sk_api_system_add N au p url dl s'))"
    "api_alike N (snd (snd (sk_api_system_add N au p url dl s))) (snd (snd (sk_api_system_add N au p url dl s')))"
    using a by (auto simp: sk_api_system_add_def finds_alike [OF f] slot_for_def alike_put [OF N] split: option.split)
  show "fst (sk_api_system_remove N p s) = fst (sk_api_system_remove N p s')"
    "api_alike N (snd (sk_api_system_remove N p s)) (snd (sk_api_system_remove N p s'))"
    using a by (auto simp: sk_api_system_remove_def finds_alike [OF f] alike_put [OF N] split: option.split)
qed


lemma alike_purge:
  assumes N: "nvs_lawful N"
  shows "api_alike N s s' \<Longrightarrow> length (system_eps s) = 8 \<Longrightarrow> api_alike N (sk_api_system_remove_all N s) (sk_api_system_remove_all N s')"
proof -
  let ?f = "\<lambda>s i. if ep_used (system_eps s ! i) then put_system N i ep_zero s else s"
  have "api_alike N s s' \<Longrightarrow> length (system_eps s) = 8 \<Longrightarrow> \<forall>i \<in> set is. i < 8 \<Longrightarrow> api_alike N (foldl ?f s is) (foldl ?f s' is)" for "is"
  proof (induction "is" arbitrary: s s')
    case (Cons i "is")
    have "ep_alike (system_eps s ! i) (system_eps s' ! i)"
      by (rule list_all2_nthD [where P = ep_alike]) (use Cons.prems in \<open>simp_all add: api_alike_def\<close>)
    then have "ep_used (system_eps s ! i) = ep_used (system_eps s' ! i)" by (rule ep_alikeD)
    then have "api_alike N (?f s i) (?f s' i)" using Cons.prems(1) alike_put(2) [OF N] by simp
    from Cons.IH [OF this] show ?case using Cons.prems by (simp add: put_system_def)
  qed simp
  then show "api_alike N s s' \<Longrightarrow> length (system_eps s) = 8 \<Longrightarrow> ?thesis" by (simp add: sk_api_system_remove_all_def api_limits)
qed

text \<open>Equal answers, and devices that are alike again.\<close>

definition same_answer :: "'n nvs_ops \<Rightarrow> 'n api_dev \<times> cli_out \<Rightarrow> 'n api_dev \<times> cli_out \<Rightarrow> bool" where
  "same_answer N r r' \<longleftrightarrow> dev_alike N (fst r) (fst r') \<and> snd r = snd r'"

lemma same_answerI: "dev_alike N d d' \<Longrightarrow> same_answer N (d, out) (d', out)"
  by (simp add: same_answer_def)

lemma dev_alike_put: "dev_alike N d d' \<Longrightarrow> api_alike N s s' \<Longrightarrow> dev_alike N (d\<lparr>dv_api := s\<rparr>) (d'\<lparr>dv_api := s'\<rparr>)"
  by (simp add: dev_alike_def)

lemma confirmed_alike:
  assumes "\<And>t. same_answer N (body ctx (d\<lparr>dv_slots := t\<rparr>)) (body ctx (d'\<lparr>dv_slots := t\<rparr>))" and a: "dev_alike N d d'"
  shows "same_answer N (api_confirmed now body ctx d) (api_confirmed now body ctx d')"
proof -
  have s: "dv_slots d = dv_slots d'" and u: "\<And>t. dev_alike N (d\<lparr>dv_slots := t\<rparr>) (d'\<lparr>dv_slots := t\<rparr>)"
    using a by (simp_all add: dev_alike_def)
  show ?thesis using assms by (auto simp: api_confirmed_def s Let_def intro: same_answerI u split: option.split prod.split)
qed

lemma add_alike:
  assumes N: "nvs_lawful N" and a: "dev_alike N d d'"
  shows "same_answer N (add_endpoint N ctx d) (add_endpoint N ctx d')"
proof -
  have s: "api_alike N (dv_api d) (dv_api d')" using a by (simp add: dev_alike_def)
  show ?thesis using a alike_ops(1,2) [OF N s]
    by (auto simp: add_endpoint_def Let_def same_answer_def dev_alike_put case_prod_beta split: option.split)
qed

lemma rows_alike:
  assumes "list_all2 ep_alike es fs" and ok: "\<And>e f. ep_alike e f \<Longrightarrow> ok e = ok f"
  shows "row_texts ok (used_slots es) = row_texts ok (used_slots fs)"
proof -
  have l: "length es = length fs" using assms(1) by (rule list_all2_lengthD)
  have u: "row_texts ok (used_slots gs) = map (\<lambda>i. ep_json (ok (gs ! i)) i (gs ! i)) (filter (\<lambda>i. ep_used (gs ! i)) [0..<length gs])" for gs
  proof -
    have "zip [0..<length gs] gs = map (\<lambda>i. (i, gs ! i)) [0..<length gs]" by (rule nth_equalityI) simp_all
    then show ?thesis by (simp add: used_slots_def row_texts_def filter_map comp_def)
  qed
  have a: "ep_alike (es ! i) (fs ! i)" if "i < length fs" for i using assms(1) that l by (simp add: list_all2_nthD)
  have "filter (\<lambda>i. ep_used (es ! i)) [0..<length fs] = filter (\<lambda>i. ep_used (fs ! i)) [0..<length fs]"
    using ep_alikeD(1) [OF a] by (auto intro: filter_cong)
  then show ?thesis unfolding u l using ok [OF a] ep_alikeD(4) [OF a] by simp
qed

lemma lists_alike:
  assumes a: "dev_alike N d d'" and ok: "\<And>e f. ep_alike e f \<Longrightarrow> ok e = ok f"
  shows "same_answer N (cmd_api_endpoint_list mem ok ctx d) (cmd_api_endpoint_list mem ok ctx d')"
    "same_answer N (cmd_api_system_list mem ok ctx d) (cmd_api_system_list mem ok ctx d')"
proof -
  have f: "list_all2 ep_alike (user_eps (dv_api d)) (user_eps (dv_api d'))" "list_all2 ep_alike (system_eps (dv_api d)) (system_eps (dv_api d'))"
    using a by (simp_all add: dev_alike_def api_alike_def)
  show "same_answer N (cmd_api_endpoint_list mem ok ctx d) (cmd_api_endpoint_list mem ok ctx d')"
    "same_answer N (cmd_api_system_list mem ok ctx d) (cmd_api_system_list mem ok ctx d')"
    using a rows_alike [OF f(1), of ok] rows_alike [OF f(2), of ok] ok
    by (simp_all add: same_answer_def cmd_api_endpoint_list_def cmd_api_system_list_def list_answer_def endpoint_rows_text row_texts_def)
qed

lemma count_alike:
  assumes "list_all2 ep_alike es fs"
  shows "length (filter ep_used es) = length (filter ep_used fs)"
  using assms by (induction rule: list_all2_induct) (simp_all add: ep_alikeD(1))

lemma cmd_alike:
  assumes N: "nvs_lawful N" and a: "dev_alike N d d'" and l: "length (system_eps (dv_api d)) = 8"
    and ok: "\<And>e f. ep_alike e f \<Longrightarrow> esc_ok e = esc_ok f" and h: "(name, h) \<in> set (api_cmds N now mem esc_ok)"
  shows "same_answer N (h ctx d) (h ctx d')"
proof -
  have s: "api_alike N (dv_api d) (dv_api d')" and au: "dv_auth d' = dv_auth d" using a by (simp_all add: dev_alike_def)
  note f = s [unfolded api_alike_def]
  have add: "same_answer N (cmd_api_endpoint_add N now ctx d) (cmd_api_endpoint_add N now ctx d')"
    unfolding cmd_api_endpoint_add_def by (rule confirmed_alike [OF add_alike [OF N] a]) (use a in \<open>simp add: dev_alike_def\<close>)
  have remove: "same_answer N (cmd_api_endpoint_remove N now ctx d) (cmd_api_endpoint_remove N now ctx d')"
    unfolding cmd_api_endpoint_remove_def
    by (rule confirmed_alike [OF _ a]) (use a alike_ops(3,4) [OF N s] in \<open>auto simp: dev_alike_def same_answer_def case_prod_beta split: option.split\<close>)
  have sadd: "same_answer N (cmd_api_system_add N ctx d) (cmd_api_system_add N ctx d')"
    using a by (simp add: cmd_api_system_add_def with_caller_def au same_answer_def alike_system_ops(1,2) [OF N s]
        dev_alike_put [OF a alike_system_ops(3) [OF N s]] case_prod_beta split: option.split)
  have sremove: "same_answer N (cmd_api_system_remove N ctx d) (cmd_api_system_remove N ctx d')"
    using a by (simp add: cmd_api_system_remove_def with_caller_def au same_answer_def alike_system_ops(4) [OF N s]
        dev_alike_put [OF a alike_system_ops(5) [OF N s]] case_prod_beta split: option.split)
  have on: "same_answer N (cmd_api_enable N ctx d) (cmd_api_enable N ctx d')" "same_answer N (cmd_api_disable N ctx d) (cmd_api_disable N ctx d')"
    using a alike_ops(5) [OF N s] by (simp_all add: cmd_api_enable_def cmd_api_disable_def same_answer_def dev_alike_put)
  have status: "same_answer N (cmd_api_status N ctx d) (cmd_api_status N ctx d')"
    using a alike_master [OF N s] count_alike [OF conjunct1 [OF f]] count_alike [OF conjunct1 [OF conjunct2 [OF f]]]
    by (simp add: cmd_api_status_def same_answer_def Let_def)
  have purge: "same_answer N (cmd_api_system_purge N ctx d) (cmd_api_system_purge N ctx d')"
    using a alike_purge [OF N s l] by (simp add: cmd_api_system_purge_def same_answer_def dev_alike_put)
  show ?thesis using h add remove sadd sremove on status purge lists_alike [OF a ok]
    by (simp add: api_cmds_def) (elim disjE; simp)
qed

text \<open>All answers of a run of events.\<close>

primrec api_answers :: "'n nvs_ops \<Rightarrow> 'n api_dev \<Rightarrow> 'n api_event list \<Rightarrow> cli_out option list" where
  "api_answers N d [] = []"
| "api_answers N d (e # es) =
     (case e of ApiCmd name ctx now mem esc_ok \<Rightarrow> [snd (api_answer N name ctx now mem esc_ok d)] | _ \<Rightarrow> []) @
     api_answers N (api_step N d e) es"

fun token_blind :: "'n api_event \<Rightarrow> bool" where
  "token_blind (ApiCmd name ctx now mem esc_ok) = (\<forall>e f. ep_alike e f \<longrightarrow> esc_ok e = esc_ok f)"
| "token_blind _ = True"

lemma answer_alike:
  assumes N: "nvs_lawful N" and a: "dev_alike N d d'" and l: "length (system_eps (dv_api d)) = 8"
    and ok: "\<And>e f. ep_alike e f \<Longrightarrow> esc_ok e = esc_ok f"
  shows "dev_alike N (fst (api_answer N name ctx now mem esc_ok d)) (fst (api_answer N name ctx now mem esc_ok d'))"
    "snd (api_answer N name ctx now mem esc_ok d) = snd (api_answer N name ctx now mem esc_ok d')"
proof -
  have "same_answer N (h ctx d) (h ctx d')" if "map_of (api_cmds N now mem esc_ok) name = Some h" for h
    using cmd_alike [OF N a l ok map_of_SomeD [OF that]] .
  then show "dev_alike N (fst (api_answer N name ctx now mem esc_ok d)) (fst (api_answer N name ctx now mem esc_ok d'))"
    "snd (api_answer N name ctx now mem esc_ok d) = snd (api_answer N name ctx now mem esc_ok d')"
    using a by (auto simp: api_answer_def same_answer_def case_prod_beta split: option.split)
qed

lemma step_alike:
  assumes N: "nvs_lawful N" and a: "dev_alike N d d'" and i: "dev_inv N d" "dev_inv N d'" and e: "token_blind e"
  shows "dev_alike N (api_step N d e) (api_step N d' e)"
proof (cases e)
  case (ApiCmd name ctx now mem esc_ok)
  then show ?thesis using answer_alike(1) [OF N a] api_lengths [OF dev_invD(1) [OF i(1)]] e by simp
next
  case ApiFactoryReset
  have "nv_get N (api_flash (api_factory_reset N s)) NVS_NS_GLOBAL k = None" for s k
    using N by (simp add: api_factory_reset_def api_erase_def nvs_simps)
  then have "api_alike N (api_factory_reset N (dv_api d)) (api_factory_reset N (dv_api d'))"
    by (simp add: api_alike_def list_all2_conv_all_nth) (simp add: api_factory_reset_def)
  then show ?thesis using a ApiFactoryReset by (simp add: dev_alike_put)
next
  case ApiPowerCycle
  have "api_alike N (dv_api d\<lparr>api_up := True\<rparr>) (dv_api d'\<lparr>api_up := True\<rparr>)" using a by (simp add: dev_alike_def api_alike_def)
  then show ?thesis using a ApiPowerCycle api_init_loads [OF N dev_invD(1) [OF i(1)]] api_init_loads [OF N dev_invD(1) [OF i(2)]]
    by (simp add: dev_alike_put)
qed (use a in \<open>simp_all add: dev_alike_def\<close>)

text \<open>
  No sequence of commands shows more of a stored token than its mask: two devices that differ in stored tokens
  only, where both tokens are shorter than twelve characters or have the same first four and last four, give the same
  answers to every sequence of commands, factory resets and power cycles.
\<close>

theorem stored_tokens_never_shown:
  assumes N: "nvs_lawful N" and a: "dev_alike N d d'" and i: "dev_inv N d" "dev_inv N d'"
    and es: "\<forall>e \<in> set es. api_allowed e \<and> token_blind e"
  shows "api_answers N d es = api_answers N d' es"
  using a i es
proof (induction es arbitrary: d d')
  case (Cons e es)
  have "api_answers N (api_step N d e) es = api_answers N (api_step N d' e) es"
    using Cons.prems by (intro Cons.IH step_alike [OF N] api_step_inv [OF N]) auto
  moreover have "snd (api_answer N name ctx now mem ok d) = snd (api_answer N name ctx now mem ok d')" if "e = ApiCmd name ctx now mem ok" for name ctx now mem ok
    using answer_alike(2) [OF N Cons.prems(1)] api_lengths [OF dev_invD(1) [OF Cons.prems(2)]] Cons.prems(4) that by simp
  ultimately show ?case by (cases e) simp_all
qed simp

end
