(* ===== verification/SkApiExamples.thy ===== *)
theory SkApiExamples
  imports SkApiListProps
begin

text \<open>
  The properties of the webhooks at concrete inputs: a device with a bonded app, its endpoint and an endpoint of the
  user, in a world that answers 200 to every request. Also the endpoint that can never fire, because another has
  its name.
\<close>

section \<open>Namesakes\<close>

lemma prefix_name: "take 4 p = take 4 p' \<Longrightarrow> ep_name (system_endpoint p u d) = ep_name (system_endpoint p' u' d')"
proof -
  have "take 8 (bytes_to_hex b) = bytes_to_hex (take 4 b)" for b
  proof -
    have "take (2 * k) (bytes_to_hex b) = bytes_to_hex (take k b)" for k
      by (induction b arbitrary: k) (simp_all add: bytes_to_hex_def hex_byte_str_def take_Cons split: nat.split)
    from this [of 4] show ?thesis by simp
  qed
  then show "take 4 p = take 4 p' \<Longrightarrow> ?thesis" by (simp add: system_endpoint_def)
qed

text \<open>
  Endpoints are fired by name, and the name of a paired app's endpoint is made of the first four bytes of its peer
  id: of two apps whose ids begin with the same four bytes, the one in the later slot is never sent anything, by no
  chain and no command.
\<close>

theorem namesake_never_fires:
  assumes ok: "api_ok (aw_api W w)" and pre: "take 4 p = take 4 p'" and ij: "i < j"
    and e: "system_eps (aw_api W w) ! i = system_endpoint p u d" "system_eps (aw_api W w) ! j = system_endpoint p' u' d'"
    and j: "find_system_slot_by_peer p' (system_eps (aw_api W w)) = Some j"
  shows "ApiWorker \<lparr> sj_ep = system_endpoint p' u' d', sj_payload = t \<rparr> \<notin> set (fst (snd (sk_api_send W name pl w)))"
proof -
  let ?s = "aw_api W w" and ?f = "system_endpoint p' u' d'"
  have l: "length (user_eps ?s) = 5" "j < length (system_eps ?s)" and first: "\<And>k. k < j \<Longrightarrow> ep_used (system_eps ?s ! k) \<Longrightarrow> ep_peer (system_eps ?s ! k) \<noteq> p'"
    using ok j by (auto simp: api_ok_def find_system_slot_by_peer_def find_Some_iff)
  have f: "ep_used ?f" "ep_peer ?f = p'" "ep_kind ?f = SK_API_KIND_SYSTEM" by (simp_all add: system_endpoint_def)
  have "find (named n) (all_eps ?s) \<noteq> Some ?f" for n
  proof
    assume "find (named n) (all_eps ?s) = Some ?f"
    then obtain k where k: "all_eps ?s ! k = ?f" "named n ?f" "\<forall>m < k. \<not> named n (all_eps ?s ! m)" "k < length (all_eps ?s)"
      by (auto simp: find_Some_iff)
    have "named n (all_eps ?s ! (5 + i))"
      using k(2) e(1) l prefix_name [OF pre, of u d u' d'] by (simp add: all_eps_def nth_append named_def) (simp add: system_endpoint_def)
    then have "k \<le> 5 + i" using k(3) by (metis not_le_imp_less)
    show False
    proof (cases "k < 5")
      case True
      then have "?f \<in> set (user_eps ?s)" using k(1) l nth_mem [of k "user_eps ?s"] by (simp add: all_eps_def nth_append)
      then have "user_ok ?f" using ok by (auto simp: api_ok_def list_all_iff)
      then show ?thesis using f by (auto simp: user_ok_def api_enums)
    next
      case False
      then have "system_eps ?s ! (k - 5) = ?f" using k(1) l by (simp add: all_eps_def nth_append)
      moreover have "k - 5 < j" using \<open>k \<le> 5 + i\<close> ij by simp
      ultimately show ?thesis using first [of "k - 5"] f by simp
    qed
  qed
  then show ?thesis
    by (auto simp: sk_api_send_def with_memory_def find_any_eq worker_publish_result_def split: option.split prod.split)
qed


section \<open>A device\<close>

definition toy_peer :: "u8 list" where "toy_peer = [1, 2, 3, 4] @ replicate 12 9"

definition toy_bond_auth :: "nvs_map auth" where
  "toy_bond_auth = (auth_static (\<lambda>_. None))\<lparr>bslots := empty_bond\<lparr>occupied := True, peer_id := toy_peer, bond_key := replicate 32 7\<rparr> #
     replicate 7 empty_bond, active_slot := 0\<rparr>"

definition toy_url :: string where "toy_url = ''http://192.168.1.10:5000/api/events/incoming''"

definition toy_hook :: endpoint where
  "toy_hook = ep_zero\<lparr>ep_name := ''hook'', ep_url := ''https://example.org/x'', ep_ct := DEFAULT_CT, ep_used := True\<rparr>"

definition toy_api :: "nvs_map api" where
  "toy_api = (api_static (\<lambda>_. None))\<lparr>user_eps := toy_hook # replicate 4 ep_zero,
     system_eps := system_endpoint toy_peer toy_url 0 # replicate 7 ep_zero\<rparr>"

definition toy_world :: "(nvs_map, unit) api_world" where
  "toy_world = \<lparr> aw_api = (\<lambda>w. toy_api), aw_auth = (\<lambda>w. toy_bond_auth), aw_nvs = nvs_map_ops, aw_id = ''LS-01'', aw_online = (\<lambda>w. True),
     aw_unix = (\<lambda>w. 1800000000), aw_up_us = (\<lambda>w. 0), aw_random = (\<lambda>k w. (replicate k 5, w)), aw_got = (\<lambda>w. (True, w)),
     aw_init = (\<lambda>w. (True, w)), aw_perform = (\<lambda>rq w. ((HTTP_OK, 200), w)), aw_wait = (\<lambda>ms w. w),
     aw_hmac = (\<lambda>k m. Some (replicate 32 (of_nat (length m)))), aw_b64 = (\<lambda>cap s. None) \<rparr>"

definition toy_line :: "(string \<times> json) list \<Rightarrow> cli_ctx" where
  "toy_line args = \<lparr> is_machine_mode = True, command_name = [], confirm_token = None, authenticated = True,
     machine_args = Some (JObj args), machine_id = 1, human_argv = [] \<rparr>"

lemma toy_undisturbed: "undisturbed toy_world" "memory_left toy_world"
  by (simp_all add: undisturbed_def memory_left_def toy_world_def same_world_def)

lemma toy_system_ok: "system_ok (system_endpoint toy_peer toy_url d)"
  by (rule system_endpoint_ok) (simp_all add: toy_peer_def toy_url_def)

lemma toy_hook_ok: "user_ok toy_hook"
  by (simp add: user_ok_def toy_hook_def fits_def ep_zero_def api_limits api_enums DEFAULT_CT_def)

lemma toy_api_ok: "api_ok toy_api"
  using toy_system_ok toy_hook_ok by (simp add: api_ok_def toy_api_def list_all_iff)

lemma toy_names: "names_distinct toy_api"
  by (simp add: names_distinct_def all_eps_def toy_api_def toy_hook_def system_endpoint_def ep_zero_def snprintf_def api_limits)

lemma toy_due: "due SK_API_TRIGCLASS_TRIGGER toy_api = [toy_hook, system_endpoint toy_peer toy_url 0]"
  by (simp add: due_def toy_api_def trigclass_matches_def toy_hook_def system_endpoint_def ep_zero_def api_enums)

lemma toy_peers_ok: "peers_ok toy_bond_auth"
  by (simp add: peers_ok_def toy_bond_auth_def toy_peer_def empty_bond_def list_all_iff)

section \<open>The properties there\<close>

definition toy_events :: "nvs_map api_event list" where
  "toy_events = [ApiBonds toy_bond_auth,
     ApiCmd ''api.system.add'' (toy_line [(''url'', JStr toy_url)]) 0 True (\<lambda>_. True), ApiPowerCycle,
     ApiCmd ''api.off'' (toy_line []) 0 True (\<lambda>_. True)]"

theorem webhooks_survive_power_loss_witness:
  "let s = dv_api (foldl (api_step nvs_map_ops) (api_boot nvs_map_ops (\<lambda>_. None) toy_bond_auth []) toy_events) in
     system_eps (sk_api_init nvs_map_ops (api_static (api_flash s))) = system_eps s \<and> list_all system_ok (system_eps s)"
  using webhooks_survive_power_loss [OF nvs_map_lawful, of "\<lambda>_. None" toy_bond_auth toy_events "[]"] toy_peers_ok
  by (simp add: toy_events_def nvs_map_ops_def Let_def)

theorem paired_app_reaches_own_slot_only_witness:
  "system_eps (dv_api (fst (api_answer nvs_map_ops ''api.system.remove'' (toy_line []\<lparr>authenticated := False\<rparr>) 0 True (\<lambda>_. True)
     \<lparr> dv_api = toy_api, dv_auth = toy_bond_auth, dv_slots = [] \<rparr>))) ! 0 = system_endpoint toy_peer toy_url 0"
  using paired_app_reaches_own_slot_only [of "''api.system.remove''" 0 "\<lparr> dv_api = toy_api, dv_auth = toy_bond_auth, dv_slots = [] \<rparr>"
      "toy_line []\<lparr>authenticated := False\<rparr>" nvs_map_ops 0 True "\<lambda>_. True"]
  by (simp add: toy_api_def resolve_caller_peer_id_def system_endpoint_def)

theorem countdown_fires_due_webhooks_witness:
  "\<exists>job w1. api_on toy_world (Publish ''timer.triggered'' None) () = ([ApiChain job], w1) \<and>
     fst (chain_runner toy_world job ()) = map (worker_of (event_body toy_world ''timer.triggered'' None))
       [toy_hook, system_endpoint toy_peer toy_url 0] @ [finished_event 2 SK_API_TRIGCLASS_TRIGGER]"
proof -
  have w: "aw_api toy_world () = toy_api" "aw_online toy_world ()" "aw_nvs toy_world = nvs_map_ops" by (simp_all add: toy_world_def)
  have on: "sk_api_is_enabled_all nvs_map_ops toy_api"
    by (simp add: sk_api_is_enabled_all_def nvs_map_ops_def get_u8_def toy_api_def api_static_def)
  have c: "event_class ''timer.triggered'' = Some SK_API_TRIGCLASS_TRIGGER" by (simp add: event_class_def)
  have n: "names_distinct (aw_api toy_world ())" "api_ok (aw_api toy_world ())" by (simp_all add: w(1) toy_names toy_api_ok)
  have 2: "length [toy_hook, system_endpoint toy_peer toy_url 0] = 2" by simp
  have "sk_api_is_enabled_all (aw_nvs toy_world) (aw_api toy_world ()) \<and> due SK_API_TRIGCLASS_TRIGGER (aw_api toy_world ()) \<noteq> []"
    by (simp add: w on toy_due)
  then obtain job w1 where "api_on toy_world (Publish ''timer.triggered'' None) () = ([ApiChain job], w1)"
    "\<forall>w2. same_world toy_world () w2 \<longrightarrow> fst (chain_runner toy_world job w2) =
      map (worker_of (event_body toy_world ''timer.triggered'' None)) (due SK_API_TRIGCLASS_TRIGGER (aw_api toy_world ())) @
      [finished_event (length (due SK_API_TRIGCLASS_TRIGGER (aw_api toy_world ()))) SK_API_TRIGCLASS_TRIGGER]"
    using countdown_fires_due_webhooks [OF toy_undisturbed w(2) n(2) n(1) c, of None] by (simp only: if_True) metis
  then show ?thesis unfolding w(1) toy_due 2 by (metis same_world_refl)
qed



theorem template_reads_event_and_nested_fields_witness:
  "token_value (event_body toy_world ''timer.alarm'' (Some (''{'' @ jk ''index'' @ dec_nat 2 @ '','' @ jk ''of'' @ dec_nat 3 @ [] @ ''}''))) ''index'' = Some (dec_nat 2)"
proof -
  have d: "length (dec_nat 2) \<le> 1" "length (dec_nat 3) \<le> 1" using length_dec_nat [of 2 0] length_dec_nat [of 3 0] by simp_all
  have "plain_id (aw_id toy_world)" by (simp add: toy_world_def plain_id_def)
  moreover have "length (full_body toy_world ''timer.alarm'' (''{'' @ jk ''index'' @ dec_nat 2 @ '','' @ jk ''of'' @ dec_nat 3 @ [] @ ''}'')) < 256"
    using d by (simp add: full_body_def toy_world_def jk_def jq_def q_def)
  ultimately show ?thesis using template_reads_event_and_nested_fields [OF _ _ refl, of toy_world 2 3 "[]"] by blast
qed

theorem endpoint_list_complete_witness:
  "snd (cmd_api_endpoint_list True (\<lambda>_. True) (toy_line []) \<lparr> dv_api = toy_api, dv_auth = toy_bond_auth, dv_slots = [] \<rparr>) = CliOk (Some (''['' @
    comma_join (row_texts (\<lambda>_. True) (used_slots (user_eps toy_api) @ used_slots (system_eps toy_api))) @ '']''))"
  using endpoint_list_complete [of "\<lparr> dv_api = toy_api, dv_auth = toy_bond_auth, dv_slots = [] \<rparr>" "\<lambda>_. True"] toy_api_ok by simp

definition toy_four :: "nvs_map api" where
  "toy_four = toy_api\<lparr>system_eps := replicate 4 (system_endpoint toy_peer toy_url 0) @ replicate 4 ep_zero\<rparr>"

theorem system_list_cut_with_four_apps_witness:
  "\<exists>whole. snd (cmd_api_system_list True (\<lambda>_. True) (toy_line []) \<lparr> dv_api = toy_four, dv_auth = toy_bond_auth, dv_slots = [] \<rparr>) =
     CliOk (Some (take 1023 whole)) \<and> 1023 < length whole"
proof -
  have ok: "api_ok toy_four" using toy_api_ok toy_system_ok by (simp add: api_ok_def toy_four_def list_all_iff)
  have url: "36 \<le> length (ep_url e)" if "e \<in> set (system_eps toy_four)" "ep_used e" for e
    using that by (auto simp: toy_four_def system_endpoint_def toy_url_def)
  have four: "4 \<le> length (filter ep_used (system_eps toy_four))" by (simp add: toy_four_def system_endpoint_def)
  obtain whole where "snd (cmd_api_system_list True (\<lambda>_. True) (toy_line []) \<lparr> dv_api = toy_four, dv_auth = toy_bond_auth, dv_slots = [] \<rparr>) =
      CliOk (Some (take 1023 whole))" "1023 < length whole"
    using system_list_cut_with_four_apps [of "\<lparr> dv_api = toy_four, dv_auth = toy_bond_auth, dv_slots = [] \<rparr>" "\<lambda>_. True" "toy_line []"] ok four url
    by (simp only: api_dev.select_convs) blast
  then show ?thesis by blast
qed

definition toy_token_dev :: "string \<Rightarrow> nvs_map api_dev" where
  "toy_token_dev t = \<lparr> dv_api = put_user nvs_map_ops 0 (toy_hook\<lparr>ep_token := t\<rparr>) (api_static (\<lambda>_. None)), dv_auth = toy_bond_auth, dv_slots = [] \<rparr>"

theorem stored_tokens_never_shown_witness:
  "api_answers nvs_map_ops (toy_token_dev ''sk-0000-secret-42'') [ApiPowerCycle, ApiCmd ''api.endpoint.list'' (toy_line []) 0 True (\<lambda>_. True)] =
   api_answers nvs_map_ops (toy_token_dev ''sk-0999999942t-42'') [ApiPowerCycle, ApiCmd ''api.endpoint.list'' (toy_line []) 0 True (\<lambda>_. True)]"
proof -
  have z: "api_inv nvs_map_ops (api_static (\<lambda>_. None))" by (rule empty_inv) (simp_all add: nvs_map_ops_def api_static_def api_limits)
  have i: "dev_inv nvs_map_ops (toy_token_dev t)" if t: "length t \<le> 127" for t
  proof -
    have "user_ok (toy_hook\<lparr>ep_token := t\<rparr>)"
      using t by (simp add: user_ok_def toy_hook_def fits_def ep_zero_def api_limits api_enums DEFAULT_CT_def)
    from inv_put_user [OF nvs_map_lawful z _ this, of 0] show ?thesis using toy_peers_ok by (simp add: dev_inv_def toy_token_dev_def)
  qed
  have "api_alike nvs_map_ops (api_static (\<lambda>_. None)) (api_static (\<lambda>_. None))"
    by (simp add: api_alike_def list_all2_conv_all_nth)
  then have "dev_alike nvs_map_ops (toy_token_dev ''sk-0000-secret-42'') (toy_token_dev ''sk-0999999942t-42'')"
    using alike_put(1) [OF nvs_map_lawful] by (simp add: dev_alike_def toy_token_dev_def ep_alike_def tokens_alike_def)
  then show ?thesis by (rule stored_tokens_never_shown [OF nvs_map_lawful]) (simp_all add: i)
qed

definition toy_pair :: "nvs_map api" where
  "toy_pair = toy_api\<lparr>system_eps := [system_endpoint toy_peer toy_url 0, system_endpoint ([1, 2, 3, 4] @ replicate 12 8) toy_url 0] @ replicate 6 ep_zero\<rparr>"

theorem namesake_never_fires_witness:
  "ApiWorker \<lparr> sj_ep = system_endpoint ([1, 2, 3, 4] @ replicate 12 8) toy_url 0, sj_payload = [] \<rparr> \<notin>
     set (fst (snd (sk_api_send (toy_world\<lparr>aw_api := \<lambda>w. toy_pair\<rparr>) ''skapp-01020304'' None ())))"
proof -
  have o: "system_ok (system_endpoint ([1, 2, 3, 4] @ replicate 12 8) toy_url 0)"
    by (rule system_endpoint_ok) (simp_all add: toy_url_def)
  have ok: "api_ok toy_pair" using toy_api_ok toy_system_ok o by (simp add: api_ok_def toy_pair_def list_all_iff)
  have f: "find_system_slot_by_peer ([1, 2, 3, 4] @ replicate 12 8) (system_eps toy_pair) = Some 1"
    by (simp add: find_system_slot_by_peer_def toy_pair_def system_endpoint_def toy_peer_def upt_rec)
  show ?thesis
    using namesake_never_fires [of "toy_world\<lparr>aw_api := \<lambda>w. toy_pair\<rparr>" "()" toy_peer "[1, 2, 3, 4] @ replicate 12 8" 0 1 toy_url 0 toy_url 0 "[]" "''skapp-01020304''" None] ok f
    by (simp add: toy_pair_def toy_peer_def)
qed

end
