(* ===== verification/SkWifi.thy ===== *)
theory SkWifi
  imports LsMailText SkAuthHmac SkLog
begin

text \<open>
  The Wi-Fi component, \<open>sk_wifi.c\<close>: the two slots of credentials in flash, the connect flow with its static address,
  the reaction to the events of the driver (the retries and the change of slot), the scan, the worker tasks and the
  six commands. The ESP-IDF driver is a parameter: what its calls answer in one step is a record \<open>drv\<close>. An operation
  that sleeps is cut at the sleep; the rest of it is an entry of the list of waiting tasks, so that a run is any
  interleaving of the pieces of the tasks, of driver events and of commands.
\<close>

section \<open>Data\<close>

definition SK_WIFI_SSID_MAX :: nat where "SK_WIFI_SSID_MAX = 32"
definition SK_WIFI_PASS_MAX :: nat where "SK_WIFI_PASS_MAX = 64"
definition SK_WIFI_IPCFG_MAX :: nat where "SK_WIFI_IPCFG_MAX = 32"
definition FAILS_BEFORE_SWAP :: int where "FAILS_BEFORE_SWAP = 5"

text \<open>The fields \<open>ssid\<close> and \<open>password\<close> of the driver's \<open>wifi_sta_config_t\<close> have 32 and 64 bytes.\<close>

definition STA_SSID_SIZE :: nat where "STA_SSID_SIZE = 32"
definition STA_PASS_SIZE :: nat where "STA_PASS_SIZE = 64"

definition NVS_WIFI :: string where "NVS_WIFI = ''sk_wifi''"
definition KEY_PRIMARY_SSID :: string where "KEY_PRIMARY_SSID = ''p_ssid''"
definition KEY_PRIMARY_PASS :: string where "KEY_PRIMARY_PASS = ''p_pass''"
definition KEY_PRIMARY_IP :: string where "KEY_PRIMARY_IP = ''p_ip''"
definition KEY_BACKUP_SSID :: string where "KEY_BACKUP_SSID = ''b_ssid''"
definition KEY_BACKUP_PASS :: string where "KEY_BACKUP_PASS = ''b_pass''"
definition KEY_BACKUP_IP :: string where "KEY_BACKUP_IP = ''b_ip''"

record wifi_cred =
  cr_ssid :: string
  cr_password :: string
  cr_static_ip :: string

record wifi_status =
  ws_connected :: bool
  ws_ssid :: string
  ws_ip :: string
  ws_rssi :: int
  ws_static_ip :: bool

record scan_entry =
  se_ssid :: string
  se_rssi :: int
  se_auth :: int

record scan_job =
  sj_id :: int
  sj_machine :: bool

text \<open>What the component does, in order.\<close>

datatype wifi_act =
    WBus eff                                  \<comment> \<open>\<open>sk_event_bus_publish\<close>\<close>
  | WLog sk_log_level string string           \<comment> \<open>\<open>SK_LOG_I\<close>, \<open>SK_LOG_W\<close>, \<open>SK_LOG_E\<close> of tag \<open>wifi\<close>\<close>
  | WStart                                    \<comment> \<open>\<open>esp_wifi_start\<close>\<close>
  | WSetConfig string string                  \<comment> \<open>\<open>esp_wifi_set_config\<close>: network name and password\<close>
  | WConnect                                  \<comment> \<open>\<open>esp_wifi_connect\<close>\<close>
  | WDisconnect                               \<comment> \<open>\<open>esp_wifi_disconnect\<close>\<close>
  | WSetIp u32 u32 u32                        \<comment> \<open>\<open>esp_netif_set_ip_info\<close>: address, mask, gateway\<close>
  | WDhcpStart
  | WDhcpStop
  | WPowerSave                                \<comment> \<open>\<open>esp_wifi_set_ps(WIFI_PS_MAX_MODEM)\<close>\<close>
  | WResumeTimer                              \<comment> \<open>\<open>esp_timer_start_once\<close>, 100 ms\<close>
  | WScan                                     \<comment> \<open>\<open>esp_wifi_scan_start\<close>, blocking\<close>
  | WBook string string                       \<comment> \<open>\<open>sk_capabilities_register_book\<close>\<close>
  | WSubscribe string                         \<comment> \<open>\<open>sk_event_bus_subscribe\<close>\<close>
  | WCli cli_out                              \<comment> \<open>an answer of a handler\<close>
  | WWrite string                             \<comment> \<open>the captured writer of a scan job\<close>
  | WOverrun                                  \<comment> \<open>a write past the end of an array\<close>

text \<open>
  A task between two pieces of its code. The handlers of \<open>wifi.connect\<close> and \<open>wifi.scan\<close> run in the task of
  their transport and take no lock, so each is cut after its test of the busy flag (with the allocation) and after it
  has set the flag, before it creates the worker. The others sleep or wait for their first turn: the connect worker
  before its first and its second pause and inside \<open>sk_wifi_connect_sta\<close>, the event task inside a change of slot, the handler of \<open>wifi.forget\<close>, the start-up
  (with the slot it tries), the scan worker before and after its pause.
\<close>

datatype wifi_task =
    ConnectCalling wifi_cred
  | ConnectSpawning wifi_cred
  | ConnectQueued wifi_cred
  | ConnectParting wifi_cred
  | ConnectSettling wifi_cred
  | SwapSettling wifi_cred
  | ForgetSettling wifi_cred
  | BootSettling nat wifi_cred
  | ScanCalling scan_job
  | ScanSpawning scan_job
  | ScanQueued scan_job
  | ScanSettling scan_job

record 'n wifi =
  wf_ssid :: string
  wf_ip :: string
  wf_rssi :: int
  wf_static_ip :: bool
  wf_ready :: bool
  wf_pinned :: bool
  wf_active_slot :: nat
  wf_fails :: int
  wf_bits :: "(bool \<times> bool) option"   \<comment> \<open>the event group: \<open>BIT_CONNECTED\<close> and \<open>BIT_FAIL\<close>\<close>
  wf_netif :: bool
  wf_timer :: bool
  wf_scan_active :: bool
  wf_worker_active :: bool
  wf_confirm :: "confirm_slot list"
  wf_flash :: 'n
  wf_tasks :: "wifi_task list"
  wf_out :: "wifi_act list"

definition wifi_static :: "'n \<Rightarrow> 'n wifi" where
  "wifi_static n = \<lparr> wf_ssid = [], wf_ip = ''0.0.0.0'', wf_rssi = 0, wf_static_ip = False, wf_ready = False,
     wf_pinned = False, wf_active_slot = 0, wf_fails = 0, wf_bits = None, wf_netif = False, wf_timer = False,
     wf_scan_active = False, wf_worker_active = False, wf_confirm = confirm_static, wf_flash = n, wf_tasks = [],
     wf_out = [] \<rparr>"

text \<open>
  The answers of ESP-IDF and of the allocator in one step. \<open>stack_cred\<close> is what the uninitialised local of
  \<open>connect_slot\<close> and of the two tests for a saved slot holds; \<open>dr_ssid_end\<close> and \<open>dr_ip_end\<close> are what is read behind a
  string that \<open>strncpy\<close> left without its terminating zero in the uninitialised status of a caller.
\<close>

datatype drv_err = DrvErr esp_err | ESP_ERR_WIFI_CONN

record drv =
  dr_set_config :: "string \<Rightarrow> string \<Rightarrow> esp_err"
  dr_set_ip :: esp_err
  dr_connect :: drv_err
  dr_disconnect :: esp_err
  dr_ap_info :: "int option"
  dr_scan_start :: esp_err
  dr_scan_records :: "esp_err \<times> scan_entry list"
  dr_mem_job :: bool
  dr_task_ok :: bool
  dr_mem_list :: bool
  dr_mem_recs :: bool
  dr_mem_dyn :: bool
  dr_mem_buf :: bool
  dr_timer :: bool
  dr_netif :: bool
  stack_cred :: wifi_cred
  dr_ssid_end :: string
  dr_ip_end :: string

datatype drv_event = StaStart | StaConnected | StaDisconnected "int option" | GotIp u8 u8 u8 u8 | OtherEvent

definition emit_w :: "wifi_act \<Rightarrow> 'n wifi \<Rightarrow> 'n wifi" where
  "emit_w a w = w\<lparr>wf_out := wf_out w @ [a]\<rparr>"

definition slot_name :: "nat \<Rightarrow> string" where
  "slot_name s = (if s = 1 then ''primary'' else if s = 2 then ''backup'' else ''none'')"

definition publish_state :: "string \<Rightarrow> 'n wifi \<Rightarrow> 'n wifi" where
  "publish_state state w = emit_w (WBus (Publish ''wifi.state'' (Some (snprintf 192
     (''{'' @ jk ''state'' @ jq state @ '','' @ jk ''ssid'' @ jq (wf_ssid w) @ '','' @ jk ''ip'' @ jq (wf_ip w) @ '','' @
      jk ''rssi'' @ dec_int (wf_rssi w) @ '','' @ jk ''static'' @ jbool (wf_static_ip w) @ '','' @
      jk ''slot'' @ jq (slot_name (wf_active_slot w)) @ ''}''))))) w"

definition resume_ble_after_wifi_cb :: "'n wifi \<Rightarrow> 'n wifi" where
  "resume_ble_after_wifi_cb w = emit_w (WBus (Publish ''ble.resume.after-wifi'' None)) w"

section \<open>Credentials in flash\<close>

definition save_cred :: "'n nvs_ops \<Rightarrow> string \<Rightarrow> string \<Rightarrow> string \<Rightarrow> wifi_cred \<Rightarrow> 'n \<Rightarrow> esp_err \<times> 'n" where
  "save_cred N ks kp ki c n =
     (let e = nv_open_rw N n NVS_WIFI in
      if e \<noteq> ESP_OK then (e, n)
      else
        (let n = nv_put N NVS_WIFI ks (NvStr (cr_ssid c)) n;
             n = nv_put N NVS_WIFI kp (NvStr (cr_password c)) n;
             n = nv_put N NVS_WIFI ki (NvStr (cr_static_ip c)) n
         in (ESP_OK, nv_commit N n NVS_WIFI)))"

text \<open>The buffer before the call is an argument; a string that is missing or too long leaves its field alone.\<close>

definition load_cred :: "'n nvs_ops \<Rightarrow> string \<Rightarrow> string \<Rightarrow> string \<Rightarrow> 'n \<Rightarrow> wifi_cred \<Rightarrow> bool \<times> wifi_cred" where
  "load_cred N ks kp ki n c =
     (if nv_open_ro N n NVS_WIFI \<noteq> ESP_OK then (False, c)
      else (case get_str N n NVS_WIFI ks of
          None \<Rightarrow> (False, c)
        | Some s \<Rightarrow>
            (if length s > SK_WIFI_SSID_MAX then (False, c)
             else
               (let c = c\<lparr>cr_ssid := s,
                    cr_password := load_str N n NVS_WIFI kp SK_WIFI_PASS_MAX (cr_password c),
                    cr_static_ip := load_str N n NVS_WIFI ki SK_WIFI_IPCFG_MAX (cr_static_ip c)\<rparr>
                in (s \<noteq> [], c)))))"

definition clear_cred :: "'n nvs_ops \<Rightarrow> string \<Rightarrow> string \<Rightarrow> string \<Rightarrow> 'n \<Rightarrow> esp_err \<times> 'n" where
  "clear_cred N ks kp ki n =
     (if nv_open_rw N n NVS_WIFI \<noteq> ESP_OK then (ESP_ERR_NOT_FOUND, n)
      else
        (let n = snd (nv_erase_key N n NVS_WIFI ks);
             n = snd (nv_erase_key N n NVS_WIFI kp);
             n = snd (nv_erase_key N n NVS_WIFI ki)
         in (ESP_OK, nv_commit N n NVS_WIFI)))"

definition load_primary :: "'n nvs_ops \<Rightarrow> 'n \<Rightarrow> wifi_cred \<Rightarrow> bool \<times> wifi_cred" where
  "load_primary N = load_cred N KEY_PRIMARY_SSID KEY_PRIMARY_PASS KEY_PRIMARY_IP"

definition load_backup :: "'n nvs_ops \<Rightarrow> 'n \<Rightarrow> wifi_cred \<Rightarrow> bool \<times> wifi_cred" where
  "load_backup N = load_cred N KEY_BACKUP_SSID KEY_BACKUP_PASS KEY_BACKUP_IP"

definition sk_wifi_has_primary :: "'n nvs_ops \<Rightarrow> drv \<Rightarrow> 'n \<Rightarrow> bool" where
  "sk_wifi_has_primary N d n = fst (load_primary N n (stack_cred d))"

definition sk_wifi_has_backup :: "'n nvs_ops \<Rightarrow> drv \<Rightarrow> 'n \<Rightarrow> bool" where
  "sk_wifi_has_backup N d n = fst (load_backup N n (stack_cred d))"

definition sk_wifi_save_primary :: "'n nvs_ops \<Rightarrow> wifi_cred \<Rightarrow> 'n wifi \<Rightarrow> 'n wifi" where
  "sk_wifi_save_primary N c w =
     w\<lparr>wf_flash := snd (save_cred N KEY_PRIMARY_SSID KEY_PRIMARY_PASS KEY_PRIMARY_IP c (wf_flash w))\<rparr>"

definition sk_wifi_save_backup :: "'n nvs_ops \<Rightarrow> wifi_cred \<Rightarrow> 'n wifi \<Rightarrow> 'n wifi" where
  "sk_wifi_save_backup N c w =
     w\<lparr>wf_flash := snd (save_cred N KEY_BACKUP_SSID KEY_BACKUP_PASS KEY_BACKUP_IP c (wf_flash w))\<rparr>"

definition sk_wifi_clear_primary :: "'n nvs_ops \<Rightarrow> 'n wifi \<Rightarrow> 'n wifi" where
  "sk_wifi_clear_primary N w =
     w\<lparr>wf_flash := snd (clear_cred N KEY_PRIMARY_SSID KEY_PRIMARY_PASS KEY_PRIMARY_IP (wf_flash w))\<rparr>"

definition sk_wifi_clear_backup :: "'n nvs_ops \<Rightarrow> 'n wifi \<Rightarrow> 'n wifi" where
  "sk_wifi_clear_backup N w =
     w\<lparr>wf_flash := snd (clear_cred N KEY_BACKUP_SSID KEY_BACKUP_PASS KEY_BACKUP_IP (wf_flash w))\<rparr>"

section \<open>Static address\<close>

text \<open>
  The conversions of \<open>sscanf(spec, "%d.%d.%d.%d/%d", ...)\<close>: a number with white space and sign before it, then
  the very next character must be the separator. The list holds the values that were assigned.
\<close>

definition scan_int :: "string \<Rightarrow> (int \<times> string) option" where
  "scan_int s = (let t = dropWhile is_space s;
       (neg, u) = (case t of [] \<Rightarrow> (False, t)
         | c # cs \<Rightarrow> if c = CHR ''-'' then (True, cs) else if c = CHR ''+'' then (False, cs) else (False, t));
       ds = takeWhile is_digit u
     in if ds = [] then None
        else Some (clamp_long (if neg then - int (digits_value 0 ds) else int (digits_value 0 ds)), dropWhile is_digit u))"

fun scan_ints :: "string \<Rightarrow> string \<Rightarrow> int list" where
  "scan_ints [] s = (case scan_int s of None \<Rightarrow> [] | Some (v, r) \<Rightarrow> [v])"
| "scan_ints (c # seps) s = (case scan_int s of None \<Rightarrow> []
     | Some (v, []) \<Rightarrow> [v]
     | Some (v, x # r) \<Rightarrow> v # (if x = c then scan_ints seps r else []))"

record ip_info =
  ii_ip :: u32
  ii_netmask :: u32
  ii_gw :: u32

definition octet_ok :: "int \<Rightarrow> bool" where
  "octet_ok a = (\<not> (a < 0 \<or> a > 255))"

definition address_info :: "int \<Rightarrow> int \<Rightarrow> int \<Rightarrow> int \<Rightarrow> int \<Rightarrow> ip_info" where
  "address_info a b c d prefix =
     (let ip = push_bit 24 (to_u32 a) OR push_bit 16 (to_u32 b) OR push_bit 8 (to_u32 c) OR to_u32 d;
          mask = (if prefix = 32 then 0xFFFFFFFF else NOT (push_bit (nat (32 - prefix)) 1 - 1));
          net = ip AND mask
      in \<lparr> ii_ip = ip, ii_netmask = mask, ii_gw = net OR 1 \<rparr>)"

definition parse_static_ip :: "string \<Rightarrow> ip_info option" where
  "parse_static_ip spec =
     (if spec = [] then None
      else
        (let checked = (\<lambda>a b c d prefix.
               if \<not> octet_ok a \<or> \<not> octet_ok b \<or> \<not> octet_ok c \<or> \<not> octet_ok d then None
               else if prefix < 1 \<or> prefix > 32 then None
               else Some (address_info a b c d prefix))
         in case scan_ints ''.../'' spec of
              [a, b, c, d] \<Rightarrow> checked a b c d 24
            | [a, b, c, d, prefix] \<Rightarrow> checked a b c d prefix
            | _ \<Rightarrow> None))"

section \<open>Connecting\<close>

text \<open>\<open>sk_wifi_connect_sta\<close> up to its pause of 50 ms, and after it.\<close>

definition connect_begin :: "'n wifi \<Rightarrow> 'n wifi" where
  "connect_begin w = emit_w WDisconnect (w\<lparr>wf_pinned := True\<rparr>)"

definition apply_static_ip :: "drv \<Rightarrow> wifi_cred \<Rightarrow> 'n wifi \<Rightarrow> 'n wifi" where
  "apply_static_ip d c w =
     (let w = w\<lparr>wf_static_ip := False\<rparr> in
      if cr_static_ip c \<noteq> [] \<and> wf_netif w then
        (case parse_static_ip (cr_static_ip c) of
           Some i \<Rightarrow>
             (let w = emit_w (WSetIp (ii_ip i) (ii_netmask i) (ii_gw i)) (emit_w WDhcpStop w) in
              if dr_set_ip d = ESP_OK then w\<lparr>wf_static_ip := True\<rparr> else w)
         | None \<Rightarrow> emit_w WDhcpStart w)
      else if wf_netif w then emit_w WDhcpStart w
      else w)"

definition clear_bits :: "'n wifi \<Rightarrow> 'n wifi" where
  "clear_bits w = w\<lparr>wf_bits := map_option (\<lambda>b. (False, False)) (wf_bits w)\<rparr>"

definition connect_finish :: "drv \<Rightarrow> wifi_cred \<Rightarrow> 'n wifi \<Rightarrow> drv_err \<times> 'n wifi" where
  "connect_finish d c w =
     (let s = take (STA_SSID_SIZE - 1) (cr_ssid c); p = take (STA_PASS_SIZE - 1) (cr_password c);
          w = emit_w (WSetConfig s p) w
      in if dr_set_config d s p \<noteq> ESP_OK then (DrvErr (dr_set_config d s p), w\<lparr>wf_pinned := False\<rparr>)
         else
           (let w = apply_static_ip d c w;
                w = w\<lparr>wf_ssid := take SK_WIFI_SSID_MAX (cr_ssid c), wf_pinned := False\<rparr>;
                w = publish_state ''connecting'' (clear_bits w);
                w = emit_w WConnect w
            in if dr_connect d \<noteq> DrvErr ESP_OK \<and> dr_connect d \<noteq> ESP_ERR_WIFI_CONN then (dr_connect d, w)
               else (DrvErr ESP_OK, w)))"

definition sk_wifi_disconnect :: "'n wifi \<Rightarrow> 'n wifi" where
  "sk_wifi_disconnect w = emit_w WDisconnect (w\<lparr>wf_pinned := True, wf_active_slot := 0, wf_fails := 0\<rparr>)"

text \<open>
  \<open>connect_slot\<close> up to the pause: the credentials it connects with, or \<open>None\<close> for an empty slot
  (\<open>ESP_ERR_NOT_FOUND\<close>).
\<close>

definition load_slot :: "'n nvs_ops \<Rightarrow> drv \<Rightarrow> nat \<Rightarrow> 'n \<Rightarrow> bool \<times> wifi_cred" where
  "load_slot N d slot n =
     (if slot = 1 then load_primary N n (stack_cred d)
      else if slot = 2 then load_backup N n (stack_cred d)
      else (False, stack_cred d))"

definition connect_slot_begin :: "'n nvs_ops \<Rightarrow> drv \<Rightarrow> nat \<Rightarrow> 'n wifi \<Rightarrow> wifi_cred option \<times> 'n wifi" where
  "connect_slot_begin N d slot w =
     (case load_slot N d slot (wf_flash w) of (found, c) \<Rightarrow>
        if \<not> found then (None, w) else (Some c, connect_begin (w\<lparr>wf_active_slot := slot\<rparr>)))"

definition park :: "wifi_task \<Rightarrow> 'n wifi \<Rightarrow> 'n wifi" where
  "park t w = w\<lparr>wf_tasks := wf_tasks w @ [t]\<rparr>"

text \<open>\<open>sk_wifi_auto_connect\<close> from a slot on: the first slot with credentials is tried.\<close>

definition auto_connect_from :: "'n nvs_ops \<Rightarrow> drv \<Rightarrow> nat \<Rightarrow> 'n wifi \<Rightarrow> 'n wifi" where
  "auto_connect_from N d slot w =
     (let backup = (\<lambda>w. case connect_slot_begin N d 2 w of (None, w) \<Rightarrow> w | (Some c, w) \<Rightarrow> park (BootSettling 2 c) w) in
      if slot = 1 then
        (case connect_slot_begin N d 1 w of (None, w) \<Rightarrow> backup w | (Some c, w) \<Rightarrow> park (BootSettling 1 c) w)
      else backup w)"

section \<open>Events of the driver\<close>

definition set_bit_connected :: "'n wifi \<Rightarrow> 'n wifi" where
  "set_bit_connected w = w\<lparr>wf_bits := map_option (\<lambda>b. (True, snd b)) (wf_bits w)\<rparr>"

definition set_bit_fail :: "'n wifi \<Rightarrow> 'n wifi" where
  "set_bit_fail w = w\<lparr>wf_bits := map_option (\<lambda>b. (fst b, True)) (wf_bits w)\<rparr>"

definition connect_fail_log :: "int \<Rightarrow> 'n wifi \<Rightarrow> wifi_act" where
  "connect_fail_log rsn w = WLog SK_LOG_ERROR ''connect.fail''
     (''ssid='' @ wf_ssid w @ '' reason='' @ dec_int rsn @ '' attempts='' @ dec_int (wf_fails w))"

definition other_slot :: "nat \<Rightarrow> nat" where
  "other_slot s = (if s = 1 then 2 else if s = 2 then 1 else 0)"

definition on_disconnected :: "'n nvs_ops \<Rightarrow> drv \<Rightarrow> int option \<Rightarrow> 'n wifi \<Rightarrow> 'n wifi" where
  "on_disconnected N d info w =
     (let rsn = (case info of None \<Rightarrow> 0 | Some r \<Rightarrow> r);
          w = publish_state ''disconnected'' (set_bit_fail (w\<lparr>wf_ip := ''0.0.0.0'', wf_rssi := 0\<rparr>));
          w = emit_w (WLog SK_LOG_WARN ''disconnect''
                (''ssid='' @ wf_ssid w @ '' reason='' @ dec_int rsn @ '' retries='' @ dec_int (wf_fails w))) w
      in if wf_pinned w then w
         else if wf_ssid w = [] then w
         else
           (let w = w\<lparr>wf_fails := wf_fails w + 1\<rparr>; other = other_slot (wf_active_slot w) in
            if wf_fails w \<ge> FAILS_BEFORE_SWAP \<and> other \<noteq> 0 then
              (let w = emit_w (connect_fail_log rsn w) w in
               case connect_slot_begin N d other w of
                 (Some c, w) \<Rightarrow> park (SwapSettling c) w
               | (None, w) \<Rightarrow> emit_w WConnect w)
            else if wf_fails w \<ge> FAILS_BEFORE_SWAP then emit_w WConnect (emit_w (connect_fail_log rsn w) w)
            else emit_w WConnect w))"

definition dotted :: "u8 \<Rightarrow> u8 \<Rightarrow> u8 \<Rightarrow> u8 \<Rightarrow> string" where
  "dotted a b c d = dec_nat (unat a) @ ''.'' @ dec_nat (unat b) @ ''.'' @ dec_nat (unat c) @ ''.'' @ dec_nat (unat d)"

definition on_got_ip :: "string \<Rightarrow> 'n wifi \<Rightarrow> 'n wifi" where
  "on_got_ip ip w =
     (let w = set_bit_connected (w\<lparr>wf_ip := snprintf 16 ip\<rparr>);
          w = w\<lparr>wf_fails := 0\<rparr>;
          w = (if wf_timer w then emit_w WResumeTimer w else w);
          w = publish_state ''connected'' (emit_w WPowerSave w);
          w = emit_w (WBus (Publish ''wifi.ip.acquired'' (Some (snprintf 64 (''{'' @ jk ''ip'' @ jq (wf_ip w) @ ''}''))))) w
      in emit_w (WLog SK_LOG_INFO ''ip.acquired'' (''ip='' @ wf_ip w)) w)"

primrec wifi_event_cb :: "'n nvs_ops \<Rightarrow> drv \<Rightarrow> drv_event \<Rightarrow> 'n wifi \<Rightarrow> 'n wifi" where
  "wifi_event_cb N d StaStart w = (if wf_ssid w \<noteq> [] then emit_w WConnect w else w)"
| "wifi_event_cb N d StaConnected w =
     (let (rssi, w) = (case dr_ap_info d of None \<Rightarrow> (0, w) | Some r \<Rightarrow> (r, w\<lparr>wf_rssi := r\<rparr>)) in
      emit_w (WLog SK_LOG_INFO ''connect''
        (''ssid='' @ wf_ssid w @ '' rssi='' @ dec_int rssi @ '' slot='' @ slot_name (wf_active_slot w))) w)"
| "wifi_event_cb N d (StaDisconnected info) w = on_disconnected N d info w"
| "wifi_event_cb N d (GotIp a b c e) w = on_got_ip (dotted a b c e) w"
| "wifi_event_cb N d OtherEvent w = w"

end
