(* ===== verification/SkWifiCommands.thy ===== *)
theory SkWifiCommands
  imports SkWifi
begin

text \<open>
  The rest of \<open>sk_wifi.c\<close>: the status, the scan with its sort and its worker, the connect worker, the six commands,
  the start-up and the factory reset, and \<open>wifi_do\<close>, one scheduling decision: a driver event, the next piece of a
  waiting task, a command, the timer, a factory reset or a power cycle.
\<close>

section \<open>Status\<close>

text \<open>\<open>strncpy(dst, s, m)\<close> into an array of \<open>m + 1\<close> bytes that was not cleared.\<close>

definition unterminated :: "nat \<Rightarrow> string \<Rightarrow> string \<Rightarrow> string" where
  "unterminated m rest s = take m s @ (if length s \<ge> m then rest else [])"

definition sk_wifi_status :: "drv \<Rightarrow> 'n wifi \<Rightarrow> wifi_status \<times> 'n wifi" where
  "sk_wifi_status d w =
     (case wf_bits w of
        None \<Rightarrow> (\<lparr> ws_connected = False, ws_ssid = [], ws_ip = ''0.0.0.0'', ws_rssi = 0, ws_static_ip = False \<rparr>, w)
      | Some (conn, fail) \<Rightarrow>
          (let w = (case dr_ap_info d of None \<Rightarrow> w | Some r \<Rightarrow> w\<lparr>wf_rssi := r\<rparr>) in
           (\<lparr> ws_connected = conn, ws_ssid = unterminated SK_WIFI_SSID_MAX (dr_ssid_end d) (wf_ssid w),
              ws_ip = unterminated 15 (dr_ip_end d) (wf_ip w), ws_rssi = wf_rssi w, ws_static_ip = wf_static_ip w \<rparr>, w)))"

definition answer :: "cli_out \<Rightarrow> 'n wifi \<Rightarrow> 'n wifi" where
  "answer x w = emit_w (WCli x) w"

definition cmd_wifi_status :: "'n nvs_ops \<Rightarrow> drv \<Rightarrow> 'n wifi \<Rightarrow> 'n wifi" where
  "cmd_wifi_status N d w =
     (case sk_wifi_status d w of (s, w) \<Rightarrow>
        answer (CliOk (Some (snprintf 256
          (''{'' @ jk ''connected'' @ jbool (ws_connected s) @ '','' @ jk ''ssid'' @ jq (ws_ssid s) @ '','' @
           jk ''ip'' @ jq (ws_ip s) @ '','' @ jk ''rssi'' @ dec_int (ws_rssi s) @ '','' @
           jk ''static_ip'' @ jbool (ws_static_ip s) @ '','' @ jk ''active_slot'' @ jq (slot_name (wf_active_slot w)) @ '','' @
           jk ''has_primary'' @ jbool (sk_wifi_has_primary N d (wf_flash w)) @ '','' @
           jk ''has_backup'' @ jbool (sk_wifi_has_backup N d (wf_flash w)) @ '','' @
           jk ''fails'' @ dec_int (wf_fails w) @ ''}'')))) w)"

section \<open>Scan\<close>

text \<open>
  The insertion sort on the array: \<open>shift_loop xs key j\<close> is the inner loop with \<open>j\<close> the C index plus one, followed
  by the store of the key.
\<close>

primrec shift_loop :: "scan_entry list \<Rightarrow> scan_entry \<Rightarrow> nat \<Rightarrow> scan_entry list" where
  "shift_loop xs key 0 = xs[0 := key]"
| "shift_loop xs key (Suc j) =
     (if se_rssi (xs ! j) < se_rssi key then shift_loop (xs[Suc j := xs ! j]) key j else xs[Suc j := key])"

definition sort_scan_by_rssi_desc :: "scan_entry list \<Rightarrow> nat \<Rightarrow> scan_entry list" where
  "sort_scan_by_rssi_desc xs n = foldl (\<lambda>xs i. shift_loop xs (xs ! i) i) xs [1..<n]"

definition SCAN_MAX :: nat where "SCAN_MAX = 12"

text \<open>\<open>sk_wifi_scan\<close> up to its pause, and after it: \<open>None\<close> for \<open>-1\<close>.\<close>

definition scan_begin :: "'n wifi \<Rightarrow> 'n wifi" where
  "scan_begin w = emit_w WDisconnect (w\<lparr>wf_pinned := True\<rparr>)"

definition scan_finish :: "drv \<Rightarrow> nat \<Rightarrow> 'n wifi \<Rightarrow> scan_entry list option \<times> 'n wifi" where
  "scan_finish d count w =
     (let w = emit_w WScan w in
      if dr_scan_start d \<noteq> ESP_OK then (None, w)
      else if \<not> dr_mem_recs d then (None, w)
      else
        (case dr_scan_records d of (e, recs) \<Rightarrow>
           if e \<noteq> ESP_OK then (None, w)
           else
             (let recs = take count recs;
                  w = (if recs = [] then emit_w (WLog SK_LOG_WARN ''scan.empty'' ''found=0'') w else w);
                  out = map (\<lambda>r. r\<lparr>se_ssid := take SK_WIFI_SSID_MAX (se_ssid r)\<rparr>) recs
              in (Some (sort_scan_by_rssi_desc out (length out)), w))))"

definition scan_row :: "bool \<Rightarrow> scan_entry \<Rightarrow> string" where
  "scan_row fst_row e = (if fst_row then [] else '','') @ ''{'' @ jk ''ssid'' @ jq (se_ssid e) @ '','' @
     jk ''rssi'' @ dec_int (se_rssi e) @ '','' @ jk ''auth'' @ dec_int (se_auth e) @ ''}''"

text \<open>The rows are printed while fewer than 1900 bytes are used.\<close>

primrec scan_rows :: "bool \<Rightarrow> scan_entry list \<Rightarrow> string \<times> nat \<Rightarrow> (string \<times> nat) option" where
  "scan_rows fst_row [] st = Some st"
| "scan_rows fst_row (e # es) st =
     (if snd st < 1900 then
        (case print_piece 2048 st (scan_row fst_row e) of None \<Rightarrow> None | Some st \<Rightarrow> scan_rows False es st)
      else Some st)"

definition scan_head :: "scan_job \<Rightarrow> string" where
  "scan_head j = (if sj_machine j then ''{'' @ jk ''id'' @ dec_int (sj_id j) @ '','' @ jk ''ok'' @ ''true,'' @ jk ''data'' @ ''[''
     else ''ok. ['')"

definition scan_text :: "scan_job \<Rightarrow> scan_entry list \<Rightarrow> (string \<times> nat) option" where
  "scan_text j es =
     (case print_piece 2048 ([], 0) (scan_head j) of None \<Rightarrow> None | Some st \<Rightarrow>
     (case scan_rows True es st of None \<Rightarrow> None | Some st \<Rightarrow>
        print_piece 2048 st (if sj_machine j then '']}\<newline>'' else '']\<newline>'')))"

definition scan_error :: "scan_job \<Rightarrow> int \<Rightarrow> string \<Rightarrow> string \<Rightarrow> string" where
  "scan_error j rid rsn human =
     (if sj_machine j then
        ''{'' @ jk ''id'' @ dec_int rid @ '','' @ jk ''ok'' @ ''false,'' @ jk ''err'' @ jq ''ERR_INTERNAL'' @ '','' @
        jk ''params'' @ ''{'' @ jk ''reason'' @ jq rsn @ ''}}\<newline>''
      else ''error: ERR_INTERNAL '' @ [CHR 0xE2, CHR 0x80, CHR 0x94] @ '' '' @ human @ ''\<newline>'')"

definition scan_done :: "'n wifi \<Rightarrow> 'n wifi" where
  "scan_done w = w\<lparr>wf_scan_active := False\<rparr>"

text \<open>\<open>wifi_scan_worker\<close>: its first piece, then the piece after the pause of \<open>sk_wifi_scan\<close>.\<close>

definition scan_worker_start :: "drv \<Rightarrow> scan_job \<Rightarrow> 'n wifi \<Rightarrow> 'n wifi" where
  "scan_worker_start d j w =
     (if \<not> dr_mem_list d then scan_done (emit_w (WWrite (scan_error j (-1) ''oom'' ''out of memory'')) w)
      else park (ScanSettling j) (scan_begin w))"

definition scan_worker_end :: "drv \<Rightarrow> scan_job \<Rightarrow> 'n wifi \<Rightarrow> 'n wifi" where
  "scan_worker_end d j w =
     (case scan_finish d SCAN_MAX w of
        (None, w) \<Rightarrow> scan_done (emit_w (WWrite (scan_error j (if dr_mem_dyn d then sj_id j else -1)
          ''scan_rejected'' ''scan rejected by wifi driver'')) w)
      | (Some es, w) \<Rightarrow>
          (if \<not> dr_mem_buf d then scan_done (emit_w (WWrite (scan_error j (-1) ''oom'' ''out of memory'')) w)
           else (case scan_text j es of
               None \<Rightarrow> scan_done (emit_w WOverrun w)
             | Some (txt, off) \<Rightarrow> scan_done (emit_w (WWrite txt) w))))"

text \<open>The handler: test of the flag and allocation; setting the flag; creation of the worker.\<close>

definition cmd_wifi_scan :: "drv \<Rightarrow> cli_ctx \<Rightarrow> 'n wifi \<Rightarrow> 'n wifi" where
  "cmd_wifi_scan d ctx w =
     (if wf_scan_active w then answer (CliErr SK_ERR_BUSY (reason ''scan_in_flight'')) w
      else if \<not> dr_mem_job d then answer (CliErr SK_ERR_INTERNAL (reason ''oom'')) w
      else park (ScanCalling \<lparr> sj_id = machine_id ctx, sj_machine = is_machine_mode ctx \<rparr>) w)"

definition scan_mark :: "scan_job \<Rightarrow> 'n wifi \<Rightarrow> 'n wifi" where
  "scan_mark j w = park (ScanSpawning j) (w\<lparr>wf_scan_active := True\<rparr>)"

definition scan_spawn :: "drv \<Rightarrow> scan_job \<Rightarrow> 'n wifi \<Rightarrow> 'n wifi" where
  "scan_spawn d j w =
     (if \<not> dr_task_ok d then answer (CliErr SK_ERR_INTERNAL (reason ''task_spawn'')) (w\<lparr>wf_scan_active := False\<rparr>)
      else park (ScanQueued j) w)"

section \<open>Connect command and its worker\<close>

definition parse_slot_token :: "string \<Rightarrow> int" where
  "parse_slot_token s = (if s = ''primary'' then 0 else if s = ''backup'' then 1 else -1)"

fun ipv4_dots :: "nat \<Rightarrow> string \<Rightarrow> nat option" where
  "ipv4_dots dots [] = Some dots"
| "ipv4_dots dots (c # cs) =
     (if c = CHR ''.'' then ipv4_dots (dots + 1) cs
      else if c = CHR ''/'' then Some dots
      else if \<not> is_digit c then None
      else ipv4_dots dots cs)"

definition looks_like_ipv4 :: "string \<Rightarrow> bool" where
  "looks_like_ipv4 s = (s \<noteq> [] \<and> ipv4_dots 0 s = Some 3)"

definition parse_slot_arg :: "cli_ctx \<Rightarrow> int" where
  "parse_slot_arg ctx = (case sk_cli_arg_named ctx ''slot'' of None \<Rightarrow> 0 | Some s \<Rightarrow> parse_slot_token s)"

text \<open>The loop that gathers at most \<open>room\<close> positional arguments; a flag is skipped with its value.\<close>

fun positional :: "nat \<Rightarrow> string list \<Rightarrow> string list" where
  "positional 0 as = []"
| "positional room [] = []"
| "positional (Suc room) (a # as) =
     (if take 2 a = ''--'' then positional (Suc room) (drop 1 as) else a # positional room as)"

fun trailing :: "string list \<Rightarrow> string option \<times> int \<Rightarrow> string option \<times> int" where
  "trailing [] st = st"
| "trailing (t # ts) (ip, slot) =
     (if ip = None \<and> looks_like_ipv4 t then trailing ts (Some t, slot)
      else trailing ts (ip, if parse_slot_token t \<ge> 0 then parse_slot_token t else slot))"

record connect_args =
  ca_ssid :: "string option"
  ca_password :: "string option"
  ca_static_ip :: "string option"
  ca_slot :: int

definition connect_arguments :: "cli_ctx \<Rightarrow> connect_args" where
  "connect_arguments ctx =
     (let ssid = sk_cli_arg_named ctx ''ssid''; pass = sk_cli_arg_named ctx ''password'';
          ip = sk_cli_arg_named ctx ''static-ip''; slot = parse_slot_arg ctx
      in if ssid = None \<and> human_argv ctx \<noteq> [] then
           (let ps = positional 8 (human_argv ctx); (ip, slot) = trailing (drop 2 ps) (ip, slot) in
            \<lparr> ca_ssid = (if length ps \<ge> 1 then Some (ps ! 0) else ssid),
              ca_password = (if length ps \<ge> 2 then Some (ps ! 1) else pass),
              ca_static_ip = ip, ca_slot = slot \<rparr>)
         else \<lparr> ca_ssid = ssid, ca_password = pass, ca_static_ip = ip, ca_slot = slot \<rparr>)"

definition cut_arg :: "nat \<Rightarrow> string option \<Rightarrow> string" where
  "cut_arg m a = (case a of None \<Rightarrow> [] | Some s \<Rightarrow> take m s)"

text \<open>
  \<open>schedule_wifi_connect\<close> in its three pieces: the test of the flag and the allocation (\<open>None\<close>: it goes on), setting the
  flag, the creation of the worker.
\<close>

definition schedule_wifi_connect :: "drv \<Rightarrow> wifi_cred \<Rightarrow> 'n wifi \<Rightarrow> esp_err option \<times> 'n wifi" where
  "schedule_wifi_connect d c w =
     (if wf_worker_active w then (Some ESP_ERR_INVALID_STATE, w)
      else if \<not> dr_mem_job d then (Some ESP_ERR_NO_MEM, w)
      else (None, park (ConnectCalling c) w))"

definition schedule_mark :: "wifi_cred \<Rightarrow> 'n wifi \<Rightarrow> 'n wifi" where
  "schedule_mark c w = park (ConnectSpawning c) (w\<lparr>wf_worker_active := True\<rparr>)"

definition schedule_spawn :: "drv \<Rightarrow> wifi_cred \<Rightarrow> 'n wifi \<Rightarrow> esp_err \<times> 'n wifi" where
  "schedule_spawn d c w =
     (if \<not> dr_task_ok d then (ESP_ERR_NO_MEM, w\<lparr>wf_worker_active := False\<rparr>)
      else (ESP_OK, park (ConnectQueued c) w))"

definition slot_answer :: "string \<Rightarrow> bool \<Rightarrow> cli_out" where
  "slot_answer slot conn = CliOk (Some (''{'' @ jk ''slot'' @ jq slot @ '','' @ jk ''connecting'' @ jbool conn @ '','' @
     jk ''saved'' @ ''true}''))"

definition wifi_field :: "string \<Rightarrow> string option" where
  "wifi_field f = Some (''{'' @ jk ''field'' @ jq f @ ''}'')"

definition schedule_answer :: "esp_err \<Rightarrow> 'n wifi \<Rightarrow> 'n wifi" where
  "schedule_answer e w =
     (if e = ESP_ERR_INVALID_STATE then answer (CliErr SK_ERR_BUSY (reason ''connect_in_flight'')) w
      else if e \<noteq> ESP_OK then answer (CliErr SK_ERR_INTERNAL (reason ''schedule_failed'')) w
      else answer (slot_answer ''primary'' True) w)"

definition cmd_wifi_connect :: "'n nvs_ops \<Rightarrow> drv \<Rightarrow> cli_ctx \<Rightarrow> 'n wifi \<Rightarrow> 'n wifi" where
  "cmd_wifi_connect N d ctx w =
     (let a = connect_arguments ctx in
      if ca_ssid a = None \<or> ca_ssid a = Some [] then answer (CliErr SK_ERR_MISSING_ARG (wifi_field ''ssid'')) w
      else if ca_slot a < 0 then answer (CliErr SK_ERR_INVALID_ARG (wifi_field ''slot'')) w
      else
        (let c = \<lparr> cr_ssid = cut_arg SK_WIFI_SSID_MAX (ca_ssid a), cr_password = cut_arg SK_WIFI_PASS_MAX (ca_password a),
                   cr_static_ip = cut_arg SK_WIFI_IPCFG_MAX (ca_static_ip a) \<rparr>;
             w = (if ca_slot a = 0 then sk_wifi_save_primary N c w else sk_wifi_save_backup N c w)
         in if ca_slot a \<noteq> 0 then answer (slot_answer ''backup'' False) w
            else
              (case schedule_wifi_connect d c (w\<lparr>wf_active_slot := 1, wf_fails := 0\<rparr>) of
                 (None, w) \<Rightarrow> w
               | (Some e, w) \<Rightarrow> schedule_answer e w)))"

definition cmd_wifi_disconnect :: "'n wifi \<Rightarrow> 'n wifi" where
  "cmd_wifi_disconnect w = answer (CliOk (Some (''{'' @ jk ''disconnected'' @ ''true}''))) (sk_wifi_disconnect w)"

section \<open>Forget and list\<close>

definition forgotten :: "string \<Rightarrow> cli_out" where
  "forgotten slot = CliOk (Some (''{'' @ jk ''forgotten'' @ jq slot @ ''}''))"

definition forgotten_swapped :: cli_out where
  "forgotten_swapped = CliOk (Some (''{'' @ jk ''forgotten'' @ jq ''primary'' @ '','' @ jk ''swapped_to'' @ jq ''backup'' @ ''}''))"

definition forget_slots :: "'n nvs_ops \<Rightarrow> drv \<Rightarrow> cli_ctx \<Rightarrow> 'n wifi \<Rightarrow> 'n wifi" where
  "forget_slots N d ctx w =
     (if sk_cli_arg_named ctx ''slot'' = None then
        answer (forgotten ''all'') (sk_wifi_disconnect (sk_wifi_clear_backup N (sk_wifi_clear_primary N w)))
      else if parse_slot_arg ctx < 0 then answer (CliErr SK_ERR_INVALID_ARG (wifi_field ''slot'')) w
      else if parse_slot_arg ctx = 0 then
        (let w = sk_wifi_clear_primary N w in
         if wf_active_slot w = 1 \<and> sk_wifi_has_backup N d (wf_flash w) then
           (case connect_slot_begin N d 2 w of
              (Some c, w) \<Rightarrow> park (ForgetSettling c) w
            | (None, w) \<Rightarrow> answer forgotten_swapped w)
         else answer (forgotten ''primary'') (sk_wifi_disconnect w))
      else answer (forgotten ''backup'') (sk_wifi_clear_backup N w))"

definition cmd_wifi_forget :: "'n nvs_ops \<Rightarrow> drv \<Rightarrow> int \<Rightarrow> cli_ctx \<Rightarrow> 'n wifi \<Rightarrow> 'n wifi" where
  "cmd_wifi_forget N d now ctx w =
     (case confirm_token ctx of
        None \<Rightarrow> answer (CliErr SK_ERR_CONFIRM_TOKEN_REQUIRED None) w
      | Some tok \<Rightarrow> (case sk_auth_confirm_consume now tok (wf_confirm w) of (e, slots) \<Rightarrow>
          (let w = w\<lparr>wf_confirm := slots\<rparr> in
           if e \<noteq> ESP_OK then answer (CliErr SK_ERR_CONFIRM_TOKEN_INVALID None) w else forget_slots N d ctx w)))"

definition list_row :: "string \<Rightarrow> string \<Rightarrow> wifi_cred \<Rightarrow> bool \<Rightarrow> string" where
  "list_row comma slot c act = comma @ ''{'' @ jk ''slot'' @ jq slot @ '','' @ jk ''ssid'' @ jq (cr_ssid c) @ '','' @
     jk ''static_ip'' @ jq (cr_static_ip c) @ '','' @ jk ''active'' @ jbool act @ ''}''"

definition no_cred :: wifi_cred where
  "no_cred = \<lparr> cr_ssid = [], cr_password = [], cr_static_ip = [] \<rparr>"

definition list_pieces :: "'n nvs_ops \<Rightarrow> 'n wifi \<Rightarrow> string list" where
  "list_pieces N w =
     (case load_primary N (wf_flash w) no_cred of (have_p, p) \<Rightarrow>
     (case load_backup N (wf_flash w) no_cred of (have_b, b) \<Rightarrow>
        [''{'' @ jk ''active'' @ jq (slot_name (wf_active_slot w)) @ '','' @ jk ''slots'' @ ''[''] @
        (if have_p then [list_row [] ''primary'' p (wf_active_slot w = 1)] else []) @
        (if have_b then [list_row (if have_p then '','' else []) ''backup'' b (wf_active_slot w = 2)] else []) @
        ['']}'']))"

definition cmd_wifi_list :: "'n nvs_ops \<Rightarrow> 'n wifi \<Rightarrow> 'n wifi" where
  "cmd_wifi_list N w =
     (case print_pieces 384 ([], 0) (list_pieces N w) of
        None \<Rightarrow> emit_w WOverrun w
      | Some (txt, off) \<Rightarrow> answer (CliOk (Some txt)) w)"

section \<open>Start-up and factory reset\<close>

definition sk_wifi_init :: "'n nvs_ops \<Rightarrow> drv \<Rightarrow> 'n wifi \<Rightarrow> 'n wifi" where
  "sk_wifi_init N d w =
     (if wf_ready w then w
      else
        (let w = w\<lparr>wf_timer := dr_timer d, wf_netif := dr_netif d, wf_bits := Some (False, False)\<rparr>;
             w = emit_w (WBook ''sk_network'' ''0.1.0'') w;
             w = emit_w WStart (emit_w (WSubscribe ''device.factory-reset.requested'') w)
         in auto_connect_from N d 1 (w\<lparr>wf_ready := True\<rparr>)))"

definition wifi_factory_reset :: "'n nvs_ops \<Rightarrow> 'n wifi \<Rightarrow> 'n wifi" where
  "wifi_factory_reset N w = sk_wifi_disconnect (sk_wifi_clear_backup N (sk_wifi_clear_primary N w))"

text \<open>A power cycle keeps the flash and, for the reader, the list of what was done.\<close>

definition wifi_power_cycle :: "'n nvs_ops \<Rightarrow> drv \<Rightarrow> 'n wifi \<Rightarrow> 'n wifi" where
  "wifi_power_cycle N d w = sk_wifi_init N d ((wifi_static (wf_flash w))\<lparr>wf_out := wf_out w\<rparr>)"

section \<open>Runs\<close>

text \<open>The next piece of a task; the connect worker releases its flag at its end.\<close>

primrec run_task :: "'n nvs_ops \<Rightarrow> drv \<Rightarrow> wifi_task \<Rightarrow> 'n wifi \<Rightarrow> 'n wifi" where
  "run_task N d (ConnectCalling c) w = schedule_mark c w"
| "run_task N d (ConnectSpawning c) w = (case schedule_spawn d c w of (e, w) \<Rightarrow> schedule_answer e w)"
| "run_task N d (ScanCalling j) w = scan_mark j w"
| "run_task N d (ScanSpawning j) w = scan_spawn d j w"
| "run_task N d (ConnectQueued c) w = park (ConnectParting c) (emit_w (WBus (Publish ''ble.terminate.before-wifi'' None)) w)"
| "run_task N d (ConnectParting c) w = park (ConnectSettling c) (connect_begin w)"
| "run_task N d (ConnectSettling c) w = (snd (connect_finish d c w))\<lparr>wf_worker_active := False\<rparr>"
| "run_task N d (SwapSettling c) w =
     (case connect_finish d c w of (e, w) \<Rightarrow> if e = DrvErr ESP_OK then w\<lparr>wf_fails := 0\<rparr> else emit_w WConnect w)"
| "run_task N d (ForgetSettling c) w = answer forgotten_swapped (snd (connect_finish d c w))"
| "run_task N d (BootSettling slot c) w =
     (case connect_finish d c w of (e, w) \<Rightarrow>
        if e = DrvErr ESP_OK \<or> slot = 2 then w else auto_connect_from N d 2 w)"
| "run_task N d (ScanQueued j) w = scan_worker_start d j w"
| "run_task N d (ScanSettling j) w = scan_worker_end d j w"

text \<open>The event task handles no event while it sleeps inside a change of slot.\<close>

fun is_swap :: "wifi_task \<Rightarrow> bool" where
  "is_swap (SwapSettling c) = True"
| "is_swap _ = False"

datatype wifi_cmd = CmdStatus | CmdScan | CmdList | CmdConnect | CmdDisconnect | CmdForget

primrec wifi_command :: "'n nvs_ops \<Rightarrow> drv \<Rightarrow> int \<Rightarrow> cli_ctx \<Rightarrow> wifi_cmd \<Rightarrow> 'n wifi \<Rightarrow> 'n wifi" where
  "wifi_command N d now ctx CmdStatus w = cmd_wifi_status N d w"
| "wifi_command N d now ctx CmdScan w = cmd_wifi_scan d ctx w"
| "wifi_command N d now ctx CmdList w = cmd_wifi_list N w"
| "wifi_command N d now ctx CmdConnect w = cmd_wifi_connect N d ctx w"
| "wifi_command N d now ctx CmdDisconnect w = cmd_wifi_disconnect w"
| "wifi_command N d now ctx CmdForget w = cmd_wifi_forget N d now ctx w"

datatype wifi_sched =
    Deliver drv drv_event
  | Resume drv nat
  | Command drv int cli_ctx wifi_cmd
  | BleTimer
  | WifiFactoryReset
  | WifiPowerCycle drv

primrec wifi_do :: "'n nvs_ops \<Rightarrow> 'n wifi \<Rightarrow> wifi_sched \<Rightarrow> 'n wifi" where
  "wifi_do N w (Deliver d ev) = (if \<exists>t \<in> set (wf_tasks w). is_swap t then w else wifi_event_cb N d ev w)"
| "wifi_do N w (Resume d i) =
     (if i < length (wf_tasks w) then
        run_task N d (wf_tasks w ! i) (w\<lparr>wf_tasks := take i (wf_tasks w) @ drop (Suc i) (wf_tasks w)\<rparr>)
      else w)"
| "wifi_do N w (Command d now ctx cmd) = wifi_command N d now ctx cmd w"
| "wifi_do N w BleTimer = resume_ble_after_wifi_cb w"
| "wifi_do N w WifiFactoryReset = wifi_factory_reset N w"
| "wifi_do N w (WifiPowerCycle d) = wifi_power_cycle N d w"

end
