(* ===== verification/SkWifiProps.thy ===== *)
theory SkWifiProps
  imports SkWifiCommands
begin

text \<open>
  What the Wi-Fi component does over runs: a device that was told to disconnect, or that scanned, stays off until
  it is asked to connect; the retries alternate between the two networks; the workers are single-flight; the saved
  network comes back after a power cycle and a factory reset forgets it; what \<open>wifi.status\<close> says after a drop.
\<close>

section \<open>Frames\<close>

lemma emit_w_fields [simp]:
  "wf_ssid (emit_w a w) = wf_ssid w" "wf_ip (emit_w a w) = wf_ip w" "wf_rssi (emit_w a w) = wf_rssi w"
  "wf_static_ip (emit_w a w) = wf_static_ip w" "wf_ready (emit_w a w) = wf_ready w"
  "wf_pinned (emit_w a w) = wf_pinned w" "wf_active_slot (emit_w a w) = wf_active_slot w"
  "wf_fails (emit_w a w) = wf_fails w" "wf_bits (emit_w a w) = wf_bits w" "wf_netif (emit_w a w) = wf_netif w"
  "wf_timer (emit_w a w) = wf_timer w" "wf_scan_active (emit_w a w) = wf_scan_active w"
  "wf_worker_active (emit_w a w) = wf_worker_active w" "wf_confirm (emit_w a w) = wf_confirm w"
  "wf_flash (emit_w a w) = wf_flash w" "wf_tasks (emit_w a w) = wf_tasks w" "wf_out (emit_w a w) = wf_out w @ [a]"
  by (simp_all add: emit_w_def)

lemma park_fields [simp]:
  "wf_ssid (park t w) = wf_ssid w" "wf_ip (park t w) = wf_ip w" "wf_pinned (park t w) = wf_pinned w"
  "wf_active_slot (park t w) = wf_active_slot w" "wf_fails (park t w) = wf_fails w" "wf_bits (park t w) = wf_bits w"
  "wf_scan_active (park t w) = wf_scan_active w" "wf_worker_active (park t w) = wf_worker_active w"
  "wf_flash (park t w) = wf_flash w" "wf_tasks (park t w) = wf_tasks w @ [t]" "wf_out (park t w) = wf_out w"
  by (simp_all add: park_def)

lemmas wifi_pieces = publish_state_def answer_def resume_ble_after_wifi_cb_def set_bit_connected_def set_bit_fail_def
  clear_bits_def scan_done_def connect_begin_def scan_begin_def sk_wifi_disconnect_def

lemmas wifi_saves = sk_wifi_save_primary_def sk_wifi_save_backup_def sk_wifi_clear_primary_def sk_wifi_clear_backup_def

section \<open>Off until asked\<close>

text \<open>The connection requests a run has made.\<close>

definition connects :: "'n wifi \<Rightarrow> nat" where
  "connects w = length (filter (\<lambda>a. a = WConnect) (wf_out w))"

fun is_scan_task :: "wifi_task \<Rightarrow> bool" where
  "is_scan_task (ScanSpawning j) = True"
| "is_scan_task (ScanQueued j) = True"
| "is_scan_task (ScanSettling j) = True"
| "is_scan_task _ = False"

fun is_scan_caller :: "wifi_task \<Rightarrow> bool" where
  "is_scan_caller (ScanCalling j) = True"
| "is_scan_caller _ = False"

text \<open>The tasks that belong to a scan, the handler of its command included: none of them connects.\<close>

definition scans :: "wifi_task \<Rightarrow> bool" where
  "scans t \<longleftrightarrow> is_scan_task t \<or> is_scan_caller t"

lemma scans_simps [simp]:
  "scans (ScanCalling j)" "scans (ScanSpawning j)" "scans (ScanQueued j)" "scans (ScanSettling j)"
  by (simp_all add: scans_def)

text \<open>Nothing is under way that connects, and the event task is told to stay off.\<close>

definition off :: "'n wifi \<Rightarrow> bool" where
  "off w \<longleftrightarrow> wf_pinned w \<and> list_all scans (wf_tasks w)"

text \<open>
  What may connect: the start of the driver, \<open>wifi.connect\<close> for the primary slot, forgetting the primary slot
  alone (the device then moves to the backup), and a restart.
\<close>

primrec asks_to_connect :: "wifi_sched \<Rightarrow> bool" where
  "asks_to_connect (Deliver d ev) = (ev = StaStart)"
| "asks_to_connect (Resume d i) = False"
| "asks_to_connect (Command d now ctx cmd) =
     (cmd = CmdConnect \<and> ca_slot (connect_arguments ctx) = 0 \<or>
      cmd = CmdForget \<and> sk_cli_arg_named ctx ''slot'' = Some ''primary'')"
| "asks_to_connect BleTimer = False"
| "asks_to_connect WifiFactoryReset = False"
| "asks_to_connect (WifiPowerCycle d) = True"

lemma off_event:
  "off w \<Longrightarrow> ev \<noteq> StaStart \<Longrightarrow> off (wifi_event_cb N d ev w) \<and> connects (wifi_event_cb N d ev w) = connects w"
  by (cases ev) (auto simp: off_def connects_def on_disconnected_def on_got_ip_def wifi_pieces Let_def split: option.split)

lemma off_task:
  assumes "off w" "i < length (wf_tasks w)"
  shows "off (wifi_do N w (Resume d i)) \<and> connects (wifi_do N w (Resume d i)) = connects w"
proof -
  have t: "scans (wf_tasks w ! i)" using assms by (simp add: off_def list_all_length)
  have r: "list_all scans (take i (wf_tasks w))" "list_all scans (drop (Suc i) (wf_tasks w))"
    using assms by (auto simp: off_def list_all_iff dest: in_set_takeD in_set_dropD)
  show ?thesis
  proof (cases "wf_tasks w ! i")
    case (ScanQueued j)
    then show ?thesis using assms r
      by (simp add: off_def connects_def scan_worker_start_def wifi_pieces)
  next
    case (ScanSettling j)
    then show ?thesis using assms r
      by (auto simp: off_def connects_def scan_worker_end_def scan_finish_def wifi_pieces Let_def split: prod.split option.split)
  qed (use t assms r in \<open>simp_all add: scans_def off_def connects_def scan_mark_def scan_spawn_def wifi_pieces\<close>)
qed

lemma off_command:
  assumes "off w" "\<not> asks_to_connect (Command d now ctx cmd)"
  shows "off (wifi_command N d now ctx cmd w) \<and> connects (wifi_command N d now ctx cmd w) = connects w"
proof (cases cmd)
  case CmdForget
  have "parse_slot_arg ctx \<noteq> 0 \<or> sk_cli_arg_named ctx ''slot'' = None"
    using assms(2) by (auto simp: CmdForget parse_slot_arg_def parse_slot_token_def split: option.splits if_splits)
  then show ?thesis using assms(1)
    by (auto simp: CmdForget off_def connects_def cmd_wifi_forget_def forget_slots_def wifi_pieces wifi_saves Let_def
        split: option.split prod.split)
next
  case CmdConnect
  then show ?thesis using assms
    by (simp add: off_def connects_def cmd_wifi_connect_def wifi_pieces wifi_saves Let_def)
qed (use assms in \<open>auto simp: off_def connects_def cmd_wifi_status_def sk_wifi_status_def cmd_wifi_scan_def cmd_wifi_list_def
       cmd_wifi_disconnect_def wifi_pieces Let_def split: option.split prod.split\<close>)

lemma off_step:
  "off w \<and> connects w = k \<Longrightarrow> \<not> asks_to_connect e \<Longrightarrow> off (wifi_do N w e) \<and> connects (wifi_do N w e) = k"
proof (cases e)
  case (Resume d i)
  then show "off w \<and> connects w = k \<Longrightarrow> ?thesis" using off_task [of w i N d]
    by (cases "i < length (wf_tasks w)") (auto simp del: wifi_do.simps(2), simp_all)
next
  case (Deliver d ev)
  then show "off w \<and> connects w = k \<Longrightarrow> \<not> asks_to_connect e \<Longrightarrow> ?thesis" using off_event [of w ev N d] by simp
next
  case (Command d now ctx cmd)
  then show "off w \<and> connects w = k \<Longrightarrow> \<not> asks_to_connect e \<Longrightarrow> ?thesis" using off_command [of w d now ctx cmd N] by simp
qed (simp_all add: off_def connects_def wifi_factory_reset_def wifi_pieces wifi_saves)

interpretation wifi_off: stepping "wifi_do N" "\<lambda>w. off w \<and> connects w = k" "\<lambda>e. \<not> asks_to_connect e" for N k
  by unfold_locales (rule off_step)

text \<open>
  A disconnect is sticky: after \<open>wifi.disconnect\<close>, in a device in which no task is about to connect, no sequence
  of driver events, scans, other commands and factory resets, in any interleaving, makes the device ask the driver
  for a connection, until someone runs \<open>wifi.connect\<close> for the primary slot, forgets the primary slot alone, or restarts it.
\<close>
theorem disconnect_is_sticky:
  assumes "list_all scans (wf_tasks w)" "\<forall>e \<in> set es. \<not> asks_to_connect e"
  shows "connects (foldl (wifi_do N) (wifi_do N w (Command d now ctx CmdDisconnect)) es) = connects w"
proof -
  have "off (wifi_do N w (Command d now ctx CmdDisconnect))"
    "connects (wifi_do N w (Command d now ctx CmdDisconnect)) = connects w"
    using assms(1) by (simp_all add: off_def connects_def cmd_wifi_disconnect_def wifi_pieces)
  with wifi_off.run_inv [of _ _ es N] assms(2) show ?thesis by metis
qed

text \<open>
  C34: a scan takes the device off its network for good: when the worker of a \<open>wifi.scan\<close> starts, gets its memory, and no
  task but scans is under way (no connect worker, change of slot, forget or start-up that is between two of its pieces), the
  link is dropped, also when the device was connected, and no sequence of driver events other than the start of the driver,
  commands (further scans included), task pieces and factory resets makes the device ask for a connection before someone runs
  \<open>wifi.connect\<close> for the primary slot, forgets the primary slot alone, or restarts the device. (A change of slot under
  way brings the device back: \<open>swap_undoes_scan\<close> in theory \<open>SkWifiExamples\<close>.)
\<close>
theorem scan_takes_device_offline:
  assumes "list_all scans (wf_tasks w)" "i < length (wf_tasks w)" "wf_tasks w ! i = ScanQueued j" "dr_mem_list d"
    and "\<forall>e \<in> set es. \<not> asks_to_connect e"
  shows "wf_out (wifi_do N w (Resume d i)) = wf_out w @ [WDisconnect] \<and>
    connects (foldl (wifi_do N) (wifi_do N w (Resume d i)) es) = connects w"
proof -
  have "list_all scans (take i (wf_tasks w))" "list_all scans (drop (Suc i) (wf_tasks w))"
    using assms(1) by (auto simp: list_all_iff dest: in_set_takeD in_set_dropD)
  then have "off (wifi_do N w (Resume d i))" "connects (wifi_do N w (Resume d i)) = connects w"
    "wf_out (wifi_do N w (Resume d i)) = wf_out w @ [WDisconnect]"
    using assms(2-4) by (simp_all add: off_def connects_def scan_worker_start_def wifi_pieces)
  with wifi_off.run_inv [of _ _ es N] assms(5) show ?thesis by metis
qed

section \<open>Retries\<close>

text \<open>
  The driver reports that the connection failed, and the event task comes to its end, also when the report made it
  change the slot.
\<close>

definition fail_round :: "'n nvs_ops \<Rightarrow> 'n wifi \<Rightarrow> drv \<times> int option \<Rightarrow> 'n wifi" where
  "fail_round N w f = (case f of (d, info) \<Rightarrow>
     (let w = wifi_do N w (Deliver d (StaDisconnected info)) in
      if wf_tasks w = [] then w else wifi_do N w (Resume d 0)))"

text \<open>A driver that takes every configuration and every connection request.\<close>

definition driver_takes :: "drv \<Rightarrow> bool" where
  "driver_takes d \<longleftrightarrow> (\<forall>s p. dr_set_config d s p = ESP_OK) \<and> dr_connect d \<in> {DrvErr ESP_OK, ESP_ERR_WIFI_CONN}"

text \<open>The slot and the network after \<open>k\<close> failures in a row, from slot \<open>a\<close> with none.\<close>

definition slot_after :: "nat \<Rightarrow> nat \<Rightarrow> nat" where
  "slot_after a k = (if even (k div 5) then a else other_slot a)"

definition retrying :: "'n \<Rightarrow> (nat \<Rightarrow> wifi_cred) \<Rightarrow> nat \<Rightarrow> nat \<Rightarrow> nat \<Rightarrow> 'n wifi \<Rightarrow> bool" where
  "retrying n cs a K k w \<longleftrightarrow> wf_flash w = n \<and> wf_tasks w = [] \<and> \<not> wf_pinned w \<and> wf_ssid w \<noteq> [] \<and>
     wf_active_slot w = slot_after a k \<and> wf_fails w = int (k mod 5) \<and> connects w = K + k \<and>
     (k \<ge> 5 \<longrightarrow> wf_ssid w = take 32 (cr_ssid (cs (wf_active_slot w))))"

lemma slot_after_Suc:
  assumes "a = 1 \<or> a = 2"
  shows "slot_after a (Suc k) = (if k mod 5 = 4 then other_slot (slot_after a k) else slot_after a k)"
    "slot_after a k = 1 \<or> slot_after a k = 2"
proof -
  have "Suc k div 5 = (if k mod 5 = 4 then Suc (k div 5) else k div 5)" by (simp add: div_Suc mod_Suc)
  with assms show "slot_after a (Suc k) = (if k mod 5 = 4 then other_slot (slot_after a k) else slot_after a k)"
    by (auto simp: slot_after_def other_slot_def)
  show "slot_after a k = 1 \<or> slot_after a k = 2" using assms by (auto simp: slot_after_def other_slot_def)
qed

lemma load_slot_found:
  assumes "load_slot N d slot n = (True, c)"
  shows "cr_ssid c \<noteq> [] \<and> length (cr_ssid c) \<le> 32"
  using assms by (auto simp: load_slot_def load_primary_def load_backup_def load_cred_def Let_def SK_WIFI_SSID_MAX_def
      split: if_splits option.splits)

text \<open>What \<open>connect_finish\<close> leaves behind when the driver takes the configuration.\<close>

lemma apply_static_frame [simp]:
  "wf_ssid (apply_static_ip d c w) = wf_ssid w" "wf_pinned (apply_static_ip d c w) = wf_pinned w"
  "wf_active_slot (apply_static_ip d c w) = wf_active_slot w" "wf_fails (apply_static_ip d c w) = wf_fails w"
  "wf_bits (apply_static_ip d c w) = wf_bits w" "wf_flash (apply_static_ip d c w) = wf_flash w"
  "wf_tasks (apply_static_ip d c w) = wf_tasks w" "wf_scan_active (apply_static_ip d c w) = wf_scan_active w"
  "wf_worker_active (apply_static_ip d c w) = wf_worker_active w" "connects (apply_static_ip d c w) = connects w"
  by (auto simp: apply_static_ip_def connects_def Let_def split: option.split)

lemma connects_emit [simp]: "connects (emit_w a w) = (if a = WConnect then Suc (connects w) else connects w)"
  by (simp add: connects_def)

lemma connect_fail_log_not [simp]: "connect_fail_log rsn w \<noteq> WConnect"
  by (simp add: connect_fail_log_def)

lemma connects_updates [simp]:
  "connects (w\<lparr>wf_tasks := ts\<rparr>) = connects w" "connects (w\<lparr>wf_ssid := s\<rparr>) = connects w" "connects (w\<lparr>wf_pinned := b\<rparr>) = connects w"
  "connects (w\<lparr>wf_fails := f\<rparr>) = connects w" "connects (w\<lparr>wf_active_slot := i\<rparr>) = connects w"
  "connects (w\<lparr>wf_ip := s\<rparr>) = connects w" "connects (w\<lparr>wf_rssi := r\<rparr>) = connects w" "connects (w\<lparr>wf_bits := bs\<rparr>) = connects w"
  "connects (w\<lparr>wf_worker_active := b\<rparr>) = connects w" "connects (park t w) = connects w"
  by (simp_all add: connects_def park_def)

lemma connect_finish_takes:
  assumes "driver_takes d"
  shows "fst (connect_finish d c w) = DrvErr ESP_OK" and
    "wf_ssid (snd (connect_finish d c w)) = take 32 (cr_ssid c)" "\<not> wf_pinned (snd (connect_finish d c w))"
    "wf_active_slot (snd (connect_finish d c w)) = wf_active_slot w" "wf_fails (snd (connect_finish d c w)) = wf_fails w"
    "wf_flash (snd (connect_finish d c w)) = wf_flash w" "wf_tasks (snd (connect_finish d c w)) = wf_tasks w"
    "connects (snd (connect_finish d c w)) = Suc (connects w)"
  using assms by (auto simp: connect_finish_def driver_takes_def wifi_pieces Let_def SK_WIFI_SSID_MAX_def)

lemma fail_round_retries:
  assumes r: "retrying n cs a K k w" and a: "a = 1 \<or> a = 2" and d: "driver_takes (fst f)"
    and cs: "load_slot N (fst f) 1 n = (True, cs 1)" "load_slot N (fst f) 2 n = (True, cs 2)"
  shows "retrying n cs a K (Suc k) (fail_round N w f)"
proof -
  obtain dr info where f: "f = (dr, info)" by (cases f)
  note s = slot_after_Suc [OF a, of k]
  have w: "wf_flash w = n" "wf_tasks w = []" "\<not> wf_pinned w" "wf_ssid w \<noteq> []" "wf_active_slot w = slot_after a k"
    "wf_fails w = int (k mod 5)" "connects w = K + k"
    "k \<ge> 5 \<Longrightarrow> wf_ssid w = take 32 (cr_ssid (cs (wf_active_slot w)))"
    using r by (simp_all add: retrying_def)
  show ?thesis
  proof (cases "k mod 5 = 4")
    case True
    obtain o' where o: "other_slot (slot_after a k) = o'" "o' = 1 \<or> o' = 2" "o' \<noteq> 0"
      using s(2) by (auto simp: other_slot_def)
    have c: "load_slot N dr o' n = (True, cs o')" using o(2) cs by (auto simp: f)
    have m: "Suc k mod 5 = 0" using True by (simp add: mod_Suc)
    show ?thesis
      using load_slot_found [OF c] True
      by (auto simp: connect_finish_takes [OF d [unfolded f fst_conv]] fail_round_def f retrying_def s(1) o(1,3) w c m on_disconnected_def connect_slot_begin_def wifi_pieces
          FAILS_BEFORE_SWAP_def Let_def case_prod_beta)
  next
    case False
    have m: "Suc k mod 5 = Suc (k mod 5)" "k mod 5 < 4" using False by (simp_all add: mod_Suc)
    have k5: "Suc k \<ge> 5 \<Longrightarrow> k \<ge> 5" using False by (cases "k = 4") auto
    show ?thesis using False m k5
      by (auto simp: fail_round_def f retrying_def s(1) w on_disconnected_def wifi_pieces FAILS_BEFORE_SWAP_def Let_def)
  qed
qed

lemma fail_rounds_retry:
  assumes "retrying n cs a K 0 w" "a = 1 \<or> a = 2"
    and "\<forall>f \<in> set fs. driver_takes (fst f) \<and> load_slot N (fst f) 1 n = (True, cs 1) \<and> load_slot N (fst f) 2 n = (True, cs 2)"
  shows "retrying n cs a K (length fs) (foldl (fail_round N) w fs)"
  using assms(3)
proof (induction fs rule: rev_induct)
  case Nil
  then show ?case using assms(1) by simp
next
  case (snoc f fs)
  then show ?case using fail_round_retries [OF _ assms(2), of n cs K "length fs" _ f N] by simp
qed

text \<open>
  C19: with two saved networks a device that cannot connect tries five times on one and then five times on the other,
  for ever: after \<open>k\<close> failures in a row from slot \<open>a\<close> it is on slot \<open>a\<close> when \<open>k div 5\<close> is even and on
  the other slot when it is odd, it has counted \<open>k mod 5\<close> failures there, it has asked the driver for
  exactly \<open>k\<close> connections, and from the first change on with the name of the network saved in the slot it is on.
\<close>
theorem retries_alternate:
  assumes "wf_tasks w = []" "\<not> wf_pinned w" "wf_ssid w \<noteq> []" "wf_fails w = 0" "wf_active_slot w = 1 \<or> wf_active_slot w = 2"
    and "\<forall>f \<in> set fs. driver_takes (fst f) \<and> load_slot N (fst f) 1 (wf_flash w) = (True, c1) \<and>
      load_slot N (fst f) 2 (wf_flash w) = (True, c2)"
  defines "w' \<equiv> foldl (fail_round N) w fs"
  shows "wf_active_slot w' = (if even (length fs div 5) then wf_active_slot w else other_slot (wf_active_slot w)) \<and>
    wf_fails w' = int (length fs mod 5) \<and> connects w' = connects w + length fs \<and>
    (length fs < 5 \<or> wf_ssid w' = (if wf_active_slot w' = 1 then cr_ssid c1 else cr_ssid c2))"
proof -
  define cs where "cs s = (if s = (1::nat) then c1 else c2)" for s
  have "retrying (wf_flash w) cs (wf_active_slot w) (connects w) 0 w"
    using assms(1-5) by (simp add: retrying_def slot_after_def)
  from fail_rounds_retry [OF this assms(5)] have r: "retrying (wf_flash w) cs (wf_active_slot w) (connects w) (length fs) w'"
    unfolding w'_def using assms(6) by (simp add: cs_def)
  have "length (cr_ssid c1) \<le> 32 \<and> length (cr_ssid c2) \<le> 32" if "fs \<noteq> []"
    using that assms(6) by (cases fs) (auto dest!: load_slot_found)
  then have "length fs < 5 \<or> length (cr_ssid c1) \<le> 32 \<and> length (cr_ssid c2) \<le> 32" by (cases fs) auto
  with r show ?thesis by (auto simp: retrying_def slot_after_def cs_def)
qed

section \<open>What \<open>wifi.status\<close> says\<close>

text \<open>The bit that \<open>wifi.status\<close> reads: nothing but a new connection attempt or a restart clears it.\<close>

definition bit_connected :: "'n wifi \<Rightarrow> bool" where
  "bit_connected w = (case wf_bits w of None \<Rightarrow> False | Some (conn, fail) \<Rightarrow> conn)"

lemma bits_kept [simp]:
  "bit_connected (emit_w a w) = bit_connected w" "bit_connected (park t w) = bit_connected w"
  "bit_connected (set_bit_fail w) = bit_connected w" "wf_bits w \<noteq> None \<Longrightarrow> bit_connected (set_bit_connected w)"
  "bit_connected (w\<lparr>wf_ip := s\<rparr>) = bit_connected w" "bit_connected (w\<lparr>wf_rssi := r\<rparr>) = bit_connected w"
  "bit_connected (w\<lparr>wf_fails := i\<rparr>) = bit_connected w" "bit_connected (w\<lparr>wf_active_slot := n\<rparr>) = bit_connected w"
  "bit_connected (w\<lparr>wf_pinned := b\<rparr>) = bit_connected w"
  by (auto simp: bit_connected_def set_bit_fail_def set_bit_connected_def split: option.split)

text \<open>
  \<open>wifi.status\<close> can claim a connection that is gone: once an address was acquired, a device that then loses the network
  answers \<open>connected\<close> with the address \<open>0.0.0.0\<close>, whatever events the driver delivered in between and
  however often the connection was lost, until a new attempt of \<open>sk_wifi_connect_sta\<close>.
\<close>
theorem status_claims_connection:
  assumes "wf_bits w \<noteq> None" "wf_tasks (foldl (\<lambda>w (d, ev). wifi_event_cb N d ev w) (on_got_ip ip w) evs) = []"
  defines "w' \<equiv> foldl (\<lambda>w (d, ev). wifi_event_cb N d ev w) (on_got_ip ip w) evs"
  shows "ws_connected (fst (sk_wifi_status ds (wifi_do N w' (Deliver d (StaDisconnected info))))) \<and>
    ws_ip (fst (sk_wifi_status ds (wifi_do N w' (Deliver d (StaDisconnected info))))) = ''0.0.0.0''"
proof -
  have step: "bit_connected (wifi_event_cb N d ev w)" if "bit_connected w" for d ev and w :: "'a wifi"
  proof -
    have "wf_bits w \<noteq> None" using that by (auto simp: bit_connected_def split: option.splits)
    then show ?thesis using that
      by (cases ev) (auto simp: on_disconnected_def on_got_ip_def connect_slot_begin_def publish_state_def connect_begin_def
          Let_def split: option.split prod.split)
  qed
  have "bit_connected (foldl (\<lambda>w (d, ev). wifi_event_cb N d ev w) u evs)" if "bit_connected u" for u :: "'a wifi"
    using that by (induction evs arbitrary: u) (auto simp: step)
  moreover have "bit_connected (on_got_ip ip w)" using assms(1) by (simp add: on_got_ip_def publish_state_def Let_def)
  ultimately have b: "bit_connected (wifi_event_cb N d (StaDisconnected info) w')" unfolding w'_def by (intro step)
  have "wf_ip (wifi_event_cb N d (StaDisconnected info) w') = ''0.0.0.0''"
    by (auto simp: on_disconnected_def publish_state_def set_bit_fail_def connect_slot_begin_def connect_begin_def Let_def
        split: option.split prod.split)
  with b assms(2) show ?thesis
    by (auto simp: sk_wifi_status_def unterminated_def bit_connected_def Let_def w'_def [symmetric] split: option.splits)
qed

end
