(* ===== verification/SkWifiRunProps.thy ===== *)
theory SkWifiRunProps
  imports SkWifiProps
begin

text \<open>
  Invariants of the Wi-Fi component over every interleaving: the workers are single-flight, a saved network is what
  the next start connects to, and a factory reset leaves no network behind.
\<close>

section \<open>Single flight\<close>

fun is_worker_task :: "wifi_task \<Rightarrow> bool" where
  "is_worker_task (ConnectSpawning c) = True"
| "is_worker_task (ConnectQueued c) = True"
| "is_worker_task (ConnectParting c) = True"
| "is_worker_task (ConnectSettling c) = True"
| "is_worker_task _ = False"

fun is_connect_caller :: "wifi_task \<Rightarrow> bool" where
  "is_connect_caller (ConnectCalling c) = True"
| "is_connect_caller _ = False"

definition count_tasks :: "(wifi_task \<Rightarrow> bool) \<Rightarrow> 'n wifi \<Rightarrow> nat" where
  "count_tasks P w = length (filter P (wf_tasks w))"

definition single_flight :: "'n wifi \<Rightarrow> bool" where
  "single_flight w \<longleftrightarrow> count_tasks is_worker_task w = (if wf_worker_active w then 1 else 0) \<and>
     count_tasks is_scan_task w = (if wf_scan_active w then 1 else 0) \<and>
     count_tasks is_connect_caller w \<le> (if wf_worker_active w then 0 else 1) \<and>
     count_tasks is_scan_caller w \<le> (if wf_scan_active w then 0 else 1)"

text \<open>
  The handlers of one kind do not overlap: no \<open>wifi.connect\<close> (\<open>wifi.scan\<close>) comes in while another one is between its test
  of the busy flag and its setting of it.
\<close>

definition apart :: "'n wifi \<Rightarrow> wifi_sched \<Rightarrow> bool" where
  "apart w e = (case e of Command d now ctx cmd \<Rightarrow>
       (cmd = CmdConnect \<longrightarrow> count_tasks is_connect_caller w = 0) \<and> (cmd = CmdScan \<longrightarrow> count_tasks is_scan_caller w = 0)
     | _ \<Rightarrow> True)"

primrec calls_apart :: "'n nvs_ops \<Rightarrow> 'n wifi \<Rightarrow> wifi_sched list \<Rightarrow> bool" where
  "calls_apart N w [] = True"
| "calls_apart N w (e # es) = (apart w e \<and> calls_apart N (wifi_do N w e) es)"

lemma single_flight_frame:
  "wf_tasks w' = wf_tasks w \<Longrightarrow> wf_worker_active w' = wf_worker_active w \<Longrightarrow> wf_scan_active w' = wf_scan_active w \<Longrightarrow>
    single_flight w' = single_flight w"
  by (simp add: single_flight_def count_tasks_def)

lemma connect_finish_tasks [simp]:
  "wf_tasks (snd (connect_finish d c w)) = wf_tasks w" "wf_worker_active (snd (connect_finish d c w)) = wf_worker_active w"
  "wf_scan_active (snd (connect_finish d c w)) = wf_scan_active w" "wf_flash (snd (connect_finish d c w)) = wf_flash w"
  by (auto simp: connect_finish_def publish_state_def clear_bits_def Let_def)

lemma connect_slot_tasks [simp]:
  "wf_tasks (snd (connect_slot_begin N d slot w)) = wf_tasks w"
  "wf_worker_active (snd (connect_slot_begin N d slot w)) = wf_worker_active w"
  "wf_scan_active (snd (connect_slot_begin N d slot w)) = wf_scan_active w"
  "wf_flash (snd (connect_slot_begin N d slot w)) = wf_flash w"
  by (auto simp: connect_slot_begin_def connect_begin_def split: prod.split)

lemma scan_finish_tasks [simp]:
  "wf_tasks (snd (scan_finish d m w)) = wf_tasks w" "wf_worker_active (snd (scan_finish d m w)) = wf_worker_active w"
  "wf_scan_active (snd (scan_finish d m w)) = wf_scan_active w" "wf_flash (snd (scan_finish d m w)) = wf_flash w"
  by (auto simp: scan_finish_def Let_def split: prod.split)

text \<open>A start-up chain adds at most its own task.\<close>

lemma auto_connect_tasks:
  "wf_tasks (auto_connect_from N d slot w) = wf_tasks w \<or> (\<exists>s c. wf_tasks (auto_connect_from N d slot w) = wf_tasks w @ [BootSettling s c])"
  "wf_worker_active (auto_connect_from N d slot w) = wf_worker_active w"
  "wf_scan_active (auto_connect_from N d slot w) = wf_scan_active w"
  "wf_flash (auto_connect_from N d slot w) = wf_flash w"
  by (auto simp: auto_connect_from_def connect_slot_begin_def connect_begin_def Let_def split: prod.splits option.splits)

lemma single_auto: "single_flight (auto_connect_from N d slot w) = single_flight w"
  using auto_connect_tasks [of N d slot w] by (auto simp: single_flight_def count_tasks_def)

lemma publish_fields [simp]:
  "wf_tasks (publish_state x w) = wf_tasks w" "wf_worker_active (publish_state x w) = wf_worker_active w"
  "wf_scan_active (publish_state x w) = wf_scan_active w" "wf_flash (publish_state x w) = wf_flash w"
  by (simp_all add: publish_state_def)

lemma bit_fields [simp]:
  "wf_tasks (set_bit_fail w) = wf_tasks w" "wf_worker_active (set_bit_fail w) = wf_worker_active w"
  "wf_scan_active (set_bit_fail w) = wf_scan_active w" "wf_flash (set_bit_fail w) = wf_flash w"
  "wf_tasks (set_bit_connected w) = wf_tasks w" "wf_worker_active (set_bit_connected w) = wf_worker_active w"
  "wf_scan_active (set_bit_connected w) = wf_scan_active w" "wf_flash (set_bit_connected w) = wf_flash w"
  by (simp_all add: set_bit_fail_def set_bit_connected_def)

text \<open>A driver event adds at most the rest of a change of slot.\<close>

lemma disconnected_tasks:
  "(wf_tasks (on_disconnected N d info w) = wf_tasks w \<or> (\<exists>c. wf_tasks (on_disconnected N d info w) = wf_tasks w @ [SwapSettling c])) \<and>
   wf_worker_active (on_disconnected N d info w) = wf_worker_active w \<and>
   wf_scan_active (on_disconnected N d info w) = wf_scan_active w \<and> wf_flash (on_disconnected N d info w) = wf_flash w"
proof -
  have slot: "wf_tasks (case connect_slot_begin N d s u of (Some c, w) \<Rightarrow> park (SwapSettling c) w | (None, w) \<Rightarrow> emit_w WConnect w) = ts \<or>
      (\<exists>c. wf_tasks (case connect_slot_begin N d s u of (Some c, w) \<Rightarrow> park (SwapSettling c) w | (None, w) \<Rightarrow> emit_w WConnect w) =
        ts @ [SwapSettling c])" if "wf_tasks u = ts" for s u ts
    using that connect_slot_tasks [of N d s u] by (simp add: case_prod_beta split: option.split)
  have flags:
    "wf_worker_active (case connect_slot_begin N d s u of (Some c, w) \<Rightarrow> park (SwapSettling c) w | (None, w) \<Rightarrow> emit_w WConnect w) = wf_worker_active u"
    "wf_scan_active (case connect_slot_begin N d s u of (Some c, w) \<Rightarrow> park (SwapSettling c) w | (None, w) \<Rightarrow> emit_w WConnect w) = wf_scan_active u"
    "wf_flash (case connect_slot_begin N d s u of (Some c, w) \<Rightarrow> park (SwapSettling c) w | (None, w) \<Rightarrow> emit_w WConnect w) = wf_flash u" for s u
    using connect_slot_tasks [of N d s u] by (simp_all add: case_prod_beta split: option.split)
  show ?thesis
    by (simp add: on_disconnected_def Let_def flags) (intro impI slot, simp)
qed

lemma event_tasks:
  "(wf_tasks (wifi_event_cb N d ev w) = wf_tasks w \<or> (\<exists>c. wf_tasks (wifi_event_cb N d ev w) = wf_tasks w @ [SwapSettling c])) \<and>
   wf_worker_active (wifi_event_cb N d ev w) = wf_worker_active w \<and>
   wf_scan_active (wifi_event_cb N d ev w) = wf_scan_active w \<and> wf_flash (wifi_event_cb N d ev w) = wf_flash w"
  by (cases ev) (simp_all add: disconnected_tasks on_got_ip_def Let_def case_prod_beta split: option.split)

lemma single_event: "single_flight (wifi_event_cb N d ev w) = single_flight w"
  using event_tasks [of N d ev w] by (auto simp: single_flight_def count_tasks_def)

lemma filter_remove_nth:
  "i < length xs \<Longrightarrow> length (filter P xs) = length (filter P (take i xs @ drop (Suc i) xs)) + (if P (xs ! i) then 1 else 0)"
proof -
  assume "i < length xs"
  then have "filter P xs = filter P (take i xs) @ filter P (xs ! i # drop (Suc i) xs)"
    by (simp only: filter_append [symmetric] id_take_nth_drop [symmetric])
  then show ?thesis by simp
qed

lemma single_task:
  assumes "single_flight w"
  shows "single_flight (wifi_do N w (Resume d i))"
proof (cases "i < length (wf_tasks w)")
  case True
  define ts where "ts = take i (wf_tasks w) @ drop (Suc i) (wf_tasks w)"
  have c: "length (filter P (wf_tasks w)) = length (filter P ts) + (if P (wf_tasks w ! i) then 1 else 0)" for P
    unfolding ts_def by (rule filter_remove_nth [OF True])
  have w: "length (filter is_worker_task ts) + (if is_worker_task (wf_tasks w ! i) then 1 else 0) = (if wf_worker_active w then 1 else 0)"
    "length (filter is_scan_task ts) + (if is_scan_task (wf_tasks w ! i) then 1 else 0) = (if wf_scan_active w then 1 else 0)"
    "length (filter is_connect_caller ts) + (if is_connect_caller (wf_tasks w ! i) then 1 else 0) \<le> (if wf_worker_active w then 0 else 1)"
    "length (filter is_scan_caller ts) + (if is_scan_caller (wf_tasks w ! i) then 1 else 0) \<le> (if wf_scan_active w then 0 else 1)"
    using assms by (simp_all only: single_flight_def count_tasks_def c)
  have a: "single_flight (auto_connect_from N d 2 u) = single_flight u" for u by (rule single_auto)
  show ?thesis
  proof (cases "wf_tasks w ! i")
    case (BootSettling s c)
    then show ?thesis using w True
      by (auto simp: ts_def [symmetric] a case_prod_beta) (simp_all add: single_flight_def count_tasks_def)
  next
    case (ScanQueued j)
    then show ?thesis using w True
      by (cases "wf_worker_active w"; cases "wf_scan_active w"; cases "dr_mem_list d")
        (simp_all add: ts_def [symmetric] single_flight_def count_tasks_def scan_worker_start_def wifi_pieces)
  next
    case (ScanSettling j)
    then show ?thesis using w True
      by (cases "wf_worker_active w"; cases "wf_scan_active w")
        (simp_all add: ts_def [symmetric] single_flight_def count_tasks_def scan_worker_end_def wifi_pieces case_prod_beta
          split: option.split)
  next
    case (ScanSpawning j)
    then show ?thesis using w True
      by (cases "wf_worker_active w"; cases "wf_scan_active w"; cases "dr_task_ok d")
        (simp_all add: ts_def [symmetric] single_flight_def count_tasks_def scan_spawn_def wifi_pieces)
  next
    case (ConnectSpawning c)
    then show ?thesis using w True
      by (cases "wf_worker_active w"; cases "wf_scan_active w"; cases "dr_task_ok d")
        (simp_all add: ts_def [symmetric] single_flight_def count_tasks_def schedule_spawn_def schedule_answer_def wifi_pieces)
  qed (use w True in \<open>(cases "wf_worker_active w"; cases "wf_scan_active w";
         simp add: scan_mark_def schedule_mark_def ts_def [symmetric] single_flight_def count_tasks_def wifi_pieces case_prod_beta)+\<close>)
qed (use assms in simp)

lemma saves_fields [simp]:
  "wf_tasks (sk_wifi_save_primary N c w) = wf_tasks w" "wf_worker_active (sk_wifi_save_primary N c w) = wf_worker_active w"
  "wf_scan_active (sk_wifi_save_primary N c w) = wf_scan_active w"
  "wf_tasks (sk_wifi_save_backup N c w) = wf_tasks w" "wf_worker_active (sk_wifi_save_backup N c w) = wf_worker_active w"
  "wf_scan_active (sk_wifi_save_backup N c w) = wf_scan_active w"
  "wf_tasks (sk_wifi_clear_primary N w) = wf_tasks w" "wf_worker_active (sk_wifi_clear_primary N w) = wf_worker_active w"
  "wf_scan_active (sk_wifi_clear_primary N w) = wf_scan_active w"
  "wf_tasks (sk_wifi_clear_backup N w) = wf_tasks w" "wf_worker_active (sk_wifi_clear_backup N w) = wf_worker_active w"
  "wf_scan_active (sk_wifi_clear_backup N w) = wf_scan_active w"
  "wf_tasks (sk_wifi_disconnect w) = wf_tasks w" "wf_worker_active (sk_wifi_disconnect w) = wf_worker_active w"
  "wf_scan_active (sk_wifi_disconnect w) = wf_scan_active w" "wf_flash (sk_wifi_disconnect w) = wf_flash w"
  "wf_tasks (answer x w) = wf_tasks w" "wf_worker_active (answer x w) = wf_worker_active w"
  "wf_scan_active (answer x w) = wf_scan_active w" "wf_flash (answer x w) = wf_flash w"
  by (simp_all add: wifi_saves sk_wifi_disconnect_def answer_def)

lemma forget_tasks:
  "(wf_tasks (forget_slots N d ctx w) = wf_tasks w \<or> (\<exists>c. wf_tasks (forget_slots N d ctx w) = wf_tasks w @ [ForgetSettling c])) \<and>
   wf_worker_active (forget_slots N d ctx w) = wf_worker_active w \<and> wf_scan_active (forget_slots N d ctx w) = wf_scan_active w"
proof -
  have slot: "wf_tasks (case connect_slot_begin N d 2 u of (Some c, w) \<Rightarrow> park (ForgetSettling c) w | (None, w) \<Rightarrow> answer x w) = wf_tasks u \<or>
      (\<exists>c. wf_tasks (case connect_slot_begin N d 2 u of (Some c, w) \<Rightarrow> park (ForgetSettling c) w | (None, w) \<Rightarrow> answer x w) =
        wf_tasks u @ [ForgetSettling c])"
    "wf_worker_active (case connect_slot_begin N d 2 u of (Some c, w) \<Rightarrow> park (ForgetSettling c) w | (None, w) \<Rightarrow> answer x w) = wf_worker_active u"
    "wf_scan_active (case connect_slot_begin N d 2 u of (Some c, w) \<Rightarrow> park (ForgetSettling c) w | (None, w) \<Rightarrow> answer x w) = wf_scan_active u" for u x
    using connect_slot_tasks [of N d 2 u] by (simp_all add: case_prod_beta split: option.split)
  show ?thesis
    using slot(1) [where u = "sk_wifi_clear_primary N w" and x = forgotten_swapped] by (simp add: forget_slots_def Let_def slot(2-))
qed

lemma single_command:
  assumes "single_flight w" "apart w (Command d now ctx cmd)"
  shows "single_flight (wifi_command N d now ctx cmd w)"
proof (cases cmd)
  case CmdForget
  have "single_flight (forget_slots N d ctx (w\<lparr>wf_confirm := cs\<rparr>))" for cs
    using assms forget_tasks [of N d ctx "w\<lparr>wf_confirm := cs\<rparr>"] by (auto simp: single_flight_def count_tasks_def)
  then show ?thesis using assms
    by (simp add: CmdForget cmd_wifi_forget_def Let_def case_prod_beta split: option.split)
      (simp add: single_flight_def count_tasks_def)
next
  case CmdConnect
  have "wf_worker_active (cmd_wifi_connect N d ctx w) = wf_worker_active w \<and> wf_scan_active (cmd_wifi_connect N d ctx w) = wf_scan_active w \<and>
      (wf_tasks (cmd_wifi_connect N d ctx w) = wf_tasks w \<or>
       \<not> wf_worker_active w \<and> (\<exists>c. wf_tasks (cmd_wifi_connect N d ctx w) = wf_tasks w @ [ConnectCalling c]))"
    by (simp add: cmd_wifi_connect_def schedule_wifi_connect_def schedule_answer_def Let_def)
  then show ?thesis using assms by (auto simp: CmdConnect apart_def single_flight_def count_tasks_def)
next
  case CmdScan
  have "wf_worker_active (cmd_wifi_scan d ctx w) = wf_worker_active w \<and> wf_scan_active (cmd_wifi_scan d ctx w) = wf_scan_active w \<and>
      (wf_tasks (cmd_wifi_scan d ctx w) = wf_tasks w \<or>
       \<not> wf_scan_active w \<and> (\<exists>j. wf_tasks (cmd_wifi_scan d ctx w) = wf_tasks w @ [ScanCalling j]))"
    by (simp add: cmd_wifi_scan_def)
  then show ?thesis using assms by (auto simp: CmdScan apart_def single_flight_def count_tasks_def)
next
  case CmdStatus
  have "single_flight (cmd_wifi_status N d w) = single_flight w"
    by (rule single_flight_frame; simp add: cmd_wifi_status_def sk_wifi_status_def Let_def split: option.split prod.split)
  then show ?thesis using assms by (simp add: CmdStatus)
next
  case CmdList
  have "single_flight (cmd_wifi_list N w) = single_flight w"
    by (rule single_flight_frame; simp add: cmd_wifi_list_def split: option.split prod.split)
  then show ?thesis using assms by (simp add: CmdList)
next
  case CmdDisconnect
  have "single_flight (cmd_wifi_disconnect w) = single_flight w"
    by (rule single_flight_frame) (simp_all add: cmd_wifi_disconnect_def)
  then show ?thesis using assms by (simp add: CmdDisconnect)
qed

lemma single_boot: "single_flight (wifi_power_cycle N d w)"
  using auto_connect_tasks
  by (simp add: wifi_power_cycle_def sk_wifi_init_def single_auto Let_def) (simp add: single_flight_def count_tasks_def wifi_static_def)

lemma single_step: "single_flight w \<Longrightarrow> apart w e \<Longrightarrow> single_flight (wifi_do N w e)"
proof (cases e)
  case (Resume d i)
  then show "single_flight w \<Longrightarrow> ?thesis" using single_task [of w N d i] by simp
qed (auto simp: single_event single_command single_boot, auto simp: wifi_factory_reset_def wifi_pieces wifi_saves single_flight_def count_tasks_def)

lemma single_run: "single_flight w \<Longrightarrow> calls_apart N w es \<Longrightarrow> single_flight (foldl (wifi_do N) w es)"
  by (induction es arbitrary: w) (simp_all add: single_step)

text \<open>
  C37: the workers are single-flight, as long as the handlers of one kind do not overlap: after a start and any interleaving of
  events, commands, task pieces, resets and restarts in which no \<open>wifi.connect\<close> (\<open>wifi.scan\<close>) is taken while
  another one is between its test of the busy flag and its setting of it, there is exactly one connect worker (counted from
  the setting of the flag on) when its flag is set and none when it is not, and the same holds of the scan worker. (The
  code does nothing against the overlap, the handlers run in the tasks of their transports without a lock: a run with two
  connect workers is \<open>two_workers_race\<close> in theory \<open>SkWifiExamples\<close>.)
\<close>
theorem workers_single_flight:
  assumes "calls_apart N (wifi_power_cycle N d w) es"
  shows "count_tasks is_worker_task (foldl (wifi_do N) (wifi_power_cycle N d w) es) =
     (if wf_worker_active (foldl (wifi_do N) (wifi_power_cycle N d w) es) then 1 else 0) \<and>
   count_tasks is_scan_task (foldl (wifi_do N) (wifi_power_cycle N d w) es) =
     (if wf_scan_active (foldl (wifi_do N) (wifi_power_cycle N d w) es) then 1 else 0)"
  using single_run [OF single_boot assms] by (simp only: single_flight_def)

section \<open>Networks in flash\<close>

lemma primary_keys_differ:
  "KEY_BACKUP_SSID \<noteq> KEY_PRIMARY_SSID" "KEY_BACKUP_SSID \<noteq> KEY_PRIMARY_PASS" "KEY_BACKUP_SSID \<noteq> KEY_PRIMARY_IP"
  "KEY_BACKUP_PASS \<noteq> KEY_PRIMARY_SSID" "KEY_BACKUP_PASS \<noteq> KEY_PRIMARY_PASS" "KEY_BACKUP_PASS \<noteq> KEY_PRIMARY_IP"
  "KEY_BACKUP_IP \<noteq> KEY_PRIMARY_SSID" "KEY_BACKUP_IP \<noteq> KEY_PRIMARY_PASS" "KEY_BACKUP_IP \<noteq> KEY_PRIMARY_IP"
  "KEY_PRIMARY_SSID \<noteq> KEY_PRIMARY_PASS" "KEY_PRIMARY_SSID \<noteq> KEY_PRIMARY_IP" "KEY_PRIMARY_PASS \<noteq> KEY_PRIMARY_IP"
  by (simp_all add: KEY_BACKUP_SSID_def KEY_BACKUP_PASS_def KEY_BACKUP_IP_def KEY_PRIMARY_SSID_def KEY_PRIMARY_PASS_def
      KEY_PRIMARY_IP_def)

definition holds_primary :: "'n nvs_ops \<Rightarrow> wifi_cred \<Rightarrow> 'n \<Rightarrow> bool" where
  "holds_primary N c n \<longleftrightarrow> nv_get N n NVS_WIFI KEY_PRIMARY_SSID = Some (NvStr (cr_ssid c)) \<and>
     nv_get N n NVS_WIFI KEY_PRIMARY_PASS = Some (NvStr (cr_password c)) \<and>
     nv_get N n NVS_WIFI KEY_PRIMARY_IP = Some (NvStr (cr_static_ip c))"

definition cred_fits :: "wifi_cred \<Rightarrow> bool" where
  "cred_fits c \<longleftrightarrow> cr_ssid c \<noteq> [] \<and> length (cr_ssid c) \<le> 32 \<and> length (cr_password c) \<le> 64 \<and> length (cr_static_ip c) \<le> 32"

lemma load_held:
  assumes "nvs_lawful N" "holds_primary N c n" "cred_fits c"
  shows "load_primary N n g = (True, c)"
proof -
  have "nv_open_ro N n NVS_WIFI = ESP_OK" using assms(2) nvs_open_ro [OF assms(1)] by (auto simp: holds_primary_def)
  then show ?thesis using assms(2,3)
    by (simp add: load_primary_def load_cred_def get_str_def load_str_def load_val_def holds_primary_def cred_fits_def
        SK_WIFI_SSID_MAX_def SK_WIFI_PASS_MAX_def SK_WIFI_IPCFG_MAX_def)
qed

lemma save_holds_primary:
  "nvs_lawful N \<Longrightarrow> holds_primary N c (wf_flash (sk_wifi_save_primary N c w))"
  by (simp add: holds_primary_def sk_wifi_save_primary_def save_cred_def nvs_simps Let_def primary_keys_differ)

lemma backup_keeps_primary:
  assumes "nvs_lawful N"
  shows "holds_primary N c (wf_flash (sk_wifi_save_backup N b w)) = holds_primary N c (wf_flash w)"
    "holds_primary N c (wf_flash (sk_wifi_clear_backup N w)) = holds_primary N c (wf_flash w)"
  using assms by (simp_all add: holds_primary_def wifi_saves save_cred_def clear_cred_def nvs_simps Let_def primary_keys_differ
      primary_keys_differ [symmetric])

text \<open>The commands and events that write or erase the primary slot.\<close>

primrec touches_primary :: "wifi_sched \<Rightarrow> bool" where
  "touches_primary (Deliver d ev) = False"
| "touches_primary (Resume d i) = False"
| "touches_primary (Command d now ctx cmd) =
     (cmd = CmdConnect \<and> ca_slot (connect_arguments ctx) = 0 \<or>
      cmd = CmdForget \<and> sk_cli_arg_named ctx ''slot'' \<in> {None, Some ''primary''})"
| "touches_primary BleTimer = False"
| "touches_primary WifiFactoryReset = True"
| "touches_primary (WifiPowerCycle d) = False"

lemma task_flash: "wf_flash (run_task N d t w) = wf_flash w"
  by (cases t) (auto simp: scan_mark_def scan_spawn_def schedule_mark_def schedule_spawn_def schedule_answer_def scan_worker_start_def scan_worker_end_def scan_begin_def connect_begin_def scan_done_def auto_connect_tasks(4)
      case_prod_beta split: option.split)

lemma boot_flash: "wf_flash (wifi_power_cycle N d w) = wf_flash w"
  by (simp add: wifi_power_cycle_def sk_wifi_init_def auto_connect_tasks(4) Let_def wifi_static_def)

lemma quiet_commands_flash:
  "cmd \<noteq> CmdConnect \<Longrightarrow> cmd \<noteq> CmdForget \<Longrightarrow> wf_flash (wifi_command N d now ctx cmd w) = wf_flash w"
  by (cases cmd) (auto simp: cmd_wifi_status_def sk_wifi_status_def cmd_wifi_scan_def cmd_wifi_list_def cmd_wifi_disconnect_def
      Let_def split: option.split prod.split)

lemma primary_command:
  assumes "nvs_lawful N" "\<not> touches_primary (Command d now ctx cmd)" "holds_primary N c (wf_flash w)"
  shows "holds_primary N c (wf_flash (wifi_command N d now ctx cmd w))"
proof -
  consider "cmd = CmdConnect" | "cmd = CmdForget" | "cmd \<noteq> CmdConnect" "cmd \<noteq> CmdForget" by blast
  then show ?thesis
  proof cases
    case 1
    then show ?thesis using assms by (simp add: cmd_wifi_connect_def Let_def backup_keeps_primary)
  next
    case 2
    have "parse_slot_arg ctx \<noteq> 0" "sk_cli_arg_named ctx ''slot'' \<noteq> None"
      using assms(2) 2 by (auto simp: parse_slot_arg_def parse_slot_token_def split: option.splits if_splits)
    then have "holds_primary N c (wf_flash (forget_slots N d ctx u))" if "holds_primary N c (wf_flash u)" for u
      using that assms(1) by (auto simp: forget_slots_def backup_keeps_primary)
    then show ?thesis using assms(3) 2 by (simp add: cmd_wifi_forget_def Let_def case_prod_beta split: option.split)
  qed (simp add: quiet_commands_flash assms(3))
qed

lemma primary_step:
  assumes "nvs_lawful N" "holds_primary N c (wf_flash w)" "\<not> touches_primary e"
  shows "holds_primary N c (wf_flash (wifi_do N w e))"
  using assms event_tasks [of N] primary_command [OF assms(1) _ assms(2)]
  by (cases e) (auto simp: task_flash boot_flash resume_ble_after_wifi_cb_def)

lemma primary_run:
  assumes "nvs_lawful N" "holds_primary N c (wf_flash w)" "\<forall>e \<in> set es. \<not> touches_primary e"
  shows "holds_primary N c (wf_flash (foldl (wifi_do N) w es))"
  using assms(2,3) by (induction es arbitrary: w) (simp_all add: primary_step [OF assms(1)])

lemma boot_connects:
  assumes "load_slot N d 1 (wf_flash u) = (True, c)"
  shows "wf_tasks (wifi_power_cycle N d u) = [BootSettling 1 c]" "wf_active_slot (wifi_power_cycle N d u) = 1"
  using assms by (simp_all add: wifi_power_cycle_def sk_wifi_init_def auto_connect_from_def connect_slot_begin_def Let_def
      wifi_static_def connect_begin_def)

text \<open>The credentials that \<open>wifi.connect\<close> stores for its arguments.\<close>

definition given_cred :: "cli_ctx \<Rightarrow> wifi_cred" where
  "given_cred ctx = (let a = connect_arguments ctx in
     \<lparr> cr_ssid = cut_arg SK_WIFI_SSID_MAX (ca_ssid a), cr_password = cut_arg SK_WIFI_PASS_MAX (ca_password a),
       cr_static_ip = cut_arg SK_WIFI_IPCFG_MAX (ca_static_ip a) \<rparr>)"

lemma given_fits: "ca_ssid (connect_arguments ctx) = Some s \<Longrightarrow> s \<noteq> [] \<Longrightarrow> cred_fits (given_cred ctx)"
  by (auto simp: given_cred_def cred_fits_def cut_arg_def Let_def SK_WIFI_SSID_MAX_def SK_WIFI_PASS_MAX_def
      SK_WIFI_IPCFG_MAX_def split: option.split)

lemma connect_command_saves:
  assumes "nvs_lawful N" "ca_ssid (connect_arguments ctx) = Some s" "s \<noteq> []" "ca_slot (connect_arguments ctx) = 0"
  shows "holds_primary N (given_cred ctx) (wf_flash (cmd_wifi_connect N d ctx w))"
  using save_holds_primary [OF assms(1), of "given_cred ctx" w] assms(2-4)
  by (simp add: cmd_wifi_connect_def schedule_wifi_connect_def schedule_answer_def given_cred_def Let_def split: prod.split)

text \<open>
  C28: the network given to \<open>wifi.connect\<close> for the primary slot is the one the device comes back to, up to the lengths of the
  fields: on a lawful flash, after the command (also when it answered that another connection is in flight), after any
  interleaving of events, tasks, commands and restarts that does not write or erase the primary slot, and after a
  power cycle, the start-up goes for the primary slot, hands the first 31 characters of its name and the first 63 of its
  password to the driver and asks for one connection, when the driver accepts its calls. (A name of 32
  characters, which the standard allows, is one character short then. The static address is not part of the statement.)
\<close>
theorem saved_network_comes_back:
  fixes N :: "'n nvs_ops" and w :: "'n wifi" and d :: drv and now :: int
  assumes "nvs_lawful N" "ca_ssid (connect_arguments ctx) = Some s" "s \<noteq> []" "ca_slot (connect_arguments ctx) = 0"
    and "\<forall>e \<in> set es. \<not> touches_primary e" and "driver_takes d'"
  defines "w' \<equiv> wifi_do N (foldl (wifi_do N) (wifi_do N w (Command d now ctx CmdConnect)) es) (WifiPowerCycle d')"
  shows "wf_tasks w' = [BootSettling 1 (given_cred ctx)] \<and> wf_active_slot w' = 1 \<and>
    WSetConfig (take 31 (cr_ssid (given_cred ctx))) (take 63 (cr_password (given_cred ctx)))
      \<in> set (wf_out (wifi_do N w' (Resume d' 0))) \<and>
    connects (wifi_do N w' (Resume d' 0)) = Suc (connects w') \<and> \<not> wf_pinned (wifi_do N w' (Resume d' 0))"
proof -
  let ?c = "given_cred ctx"
  define u where "u = foldl (wifi_do N) (wifi_do N w (Command d now ctx CmdConnect)) es"
  have "holds_primary N ?c (wf_flash u)"
    unfolding u_def using connect_command_saves [OF assms(1-4)] assms(5) by (intro primary_run [OF assms(1)]) simp_all
  from load_held [OF assms(1) this given_fits [OF assms(2,3)]]
  have l: "load_slot N d' 1 (wf_flash u) = (True, ?c)" by (simp add: load_slot_def)
  have t: "wf_tasks w' = [BootSettling 1 ?c]" "wf_active_slot w' = 1"
    unfolding w'_def u_def [symmetric] using boot_connects [OF l] by simp_all
  define v where "v = w'\<lparr>wf_tasks := []\<rparr>"
  have r: "wifi_do N w' (Resume d' 0) = snd (connect_finish d' ?c v)"
    using connect_finish_takes(1) [OF assms(6), of ?c v] by (simp add: t v_def case_prod_beta)
  have "WSetConfig (take 31 (cr_ssid ?c)) (take 63 (cr_password ?c)) \<in> set (wf_out (snd (connect_finish d' ?c v)))"
    using assms(6) by (auto simp: driver_takes_def connect_finish_def apply_static_ip_def publish_state_def clear_bits_def
        STA_SSID_SIZE_def STA_PASS_SIZE_def Let_def split: option.split)
  then show ?thesis using connect_finish_takes [OF assms(6), of ?c v]
    by (simp only: r t) (simp add: v_def)
qed

section \<open>Factory reset\<close>

definition no_network :: "'n nvs_ops \<Rightarrow> 'n \<Rightarrow> bool" where
  "no_network N n \<longleftrightarrow> nv_get N n NVS_WIFI KEY_PRIMARY_SSID = None \<and> nv_get N n NVS_WIFI KEY_BACKUP_SSID = None"

lemma no_network_load: "no_network N n \<Longrightarrow> fst (load_slot N d slot n) = False"
  by (auto simp: no_network_def load_slot_def load_primary_def load_backup_def load_cred_def get_str_def)

lemma clear_no_network:
  assumes "nvs_lawful N"
  shows "no_network N (wf_flash (sk_wifi_clear_backup N (sk_wifi_clear_primary N w)))"
    "no_network N (wf_flash w) \<Longrightarrow> no_network N (wf_flash (sk_wifi_clear_primary N w))"
    "no_network N (wf_flash w) \<Longrightarrow> no_network N (wf_flash (sk_wifi_clear_backup N w))"
  using assms by (simp_all add: no_network_def wifi_saves clear_cred_def nvs_simps Let_def primary_keys_differ)

primrec is_connect :: "wifi_sched \<Rightarrow> bool" where
  "is_connect (Deliver d ev) = False"
| "is_connect (Resume d i) = False"
| "is_connect (Command d now ctx cmd) = (cmd = CmdConnect)"
| "is_connect BleTimer = False"
| "is_connect WifiFactoryReset = False"
| "is_connect (WifiPowerCycle d) = False"

lemma no_network_forget:
  assumes "nvs_lawful N" "no_network N (wf_flash w)"
  shows "no_network N (wf_flash (forget_slots N d ctx w))"
  using clear_no_network [OF assms(1)] assms(2) by (simp add: forget_slots_def Let_def case_prod_beta split: option.split)

lemma no_network_step:
  assumes "nvs_lawful N" "no_network N (wf_flash w)" "\<not> is_connect e"
  shows "no_network N (wf_flash (wifi_do N w e))"
proof (cases e)
  case (Command d now ctx cmd)
  then show ?thesis
    using assms(2,3) no_network_forget [OF assms(1), of "w\<lparr>wf_confirm := cs\<rparr>" d ctx for cs] quiet_commands_flash [of cmd N d now ctx w]
    by (cases "cmd = CmdForget") (auto simp: cmd_wifi_forget_def Let_def case_prod_beta split: option.split)
qed (use assms event_tasks [of N] clear_no_network [OF assms(1)] in
    \<open>auto simp: task_flash boot_flash resume_ble_after_wifi_cb_def wifi_factory_reset_def\<close>)

text \<open>
  A factory reset forgets both networks: on a lawful flash, from any state and after any interleaving of events, tasks,
  commands other than \<open>wifi.connect\<close> and restarts, a device that was reset and is then switched on tries no
  network: it has no network name, no task that connects, and has asked the driver for no connection.
\<close>
theorem reset_forgets_networks:
  fixes N :: "'n nvs_ops" and w :: "'n wifi"
  assumes "nvs_lawful N" "\<forall>e \<in> set es. \<not> is_connect e"
  defines "u \<equiv> foldl (wifi_do N) (wifi_do N w WifiFactoryReset) es"
  shows "wf_ssid (wifi_do N u (WifiPowerCycle d)) = [] \<and> wf_tasks (wifi_do N u (WifiPowerCycle d)) = [] \<and>
    connects (wifi_do N u (WifiPowerCycle d)) = connects u"
proof -
  have "no_network N (wf_flash (wifi_do N w WifiFactoryReset))"
    by (simp add: wifi_factory_reset_def clear_no_network [OF assms(1)])
  then have "no_network N (wf_flash u)"
    unfolding u_def using assms(2)
    by (induction es arbitrary: w rule: rev_induct) (simp_all add: no_network_step [OF assms(1)])
  then have "fst (load_slot N d slot (wf_flash u)) = False" for slot by (rule no_network_load)
  then show ?thesis
    by (simp add: wifi_power_cycle_def sk_wifi_init_def auto_connect_from_def connect_slot_begin_def Let_def case_prod_beta
        wifi_static_def connects_def)
qed

end
