(* ===== verification/SkWifiTextProps.thy ===== *)
theory SkWifiTextProps
  imports SkWifiCommands "HOL-Library.Multiset"
begin

text \<open>
  The pure parts of the Wi-Fi component: the sort of the scan is the stable sort by falling signal, the
  address of a printed static configuration is read back with its network mask and gateway, and the answer of a
  scan holds every network.
\<close>

section \<open>The sort of the scan\<close>

text \<open>The insertion of one element from the right, on the reversed sorted part.\<close>

fun sink :: "scan_entry \<Rightarrow> scan_entry list \<Rightarrow> scan_entry list" where
  "sink k [] = [k]"
| "sink k (x # xs) = (if se_rssi x < se_rssi k then x # sink k xs else k # x # xs)"

lemma shift_loop_sink:
  "shift_loop (xs @ y # ys) k (length xs) = rev (sink k (rev xs)) @ ys"
proof (induction xs arbitrary: y ys rule: rev_induct)
  case (snoc x xs)
  have e: "(xs @ [x]) @ y # ys = (xs @ x # y # ys)" "length (xs @ [x]) = Suc (length xs)" by simp_all
  have u: "(xs @ x # y # ys)[Suc (length xs) := z] = xs @ x # z # ys" for z
    by (simp add: list_update_append)
  show ?case unfolding e shift_loop.simps u using snoc.IH [of x "x # ys"] by (simp add: nth_append)
qed simp

definition insert_by_rssi :: "scan_entry \<Rightarrow> scan_entry list \<Rightarrow> scan_entry list" where
  "insert_by_rssi k xs = rev (sink k (rev xs))"

lemma sort_loop:
  assumes "n \<le> length xs" "1 \<le> n"
  shows "sort_scan_by_rssi_desc xs n = foldl (\<lambda>s k. insert_by_rssi k s) [] (take n xs) @ drop n xs"
  using assms(2,1)
proof (induction n rule: dec_induct)
  case base
  then show ?case by (cases xs) (simp_all add: sort_scan_by_rssi_desc_def insert_by_rssi_def)
next
  case (step n)
  let ?s = "foldl (\<lambda>s k. insert_by_rssi k s) [] (take n xs)"
  have len: "length (sink k l) = Suc (length l)" for k l by (induction l) auto
  have l: "length ?s = n"
  proof -
    have "length (foldl (\<lambda>s k. insert_by_rssi k s) acc l) = length acc + length l" for acc l
      by (induction l arbitrary: acc) (simp_all add: insert_by_rssi_def len)
    then show ?thesis using step.prems by simp
  qed
  have d: "drop n xs = xs ! n # drop (Suc n) xs" using step.prems by (simp add: Cons_nth_drop_Suc)
  have "sort_scan_by_rssi_desc xs (Suc n) = shift_loop (?s @ drop n xs) ((?s @ drop n xs) ! n) n"
    using step.IH step.prems step.hyps by (simp add: sort_scan_by_rssi_desc_def)
  also have "\<dots> = shift_loop (?s @ xs ! n # drop (Suc n) xs) (xs ! n) (length ?s)"
    using l by (simp add: d nth_append)
  also have "\<dots> = insert_by_rssi (xs ! n) ?s @ drop (Suc n) xs" by (simp only: shift_loop_sink insert_by_rssi_def)
  finally show ?case using step.prems by (simp add: take_Suc_conv_app_nth)
qed

lemma mset_sink: "mset (sink k xs) = add_mset k (mset xs)"
  by (induction xs) auto

lemma set_sink: "set (sink k xs) = insert k (set xs)"
  by (induction xs) auto

lemma sorted_sink: "sorted (map se_rssi xs) \<Longrightarrow> sorted (map se_rssi (sink k xs))"
  by (induction xs) (auto simp: set_sink)

lemma filter_sink:
  assumes "sorted (map se_rssi xs)"
  shows "filter (\<lambda>x. se_rssi x = r) (sink k xs) = (if se_rssi k = r then k # filter (\<lambda>x. se_rssi x = r) xs else filter (\<lambda>x. se_rssi x = r) xs)"
  using assms by (induction xs) auto

text \<open>Falling signal, and networks of one signal in the order the driver gave them.\<close>

lemma insertions:
  defines "f \<equiv> foldl (\<lambda>s k. insert_by_rssi k s) []"
  shows "mset (f xs) = mset xs" "sorted (map se_rssi (rev (f xs)))"
    "filter (\<lambda>x. se_rssi x = r) (f xs) = filter (\<lambda>x. se_rssi x = r) xs"
proof -
  have s: "mset (f xs) = mset xs \<and> sorted (map se_rssi (rev (f xs)))" for xs
    unfolding f_def by (induction xs rule: rev_induct) (simp_all add: insert_by_rssi_def mset_sink sorted_sink)
  then show "mset (f xs) = mset xs" "sorted (map se_rssi (rev (f xs)))" by simp_all
  show "filter (\<lambda>x. se_rssi x = r) (f xs) = filter (\<lambda>x. se_rssi x = r) xs"
  proof (induction xs rule: rev_induct)
    case (snoc x xs)
    have "filter (\<lambda>x. se_rssi x = r) (insert_by_rssi x (f xs)) =
        rev (filter (\<lambda>x. se_rssi x = r) (sink x (rev (f xs))))"
      by (simp add: insert_by_rssi_def rev_filter)
    also have "\<dots> = filter (\<lambda>x. se_rssi x = r) (f xs) @ (if se_rssi x = r then [x] else [])"
      using s [of xs] by (simp add: filter_sink rev_filter [symmetric])
    finally show ?case using snoc by (simp add: f_def)
  qed (simp add: f_def)
qed

lemma insertions_sort_key: "foldl (\<lambda>s k. insert_by_rssi k s) [] xs = sort_key (\<lambda>e. - se_rssi e) xs"
proof -
  let ?f = "foldl (\<lambda>s k. insert_by_rssi k s) []"
  have "sort_key (\<lambda>e. - se_rssi e) xs = ?f xs"
  proof (rule properties_for_sort_key)
    show "mset (?f xs) = mset xs" by (rule insertions(1))
    show "filter (\<lambda>x. - se_rssi k = - se_rssi x) (?f xs) = filter (\<lambda>x. - se_rssi k = - se_rssi x) xs" for k
      using insertions(3) [of "se_rssi k" xs] by (simp add: eq_commute [of "se_rssi k"])
    have "sorted_wrt (\<lambda>x y. se_rssi x \<ge> se_rssi y) (?f xs)"
      using insertions(2) [of xs] by (simp add: sorted_map sorted_wrt_rev)
    then show "sorted (map (\<lambda>e. - se_rssi e) (?f xs))" by (simp add: sorted_map)
  qed
  then show ?thesis by simp
qed

text \<open>
  The array loop that sorts the networks of a scan is the stable sort by falling signal strength: the strongest
  network comes first, networks of equal strength stay in the order of the driver, none is lost or repeated, and
  the entries beyond the count are untouched.
\<close>
theorem scan_sort_is_stable_sort:
  assumes "n \<le> length xs"
  shows "sort_scan_by_rssi_desc xs n = sort_key (\<lambda>e. - se_rssi e) (take n xs) @ drop n xs"
proof (cases "n = 0")
  case True
  then show ?thesis by (simp add: sort_scan_by_rssi_desc_def)
next
  case False
  then show ?thesis using sort_loop [OF assms] by (simp add: insertions_sort_key)
qed

section \<open>The answer of a scan\<close>

lemma print_piece_fits:
  "length out + length p < cap \<Longrightarrow> print_piece cap (out, length out) p = Some (out @ p, length (out @ p))"
  by (simp add: print_piece_def snprintf_fits)

lemma length_dec_int32: "- 2147483648 \<le> i \<Longrightarrow> i < 2147483648 \<Longrightarrow> length (dec_int i) \<le> 11"
  using length_dec_nat [of "nat i" 9] length_dec_nat [of "nat (- i)" 9] by (cases "i < 0") (simp_all add: dec_int_def nat_less_iff)

text \<open>What the driver reports: a name of at most 32 bytes, whatever they are, and C integers.\<close>

definition entry_ok :: "scan_entry \<Rightarrow> bool" where
  "entry_ok e \<longleftrightarrow> length (se_ssid e) \<le> 32 \<and> - 2147483648 \<le> se_rssi e \<and> se_rssi e < 2147483648 \<and>
     - 2147483648 \<le> se_auth e \<and> se_auth e < 2147483648"

lemma scan_row_length: "entry_ok e \<Longrightarrow> length (scan_row b e) \<le> 82"
  using length_dec_int32 [of "se_rssi e"] length_dec_int32 [of "se_auth e"]
  by (simp add: entry_ok_def scan_row_def jk_def jq_def q_def)

fun all_rows :: "bool \<Rightarrow> scan_entry list \<Rightarrow> string" where
  "all_rows b [] = []"
| "all_rows b (e # es) = scan_row b e @ all_rows False es"

lemma all_rows_length: "list_all entry_ok es \<Longrightarrow> length (all_rows b es) \<le> 82 * length es"
proof (induction es arbitrary: b)
  case (Cons e es)
  have "length (all_rows False es) \<le> 82 * length es" using Cons by simp
  then show ?case using scan_row_length [of e b] Cons.prems by simp
qed simp

lemma scan_rows_fit:
  "list_all entry_ok es \<Longrightarrow> length out + 82 * length es < 1900 \<Longrightarrow>
    scan_rows b es (out, length out) = Some (out @ all_rows b es, length (out @ all_rows b es))"
proof (induction es arbitrary: b out)
  case (Cons e es)
  have r: "length (scan_row b e) \<le> 82" using Cons.prems(1) by (simp add: scan_row_length)
  then have "print_piece 2048 (out, length out) (scan_row b e) = Some (out @ scan_row b e, length (out @ scan_row b e))"
    using Cons.prems(2) by (intro print_piece_fits) simp
  moreover have "scan_rows False es (out @ scan_row b e, length (out @ scan_row b e)) =
      Some ((out @ scan_row b e) @ all_rows False es, length ((out @ scan_row b e) @ all_rows False es))"
    using Cons.prems r by (intro Cons.IH) simp_all
  ultimately show ?case using Cons.prems(2) by simp
qed simp

text \<open>
  The answer to \<open>wifi.scan\<close> is complete: for at most twelve networks, with names of up to 32 arbitrary bytes and any
  C integers, the text is the head, every network and the closing bracket, nothing cut off and nothing written past
  the buffer of 2048 bytes.
\<close>
theorem scan_answer_complete:
  assumes "length es \<le> 12" "list_all entry_ok es" "- 2147483648 \<le> sj_id j" "sj_id j < 2147483648"
  defines "txt \<equiv> scan_head j @ all_rows True es @ (if sj_machine j then '']}\<newline>'' else '']\<newline>'')"
  shows "scan_text j es = Some (txt, length txt) \<and> length txt < 2048"
proof -
  have h: "length (scan_head j) \<le> 40"
    using length_dec_int32 [OF assms(3,4)] by (simp add: scan_head_def jk_def q_def)
  have "print_piece 2048 ([], length ([] :: string)) (scan_head j) = Some ([] @ scan_head j, length ([] @ scan_head j))"
    using h by (intro print_piece_fits) simp
  moreover have "scan_rows True es (scan_head j, length (scan_head j)) =
      Some (scan_head j @ all_rows True es, length (scan_head j @ all_rows True es))"
    using assms(1,2) h by (intro scan_rows_fit) simp_all
  moreover have l: "length (scan_head j @ all_rows True es) < 2000"
    using h assms(1) all_rows_length [OF assms(2), of True] by simp
  moreover have "print_piece 2048 (scan_head j @ all_rows True es, length (scan_head j @ all_rows True es)) c =
      Some ((scan_head j @ all_rows True es) @ c, length ((scan_head j @ all_rows True es) @ c))" if "length c \<le> 3" for c
    using that l by (intro print_piece_fits) simp
  ultimately show ?thesis by (simp add: scan_text_def txt_def)
qed

section \<open>Static addresses\<close>

lemma dropWhile_digits: "r = [] \<or> \<not> is_digit (hd r) \<Longrightarrow> dropWhile is_digit (dec_nat n @ r) = r"
  using dec_nat_digits [of n] by (cases r) (auto simp: dropWhile_append)

lemma takeWhile_digits: "r = [] \<or> \<not> is_digit (hd r) \<Longrightarrow> takeWhile is_digit (dec_nat n @ r) = dec_nat n"
  using dec_nat_digits [of n] by (cases r) (auto simp: takeWhile_append)

lemma scan_int_dec:
  assumes "int n \<le> LONG_MAX" "r = [] \<or> \<not> is_digit (hd r)"
  shows "scan_int (dec_nat n @ r) = Some (int n, r)"
proof -
  obtain c cs where d: "dec_nat n = c # cs" using dec_nat_nonempty [of n] by (cases "dec_nat n") auto
  have c: "is_digit c" using dec_nat_digits [of n] by (simp add: d)
  have w: "dropWhile is_space (dec_nat n @ r) = dec_nat n @ r" using is_digit_not_space [OF c] by (simp add: d)
  have "(case dec_nat n @ r of [] \<Rightarrow> (False, dec_nat n @ r)
      | c # cs \<Rightarrow> if c = CHR ''-'' then (True, cs) else if c = CHR ''+'' then (False, cs) else (False, dec_nat n @ r)) =
      (False, dec_nat n @ r)"
    using is_digit_not_sign [OF c] by (simp add: d)
  then show ?thesis using assms(1)
    by (simp add: scan_int_def Let_def w takeWhile_digits [OF assms(2)] dropWhile_digits [OF assms(2)] digits_value_dec_nat
        dec_nat_nonempty clamp_long_def LONG_MIN_def)
qed

lemma octet_range: "0 \<le> uint (a :: u8)" "uint (a :: u8) < 256"
  using uint_bounded [of a] by simp_all

lemma octet_ok: "octet_ok (uint (a :: u8))"
  using octet_range [of a] by (simp add: octet_ok_def)

lemma scan_int_octet:
  assumes "r = [] \<or> \<not> is_digit (hd r)"
  shows "scan_int (dec_nat (unat (a :: u8)) @ r) = Some (uint a, r)"
  using scan_int_dec [of "unat a" r] octet_range [of a] assms by (simp add: LONG_MAX_def)

lemma not_digit_sep: "\<not> is_digit CHR ''.''" "\<not> is_digit CHR ''/''"
  by (simp_all add: is_digit_def char_code_def)

lemma scan_dotted:
  assumes "p \<le> 32"
  shows "scan_ints ''.../'' (dotted a b c d) = [uint a, uint b, uint c, uint d]"
    "scan_ints ''.../'' (dotted a b c d @ ''/'' @ dec_nat p) = [uint a, uint b, uint c, uint d, int p]"
proof -
  have p: "int p \<le> LONG_MAX" using assms by (simp add: LONG_MAX_def)
  show "scan_ints ''.../'' (dotted a b c d) = [uint a, uint b, uint c, uint d]"
    using scan_int_octet [of "[]" d]
    by (simp add: dotted_def scan_int_octet not_digit_sep)
  show "scan_ints ''.../'' (dotted a b c d @ ''/'' @ dec_nat p) = [uint a, uint b, uint c, uint d, int p]"
    using scan_int_dec [OF p, of "[]"]
    by (simp add: dotted_def scan_int_octet not_digit_sep)
qed

lemma octet_u32: "to_u32 (uint (a :: u8)) = ucast a"
  by (simp add: to_u32_def)

text \<open>The fields of the address, its mask and its gateway, bit by bit.\<close>

lemma address_bits:
  fixes a b c d :: u8
  defines "i \<equiv> address_info (uint a) (uint b) (uint c) (uint d)"
  assumes "1 \<le> p" "p \<le> 32"
  shows "ucast (drop_bit 24 (ii_ip (i p))) = a" "ucast (drop_bit 16 (ii_ip (i p))) = b"
    "ucast (drop_bit 8 (ii_ip (i p))) = c" "ucast (ii_ip (i p)) = d"
    "ii_netmask (i p) = NOT (mask (nat (32 - p)))" "ii_gw (i p) = (ii_ip (i p) AND ii_netmask (i p)) OR 1"
proof -
  have ip: "ii_ip (i p) = push_bit 24 (ucast a) OR push_bit 16 (ucast b) OR push_bit 8 (ucast c) OR ucast d"
    by (simp add: i_def address_info_def Let_def octet_u32)
  show "ucast (drop_bit 24 (ii_ip (i p))) = a" "ucast (drop_bit 16 (ii_ip (i p))) = b"
    "ucast (drop_bit 8 (ii_ip (i p))) = c" "ucast (ii_ip (i p)) = d"
    unfolding ip by (rule bit_word_eqI; auto simp: bit_simps dest: bit_imp_le_length)+
  show "ii_netmask (i p) = NOT (mask (nat (32 - p)))"
    by (simp add: i_def address_info_def Let_def mask_eq_exp_minus_1 push_bit_eq_mult)
  show "ii_gw (i p) = (ii_ip (i p) AND ii_netmask (i p)) OR 1" by (simp add: i_def address_info_def Let_def)
qed

lemma gateway_in_network: "0 < k \<Longrightarrow> ((ip AND NOT (mask k)) OR 1) AND NOT (mask k) = (ip AND NOT (mask k) :: u32)"
  by (rule bit_word_eqI) (auto simp: bit_simps)

text \<open>
  A static address is read back: from \<open>a.b.c.d/p\<close>, for all octets and prefix lengths from 1 to 32, the
  parser makes the address whose octets are those, the mask of \<open>p\<close> leading ones, and, for prefixes below 32, a
  gateway inside the network; from \<open>a.b.c.d\<close> it makes the same as from \<open>a.b.c.d/24\<close>.
\<close>
theorem static_address_read_back:
  assumes "1 \<le> p" "p \<le> 32"
  shows "\<exists>i. parse_static_ip (dotted a b c d @ ''/'' @ dec_nat p) = Some i \<and>
    dotted (ucast (drop_bit 24 (ii_ip i))) (ucast (drop_bit 16 (ii_ip i))) (ucast (drop_bit 8 (ii_ip i))) (ucast (ii_ip i)) = dotted a b c d \<and>
    ii_netmask i = NOT (mask (32 - p)) \<and> (p = 32 \<or> ii_gw i AND ii_netmask i = ii_ip i AND ii_netmask i) \<and>
    parse_static_ip (dotted a b c d) = parse_static_ip (dotted a b c d @ ''/24'')"
proof -
  let ?i = "address_info (uint a) (uint b) (uint c) (uint d) (int p)"
  have n: "dotted a b c d \<noteq> []" using dec_nat_nonempty by (simp add: dotted_def)
  have q24: "''/24'' = ''/'' @ dec_nat 24" by (simp add: dec_nat.simps digit_char_def)
  have "parse_static_ip (dotted a b c d @ ''/'' @ dec_nat p) = Some ?i"
    using assms by (simp add: parse_static_ip_def n scan_dotted(2) [OF assms(2), simplified] octet_ok)
  moreover have "parse_static_ip (dotted a b c d) = parse_static_ip (dotted a b c d @ ''/24'')"
    unfolding q24 by (simp add: parse_static_ip_def n scan_dotted [of 24, simplified] octet_ok)
  moreover have "ii_netmask ?i = NOT (mask (32 - p))"
    using address_bits(5) [of "int p"] assms by (simp add: nat_diff_distrib)
  moreover have "p = 32 \<or> ii_gw ?i AND ii_netmask ?i = ii_ip ?i AND ii_netmask ?i"
    using address_bits(6) [of "int p" a b c d] gateway_in_network [of "32 - p"] assms calculation(3) by (cases "p = 32") simp_all
  ultimately show ?thesis using address_bits(1-4) [of "int p" a b c d] assms by simp
qed

end
