(* ===== verification/SkWifiExamples.thy ===== *)
theory SkWifiExamples
  imports SkWifiRunProps SkWifiTextProps
begin

text \<open>
  Concrete Wi-Fi devices: the witnesses of the properties, and runs that show what the code does with an open
  network in the backup slot, with the primary slot forgotten while the backup is in use, and with a connect worker
  beside a change of slot.
\<close>

definition toy_drv :: drv where
  "toy_drv = \<lparr> dr_set_config = (\<lambda>s p. ESP_OK), dr_set_ip = ESP_OK, dr_connect = DrvErr ESP_OK, dr_disconnect = ESP_OK,
     dr_ap_info = Some (-50), dr_scan_start = ESP_OK,
     dr_scan_records = (ESP_OK, [\<lparr> se_ssid = ''far'', se_rssi = -80, se_auth = 3 \<rparr>, \<lparr> se_ssid = ''near'', se_rssi = -40, se_auth = 3 \<rparr>]),
     dr_mem_job = True, dr_task_ok = True, dr_mem_list = True, dr_mem_recs = True, dr_mem_dyn = True, dr_mem_buf = True,
     dr_timer = True, dr_netif = True, stack_cred = \<lparr> cr_ssid = ''?'', cr_password = ''?'', cr_static_ip = ''?'' \<rparr>,
     dr_ssid_end = [], dr_ip_end = ''?'' \<rparr>"

definition home :: wifi_cred where
  "home = \<lparr> cr_ssid = ''Home'', cr_password = ''pass1234'', cr_static_ip = [] \<rparr>"

definition office :: wifi_cred where
  "office = \<lparr> cr_ssid = ''Office'', cr_password = ''pass5678'', cr_static_ip = [] \<rparr>"

definition toy_flash :: nvs_map where
  "toy_flash = snd (save_cred nvs_map_ops KEY_BACKUP_SSID KEY_BACKUP_PASS KEY_BACKUP_IP office
     (snd (save_cred nvs_map_ops KEY_PRIMARY_SSID KEY_PRIMARY_PASS KEY_PRIMARY_IP home (\<lambda>x. None))))"

definition typed :: "string list \<Rightarrow> cli_ctx" where
  "typed args = \<lparr> is_machine_mode = False, command_name = ''wifi.connect'', confirm_token = None, authenticated = True,
     machine_args = None, machine_id = -1, human_argv = args \<rparr>"

text \<open>A device that is connected to the primary network.\<close>

definition connected_dev :: "nvs_map wifi" where
  "connected_dev = (wifi_static toy_flash)\<lparr>wf_ssid := ''Home'', wf_ip := ''10.0.0.7'', wf_ready := True, wf_active_slot := 1,
     wf_bits := Some (True, False), wf_netif := True\<rparr>"

lemma toy_takes: "driver_takes toy_drv"
  by (simp add: driver_takes_def toy_drv_def)

lemma toy_slots: "load_slot nvs_map_ops toy_drv 1 toy_flash = (True, home)" "load_slot nvs_map_ops toy_drv 2 toy_flash = (True, office)"
  by (simp_all add: load_slot_def load_primary_def load_backup_def load_cred_def save_cred_def toy_flash_def nvs_map_ops_def
      nv_put_def get_str_def load_str_def load_val_def home_def office_def NVS_WIFI_def KEY_PRIMARY_SSID_def KEY_PRIMARY_PASS_def
      KEY_PRIMARY_IP_def KEY_BACKUP_SSID_def KEY_BACKUP_PASS_def KEY_BACKUP_IP_def SK_WIFI_SSID_MAX_def SK_WIFI_PASS_MAX_def
      SK_WIFI_IPCFG_MAX_def)

lemma connected_fields: "wf_tasks connected_dev = []" "wf_flash connected_dev = toy_flash" "wf_out connected_dev = []"
  "wf_ssid connected_dev = ''Home''" "\<not> wf_pinned connected_dev" "wf_fails connected_dev = 0" "wf_active_slot connected_dev = 1"
  by (simp_all add: connected_dev_def wifi_static_def)

theorem disconnect_is_sticky_witness:
  "connects (foldl (wifi_do nvs_map_ops) (wifi_do nvs_map_ops connected_dev (Command toy_drv 0 (typed []) CmdDisconnect))
     [Deliver toy_drv (StaDisconnected (Some 8)), Command toy_drv 1 (typed []) CmdScan, Resume toy_drv 0, Resume toy_drv 0,
      WifiFactoryReset, Deliver toy_drv (StaDisconnected None)]) = connects connected_dev"
  by (rule disconnect_is_sticky) (simp_all add: connected_fields)

definition scan_one :: scan_job where
  "scan_one = \<lparr> sj_id = 1, sj_machine = True \<rparr>"

definition scanning_dev :: "nvs_map wifi" where
  "scanning_dev = connected_dev\<lparr>wf_tasks := [ScanQueued scan_one], wf_scan_active := True\<rparr>"

theorem scan_takes_device_offline_witness:
  "wf_out (wifi_do nvs_map_ops scanning_dev (Resume toy_drv 0)) = wf_out scanning_dev @ [WDisconnect] \<and>
   connects (foldl (wifi_do nvs_map_ops) (wifi_do nvs_map_ops scanning_dev (Resume toy_drv 0))
     [Deliver toy_drv (StaDisconnected (Some 8)), Resume toy_drv 0, Deliver toy_drv (StaDisconnected None)]) = connects scanning_dev"
  by (rule scan_takes_device_offline) (simp_all add: scanning_dev_def toy_drv_def)

theorem retries_alternate_witness:
  "wf_active_slot (foldl (fail_round nvs_map_ops) connected_dev (replicate 5 (toy_drv, Some 201))) = 2 \<and>
   wf_ssid (foldl (fail_round nvs_map_ops) connected_dev (replicate 5 (toy_drv, Some 201))) = ''Office''"
  using retries_alternate [of connected_dev "replicate 5 (toy_drv, Some 201)" nvs_map_ops home office]
  by (simp add: connected_fields toy_slots [simplified] toy_takes other_slot_def office_def)

theorem saved_network_comes_back_witness:
  "wf_tasks (wifi_do nvs_map_ops (foldl (wifi_do nvs_map_ops)
     (wifi_do nvs_map_ops connected_dev (Command toy_drv 0 (typed [''Home'', ''pass1234'']) CmdConnect))
     [Resume toy_drv 0, Command toy_drv 1 (typed []) CmdScan, Command toy_drv 2 (typed []) CmdDisconnect]) (WifiPowerCycle toy_drv)) =
   [BootSettling 1 home]"
proof -
  have a: "connect_arguments (typed [''Home'', ''pass1234'']) =
      \<lparr> ca_ssid = Some ''Home'', ca_password = Some ''pass1234'', ca_static_ip = None, ca_slot = 0 \<rparr>"
    by code_simp
  have "given_cred (typed [''Home'', ''pass1234'']) = home" by code_simp
  then show ?thesis
    using saved_network_comes_back [OF nvs_map_lawful, of "typed [''Home'', ''pass1234'']" "''Home''"
      "[Resume toy_drv 0, Command toy_drv 1 (typed []) CmdScan, Command toy_drv 2 (typed []) CmdDisconnect]" toy_drv connected_dev toy_drv 0] a
    by (simp add: toy_takes)
qed

theorem reset_forgets_networks_witness:
  "wf_tasks (wifi_do nvs_map_ops (foldl (wifi_do nvs_map_ops) (wifi_do nvs_map_ops connected_dev WifiFactoryReset)
     [Deliver toy_drv (StaDisconnected None)]) (WifiPowerCycle toy_drv)) = []"
  using reset_forgets_networks [OF nvs_map_lawful, of "[Deliver toy_drv (StaDisconnected None)]" connected_dev toy_drv] by simp

theorem scan_sort_is_stable_sort_witness:
  "sort_scan_by_rssi_desc (snd (dr_scan_records toy_drv)) 2 =
     [\<lparr> se_ssid = ''near'', se_rssi = -40, se_auth = 3 \<rparr>, \<lparr> se_ssid = ''far'', se_rssi = -80, se_auth = 3 \<rparr>]"
  using scan_sort_is_stable_sort [of 2 "snd (dr_scan_records toy_drv)"] by (simp add: toy_drv_def)

theorem scan_answer_complete_witness:
  "\<exists>txt. scan_text \<lparr> sj_id = 7, sj_machine = True \<rparr> (snd (dr_scan_records toy_drv)) = Some (txt, length txt)"
  using scan_answer_complete [of "snd (dr_scan_records toy_drv)" "\<lparr> sj_id = 7, sj_machine = True \<rparr>"]
  by (simp add: toy_drv_def entry_ok_def)

theorem static_address_read_back_witness:
  "parse_static_ip (dotted 192 168 1 50) = parse_static_ip (dotted 192 168 1 50 @ ''/24'')"
  using static_address_read_back [of 24 192 168 1 50] by auto

section \<open>What the code does\<close>

text \<open>
  \<open>wifi connect <ssid> [password] ... [primary|backup]\<close>: for an open network in the backup slot the word \<open>backup\<close>
  is taken for the password and the network for the primary one.
\<close>

lemma open_backup_network_overwrites_primary:
  "connect_arguments (typed [''Cafe'', ''backup'']) =
     \<lparr> ca_ssid = Some ''Cafe'', ca_password = Some ''backup'', ca_static_ip = None, ca_slot = 0 \<rparr>"
  by code_simp

text \<open>Anything that follows the address without being a prefix length is ignored.\<close>

lemma junk_after_address:
  "parse_static_ip ''10.0.0.9:24'' = parse_static_ip ''10.0.0.9/24''" "parse_static_ip ''10.0.0.9/x'' = parse_static_ip ''10.0.0.9/24''"
  by code_simp+

text \<open>
  Forgetting the primary network while the device is connected through the backup takes it offline: the
  untouched backup slot stays in flash, but the link is dropped and pinned down.
\<close>

lemma forget_unused_primary_drops_backup:
  assumes "wf_active_slot w = 2" "parse_slot_arg ctx = 0" "sk_cli_arg_named ctx ''slot'' = Some ''primary''"
  shows "wf_pinned (forget_slots N d ctx w) \<and> wf_active_slot (forget_slots N d ctx w) = 0 \<and>
    WDisconnect \<in> set (wf_out (forget_slots N d ctx w))"
  using assms by (simp add: forget_slots_def sk_wifi_clear_primary_def sk_wifi_disconnect_def answer_def Let_def)

text \<open>
  The single flight of the connect worker does not cover the change of slot: a run after which a worker and the
  event task are both between their disconnect and their configuration of the driver.
\<close>

lemma worker_beside_swap:
  "wf_tasks (foldl (wifi_do nvs_map_ops) (connected_dev\<lparr>wf_fails := 4, wf_tasks := [ConnectParting home], wf_worker_active := True\<rparr>)
     [Deliver toy_drv (StaDisconnected None), Resume toy_drv 0]) = [SwapSettling office, ConnectSettling home]"
  using toy_slots(2)
  by (simp add: connected_fields on_disconnected_def publish_state_def set_bit_fail_def FAILS_BEFORE_SWAP_def other_slot_def
      connect_slot_begin_def connect_begin_def Let_def connected_dev_def wifi_static_def)

text \<open>
  A change of slot under way undoes the scan: it finishes after the scan has dropped the link, clears the flag that holds the
  event task back and asks for a connection.
\<close>

lemma swap_undoes_scan:
  fixes N :: "'n nvs_ops"
  assumes "wf_tasks w = [SwapSettling c, ScanQueued j]" "dr_mem_list d" "driver_takes d"
  defines "w1 \<equiv> wifi_do N w (Resume d 1)" and "w2 \<equiv> wifi_do N (wifi_do N w (Resume d 1)) (Resume d 0)"
  shows "wf_out w1 = wf_out w @ [WDisconnect]" "\<not> wf_pinned w2" "connects w2 = Suc (connects w)"
proof -
  have w1: "wf_tasks w1 = [SwapSettling c, ScanSettling j]" "wf_out w1 = wf_out w @ [WDisconnect]" "connects w1 = connects w"
    using assms(1,2) by (simp_all add: w1_def scan_worker_start_def scan_begin_def connects_def)
  define u where "u = w1\<lparr>wf_tasks := [ScanSettling j]\<rparr>"
  have "w2 = wifi_do N w1 (Resume d 0)" by (simp only: w2_def w1_def)
  also have "\<dots> = (snd (connect_finish d c u))\<lparr>wf_fails := 0\<rparr>"
    using w1(1) connect_finish_takes(1) [OF assms(3), of c u] by (simp add: u_def case_prod_beta)
  finally have "w2 = (snd (connect_finish d c u))\<lparr>wf_fails := 0\<rparr>" .
  then show "wf_out w1 = wf_out w @ [WDisconnect]" "\<not> wf_pinned w2" "connects w2 = Suc (connects w)"
    using w1 connect_finish_takes [OF assms(3), of c u] by (simp_all add: u_def)
qed

text \<open>
  Two handlers of \<open>wifi.connect\<close>, for example of the USB and of the Bluetooth task, that overlap between the test and the
  setting of the busy flag start two connect workers; both are told that their network is being connected.
\<close>

lemma two_workers_race:
  assumes "wf_tasks w = []" "\<not> wf_worker_active w" "dr_mem_job d" "dr_task_ok d"
    and "ca_ssid (connect_arguments x) = Some s" "s \<noteq> []" "ca_slot (connect_arguments x) = 0"
    and "ca_ssid (connect_arguments y) = Some t" "t \<noteq> []" "ca_slot (connect_arguments y) = 0"
  shows "wf_tasks (foldl (wifi_do N) w [Command d 0 x CmdConnect, Command d 0 y CmdConnect, Resume d 0, Resume d 0, Resume d 0, Resume d 0]) =
    [ConnectQueued (given_cred x), ConnectQueued (given_cred y)]"
proof -
  have c: "wf_tasks (cmd_wifi_connect N d z u) = wf_tasks u @ [ConnectCalling (given_cred z)]"
    "\<not> wf_worker_active (cmd_wifi_connect N d z u)"
    if "\<not> wf_worker_active u" "ca_ssid (connect_arguments z) = Some r" "r \<noteq> []" "ca_slot (connect_arguments z) = 0" for u z r
    using that assms(3) by (simp_all add: cmd_wifi_connect_def schedule_wifi_connect_def given_cred_def Let_def)
  define u where "u = wifi_do N (wifi_do N w (Command d 0 x CmdConnect)) (Command d 0 y CmdConnect)"
  have u: "wf_tasks u = [ConnectCalling (given_cred x), ConnectCalling (given_cred y)]"
    using assms c by (simp add: u_def)
  have "wf_tasks (foldl (wifi_do N) u [Resume d 0, Resume d 0, Resume d 0, Resume d 0]) = [ConnectQueued (given_cred x), ConnectQueued (given_cred y)]"
    using u assms(4) by (simp add: schedule_mark_def schedule_spawn_def schedule_answer_def)
  then show ?thesis by (simp add: u_def)
qed

lemma two_workers_race_toy:
  "count_tasks is_worker_task (foldl (wifi_do nvs_map_ops) connected_dev
     [Command toy_drv 0 (typed [''Home'', ''pass1234'']) CmdConnect, Command toy_drv 0 (typed [''Office'', ''pass5678'']) CmdConnect,
      Resume toy_drv 0, Resume toy_drv 0, Resume toy_drv 0, Resume toy_drv 0]) = 2"
proof -
  have a: "connect_arguments (typed [''Home'', ''pass1234'']) =
      \<lparr> ca_ssid = Some ''Home'', ca_password = Some ''pass1234'', ca_static_ip = None, ca_slot = 0 \<rparr>"
    "connect_arguments (typed [''Office'', ''pass5678'']) =
      \<lparr> ca_ssid = Some ''Office'', ca_password = Some ''pass5678'', ca_static_ip = None, ca_slot = 0 \<rparr>"
    by code_simp+
  have "wf_tasks connected_dev = [] \<and> \<not> wf_worker_active connected_dev \<and> dr_mem_job toy_drv \<and> dr_task_ok toy_drv"
    by (simp add: connected_dev_def wifi_static_def toy_drv_def)
  with two_workers_race [of connected_dev toy_drv "typed [''Home'', ''pass1234'']" "''Home''" "typed [''Office'', ''pass5678'']" "''Office''" nvs_map_ops]
  show ?thesis by (simp add: a count_tasks_def del: foldl_Cons wifi_do.simps)
qed

text \<open>A command after the start, and then a second one when the first worker has its flag set.\<close>

theorem workers_single_flight_witness:
  "count_tasks is_worker_task (foldl (wifi_do nvs_map_ops) (wifi_power_cycle nvs_map_ops toy_drv connected_dev)
     [Resume toy_drv 0, Command toy_drv 0 (typed []) CmdScan, Resume toy_drv 0, Command toy_drv 1 (typed []) CmdScan]) =
   (if wf_worker_active (foldl (wifi_do nvs_map_ops) (wifi_power_cycle nvs_map_ops toy_drv connected_dev)
     [Resume toy_drv 0, Command toy_drv 0 (typed []) CmdScan, Resume toy_drv 0, Command toy_drv 1 (typed []) CmdScan]) then 1 else 0)"
proof -
  let ?es = "[Resume toy_drv 0, Command toy_drv 0 (typed []) CmdScan, Resume toy_drv 0, Command toy_drv 1 (typed []) CmdScan]"
  let ?w = "wifi_power_cycle nvs_map_ops toy_drv connected_dev"
  have "load_slot nvs_map_ops toy_drv 1 (wf_flash connected_dev) = (True, home)" using toy_slots(1) by (simp add: connected_fields)
  from boot_connects [OF this] have t: "wf_tasks ?w = [BootSettling 1 home]" by simp
  define v where "v = wifi_do nvs_map_ops ?w (Resume toy_drv 0)"
  have v: "wf_tasks v = []" using t connect_finish_takes [OF toy_takes, of home "?w\<lparr>wf_tasks := []\<rparr>"]
    by (simp add: v_def case_prod_beta)
  have "calls_apart nvs_map_ops ?w ?es"
    by (simp add: apart_def v_def [symmetric] del: wifi_do.simps(2))
      (simp add: count_tasks_def v cmd_wifi_scan_def scan_mark_def)
  from workers_single_flight [OF this] show ?thesis by (rule conjunct1)
qed

text \<open>An address of fifteen characters is answered with what the stack holds behind it.\<close>

lemma long_address_unterminated:
  "ws_ip (fst (sk_wifi_status d (w\<lparr>wf_bits := Some (True, False), wf_ip := ''192.168.178.100''\<rparr>))) = ''192.168.178.100'' @ dr_ip_end d"
  by (simp add: sk_wifi_status_def unterminated_def Let_def split: option.split)

end
