(* ===== verification/LsSystemProps.thy ===== *)
theory LsSystemProps
  imports LsSystem LsTimerProps LsResetApiProps
begin

text \<open>
  The components together: an unattended device fires its outputs exactly once and at its deadline, whoever sends
  requests without the key; a request with the key postpones it; a factory reset reaches every component; no event
  is lost by nesting.
\<close>

section \<open>Delivery at the booted device\<close>

definition booted :: "'n device \<Rightarrow> bool" where
  "booted D \<longleftrightarrow> \<not> d_restart D \<and> ready (d_bus D) \<and> subs (d_bus D) = subs (boot_bus boot_subscriptions (sk_event_bus_init bus_static))"

lemma boot_table_fits:
  "length boot_subscriptions \<le> SK_EVT_MAX_SUBSCRIBERS" "\<forall>r \<in> set boot_subscriptions. length (fst r) < SK_EVT_FILTER_MAXLEN"
  by (simp_all add: boot_subscriptions_def SK_EVT_MAX_SUBSCRIBERS_def SK_EVT_FILTER_MAXLEN_def)

definition addressees :: "string \<Rightarrow> hook list" where
  "addressees name = map snd (filter (\<lambda>r. filter_matches (fst r) name) boot_subscriptions)"

lemma matched_boot:
  "matched name (subs (boot_bus boot_subscriptions (sk_event_bus_init bus_static))) = map Some (addressees name)"
proof -
  have e: "filter (\<lambda>s. in_use s \<and> filter_matches (sub_filter s) name) (replicate k empty_slot) = []" for k
    by (simp add: filter_empty_conv)
  have "map (\<lambda>i. Some (snd (rs ! i))) (filter (\<lambda>i. filter_matches (fst (rs ! i)) name) [0..<length rs]) =
      map Some (map snd (filter (\<lambda>r. filter_matches (fst r) name) (map ((!) rs) [0..<length rs])))" for rs :: "(string \<times> hook) list"
    by (simp add: filter_map comp_def)
  then have "map (\<lambda>i. Some (snd (boot_subscriptions ! i))) (filter (\<lambda>i. filter_matches (fst (boot_subscriptions ! i)) name) [0..<length boot_subscriptions]) =
      map Some (addressees name)" by (simp only: map_nth addressees_def)
  then show ?thesis
    by (simp add: boot_bus_subs [OF boot_table_fits] matched_def filter_map comp_def e sub_entry_def)
qed

definition heard :: "string \<Rightarrow> string option \<Rightarrow> 'n device \<Rightarrow> event" where
  "heard name payload D = \<lparr> evt_name = name, evt_seq = seq (d_bus D) + 1, evt_payload = payload \<rparr>"

definition counted :: "'n device \<Rightarrow> 'n device" where
  "counted D = D\<lparr>d_bus := (d_bus D)\<lparr>seq := seq (d_bus D) + 1\<rparr>\<rparr>"

text \<open>One subscriber with what it publishes in turn.\<close>

definition turn :: "nat \<Rightarrow> 'n nvs_ops \<Rightarrow> clock \<Rightarrow> event \<Rightarrow> 'n device \<Rightarrow> hook \<Rightarrow> 'n device" where
  "turn k N now ev D h =
     (if d_restart D then D else case call_hook N now (h, ev) D of (D, es) \<Rightarrow> foldl (deliver k N now) D es)"

lemma deliver_booted:
  assumes "booted D" and ev: "ev = heard name payload D"
  shows "deliver (Suc k) N now D (Publish name payload) =
    foldl (turn k N now ev) (counted D) (addressees name)"
proof -
  have "sk_event_bus_publish name payload (d_bus D) =
      ((d_bus D)\<lparr>seq := seq (d_bus D) + 1\<rparr>, map (\<lambda>h. (h, heard name payload D)) (addressees name))"
    using assms(1) by (simp add: sk_event_bus_publish_def booted_def matched_boot heard_def Let_def comp_def)
  moreover have "\<not> d_restart D" using assms(1) by (simp add: booted_def)
  ultimately show ?thesis using ev by (simp add: counted_def foldl_map turn_def [abs_def])
qed

lemma booted_counted [simp]: "booted (counted D) = booted D"
  by (simp add: booted_def counted_def)

text \<open>Who hears the events of the countdown, and a factory reset.\<close>

lemma addressees_timer:
  "addressees ''timer.state'' = [BleAny]" "addressees ''timer.tick'' = [BleAny]" "addressees ''timer.reset'' = [BleAny]"
  "addressees ''timer.vacation'' = [BleAny]" "addressees ''timer.alarm'' = [BleAny, ApiAlarm, ReminderAlarm]"
  "addressees ''timer.triggered'' = [BleAny, ApiTriggered, RelayTriggered, GroupsTriggered]"
  "addressees ''timer.reset.requested'' = [BleAny, TimerResetRequested]"
  by code_simp+

lemma addressees_reset:
  "addressees ''device.factory-reset.requested'' = [BaselineReset, AuthReset, PassphraseReset, WifiReset, BleAny, ApiReset,
     TimerReset, RelayReset, SmtpReset, ReminderReset, GroupsReset, ResetApiReset]"
  "addressees ''auth.bond.revoked'' = [BleRevoked, BleAny]"
  by code_simp+

section \<open>The events of the countdown\<close>

definition timer_events :: "string list" where
  "timer_events = [''timer.state'', ''timer.tick'', ''timer.reset'', ''timer.vacation'', ''timer.alarm'', ''timer.triggered'']"

definition timer_out :: "eff \<Rightarrow> bool" where
  "timer_out e = (case e of Publish name p \<Rightarrow> name \<in> set timer_events | _ \<Rightarrow> False)"

lemma timer_out_publish [simp]:
  "timer_out (publish_state clk t)" "timer_out (publish_tick r)" "timer_out (publish_alarm t i r)"
  "timer_out (publish_triggered d)" "timer_out (publish_reset b)" "timer_out (publish_vacation t a)"
  by (simp_all add: timer_out_def timer_events_def publishf_def publish_state_def publish_tick_def publish_alarm_def
      publish_triggered_def publish_reset_def publish_vacation_def)

lemma timer_out_alarms: "list_all timer_out (snd (alarm_loop k i r t))"
  by (induction k i r t rule: alarm_loop.induct) (simp_all add: case_prod_beta)

lemma timer_out_enter:
  "list_all timer_out (snd (enter_countdown N clk r b a t))" "list_all timer_out (snd (enter_inactive N clk t))"
  "list_all timer_out (snd (enter_vacation N clk d t))" "list_all timer_out (snd (exit_vacation_to_countdown N clk t))"
  "list_all timer_out (snd (enter_triggered N clk t))"
  by (auto simp: enter_countdown_def enter_inactive_def enter_vacation_def exit_vacation_to_countdown_def enter_triggered_def
      Let_def case_prod_beta split: option.split)

lemma timer_outputs: "list_all timer_out (snd (apply_evt N clk e t))"
  by (cases e) (auto simp: handle_tick_def tick_countdown_def tick_vacation_def apply_set_def check_alarms_def timer_out_enter
      timer_out_alarms Let_def case_prod_beta split: ls_timer_state.split)

definition relay_post :: "'n relay \<Rightarrow> relay_evt list \<Rightarrow> relay_evt list" where
  "relay_post r qu = (case on_timer_triggered r of None \<Rightarrow> qu | Some e \<Rightarrow> post RELAY_QUEUE_LEN e qu)"

definition reminded :: "eff \<Rightarrow> 'n reminder \<Rightarrow> 'n reminder" where
  "reminded e s = (case e of Publish name p \<Rightarrow> if name = ''timer.alarm'' then on_timer_alarm p s else s | _ \<Rightarrow> s)"

text \<open>What stays when only the outputs of the countdown are delivered.\<close>

definition same_control :: "'n device \<Rightarrow> 'n device \<Rightarrow> bool" where
  "same_control D D' \<longleftrightarrow> booted D' = booted D \<and> d_timer D' = d_timer D \<and> d_timer_q D' = d_timer_q D \<and> d_timer_wait D' = d_timer_wait D \<and>
     d_rapi D' = d_rapi D \<and> d_relay D' = d_relay D \<and> d_lost D' = d_lost D \<and> d_http D' = d_http D"

lemma same_control_trans: "same_control D E \<Longrightarrow> same_control E F \<Longrightarrow> same_control D F"
  by (simp add: same_control_def)

lemma deliver_timer_out:
  fixes N :: "'n nvs_ops" and now :: clock
  assumes "booted D" "timer_out e"
  defines "D' \<equiv> deliver NESTING N now D e" and "n \<equiv> (if eff_name e = ''timer.triggered'' then 1 else 0)"
  shows "same_control D D' \<and> d_relay_q D' = (relay_post (d_relay D) ^^ n) (d_relay_q D) \<and>
    d_groups D' = (groups_on_triggered ^^ n) (d_groups D) \<and> d_reminder D' = reminded e (d_reminder D) \<and>
    map fst (d_called D') = map fst (d_called D) @ addressees (eff_name e)"
proof -
  obtain name p where e: "e = Publish name p" and n: "name \<in> set timer_events"
    using assms(2) by (auto simp: timer_out_def split: eff.splits)
  have t: "NESTING = Suc 3" by (simp add: NESTING_def)
  note d = deliver_booted [OF assms(1) refl, of 3 N now name p]
  have c: "call_hook N now (BleAny, ev) E = (E\<lparr>d_called := d_called E @ [(BleAny, ev)],
       d_ble := any_event_handler (evt_name ev) (evt_seq ev) (evt_payload ev) (d_ble E)\<rparr>, [])"
    "call_hook N now (ApiAlarm, ev) E = (E\<lparr>d_called := d_called E @ [(ApiAlarm, ev)]\<rparr>, [])"
    "call_hook N now (ApiTriggered, ev) E = (E\<lparr>d_called := d_called E @ [(ApiTriggered, ev)]\<rparr>, [])"
    "call_hook N now (ReminderAlarm, ev) E = (E\<lparr>d_called := d_called E @ [(ReminderAlarm, ev)],
       d_reminder := on_timer_alarm (evt_payload ev) (d_reminder E)\<rparr>, [])"
    "call_hook N now (GroupsTriggered, ev) E = (E\<lparr>d_called := d_called E @ [(GroupsTriggered, ev)],
       d_groups := groups_on_triggered (d_groups E)\<rparr>, [])"
    "call_hook N now (RelayTriggered, ev) E = (E\<lparr>d_called := d_called E @ [(RelayTriggered, ev)],
       d_relay_q := relay_post (d_relay E) (d_relay_q E)\<rparr>, [])" for E :: "'n device" and ev
    by (simp_all add: call_hook_def hook_effect_def relay_post_def split: option.split)
  from n have "name = ''timer.state'' \<or> name = ''timer.tick'' \<or> name = ''timer.reset'' \<or> name = ''timer.vacation'' \<or>
      name = ''timer.alarm'' \<or> name = ''timer.triggered''" by (simp add: timer_events_def)
  moreover have "\<not> d_restart D" using assms(1) by (simp add: booted_def)
  ultimately show ?thesis
    unfolding D'_def n_def e t d
    by (elim disjE; simp add: addressees_timer turn_def c counted_def heard_def same_control_def booted_def reminded_def)
qed

lemma publish_timer_outs:
  fixes N :: "'n nvs_ops" and now :: clock
  assumes "booted D" "list_all timer_out es"
  defines "D' \<equiv> publish_all N now D es" and "n \<equiv> pubs ''timer.triggered'' es"
  shows "same_control D D' \<and> d_relay_q D' = (relay_post (d_relay D) ^^ n) (d_relay_q D) \<and>
    d_groups D' = (groups_on_triggered ^^ n) (d_groups D) \<and> d_reminder D' = fold reminded es (d_reminder D) \<and>
    map fst (d_called D') = map fst (d_called D) @ concat (map (\<lambda>e. addressees (eff_name e)) es)"
  using assms(1,2) unfolding D'_def n_def
proof (induction es arbitrary: D)
  case Nil
  then show ?case by (simp add: publish_all_def same_control_def)
next
  case (Cons e es)
  define E where "E = deliver NESTING N now D e"
  have e: "same_control D E" "d_relay_q E = (relay_post (d_relay D) ^^ (if eff_name e = ''timer.triggered'' then 1 else 0)) (d_relay_q D)"
    "d_groups E = (groups_on_triggered ^^ (if eff_name e = ''timer.triggered'' then 1 else 0)) (d_groups D)"
    "d_reminder E = reminded e (d_reminder D)" "map fst (d_called E) = map fst (d_called D) @ addressees (eff_name e)"
    using deliver_timer_out [of D e N now] Cons.prems unfolding E_def by simp_all
  have b: "booted E" "d_relay E = d_relay D" using e(1) Cons.prems(1) by (simp_all add: same_control_def)
  have p: "publish_all N now D (e # es) = publish_all N now E es" by (simp add: publish_all_def E_def)
  show ?case using Cons.IH [OF b(1)] Cons.prems(2) e same_control_trans [OF e(1)]
    by (auto simp: p b(2) funpow_swap1)
qed

section \<open>Unattended\<close>

text \<open>
  Nobody with the key asks for a reset and nobody touches the state of the countdown: requests that do not present the
  key, ticks, configuration commands, turns of the task.
\<close>

primrec unattended :: "'r http_ops \<Rightarrow> 'n reset_api \<Rightarrow> 'r sys_step \<Rightarrow> bool" where
  "unattended H s (HttpReset now req) = (\<not> rapi_enabled s \<or> presented H req \<noteq> Some (api_key s))"
| "unattended H s SystemTick = True"
| "unattended H s (TimerCommand e) = quiet e"
| "unattended H s (SenderRuns i) = True"
| "unattended H s (TimerTask now) = True"
| "unattended H s (Published now name p) = False"

text \<open>What the countdown task takes from its queue over a run that starts with the given queue and waiting senders.\<close>

fun taken :: "evt list \<times> evt list \<Rightarrow> 'r sys_step list \<Rightarrow> (clock \<times> evt) list" where
  "taken qw [] = []"
| "taken qw (SystemTick # es) = taken (post TIMER_QUEUE_LEN EVT_TICK (fst qw), snd qw) es"
| "taken qw (TimerCommand e # es) = taken (send_blocking e qw) es"
| "taken qw (SenderRuns i # es) = taken (sender_runs i qw) es"
| "taken qw (TimerTask now # es) = (case fst qw of [] \<Rightarrow> taken qw es | e # qu \<Rightarrow> (now, e) # taken (qu, snd qw) es)"
| "taken qw (e # es) = taken qw es"

definition senders :: "'n device \<Rightarrow> evt list \<times> evt list" where
  "senders D = (d_timer_q D, d_timer_wait D)"

definition quiet_senders :: "evt list \<times> evt list \<Rightarrow> bool" where
  "quiet_senders qw \<longleftrightarrow> list_all quiet (fst qw) \<and> list_all quiet (snd qw)"

lemma quiet_senders_steps:
  "quiet_senders qw \<Longrightarrow> quiet e \<Longrightarrow> quiet_senders (send_blocking e qw)"
  "quiet_senders qw \<Longrightarrow> quiet_senders (sender_runs i qw)"
  "quiet_senders qw \<Longrightarrow> quiet_senders (post TIMER_QUEUE_LEN EVT_TICK (fst qw), snd qw)"
  by (auto simp: quiet_senders_def send_blocking_def sender_runs_def post_def list_all_iff dest: in_set_takeD in_set_dropD)

lemma taken_quiet:
  "quiet_senders qw \<Longrightarrow> \<forall>s \<in> set es. unattended H a s \<Longrightarrow> \<forall>ce \<in> set (taken qw es). quiet (snd ce)"
proof (induction qw es rule: taken.induct)
  case (5 qw now es)
  then show ?case by (cases "fst qw") (auto simp: quiet_senders_def)
qed (auto simp: quiet_senders_steps)

lemma refused_request:
  assumes "\<not> rapi_enabled s \<or> presented H req \<noteq> Some (api_key s)"
  shows "fst (reset_get_handler H req s) = []"
proof (cases "rapi_enabled s \<and> presented H req = None")
  case True
  have "reset_get_handler H req s = ([], snd (reset_get_handler H req s))"
    using handler_presented [of H req s] True by simp
  then show ?thesis by (metis fst_conv)
next
  case False
  then show ?thesis using assms handler_presented [of H req s] by (simp split: if_split_asm)
qed

lemma unattended_run:
  fixes N :: "'n nvs_ops"
  assumes "booted D" "\<forall>s \<in> set es. unattended H (d_rapi D) s"
  defines "D' \<equiv> foldl (sys_do N H) D es" and "r \<equiv> task_run N (taken (senders D) es) (d_timer D)"
  shows "d_timer D' = fst r \<and> d_relay_q D' = (relay_post (d_relay D) ^^ pubs ''timer.triggered'' (snd r)) (d_relay_q D) \<and>
    d_groups D' = (groups_on_triggered ^^ pubs ''timer.triggered'' (snd r)) (d_groups D) \<and>
    d_reminder D' = fold reminded (snd r) (d_reminder D) \<and> d_relay D' = d_relay D \<and> d_lost D' = d_lost D \<and>
    map fst (d_called D') = map fst (d_called D) @ concat (map (\<lambda>e. addressees (eff_name e)) (snd r))"
  using assms(1,2) unfolding D'_def r_def
proof (induction es arbitrary: D)
  case Nil
  then show ?case by simp
next
  case (Cons s es)
  note IH = Cons.IH and b = Cons.prems(1) and un = Cons.prems(2)
  have live: "sys_do N H D s = live_do N H D s" using b by (simp add: sys_do_def booted_def)
  define E where "E = live_do N H D s"
  have E: "foldl (sys_do N H) D (s # es) = foldl (sys_do N H) E es" by (simp add: live E_def)
  show ?case
  proof (cases s)
    case (HttpReset now req)
    have "fst (reset_get_handler H req (d_rapi D)) = []"
      using un by (intro refused_request) (simp add: HttpReset)
    then have E': "E = D\<lparr>d_http := d_http D @ [snd (reset_get_handler H req (d_rapi D))]\<rparr>"
      by (simp add: E_def HttpReset case_prod_beta publish_all_def)
    then have "booted E" "d_rapi E = d_rapi D" using b by (simp_all add: booted_def)
    with IH [of E] un show ?thesis unfolding E by (simp add: E' HttpReset senders_def)
  next
    case (TimerTask now)
    show ?thesis
    proof (cases "d_timer_q D")
      case Nil
      then have "E = D" by (simp add: E_def TimerTask)
      then show ?thesis using IH [OF b] un unfolding E by (simp add: TimerTask senders_def Nil)
    next
      case (Cons e qu)
      define t where "t = fst (apply_evt N now e (d_timer D))"
      define o1 where "o1 = snd (apply_evt N now e (d_timer D))"
      define D0 where "D0 = D\<lparr>d_timer_q := qu, d_timer := t\<rparr>"
      have E': "E = publish_all N now D0 o1"
        by (simp add: E_def TimerTask Cons D0_def t_def o1_def case_prod_beta)
      have b0: "booted D0" using b by (simp add: D0_def booted_def)
      have o: "list_all timer_out o1" unfolding o1_def by (rule timer_outputs)
      note p = publish_timer_outs [OF b0 o, of N now, folded E']
      then have c: "booted E" "d_timer E = t" "senders E = (qu, d_timer_wait D)" "d_rapi E = d_rapi D" "d_relay E = d_relay D" "d_lost E = d_lost D"
        using b0 by (simp_all add: same_control_def D0_def senders_def)
      have k: "task_run N (taken (senders D) (s # es)) (d_timer D) =
          (fst (task_run N (taken (senders E) es) t), o1 @ snd (task_run N (taken (senders E) es) t))"
        by (simp add: TimerTask Cons t_def o1_def prod_eq_iff c(3) senders_def [of D])
      show ?thesis
        using IH [OF c(1)] un p unfolding E k
        by (simp add: c D0_def funpow_add add.commute [of "pubs _ o1"])
    qed
  next
    case SystemTick
    have E': "E = D\<lparr>d_timer_q := post TIMER_QUEUE_LEN EVT_TICK (d_timer_q D)\<rparr>" by (simp add: E_def SystemTick)
    show ?thesis using IH [of E] b un unfolding E by (simp add: E' SystemTick senders_def booted_def)
  next
    case (TimerCommand e)
    have E': "E = timer_senders (send_blocking e) D" by (simp add: E_def TimerCommand)
    show ?thesis using IH [of E] b un unfolding E
      by (simp add: E' TimerCommand timer_senders_def case_prod_beta senders_def booted_def)
  next
    case (SenderRuns i)
    have E': "E = timer_senders (sender_runs i) D" by (simp add: E_def SenderRuns)
    show ?thesis using IH [of E] b un unfolding E
      by (simp add: E' SenderRuns timer_senders_def case_prod_beta senders_def booted_def)
  qed (use un in simp)
qed

text \<open>Calls of one hook, and who is called by the outputs of the countdown.\<close>

definition calls_of :: "hook \<Rightarrow> 'n device \<Rightarrow> nat" where
  "calls_of h D = length (filter (\<lambda>c. fst c = h) (d_called D))"

lemma calls_of_count: "calls_of h D = count_list (map fst (d_called D)) h"
  by (simp add: calls_of_def count_list_eq_length_filter filter_map comp_def eq_commute [of h])

lemma api_triggered_count:
  "list_all timer_out es \<Longrightarrow> count_list (concat (map (\<lambda>e. addressees (eff_name e)) es)) ApiTriggered = pubs ''timer.triggered'' es"
proof (induction es)
  case (Cons e es)
  then have "eff_name e \<in> set timer_events" by (auto simp: timer_out_def split: eff.splits)
  then have "count_list (addressees (eff_name e)) ApiTriggered = (if eff_name e = ''timer.triggered'' then 1 else 0)"
    by (auto simp: timer_events_def addressees_timer)
  then show ?case using Cons by simp
qed simp

lemma timer_outputs_run: "list_all timer_out (snd (task_run N es t))"
  by (induction es arbitrary: t) (simp_all add: timer_outputs)

text \<open>The device at rest: the relay idle, nothing queued for relay and mails.\<close>

definition at_rest :: "'n device \<Rightarrow> bool" where
  "at_rest D \<longleftrightarrow> booted D \<and> phase (d_relay D) = RELAY_IDLE \<and> d_relay_q D = [] \<and> fire_q (d_groups D) = Some 0"

definition outputs_fired :: "bool \<Rightarrow> 'n device \<Rightarrow> 'n device \<Rightarrow> bool" where
  "outputs_fired b D D' \<longleftrightarrow> st (d_timer D') = (if b then TRIGGERED else COUNTDOWN) \<and>
     d_relay_q D' = (if b then [EVT_FIRE FIRE_REASON_TIMER] else []) \<and> fire_q (d_groups D') = Some (if b then 1 else 0) \<and>
     calls_of ApiTriggered D' = calls_of ApiTriggered D + (if b then 1 else 0)"

lemma unattended_fires:
  assumes D: "at_rest D" and a: "armed dl (d_timer D)" and q: "quiet_senders (senders D)"
    and u: "\<forall>s \<in> set es. unattended H (d_rapi D) s"
  shows "outputs_fired (reached dl (taken (senders D) es)) D (foldl (sys_do N H) D es)"
proof -
  have b: "booted D" using D by (simp add: at_rest_def)
  define r where "r = task_run N (taken (senders D) es) (d_timer D)"
  define f where "f = reached dl (taken (senders D) es)"
  have k: "pubs ''timer.triggered'' (snd r) = (if f then 1 else 0)" "st (fst r) = (if f then TRIGGERED else COUNTDOWN)"
    using armed_run [OF a taken_quiet [OF q u], of N] by (auto simp: r_def f_def armed_def split: if_splits)
  note run = unattended_run [OF b u, of N, folded r_def]
  have "calls_of ApiTriggered (foldl (sys_do N H) D es) = calls_of ApiTriggered D + pubs ''timer.triggered'' (snd r)"
    using run api_triggered_count [OF timer_outputs_run [of N "taken (senders D) es" "d_timer D"]]
    by (simp add: calls_of_count r_def [symmetric])
  then show ?thesis using run k D
    by (simp add: outputs_fired_def f_def [symmetric] at_rest_def relay_post_def on_timer_triggered_def post_def RELAY_QUEUE_LEN_def
        groups_on_triggered_def FIRE_QUEUE_LEN_def)
qed

text \<open>
  C1: the dead-man switch as a whole: in a device at rest with an armed countdown that nobody with the key resets, whatever
  requests come in without the key, whatever ticks and configuration commands are queued or wait for room in the queue
  and however the tasks take turns, the relay is ordered to fire, the mail groups are ordered to be sent and the webhooks are called exactly once
  each if the countdown task takes a tick at or after the deadline, and none of them is before that.
\<close>
theorem unattended_device_fires_once:
  fixes N :: "'n nvs_ops"
  assumes "at_rest D" and "armed dl (d_timer D)" and "quiet_senders (senders D)"
    and "\<forall>s \<in> set es. unattended H (d_rapi D) s"
  defines "fired \<equiv> reached dl (taken (senders D) es)" and "D' \<equiv> foldl (sys_do N H) D es"
  shows "st (d_timer D') = (if fired then TRIGGERED else COUNTDOWN) \<and>
    d_relay_q D' = (if fired then [EVT_FIRE FIRE_REASON_TIMER] else []) \<and>
    fire_q (d_groups D') = Some (if fired then 1 else 0) \<and>
    calls_of ApiTriggered D' = calls_of ApiTriggered D + (if fired then 1 else 0)"
  using unattended_fires [OF assms(1-4), of N] unfolding outputs_fired_def fired_def D'_def .

section \<open>A reset by the owner\<close>

lemma nesting: "NESTING = Suc 3"
  by (simp add: NESTING_def)

lemma reset_publication:
  fixes N :: "'n nvs_ops" and now :: clock
  assumes "booted D" "d_timer_q D = []"
  defines "D' \<equiv> publish_all N now D [Publish ''timer.reset.requested'' (Some (''{'' @ jk ''by'' @ jq ''api'' @ ''}''))]"
  shows "booted D'" "d_timer D' = d_timer D" "d_timer_q D' = [EVT_CMD_RESET RESET_BY_API]" "d_relay D' = d_relay D"
    "d_relay_q D' = d_relay_q D" "d_groups D' = d_groups D" "d_rapi D' = d_rapi D" "d_timer_wait D' = d_timer_wait D"
    "calls_of ApiTriggered D' = calls_of ApiTriggered D"
proof -
  have s: "strstr (''{'' @ jk ''by'' @ jq ''api'' @ ''}'') (jq ''manual'') = False" by code_simp
  have D': "D' = deliver (Suc 3) N now D (Publish ''timer.reset.requested'' (Some (''{'' @ jk ''by'' @ jq ''api'' @ ''}'')))"
    unfolding D'_def by (simp only: publish_all_def foldl.simps nesting)
  note d = D' [unfolded deliver_booted [OF assms(1) refl]]
  show "booted D'" "d_timer D' = d_timer D" "d_timer_q D' = [EVT_CMD_RESET RESET_BY_API]" "d_relay D' = d_relay D"
    "d_relay_q D' = d_relay_q D" "d_groups D' = d_groups D" "d_rapi D' = d_rapi D" "d_timer_wait D' = d_timer_wait D"
    "calls_of ApiTriggered D' = calls_of ApiTriggered D"
    using assms(1,2) s
    by (simp_all add: d addressees_timer turn_def call_hook_def hook_effect_def counted_def heard_def booted_def post_def TIMER_QUEUE_LEN_def
        on_reset_requested_def calls_of_def)
qed

text \<open>
  C2: the owner postpones: in a device at rest whose countdown runs and whose countdown queue is empty, a request that
  presents the key to the enabled endpoint is answered with 200, and when the countdown task takes its turn next, before
  any other event is queued, it starts the full duration again from that instant; after
  that the unattended device, with whatever configuration commands wait, fires its outputs exactly once and not before
  the new deadline: nothing fires at the old one. (With a full queue the request is answered with 200 as well
  and lost, theory \<open>LsSystemExamples\<close>; behind queued events it counts from when the task reaches it.)
\<close>
theorem owner_postpones:
  fixes N :: "'n nvs_ops" and now :: clock
  assumes D: "at_rest D" "armed dl (d_timer D)" "d_timer_q D = []" "list_all quiet (d_timer_wait D)" "cfg_ok (cfg (d_timer D))"
    and req: "rapi_enabled (d_rapi D)" "presented H req = Some (api_key (d_rapi D))" and now: "0 \<le> up_us now'"
    and u: "\<forall>s \<in> set es. unattended H (d_rapi D) s"
  defines "D' \<equiv> foldl (sys_do N H) D (HttpReset now req # TimerTask now' # es)"
    and "fired \<equiv> reached (up_us now' + uint (total_duration_sec (cfg (d_timer D))) * 1000000) (taken ([], d_timer_wait D) es)"
  shows "resp_status (last (d_http (sys_do N H D (HttpReset now req)))) = ''200 OK'' \<and>
    st (d_timer D') = (if fired then TRIGGERED else COUNTDOWN) \<and>
    d_relay_q D' = (if fired then [EVT_FIRE FIRE_REASON_TIMER] else []) \<and>
    fire_q (d_groups D') = Some (if fired then 1 else 0) \<and>
    calls_of ApiTriggered D' = calls_of ApiTriggered D + (if fired then 1 else 0)"
proof -
  let ?ev = "Publish ''timer.reset.requested'' (Some (''{'' @ jk ''by'' @ jq ''api'' @ ''}''))"
  let ?total = "total_duration_sec (cfg (d_timer D))"
  have b: "booted D" using D(1) by (simp add: at_rest_def)
  have h: "reset_get_handler H req (d_rapi D) = ([?ev],
      \<lparr> resp_status = ''200 OK'', resp_body = ''{'' @ jk ''ok'' @ ''true}'', resp_ret = ESP_OK \<rparr>)"
    using handler_presented [of H req "d_rapi D"] req by simp
  define E where "E = sys_do N H D (HttpReset now req)"
  note p = reset_publication [OF b D(3), of N now]
  have E: "booted E" "d_timer E = d_timer D" "d_timer_q E = [EVT_CMD_RESET RESET_BY_API]" "d_relay E = d_relay D"
    "d_relay_q E = []" "d_groups E = d_groups D" "d_rapi E = d_rapi D" "d_timer_wait E = d_timer_wait D" "calls_of ApiTriggered E = calls_of ApiTriggered D"
    using p D(1) b by (simp_all add: E_def sys_do_def h calls_of_def booted_def at_rest_def)
  define t where "t = fst (enter_countdown N now' ?total (Some (reset_by_str RESET_BY_API)) True (d_timer D))"
  define o1 where "o1 = snd (enter_countdown N now' ?total (Some (reset_by_str RESET_BY_API)) True (d_timer D))"
  note nz = total_duration_nonzero [OF D(5)]
  have ap: "apply_evt N now' (EVT_CMD_RESET RESET_BY_API) (d_timer D) = (t, o1)"
    using D(2) nz by (simp add: armed_def t_def o1_def)
  define E0 where "E0 = E\<lparr>d_timer_q := [], d_timer := t\<rparr>"
  define F where "F = publish_all N now' E0 o1"
  have "sys_do N H E (TimerTask now') = F"
    using E(1) by (simp del: apply_evt.simps add: sys_do_def booted_def E(2,3) ap F_def E0_def)
  then have D': "D' = foldl (sys_do N H) F es" unfolding D'_def foldl.simps E_def [symmetric] by (rule arg_cong)
  have o: "list_all timer_out o1" "pubs ''timer.triggered'' o1 = 0"
    unfolding o1_def by (rule timer_out_enter(1), rule pubs_enter_countdown)
  have b0: "booted E0" using E(1) by (simp add: E0_def booted_def)
  note F = publish_timer_outs [OF b0 o(1), of N now', folded F_def]
  have a: "armed (up_us now' + uint ?total * 1000000) t" unfolding t_def by (rule enter_countdown_armed [OF now nz])
  have "calls_of ApiTriggered F = calls_of ApiTriggered E0"
    using F api_triggered_count [OF o(1)] o(2) by (simp add: calls_of_count)
  then have c: "calls_of ApiTriggered F = calls_of ApiTriggered D" using E(9) by (simp add: E0_def calls_of_def)
  have f: "at_rest F" "armed (up_us now' + uint ?total * 1000000) (d_timer F)" "senders F = ([], d_timer_wait D)" "d_rapi F = d_rapi D"
    using F o(2) a b0 D(1) E by (simp_all add: at_rest_def same_control_def E0_def senders_def)
  have "outputs_fired fired F D'"
    using unattended_fires [OF f(1,2), of es H N] u D(4) by (simp add: D' fired_def f(3,4) quiet_senders_def)
  moreover have "resp_status (last (d_http E)) = ''200 OK''"
    using b by (simp add: E_def sys_do_def booted_def h)
  ultimately show ?thesis using c by (simp only: outputs_fired_def E_def simp_thms)
qed

section \<open>Nested publications\<close>

text \<open>How deep what a hook publishes can nest, and how deep the delivery of an event can.\<close>

definition hook_rank :: "hook \<Rightarrow> nat" where
  "hook_rank h = (case h of ControlReleased \<Rightarrow> 3 | ControlMultiTap \<Rightarrow> 2 | AuthShortPress \<Rightarrow> 2 | AuthReset \<Rightarrow> 1 | BlePairing \<Rightarrow> 1
     | BleResume \<Rightarrow> 1 | MdnsWifi \<Rightarrow> 1 | TimerReset \<Rightarrow> 1 | RelayReset \<Rightarrow> 1 | _ \<Rightarrow> 0)"

definition eff_rank :: "eff \<Rightarrow> nat" where
  "eff_rank e = (case e of Publish n p \<Rightarrow> Suc (foldr max (map hook_rank (addressees n)) 0) | _ \<Rightarrow> 1)"

lemma eff_ranks [simp]:
  "eff_rank (Publish ''control.short-press'' p) = 3" "eff_rank (Publish ''device.factory-reset.requested'' p) = 2"
  "eff_rank (Publish ''device.shutdown.imminent'' p) = 1" "eff_rank (Publish ''auth.bond.revoked'' p) = 1"
  "eff_rank (Publish ''pairing.mode.open'' p) = 2" "eff_rank (Publish ''ble.state'' p) = 1"
  "eff_rank (Publish ''mdns.announced'' p) = 1" "eff_rank (Publish ''timer.state'' p) = 1"
  by code_simp+

lemma eff_rank_pins [simp]:
  "eff_rank (GpioLevel a b) = 1" "eff_rank (GpioReset a) = 1" "eff_rank (GpioOutput a) = 1" "eff_rank Restart = 1"
  by (simp_all add: eff_rank_def)

lemma rank_of_hearer: "h \<in> set (addressees n) \<Longrightarrow> Suc (hook_rank h) \<le> eff_rank (Publish n p)"
proof -
  have "h \<in> set hs \<Longrightarrow> hook_rank h \<le> foldr max (map hook_rank hs) 0" for hs
    by (induction hs) (auto simp: max_def)
  then show "h \<in> set (addressees n) \<Longrightarrow> Suc (hook_rank h) \<le> eff_rank (Publish n p)" by (simp add: eff_rank_def)
qed

lemma rank_bound: "eff_rank e \<le> NESTING"
proof (cases e)
  case (Publish n p)
  have "hook_rank h \<le> 3" for h by (cases h) (simp_all add: hook_rank_def)
  then have "foldr max (map hook_rank hs) 0 \<le> 3" for hs by (induction hs) simp_all
  then show ?thesis by (simp add: Publish eff_rank_def NESTING_def)
qed (simp_all add: NESTING_def)

definition ranked :: "nat \<Rightarrow> eff list \<Rightarrow> bool" where
  "ranked k es = list_all (\<lambda>e. eff_rank e \<le> k) es"

lemma ranked_button: "ranked 3 (then_restart (on_button_released p))" "ranked 2 (then_restart (on_button_multi_tap p))"
  by (auto simp: ranked_def then_restart_def on_button_released_def on_button_multi_tap_def wipe_event_def shutdown_event_def
      Let_def split: option.split)

lemma ranked_auth: "ranked 2 (snd (on_control_short_press t a))" "ranked 1 (snd (auth_factory_reset N a))"
  by (simp_all add: ranked_def on_control_short_press_def sk_auth_open_pairing_mode_def auth_factory_reset_def sk_auth_clear_all_def Let_def)

lemma ranked_ble: "ble_state_only es \<Longrightarrow> ranked 1 es"
  by (induction es) (auto simp: ble_state_only_def ranked_def split: eff.splits)

lemma ranked_mdns: "ranked 1 (snd (mdns_on_wifi p m))"
  unfolding ranked_def using mdns_publishes [of p m] by (rule list.pred_mono_strong) (auto split: eff.splits)

lemma ranked_reset: "ranked 1 (snd (timer_factory_reset N now t))" "ranked 1 (snd (relay_factory_reset N r))"
  by (simp_all add: ranked_def timer_factory_reset_def relay_factory_reset_def gpio_write_idle_def publish_state_def publishf_def
      Let_def case_prod_beta)

lemma hook_ranked: "ranked (hook_rank h) (snd (hook_effect N now h ev D))"
  by (cases h) (simp_all add: hook_effect_def hook_rank_def with_auth_def with_ble_def case_prod_beta ranked_button ranked_auth
      ranked_mdns [simplified] ranked_reset [simplified] ranked_auth [simplified] ranked_ble [simplified] ble_hooks_publish,
      simp_all add: ranked_def)

lemma hook_booted:
  "booted (fst (hook_effect N now h ev D)) = booted D" "d_lost (fst (hook_effect N now h ev D)) = d_lost D"
  "d_restart (fst (hook_effect N now h ev D)) = d_restart D"
  by (cases h; simp add: hook_effect_def with_auth_def with_ble_def booted_def case_prod_beta split: option.split)+

lemma call_frame:
  "booted (fst (call_hook N now c D)) = booted D" "d_lost (fst (call_hook N now c D)) = d_lost D"
  "d_restart (fst (call_hook N now c D)) = d_restart D" "ranked (hook_rank (fst c)) (snd (call_hook N now c D))"
  by (simp_all add: call_hook_def hook_booted hook_ranked) (simp add: booted_def)

definition sound_bus :: "'n device \<Rightarrow> bool" where
  "sound_bus D \<longleftrightarrow> d_lost D = [] \<and> (d_restart D \<or> booted D)"

lemma sound_delivery: "sound_bus D \<Longrightarrow> eff_rank e \<le> k \<Longrightarrow> sound_bus (deliver k N now D e)"
proof (induction k arbitrary: D e)
  case 0
  then show ?case by (cases e) (simp_all add: eff_rank_def)
next
  case (Suc k)
  show ?case
  proof (cases "d_restart D")
    case True
    then show ?thesis using Suc.prems by simp
  next
    case False
    then have b: "booted D" using Suc.prems(1) by (simp add: sound_bus_def)
    show ?thesis
    proof (cases e)
      case (Publish name p)
      have es: "sound_bus (foldl (deliver k N now) E es)" if "sound_bus E" "ranked k es" for E es
        using that by (induction es arbitrary: E) (simp_all add: ranked_def Suc.IH)
      have t: "sound_bus (turn k N now ev E h)" if "sound_bus E" "hook_rank h \<le> k" for E h ev
      proof -
        have "ranked k (snd (call_hook N now (h, ev) E))"
          using call_frame(4) [of "(h, ev)" N now E] that(2) by (auto simp: ranked_def list_all_iff)
        moreover have "sound_bus (fst (call_hook N now (h, ev) E))" using that(1) by (simp add: sound_bus_def call_frame)
        ultimately show ?thesis using that(1) es by (simp add: turn_def case_prod_beta)
      qed
      have f: "sound_bus (foldl (turn k N now ev) E hs)" if "sound_bus E" "\<forall>h \<in> set hs. hook_rank h \<le> k" for E hs ev
        using that by (induction hs arbitrary: E) (simp_all add: t)
      have "\<forall>h \<in> set (addressees name). hook_rank h \<le> k"
        using order_trans [OF rank_of_hearer [of _ name p]] Suc.prems(2) by (auto simp: Publish)
      moreover have "sound_bus (counted D)" using Suc.prems(1) by (simp add: sound_bus_def) (simp add: counted_def)
      ultimately show ?thesis unfolding Publish deliver_booted [OF b refl] by (rule f [rotated])
    qed (use Suc.prems False in \<open>simp_all add: sound_bus_def booted_def\<close>)
  qed
qed

lemma sound_publish: "sound_bus D \<Longrightarrow> sound_bus (publish_all N now D es)"
  unfolding publish_all_def by (induction es arbitrary: D) (simp_all del: deliver.simps add: sound_delivery rank_bound)

lemma sound_frame:
  "sound_bus D \<Longrightarrow> d_lost E = d_lost D \<Longrightarrow> d_restart E = d_restart D \<Longrightarrow> d_bus E = d_bus D \<Longrightarrow> sound_bus E"
  by (simp add: sound_bus_def booted_def)

lemma sound_step: "sound_bus D \<Longrightarrow> sound_bus (sys_do N H D s)"
proof (cases "d_restart D")
  case False
  assume D: "sound_bus D"
  have "sound_bus (live_do N H D s)"
  proof (cases s)
    case (HttpReset now req)
    show ?thesis
      by (rule sound_frame [OF sound_publish [OF D, of N now "fst (reset_get_handler H req (d_rapi D))"]])
        (simp_all add: HttpReset case_prod_beta)
  next
    case (TimerTask now)
    have "sound_bus (D\<lparr>d_timer_q := qu, d_timer := t\<rparr>)" for qu t by (rule sound_frame [OF D]) simp_all
    then show ?thesis using D by (auto simp: TimerTask case_prod_beta sound_publish split: list.split)
  qed (simp_all add: D sound_publish timer_senders_def case_prod_beta sound_frame [OF D])
  then show ?thesis using False by (simp add: sys_do_def)
qed (simp add: sys_do_def)

interpretation system_bus: stepping "sys_do N H" sound_bus "\<lambda>s. True" for N H
  by unfold_locales (rule sound_step)

text \<open>
  No event is lost by nesting: over any run of the device (requests, ticks, commands, turns of the countdown task, any
  publication of other components) hooks that publish in turn are nested at most four deep, and the subscriptions
  stay those of the start-up until the device restarts.
\<close>
theorem publications_nest_at_most_four:
  assumes "booted D" "d_lost D = []"
  shows "d_lost (foldl (sys_do N H) D es) = [] \<and> (d_restart (foldl (sys_do N H) D es) \<or> booted (foldl (sys_do N H) D es))"
  using system_bus.run_inv [of D es N H] assms by (simp add: sound_bus_def)

section \<open>Factory reset\<close>

lemma deliver_pins:
  "list_all (\<lambda>e. e \<noteq> Restart \<and> (\<forall>name p. e \<noteq> Publish name p)) es \<Longrightarrow> \<not> d_restart D \<Longrightarrow>
    foldl (deliver (Suc k) N now) D es = D\<lparr>d_pins := d_pins D @ es\<rparr>"
  by (induction es arbitrary: D) (auto split: eff.split)

text \<open>A device after a part of a reset: calls, states of countdown and relay, bonds.\<close>

definition reset_view :: "'n device \<Rightarrow> bool \<times> hook list \<times> ls_timer_state \<times> ls_relay_phase \<times> bool" where
  "reset_view D = (booted D, map fst (d_called D), st (d_timer D), phase (d_relay D), sk_auth_has_bond (d_auth D))"

lemma deliver_state:
  assumes "booted D"
  shows "reset_view (deliver (Suc k) N now D (publish_state clk t)) =
    (True, map fst (d_called D) @ [BleAny], st (d_timer D), phase (d_relay D), sk_auth_has_bond (d_auth D))"
proof -
  have "\<not> d_restart D" using assms by (simp add: booted_def)
  then show ?thesis
    using assms unfolding publish_state_def publishf_def deliver_booted [OF assms refl]
    by (simp add: addressees_timer turn_def call_hook_def hook_effect_def reset_view_def counted_def booted_def)
qed

lemma deliver_revoked:
  assumes "booted D"
  shows "reset_view (deliver (Suc k) N now D (Publish ''auth.bond.revoked'' p)) =
    (True, map fst (d_called D) @ [BleRevoked, BleAny], st (d_timer D), phase (d_relay D), sk_auth_has_bond (d_auth D))"
proof -
  have "\<not> d_restart D" using assms by (simp add: booted_def)
  then show ?thesis
    using assms unfolding deliver_booted [OF assms refl]
    by (simp add: addressees_reset turn_def call_hook_def hook_effect_def reset_view_def counted_def booted_def)
qed

lemma auth_cleared: "\<not> sk_auth_has_bond (fst (auth_factory_reset N a))"
  by (simp add: auth_factory_reset_def sk_auth_clear_all_def sk_auth_has_bond_def sk_auth_bond_count_def Let_def
      pending_clear_def sk_auth_active_bond_clear_def empty_bond_def)

definition reset_calls :: "hook \<Rightarrow> hook list" where
  "reset_calls h = (case h of TimerReset \<Rightarrow> [TimerReset, BleAny] | AuthReset \<Rightarrow> [AuthReset, BleRevoked, BleAny] | _ \<Rightarrow> [h])"

lemma turn_effect:
  assumes b: "booted D" and h: "h \<in> set (addressees ''device.factory-reset.requested'')"
  shows "reset_view (turn (Suc k) N now ev D h) =
    (True, map fst (d_called D) @ reset_calls h, if h = TimerReset then INACTIVE else st (d_timer D),
     if h = RelayReset then RELAY_IDLE else phase (d_relay D), h \<noteq> AuthReset \<and> sk_auth_has_bond (d_auth D))"
proof -
  have r: "\<not> d_restart D" using b by (simp add: booted_def)
  consider "h = TimerReset" | "h = RelayReset" | "h = AuthReset" | "h \<notin> {TimerReset, RelayReset, AuthReset}" by blast
  then show ?thesis
  proof cases
    case 1
    define E where "E = D\<lparr>d_called := d_called D @ [(TimerReset, ev)], d_timer := fst (timer_factory_reset N now (d_timer D))\<rparr>"
    have "turn (Suc k) N now ev D h = deliver (Suc k) N now E (publish_state now (d_timer E))"
      by (simp add: turn_def r 1 call_hook_def hook_effect_def timer_factory_reset_def E_def Let_def del: deliver.simps)
    moreover have "booted E" using b by (simp add: E_def booted_def)
    moreover have "st (d_timer E) = INACTIVE" by (simp add: E_def timer_factory_reset_def timer_static_def Let_def)
    ultimately show ?thesis using deliver_state [of E k N now now "d_timer E"]
      by (simp add: 1 E_def reset_calls_def del: deliver.simps)
  next
    case 2
    have p: "list_all (\<lambda>e. e \<noteq> Restart \<and> (\<forall>name p. e \<noteq> Publish name p)) (snd (relay_factory_reset N (d_relay D)))"
      "phase (fst (relay_factory_reset N (d_relay D))) = RELAY_IDLE"
      by (simp_all add: relay_factory_reset_def gpio_write_idle_def Let_def)
    define E where "E = D\<lparr>d_called := d_called D @ [(RelayReset, ev)], d_relay := fst (relay_factory_reset N (d_relay D))\<rparr>"
    have "turn (Suc k) N now ev D h = foldl (deliver (Suc k) N now) E (snd (relay_factory_reset N (d_relay D)))"
      by (simp add: turn_def r 2 call_hook_def hook_effect_def E_def case_prod_beta del: deliver.simps)
    also have "\<dots> = E\<lparr>d_pins := d_pins E @ snd (relay_factory_reset N (d_relay D))\<rparr>"
      by (rule deliver_pins [OF p(1)]) (simp add: E_def r)
    finally show ?thesis using p(2) b by (simp add: 2 E_def reset_calls_def reset_view_def booted_def)
  next
    case 3
    define E where "E = D\<lparr>d_called := d_called D @ [(AuthReset, ev)], d_auth := fst (auth_factory_reset N (d_auth D))\<rparr>"
    have "snd (auth_factory_reset N (d_auth D)) = [Publish ''auth.bond.revoked'' (Some (''{'' @ jk ''reason'' @ jq ''clear'' @ ''}''))]"
      by (simp add: auth_factory_reset_def sk_auth_clear_all_def Let_def)
    then have "turn (Suc k) N now ev D h = deliver (Suc k) N now E (Publish ''auth.bond.revoked'' (Some (''{'' @ jk ''reason'' @ jq ''clear'' @ ''}'')))"
      by (simp add: turn_def r 3 call_hook_def hook_effect_def with_auth_def E_def del: deliver.simps)
    moreover have "booted E" using b by (simp add: E_def booted_def)
    ultimately show ?thesis using deliver_revoked [of E k N now]
      by (simp add: 3 E_def reset_calls_def auth_cleared del: deliver.simps)
  next
    case 4
    with h r b show ?thesis
      by (auto simp: addressees_reset turn_def call_hook_def hook_effect_def reset_calls_def reset_view_def booted_def)
  qed
qed

lemma turns_effect:
  "booted D \<Longrightarrow> set hs \<subseteq> set (addressees ''device.factory-reset.requested'') \<Longrightarrow>
    reset_view (foldl (turn (Suc k) N now ev) D hs) =
    (True, map fst (d_called D) @ concat (map reset_calls hs), if TimerReset \<in> set hs then INACTIVE else st (d_timer D),
     if RelayReset \<in> set hs then RELAY_IDLE else phase (d_relay D), AuthReset \<notin> set hs \<and> sk_auth_has_bond (d_auth D))"
proof (induction hs arbitrary: D)
  case Nil
  then show ?case by (simp add: reset_view_def)
next
  case (Cons h hs)
  define E where "E = turn (Suc k) N now ev D h"
  have e: "reset_view E = (True, map fst (d_called D) @ reset_calls h, if h = TimerReset then INACTIVE else st (d_timer D),
     if h = RelayReset then RELAY_IDLE else phase (d_relay D), h \<noteq> AuthReset \<and> sk_auth_has_bond (d_auth D))"
    unfolding E_def using Cons.prems by (intro turn_effect) simp_all
  then have "booted E" by (simp add: reset_view_def)
  from Cons.IH [OF this] Cons.prems(2) e show ?case by (auto simp: reset_view_def E_def [symmetric])
qed

text \<open>
  C38: a factory reset reaches every component that keeps something: one publication, by a task other than the one that hangs
  in the passphrase hook at its own lockout, calls in the order of the start-up the
  hooks of baseline, bonds, passphrase, Wi-Fi, webhooks, countdown, relay, SMTP, reminder, mail groups and HTTP
  endpoint; nested in it the bonds' hook announces their revocation to Bluetooth, and the Bluetooth mirror hears the
  reset, the revocation and the new state of the countdown. It leaves no bond, the countdown inactive and the relay idle.
\<close>
theorem factory_reset_reaches_all:
  fixes N :: "'n nvs_ops" and H :: "'r http_ops" and now :: clock and p :: "string option"
  assumes "booted D"
  defines "D' \<equiv> sys_do N H D (Published now ''device.factory-reset.requested'' p)"
  shows "map fst (d_called D') = map fst (d_called D) @
      [BaselineReset, AuthReset, BleRevoked, BleAny, PassphraseReset, WifiReset, BleAny, ApiReset, TimerReset, BleAny, RelayReset,
       SmtpReset, ReminderReset, GroupsReset, ResetApiReset] \<and>
    st (d_timer D') = INACTIVE \<and> phase (d_relay D') = RELAY_IDLE \<and> \<not> sk_auth_has_bond (d_auth D')"
proof -
  let ?ev = "heard ''device.factory-reset.requested'' p D"
  have "sys_do N H D (Published now ''device.factory-reset.requested'' p) =
      deliver (Suc (Suc 2)) N now D (Publish ''device.factory-reset.requested'' p)"
    using assms(1) by (simp add: sys_do_def booted_def publish_all_def NESTING_def numeral_eq_Suc del: deliver.simps)
  then have D': "D' = foldl (turn (Suc 2) N now ?ev) (counted D) (addressees ''device.factory-reset.requested'')"
    unfolding D'_def deliver_booted [OF assms(1) refl] .
  have b: "booted (counted D)" "map fst (d_called (counted D)) = map fst (d_called D)"
    using assms(1) by simp (simp add: counted_def)
  have "reset_view D' = (True, map fst (d_called D) @ concat (map reset_calls (addressees ''device.factory-reset.requested'')),
      INACTIVE, RELAY_IDLE, False)"
    using turns_effect [OF b(1) subset_refl, of 2 N now ?ev] unfolding D' [symmetric] b(2) by (simp add: addressees_reset)
  then show ?thesis by (simp add: reset_view_def addressees_reset reset_calls_def)
qed

end
