(* ===== verification/LsSystemExamples.thy ===== *)
theory LsSystemExamples
  imports LsSystemProps
begin

text \<open>
  A concrete device after its start, with a one minute countdown and an HTTP server whose request is the query text: the
  witnesses of the properties of the whole device, and a reset that is acknowledged and lost.
\<close>

definition toy_device :: "nvs_map device" where
  "toy_device = \<lparr> d_bus = boot_bus boot_subscriptions (sk_event_bus_init bus_static),
     d_timer = one_minute\<lparr>st := COUNTDOWN, deadline_uptime_us := 60000000\<rparr>, d_timer_q = [], d_timer_wait = [],
     d_relay = relay_static Map.empty, d_relay_q = [], d_groups = \<lparr> slots = groups_zero, gflash = Map.empty, fire_q = Some 0 \<rparr>,
     d_reminder = \<lparr> rm_cfg = reminder_zero, rm_flash = Map.empty, rm_q = Some [] \<rparr>,
     d_rapi = \<lparr> rapi_enabled = True, api_key = ''ls_0102030405ff'', httpd_up = True, raflash = Map.empty \<rparr>,
     d_auth = auth_static Map.empty, d_timer_create = ESP_OK,
     d_ble = (ble_static ''LSABCDEFGH'' (\<lambda>cs. 0))\<lparr>b_initialized := True, b_radio_active := True\<rparr>,
     d_mdns = mdns_static ''LSABCDEFGH'' (\<lambda>n. True), d_restart = False,
     d_called = [], d_http = [], d_pins = [], d_lost = [] \<rparr>"

lemma toy_at_rest: "at_rest toy_device" "armed 60000000 (d_timer toy_device)" "senders toy_device = ([], [])" "booted toy_device"
  "cfg_ok (cfg (d_timer toy_device))" "d_lost toy_device = []"
  by (simp_all add: at_rest_def booted_def toy_device_def boot_bus_subs [OF boot_table_fits] relay_static_def armed_def
      one_minute_def cfg_ok_def senders_def)

definition toy_rapi :: "nvs_map reset_api" where
  "toy_rapi = \<lparr> rapi_enabled = True, api_key = ''ls_0102030405ff'', httpd_up = True, raflash = Map.empty \<rparr>"

lemma toy_parts: "d_rapi toy_device = toy_rapi" "d_timer toy_device = one_minute\<lparr>st := COUNTDOWN, deadline_uptime_us := 60000000\<rparr>"
  by (simp_all add: toy_device_def toy_rapi_def)

definition good_key :: string where "good_key = ''key=ls_0102030405ff''"
definition bad_key :: string where "bad_key = ''key=ls_000000000000''"

lemma keys: "presented plain_http good_key = Some (api_key (d_rapi toy_device))" "rapi_enabled (d_rapi toy_device)"
  "presented plain_http bad_key \<noteq> Some (api_key (d_rapi toy_device))"
  unfolding toy_parts by code_simp+

definition waiting_out :: "string sys_step list" where
  "waiting_out = [HttpReset (clk_at 1) bad_key, TimerCommand (EVT_CMD_SET (-1) 5 0), SenderRuns 0, TimerTask (clk_at 2), SystemTick, TimerTask (clk_at 59000000), SystemTick, TimerTask (clk_at 60000000),
     SystemTick, TimerTask (clk_at 61000000)]"

lemma waiting_unattended: "\<forall>s \<in> set waiting_out. unattended plain_http (d_rapi toy_device) s"
  using keys(3) by (simp add: waiting_out_def)

theorem unattended_device_fires_once_witness:
  "d_relay_q (foldl (sys_do nvs_map_ops plain_http) toy_device waiting_out) = [EVT_FIRE FIRE_REASON_TIMER] \<and>
   fire_q (d_groups (foldl (sys_do nvs_map_ops plain_http) toy_device waiting_out)) = Some 1 \<and>
   calls_of ApiTriggered (foldl (sys_do nvs_map_ops plain_http) toy_device waiting_out) = 1"
proof -
  have "reached 60000000 (taken ([], []) waiting_out)" by code_simp
  moreover have "calls_of ApiTriggered toy_device = 0" by (simp add: calls_of_def toy_device_def)
  ultimately show ?thesis
    using unattended_device_fires_once [OF toy_at_rest(1,2) _ waiting_unattended, of nvs_map_ops] toy_at_rest(3)
    by (simp add: quiet_senders_def)
qed

theorem owner_postpones_witness:
  "d_relay_q (foldl (sys_do nvs_map_ops plain_http) toy_device
     (HttpReset (clk_at 50000000) good_key # TimerTask (clk_at 50000001) # waiting_out)) = []"
proof -
  have "\<not> reached (up_us (clk_at 50000001) + uint (total_duration_sec (cfg (d_timer toy_device))) * 1000000) (taken ([], []) waiting_out)"
    unfolding toy_parts by code_simp
  moreover have "0 \<le> up_us (clk_at 50000001)" by (simp add: clk_at_def)
  ultimately show ?thesis
    using owner_postpones [OF toy_at_rest(1,2) _ _ toy_at_rest(5) keys(2,1) _ waiting_unattended, of "clk_at 50000001" nvs_map_ops "clk_at 50000000"]
      toy_at_rest(3) by (simp add: senders_def)
qed

theorem publications_nest_at_most_four_witness:
  "d_lost (foldl (sys_do nvs_map_ops plain_http) toy_device
     [Published (clk_at 1) ''device.factory-reset.requested'' None, SystemTick, TimerTask (clk_at 2)]) = []"
  using publications_nest_at_most_four [OF toy_at_rest(4,6)] by blast

theorem factory_reset_reaches_all_witness:
  "map fst (d_called (sys_do nvs_map_ops plain_http toy_device (Published (clk_at 1) ''device.factory-reset.requested'' None))) =
     [BaselineReset, AuthReset, BleRevoked, BleAny, PassphraseReset, WifiReset, BleAny, ApiReset, TimerReset, BleAny, RelayReset,
      SmtpReset, ReminderReset, GroupsReset, ResetApiReset]"
proof -
  have "map fst (d_called toy_device) = []" by (simp add: toy_device_def)
  with factory_reset_reaches_all [OF toy_at_rest(4), of nvs_map_ops plain_http "clk_at 1" None] show ?thesis by simp
qed

text \<open>
  A reset is acknowledged before it is queued: when the queue of the countdown is full the request is answered with
  200 and the reset is dropped.
\<close>

lemma acknowledged_reset_lost:
  assumes "booted D" "length (d_timer_q D) = 16" "rapi_enabled (d_rapi D)" "presented H req = Some (api_key (d_rapi D))"
  shows "resp_status (last (d_http (sys_do N H D (HttpReset now req)))) = ''200 OK'' \<and>
    d_timer_q (sys_do N H D (HttpReset now req)) = d_timer_q D \<and> d_timer (sys_do N H D (HttpReset now req)) = d_timer D"
proof -
  let ?p = "Some (''{'' @ jk ''by'' @ jq ''api'' @ ''}'')"
  have h: "reset_get_handler H req (d_rapi D) = ([Publish ''timer.reset.requested'' ?p],
      \<lparr> resp_status = ''200 OK'', resp_body = ''{'' @ jk ''ok'' @ ''true}'', resp_ret = ESP_OK \<rparr>)"
    using handler_presented [of H req "d_rapi D"] assms(3,4) by simp
  have d: "publish_all N now D [Publish ''timer.reset.requested'' ?p] = deliver (Suc 3) N now D (Publish ''timer.reset.requested'' ?p)"
    by (simp only: publish_all_def foldl.simps nesting)
  have "\<not> d_restart D" using assms(1) by (simp add: booted_def)
  then have l: "sys_do N H D (HttpReset now req) = live_do N H D (HttpReset now req)" by (simp add: sys_do_def)
  show ?thesis using assms(2) \<open>\<not> d_restart D\<close>
    unfolding l live_do.simps h prod.case d deliver_booted [OF assms(1) refl]
    by (simp add: addressees_timer turn_def call_hook_def hook_effect_def counted_def post_def TIMER_QUEUE_LEN_def)
qed

end
