(* ===== verification/SkOta.thy ===== *)
theory SkOta
  imports LsMailText SkAuthHmac SkLog
begin

text \<open>
  Firmware update, \<open>sk_ota.c\<close>: the fetch of the manifest with its redirects, the comparison of versions, the download
  with the check of the hash before the image is activated, the rollback, the four commands and the start-up. The
  HTTP client, \<open>esp_https_ota\<close>, the partitions and the JSON parser are ESP-IDF: what they answer in one step is a
  record \<open>ota_drv\<close>. A task is cut where it waits for the network; the rest of it is an entry of the list of tasks.
\<close>

section \<open>Data\<close>

definition MANIFEST_BUF_SIZE :: nat where "MANIFEST_BUF_SIZE = 1536"
definition HASH_READ_CHUNK :: nat where "HASH_READ_CHUNK = 1024"

datatype sk_ota_state = SK_OTA_IDLE | SK_OTA_CHECKING | SK_OTA_UPDATE_AVAILABLE | SK_OTA_NO_UPDATE
  | SK_OTA_DOWNLOADING | SK_OTA_DONE | SK_OTA_ERROR

primrec sk_ota_state_str :: "sk_ota_state \<Rightarrow> string" where
  "sk_ota_state_str SK_OTA_IDLE = ''idle''"
| "sk_ota_state_str SK_OTA_CHECKING = ''checking''"
| "sk_ota_state_str SK_OTA_UPDATE_AVAILABLE = ''update_available''"
| "sk_ota_state_str SK_OTA_NO_UPDATE = ''no_update''"
| "sk_ota_state_str SK_OTA_DOWNLOADING = ''downloading''"
| "sk_ota_state_str SK_OTA_DONE = ''done''"
| "sk_ota_state_str SK_OTA_ERROR = ''error''"

text \<open>\<open>sk_ota_status_t\<close>; the arrays hold 127, 15, 15, 191 and 64 characters.\<close>

record ota_status =
  os_state :: sk_ota_state
  os_progress :: int
  os_message :: string
  os_current :: string
  os_remote :: string
  os_url :: string
  os_has_sha :: bool
  os_sha :: string

text \<open>\<open>sk_ota_cfg_t\<close>\<close>

record ota_cfg =
  oc_version :: "string option"
  oc_manifest :: "string option"

text \<open>\<open>download_arg_t\<close>\<close>

record download_arg =
  da_url :: string
  da_verify :: bool
  da_sha :: string

text \<open>What \<open>esp_https_ota\<close> returns: success, more to come, an error with its name.\<close>

datatype ota_ret = OtaOk | OtaInProgress | OtaErr string

primrec esp_err_to_name :: "ota_ret \<Rightarrow> string" where
  "esp_err_to_name OtaOk = ''ESP_OK''"
| "esp_err_to_name OtaInProgress = ''ESP_ERR_HTTPS_OTA_IN_PROGRESS''"
| "esp_err_to_name (OtaErr n) = n"

text \<open>One exchange of the HTTP client: whether it opens, the status, whether the new location is accepted.\<close>

record http_hop =
  hh_open :: bool
  hh_status :: int
  hh_redirect :: bool

text \<open>
  The answers of ESP-IDF and of the allocator in one step. A partition is its bytes; \<open>od_perform\<close> is what the
  download library makes of the bytes of the partition it writes, \<open>od_desc\<close> the version in an image that has a
  description.
\<close>

record ota_drv =
  od_mem :: bool
  od_task :: bool
  od_http :: bool
  od_hop :: "nat \<Rightarrow> http_hop"
  od_mem_buf :: bool
  od_body :: "string option"
  od_json :: "string \<Rightarrow> (string \<Rightarrow> string option) option"
  od_begin :: ota_ret
  od_handle :: bool
  od_size :: int
  od_perform :: "u8 list \<Rightarrow> ota_ret \<times> u8 list"
  od_len_read :: int
  od_complete :: bool
  od_finish :: "u8 list \<Rightarrow> ota_ret"
  od_part_read :: "nat \<Rightarrow> bool"
  od_hash_ready :: bool
  od_mem_chunk :: bool
  od_sha256 :: "u8 list \<Rightarrow> u8 list"
  od_other :: bool
  od_desc :: "u8 list \<Rightarrow> string option"
  od_set_boot :: "u8 list \<Rightarrow> esp_err"
  od_label :: "string option"

text \<open>
  The worker tasks: one that waits for its first turn, the fetch of the manifest, the download before and while it
  receives, the download whose image is accepted but not activated, and the pauses before a restart.
\<close>

datatype ota_task =
    CheckQueued string
  | CheckFetching
  | DownloadQueued download_arg
  | DownloadOpening download_arg
  | DownloadRunning download_arg int
  | DownloadAccepted download_arg int
  | UpdateRestart
  | RollbackRestart

datatype ota_act =
    OBus eff                                    \<comment> \<open>\<open>sk_event_bus_publish\<close>\<close>
  | OLog sk_log_level string string             \<comment> \<open>\<open>SK_LOG_I\<close>, \<open>SK_LOG_E\<close> of tag \<open>ota\<close>\<close>
  | OAbort                                      \<comment> \<open>\<open>esp_https_ota_abort\<close>\<close>
  | OActivate download_arg "u8 list"            \<comment> \<open>\<open>esp_https_ota_finish\<close> made this image the next to boot\<close>
  | OBootPrevious                               \<comment> \<open>\<open>esp_ota_set_boot_partition\<close>\<close>
  | OMarkValid                                  \<comment> \<open>\<open>esp_ota_mark_app_valid_cancel_rollback\<close>\<close>
  | OBook string string                         \<comment> \<open>\<open>sk_capabilities_register_book\<close>\<close>
  | ORestart                                    \<comment> \<open>\<open>esp_restart\<close>\<close>
  | OCli cli_out                                \<comment> \<open>an answer of a handler\<close>
  | OUndefined                                  \<comment> \<open>a signed overflow\<close>

record ota =
  ot_status :: ota_status
  ot_manifest :: string
  ot_version :: string
  ot_mtx :: bool
  ot_running :: "u8 list"    \<comment> \<open>the image that runs\<close>
  ot_other :: "u8 list"      \<comment> \<open>the other partition, the target of an update\<close>
  ot_boot_other :: bool      \<comment> \<open>the next start takes the other partition\<close>
  ot_confirm :: "confirm_slot list"
  ot_tasks :: "ota_task list"
  ot_out :: "ota_act list"

definition ota_status0 :: ota_status where
  "ota_status0 = \<lparr> os_state = SK_OTA_IDLE, os_progress = 0, os_message = [], os_current = [], os_remote = [],
     os_url = [], os_has_sha = False, os_sha = [] \<rparr>"

definition ota_static :: "u8 list \<Rightarrow> u8 list \<Rightarrow> ota" where
  "ota_static running other = \<lparr> ot_status = ota_status0, ot_manifest = [], ot_version = [], ot_mtx = False,
     ot_running = running, ot_other = other, ot_boot_other = False, ot_confirm = confirm_static, ot_tasks = [],
     ot_out = [] \<rparr>"

definition emit_o :: "ota_act \<Rightarrow> ota \<Rightarrow> ota" where
  "emit_o a w = w\<lparr>ot_out := ot_out w @ [a]\<rparr>"

definition park_o :: "ota_task \<Rightarrow> ota \<Rightarrow> ota" where
  "park_o t w = w\<lparr>ot_tasks := ot_tasks w @ [t]\<rparr>"

section \<open>State helpers\<close>

definition state_payload :: "sk_ota_state \<Rightarrow> ota_status \<Rightarrow> string" where
  "state_payload st s =
     ''{'' @ jk ''state'' @ jq (sk_ota_state_str st) @ '','' @ jk ''progress'' @ dec_int (os_progress s) @ '','' @
     jk ''current'' @ jq (os_current s) @ '','' @ jk ''remote'' @ jq (os_remote s) @ '','' @
     jk ''message'' @ jq (os_message s) @ ''}''"

definition set_state :: "sk_ota_state \<Rightarrow> string \<Rightarrow> ota \<Rightarrow> ota" where
  "set_state st msg w =
     (let s = (ot_status w)\<lparr>os_state := st, os_message := take 127 msg\<rparr> in
      emit_o (OBus (Publish ''ota.fw.state'' (Some (snprintf 256 (state_payload st s))))) (w\<lparr>ot_status := s\<rparr>))"

definition set_progress :: "int \<Rightarrow> ota \<Rightarrow> ota" where
  "set_progress pct w = w\<lparr>ot_status := (ot_status w)\<lparr>os_progress := pct\<rparr>\<rparr>"

definition sk_ota_is_busy :: "ota \<Rightarrow> bool" where
  "sk_ota_is_busy w = (os_state (ot_status w) = SK_OTA_CHECKING \<or> os_state (ot_status w) = SK_OTA_DOWNLOADING)"

definition sk_ota_can_rollback :: "ota_drv \<Rightarrow> ota \<Rightarrow> bool" where
  "sk_ota_can_rollback d w = (od_other d \<and> od_desc d (ot_other w) \<noteq> None)"

definition sk_ota_running_label :: "ota_drv \<Rightarrow> string" where
  "sk_ota_running_label d = (case od_label d of None \<Rightarrow> [] | Some l \<Rightarrow> l)"

section \<open>Versions\<close>

text \<open>\<open>%d\<close> of \<open>sscanf\<close>: white space, a sign, digits; the value and the rest, \<open>None\<close> when no digit was read.\<close>

definition scan_digits :: "string \<Rightarrow> (nat \<times> string) option" where
  "scan_digits s = (if takeWhile is_digit s = [] then None
     else Some (digits_value 0 (takeWhile is_digit s), dropWhile is_digit s))"

definition scan_number :: "string \<Rightarrow> (int \<times> string) option" where
  "scan_number s =
     (case dropWhile is_space s of
        [] \<Rightarrow> None
      | c # cs \<Rightarrow>
          (if c = CHR ''-'' then map_option (\<lambda>(n, r). (clamp_long (- int n), r)) (scan_digits cs)
           else if c = CHR ''+'' then map_option (\<lambda>(n, r). (clamp_long (int n), r)) (scan_digits cs)
           else map_option (\<lambda>(n, r). (clamp_long (int n), r)) (scan_digits (c # cs))))"

text \<open>\<open>sscanf(s, "%d.%d.%d", maj, min, pat)\<close> with the three set to 0 before.\<close>

definition scan_dot_int :: "string \<Rightarrow> (int \<times> string) option" where
  "scan_dot_int s = (case s of [] \<Rightarrow> None | c # r \<Rightarrow> if c = CHR ''.'' then scan_number r else None)"

definition parse_semver :: "string \<Rightarrow> int \<times> int \<times> int" where
  "parse_semver s =
     (case scan_number s of
        None \<Rightarrow> (0, 0, 0)
      | Some (maj, r) \<Rightarrow>
          (case scan_dot_int r of
             None \<Rightarrow> (maj, 0, 0)
           | Some (mi, r) \<Rightarrow> (case scan_dot_int r of None \<Rightarrow> (maj, mi, 0) | Some (pat, r) \<Rightarrow> (maj, mi, pat))))"

text \<open>The subtraction of two \<open>int\<close>: undefined (\<open>None\<close>) when it leaves the range.\<close>

definition int_sub :: "int \<Rightarrow> int \<Rightarrow> int option" where
  "int_sub a b = (if LONG_MIN \<le> a - b \<and> a - b \<le> LONG_MAX then Some (a - b) else None)"

definition semver_cmp :: "string \<Rightarrow> string \<Rightarrow> int option" where
  "semver_cmp a b =
     (case (parse_semver a, parse_semver b) of
        ((am, an, ap), (bm, bn, bp)) \<Rightarrow>
          (if am \<noteq> bm then int_sub am bm else if an \<noteq> bn then int_sub an bn else int_sub ap bp))"

definition hex_eq_lower :: "string \<Rightarrow> u8 list \<Rightarrow> nat \<Rightarrow> bool" where
  "hex_eq_lower a bs n = (if n * 2 + 1 > 129 then False else same_address a (bytes_to_hex (take n bs)))"

section \<open>Check\<close>

definition is_redirect :: "int \<Rightarrow> bool" where
  "is_redirect st = (st = 301 \<or> st = 302 \<or> st = 303 \<or> st = 307 \<or> st = 308)"

datatype fetched = OpenFailed | Response int | NoResponse int

text \<open>The loop over at most five hops, with the last status.\<close>

primrec follow_hops :: "nat \<Rightarrow> (nat \<Rightarrow> http_hop) \<Rightarrow> nat \<Rightarrow> int \<Rightarrow> fetched" where
  "follow_hops 0 hop i st = NoResponse st"
| "follow_hops (Suc n) hop i st =
     (if \<not> hh_open (hop i) then OpenFailed
      else if is_redirect (hh_status (hop i)) then
        (if hh_redirect (hop i) then follow_hops n hop (Suc i) (hh_status (hop i)) else NoResponse (hh_status (hop i)))
      else Response (hh_status (hop i)))"

definition check_fail :: "string \<Rightarrow> string \<Rightarrow> ota \<Rightarrow> ota" where
  "check_fail why msg w = set_state SK_OTA_ERROR msg (emit_o (OLog SK_LOG_ERROR ''check.fail'' (''reason='' @ why)) w)"

definition check_begin :: "string \<Rightarrow> ota \<Rightarrow> ota" where
  "check_begin url w = park_o CheckFetching (set_state SK_OTA_CHECKING ''fetching manifest''
     (emit_o (OLog SK_LOG_INFO ''check.start'' (''url='' @ url)) w))"

definition store_manifest :: "string \<Rightarrow> string \<Rightarrow> string option \<Rightarrow> ota \<Rightarrow> ota" where
  "store_manifest ver url sha w =
     (let s = (ot_status w)\<lparr>os_remote := take 15 ver, os_url := take 191 url\<rparr> in
      w\<lparr>ot_status :=
        (case sha of
           Some h \<Rightarrow> (if length h = 64 then s\<lparr>os_sha := h, os_has_sha := True\<rparr> else s\<lparr>os_sha := [], os_has_sha := False\<rparr>)
         | None \<Rightarrow> s\<lparr>os_sha := [], os_has_sha := False\<rparr>)\<rparr>)"

definition compare_versions :: "ota \<Rightarrow> ota" where
  "compare_versions w =
     (let s = ot_status w in
      case semver_cmp (os_remote s) (os_current s) of
        None \<Rightarrow> emit_o OUndefined w
      | Some c \<Rightarrow>
          (if c > 0 then set_state SK_OTA_UPDATE_AVAILABLE ''update available''
             (emit_o (OLog SK_LOG_INFO ''check.available'' (''current='' @ os_current s @ '' available='' @ os_remote s)) w)
           else set_state SK_OTA_NO_UPDATE ''up to date''
             (emit_o (OLog SK_LOG_INFO ''check.up-to-date'' (''current='' @ os_current s)) w)))"

text \<open>The body of the answer, cut at the size of the buffer and at its first zero byte.\<close>

definition read_manifest :: "ota_drv \<Rightarrow> string option" where
  "read_manifest d = (case od_body d of None \<Rightarrow> None
     | Some b \<Rightarrow> (let b = take (MANIFEST_BUF_SIZE - 1) b in if b = [] then None else Some (takeWhile (\<lambda>c. c \<noteq> CHR 0x00) b)))"

definition check_manifest :: "ota_drv \<Rightarrow> ota \<Rightarrow> ota" where
  "check_manifest d w =
     (case read_manifest d of
        None \<Rightarrow> check_fail ''empty_manifest'' ''empty manifest'' w
      | Some txt \<Rightarrow>
          (case od_json d txt of
             None \<Rightarrow> check_fail ''manifest_parse'' ''manifest parse'' w
           | Some item \<Rightarrow>
               (case (item ''version'', item ''url'') of
                  (Some ver, Some url) \<Rightarrow> compare_versions (store_manifest ver url (item ''sha256'') w)
                | _ \<Rightarrow> check_fail ''manifest_missing_fields'' ''manifest missing version/url'' w)))"

definition http_fail :: "int \<Rightarrow> ota \<Rightarrow> ota" where
  "http_fail st w = check_fail (''http_'' @ dec_int st) (snprintf 64 (''manifest http '' @ dec_int st)) w"

text \<open>\<open>check_task\<close> after its first \<open>set_state\<close>.\<close>

definition check_finish :: "ota_drv \<Rightarrow> ota \<Rightarrow> ota" where
  "check_finish d w =
     (if \<not> od_http d then check_fail ''http_init'' ''http init'' w
      else
        (case follow_hops 5 (od_hop d) 0 0 of
           OpenFailed \<Rightarrow> check_fail ''http_open'' ''http open'' w
         | NoResponse st \<Rightarrow> http_fail st w
         | Response st \<Rightarrow>
             (if st \<noteq> 200 then http_fail st w
              else if \<not> od_mem_buf d then check_fail ''alloc'' ''alloc'' w
              else check_manifest d w)))"

definition sk_ota_check :: "ota_drv \<Rightarrow> string option \<Rightarrow> ota \<Rightarrow> esp_err \<times> ota" where
  "sk_ota_check d custom w =
     (let url = (case custom of None \<Rightarrow> ot_manifest w | Some u \<Rightarrow> u) in
      if sk_ota_is_busy w then (ESP_ERR_INVALID_STATE, w)
      else if url = [] then (ESP_ERR_INVALID_ARG, w)
      else if \<not> od_mem d then (ESP_ERR_NO_MEM, w)
      else if \<not> od_task d then (ESP_ERR_NO_MEM, w)
      else (ESP_OK, park_o (CheckQueued (take 191 url)) w))"

section \<open>Download\<close>

text \<open>The loop that feeds the partition to the hash, chunk by chunk: the bytes fed, \<open>None\<close> when a read fails.\<close>

function hash_chunks :: "(nat \<Rightarrow> bool) \<Rightarrow> u8 list \<Rightarrow> nat \<Rightarrow> nat \<Rightarrow> u8 list \<Rightarrow> u8 list option" where
  "hash_chunks ok part img offset fed =
     (if offset < img then
        (let to_read = (if img - offset > HASH_READ_CHUNK then HASH_READ_CHUNK else img - offset) in
         if \<not> ok offset then None
         else hash_chunks ok part img (offset + to_read) (fed @ take to_read (drop offset part)))
      else Some fed)"
  by pat_completeness auto

termination hash_chunks
  by (relation "measure (\<lambda>(ok, part, img, offset, fed). img - offset)") (auto simp: HASH_READ_CHUNK_def)

declare hash_chunks.simps [simp del]

definition verify_partition_sha256 :: "ota_drv \<Rightarrow> u8 list \<Rightarrow> string \<Rightarrow> bool" where
  "verify_partition_sha256 d part expected =
     (if \<not> od_other d then False
      else if od_size d \<le> 0 then False
      else if \<not> od_hash_ready d then False
      else if \<not> od_mem_chunk d then False
      else
        (case hash_chunks (od_part_read d) part (nat (od_size d)) 0 [] of
           None \<Rightarrow> False
         | Some fed \<Rightarrow> hex_eq_lower expected (od_sha256 d fed) 32))"

definition download_begin :: "download_arg \<Rightarrow> ota \<Rightarrow> ota" where
  "download_begin da w = park_o (DownloadOpening da) (set_state SK_OTA_DOWNLOADING ''downloading'' (set_progress 0 w))"

definition download_open :: "ota_drv \<Rightarrow> download_arg \<Rightarrow> ota \<Rightarrow> ota" where
  "download_open d da w =
     (if od_begin d \<noteq> OtaOk \<or> \<not> od_handle d then
        set_state SK_OTA_ERROR ''ota begin'' (emit_o (OLog SK_LOG_ERROR ''install.fail.download''
          (''reason=ota_begin err='' @ esp_err_to_name (od_begin d))) w)
      else park_o (DownloadRunning da (od_size d)) (emit_o (OLog SK_LOG_INFO ''install.start''
          (''version='' @ os_remote (ot_status w) @ '' size='' @ dec_int (od_size d))) w))"

text \<open>The progress of one turn of the loop; the percentage is computed in 64 bits.\<close>

definition download_progress :: "ota_drv \<Rightarrow> int \<Rightarrow> ota \<Rightarrow> ota" where
  "download_progress d img w =
     (if img > 0 then
        (let pct = cdiv (od_len_read d * 100) img in
         if pct \<noteq> os_progress (ot_status w) then set_progress pct w else w)
      else w)"

definition install_fail :: "string \<Rightarrow> string \<Rightarrow> string \<Rightarrow> ota \<Rightarrow> ota" where
  "install_fail event text msg w = set_state SK_OTA_ERROR msg (emit_o OAbort (emit_o (OLog SK_LOG_ERROR event text) w))"

text \<open>One call of \<open>esp_https_ota_perform\<close>, and after the last one the tests up to the verdict on the image.\<close>

definition download_step :: "ota_drv \<Rightarrow> download_arg \<Rightarrow> int \<Rightarrow> ota \<Rightarrow> ota" where
  "download_step d da img w =
     (case od_perform d (ot_other w) of (err, part) \<Rightarrow>
        (let w = w\<lparr>ot_other := part\<rparr> in
         if err = OtaInProgress then park_o (DownloadRunning da img) (download_progress d img w)
         else if err \<noteq> OtaOk \<or> \<not> od_complete d then
           install_fail ''install.fail.download''
             (''reason='' @ esp_err_to_name err @ '' bytes='' @ dec_int (od_len_read d)) (esp_err_to_name err) w
         else if da_verify da then
           (let w = set_state SK_OTA_DOWNLOADING ''verifying sha256'' w in
            if \<not> verify_partition_sha256 d part (da_sha da) then
              install_fail ''install.fail.verify'' ''reason=sha256_mismatch'' ''sha256 mismatch'' w
            else park_o (DownloadAccepted da (od_size d)) w)
         else park_o (DownloadAccepted da (od_size d)) w))"

text \<open>\<open>esp_https_ota_finish\<close> and what follows, up to the pause; the image is the first \<open>n\<close> bytes of the partition.\<close>

definition download_end :: "ota_drv \<Rightarrow> download_arg \<Rightarrow> int \<Rightarrow> ota \<Rightarrow> ota" where
  "download_end d da n w =
     (let err = od_finish d (ot_other w) in
      if err \<noteq> OtaOk then
        set_state SK_OTA_ERROR (esp_err_to_name err) (emit_o (OLog SK_LOG_ERROR ''install.fail.verify''
          (''reason='' @ esp_err_to_name err)) w)
      else
        (let w = emit_o (OActivate da (take (nat n) (ot_other w))) (w\<lparr>ot_boot_other := True\<rparr>);
             w = emit_o (OLog SK_LOG_INFO ''install.success''
                   (''version='' @ os_remote (ot_status w) @ '' reboot=imminent'')) (set_progress 100 w);
             w = emit_o (OBus (Publish ''device.shutdown.imminent'' (Some
                   (''{'' @ jk ''reason'' @ jq ''ota'' @ '','' @ jk ''delay_ms'' @ ''1500}''))))
                   (set_state SK_OTA_DONE ''rebooting'' w)
         in park_o UpdateRestart w))"

definition start_download :: "ota_drv \<Rightarrow> download_arg \<Rightarrow> ota \<Rightarrow> esp_err \<times> ota" where
  "start_download d da w = (if \<not> od_task d then (ESP_ERR_NO_MEM, w) else (ESP_OK, park_o (DownloadQueued da) w))"

definition sk_ota_start :: "ota_drv \<Rightarrow> string option \<Rightarrow> ota \<Rightarrow> esp_err \<times> ota" where
  "sk_ota_start d custom w =
     (let s = ot_status w in
      if sk_ota_is_busy w then (ESP_ERR_INVALID_STATE, w)
      else if \<not> od_mem d then (ESP_ERR_NO_MEM, w)
      else
        (case custom of
           Some url \<Rightarrow>
             (if url = [] then (ESP_ERR_INVALID_ARG, w)
              else start_download d \<lparr> da_url = take 191 url, da_verify = False, da_sha = [] \<rparr> w)
         | None \<Rightarrow>
             (if os_state s \<noteq> SK_OTA_UPDATE_AVAILABLE then (ESP_ERR_INVALID_STATE, w)
              else if os_url s = [] then (ESP_ERR_INVALID_STATE, w)
              else start_download d \<lparr> da_url = take 191 (os_url s), da_verify = os_has_sha s,
                     da_sha = (if os_has_sha s then take 64 (os_sha s) else []) \<rparr> w)))"

section \<open>Rollback\<close>

text \<open>\<open>sk_ota_rollback\<close> up to its pause; \<open>esp_restart\<close> after it does not return.\<close>

definition sk_ota_rollback :: "ota_drv \<Rightarrow> ota \<Rightarrow> esp_err \<times> ota" where
  "sk_ota_rollback d w =
     (if \<not> od_other d then (ESP_ERR_NOT_FOUND, w)
      else
        (let to_ver = (case od_desc d (ot_other w) of None \<Rightarrow> ''?'' | Some v \<Rightarrow> v);
             err = od_set_boot d (ot_other w)
         in if err = ESP_OK then
              (let w = emit_o OBootPrevious (w\<lparr>ot_boot_other := True\<rparr>);
                   w = emit_o (OLog SK_LOG_INFO ''rollback'' (''from='' @ os_current (ot_status w) @ '' to='' @ to_ver)) w;
                   w = emit_o (OBus (Publish ''device.shutdown.imminent'' (Some
                         (''{'' @ jk ''reason'' @ jq ''ota_rollback'' @ '','' @ jk ''delay_ms'' @ ''500}'')))) w
               in (err, park_o RollbackRestart w))
            else (err, w)))"

section \<open>Commands\<close>

definition answer_o :: "cli_out \<Rightarrow> ota \<Rightarrow> ota" where
  "answer_o x w = emit_o (OCli x) w"

definition ota_status_text :: "ota_drv \<Rightarrow> ota \<Rightarrow> string" where
  "ota_status_text d w =
     (let s = ot_status w in
      ''{'' @ jk ''state'' @ jq (sk_ota_state_str (os_state s)) @ '','' @ jk ''progress'' @ dec_int (os_progress s) @ '','' @
      jk ''current'' @ jq (os_current s) @ '','' @ jk ''remote'' @ jq (os_remote s) @ '','' @
      jk ''running_partition'' @ jq (sk_ota_running_label d) @ '','' @
      jk ''can_rollback'' @ jbool (sk_ota_can_rollback d w) @ '','' @
      jk ''has_remote_url'' @ jbool (os_url s \<noteq> []) @ '','' @ jk ''has_sha256'' @ jbool (os_has_sha s) @ '','' @
      jk ''sha256_prefix'' @ jq (if os_has_sha s then take 8 (os_sha s) else []) @ '','' @
      jk ''message'' @ jq (os_message s) @ ''}'')"

definition cmd_ota_status :: "ota_drv \<Rightarrow> ota \<Rightarrow> ota" where
  "cmd_ota_status d w = answer_o (CliOk (Some (snprintf 416 (ota_status_text d w)))) w"

definition cmd_ota_check :: "ota_drv \<Rightarrow> cli_ctx \<Rightarrow> ota \<Rightarrow> ota" where
  "cmd_ota_check d ctx w =
     (case sk_ota_check d (sk_cli_arg_named ctx ''url'') w of (err, w) \<Rightarrow>
        if err = ESP_ERR_INVALID_STATE then answer_o (CliErr SK_ERR_OTA_IN_PROGRESS None) w
        else if err = ESP_ERR_INVALID_ARG then answer_o (CliErr SK_ERR_INVALID_ARG (reason ''no_manifest_url'')) w
        else if err \<noteq> ESP_OK then answer_o (CliErr SK_ERR_INTERNAL None) w
        else answer_o (CliOk (Some (''{'' @ jk ''checking'' @ ''true}''))) w)"

definition cmd_ota_start :: "ota_drv \<Rightarrow> int \<Rightarrow> cli_ctx \<Rightarrow> ota \<Rightarrow> ota" where
  "cmd_ota_start d now ctx w =
     (case confirm_token ctx of
        None \<Rightarrow> answer_o (CliErr SK_ERR_CONFIRM_TOKEN_REQUIRED None) w
      | Some tok \<Rightarrow> (case sk_auth_confirm_consume now tok (ot_confirm w) of (e, slots) \<Rightarrow>
          (let w = w\<lparr>ot_confirm := slots\<rparr> in
           if e \<noteq> ESP_OK then answer_o (CliErr SK_ERR_CONFIRM_TOKEN_INVALID None) w
           else (case sk_ota_start d (sk_cli_arg_named ctx ''url'') w of (err, w) \<Rightarrow>
             if err = ESP_ERR_INVALID_STATE then
               answer_o (CliErr SK_ERR_NO_UPDATE (reason ''no_cached_update_run_check_first'')) w
             else if err \<noteq> ESP_OK then answer_o (CliErr SK_ERR_INTERNAL None) w
             else answer_o (CliOk (Some (''{'' @ jk ''started'' @ ''true}''))) w))))"

text \<open>The answer \<open>rolling_back\<close> follows \<open>esp_restart\<close> and is never written.\<close>

definition cmd_ota_rollback :: "ota_drv \<Rightarrow> int \<Rightarrow> cli_ctx \<Rightarrow> ota \<Rightarrow> ota" where
  "cmd_ota_rollback d now ctx w =
     (case confirm_token ctx of
        None \<Rightarrow> answer_o (CliErr SK_ERR_CONFIRM_TOKEN_REQUIRED None) w
      | Some tok \<Rightarrow> (case sk_auth_confirm_consume now tok (ot_confirm w) of (e, slots) \<Rightarrow>
          (let w = w\<lparr>ot_confirm := slots\<rparr> in
           if e \<noteq> ESP_OK then answer_o (CliErr SK_ERR_CONFIRM_TOKEN_INVALID None) w
           else if \<not> sk_ota_can_rollback d w then answer_o (CliErr SK_ERR_NO_ROLLBACK None) w
           else (case sk_ota_rollback d w of (err, w) \<Rightarrow>
             if err \<noteq> ESP_OK then answer_o (CliErr SK_ERR_INTERNAL None) w else w))))"

section \<open>Start-up\<close>

text \<open>\<open>strncpy\<close> of a configured text into an array; without one the array stays.\<close>

definition copied :: "nat \<Rightarrow> string option \<Rightarrow> string \<Rightarrow> string" where
  "copied m src old = (case src of None \<Rightarrow> old | Some s \<Rightarrow> take m s)"

definition sk_ota_init :: "ota_drv \<Rightarrow> ota_cfg \<Rightarrow> ota \<Rightarrow> esp_err \<times> ota" where
  "sk_ota_init d cfg w =
     (if \<not> ot_mtx w \<and> \<not> od_mem d then (ESP_ERR_NO_MEM, w)
      else
        (let w = w\<lparr>ot_mtx := True, ot_version := copied 15 (oc_version cfg) (ot_version w),
                   ot_status := (ot_status w)\<lparr>os_current := copied 15 (oc_version cfg) (os_current (ot_status w))\<rparr>,
                   ot_manifest := copied 191 (oc_manifest cfg) (ot_manifest w)\<rparr>
         in (ESP_OK, emit_o OMarkValid (emit_o (OBook ''sk_ota'' ''0.2.0'') w))))"

text \<open>A restart: the boot loader takes the partition that was made the next to boot; the statics start afresh.\<close>

definition ota_boot :: "ota_drv \<Rightarrow> ota_cfg \<Rightarrow> ota \<Rightarrow> ota" where
  "ota_boot d cfg w =
     (let (running, other) = (if ot_boot_other w then (ot_other w, ot_running w) else (ot_running w, ot_other w)) in
      snd (sk_ota_init d cfg ((ota_static running other)\<lparr>ot_out := ot_out w\<rparr>)))"

section \<open>Runs\<close>

primrec run_ota_task :: "ota_drv \<Rightarrow> ota_task \<Rightarrow> ota \<Rightarrow> ota" where
  "run_ota_task d (CheckQueued url) w = check_begin url w"
| "run_ota_task d CheckFetching w = check_finish d w"
| "run_ota_task d (DownloadQueued da) w = download_begin da w"
| "run_ota_task d (DownloadOpening da) w = download_open d da w"
| "run_ota_task d (DownloadRunning da img) w = download_step d da img w"
| "run_ota_task d (DownloadAccepted da n) w = download_end d da n w"
| "run_ota_task d UpdateRestart w = emit_o ORestart w"
| "run_ota_task d RollbackRestart w = emit_o ORestart w"

datatype ota_cmd = OtaStatus | OtaCheck | OtaUpdate | OtaRollback

primrec ota_command :: "ota_drv \<Rightarrow> int \<Rightarrow> cli_ctx \<Rightarrow> ota_cmd \<Rightarrow> ota \<Rightarrow> ota" where
  "ota_command d now ctx OtaStatus w = cmd_ota_status d w"
| "ota_command d now ctx OtaCheck w = cmd_ota_check d ctx w"
| "ota_command d now ctx OtaUpdate w = cmd_ota_start d now ctx w"
| "ota_command d now ctx OtaRollback w = cmd_ota_rollback d now ctx w"

text \<open>One scheduling decision: the next piece of a task, a command, a restart of the device.\<close>

datatype ota_sched =
    OtaRun ota_drv nat
  | OtaCommand ota_drv int cli_ctx ota_cmd
  | OtaBoot ota_drv ota_cfg

primrec ota_do :: "ota \<Rightarrow> ota_sched \<Rightarrow> ota" where
  "ota_do w (OtaRun d i) =
     (if i < length (ot_tasks w) then
        run_ota_task d (ot_tasks w ! i) (w\<lparr>ot_tasks := take i (ot_tasks w) @ drop (Suc i) (ot_tasks w)\<rparr>)
      else w)"
| "ota_do w (OtaCommand d now ctx cmd) = ota_command d now ctx cmd w"
| "ota_do w (OtaBoot d cfg) = ota_boot d cfg w"

end
