(* ===== verification/SkOtaRunProps.thy ===== *)
theory SkOtaRunProps
  imports SkOtaProps
begin

text \<open>
  The firmware update over runs of its tasks, its commands and restarts: the invariants of its state, and under a
  scheduler that lets a new worker begin before the next command, one worker at a time.
\<close>

section \<open>Frames\<close>

lemma emit_o_fields [simp]:
  "ot_status (emit_o a w) = ot_status w" "ot_manifest (emit_o a w) = ot_manifest w" "ot_mtx (emit_o a w) = ot_mtx w"
  "ot_running (emit_o a w) = ot_running w" "ot_other (emit_o a w) = ot_other w" "ot_version (emit_o a w) = ot_version w"
  "ot_boot_other (emit_o a w) = ot_boot_other w" "ot_confirm (emit_o a w) = ot_confirm w"
  "ot_tasks (emit_o a w) = ot_tasks w" "ot_out (emit_o a w) = ot_out w @ [a]"
  by (simp_all add: emit_o_def)

lemma park_o_fields [simp]:
  "ot_status (park_o t w) = ot_status w" "ot_manifest (park_o t w) = ot_manifest w" "ot_mtx (park_o t w) = ot_mtx w"
  "ot_running (park_o t w) = ot_running w" "ot_other (park_o t w) = ot_other w" "ot_version (park_o t w) = ot_version w"
  "ot_boot_other (park_o t w) = ot_boot_other w" "ot_confirm (park_o t w) = ot_confirm w"
  "ot_tasks (park_o t w) = ot_tasks w @ [t]" "ot_out (park_o t w) = ot_out w"
  by (simp_all add: park_o_def)

text \<open>The event a change of state publishes.\<close>

definition state_event :: "sk_ota_state \<Rightarrow> string \<Rightarrow> ota_status \<Rightarrow> ota_act" where
  "state_event st msg s = OBus (Publish ''ota.fw.state''
     (Some (snprintf 256 (state_payload st (s\<lparr>os_state := st, os_message := take 127 msg\<rparr>)))))"

lemma set_state_fields [simp]:
  "ot_status (set_state st msg w) = (ot_status w)\<lparr>os_state := st, os_message := take 127 msg\<rparr>"
  "ot_manifest (set_state st msg w) = ot_manifest w" "ot_mtx (set_state st msg w) = ot_mtx w"
  "ot_running (set_state st msg w) = ot_running w" "ot_other (set_state st msg w) = ot_other w"
  "ot_version (set_state st msg w) = ot_version w" "ot_boot_other (set_state st msg w) = ot_boot_other w"
  "ot_confirm (set_state st msg w) = ot_confirm w" "ot_tasks (set_state st msg w) = ot_tasks w"
  "ot_out (set_state st msg w) = ot_out w @ [state_event st msg (ot_status w)]"
  by (simp_all add: set_state_def state_event_def Let_def)

lemma set_progress_fields [simp]:
  "ot_status (set_progress p w) = (ot_status w)\<lparr>os_progress := p\<rparr>"
  "ot_manifest (set_progress p w) = ot_manifest w" "ot_mtx (set_progress p w) = ot_mtx w"
  "ot_running (set_progress p w) = ot_running w" "ot_other (set_progress p w) = ot_other w"
  "ot_version (set_progress p w) = ot_version w" "ot_boot_other (set_progress p w) = ot_boot_other w"
  "ot_confirm (set_progress p w) = ot_confirm w" "ot_tasks (set_progress p w) = ot_tasks w"
  "ot_out (set_progress p w) = ot_out w"
  by (simp_all add: set_progress_def)

lemmas ota_pieces = check_begin_def check_fail_def http_fail_def install_fail_def download_begin_def answer_o_def

lemmas ota_check_defs = check_finish_def check_manifest_def compare_versions_def store_manifest_def

lemmas ota_command_defs = cmd_ota_status_def cmd_ota_check_def cmd_ota_start_def cmd_ota_rollback_def
  sk_ota_check_def sk_ota_start_def start_download_def sk_ota_rollback_def

text \<open>The tasks that remain when number \<open>i\<close> is taken.\<close>

definition leaving_out :: "nat \<Rightarrow> 'a list \<Rightarrow> 'a list" where
  "leaving_out i xs = take i xs @ drop (Suc i) xs"

lemma set_leaving_out: "set (leaving_out i xs) \<subseteq> set xs"
  by (auto simp: leaving_out_def dest: in_set_takeD in_set_dropD)

lemma run_step: "i < length (ot_tasks w) \<Longrightarrow>
    ota_do w (OtaRun d i) = run_ota_task d (ot_tasks w ! i) (w\<lparr>ot_tasks := leaving_out i (ot_tasks w)\<rparr>)"
  by (simp add: leaving_out_def)

lemma length_json_parts [simp]: "length (jk s) = length s + 3" "length (jq s) = length s + 2"
  by (simp_all add: jk_def jq_def LSPrelude.q_def)

section \<open>The state\<close>

text \<open>
  A status in which every text fits its array, the hash is a hash when there is one, and the progress is a percentage;
  and one in which an update that is on offer is newer than what runs.
\<close>

definition status_ok :: "ota_status \<Rightarrow> bool" where
  "status_ok s \<longleftrightarrow> length (os_message s) \<le> 127 \<and> length (os_current s) \<le> 15 \<and> length (os_remote s) \<le> 15 \<and>
     length (os_url s) \<le> 191 \<and> length (os_sha s) = (if os_has_sha s then 64 else 0) \<and>
     0 \<le> os_progress s \<and> os_progress s \<le> 100"

definition offers_newer :: "ota_status \<Rightarrow> bool" where
  "offers_newer s \<longleftrightarrow> (os_state s = SK_OTA_UPDATE_AVAILABLE \<longrightarrow>
     (case semver_cmp (os_remote s) (os_current s) of Some c \<Rightarrow> c > 0 | None \<Rightarrow> False))"

text \<open>No text of an event was cut.\<close>

fun event_whole :: "ota_act \<Rightarrow> bool" where
  "event_whole (OBus (Publish name (Some p))) = (length p < 255)"
| "event_whole _ = True"

fun task_size_ok :: "int \<Rightarrow> ota_task \<Rightarrow> bool" where
  "task_size_ok n (DownloadRunning da m) = (m = n)"
| "task_size_ok n _ = True"

definition ota_ok :: "int \<Rightarrow> ota \<Rightarrow> bool" where
  "ota_ok n w \<longleftrightarrow> status_ok (ot_status w) \<and> (OUndefined \<in> set (ot_out w) \<or> offers_newer (ot_status w)) \<and> list_all (task_size_ok n) (ot_tasks w) \<and> list_all event_whole (ot_out w)"

text \<open>
  What the download library answers: the image has \<open>n\<close> bytes (or an unknown size, at most 0) and no more than
  these are received.
\<close>

definition drv_sized :: "int \<Rightarrow> ota_drv \<Rightarrow> bool" where
  "drv_sized n d \<longleftrightarrow> od_size d = n \<and> (n > 0 \<longrightarrow> 0 \<le> od_len_read d \<and> od_len_read d \<le> n)"

primrec sized_sched :: "int \<Rightarrow> ota_sched \<Rightarrow> bool" where
  "sized_sched n (OtaRun d i) = drv_sized n d"
| "sized_sched n (OtaCommand d now ctx cmd) = True"
| "sized_sched n (OtaBoot d cfg) = True"

lemma state_str_length: "length (sk_ota_state_str st) \<le> 16"
  by (cases st) simp_all

lemma percent_length: "0 \<le> p \<Longrightarrow> p \<le> 100 \<Longrightarrow> length (dec_int p) \<le> 3"
  using length_dec_nat [of "nat p" 2] by (simp add: dec_int_def)

lemma state_payload_length:
  assumes "length (os_message s) \<le> 127" "length (os_current s) \<le> 15" "length (os_remote s) \<le> 15"
    "0 \<le> os_progress s" "os_progress s \<le> 100"
  shows "length (state_payload st s) < 255"
  using state_str_length [of st] percent_length [OF assms(4,5)] assms(1-3)
  by (simp add: state_payload_def)

lemma state_event_whole: "status_ok s \<Longrightarrow> event_whole (state_event st msg s)"
  using state_payload_length [of "s\<lparr>os_state := st, os_message := take 127 msg\<rparr>" st]
  by (simp add: state_event_def status_ok_def snprintf_def)

lemma status_ok_state: "status_ok s \<Longrightarrow> status_ok (s\<lparr>os_state := st, os_message := take 127 msg\<rparr>)"
  by (simp add: status_ok_def)

lemma set_state_ok: "ota_ok n w \<Longrightarrow> st \<noteq> SK_OTA_UPDATE_AVAILABLE \<Longrightarrow> ota_ok n (set_state st msg w)"
  by (simp add: ota_ok_def status_ok_state state_event_whole offers_newer_def)

lemma set_progress_ok: "ota_ok n w \<Longrightarrow> 0 \<le> p \<Longrightarrow> p \<le> 100 \<Longrightarrow> ota_ok n (set_progress p w)"
  by (simp add: ota_ok_def status_ok_def offers_newer_def)

lemma emit_ok: "ota_ok n w \<Longrightarrow> event_whole a \<Longrightarrow> ota_ok n (emit_o a w)"
  by (auto simp add: ota_ok_def)

lemma park_ok: "ota_ok n w \<Longrightarrow> task_size_ok n t \<Longrightarrow> ota_ok n (park_o t w)"
  by (simp add: ota_ok_def)

lemma other_ok: "ota_ok n w \<Longrightarrow> ota_ok n (w\<lparr>ot_other := part\<rparr>)" "ota_ok n w \<Longrightarrow> ota_ok n (w\<lparr>ot_boot_other := b\<rparr>)"
  "ota_ok n w \<Longrightarrow> ota_ok n (w\<lparr>ot_confirm := c\<rparr>)"
  by (simp_all add: ota_ok_def)

lemmas ota_ok_rules = set_state_ok set_progress_ok emit_ok park_ok other_ok

lemma check_fail_ok: "ota_ok n w \<Longrightarrow> ota_ok n (check_fail why msg w)"
  by (simp add: check_fail_def ota_ok_rules)

lemma store_compare_ok:
  assumes "ota_ok n w"
  shows "ota_ok n (compare_versions (store_manifest ver url sha w))"
proof -
  define w' where "w' = store_manifest ver url sha w"
  have w': "status_ok (ot_status w')" "list_all (task_size_ok n) (ot_tasks w')" "list_all event_whole (ot_out w')"
    using assms by (auto simp: w'_def store_manifest_def ota_ok_def status_ok_def Let_def split: option.split)
  note e = state_event_whole [OF w'(1)]
  show ?thesis
    using w' e
    by (auto simp: compare_versions_def w'_def [symmetric] Let_def ota_ok_def status_ok_def offers_newer_def split: option.split)
qed

lemma check_finish_ok: "ota_ok n w \<Longrightarrow> ota_ok n (check_finish d w)"
  by (auto simp: check_finish_def check_manifest_def http_fail_def check_fail_ok store_compare_ok
      split: fetched.split option.split)

lemma percent_range: "0 < n \<Longrightarrow> 0 \<le> r \<Longrightarrow> r \<le> n \<Longrightarrow> 0 \<le> cdiv (r * 100) n \<and> cdiv (r * 100) n \<le> 100"
proof -
  assume a: "0 < n" "0 \<le> r" "r \<le> (n::int)"
  then have "r * 100 div n \<le> n * 100 div n" by (intro zdiv_mono1) simp_all
  with a show ?thesis by (simp add: cdiv_nonneg pos_imp_zdiv_nonneg_iff)
qed

lemma download_progress_ok: "ota_ok n w \<Longrightarrow> drv_sized n d \<Longrightarrow> ota_ok n (download_progress d n w)"
  using percent_range [of n "od_len_read d"] by (auto simp: download_progress_def drv_sized_def Let_def intro: set_progress_ok)

lemma download_step_ok: "ota_ok n w \<Longrightarrow> drv_sized n d \<Longrightarrow> ota_ok n (download_step d da n w)"
  by (auto simp: download_step_def install_fail_def Let_def ota_ok_rules download_progress_ok split: prod.split)

lemma download_end_ok: "ota_ok n w \<Longrightarrow> ota_ok n (download_end d da m w)"
  unfolding download_end_def Let_def
  by (auto intro!: ota_ok_rules simp: ota_ok_rules simp del: set_state_fields)

lemma run_task_ok:
  assumes "ota_ok n w" "task_size_ok n t" "drv_sized n d"
  shows "ota_ok n (run_ota_task d t w)"
proof (cases t)
  case (DownloadRunning da m)
  then show ?thesis using assms download_step_ok by simp
qed (use assms in \<open>simp_all add: check_begin_def check_finish_ok download_begin_def download_open_def drv_sized_def
    download_end_ok ota_ok_rules\<close>)

lemma command_ok: "ota_ok n w \<Longrightarrow> ota_ok n (ota_command d now ctx cmd w)"
  by (cases cmd) (auto simp: ota_command_defs answer_o_def Let_def ota_ok_rules split: option.split prod.split)

lemma boot_ok: "ota_ok n w \<Longrightarrow> ota_ok n (ota_boot d cfg w)"
  by (auto simp: ota_boot_def sk_ota_init_def Let_def ota_ok_def status_ok_def offers_newer_def ota_static_def ota_status0_def
      copied_def split: option.split prod.split if_splits)

lemma without_ok: "ota_ok n w \<Longrightarrow> ota_ok n (w\<lparr>ot_tasks := leaving_out i (ot_tasks w)\<rparr>)"
  using set_leaving_out [of i "ot_tasks w"] by (auto simp: ota_ok_def list_all_iff)

lemma sched_ok: "ota_ok n w \<Longrightarrow> sized_sched n e \<Longrightarrow> ota_ok n (ota_do w e)"
proof (cases e)
  case (OtaRun d i)
  assume a: "ota_ok n w" "sized_sched n e"
  show ?thesis
  proof (cases "i < length (ot_tasks w)")
    case True
    then have "task_size_ok n (ot_tasks w ! i)" using a(1) by (simp add: ota_ok_def list_all_length)
    then show ?thesis using run_task_ok [OF without_ok [OF a(1)]] a(2) True
      by (simp add: OtaRun run_step del: ota_do.simps)
  qed (use a OtaRun in simp)
qed (simp_all add: command_ok boot_ok)

interpretation ota_runs: stepping ota_do "ota_ok n" "sized_sched n" for n
  by unfold_locales (rule sched_ok)

lemma static_ok: "ota_ok n (ota_static running other)"
  by (simp add: ota_ok_def ota_static_def ota_status0_def status_ok_def offers_newer_def)

lemma run_ok: "\<forall>e \<in> set es. sized_sched n e \<Longrightarrow> ota_ok n (foldl ota_do (ota_static running other) es)"
  by (rule ota_runs.run_inv [OF static_ok])

text \<open>
  No text about an update is cut: in every run from a device that was just switched on, with any interleaving of
  workers, commands and restarts, in which an image of \<open>n\<close> bytes (or of unknown size) is served and no more than its
  bytes are received, the progress is a percentage, every event that was published went out whole, and the
  answer of \<open>ota.status\<close> fits its buffer.
\<close>
theorem ota_texts_fit:
  assumes "\<forall>e \<in> set es. sized_sched n e" "w = foldl ota_do (ota_static running other) es"
    "length (sk_ota_running_label d) \<le> 16"
  shows "0 \<le> os_progress (ot_status w) \<and> os_progress (ot_status w) \<le> 100 \<and> list_all event_whole (ot_out w) \<and>
    snprintf 416 (ota_status_text d w) = ota_status_text d w"
proof -
  have w: "ota_ok n w" using run_ok [OF assms(1)] assms(2) by simp
  have p: "length (dec_int (os_progress (ot_status w))) \<le> 3" using w by (intro percent_length) (simp_all add: ota_ok_def status_ok_def)
  have b: "length (jbool x) \<le> 5" for x by (simp add: jbool_def)
  have "length (ota_status_text d w) < 416"
    using w p assms(3) state_str_length [of "os_state (ot_status w)"] b [of "sk_ota_can_rollback d w"]
      b [of "os_url (ot_status w) \<noteq> []"] b [of True] b [of False]
    by (auto simp add: ota_status_text_def Let_def ota_ok_def status_ok_def)
  then show ?thesis using w by (simp add: ota_ok_def status_ok_def snprintf_def)
qed

text \<open>
  No downgrade from the update server: in every such run, when \<open>ota.update\<close> without an address of its own is
  accepted, the version of the cached manifest is newer than the firmware that runs.
\<close>
theorem cached_update_is_newer:
  assumes "\<forall>e \<in> set es. sized_sched n e" "w = foldl ota_do (ota_static running other) es"
    "OUndefined \<notin> set (ot_out w)" "fst (sk_ota_start d None w) = ESP_OK"
  shows "\<exists>c > 0. semver_cmp (os_remote (ot_status w)) (os_current (ot_status w)) = Some c"
proof -
  have "offers_newer (ot_status w)" using run_ok [OF assms(1), of running other] assms(2,3) by (simp add: ota_ok_def)
  moreover have "os_state (ot_status w) = SK_OTA_UPDATE_AVAILABLE"
    using assms(4) by (auto simp: sk_ota_start_def Let_def split: if_splits)
  ultimately show ?thesis by (auto simp: offers_newer_def split: option.splits)
qed

section \<open>One worker at a time\<close>

fun not_begun :: "ota_task \<Rightarrow> bool" where
  "not_begun (CheckQueued url) = True"
| "not_begun (DownloadQueued da) = True"
| "not_begun _ = False"

text \<open>A scheduler that takes a command only when every new worker has begun.\<close>

fun is_command :: "ota_sched \<Rightarrow> bool" where
  "is_command (OtaCommand d now ctx cmd) = True"
| "is_command _ = False"

definition prompt_do :: "ota \<Rightarrow> ota_sched \<Rightarrow> ota" where
  "prompt_do w e = (if is_command e \<and> list_ex not_begun (ot_tasks w) then w else ota_do w e)"

fun worker :: "ota_task \<Rightarrow> bool" where
  "worker UpdateRestart = False"
| "worker RollbackRestart = False"
| "worker _ = True"

fun begun_as :: "ota_task \<Rightarrow> sk_ota_state option" where
  "begun_as CheckFetching = Some SK_OTA_CHECKING"
| "begun_as (DownloadOpening da) = Some SK_OTA_DOWNLOADING"
| "begun_as (DownloadRunning da m) = Some SK_OTA_DOWNLOADING"
| "begun_as (DownloadAccepted da m) = Some SK_OTA_DOWNLOADING"
| "begun_as _ = None"

fun accepted_ok :: "(u8 list \<Rightarrow> u8 list) \<Rightarrow> u8 list \<Rightarrow> ota_task \<Rightarrow> bool" where
  "accepted_ok S part (DownloadAccepted da m) = (\<not> da_verify da \<or> hash_matches S (da_sha da) (take (nat m) part))"
| "accepted_ok S part _ = True"

fun activation_ok :: "(u8 list \<Rightarrow> u8 list) \<Rightarrow> ota_act \<Rightarrow> bool" where
  "activation_ok S (OActivate da img) = (\<not> da_verify da \<or> hash_matches S (da_sha da) img)"
| "activation_ok S _ = True"

definition task_ok :: "(u8 list \<Rightarrow> u8 list) \<Rightarrow> sk_ota_state \<Rightarrow> u8 list \<Rightarrow> ota_task \<Rightarrow> bool" where
  "task_ok S st part t \<longleftrightarrow> (begun_as t = None \<or> begun_as t = Some st) \<and> accepted_ok S part t"

definition single_ok :: "(u8 list \<Rightarrow> u8 list) \<Rightarrow> ota \<Rightarrow> bool" where
  "single_ok S w \<longleftrightarrow> length (filter worker (ot_tasks w)) \<le> 1 \<and>
     list_all (task_ok S (os_state (ot_status w)) (ot_other w)) (ot_tasks w) \<and> list_all (activation_ok S) (ot_out w)"

text \<open>No worker at all: then the state and the partition may change freely.\<close>

definition idle_ok :: "(u8 list \<Rightarrow> u8 list) \<Rightarrow> ota \<Rightarrow> bool" where
  "idle_ok S w \<longleftrightarrow> list_all (\<lambda>t. \<not> worker t) (ot_tasks w) \<and> list_all (activation_ok S) (ot_out w)"

lemma no_worker_ok: "\<not> worker t \<Longrightarrow> task_ok S st part t"
  by (cases t) (simp_all add: task_ok_def)

lemma idle_filter: "list_all (\<lambda>t. \<not> worker t) ts \<Longrightarrow> filter worker ts = []"
  by (simp add: list_all_iff filter_empty_conv)

lemma idle_single: "idle_ok S w \<Longrightarrow> single_ok S w"
  by (auto simp: single_ok_def idle_ok_def idle_filter list_all_iff no_worker_ok)

lemma idle_park: "idle_ok S w \<Longrightarrow> task_ok S (os_state (ot_status w)) (ot_other w) t \<Longrightarrow> single_ok S (park_o t w)"
  by (auto simp: single_ok_def idle_ok_def idle_filter list_all_iff no_worker_ok)

lemma idle_fields: "ot_tasks w' = ot_tasks w \<Longrightarrow> ot_out w' = ot_out w @ acts \<Longrightarrow> list_all (activation_ok S) acts \<Longrightarrow>
    idle_ok S w \<Longrightarrow> idle_ok S w'"
  by (simp add: idle_ok_def)

lemma activation_state_event [simp]: "activation_ok S (state_event st msg s)"
  by (simp add: state_event_def)

lemma filter_without:
  assumes "i < length xs"
  shows "length (filter P xs) = length (filter P (leaving_out i xs)) + (if P (xs ! i) then 1 else 0)"
proof -
  have "filter P xs = filter P (take i xs @ xs ! i # drop (Suc i) xs)" using id_take_nth_drop [OF assms] by simp
  then show ?thesis by (simp add: leaving_out_def)
qed

lemma rest_idle:
  assumes "single_ok S w" "i < length (ot_tasks w)" "worker (ot_tasks w ! i)"
  shows "idle_ok S (w\<lparr>ot_tasks := leaving_out i (ot_tasks w)\<rparr>)"
proof -
  have "filter worker (leaving_out i (ot_tasks w)) = []"
    using assms(1,3) filter_without [OF assms(2), of worker] by (simp add: single_ok_def)
  then show ?thesis using assms(1) by (auto simp: idle_ok_def single_ok_def list_all_iff filter_empty_conv)
qed

lemma idle_emit [simp]: "activation_ok S a \<Longrightarrow> idle_ok S w \<Longrightarrow> idle_ok S (emit_o a w)"
  by (simp add: idle_ok_def)

lemma idle_state [simp]: "idle_ok S w \<Longrightarrow> idle_ok S (set_state st msg w)" "idle_ok S w \<Longrightarrow> idle_ok S (set_progress p w)"
  "idle_ok S w \<Longrightarrow> idle_ok S (w\<lparr>ot_other := part\<rparr>)" "idle_ok S w \<Longrightarrow> idle_ok S (w\<lparr>ot_boot_other := b\<rparr>)"
  "idle_ok S w \<Longrightarrow> idle_ok S (w\<lparr>ot_status := s\<rparr>)"
  by (simp_all add: idle_ok_def)

lemma idle_pieces [simp]: "idle_ok S w \<Longrightarrow> idle_ok S (check_fail why msg w)"
  "idle_ok S w \<Longrightarrow> idle_ok S (install_fail ev txt msg w)" "idle_ok S w \<Longrightarrow> idle_ok S (http_fail st w)"
  "idle_ok S w \<Longrightarrow> idle_ok S (compare_versions w)" "idle_ok S w \<Longrightarrow> idle_ok S (store_manifest ver url sha w)"
  "idle_ok S w \<Longrightarrow> idle_ok S (download_progress d m w)"
  by (simp_all add: check_fail_def install_fail_def http_fail_def compare_versions_def store_manifest_def download_progress_def
      Let_def split: option.split)

lemma idle_check_finish: "idle_ok S w \<Longrightarrow> idle_ok S (check_finish d w)"
  by (simp add: check_finish_def check_manifest_def split: fetched.split option.split)

lemma progress_state [simp]: "os_state (ot_status (download_progress d m w)) = os_state (ot_status w)"
  "ot_other (download_progress d m w) = ot_other w"
  by (simp_all add: download_progress_def Let_def)

lemma single_download_step:
  assumes "idle_ok S w" "os_state (ot_status w) = SK_OTA_DOWNLOADING" "od_sha256 d = S"
  shows "single_ok S (download_step d da m w)"
proof (cases "od_perform d (ot_other w)")
  case (Pair err part)
  show ?thesis
    using assms verified_matches [of d part "da_sha da"]
    by (auto simp: download_step_def Pair Let_def task_ok_def idle_park idle_single)
qed

lemma single_download_end:
  assumes "idle_ok S w" "accepted_ok S (ot_other w) (DownloadAccepted da m)"
  shows "single_ok S (download_end d da m w)"
  using assms by (auto simp: download_end_def Let_def task_ok_def idle_park idle_single)

lemma ota_single_task:
  assumes "single_ok S w" "i < length (ot_tasks w)" "od_sha256 d = S"
  shows "single_ok S (ota_do w (OtaRun d i))"
proof -
  define w' where "w' = w\<lparr>ot_tasks := leaving_out i (ot_tasks w)\<rparr>"
  have f: "ot_status w' = ot_status w" "ot_other w' = ot_other w" by (simp_all add: w'_def)
  have t: "task_ok S (os_state (ot_status w)) (ot_other w) (ot_tasks w ! i)"
    using assms(1,2) by (simp add: single_ok_def list_all_length)
  have r: "ota_do w (OtaRun d i) = run_ota_task d (ot_tasks w ! i) w'"
    using assms(2) by (simp add: run_step w'_def del: ota_do.simps)
  show ?thesis
  proof (cases "worker (ot_tasks w ! i)")
    case True
    note idle = rest_idle [OF assms(1,2) True, folded w'_def]
    show ?thesis
      using t idle unfolding r
      by (cases "ot_tasks w ! i")
        (auto simp: f task_ok_def check_begin_def download_begin_def download_open_def assms(3)
          idle_park idle_single idle_check_finish single_download_step single_download_end)
  next
    case False
    have "single_ok S w'"
      using assms(1) set_leaving_out [of i "ot_tasks w"] filter_without [OF assms(2), of worker] False
      by (auto simp: single_ok_def w'_def list_all_iff)
    then show ?thesis using False unfolding r by (cases "ot_tasks w ! i") (simp_all add: single_ok_def)
  qed
qed

lemma not_waiting_begun: "worker t \<Longrightarrow> \<not> not_begun t \<Longrightarrow> begun_as t = Some SK_OTA_CHECKING \<or> begun_as t = Some SK_OTA_DOWNLOADING"
  by (cases t) simp_all

lemma idle_when_free:
  assumes "single_ok S w" "\<not> list_ex not_begun (ot_tasks w)" "\<not> sk_ota_is_busy w"
  shows "idle_ok S w"
proof -
  have "\<not> worker t" if t: "t \<in> set (ot_tasks w)" for t
  proof
    assume "worker t"
    moreover have "\<not> not_begun t" using assms(2) t by (simp add: list_ex_iff)
    moreover have "begun_as t = None \<or> begun_as t = Some (os_state (ot_status w))"
      using assms(1) t by (simp add: single_ok_def list_all_iff task_ok_def)
    ultimately show False using not_waiting_begun [of t] assms(3) by (auto simp: sk_ota_is_busy_def)
  qed
  then show ?thesis using assms(1) by (simp add: idle_ok_def single_ok_def list_all_iff)
qed

lemma single_emit [simp]: "activation_ok S a \<Longrightarrow> single_ok S w \<Longrightarrow> single_ok S (emit_o a w)"
  "single_ok S w \<Longrightarrow> single_ok S (w\<lparr>ot_confirm := c\<rparr>)" "single_ok S w \<Longrightarrow> single_ok S (w\<lparr>ot_boot_other := b\<rparr>)"
  by (simp_all add: single_ok_def)

lemma confirm_fields [simp]: "sk_ota_is_busy (w\<lparr>ot_confirm := c\<rparr>) = sk_ota_is_busy w"
  "sk_ota_can_rollback d (w\<lparr>ot_confirm := c\<rparr>) = sk_ota_can_rollback d w"
  by (simp_all add: sk_ota_is_busy_def sk_ota_can_rollback_def)

lemma single_park_restart: "single_ok S w \<Longrightarrow> single_ok S (park_o RollbackRestart w)"
  by (simp add: single_ok_def task_ok_def)

lemma single_check:
  assumes "single_ok S w" "\<not> list_ex not_begun (ot_tasks w)"
  shows "single_ok S (snd (sk_ota_check d u w))"
  using assms idle_when_free [OF assms]
  by (auto simp: sk_ota_check_def Let_def task_ok_def intro: idle_park)

lemma single_start:
  assumes "single_ok S w" "\<not> list_ex not_begun (ot_tasks w)"
  shows "single_ok S (snd (sk_ota_start d u w))"
  using assms idle_when_free [OF assms]
  by (auto simp: sk_ota_start_def start_download_def Let_def task_ok_def intro: idle_park split: option.split)

lemma ota_single_command:
  assumes "single_ok S w" "\<not> list_ex not_begun (ot_tasks w)"
  shows "single_ok S (ota_command d now ctx cmd w)"
proof (cases cmd)
  case OtaCheck
  then show ?thesis using single_check [OF assms, of d "sk_cli_arg_named ctx ''url''"]
    by (auto simp: cmd_ota_check_def answer_o_def split: prod.split)
next
  case OtaUpdate
  have "single_ok S (snd (sk_ota_start d u (w\<lparr>ot_confirm := c\<rparr>)))" for u c
    using assms by (intro single_start) simp_all
  then show ?thesis unfolding OtaUpdate
    by (auto simp: cmd_ota_start_def answer_o_def Let_def assms(1) split: option.split prod.split dest!: arg_cong [where f = snd])
next
  case OtaRollback
  then show ?thesis using assms(1)
    by (auto simp: cmd_ota_rollback_def sk_ota_rollback_def answer_o_def Let_def single_park_restart
        split: option.split prod.split)
qed (use assms(1) in \<open>simp add: cmd_ota_status_def answer_o_def\<close>)

lemma ota_single_boot: "single_ok S w \<Longrightarrow> single_ok S (ota_boot d cfg w)"
  by (auto simp: ota_boot_def sk_ota_init_def Let_def single_ok_def ota_static_def split: prod.split)

text \<open>One hash function for the run.\<close>

primrec hashes_with :: "(u8 list \<Rightarrow> u8 list) \<Rightarrow> ota_sched \<Rightarrow> bool" where
  "hashes_with S (OtaRun d i) = (od_sha256 d = S)"
| "hashes_with S (OtaCommand d now ctx cmd) = True"
| "hashes_with S (OtaBoot d cfg) = True"

lemma ota_single_step: "single_ok S w \<Longrightarrow> hashes_with S e \<Longrightarrow> single_ok S (prompt_do w e)"
proof (cases e)
  case (OtaRun d i)
  then show "single_ok S w \<Longrightarrow> hashes_with S e \<Longrightarrow> ?thesis" using ota_single_task [of S w i d]
    by (cases "i < length (ot_tasks w)") (auto simp: prompt_do_def simp del: ota_do.simps(1), simp_all)
qed (auto simp: prompt_do_def ota_single_command ota_single_boot)

interpretation prompt_runs: stepping prompt_do "single_ok S" "hashes_with S" for S
  by unfold_locales (rule ota_single_step)

lemma ota_single_run: "list_all (hashes_with S) es \<Longrightarrow> single_ok S (foldl prompt_do (ota_static running other) es)"
  by (rule prompt_runs.run_inv) (simp_all add: single_ok_def ota_static_def list_all_iff)

text \<open>
  An image with a hash is activated only when it has this hash: in every run from a device that was just switched on,
  with any interleaving of the pieces of the workers, commands, rollbacks and restarts in which a new worker begins before the
  next command is taken, whatever the server, the network and the flash answer, at most one worker is active, and every image that
  was made the next to boot by an update that carried a hash has that SHA-256.
\<close>
theorem only_matching_images_activated:
  assumes "list_all (hashes_with S) es" "w = foldl prompt_do (ota_static running other) es"
  shows "length (filter worker (ot_tasks w)) \<le> 1 \<and> list_all (activation_ok S) (ot_out w)"
  using ota_single_run [OF assms(1), of running other] by (simp add: assms(2) single_ok_def)

end
