(* ===== verification/SkOtaInstall.thy ===== *)
theory SkOtaInstall
  imports SkOtaRunProps
begin

text \<open>
  A check and an update that server and flash serve end in the new firmware; the concrete runs that show the
  hypotheses of the properties can hold, and the runs behind the findings.
\<close>

section \<open>An update that is served\<close>

definition serves :: "ota_drv \<Rightarrow> string \<Rightarrow> string \<Rightarrow> string \<Rightarrow> bool" where
  "serves d ver url sha \<longleftrightarrow> od_mem d \<and> od_task d \<and> od_http d \<and> follow_hops 5 (od_hop d) 0 0 = Response 200 \<and>
     od_mem_buf d \<and>
     (case read_manifest d of None \<Rightarrow> False
      | Some txt \<Rightarrow> (case od_json d txt of None \<Rightarrow> False
          | Some item \<Rightarrow> item ''version'' = Some ver \<and> item ''url'' = Some url \<and> item ''sha256'' = Some sha))"

definition receiving :: "ota_drv \<Rightarrow> bool" where
  "receiving d \<longleftrightarrow> (\<forall>part. fst (od_perform d part) = OtaInProgress)"

definition received :: "ota_drv list \<Rightarrow> u8 list \<Rightarrow> u8 list" where
  "received ds part = foldl (\<lambda>p d. snd (od_perform d p)) part ds"

text \<open>The last piece of the image arrives, is whole, has the hash, and the library accepts it.\<close>

definition delivers :: "ota_drv \<Rightarrow> u8 list \<Rightarrow> string \<Rightarrow> u8 list \<Rightarrow> bool" where
  "delivers d part sha img \<longleftrightarrow> od_perform d part = (OtaOk, img) \<and> od_complete d \<and> reads_ok d \<and> od_size d > 0 \<and>
     hash_matches (od_sha256 d) sha (take (nat (od_size d)) img) \<and> od_finish d img = OtaOk"

lemma check_served:
  assumes "ot_tasks w = []" "\<not> sk_ota_is_busy w" "ot_manifest w \<noteq> []" "serves d ver url sha" "length sha = 64"
    and "semver_cmp (take 15 ver) (os_current (ot_status w)) = Some c" "c > 0" "sk_cli_arg_named ctx ''url'' = None"
    and run: "w' = foldl ota_do w [OtaCommand d now ctx OtaCheck, OtaRun d 0, OtaRun d 0]"
  shows "ot_tasks w' = []" "os_state (ot_status w') = SK_OTA_UPDATE_AVAILABLE" "os_url (ot_status w') = take 191 url"
    "os_has_sha (ot_status w')" "os_sha (ot_status w') = sha" "ot_other w' = ot_other w" "ot_running w' = ot_running w"
    "ot_confirm w' = ot_confirm w"
proof -
  obtain body item where m: "read_manifest d = Some body" "od_json d body = Some item" "item ''version'' = Some ver"
    "item ''url'' = Some url" "item ''sha256'' = Some sha"
    using assms(4) by (auto simp: serves_def split: option.splits)
  have s: "od_mem d" "od_task d" "od_http d" "follow_hops 5 (od_hop d) 0 0 = Response 200" "od_mem_buf d"
    using assms(4) by (simp_all add: serves_def)
  show "ot_tasks w' = []" "os_state (ot_status w') = SK_OTA_UPDATE_AVAILABLE" "os_url (ot_status w') = take 191 url"
    "os_has_sha (ot_status w')" "os_sha (ot_status w') = sha" "ot_other w' = ot_other w" "ot_running w' = ot_running w"
    "ot_confirm w' = ot_confirm w"
    using assms(1-3,5-8) m s
    by (simp_all add: run cmd_ota_check_def sk_ota_check_def answer_o_def check_begin_def check_finish_def
        check_manifest_def store_manifest_def compare_versions_def Let_def)
qed

lemma update_begins:
  assumes "ot_tasks w = []" "os_state (ot_status w) = SK_OTA_UPDATE_AVAILABLE" "os_url (ot_status w) \<noteq> []"
    and "os_has_sha (ot_status w)" "os_sha (ot_status w) = sha" "length sha = 64" "od_mem d" "od_task d"
    and "sk_cli_arg_named ctx ''url'' = None" "confirm_token ctx = Some tok"
    and "fst (sk_auth_confirm_consume now tok (ot_confirm w)) = ESP_OK" "od_begin d = OtaOk" "od_handle d"
    and run: "w' = foldl ota_do w [OtaCommand d now ctx OtaUpdate, OtaRun d 0, OtaRun d 0]"
  shows "ot_tasks w' = [DownloadRunning \<lparr> da_url = take 191 (os_url (ot_status w)), da_verify = True, da_sha = sha \<rparr> (od_size d)]"
    "ot_other w' = ot_other w" "ot_running w' = ot_running w"
proof -
  obtain slots where c: "sk_auth_confirm_consume now tok (ot_confirm w) = (ESP_OK, slots)"
    using assms(11) by (cases "sk_auth_confirm_consume now tok (ot_confirm w)") simp
  show "ot_tasks w' = [DownloadRunning \<lparr> da_url = take 191 (os_url (ot_status w)), da_verify = True, da_sha = sha \<rparr> (od_size d)]"
    "ot_other w' = ot_other w" "ot_running w' = ot_running w"
    using assms(1-10,12,13) c
    by (simp_all add: run cmd_ota_start_def sk_ota_start_def start_download_def sk_ota_is_busy_def answer_o_def
        download_begin_def download_open_def Let_def)
qed

lemma download_goes_on:
  assumes "ot_tasks w = [DownloadRunning da n]" "list_all receiving ds"
    and run: "w' = foldl ota_do w (map (\<lambda>d. OtaRun d 0) ds)"
  shows "ot_tasks w' = [DownloadRunning da n] \<and> ot_other w' = received ds (ot_other w) \<and> ot_running w' = ot_running w"
  using assms(1,2) unfolding run
proof (induction ds arbitrary: w)
  case (Cons d ds)
  obtain part where p: "od_perform d (ot_other w) = (OtaInProgress, part)"
    using Cons.prems(2) by (cases "od_perform d (ot_other w)") (simp add: receiving_def, metis fst_conv)
  let ?w = "ota_do w (OtaRun d 0)"
  have "ot_tasks ?w = [DownloadRunning da n]" "ot_other ?w = part" "ot_running ?w = ot_running w"
    using Cons.prems(1) p by (simp_all add: download_step_def download_progress_def Let_def)
  then show ?case using Cons.IH [of ?w] Cons.prems(2) p by (simp add: received_def del: ota_do.simps)
qed (simp add: received_def)

lemma download_completes:
  assumes "ot_tasks w = [DownloadRunning da n]" "da_verify da" "delivers d (ot_other w) (da_sha da) img" "od_mem db"
    and run: "w' = foldl ota_do w [OtaRun d 0, OtaRun d 0, OtaRun d 0, OtaBoot db cfg]"
  shows "ot_running w' = img \<and> ot_other w' = ot_running w \<and> ORestart \<in> set (ot_out w') \<and>
    os_current (ot_status w') = copied 15 (oc_version cfg) [] \<and> OMarkValid \<in> set (ot_out w')"
proof -
  have v: "verify_partition_sha256 d img (da_sha da)"
    using assms(3) verify_when_readable [of d img "da_sha da"] by (simp add: delivers_def)
  show ?thesis using assms(1-4) v
    by (simp add: run delivers_def download_step_def download_end_def ota_boot_def sk_ota_init_def ota_static_def
        ota_status0_def Let_def)
qed

text \<open>
  An update that is served is installed: on a device at rest with a configured update server, \<open>ota.check\<close>, its worker,
  \<open>ota.update\<close> with a valid confirm token, its worker over any number of pieces of the image, and the restart lead,
  when the manifest names a newer version with the hash of the image, to the new image running, the old one kept in the other
  partition for a rollback, and the new firmware marked as valid.
\<close>
theorem update_installs:
  assumes "ot_tasks w = []" "\<not> sk_ota_is_busy w" "ot_manifest w \<noteq> []" "serves d ver url sha" "url \<noteq> []" "length sha = 64"
    and "semver_cmp (take 15 ver) (os_current (ot_status w)) = Some c" "c > 0" "sk_cli_arg_named ctx ''url'' = None"
    and "confirm_token ctx = Some tok" "fst (sk_auth_confirm_consume now tok (ot_confirm w)) = ESP_OK"
    and "od_begin d = OtaOk" "od_handle d" "list_all receiving ds" "delivers dl (received ds (ot_other w)) sha img" "od_mem db"
    and run: "w' = foldl ota_do w ([OtaCommand d now ctx OtaCheck, OtaRun d 0, OtaRun d 0] @
      [OtaCommand d now ctx OtaUpdate, OtaRun d 0, OtaRun d 0] @ map (\<lambda>d. OtaRun d 0) ds @
      [OtaRun dl 0, OtaRun dl 0, OtaRun dl 0, OtaBoot db cfg])"
  shows "ot_running w' = img \<and> ot_other w' = ot_running w \<and> ORestart \<in> set (ot_out w') \<and>
    os_current (ot_status w') = copied 15 (oc_version cfg) [] \<and> OMarkValid \<in> set (ot_out w')"
proof -
  define w1 where "w1 = foldl ota_do w [OtaCommand d now ctx OtaCheck, OtaRun d 0, OtaRun d 0]"
  note c = check_served [OF assms(1-4,6-9) w1_def]
  define w2 where "w2 = foldl ota_do w1 [OtaCommand d now ctx OtaUpdate, OtaRun d 0, OtaRun d 0]"
  have s: "od_mem d" "od_task d" using assms(4) by (simp_all add: serves_def)
  have u: "os_url (ot_status w1) \<noteq> []" using c(3) assms(5) by simp
  have k: "fst (sk_auth_confirm_consume now tok (ot_confirm w1)) = ESP_OK" using c(8) assms(11) by simp
  note b = update_begins [OF c(1,2) u c(4,5) assms(6) s assms(9,10) k assms(12,13) w2_def]
  define w3 where "w3 = foldl ota_do w2 (map (\<lambda>d. OtaRun d 0) ds)"
  note r = download_goes_on [OF b(1) assms(14) w3_def]
  have w3: "w' = foldl ota_do w3 [OtaRun dl 0, OtaRun dl 0, OtaRun dl 0, OtaBoot db cfg]"
    unfolding run w1_def w2_def w3_def foldl_append ..
  show ?thesis
    unfolding w3 using download_completes [of w3 _ _ dl img db _ cfg, OF _ _ _ assms(16) refl] r b c(6,7) assms(15) by simp
qed

text \<open>
  A rollback that succeeds never answers: when \<open>ota.rollback\<close> has accepted the other image, the handler restarts
  the device before it would answer, so the caller gets no envelope, neither \<open>rolling_back\<close> nor an error, while every
  refusal is answered.
\<close>
theorem rollback_never_answers:
  "let w' = cmd_ota_rollback d now ctx w in
   if OBootPrevious \<in> set (drop (length (ot_out w)) (ot_out w')) then
     list_all (\<lambda>a. \<nexists>x. a = OCli x) (drop (length (ot_out w)) (ot_out w')) \<and> ot_tasks w' = ot_tasks w @ [RollbackRestart]
   else \<exists>e p. ot_out w' = ot_out w @ [OCli (CliErr e p)]"
  by (auto simp: cmd_ota_rollback_def sk_ota_rollback_def answer_o_def Let_def split: option.split prod.split)

end
