(* ===== verification/SkOtaExamples.thy ===== *)
theory SkOtaExamples
  imports SkOtaInstall
begin

text \<open>
  A concrete update server, flash and image: the update is installed, and the runs behind what the comments of
  \<open>sk_ota.c\<close> do not say: a rollback boots an image that was rejected, two workers at once, a malformed hash.
\<close>

definition toy_sha :: "u8 list \<Rightarrow> u8 list" where
  "toy_sha bs = replicate 31 0 @ [foldl (+) 0 bs]"

definition toy_image :: "u8 list" where "toy_image = [1, 2, 3]"

definition toy_hash :: string where "toy_hash = bytes_to_hex (toy_sha toy_image)"

definition toy_manifest :: "string \<Rightarrow> string \<Rightarrow> string option" where
  "toy_manifest sha f = (if f = ''version'' then Some ''1.10.0'' else if f = ''url'' then Some ''https://a/fw''
     else if f = ''sha256'' then Some sha else None)"

definition toy_ota :: "string \<Rightarrow> ota_drv" where
  "toy_ota sha = \<lparr> od_mem = True, od_task = True, od_http = True, od_hop = (\<lambda>i. \<lparr> hh_open = True, hh_status = 200, hh_redirect = True \<rparr>),
     od_mem_buf = True, od_body = Some ''{}'', od_json = (\<lambda>t. Some (toy_manifest sha)), od_begin = OtaOk, od_handle = True, od_size = 3,
     od_perform = (\<lambda>p. (OtaOk, toy_image)), od_len_read = 3, od_complete = True, od_finish = (\<lambda>p. OtaOk), od_part_read = (\<lambda>i. True),
     od_hash_ready = True, od_mem_chunk = True, od_sha256 = toy_sha, od_other = True, od_desc = (\<lambda>p. Some ''1.10.0''),
     od_set_boot = (\<lambda>p. ESP_OK), od_label = Some ''ota_0'' \<rparr>"

definition toy_token :: string where "toy_token = replicate 32 CHR ''a''"

definition toy_update_dev :: ota where
  "toy_update_dev = (ota_static [9] [])\<lparr>ot_status := ota_status0\<lparr>os_current := ''1.9.3''\<rparr>, ot_manifest := ''https://a/m'',
     ot_confirm := [\<lparr> token_hex = toy_token, expires_us = 100, slot_in_use = True \<rparr>]\<rparr>"

definition toy_call :: cli_ctx where
  "toy_call = \<lparr> is_machine_mode = False, command_name = ''ota.update'', confirm_token = Some toy_token, authenticated = True,
     machine_args = None, machine_id = -1, human_argv = [] \<rparr>"

lemma newer_version: "semver_cmp ''1.10.0'' ''1.9.3'' = Some 1"
  by code_simp

theorem semver_cmp_is_version_order_witness:
  "\<exists>c > 0. semver_cmp (version_text (1, 10, 0)) (version_text (1, 9, 3)) = Some c"
  using semver_cmp_is_version_order [of "(1, 10, 0)" "(1, 9, 3)"]
  by (auto simp: version_fits_def version_less_def LONG_MAX_def)

theorem partition_hash_is_image_hash_witness:
  "verify_partition_sha256 (toy_ota toy_hash) [1, 2, 3, 4] toy_hash"
proof -
  have "reads_ok (toy_ota toy_hash)" by (simp add: reads_ok_def toy_ota_def)
  moreover have "hash_matches toy_sha toy_hash (take 3 [1, 2, 3, 4])" by code_simp
  ultimately show ?thesis
    using partition_hash_is_image_hash [of "toy_ota toy_hash" "[1, 2, 3, 4]" toy_hash] by (simp add: toy_ota_def numeral_3_eq_3)
qed

theorem update_installs_witness:
  "ot_running (foldl ota_do toy_update_dev ([OtaCommand (toy_ota toy_hash) 1 toy_call OtaCheck, OtaRun (toy_ota toy_hash) 0, OtaRun (toy_ota toy_hash) 0] @
     [OtaCommand (toy_ota toy_hash) 1 toy_call OtaUpdate, OtaRun (toy_ota toy_hash) 0, OtaRun (toy_ota toy_hash) 0] @ map (\<lambda>d. OtaRun d 0) [] @
     [OtaRun (toy_ota toy_hash) 0, OtaRun (toy_ota toy_hash) 0, OtaRun (toy_ota toy_hash) 0,
      OtaBoot (toy_ota toy_hash) \<lparr> oc_version = Some ''1.10.0'', oc_manifest = None \<rparr>])) = toy_image"
proof -
  have s: "serves (toy_ota toy_hash) ''1.10.0'' ''https://a/fw'' toy_hash"
    by (simp add: serves_def toy_ota_def toy_manifest_def read_manifest_def MANIFEST_BUF_SIZE_def is_redirect_def numeral_eq_Suc)
  have h: "length toy_hash = 64" "hash_matches toy_sha toy_hash (take 3 toy_image)" by code_simp+
  have d: "delivers (toy_ota toy_hash) (received [] (ot_other toy_update_dev)) toy_hash toy_image"
    using h(2) by (simp add: delivers_def received_def toy_ota_def reads_ok_def numeral_3_eq_3)
  have k: "fst (sk_auth_confirm_consume 1 toy_token (ot_confirm toy_update_dev)) = ESP_OK"
    by code_simp
  have a: "sk_cli_arg_named toy_call ''url'' = None" by code_simp
  have t: "ot_tasks toy_update_dev = []" "\<not> sk_ota_is_busy toy_update_dev" "ot_manifest toy_update_dev \<noteq> []"
    "os_current (ot_status toy_update_dev) = ''1.9.3''"
    by (simp_all add: toy_update_dev_def ota_static_def sk_ota_is_busy_def ota_status0_def)
  have v: "semver_cmp (take 15 ''1.10.0'') (os_current (ot_status toy_update_dev)) = Some 1" using newer_version by (simp add: t(4))
  have o: "confirm_token toy_call = Some toy_token" "od_begin (toy_ota toy_hash) = OtaOk" "od_handle (toy_ota toy_hash)" "od_mem (toy_ota toy_hash)"
    by (simp_all add: toy_call_def toy_ota_def)
  show ?thesis
    by (rule update_installs [OF t(1-3) s _ h(1) v _ a o(1) k o(2,3) _ d o(4) refl, THEN conjunct1]) simp_all
qed

section \<open>A rejected image is booted by a rollback\<close>

text \<open>
  An image whose hash was refused stays in the other partition, and \<open>ota.rollback\<close> makes it the next to boot: it has a
  description, and nothing remembers the refusal.
\<close>

lemma rejected_image_boots:
  fixes n :: int
  assumes "od_other d" "od_desc d part \<noteq> None" "od_set_boot d part = ESP_OK" "od_perform d (ot_other w) = (OtaOk, part)" "od_complete d"
    and "\<not> verify_partition_sha256 d part (da_sha da)" "da_verify da"
    and "confirm_token ctx = Some tok" "\<And>v. fst (sk_auth_confirm_consume now tok (ot_confirm w)) = ESP_OK" "od_mem db"
  defines "w1 \<equiv> download_step d da n w"
  shows "os_state (ot_status w1) = SK_OTA_ERROR \<and> os_message (ot_status w1) = ''sha256 mismatch'' \<and>
    ot_running (ota_boot db cfg (cmd_ota_rollback d now ctx w1)) = part"
proof -
  have w1: "ot_other w1 = part" "os_state (ot_status w1) = SK_OTA_ERROR" "os_message (ot_status w1) = ''sha256 mismatch''"
    "ot_confirm w1 = ot_confirm w"
    using assms(4-7) by (simp_all add: w1_def download_step_def install_fail_def Let_def)
  obtain slots where c: "sk_auth_confirm_consume now tok (ot_confirm w) = (ESP_OK, slots)"
    using assms(9) by (cases "sk_auth_confirm_consume now tok (ot_confirm w)") simp
  obtain v where v: "od_desc d part = Some v" using assms(2) by auto
  have "ot_other (cmd_ota_rollback d now ctx w1) = part \<and> ot_boot_other (cmd_ota_rollback d now ctx w1)"
    using assms(1,3,8) w1 c v
    by (simp add: cmd_ota_rollback_def sk_ota_rollback_def sk_ota_can_rollback_def Let_def)
  then show ?thesis using w1 assms(10) by (simp add: ota_boot_def sk_ota_init_def ota_static_def Let_def)
qed

section \<open>What the code does\<close>

text \<open>
  The busy state is set by the worker at its first turn, not by the command: two checks (or a check and an update) that are
  taken before it are both accepted.
\<close>

lemma two_ota_workers:
  assumes "\<not> sk_ota_is_busy w" "od_mem d" "od_task d" "url \<noteq> []"
  shows "fst (sk_ota_start d (Some url) (snd (sk_ota_start d (Some url) w))) = ESP_OK"
  using assms by (simp add: sk_ota_start_def start_download_def sk_ota_is_busy_def Let_def)

text \<open>An update while one is running is answered as if no update were cached.\<close>

lemma busy_update_answers_no_update:
  assumes "sk_ota_is_busy w" "confirm_token ctx = Some tok" "sk_auth_confirm_consume now tok (ot_confirm w) = (ESP_OK, slots)"
  shows "ot_out (cmd_ota_start d now ctx w) = ot_out w @ [OCli (CliErr SK_ERR_NO_UPDATE (reason ''no_cached_update_run_check_first''))]"
  using assms by (simp add: cmd_ota_start_def sk_ota_start_def sk_ota_is_busy_def answer_o_def Let_def)

text \<open>A hash in the manifest that does not have 64 characters is dropped: the image is then not verified at all.\<close>

lemma malformed_hash_disables_check:
  "length sha \<noteq> 64 \<Longrightarrow> \<not> os_has_sha (ot_status (store_manifest ver url (Some sha) w))"
  by (simp add: store_manifest_def Let_def)

text \<open>A version with the customary letter in front is version 0.0.0.\<close>

lemma letter_version: "semver_cmp ''v9.9.9'' ''0.0.1'' = Some (-1)"
  by code_simp

end
