(* ===== verification/Spec2Isabelle.thy ===== *)
theory Spec2Isabelle
  imports LsTimerRun LsTimerCommands SkCliProps SkEventBus LsRelayRun LsResetApiProps SkPassphraseProps SkSessionProps LsSmtpProps LsMailGroupsCommands LsReminderProps SkControlProps SkPrettyProps SkHelpProps SkBaselineProps SkApiExamples SkWifiExamples LsSystemExamples SkOtaExamples
begin

text \<open>
  Verification library of the LebensSpur firmware, the program under \<open>src/Neue\<close>: an ESP32-C6 device that
  counts down and, unless its owner resets the countdown in time, switches a relay, sends mails and
  calls webhooks.

  \<^bold>\<open>The program.\<close> The core library \<open>sk_core\<close> gives every component a command line (\<open>sk_cli.c\<close>), an event bus
  (\<open>sk_event_bus.c\<close>), a log, the baseline commands, a button, and the security layer: bonds and pairing
  (\<open>sk_auth.c\<close>, \<open>sk_auth_ecdh.c\<close>), the handshake and the signed envelopes of a connection (\<open>sk_auth_handshake.c\<close>,
  \<open>sk_secure_session.c\<close>), message authentication and confirm tokens (\<open>sk_auth_hmac.c\<close>, \<open>sk_auth_confirm.c\<close>) and
  the passphrase (\<open>sk_passphrase.c\<close>). The product components are the countdown (\<open>ls_timer_engine\<close>), the relay
  (\<open>ls_relay\<close>), the SMTPS client (\<open>ls_smtp\<close>), the mail groups (\<open>ls_mail_groups\<close>), the reminder (\<open>ls_reminder\<close>), the
  HTTP reset endpoint (\<open>ls_reset_api\<close>) and the outbound webhooks (\<open>sk_api\<close>, of the core library). They talk over the
  bus: the countdown publishes \<open>timer.alarm\<close> (taken by reminder and webhooks) and \<open>timer.triggered\<close> (taken by relay,
  mail groups and webhooks), the endpoint publishes \<open>timer.reset.requested\<close>
  (taken by the countdown), the button leads to \<open>control.short-press\<close> (pairing window) and
  \<open>device.factory-reset.requested\<close> (taken by everyone with flash). \<open>main.c\<close> starts them in a fixed order.

  \<^bold>\<open>Model and code.\<close> One group of theories per component; a theory without suffix holds the model, those with
  \<open>Props\<close>, \<open>Run\<close>, \<open>Recovery\<close>, \<open>Flash\<close>, \<open>Send\<close>, \<open>Server\<close>, \<open>Commands\<close> its lemmas. The definitions have the names of
  the C functions; the static variables of a file are a record, a handler is a function on it that also returns
  what it printed (\<open>cli_out\<close>) and what it did to the rest of the device (\<open>eff\<close>: events, log records, pins).
  \<^item> \<open>LSPrelude\<close>: C integers and strings, decimal and hexadecimal text, error codes, flash, clock, effects, and
    the locales \<open>stepping\<close> (an invariant over every run) and \<open>codec\<close> (a reader after its writer).
  \<^item> \<open>SkErrors\<close>: \<open>sk_errors.h\<close>, \<open>sk_errors.c\<close>. \<open>SkEventBus\<close>: \<open>sk_event_bus.c\<close>.
  \<^item> \<open>SkCli\<close>, \<open>SkCliProps\<close>: the dispatcher of \<open>sk_cli.c\<close>; \<open>SkHelp\<close>, \<open>SkHelpProps\<close>: its \<open>help\<close>; \<open>SkPretty\<close>,
    \<open>SkPrettyProps\<close>: its pretty printer; \<open>SkCommandTable\<close>, \<open>SkCommandHelp\<close>: the command tables of all components in
    the order of \<open>main.c\<close>.
  \<^item> \<open>SkLog\<close>, \<open>SkLogProps\<close>: \<open>sk_log.c\<close>. \<open>SkBaseline\<close>, \<open>SkBaselineProps\<close>: \<open>sk_baseline.c\<close>.
  \<^item> \<open>SkButton\<close>: \<open>sk_button.c\<close>; \<open>SkControl\<close>, \<open>SkControlProps\<close>: \<open>sk_control.c\<close> and both together.
  \<^item> \<open>SkAuthHmac\<close>, \<open>SkAuthHmacProps\<close>: \<open>sk_auth_hmac.c\<close>, \<open>sk_auth_confirm.c\<close>. \<open>SkAuth\<close>, \<open>SkAuthProps\<close>: the bonds of
    \<open>sk_auth.c\<close>; \<open>SkPairing\<close>, \<open>SkPairingProps\<close>: its pairing dialogue and commands. \<open>SkPassphrase\<close>,
    \<open>SkPassphraseProps\<close>: \<open>sk_passphrase.c\<close>. \<open>SkSession\<close>, \<open>SkSessionProps\<close>: \<open>sk_auth_handshake.c\<close>,
    \<open>sk_secure_session.c\<close>.
  \<^item> \<open>LsTimer\<close> with \<open>LsTimerProps\<close>, \<open>LsTimerFlash\<close>, \<open>LsTimerRecovery\<close>, \<open>LsTimerCommands\<close>: \<open>ls_timer_engine.c\<close>.
    \<open>LsRelay\<close> with \<open>LsRelayProps\<close>, \<open>LsRelayRun\<close>: \<open>ls_relay.c\<close>. \<open>LsResetApi\<close>, \<open>LsResetApiProps\<close>: \<open>ls_reset_api.c\<close>.
  \<^item> \<open>LsMailText\<close>: the text helpers that mail groups and reminder share. \<open>LsSmtp\<close> with \<open>LsSmtpProps\<close>,
    \<open>LsSmtpSend\<close>, \<open>LsSmtpServer\<close>: \<open>ls_smtp.c\<close>. \<open>LsMailGroups\<close> with \<open>LsMailGroupsProps\<close>, \<open>LsMailGroupsCommands\<close>:
    \<open>ls_mail_groups.c\<close>. \<open>LsReminder\<close>, \<open>LsReminderProps\<close>: \<open>ls_reminder.c\<close>.
  \<^item> \<open>SkBle\<close>: \<open>sk_transport_ble.c\<close> and the connection state, writer and line assembly of \<open>sk_transport_ble_gatt.c\<close>;
    \<open>SkMdns\<close>: \<open>sk_mdns.c\<close>.
  \<^item> \<open>LsSystem\<close>: the components together, with the subscriptions of \<open>main.c\<close>, the bus and its nested publications, the
    queues with the tasks that wait for room, the countdown task, and the end of everything at \<open>esp_restart\<close>;
    \<open>LsSystemProps\<close> what holds of the whole device, \<open>LsSystemExamples\<close> a concrete one. \<open>LsTimerRun\<close>: the countdown
    behind its queue, driven by command lines.
  \<^item> \<open>SkOta\<close>: \<open>sk_ota.c\<close>; \<open>SkOtaProps\<close> (versions, hash, download loop), \<open>SkOtaRunProps\<close> (runs), \<open>SkOtaInstall\<close> (a whole
    update) its lemmas, \<open>SkOtaExamples\<close> concrete devices.
  \<^item> \<open>SkWifi\<close> (credentials, static address, connect flow, driver events), \<open>SkWifiCommands\<close> (scan, workers, commands,
    start-up, runs): \<open>sk_wifi.c\<close>; \<open>SkWifiProps\<close>, \<open>SkWifiRunProps\<close>, \<open>SkWifiTextProps\<close> its lemmas, \<open>SkWifiExamples\<close> concrete devices.
  \<^item> \<open>SkApi\<close> (slots, flash, event hooks that wipe), \<open>SkApiSend\<close> (template, request, signature, the worker and chain
    tasks), \<open>SkApiCommands\<close> (the twelve handlers): \<open>sk_api.c\<close>; \<open>SkApiProps\<close> on its runs and flash, \<open>SkApiFireProps\<close>
    on what the countdown sends, \<open>SkApiTextProps\<close> on the template, \<open>SkApiListProps\<close> on the answers of the lists,
    \<open>SkApiExamples\<close> the concrete devices.
  \<^bold>\<open>What the lemmas show.\<close> For the whole device: unattended, it orders relay, mails and webhooks exactly once and
  at its deadline, a request with the key that finds the countdown queue empty postpones that, a factory reset reaches every component. For the countdown: it fires exactly once and at its instant, alarms as configured,
  resets re-arm it, vacations pause it, restarts resume it, and flash is in step. For relay: the exact drive, the
  line idle at the end whatever other tasks do, the reaction to an abort. For mail: a send against a reference SMTP
  server has exactly the specified result, the groups are mailed once each, the reminder once per alarm, and their
  configurations survive power cycles. For webhooks: the countdown starts exactly the due slots, a paired phone accepts
  the signature and reaches its own slot only, the rendered body is the template with its references replaced, tokens
  are never shown, an answered request is not repeated. For Wi-Fi: the retries alternate between the two networks, a saved network comes
  back, a disconnect (and a scan) keeps the device off, the workers are single-flight while their handlers do not overlap
  (the code does nothing against that). For the firmware update: while each worker begins
  before the next command, an update that carries a hash activates only an image with that hash. For security: noninterference of unauthenticated lines, confirm tokens,
  the bond table as a finite map, pairing behind the passphrase, sessions, replay, guesses. For the command line:
  resolution, tables, help, the layout of answers, the log ring. Where an operation overruns an array, loses data
  or never returns, a theorem shows the input.

  \<^bold>\<open>Parameters.\<close> Code that is not part of the repository is an argument: the flash (\<open>nvs_ops\<close>, with \<open>nvs_lawful\<close> as
  the hypothesis of persistence theorems and \<open>nvs_map_ops\<close> as a store that has it), HMAC-SHA256, Curve25519, base64,
  the TLS connection, the HTTP client, the Wi-Fi driver, the Bluetooth stack, the update library, SHA-256, the JSON parser, random bytes, the
  results of ESP-IDF calls. Time is a \<open>clock\<close> with uptime and
  wall clock.

  \<^bold>\<open>Concurrency, bounds, fuel.\<close> Tasks and queues appear as the sequence of the events they take, over which
  every theorem quantifies; the relay sequence and the mail send take what other tasks do at every pause as an
  argument; the Wi-Fi operations are cut at their pauses and at the test and the setting of their busy
  flags, the update at its pauses and downloads, and a run is any interleaving of the pieces.
  Arrays of characters are lists cut where the C code cuts them; a write past an array is the result
  \<open>None\<close> or an outcome of its own. Loops that may not end are \<open>partial_function (option)\<close> (the TLS write loop) or
  take fuel (the pretty printer); their theorems say that some fuel suffices, or that none does.

  \<^bold>\<open>Not modelled.\<close> The TCP and USB transports, of Bluetooth the bring-up of the stack and its attribute tables,
  \<open>sk_identity.c\<close>, \<open>sk_capabilities.c\<close>, \<open>sk_led.c\<close> and the remaining start-up glue of \<open>sk_core.c\<close> and \<open>main.c\<close>, which
  mostly call driver and network libraries. \<open>src/ALTE\<close> is an earlier product generation that this firmware does
  not build; \<open>src/Neue/build\<close> and \<open>src/Neue/managed_components\<close> are generated or third-party.
\<close>

end
